(* ===== verification/Sms_Prelude.thy ===== *)
theory Sms_Prelude
  imports Main "HOL-Library.Word"
begin

unbundle bit_operations_syntax

text \<open>
  The vocabulary the component theories share: the names of the machine types, the shape of a
  C++ member function that works on mutable objects and reports success as a \<^verbatim>\<open>bool\<close>, the
  rules that lift an invariant through such functions, and generic lemmas on words and lists.
\<close>

section \<open>Machine types\<close>

text \<open>
  \<^verbatim>\<open>uint8_t\<close> and \<^verbatim>\<open>char\<close> are \<open>u8\<close>, \<^verbatim>\<open>uint16_t\<close> is \<open>u16\<close>; a \<^verbatim>\<open>std::string\<close>, a
  \<^verbatim>\<open>std::vector<uint8_t>\<close> and a fixed array of bytes are lists of \<open>u8\<close>.
\<close>

type_synonym u8 = "8 word"
type_synonym u16 = "16 word"
type_synonym u32 = "32 word"
type_synonym u64 = "64 word"
type_synonym bytes = "u8 list"

text \<open>The largest message the service handles, from \<^verbatim>\<open>sms_constants_utils.h\<close>.\<close>

definition MMS_PDU_MAX_SIZE :: nat where
  "MMS_PDU_MAX_SIZE = 10 * 1024 * 1024"

text \<open>
  The conversion of an \<^verbatim>\<open>int\<close> to a \<^verbatim>\<open>uint8_t\<close> or \<^verbatim>\<open>uint16_t\<close> parameter where the value may
  leave the range; \<open>u16_pred\<close> is \<^verbatim>\<open>GetIndex() - 1\<close> passed as a \<^verbatim>\<open>uint16_t\<close>, which
  is 65535 at index 0.
\<close>

definition to_u8 :: "nat \<Rightarrow> nat" where
  "to_u8 n = n mod 256"

definition u16_pred :: "nat \<Rightarrow> nat" where
  "u16_pred n = (n + 65535) mod 65536"

lemma to_u8_le: "to_u8 n \<le> n"
  by (simp add: to_u8_def)

lemma to_u8_bound: "to_u8 n < 256"
  by (simp add: to_u8_def)

lemma to_u8_id: "n < 256 \<Longrightarrow> to_u8 n = n"
  by (simp add: to_u8_def)

lemma u16_pred_0 [simp]: "u16_pred 0 = 65535"
  by (simp add: u16_pred_def)

lemma u16_pred_Suc: "n < 65535 \<Longrightarrow> u16_pred (Suc n) = n"
  by (simp add: u16_pred_def)

lemma u16_pred_pos: "0 < n \<Longrightarrow> n \<le> 65535 \<Longrightarrow> u16_pred n = n - 1"
  by (cases n) (simp_all add: u16_pred_Suc)

section \<open>Fallible operations on mutable state\<close>

text \<open>
  A member function \<^verbatim>\<open>bool f(Buffer &b, T &out)\<close> is an operation on the state it mutates. It
  ends in one of three ways: \<open>Ok\<close> is \<^verbatim>\<open>return true\<close> with the value handed out and the new state;
  \<open>Fail\<close> is \<^verbatim>\<open>return false\<close> (or an early \<^verbatim>\<open>return\<close> of a \<^verbatim>\<open>void\<close> function), which keeps the
  state reached so far, since the caller can go on with it; \<open>Fault\<close> is an access outside an
  array, which C++ leaves undefined.
\<close>

datatype ('a, 's) outcome = Ok 'a 's | Fail 's | Fault

type_synonym ('s, 'a) op = "'s \<Rightarrow> ('a, 's) outcome"

definition ret :: "'a \<Rightarrow> ('s, 'a) op" where
  "ret x s = Ok x s"

definition fail :: "('s, 'a) op" where
  "fail s = Fail s"

definition fault :: "('s, 'a) op" where
  "fault s = Fault"

definition bnd :: "('s, 'a) op \<Rightarrow> ('a \<Rightarrow> ('s, 'b) op) \<Rightarrow> ('s, 'b) op" where
  "bnd m k s = (case m s of Ok x t \<Rightarrow> k x t | Fail t \<Rightarrow> Fail t | Fault \<Rightarrow> Fault)"

definition seq :: "('s, 'a) op \<Rightarrow> ('s, 'b) op \<Rightarrow> ('s, 'b) op" where
  "seq m n = bnd m (\<lambda>_. n)"

text \<open>\<^verbatim>\<open>if (!c) return false;\<close>\<close>

definition ensure :: "bool \<Rightarrow> ('s, unit) op" where
  "ensure c s = (if c then Ok () s else Fail s)"

text \<open>A call whose \<^verbatim>\<open>bool\<close> result the caller inspects itself, and one whose result it drops.\<close>

definition attempt :: "('s, 'a) op \<Rightarrow> ('s, 'a option) op" where
  "attempt m s = (case m s of Ok x t \<Rightarrow> Ok (Some x) t | Fail t \<Rightarrow> Ok None t | Fault \<Rightarrow> Fault)"

definition ignore :: "('s, 'a) op \<Rightarrow> ('s, unit) op" where
  "ignore m s = (case m s of Ok x t \<Rightarrow> Ok () t | Fail t \<Rightarrow> Ok () t | Fault \<Rightarrow> Fault)"

definition upd :: "('s \<Rightarrow> 's) \<Rightarrow> ('s, unit) op" where
  "upd f s = Ok () (f s)"

definition gets :: "('s \<Rightarrow> 'a) \<Rightarrow> ('s, 'a) op" where
  "gets f s = Ok (f s) s"

text \<open>A read of element \<open>i\<close> of an array.\<close>

definition rd_at :: "'a list \<Rightarrow> nat \<Rightarrow> ('s, 'a) op" where
  "rd_at xs i = (if i < length xs then ret (xs ! i) else fault)"

text \<open>
  A decoder works on a pair: the buffer it consumes and the struct it fills. \<open>on_buf\<close> runs a
  buffer operation there; \<open>zoom get put\<close> runs a decoder of a field of the struct.
\<close>

definition on_buf :: "('b, 'a) op \<Rightarrow> ('b \<times> 'o, 'a) op" where
  "on_buf m s = (case m (fst s) of
     Ok x t \<Rightarrow> Ok x (t, snd s) | Fail t \<Rightarrow> Fail (t, snd s) | Fault \<Rightarrow> Fault)"

definition on_out :: "('o \<Rightarrow> 'o) \<Rightarrow> ('b \<times> 'o, unit) op" where
  "on_out f s = Ok () (fst s, f (snd s))"

definition get_out :: "('b \<times> 'o, 'o) op" where
  "get_out s = Ok (snd s) s"

definition zoom ::
  "('o \<Rightarrow> 'p) \<Rightarrow> ('p \<Rightarrow> 'o \<Rightarrow> 'o) \<Rightarrow> ('b \<times> 'p, 'a) op \<Rightarrow> ('b \<times> 'o, 'a) op" where
  "zoom get put m s = (case m (fst s, get (snd s)) of
     Ok x t \<Rightarrow> Ok x (fst t, put (snd t) (snd s))
   | Fail t \<Rightarrow> Fail (fst t, put (snd t) (snd s))
   | Fault \<Rightarrow> Fault)"

text \<open>A call that works on one array or string of the struct.\<close>

definition on_part :: "('o \<Rightarrow> 'p) \<Rightarrow> ('p \<Rightarrow> 'o \<Rightarrow> 'o) \<Rightarrow> ('p, 'a) op \<Rightarrow> ('b \<times> 'o, 'a) op" where
  "on_part get put m s = (case m (get (snd s)) of
     Ok x t \<Rightarrow> Ok x (fst s, put t (snd s))
   | Fail t \<Rightarrow> Fail (fst s, put t (snd s))
   | Fault \<Rightarrow> Fault)"

text \<open>A local array: \<open>m\<close> runs on \<open>arr\<close>, and its final content is handed on with the result.\<close>

definition with_new :: "'t \<Rightarrow> ('t, 'a) op \<Rightarrow> ('s, 'a \<times> 't) op" where
  "with_new arr m s = (case m arr of
     Ok x t \<Rightarrow> Ok (x, t) s | Fail t \<Rightarrow> Fail s | Fault \<Rightarrow> Fault)"

named_theorems op_simps \<open>evaluation of operations on a given state\<close>

lemmas op_defs =
  ret_def fail_def fault_def bnd_def seq_def ensure_def attempt_def ignore_def upd_def gets_def
  rd_at_def on_buf_def on_out_def get_out_def zoom_def on_part_def with_new_def

declare op_defs [op_simps]

text \<open>The loop \<^verbatim>\<open>for (i = 0; i < n; i++) if (!f(i)) return false;\<close> with the results collected.\<close>

fun collect :: "(nat \<Rightarrow> ('s, 'a) op) \<Rightarrow> nat \<Rightarrow> nat \<Rightarrow> ('s, 'a list) op" where
  "collect f i 0 = ret []"
| "collect f i (Suc n) = bnd (f i) (\<lambda>x. bnd (collect f (Suc i) n) (\<lambda>xs. ret (x # xs)))"

fun each :: "('a \<Rightarrow> ('s, unit) op) \<Rightarrow> 'a list \<Rightarrow> ('s, unit) op" where
  "each f [] = ret ()"
| "each f (x # xs) = seq (f x) (each f xs)"

section \<open>Invariants of operations\<close>

text \<open>
  \<open>valid P m Q E\<close>: from a state satisfying \<open>P\<close>, \<open>m\<close> never faults, ends \<open>Ok\<close> only with
  \<open>Q\<close> and \<open>Fail\<close> only with \<open>E\<close>. \<open>keeps I m\<close> is the case of an invariant. The rules in
  \<open>keeps_intros\<close> reduce \<open>keeps\<close> of a composed operation to its parts; the conditions the
  code has checked on the way are available to the parts.
\<close>

definition valid ::
  "('s \<Rightarrow> bool) \<Rightarrow> ('s, 'a) op \<Rightarrow> ('a \<Rightarrow> 's \<Rightarrow> bool) \<Rightarrow> ('s \<Rightarrow> bool) \<Rightarrow> bool" where
  "valid P m Q E \<longleftrightarrow>
     (\<forall>s. P s \<longrightarrow> (case m s of Ok x t \<Rightarrow> Q x t | Fail t \<Rightarrow> E t | Fault \<Rightarrow> False))"

definition keeps :: "('s \<Rightarrow> bool) \<Rightarrow> ('s, 'a) op \<Rightarrow> bool" where
  "keeps I m \<longleftrightarrow> valid I m (\<lambda>_. I) I"

named_theorems keeps_intros \<open>invariant preservation of operations\<close>

lemma keepsI:
  assumes "\<And>s. I s \<Longrightarrow> (case m s of Ok x t \<Rightarrow> I t | Fail t \<Rightarrow> I t | Fault \<Rightarrow> False)"
  shows "keeps I m"
  using assms by (simp add: keeps_def valid_def)

lemma keepsD: "keeps I m \<Longrightarrow> I s \<Longrightarrow> (case m s of Ok x t \<Rightarrow> I t | Fail t \<Rightarrow> I t | Fault \<Rightarrow> False)"
  by (simp add: keeps_def valid_def)

lemma keeps_no_fault: "keeps I m \<Longrightarrow> I s \<Longrightarrow> m s \<noteq> Fault"
  using keepsD by fastforce

lemma keeps_Ok: "keeps I m \<Longrightarrow> I s \<Longrightarrow> m s = Ok x t \<Longrightarrow> I t"
  using keepsD by fastforce

lemma keeps_Fail: "keeps I m \<Longrightarrow> I s \<Longrightarrow> m s = Fail t \<Longrightarrow> I t"
  using keepsD by fastforce

lemma validD: "valid P m Q E \<Longrightarrow> P s \<Longrightarrow> (case m s of Ok x t \<Rightarrow> Q x t | Fail t \<Rightarrow> E t | Fault \<Rightarrow> False)"
  by (simp add: valid_def)

lemma valid_bnd:
  assumes m: "valid P m Q E" and k: "\<And>x. valid (Q x) (k x) R E"
  shows "valid P (bnd m k) R E"
  unfolding valid_def
proof (intro allI impI)
  fix s
  assume "P s"
  with m have ms: "case m s of Ok x t \<Rightarrow> Q x t | Fail t \<Rightarrow> E t | Fault \<Rightarrow> False" by (rule validD)
  show "case bnd m k s of Ok x t \<Rightarrow> R x t | Fail t \<Rightarrow> E t | Fault \<Rightarrow> False"
  proof (cases "m s")
    case (Ok x t)
    with ms have "Q x t" by simp
    with k have "case k x t of Ok x t \<Rightarrow> R x t | Fail t \<Rightarrow> E t | Fault \<Rightarrow> False" by (rule validD)
    with Ok show ?thesis by (simp add: bnd_def)
  qed (use ms in \<open>simp_all add: bnd_def\<close>)
qed

lemma valid_weaken:
  assumes "valid P m Q E" "\<And>s. P' s \<Longrightarrow> P s" "\<And>x t. Q x t \<Longrightarrow> Q' x t" "\<And>t. E t \<Longrightarrow> E' t"
  shows "valid P' m Q' E'"
  unfolding valid_def
proof (intro allI impI)
  fix s
  assume "P' s"
  then have "P s" by (rule assms(2))
  with assms(1) have "case m s of Ok x t \<Rightarrow> Q x t | Fail t \<Rightarrow> E t | Fault \<Rightarrow> False"
    by (rule validD)
  with assms(3,4) show "case m s of Ok x t \<Rightarrow> Q' x t | Fail t \<Rightarrow> E' t | Fault \<Rightarrow> False"
    by (auto split: outcome.splits)
qed

text \<open>
  \<open>returns I m\<close>: from a state satisfying \<open>I\<close>, \<open>m\<close> comes to its end with a value (it neither faults nor fails) and keeps \<open>I\<close>.
\<close>

definition returns :: "('s \<Rightarrow> bool) \<Rightarrow> ('s, 'a) op \<Rightarrow> bool" where
  "returns I m \<longleftrightarrow> (\<forall>s. I s \<longrightarrow> (\<exists>x t. m s = Ok x t \<and> I t))"

named_theorems returns_intros \<open>operations that return\<close>

lemma returnsI: "(\<And>s. I s \<Longrightarrow> \<exists>x t. m s = Ok x t \<and> I t) \<Longrightarrow> returns I m"
  by (simp add: returns_def)

lemma returnsD: "returns I m \<Longrightarrow> I s \<Longrightarrow> \<exists>x t. m s = Ok x t \<and> I t"
  by (simp add: returns_def)

lemma returns_ret [returns_intros]: "returns I (ret x)"
  by (simp add: returns_def ret_def)

lemma returns_gets [returns_intros]: "returns I (gets f)"
  by (simp add: returns_def gets_def)

lemma returns_upd: "(\<And>s. I s \<Longrightarrow> I (f s)) \<Longrightarrow> returns I (upd f)"
  by (simp add: returns_def upd_def)

lemma returns_bnd [returns_intros]: "returns I m \<Longrightarrow> (\<And>x. returns I (k x)) \<Longrightarrow> returns I (bnd m k)"
  by (fastforce simp: returns_def bnd_def)

lemma returns_seq [returns_intros]: "returns I m \<Longrightarrow> returns I n \<Longrightarrow> returns I (seq m n)"
  by (simp add: seq_def returns_bnd)

lemma returns_if [returns_intros]:
  "(c \<Longrightarrow> returns I m) \<Longrightarrow> (\<not> c \<Longrightarrow> returns I n) \<Longrightarrow> returns I (if c then m else n)"
  by simp

lemma returns_option [returns_intros]:
  "(x = None \<Longrightarrow> returns I m) \<Longrightarrow> (\<And>y. x = Some y \<Longrightarrow> returns I (k y)) \<Longrightarrow>
   returns I (case x of None \<Rightarrow> m | Some y \<Rightarrow> k y)"
  by (cases x) simp_all

lemma returns_prod [returns_intros]: "(\<And>a b. x = (a, b) \<Longrightarrow> returns I (k a b)) \<Longrightarrow> returns I (case x of (a, b) \<Rightarrow> k a b)"
  by (cases x) simp

lemma returns_ignore [returns_intros]: "returns I m \<Longrightarrow> returns I (ignore m)"
  by (fastforce simp: returns_def ignore_def)

lemma returns_with_new: "m arr = Ok x t \<Longrightarrow> returns I (k (x, t)) \<Longrightarrow> returns I (bnd (with_new arr m) k)"
  by (simp add: returns_def bnd_def with_new_def)

lemma keeps_ret [keeps_intros]: "keeps I (ret x)"
  by (rule keepsI) (simp add: ret_def)

lemma keeps_fail [keeps_intros]: "keeps I fail"
  by (rule keepsI) (simp add: fail_def)

lemma keeps_ensure: "keeps I (ensure c)"
  by (rule keepsI) (simp add: ensure_def)

lemma keeps_bnd: "keeps I m \<Longrightarrow> (\<And>x. keeps I (k x)) \<Longrightarrow> keeps I (bnd m k)"
  by (auto simp: keeps_def intro: valid_bnd)

lemma keeps_seq: "keeps I m \<Longrightarrow> keeps I n \<Longrightarrow> keeps I (seq m n)"
  by (simp add: seq_def keeps_bnd)

lemma keeps_ensure_seq: "(c \<Longrightarrow> keeps I n) \<Longrightarrow> keeps I (seq (ensure c) n)"
  by (rule keepsI) (auto simp: seq_def bnd_def ensure_def dest: keepsD)

lemma keeps_if [keeps_intros]:
  "(c \<Longrightarrow> keeps I m) \<Longrightarrow> (\<not> c \<Longrightarrow> keeps I n) \<Longrightarrow> keeps I (if c then m else n)"
  by simp

lemma keeps_attempt [keeps_intros]: "keeps I m \<Longrightarrow> keeps I (attempt m)"
  by (rule keepsI, drule keepsD, assumption) (auto simp: attempt_def split: outcome.splits)

lemma keeps_ignore [keeps_intros]: "keeps I m \<Longrightarrow> keeps I (ignore m)"
  by (rule keepsI, drule keepsD, assumption) (auto simp: ignore_def split: outcome.splits)

lemma keeps_gets [keeps_intros]: "keeps I (gets f)"
  by (rule keepsI) (simp add: gets_def)

lemma keeps_upd: "(\<And>s. I s \<Longrightarrow> I (f s)) \<Longrightarrow> keeps I (upd f)"
  by (rule keepsI) (simp add: upd_def)

lemma keeps_rd_at: "i < length xs \<Longrightarrow> keeps I (rd_at xs i)"
  by (simp add: rd_at_def keeps_ret)

lemma keeps_option [keeps_intros]:
  "(x = None \<Longrightarrow> keeps I m) \<Longrightarrow> (\<And>y. x = Some y \<Longrightarrow> keeps I (k y)) \<Longrightarrow>
   keeps I (case x of None \<Rightarrow> m | Some y \<Rightarrow> k y)"
  by (cases x) simp_all

lemma keeps_collect: "(\<And>j. i \<le> j \<Longrightarrow> j < i + n \<Longrightarrow> keeps I (f j)) \<Longrightarrow> keeps I (collect f i n)"
proof (induction n arbitrary: i)
  case 0
  show ?case by (simp add: keeps_ret)
next
  case (Suc n)
  have "keeps I (collect f (Suc i) n)" using Suc.prems by (intro Suc.IH) simp
  moreover have "keeps I (f i)" using Suc.prems by simp
  ultimately show ?case by (auto intro!: keeps_bnd keeps_ret)
qed

lemma keeps_each: "(\<And>x. x \<in> set xs \<Longrightarrow> keeps I (f x)) \<Longrightarrow> keeps I (each f xs)"
  by (induction xs) (auto intro: keeps_ret keeps_seq)

lemma keeps_on_buf: "keeps I m \<Longrightarrow> keeps (\<lambda>s. I (fst s) \<and> J (snd s)) (on_buf m)"
  by (rule keepsI) (auto simp: on_buf_def split: outcome.splits dest: keepsD)

lemma keeps_on_out: "(\<And>x. J x \<Longrightarrow> J (f x)) \<Longrightarrow> keeps (\<lambda>s. I (fst s) \<and> J (snd s)) (on_out f)"
  by (rule keepsI) (simp add: on_out_def)

lemma keeps_get_out: "keeps I get_out"
  by (rule keepsI) (simp add: get_out_def)

lemma keeps_get_out_bnd:
  assumes "\<And>x. J x \<Longrightarrow> keeps (\<lambda>s. I (fst s) \<and> J (snd s)) (k x)"
  shows "keeps (\<lambda>s. I (fst s) \<and> J (snd s)) (bnd get_out k)"
proof (rule keepsI)
  fix s
  assume s: "I (fst s) \<and> J (snd s)"
  with keepsD [OF assms, of "snd s" s]
  show "case bnd get_out k s of Ok x t \<Rightarrow> I (fst t) \<and> J (snd t)
      | Fail t \<Rightarrow> I (fst t) \<and> J (snd t) | Fault \<Rightarrow> False"
    by (simp add: bnd_def get_out_def)
qed

lemma keeps_zoom:
  assumes "keeps (\<lambda>s. I (fst s) \<and> K (snd s)) m"
    and "\<And>x. J x \<Longrightarrow> K (get x)" and "\<And>x p. J x \<Longrightarrow> K p \<Longrightarrow> J (put p x)"
  shows "keeps (\<lambda>s. I (fst s) \<and> J (snd s)) (zoom get put m)"
proof (rule keepsI)
  fix s :: "'a \<times> 'd"
  assume s: "I (fst s) \<and> J (snd s)"
  with assms(2) have "(\<lambda>s. I (fst s) \<and> K (snd s)) (fst s, get (snd s))" by simp
  from keepsD [OF assms(1) this] s assms(3)
  show "case zoom get put m s of Ok x t \<Rightarrow> I (fst t) \<and> J (snd t)
      | Fail t \<Rightarrow> I (fst t) \<and> J (snd t) | Fault \<Rightarrow> False"
    by (auto simp: zoom_def split: outcome.splits)
qed

lemma keeps_on_part:
  assumes "keeps K m" and "\<And>x. J x \<Longrightarrow> K (get x)" and "\<And>x p. J x \<Longrightarrow> K p \<Longrightarrow> J (put p x)"
  shows "keeps (\<lambda>s. I (fst s) \<and> J (snd s)) (on_part get put m)"
  by (rule keepsI) (use assms in \<open>fastforce simp: on_part_def split: outcome.splits dest: keepsD\<close>)

lemma keeps_with_new: "keeps J m \<Longrightarrow> J arr \<Longrightarrow> keeps I (with_new arr m)"
  by (rule keepsI) (auto simp: with_new_def split: outcome.splits dest: keepsD)

lemma keeps_with_new_bnd:
  assumes "keeps J m" "J arr" "\<And>x t. J t \<Longrightarrow> keeps I (k (x, t))"
  shows "keeps I (bnd (with_new arr m) k)"
proof (rule keepsI)
  fix s
  assume s: "I s"
  show "case bnd (with_new arr m) k s of Ok x t \<Rightarrow> I t | Fail t \<Rightarrow> I t | Fault \<Rightarrow> False"
  proof (cases "m arr")
    case (Ok x t)
    with keepsD [OF assms(1,2)] have "J t" by simp
    with keepsD [OF assms(3) s] Ok show ?thesis by (simp add: bnd_def with_new_def)
  qed (use keepsD [OF assms(1,2)] s in \<open>simp_all add: bnd_def with_new_def\<close>)
qed

lemma collect_length: "collect f i n s = Ok xs t \<Longrightarrow> length xs = n"
  by (induction n arbitrary: i s xs t) (auto simp: ret_def bnd_def split: outcome.splits)

lemma keeps_collect_bnd:
  assumes "\<And>j. i \<le> j \<Longrightarrow> j < i + n \<Longrightarrow> keeps I (f j)" "\<And>xs. length xs = n \<Longrightarrow> keeps I (k xs)"
  shows "keeps I (bnd (collect f i n) k)"
proof (rule keepsI)
  fix s
  assume s: "I s"
  have c: "keeps I (collect f i n)" using assms(1) by (rule keeps_collect)
  show "case bnd (collect f i n) k s of Ok x t \<Rightarrow> I t | Fail t \<Rightarrow> I t | Fault \<Rightarrow> False"
  proof (cases "collect f i n s")
    case (Ok xs t)
    with keepsD [OF c s] have "I t" by simp
    with keepsD [OF assms(2)] Ok collect_length [OF Ok] show ?thesis by (simp add: bnd_def)
  qed (use keepsD [OF c s] in \<open>simp_all add: bnd_def\<close>)
qed

lemmas keeps_struct =
  keeps_intros keeps_ensure keeps_bnd keeps_seq keeps_on_buf keeps_on_out keeps_get_out

lemma bnd_assoc: "bnd (bnd m k) l = bnd m (\<lambda>x. bnd (k x) l)"
  by (rule ext) (auto simp: bnd_def split: outcome.splits)

lemma bnd_Ok: "m s = Ok x t \<Longrightarrow> bnd m k s = k x t"
  by (simp add: bnd_def)

lemma bnd_Fail: "m s = Fail t \<Longrightarrow> bnd m k s = Fail t"
  by (simp add: bnd_def)

lemma bnd_OkE:
  assumes "bnd m k s = Ok y u"
  obtains x t where "m s = Ok x t" "k x t = Ok y u"
  using assms by (auto simp: bnd_def split: outcome.splits)

lemma seq_Ok: "m s = Ok x t \<Longrightarrow> seq m n s = n t"
  by (simp add: seq_def bnd_def)

lemma on_buf_Ok: "m b = Ok x b' \<Longrightarrow> on_buf m (b, out) = Ok x (b', out)"
  by (simp add: on_buf_def)

section \<open>Words and lists\<close>

lemma word_eq_bits: "(\<And>n. n < LENGTH('a) \<Longrightarrow> bit x n = bit y n) \<Longrightarrow> x = (y :: 'a::len word)"
  by (rule bit_word_eqI) simp

lemma list_all_nth_u8: "(\<And>i. i < length xs \<Longrightarrow> xs ! i = ys ! i) \<Longrightarrow> length xs = length ys \<Longrightarrow> xs = ys"
  by (rule nth_equalityI) simp_all

text \<open>\<^verbatim>\<open>strlen\<close> and the C string held in a character array: up to the first NUL.\<close>

definition c_str :: "bytes \<Rightarrow> bytes" where
  "c_str xs = takeWhile (\<lambda>c. c \<noteq> 0) xs"

text \<open>Overwriting the elements of an array from position \<open>i\<close> on.\<close>

definition write_at :: "nat \<Rightarrow> 'a list \<Rightarrow> 'a list \<Rightarrow> 'a list" where
  "write_at i ys xs = take i xs @ ys @ drop (i + length ys) xs"

lemma length_write_at: "i + length ys \<le> length xs \<Longrightarrow> length (write_at i ys xs) = length xs"
  by (simp add: write_at_def)

lemma nth_write_at:
  "i + length ys \<le> length xs \<Longrightarrow> j < length xs \<Longrightarrow>
   write_at i ys xs ! j = (if i \<le> j \<and> j < i + length ys then ys ! (j - i) else xs ! j)"
  by (auto simp: write_at_def nth_append min_def)

lemma take_write_at: "i + length ys \<le> length xs \<Longrightarrow> take (i + length ys) (write_at i ys xs) = take i xs @ ys"
  by (simp add: write_at_def)

lemma drop_write_at: "i + length ys \<le> length xs \<Longrightarrow> drop (i + length ys) (write_at i ys xs) = drop (i + length ys) xs"
  by (simp add: write_at_def)

lemma drop_write_at_here: "i + length ys \<le> length xs \<Longrightarrow> drop i (write_at i ys xs) = ys @ drop (i + length ys) xs"
  by (simp add: write_at_def)

lemma list_update_rev_append [simp]: "(rev p @ x # xs)[length p := v] = rev p @ v # xs"
  by (simp add: list_update_append)

lemma drop_eq_ConsD:
  assumes "drop n xs = y # ys"
  shows "n < length xs \<and> xs ! n = y \<and> drop (Suc n) xs = ys"
proof -
  have n: "n < length xs" using assms by (metis drop_all linorder_not_less list.distinct(1))
  with assms Cons_nth_drop_Suc [OF n] show ?thesis by simp
qed

end
