(* ===== verification/Sms_Pdu_Buffer.thy ===== *)
theory Sms_Pdu_Buffer
  imports Sms_Prelude
begin

text \<open>
  \<^verbatim>\<open>services/sms/sms_pdu_buffer.cpp\<close>: the bounded byte buffer under every GSM and CDMA codec,
  with a byte cursor and a bit cursor inside the current byte. The theory holds the class and
  its operations, the invariant they keep, the bit-stream meaning of \<open>ReadBits\<close> and
  \<open>WriteBits\<close>, and the byte-stream interfaces \<open>byte_source\<close> and \<open>byte_sink\<close> that the
  codecs use, interpreted on the buffer.
\<close>

section \<open>The class\<close>

text \<open>
  The fields \<^verbatim>\<open>data_\<close>, \<^verbatim>\<open>index_\<close>, \<^verbatim>\<open>length_\<close>, \<^verbatim>\<open>bitIndex_\<close> carry the prefix \<open>buf_\<close>. The data is \<open>None\<close> for a null pointer. The cursors are naturals: \<open>wf_pdu\<close> below
  bounds them by 256, so the \<^verbatim>\<open>uint16_t\<close> and \<^verbatim>\<open>uint8_t\<close> fields of the code never wrap.
\<close>

record SmsPduBuffer =
  buf_data :: "bytes option"
  buf_index :: nat
  buf_length :: nat
  buf_bitIndex :: nat

type_synonym SmsReadBuffer = SmsPduBuffer
type_synonym SmsWriteBuffer = SmsPduBuffer

definition PDU_BUFFER_MAX_SIZE :: nat where
  "PDU_BUFFER_MAX_SIZE = 255"

definition PDU_BUFFER_MIN_SIZE :: nat where
  "PDU_BUFFER_MIN_SIZE = 2"

definition IsEmpty :: "SmsPduBuffer \<Rightarrow> bool" where
  "IsEmpty b = (buf_data b = None)"

definition GetIndex :: "SmsPduBuffer \<Rightarrow> nat" where
  "GetIndex b = buf_index b"

definition GetSize :: "SmsPduBuffer \<Rightarrow> nat" where
  "GetSize b = buf_length b"

definition SetIndex :: "nat \<Rightarrow> (SmsPduBuffer, unit) op" where
  "SetIndex index b =
     (if buf_bitIndex b \<noteq> 0 then Fail b
      else if index > buf_length b then Fail b
      else Ok () (b\<lparr>buf_index := index\<rparr>))"

definition MoveForward :: "nat \<Rightarrow> (SmsPduBuffer, nat) op" where
  "MoveForward len b =
     (if buf_bitIndex b \<noteq> 0 then Ok (buf_index b) b
      else if buf_index b + len > buf_length b then Ok (buf_index b) b
      else Ok (buf_index b) (b\<lparr>buf_index := buf_index b + len\<rparr>))"

definition MoveBack :: "nat \<Rightarrow> (SmsPduBuffer, nat) op" where
  "MoveBack len b =
     (if buf_bitIndex b \<noteq> 0 then Ok (buf_index b) b
      else if buf_index b < len then Ok (buf_index b) b
      else Ok (buf_index b) (b\<lparr>buf_index := buf_index b - len\<rparr>))"

definition SkipBits :: "(SmsPduBuffer, nat) op" where
  "SkipBits b =
     (let b' = (if buf_bitIndex b > 0 then b\<lparr>buf_index := Suc (buf_index b), buf_bitIndex := 0\<rparr> else b)
      in Ok (buf_index b') b')"

definition GetPduBuffer :: "(SmsPduBuffer, bytes) op" where
  "GetPduBuffer b =
     (case buf_data b of
        None \<Rightarrow> Fail b
      | Some d \<Rightarrow>
          if buf_index b = 0 then Fail b
          else if buf_bitIndex b \<noteq> 0 then Fail b
          else if buf_index b \<ge> buf_length b then Fail b
          else if buf_index b \<le> length d then Ok (take (buf_index b) d) b
          else Fault)"

section \<open>The read buffer\<close>

definition SmsReadBuffer :: "bytes \<Rightarrow> SmsReadBuffer" where
  "SmsReadBuffer hex =
     (if length hex < PDU_BUFFER_MIN_SIZE \<or> length hex > PDU_BUFFER_MAX_SIZE + 1
      then \<lparr>buf_data = None, buf_index = 0, buf_length = 0, buf_bitIndex = 0\<rparr>
      else \<lparr>buf_data = Some hex, buf_index = 0, buf_length = length hex, buf_bitIndex = 0\<rparr>)"

definition ReadBits :: "nat \<Rightarrow> (SmsReadBuffer, u8) op" where
  "ReadBits l b =
     (case buf_data b of
        None \<Rightarrow> Fail b
      | Some d \<Rightarrow>
          if l = 0 \<or> l > 8 then Fail b
          else if buf_bitIndex b + l \<le> 8 then
            (if buf_index b = buf_length b then Fail b
             else if buf_index b < length d then
               (let v = drop_bit (8 - l) (push_bit (buf_bitIndex b) (d ! buf_index b))
                in if buf_bitIndex b + l = 8
                   then Ok v (b\<lparr>buf_index := Suc (buf_index b), buf_bitIndex := 0\<rparr>)
                   else Ok v (b\<lparr>buf_bitIndex := buf_bitIndex b + l\<rparr>))
             else Fault)
          else
            (if Suc (buf_index b) = buf_length b then Fail b
             else if Suc (buf_index b) < length d then
               (let v = push_bit (buf_bitIndex b) (d ! buf_index b);
                    bitIndex = l + buf_bitIndex b - 8
                in Ok (drop_bit (8 - l) v OR drop_bit (8 - bitIndex) (d ! Suc (buf_index b)))
                     (b\<lparr>buf_index := Suc (buf_index b), buf_bitIndex := bitIndex\<rparr>))
             else Fault))"

definition ReadByte :: "(SmsReadBuffer, u8) op" where
  "ReadByte b =
     (case buf_data b of
        None \<Rightarrow> Fail b
      | Some d \<Rightarrow>
          if buf_bitIndex b \<noteq> 0 then ReadBits 8 b
          else if buf_index b = buf_length b then Fail b
          else if buf_index b < length d then Ok (d ! buf_index b) (b\<lparr>buf_index := Suc (buf_index b)\<rparr>)
          else Fault)"

definition PickOneByte :: "(SmsReadBuffer, u8) op" where
  "PickOneByte b =
     (case buf_data b of
        None \<Rightarrow> Fail b
      | Some d \<Rightarrow>
          if buf_index b \<ge> buf_length b then Fail b
          else if buf_index b < length d then Ok (d ! buf_index b) b
          else Fault)"

definition PickOneByteFromIndex :: "nat \<Rightarrow> (SmsReadBuffer, u8) op" where
  "PickOneByteFromIndex index b =
     (case buf_data b of
        None \<Rightarrow> Fail b
      | Some d \<Rightarrow>
          if buf_length b = 0 \<or> index \<ge> buf_length b then Fail b
          else if index < length d then Ok (d ! index) b
          else Fault)"

definition ReadWord :: "(SmsReadBuffer, u16) op" where
  "ReadWord b =
     (case buf_data b of
        None \<Rightarrow> Fail b
      | Some d \<Rightarrow>
          if Suc (buf_index b) < buf_length b \<and> buf_bitIndex b = 0 then
            (if Suc (buf_index b) < length d
             then Ok (push_bit 8 (ucast (d ! buf_index b)) OR ucast (d ! Suc (buf_index b)))
                    (b\<lparr>buf_index := buf_index b + 2\<rparr>)
             else Fault)
          else Fail b)"

section \<open>The write buffer\<close>

definition SmsWriteBuffer :: SmsWriteBuffer where
  "SmsWriteBuffer =
     \<lparr>buf_data = Some (replicate (PDU_BUFFER_MAX_SIZE + 1) 0), buf_index = 0,
      buf_length = PDU_BUFFER_MAX_SIZE + 1, buf_bitIndex = 0\<rparr>"

definition WriteBits :: "u8 \<Rightarrow> nat \<Rightarrow> (SmsWriteBuffer, unit) op" where
  "WriteBits v l b =
     (case buf_data b of
        None \<Rightarrow> Fail b
      | Some d \<Rightarrow>
          if l = 0 \<or> l > 8 then Fail b
          else if buf_bitIndex b + l \<le> 8 then
            (if buf_index b = buf_length b then Fail b
             else if buf_index b < length d then
               (let d' = d[buf_index b := d ! buf_index b OR push_bit (8 - buf_bitIndex b - l) v]
                in if buf_bitIndex b + l = 8
                   then Ok () (b\<lparr>buf_data := Some d', buf_index := Suc (buf_index b), buf_bitIndex := 0\<rparr>)
                   else Ok () (b\<lparr>buf_data := Some d', buf_bitIndex := buf_bitIndex b + l\<rparr>))
             else Fault)
          else
            (if Suc (buf_index b) = buf_length b then Fail b
             else if Suc (buf_index b) < length d then
               (let bitIndex = l + buf_bitIndex b - 8;
                    d1 = d[buf_index b := d ! buf_index b OR drop_bit bitIndex v];
                    d2 = d1[Suc (buf_index b) := d1 ! Suc (buf_index b) OR push_bit (8 - bitIndex) v]
                in Ok () (b\<lparr>buf_data := Some d2, buf_index := Suc (buf_index b), buf_bitIndex := bitIndex\<rparr>))
             else Fault))"

definition WriteByte :: "u8 \<Rightarrow> (SmsWriteBuffer, unit) op" where
  "WriteByte v b =
     (if buf_bitIndex b \<noteq> 0 then WriteBits v 8 b
      else case buf_data b of
        None \<Rightarrow> Fail b
      | Some d \<Rightarrow>
          if buf_index b < buf_length b then
            (if buf_index b < length d
             then Ok () (b\<lparr>buf_data := Some (d[buf_index b := v]), buf_index := Suc (buf_index b)\<rparr>)
             else Fault)
          else Fail b)"

definition WriteWord :: "u16 \<Rightarrow> (SmsWriteBuffer, unit) op" where
  "WriteWord v b =
     (case buf_data b of
        None \<Rightarrow> Fail b
      | Some d \<Rightarrow>
          if Suc (buf_index b) < buf_length b \<and> buf_bitIndex b = 0 then
            (if Suc (buf_index b) < length d
             then Ok () (b\<lparr>buf_data := Some (d[buf_index b := ucast (drop_bit 8 (0xff00 AND v)),
                                       Suc (buf_index b) := ucast (0x00ff AND v)]),
                            buf_index := buf_index b + 2\<rparr>)
             else Fault)
          else Fail b)"

definition InsertByte :: "u8 \<Rightarrow> nat \<Rightarrow> (SmsWriteBuffer, unit) op" where
  "InsertByte v index b =
     (case buf_data b of
        None \<Rightarrow> Fail b
      | Some d \<Rightarrow>
          if index < buf_length b \<and> buf_bitIndex b = 0 then
            (if index < length d then Ok () (b\<lparr>buf_data := Some (d[index := v])\<rparr>) else Fault)
          else Fail b)"

definition GetTopValue :: "(SmsWriteBuffer, u8) op" where
  "GetTopValue b =
     (case buf_data b of
        None \<Rightarrow> Fail b
      | Some d \<Rightarrow>
          if buf_length b = 0 \<or> buf_index b \<ge> buf_length b then Fail b
          else if buf_index b < length d then Ok (d ! buf_index b) b
          else Fault)"

definition GetValueFromIndex :: "nat \<Rightarrow> (SmsWriteBuffer, u8) op" where
  "GetValueFromIndex index b =
     (case buf_data b of
        None \<Rightarrow> Fail b
      | Some d \<Rightarrow>
          if buf_length b = 0 \<or> index \<ge> buf_length b then Fail b
          else if index < length d then Ok (d ! index) b
          else Fault)"

text \<open>
  \<^verbatim>\<open>memcpy_s(buffer.data_.get() + buffer.GetIndex(), destMax, src, count)\<close>, the way the codecs
  fill the buffer in bulk. The bounds-checking \<^verbatim>\<open>memcpy_s\<close> refuses a destination size of zero
  and a count above the destination size.
\<close>

definition memcpy_s_ok :: "nat \<Rightarrow> nat \<Rightarrow> bool" where
  "memcpy_s_ok destMax count \<longleftrightarrow> 0 < destMax \<and> count \<le> destMax"

definition CopyIn :: "nat \<Rightarrow> bytes \<Rightarrow> (SmsWriteBuffer, unit) op" where
  "CopyIn destMax src b =
     (case buf_data b of
        None \<Rightarrow> Fail b
      | Some d \<Rightarrow>
          if \<not> memcpy_s_ok destMax (length src) then Fail b
          else if buf_index b + length src \<le> length d
          then Ok () (b\<lparr>buf_data := Some (write_at (buf_index b) src d)\<rparr>)
          else Fault)"

lemmas pdu_defs =
  SetIndex_def MoveForward_def MoveBack_def SkipBits_def GetPduBuffer_def ReadBits_def ReadByte_def
  PickOneByte_def PickOneByteFromIndex_def ReadWord_def WriteBits_def WriteByte_def WriteWord_def
  InsertByte_def GetTopValue_def GetValueFromIndex_def CopyIn_def

section \<open>The class invariant\<close>

definition wf_pdu :: "SmsPduBuffer \<Rightarrow> bool" where
  "wf_pdu b \<longleftrightarrow>
     (case buf_data b of
        None \<Rightarrow> buf_index b = 0 \<and> buf_length b = 0 \<and> buf_bitIndex b = 0
      | Some d \<Rightarrow> length d = buf_length b \<and> buf_length b \<le> 256 \<and> buf_index b \<le> buf_length b \<and>
          buf_bitIndex b < 8 \<and> (0 < buf_bitIndex b \<longrightarrow> buf_index b < buf_length b))"

lemma wf_pdu_bounds: "wf_pdu b \<Longrightarrow> buf_index b \<le> buf_length b \<and> buf_length b \<le> 256 \<and> buf_bitIndex b < 8"
  by (auto simp: wf_pdu_def split: option.splits)

lemma wf_pdu_Some: "wf_pdu b \<Longrightarrow> buf_data b = Some d \<Longrightarrow> length d = buf_length b"
  by (simp add: wf_pdu_def)

lemma wf_SmsReadBuffer: "wf_pdu (SmsReadBuffer hex)"
  by (simp add: wf_pdu_def SmsReadBuffer_def PDU_BUFFER_MAX_SIZE_def PDU_BUFFER_MIN_SIZE_def)

lemma wf_SmsWriteBuffer: "wf_pdu SmsWriteBuffer"
  by (simp add: wf_pdu_def SmsWriteBuffer_def PDU_BUFFER_MAX_SIZE_def)

lemma keeps_wf_SetIndex [keeps_intros]: "keeps wf_pdu (SetIndex i)"
  by (rule keepsI) (auto simp: SetIndex_def wf_pdu_def split: option.splits)

lemma keeps_wf_MoveForward [keeps_intros]: "keeps wf_pdu (MoveForward n)"
  by (rule keepsI) (auto simp: MoveForward_def wf_pdu_def split: option.splits)

lemma keeps_wf_MoveBack [keeps_intros]: "keeps wf_pdu (MoveBack n)"
  by (rule keepsI) (auto simp: MoveBack_def wf_pdu_def split: option.splits)

lemma keeps_wf_SkipBits [keeps_intros]: "keeps wf_pdu SkipBits"
  by (rule keepsI) (auto simp: SkipBits_def wf_pdu_def Let_def split: option.splits)

lemma keeps_wf_GetPduBuffer [keeps_intros]: "keeps wf_pdu GetPduBuffer"
  by (rule keepsI) (auto simp: GetPduBuffer_def wf_pdu_def split: option.splits)

lemma keeps_wf_ReadBits [keeps_intros]: "keeps wf_pdu (ReadBits l)"
  by (rule keepsI) (auto simp: ReadBits_def wf_pdu_def Let_def split: option.splits)

lemma keeps_wf_ReadByte [keeps_intros]: "keeps wf_pdu ReadByte"
proof (rule keepsI)
  fix b
  assume wf: "wf_pdu b"
  show "case ReadByte b of Ok x t \<Rightarrow> wf_pdu t | Fail t \<Rightarrow> wf_pdu t | Fault \<Rightarrow> False"
  proof (cases "buf_bitIndex b = 0")
    case True
    with wf show ?thesis by (auto simp: ReadByte_def wf_pdu_def split: option.splits)
  next
    case False
    with keepsD [OF keeps_wf_ReadBits wf] wf show ?thesis
      by (auto simp: ReadByte_def split: option.splits)
  qed
qed

lemma keeps_wf_PickOneByte [keeps_intros]: "keeps wf_pdu PickOneByte"
  by (rule keepsI) (auto simp: PickOneByte_def wf_pdu_def split: option.splits)

lemma keeps_wf_PickOneByteFromIndex [keeps_intros]: "keeps wf_pdu (PickOneByteFromIndex i)"
  by (rule keepsI) (auto simp: PickOneByteFromIndex_def wf_pdu_def split: option.splits)

lemma keeps_wf_ReadWord [keeps_intros]: "keeps wf_pdu ReadWord"
  by (rule keepsI) (auto simp: ReadWord_def wf_pdu_def split: option.splits)

lemma keeps_wf_WriteBits [keeps_intros]: "keeps wf_pdu (WriteBits v l)"
  by (rule keepsI) (auto simp: WriteBits_def wf_pdu_def Let_def split: option.splits)

lemma keeps_wf_WriteByte [keeps_intros]: "keeps wf_pdu (WriteByte v)"
proof (rule keepsI)
  fix b
  assume wf: "wf_pdu b"
  show "case WriteByte v b of Ok x t \<Rightarrow> wf_pdu t | Fail t \<Rightarrow> wf_pdu t | Fault \<Rightarrow> False"
  proof (cases "buf_bitIndex b = 0")
    case True
    with wf show ?thesis by (auto simp: WriteByte_def wf_pdu_def split: option.splits)
  next
    case False
    with keepsD [OF keeps_wf_WriteBits wf] show ?thesis by (simp add: WriteByte_def)
  qed
qed

lemma keeps_wf_WriteWord [keeps_intros]: "keeps wf_pdu (WriteWord v)"
  by (rule keepsI) (auto simp: WriteWord_def wf_pdu_def split: option.splits)

lemma keeps_wf_InsertByte [keeps_intros]: "keeps wf_pdu (InsertByte v i)"
  by (rule keepsI) (auto simp: InsertByte_def wf_pdu_def split: option.splits)

lemma keeps_wf_GetTopValue [keeps_intros]: "keeps wf_pdu GetTopValue"
  by (rule keepsI) (auto simp: GetTopValue_def wf_pdu_def split: option.splits)

lemma keeps_wf_GetValueFromIndex [keeps_intros]: "keeps wf_pdu (GetValueFromIndex i)"
  by (rule keepsI) (auto simp: GetValueFromIndex_def wf_pdu_def split: option.splits)

text \<open>\<^verbatim>\<open>memcpy_s\<close> into the buffer is safe where the caller has compared index and count with the size.\<close>

lemma valid_CopyIn:
  "valid (\<lambda>b. wf_pdu b \<and> buf_index b + length src \<le> buf_length b) (CopyIn destMax src)
     (\<lambda>_ b. wf_pdu b \<and> buf_index b + length src \<le> buf_length b) wf_pdu"
  by (auto simp: valid_def CopyIn_def wf_pdu_def length_write_at split: option.splits)

section \<open>Bit streams\<close>

text \<open>
  The bits of a buffer in transmission order: byte by byte, the most significant bit first.
  \<open>bitpos\<close> is the position of the cursor in that stream.
\<close>

definition stream_bit :: "bytes \<Rightarrow> nat \<Rightarrow> bool" where
  "stream_bit d p = bit (d ! (p div 8)) (7 - p mod 8)"

definition bitpos :: "SmsPduBuffer \<Rightarrow> nat" where
  "bitpos b = 8 * buf_index b + buf_bitIndex b"

lemma stream_bit_in_byte: "q < 8 \<Longrightarrow> stream_bit d (8 * i + q) = bit (d ! i) (7 - q)"
  by (simp add: stream_bit_def)

lemma stream_bit_next_byte: "8 \<le> q \<Longrightarrow> q < 16 \<Longrightarrow> stream_bit d (8 * i + q) = bit (d ! Suc i) (15 - q)"
  using stream_bit_in_byte [of "q - 8" d "Suc i"] by (simp add: algebra_simps)

lemma bits_within_byte:
  fixes x :: u8
  assumes "0 < l" and "c + l \<le> 8"
  shows "bit (drop_bit (8 - l) (push_bit c x)) k \<longleftrightarrow> k < l \<and> bit x (7 - (c + (l - 1 - k)))"
proof (cases "k < l")
  case True
  with assms have "8 - l + k < 8" "c \<le> 8 - l + k" "8 - l + k - c = 7 - (c + (l - 1 - k))"
    by auto
  then show ?thesis using True by (simp add: bit_simps)
next
  case False
  with assms have "\<not> 8 - l + k < 8" by auto
  with False show ?thesis by (simp add: bit_simps)
qed

lemma bits_across_bytes:
  fixes x y :: u8
  assumes "l \<le> 8" and "8 < c + l" and "c < 8"
  shows "bit (drop_bit (8 - l) (push_bit c x) OR drop_bit (8 - (l + c - 8)) y) k \<longleftrightarrow>
    k < l \<and> (if c + (l - 1 - k) < 8 then bit x (7 - (c + (l - 1 - k))) else bit y (15 - (c + (l - 1 - k))))"
proof (cases "k < l")
  case True
  show ?thesis
  proof (cases "c + (l - 1 - k) < 8")
    case low: True
    with True assms have "c \<le> 8 - l + k" "8 - l + k - c = 7 - (c + (l - 1 - k))" "8 - l + k < 8"
      and "8 \<le> 8 - (l + c - 8) + k"
      by auto
    moreover from this(4) have "\<not> bit y (8 - (l + c - 8) + k)"
      using bit_imp_le_length [of y "8 - (l + c - 8) + k"] by auto
    ultimately show ?thesis
      using True low by (auto simp: bit_or_iff bit_drop_bit_eq bit_push_bit_iff add.commute)
  next
    case high: False
    with True assms have "\<not> c \<le> 8 - l + k" "8 - (l + c - 8) + k = 15 - (c + (l - 1 - k))"
      by auto
    with True high show ?thesis by (auto simp: bit_or_iff bit_drop_bit_eq bit_push_bit_iff)
  qed
next
  case False
  with assms have "\<not> 8 - l + k < 8" and "8 \<le> 8 - (l + c - 8) + k" by auto
  moreover from this(2) have "\<not> bit y (8 - (l + c - 8) + k)"
    using bit_imp_le_length [of y "8 - (l + c - 8) + k"] by auto
  ultimately show ?thesis using False by (auto simp: bit_or_iff bit_drop_bit_eq bit_push_bit_iff)
qed

lemma ReadBits_fits:
  assumes wf: "wf_pdu b" and d: "buf_data b = Some d" and l: "0 < l" "l \<le> 8"
    and room: "bitpos b + l \<le> 8 * length d"
  obtains v b' where "ReadBits l b = Ok v b'" "wf_pdu b'" "buf_data b' = Some d"
    "bitpos b' = bitpos b + l"
    "\<And>k. bit v k \<longleftrightarrow> k < l \<and> stream_bit d (bitpos b + (l - 1 - k))"
proof (cases "buf_bitIndex b + l \<le> 8")
  case True
  let ?v = "drop_bit (8 - l) (push_bit (buf_bitIndex b) (d ! buf_index b))"
  let ?b = "if buf_bitIndex b + l = 8 then b\<lparr>buf_index := Suc (buf_index b), buf_bitIndex := 0\<rparr>
            else b\<lparr>buf_bitIndex := buf_bitIndex b + l\<rparr>"
  from room True l wf d have ix: "buf_index b < length d" "buf_index b < buf_length b"
    by (auto simp: bitpos_def wf_pdu_def)
  have R: "ReadBits l b = Ok ?v ?b" using True l d ix by (simp add: ReadBits_def Let_def)
  have wf': "wf_pdu ?b" using keeps_Ok [OF keeps_wf_ReadBits wf R] .
  have bits: "bit ?v k \<longleftrightarrow> k < l \<and> stream_bit d (bitpos b + (l - 1 - k))" for k
    using bits_within_byte [OF l(1) True, of "d ! buf_index b" k] True l
    by (auto simp: bitpos_def add.assoc stream_bit_in_byte)
  show ?thesis
    by (rule that [OF R wf' _ _ bits]) (use d True in \<open>auto simp: bitpos_def\<close>)
next
  case False
  let ?nb = "l + buf_bitIndex b - 8"
  let ?v = "drop_bit (8 - l) (push_bit (buf_bitIndex b) (d ! buf_index b)) OR
            drop_bit (8 - ?nb) (d ! Suc (buf_index b))"
  let ?b = "b\<lparr>buf_index := Suc (buf_index b), buf_bitIndex := ?nb\<rparr>"
  from wf d have c: "buf_bitIndex b < 8" by (simp add: wf_pdu_def)
  from room False wf d have ix: "Suc (buf_index b) < length d" "Suc (buf_index b) \<noteq> buf_length b"
    by (auto simp: bitpos_def wf_pdu_def)
  have R: "ReadBits l b = Ok ?v ?b" using False l d ix by (simp add: ReadBits_def Let_def)
  have wf': "wf_pdu ?b" using keeps_Ok [OF keeps_wf_ReadBits wf R] .
  have bits: "bit ?v k \<longleftrightarrow> k < l \<and> stream_bit d (bitpos b + (l - 1 - k))" for k
  proof -
    define q where "q = buf_bitIndex b + (l - 1 - k)"
    have "bitpos b + (l - 1 - k) = 8 * buf_index b + q" and "q < 16"
      using c l by (simp_all add: bitpos_def q_def)
    then have "stream_bit d (bitpos b + (l - 1 - k)) =
      (if q < 8 then bit (d ! buf_index b) (7 - q) else bit (d ! Suc (buf_index b)) (15 - q))"
      by (simp add: stream_bit_in_byte stream_bit_next_byte)
    with bits_across_bytes [of l "buf_bitIndex b" "d ! buf_index b" "d ! Suc (buf_index b)" k] False c l
    show ?thesis by (auto simp: q_def)
  qed
  show ?thesis
    by (rule that [OF R wf' _ _ bits]) (use d False in \<open>auto simp: bitpos_def\<close>)
qed

lemma ReadBits_beyond:
  assumes "wf_pdu b" and "buf_data b = Some d" and "0 < l" "l \<le> 8"
    and "8 * length d < bitpos b + l"
  shows "ReadBits l b = Fail b"
  using assms by (auto simp: ReadBits_def wf_pdu_def bitpos_def)

lemma WriteBits_fits:
  assumes wf: "wf_pdu b" and d: "buf_data b = Some d" and l: "0 < l" "l \<le> 8"
    and room: "bitpos b + l \<le> 8 * length d" and v: "\<And>k. bit v k \<Longrightarrow> k < l"
  obtains d' b' where "WriteBits v l b = Ok () b'" "wf_pdu b'" "buf_data b' = Some d'"
    "length d' = length d" "bitpos b' = bitpos b + l"
    "\<And>p. p < 8 * length d \<Longrightarrow> stream_bit d' p \<longleftrightarrow>
       stream_bit d p \<or> bitpos b \<le> p \<and> p < bitpos b + l \<and> bit v (l - 1 - (p - bitpos b))"
proof (cases "buf_bitIndex b + l \<le> 8")
  case True
  let ?d = "d[buf_index b := d ! buf_index b OR push_bit (8 - buf_bitIndex b - l) v]"
  let ?b = "if buf_bitIndex b + l = 8
            then b\<lparr>buf_data := Some ?d, buf_index := Suc (buf_index b), buf_bitIndex := 0\<rparr>
            else b\<lparr>buf_data := Some ?d, buf_bitIndex := buf_bitIndex b + l\<rparr>"
  from room True l wf d have ix: "buf_index b < length d" "buf_index b < buf_length b"
    by (auto simp: bitpos_def wf_pdu_def)
  have R: "WriteBits v l b = Ok () ?b" using True l d ix by (simp add: WriteBits_def Let_def)
  have wf': "wf_pdu ?b" using keeps_Ok [OF keeps_wf_WriteBits wf R] .
  have bits: "stream_bit ?d p \<longleftrightarrow>
       stream_bit d p \<or> bitpos b \<le> p \<and> p < bitpos b + l \<and> bit v (l - 1 - (p - bitpos b))"
    if "p < 8 * length d" for p
  proof -
    define q where "q = p mod 8"
    have p: "p = 8 * (p div 8) + q" and q: "q < 8" by (simp_all add: q_def)
    show ?thesis
    proof (cases "p div 8 = buf_index b")
      case here: True
      have "bit (push_bit (8 - buf_bitIndex b - l) v) (7 - q) \<longleftrightarrow>
        buf_bitIndex b \<le> q \<and> q < buf_bitIndex b + l \<and> bit v (l - 1 - (q - buf_bitIndex b))"
        using True q v [of "7 - q - (8 - buf_bitIndex b - l)"]
        by (auto simp: bit_simps algebra_simps)
      then show ?thesis
        using here p ix by (auto simp: stream_bit_def bitpos_def q_def [symmetric] bit_or_iff)
    next
      case False
      with p q True have "\<not> (bitpos b \<le> p \<and> p < bitpos b + l)"
        by (auto simp: bitpos_def)
      with False show ?thesis by (auto simp: stream_bit_def)
    qed
  qed
  show ?thesis
    by (rule that [OF R wf' _ _ _ bits]) (use d True in \<open>auto simp: bitpos_def\<close>)
next
  case False
  let ?nb = "l + buf_bitIndex b - 8"
  let ?d1 = "d[buf_index b := d ! buf_index b OR drop_bit ?nb v]"
  let ?d = "?d1[Suc (buf_index b) := ?d1 ! Suc (buf_index b) OR push_bit (8 - ?nb) v]"
  let ?b = "b\<lparr>buf_data := Some ?d, buf_index := Suc (buf_index b), buf_bitIndex := ?nb\<rparr>"
  from wf d have c: "buf_bitIndex b < 8" by (simp add: wf_pdu_def)
  from room False wf d have ix: "Suc (buf_index b) < length d" "Suc (buf_index b) \<noteq> buf_length b"
    by (auto simp: bitpos_def wf_pdu_def)
  have R: "WriteBits v l b = Ok () ?b" using False l d ix by (simp add: WriteBits_def Let_def)
  have wf': "wf_pdu ?b" using keeps_Ok [OF keeps_wf_WriteBits wf R] .
  have bits: "stream_bit ?d p \<longleftrightarrow>
       stream_bit d p \<or> bitpos b \<le> p \<and> p < bitpos b + l \<and> bit v (l - 1 - (p - bitpos b))"
    if "p < 8 * length d" for p
  proof -
    define q where "q = p mod 8"
    have p: "p = 8 * (p div 8) + q" and q: "q < 8" by (simp_all add: q_def)
    consider "p div 8 = buf_index b" | "p div 8 = Suc (buf_index b)"
      | "p div 8 \<noteq> buf_index b" "p div 8 \<noteq> Suc (buf_index b)" by blast
    then show ?thesis
    proof cases
      case 1
      have "bit (drop_bit ?nb v) (7 - q) \<longleftrightarrow>
        buf_bitIndex b \<le> q \<and> q < buf_bitIndex b + l \<and> bit v (l - 1 - (q - buf_bitIndex b))"
      proof (cases "buf_bitIndex b \<le> q")
        case True
        then have "?nb + (7 - q) = l - 1 - (q - buf_bitIndex b)" using False c l q by auto
        with True False q show ?thesis by (simp add: bit_simps)
      next
        case low: False
        then have "\<not> ?nb + (7 - q) < l" using False c l q by auto
        with low v show ?thesis by (auto simp: bit_simps)
      qed
      then show ?thesis
        using 1 p ix by (auto simp: stream_bit_def bitpos_def q_def [symmetric] bit_or_iff)
    next
      case 2
      have "bit (push_bit (8 - ?nb) v) (7 - q) \<longleftrightarrow>
        8 + q < buf_bitIndex b + l \<and> bit v (l - 1 - (8 + q - buf_bitIndex b))"
      proof (cases "8 + q < buf_bitIndex b + l")
        case True
        then have "8 - ?nb \<le> 7 - q" "7 - q - (8 - ?nb) = l - 1 - (8 + q - buf_bitIndex b)" "7 - q < 8"
          using False c l q by auto
        with True show ?thesis by (simp only: bit_push_bit_iff) simp
      next
        case over: False
        then have "\<not> 8 - ?nb \<le> 7 - q" using False c l q by auto
        with over show ?thesis by (simp add: bit_simps)
      qed
      moreover have "p = 8 * buf_index b + (8 + q)" using 2 p by simp
      ultimately show ?thesis
        using 2 ix c by (auto simp: stream_bit_def bitpos_def q_def [symmetric] bit_or_iff)
    next
      case 3
      with p q have "p < 8 * buf_index b \<or> 8 * buf_index b + 16 \<le> p" by arith
      with l c have "\<not> (bitpos b \<le> p \<and> p < bitpos b + l)" by (auto simp: bitpos_def)
      with 3 show ?thesis by (auto simp: stream_bit_def)
    qed
  qed
  show ?thesis
    by (rule that [OF R wf' _ _ _ bits]) (use d False in \<open>auto simp: bitpos_def\<close>)
qed


text \<open>
  Fields of one to eight bits, written one after the other and read back with the same widths:
  the way the CDMA codecs lay out their parameters.
\<close>

fun WriteFields :: "(u8 \<times> nat) list \<Rightarrow> (SmsWriteBuffer, unit) op" where
  "WriteFields [] = ret ()"
| "WriteFields ((v, l) # fs) = seq (WriteBits v l) (WriteFields fs)"

fun ReadFields :: "nat list \<Rightarrow> (SmsReadBuffer, u8 list) op" where
  "ReadFields [] = ret []"
| "ReadFields (l # ls) = bnd (ReadBits l) (\<lambda>v. bnd (ReadFields ls) (\<lambda>vs. ret (v # vs)))"

definition field_ok :: "u8 \<times> nat \<Rightarrow> bool" where
  "field_ok f \<longleftrightarrow> 0 < snd f \<and> snd f \<le> 8 \<and> unat (fst f) < 2 ^ snd f"

lemma field_ok_bits: "field_ok (v, l) \<Longrightarrow> bit v k \<Longrightarrow> k < l"
proof (rule ccontr)
  assume f: "field_ok (v, l)" and "bit v k" and "\<not> k < l"
  then have "2 ^ l \<le> (2::nat) ^ k" by simp
  also have "2 ^ k \<le> unat v"
  proof (rule ccontr)
    assume "\<not> 2 ^ k \<le> unat v"
    then have "unat v div 2 ^ k = 0" by simp
    then have "\<not> bit (unat v) k" by (simp add: bit_iff_odd)
    with \<open>bit v k\<close> show False by (simp add: bit_unsigned_iff bit_imp_le_length)
  qed
  finally show False using f by (simp add: field_ok_def)
qed

lemma WriteFields_stream:
  assumes "wf_pdu b" "buf_data b = Some d" "\<forall>f \<in> set fs. field_ok f"
    and "bitpos b + sum_list (map snd fs) \<le> 8 * length d"
    and "\<And>p. bitpos b \<le> p \<Longrightarrow> p < 8 * length d \<Longrightarrow> \<not> stream_bit d p"
  obtains d' b' where "WriteFields fs b = Ok () b'" "wf_pdu b'" "buf_data b' = Some d'"
    "length d' = length d" "bitpos b' = bitpos b + sum_list (map snd fs)"
    "\<And>p. p < bitpos b \<Longrightarrow> p < 8 * length d \<Longrightarrow> stream_bit d' p = stream_bit d p"
    "\<And>r. wf_pdu r \<Longrightarrow> buf_data r = Some d' \<Longrightarrow> bitpos r = bitpos b \<Longrightarrow>
       \<exists>r'. ReadFields (map snd fs) r = Ok (map fst fs) r' \<and> bitpos r' = bitpos b'"
  using assms
proof (induction fs arbitrary: b d thesis)
  case Nil
  then show ?case by (auto simp: ret_def)
next
  case (Cons f fs)
  obtain v l where f: "f = (v, l)" by (cases f)
  have fok: "field_ok (v, l)" using Cons.prems(4) f by simp
  then have l: "0 < l" "l \<le> 8" by (simp_all add: field_ok_def)
  have room: "bitpos b + l \<le> 8 * length d" using Cons.prems(5) f by simp
  obtain d1 b1 where W: "WriteBits v l b = Ok () b1" "wf_pdu b1" "buf_data b1 = Some d1"
    "length d1 = length d" "bitpos b1 = bitpos b + l"
    and bits1: "\<And>p. p < 8 * length d \<Longrightarrow> stream_bit d1 p \<longleftrightarrow>
       stream_bit d p \<or> bitpos b \<le> p \<and> p < bitpos b + l \<and> bit v (l - 1 - (p - bitpos b))"
    using WriteBits_fits [OF Cons.prems(2,3) l room field_ok_bits [OF fok]] by blast
  obtain d' b' where R: "WriteFields fs b1 = Ok () b'" "wf_pdu b'" "buf_data b' = Some d'"
    "length d' = length d1" "bitpos b' = bitpos b1 + sum_list (map snd fs)"
    and low: "\<And>p. p < bitpos b1 \<Longrightarrow> p < 8 * length d1 \<Longrightarrow> stream_bit d' p = stream_bit d1 p"
    and again: "\<And>r. wf_pdu r \<Longrightarrow> buf_data r = Some d' \<Longrightarrow> bitpos r = bitpos b1 \<Longrightarrow>
       \<exists>r'. ReadFields (map snd fs) r = Ok (map fst fs) r' \<and> bitpos r' = bitpos b'"
  proof (rule Cons.IH)
    show "\<forall>f \<in> set fs. field_ok f" using Cons.prems(4) by simp
    show "bitpos b1 + sum_list (map snd fs) \<le> 8 * length d1" using Cons.prems(5) W f by simp
    show "\<not> stream_bit d1 p" if "bitpos b1 \<le> p" "p < 8 * length d1" for p
      using that W bits1 [of p] Cons.prems(6) [of p] by auto
  qed (use W in auto)
  have read: "\<exists>r'. ReadFields (l # map snd fs) r = Ok (v # map fst fs) r' \<and> bitpos r' = bitpos b'"
    if r: "wf_pdu r" "buf_data r = Some d'" "bitpos r = bitpos b" for r
  proof -
    have "bitpos r + l \<le> 8 * length d'" using r R W room by simp
    from ReadBits_fits [OF r(1,2) l this] obtain w r1 where
      w: "ReadBits l r = Ok w r1" "wf_pdu r1" "buf_data r1 = Some d'" "bitpos r1 = bitpos r + l"
        "\<And>k. bit w k \<longleftrightarrow> k < l \<and> stream_bit d' (bitpos r + (l - 1 - k))" by blast
    have "w = v"
    proof (rule bit_word_eqI)
      fix k
      show "bit w k = bit v k"
      proof (cases "k < l")
        case True
        let ?p = "bitpos b + (l - 1 - k)"
        have p: "l - 1 - (?p - bitpos b) = k" "bitpos b \<le> ?p" "?p < bitpos b + l" "?p < 8 * length d"
          using True room by auto
        have "bit w k = stream_bit d' ?p" using True w(5) r(3) by simp
        also have "\<dots> = stream_bit d1 ?p" by (rule low) (use W p in simp_all)
        also have "\<dots> = bit v k" using bits1 [OF p(4)] Cons.prems(6) [OF p(2,4)] p by simp
        finally show ?thesis .
      qed (use w(5) field_ok_bits [OF fok] in auto)
    qed
    with again [OF w(2,3)] w r W show ?thesis by (auto simp: bnd_def ret_def)
  qed
  have low': "stream_bit d' p = stream_bit d p" if "p < bitpos b" "p < 8 * length d" for p
    using that W low [of p] bits1 [of p] by auto
  show ?case
    by (rule Cons.prems(1) [of b' d']) (use f W R read low' in \<open>simp_all add: seq_def bnd_def\<close>)
qed


section \<open>Byte streams\<close>

text \<open>
  The interfaces of the codecs to a buffer. A \<open>byte_source\<close> hands out the bytes of \<open>rest\<close>
  one by one and fails at the end; \<open>adv\<close> is the state after one byte. A \<open>byte_sink\<close> appends
  bytes to what was written while there is room. The client lemmas are the loops over them.
\<close>

locale byte_source =
  fixes read :: "('s, u8) op" and adv :: "'s \<Rightarrow> 's" and inv :: "'s \<Rightarrow> bool" and rest :: "'s \<Rightarrow> bytes"
  assumes read_Cons: "inv s \<Longrightarrow> rest s = x # xs \<Longrightarrow> read s = Ok x (adv s)"
    and read_Nil: "inv s \<Longrightarrow> rest s = [] \<Longrightarrow> read s = Fail s"
    and inv_adv: "inv s \<Longrightarrow> rest s = x # xs \<Longrightarrow> inv (adv s)"
    and rest_adv: "inv s \<Longrightarrow> rest s = x # xs \<Longrightarrow> rest (adv s) = xs"
begin

lemma collect_read:
  "inv s \<Longrightarrow> n \<le> length (rest s) \<Longrightarrow>
   collect (\<lambda>_. read) i n s = Ok (take n (rest s)) ((adv ^^ n) s) \<and>
   inv ((adv ^^ n) s) \<and> rest ((adv ^^ n) s) = drop n (rest s)"
proof (induction n arbitrary: i s)
  case 0
  then show ?case by (simp add: ret_def)
next
  case (Suc n)
  then obtain x xs where r: "rest s = x # xs" by (cases "rest s") auto
  with Suc.prems have "n \<le> length (rest (adv s))" by (simp add: rest_adv)
  with Suc.IH [of "adv s" "Suc i"] Suc.prems r show ?case
    by (simp add: read_Cons inv_adv rest_adv bnd_def ret_def funpow_swap1)
qed

lemma collect_short:
  "inv s \<Longrightarrow> length (rest s) < n \<Longrightarrow> collect (\<lambda>_. read) i n s = Fail ((adv ^^ length (rest s)) s)"
proof (induction n arbitrary: i s)
  case 0
  then show ?case by simp
next
  case (Suc n)
  show ?case
  proof (cases "rest s")
    case Nil
    with Suc.prems show ?thesis by (simp add: read_Nil bnd_def)
  next
    case (Cons x xs)
    with Suc.prems have "length (rest (adv s)) < n" by (simp add: rest_adv)
    with Suc.IH [of "adv s" "Suc i"] Suc.prems Cons show ?thesis
      by (simp add: read_Cons inv_adv rest_adv bnd_def funpow_swap1)
  qed
qed

end

locale byte_sink =
  fixes emit :: "u8 \<Rightarrow> ('s, unit) op" and put :: "u8 \<Rightarrow> 's \<Rightarrow> 's" and inv :: "'s \<Rightarrow> bool"
    and written :: "'s \<Rightarrow> bytes" and room :: "'s \<Rightarrow> nat"
  assumes write_room: "inv s \<Longrightarrow> 0 < room s \<Longrightarrow> emit x s = Ok () (put x s)"
    and write_full: "inv s \<Longrightarrow> room s = 0 \<Longrightarrow> emit x s = Fail s"
    and inv_put: "inv s \<Longrightarrow> 0 < room s \<Longrightarrow> inv (put x s)"
    and written_put: "inv s \<Longrightarrow> 0 < room s \<Longrightarrow> written (put x s) = written s @ [x]"
    and room_put: "inv s \<Longrightarrow> 0 < room s \<Longrightarrow> room (put x s) = room s - 1"
begin

lemma each_write:
  "inv s \<Longrightarrow> length xs \<le> room s \<Longrightarrow>
   each emit xs s = Ok () (fold put xs s) \<and> inv (fold put xs s) \<and>
   written (fold put xs s) = written s @ xs \<and> room (fold put xs s) = room s - length xs"
proof (induction xs arbitrary: s)
  case Nil
  then show ?case by (simp add: ret_def)
next
  case (Cons x xs)
  then have "length xs \<le> room (put x s)" by (simp add: room_put)
  with Cons.IH [of "put x s"] Cons.prems show ?case
    by (simp add: write_room inv_put written_put room_put seq_def bnd_def)
qed

lemma each_write_full:
  "inv s \<Longrightarrow> room s < length xs \<Longrightarrow> \<exists>t. each emit xs s = Fail t \<and> written t = written s @ take (room s) xs"
proof (induction xs arbitrary: s)
  case Nil
  then show ?case by simp
next
  case (Cons x xs)
  show ?case
  proof (cases "room s = 0")
    case True
    with Cons.prems show ?thesis by (simp add: write_full seq_def bnd_def)
  next
    case False
    with Cons.prems have "room (put x s) < length xs" by (simp add: room_put)
    with Cons.IH [of "put x s"] Cons.prems False show ?thesis
      by (cases "room s") (auto simp: write_room inv_put written_put room_put seq_def bnd_def)
  qed
qed

end

text \<open>
  A buffer in byte mode is a zipper: the bytes before the cursor, the last one first, and the
  bytes from the cursor on. Every operation of the codecs is then a structural step.
\<close>

definition zb :: "bytes \<Rightarrow> bytes \<Rightarrow> SmsPduBuffer" where
  "zb p xs = \<lparr>buf_data = Some (rev p @ xs), buf_index = length p,
              buf_length = length p + length xs, buf_bitIndex = 0\<rparr>"

definition byte_mode :: "SmsPduBuffer \<Rightarrow> bool" where
  "byte_mode b \<longleftrightarrow> wf_pdu b \<and> buf_bitIndex b = 0 \<and> buf_data b \<noteq> None"

definition pdu_rest :: "SmsPduBuffer \<Rightarrow> bytes" where
  "pdu_rest b = (case buf_data b of None \<Rightarrow> [] | Some d \<Rightarrow> drop (buf_index b) d)"

definition pdu_written :: "SmsPduBuffer \<Rightarrow> bytes" where
  "pdu_written b = (case buf_data b of None \<Rightarrow> [] | Some d \<Rightarrow> take (buf_index b) d)"

definition pdu_step :: "SmsPduBuffer \<Rightarrow> SmsPduBuffer" where
  "pdu_step b = b\<lparr>buf_index := Suc (buf_index b)\<rparr>"

definition pdu_put :: "u8 \<Rightarrow> SmsPduBuffer \<Rightarrow> SmsPduBuffer" where
  "pdu_put v b = b\<lparr>buf_data := map_option (\<lambda>d. d[buf_index b := v]) (buf_data b), buf_index := Suc (buf_index b)\<rparr>"

interpretation rbuf: byte_source ReadByte pdu_step byte_mode pdu_rest
proof
  fix b x xs
  assume inv: "byte_mode b" and r: "pdu_rest b = x # xs"
  then obtain d where d: "buf_data b = Some d" "length d = buf_length b" "buf_bitIndex b = 0"
    "buf_index b < length d" "d ! buf_index b = x" "drop (Suc (buf_index b)) d = xs" "wf_pdu b"
    by (auto simp: byte_mode_def pdu_rest_def wf_pdu_def dest!: drop_eq_ConsD split: option.splits)
  then show "ReadByte b = Ok x (pdu_step b)" by (simp add: ReadByte_def pdu_step_def)
  show "byte_mode (pdu_step b)" using d by (auto simp: byte_mode_def pdu_step_def wf_pdu_def)
  show "pdu_rest (pdu_step b) = xs" using d by (simp add: pdu_rest_def pdu_step_def)
next
  fix b
  assume "byte_mode b" and "pdu_rest b = []"
  then show "ReadByte b = Fail b"
    by (auto simp: byte_mode_def pdu_rest_def wf_pdu_def ReadByte_def split: option.splits)
qed

interpretation wbuf: byte_sink WriteByte pdu_put byte_mode pdu_written "\<lambda>b. buf_length b - buf_index b"
  by unfold_locales
    (auto simp: byte_mode_def wf_pdu_def WriteByte_def pdu_put_def pdu_written_def take_Suc_conv_app_nth
      split: option.splits)

lemma zb_fields [simp]:
  "buf_data (zb p xs) = Some (rev p @ xs)" "buf_index (zb p xs) = length p"
  "buf_length (zb p xs) = length p + length xs" "buf_bitIndex (zb p xs) = 0"
  "GetIndex (zb p xs) = length p" "GetSize (zb p xs) = length p + length xs"
  by (simp_all add: zb_def GetIndex_def GetSize_def)

lemma wf_zb [simp]: "wf_pdu (zb p xs) \<longleftrightarrow> length p + length xs \<le> 256"
  by (auto simp: wf_pdu_def)

lemma byte_mode_zb [simp]: "byte_mode (zb p xs) \<longleftrightarrow> length p + length xs \<le> 256"
  by (simp add: byte_mode_def)

lemma pdu_rest_zb [simp]: "pdu_rest (zb p xs) = xs"
  by (simp add: pdu_rest_def)

lemma pdu_written_zb [simp]: "pdu_written (zb p xs) = rev p"
  by (simp add: pdu_written_def)

lemma pdu_step_zb: "pdu_step (zb p (x # xs)) = zb (x # p) xs"
  by (simp add: pdu_step_def zb_def)

lemma byte_mode_is_zb:
  assumes "byte_mode b"
  shows "b = zb (rev (pdu_written b)) (pdu_rest b)"
  using assms
  by (cases b) (auto simp: byte_mode_def pdu_written_def pdu_rest_def zb_def wf_pdu_def min_def
      split: option.splits)

named_theorems zb_simps \<open>the buffer operations on a zipper\<close>

lemma ReadByte_zb [zb_simps]:
  "ReadByte (zb p (x # xs)) = Ok x (zb (x # p) xs)" "ReadByte (zb p []) = Fail (zb p [])"
  by (simp_all add: ReadByte_def zb_def nth_append)

lemma PickOneByte_zb [zb_simps]:
  "PickOneByte (zb p (x # xs)) = Ok x (zb p (x # xs))" "PickOneByte (zb p []) = Fail (zb p [])"
  by (simp_all add: PickOneByte_def nth_append)

lemma PickOneByteFromIndex_zb [zb_simps]:
  "PickOneByteFromIndex (length p) (zb (y # p) xs) = Ok y (zb (y # p) xs)"
  by (simp add: PickOneByteFromIndex_def nth_append)

lemma MoveForward_zb:
  "MoveForward n (zb p xs) =
     Ok (length p) (if n \<le> length xs then zb (rev (take n xs) @ p) (drop n xs) else zb p xs)"
  by (simp add: MoveForward_def zb_def min_def)

lemma MoveForward1_zb [zb_simps]:
  "MoveForward (Suc 0) (zb p (x # xs)) = Ok (length p) (zb (x # p) xs)"
  "MoveForward (Suc 0) (zb p []) = Ok (length p) (zb p [])"
  by (simp_all add: MoveForward_zb)

lemma MoveBack1_zb [zb_simps]: "MoveBack (Suc 0) (zb (x # p) xs) = Ok (Suc (length p)) (zb p (x # xs))"
  by (simp add: MoveBack_def zb_def)

lemma WriteByte_zb [zb_simps]:
  "WriteByte v (zb p (x # xs)) = Ok () (zb (v # p) xs)" "WriteByte v (zb p []) = Fail (zb p [])"
  by (simp_all add: WriteByte_def zb_def)

lemma InsertByte_here_zb [zb_simps]:
  "InsertByte v (length p) (zb p (x # xs)) = Ok () (zb p (v # xs))"
  by (simp add: InsertByte_def zb_def)

lemma InsertByte_zb:
  "InsertByte v (length q) (zb (p @ y # q) xs) = Ok () (zb (p @ v # q) xs)"
  by (simp add: InsertByte_def zb_def)

lemma InsertByte_last_zb [zb_simps]:
  "InsertByte v (length p) (zb (y # p) xs) = Ok () (zb (v # p) xs)"
  using InsertByte_zb [of v p "[]" y xs] by simp

lemma GetTopValue_zb [zb_simps]: "GetTopValue (zb p (x # xs)) = Ok x (zb p (x # xs))"
  by (simp add: GetTopValue_def nth_append)

lemma GetValueFromIndex_zb [zb_simps]:
  "GetValueFromIndex (length p) (zb (y # p) xs) = Ok y (zb (y # p) xs)"
  by (simp add: GetValueFromIndex_def nth_append)

lemma CopyIn_zb:
  "memcpy_s_ok m (length src) \<Longrightarrow> length src \<le> length xs \<Longrightarrow>
   CopyIn m src (zb p xs) = Ok () (zb p (src @ drop (length src) xs))"
  by (simp add: CopyIn_def zb_def write_at_def)

lemma GetPduBuffer_zb: "p \<noteq> [] \<Longrightarrow> xs \<noteq> [] \<Longrightarrow> GetPduBuffer (zb p xs) = Ok (rev p) (zb p xs)"
  by (simp add: GetPduBuffer_def)

lemma SmsReadBuffer_zb: "2 \<le> length hex \<Longrightarrow> length hex \<le> 256 \<Longrightarrow> SmsReadBuffer hex = zb [] hex"
  by (simp add: SmsReadBuffer_def zb_def PDU_BUFFER_MAX_SIZE_def PDU_BUFFER_MIN_SIZE_def)

lemma SmsWriteBuffer_zb: "SmsWriteBuffer = zb [] (replicate 256 0)"
  by (simp add: SmsWriteBuffer_def zb_def PDU_BUFFER_MAX_SIZE_def)

lemma pdu_steps_zb:
  assumes "n \<le> length xs"
  shows "(pdu_step ^^ n) (zb p xs) = zb (rev (take n xs) @ p) (drop n xs)"
proof -
  have "(pdu_step ^^ n) b = b\<lparr>buf_index := buf_index b + n\<rparr>" for b
    by (induction n) (simp_all add: pdu_step_def)
  then show ?thesis using assms by (simp add: zb_def min_def)
qed

lemma collect_ReadByte_zb:
  assumes "n \<le> length xs" and "length p + length xs \<le> 256"
  shows "collect (\<lambda>_. ReadByte) i n (zb p xs) = Ok (take n xs) (zb (rev (take n xs) @ p) (drop n xs))"
  using rbuf.collect_read [of "zb p xs" n i] assms by (simp add: pdu_steps_zb)

section \<open>The buffer as its clients see it\<close>

text \<open>The public methods, and a client that calls them in any order without looking at the results.\<close>

datatype pdu_call =
  Call_SetIndex nat | Call_MoveForward nat | Call_MoveBack nat | Call_SkipBits | Call_GetPduBuffer
| Call_ReadBits nat | Call_ReadByte | Call_ReadWord | Call_PickOneByte | Call_PickOneByteFromIndex nat
| Call_WriteBits u8 nat | Call_WriteByte u8 | Call_WriteWord u16 | Call_InsertByte u8 nat
| Call_GetTopValue | Call_GetValueFromIndex nat

definition do_call :: "pdu_call \<Rightarrow> (SmsPduBuffer, unit) op" where
  "do_call c = (case c of
     Call_SetIndex i \<Rightarrow> ignore (SetIndex i) | Call_MoveForward n \<Rightarrow> ignore (MoveForward n)
   | Call_MoveBack n \<Rightarrow> ignore (MoveBack n) | Call_SkipBits \<Rightarrow> ignore SkipBits
   | Call_GetPduBuffer \<Rightarrow> ignore GetPduBuffer | Call_ReadBits l \<Rightarrow> ignore (ReadBits l)
   | Call_ReadByte \<Rightarrow> ignore ReadByte | Call_ReadWord \<Rightarrow> ignore ReadWord
   | Call_PickOneByte \<Rightarrow> ignore PickOneByte | Call_PickOneByteFromIndex i \<Rightarrow> ignore (PickOneByteFromIndex i)
   | Call_WriteBits v l \<Rightarrow> ignore (WriteBits v l) | Call_WriteByte v \<Rightarrow> ignore (WriteByte v)
   | Call_WriteWord v \<Rightarrow> ignore (WriteWord v) | Call_InsertByte v i \<Rightarrow> ignore (InsertByte v i)
   | Call_GetTopValue \<Rightarrow> ignore GetTopValue | Call_GetValueFromIndex i \<Rightarrow> ignore (GetValueFromIndex i))"

lemma keeps_do_call: "keeps wf_pdu (do_call c)"
  by (cases c) (simp_all add: do_call_def keeps_intros)

lemma do_call_Ok: "wf_pdu b \<Longrightarrow> \<exists>b'. do_call c b = Ok () b' \<and> wf_pdu b'"
  using keepsD [OF keeps_do_call [of c], of b]
  by (cases c) (auto simp: do_call_def ignore_def split: outcome.splits)

lemma calls_Ok: "wf_pdu b \<Longrightarrow> \<exists>b'. each do_call cs b = Ok () b' \<and> wf_pdu b'"
proof (induction cs arbitrary: b)
  case (Cons c cs)
  from do_call_Ok [OF Cons.prems] obtain b1 where "do_call c b = Ok () b1" "wf_pdu b1" by blast
  with Cons.IH show ?case by (simp add: seq_def bnd_def)
qed (simp add: ret_def)

text \<open>
  C26. The class invariant of \<^verbatim>\<open>SmsPduBuffer\<close>: whatever methods are called on a read or a write buffer, in whatever
  order and with whatever arguments, no access leaves the array, and index, bit index and length stay
  consistent with it.
\<close>

theorem buffer_calls_safe:
  "(\<exists>b. each do_call cs (SmsReadBuffer hex) = Ok () b \<and> wf_pdu b) \<and>
   (\<exists>b. each do_call cs SmsWriteBuffer = Ok () b \<and> wf_pdu b)"
  using calls_Ok wf_SmsReadBuffer wf_SmsWriteBuffer by blast

text \<open>
  C27. Bit fields survive the buffers: any sequence of fields of one to eight bits that fits into the write buffer
  is written without error across byte boundaries, and a read buffer over the same bytes returns the fields
  one by one.
\<close>

theorem bit_fields_roundtrip:
  assumes "\<forall>f \<in> set fs. field_ok f" "sum_list (map snd fs) \<le> 2048"
  shows "\<exists>b d r. WriteFields fs SmsWriteBuffer = Ok () b \<and> buf_data b = Some d \<and>
    ReadFields (map snd fs) (SmsReadBuffer d) = Ok (map fst fs) r"
proof -
  let ?z = "replicate 256 (0 :: u8)"
  have start: "bitpos SmsWriteBuffer = 0" "buf_data SmsWriteBuffer = Some ?z"
    by (simp_all add: SmsWriteBuffer_zb bitpos_def)
  have zeros: "\<not> stream_bit ?z p" if "p < 8 * length ?z" for p
    using that by (simp add: stream_bit_def less_mult_imp_div_less mult.commute)
  obtain d b where w: "WriteFields fs SmsWriteBuffer = Ok () b" "buf_data b = Some d" "length d = 256"
    and r: "\<And>r. wf_pdu r \<Longrightarrow> buf_data r = Some d \<Longrightarrow> bitpos r = 0 \<Longrightarrow>
       \<exists>r'. ReadFields (map snd fs) r = Ok (map fst fs) r' \<and> bitpos r' = bitpos b"
    by (rule WriteFields_stream [OF wf_SmsWriteBuffer start(2) assms(1)]) (use start zeros assms in auto)
  from r [of "SmsReadBuffer d"] w wf_SmsReadBuffer [of d] show ?thesis
    by (auto simp: SmsReadBuffer_zb bitpos_def)
qed

theorem bit_fields_roundtrip_witness:
  "\<exists>b d r. WriteFields [(5, 3), (0xAB, 8), (1, 1), (9, 5)] SmsWriteBuffer = Ok () b \<and> buf_data b = Some d \<and>
    ReadFields (map snd [(5 :: u8, 3), (0xAB, 8), (1, 1), (9, 5)]) (SmsReadBuffer d) =
      Ok (map fst [(5, 3 :: nat), (0xAB, 8), (1, 1), (9, 5)]) r"
  by (rule bit_fields_roundtrip) (simp_all add: field_ok_def)

text \<open>
  What was written can be taken out, unless the buffer is exactly full: up to 256 octets are accepted one by one, and
  \<^verbatim>\<open>GetPduBuffer\<close> returns exactly them if there are between 1 and 255; with 256 it refuses.
\<close>

theorem written_octets:
  assumes "length vs \<le> 256"
  shows "\<exists>b. each WriteByte vs SmsWriteBuffer = Ok () b \<and>
    GetPduBuffer b = (if vs = [] \<or> length vs = 256 then Fail b else Ok vs b)"
proof -
  let ?b = "fold pdu_put vs SmsWriteBuffer"
  have w: "each WriteByte vs SmsWriteBuffer = Ok () ?b" "byte_mode ?b" "pdu_written ?b = vs"
    "buf_length ?b - buf_index ?b = 256 - length vs"
    using wbuf.each_write [of SmsWriteBuffer vs] assms by (simp_all add: SmsWriteBuffer_zb)
  have b: "?b = zb (rev vs) (pdu_rest ?b)" using byte_mode_is_zb [OF w(2)] w(3) by simp
  then have "length (pdu_rest ?b) = 256 - length vs" using w(4) zb_fields(2,3) by (metis add_diff_cancel_left')
  then have "GetPduBuffer ?b = (if vs = [] \<or> length vs = 256 then Fail ?b else Ok vs ?b)"
    using assms by (subst (1 2 3) b) (auto simp: GetPduBuffer_def)
  with w(1) show ?thesis by blast
qed

theorem written_octets_witness:
  "\<exists>b. each WriteByte (replicate 256 7) SmsWriteBuffer = Ok () b \<and> GetPduBuffer b = Fail b"
  using written_octets [of "replicate 256 7"] by simp

end
