(* ===== verification/Text_Coder.thy ===== *)
theory Text_Coder
  imports Sms_Prelude
begin

text \<open>
  \<^verbatim>\<open>utils/text_coder.cpp\<close> with \<^verbatim>\<open>utils/msg_text_convert_common.h\<close>: the conversion of text between
  UCS-2 and the GSM 7-bit alphabets with the national language tables, and the choice of a coding
  scheme. The destination array is the state of the operations; the source is the list of its
  \<^verbatim>\<open>srcLength\<close> bytes. \<^verbatim>\<open>iconv\<close>, which is not part of the repository, is a parameter.
\<close>

section \<open>Types\<close>

datatype DataCodingScheme =
  DATA_CODING_7BIT | DATA_CODING_8BIT | DATA_CODING_UCS2 | DATA_CODING_AUTO | DATA_CODING_EUCKR
| DATA_CODING_ASCII7BIT

datatype SmsCodingNationalType =
  SMS_CODING_NATIONAL_TYPE_DEFAULT | SMS_CODING_NATIONAL_TYPE_TURKISH
| SMS_CODING_NATIONAL_TYPE_SPANISH | SMS_CODING_NATIONAL_TYPE_PORTUGUESE

abbreviation (input) "MSG_DEFAULT_CHAR \<equiv> 0 :: u8"
abbreviation (input) "MSG_GSM7EXT_CHAR \<equiv> 1 :: u8"
abbreviation (input) "MSG_TURKISH_CHAR \<equiv> 2 :: u8"
abbreviation (input) "MSG_SPANISH_CHAR \<equiv> 3 :: u8"
abbreviation (input) "MSG_PORTUGUESE_CHAR \<equiv> 4 :: u8"

abbreviation (input) "MSG_ID_RESERVED_LANG \<equiv> 0 :: u8"
abbreviation (input) "MSG_ID_TURKISH_LANG \<equiv> 1 :: u8"
abbreviation (input) "MSG_ID_SPANISH_LANG \<equiv> 2 :: u8"
abbreviation (input) "MSG_ID_PORTUGUESE_LANG \<equiv> 3 :: u8"

record MsgLangInfo =
  bSingleShift :: bool
  bLockingShift :: bool
  singleLang :: u8
  lockingLang :: u8

text \<open>
  \<open>ic to from\<close> is \<^verbatim>\<open>iconv_open(to, from)\<close>, \<open>None\<close> when it fails. The conversion of a source into at
  most \<open>n\<close> bytes gives whether \<^verbatim>\<open>iconv\<close> returned other than \<open>-1\<close>, and the bytes it wrote.
\<close>

type_synonym iconv = "string \<Rightarrow> string \<Rightarrow> (bytes \<Rightarrow> nat \<Rightarrow> bool \<times> bytes) option"

definition iconv_bounded :: "iconv \<Rightarrow> bool" where
  "iconv_bounded ic \<longleftrightarrow> (\<forall>to from conv src n. ic to from = Some conv \<longrightarrow> length (snd (conv src n)) \<le> n)"

text \<open>A store into the destination array.\<close>

definition put_at :: "nat \<Rightarrow> u8 \<Rightarrow> (bytes, unit) op" where
  "put_at i v dest = (if i < length dest then Ok () (dest[i := v]) else Fault)"

section \<open>Tables\<close>

text \<open>
  A \<^verbatim>\<open>std::map\<close> given by an initializer list keeps the first of two equal keys, as \<^const>\<open>map_of\<close> does
  (0x00E7 in \<^verbatim>\<open>extCharMap_\<close>). \<open>gsm7bitDefMap\<close> is filled by assignments in a loop, where the last wins.
\<close>

definition GSM7_BIT_TO_UC_S2 :: "u16 list" where
  "GSM7_BIT_TO_UC_S2 = [
     0x40, 0xA3, 0x24, 0xA5, 0xE8, 0xE9, 0xF9, 0xEC, 0xF2, 0xC7, 0xA, 0xD8, 0xF8, 0xD, 0xC5,
     0xE5, 0x394, 0x5F, 0x3A6, 0x393, 0x39B, 0x3A9, 0x3A0, 0x3A8, 0x3A3, 0x398, 0x39E, 0x1B,
     0xC6, 0xE6, 0xDF, 0xC9, 0x20, 0x21, 0x22, 0x23, 0xA4, 0x25, 0x26, 0x27, 0x28, 0x29, 0x2A,
     0x2B, 0x2C, 0x2D, 0x2E, 0x2F, 0x30, 0x31, 0x32, 0x33, 0x34, 0x35, 0x36, 0x37, 0x38, 0x39,
     0x3A, 0x3B, 0x3C, 0x3D, 0x3E, 0x3F, 0xA1, 0x41, 0x42, 0x43, 0x44, 0x45, 0x46, 0x47, 0x48,
     0x49, 0x4A, 0x4B, 0x4C, 0x4D, 0x4E, 0x4F, 0x50, 0x51, 0x52, 0x53, 0x54, 0x55, 0x56, 0x57,
     0x58, 0x59, 0x5A, 0xC4, 0xD6, 0xD1, 0xDC, 0xA7, 0xBF, 0x61, 0x62, 0x63, 0x64, 0x65, 0x66,
     0x67, 0x68, 0x69, 0x6A, 0x6B, 0x6C, 0x6D, 0x6E, 0x6F, 0x70, 0x71, 0x72, 0x73, 0x74, 0x75,
     0x76, 0x77, 0x78, 0x79, 0x7A, 0xE4, 0xF6, 0xF1, 0xFC, 0xE0]"

definition extCharMap :: "(u16 \<times> u8) list" where
  "extCharMap = [
     (0xC, MSG_GSM7EXT_CHAR), (0x5B, MSG_GSM7EXT_CHAR), (0x5C, MSG_GSM7EXT_CHAR),
     (0x5D, MSG_GSM7EXT_CHAR), (0x5E, MSG_GSM7EXT_CHAR), (0x7B, MSG_GSM7EXT_CHAR),
     (0x7C, MSG_GSM7EXT_CHAR), (0x7D, MSG_GSM7EXT_CHAR), (0x7E, MSG_GSM7EXT_CHAR),
     (0x20AC, MSG_GSM7EXT_CHAR), (0xE7, MSG_TURKISH_CHAR), (0x11E, MSG_TURKISH_CHAR),
     (0x11F, MSG_TURKISH_CHAR), (0x1E6, MSG_TURKISH_CHAR), (0x1E7, MSG_TURKISH_CHAR),
     (0x130, MSG_TURKISH_CHAR), (0x131, MSG_TURKISH_CHAR), (0x15E, MSG_TURKISH_CHAR),
     (0x15F, MSG_TURKISH_CHAR), (0xC1, MSG_SPANISH_CHAR), (0xE1, MSG_SPANISH_CHAR),
     (0xCD, MSG_SPANISH_CHAR), (0xED, MSG_SPANISH_CHAR), (0xD3, MSG_SPANISH_CHAR),
     (0xF3, MSG_SPANISH_CHAR), (0xDA, MSG_SPANISH_CHAR), (0xFA, MSG_SPANISH_CHAR),
     (0xD4, MSG_PORTUGUESE_CHAR), (0xF4, MSG_PORTUGUESE_CHAR), (0xCA, MSG_PORTUGUESE_CHAR),
     (0xEA, MSG_PORTUGUESE_CHAR), (0xC0, MSG_PORTUGUESE_CHAR), (0xE7, MSG_PORTUGUESE_CHAR),
     (0xC3, MSG_PORTUGUESE_CHAR), (0xE3, MSG_PORTUGUESE_CHAR), (0xD5, MSG_PORTUGUESE_CHAR),
     (0xF5, MSG_PORTUGUESE_CHAR), (0xC2, MSG_PORTUGUESE_CHAR), (0xE2, MSG_PORTUGUESE_CHAR)]"

definition gsm7bitDefMap :: "(u16 \<times> u8) list" where
  "gsm7bitDefMap = rev (zip GSM7_BIT_TO_UC_S2 (map word_of_nat [0..<128]))"

definition gsm7bitExtMap :: "(u16 \<times> u8) list" where
  "gsm7bitExtMap = [
     (0x5B, 0x3C), (0x5D, 0x3E), (0x7B, 0x28), (0x7D, 0x29), (0xC, 0x0A), (0x5C, 0x2F),
     (0x5E, 0x14), (0x7C, 0x40), (0x7E, 0x3D), (0x20AC, 0x65)]"

definition turkishMap :: "(u16 \<times> u8) list" where
  "turkishMap = [
     (0x5B, 0x3C), (0x5D, 0x3E), (0x7B, 0x28), (0x7D, 0x29), (0xC, 0x0A), (0x5C, 0x2F),
     (0x5E, 0x14), (0x7C, 0x40), (0x7E, 0x3D), (0x20AC, 0x65), (0xE7, 0x63), (0x11E, 0x47),
     (0x11F, 0x67), (0x1E6, 0x47), (0x1E7, 0x67), (0x130, 0x49), (0x131, 0x69), (0x15E, 0x53),
     (0x15F, 0x73)]"

definition spanishMap :: "(u16 \<times> u8) list" where
  "spanishMap = [
     (0x5B, 0x3C), (0x5D, 0x3E), (0x7B, 0x28), (0x7D, 0x29), (0xC, 0x0A), (0x5C, 0x2F),
     (0x5E, 0x14), (0x7C, 0x40), (0x7E, 0x3D), (0x20AC, 0x65), (0xC1, 0x41), (0xE1, 0x61),
     (0xCD, 0x49), (0xED, 0x69), (0xD3, 0x4F), (0xF3, 0x6F), (0xDA, 0x55), (0xFA, 0x75)]"

definition portuMap :: "(u16 \<times> u8) list" where
  "portuMap = [
     (0x5B, 0x3C), (0x5D, 0x3E), (0x7B, 0x28), (0x7D, 0x29), (0xC, 0x0A), (0x5C, 0x2F),
     (0x5E, 0x14), (0x7C, 0x40), (0x7E, 0x3D), (0x20AC, 0x65), (0xD4, 0x0B), (0xF4, 0x0C),
     (0xC1, 0x0E), (0xE1, 0x0F), (0xCA, 0x1F), (0xEA, 0x05), (0xC0, 0x41), (0xE7, 0x09),
     (0xCD, 0x49), (0xED, 0x69), (0xD3, 0x4F), (0xF3, 0x6F), (0xDA, 0x55), (0xFA, 0x75),
     (0xC3, 0x61), (0xE3, 0x7B), (0xD5, 0x5C), (0xF5, 0x7C), (0xC2, 0x61), (0xE2, 0x7F),
     (0x3A6, 0x12), (0x393, 0x13), (0x3A9, 0x15), (0x3A0, 0x16), (0x3A8, 0x17), (0x3A3, 0x18),
     (0x398, 0x19)]"

definition replaceCharMap :: "(u16 \<times> u8) list" where
  "replaceCharMap = [
     (0xE0, 0x61), (0xE1, 0x61), (0xE2, 0x61), (0xE3, 0x61), (0xE4, 0x61), (0xE5, 0x61),
     (0xE6, 0x61), (0x101, 0x61), (0x103, 0x61), (0x105, 0x61), (0x1CE, 0x61), (0xC0, 0x41),
     (0xC1, 0x41), (0xC2, 0x41), (0xC3, 0x41), (0xC4, 0x41), (0xC5, 0x41), (0xC6, 0x41),
     (0x100, 0x41), (0x102, 0x41), (0x104, 0x41), (0x1CD, 0x41), (0xE7, 0x63), (0x107, 0x63),
     (0x109, 0x63), (0x10B, 0x63), (0x10D, 0x63), (0xC7, 0x43), (0x106, 0x43), (0x108, 0x43),
     (0x10A, 0x43), (0x10C, 0x43), (0x10F, 0x64), (0x111, 0x64), (0x10E, 0x44), (0x110, 0x44),
     (0xE8, 0x65), (0xE9, 0x65), (0xEA, 0x65), (0xEB, 0x65), (0x113, 0x65), (0x115, 0x65),
     (0x117, 0x65), (0x119, 0x65), (0x11B, 0x65), (0x259, 0x65), (0xC8, 0x45), (0xC9, 0x45),
     (0xCA, 0x45), (0xCB, 0x45), (0x112, 0x45), (0x114, 0x45), (0x116, 0x45), (0x118, 0x45),
     (0x11A, 0x45), (0x18F, 0x45), (0x11D, 0x67), (0x11F, 0x67), (0x121, 0x67), (0x123, 0x67),
     (0x1E7, 0x67), (0x1F5, 0x67), (0x1E21, 0x67), (0x11C, 0x47), (0x11E, 0x47), (0x120, 0x47),
     (0x122, 0x47), (0x1E6, 0x47), (0x1F4, 0x47), (0x1E20, 0x47), (0xEC, 0x69), (0xED, 0x69),
     (0xEE, 0x69), (0xEF, 0x69), (0x129, 0x69), (0x12B, 0x69), (0x12D, 0x69), (0x12F, 0x69),
     (0x1D0, 0x69), (0x131, 0x69), (0xCC, 0x49), (0xCD, 0x49), (0xCE, 0x49), (0xCF, 0x49),
     (0x128, 0x49), (0x12A, 0x49), (0x12C, 0x49), (0x12E, 0x49), (0x130, 0x49), (0x137, 0x6B),
     (0x136, 0x4B), (0x13A, 0x6C), (0x13C, 0x6C), (0x13E, 0x6C), (0x140, 0x6C), (0x142, 0x6C),
     (0x139, 0x4C), (0x13B, 0x4C), (0x13D, 0x4C), (0x13F, 0x4C), (0x141, 0x4C), (0xF1, 0x6E),
     (0x144, 0x6E), (0x146, 0x6E), (0x148, 0x6E), (0xD1, 0x4E), (0x143, 0x4E), (0x145, 0x4E),
     (0x147, 0x4E), (0xF2, 0x6F), (0xF3, 0x6F), (0xF4, 0x6F), (0xF5, 0x6F), (0xF6, 0x6F),
     (0xF8, 0x6F), (0x14D, 0x6F), (0x14F, 0x6F), (0x1D2, 0x6F), (0x1EB, 0x6F), (0x151, 0x6F),
     (0x153, 0x6F), (0xD2, 0x4F), (0xD3, 0x4F), (0xD4, 0x4F), (0xD5, 0x4F), (0xD6, 0x4F),
     (0xD8, 0x4F), (0x14C, 0x4F), (0x14E, 0x4F), (0x1D1, 0x4F), (0x1EA, 0x4F), (0x150, 0x4F),
     (0x152, 0x4F), (0x155, 0x72), (0x157, 0x72), (0x159, 0x72), (0x154, 0x52), (0x156, 0x52),
     (0x158, 0x52), (0x15B, 0x73), (0x15D, 0x73), (0x15F, 0x73), (0x161, 0x73), (0x15A, 0x53),
     (0x15C, 0x53), (0x15E, 0x53), (0x160, 0x53), (0xFE, 0x74), (0x163, 0x74), (0x165, 0x74),
     (0x167, 0x74), (0x21B, 0x74), (0xDE, 0x54), (0x162, 0x54), (0x164, 0x54), (0x166, 0x54),
     (0xF9, 0x75), (0xFA, 0x75), (0xFB, 0x75), (0xFC, 0x75), (0x169, 0x75), (0x16B, 0x75),
     (0x16D, 0x75), (0x16F, 0x75), (0x171, 0x75), (0x173, 0x75), (0x1D4, 0x75), (0xD9, 0x55),
     (0xDA, 0x55), (0xDB, 0x55), (0xDC, 0x55), (0x168, 0x55), (0x16A, 0x55), (0x16C, 0x55),
     (0x16E, 0x55), (0x170, 0x55), (0x172, 0x55), (0x1D3, 0x55), (0xFD, 0x79), (0xFF, 0x79),
     (0x177, 0x79), (0x233, 0x79), (0x1EF3, 0x79), (0x1EF9, 0x79), (0xDD, 0x59), (0x176, 0x59),
     (0x178, 0x59), (0x232, 0x59), (0x1EF2, 0x59), (0x1EF8, 0x59), (0x17A, 0x7A), (0x17C, 0x7A),
     (0x17E, 0x7A), (0x179, 0x5A), (0x17B, 0x5A), (0x17D, 0x5A)]"

definition turkishLockingToUcs2 :: "u16 list" where
  "turkishLockingToUcs2 = [
     0x40, 0xA3, 0x24, 0xA5, 0x20AC, 0xE9, 0xF9, 0xEC, 0xF2, 0xC7, 0xA, 0x11E, 0x11F, 0xD, 0xC5,
     0xE5, 0x394, 0x5F, 0x3A6, 0x393, 0x39B, 0x3A9, 0x3A0, 0x3A8, 0x3A3, 0x398, 0x39E, 0x1B,
     0x15E, 0x15F, 0xDF, 0xC9, 0x20, 0x21, 0x22, 0x23, 0xA4, 0x25, 0x26, 0x27, 0x28, 0x29, 0x2A,
     0x2B, 0x2C, 0x2D, 0x2E, 0x2F, 0x30, 0x31, 0x32, 0x33, 0x34, 0x35, 0x36, 0x37, 0x38, 0x39,
     0x3A, 0x3B, 0x3C, 0x3D, 0x3E, 0x3F, 0x130, 0x41, 0x42, 0x43, 0x44, 0x45, 0x46, 0x47, 0x48,
     0x49, 0x4A, 0x4B, 0x4C, 0x4D, 0x4E, 0x4F, 0x50, 0x51, 0x52, 0x53, 0x54, 0x55, 0x56, 0x57,
     0x58, 0x59, 0x5A, 0xC4, 0xD6, 0xD1, 0xDC, 0xA7, 0xE7, 0x61, 0x62, 0x63, 0x64, 0x65, 0x66,
     0x67, 0x68, 0x69, 0x6A, 0x6B, 0x6C, 0x6D, 0x6E, 0x6F, 0x70, 0x71, 0x72, 0x73, 0x74, 0x75,
     0x76, 0x77, 0x78, 0x79, 0x7A, 0xE4, 0xF6, 0xF1, 0xFC, 0xE0]"

definition portuLockingToUcs2 :: "u16 list" where
  "portuLockingToUcs2 = [
     0x40, 0xA3, 0x24, 0xA5, 0xEA, 0xE9, 0xFA, 0xED, 0xF3, 0xE7, 0xA, 0xD4, 0xF4, 0xD, 0xC1,
     0xE1, 0x394, 0x5F, 0x20, 0xC7, 0xC0, 0x20, 0x5E, 0x5C, 0x20AC, 0xD3, 0x7C, 0x1B, 0xC2, 0xE2,
     0xCA, 0xC9, 0x20, 0x21, 0x22, 0x23, 0xA4, 0x25, 0x26, 0x27, 0x28, 0x29, 0x2A, 0x2B, 0x2C,
     0x2D, 0x2E, 0x2F, 0x30, 0x31, 0x32, 0x33, 0x34, 0x35, 0x36, 0x37, 0x38, 0x39, 0x3A, 0x3B,
     0x3C, 0x3D, 0x3E, 0x3F, 0xCD, 0x41, 0x42, 0x43, 0x44, 0x45, 0x46, 0x47, 0x48, 0x49, 0x4A,
     0x4B, 0x4C, 0x4D, 0x4E, 0x4F, 0x50, 0x51, 0x52, 0x53, 0x54, 0x55, 0x56, 0x57, 0x58, 0x59,
     0x5A, 0xC3, 0xD5, 0xDA, 0xDC, 0xA7, 0xBF, 0x61, 0x62, 0x63, 0x64, 0x65, 0x66, 0x67, 0x68,
     0x69, 0x6A, 0x6B, 0x6C, 0x6D, 0x6E, 0x6F, 0x70, 0x71, 0x72, 0x73, 0x74, 0x75, 0x76, 0x77,
     0x78, 0x79, 0x7A, 0xE3, 0xF5, 0x20, 0xFC, 0xE0]"

definition turkishSingleToUcs2 :: "u16 list" where
  "turkishSingleToUcs2 = [
     0x20, 0x20, 0x20, 0x20, 0x20, 0x20, 0x20, 0x20, 0x20, 0x20, 0xC, 0x20, 0x20, 0x20, 0x20,
     0x20, 0x20, 0x20, 0x20, 0x20, 0x5E, 0x20, 0x20, 0x20, 0x20, 0x20, 0x20, 0x1B, 0x20, 0x20,
     0x20, 0x20, 0x20, 0x20, 0x20, 0x20, 0x20, 0x20, 0x20, 0x20, 0x7B, 0x7D, 0x20, 0x20, 0x20,
     0x20, 0x20, 0x5C, 0x20, 0x20, 0x20, 0x20, 0x20, 0x20, 0x20, 0x20, 0x20, 0x20, 0x20, 0x20,
     0x5B, 0x7E, 0x5D, 0x20, 0x7C, 0x20, 0x20, 0x20, 0x20, 0x20, 0x20, 0x11E, 0x20, 0x130, 0x20,
     0x20, 0x20, 0x20, 0x20, 0x20, 0x20, 0x20, 0x20, 0x15E, 0x20, 0x20, 0x20, 0x20, 0x20, 0x20,
     0x20, 0x20, 0x20, 0x20, 0x20, 0x20, 0x20, 0x20, 0x20, 0xE7, 0x20, 0x20AC, 0x20, 0x11F, 0x20,
     0x131, 0x20, 0x20, 0x20, 0x20, 0x20, 0x20, 0x20, 0x20, 0x20, 0x15F, 0x20, 0x20, 0x20, 0x20,
     0x20, 0x20, 0x20, 0x20, 0x20, 0x20, 0x20, 0x20]"

definition spanishSingleToUcs2 :: "u16 list" where
  "spanishSingleToUcs2 = [
     0x20, 0x20, 0x20, 0x20, 0x20, 0x20, 0x20, 0x20, 0x20, 0xE7, 0xC, 0x20, 0x20, 0x20, 0x20,
     0x20, 0x20, 0x20, 0x20, 0x20, 0x5E, 0x20, 0x20, 0x20, 0x20, 0x20, 0x20, 0x1B, 0x20, 0x20,
     0x20, 0x20, 0x20, 0x20, 0x20, 0x20, 0x20, 0x20, 0x20, 0x20, 0x7B, 0x7D, 0x20, 0x20, 0x20,
     0x20, 0x20, 0x5C, 0x20, 0x20, 0x20, 0x20, 0x20, 0x20, 0x20, 0x20, 0x20, 0x20, 0x20, 0x20,
     0x5B, 0x7E, 0x5D, 0x20, 0x7C, 0xC1, 0x20, 0x20, 0x20, 0x20, 0x20, 0x20, 0x20, 0xCD, 0x20,
     0x20, 0x20, 0x20, 0x20, 0xD3, 0x20, 0x20, 0x20, 0x20, 0x20, 0xDA, 0x20, 0x20, 0x20, 0x20,
     0x20, 0x20, 0x20, 0x20, 0x20, 0x20, 0x20, 0xE1, 0x20, 0x20, 0x20, 0x20AC, 0x20, 0x20, 0x20,
     0xED, 0x20, 0x20, 0x20, 0x20, 0x20, 0xF3, 0x20, 0x20, 0x20, 0x20, 0x20, 0xFA, 0x20, 0x20,
     0x20, 0x20, 0x20, 0x20, 0x20, 0x20, 0x20, 0x20]"

definition gsm7BitExtToUcs2 :: "u16 list" where
  "gsm7BitExtToUcs2 = [
     0x20, 0x20, 0x20, 0x20, 0x20, 0x20, 0x20, 0x20, 0x20, 0x20, 0xC, 0x20, 0x20, 0x20, 0x20,
     0x20, 0x20, 0x20, 0x20, 0x20, 0x5E, 0x20, 0x20, 0x20, 0x20, 0x20, 0x20, 0x1B, 0x20, 0x20,
     0x20, 0x20, 0x20, 0x20, 0x20, 0x20, 0x20, 0x20, 0x20, 0x20, 0x7B, 0x7D, 0x20, 0x20, 0x20,
     0x20, 0x20, 0x5C, 0x20, 0x20, 0x20, 0x20, 0x20, 0x20, 0x20, 0x20, 0x20, 0x20, 0x20, 0x20,
     0x5B, 0x7E, 0x5D, 0x20, 0x7C, 0x20, 0x20, 0x20, 0x20, 0x20, 0x20, 0x20, 0x20, 0x20, 0x20,
     0x20, 0x20, 0x20, 0x20, 0x20, 0x20, 0x20, 0x20, 0x20, 0x20, 0x20, 0x20, 0x20, 0x20, 0x20,
     0x20, 0x20, 0x20, 0x20, 0x20, 0x20, 0x20, 0x20, 0x20, 0x20, 0x20, 0x20AC, 0x20, 0x20, 0x20,
     0x20, 0x20, 0x20, 0x20, 0x20, 0x20, 0x20, 0x20, 0x20, 0x20, 0x20, 0x20, 0x20, 0x20, 0x20,
     0x20, 0x20, 0x20, 0x20, 0x20, 0x20, 0x20, 0x20]"

definition portuSingleToUcs2 :: "u16 list" where
  "portuSingleToUcs2 = [
     0x20, 0x20, 0x20, 0x20, 0x20, 0xEA, 0x20, 0x20, 0x20, 0xE7, 0xC, 0xD4, 0xF4, 0x20, 0xC1,
     0xE1, 0x20, 0x20, 0x3A6, 0x393, 0x5E, 0x3A9, 0x3A0, 0x3A8, 0x3A3, 0x398, 0x20, 0x1B, 0x20,
     0x20, 0x20, 0xCA, 0x20, 0x20, 0x20, 0x20, 0x20, 0x20, 0x20, 0x20, 0x7B, 0x7D, 0x20, 0x20,
     0x20, 0x20, 0x20, 0x5C, 0x20, 0x20, 0x20, 0x20, 0x20, 0x20, 0x20, 0x20, 0x20, 0x20, 0x20,
     0x20, 0x5B, 0x7E, 0x5D, 0x20, 0x7C, 0xC0, 0x20, 0x20, 0x20, 0x20, 0x20, 0x20, 0x20, 0xCD,
     0x20, 0x20, 0x20, 0x20, 0x20, 0xD3, 0x20, 0x20, 0x20, 0x20, 0x20, 0xDA, 0x20, 0x20, 0x20,
     0x20, 0x20, 0xC3, 0xD5, 0x20, 0x20, 0x20, 0x20, 0xC2, 0x20, 0x20, 0x20, 0x20AC, 0x20, 0x20,
     0x20, 0xED, 0x20, 0x20, 0x20, 0x20, 0x20, 0xF3, 0x20, 0x20, 0x20, 0x20, 0x20, 0xFA, 0x20,
     0x20, 0x20, 0x20, 0x20, 0xE3, 0xF5, 0x20, 0x20, 0xE2]"

section \<open>From UCS-2\<close>

text \<open>A character is two bytes, the upper one first; an odd last byte is not looked at.\<close>

definition ucs2 :: "u8 \<Rightarrow> u8 \<Rightarrow> u16" where
  "ucs2 h l = (push_bit 8 (ucast h) AND 0xFF00) OR ucast l"

fun ucs2_chars :: "bytes \<Rightarrow> u16 list" where
  "ucs2_chars (h # l # rest) = ucs2 h l # ucs2_chars rest"
| "ucs2_chars _ = []"

definition FindReplaceChar :: "u16 \<Rightarrow> u8" where
  "FindReplaceChar inText = (case map_of replaceCharMap inText of Some c \<Rightarrow> c | None \<Rightarrow> 0x3F)"

text \<open>
  The four functions \<^verbatim>\<open>FindGsm7bitExt\<close>, \<^verbatim>\<open>FindTurkish\<close>, \<^verbatim>\<open>FindSpanish\<close> and \<^verbatim>\<open>FindPortu\<close> have one body over
  their maps; \<open>off\<close> is the offset of the \<^verbatim>\<open>dest\<close> they are passed.
\<close>

definition find_ext :: "(u16 \<times> u8) list \<Rightarrow> nat \<Rightarrow> int \<Rightarrow> u16 \<Rightarrow> (bytes, nat) op" where
  "find_ext m off maxLength inText =
     (if maxLength \<le> 0 then ret 0
      else case map_of m inText of
        None \<Rightarrow> seq (put_at off (FindReplaceChar inText)) (ret 1)
      | Some c \<Rightarrow>
          if maxLength \<le> 1 then ret 0
          else seq (put_at off 0x1B) (seq (put_at (off + 1) c) (ret 2)))"

definition FindGsm7bitExt :: "nat \<Rightarrow> int \<Rightarrow> u16 \<Rightarrow> (bytes, nat) op" where
  "FindGsm7bitExt = find_ext gsm7bitExtMap"

definition FindTurkish :: "nat \<Rightarrow> int \<Rightarrow> u16 \<Rightarrow> (bytes, nat) op" where
  "FindTurkish = find_ext turkishMap"

definition FindSpanish :: "nat \<Rightarrow> int \<Rightarrow> u16 \<Rightarrow> (bytes, nat) op" where
  "FindSpanish = find_ext spanishMap"

definition FindPortu :: "nat \<Rightarrow> int \<Rightarrow> u16 \<Rightarrow> (bytes, nat) op" where
  "FindPortu = find_ext portuMap"

fun lang_type_loop :: "u16 list \<Rightarrow> u8 \<Rightarrow> u8" where
  "lang_type_loop [] currType = currType"
| "lang_type_loop (inText # rest) currType =
     (case map_of extCharMap inText of
        None \<Rightarrow> lang_type_loop rest currType
      | Some newType \<Rightarrow>
          if newType \<ge> currType then
            (let isTurkisk = (inText = 0x00E7 \<and> currType \<le> MSG_TURKISH_CHAR)
             in lang_type_loop rest (if isTurkisk then MSG_TURKISH_CHAR else newType))
          else lang_type_loop rest currType)"

definition GetLangType :: "bytes \<Rightarrow> u8" where
  "GetLangType src = lang_type_loop (ucs2_chars src) MSG_DEFAULT_CHAR"

text \<open>
  The body of the \<^verbatim>\<open>switch\<close> of \<^verbatim>\<open>Ucs2ToGsm7bit\<close>: the new \<^verbatim>\<open>langId\<close> and what is added to
  \<^verbatim>\<open>outTextLen\<close>, before the \<^verbatim>\<open>outTextLen++\<close> that follows the \<^verbatim>\<open>switch\<close>.
\<close>

definition ucs2_ext_char :: "u8 \<Rightarrow> nat \<Rightarrow> int \<Rightarrow> u16 \<Rightarrow> u8 \<Rightarrow> (bytes, nat \<times> u8) op" where
  "ucs2_ext_char currType outTextLen remainLen inText langId =
     (if currType = MSG_GSM7EXT_CHAR then
        bnd (FindGsm7bitExt outTextLen remainLen inText) (\<lambda>n. ret (n, langId))
      else if currType = MSG_TURKISH_CHAR then
        bnd (FindTurkish outTextLen remainLen inText) (\<lambda>n. ret (n, MSG_ID_TURKISH_LANG))
      else if currType = MSG_SPANISH_CHAR then
        bnd (FindSpanish outTextLen remainLen inText) (\<lambda>n. ret (n, MSG_ID_SPANISH_LANG))
      else if currType = MSG_PORTUGUESE_CHAR then
        bnd (FindPortu outTextLen remainLen inText) (\<lambda>n. ret (n, MSG_ID_PORTUGUESE_LANG))
      else
        seq (put_at outTextLen (FindReplaceChar inText)) (ret (0, langId)))"

fun ucs2_to_gsm7_loop :: "u8 \<Rightarrow> int \<Rightarrow> u16 list \<Rightarrow> nat \<Rightarrow> u8 \<Rightarrow> (bytes, int \<times> u8) op" where
  "ucs2_to_gsm7_loop currType maxLength [] outTextLen langId = ret (int outTextLen, langId)"
| "ucs2_to_gsm7_loop currType maxLength (inText # rest) outTextLen langId =
     bnd (case map_of gsm7bitDefMap inText of
            Some c \<Rightarrow> seq (put_at outTextLen c) (ret (outTextLen + 1, langId))
          | None \<Rightarrow>
              bnd (ucs2_ext_char currType outTextLen (maxLength - int outTextLen) inText langId)
                (\<lambda>(n, langId). ret (outTextLen + n + 1, langId)))
       (\<lambda>(outTextLen, langId).
          if maxLength \<le> int outTextLen then ret (int outTextLen, langId)
          else ucs2_to_gsm7_loop currType maxLength rest outTextLen langId)"

definition Ucs2ToGsm7bit :: "int \<Rightarrow> bytes \<Rightarrow> u8 \<Rightarrow> (bytes, int \<times> u8) op" where
  "Ucs2ToGsm7bit maxLength src langId =
     (if src = [] \<or> maxLength \<le> 0 then ret (- 1, langId)
      else ucs2_to_gsm7_loop (GetLangType src) maxLength (ucs2_chars src) 0 langId)"

definition Get7BitCodingExtMap :: "SmsCodingNationalType \<Rightarrow> (u16 \<times> u8) list" where
  "Get7BitCodingExtMap codingNationalType =
     (case codingNationalType of
        SMS_CODING_NATIONAL_TYPE_DEFAULT \<Rightarrow> gsm7bitExtMap
      | SMS_CODING_NATIONAL_TYPE_TURKISH \<Rightarrow> turkishMap
      | SMS_CODING_NATIONAL_TYPE_SPANISH \<Rightarrow> spanishMap
      | SMS_CODING_NATIONAL_TYPE_PORTUGUESE \<Rightarrow> portuMap)"

text \<open>The loop of \<^verbatim>\<open>Ucs2ToGsm7bitAuto\<close>; the result is the return value and \<^verbatim>\<open>unknown\<close>.\<close>

fun ucs2_auto_loop :: "(u16 \<times> u8) list \<Rightarrow> int \<Rightarrow> u16 list \<Rightarrow> nat \<Rightarrow> (bytes, int \<times> bool) op" where
  "ucs2_auto_loop extMap maxLength [] outTextLen = ret (int outTextLen, False)"
| "ucs2_auto_loop extMap maxLength (inText # rest) outTextLen =
     (case map_of gsm7bitDefMap inText of
        Some c \<Rightarrow>
          seq (put_at outTextLen c)
            (if maxLength \<le> int (outTextLen + 1) then ret (int (outTextLen + 1), False)
             else ucs2_auto_loop extMap maxLength rest (outTextLen + 1))
      | None \<Rightarrow>
          (case map_of extMap inText of
             None \<Rightarrow> ret (0, True)
           | Some c \<Rightarrow>
               if maxLength \<le> int (outTextLen + 1) then ret (int outTextLen, False)
               else seq (put_at outTextLen 0x1B) (seq (put_at (outTextLen + 1) c)
                 (if maxLength \<le> int (outTextLen + 2) then ret (int (outTextLen + 2), False)
                  else ucs2_auto_loop extMap maxLength rest (outTextLen + 2)))))"

definition Ucs2ToGsm7bitAuto :: "int \<Rightarrow> bytes \<Rightarrow> SmsCodingNationalType \<Rightarrow> (bytes, int \<times> bool) op" where
  "Ucs2ToGsm7bitAuto maxLength src codingNationalType =
     (if src = [] \<or> maxLength \<le> 0 then ret (- 1, False)
      else ucs2_auto_loop (Get7BitCodingExtMap codingNationalType) maxLength (ucs2_chars src) 0)"

fun ucs2_ascii_loop :: "int \<Rightarrow> u16 list \<Rightarrow> nat \<Rightarrow> (bytes, int \<times> bool) op" where
  "ucs2_ascii_loop maxLength [] outTextLen = ret (int outTextLen, False)"
| "ucs2_ascii_loop maxLength (inText # rest) outTextLen =
     (if inText > 0x007F then ret (0, True)
      else seq (put_at outTextLen (ucast inText))
        (if maxLength \<le> int (outTextLen + 1) then ret (int (outTextLen + 1), False)
         else ucs2_ascii_loop maxLength rest (outTextLen + 1)))"

definition Ucs2ToAscii :: "int \<Rightarrow> bytes \<Rightarrow> (bytes, int \<times> bool) op" where
  "Ucs2ToAscii maxLength src =
     (if src = [] \<or> maxLength \<le> 0 then ret (- 1, False)
      else ucs2_ascii_loop maxLength (ucs2_chars src) 0)"

section \<open>To UCS-2\<close>

text \<open>A read of a table of 128 entries; \<open>None\<close> is a read behind its end.\<close>

definition table_at :: "u16 list \<Rightarrow> u8 \<Rightarrow> u16 option" where
  "table_at t c = (if unat c < length t then Some (t ! unat c) else None)"

definition GetTurkishSingleToUcs2 :: "u8 \<Rightarrow> u16 option" where
  "GetTurkishSingleToUcs2 = table_at turkishSingleToUcs2"

definition GetSpanishSingleToUcs2 :: "u8 \<Rightarrow> u16 option" where
  "GetSpanishSingleToUcs2 = table_at spanishSingleToUcs2"

definition GetPortuSingleToUcs2 :: "u8 \<Rightarrow> u16 option" where
  "GetPortuSingleToUcs2 = table_at portuSingleToUcs2"

definition GetGsm7BitExtToUcs2 :: "u8 \<Rightarrow> u16 option" where
  "GetGsm7BitExtToUcs2 = table_at gsm7BitExtToUcs2"

definition EscapeToUcs2 :: "u8 \<Rightarrow> MsgLangInfo \<Rightarrow> u16 option" where
  "EscapeToUcs2 srcText langInfo =
     (if bSingleShift langInfo then
        (if singleLang langInfo = MSG_ID_TURKISH_LANG then GetTurkishSingleToUcs2 srcText
         else if singleLang langInfo = MSG_ID_SPANISH_LANG then GetSpanishSingleToUcs2 srcText
         else if singleLang langInfo = MSG_ID_PORTUGUESE_LANG then GetPortuSingleToUcs2 srcText
         else GetGsm7BitExtToUcs2 srcText)
      else GetGsm7BitExtToUcs2 srcText)"

text \<open>
  The three \<^verbatim>\<open>Escape...ToUcs2\<close> functions have one body over their tables: the offset of the last
  septet used and the character. A lone escape at the end leaves \<^verbatim>\<open>result\<close> as it was.
\<close>

definition escape_to_ucs2 :: "u16 list \<Rightarrow> bytes \<Rightarrow> MsgLangInfo \<Rightarrow> u16 \<Rightarrow> (nat \<times> u16) option" where
  "escape_to_ucs2 t src langInfo result =
     (case src of
        [] \<Rightarrow> Some (0, result)
      | c # rest \<Rightarrow>
          (case table_at t c of
             None \<Rightarrow> None
           | Some r \<Rightarrow>
               if r = 0x001B then
                 (case rest of
                    [] \<Rightarrow> Some (1, result)
                  | d # _ \<Rightarrow> map_option (\<lambda>r. (1, r)) (EscapeToUcs2 d langInfo))
               else Some (0, r)))"

definition EscapeTurkishLockingToUcs2 :: "bytes \<Rightarrow> MsgLangInfo \<Rightarrow> u16 \<Rightarrow> (nat \<times> u16) option" where
  "EscapeTurkishLockingToUcs2 = escape_to_ucs2 turkishLockingToUcs2"

definition EscapePortuLockingToUcs2 :: "bytes \<Rightarrow> MsgLangInfo \<Rightarrow> u16 \<Rightarrow> (nat \<times> u16) option" where
  "EscapePortuLockingToUcs2 = escape_to_ucs2 portuLockingToUcs2"

definition EscapeGsm7bitToUcs2 :: "bytes \<Rightarrow> MsgLangInfo \<Rightarrow> u16 \<Rightarrow> (nat \<times> u16) option" where
  "EscapeGsm7bitToUcs2 = escape_to_ucs2 GSM7_BIT_TO_UC_S2"

text \<open>
  One iteration of \<^verbatim>\<open>Gsm7bitToUcs2\<close>: the step of the index, \<^verbatim>\<open>result\<close> and the two bytes; with a
  locking language that has no table nothing is assigned.
\<close>

definition gsm7_char :: "bytes \<Rightarrow> MsgLangInfo \<Rightarrow> u16 \<times> u8 \<times> u8 \<Rightarrow> (nat \<times> u16 \<times> u8 \<times> u8) option" where
  "gsm7_char src langInfo st =
     (let assign = map_option (\<lambda>(n, r). (n, r, ucast (drop_bit 8 r), ucast (r AND 0x00FF)))
      in if bLockingShift langInfo then
           (if lockingLang langInfo = MSG_ID_TURKISH_LANG then
              assign (EscapeTurkishLockingToUcs2 src langInfo (fst st))
            else if lockingLang langInfo = MSG_ID_PORTUGUESE_LANG then
              assign (EscapePortuLockingToUcs2 src langInfo (fst st))
            else Some (0, st))
         else assign (EscapeGsm7bitToUcs2 src langInfo (fst st)))"

function gsm7_to_ucs2_loop ::
  "MsgLangInfo \<Rightarrow> int \<Rightarrow> bytes \<Rightarrow> u16 \<times> u8 \<times> u8 \<Rightarrow> nat \<Rightarrow> (bytes, int) op" where
  "gsm7_to_ucs2_loop langInfo maxLength src st outTextLen =
     (if src = [] \<or> \<not> maxLength > 2 then seq (put_at outTextLen 0) (ret (int outTextLen))
      else if hd src \<ge> 0x80 then ret (- 1)
      else case gsm7_char src langInfo st of
        None \<Rightarrow> fault
      | Some (n, r, up, lo) \<Rightarrow>
          seq (put_at outTextLen up) (seq (put_at (outTextLen + 1) lo)
            (gsm7_to_ucs2_loop langInfo (maxLength - 2) (drop (n + 1) src) (r, up, lo) (outTextLen + 2))))"
  by pat_completeness auto
termination
  by (relation "measure (\<lambda>(langInfo, maxLength, src, st, outTextLen). length src)") auto

declare gsm7_to_ucs2_loop.simps [simp del]

definition Gsm7bitToUcs2 :: "int \<Rightarrow> bytes \<Rightarrow> MsgLangInfo \<Rightarrow> (bytes, int) op" where
  "Gsm7bitToUcs2 maxLength src langInfo =
     (if src = [] \<or> maxLength \<le> 0 then ret (- 1)
      else gsm7_to_ucs2_loop langInfo maxLength src (0, 0, 0) 0)"

definition GetUCS2Value :: "nat \<Rightarrow> u16" where
  "GetUCS2Value charset = (if charset \<ge> 128 then 0 else GSM7_BIT_TO_UC_S2 ! charset)"

section \<open>UTF-8\<close>

text \<open>
  \<^verbatim>\<open>srcLength == -1\<close> stands for a NUL-terminated source. A \<open>conv\<close> that wrote more than it may would
  be an access outside \<^verbatim>\<open>dest\<close>.
\<close>

definition src_text :: "bytes \<Rightarrow> int \<Rightarrow> bytes" where
  "src_text src srcLength = (if srcLength = - 1 then c_str src else take (nat srcLength) src)"

definition put_all :: "bytes \<Rightarrow> (bytes, unit) op" where
  "put_all xs dest = (if length xs \<le> length dest then Ok () (write_at 0 xs dest) else Fault)"

definition Utf8ToUcs2 :: "iconv \<Rightarrow> int \<Rightarrow> bytes \<Rightarrow> int \<Rightarrow> (bytes, int) op" where
  "Utf8ToUcs2 ic maxLength src srcLength =
     (if src_text src srcLength = [] \<or> maxLength \<le> 0 then ret 0
      else case ic ''UTF16BE'' ''UTF8'' of
        None \<Rightarrow> ret 0
      | Some conv \<Rightarrow>
          (case conv (src_text src srcLength) (nat maxLength) of
             (ok, out) \<Rightarrow> seq (put_all out) (ret (if \<not> ok then - 1 else int (length out)))))"

text \<open>The conversions to UTF-8 go on after an error of \<^verbatim>\<open>iconv\<close>.\<close>

definition to_utf8 :: "iconv \<Rightarrow> string \<Rightarrow> int \<Rightarrow> bytes \<Rightarrow> int \<Rightarrow> (bytes, int) op" where
  "to_utf8 ic from maxLength src srcLength =
     (if src_text src srcLength = [] \<or> maxLength \<le> 0 then ret 0
      else case ic ''UTF8'' from of
        None \<Rightarrow> ret 0
      | Some conv \<Rightarrow>
          (case conv (src_text src srcLength) (nat maxLength) of
             (ok, out) \<Rightarrow> seq (put_all out)
               (ret (if int (length out) \<ge> maxLength then 0 else int (length out)))))"

definition Ucs2ToUtf8 :: "iconv \<Rightarrow> int \<Rightarrow> bytes \<Rightarrow> int \<Rightarrow> (bytes, int) op" where
  "Ucs2ToUtf8 ic maxLength src srcLength = to_utf8 ic ''UTF16BE'' maxLength src srcLength"

text \<open>\<^verbatim>\<open>EuckrToUtf8\<close> and \<^verbatim>\<open>ShiftjisToUtf8\<close> also write a terminator.\<close>

definition terminated_utf8 :: "iconv \<Rightarrow> string \<Rightarrow> int \<Rightarrow> bytes \<Rightarrow> int \<Rightarrow> (bytes, int) op" where
  "terminated_utf8 ic from maxLength src srcLength =
     (if src_text src srcLength = [] \<or> maxLength \<le> 0 then ret 0
      else case ic ''UTF8'' from of
        None \<Rightarrow> ret 0
      | Some conv \<Rightarrow>
          (case conv (src_text src srcLength) (nat maxLength) of
             (ok, out) \<Rightarrow> seq (put_all out)
               (if int (length out) \<ge> maxLength then ret 0
                else seq (put_at (length out) 0) (ret (int (length out))))))"

definition EuckrToUtf8 :: "iconv \<Rightarrow> int \<Rightarrow> bytes \<Rightarrow> int \<Rightarrow> (bytes, int) op" where
  "EuckrToUtf8 ic = terminated_utf8 ic ''EUCKR''"

definition ShiftjisToUtf8 :: "iconv \<Rightarrow> int \<Rightarrow> bytes \<Rightarrow> int \<Rightarrow> (bytes, int) op" where
  "ShiftjisToUtf8 ic = terminated_utf8 ic ''SHIFT-JIS''"

text \<open>
  \<open>wsize\<close> is \<^verbatim>\<open>sizeof(WCHAR)\<close>, where \<^verbatim>\<open>WCHAR\<close> is \<^verbatim>\<open>unsigned long\<close>: 4 or 8 with the target. The
  intermediate UCS-2 text is an array of \<^verbatim>\<open>srcLength\<close> zeroed elements of that size.
\<close>

definition UCS2_LEN_MAX :: "nat \<Rightarrow> int" where
  "UCS2_LEN_MAX wsize = (2 ^ 31 - 1) div int wsize"

definition Utf8ToGsm7bit ::
  "iconv \<Rightarrow> nat \<Rightarrow> int \<Rightarrow> bytes \<Rightarrow> int \<Rightarrow> u8 \<Rightarrow> (bytes, int \<times> u8) op" where
  "Utf8ToGsm7bit ic wsize maxLength src srcLength langId =
     (let srcLength = (if srcLength = - 1 then int (length (c_str src)) else srcLength)
      in if srcLength \<le> 0 \<or> maxLength \<le> 0 then ret (0, langId)
         else if srcLength \<ge> UCS2_LEN_MAX wsize then ret (0, langId)
         else bnd (with_new (replicate (nat srcLength * wsize) 0)
                     (Utf8ToUcs2 ic (srcLength * int wsize) src srcLength)) (\<lambda>(ucs2Length, ucs2Text).
              Ucs2ToGsm7bit maxLength (take (nat ucs2Length) ucs2Text) langId))"

text \<open>\<^verbatim>\<open>memcpy_s(dest, n, src, n)\<close>, whose failure for \<open>n = 0\<close> is only logged.\<close>

definition copy_prefix :: "int \<Rightarrow> bytes \<Rightarrow> (bytes, unit) op" where
  "copy_prefix n src = (if nat n \<le> length src then put_all (take (nat n) src) else fault)"

text \<open>The result is the return value, \<^verbatim>\<open>scheme\<close> and \<^verbatim>\<open>langId\<close>.\<close>

definition lang_id :: "SmsCodingNationalType \<Rightarrow> u8" where
  "lang_id t = (case t of
     SMS_CODING_NATIONAL_TYPE_DEFAULT \<Rightarrow> 0 | SMS_CODING_NATIONAL_TYPE_TURKISH \<Rightarrow> 1
   | SMS_CODING_NATIONAL_TYPE_SPANISH \<Rightarrow> 2 | SMS_CODING_NATIONAL_TYPE_PORTUGUESE \<Rightarrow> 3)"

definition GsmUtf8ToAuto ::
  "iconv \<Rightarrow> nat \<Rightarrow> int \<Rightarrow> bytes \<Rightarrow> int \<Rightarrow> DataCodingScheme \<Rightarrow> SmsCodingNationalType \<Rightarrow> u8 \<Rightarrow>
   (bytes, int \<times> DataCodingScheme \<times> u8) op" where
  "GsmUtf8ToAuto ic wsize maxLength src srcLength scheme codingNationalType langId =
     (if maxLength \<le> 0 \<or> srcLength \<le> 0 \<or> srcLength \<ge> UCS2_LEN_MAX wsize then ret (0, scheme, langId)
      else bnd (with_new (replicate (nat srcLength * wsize) 0)
                  (Utf8ToUcs2 ic (srcLength * int wsize) src srcLength)) (\<lambda>(ucs2Length, ucs2Text).
        if ucs2Length < 0 then
          (let tempTextLen = min srcLength maxLength
           in seq (copy_prefix tempTextLen src) (ret (tempTextLen, DATA_CODING_8BIT, langId)))
        else
          bnd (Ucs2ToGsm7bitAuto maxLength (take (nat ucs2Length) ucs2Text) codingNationalType)
            (\<lambda>(len, unknown).
              if unknown then
                (if ucs2Length \<le> 0 then ret (len, DATA_CODING_UCS2, langId)
                 else let tempTextLen = min ucs2Length maxLength
                      in seq (copy_prefix tempTextLen ucs2Text)
                           (ret (tempTextLen, DATA_CODING_UCS2, langId)))
              else ret (len, DATA_CODING_7BIT, lang_id codingNationalType))))"

definition CdmaUtf8ToAuto ::
  "iconv \<Rightarrow> nat \<Rightarrow> int \<Rightarrow> bytes \<Rightarrow> int \<Rightarrow> DataCodingScheme \<Rightarrow> (bytes, int \<times> DataCodingScheme) op" where
  "CdmaUtf8ToAuto ic wsize maxLength src srcLength scheme =
     (if maxLength \<le> 0 \<or> srcLength \<le> 0 \<or> srcLength \<ge> UCS2_LEN_MAX wsize then ret (0, scheme)
      else bnd (with_new (replicate (nat srcLength * wsize) 0)
                  (Utf8ToUcs2 ic (srcLength * int wsize) src srcLength)) (\<lambda>(ucs2Length, ucs2Text).
        if ucs2Length < 0 then
          (let tempTextLen = min srcLength maxLength
           in seq (copy_prefix tempTextLen src) (ret (tempTextLen, DATA_CODING_8BIT)))
        else
          bnd (Ucs2ToAscii maxLength (take (nat ucs2Length) ucs2Text)) (\<lambda>(len, unknown).
            if unknown then
              (if ucs2Length \<le> 0 then ret (len, DATA_CODING_UCS2)
               else let tempTextLen = min ucs2Length maxLength
                    in seq (copy_prefix tempTextLen ucs2Text) (ret (tempTextLen, DATA_CODING_UCS2)))
            else ret (len, DATA_CODING_ASCII7BIT))))"

definition Gsm7bitToUtf8 ::
  "iconv \<Rightarrow> nat \<Rightarrow> int \<Rightarrow> bytes \<Rightarrow> int \<Rightarrow> MsgLangInfo \<Rightarrow> (bytes, int) op" where
  "Gsm7bitToUtf8 ic wsize maxLength src srcLength langInfo =
     (if srcLength \<le> 0 \<or> srcLength \<ge> UCS2_LEN_MAX wsize then ret 0
      else bnd (with_new (replicate (nat srcLength * wsize) 0)
                  (Gsm7bitToUcs2 (srcLength * int wsize) (take (nat srcLength) src) langInfo))
        (\<lambda>(ucs2Length, ucs2Text).
          if ucs2Length > maxLength \<and> ucs2Length > srcLength * int wsize then ret 0
          else Ucs2ToUtf8 ic maxLength ucs2Text ucs2Length))"

section \<open>The alphabets agree\<close>

text \<open>
  The septets of a character in an extension map. The character U+001B is the one the tables
  cannot carry: its septet is the escape itself.
\<close>

definition enc_char :: "(u16 \<times> u8) list \<Rightarrow> u16 \<Rightarrow> bytes option" where
  "enc_char extMap c =
     (case map_of gsm7bitDefMap c of
        Some s \<Rightarrow> Some [s]
      | None \<Rightarrow> map_option (\<lambda>s. [0x1B, s]) (map_of extMap c))"

fun enc_text :: "(u16 \<times> u8) list \<Rightarrow> u16 list \<Rightarrow> bytes option" where
  "enc_text extMap [] = Some []"
| "enc_text extMap (c # cs) =
     (case enc_char extMap c of
        None \<Rightarrow> None
      | Some w \<Rightarrow> map_option (\<lambda>ws. w @ ws) (enc_text extMap cs))"

fun ucs2_bytes :: "u16 list \<Rightarrow> bytes" where
  "ucs2_bytes [] = []"
| "ucs2_bytes (c # cs) = ucast (drop_bit 8 c) # ucast (c AND 0x00FF) # ucs2_bytes cs"

lemma length_ucs2_bytes [simp]: "length (ucs2_bytes cs) = 2 * length cs"
  by (induction cs) simp_all

lemma gsm7bitDefMap_table:
  assumes "map_of gsm7bitDefMap c = Some s"
  shows "table_at GSM7_BIT_TO_UC_S2 s = Some c" and "s < 0x80"
proof -
  from assms have "(c, s) \<in> set (zip GSM7_BIT_TO_UC_S2 (map word_of_nat [0..<128]))"
    by (auto simp: gsm7bitDefMap_def dest: map_of_SomeD)
  moreover have len: "length GSM7_BIT_TO_UC_S2 = 128" by (simp add: GSM7_BIT_TO_UC_S2_def)
  ultimately obtain i where i: "i < 128" "c = GSM7_BIT_TO_UC_S2 ! i" "s = word_of_nat i"
    by (auto simp: set_zip)
  then have "unat s = i" by (simp add: unat_of_nat)
  with i len show "table_at GSM7_BIT_TO_UC_S2 s = Some c" "s < 0x80"
    by (simp_all add: table_at_def word_less_nat_alt)
qed

text \<open>
  The contract between an encoder's extension map and the table the decoder uses for the same
  language: every character of the repertoire \<open>rep\<close> decodes to itself, behind an escape and
  without a locking shift.
\<close>

locale septet_alphabet =
  fixes extMap :: "(u16 \<times> u8) list" and langInfo :: MsgLangInfo and rep :: "u16 \<Rightarrow> bool"
  assumes ext_table: "rep c \<Longrightarrow> map_of extMap c = Some s \<Longrightarrow> EscapeToUcs2 s langInfo = Some c"
    and ext_septet: "map_of extMap c = Some s \<Longrightarrow> s < 0x80"
    and no_locking: "\<not> bLockingShift langInfo"
    and no_escape: "\<not> rep 0x1B"
begin

lemma gsm7_char_enc:
  assumes "rep c" "enc_char extMap c = Some w"
  shows "gsm7_char (w @ rest) langInfo st = Some (length w - 1, c, ucast (drop_bit 8 c), ucast (c AND 0x00FF))"
    and "w \<noteq> []" and "hd w < 0x80"
proof -
  have esc: "table_at GSM7_BIT_TO_UC_S2 0x1B = Some 0x1B"
    by (simp add: table_at_def GSM7_BIT_TO_UC_S2_def)
  have "gsm7_char (w @ rest) langInfo st = Some (length w - 1, c, ucast (drop_bit 8 c), ucast (c AND 0x00FF))
      \<and> w \<noteq> [] \<and> hd w < 0x80"
  proof (cases "map_of gsm7bitDefMap c")
    case None
    then obtain s where "w = [0x1B, s]" "map_of extMap c = Some s"
      using assms(2) by (auto simp: enc_char_def)
    with assms(1) no_locking esc ext_table [of c s] show ?thesis
      by (simp add: gsm7_char_def Let_def EscapeGsm7bitToUcs2_def escape_to_ucs2_def)
  next
    case (Some s)
    moreover have "c \<noteq> 0x1B" using no_escape assms(1) by auto
    ultimately show ?thesis
      using assms(2) no_locking gsm7bitDefMap_table [OF Some]
      by (auto simp: enc_char_def gsm7_char_def Let_def EscapeGsm7bitToUcs2_def escape_to_ucs2_def)
  qed
  then show "gsm7_char (w @ rest) langInfo st = Some (length w - 1, c, ucast (drop_bit 8 c), ucast (c AND 0x00FF))"
    and "w \<noteq> []" and "hd w < 0x80" by simp_all
qed

lemma decode_text:
  assumes "\<forall>c \<in> set cs. rep c" "enc_text extMap cs = Some ws" "2 * int (length cs) < m"
    and "2 * length cs < length post"
  shows "gsm7_to_ucs2_loop langInfo m ws st (length pre) (pre @ post) =
    Ok (int (length pre + 2 * length cs)) (pre @ ucs2_bytes cs @ 0 # drop (2 * length cs + 1) post)"
  using assms
proof (induction cs arbitrary: ws m st pre post)
  case Nil
  then obtain x post' where "post = x # post'" by (cases post) auto
  with Nil show ?case by (subst gsm7_to_ucs2_loop.simps) (simp add: op_simps put_at_def list_update_append)
next
  case (Cons c cs)
  then obtain w ws' where w: "enc_char extMap c = Some w" "enc_text extMap cs = Some ws'" "ws = w @ ws'"
    by (auto split: option.splits)
  from Cons.prems(4) obtain x y post' where post: "post = x # y # post'"
    by (cases post; cases "tl post") auto
  let ?u = "ucast (drop_bit 8 c) :: u8" and ?l = "ucast (c AND 0x00FF) :: u8"
  have IH: "gsm7_to_ucs2_loop langInfo (m - 2) ws' (c, ?u, ?l) (length (pre @ [?u, ?l])) ((pre @ [?u, ?l]) @ post') =
      Ok (int (length (pre @ [?u, ?l]) + 2 * length cs))
        ((pre @ [?u, ?l]) @ ucs2_bytes cs @ 0 # drop (2 * length cs + 1) post')"
    using Cons.prems w post by (intro Cons.IH) auto
  have c: "rep c" using Cons.prems by simp
  note step = gsm7_char_enc [OF c w(1)]
  have hd: "\<not> 0x80 \<le> hd (w @ ws')" using step(2,3) by (cases w) auto
  have d: "drop (length w - 1 + 1) (w @ ws') = ws'" using step(2) by (cases w) auto
  show ?case
    using Cons.prems(3) step(2) hd d IH post unfolding w(3)
    by (subst gsm7_to_ucs2_loop.simps)
      (simp add: step(1) op_simps put_at_def list_update_append del: drop_append)
qed

end

lemma ext_mapI:
  assumes "\<forall>(c, s) \<in> set m. P c s" and "map_of m c = Some s"
  shows "P c s"
  using assms by (auto dest: map_of_SomeD)

definition lang_info :: "SmsCodingNationalType \<Rightarrow> MsgLangInfo" where
  "lang_info t = \<lparr>bSingleShift = t \<noteq> SMS_CODING_NATIONAL_TYPE_DEFAULT, bLockingShift = False,
     singleLang = lang_id t, lockingLang = 0\<rparr>"

text \<open>The characters that do not come back: \<open>not_invertible t\<close>.\<close>

definition not_invertible :: "SmsCodingNationalType \<Rightarrow> u16 set" where
  "not_invertible t = insert 0x1B (case t of
     SMS_CODING_NATIONAL_TYPE_TURKISH \<Rightarrow> {0x01E6, 0x01E7}
   | SMS_CODING_NATIONAL_TYPE_PORTUGUESE \<Rightarrow> {0x00C3}
   | _ \<Rightarrow> {})"

lemmas escape_defs =
  EscapeToUcs2_def lang_info_def lang_id_def GetTurkishSingleToUcs2_def GetSpanishSingleToUcs2_def
  GetPortuSingleToUcs2_def GetGsm7BitExtToUcs2_def table_at_def not_invertible_def

lemma default_ext:
  "\<forall>(c, s) \<in> set gsm7bitExtMap. s < 0x80 \<and> EscapeToUcs2 s (lang_info SMS_CODING_NATIONAL_TYPE_DEFAULT) = Some c"
  by (simp add: gsm7bitExtMap_def gsm7BitExtToUcs2_def escape_defs)

lemma spanish_ext:
  "\<forall>(c, s) \<in> set spanishMap. s < 0x80 \<and> EscapeToUcs2 s (lang_info SMS_CODING_NATIONAL_TYPE_SPANISH) = Some c"
  by (simp add: spanishMap_def spanishSingleToUcs2_def escape_defs)

lemma turkish_ext:
  "\<forall>(c, s) \<in> set turkishMap. s < 0x80 \<and> (c \<in> {0x01E6, 0x01E7} \<or>
     EscapeToUcs2 s (lang_info SMS_CODING_NATIONAL_TYPE_TURKISH) = Some c)"
  by (simp add: turkishMap_def turkishSingleToUcs2_def escape_defs)

lemma portu_ext:
  "\<forall>(c, s) \<in> set portuMap. s < 0x80 \<and> (c = 0x00C3 \<or>
     EscapeToUcs2 s (lang_info SMS_CODING_NATIONAL_TYPE_PORTUGUESE) = Some c)"
  by (simp add: portuMap_def portuSingleToUcs2_def escape_defs)

interpretation gsm7: septet_alphabet gsm7bitExtMap "lang_info SMS_CODING_NATIONAL_TYPE_DEFAULT"
  "\<lambda>c. c \<notin> not_invertible SMS_CODING_NATIONAL_TYPE_DEFAULT"
  by unfold_locales (auto dest: ext_mapI [OF default_ext] simp: lang_info_def not_invertible_def)

interpretation turkish: septet_alphabet turkishMap "lang_info SMS_CODING_NATIONAL_TYPE_TURKISH"
  "\<lambda>c. c \<notin> not_invertible SMS_CODING_NATIONAL_TYPE_TURKISH"
  by unfold_locales (auto dest: ext_mapI [OF turkish_ext] simp: lang_info_def not_invertible_def)

interpretation spanish: septet_alphabet spanishMap "lang_info SMS_CODING_NATIONAL_TYPE_SPANISH"
  "\<lambda>c. c \<notin> not_invertible SMS_CODING_NATIONAL_TYPE_SPANISH"
  by unfold_locales (auto dest: ext_mapI [OF spanish_ext] simp: lang_info_def not_invertible_def)

interpretation portu: septet_alphabet portuMap "lang_info SMS_CODING_NATIONAL_TYPE_PORTUGUESE"
  "\<lambda>c. c \<notin> not_invertible SMS_CODING_NATIONAL_TYPE_PORTUGUESE"
  by unfold_locales (auto dest: ext_mapI [OF portu_ext] simp: lang_info_def not_invertible_def)

lemma decode_national:
  assumes "\<forall>c \<in> set cs. c \<notin> not_invertible t" "enc_text (Get7BitCodingExtMap t) cs = Some ws"
    and "2 * int (length cs) < m" "2 * length cs < length dest"
  shows "gsm7_to_ucs2_loop (lang_info t) m ws st 0 dest =
    Ok (int (2 * length cs)) (ucs2_bytes cs @ 0 # drop (2 * length cs + 1) dest)"
  using assms gsm7.decode_text [of cs ws m dest st "[]"] turkish.decode_text [of cs ws m dest st "[]"]
    spanish.decode_text [of cs ws m dest st "[]"] portu.decode_text [of cs ws m dest st "[]"]
  by (cases t) (simp_all add: Get7BitCodingExtMap_def)

lemma encode_text:
  assumes "enc_text extMap cs = Some ws" "int (length pre + length ws) \<le> m" "length ws \<le> length post"
  shows "ucs2_auto_loop extMap m cs (length pre) (pre @ post) =
    Ok (int (length pre + length ws), False) (pre @ ws @ drop (length ws) post)"
  using assms
proof (induction cs arbitrary: ws pre post)
  case Nil
  then show ?case by (simp add: ret_def)
next
  case (Cons c cs)
  then obtain w ws' where w: "enc_char extMap c = Some w" "enc_text extMap cs = Some ws'" "ws = w @ ws'"
    by (auto split: option.splits)
  have IH: "ucs2_auto_loop extMap m cs (length (pre @ w)) ((pre @ w) @ drop (length w) post) =
      Ok (int (length (pre @ w) + length ws'), False) ((pre @ w) @ ws' @ drop (length ws') (drop (length w) post))"
    using Cons.prems w by (intro Cons.IH) simp_all
  have full: "ws' = [] \<and> cs = []" if "m \<le> int (length (pre @ w))"
    using that Cons.prems w by (cases cs) (auto simp: enc_char_def split: option.splits)
  show ?case
  proof (cases "map_of gsm7bitDefMap c")
    case None
    then obtain s where s: "w = [0x1B, s]" "map_of extMap c = Some s"
      using w(1) by (auto simp: enc_char_def)
    obtain x y post' where "post = x # y # post'"
      using Cons.prems(3) w s by (cases post; cases "tl post") auto
    with IH full None s w Cons.prems(2) show ?thesis
      by (auto simp: op_simps put_at_def list_update_append)
  next
    case (Some s)
    then have s: "w = [s]" using w(1) by (auto simp: enc_char_def)
    obtain x post' where "post = x # post'" using Cons.prems(3) w s by (cases post) auto
    with IH full Some s w Cons.prems(2) show ?thesis
      by (auto simp: op_simps put_at_def list_update_append)
  qed
qed

lemma ucs2_join: "ucs2 (ucast (drop_bit 8 c)) (ucast (c AND 0x00FF)) = c"
proof (rule bit_word_eqI)
  fix n
  assume "n < LENGTH(16)"
  have m: "(0xFF00 :: u16) = push_bit 8 (mask 8)" "(0x00FF :: u16) = mask 8"
    by (simp_all add: mask_eq_exp_minus_1)
  show "bit (ucs2 (ucast (drop_bit 8 c)) (ucast (c AND 0x00FF))) n = bit c n"
    using \<open>n < LENGTH(16)\<close> unfolding ucs2_def m by (auto simp: bit_simps)
qed

lemma ucs2_chars_bytes [simp]: "ucs2_chars (ucs2_bytes cs) = cs"
  by (induction cs) (simp_all add: ucs2_join)

text \<open>
  C28. Round trip of the national 7-bit alphabets: text of characters of a language's repertoire
  (the GSM default table and the language's extension map, without the listed characters that share
  a septet with another one) is encoded by \<^verbatim>\<open>Ucs2ToGsm7bitAuto\<close> as known, and \<^verbatim>\<open>Gsm7bitToUcs2\<close> with
  that language's single shift gives back the same UCS-2 bytes, terminated, for any arrays that
  are long enough.
\<close>

theorem Ucs2ToGsm7bitAuto_Gsm7bitToUcs2:
  assumes "cs \<noteq> []" "\<forall>c \<in> set cs. c \<notin> not_invertible t"
    and ws: "enc_text (Get7BitCodingExtMap t) cs = Some ws"
    and "length ws \<le> length dest" "2 * length cs < length ucs"
  shows "\<exists>d. Ucs2ToGsm7bitAuto (int (length dest)) (ucs2_bytes cs) t dest = Ok (int (length ws), False) d \<and>
    Gsm7bitToUcs2 (int (length ucs)) (take (length ws) d) (lang_info t) ucs =
      Ok (int (2 * length cs)) (ucs2_bytes cs @ 0 # drop (2 * length cs + 1) ucs)"
proof -
  have "ws \<noteq> []" using assms(1) ws
    by (cases cs) (auto simp: enc_char_def split: option.splits)
  moreover have "ucs2_bytes cs \<noteq> []" using assms(1) by (cases cs) simp_all
  ultimately show ?thesis
    using assms encode_text [OF ws, of "[]" "int (length dest)" dest] decode_national [OF assms(2) ws, of "int (length ucs)" ucs]
    by (auto simp: Ucs2ToGsm7bitAuto_def Gsm7bitToUcs2_def)
qed

theorem Ucs2ToGsm7bitAuto_Gsm7bitToUcs2_witness:
  "\<exists>d. Ucs2ToGsm7bitAuto (int (length (replicate 8 0 :: bytes))) (ucs2_bytes [0xC1, 0x61, 0x20AC])
      SMS_CODING_NATIONAL_TYPE_SPANISH (replicate 8 0) = Ok (int (length [0x1B, 0x41, 0x61, 0x1B, 0x65 :: u8]), False) d \<and>
    Gsm7bitToUcs2 (int (length (replicate 9 0 :: bytes))) (take (length [0x1B, 0x41, 0x61, 0x1B, 0x65 :: u8]) d)
      (lang_info SMS_CODING_NATIONAL_TYPE_SPANISH) (replicate 9 0) =
      Ok (int (2 * length [0xC1, 0x61, 0x20AC :: u16]))
        (ucs2_bytes [0xC1, 0x61, 0x20AC] @ 0 # drop (2 * length [0xC1, 0x61, 0x20AC :: u16] + 1) (replicate 9 0))"
  by (rule Ucs2ToGsm7bitAuto_Gsm7bitToUcs2)
    (simp_all add: not_invertible_def Get7BitCodingExtMap_def enc_char_def gsm7bitDefMap_def
      GSM7_BIT_TO_UC_S2_def spanishMap_def upt_rec)

section \<open>Memory safety\<close>

abbreviation len_is :: "nat \<Rightarrow> bytes \<Rightarrow> bool" where
  "len_is n \<equiv> \<lambda>d. length d = n"

lemma keeps_put_at: "i < n \<Longrightarrow> keeps (len_is n) (put_at i v)"
  by (rule keepsI) (simp add: put_at_def)

lemma keeps_put_all: "length xs \<le> n \<Longrightarrow> keeps (len_is n) (put_all xs)"
  by (rule keepsI) (simp add: put_all_def write_at_def)

lemma keeps_ucs2_auto_loop:
  "int out < m \<Longrightarrow> m \<le> int n \<Longrightarrow> keeps (len_is n) (ucs2_auto_loop extMap m cs out)"
  by (induction extMap m cs out rule: ucs2_auto_loop.induct)
    (auto intro!: keeps_ret keeps_seq keeps_put_at split: option.splits)

lemma keeps_Ucs2ToGsm7bitAuto: "m \<le> int n \<Longrightarrow> keeps (len_is n) (Ucs2ToGsm7bitAuto m src t)"
  by (auto simp: Ucs2ToGsm7bitAuto_def intro!: keeps_ret keeps_ucs2_auto_loop)

lemma keeps_ucs2_ascii_loop:
  "int out < m \<Longrightarrow> m \<le> int n \<Longrightarrow> keeps (len_is n) (ucs2_ascii_loop m cs out)"
  by (induction m cs out rule: ucs2_ascii_loop.induct)
    (auto intro!: keeps_ret keeps_seq keeps_put_at)

lemma keeps_Ucs2ToAscii: "m \<le> int n \<Longrightarrow> keeps (len_is n) (Ucs2ToAscii m src)"
  by (auto simp: Ucs2ToAscii_def intro!: keeps_ret keeps_ucs2_ascii_loop)

lemma table_lengths [simp]:
  "length GSM7_BIT_TO_UC_S2 = 128" "length turkishLockingToUcs2 = 128" "length portuLockingToUcs2 = 128"
  "length turkishSingleToUcs2 = 128" "length spanishSingleToUcs2 = 128" "length portuSingleToUcs2 = 128"
  "length gsm7BitExtToUcs2 = 128"
  by (simp_all add: GSM7_BIT_TO_UC_S2_def turkishLockingToUcs2_def portuLockingToUcs2_def
      turkishSingleToUcs2_def spanishSingleToUcs2_def portuSingleToUcs2_def gsm7BitExtToUcs2_def)

lemma EscapeToUcs2_defined: "c < 0x80 \<Longrightarrow> EscapeToUcs2 c li \<noteq> None"
  by (simp add: EscapeToUcs2_def GetTurkishSingleToUcs2_def GetSpanishSingleToUcs2_def
      GetPortuSingleToUcs2_def GetGsm7BitExtToUcs2_def table_at_def word_less_nat_alt)

lemma escape_defined:
  assumes "\<forall>c \<in> set src. c < 0x80" "length t = 128"
  shows "escape_to_ucs2 t src li r \<noteq> None"
  using assms EscapeToUcs2_defined
  by (auto simp: escape_to_ucs2_def table_at_def word_less_nat_alt split: list.splits)

text \<open>
  Septets are below 0x80; octets that are not are refused unless they follow an escape. The address
  decoder passes octets that need not be septets but never an escape.
\<close>

definition no_stray_octet :: "MsgLangInfo \<Rightarrow> bytes \<Rightarrow> bool" where
  "no_stray_octet li src \<longleftrightarrow> (\<forall>c \<in> set src. c < 0x80) \<or> \<not> bLockingShift li \<and> 0x1B \<notin> set src"

lemma escape_unique:
  assumes "(c :: u8) < 0x80" "c \<noteq> 0x1B"
  shows "GSM7_BIT_TO_UC_S2 ! unat c \<noteq> 0x1B" and "ucast (GSM7_BIT_TO_UC_S2 ! unat c) \<noteq> (0x1B :: u8)"
proof -
  let ?t = "GSM7_BIT_TO_UC_S2" and ?i = "unat c"
  have "?i < 128" "?i \<noteq> 27" using assms by (simp_all add: word_less_nat_alt word_unat_eq_iff)
  then have "?t ! ?i \<in> set (take 27 ?t) \<union> set (drop 28 ?t)"
    using nth_mem [of ?i "take 27 ?t"] nth_mem [of "?i - 28" "drop 28 ?t"] by (cases "?i < 27") simp_all
  moreover have "\<forall>x \<in> set (take 27 ?t) \<union> set (drop 28 ?t). x \<noteq> 0x1B \<and> ucast x \<noteq> (0x1B :: u8)"
    by (simp add: GSM7_BIT_TO_UC_S2_def)
  ultimately show "?t ! ?i \<noteq> 0x1B" "ucast (?t ! ?i) \<noteq> (0x1B :: u8)" by blast+
qed

lemma gsm7_char_defined:
  assumes "no_stray_octet li src" "src \<noteq> []" "hd src < 0x80"
  shows "gsm7_char src li st \<noteq> None"
proof (cases "\<forall>c \<in> set src. c < 0x80")
  case True
  then show ?thesis
    by (simp add: gsm7_char_def Let_def EscapeTurkishLockingToUcs2_def EscapePortuLockingToUcs2_def
        EscapeGsm7bitToUcs2_def escape_defined del: not_None_eq)
next
  case False
  then obtain c rest where src: "src = c # rest" "c < 0x80" "c \<noteq> 0x1B" "\<not> bLockingShift li"
    using assms by (cases src) (auto simp: no_stray_octet_def)
  then show ?thesis using escape_unique(1) [of c]
    by (simp add: gsm7_char_def Let_def EscapeGsm7bitToUcs2_def escape_to_ucs2_def table_at_def word_less_nat_alt)
qed

lemma no_stray_drop: "no_stray_octet li src \<Longrightarrow> no_stray_octet li (drop n src)"
  using set_drop_subset [of n src] by (auto simp: no_stray_octet_def)

lemma no_stray_take: "no_stray_octet li src \<Longrightarrow> no_stray_octet li (take n src)"
  using set_take_subset [of n src] by (auto simp: no_stray_octet_def)

lemma keeps_gsm7_to_ucs2_loop:
  assumes "no_stray_octet li src" "0 < m" "int out + m \<le> int n"
  shows "keeps (len_is n) (gsm7_to_ucs2_loop li m src st out)"
  using assms
proof (induction li m src st out rule: gsm7_to_ucs2_loop.induct)
  case (1 li m src st out)
  consider "src = [] \<or> \<not> m > 2" | "src \<noteq> []" "m > 2" "hd src \<ge> 0x80" | "\<not> (src = [] \<or> \<not> m > 2)" "\<not> 0x80 \<le> hd src"
    by auto
  then show ?case
  proof cases
    case 1
    with "1.prems" show ?thesis
      by (subst gsm7_to_ucs2_loop.simps) (auto intro!: keeps_seq keeps_put_at keeps_ret)
  next
    case 2
    then show ?thesis by (subst gsm7_to_ucs2_loop.simps) (simp add: keeps_ret)
  next
    case 3
    then obtain k r u l where k: "gsm7_char src li st = Some (k, r, u, l)"
      using gsm7_char_defined [OF "1.prems"(1)] by (metis not_None_eq not_le prod_cases4)
    have "keeps (len_is n) (gsm7_to_ucs2_loop li (m - 2) (drop (k + 1) src) (r, u, l) (out + 2))"
      using "1.IH" [OF 3 k refl refl refl] no_stray_drop "1.prems" 3 by simp
    then show ?thesis using 3 k "1.prems"
      by (subst gsm7_to_ucs2_loop.simps) (auto intro!: keeps_seq keeps_put_at)
  qed
qed

lemma keeps_Gsm7bitToUcs2:
  "no_stray_octet li src \<Longrightarrow> m \<le> int n \<Longrightarrow> keeps (len_is n) (Gsm7bitToUcs2 m src li)"
  by (auto simp: Gsm7bitToUcs2_def intro!: keeps_ret keeps_gsm7_to_ucs2_loop)

lemma iconv_boundedD: "iconv_bounded ic \<Longrightarrow> ic to from = Some conv \<Longrightarrow> conv src n = (ok, out) \<Longrightarrow> length out \<le> n"
  unfolding iconv_bounded_def by (metis snd_conv)

lemma keeps_Utf8ToUcs2: "iconv_bounded ic \<Longrightarrow> m \<le> int n \<Longrightarrow> keeps (len_is n) (Utf8ToUcs2 ic m src k)"
  by (auto simp: Utf8ToUcs2_def nat_le_iff split: option.splits prod.splits dest!: iconv_boundedD
      intro!: keeps_ret keeps_seq keeps_put_all)

lemma keeps_Ucs2ToUtf8: "iconv_bounded ic \<Longrightarrow> m \<le> int n \<Longrightarrow> keeps (len_is n) (Ucs2ToUtf8 ic m src k)"
  by (auto simp: Ucs2ToUtf8_def to_utf8_def nat_le_iff split: option.splits prod.splits dest!: iconv_boundedD
      intro!: keeps_ret keeps_seq keeps_put_all)

lemma keeps_terminated_utf8: "iconv_bounded ic \<Longrightarrow> m \<le> int n \<Longrightarrow> keeps (len_is n) (terminated_utf8 ic from m src k)"
  by (auto simp: terminated_utf8_def nat_le_iff split: option.splits prod.splits dest!: iconv_boundedD
      intro!: keeps_ret keeps_seq keeps_put_all keeps_put_at)

lemma keeps_Gsm7bitToUtf8:
  assumes "iconv_bounded ic" "no_stray_octet li src" "m \<le> int n"
  shows "keeps (len_is n) (Gsm7bitToUtf8 ic wsize m src k li)"
proof -
  have "keeps (len_is (nat k * wsize)) (Gsm7bitToUcs2 (k * int wsize) (take (nat k) src) li)" if "0 < k"
    using assms(2) that by (intro keeps_Gsm7bitToUcs2) (auto intro: no_stray_take)
  then show ?thesis unfolding Gsm7bitToUtf8_def
    by (auto intro!: keeps_if keeps_ret keeps_bnd keeps_with_new keeps_Ucs2ToUtf8 assms split: prod.splits)
qed

lemma ucs2_auto_loop_returns:
  "int out < m \<Longrightarrow> m \<le> int k \<Longrightarrow> length d = k \<Longrightarrow>
   \<exists>n u d'. ucs2_auto_loop extMap m cs out d = Ok (n, u) d' \<and> length d' = k \<and> 0 \<le> n \<and> n \<le> m"
  by (induction extMap m cs out arbitrary: d rule: ucs2_auto_loop.induct)
    (auto simp: op_simps put_at_def split: option.splits)

lemma Utf8ToUcs2_returns:
  assumes "iconv_bounded ic" "m \<le> int (length d)"
  shows "\<exists>n d'. Utf8ToUcs2 ic m src k d = Ok n d' \<and> length d' = length d \<and> n \<le> int (length d)"
  using assms
  by (auto simp: Utf8ToUcs2_def nat_le_iff put_all_def write_at_def op_simps split: option.splits prod.splits
      dest!: iconv_boundedD)

lemma GsmUtf8ToAuto_returns:
  assumes ic: "iconv_bounded ic" and "srcLength \<le> int (length src)" "maxLength \<le> int (length dest)" "0 \<le> maxLength"
  shows "\<exists>n sch l d. GsmUtf8ToAuto ic wsize maxLength src srcLength scheme t langId dest = Ok (n, sch, l) d \<and>
    length d = length dest \<and> n \<le> maxLength \<and>
    sch \<in> {DATA_CODING_7BIT, DATA_CODING_8BIT, DATA_CODING_UCS2, scheme}"
proof (cases "maxLength \<le> 0 \<or> srcLength \<le> 0 \<or> srcLength \<ge> UCS2_LEN_MAX wsize")
  case True
  with assms(4) show ?thesis by (simp add: GsmUtf8ToAuto_def ret_def)
next
  case False
  obtain k u where u: "Utf8ToUcs2 ic (srcLength * int wsize) src srcLength (replicate (nat srcLength * wsize) 0) = Ok k u"
    "length u = nat srcLength * wsize" "k \<le> int (length u)"
  proof -
    have "srcLength * int wsize \<le> int (length (replicate (nat srcLength * wsize) (0 :: u8)))" using False by simp
    from Utf8ToUcs2_returns [OF ic this] that show thesis by fastforce
  qed
  have "\<exists>n un d. Ucs2ToGsm7bitAuto maxLength (take (nat k) u) t dest = Ok (n, un) d \<and>
      length d = length dest \<and> n \<le> maxLength"
    using False assms(3) ucs2_auto_loop_returns [of 0 maxLength "length dest" dest]
    by (auto simp: Ucs2ToGsm7bitAuto_def ret_def) metis
  then obtain n un d where a: "Ucs2ToGsm7bitAuto maxLength (take (nat k) u) t dest = Ok (n, un) d"
    "length d = length dest" "n \<le> maxLength" by blast
  show ?thesis using False assms u a
    by (auto simp: GsmUtf8ToAuto_def Let_def op_simps copy_prefix_def put_all_def write_at_def nat_le_iff min_def)
qed

text \<open>
  \<^verbatim>\<open>GsmUtf8ToAuto\<close>, for any text and any \<^verbatim>\<open>iconv\<close> that respects the size it is given: the call
  returns, writes only inside \<^verbatim>\<open>dest\<close>, returns at most \<^verbatim>\<open>maxLength\<close>, and the scheme it chose is 7-bit,
  8-bit or UCS-2 (or the caller's, when it refused the lengths).
\<close>

theorem GsmUtf8ToAuto_safe:
  assumes ic: "iconv_bounded ic" and "srcLength \<le> int (length src)" "maxLength \<le> int (length dest)" "0 \<le> maxLength"
  shows "\<exists>n sch l d. GsmUtf8ToAuto ic wsize maxLength src srcLength scheme t langId dest = Ok (n, sch, l) d \<and>
    length d = length dest \<and> n \<le> maxLength \<and>
    sch \<in> {DATA_CODING_7BIT, DATA_CODING_8BIT, DATA_CODING_UCS2, scheme}"
  using assms by (rule GsmUtf8ToAuto_returns)

theorem GsmUtf8ToAuto_safe_witness:
  "\<exists>n sch l d. GsmUtf8ToAuto (\<lambda>_ _. None) 8 4 [0x61] 1 DATA_CODING_AUTO SMS_CODING_NATIONAL_TYPE_DEFAULT 0 [0, 0, 0, 0]
      = Ok (n, sch, l) d \<and> length d = length [0, 0, 0, 0 :: u8] \<and> n \<le> 4 \<and>
    sch \<in> {DATA_CODING_7BIT, DATA_CODING_8BIT, DATA_CODING_UCS2, DATA_CODING_AUTO}"
  by (rule GsmUtf8ToAuto_safe) (simp_all add: iconv_bounded_def)

text \<open>
  A character outside the repertoire of the language makes \<^verbatim>\<open>Ucs2ToGsm7bitAuto\<close> report the text
  as unknown, with length 0, whatever stands around it, when the array could hold the text.
\<close>

theorem Ucs2ToGsm7bitAuto_unknown:
  assumes "enc_text (Get7BitCodingExtMap t) cs = None" "2 * length cs \<le> length dest"
  shows "\<exists>d. Ucs2ToGsm7bitAuto (int (length dest)) (ucs2_bytes cs) t dest = Ok (0, True) d"
proof -
  have loop: "enc_text m cs = None \<Longrightarrow> out + 2 * length cs \<le> k \<Longrightarrow> length d = k \<Longrightarrow>
      \<exists>d'. ucs2_auto_loop m (int k) cs out d = Ok (0, True) d'" for m out d k
  proof (induction cs arbitrary: out d)
    case (Cons c cs)
    then have "cs \<noteq> [] \<or> enc_char m c = None" by (auto split: option.splits)
    then show ?case
      using Cons.prems Cons.IH
      by (auto simp: enc_char_def op_simps put_at_def neq_Nil_conv split: option.splits)
  qed simp
  have "cs \<noteq> []" using assms by auto
  then have "ucs2_bytes cs \<noteq> []" by (cases cs) simp_all
  with loop [OF assms(1), of 0 "length dest" dest] assms \<open>cs \<noteq> []\<close> show ?thesis
    by (auto simp: Ucs2ToGsm7bitAuto_def)
qed

theorem Ucs2ToGsm7bitAuto_unknown_witness:
  "\<exists>d. Ucs2ToGsm7bitAuto (int (length (replicate 8 0 :: bytes))) (ucs2_bytes [0x61, 0x4E2D]) SMS_CODING_NATIONAL_TYPE_DEFAULT
     (replicate 8 0) = Ok (0, True) d"
  by (rule Ucs2ToGsm7bitAuto_unknown)
    (simp_all add: Get7BitCodingExtMap_def enc_char_def gsm7bitDefMap_def GSM7_BIT_TO_UC_S2_def gsm7bitExtMap_def upt_rec)

lemma gsm7bitExtMap_facts:
  "\<forall>(c, s) \<in> set gsm7bitExtMap. map_of gsm7bitDefMap c = None \<and> map_of gsm7bitExtMap c = Some s \<and>
     map_of extCharMap c = Some 1 \<and> c \<noteq> 0xE7"
  by (simp add: gsm7bitExtMap_def gsm7bitDefMap_def GSM7_BIT_TO_UC_S2_def extCharMap_def upt_rec)

text \<open>
  In \<^verbatim>\<open>Ucs2ToGsm7bit\<close> the \<^verbatim>\<open>outTextLen++\<close> after the \<^verbatim>\<open>switch\<close> also runs after \<^verbatim>\<open>FindGsm7bitExt\<close>: every
  character of the extension table counts three septets instead of two, the third being whatever the
  array held, and in an array of two octets the returned length exceeds the array.
\<close>

theorem Ucs2ToGsm7bit_extension_gap:
  assumes "(c, s) \<in> set gsm7bitExtMap" "2 \<le> length dest"
  shows "Ucs2ToGsm7bit (int (length dest)) (ucs2_bytes [c]) l dest = Ok (3, l) (0x1B # s # drop 2 dest)"
proof -
  from assms(2) obtain x y d where d: "dest = x # y # d" by (cases dest; cases "tl dest") auto
  have "map_of gsm7bitDefMap c = None" "map_of gsm7bitExtMap c = Some s" "map_of extCharMap c = Some 1" "c \<noteq> 0xE7"
    using gsm7bitExtMap_facts assms(1) by auto
  then show ?thesis using d
    by (simp add: Ucs2ToGsm7bit_def GetLangType_def ucs2_join ucs2_ext_char_def FindGsm7bitExt_def find_ext_def
        op_simps put_at_def)
qed

theorem Ucs2ToGsm7bit_extension_gap_witness:
  "Ucs2ToGsm7bit (int (length [0, 0 :: u8])) (ucs2_bytes [0x5B]) 0 [0, 0] = Ok (3, 0) (0x1B # 0x3C # drop 2 [0, 0])"
  by (rule Ucs2ToGsm7bit_extension_gap) (simp_all add: gsm7bitExtMap_def)

text \<open>
  The Portuguese map sends U+00C3 and U+00C2 to the same septet 0x61 (the table has U+00C3 at
  0x5B): the capital A with tilde decodes as the capital A with circumflex.
\<close>

theorem portu_tilde_lost:
  "enc_char (Get7BitCodingExtMap SMS_CODING_NATIONAL_TYPE_PORTUGUESE) 0xC3 = Some [0x1B, 0x61] \<and>
   gsm7_char [0x1B, 0x61] (lang_info SMS_CODING_NATIONAL_TYPE_PORTUGUESE) (0, 0, 0) = Some (1, 0xC2, 0, 0xC2) \<and>
   EscapeToUcs2 0x5B (lang_info SMS_CODING_NATIONAL_TYPE_PORTUGUESE) = Some 0xC3"
  by (simp add: enc_char_def gsm7bitDefMap_def GSM7_BIT_TO_UC_S2_def upt_rec Get7BitCodingExtMap_def portuMap_def
      gsm7_char_def EscapeGsm7bitToUcs2_def escape_to_ucs2_def portuSingleToUcs2_def escape_defs)

end
