(* ===== verification/Gsm_Pdu_Types.thy ===== *)
theory Gsm_Pdu_Types
  imports Sms_Pdu_Buffer Text_Coder
begin

text \<open>
  The structs and enums of \<^verbatim>\<open>services/sms/include/sms_pdu_code_type.h\<close> and
  \<^verbatim>\<open>services/sms/include/gsm/gsm_pdu_code_type.h\<close>. Where two structs have a field of the same name,
  the fields carry a prefix. Fields that the decoders fill by a cast of a whole octet
  (\<^verbatim>\<open>ton\<close>, \<^verbatim>\<open>npi\<close>, \<^verbatim>\<open>pid\<close>, \<^verbatim>\<open>vpf\<close>) stay octets.
\<close>

section \<open>Addresses, times and the data coding scheme\<close>

abbreviation (input) "TYPE_UNKNOWN \<equiv> 0 :: u8"
abbreviation (input) "TYPE_INTERNATIONAL \<equiv> 1 :: u8"
abbreviation (input) "TYPE_ALPHA_NUMERIC \<equiv> 5 :: u8"

definition MAX_ADDRESS_LEN :: nat where
  "MAX_ADDRESS_LEN = 21"

definition SMS_MAX_ADDRESS_LEN :: nat where
  "SMS_MAX_ADDRESS_LEN = 21"

definition MAX_USER_DATA_LEN :: nat where
  "MAX_USER_DATA_LEN = 160"

definition MAX_UD_HEADER_NUM :: nat where
  "MAX_UD_HEADER_NUM = 7"

text \<open>\<^verbatim>\<open>address\<close> is an array of \<^verbatim>\<open>SMS_MAX_ADDRESS_LEN + 1\<close> characters holding a C string.\<close>

record AddressNumber =
  ton :: u8
  npi :: u8
  address :: bytes

datatype SmsTimeFormat = SMS_TIME_EMPTY | SMS_TIME_RELATIVE | SMS_TIME_ABSOLUTE

record SmsTimeAbs =
  ta_year :: u8
  ta_month :: u8
  ta_day :: u8
  ta_hour :: u8
  ta_minute :: u8
  ta_second :: u8
  ta_timeZone :: int

text \<open>The union \<^verbatim>\<open>time\<close> is read and written through the member that \<^verbatim>\<open>format\<close> names.\<close>

record SmsTimeStamp =
  ts_format :: SmsTimeFormat
  ts_relative :: u8
  ts_absolute :: SmsTimeAbs

datatype SmsMessageClass =
  SMS_INSTANT_MESSAGE | SMS_OPTIONAL_MESSAGE | SMS_SIM_MESSAGE | SMS_FORWARD_MESSAGE | SMS_CLASS_UNKNOWN

datatype PduSchemeGroup =
  CODING_GENERAL_GROUP | SMS_CLASS_GROUP | CODING_DELETION_GROUP | CODING_DISCARD_GROUP
| CODING_STORE_GROUP | CODING_UNKNOWN_GROUP

datatype SmsIndicatorType =
  SMS_VOICE_INDICATOR | SMS_VOICE2_INDICATOR | SMS_FAX_INDICATOR | SMS_EMAIL_INDICATOR | SMS_OTHER_INDICATOR

record SmsDcs =
  bCompressed :: bool
  bMWI :: bool
  bIndActive :: bool
  msgClass :: SmsMessageClass
  codingScheme :: DataCodingScheme
  codingGroup :: PduSchemeGroup
  indType :: SmsIndicatorType

text \<open>The value of the enumerator, where the code adds it to an octet.\<close>

definition class_value :: "SmsMessageClass \<Rightarrow> u8" where
  "class_value c = (case c of
     SMS_INSTANT_MESSAGE \<Rightarrow> 0 | SMS_OPTIONAL_MESSAGE \<Rightarrow> 1 | SMS_SIM_MESSAGE \<Rightarrow> 2
   | SMS_FORWARD_MESSAGE \<Rightarrow> 3 | SMS_CLASS_UNKNOWN \<Rightarrow> 4)"

end
