(* ===== verification/Gsm_Common_Utils.thy ===== *)
theory Gsm_Common_Utils
  imports Sms_Pdu_Buffer
begin

text \<open>
  \<^verbatim>\<open>services/sms/gsm/gsm_sms_common_utils.cpp\<close>: packing of GSM 7-bit characters into octets and
  back, and the BCD form of digits in addresses. (\<open>Unpack7bitCharForMiddlePart\<close>, which also
  consults the text coder's table, is in the theory of the parameter codec.)
\<close>

section \<open>GSM 7-bit characters in octets\<close>

definition SMS_ENCODE_GSM_BIT :: nat where
  "SMS_ENCODE_GSM_BIT = 7"

definition MAX_GSM_7BIT_DATA_LEN :: nat where
  "MAX_GSM_7BIT_DATA_LEN = 160"

definition SMS_BYTE_BIT :: nat where
  "SMS_BYTE_BIT = 8"

definition Pack7bitCharPartData :: "bytes \<Rightarrow> nat \<Rightarrow> nat \<Rightarrow> (SmsWriteBuffer, unit) op" where
  "Pack7bitCharPartData userData srcIdx shift =
     bnd (gets GetIndex) (\<lambda>index.
     bnd (GetValueFromIndex (u16_pred index)) (\<lambda>oneByte.
     bnd (rd_at userData srcIdx) (\<lambda>c.
     seq (InsertByte (oneByte OR push_bit shift c) (u16_pred index)) (
     bnd GetTopValue (\<lambda>oneByte.
     WriteByte (oneByte OR drop_bit (SMS_BYTE_BIT - shift) c))))))"

text \<open>The branch \<^verbatim>\<open>shift == 1\<close>: the character fits into the current octet.\<close>

definition Pack7bitCharLast :: "bytes \<Rightarrow> nat \<Rightarrow> nat \<Rightarrow> (SmsWriteBuffer, unit) op" where
  "Pack7bitCharLast userData srcIdx shift =
     bnd (gets GetIndex) (\<lambda>index.
     bnd (GetValueFromIndex (u16_pred index)) (\<lambda>oneByte.
     bnd (rd_at userData srcIdx) (\<lambda>c.
     InsertByte (oneByte OR push_bit shift c) (u16_pred index))))"

text \<open>
  The \<^verbatim>\<open>while\<close> loop of \<^verbatim>\<open>Pack7bitChar\<close>. With \<^verbatim>\<open>shift == 0\<close> the iteration writes a whole octet and
  goes on, with \<^verbatim>\<open>shift = 7\<close>, into the branch \<^verbatim>\<open>shift > 1\<close> for the next character.
\<close>

function pack7_loop :: "bytes \<Rightarrow> nat \<Rightarrow> nat \<Rightarrow> nat \<Rightarrow> (SmsWriteBuffer, unit) op" where
  "pack7_loop userData dataLen srcIdx shift =
     (if \<not> srcIdx < dataLen then ret ()
      else if shift = 0 then
        bnd (rd_at userData srcIdx) (\<lambda>c.
        seq (WriteByte c)
          (if Suc srcIdx \<ge> dataLen then ret ()
           else seq (Pack7bitCharPartData userData (Suc srcIdx) SMS_ENCODE_GSM_BIT)
                  (pack7_loop userData dataLen (Suc (Suc srcIdx)) (SMS_ENCODE_GSM_BIT - 1))))
      else if shift > 1 then
        seq (Pack7bitCharPartData userData srcIdx shift)
          (pack7_loop userData dataLen (Suc srcIdx) (shift - 1))
      else
        seq (Pack7bitCharLast userData srcIdx shift)
          (pack7_loop userData dataLen (Suc srcIdx) (shift - 1)))"
  by pat_completeness auto
termination
  by (relation "measure (\<lambda>(userData, dataLen, srcIdx, shift). dataLen - srcIdx)") auto

declare pack7_loop.simps [simp del]

definition Pack7bitChar :: "bytes \<Rightarrow> nat \<Rightarrow> nat \<Rightarrow> (SmsWriteBuffer, unit) op" where
  "Pack7bitChar userData dataLen fillBits =
     seq (ensure (\<not> dataLen > MAX_GSM_7BIT_DATA_LEN)) (
     seq (if fillBits > 0 then MoveForward 1 else ret 0)
       (pack7_loop userData dataLen 0 fillBits))"

text \<open>
  Unpacking fills the array \<^verbatim>\<open>unpackData\<close>, the second component of the state. Each step reports
  whether a character was stored; when the input ends early the function returns \<^verbatim>\<open>true\<close> with
  the number of characters so far.
\<close>

definition store_at :: "nat \<Rightarrow> 'a \<Rightarrow> ('b \<times> 'a list, unit) op" where
  "store_at i v s = (if i < length (snd s) then Ok () (fst s, (snd s)[i := v]) else Fault)"

definition unpack7_first :: "nat \<Rightarrow> (SmsReadBuffer \<times> bytes, bool) op" where
  "unpack7_first dstIdx =
     bnd (attempt (on_buf ReadByte)) (\<lambda>r.
       case r of
         None \<Rightarrow> ret False
       | Some oneByte \<Rightarrow> seq (store_at dstIdx (oneByte AND 0x7F)) (ret True))"

definition unpack7_char :: "nat \<Rightarrow> nat \<Rightarrow> (SmsReadBuffer \<times> bytes, bool) op" where
  "unpack7_char dstIdx shift =
     bnd (on_buf (gets GetIndex)) (\<lambda>index.
     bnd (attempt (on_buf (PickOneByteFromIndex (u16_pred index)))) (\<lambda>r.
       case r of
         None \<Rightarrow> ret False
       | Some oneByte \<Rightarrow>
           if shift = 1 then
             seq (store_at dstIdx (drop_bit shift oneByte AND 0x7F)) (ret True)
           else
             bnd (attempt (on_buf PickOneByte)) (\<lambda>r.
               case r of
                 None \<Rightarrow> ret False
               | Some nextByte \<Rightarrow>
                   seq (store_at dstIdx
                          ((drop_bit shift oneByte + push_bit (SMS_BYTE_BIT - shift) nextByte) AND 0x7F)) (
                   seq (if shift - 1 > 0 then on_buf (MoveForward 1) else ret 0)
                     (ret True)))))"

function unpack7_loop :: "nat \<Rightarrow> nat \<Rightarrow> nat \<Rightarrow> (SmsReadBuffer \<times> bytes, nat) op" where
  "unpack7_loop dataLen dstIdx shift =
     (if \<not> dstIdx < dataLen then ret dstIdx
      else if shift = 0 then
        bnd (unpack7_first dstIdx) (\<lambda>ok.
          if \<not> ok then ret dstIdx
          else if Suc dstIdx \<ge> dataLen then ret (Suc dstIdx)
          else bnd (unpack7_char (Suc dstIdx) SMS_ENCODE_GSM_BIT) (\<lambda>ok.
            if \<not> ok then ret (Suc dstIdx)
            else unpack7_loop dataLen (Suc (Suc dstIdx)) (SMS_ENCODE_GSM_BIT - 1)))
      else
        bnd (unpack7_char dstIdx shift) (\<lambda>ok.
          if \<not> ok then ret dstIdx
          else unpack7_loop dataLen (Suc dstIdx) (shift - 1)))"
  by pat_completeness auto
termination
  by (relation "measure (\<lambda>(dataLen, dstIdx, shift). dataLen - dstIdx)") auto

declare unpack7_loop.simps [simp del]

definition Unpack7bitChar ::
  "nat \<Rightarrow> nat \<Rightarrow> nat \<Rightarrow> nat \<Rightarrow> (SmsReadBuffer \<times> bytes, nat) op" where
  "Unpack7bitChar dataLen fillBits unpackDataLen dstIdx =
     seq (ensure (\<not> (dataLen \<ge> unpackDataLen \<or> fillBits > SMS_BYTE_BIT - 1))) (
     seq (if fillBits > 0 then on_buf (MoveForward 1) else ret 0)
       (unpack7_loop dataLen dstIdx fillBits))"

section \<open>Digits in BCD\<close>

definition charToBcd :: "u8 \<Rightarrow> u8" where
  "charToBcd c =
     (if c = 0x2A then 0x0A else if c = 0x23 then 0x0B else if c = 0x2B then 0xFE else c - 0x30)"

text \<open>
  The loop of \<^verbatim>\<open>DigitToBcd\<close>: \<open>i\<close> is the position in the digits, \<open>len\<close> the octet being
  filled; the low half is assigned, the high half is OR-ed in. \<open>None\<close> is \<^verbatim>\<open>return false\<close>.
\<close>

fun digit_to_bcd_loop :: "nat \<Rightarrow> bytes \<Rightarrow> nat \<Rightarrow> bytes \<Rightarrow> (nat \<times> bytes) option" where
  "digit_to_bcd_loop i [] len bcd = Some (len, bcd)"
| "digit_to_bcd_loop i (c # cs) len bcd =
     (let temp = charToBcd c in
      if temp \<noteq> 0xFE then
        (if len \<ge> length bcd then None
         else if i mod 2 = 0 then digit_to_bcd_loop (Suc i) cs len (bcd[len := temp AND 0x0F])
         else digit_to_bcd_loop (Suc i) cs (Suc len) (bcd[len := bcd ! len OR push_bit 4 (temp AND 0x0F)]))
      else digit_to_bcd_loop (Suc i) cs len bcd)"

text \<open>
  The array \<^verbatim>\<open>bcd\<close> has \<^verbatim>\<open>bcdLen\<close> elements, and \<^verbatim>\<open>len\<close> is 0 at every call. The result is the
  array and the number of octets used.
\<close>

definition DigitToBcd :: "bytes \<Rightarrow> bytes \<Rightarrow> nat \<Rightarrow> (nat \<times> bytes) option" where
  "DigitToBcd digit bcd len =
     (if len \<ge> length bcd then None
      else case digit_to_bcd_loop 0 digit 0 bcd of
        None \<Rightarrow> None
      | Some (len, bcd) \<Rightarrow>
          if len + 1 \<ge> length bcd then None
          else if length digit mod 2 = 1 then Some (Suc len, bcd[len := bcd ! len OR 0xF0])
          else Some (len, bcd))"

definition BcdToChar :: "u8 \<Rightarrow> u8" where
  "BcdToChar b = (if b = 0x0A then 0x2A else if b = 0x0B then 0x23 else 0x30 + b)"

text \<open>
  The loop of \<^verbatim>\<open>BcdToDigit\<close> appends to \<^verbatim>\<open>digit\<close>; the first component is the \<^verbatim>\<open>bool\<close> result, and
  the digits appended so far are kept when it is false.
\<close>

fun bcd_to_digit_loop :: "bytes \<Rightarrow> bytes \<Rightarrow> nat \<Rightarrow> bool \<times> bytes" where
  "bcd_to_digit_loop [] digit maxDigitLen = (True, digit)"
| "bcd_to_digit_loop (b # bs) digit maxDigitLen =
     (if length digit + 2 \<ge> maxDigitLen then (False, digit)
      else let digit = digit @ [BcdToChar (b AND 0x0F)];
               temp = drop_bit 4 (b AND 0xF0)
           in if temp = 0x0F then (True, digit)
              else bcd_to_digit_loop bs (digit @ [BcdToChar temp]) maxDigitLen)"

definition BcdToDigit :: "bytes \<Rightarrow> bytes \<Rightarrow> nat \<Rightarrow> bool \<times> bytes" where
  "BcdToDigit bcd digit maxDigitLen =
     (if bcd = [] \<or> maxDigitLen = 0 then (False, digit) else bcd_to_digit_loop bcd digit maxDigitLen)"

section \<open>Memory safety and the invariant\<close>

lemma keeps_wf_Pack7bitCharPartData:
  "i < length ud \<Longrightarrow> keeps wf_pdu (Pack7bitCharPartData ud i shift)"
  unfolding Pack7bitCharPartData_def by (intro keeps_bnd keeps_seq keeps_rd_at keeps_intros)

lemma keeps_wf_Pack7bitCharLast:
  "i < length ud \<Longrightarrow> keeps wf_pdu (Pack7bitCharLast ud i shift)"
  unfolding Pack7bitCharLast_def by (intro keeps_bnd keeps_seq keeps_rd_at keeps_intros)

lemma keeps_wf_pack7_loop: "n \<le> length ud \<Longrightarrow> keeps wf_pdu (pack7_loop ud n i shift)"
proof (induction ud n i shift rule: pack7_loop.induct)
  case (1 ud n i shift)
  then show ?case
    by (subst pack7_loop.simps)
      (auto intro!: keeps_if keeps_bnd keeps_seq keeps_rd_at keeps_ret keeps_wf_WriteByte
        keeps_wf_Pack7bitCharPartData keeps_wf_Pack7bitCharLast)
qed

lemma keeps_wf_Pack7bitChar: "n \<le> length ud \<Longrightarrow> keeps wf_pdu (Pack7bitChar ud n f)"
  unfolding Pack7bitChar_def
  by (intro keeps_seq keeps_ensure keeps_if keeps_wf_MoveForward keeps_ret keeps_wf_pack7_loop)

abbreviation wf_unpack :: "nat \<Rightarrow> SmsReadBuffer \<times> bytes \<Rightarrow> bool" where
  "wf_unpack n \<equiv> \<lambda>s. wf_pdu (fst s) \<and> length (snd s) = n"

lemma keeps_store_at: "i < n \<Longrightarrow> keeps (wf_unpack n) (store_at i v)"
  by (rule keepsI) (simp add: store_at_def)

lemma keeps_unpack7_first: "i < n \<Longrightarrow> keeps (wf_unpack n) (unpack7_first i)"
  unfolding unpack7_first_def
  by (intro keeps_bnd keeps_attempt keeps_on_buf keeps_wf_ReadByte keeps_option keeps_ret keeps_seq
      keeps_store_at)

lemma keeps_unpack7_char: "i < n \<Longrightarrow> keeps (wf_unpack n) (unpack7_char i shift)"
  unfolding unpack7_char_def
  by (intro keeps_bnd keeps_attempt keeps_on_buf keeps_wf_PickOneByte keeps_wf_PickOneByteFromIndex
      keeps_option keeps_ret keeps_seq keeps_store_at keeps_gets keeps_if keeps_wf_MoveForward)

lemma keeps_unpack7_loop: "n \<le> m \<Longrightarrow> keeps (wf_unpack m) (unpack7_loop n i shift)"
proof (induction n i shift rule: unpack7_loop.induct)
  case (1 n i shift)
  then show ?case
    by (subst unpack7_loop.simps)
      (auto intro!: keeps_if keeps_bnd keeps_ret keeps_unpack7_first keeps_unpack7_char)
qed

lemma keeps_Unpack7bitChar:
  "m = unpackDataLen \<Longrightarrow> keeps (wf_unpack m) (Unpack7bitChar n f unpackDataLen i)"
  unfolding Unpack7bitChar_def
  by (auto intro!: keeps_ensure_seq keeps_seq keeps_if keeps_on_buf keeps_wf_MoveForward keeps_ret
      keeps_unpack7_loop)

lemma digit_to_bcd_loop_length:
  "digit_to_bcd_loop i cs len bcd = Some (len', bcd') \<Longrightarrow> length bcd' = length bcd"
  by (induction i cs len bcd rule: digit_to_bcd_loop.induct) (auto simp: Let_def split: if_splits)

lemma DigitToBcd_length: "DigitToBcd cs bcd len = Some (len', bcd') \<Longrightarrow> length bcd' = length bcd"
  by (auto simp: DigitToBcd_def digit_to_bcd_loop_length [where cs = cs and bcd = bcd]
      split: option.splits if_splits)

lemma bcd_to_digit_loop_bound:
  "bcd_to_digit_loop bs digit m = (ok, d) \<Longrightarrow> length digit \<le> length d \<and> length d \<le> max (length digit) (m - 1)"
proof (induction bs digit m rule: bcd_to_digit_loop.induct)
  case (1 digit m)
  then show ?case by auto
next
  case (2 b bs digit m)
  show ?case
  proof (cases "length digit + 2 \<ge> m \<or> drop_bit 4 (b AND 0xF0) = 0x0F")
    case True
    with "2.prems" show ?thesis by (auto simp: Let_def split: if_splits)
  next
    case False
    then have "bcd_to_digit_loop bs ((digit @ [BcdToChar (b AND 0x0F)]) @ [BcdToChar (drop_bit 4 (b AND 0xF0))]) m
        = (ok, d)"
      using "2.prems" by (simp add: Let_def)
    with "2.IH" [OF _ refl refl] False show ?thesis by fastforce
  qed
qed

section \<open>What packing means\<close>

text \<open>
  Octets and septets as little-endian numbers: packing shifts the number of the septets by the
  fill bits and writes it in octets, unpacking reads the digits of base 128 back.
\<close>

abbreviation octets_value :: "bytes \<Rightarrow> nat" where
  "octets_value xs \<equiv> horner_sum unat 256 xs"

abbreviation septets_value :: "bytes \<Rightarrow> nat" where
  "septets_value us \<equiv> horner_sum unat 128 us"

fun septets :: "nat \<Rightarrow> nat \<Rightarrow> bytes" where
  "septets 0 v = []"
| "septets (Suc n) v = word_of_nat (v mod 128) # septets n (v div 128)"

text \<open>The octets the packing loop leaves, from the current octet \<open>acc\<close> on.\<close>

fun pk :: "nat \<Rightarrow> u8 \<Rightarrow> bytes \<Rightarrow> bytes" where
  "pk s acc [] = [acc]"
| "pk s acc (c # cs) =
     (if s = 0 then acc # pk 7 c cs
      else if s = 1 then pk 0 (acc OR push_bit 1 c) cs
      else (acc OR push_bit s c) # pk (s - 1) (drop_bit (8 - s) c) cs)"

lemma length_septets [simp]: "length (septets n v) = n"
  by (induction n arbitrary: v) simp_all

lemma septets_of_value:
  "\<forall>u \<in> set us. u < 128 \<Longrightarrow> septets (length us) (septets_value us + 128 ^ length us * x) = us"
proof (induction us arbitrary: x)
  case Nil
  show ?case by simp
next
  case (Cons u us)
  then have u: "unat u < 128" by (simp add: word_less_nat_alt)
  have v: "septets_value (u # us) + 128 ^ Suc (length us) * x = unat u + 128 * (septets_value us + 128 ^ length us * x)"
    by (simp add: algebra_simps)
  have step: "septets (Suc n) (unat u + 128 * y) = u # septets n y" for n y
    using u by simp
  have "septets (length (u # us)) (septets_value (u # us) + 128 ^ length (u # us) * x) =
      u # septets (length us) (septets_value us + 128 ^ length us * x)"
    by (simp only: v length_Cons step)
  with Cons show ?case by simp
qed

lemma unat_u8_less: "unat (a :: u8) < 256"
proof -
  have "unat a < 2 ^ LENGTH(8)" by (rule unsigned_less)
  then show ?thesis by simp
qed

lemma unat_and_7F: "unat (w AND 0x7F :: u8) = unat w mod 128"
proof -
  have "w AND 0x7F = take_bit 7 w" by (simp add: take_bit_eq_mask mask_eq_exp_minus_1)
  then have "unat (w AND 0x7F) = take_bit 7 (unat w)" by (simp only: unsigned_take_bit_eq)
  then show ?thesis by (simp add: take_bit_eq_mod)
qed

lemma unat_drop_bit_u8: "unat (drop_bit n (a :: u8)) = unat a div 2 ^ n"
  unfolding unsigned_drop_bit_eq using unat_u8_less [of a] by (simp add: drop_bit_eq_div take_bit_eq_mod)

lemma unat_push_bit_u8: "unat (push_bit n (a :: u8)) = (2 ^ n * unat a) mod 256"
  unfolding unsigned_push_bit_eq by (simp add: push_bit_eq_mult take_bit_eq_mod mult.commute)

lemma unat_or_push_bit:
  assumes "unat (a :: u8) < 2 ^ s" "s \<le> 8"
  shows "unat (a OR push_bit s c) = unat a + (2 ^ s * unat c) mod 256"
proof -
  have "bit a n \<Longrightarrow> n < s" for n
  proof (rule ccontr)
    assume "bit a n" "\<not> n < s"
    then have "bit (unat a) n" by (simp add: bit_unsigned_iff)
    then have "2 ^ n \<le> unat a" by (simp add: bit_iff_odd) (metis div_less even_zero not_le)
    moreover have "(2::nat) ^ s \<le> 2 ^ n" using \<open>\<not> n < s\<close> by simp
    ultimately show False using assms(1) by simp
  qed
  then have "a AND push_bit s c = 0" by (intro bit_word_eqI) (fastforce simp: bit_simps)
  then have e: "a OR push_bit s c = a + push_bit s c" by (simp add: disjunctive_add_eq_or)
  have p: "unat (push_bit s c) = (2 ^ s * unat c) mod 256"
    by (rule unat_push_bit_u8)
  have d: "(2 ^ s * unat c) mod 256 = 2 ^ s * (unat c mod 2 ^ (8 - s))"
    using assms(2) by (simp add: mult_mod_right power_add [symmetric])
  have "unat a + unat (push_bit s c) < 256"
  proof -
    have "unat c mod 2 ^ (8 - s) \<le> 2 ^ (8 - s) - 1" by (simp add: less_Suc_eq_le [symmetric])
    then have "2 ^ s * (unat c mod 2 ^ (8 - s)) \<le> 2 ^ s * (2 ^ (8 - s) - 1)" by simp
    also have "\<dots> = 256 - 2 ^ s" using assms(2) by (simp add: diff_mult_distrib2 power_add [symmetric])
    finally show ?thesis using assms p d power_increasing [of s 8 "2 :: nat"] by simp
  qed
  then show ?thesis by (simp add: e p unat_word_ariths)
qed

text \<open>\<open>used s\<close> is the number of bits of the current octet in use at shift \<open>s\<close>.\<close>

definition used :: "nat \<Rightarrow> nat" where
  "used s = (if s = 0 then 8 else s)"

lemma split_mod: "(x :: nat) mod a + a * (x div a) = x"
  by simp

lemma add_parts:
  "a + 256 * b = d \<Longrightarrow> 256 * c = e \<Longrightarrow> x = acc + a + 256 * (b + c) \<Longrightarrow> y = d + e \<Longrightarrow> x = acc + (y :: nat)"
  by simp

lemma octets_value_pk:
  "s \<le> 7 \<Longrightarrow> unat acc < 2 ^ used s \<Longrightarrow> \<forall>u \<in> set us. u < 128 \<Longrightarrow>
   octets_value (pk s acc us) = unat acc + 2 ^ used s * septets_value us"
proof (induction s acc us rule: pk.induct)
  case (1 s acc)
  then show ?case by simp
next
  case (2 s acc c cs)
  have c: "unat c < 128" using "2.prems" by (simp add: word_less_nat_alt)
  consider "s = 0" | "s = 1" | "2 \<le> s" by linarith
  then show ?case
  proof cases
    case 1
    then show ?thesis using "2.IH"(1) "2.prems" c by (simp add: used_def algebra_simps)
  next
    case 2
    then have "unat (acc OR push_bit 1 c) = unat acc + 2 * unat c"
      using unat_or_push_bit [of acc 1 c] "2.prems" c by (simp add: used_def)
    then show ?thesis using 2 "2.IH"(2) "2.prems" c by (simp add: used_def)
  next
    case 3
    have acc: "unat (acc OR push_bit s c) = unat acc + 2 ^ s * (unat c mod 2 ^ (8 - s))"
      using unat_or_push_bit [of acc s c] "2.prems" 3
      by (simp add: used_def mult_mod_right power_add [symmetric])
    have d: "unat (drop_bit (8 - s) c) = unat c div 2 ^ (8 - s)"
      by (rule unat_drop_bit_u8)
    have "unat c < 2 ^ (s - 1) * 2 ^ (8 - s)" using c 3 "2.prems" by (simp add: power_add [symmetric])
    then have "unat (drop_bit (8 - s) c) < 2 ^ used (s - 1)"
      using 3 unfolding d by (simp add: used_def less_mult_imp_div_less)
    then have IH: "octets_value (pk (s - 1) (drop_bit (8 - s) c) cs) =
        unat (drop_bit (8 - s) c) + 2 ^ (s - 1) * septets_value cs"
      using "2.IH"(3) "2.prems" 3 by (simp add: used_def)
    have p: "(256 :: nat) = 2 ^ s * 2 ^ (8 - s)" "(256 :: nat) * 2 ^ (s - 1) = 2 ^ s * 128"
      using 3 "2.prems"(1) by (simp_all add: power_add [symmetric] flip: power_Suc)
    have "2 ^ s * (unat c mod 2 ^ (8 - s)) + 256 * (unat c div 2 ^ (8 - s)) = 2 ^ s * unat c"
      unfolding p(1) by (metis distrib_left mult.assoc split_mod)
    moreover have "256 * (2 ^ (s - 1) * septets_value cs) = 2 ^ s * (128 * septets_value cs)"
      using p(2) by (metis mult.assoc)
    moreover have "octets_value (pk s acc (c # cs)) = unat acc + 2 ^ s * (unat c mod 2 ^ (8 - s)) +
        256 * (unat c div 2 ^ (8 - s) + 2 ^ (s - 1) * septets_value cs)"
      using 3 IH acc d by simp
    moreover have "2 ^ used s * septets_value (c # cs) = 2 ^ s * unat c + 2 ^ s * (128 * septets_value cs)"
      using 3 by (simp add: used_def distrib_left)
    ultimately show ?thesis by (rule add_parts)
  qed
qed

lemma length_pk:
  "s \<le> 7 \<Longrightarrow> length (pk s acc us) = (used s + 7 * length us + 7) div 8"
proof (induction s acc us rule: pk.induct)
  case (1 s acc)
  then show ?case by (auto simp: used_def)
next
  case (2 s acc c cs)
  then show ?case by (auto simp: used_def) 
qed

text \<open>An iteration with \<^verbatim>\<open>shift == 0\<close> is a byte followed by the iteration with \<^verbatim>\<open>shift == 7\<close>.\<close>

lemma pack7_loop_0:
  "i < n \<Longrightarrow> pack7_loop ud n i 0 =
     bnd (rd_at ud i) (\<lambda>c. seq (WriteByte c) (pack7_loop ud n (Suc i) 7))"
  by (subst (1 2) pack7_loop.simps) (auto simp: SMS_ENCODE_GSM_BIT_def)

lemma Pack7bitCharPartData_zb:
  assumes "i < length ud" "length p < 65535" "xs \<noteq> []" "hd xs = 0"
  shows "Pack7bitCharPartData ud i s (zb (acc # p) xs) =
    Ok () (zb (drop_bit (8 - s) (ud ! i) # (acc OR push_bit s (ud ! i)) # p) (tl xs))"
  using assms
  by (cases xs)
    (simp_all add: Pack7bitCharPartData_def op_simps zb_simps u16_pred_Suc SMS_BYTE_BIT_def)

lemma Pack7bitCharLast_zb:
  assumes "i < length ud" "length p < 65535"
  shows "Pack7bitCharLast ud i s (zb (acc # p) xs) = Ok () (zb ((acc OR push_bit s (ud ! i)) # p) xs)"
  using assms by (simp add: Pack7bitCharLast_def op_simps zb_simps u16_pred_Suc)

lemma pk_nonempty: "pk s acc us \<noteq> []"
  by (induction s acc us rule: pk.induct) simp_all

lemma pack7_loop_zb:
  assumes "s \<le> 7" "length p + m < 65535" "length (pk s acc (drop i ud)) \<le> Suc m"
  shows "pack7_loop ud (length ud) i s (zb (acc # p) (replicate m 0)) =
    Ok () (zb (rev (pk s acc (drop i ud)) @ p) (replicate (Suc m - length (pk s acc (drop i ud))) 0))"
  using assms
proof (induction s acc "drop i ud" arbitrary: i p m rule: pk.induct)
  case (1 s acc)
  then show ?case by (subst pack7_loop.simps) (simp add: ret_def)
next
  case (2 s acc c cs)
  have i: "i < length ud" "ud ! i = c" "drop (Suc i) ud = cs"
    using "2.hyps"(4) [symmetric] by (auto dest: drop_eq_ConsD)
  consider "s = 0" | "s = 1" | "2 \<le> s" by linarith
  then show ?case
  proof cases
    case 1
    with "2.prems" "2.hyps"(4) [symmetric] pk_nonempty [of 7 c cs] obtain m' where m: "m = Suc m'" by (cases m) auto
    show ?thesis
      using "2.hyps"(1) [of "Suc i" "acc # p" m'] "2.hyps"(4) [symmetric] "2.prems" i 1 m
      by (simp add: pack7_loop_0 op_simps zb_simps)
  next
    case 2
    then show ?thesis
      using "2.hyps"(2) [of "Suc i" p m] "2.hyps"(4) [symmetric] "2.prems" i
      by (subst pack7_loop.simps) (simp add: seq_def bnd_def Pack7bitCharLast_zb)
  next
    case 3
    with "2.prems" "2.hyps"(4) [symmetric] pk_nonempty [of "s - 1" "drop_bit (8 - s) c" cs]
    obtain m' where m: "m = Suc m'" by (cases m) auto
    show ?thesis
      using "2.hyps"(3) [of "Suc i" "(acc OR push_bit s c) # p" m'] "2.hyps"(4) [symmetric] "2.prems" i 3 m
      by (subst pack7_loop.simps) (simp add: seq_def bnd_def Pack7bitCharPartData_zb)
  qed
qed

text \<open>The octets of the septets \<open>us\<close> after \<open>f\<close> fill bits.\<close>

definition packed :: "nat \<Rightarrow> bytes \<Rightarrow> bytes" where
  "packed f us = (if f > 0 then pk f 0 us else case us of [] \<Rightarrow> [] | c # cs \<Rightarrow> pk 7 c cs)"

lemma Pack7bitChar_zb:
  assumes "length us \<le> 160" "f \<le> 7" "length p + m < 65535" "length (packed f us) \<le> m"
  shows "Pack7bitChar us (length us) f (zb p (replicate m 0)) =
    Ok () (zb (rev (packed f us) @ p) (replicate (m - length (packed f us)) 0))"
proof (cases "f > 0")
  case True
  with assms pk_nonempty [of f 0 us] obtain m' where m: "m = Suc m'" by (cases m) (auto simp: packed_def)
  then show ?thesis
    using True assms pack7_loop_zb [of f p m' 0 0 us]
    by (simp add: Pack7bitChar_def MAX_GSM_7BIT_DATA_LEN_def op_simps zb_simps packed_def)
next
  case False
  show ?thesis
  proof (cases us)
    case Nil
    then show ?thesis using False
      by (simp add: Pack7bitChar_def MAX_GSM_7BIT_DATA_LEN_def packed_def pack7_loop.simps op_simps)
  next
    case (Cons c cs)
    with assms False pk_nonempty [of 7 c cs] obtain m' where m: "m = Suc m'" by (cases m) (auto simp: packed_def)
    then show ?thesis
      using False Cons assms pack7_loop_zb [of 7 p m' c 1 us]
      by (simp add: Pack7bitChar_def MAX_GSM_7BIT_DATA_LEN_def pack7_loop_0 op_simps zb_simps packed_def)
  qed
qed

lemma octets_value_packed:
  "f \<le> 7 \<Longrightarrow> \<forall>u \<in> set us. u < 128 \<Longrightarrow> octets_value (packed f us) = 2 ^ f * septets_value us"
  using octets_value_pk [of f 0 us] octets_value_pk [of 7 "hd us" "tl us"]
  by (auto simp: packed_def used_def word_less_nat_alt split: list.splits)

lemma length_packed: "f \<le> 7 \<Longrightarrow> length (packed f us) = (f + 7 * length us + 7) div 8"
  by (auto simp: packed_def length_pk used_def split: list.splits)

section \<open>What unpacking means\<close>

lemma unpack7_loop_0:
  "i < n \<Longrightarrow> unpack7_loop n i 0 =
     bnd (unpack7_first i) (\<lambda>ok. if \<not> ok then ret i else unpack7_loop n (Suc i) 7)"
  by (subst (1 2) unpack7_loop.simps, unfold SMS_ENCODE_GSM_BIT_def)
    (auto intro!: arg_cong2 [where f = bnd])

text \<open>The number left to decode at shift \<open>s\<close>, with \<open>acc\<close> the octet before the cursor.\<close>

definition pending :: "nat \<Rightarrow> u8 \<Rightarrow> bytes \<Rightarrow> nat" where
  "pending s acc xs = (if s = 0 then octets_value xs else octets_value (acc # xs) div 2 ^ s)"

lemma unat_spread:
  assumes "0 < s" "s \<le> 7"
  shows "(drop_bit s a + push_bit (8 - s) b) AND 0x7F = (word_of_nat (((unat a + 256 * unat b) div 2 ^ s) mod 128) :: u8)"
proof (rule word_unat_eq_iff [THEN iffD2])
  have "unat ((drop_bit s a + push_bit (8 - s) b) AND 0x7F) = unat (drop_bit s a + push_bit (8 - s) b) mod 128"
    by (rule unat_and_7F)
  also have "\<dots> = (unat a div 2 ^ s + 2 ^ (8 - s) * unat b) mod 128"
    by (simp add: unat_word_ariths unat_drop_bit_u8 unat_push_bit_u8 mod_simps mod_mod_cancel)
  also have "unat a div 2 ^ s + 2 ^ (8 - s) * unat b = (unat a + 256 * unat b) div 2 ^ s"
  proof -
    have "256 * unat b = 2 ^ s * (2 ^ (8 - s) * unat b)"
      using assms by (simp add: mult.assoc [symmetric] power_add [symmetric])
    then have "(unat a + 256 * unat b) div 2 ^ s = (unat a + 2 ^ s * (2 ^ (8 - s) * unat b)) div 2 ^ s"
      by (simp only:)
    then show ?thesis by simp
  qed
  finally show "unat ((drop_bit s a + push_bit (8 - s) b) AND 0x7F) =
      unat (word_of_nat (((unat a + 256 * unat b) div 2 ^ s) mod 128) :: u8)"
    by (simp add: unat_of_nat mod_mod_cancel)
qed

lemma pending_Suc:
  assumes "0 < s" "s \<le> 7"
  shows "pending s a (b # xs) mod 128 = ((unat a + 256 * unat b) div 2 ^ s) mod 128"
    and "pending s a (b # xs) div 128 = pending (s - 1) b (if s = 1 then b # xs else xs)"
proof -
  have s: "(2 :: nat) ^ s * 2 ^ (7 - s) = 128" using assms by (simp add: power_add [symmetric])
  have "2 ^ s * (128 * (4 * 2 ^ (7 - s) * y)) = (2 ^ s * 2 ^ (7 - s)) * 512 * y" for y :: nat
    by (simp add: ac_simps)
  then have "octets_value (a # b # xs) =
      (unat a + 256 * unat b) + 2 ^ s * (128 * (4 * 2 ^ (7 - s) * octets_value xs))"
    unfolding s by simp
  then have "pending s a (b # xs) =
      ((unat a + 256 * unat b) + 2 ^ s * (128 * (4 * 2 ^ (7 - s) * octets_value xs))) div 2 ^ s"
    using assms by (simp only: pending_def) simp
  then show "pending s a (b # xs) mod 128 = ((unat a + 256 * unat b) div 2 ^ s) mod 128"
    by (simp only: div_mult_self2 [OF power_not_zero [OF zero_neq_numeral [symmetric]]] mod_mult_self4)
  have "pending s a (b # xs) div 128 = (unat a + 256 * octets_value (b # xs)) div (256 * 2 ^ (s - 1))"
    using assms by (cases s) (simp_all add: pending_def div_mult2_eq [symmetric])
  also have "\<dots> = octets_value (b # xs) div 2 ^ (s - 1)"
  proof -
    have "(unat a + 256 * y) div 256 = y" for y using unat_u8_less [of a] by simp
    then show ?thesis by (simp only: div_mult2_eq)
  qed
  finally show "pending s a (b # xs) div 128 = pending (s - 1) b (if s = 1 then b # xs else xs)"
    using assms by (auto simp: pending_def)
qed

lemma unpack7_char_zb:
  assumes "1 < s" "s \<le> 7" "length p < 65535" "i < length out"
  shows "unpack7_char i s (zb (a # p) (b # xs), out) =
    Ok True (zb (b # a # p) xs, out[i := word_of_nat (pending s a (b # xs) mod 128)])"
  using assms
  by (simp add: unpack7_char_def op_simps zb_simps u16_pred_Suc SMS_BYTE_BIT_def store_at_def
      unat_spread pending_Suc)

lemma unpack7_char1_zb:
  assumes "length p < 65535" "i < length out"
  shows "unpack7_char i 1 (zb (a # p) xs, out) =
    Ok True (zb (a # p) xs, out[i := word_of_nat (pending 1 a xs mod 128)])"
proof -
  have "drop_bit 1 a AND 0x7F = word_of_nat ((unat a div 2) mod 128)"
    using unat_spread [of 1 a 0] by simp
  moreover have "pending 1 a xs mod 128 = (unat a div 2) mod 128"
  proof -
    have "(unat a + 256 * y) div 2 = unat a div 2 + 128 * y" for y by presburger
    then show ?thesis by (simp add: pending_def)
  qed
  ultimately show ?thesis using assms
    by (simp add: unpack7_char_def op_simps zb_simps u16_pred_Suc store_at_def)
qed

lemma unpack7_first_zb:
  assumes "i < length out"
  shows "unpack7_first i (zb p (b # xs), out) =
    Ok True (zb (b # p) xs, out[i := word_of_nat (octets_value (b # xs) mod 128)])"
proof -
  have "octets_value (b # xs) = unat b + 128 * (2 * octets_value xs)" by simp
  then have "octets_value (b # xs) mod 128 = unat b mod 128" by (simp only: mod_mult_self2)
  moreover have "b AND 0x7F = word_of_nat (unat b mod 128)"
    by (rule word_unat_eq_iff [THEN iffD2]) (simp add: unat_and_7F unat_of_nat mod_mod_cancel)
  ultimately show ?thesis using assms
    by (simp add: unpack7_first_def op_simps zb_simps store_at_def)
qed

lemma septets_store:
  assumes "i < n" "n \<le> length out"
  shows "take (Suc i) (out[i := word_of_nat (v mod 128)]) @ septets (n - Suc i) (v div 128) @
      drop n (out[i := word_of_nat (v mod 128)]) = take i out @ septets (n - i) v @ drop n out"
proof -
  obtain k where "n - i = Suc k" "n - Suc i = k" using assms by (metis Suc_diff_Suc)
  then show ?thesis using assms by (simp add: take_Suc_conv_app_nth)
qed

definition unpack_ready :: "nat \<Rightarrow> bytes \<Rightarrow> bytes \<Rightarrow> nat \<Rightarrow> bool" where
  "unpack_ready s p xs m \<longleftrightarrow> s \<le> 7 \<and> (0 < s \<longrightarrow> p \<noteq> []) \<and> length p + length xs \<le> 256 \<and>
     used s + 7 * m \<le> 8 * length xs + 8"

lemma unpack7_step:
  assumes r: "unpack_ready s p xs (Suc m)" and i: "i < n" "n \<le> length out"
    and v: "v = pending s (hd p) xs"
  obtains t q ys where "unpack_ready t q ys m" "pending t (hd q) ys = v div 128" "rev q @ ys = rev p @ xs"
    "unpack7_loop n i s (zb p xs, out) = unpack7_loop n (Suc i) t (zb q ys, out[i := word_of_nat (v mod 128)])"
proof -
  consider "s = 0" | "s = 1" | "2 \<le> s" by linarith
  then show thesis
  proof cases
    case 1
    with r obtain b ys where xs: "xs = b # ys" by (cases xs) (auto simp: unpack_ready_def used_def)
    show thesis
    proof (rule that)
      show "unpack_ready 7 (b # p) ys m" using r 1 xs by (auto simp: unpack_ready_def used_def)
      show "pending 7 (hd (b # p)) ys = v div 128" using 1 xs v by (simp add: pending_def)
      show "rev (b # p) @ ys = rev p @ xs" using xs by simp
      show "unpack7_loop n i s (zb p xs, out) =
          unpack7_loop n (Suc i) 7 (zb (b # p) ys, out[i := word_of_nat (v mod 128)])"
        using 1 xs v i by (simp add: unpack7_loop_0 bnd_def unpack7_first_zb pending_def)
    qed
  next
    case 2
    with r obtain a q where p: "p = a # q" by (cases p) (auto simp: unpack_ready_def)
    show thesis
    proof (rule that)
      show "unpack_ready 0 p xs m" using r 2 by (auto simp: unpack_ready_def used_def)
      have "(unat a + 256 * y) div 2 div 128 = y" for y using unat_u8_less [of a] by simp
      then show "pending 0 (hd p) xs = v div 128" using 2 v p by (simp add: pending_def)
      show "rev p @ xs = rev p @ xs" ..
      show "unpack7_loop n i s (zb p xs, out) = unpack7_loop n (Suc i) 0 (zb p xs, out[i := word_of_nat (v mod 128)])"
        using 2 v i r p unpack7_char1_zb [of q i out a xs]
        by (subst unpack7_loop.simps) (simp add: bnd_def unpack_ready_def)
    qed
  next
    case 3
    with r obtain a q b ys where p: "p = a # q" "xs = b # ys"
      by (cases p; cases xs) (auto simp: unpack_ready_def used_def)
    show thesis
    proof (rule that)
      show "unpack_ready (s - 1) (b # p) ys m" using r 3 p by (auto simp: unpack_ready_def used_def)
      show "pending (s - 1) (hd (b # p)) ys = v div 128"
        using 3 v p r by (simp add: pending_Suc(2) unpack_ready_def)
      show "rev (b # p) @ ys = rev p @ xs" using p(2) by simp
      show "unpack7_loop n i s (zb p xs, out) = unpack7_loop n (Suc i) (s - 1) (zb (b # p) ys, out[i := word_of_nat (v mod 128)])"
        using 3 v i r p unpack7_char_zb [of s q i out a b ys]
        by (subst unpack7_loop.simps) (simp add: bnd_def unpack_ready_def)
    qed
  qed
qed

lemma unpack7_loop_zb:
  assumes "unpack_ready s p xs (n - i)" "i \<le> n" "n \<le> length out"
  shows "\<exists>q ys. unpack7_loop n i s (zb p xs, out) =
    Ok n (zb q ys, take i out @ septets (n - i) (pending s (hd p) xs) @ drop n out) \<and> rev q @ ys = rev p @ xs"
  using assms
proof (induction "n - i" arbitrary: s p xs i out)
  case 0
  then show ?case by (subst unpack7_loop.simps) (auto simp: ret_def)
next
  case (Suc k)
  define v where "v = pending s (hd p) xs"
  let ?out = "out[i := word_of_nat (v mod 128)]"
  have i: "i < n" "k = n - Suc i" using Suc.hyps(2) by auto
  obtain t q ys where st: "unpack_ready t q ys k" "pending t (hd q) ys = v div 128" "rev q @ ys = rev p @ xs"
    "unpack7_loop n i s (zb p xs, out) = unpack7_loop n (Suc i) t (zb q ys, ?out)"
    using unpack7_step [OF _ i(1) Suc.prems(3) v_def] Suc.prems(1) Suc.hyps(2) by metis
  have "\<exists>q' ys'. unpack7_loop n (Suc i) t (zb q ys, ?out) =
      Ok n (zb q' ys', take (Suc i) ?out @ septets (n - Suc i) (pending t (hd q) ys) @ drop n ?out) \<and> rev q' @ ys' = rev q @ ys"
    by (rule Suc.hyps(1)) (use st Suc.prems i in auto)
  then show ?case
    unfolding st(2-4) septets_store [OF i(1) Suc.prems(3)] by (simp add: v_def)
qed

text \<open>The number the octets from the cursor on hold, less the fill bits.\<close>

lemma Unpack7bitChar_zb:
  assumes "f \<le> 7" "length p + length xs \<le> 256" "n < length out" "length out \<le> 255"
    and "f + 7 * n \<le> 8 * length xs" "0 < f \<longrightarrow> xs \<noteq> []"
  shows "\<exists>q ys. Unpack7bitChar n f (length out) 0 (zb p xs, out) =
    Ok n (zb q ys, septets n (octets_value xs div 2 ^ f) @ drop n out) \<and> rev q @ ys = rev p @ xs"
proof (cases "f = 0")
  case True
  then show ?thesis
    using assms unpack7_loop_zb [of 0 p xs n 0 out]
    by (simp add: Unpack7bitChar_def op_simps unpack_ready_def used_def pending_def SMS_BYTE_BIT_def)
next
  case False
  with assms obtain a ys where xs: "xs = a # ys" by (cases xs) auto
  then show ?thesis
    using False assms unpack7_loop_zb [of f "a # p" ys n 0 out]
    by (simp add: Unpack7bitChar_def op_simps zb_simps unpack_ready_def used_def pending_def SMS_BYTE_BIT_def)
qed

text \<open>
  \<^verbatim>\<open>Pack7bitChar\<close> succeeds on up to 160 septets whenever they fit, and the octets it writes at the
  cursor hold, as a little-endian number, exactly the septets in base 128 after the fill bits, in
  the least number of octets; nothing before the cursor and nothing after those octets changes.
\<close>

theorem Pack7bitChar_layout:
  assumes "\<forall>u \<in> set us. u < 128" "length us \<le> 160" "f \<le> 6"
    and "length p + m \<le> 256" "f + 7 * length us \<le> 8 * m"
  shows "\<exists>out. Pack7bitChar us (length us) f (zb p (replicate m 0)) =
      Ok () (zb (rev out @ p) (replicate (m - length out) 0)) \<and>
    length out = (f + 7 * length us + 7) div 8 \<and>
    octets_value out = 2 ^ f * septets_value us"
proof (intro exI conjI)
  have "length (packed f us) \<le> m" using assms by (simp add: length_packed)
  then show "Pack7bitChar us (length us) f (zb p (replicate m 0)) =
      Ok () (zb (rev (packed f us) @ p) (replicate (m - length (packed f us)) 0))"
    using assms by (intro Pack7bitChar_zb) simp_all
qed (use assms in \<open>simp_all add: length_packed octets_value_packed\<close>)

lemma octets_value_append: "octets_value (xs @ ys) = octets_value xs + 256 ^ length xs * octets_value ys"
  by (induction xs) (simp_all add: algebra_simps)

lemma octets_value_bound: "octets_value xs < 256 ^ length xs"
proof (induction xs)
  case (Cons x xs)
  then show ?case using unat_u8_less [of x] by simp
qed simp

lemma septets_packed:
  assumes us: "\<forall>u \<in> set us. u < 128" and f: "f \<le> 7"
  shows "septets (length us) (octets_value (packed f us @ rest) div 2 ^ f) = us"
proof -
  let ?n = "length (packed f us)"
  have "f + 7 * length us \<le> 8 * ?n" using f by (simp add: length_packed)
  then obtain k where k: "8 * ?n = f + 7 * length us + k" using le_Suc_ex by blast
  have "(256 :: nat) ^ ?n = 2 ^ (8 * ?n)" by (simp add: power_mult)
  also have "\<dots> = 2 ^ f * (128 ^ length us * 2 ^ k)" unfolding k by (simp add: power_add power_mult)
  finally have "octets_value (packed f us @ rest) =
      2 ^ f * (septets_value us + 128 ^ length us * (2 ^ k * octets_value rest))"
    using us f by (simp add: octets_value_append octets_value_packed algebra_simps)
  then show ?thesis by (simp add: septets_of_value us)
qed

theorem Pack7bitChar_layout_witness:
  "\<exists>out. Pack7bitChar [0x68, 0x65, 0x6C] (length [0x68, 0x65, 0x6C :: u8]) 1 (zb [7] (replicate 20 0)) =
      Ok () (zb (rev out @ [7]) (replicate (20 - length out) 0)) \<and>
    length out = (1 + 7 * length [0x68, 0x65, 0x6C :: u8] + 7) div 8 \<and>
    octets_value out = 2 ^ 1 * septets_value [0x68, 0x65, 0x6C]"
  by (rule Pack7bitChar_layout) simp_all

text \<open>
  C24. Round trip: the septets \<^verbatim>\<open>Pack7bitChar\<close> wrote after any number of fill bits are the ones
  \<^verbatim>\<open>Unpack7bitChar\<close> stores when it reads the same octets back with the same fill bits.
\<close>

theorem Pack7bitChar_Unpack7bitChar:
  assumes us: "\<forall>u \<in> set us. u < 128" "length us \<le> 160" and f: "f \<le> 6"
    and room: "length p + m \<le> 256" "f + 7 * length us \<le> 8 * m" "0 < m"
    and out: "length us < length out" "length out \<le> 255"
  shows "\<exists>out' c q ys. Pack7bitChar us (length us) f (zb p (replicate m 0)) = Ok () (zb (rev out' @ p) c) \<and>
    Unpack7bitChar (length us) f (length out) 0 (zb p (out' @ c), out) =
      Ok (length us) (zb q ys, us @ drop (length us) out) \<and> rev q @ ys = rev p @ out' @ c"
proof -
  have len: "length (packed f us) \<le> m" using room f by (simp add: length_packed)
  have P: "Pack7bitChar us (length us) f (zb p (replicate m 0)) =
      Ok () (zb (rev (packed f us) @ p) (replicate (m - length (packed f us)) 0))"
    using us f room len by (intro Pack7bitChar_zb) simp_all
  have "\<exists>q ys. Unpack7bitChar (length us) f (length out) 0
      (zb p (packed f us @ replicate (m - length (packed f us)) 0), out) =
      Ok (length us) (zb q ys, septets (length us)
        (octets_value (packed f us @ replicate (m - length (packed f us)) 0) div 2 ^ f) @ drop (length us) out) \<and>
      rev q @ ys = rev p @ packed f us @ replicate (m - length (packed f us)) 0"
    using us f room len out by (intro Unpack7bitChar_zb) auto
  with P show ?thesis using us(1) f by (auto simp: septets_packed)
qed

theorem Pack7bitChar_Unpack7bitChar_witness:
  "\<exists>out' c q ys. Pack7bitChar [0x68, 0x65, 0x6C] (length [0x68, 0x65, 0x6C :: u8]) 1 (zb [7] (replicate 20 0)) =
      Ok () (zb (rev out' @ [7]) c) \<and>
    Unpack7bitChar (length [0x68, 0x65, 0x6C :: u8]) 1 (length [0, 0, 0, 0, 0 :: u8]) 0 (zb [7] (out' @ c), [0, 0, 0, 0, 0]) =
      Ok (length [0x68, 0x65, 0x6C :: u8]) (zb q ys, [0x68, 0x65, 0x6C] @ drop (length [0x68, 0x65, 0x6C :: u8]) [0, 0, 0, 0, 0]) \<and>
    rev q @ ys = rev [7] @ out' @ c"
  by (rule Pack7bitChar_Unpack7bitChar) simp_all

text \<open>
  \<^verbatim>\<open>Unpack7bitChar\<close> on any octets, whatever wrote them: with enough input it stores the base-128
  digits of the little-endian number the octets hold, after the fill bits, reports how many, and leaves the
  octets of the buffer as they are.
\<close>

theorem Unpack7bitChar_digits:
  assumes "f \<le> 7" "length p + length xs \<le> 256" "n < length out" "length out \<le> 255"
    and "f + 7 * n \<le> 8 * length xs" "xs \<noteq> []"
  shows "\<exists>q ys. Unpack7bitChar n f (length out) 0 (zb p xs, out) =
    Ok n (zb q ys, septets n (octets_value xs div 2 ^ f) @ drop n out) \<and> rev q @ ys = rev p @ xs"
  using assms by (intro Unpack7bitChar_zb) simp_all

theorem Unpack7bitChar_digits_witness:
  "\<exists>q ys. Unpack7bitChar 2 0 (length [0, 0, 0 :: u8]) 0 (zb [] [0xE8, 0x32], [0, 0, 0]) =
    Ok 2 (zb q ys, septets 2 (octets_value [0xE8, 0x32] div 2 ^ 0) @ drop 2 [0, 0, 0]) \<and> rev q @ ys = rev [] @ [0xE8, 0x32]"
  by (rule Unpack7bitChar_digits) simp_all

section \<open>What BCD means\<close>

text \<open>The characters BCD can carry, and the octet of two of them.\<close>

definition bcd_char :: "u8 \<Rightarrow> bool" where
  "bcd_char c \<longleftrightarrow> 0x30 \<le> c \<and> c \<le> 0x39 \<or> c = 0x2A \<or> c = 0x23"

fun bcd_octets :: "bytes \<Rightarrow> bytes" where
  "bcd_octets [] = []"
| "bcd_octets [c] = [charToBcd c AND 0x0F OR 0xF0]"
| "bcd_octets (c # d # cs) = (charToBcd c AND 0x0F OR push_bit 4 (charToBcd d AND 0x0F)) # bcd_octets cs"

lemma bcd_char_cases: "bcd_char c \<Longrightarrow> c \<in> {0x30, 0x31, 0x32, 0x33, 0x34, 0x35, 0x36, 0x37, 0x38, 0x39, 0x2A, 0x23}"
proof -
  assume c: "bcd_char c"
  show ?thesis
  proof (cases "0x30 \<le> c \<and> c \<le> 0x39")
    case True
    then have "48 \<le> unat c" "unat c \<le> 57" by (simp_all add: word_le_nat_alt)
    then have "unat c \<in> {48, 49, 50, 51, 52, 53, 54, 55, 56, 57}"
      by (simp del: One_nat_def) presburger
    then show ?thesis by (auto simp: word_unat_eq_iff)
  qed (use c in \<open>auto simp: bcd_char_def\<close>)
qed

lemma charToBcd_props:
  assumes "bcd_char c"
  shows "charToBcd c \<noteq> 0xFE" "charToBcd c AND 0x0F = charToBcd c" "BcdToChar (charToBcd c) = c" "charToBcd c \<le> 11"
  using bcd_char_cases [OF assms] by (auto simp: charToBcd_def BcdToChar_def)

text \<open>The octets before the filler nibble of an odd number of digits is put in.\<close>

fun bcd_open :: "bytes \<Rightarrow> bytes" where
  "bcd_open [] = []"
| "bcd_open [c] = [charToBcd c AND 0x0F]"
| "bcd_open (c # d # cs) = (charToBcd c AND 0x0F OR push_bit 4 (charToBcd d AND 0x0F)) # bcd_open cs"

lemma length_bcd_octets: "length (bcd_octets cs) = (length cs + 1) div 2"
  by (induction cs rule: bcd_octets.induct) simp_all

lemma length_bcd_open [simp]: "length (bcd_open cs) = (length cs + 1) div 2"
  by (induction cs rule: bcd_open.induct) simp_all

lemma bcd_octets_open:
  "bcd_octets cs = (if odd (length cs)
     then (bcd_open cs)[length cs div 2 := bcd_open cs ! (length cs div 2) OR 0xF0] else bcd_open cs)"
  by (induction cs rule: bcd_octets.induct) simp_all

lemma digit_to_bcd_loop_open:
  "even i \<Longrightarrow> (length cs + 1) div 2 \<le> k \<Longrightarrow> \<forall>c \<in> set cs. bcd_char c \<Longrightarrow>
   digit_to_bcd_loop i cs (length pre) (pre @ replicate k 0) =
     Some (length pre + length cs div 2, pre @ bcd_open cs @ replicate (k - (length cs + 1) div 2) 0)"
proof (induction cs arbitrary: i pre k rule: bcd_open.induct)
  case 1
  then show ?case by simp
next
  case (2 c)
  then obtain k' where "k = Suc k'" by (cases k) auto
  with 2 show ?case by (simp add: Let_def charToBcd_props even_iff_mod_2_eq_zero)
next
  case (3 c d cs)
  then obtain k' where k: "k = Suc k'" by (cases k) auto
  let ?b = "charToBcd c AND 0x0F OR push_bit 4 (charToBcd d AND 0x0F)"
  have "digit_to_bcd_loop (Suc (Suc i)) cs (length (pre @ [?b])) ((pre @ [?b]) @ replicate k' 0) =
      Some (length (pre @ [?b]) + length cs div 2,
        (pre @ [?b]) @ bcd_open cs @ replicate (k' - (length cs + 1) div 2) 0)"
    using "3.prems" k by (intro "3.IH") simp_all
  moreover have "i mod 2 = 0" "Suc i mod 2 = 1" using "3.prems" by presburger+
  ultimately show ?case
    using "3.prems" k by (simp add: Let_def charToBcd_props(1) list_update_append nth_append del: charToBcd_props(2))
qed

lemma DigitToBcd_octets:
  assumes "\<forall>c \<in> set cs. bcd_char c" "length cs div 2 + 1 < k" "len < k"
  shows "DigitToBcd cs (replicate k 0) len =
    Some (length (bcd_octets cs), bcd_octets cs @ replicate (k - length (bcd_octets cs)) 0)"
proof -
  have "digit_to_bcd_loop 0 cs 0 (replicate k 0) =
      Some (length cs div 2, bcd_open cs @ replicate (k - (length cs + 1) div 2) 0)"
    using digit_to_bcd_loop_open [of 0 cs k "[]"] assms by simp
  moreover have "(length cs + 1) div 2 = (if odd (length cs) then Suc (length cs div 2) else length cs div 2)"
    by auto
  moreover have "odd (length cs) \<Longrightarrow> length cs div 2 < length (bcd_open cs)" by simp
  ultimately show ?thesis using assms
    by (auto simp: DigitToBcd_def length_bcd_octets bcd_octets_open list_update_append nth_append odd_iff_mod_2_eq_one)
qed

lemma bcd_nibbles:
  assumes "a \<le> 11" "b \<le> 15"
  shows "(a OR push_bit 4 b) AND 0x0F = (a :: u8)" "drop_bit 4 ((a OR push_bit 4 b) AND 0xF0) = b"
proof -
  have "a = take_bit 4 a" "b = take_bit 4 b"
    using assms by (simp_all add: word_le_nat_alt take_bit_eq_mod unat_mod word_unat_eq_iff)
  then have hi: "\<not> bit a n" "\<not> bit b n" if "4 \<le> n" for n using that by (metis bit_take_bit_iff not_le)+
  have m: "(0x0F :: u8) = mask 4" "(0xF0 :: u8) = push_bit 4 (mask 4)"
    by (simp_all add: mask_eq_exp_minus_1)
  show "(a OR push_bit 4 b) AND 0x0F = a" "drop_bit 4 ((a OR push_bit 4 b) AND 0xF0) = b"
    unfolding m by (rule bit_word_eqI; use hi in \<open>force simp: bit_simps not_le\<close>)+
qed

lemma bcd_to_digit_octets:
  "\<forall>c \<in> set cs. bcd_char c \<Longrightarrow> length digit + 2 * ((length cs + 1) div 2) < m \<Longrightarrow>
   bcd_to_digit_loop (bcd_octets cs) digit m = (True, digit @ cs)"
proof (induction cs arbitrary: digit rule: bcd_octets.induct)
  case 1
  then show ?case by simp
next
  case (2 c)
  then show ?case
    using bcd_nibbles [of "charToBcd c" "0xF"] by (simp add: Let_def charToBcd_props)
next
  case (3 c d cs)
  have d: "charToBcd d \<noteq> 0xF" using charToBcd_props(4) [of d] 3 by auto
  have "charToBcd d \<le> 15" using charToBcd_props(4) [of d] 3 by (simp add: word_le_nat_alt)
  with d show ?case
    using 3 bcd_nibbles [of "charToBcd c" "charToBcd d"] charToBcd_props(4) [of d] charToBcd_props(4) [of c]
    by (simp add: Let_def charToBcd_props)
qed

text \<open>
  Round trip of an address in BCD: any string of digits, \<^verbatim>\<open>*\<close> and \<^verbatim>\<open>#\<close> that fits the array is
  turned into \<open>(n + 1) div 2\<close> octets by \<^verbatim>\<open>DigitToBcd\<close>, and \<^verbatim>\<open>BcdToDigit\<close> gives the same string back.
\<close>

theorem DigitToBcd_BcdToDigit:
  assumes "\<forall>c \<in> set cs. bcd_char c" "cs \<noteq> []" "length cs div 2 + 1 < k" "2 * ((length cs + 1) div 2) < m"
  shows "\<exists>bcd. DigitToBcd cs (replicate k 0) 0 = Some ((length cs + 1) div 2, bcd) \<and>
    BcdToDigit (take ((length cs + 1) div 2) bcd) [] m = (True, cs)"
proof -
  have "bcd_octets cs \<noteq> []" using assms by (cases cs rule: bcd_octets.cases) simp_all
  then show ?thesis
    using DigitToBcd_octets [OF assms(1,3), of 0] bcd_to_digit_octets [OF assms(1), of "[]" m] assms
    by (simp add: length_bcd_octets BcdToDigit_def)
qed

theorem DigitToBcd_BcdToDigit_witness:
  "\<exists>bcd. DigitToBcd [0x31, 0x32, 0x2A] (replicate 12 0) 0 = Some ((length [0x31, 0x32, 0x2A :: u8] + 1) div 2, bcd) \<and>
    BcdToDigit (take ((length [0x31, 0x32, 0x2A :: u8] + 1) div 2) bcd) [] 22 = (True, [0x31, 0x32, 0x2A])"
  by (rule DigitToBcd_BcdToDigit) (simp_all add: bcd_char_def)

end
