(* ===== verification/Gsm_Param_Codec.thy ===== *)
theory Gsm_Param_Codec
  imports Gsm_Pdu_Types Gsm_Common_Utils
begin

text \<open>
  \<^verbatim>\<open>gsm_sms_param_codec.cpp\<close>, \<^verbatim>\<open>gsm_sms_param_encode.cpp\<close> and \<^verbatim>\<open>gsm_sms_param_decode.cpp\<close> under
  \<^verbatim>\<open>services/sms/gsm\<close>: addresses, service centre addresses, time stamps and the data coding scheme of a
  PDU. The methods of \<^verbatim>\<open>GsmSmsParamCodec\<close> that only forward to the encoder or the decoder are not
  repeated. A \<^verbatim>\<open>std::string &\<close> that is appended to is the state of an encoder; a decoder works on the
  buffer and the struct it fills. \<open>ic\<close> and \<open>wsize\<close> are the \<^verbatim>\<open>iconv\<close> and \<^verbatim>\<open>sizeof(WCHAR)\<close> of the text coder.
\<close>

section \<open>Encoding\<close>

definition MAX_ADD_PARAM_LEN :: nat where
  "MAX_ADD_PARAM_LEN = 12"

definition MAX_SMSC_LEN :: nat where
  "MAX_SMSC_LEN = 20"

definition push_back :: "u8 \<Rightarrow> (bytes, unit) op" where
  "push_back c s = Ok () (s @ [c])"

text \<open>\<^verbatim>\<open>pop_back\<close> of an empty string is undefined.\<close>

definition pop_back :: "(bytes, unit) op" where
  "pop_back s = (if s = [] then Fault else Ok () (butlast s))"

text \<open>\<^verbatim>\<open>front\<close> of an empty string reads the terminating NUL its storage holds.\<close>

definition front :: "bytes \<Rightarrow> u8" where
  "front s = (if s = [] then 0 else hd s)"

text \<open>The part of \<^verbatim>\<open>EncodeAddressPdu\<close> after the branch on a leading plus sign.\<close>

definition EncodeAddressDigits :: "bytes \<Rightarrow> u8 \<Rightarrow> u8 \<Rightarrow> (bytes, unit) op" where
  "EncodeAddressDigits temp t n =
     seq (push_back (0x80 + push_bit 4 t + n))
       (case DigitToBcd temp (replicate MAX_ADD_PARAM_LEN 0) 0 of
          None \<Rightarrow> fail
        | Some (len, bcd) \<Rightarrow>
            bnd (gets length) (\<lambda>size.
            seq (ensure (\<not> size + len > MAX_ADD_PARAM_LEN))
              (each push_back (take len bcd))))"

definition EncodeAddressPdu :: "AddressNumber \<Rightarrow> (bytes, unit) op" where
  "EncodeAddressPdu num =
     (let temp = c_str (address num)
      in seq (ensure (\<not> length temp > MAX_SMSC_LEN))
           (if temp \<noteq> [] \<and> hd temp = 0x2B \<and> length temp > 1 then
              seq (push_back (word_of_nat (length temp - 1)))
                (EncodeAddressDigits (tl temp) TYPE_INTERNATIONAL (npi num))
            else
              seq (push_back (word_of_nat (length temp)))
                (EncodeAddressDigits temp (ton num) (npi num))))"

text \<open>
  \<^verbatim>\<open>EncodeSmscPdu(const char *, uint8_t *)\<close>: the state is \<^verbatim>\<open>resultNum\<close>, of which \<^verbatim>\<open>DigitToBcd\<close> is given the
  first \<^verbatim>\<open>MAX_SMSC_LEN\<close> octets. \<^verbatim>\<open>strncpy_s\<close> keeps at most \<^verbatim>\<open>MAX_SMSC_LEN\<close> characters.
\<close>

definition EncodeSmscPdu_str :: "bytes \<Rightarrow> (bytes, nat) op" where
  "EncodeSmscPdu_str num resultNum =
     (let s = c_str num;
          newNum = take MAX_SMSC_LEN (if s \<noteq> [] \<and> hd s = 0x2B then tl s else s)
      in if length resultNum < MAX_SMSC_LEN then Fault
         else case DigitToBcd newNum (take MAX_SMSC_LEN resultNum) 0 of
           None \<Rightarrow> Ok 0 resultNum
         | Some (encodeLen, bcd) \<Rightarrow>
             (let r = bcd @ drop MAX_SMSC_LEN resultNum
              in if encodeLen = 0 \<or> encodeLen \<ge> MAX_SMSC_LEN then Ok 0 r
                 else Ok encodeLen (r[encodeLen := 0])))"

text \<open>
  \<^verbatim>\<open>EncodeSmscPdu(const AddressNumber *, uint8_t *, uint8_t)\<close>, on an array of \<^verbatim>\<open>smscLen\<close> octets.
  \<^verbatim>\<open>newNum\<close> has 21 characters; when the copy leaves no NUL in it, \<^verbatim>\<open>strlen\<close> runs off its end.
\<close>

definition smsc_newNum :: "AddressNumber \<Rightarrow> bytes option" where
  "smsc_newNum num =
     (let len = length (c_str (address num))
      in if len > 1 \<and> hd (address num) = 0x2B then
           (if len - 1 > MAX_SMSC_LEN + 1 then None
            else Some (take (len - 1) (tl (address num)) @ replicate (MAX_SMSC_LEN + 1 - (len - 1)) 0))
         else Some (take (MAX_SMSC_LEN + 1) (address num)))"

definition EncodeSmscPdu :: "AddressNumber \<Rightarrow> (bytes, nat) op" where
  "EncodeSmscPdu num smscNum =
     (case smsc_newNum num of
        None \<Rightarrow> Ok 0 smscNum
      | Some newNum \<Rightarrow>
          if 0 \<notin> set newNum then Fault
          else let digits = c_str newNum;
                   addrLen = length digits;
                   dataSize = (if addrLen mod 2 = 0 then 2 + addrLen div 2 else 2 + addrLen div 2 + 1);
                   smscLen = length smscNum
               in if dataSize > MAX_SMSC_LEN \<or> dataSize \<ge> smscLen \<or> dataSize \<le> 1 \<or> smscLen \<le> 2 then Ok 0 smscNum
                  else let s = smscNum[0 := word_of_nat (dataSize - 1), 1 := 0x80 + push_bit 4 (ton num) + npi num]
                       in case DigitToBcd digits (drop 2 s) 0 of
                            None \<Rightarrow> Ok 0 s
                          | Some (len, bcd) \<Rightarrow> Ok dataSize ((take 2 s @ bcd)[dataSize := 0]))"

text \<open>The \<^verbatim>\<open>switch\<close> on the coding group; \<open>fail\<close> is its \<^verbatim>\<open>return\<close>.\<close>

definition EncodeDCS_group :: "SmsDcs \<Rightarrow> (bytes, unit) op" where
  "EncodeDCS_group dcsData =
     (case codingGroup dcsData of
        CODING_DELETION_GROUP \<Rightarrow> ret ()
      | CODING_DISCARD_GROUP \<Rightarrow> ret ()
      | CODING_STORE_GROUP \<Rightarrow> ret ()
      | CODING_GENERAL_GROUP \<Rightarrow>
          seq (if msgClass dcsData \<noteq> SMS_CLASS_UNKNOWN then push_back (0x10 + class_value (msgClass dcsData)) else ret ())
            (if bCompressed dcsData then
               bnd (gets front) (\<lambda>v. seq pop_back (push_back (v OR 0x20)))
             else ret ())
      | SMS_CLASS_GROUP \<Rightarrow> push_back (0xF0 + class_value (msgClass dcsData))
      | CODING_UNKNOWN_GROUP \<Rightarrow> fail)"

definition EncodeDCS :: "SmsDcs \<Rightarrow> (bytes, unit) op" where
  "EncodeDCS dcsData =
     seq (EncodeDCS_group dcsData) (
     bnd (gets front) (\<lambda>v.
     bnd (gets (\<lambda>s. s \<noteq> [])) (\<lambda>nonempty.
     seq (if nonempty then pop_back else ret ())
       (case codingScheme dcsData of
          DATA_CODING_7BIT \<Rightarrow> ret ()
        | DATA_CODING_UCS2 \<Rightarrow> push_back (v OR 0x08)
        | DATA_CODING_8BIT \<Rightarrow> push_back (v OR 0x04)
        | _ \<Rightarrow> ret ()))))"

definition swapped_digits :: "u8 \<Rightarrow> u8" where
  "swapped_digits x = push_bit 4 (x mod 10) + x div 10"

text \<open>C++ division and remainder truncate towards zero.\<close>

definition tdiv :: "int \<Rightarrow> int \<Rightarrow> int" where
  "tdiv a b = (if 0 \<le> a then a div b else - ((- a) div b))"

definition tmod :: "int \<Rightarrow> int \<Rightarrow> int" where
  "tmod a b = a - b * tdiv a b"

definition EncodeTimePdu :: "SmsTimeStamp \<Rightarrow> (bytes, unit) op" where
  "EncodeTimePdu timeStamp =
     (let a = ts_absolute timeStamp
      in case ts_format timeStamp of
        SMS_TIME_ABSOLUTE \<Rightarrow>
          seq (each push_back (map swapped_digits
                 [ta_year a, ta_month a, ta_day a, ta_hour a, ta_minute a, ta_second a])) (
          seq (if ta_timeZone a < 0 then push_back 0x08 else ret ()) (
          bnd (gets front) (\<lambda>f.
          seq pop_back
            (push_back (word_of_int ((tmod (ta_timeZone a) 10 mod 256) * 16 + tdiv (ta_timeZone a) 10) + f)))))
      | SMS_TIME_RELATIVE \<Rightarrow> upd (\<lambda>_. [ts_relative timeStamp, 0])
      | SMS_TIME_EMPTY \<Rightarrow> ret ())"

section \<open>Addresses\<close>

text \<open>
  The loop of \<^verbatim>\<open>GsmSmsCommonUtils::Unpack7bitCharForMiddlePart\<close>; the state is \<^verbatim>\<open>unpackData\<close>. The
  septets are mapped to characters here already, and an escaped one by the default table.
\<close>

definition middle_septet :: "bytes \<Rightarrow> nat \<Rightarrow> ('s, u8) op" where
  "middle_septet buffer i =
     (let bitOffsetNumber = to_u8 (7 * i);
          shiftNumber = bitOffsetNumber mod 8;
          byteOffsetNumber = bitOffsetNumber div 8
      in bnd (rd_at buffer byteOffsetNumber) (\<lambda>b.
         if shiftNumber > 1 then
           bnd (rd_at buffer (byteOffsetNumber + 1)) (\<lambda>next.
           ret ((0x7F AND drop_bit shiftNumber b AND drop_bit (shiftNumber - 1) 0x7F)
                OR (0x7F AND push_bit (8 - shiftNumber) next)))
         else ret (0x7F AND drop_bit shiftNumber b)))"

fun middle_loop :: "bytes \<Rightarrow> nat \<Rightarrow> nat \<Rightarrow> bool \<Rightarrow> (bytes, unit) op" where
  "middle_loop buffer i 0 flag = ret ()"
| "middle_loop buffer i (Suc n) flag =
     bnd (middle_septet buffer i) (\<lambda>currentValue.
     seq (ensure (\<not> i > 19))
       (if flag then
          seq (put_at i (if currentValue = 0x1B then 0x20 else ucast (GetUCS2Value (unat currentValue))))
            (middle_loop buffer (Suc i) n False)
        else if currentValue = 0x1B then middle_loop buffer (Suc i) n True
        else
          seq (put_at i (ucast (GetUCS2Value (unat currentValue))))
            (middle_loop buffer (Suc i) n False)))"

definition Unpack7bitCharForMiddlePart :: "bytes \<Rightarrow> nat \<Rightarrow> (bytes, unit) op" where
  "Unpack7bitCharForMiddlePart buffer dataLen =
     seq (ensure (\<not> dataLen = 0)) (middle_loop buffer 0 dataLen False)"

text \<open>
  \<^verbatim>\<open>regProcessSmsAddrs\<close>: the greedy group 2 of both patterns ends before the last \<^verbatim>\<open>#\<close> or \<^verbatim>\<open>*\<close> that
  leaves a match.
\<close>

definition is_mark :: "u8 \<Rightarrow> bool" where
  "is_mark c \<longleftrightarrow> c = 0x23 \<or> c = 0x2A"

fun split_mark :: "bytes \<Rightarrow> (bytes \<times> u8 \<times> bytes) option" where
  "split_mark [] = None"
| "split_mark (c # cs) =
     (case split_mark cs of
        Some (pre, m, post) \<Rightarrow> Some (c # pre, m, post)
      | None \<Rightarrow> if is_mark c then Some ([], c, cs) else None)"

definition regProcessSmsAddrs :: "bytes \<Rightarrow> bytes" where
  "regProcessSmsAddrs smsAddrs =
     (case smsAddrs of
        [] \<Rightarrow> [0x2B]
      | m1 # rest \<Rightarrow>
          (case (if is_mark m1 \<and> rest \<noteq> [] \<and> last rest = 0x23 then split_mark (butlast rest) else None) of
             Some (m2, m3, m4) \<Rightarrow>
               if m2 = [] then m1 # m3 # m4 @ [0x23, 0x2B]
               else m1 # m2 @ m3 # 0x2B # m4 @ [0x23]
           | None \<Rightarrow>
               (case (if is_mark m1 then split_mark rest else None) of
                  Some (m2, m3, m4) \<Rightarrow> m1 # m2 @ m3 # 0x2B # m4
                | None \<Rightarrow> 0x2B # smsAddrs)))"

text \<open>The octets of \<^verbatim>\<open>addrLen\<close> half-octets.\<close>

definition bcd_len :: "nat \<Rightarrow> nat" where
  "bcd_len addrLen = (if addrLen mod 2 = 0 then addrLen div 2 else addrLen div 2 + 1)"

text \<open>The copy loop \<^verbatim>\<open>for (i = 0; i < s.size() && i < MAX_ADDRESS_LEN; i++) address[i] = s[i]\<close>.\<close>

definition set_address :: "bytes \<Rightarrow> AddressNumber \<Rightarrow> AddressNumber" where
  "set_address s num = num\<lparr>address := write_at 0 (take MAX_ADDRESS_LEN s) (address num)\<rparr>"

definition DecodeAddressAlphaNum ::
  "iconv \<Rightarrow> nat \<Rightarrow> nat \<Rightarrow> (SmsReadBuffer \<times> AddressNumber, unit) op" where
  "DecodeAddressAlphaNum ic wsize addrLen =
     (let dataLen = addrLen * 4 div 7;
          encodeLen = bcd_len addrLen
      in bnd (on_buf ReadByte) (\<lambda>_.
         bnd (collect (\<lambda>i. bnd (on_buf ReadByte) (\<lambda>oneByte.
                if i < MAX_ADDRESS_LEN + 1 then ret oneByte else fault)) 0 encodeLen) (\<lambda>read.
         bnd (with_new (replicate MAX_ADDRESS_LEN 0)
                (Unpack7bitCharForMiddlePart (write_at 0 read (replicate (MAX_ADDRESS_LEN + 1) 0)) dataLen))
           (\<lambda>(_, tmresultNum).
         bnd (on_part address (\<lambda>a num. num\<lparr>address := a\<rparr>)
                (Gsm7bitToUtf8 ic wsize (int MAX_ADDRESS_LEN) tmresultNum (int dataLen)
                   \<lparr>bSingleShift = False, bLockingShift = False, singleLang = 0, lockingLang = 0\<rparr>)) (\<lambda>_.
         ret ())))))"

text \<open>The reading loop of the two numeric forms stops at 21 octets; \<^verbatim>\<open>bcdArr\<close> has 22.\<close>

definition read_bcd :: "nat \<Rightarrow> (SmsReadBuffer \<times> AddressNumber, bytes) op" where
  "read_bcd bcdLen =
     seq (on_buf (MoveForward 1)) (
     bnd (collect (\<lambda>_. on_buf ReadByte) 0 (min bcdLen MAX_ADDRESS_LEN)) (\<lambda>read.
     let bcdArr = write_at 0 read (replicate (MAX_ADDRESS_LEN + 1) 0)
     in if bcdLen > length bcdArr then fault
        else case BcdToDigit (take bcdLen bcdArr) [] SMS_MAX_ADDRESS_LEN of
          (ok, addrNum) \<Rightarrow> if ok then ret addrNum else fail))"

definition DecodeAddressInternationalNum :: "nat \<Rightarrow> (SmsReadBuffer \<times> AddressNumber, unit) op" where
  "DecodeAddressInternationalNum bcdLen =
     bnd (read_bcd bcdLen) (\<lambda>addrNum. on_out (set_address (regProcessSmsAddrs addrNum)))"

definition DecodeAddressDefaultNum :: "nat \<Rightarrow> (SmsReadBuffer \<times> AddressNumber, unit) op" where
  "DecodeAddressDefaultNum bcdLen =
     bnd (read_bcd bcdLen) (\<lambda>addrNum. on_out (set_address addrNum))"

definition DecodeAddressPdu :: "iconv \<Rightarrow> nat \<Rightarrow> (SmsReadBuffer \<times> AddressNumber, unit) op" where
  "DecodeAddressPdu ic wsize =
     seq (on_out (\<lambda>num. num\<lparr>address := replicate (SMS_MAX_ADDRESS_LEN + 1) 0\<rparr>)) (
     bnd (on_buf ReadByte) (\<lambda>oneByte.
     seq (ensure (\<not> unat oneByte \<ge> 2 * (MAX_ADDRESS_LEN + 1))) (
     let addrLen = unat oneByte;
         bcdLen = bcd_len addrLen
     in bnd (on_buf PickOneByte) (\<lambda>oneByte.
        let t = drop_bit 4 (oneByte AND 0x70)
        in seq (on_out (\<lambda>num. num\<lparr>ton := t\<rparr>))
             (if t = TYPE_ALPHA_NUMERIC then DecodeAddressAlphaNum ic wsize addrLen
              else if t = TYPE_INTERNATIONAL then DecodeAddressInternationalNum bcdLen
              else DecodeAddressDefaultNum bcdLen)))))"

section \<open>Service centre addresses\<close>

text \<open>\<^verbatim>\<open>DecodeSmscPdu(uint8_t *, uint8_t, TypeOfNum, std::string &)\<close>: the new value of \<^verbatim>\<open>desAddr\<close>.\<close>

definition DecodeSmscPdu_addr :: "bytes \<Rightarrow> u8 \<Rightarrow> bytes \<Rightarrow> bytes" where
  "DecodeSmscPdu_addr srcAddr t desAddr =
     (if srcAddr = [] then desAddr
      else case BcdToDigit srcAddr desAddr SMS_MAX_ADDRESS_LEN of
        (ok, d) \<Rightarrow> if \<not> ok then d else if t = TYPE_INTERNATIONAL then regProcessSmsAddrs d else d)"

text \<open>\<^verbatim>\<open>DecodeSmscPdu(const uint8_t *, uint8_t, AddressNumber &)\<close>: the offset of the TPDU, 0 for an error.\<close>

definition DecodeSmscPdu :: "bytes \<Rightarrow> (AddressNumber, nat) op" where
  "DecodeSmscPdu pTpdu =
     (let pduLen = length pTpdu
      in if pduLen = 0 then ret 0
         else
           seq (upd (\<lambda>a. a\<lparr>address := replicate (SMS_MAX_ADDRESS_LEN + 1) 0\<rparr>)) (
           bnd (rd_at pTpdu 0) (\<lambda>b.
           let addrLen = unat b
           in if addrLen = 0 then ret 1
              else if addrLen \<ge> pduLen \<or> 1 \<ge> pduLen then ret 0
              else bnd (rd_at pTpdu 1) (\<lambda>b.
                seq (upd (\<lambda>a. a\<lparr>ton := drop_bit 4 (b AND 0x70), npi := b AND 0x0F\<rparr>))
                  (if addrLen > SMS_MAX_ADDRESS_LEN \<or> 2 + addrLen \<ge> pduLen then ret 0
                   else let addrNum = snd (BcdToDigit (take addrLen (drop 2 pTpdu)) [] SMS_MAX_ADDRESS_LEN);
                            s = (if drop_bit 4 (b AND 0x70) = TYPE_INTERNATIONAL then regProcessSmsAddrs addrNum else addrNum)
                        in seq (upd (set_address s)) (ret (2 + (addrLen - 1))))))))"

section \<open>The data coding scheme\<close>

definition GetMsgClass :: "u8 \<Rightarrow> SmsMessageClass" where
  "GetMsgClass dcs =
     (let v = dcs AND 0x03
      in if v = 0 then SMS_INSTANT_MESSAGE else if v = 1 then SMS_OPTIONAL_MESSAGE
         else if v = 2 then SMS_SIM_MESSAGE else SMS_FORWARD_MESSAGE)"

definition GetMsgCodingScheme :: "u8 \<Rightarrow> DataCodingScheme" where
  "GetMsgCodingScheme dcs =
     (let v = dcs AND 0x03
      in if v = 0 then DATA_CODING_7BIT else if v = 1 then DATA_CODING_8BIT
         else if v = 2 then DATA_CODING_UCS2 else DATA_CODING_AUTO)"

definition GetMsgIndicatorType :: "u8 \<Rightarrow> SmsIndicatorType" where
  "GetMsgIndicatorType dcs =
     (let v = dcs AND 0x03
      in if v = 0 then SMS_VOICE_INDICATOR else if v = 1 then SMS_VOICE2_INDICATOR
         else if v = 2 then SMS_FAX_INDICATOR else SMS_EMAIL_INDICATOR)"

definition GetMwiType :: "u8 \<Rightarrow> SmsDcs \<Rightarrow> SmsDcs" where
  "GetMwiType dcs smsDcs = smsDcs\<lparr>
     bCompressed := False, msgClass := SMS_CLASS_UNKNOWN, bMWI := True,
     bIndActive := (drop_bit 3 (dcs AND 0x08) = 1), indType := GetMsgIndicatorType (dcs AND 0x03)\<rparr>"

definition DecodeDcsGeneralGroupPdu :: "u8 \<Rightarrow> SmsDcs \<Rightarrow> SmsDcs" where
  "DecodeDcsGeneralGroupPdu dcs smsDcs = smsDcs\<lparr>
     codingGroup := CODING_GENERAL_GROUP, bCompressed := drop_bit 5 (dcs AND 0x20) \<noteq> 0,
     codingScheme := GetMsgCodingScheme (drop_bit 2 (dcs AND 0x0C)),
     msgClass := (if drop_bit 4 (dcs AND 0x10) = 0 then SMS_CLASS_UNKNOWN else GetMsgClass (dcs AND 0x03))\<rparr>"

definition DecodeDcsClassGroupPdu :: "u8 \<Rightarrow> SmsDcs \<Rightarrow> SmsDcs" where
  "DecodeDcsClassGroupPdu dcs smsDcs = smsDcs\<lparr>
     codingGroup := SMS_CLASS_GROUP, bCompressed := False,
     codingScheme := GetMsgCodingScheme (drop_bit 2 (dcs AND 0x0C)), msgClass := GetMsgClass (dcs AND 0x03)\<rparr>"

definition DecodeDcsDeleteGroupPdu :: "u8 \<Rightarrow> SmsDcs \<Rightarrow> SmsDcs" where
  "DecodeDcsDeleteGroupPdu dcs smsDcs = smsDcs\<lparr>
     codingGroup := CODING_DELETION_GROUP, bCompressed := False, msgClass := SMS_CLASS_UNKNOWN\<rparr>"

definition DecodeDcsDiscardGroupPdu :: "u8 \<Rightarrow> SmsDcs \<Rightarrow> SmsDcs" where
  "DecodeDcsDiscardGroupPdu dcs smsDcs = GetMwiType dcs (smsDcs\<lparr>codingGroup := CODING_DISCARD_GROUP\<rparr>)"

definition DecodeDcsStoreGsmGroupPdu :: "u8 \<Rightarrow> SmsDcs \<Rightarrow> SmsDcs" where
  "DecodeDcsStoreGsmGroupPdu dcs smsDcs =
     GetMwiType dcs (smsDcs\<lparr>codingGroup := CODING_STORE_GROUP, codingScheme := DATA_CODING_7BIT\<rparr>)"

definition DecodeDcsStoreUCS2GroupPdu :: "u8 \<Rightarrow> SmsDcs \<Rightarrow> SmsDcs" where
  "DecodeDcsStoreUCS2GroupPdu dcs smsDcs =
     GetMwiType dcs (smsDcs\<lparr>codingGroup := CODING_STORE_GROUP, codingScheme := DATA_CODING_UCS2\<rparr>)"

definition DecodeDcsUnknownGroupPdu :: "u8 \<Rightarrow> SmsDcs \<Rightarrow> SmsDcs" where
  "DecodeDcsUnknownGroupPdu dcs smsDcs = smsDcs\<lparr>
     codingGroup := CODING_UNKNOWN_GROUP, bCompressed := drop_bit 5 (dcs AND 0x20) \<noteq> 0,
     codingScheme := GetMsgCodingScheme (drop_bit 2 (dcs AND 0x0C)), msgClass := SMS_CLASS_UNKNOWN\<rparr>"

text \<open>The octet's effect on the struct, and the method that reads the octet.\<close>

definition decode_dcs :: "u8 \<Rightarrow> SmsDcs \<Rightarrow> SmsDcs" where
  "decode_dcs dcs smsDcs0 =
     (let smsDcs = smsDcs0\<lparr>bMWI := False, bIndActive := False, indType := SMS_OTHER_INDICATOR\<rparr>
      in if drop_bit 6 (dcs AND 0xC0) = 0 then DecodeDcsGeneralGroupPdu dcs smsDcs
         else if drop_bit 4 (dcs AND 0xF0) = 0x0F then DecodeDcsClassGroupPdu dcs smsDcs
         else if drop_bit 6 (dcs AND 0xC0) = 0x01 then DecodeDcsDeleteGroupPdu dcs smsDcs
         else if drop_bit 4 (dcs AND 0xF0) = 0x0C then DecodeDcsDiscardGroupPdu dcs smsDcs
         else if drop_bit 4 (dcs AND 0xF0) = 0x0D then DecodeDcsStoreGsmGroupPdu dcs smsDcs
         else if drop_bit 4 (dcs AND 0xF0) = 0x0E then DecodeDcsStoreUCS2GroupPdu dcs smsDcs
         else DecodeDcsUnknownGroupPdu dcs smsDcs)"

definition DecodeDcsPdu :: "(SmsReadBuffer \<times> SmsDcs, unit) op" where
  "DecodeDcsPdu = bnd (on_buf ReadByte) (\<lambda>dcs. on_out (decode_dcs dcs))"

section \<open>Time stamps\<close>

text \<open>Each of the fields is picked, read and combined the same way.\<close>

definition time_value :: "u8 \<Rightarrow> u8 \<Rightarrow> u8" where
  "time_value pickByte oneByte = (pickByte AND 0x0F) * 0x0A + drop_bit 4 (oneByte AND 0xF0)"

definition decode_time_field :: "(u8 \<Rightarrow> SmsTimeAbs \<Rightarrow> SmsTimeAbs) \<Rightarrow> (SmsReadBuffer \<times> SmsTimeStamp, unit) op" where
  "decode_time_field put =
     bnd (on_buf PickOneByte) (\<lambda>pickByte.
     bnd (on_buf ReadByte) (\<lambda>oneByte.
     on_out (\<lambda>t. t\<lparr>ts_absolute := put (time_value pickByte oneByte) (ts_absolute t)\<rparr>)))"

definition DecodeTimePduData :: "(SmsReadBuffer \<times> SmsTimeStamp, unit) op" where
  "DecodeTimePduData =
     seq (decode_time_field (\<lambda>v a. a\<lparr>ta_second := v\<rparr>)) (
     bnd (on_buf PickOneByte) (\<lambda>pickByte.
     bnd (on_buf PickOneByte) (\<lambda>oneByte.
     seq (on_out (\<lambda>t. t\<lparr>ts_absolute := (ts_absolute t)\<lparr>ta_timeZone :=
            int (unat (pickByte AND 0x07)) * 10 + int (unat (drop_bit 4 (oneByte AND 0xF0)))\<rparr>\<rparr>)) (
     bnd (on_buf ReadByte) (\<lambda>oneByte.
     if oneByte AND 0x08 \<noteq> 0 then
       on_out (\<lambda>t. t\<lparr>ts_absolute := (ts_absolute t)\<lparr>ta_timeZone := - ta_timeZone (ts_absolute t)\<rparr>\<rparr>)
     else ret ())))))"

definition DecodeTimePduPartData :: "(SmsReadBuffer \<times> SmsTimeStamp, unit) op" where
  "DecodeTimePduPartData =
     seq (decode_time_field (\<lambda>v a. a\<lparr>ta_day := v\<rparr>)) (
     seq (decode_time_field (\<lambda>v a. a\<lparr>ta_hour := v\<rparr>)) (
     seq (decode_time_field (\<lambda>v a. a\<lparr>ta_minute := v\<rparr>))
       DecodeTimePduData))"

definition DecodeTimePdu :: "(SmsReadBuffer \<times> SmsTimeStamp, unit) op" where
  "DecodeTimePdu =
     seq (on_out (\<lambda>t. t\<lparr>ts_format := SMS_TIME_ABSOLUTE\<rparr>)) (
     seq (decode_time_field (\<lambda>v a. a\<lparr>ta_year := v\<rparr>)) (
     seq (decode_time_field (\<lambda>v a. a\<lparr>ta_month := v\<rparr>))
       DecodeTimePduPartData))"

section \<open>Voicemail\<close>

text \<open>The struct is the pair of \<^verbatim>\<open>*setType\<close> and \<^verbatim>\<open>*indType\<close>.\<close>

definition CheckVoicemail :: "(SmsReadBuffer \<times> int \<times> int, unit) op" where
  "CheckVoicemail =
     bnd (on_buf ReadByte) (\<lambda>oneByte.
     if oneByte \<noteq> 0x04 then seq (on_buf (MoveBack 1)) fail
     else bnd (on_buf ReadByte) (\<lambda>oneByte.
     if oneByte \<noteq> 0xD0 then seq (on_buf (MoveBack 1)) fail
     else bnd (on_buf PickOneByte) (\<lambda>oneByte.
     bnd (on_buf PickOneByte) (\<lambda>nextByte.
     if oneByte = 0x11 \<or> nextByte = 0x10 then
       bnd (on_buf ReadByte) (\<lambda>oneByte.
       seq (on_out (\<lambda>v. (int (unat (oneByte AND 0x01)), snd v))) (
       bnd (attempt (on_buf PickOneByte)) (\<lambda>r.
       case r of
         None \<Rightarrow> seq (on_buf (MoveBack 1)) fail
       | Some oneByte \<Rightarrow> on_out (\<lambda>v. (fst v, int (unat (oneByte AND 0x01)))))))
     else fail))))"

section \<open>Memory safety and the invariant\<close>

definition wf_address :: "AddressNumber \<Rightarrow> bool" where
  "wf_address num \<longleftrightarrow> length (address num) = SMS_MAX_ADDRESS_LEN + 1"

abbreviation wf_with :: "('o \<Rightarrow> bool) \<Rightarrow> SmsReadBuffer \<times> 'o \<Rightarrow> bool" where
  "wf_with J \<equiv> \<lambda>s. wf_pdu (fst s) \<and> J (snd s)"

lemma GetUCS2Value_no_escape:
  assumes "c \<noteq> 0x1B"
  shows "ucast (GetUCS2Value (unat (c :: u8))) \<noteq> (0x1B :: u8)"
  using escape_unique(2) [OF _ assms] by (auto simp: GetUCS2Value_def word_less_nat_alt)

definition no_escape_chars :: "bytes \<Rightarrow> bool" where
  "no_escape_chars d \<longleftrightarrow> length d = MAX_ADDRESS_LEN \<and> 0x1B \<notin> set d"

lemma keeps_put_no_escape:
  assumes "i \<le> 19" "v \<noteq> 0x1B"
  shows "keeps no_escape_chars (put_at i v)"
proof (rule keepsI)
  fix d
  assume "no_escape_chars d"
  moreover from this have "0x1B \<notin> set (d[i := v])"
    using set_update_subset_insert [of d i v] assms(2) by (auto simp: no_escape_chars_def)
  ultimately show "case put_at i v d of Ok x t \<Rightarrow> no_escape_chars t | Fail t \<Rightarrow> no_escape_chars t | Fault \<Rightarrow> False"
    using assms(1) by (simp add: put_at_def no_escape_chars_def MAX_ADDRESS_LEN_def)
qed

text \<open>Position 20 is read before the bound is checked; the 22 octets are enough for it.\<close>

lemma keeps_middle_septet:
  assumes "length buffer = 22" "i \<le> 20"
  shows "keeps I (middle_septet buffer i)"
proof -
  have "7 * i div 8 + 1 < 22" using assms(2) by auto
  with assms show ?thesis
    by (auto simp: middle_septet_def Let_def to_u8_def intro!: keeps_bnd keeps_rd_at keeps_ret)
qed

lemma keeps_middle_loop:
  "length buffer = 22 \<Longrightarrow> i \<le> 20 \<Longrightarrow> keeps no_escape_chars (middle_loop buffer i n flag)"
  by (induction buffer i n flag rule: middle_loop.induct)
    (auto intro!: keeps_ret keeps_bnd keeps_middle_septet keeps_ensure_seq keeps_if keeps_seq
      keeps_put_no_escape simp: GetUCS2Value_no_escape split: if_splits)

lemma keeps_Unpack7bitCharForMiddlePart:
  "length buffer = 22 \<Longrightarrow> keeps no_escape_chars (Unpack7bitCharForMiddlePart buffer n)"
  unfolding Unpack7bitCharForMiddlePart_def by (intro keeps_seq keeps_ensure keeps_middle_loop) simp_all

lemma keeps_DecodeAddressAlphaNum:
  assumes "iconv_bounded ic" "addrLen < 44"
  shows "keeps (wf_with wf_address) (DecodeAddressAlphaNum ic wsize addrLen)"
proof -
  have conv: "keeps (wf_with wf_address) (on_part address (\<lambda>a num. num\<lparr>address := a\<rparr>)
      (Gsm7bitToUtf8 ic wsize (int MAX_ADDRESS_LEN) t k
        \<lparr>bSingleShift = False, bLockingShift = False, singleLang = 0, lockingLang = 0\<rparr>))"
    if "no_escape_chars t" for t k
  proof (rule keeps_on_part [where K = "len_is 22"])
    show "keeps (len_is 22) (Gsm7bitToUtf8 ic wsize (int MAX_ADDRESS_LEN) t k
        \<lparr>bSingleShift = False, bLockingShift = False, singleLang = 0, lockingLang = 0\<rparr>)"
      using assms(1) that
      by (intro keeps_Gsm7bitToUtf8) (auto simp: no_stray_octet_def no_escape_chars_def MAX_ADDRESS_LEN_def)
  qed (simp_all add: wf_address_def SMS_MAX_ADDRESS_LEN_def)
  have start: "no_escape_chars (replicate MAX_ADDRESS_LEN 0)" by (simp add: no_escape_chars_def)
  show ?thesis unfolding DecodeAddressAlphaNum_def Let_def
    by (intro keeps_bnd keeps_collect_bnd keeps_with_new_bnd [where J = no_escape_chars] keeps_Unpack7bitCharForMiddlePart start
        keeps_on_buf keeps_wf_ReadByte keeps_if keeps_ret)
      (use assms(2) conv in \<open>auto simp: MAX_ADDRESS_LEN_def write_at_def bcd_len_def intro!: keeps_bnd keeps_ret split: if_splits\<close>)
qed

lemma keeps_read_bcd:
  assumes "bcdLen \<le> 22"
  shows "keeps (wf_with wf_address) (read_bcd bcdLen)"
  unfolding read_bcd_def Let_def
  by (intro keeps_seq keeps_collect_bnd keeps_on_buf keeps_wf_ReadByte keeps_wf_MoveForward)
    (use assms in \<open>auto simp: MAX_ADDRESS_LEN_def write_at_def intro!: keeps_ret keeps_fail split: prod.splits\<close>)

lemma wf_set_address: "wf_address num \<Longrightarrow> wf_address (set_address s num)"
  by (simp add: wf_address_def set_address_def write_at_def MAX_ADDRESS_LEN_def SMS_MAX_ADDRESS_LEN_def)

lemma keeps_DecodeAddressPdu [keeps_intros]:
  assumes "iconv_bounded ic"
  shows "keeps (wf_with wf_address) (DecodeAddressPdu ic wsize)"
  unfolding DecodeAddressPdu_def DecodeAddressInternationalNum_def DecodeAddressDefaultNum_def Let_def
  by (intro keeps_seq keeps_ensure_seq keeps_bnd keeps_on_out keeps_on_buf keeps_wf_ReadByte keeps_wf_PickOneByte
      keeps_if keeps_DecodeAddressAlphaNum [OF assms] keeps_read_bcd wf_set_address)
    (auto simp: wf_address_def MAX_ADDRESS_LEN_def bcd_len_def)

lemma keeps_DecodeDcsPdu [keeps_intros]: "keeps (wf_with (\<lambda>_. True)) DecodeDcsPdu"
  unfolding DecodeDcsPdu_def by (intro keeps_bnd keeps_on_buf keeps_on_out keeps_wf_ReadByte)

lemma keeps_decode_time_field: "keeps (wf_with (\<lambda>_. True)) (decode_time_field put)"
  unfolding decode_time_field_def
  by (intro keeps_bnd keeps_on_buf keeps_on_out keeps_wf_ReadByte keeps_wf_PickOneByte)

lemma keeps_DecodeTimePdu [keeps_intros]: "keeps (wf_with (\<lambda>_. True)) DecodeTimePdu"
  unfolding DecodeTimePdu_def DecodeTimePduPartData_def DecodeTimePduData_def
  by (intro keeps_seq keeps_bnd keeps_if keeps_ret keeps_on_buf keeps_on_out keeps_wf_ReadByte
      keeps_wf_PickOneByte keeps_decode_time_field)

lemma keeps_CheckVoicemail: "keeps (wf_with (\<lambda>_. True)) CheckVoicemail"
  unfolding CheckVoicemail_def
  by (intro keeps_seq keeps_bnd keeps_if keeps_ret keeps_fail keeps_attempt keeps_option keeps_on_buf keeps_on_out
      keeps_wf_ReadByte keeps_wf_PickOneByte keeps_wf_MoveBack)

lemma keeps_DecodeSmscPdu: "keeps wf_address (DecodeSmscPdu pdu)"
  unfolding DecodeSmscPdu_def Let_def
  by (auto intro!: keeps_ret keeps_seq keeps_bnd keeps_upd keeps_rd_at keeps_if wf_set_address simp: wf_address_def)

section \<open>Addresses come back\<close>

lemma each_push_back: "each push_back xs s = Ok () (s @ xs)"
  by (induction xs arbitrary: s) (simp_all add: ret_def seq_def bnd_def push_back_def)

lemma c_str_padded: "0 \<notin> set ds \<Longrightarrow> c_str (ds @ replicate n 0) = ds"
  by (induction ds) (auto simp: c_str_def takeWhile_replicate)

lemma bcd_char_nonzero: "bcd_char c \<Longrightarrow> c \<noteq> 0" and bcd_char_no_plus: "bcd_char c \<Longrightarrow> c \<noteq> 0x2B"
  by (auto simp: bcd_char_def)

lemma EncodeAddressDigits_octets:
  assumes "\<forall>c \<in> set ds. bcd_char c" "length ds \<le> 20"
  shows "EncodeAddressDigits ds t n [l] = Ok () ([l, 0x80 + push_bit 4 t + n] @ bcd_octets ds)"
proof -
  have "DigitToBcd ds (replicate 12 0) 0 =
      Some (length (bcd_octets ds), bcd_octets ds @ replicate (12 - length (bcd_octets ds)) 0)"
    using assms by (intro DigitToBcd_octets) auto
  moreover have "length (bcd_octets ds) \<le> 10" using assms by (simp add: length_bcd_octets)
  ultimately show ?thesis
    by (simp add: EncodeAddressDigits_def MAX_ADD_PARAM_LEN_def op_simps push_back_def each_push_back)
qed

lemma EncodeAddressPdu_national:
  assumes "\<forall>c \<in> set ds. bcd_char c" "length ds \<le> 20"
  shows "EncodeAddressPdu \<lparr>ton = t, npi = n, address = ds @ replicate (22 - length ds) 0\<rparr> [] =
    Ok () ([word_of_nat (length ds), 0x80 + push_bit 4 t + n] @ bcd_octets ds)"
proof -
  have "0 \<notin> set ds" "ds \<noteq> [] \<Longrightarrow> hd ds \<noteq> 0x2B"
    using assms bcd_char_nonzero bcd_char_no_plus by fastforce+
  then show ?thesis using assms EncodeAddressDigits_octets [OF assms, of t n "word_of_nat (length ds)"]
    by (auto simp: EncodeAddressPdu_def Let_def c_str_padded MAX_SMSC_LEN_def op_simps push_back_def)
qed

lemma EncodeAddressPdu_international:
  assumes "\<forall>c \<in> set ds. bcd_char c" "ds \<noteq> []" "length ds \<le> 19"
  shows "EncodeAddressPdu \<lparr>ton = t, npi = n, address = (0x2B # ds) @ replicate (21 - length ds) 0\<rparr> [] =
    Ok () ([word_of_nat (length ds), 0x90 + n] @ bcd_octets ds)"
proof -
  have "0 \<notin> set (0x2B # ds)" using assms bcd_char_nonzero by fastforce
  from c_str_padded [OF this] show ?thesis
    using assms EncodeAddressDigits_octets [OF assms(1), of 1 n "word_of_nat (length ds)"]
    by (simp add: EncodeAddressPdu_def Let_def MAX_SMSC_LEN_def op_simps push_back_def)
qed

lemma ton_npi_octet:
  assumes "t < 8" "n < 16"
  shows "drop_bit 4 ((0x80 + push_bit 4 t + n) AND 0x70) = (t :: u8)"
proof -
  have t: "unat t < 8" and n: "unat n < 16" using assms by (simp_all add: word_less_nat_alt)
  have m: "drop_bit 4 (w AND 0x70) = take_bit 3 (drop_bit 4 w)" for w :: u8
    by (simp add: take_bit_eq_mask mask_eq_exp_minus_1)
  have d: "(128 + 16 * a + b) div 16 mod 8 = a" if "a < 8" "b < 16" for a b :: nat
  proof -
    have "128 + 16 * a + b = b + (8 + a) * 16" by simp
    then have "(128 + 16 * a + b) div 16 = 8 + a + b div 16" by (simp only: div_mult_self1)
    with that show ?thesis by simp
  qed
  have "unat (0x80 + push_bit 4 t + n) = 128 + 16 * unat t + unat n"
    using t n by (simp add: unat_word_ariths unat_push_bit_u8)
  then have "unat (take_bit 3 (drop_bit 4 (0x80 + push_bit 4 t + n))) = unat t"
    using d [OF t n] unfolding unsigned_take_bit_eq by (simp add: take_bit_eq_mod unat_drop_bit_u8)
  then show ?thesis unfolding m by (rule word_unat_eq_iff [THEN iffD2])
qed

lemma on_buf_collect:
  "collect f i n b = Ok xs b' \<Longrightarrow> collect (\<lambda>j. on_buf (f j)) i n (b, x) = Ok xs (b', x)"
  by (induction n arbitrary: i b xs) (auto simp: ret_def bnd_def on_buf_def split: outcome.splits)

lemma bcd_len_eq: "bcd_len n = (n + 1) div 2"
  by (auto simp: bcd_len_def odd_iff_mod_2_eq_one)

lemma bcd_len_octets: "bcd_len (length ds) = length (bcd_octets ds)"
  by (simp add: bcd_len_eq length_bcd_octets)

lemma read_bcd_zb:
  assumes "\<forall>c \<in> set ds. bcd_char c" "ds \<noteq> []" "length ds \<le> 20"
    and "length p + 1 + length (bcd_octets ds) + length rest \<le> 256"
  shows "read_bcd (length (bcd_octets ds)) (zb p (x # bcd_octets ds @ rest), num) =
    Ok ds (zb (rev (bcd_octets ds) @ x # p) rest, num)"
proof -
  let ?n = "length (bcd_octets ds)"
  have n: "?n \<le> 10" "bcd_octets ds \<noteq> []" using assms(2,3)
    by (simp_all add: length_bcd_octets flip: length_greater_0_conv)
  have "collect (\<lambda>_. ReadByte) 0 ?n (zb (x # p) (bcd_octets ds @ rest)) =
      Ok (bcd_octets ds) (zb (rev (bcd_octets ds) @ x # p) rest)"
    using collect_ReadByte_zb [of ?n "bcd_octets ds @ rest" "x # p" 0] assms(4) by simp
  from on_buf_collect [OF this, of num]
  have "collect (\<lambda>_. on_buf ReadByte) 0 ?n (zb (x # p) (bcd_octets ds @ rest), num) =
      Ok (bcd_octets ds) (zb (rev (bcd_octets ds) @ x # p) rest, num)" .
  moreover have "bcd_to_digit_loop (bcd_octets ds) [] 21 = (True, ds)"
  proof (rule bcd_to_digit_octets [OF assms(1), of "[]" 21, simplified])
    show "2 * (Suc (length ds) div 2) < 21" using assms(3) by presburger
  qed
  ultimately show ?thesis using n
    by (simp add: read_bcd_def op_simps zb_simps MAX_ADDRESS_LEN_def SMS_MAX_ADDRESS_LEN_def min_def
        write_at_def BcdToDigit_def)
qed

lemma DecodeAddressPdu_digits:
  assumes ds: "\<forall>c \<in> set ds. bcd_char c" "ds \<noteq> []" "length ds \<le> 20"
    and t: "t < 8" "t \<noteq> TYPE_ALPHA_NUMERIC" "n < 16"
    and room: "length p + 2 + length (bcd_octets ds) + length rest \<le> 256"
  shows "DecodeAddressPdu ic w (zb p (word_of_nat (length ds) # (0x80 + push_bit 4 t + n) # bcd_octets ds @ rest), num) =
    Ok () (zb (rev (bcd_octets ds) @ (0x80 + push_bit 4 t + n) # word_of_nat (length ds) # p) rest,
      set_address (if t = TYPE_INTERNATIONAL then regProcessSmsAddrs ds else ds)
        (num\<lparr>address := replicate 22 0, ton := t\<rparr>))"
proof -
  have len: "unat (word_of_nat (length ds) :: u8) = length ds" using ds(3) by (simp add: unat_of_nat)
  show ?thesis
    using ds(3) t ton_npi_octet [OF t(1,3)] len
      read_bcd_zb [OF ds, of "word_of_nat (length ds) # p" rest "0x80 + push_bit 4 t + n"] room
    by (cases "t = 1")
      (simp_all add: DecodeAddressPdu_def DecodeAddressInternationalNum_def DecodeAddressDefaultNum_def Let_def
        op_simps zb_simps MAX_ADDRESS_LEN_def SMS_MAX_ADDRESS_LEN_def bcd_len_octets)
qed

lemma set_address_fresh:
  "length s \<le> 21 \<Longrightarrow> set_address s (num\<lparr>address := replicate 22 0, ton := t\<rparr>) =
     num\<lparr>address := s @ replicate (22 - length s) 0, ton := t\<rparr>"
  by (simp add: set_address_def write_at_def MAX_ADDRESS_LEN_def)

lemma no_marks: "\<forall>c \<in> set ds. \<not> is_mark c \<Longrightarrow> split_mark ds = None"
  by (induction ds) auto

lemma regProcessSmsAddrs_digits:
  assumes "\<forall>c \<in> set ds. 0x30 \<le> c \<and> c \<le> 0x39" "ds \<noteq> []"
  shows "regProcessSmsAddrs ds = 0x2B # ds"
proof -
  have "\<forall>c \<in> set ds. \<not> is_mark c" using assms(1) by (auto simp: is_mark_def)
  then show ?thesis using assms(2) by (cases ds) (simp_all add: regProcessSmsAddrs_def no_marks)
qed

text \<open>
  Round trip of an address that is not alphanumeric and not international: any non-empty string
  of up to 20 digits, \<^verbatim>\<open>*\<close> and \<^verbatim>\<open>#\<close> is encoded, and decoding the octets, wherever they stand in a PDU, gives
  back the type of number and the string, padded with NUL, and consumes exactly those octets.
\<close>

theorem address_roundtrip:
  assumes "\<forall>c \<in> set ds. bcd_char c" "ds \<noteq> []" "length ds \<le> 20"
    and "t < 8" "t \<noteq> TYPE_ALPHA_NUMERIC" "t \<noteq> TYPE_INTERNATIONAL" "n < 16"
    and "length p + 12 + length rest \<le> 256"
  shows "\<exists>out. EncodeAddressPdu \<lparr>ton = t, npi = n, address = ds @ replicate (22 - length ds) 0\<rparr> [] = Ok () out \<and>
    DecodeAddressPdu ic w (zb p (out @ rest), num) =
      Ok () (zb (rev out @ p) rest, num\<lparr>address := ds @ replicate (22 - length ds) 0, ton := t\<rparr>)"
proof -
  have "length (bcd_octets ds) \<le> 10" using assms(3) by (simp add: length_bcd_octets)
  then show ?thesis
    using EncodeAddressPdu_national [OF assms(1,3), of t n]
      DecodeAddressPdu_digits [OF assms(1-5) assms(7), of p rest ic w num] assms
    by (auto simp: set_address_fresh)
qed

theorem address_roundtrip_witness:
  "\<exists>out. EncodeAddressPdu \<lparr>ton = 2, npi = 1, address = [0x31, 0x30, 0x2A] @ replicate (22 - length [0x31, 0x30, 0x2A :: u8]) 0\<rparr> [] = Ok () out \<and>
    DecodeAddressPdu (\<lambda>_ _. None) 8 (zb [1] (out @ [7, 7]), \<lparr>ton = 0, npi = 0, address = []\<rparr>) =
      Ok () (zb (rev out @ [1]) [7, 7],
        \<lparr>ton = 0, npi = 0, address = []\<rparr>\<lparr>address := [0x31, 0x30, 0x2A] @ replicate (22 - length [0x31, 0x30, 0x2A :: u8]) 0, ton := 2\<rparr>)"
  by (rule address_roundtrip) (simp_all add: bcd_char_def)

text \<open>
  Round trip of an international number: a plus sign and up to 19 decimal digits lose the sign in
  the octets, which carry the type of number instead, and get it back from \<^verbatim>\<open>regProcessSmsAddrs\<close>.
\<close>

theorem international_roundtrip:
  assumes "\<forall>c \<in> set ds. 0x30 \<le> c \<and> c \<le> 0x39" "ds \<noteq> []" "length ds \<le> 19" "n < 16"
    and "length p + 12 + length rest \<le> 256"
  shows "\<exists>out. EncodeAddressPdu \<lparr>ton = t, npi = n, address = (0x2B # ds) @ replicate (21 - length ds) 0\<rparr> [] = Ok () out \<and>
    DecodeAddressPdu ic w (zb p (out @ rest), num) =
      Ok () (zb (rev out @ p) rest,
        num\<lparr>address := (0x2B # ds) @ replicate (21 - length ds) 0, ton := TYPE_INTERNATIONAL\<rparr>)"
proof -
  have ds: "\<forall>c \<in> set ds. bcd_char c" using assms(1) by (simp add: bcd_char_def)
  have "length (bcd_octets ds) \<le> 10" using assms(3) by (simp add: length_bcd_octets)
  with regProcessSmsAddrs_digits [OF assms(1,2)] show ?thesis
    using EncodeAddressPdu_international [OF ds assms(2,3), of t n]
      DecodeAddressPdu_digits [OF ds assms(2), of 1 n p rest ic w num] assms
    by (auto simp: set_address_fresh)
qed

theorem international_roundtrip_witness:
  "\<exists>out. EncodeAddressPdu \<lparr>ton = 0, npi = 1, address = (0x2B # [0x38, 0x36]) @ replicate (21 - length [0x38, 0x36 :: u8]) 0\<rparr> [] = Ok () out \<and>
    DecodeAddressPdu (\<lambda>_ _. None) 8 (zb [] (out @ [7]), \<lparr>ton = 0, npi = 0, address = []\<rparr>) =
      Ok () (zb (rev out @ []) [7], \<lparr>ton = 0, npi = 0, address = []\<rparr>
        \<lparr>address := (0x2B # [0x38, 0x36]) @ replicate (21 - length [0x38, 0x36 :: u8]) 0, ton := TYPE_INTERNATIONAL\<rparr>)"
  by (rule international_roundtrip) simp_all

end
