(* ===== verification/Gsm_User_Data.thy ===== *)
theory Gsm_User_Data
  imports Gsm_Param_Codec
begin

text \<open>
  \<^verbatim>\<open>gsm_user_data_pdu.cpp\<close>, \<^verbatim>\<open>gsm_user_data_encode.cpp\<close> and \<^verbatim>\<open>gsm_user_data_decode.cpp\<close> under
  \<^verbatim>\<open>services/sms/gsm\<close>: the user data of a PDU, with its headers, in the 7-bit, 8-bit and UCS-2 schemes.
\<close>

section \<open>Types\<close>

record SmsConcat8Bit =
  c8_msgRef :: u8
  c8_totalSeg :: u8
  c8_seqNum :: u8

record SmsConcat16Bit =
  c16_msgRef :: u16
  c16_totalSeg :: u8
  c16_seqNum :: u8

record SmsAppPort8Bits =
  p8_destPort :: u8
  p8_originPort :: u8

record SmsAppPort16Bit =
  p16_destPort :: u16
  p16_originPort :: u16

record SmsSpecialIndication =
  si_bStore :: bool
  si_msgInd :: u16
  si_waitMsgNum :: u16

text \<open>
  The union of a header: the member written last, or the zeroed memory of a fresh struct. A member
  of a zeroed union reads as zeros; reading another member than the one written is undefined.
\<close>

datatype UdhUnion =
  UdhZero
| UdhConcat8bit SmsConcat8Bit
| UdhConcat16bit SmsConcat16Bit
| UdhAppPort8bit SmsAppPort8Bits
| UdhAppPort16bit SmsAppPort16Bit
| UdhSpecialInd SmsSpecialIndication
| UdhSingleShift u8
| UdhLockingShift u8
| UdhAlternateAddress AddressNumber

record SmsUDH =
  udhType :: u8
  udh :: UdhUnion

record SmsUDPackage =
  headerCnt :: u8
  ud_header :: "SmsUDH list"
  ud_length :: u8
  ud_data :: bytes

record SmsTpud =
  tpud_udl :: u8
  tpud_ud :: bytes

abbreviation (input) "UDH_CONCAT_8BIT \<equiv> 0x00 :: u8"
abbreviation (input) "UDH_SPECIAL_SMS \<equiv> 0x01 :: u8"
abbreviation (input) "UDH_APP_PORT_8BIT \<equiv> 0x04 :: u8"
abbreviation (input) "UDH_APP_PORT_16BIT \<equiv> 0x05 :: u8"
abbreviation (input) "UDH_CONCAT_16BIT \<equiv> 0x08 :: u8"
abbreviation (input) "UDH_ALTERNATE_REPLY_ADDRESS \<equiv> 0x22 :: u8"
abbreviation (input) "UDH_SINGLE_SHIFT \<equiv> 0x24 :: u8"
abbreviation (input) "UDH_LOCKING_SHIFT \<equiv> 0x25 :: u8"

definition zero_concat8 :: SmsConcat8Bit where
  "zero_concat8 = \<lparr>c8_msgRef = 0, c8_totalSeg = 0, c8_seqNum = 0\<rparr>"

definition zero_concat16 :: SmsConcat16Bit where
  "zero_concat16 = \<lparr>c16_msgRef = 0, c16_totalSeg = 0, c16_seqNum = 0\<rparr>"

definition zero_port8 :: SmsAppPort8Bits where
  "zero_port8 = \<lparr>p8_destPort = 0, p8_originPort = 0\<rparr>"

definition zero_port16 :: SmsAppPort16Bit where
  "zero_port16 = \<lparr>p16_destPort = 0, p16_originPort = 0\<rparr>"

definition zero_special :: SmsSpecialIndication where
  "zero_special = \<lparr>si_bStore = False, si_msgInd = 0, si_waitMsgNum = 0\<rparr>"

definition zero_address :: AddressNumber where
  "zero_address = \<lparr>ton = 0, npi = 0, address = replicate (SMS_MAX_ADDRESS_LEN + 1) 0\<rparr>"

definition zero_udh :: SmsUDH where
  "zero_udh = \<lparr>udhType = 0, udh = UdhZero\<rparr>"

definition zero_ud :: SmsUDPackage where
  "zero_ud = \<lparr>headerCnt = 0, ud_header = replicate MAX_UD_HEADER_NUM zero_udh, ud_length = 0,
     ud_data = replicate (MAX_USER_DATA_LEN + 1) 0\<rparr>"

section \<open>Encoding headers\<close>

text \<open>
  The functions are \<^verbatim>\<open>void\<close>: \<open>fail\<close> is their early \<^verbatim>\<open>return\<close>, which the callers do not see.
\<close>

definition EncodeHeaderConcat8Bit :: "SmsUDH \<Rightarrow> (SmsWriteBuffer, unit) op" where
  "EncodeHeaderConcat8Bit header =
     (case (case udh header of UdhConcat8bit c \<Rightarrow> Some c | UdhZero \<Rightarrow> Some zero_concat8 | _ \<Rightarrow> None) of
        None \<Rightarrow> fault
      | Some c \<Rightarrow>
          seq (WriteByte UDH_CONCAT_8BIT) (
          seq (WriteByte 0x03) (
          seq (WriteByte (c8_msgRef c)) (
          seq (WriteByte (c8_totalSeg c)) (
          WriteByte (c8_seqNum c))))))"

definition EncodeHeaderConcat16Bit :: "SmsUDH \<Rightarrow> (SmsWriteBuffer, unit) op" where
  "EncodeHeaderConcat16Bit header =
     (case (case udh header of UdhConcat16bit c \<Rightarrow> Some c | UdhZero \<Rightarrow> Some zero_concat16 | _ \<Rightarrow> None) of
        None \<Rightarrow> fault
      | Some c \<Rightarrow>
          seq (WriteByte UDH_CONCAT_16BIT) (
          seq (WriteByte 0x04) (
          seq (WriteByte (ucast (drop_bit 8 (c16_msgRef c)))) (
          seq (WriteByte (ucast (c16_msgRef c AND 0x00FF))) (
          seq (WriteByte (c16_totalSeg c)) (
          WriteByte (c16_seqNum c)))))))"

definition EncodeHeaderConcat :: "SmsUDH \<Rightarrow> (SmsWriteBuffer, unit) op" where
  "EncodeHeaderConcat header =
     (if udhType header = UDH_CONCAT_8BIT then EncodeHeaderConcat8Bit header
      else if udhType header = UDH_CONCAT_16BIT then EncodeHeaderConcat16Bit header
      else ret ())"

definition EncodeHeaderAppPort8bit :: "SmsUDH \<Rightarrow> (SmsWriteBuffer, unit) op" where
  "EncodeHeaderAppPort8bit header =
     (case (case udh header of UdhAppPort8bit p \<Rightarrow> Some p | UdhZero \<Rightarrow> Some zero_port8 | _ \<Rightarrow> None) of
        None \<Rightarrow> fault
      | Some p \<Rightarrow>
          seq (WriteByte UDH_APP_PORT_8BIT) (
          seq (WriteByte 0x02) (
          seq (WriteByte (p8_destPort p)) (
          WriteByte (p8_originPort p)))))"

definition EncodeHeaderAppPort16bit :: "SmsUDH \<Rightarrow> (SmsWriteBuffer, unit) op" where
  "EncodeHeaderAppPort16bit header =
     (case (case udh header of UdhAppPort16bit p \<Rightarrow> Some p | UdhZero \<Rightarrow> Some zero_port16 | _ \<Rightarrow> None) of
        None \<Rightarrow> fault
      | Some p \<Rightarrow>
          seq (WriteByte UDH_APP_PORT_16BIT) (
          seq (WriteByte 0x04) (
          seq (WriteByte (ucast (drop_bit 8 (p16_destPort p)))) (
          seq (WriteByte (ucast (p16_destPort p AND 0x00FF))) (
          seq (WriteByte (ucast (drop_bit 8 (p16_originPort p)))) (
          WriteByte (ucast (p16_originPort p AND 0x00FF))))))))"

text \<open>The address is copied at the cursor, and the cursor stays where it is.\<close>

definition EncodeHeaderReplyAddress :: "SmsUDH \<Rightarrow> (SmsWriteBuffer, unit) op" where
  "EncodeHeaderReplyAddress header =
     (case (case udh header of UdhAlternateAddress a \<Rightarrow> Some a | UdhZero \<Rightarrow> Some zero_address | _ \<Rightarrow> None) of
        None \<Rightarrow> fault
      | Some a \<Rightarrow>
          seq (WriteByte UDH_ALTERNATE_REPLY_ADDRESS) (
          bnd (with_new [] (EncodeAddressPdu a)) (\<lambda>(_, encodedAddr).
          let addrLen = to_u8 (length encodedAddr)
          in seq (WriteByte (word_of_nat addrLen)) (
             bnd (gets (\<lambda>b. IsEmpty b \<or> GetIndex b + addrLen > GetSize b)) (\<lambda>bad.
             seq (ensure (\<not> bad)) (CopyIn addrLen (take addrLen encodedAddr)))))))"

definition EncodeHeaderShift :: "u8 \<Rightarrow> u8 option \<Rightarrow> (SmsWriteBuffer, unit) op" where
  "EncodeHeaderShift type lang =
     (case lang of
        None \<Rightarrow> fault
      | Some langId \<Rightarrow> seq (WriteByte type) (seq (WriteByte 0x01) (WriteByte langId)))"

definition EncodeHeader :: "SmsUDH \<Rightarrow> (SmsWriteBuffer, unit) op" where
  "EncodeHeader header =
     (if udhType header = UDH_CONCAT_8BIT \<or> udhType header = UDH_CONCAT_16BIT then EncodeHeaderConcat header
      else if udhType header = UDH_APP_PORT_8BIT then EncodeHeaderAppPort8bit header
      else if udhType header = UDH_APP_PORT_16BIT then EncodeHeaderAppPort16bit header
      else if udhType header = UDH_ALTERNATE_REPLY_ADDRESS then EncodeHeaderReplyAddress header
      else if udhType header = UDH_SINGLE_SHIFT then
        EncodeHeaderShift UDH_SINGLE_SHIFT
          (case udh header of UdhSingleShift l \<Rightarrow> Some l | UdhZero \<Rightarrow> Some 0 | _ \<Rightarrow> None)
      else if udhType header = UDH_LOCKING_SHIFT then
        EncodeHeaderShift UDH_LOCKING_SHIFT
          (case udh header of UdhLockingShift l \<Rightarrow> Some l | UdhZero \<Rightarrow> Some 0 | _ \<Rightarrow> None)
      else ret ())"

section \<open>Encoding user data\<close>

definition MAX_TPDU_LEN :: nat where
  "MAX_TPDU_LEN = 255"

text \<open>The loop over \<^verbatim>\<open>header[i]\<close> for \<^verbatim>\<open>i < headerCnt\<close>.\<close>

definition EncodeHeaders :: "SmsUDPackage \<Rightarrow> (SmsWriteBuffer, unit) op" where
  "EncodeHeaders userData =
     each (\<lambda>i. bnd (rd_at (ud_header userData) i) (\<lambda>h. ignore (EncodeHeader h))) [0..<unat (headerCnt userData)]"

definition EncodeGsmHeadPdu :: "SmsUDPackage \<Rightarrow> (SmsWriteBuffer, nat) op" where
  "EncodeGsmHeadPdu userData =
     bnd (gets GetIndex) (\<lambda>location.
     seq (MoveForward (if headerCnt userData > 0 then 2 else 1)) (
     bnd (gets GetIndex) (\<lambda>start.
     seq (EncodeHeaders userData) (
     bnd (gets GetIndex) (\<lambda>stop.
     let udhl = (if stop > start then stop - start else 0);
         rem = (if udhl > 0 then ((udhl + 1) * 8) mod 7 else 0);
         fillBits = (if rem > 0 \<and> 7 > rem then 7 - rem else 0)
     in if udhl > 0 then
          (let value = (udhl + 1) * 8 + fillBits + unat (ud_length userData) * 7
           in seq (InsertByte (word_of_nat (value div 7)) location) (
              seq (InsertByte (word_of_nat udhl) (location + 1))
                (ret fillBits)))
        else seq (InsertByte (ud_length userData) location) (ret fillBits))))))"

definition EncodeGsmBodyPdu :: "SmsUDPackage \<Rightarrow> nat \<Rightarrow> (SmsWriteBuffer, unit) op" where
  "EncodeGsmBodyPdu userData fillBits = Pack7bitChar (ud_data userData) (unat (ud_length userData)) fillBits"

definition EncodeGsmPdu :: "SmsUDPackage \<Rightarrow> (SmsWriteBuffer, unit) op" where
  "EncodeGsmPdu userData =
     bnd (EncodeGsmHeadPdu userData) (\<lambda>fillBits. EncodeGsmBodyPdu userData fillBits)"

definition CT_SMSC :: bytes where
  "CT_SMSC = [0x31, 0x30, 0x36, 0x35, 0x39, 0x34, 0x30, 0x31]"

text \<open>The common part of the 8-bit and UCS-2 heads: the octets for UDL and UDHL.\<close>

definition insert_lengths :: "SmsUDPackage \<Rightarrow> nat \<Rightarrow> nat \<Rightarrow> (SmsWriteBuffer, unit) op" where
  "insert_lengths userData location start =
     bnd (gets GetIndex) (\<lambda>stop.
     let udhl = (if stop > start then stop - start else 0)
     in if udhl > 0 then
          seq (InsertByte (word_of_nat (udhl + 1 + unat (ud_length userData))) location)
            (InsertByte (word_of_nat udhl) (location + 1))
        else InsertByte (ud_length userData) location)"

definition Encode8bitHeadPdu :: "SmsUDPackage \<Rightarrow> bytes \<Rightarrow> (SmsWriteBuffer, unit) op" where
  "Encode8bitHeadPdu userData destAddr =
     bnd (gets GetIndex) (\<lambda>location.
     seq (MoveForward (if headerCnt userData > 0 \<and> CT_SMSC \<noteq> destAddr then 2 else 1)) (
     bnd (gets GetIndex) (\<lambda>start.
     seq (if CT_SMSC \<noteq> destAddr then EncodeHeaders userData else ret ())
       (insert_lengths userData location start))))"

definition copy_user_data :: "SmsUDPackage \<Rightarrow> (SmsWriteBuffer, unit) op" where
  "copy_user_data userData =
     bnd (gets GetIndex) (\<lambda>index.
     if unat (ud_length userData) > length (ud_data userData) then fault
     else seq (CopyIn (MAX_TPDU_LEN - index - 1) (take (unat (ud_length userData)) (ud_data userData))) (
          seq (MoveForward (unat (ud_length userData))) (ret ())))"

definition Encode8bitBodyPdu :: "SmsUDPackage \<Rightarrow> (SmsWriteBuffer, unit) op" where
  "Encode8bitBodyPdu userData =
     bnd (gets (\<lambda>b. (IsEmpty b, GetIndex b, GetSize b))) (\<lambda>(empty, index, size).
     seq (ensure (\<not> empty)) (
     seq (ensure (\<not> (index \<ge> MAX_TPDU_LEN \<or> unat (ud_length userData) + index > MAX_TPDU_LEN))) (
     seq (ensure (\<not> (index \<ge> size \<or> unat (ud_length userData) + index > size)))
       (copy_user_data userData))))"

definition Encode8bitPdu :: "SmsUDPackage \<Rightarrow> bytes \<Rightarrow> (SmsWriteBuffer, unit) op" where
  "Encode8bitPdu userData destAddr = seq (Encode8bitHeadPdu userData destAddr) (Encode8bitBodyPdu userData)"

definition EncodeUcs2HeadPdu :: "SmsUDPackage \<Rightarrow> (SmsWriteBuffer, unit) op" where
  "EncodeUcs2HeadPdu userData =
     bnd (gets GetIndex) (\<lambda>location.
     seq (MoveForward (if headerCnt userData = 0 then 1 else 2)) (
     bnd (gets GetIndex) (\<lambda>start.
     seq (EncodeHeaders userData)
       (insert_lengths userData location start))))"

definition EncodeUcs2BodyPdu :: "SmsUDPackage \<Rightarrow> (SmsWriteBuffer, unit) op" where
  "EncodeUcs2BodyPdu userData =
     bnd (gets (\<lambda>b. (IsEmpty b, GetIndex b, GetSize b))) (\<lambda>(empty, index, size).
     seq (ensure (\<not> unat (ud_length userData) + index \<ge> MAX_TPDU_LEN)) (
     seq (ensure (\<not> (empty \<or> index + unat (ud_length userData) > size)))
       (copy_user_data userData)))"

definition EncodeUcs2Pdu :: "SmsUDPackage \<Rightarrow> (SmsWriteBuffer, unit) op" where
  "EncodeUcs2Pdu userData = seq (EncodeUcs2HeadPdu userData) (EncodeUcs2BodyPdu userData)"

definition EncodeUserDataPdu :: "SmsUDPackage \<Rightarrow> DataCodingScheme \<Rightarrow> bytes \<Rightarrow> (SmsWriteBuffer, unit) op" where
  "EncodeUserDataPdu userData scheme destAddr =
     (case scheme of
        DATA_CODING_7BIT \<Rightarrow> EncodeGsmPdu userData
      | DATA_CODING_8BIT \<Rightarrow> Encode8bitPdu userData destAddr
      | DATA_CODING_UCS2 \<Rightarrow> EncodeUcs2Pdu userData
      | _ \<Rightarrow> fail)"

section \<open>Decoding headers\<close>

text \<open>Writing a field of a union member keeps the other fields of that member.\<close>

definition upd_concat8 :: "(SmsConcat8Bit \<Rightarrow> SmsConcat8Bit) \<Rightarrow> SmsUDH \<Rightarrow> SmsUDH" where
  "upd_concat8 f h = h\<lparr>udh := UdhConcat8bit (f (case udh h of UdhConcat8bit c \<Rightarrow> c | _ \<Rightarrow> zero_concat8))\<rparr>"

definition upd_concat16 :: "(SmsConcat16Bit \<Rightarrow> SmsConcat16Bit) \<Rightarrow> SmsUDH \<Rightarrow> SmsUDH" where
  "upd_concat16 f h = h\<lparr>udh := UdhConcat16bit (f (case udh h of UdhConcat16bit c \<Rightarrow> c | _ \<Rightarrow> zero_concat16))\<rparr>"

definition upd_port8 :: "(SmsAppPort8Bits \<Rightarrow> SmsAppPort8Bits) \<Rightarrow> SmsUDH \<Rightarrow> SmsUDH" where
  "upd_port8 f h = h\<lparr>udh := UdhAppPort8bit (f (case udh h of UdhAppPort8bit p \<Rightarrow> p | _ \<Rightarrow> zero_port8))\<rparr>"

definition upd_port16 :: "(SmsAppPort16Bit \<Rightarrow> SmsAppPort16Bit) \<Rightarrow> SmsUDH \<Rightarrow> SmsUDH" where
  "upd_port16 f h = h\<lparr>udh := UdhAppPort16bit (f (case udh h of UdhAppPort16bit p \<Rightarrow> p | _ \<Rightarrow> zero_port16))\<rparr>"

definition upd_special :: "(SmsSpecialIndication \<Rightarrow> SmsSpecialIndication) \<Rightarrow> SmsUDH \<Rightarrow> SmsUDH" where
  "upd_special f h = h\<lparr>udh := UdhSpecialInd (f (case udh h of UdhSpecialInd p \<Rightarrow> p | _ \<Rightarrow> zero_special))\<rparr>"

text \<open>The length octet of a header must not be 0 but is not used.\<close>

definition read_iedl :: "(SmsReadBuffer \<times> SmsUDH, unit) op" where
  "read_iedl = bnd (on_buf ReadByte) (\<lambda>oneByte. ensure (\<not> oneByte = 0))"

definition DecodeHeaderConcat8Bit :: "(SmsReadBuffer \<times> SmsUDH, unit) op" where
  "DecodeHeaderConcat8Bit =
     seq read_iedl (
     bnd (on_buf ReadByte) (\<lambda>oneByte. seq (on_out (upd_concat8 (\<lambda>c. c\<lparr>c8_msgRef := oneByte\<rparr>))) (
     bnd (on_buf ReadByte) (\<lambda>oneByte. seq (on_out (upd_concat8 (\<lambda>c. c\<lparr>c8_totalSeg := oneByte\<rparr>))) (
     bnd (on_buf ReadByte) (\<lambda>oneByte. on_out (upd_concat8 (\<lambda>c. c\<lparr>c8_seqNum := oneByte\<rparr>))))))))"

definition DecodeHeaderConcat16Bit :: "(SmsReadBuffer \<times> SmsUDH, unit) op" where
  "DecodeHeaderConcat16Bit =
     seq read_iedl (
     bnd (on_buf ReadByte) (\<lambda>oneByte. seq (on_out (upd_concat16 (\<lambda>c. c\<lparr>c16_msgRef := ucast oneByte\<rparr>))) (
     bnd (on_buf ReadByte) (\<lambda>oneByte.
       seq (on_out (upd_concat16 (\<lambda>c. c\<lparr>c16_msgRef := ucast oneByte OR push_bit 8 (c16_msgRef c)\<rparr>))) (
     bnd (on_buf ReadByte) (\<lambda>oneByte. seq (on_out (upd_concat16 (\<lambda>c. c\<lparr>c16_totalSeg := oneByte\<rparr>))) (
     bnd (on_buf ReadByte) (\<lambda>oneByte. on_out (upd_concat16 (\<lambda>c. c\<lparr>c16_seqNum := oneByte\<rparr>))))))))))"

definition DecodeHeaderAppPort8Bit :: "(SmsReadBuffer \<times> SmsUDH, unit) op" where
  "DecodeHeaderAppPort8Bit =
     seq read_iedl (
     bnd (on_buf ReadByte) (\<lambda>oneByte. seq (on_out (upd_port8 (\<lambda>p. p\<lparr>p8_destPort := oneByte\<rparr>))) (
     bnd (on_buf ReadByte) (\<lambda>oneByte. on_out (upd_port8 (\<lambda>p. p\<lparr>p8_originPort := oneByte\<rparr>))))))"

definition DecodeHeaderAppPort16Bit :: "(SmsReadBuffer \<times> SmsUDH, unit) op" where
  "DecodeHeaderAppPort16Bit =
     seq read_iedl (
     bnd (on_buf ReadByte) (\<lambda>oneByte. seq (on_out (upd_port16 (\<lambda>p. p\<lparr>p16_destPort := ucast oneByte\<rparr>))) (
     bnd (on_buf ReadByte) (\<lambda>oneByte.
       seq (on_out (upd_port16 (\<lambda>p. p\<lparr>p16_destPort := ucast oneByte OR push_bit 8 (p16_destPort p)\<rparr>))) (
     bnd (on_buf ReadByte) (\<lambda>oneByte. seq (on_out (upd_port16 (\<lambda>p. p\<lparr>p16_originPort := ucast oneByte\<rparr>))) (
     bnd (on_buf ReadByte) (\<lambda>oneByte.
       on_out (upd_port16 (\<lambda>p. p\<lparr>p16_originPort := ucast oneByte OR push_bit 8 (p16_originPort p)\<rparr>))))))))))"

definition DecodeHeaderSpecialSms :: "(SmsReadBuffer \<times> SmsUDH, unit) op" where
  "DecodeHeaderSpecialSms =
     bnd (on_buf ReadByte) (\<lambda>oneByte.
     seq (ensure (\<not> oneByte \<noteq> 0x02)) (
     bnd (on_buf PickOneByte) (\<lambda>pickByte.
     seq (on_out (upd_special (\<lambda>i. i\<lparr>si_bStore := pickByte AND 0x80 \<noteq> 0\<rparr>))) (
     bnd (on_buf ReadByte) (\<lambda>oneByte.
     seq (on_out (upd_special (\<lambda>i. i\<lparr>si_msgInd := ucast (oneByte AND 0x7F)\<rparr>))) (
     bnd (on_buf ReadByte) (\<lambda>oneByte.
     on_out (upd_special (\<lambda>i. i\<lparr>si_waitMsgNum := ucast oneByte\<rparr>)))))))))"

definition DecodeHeaderReplyAddress :: "iconv \<Rightarrow> nat \<Rightarrow> (SmsReadBuffer \<times> SmsUDH, unit) op" where
  "DecodeHeaderReplyAddress ic wsize =
     seq read_iedl
       (zoom (\<lambda>h. case udh h of UdhAlternateAddress a \<Rightarrow> a | _ \<Rightarrow> zero_address)
          (\<lambda>a h. h\<lparr>udh := UdhAlternateAddress a\<rparr>)
          (DecodeAddressPdu ic wsize))"

definition DecodeHeaderSingleShift :: "(SmsReadBuffer \<times> SmsUDH, unit) op" where
  "DecodeHeaderSingleShift =
     seq read_iedl (bnd (on_buf ReadByte) (\<lambda>oneByte. on_out (\<lambda>h. h\<lparr>udh := UdhSingleShift oneByte\<rparr>)))"

definition DecodeHeaderLockingShift :: "(SmsReadBuffer \<times> SmsUDH, unit) op" where
  "DecodeHeaderLockingShift =
     seq read_iedl (bnd (on_buf ReadByte) (\<lambda>oneByte. on_out (\<lambda>h. h\<lparr>udh := UdhLockingShift oneByte\<rparr>)))"

definition DecodeHeaderDefaultCase :: "(SmsReadBuffer \<times> SmsUDH, unit) op" where
  "DecodeHeaderDefaultCase =
     bnd (on_buf ReadByte) (\<lambda>oneByte. seq (on_buf (MoveForward (unat oneByte))) (ret ()))"

definition DecodeHeaderPartData :: "iconv \<Rightarrow> nat \<Rightarrow> u8 \<Rightarrow> (SmsReadBuffer \<times> SmsUDH, unit) op" where
  "DecodeHeaderPartData ic wsize oneByte =
     seq (on_out (\<lambda>h. h\<lparr>udhType := oneByte\<rparr>))
       (if oneByte = UDH_SPECIAL_SMS then DecodeHeaderSpecialSms
        else if oneByte = UDH_ALTERNATE_REPLY_ADDRESS then DecodeHeaderReplyAddress ic wsize
        else if oneByte = UDH_SINGLE_SHIFT then DecodeHeaderSingleShift
        else if oneByte = UDH_LOCKING_SHIFT then DecodeHeaderLockingShift
        else DecodeHeaderDefaultCase)"

definition DecodeHeader :: "iconv \<Rightarrow> nat \<Rightarrow> (SmsReadBuffer \<times> SmsUDH, nat) op" where
  "DecodeHeader ic wsize =
     bnd (on_buf (gets GetIndex)) (\<lambda>start.
     bnd (on_buf ReadByte) (\<lambda>oneByte.
     seq (on_out (\<lambda>h. h\<lparr>udhType := oneByte\<rparr>)) (
     seq (if oneByte = UDH_CONCAT_8BIT then DecodeHeaderConcat8Bit
          else if oneByte = UDH_CONCAT_16BIT then DecodeHeaderConcat16Bit
          else if oneByte = UDH_APP_PORT_8BIT then DecodeHeaderAppPort8Bit
          else if oneByte = UDH_APP_PORT_16BIT then DecodeHeaderAppPort16Bit
          else DecodeHeaderPartData ic wsize oneByte) (
     bnd (on_buf (gets GetIndex)) (\<lambda>stop.
     ret (if stop > start then stop - start else 0))))))"

section \<open>Decoding user data\<close>

text \<open>The outputs are \<^verbatim>\<open>*userData\<close> and \<^verbatim>\<open>*pTPUD\<close>, the latter \<open>None\<close> for a null pointer.\<close>

type_synonym ud_state = "SmsReadBuffer \<times> SmsUDPackage \<times> SmsTpud option"

definition on_ud :: "(SmsUDPackage \<Rightarrow> SmsUDPackage) \<Rightarrow> (ud_state, unit) op" where
  "on_ud f = on_out (\<lambda>(u, t). (f u, t))"

definition on_tpud :: "(SmsTpud \<Rightarrow> SmsTpud) \<Rightarrow> (ud_state, unit) op" where
  "on_tpud f = on_out (\<lambda>(u, t). (u, map_option f t))"

definition ResetUserData :: "SmsUDPackage \<Rightarrow> SmsUDPackage" where
  "ResetUserData u = u\<lparr>ud_length := 0, ud_data := replicate (MAX_USER_DATA_LEN + 1) 0\<rparr>"

text \<open>\<^verbatim>\<open>DecodeHeader(buffer, userData->header[i], headerLen)\<close>\<close>

definition decode_header_at :: "iconv \<Rightarrow> nat \<Rightarrow> nat \<Rightarrow> (ud_state, nat) op" where
  "decode_header_at ic wsize i =
     bnd get_out (\<lambda>(u, t).
     if i < length (ud_header u) then
       zoom (\<lambda>(u, t). ud_header u ! i) (\<lambda>h (u, t). (u\<lparr>ud_header := (ud_header u)[i := h]\<rparr>, t))
         (DecodeHeader ic wsize)
     else fault)"

text \<open>The loop over at most \<^verbatim>\<open>MAX_UD_HEADER_NUM\<close> headers; \<open>n\<close> counts down.\<close>

fun for_headers :: "(SmsReadBuffer \<Rightarrow> bool) \<Rightarrow> (nat \<Rightarrow> (ud_state, unit) op) \<Rightarrow> nat \<Rightarrow> nat \<Rightarrow> (ud_state, unit) op" where
  "for_headers continue body i 0 = ret ()"
| "for_headers continue body i (Suc n) =
     bnd (on_buf (gets continue)) (\<lambda>c.
       if c then seq (body i) (for_headers continue body (Suc i) n) else ret ())"

definition count_header :: "SmsUDPackage \<Rightarrow> SmsUDPackage" where
  "count_header u = u\<lparr>headerCnt := headerCnt u + 1\<rparr>"

definition GetHeaderCnt :: "iconv \<Rightarrow> nat \<Rightarrow> nat \<Rightarrow> nat \<Rightarrow> (ud_state, unit) op" where
  "GetHeaderCnt ic wsize udhl i =
     seq (ensure (\<not> i \<ge> MAX_UD_HEADER_NUM)) (
     bnd (on_buf (gets GetIndex)) (\<lambda>current.
     bnd (decode_header_at ic wsize i) (\<lambda>headerLen.
     if headerLen = 0 then seq (on_ud ResetUserData) fail
     else bnd (on_buf (gets GetIndex)) (\<lambda>index.
       if index - current > udhl + 2 then seq (on_ud ResetUserData) fail
       else on_ud count_header))))"

text \<open>\<^verbatim>\<open>memcpy_s(dest, sizeof(dest), buffer.data_.get() + buffer.GetIndex() + off, n)\<close>: the bytes copied.\<close>

definition CopyOut :: "nat \<Rightarrow> nat \<Rightarrow> nat \<Rightarrow> (SmsReadBuffer, bytes) op" where
  "CopyOut destMax off n b =
     (case buf_data b of
        None \<Rightarrow> Fail b
      | Some d \<Rightarrow>
          if \<not> memcpy_s_ok destMax n then Fail b
          else if buf_index b + off + n \<le> length d then Ok (take n (drop (buf_index b + off) d)) b
          else Fault)"

text \<open>The copy for WAP push into \<^verbatim>\<open>pTPUD->ud\<close> with its terminator, at the end of an array of 161.\<close>

definition set_tpud :: "bytes \<Rightarrow> (ud_state, unit) op" where
  "set_tpud xs =
     bnd get_out (\<lambda>(u, t).
     if length xs < MAX_USER_DATA_LEN + 1 then on_tpud (\<lambda>t. t\<lparr>tpud_ud := write_at 0 (xs @ [0]) (tpud_ud t)\<rparr>)
     else fault)"

definition DecodeGsmHeadPduPartData :: "iconv \<Rightarrow> nat \<Rightarrow> bool \<Rightarrow> nat \<Rightarrow> (ud_state, nat \<times> nat) op" where
  "DecodeGsmHeadPduPartData ic wsize bHeaderInd udl =
     bnd (if bHeaderInd then
            bnd (on_buf ReadByte) (\<lambda>udhl.
            seq (on_ud (\<lambda>u. u\<lparr>headerCnt := 0\<rparr>)) (
            bnd (on_buf (gets (to_u8 \<circ> GetIndex))) (\<lambda>current.
            seq (for_headers (\<lambda>b. GetIndex b < current + unat udhl)
                   (\<lambda>i. bnd (decode_header_at ic wsize i) (\<lambda>headerLen.
                        if headerLen = 0 then seq (on_ud ResetUserData) fail
                        else bnd (on_buf (gets (\<lambda>b. GetIndex b > GetSize b))) (\<lambda>over.
                          if over then seq (on_ud ResetUserData) fail else on_ud count_header)))
                   0 MAX_UD_HEADER_NUM)
              (ret (unat udhl)))))
          else seq (on_ud (\<lambda>u. u\<lparr>headerCnt := 0\<rparr>)) (ret 0)) (\<lambda>udhl.
     if udhl > 0 \<and> (udhl + 1) * 8 \<le> udl * 7
     then ret ((udl * 7 - (udhl + 1) * 8) div 7, (udl * 7 - (udhl + 1) * 8) mod 7)
     else ret (udl, 0))"

text \<open>The block \<^verbatim>\<open>Setting for Wap Push\<close> of \<^verbatim>\<open>DecodeGsmHeadPdu\<close>.\<close>

definition gsm_wap_push :: "u8 \<Rightarrow> (ud_state, unit) op" where
  "gsm_wap_push udl =
     seq (on_tpud (\<lambda>t. t\<lparr>tpud_udl := udl\<rparr>)) (
     seq (ensure (\<not> unat udl > MAX_USER_DATA_LEN + 1)) (
     bnd (on_buf (gets (\<lambda>b. (IsEmpty b, GetIndex b, GetSize b)))) (\<lambda>(empty, index, size).
     let len = (if index + unat udl \<ge> size then to_u8 (size - index) else unat udl)
     in seq (ensure (\<not> (empty \<or> len > MAX_USER_DATA_LEN + 1))) (
        bnd (on_buf (CopyOut (MAX_USER_DATA_LEN + 1) 0 len)) set_tpud))))"

definition DecodeGsmHeadPdu :: "iconv \<Rightarrow> nat \<Rightarrow> bool \<Rightarrow> (ud_state, nat \<times> nat) op" where
  "DecodeGsmHeadPdu ic wsize bHeaderInd =
     bnd (on_buf ReadByte) (\<lambda>udl.
     if unat udl > 160 then seq (on_ud (\<lambda>u. u\<lparr>ud_length := 0, headerCnt := 0\<rparr>)) fail
     else bnd get_out (\<lambda>(u, pTPUD).
       seq (if pTPUD \<noteq> None \<and> udl > 0 then gsm_wap_push udl else ret ())
         (DecodeGsmHeadPduPartData ic wsize bHeaderInd (unat udl))))"

text \<open>The characters are unpacked into \<^verbatim>\<open>userData->data\<close>.\<close>

definition DecodeGsmBodyPdu :: "nat \<Rightarrow> nat \<Rightarrow> (ud_state, unit) op" where
  "DecodeGsmBodyPdu udl fillBits =
     bnd (zoom (\<lambda>(u, t). ud_data u) (\<lambda>d (u, t). (u\<lparr>ud_data := d\<rparr>, t))
            (Unpack7bitChar udl fillBits (MAX_USER_DATA_LEN + 1) 0)) (\<lambda>len.
     on_ud (\<lambda>u. u\<lparr>ud_length := word_of_nat len\<rparr>))"

definition DecodeGsmPdu :: "iconv \<Rightarrow> nat \<Rightarrow> bool \<Rightarrow> (ud_state, unit) op" where
  "DecodeGsmPdu ic wsize bHeaderInd =
     bnd (DecodeGsmHeadPdu ic wsize bHeaderInd) (\<lambda>(udl, fillBits). DecodeGsmBodyPdu udl fillBits)"

text \<open>
  The end of \<^verbatim>\<open>Decode8bitPduPartData\<close> and \<^verbatim>\<open>DecodeUcs2PduPartData\<close>: the payload is copied, as much of it
  as the buffer has. The result tells whether anything was copied.
\<close>

definition copy_payload :: "(ud_state, bool) op" where
  "copy_payload =
     bnd get_out (\<lambda>(u, t).
     bnd (on_buf (gets (\<lambda>b. (IsEmpty b, to_u8 (GetSize b - GetIndex b))))) (\<lambda>(empty, remain).
     let len = (if unat (ud_length u) < remain then unat (ud_length u) else remain)
     in if len = 0 then ret False
        else seq (ensure (\<not> (empty \<or> len > MAX_USER_DATA_LEN + 1))) (
             bnd (on_buf (CopyOut (MAX_USER_DATA_LEN + 1) 0 len)) (\<lambda>xs.
             seq (on_ud (\<lambda>u. u\<lparr>ud_data := write_at 0 xs (ud_data u)\<rparr>)) (
             seq (on_buf (MoveForward (unat (ud_length u)))) (ret True))))))"

definition Decode8bitPduPartData :: "iconv \<Rightarrow> nat \<Rightarrow> bool \<Rightarrow> nat \<Rightarrow> (ud_state, unit) op" where
  "Decode8bitPduPartData ic wsize bHeaderInd udl =
     bnd (if bHeaderInd then
            bnd (on_buf ReadByte) (\<lambda>udhl.
            seq (on_ud (\<lambda>u. u\<lparr>headerCnt := 0\<rparr>)) (
            bnd (on_buf (gets GetIndex)) (\<lambda>current.
            seq (for_headers (\<lambda>b. GetIndex b - current < unat udhl) (GetHeaderCnt ic wsize (unat udhl))
                   0 MAX_UD_HEADER_NUM)
              (ret (unat udhl)))))
          else seq (on_ud (\<lambda>u. u\<lparr>headerCnt := 0\<rparr>)) (ret 0)) (\<lambda>udhl.
     seq (if udhl > 0 \<and> udl \<ge> udhl + 1 then
            seq (on_ud (\<lambda>u. u\<lparr>ud_length := word_of_nat (udl - (udhl + 1))\<rparr>)) (
            seq (on_buf (MoveForward 1)) (ret ()))
          else on_ud (\<lambda>u. u\<lparr>ud_length := word_of_nat udl\<rparr>)) (
     bnd (on_buf (gets (\<lambda>b. GetIndex b > GetSize b))) (\<lambda>over.
     seq (ensure (\<not> (udl > MAX_USER_DATA_LEN + 1 \<or> over))) (
     seq copy_payload (ret ())))))"

definition wap_push_8bit :: "nat \<Rightarrow> nat \<Rightarrow> (ud_state, unit) op" where
  "wap_push_8bit n udhl =
     seq (on_tpud (\<lambda>t. t\<lparr>tpud_udl := word_of_nat n\<rparr>)) (
     seq (ensure (\<not> n \<ge> MAX_USER_DATA_LEN + 1)) (
     bnd (on_buf (gets (\<lambda>b. IsEmpty b \<or> GetIndex b + n + (udhl + 1) > GetSize b))) (\<lambda>bad.
     seq (ensure (\<not> bad)) (
     bnd (on_buf (CopyOut (MAX_USER_DATA_LEN + 1) (udhl + 1) n)) set_tpud))))"

definition Decode8bitPdu :: "iconv \<Rightarrow> nat \<Rightarrow> bool \<Rightarrow> (ud_state, unit) op" where
  "Decode8bitPdu ic wsize bHeaderInd =
     bnd (on_buf ReadByte) (\<lambda>udl.
     if unat udl > 140 then seq (on_ud (\<lambda>u. u\<lparr>ud_length := 0\<rparr>)) fail
     else bnd (attempt (on_buf PickOneByte)) (\<lambda>r.
       let udhl = (case r of None \<Rightarrow> 6 | Some b \<Rightarrow> unat b)
       in bnd get_out (\<lambda>(u, pTPUD).
          seq (if pTPUD \<noteq> None \<and> unat udl > udhl + 1 then wap_push_8bit (unat udl - (udhl + 1)) udhl else ret ())
            (Decode8bitPduPartData ic wsize bHeaderInd (unat udl)))))"

definition DecodeUcs2PduPartData :: "iconv \<Rightarrow> nat \<Rightarrow> bool \<Rightarrow> nat \<Rightarrow> nat \<Rightarrow> (ud_state, unit) op" where
  "DecodeUcs2PduPartData ic wsize bHeaderInd current udl =
     seq (on_ud (\<lambda>u. u\<lparr>headerCnt := 0\<rparr>)) (
     bnd (if bHeaderInd then
            bnd (on_buf ReadByte) (\<lambda>udhl.
            seq (for_headers (\<lambda>b. GetIndex b < unat udhl + current)
                   (\<lambda>i. bnd (decode_header_at ic wsize i) (\<lambda>headerLen.
                        bnd (on_buf (gets GetIndex)) (\<lambda>index.
                        if headerLen = 0 \<or> index > current + unat udhl + 2 then seq (on_ud ResetUserData) fail
                        else on_ud count_header)))
                   0 MAX_UD_HEADER_NUM)
              (ret (unat udhl)))
          else ret 0) (\<lambda>udhl.
     seq (if udhl > 0 \<and> udl \<ge> udhl + 1
          then on_ud (\<lambda>u. u\<lparr>ud_length := word_of_nat (udl - (udhl + 1))\<rparr>)
          else on_ud (\<lambda>u. u\<lparr>ud_length := word_of_nat udl\<rparr>)) (
     bnd (on_buf (gets (\<lambda>b. GetIndex b > GetSize b))) (\<lambda>over.
     seq (ensure (\<not> over)) (
     bnd copy_payload (\<lambda>copied.
     if copied then
       on_ud (\<lambda>u. u\<lparr>ud_data := (ud_data u)[
         (if unat (ud_length u) \<ge> MAX_USER_DATA_LEN + 1 then MAX_USER_DATA_LEN else unat (ud_length u)) := 0]\<rparr>)
     else ret ()))))))"

definition ucs2_wap_push :: "u8 \<Rightarrow> (ud_state, unit) op" where
  "ucs2_wap_push udl =
     seq (on_tpud (\<lambda>t. t\<lparr>tpud_udl := udl\<rparr>)) (
     bnd (on_buf (gets (\<lambda>b. (GetIndex b, GetSize b)))) (\<lambda>(index, size).
     seq (ensure (\<not> (unat udl > MAX_USER_DATA_LEN + 1 \<or> index + unat udl > size))) (
     bnd (on_buf (CopyOut (MAX_USER_DATA_LEN + 1) 0 (unat udl))) set_tpud)))"

definition DecodeUcs2Pdu :: "iconv \<Rightarrow> nat \<Rightarrow> bool \<Rightarrow> (ud_state, unit) op" where
  "DecodeUcs2Pdu ic wsize bHeaderInd =
     bnd (on_buf (gets GetIndex)) (\<lambda>current.
     bnd (on_buf ReadByte) (\<lambda>udl.
     bnd (on_buf (gets (\<lambda>b. (IsEmpty b, GetIndex b, GetSize b)))) (\<lambda>(empty, index, size).
     if unat udl > 140 \<or> unat udl + index - 1 > size then
       seq (on_ud (\<lambda>u. u\<lparr>ud_length := 0, headerCnt := 0\<rparr>)) fail
     else seq (ensure (\<not> empty)) (
       bnd get_out (\<lambda>(u, pTPUD).
       seq (if pTPUD \<noteq> None then ucs2_wap_push udl else ret ())
         (DecodeUcs2PduPartData ic wsize bHeaderInd current (unat udl)))))))"

text \<open>
  The two overloads of \<^verbatim>\<open>DecodeUserDataPdu\<close>: without \<^verbatim>\<open>pTPUD\<close>, where EUC-KR is not accepted, and with it.
\<close>

definition DecodeUserDataPdu :: "iconv \<Rightarrow> nat \<Rightarrow> bool \<Rightarrow> DataCodingScheme \<Rightarrow> (ud_state, unit) op" where
  "DecodeUserDataPdu ic wsize bHeaderInd scheme =
     bnd get_out (\<lambda>(_, pTPUD).
     seq (on_ud (\<lambda>_. zero_ud))
       (case scheme of
          DATA_CODING_7BIT \<Rightarrow> DecodeGsmPdu ic wsize bHeaderInd
        | DATA_CODING_8BIT \<Rightarrow> Decode8bitPdu ic wsize bHeaderInd
        | DATA_CODING_UCS2 \<Rightarrow> DecodeUcs2Pdu ic wsize bHeaderInd
        | DATA_CODING_EUCKR \<Rightarrow> if pTPUD \<noteq> None then DecodeUcs2Pdu ic wsize bHeaderInd else fail
        | _ \<Rightarrow> fail))"

section \<open>Memory safety and the invariant\<close>

definition wf_udh :: "SmsUDH \<Rightarrow> bool" where
  "wf_udh h \<longleftrightarrow> (\<forall>a. udh h = UdhAlternateAddress a \<longrightarrow> wf_address a)"

definition wf_ud :: "SmsUDPackage \<Rightarrow> bool" where
  "wf_ud u \<longleftrightarrow> length (ud_header u) = MAX_UD_HEADER_NUM \<and> length (ud_data u) = MAX_USER_DATA_LEN + 1 \<and>
     (\<forall>h \<in> set (ud_header u). wf_udh h)"

definition wf_tpud :: "SmsTpud \<Rightarrow> bool" where
  "wf_tpud t \<longleftrightarrow> length (tpud_ud t) = MAX_USER_DATA_LEN + 1"

definition wf_ud_out :: "SmsUDPackage \<times> SmsTpud option \<Rightarrow> bool" where
  "wf_ud_out x \<longleftrightarrow> wf_ud (fst x) \<and> (\<forall>t. snd x = Some t \<longrightarrow> wf_tpud t)"

named_theorems udh_keeps \<open>the header decoders keep the invariant\<close>

lemma wf_udh_upd [simp]:
  "wf_udh (upd_concat8 f1 h)" "wf_udh (upd_concat16 f2 h)" "wf_udh (upd_port8 f3 h)"
  "wf_udh (upd_port16 f4 h)" "wf_udh (upd_special f5 h)"
  "wf_udh (h\<lparr>udh := UdhSingleShift l\<rparr>)" "wf_udh (h\<lparr>udh := UdhLockingShift l\<rparr>)"
  "wf_udh (h\<lparr>udh := UdhAlternateAddress a\<rparr>) \<longleftrightarrow> wf_address a" "wf_udh (h\<lparr>udhType := ty\<rparr>) \<longleftrightarrow> wf_udh h"
  by (simp_all add: wf_udh_def upd_concat8_def upd_concat16_def upd_port8_def upd_port16_def upd_special_def)

lemma wf_zero_address: "wf_address zero_address"
  by (simp add: wf_address_def zero_address_def)

lemma keeps_read_iedl [udh_keeps]: "keeps (wf_with wf_udh) read_iedl"
  unfolding read_iedl_def by (intro keeps_bnd keeps_on_buf keeps_wf_ReadByte keeps_ensure)

lemma keeps_header_cases [udh_keeps]:
  "keeps (wf_with wf_udh) DecodeHeaderConcat8Bit" "keeps (wf_with wf_udh) DecodeHeaderConcat16Bit"
  "keeps (wf_with wf_udh) DecodeHeaderAppPort8Bit" "keeps (wf_with wf_udh) DecodeHeaderAppPort16Bit"
  "keeps (wf_with wf_udh) DecodeHeaderSpecialSms" "keeps (wf_with wf_udh) DecodeHeaderSingleShift"
  "keeps (wf_with wf_udh) DecodeHeaderLockingShift" "keeps (wf_with wf_udh) DecodeHeaderDefaultCase"
  unfolding DecodeHeaderConcat8Bit_def DecodeHeaderConcat16Bit_def DecodeHeaderAppPort8Bit_def
    DecodeHeaderAppPort16Bit_def DecodeHeaderSpecialSms_def DecodeHeaderSingleShift_def
    DecodeHeaderLockingShift_def DecodeHeaderDefaultCase_def
  by (intro keeps_bnd keeps_seq keeps_read_iedl keeps_ensure keeps_ret keeps_on_buf keeps_wf_ReadByte
      keeps_wf_PickOneByte keeps_wf_MoveForward keeps_on_out; simp)+

lemma keeps_DecodeHeaderReplyAddress [udh_keeps]:
  assumes "iconv_bounded ic"
  shows "keeps (wf_with wf_udh) (DecodeHeaderReplyAddress ic wsize)"
  unfolding DecodeHeaderReplyAddress_def
  by (intro keeps_seq keeps_read_iedl keeps_zoom [where K = wf_address] keeps_DecodeAddressPdu assms)
    (auto simp: wf_udh_def wf_zero_address split: UdhUnion.splits)

lemma keeps_DecodeHeader:
  assumes "iconv_bounded ic"
  shows "keeps (wf_with wf_udh) (DecodeHeader ic wsize)"
  unfolding DecodeHeader_def DecodeHeaderPartData_def
  by (intro keeps_bnd keeps_seq keeps_if keeps_ret keeps_on_buf keeps_gets keeps_wf_ReadByte keeps_on_out
      udh_keeps assms) simp_all

lemma keeps_for_headers:
  "(\<And>j. i \<le> j \<Longrightarrow> j < i + n \<Longrightarrow> keeps (wf_with J) (body j)) \<Longrightarrow>
   keeps (wf_with J) (for_headers continue body i n)"
proof (induction n arbitrary: i)
  case 0
  then show ?case by (simp add: keeps_ret)
next
  case (Suc n)
  have "keeps (wf_with J) (for_headers continue body (Suc i) n)" using Suc.prems by (intro Suc.IH) simp
  moreover have "keeps (wf_with J) (body i)" using Suc.prems by simp
  ultimately show ?case by (auto intro!: keeps_bnd keeps_on_buf keeps_gets keeps_if keeps_seq keeps_ret)
qed

lemma keeps_decode_header_at:
  assumes "iconv_bounded ic" "i < MAX_UD_HEADER_NUM"
  shows "keeps (wf_with wf_ud_out) (decode_header_at ic wsize i)"
proof -
  have "keeps (wf_with wf_ud_out)
      (zoom (\<lambda>(u, t). ud_header u ! i) (\<lambda>h (u, t). (u\<lparr>ud_header := (ud_header u)[i := h]\<rparr>, t)) (DecodeHeader ic wsize))"
  proof (rule keeps_zoom [OF keeps_DecodeHeader [OF assms(1)]])
    fix x h
    assume x: "wf_ud_out x"
    then show "wf_udh (case x of (u, t) \<Rightarrow> ud_header u ! i)"
      using assms(2) by (auto simp: wf_ud_out_def wf_ud_def split: prod.splits)
    assume "wf_udh h"
    with x show "wf_ud_out (case x of (u, t) \<Rightarrow> (u\<lparr>ud_header := (ud_header u)[i := h]\<rparr>, t))"
      using set_update_subset_insert [of "ud_header (fst x)" i h]
      by (auto simp: wf_ud_out_def wf_ud_def split: prod.splits)
  qed
  then show ?thesis unfolding decode_header_at_def using assms(2)
    by (intro keeps_get_out_bnd) (auto simp: wf_ud_out_def wf_ud_def)
qed

lemma keeps_on_ud: "(\<And>u. wf_ud u \<Longrightarrow> wf_ud (f u)) \<Longrightarrow> keeps (wf_with wf_ud_out) (on_ud f)"
  unfolding on_ud_def by (rule keeps_on_out) (auto simp: wf_ud_out_def)

lemma keeps_on_tpud: "(\<And>t. wf_tpud t \<Longrightarrow> wf_tpud (f t)) \<Longrightarrow> keeps (wf_with wf_ud_out) (on_tpud f)"
  unfolding on_tpud_def by (rule keeps_on_out) (auto simp: wf_ud_out_def)

lemma wf_ud_upd [simp]:
  "wf_ud (u\<lparr>headerCnt := c\<rparr>) \<longleftrightarrow> wf_ud u" "wf_ud (u\<lparr>ud_length := l\<rparr>) \<longleftrightarrow> wf_ud u"
  "wf_ud u \<Longrightarrow> wf_ud (ResetUserData u)" "wf_ud (count_header u) \<longleftrightarrow> wf_ud u"
  "wf_ud u \<Longrightarrow> wf_ud (u\<lparr>ud_data := (ud_data u)[i := v]\<rparr>)" "wf_ud zero_ud"
  "wf_tpud (t\<lparr>tpud_udl := l\<rparr>) \<longleftrightarrow> wf_tpud t"
  by (auto simp: wf_ud_def ResetUserData_def count_header_def zero_ud_def zero_udh_def wf_udh_def wf_tpud_def)

lemma wf_ud_data: "wf_ud u \<Longrightarrow> length xs \<le> 161 \<Longrightarrow> wf_ud (u\<lparr>ud_data := write_at 0 xs (ud_data u)\<rparr>)"
  by (simp add: wf_ud_def write_at_def MAX_USER_DATA_LEN_def)

lemma keeps_set_tpud: "length xs < MAX_USER_DATA_LEN + 1 \<Longrightarrow> keeps (wf_with wf_ud_out) (set_tpud xs)"
  unfolding set_tpud_def
  by (intro keeps_bnd keeps_get_out) (auto intro!: keeps_on_tpud simp: wf_tpud_def write_at_def)

text \<open>A guard on the cursor followed by a copy out of the buffer.\<close>

lemma keeps_guarded_copy:
  assumes "\<And>b d. wf_pdu b \<Longrightarrow> buf_data b = Some d \<Longrightarrow> ok (f b) \<Longrightarrow> buf_index b + off (f b) + n (f b) \<le> length d"
    and "\<And>b xs. wf_pdu b \<Longrightarrow> ok (f b) \<Longrightarrow> length xs = n (f b) \<Longrightarrow> keeps (wf_with J) (k xs)"
  shows "keeps (wf_with J) (bnd (on_buf (gets f)) (\<lambda>x. seq (ensure (ok x)) (bnd (on_buf (CopyOut m (off x) (n x))) k)))"
proof (rule keepsI)
  fix s :: "SmsReadBuffer \<times> 'b"
  assume s: "wf_pdu (fst s) \<and> J (snd s)"
  show "case bnd (on_buf (gets f)) (\<lambda>x. seq (ensure (ok x)) (bnd (on_buf (CopyOut m (off x) (n x))) k)) s of
      Ok x t \<Rightarrow> wf_pdu (fst t) \<and> J (snd t) | Fail t \<Rightarrow> wf_pdu (fst t) \<and> J (snd t) | Fault \<Rightarrow> False"
  proof (cases "ok (f (fst s)) \<and> buf_data (fst s) \<noteq> None \<and> memcpy_s_ok m (n (f (fst s)))")
    case True
    then obtain d where d: "buf_data (fst s) = Some d" by auto
    then have fits: "buf_index (fst s) + off (f (fst s)) + n (f (fst s)) \<le> length d" using assms(1) True s by simp
    let ?xs = "take (n (f (fst s))) (drop (buf_index (fst s) + off (f (fst s))) d)"
    have "keeps (wf_with J) (k ?xs)" using assms(2) [of "fst s"] True s fits by simp
    from keepsD [OF this s] show ?thesis using True d fits
      by (simp add: op_simps CopyOut_def)
  qed (use s in \<open>auto simp: op_simps CopyOut_def split: option.splits\<close>)
qed

lemma keeps_reset_fail: "keeps (wf_with wf_ud_out) (seq (on_ud ResetUserData) fail)"
  by (intro keeps_seq keeps_on_ud keeps_fail) simp

lemma keeps_count_header: "keeps (wf_with wf_ud_out) (on_ud count_header)"
  by (intro keeps_on_ud) simp

lemma keeps_GetHeaderCnt:
  assumes "iconv_bounded ic"
  shows "keeps (wf_with wf_ud_out) (GetHeaderCnt ic wsize udhl i)"
  unfolding GetHeaderCnt_def
  by (intro keeps_ensure_seq keeps_bnd keeps_if keeps_on_buf keeps_gets keeps_decode_header_at assms
      keeps_reset_fail keeps_count_header) simp

lemma keeps_DecodeGsmHeadPduPartData:
  assumes "iconv_bounded ic"
  shows "keeps (wf_with wf_ud_out) (DecodeGsmHeadPduPartData ic wsize bHeaderInd udl)"
  unfolding DecodeGsmHeadPduPartData_def
  by (intro keeps_bnd keeps_if keeps_seq keeps_on_buf keeps_gets keeps_wf_ReadByte keeps_ret keeps_on_ud
      keeps_for_headers keeps_decode_header_at assms keeps_reset_fail keeps_count_header) simp_all

lemma keeps_copy_into_tpud:
  assumes "\<And>b d. wf_pdu b \<Longrightarrow> buf_data b = Some d \<Longrightarrow> ok (f b) \<Longrightarrow> buf_index b + off (f b) + n (f b) \<le> length d"
    and "\<And>b. wf_pdu b \<Longrightarrow> ok (f b) \<Longrightarrow> n (f b) \<le> MAX_USER_DATA_LEN"
  shows "keeps (wf_with wf_ud_out)
    (bnd (on_buf (gets f)) (\<lambda>x. seq (ensure (ok x)) (bnd (on_buf (CopyOut m (off x) (n x))) set_tpud)))"
proof (rule keeps_guarded_copy)
  show "keeps (wf_with wf_ud_out) (set_tpud xs)" if "wf_pdu b" "ok (f b)" "length xs = n (f b)" for b xs
    using assms(2) [OF that(1,2)] that(3) by (intro keeps_set_tpud) simp
qed (rule assms(1))

lemma keeps_gsm_wap_push: "\<not> 160 < unat udl \<Longrightarrow> keeps (wf_with wf_ud_out) (gsm_wap_push udl)"
  unfolding gsm_wap_push_def Let_def case_prod_unfold
  by (intro keeps_seq keeps_ensure keeps_on_tpud keeps_copy_into_tpud)
    (auto simp: wf_pdu_def GetIndex_def GetSize_def MAX_USER_DATA_LEN_def to_u8_id to_u8_def split: if_splits)

lemma keeps_DecodeGsmHeadPdu:
  assumes "iconv_bounded ic"
  shows "keeps (wf_with wf_ud_out) (DecodeGsmHeadPdu ic wsize bHeaderInd)"
  unfolding DecodeGsmHeadPdu_def case_prod_unfold
  by (intro keeps_bnd keeps_if keeps_get_out keeps_on_buf keeps_wf_ReadByte keeps_seq keeps_on_ud keeps_fail
      keeps_ret keeps_gsm_wap_push keeps_DecodeGsmHeadPduPartData assms) simp_all

lemma keeps_DecodeGsmBodyPdu: "keeps (wf_with wf_ud_out) (DecodeGsmBodyPdu udl fillBits)"
  unfolding DecodeGsmBodyPdu_def
proof (intro keeps_bnd keeps_on_ud)
  have "keeps (wf_with (\<lambda>d. length d = MAX_USER_DATA_LEN + 1)) (Unpack7bitChar udl fillBits (MAX_USER_DATA_LEN + 1) 0)"
    by (rule keeps_Unpack7bitChar) simp
  then show "keeps (wf_with wf_ud_out) (zoom (\<lambda>(u, t). ud_data u) (\<lambda>d (u, t). (u\<lparr>ud_data := d\<rparr>, t))
      (Unpack7bitChar udl fillBits (MAX_USER_DATA_LEN + 1) 0))"
    by (rule keeps_zoom) (auto simp: wf_ud_out_def wf_ud_def)
qed simp

lemma keeps_DecodeGsmPdu:
  assumes "iconv_bounded ic"
  shows "keeps (wf_with wf_ud_out) (DecodeGsmPdu ic wsize bHeaderInd)"
  unfolding DecodeGsmPdu_def
  by (intro keeps_bnd keeps_DecodeGsmHeadPdu assms) (simp add: case_prod_beta keeps_DecodeGsmBodyPdu)

lemma keeps_copy_payload: "keeps (wf_with wf_ud_out) copy_payload"
proof (rule keepsI)
  fix s :: ud_state
  assume s: "wf_pdu (fst s) \<and> wf_ud_out (snd s)"
  obtain b u t where [simp]: "s = (b, u, t)" by (cases s)
  have u: "wf_ud u" "\<forall>t'. t = Some t' \<longrightarrow> wf_tpud t'" and b: "wf_pdu b" using s by (simp_all add: wf_ud_out_def)
  let ?r = "to_u8 (GetSize b - GetIndex b)"
  let ?len = "if unat (ud_length u) < ?r then unat (ud_length u) else ?r"
  show "case copy_payload s of Ok x t \<Rightarrow> wf_pdu (fst t) \<and> wf_ud_out (snd t)
      | Fail t \<Rightarrow> wf_pdu (fst t) \<and> wf_ud_out (snd t) | Fault \<Rightarrow> False"
  proof (cases "?len = 0 \<or> IsEmpty b \<or> ?len > MAX_USER_DATA_LEN + 1")
    case True
    then show ?thesis using s by (auto simp: copy_payload_def op_simps Let_def)
  next
    case False
    then obtain d where d: "buf_data b = Some d" by (auto simp: IsEmpty_def)
    have fits: "buf_index b + ?len \<le> length d"
      using b d to_u8_le [of "GetSize b - GetIndex b"] by (auto simp: wf_pdu_def GetIndex_def GetSize_def)
    have "keeps (wf_with wf_ud_out) (seq (on_ud (\<lambda>u. u\<lparr>ud_data := write_at 0 (take ?len (drop (buf_index b) d)) (ud_data u)\<rparr>))
        (seq (on_buf (MoveForward (unat (ud_length u)))) (ret True)))"
      using False by (intro keeps_seq keeps_on_ud keeps_on_buf keeps_wf_MoveForward keeps_ret wf_ud_data)
        (auto simp: MAX_USER_DATA_LEN_def split: if_splits)
    from keepsD [OF this, of s] s show ?thesis using False d fits
      by (simp add: copy_payload_def op_simps Let_def CopyOut_def memcpy_s_ok_def not_le)
  qed
qed

lemma keeps_Decode8bitPduPartData:
  assumes "iconv_bounded ic"
  shows "keeps (wf_with wf_ud_out) (Decode8bitPduPartData ic wsize bHeaderInd udl)"
  unfolding Decode8bitPduPartData_def
  by (intro keeps_bnd keeps_if keeps_seq keeps_on_buf keeps_gets keeps_wf_ReadByte keeps_wf_MoveForward keeps_ret
      keeps_ensure keeps_on_ud keeps_for_headers keeps_GetHeaderCnt keeps_copy_payload assms) simp_all

lemma keeps_wap_push_8bit: "keeps (wf_with wf_ud_out) (wap_push_8bit n udhl)"
  unfolding wap_push_8bit_def
  by (intro keeps_seq keeps_ensure_seq keeps_on_tpud keeps_copy_into_tpud)
    (auto simp: wf_pdu_def GetIndex_def GetSize_def)

lemma keeps_Decode8bitPdu:
  assumes "iconv_bounded ic"
  shows "keeps (wf_with wf_ud_out) (Decode8bitPdu ic wsize bHeaderInd)"
  unfolding Decode8bitPdu_def case_prod_unfold Let_def
  by (intro keeps_bnd keeps_if keeps_get_out keeps_on_buf keeps_wf_ReadByte keeps_wf_PickOneByte keeps_attempt
      keeps_seq keeps_on_ud keeps_fail keeps_ret keeps_wap_push_8bit keeps_Decode8bitPduPartData assms) simp_all

lemma keeps_DecodeUcs2PduPartData:
  assumes "iconv_bounded ic"
  shows "keeps (wf_with wf_ud_out) (DecodeUcs2PduPartData ic wsize bHeaderInd current udl)"
  unfolding DecodeUcs2PduPartData_def
  by (intro keeps_bnd keeps_if keeps_seq keeps_on_buf keeps_gets keeps_wf_ReadByte keeps_wf_MoveForward keeps_ret
      keeps_ensure keeps_on_ud keeps_for_headers keeps_decode_header_at keeps_reset_fail keeps_count_header
      keeps_copy_payload assms) simp_all

lemma keeps_ucs2_wap_push: "\<not> 140 < unat udl \<Longrightarrow> keeps (wf_with wf_ud_out) (ucs2_wap_push udl)"
  unfolding ucs2_wap_push_def case_prod_unfold
  by (intro keeps_seq keeps_on_tpud keeps_copy_into_tpud)
    (auto simp: wf_pdu_def GetIndex_def GetSize_def MAX_USER_DATA_LEN_def)

lemma keeps_DecodeUcs2Pdu:
  assumes "iconv_bounded ic"
  shows "keeps (wf_with wf_ud_out) (DecodeUcs2Pdu ic wsize bHeaderInd)"
  unfolding DecodeUcs2Pdu_def case_prod_unfold
  by (intro keeps_bnd keeps_if keeps_get_out keeps_on_buf keeps_gets keeps_wf_ReadByte keeps_seq keeps_ensure keeps_on_ud
      keeps_fail keeps_ret keeps_ucs2_wap_push keeps_DecodeUcs2PduPartData assms) simp_all

lemma keeps_DecodeUserDataPdu:
  assumes "iconv_bounded ic"
  shows "keeps (wf_with wf_ud_out) (DecodeUserDataPdu ic wsize bHeaderInd scheme)"
  unfolding DecodeUserDataPdu_def
  by (intro keeps_bnd keeps_get_out)
    (auto intro!: keeps_seq keeps_on_ud keeps_fail keeps_DecodeGsmPdu keeps_Decode8bitPdu keeps_DecodeUcs2Pdu assms
      split: DataCodingScheme.splits prod.splits)

end
