(* ===== verification/Gsm_Tpdu.thy ===== *)
theory Gsm_Tpdu
  imports Gsm_User_Data
begin

text \<open>
  \<^verbatim>\<open>gsm_sms_tpdu_encode.cpp\<close>, \<^verbatim>\<open>gsm_sms_tpdu_decode.cpp\<close> and \<^verbatim>\<open>gsm_sms_tpdu_codec.cpp\<close> under
  \<^verbatim>\<open>services/sms/gsm\<close>: the transfer protocol data units SMS-SUBMIT, SMS-DELIVER, SMS-DELIVER-REPORT and
  SMS-STATUS-REPORT, with their first octet, and the two entry points of the codec. The null tests on the
  codec objects are not repeated, and neither is \<^verbatim>\<open>DebugTpdu\<close>, which only prints the octets of the buffer.
\<close>

section \<open>Types\<close>

record SmsSubmit =
  sub_bRejectDup :: bool
  sub_bStatusReport :: bool
  sub_bHeaderInd :: bool
  sub_bReplyPath :: bool
  sub_msgRef :: u8
  sub_vpf :: u8
  sub_destAddress :: AddressNumber
  sub_pid :: u8
  sub_dcs :: SmsDcs
  sub_validityPeriod :: SmsTimeStamp
  sub_userData :: SmsUDPackage

record SmsDeliver =
  del_bMoreMsg :: bool
  del_bStatusReport :: bool
  del_bHeaderInd :: bool
  del_bReplyPath :: bool
  del_originAddress :: AddressNumber
  del_pid :: u8
  del_dcs :: SmsDcs
  del_timeStamp :: SmsTimeStamp
  del_userData :: SmsUDPackage
  del_udData :: SmsTpud

record SmsDeliverReport =
  rep_reportType :: u8
  rep_bHeaderInd :: bool
  rep_failCause :: u8
  rep_paramInd :: u8
  rep_pid :: u8
  rep_dcs :: SmsDcs
  rep_userData :: SmsUDPackage

record SmsStatusReport =
  sr_bMoreMsg :: bool
  sr_bStatusReport :: bool
  sr_bHeaderInd :: bool
  sr_msgRef :: u8
  sr_recipAddress :: AddressNumber
  sr_timeStamp :: SmsTimeStamp
  sr_dischargeTime :: SmsTimeStamp
  sr_status :: u8
  sr_paramInd :: u8
  sr_pid :: u8
  sr_dcs :: SmsDcs
  sr_userData :: SmsUDPackage

text \<open>\<^verbatim>\<open>tpduType\<close> with the member of the union it names, and the zeroed struct of a caller.\<close>

datatype SmsTpdu =
  SMS_TPDU_SUBMIT SmsSubmit
| SMS_TPDU_DELIVER SmsDeliver
| SMS_TPDU_DELIVER_REP SmsDeliverReport
| SMS_TPDU_STATUS_REP SmsStatusReport

abbreviation (input) "SMS_VPF_NOT_PRESENT \<equiv> 0 :: u8"
abbreviation (input) "SMS_VPF_ENHANCED \<equiv> 1 :: u8"
abbreviation (input) "SMS_VPF_RELATIVE \<equiv> 2 :: u8"
abbreviation (input) "SMS_VPF_ABSOLUTE \<equiv> 3 :: u8"
abbreviation (input) "SMS_REPORT_NEGATIVE \<equiv> 1 :: u8"
abbreviation (input) "SMS_NORMAL_PID \<equiv> 0 :: u8"

definition zero_dcs :: SmsDcs where
  "zero_dcs = \<lparr>bCompressed = False, bMWI = False, bIndActive = False, msgClass = SMS_INSTANT_MESSAGE,
     codingScheme = DATA_CODING_7BIT, codingGroup = CODING_GENERAL_GROUP, indType = SMS_VOICE_INDICATOR\<rparr>"

definition zero_time :: SmsTimeStamp where
  "zero_time = \<lparr>ts_format = SMS_TIME_EMPTY, ts_relative = 0, ts_absolute =
     \<lparr>ta_year = 0, ta_month = 0, ta_day = 0, ta_hour = 0, ta_minute = 0, ta_second = 0, ta_timeZone = 0\<rparr>\<rparr>"

definition zero_tpud :: SmsTpud where
  "zero_tpud = \<lparr>tpud_udl = 0, tpud_ud = replicate (MAX_USER_DATA_LEN + 1) 0\<rparr>"

definition zero_submit :: SmsSubmit where
  "zero_submit = \<lparr>sub_bRejectDup = False, sub_bStatusReport = False, sub_bHeaderInd = False,
     sub_bReplyPath = False, sub_msgRef = 0, sub_vpf = 0, sub_destAddress = zero_address, sub_pid = 0,
     sub_dcs = zero_dcs, sub_validityPeriod = zero_time, sub_userData = zero_ud\<rparr>"

definition zero_deliver :: SmsDeliver where
  "zero_deliver = \<lparr>del_bMoreMsg = False, del_bStatusReport = False, del_bHeaderInd = False,
     del_bReplyPath = False, del_originAddress = zero_address, del_pid = 0, del_dcs = zero_dcs,
     del_timeStamp = zero_time, del_userData = zero_ud, del_udData = zero_tpud\<rparr>"

definition zero_status_report :: SmsStatusReport where
  "zero_status_report = \<lparr>sr_bMoreMsg = False, sr_bStatusReport = False, sr_bHeaderInd = False,
     sr_msgRef = 0, sr_recipAddress = zero_address, sr_timeStamp = zero_time, sr_dischargeTime = zero_time,
     sr_status = 0, sr_paramInd = 0, sr_pid = 0, sr_dcs = zero_dcs, sr_userData = zero_ud\<rparr>"

section \<open>Encoding\<close>

text \<open>
  The idiom of the first octet: \<^verbatim>\<open>GetTopValue(oneByte)\<close>, then \<^verbatim>\<open>InsertByte(oneByte | v, GetIndex())\<close>, under a
  condition.
\<close>

definition or_top :: "bool \<Rightarrow> u8 \<Rightarrow> (SmsWriteBuffer, unit) op" where
  "or_top c v =
     (if c then
        bnd GetTopValue (\<lambda>oneByte.
        bnd (gets GetIndex) (\<lambda>index. InsertByte (oneByte OR v) index))
      else ret ())"

definition insert_top :: "u8 \<Rightarrow> (SmsWriteBuffer, unit) op" where
  "insert_top v = bnd (gets GetIndex) (\<lambda>index. InsertByte v index)"

definition step_one :: "(SmsWriteBuffer, unit) op" where
  "step_one = bnd (MoveForward 1) (\<lambda>_. ret ())"

text \<open>
  The idiom that appends a \<^verbatim>\<open>std::string\<close>: a test against the size, \<^verbatim>\<open>memcpy_s\<close> of \<^verbatim>\<open>len\<close> octets with \<^verbatim>\<open>len\<close> as
  destination size, and \<^verbatim>\<open>MoveForward(len)\<close>. The storage of the string ends with one NUL; a copy beyond it
  is a read outside the array.
\<close>

definition append_str :: "nat \<Rightarrow> bytes \<Rightarrow> (SmsWriteBuffer, unit) op" where
  "append_str len s =
     bnd (gets (\<lambda>b. IsEmpty b \<or> GetIndex b + len > GetSize b)) (\<lambda>bad.
     seq (ensure (\<not> bad))
       (if len > length s + 1 then fault
        else seq (CopyIn len (take len (s @ [0]))) (
             bnd (MoveForward len) (\<lambda>_. ret ()))))"

text \<open>The octet of the data coding scheme, which is the NUL of the string when \<^verbatim>\<open>EncodeDCS\<close> leaves it empty.\<close>

definition append_dcs :: "SmsDcs \<Rightarrow> (SmsWriteBuffer, unit) op" where
  "append_dcs dcsData =
     bnd (with_new [] (ignore (EncodeDCS dcsData))) (\<lambda>(_, dcs).
     bnd (gets (\<lambda>b. (IsEmpty b, GetIndex b, GetSize b))) (\<lambda>(empty, index, size).
     seq (ensure (\<not> (empty \<or> index + 1 > size))) (
     seq (CopyIn (size - index - 1) [front dcs])
       step_one)))"

definition append_address :: "AddressNumber \<Rightarrow> (SmsWriteBuffer, unit) op" where
  "append_address num =
     bnd (with_new [] (EncodeAddressPdu num)) (\<lambda>(_, address).
     append_str (to_u8 (length address)) address)"

subsection \<open>SMS-SUBMIT\<close>

text \<open>The three functions are \<^verbatim>\<open>void\<close>; \<open>Fail\<close> is an early \<^verbatim>\<open>return\<close>.\<close>

definition EncodeSubmitTypeData :: "SmsSubmit \<Rightarrow> (SmsWriteBuffer, unit) op" where
  "EncodeSubmitTypeData submit =
     seq (or_top (sub_bStatusReport submit) 0x20) (
     seq (or_top (sub_bHeaderInd submit \<and> CT_SMSC \<noteq> c_str (address (sub_destAddress submit))) 0x40) (
     seq (or_top (sub_bReplyPath submit) 0x80)
       step_one))"

definition EncodeSubmitTypePartData :: "SmsSubmit \<Rightarrow> (SmsWriteBuffer, unit) op" where
  "EncodeSubmitTypePartData submit =
     seq (if sub_vpf submit = SMS_VPF_ENHANCED then or_top True 0x08
          else if sub_vpf submit = SMS_VPF_RELATIVE then or_top True 0x10
          else if sub_vpf submit = SMS_VPF_ABSOLUTE then or_top True 0x18
          else ret ())
       (EncodeSubmitTypeData submit)"

definition EncodeSubmitTpduType :: "SmsSubmit \<Rightarrow> (SmsWriteBuffer, unit) op" where
  "EncodeSubmitTpduType submit =
     seq (insert_top 0x01) (
     seq (or_top (sub_bRejectDup submit) 0x04)
       (EncodeSubmitTypePartData submit))"

definition EncodeSubmitPduPartData :: "SmsSubmit \<Rightarrow> (SmsWriteBuffer, unit) op" where
  "EncodeSubmitPduPartData submit =
     seq (append_dcs (sub_dcs submit)) (
     seq (if sub_vpf submit \<noteq> SMS_VPF_NOT_PRESENT then
            bnd (with_new [] (ignore (EncodeTimePdu (sub_validityPeriod submit)))) (\<lambda>(_, vpTime).
            let position = to_u8 (length vpTime)
            in if position > 0 then append_str position vpTime else ret ())
          else ret ())
       (EncodeUserDataPdu (sub_userData submit) (codingScheme (sub_dcs submit))
          (c_str (address (sub_destAddress submit)))))"

definition EncodeSubmitPdu :: "SmsSubmit \<Rightarrow> (SmsWriteBuffer, unit) op" where
  "EncodeSubmitPdu submit =
     seq (ignore (EncodeSubmitTpduType submit)) (
     seq (WriteByte (sub_msgRef submit)) (
     seq (append_address (sub_destAddress submit)) (
     seq (WriteByte (sub_pid submit))
       (EncodeSubmitPduPartData submit))))"

subsection \<open>SMS-DELIVER\<close>

definition EncodeDeliverData :: "SmsDeliver \<Rightarrow> (SmsWriteBuffer, unit) op" where
  "EncodeDeliverData deliver =
     seq (append_dcs (del_dcs deliver)) (
     bnd (with_new [] (ignore (EncodeTimePdu (del_timeStamp deliver)))) (\<lambda>(_, scts).
     seq (append_str (to_u8 (length scts)) scts)
       (EncodeUserDataPdu (del_userData deliver) (codingScheme (del_dcs deliver)) [])))"

definition EncodeDeliverPartData :: "SmsDeliver \<Rightarrow> (SmsWriteBuffer, unit) op" where
  "EncodeDeliverPartData deliver =
     seq (if del_bReplyPath deliver then bnd GetTopValue (\<lambda>oneByte. WriteByte (oneByte OR 0x80)) else ret ()) (
     seq (append_address (del_originAddress deliver)) (
     seq (WriteByte (del_pid deliver))
       (EncodeDeliverData deliver)))"

definition EncodeDeliverPdu :: "SmsDeliver \<Rightarrow> (SmsWriteBuffer, unit) op" where
  "EncodeDeliverPdu deliver =
     seq (insert_top 0x00) (
     seq (or_top (\<not> del_bMoreMsg deliver) 0x04) (
     seq (or_top (del_bStatusReport deliver) 0x20) (
     seq (or_top (del_bHeaderInd deliver) 0x40)
       (EncodeDeliverPartData deliver))))"

subsection \<open>SMS-DELIVER-REPORT\<close>

definition EncodeDeliverReportPartData :: "SmsDeliverReport \<Rightarrow> (SmsWriteBuffer, unit) op" where
  "EncodeDeliverReportPartData rep =
     seq (if rep_paramInd rep AND 0x02 \<noteq> 0 then append_dcs (rep_dcs rep) else ret ())
       (if rep_paramInd rep AND 0x04 \<noteq> 0
        then EncodeUserDataPdu (rep_userData rep) (codingScheme (rep_dcs rep)) [] else fail)"

definition EncodeDeliverReportPdu :: "SmsDeliverReport \<Rightarrow> (SmsWriteBuffer, unit) op" where
  "EncodeDeliverReportPdu rep =
     seq (insert_top 0x00) (
     seq (or_top (rep_bHeaderInd rep) 0x40) (
     seq step_one (
     seq (if rep_reportType rep = SMS_REPORT_NEGATIVE then WriteByte (rep_failCause rep) else ret ()) (
     seq (WriteByte (rep_paramInd rep)) (
     seq (if rep_paramInd rep AND 0x01 \<noteq> 0 then WriteByte (rep_pid rep) else ret ())
       (EncodeDeliverReportPartData rep))))))"

subsection \<open>SMS-STATUS-REPORT\<close>

definition EncodeStatusReportData :: "SmsStatusReport \<Rightarrow> nat \<Rightarrow> (SmsWriteBuffer, unit) op" where
  "EncodeStatusReportData sr len =
     seq (WriteByte (sr_status sr)) (
     seq (WriteByte (sr_paramInd sr)) (
     seq (if sr_paramInd sr AND 0x01 \<noteq> 0 then WriteByte (sr_pid sr) else ret ()) (
     seq (if sr_paramInd sr AND 0x02 \<noteq> 0 then
            bnd (with_new [] (ignore (EncodeDCS (sr_dcs sr)))) (\<lambda>(_, dcs). append_str len dcs)
          else ret ())
       (if sr_paramInd sr AND 0x04 \<noteq> 0
        then EncodeUserDataPdu (sr_userData sr) (codingScheme (sr_dcs sr)) [] else fail))))"

text \<open>The discharge time is copied with the length of the time stamp before it.\<close>

definition EncodeStatusReportPartData :: "SmsStatusReport \<Rightarrow> (SmsWriteBuffer, unit) op" where
  "EncodeStatusReportPartData sr =
     seq (append_address (sr_recipAddress sr)) (
     bnd (with_new [] (ignore (EncodeTimePdu (sr_timeStamp sr)))) (\<lambda>(_, scts).
     let len = to_u8 (length scts)
     in seq (append_str len scts) (
        bnd (with_new [] (ignore (EncodeTimePdu (sr_dischargeTime sr)))) (\<lambda>(_, dt).
        seq (append_str len dt)
          (EncodeStatusReportData sr len)))))"

definition EncodeStatusReportPdu :: "SmsStatusReport \<Rightarrow> (SmsWriteBuffer, unit) op" where
  "EncodeStatusReportPdu sr =
     seq (insert_top 0x02) (
     seq (or_top (sr_bMoreMsg sr) 0x04) (
     seq (or_top (sr_bStatusReport sr) 0x20) (
     seq (if sr_bHeaderInd sr then bnd GetTopValue (\<lambda>oneByte. WriteByte (oneByte OR 0x40)) else ret ()) (
     seq (WriteByte (sr_msgRef sr))
       (EncodeStatusReportPartData sr)))))"

subsection \<open>The entry point\<close>

definition MAX_ENCODE_LEN :: nat where
  "MAX_ENCODE_LEN = 255"

definition MAX_DECODE_LEN :: nat where
  "MAX_DECODE_LEN = 520"

definition encode_tpdu :: "SmsTpdu \<Rightarrow> (SmsWriteBuffer, unit) op" where
  "encode_tpdu source = (case source of
     SMS_TPDU_SUBMIT s \<Rightarrow> EncodeSubmitPdu s
   | SMS_TPDU_DELIVER d \<Rightarrow> EncodeDeliverPdu d
   | SMS_TPDU_DELIVER_REP r \<Rightarrow> EncodeDeliverReportPdu r
   | SMS_TPDU_STATUS_REP r \<Rightarrow> EncodeStatusReportPdu r)"

text \<open>The outputs are \<^verbatim>\<open>pdu\<close>, an array of \<^verbatim>\<open>pduLen\<close> characters, and \<^verbatim>\<open>bufLen\<close>.\<close>

definition EncodeSmsPdu :: "SmsTpdu \<Rightarrow> nat \<Rightarrow> (bytes \<times> nat, unit) op" where
  "EncodeSmsPdu source pduLen =
     seq (ensure (\<not> (pduLen = 0 \<or> pduLen > MAX_ENCODE_LEN))) (
     bnd (with_new SmsWriteBuffer (attempt (encode_tpdu source))) (\<lambda>(encodeRet, pduBuffer).
     let bufLen = GetIndex pduBuffer
     in seq (upd (\<lambda>s. (fst s, bufLen))) (
        seq (ensure (\<not> (encodeRet = None \<or> bufLen > pduLen))) (
        bnd (with_new pduBuffer GetPduBuffer) (\<lambda>(buf, _).
        bnd (gets (\<lambda>s. length (fst s))) (\<lambda>room.
        if bufLen > length buf \<or> bufLen > room then fault
        else upd (\<lambda>s. (write_at 0 (take bufLen buf) (fst s), snd s))))))))"

section \<open>Decoding\<close>

subsection \<open>SMS-SUBMIT\<close>

definition DecodeSubmitPartData :: "iconv \<Rightarrow> nat \<Rightarrow> (SmsReadBuffer \<times> SmsSubmit, unit) op" where
  "DecodeSubmitPartData ic wsize =
     bnd (on_buf PickOneByte) (\<lambda>oneByte.
     seq (on_out (\<lambda>s. s\<lparr>sub_bReplyPath := oneByte AND 0x80 \<noteq> 0\<rparr>)) (
     seq (on_buf (MoveForward 1)) (
     bnd (on_buf ReadByte) (\<lambda>oneByte.
     seq (on_out (\<lambda>s. s\<lparr>sub_msgRef := oneByte\<rparr>)) (
     seq (zoom sub_destAddress (\<lambda>a s. s\<lparr>sub_destAddress := a\<rparr>) (DecodeAddressPdu ic wsize)) (
     bnd (on_buf ReadByte) (\<lambda>oneByte.
     seq (on_out (\<lambda>s. s\<lparr>sub_pid := oneByte\<rparr>)) (
     seq (zoom sub_dcs (\<lambda>d s. s\<lparr>sub_dcs := d\<rparr>) DecodeDcsPdu) (
     bnd get_out (\<lambda>submit.
     zoom (\<lambda>s. (sub_userData s, None)) (\<lambda>(u, _) s. s\<lparr>sub_userData := u\<rparr>)
       (DecodeUserDataPdu ic wsize (sub_bHeaderInd submit) (codingScheme (sub_dcs submit)))))))))))))"

definition DecodeSubmit :: "iconv \<Rightarrow> nat \<Rightarrow> (SmsReadBuffer \<times> SmsSubmit, unit) op" where
  "DecodeSubmit ic wsize =
     bnd (on_buf PickOneByte) (\<lambda>oneByte.
     seq (on_out (\<lambda>s. s\<lparr>sub_bRejectDup := \<not> (oneByte AND 0x04 \<noteq> 0)\<rparr>)) (
     bnd (on_buf PickOneByte) (\<lambda>oneByte.
     seq (on_out (\<lambda>s. s\<lparr>sub_vpf := oneByte AND 0x18\<rparr>)) (
     bnd (on_buf PickOneByte) (\<lambda>oneByte.
     seq (on_out (\<lambda>s. s\<lparr>sub_bStatusReport := oneByte AND 0x20 \<noteq> 0\<rparr>)) (
     bnd (on_buf PickOneByte) (\<lambda>oneByte.
     seq (on_out (\<lambda>s. s\<lparr>sub_bHeaderInd := oneByte AND 0x40 \<noteq> 0\<rparr>))
       (DecodeSubmitPartData ic wsize))))))))"

subsection \<open>SMS-DELIVER\<close>

definition DecodePartData :: "u8 \<Rightarrow> SmsDeliver \<Rightarrow> SmsDeliver" where
  "DecodePartData pTpdu deliver = deliver\<lparr>
     del_bMoreMsg := \<not> (pTpdu AND 0x04 \<noteq> 0), del_bStatusReport := pTpdu AND 0x20 \<noteq> 0,
     del_bHeaderInd := pTpdu AND 0x40 \<noteq> 0, del_bReplyPath := pTpdu AND 0x80 \<noteq> 0\<rparr>"

text \<open>The effect of a voicemail message on the struct.\<close>

definition set_voicemail :: "int \<Rightarrow> int \<Rightarrow> SmsDcs \<Rightarrow> SmsDcs" where
  "set_voicemail setType indicator dcs = dcs\<lparr>
     bMWI := True, bIndActive := \<not> setType = 0,
     indType := (if indicator = 0 then SMS_VOICE_INDICATOR
                 else if indicator = 1 then SMS_VOICE2_INDICATOR else indType dcs)\<rparr>"

text \<open>\<^verbatim>\<open>CheckVoicemail\<close> works on the buffer and the two local variables, which start at -1.\<close>

definition check_voicemail :: "(SmsReadBuffer \<times> SmsDeliver, (int \<times> int) option) op" where
  "check_voicemail s =
     (case CheckVoicemail (fst s, (-1, -1)) of
        Ok _ t \<Rightarrow> Ok (Some (snd t)) (fst t, snd s)
      | Fail t \<Rightarrow> Ok None (fst t, snd s)
      | Fault \<Rightarrow> Fault)"

definition DecodeDeliverPartData :: "iconv \<Rightarrow> nat \<Rightarrow> (SmsReadBuffer \<times> SmsDeliver, unit) op" where
  "DecodeDeliverPartData ic wsize =
     bnd get_out (\<lambda>deliver.
     seq (if del_pid deliver = 0x20 \<and> ton (del_originAddress deliver) = TYPE_ALPHA_NUMERIC then
            bnd check_voicemail (\<lambda>voicemail.
            case voicemail of
              Some (setType, indicator) \<Rightarrow>
                on_out (\<lambda>d. d\<lparr>del_dcs := set_voicemail setType indicator (del_dcs d)\<rparr>)
            | None \<Rightarrow> ret ())
          else ret ()) (
     seq (zoom del_timeStamp (\<lambda>t d. d\<lparr>del_timeStamp := t\<rparr>) DecodeTimePdu) (
     bnd get_out (\<lambda>deliver.
     zoom (\<lambda>d. (del_userData d, Some (del_udData d)))
       (\<lambda>(u, t) d. d\<lparr>del_userData := u, del_udData := (case t of Some x \<Rightarrow> x | None \<Rightarrow> del_udData d)\<rparr>)
       (DecodeUserDataPdu ic wsize (del_bHeaderInd deliver) (codingScheme (del_dcs deliver)))))))"

definition DecodeDeliver :: "iconv \<Rightarrow> nat \<Rightarrow> (SmsReadBuffer \<times> SmsDeliver, unit) op" where
  "DecodeDeliver ic wsize =
     bnd (on_buf ReadByte) (\<lambda>oneByte.
     seq (on_out (DecodePartData oneByte)) (
     seq (zoom del_originAddress (\<lambda>a d. d\<lparr>del_originAddress := a\<rparr>) (DecodeAddressPdu ic wsize)) (
     bnd (on_buf ReadByte) (\<lambda>oneByte.
     seq (on_out (\<lambda>d. d\<lparr>del_pid := oneByte\<rparr>)) (
     seq (zoom del_dcs (\<lambda>x d. d\<lparr>del_dcs := x\<rparr>) DecodeDcsPdu) (
     bnd (on_buf (gets GetIndex)) (\<lambda>index.
     bnd (on_buf (PickOneByteFromIndex (u16_pred index))) (\<lambda>oneByte.
     seq (if oneByte = 0x84 then on_out (\<lambda>d. d\<lparr>del_dcs := (del_dcs d)\<lparr>codingScheme := DATA_CODING_EUCKR\<rparr>\<rparr>)
          else ret ())
       (DecodeDeliverPartData ic wsize)))))))))"

subsection \<open>SMS-STATUS-REPORT\<close>

definition DecodeStatusReportData :: "iconv \<Rightarrow> nat \<Rightarrow> (SmsReadBuffer \<times> SmsStatusReport, unit) op" where
  "DecodeStatusReportData ic wsize =
     bnd get_out (\<lambda>sr.
     seq (if sr_paramInd sr AND 0x01 \<noteq> 0 then
            bnd (on_buf ReadByte) (\<lambda>oneByte. on_out (\<lambda>s. s\<lparr>sr_pid := oneByte\<rparr>))
          else ret ()) (
     seq (if sr_paramInd sr AND 0x02 \<noteq> 0 then zoom sr_dcs (\<lambda>d s. s\<lparr>sr_dcs := d\<rparr>) DecodeDcsPdu else ret ()) (
     bnd get_out (\<lambda>sr.
     if sr_paramInd sr AND 0x04 \<noteq> 0 then
       zoom (\<lambda>s. (sr_userData s, None)) (\<lambda>(u, _) s. s\<lparr>sr_userData := u\<rparr>)
         (DecodeUserDataPdu ic wsize (sr_bHeaderInd sr) (codingScheme (sr_dcs sr)))
     else ret ()))))"

text \<open>What a parameter indicator of 0 resets.\<close>

definition no_parameters :: "SmsStatusReport \<Rightarrow> SmsStatusReport" where
  "no_parameters s = s\<lparr>
     sr_pid := SMS_NORMAL_PID,
     sr_dcs := \<lparr>bCompressed = False, bMWI = False, bIndActive = False, msgClass = SMS_CLASS_UNKNOWN,
       codingScheme = DATA_CODING_7BIT, codingGroup = CODING_GENERAL_GROUP, indType = SMS_OTHER_INDICATOR\<rparr>,
     sr_userData := (sr_userData s)\<lparr>headerCnt := 0, ud_length := 0, ud_data := replicate (MAX_USER_DATA_LEN + 1) 0\<rparr>\<rparr>"

definition DecodeStatusReportPartData :: "iconv \<Rightarrow> nat \<Rightarrow> (SmsReadBuffer \<times> SmsStatusReport, unit) op" where
  "DecodeStatusReportPartData ic wsize =
     seq (zoom sr_dischargeTime (\<lambda>t s. s\<lparr>sr_dischargeTime := t\<rparr>) DecodeTimePdu) (
     bnd (on_buf ReadByte) (\<lambda>oneByte.
     seq (on_out (\<lambda>s. s\<lparr>sr_status := oneByte\<rparr>)) (
     bnd (attempt (on_buf ReadByte)) (\<lambda>r.
     case r of
       None \<Rightarrow> ret ()
     | Some oneByte \<Rightarrow>
         seq (on_out (\<lambda>s. s\<lparr>sr_paramInd := oneByte\<rparr>)) (
         seq (if oneByte = 0 then on_out no_parameters else ret ())
           (DecodeStatusReportData ic wsize))))))"

definition DecodeStatusReport :: "iconv \<Rightarrow> nat \<Rightarrow> (SmsReadBuffer \<times> SmsStatusReport, unit) op" where
  "DecodeStatusReport ic wsize =
     bnd (on_buf PickOneByte) (\<lambda>oneByte.
     seq (on_out (\<lambda>s. s\<lparr>sr_bMoreMsg := \<not> (oneByte AND 0x04 \<noteq> 0)\<rparr>)) (
     bnd (on_buf PickOneByte) (\<lambda>oneByte.
     seq (on_out (\<lambda>s. s\<lparr>sr_bStatusReport := oneByte AND 0x20 \<noteq> 0\<rparr>)) (
     bnd (on_buf ReadByte) (\<lambda>oneByte.
     seq (on_out (\<lambda>s. s\<lparr>sr_bHeaderInd := oneByte AND 0x40 \<noteq> 0\<rparr>)) (
     bnd (on_buf ReadByte) (\<lambda>oneByte.
     seq (on_out (\<lambda>s. s\<lparr>sr_msgRef := oneByte\<rparr>)) (
     seq (zoom sr_recipAddress (\<lambda>a s. s\<lparr>sr_recipAddress := a\<rparr>) (DecodeAddressPdu ic wsize)) (
     seq (zoom sr_timeStamp (\<lambda>t s. s\<lparr>sr_timeStamp := t\<rparr>) DecodeTimePdu)
       (DecodeStatusReportPartData ic wsize))))))))))"

subsection \<open>The entry point\<close>

text \<open>
  \<^verbatim>\<open>DecodeSmsPdu\<close> on the \<^verbatim>\<open>TpduLen\<close> octets of \<^verbatim>\<open>pTpdu\<close>. The callers hand in a zeroed \<^verbatim>\<open>SmsTpdu\<close>; the result is
  the member of the union the message type names, also when decoding fails half way.
\<close>

definition run_decoder ::
  "('o \<Rightarrow> SmsTpdu) \<Rightarrow> 'o \<Rightarrow> nat \<Rightarrow> (SmsReadBuffer \<times> 'o, unit) op \<Rightarrow> SmsReadBuffer \<Rightarrow> (unit, SmsTpdu option) outcome" where
  "run_decoder mk start TpduLen decode buffer =
     (case decode (buffer, start) of
        Ok _ t \<Rightarrow> if GetIndex (fst t) \<le> TpduLen + 1 then Ok () (Some (mk (snd t))) else Fail (Some (mk (snd t)))
      | Fail t \<Rightarrow> Fail (Some (mk (snd t)))
      | Fault \<Rightarrow> Fault)"

definition DecodeSmsPdu :: "iconv \<Rightarrow> nat \<Rightarrow> bytes \<Rightarrow> (unit, SmsTpdu option) outcome" where
  "DecodeSmsPdu ic wsize pTpdu =
     (let TpduLen = length pTpdu
      in if TpduLen = 0 \<or> TpduLen > MAX_DECODE_LEN then Fail None
         else
           let mti = hd pTpdu AND 0x03
           in if mti = 0 \<or> mti = 3 then
                run_decoder SMS_TPDU_DELIVER zero_deliver TpduLen (DecodeDeliver ic wsize) (SmsReadBuffer pTpdu)
              else if mti = 1 then
                run_decoder SMS_TPDU_SUBMIT zero_submit TpduLen (DecodeSubmit ic wsize) (SmsReadBuffer pTpdu)
              else
                run_decoder SMS_TPDU_STATUS_REP zero_status_report TpduLen (DecodeStatusReport ic wsize) (SmsReadBuffer pTpdu))"

section \<open>Memory safety of decoding\<close>

definition wf_submit :: "SmsSubmit \<Rightarrow> bool" where
  "wf_submit s \<longleftrightarrow> wf_address (sub_destAddress s) \<and> wf_ud (sub_userData s)"

definition wf_deliver :: "SmsDeliver \<Rightarrow> bool" where
  "wf_deliver d \<longleftrightarrow> wf_address (del_originAddress d) \<and> wf_ud (del_userData d) \<and> wf_tpud (del_udData d)"

definition wf_status_report :: "SmsStatusReport \<Rightarrow> bool" where
  "wf_status_report s \<longleftrightarrow> wf_address (sr_recipAddress s) \<and> wf_ud (sr_userData s)"

definition wf_tpdu :: "SmsTpdu \<Rightarrow> bool" where
  "wf_tpdu x = (case x of
     SMS_TPDU_SUBMIT s \<Rightarrow> wf_submit s | SMS_TPDU_DELIVER d \<Rightarrow> wf_deliver d
   | SMS_TPDU_DELIVER_REP r \<Rightarrow> wf_ud (rep_userData r) | SMS_TPDU_STATUS_REP r \<Rightarrow> wf_status_report r)"

lemma keeps_user_data_None:
  assumes "iconv_bounded ic" "\<And>x. J x \<Longrightarrow> wf_ud (get x)" "\<And>x u. J x \<Longrightarrow> wf_ud u \<Longrightarrow> J (put u x)"
  shows "keeps (wf_with J) (zoom (\<lambda>s. (get s, None)) (\<lambda>(u, _) s. put u s) (DecodeUserDataPdu ic w h c))"
  by (rule keeps_zoom [OF keeps_DecodeUserDataPdu [OF assms(1)]])
    (use assms(2,3) in \<open>auto simp: wf_ud_out_def split: prod.splits\<close>)

lemma keeps_DecodeSubmit:
  assumes "iconv_bounded ic"
  shows "keeps (wf_with wf_submit) (DecodeSubmit ic w)"
  unfolding DecodeSubmit_def DecodeSubmitPartData_def
  by (intro keeps_bnd keeps_seq keeps_on_buf keeps_on_out keeps_get_out keeps_wf_PickOneByte keeps_wf_ReadByte
      keeps_wf_MoveForward keeps_zoom [OF keeps_DecodeAddressPdu] keeps_zoom [OF keeps_DecodeDcsPdu]
      keeps_user_data_None assms)
    (simp_all add: wf_submit_def)

lemma keeps_check_voicemail: "keeps (wf_with J) check_voicemail"
proof (rule keepsI)
  fix s :: "SmsReadBuffer \<times> SmsDeliver"
  assume s: "wf_pdu (fst s) \<and> J (snd s)"
  then have "wf_pdu (fst (fst s, (-1 :: int, -1 :: int))) \<and> True" by simp
  from keepsD [OF keeps_CheckVoicemail this] s
  show "case check_voicemail s of Ok x t \<Rightarrow> wf_pdu (fst t) \<and> J (snd t)
      | Fail t \<Rightarrow> wf_pdu (fst t) \<and> J (snd t) | Fault \<Rightarrow> False"
    by (auto simp: check_voicemail_def split: outcome.splits)
qed

lemma keeps_DecodeDeliverPartData:
  assumes "iconv_bounded ic"
  shows "keeps (wf_with wf_deliver) (DecodeDeliverPartData ic w)"
proof -
  have "keeps (wf_with wf_deliver) (zoom (\<lambda>d. (del_userData d, Some (del_udData d)))
      (\<lambda>(u, t) d. d\<lparr>del_userData := u, del_udData := (case t of Some x \<Rightarrow> x | None \<Rightarrow> del_udData d)\<rparr>)
      (DecodeUserDataPdu ic w h c))" for h c
    by (rule keeps_zoom [OF keeps_DecodeUserDataPdu [OF assms]])
      (auto simp: wf_ud_out_def wf_deliver_def split: prod.splits option.splits)
  then show ?thesis unfolding DecodeDeliverPartData_def
    by (intro keeps_bnd keeps_seq keeps_if keeps_ret keeps_get_out keeps_check_voicemail keeps_zoom [OF keeps_DecodeTimePdu])
      (auto simp: wf_deliver_def intro!: keeps_ret keeps_on_out split: option.splits)
qed

lemma keeps_DecodeDeliver:
  assumes "iconv_bounded ic"
  shows "keeps (wf_with wf_deliver) (DecodeDeliver ic w)"
  unfolding DecodeDeliver_def
  by (intro keeps_bnd keeps_seq keeps_if keeps_ret keeps_gets keeps_on_buf keeps_on_out keeps_wf_ReadByte
      keeps_wf_PickOneByteFromIndex keeps_zoom [OF keeps_DecodeAddressPdu] keeps_zoom [OF keeps_DecodeDcsPdu]
      keeps_DecodeDeliverPartData assms)
    (simp_all add: wf_deliver_def DecodePartData_def)

lemma keeps_DecodeStatusReportData:
  assumes "iconv_bounded ic"
  shows "keeps (wf_with wf_status_report) (DecodeStatusReportData ic w)"
  unfolding DecodeStatusReportData_def
  by (intro keeps_bnd keeps_seq keeps_if keeps_ret keeps_on_buf keeps_on_out keeps_get_out keeps_wf_ReadByte
      keeps_zoom [OF keeps_DecodeDcsPdu] keeps_user_data_None assms)
    (simp_all add: wf_status_report_def)

lemma wf_no_parameters: "wf_status_report s \<Longrightarrow> wf_status_report (no_parameters s)"
  by (simp add: wf_status_report_def no_parameters_def wf_ud_def)

lemma keeps_DecodeStatusReport:
  assumes "iconv_bounded ic"
  shows "keeps (wf_with wf_status_report) (DecodeStatusReport ic w)"
  unfolding DecodeStatusReport_def DecodeStatusReportPartData_def
  by (intro keeps_bnd keeps_seq keeps_if keeps_option keeps_ret keeps_attempt keeps_on_buf keeps_on_out
      keeps_wf_PickOneByte keeps_wf_ReadByte wf_no_parameters keeps_DecodeStatusReportData
      keeps_zoom [OF keeps_DecodeAddressPdu] keeps_zoom [OF keeps_DecodeTimePdu] assms)
    (simp_all add: wf_status_report_def)

lemma wf_zero:
  "wf_submit zero_submit" "wf_deliver zero_deliver" "wf_status_report zero_status_report"
  by (simp_all add: wf_submit_def wf_deliver_def wf_status_report_def zero_submit_def zero_deliver_def
      zero_status_report_def zero_tpud_def wf_tpud_def wf_zero_address)

lemma run_decoder_safe:
  assumes "keeps (wf_with J) decode" "J start" "\<And>x. J x \<Longrightarrow> wf_tpdu (mk x)"
  shows "case run_decoder mk start n decode (SmsReadBuffer pdu) of
      Ok _ t \<Rightarrow> (\<exists>x. t = Some x \<and> wf_tpdu x) | Fail t \<Rightarrow> (\<forall>x. t = Some x \<longrightarrow> wf_tpdu x) | Fault \<Rightarrow> False"
  using keepsD [OF assms(1), of "(SmsReadBuffer pdu, start)"] assms(2,3) wf_SmsReadBuffer [of pdu]
  by (auto simp: run_decoder_def split: outcome.splits)

text \<open>
  C1. Memory safety of the decoder on untrusted input: whatever octets arrive from the network,
  \<^verbatim>\<open>DecodeSmsPdu\<close> and everything it calls (addresses, coding scheme, time stamps, headers, user data, text
  conversion) never reads or writes outside an array. It returns \<^verbatim>\<open>false\<close>, or \<^verbatim>\<open>true\<close> with a struct whose
  arrays have their declared sizes. \<^verbatim>\<open>iconv\<close> is only assumed not to write more than it was given room for.
\<close>

theorem DecodeSmsPdu_safe:
  assumes "iconv_bounded ic"
  shows "case DecodeSmsPdu ic w pdu of
      Ok _ t \<Rightarrow> (\<exists>x. t = Some x \<and> wf_tpdu x) | Fail t \<Rightarrow> (\<forall>x. t = Some x \<longrightarrow> wf_tpdu x) | Fault \<Rightarrow> False"
  unfolding DecodeSmsPdu_def Let_def
  using run_decoder_safe [OF keeps_DecodeDeliver [OF assms] wf_zero(2), of SMS_TPDU_DELIVER]
    run_decoder_safe [OF keeps_DecodeSubmit [OF assms] wf_zero(1), of SMS_TPDU_SUBMIT]
    run_decoder_safe [OF keeps_DecodeStatusReport [OF assms] wf_zero(3), of SMS_TPDU_STATUS_REP]
  by (simp add: wf_tpdu_def)

theorem DecodeSmsPdu_safe_witness:
  "case DecodeSmsPdu (\<lambda>_ _. Some (\<lambda>src n. (True, take n src))) 8 [0x00, 0x05, 0x91] of
     Ok _ t \<Rightarrow> (\<exists>x. t = Some x \<and> wf_tpdu x) | Fail t \<Rightarrow> (\<forall>x. t = Some x \<longrightarrow> wf_tpdu x) | Fault \<Rightarrow> False"
  by (rule DecodeSmsPdu_safe) (simp add: iconv_bounded_def)

end
