(* ===== verification/Sms_Base_Message.thy ===== *)
theory Sms_Base_Message
  imports Gsm_Tpdu "HOL-Library.Signed_Division"
begin

text \<open>
  \<^verbatim>\<open>services/sms/sms_base_message.cpp\<close>: the object of a short message that the GSM and the CDMA message share,
  its view of the user data headers, and the splitting of a text into segments. ICU's character
  \<^verbatim>\<open>BreakIterator\<close> is a parameter; the virtual \<^verbatim>\<open>DecodeMessage\<close> is the interface \<open>message_decoder\<close>.
\<close>

section \<open>The object\<close>

record SmsConcat =
  cc_msgRef :: u16
  cc_seqNum :: u16
  cc_totalSeg :: u16
  cc_is8Bits :: bool

record SmsAppPortAddr =
  pa_destPort :: u16
  pa_originPort :: u16
  pa_is8Bits :: bool

record SpecialSmsIndication =
  ss_bStore :: bool
  ss_msgInd :: u16
  ss_waitMsgNum :: u16

record SplitInfo =
  split_text :: bytes
  encodeData :: bytes
  encodeType :: DataCodingScheme
  split_langId :: u8

record LengthInfo =
  li_dcs :: u8
  msgSegCount :: u8
  msgEncodeCount :: u16
  msgRemainCount :: u8

text \<open>The data members in their order; the \<^verbatim>\<open>int\<close> members that only ever hold an enumerator keep its type.\<close>

record SmsBaseMessage =
  scAddress :: bytes
  originatingAddress :: bytes
  visibleMessageBody :: bytes
  bm_msgClass :: SmsMessageClass
  scTimestamp :: int
  bm_status :: int
  protocolId :: int
  bReplaceMessage :: bool
  bStatusReportMessage :: bool
  bMwi :: bool
  bMwiSense :: bool
  bCphsMwi :: bool
  bMwiClear :: bool
  bMwiSet :: bool
  bMwiNotStore :: bool
  hasReplyPath :: bool
  bMoreMsg :: bool
  bHeaderInd :: bool
  bm_headerCnt :: int
  headerDataLen :: int
  bm_msgRef :: int
  bm_bCompressed :: bool
  bm_bIndActive :: bool
  bm_codingScheme :: DataCodingScheme
  bm_codingGroup :: PduSchemeGroup
  rawPdu :: bytes
  rawUserData :: bytes
  rawWapPushUserData :: bytes
  smsUserData :: SmsUDPackage
  smsWapPushUserData :: SmsTpud
  smsConcat :: "SmsConcat option"
  portAddress :: "SmsAppPortAddr option"
  specialSmsInd :: "SpecialSmsIndication option"
  indexOnSim :: int
  emailFrom :: bytes
  emailBody :: bytes
  isEmail :: bool

section \<open>The user data headers\<close>

text \<open>A member of the union of a header: what was written last, zeros in fresh memory.\<close>

definition udh_concat8 :: "SmsUDH \<Rightarrow> SmsConcat8Bit option" where
  "udh_concat8 h = (case udh h of UdhConcat8bit c \<Rightarrow> Some c | UdhZero \<Rightarrow> Some zero_concat8 | _ \<Rightarrow> None)"

definition udh_concat16 :: "SmsUDH \<Rightarrow> SmsConcat16Bit option" where
  "udh_concat16 h = (case udh h of UdhConcat16bit c \<Rightarrow> Some c | UdhZero \<Rightarrow> Some zero_concat16 | _ \<Rightarrow> None)"

definition udh_port8 :: "SmsUDH \<Rightarrow> SmsAppPort8Bits option" where
  "udh_port8 h = (case udh h of UdhAppPort8bit p \<Rightarrow> Some p | UdhZero \<Rightarrow> Some zero_port8 | _ \<Rightarrow> None)"

definition udh_port16 :: "SmsUDH \<Rightarrow> SmsAppPort16Bit option" where
  "udh_port16 h = (case udh h of UdhAppPort16bit p \<Rightarrow> Some p | UdhZero \<Rightarrow> Some zero_port16 | _ \<Rightarrow> None)"

definition udh_special :: "SmsUDH \<Rightarrow> SmsSpecialIndication option" where
  "udh_special h = (case udh h of UdhSpecialInd x \<Rightarrow> Some x | UdhZero \<Rightarrow> Some zero_special | _ \<Rightarrow> None)"

text \<open>
  The loop \<^verbatim>\<open>for (i = 0; i < headerCnt; i++)\<close> that stops at the first header \<open>f\<close> accepts: \<open>f\<close> gives
  \<open>None\<close> for a header of another type, and \<open>Some None\<close> where it would read a member of the union that was not
  written.
\<close>

fun first_header :: "(SmsUDH \<Rightarrow> 'a option option) \<Rightarrow> SmsUDPackage \<Rightarrow> nat \<Rightarrow> nat \<Rightarrow> ('s, 'a option) op" where
  "first_header f ud i 0 = ret None"
| "first_header f ud i (Suc n) =
     bnd (rd_at (ud_header ud) i) (\<lambda>h.
     case f h of
       None \<Rightarrow> first_header f ud (Suc i) n
     | Some None \<Rightarrow> fault
     | Some (Some x) \<Rightarrow> ret (Some x))"

definition concat_of :: "SmsUDH \<Rightarrow> SmsConcat option option" where
  "concat_of h =
     (if udhType h = UDH_CONCAT_8BIT then
        Some (map_option (\<lambda>c. \<lparr>cc_msgRef = ucast (c8_msgRef c), cc_seqNum = ucast (c8_seqNum c),
          cc_totalSeg = ucast (c8_totalSeg c), cc_is8Bits = True\<rparr>) (udh_concat8 h))
      else if udhType h = UDH_CONCAT_16BIT then
        Some (map_option (\<lambda>c. \<lparr>cc_msgRef = c16_msgRef c, cc_seqNum = ucast (c16_seqNum c),
          cc_totalSeg = ucast (c16_totalSeg c), cc_is8Bits = False\<rparr>) (udh_concat16 h))
      else None)"

definition port_of :: "SmsUDH \<Rightarrow> SmsAppPortAddr option option" where
  "port_of h =
     (if udhType h = UDH_APP_PORT_8BIT then
        Some (map_option (\<lambda>p. \<lparr>pa_destPort = ucast (p8_destPort p), pa_originPort = ucast (p8_originPort p),
          pa_is8Bits = True\<rparr>) (udh_port8 h))
      else if udhType h = UDH_APP_PORT_16BIT then
        Some (map_option (\<lambda>p. \<lparr>pa_destPort = p16_destPort p, pa_originPort = p16_originPort p,
          pa_is8Bits = False\<rparr>) (udh_port16 h))
      else None)"

definition special_of :: "SmsUDH \<Rightarrow> SpecialSmsIndication option option" where
  "special_of h =
     (if udhType h = UDH_SPECIAL_SMS then
        Some (map_option (\<lambda>x. \<lparr>ss_bStore = si_bStore x, ss_msgInd = si_msgInd x,
          ss_waitMsgNum = si_waitMsgNum x\<rparr>) (udh_special h))
      else None)"

definition scan_headers :: "(SmsUDH \<Rightarrow> 'a option option) \<Rightarrow> ('b SmsBaseMessage_scheme, 'a option) op" where
  "scan_headers f = bnd (gets smsUserData) (\<lambda>ud. first_header f ud 0 (unat (headerCnt ud)))"

definition GetConcatMsg :: "('b SmsBaseMessage_scheme, SmsConcat option) op" where
  "GetConcatMsg = bnd (scan_headers concat_of) (\<lambda>c. seq (upd (\<lambda>m. m\<lparr>smsConcat := c\<rparr>)) (ret c))"

definition GetPortAddress :: "('b SmsBaseMessage_scheme, SmsAppPortAddr option) op" where
  "GetPortAddress = bnd (scan_headers port_of) (\<lambda>p. seq (upd (\<lambda>m. m\<lparr>portAddress := p\<rparr>)) (ret p))"

definition GetSpecialSmsInd :: "('b SmsBaseMessage_scheme, SpecialSmsIndication option) op" where
  "GetSpecialSmsInd = bnd (scan_headers special_of) (\<lambda>x. seq (upd (\<lambda>m. m\<lparr>specialSmsInd := x\<rparr>)) (ret x))"

definition IsConcatMsg :: "('b SmsBaseMessage_scheme, bool) op" where
  "IsConcatMsg = bnd GetConcatMsg (\<lambda>c. ret (c \<noteq> None))"

definition WAP_PUSH_PORT :: u16 where
  "WAP_PUSH_PORT = 2948"

definition IsWapPushMsg :: "('b SmsBaseMessage_scheme, bool) op" where
  "IsWapPushMsg = bnd GetPortAddress (\<lambda>p. ret (case p of
     Some a \<Rightarrow> \<not> pa_is8Bits a \<and> pa_destPort a = WAP_PUSH_PORT | None \<Rightarrow> False))"

section \<open>Other members\<close>

definition GetVisibleOriginatingAddress :: "'b SmsBaseMessage_scheme \<Rightarrow> bytes" where
  "GetVisibleOriginatingAddress m = (if isEmail m then emailFrom m else originatingAddress m)"

definition GetVisibleMessageBody :: "'b SmsBaseMessage_scheme \<Rightarrow> bytes" where
  "GetVisibleMessageBody m = (if isEmail m then emailBody m else visibleMessageBody m)"

definition SetSmscAddr :: "bytes \<Rightarrow> ('b SmsBaseMessage_scheme, unit) op" where
  "SetSmscAddr a = upd (\<lambda>m. m\<lparr>scAddress := a\<rparr>)"

definition SetIndexOnSim :: "int \<Rightarrow> ('b SmsBaseMessage_scheme, unit) op" where
  "SetIndexOnSim index = upd (\<lambda>m. m\<lparr>indexOnSim := index\<rparr>)"

definition MAX_REPLY_PID :: u8 where
  "MAX_REPLY_PID = 8"

definition IsReplaceMessage :: "('b SmsBaseMessage_scheme, bool) op" where
  "IsReplaceMessage =
     bnd (gets (\<lambda>m. word_of_int (protocolId m) :: u8)) (\<lambda>temp.
     let tempPid = temp AND 0x3f;
         r = (temp AND 0xc0 = 0x40 \<and> tempPid > 0 \<and> tempPid < MAX_REPLY_PID)
     in seq (upd (\<lambda>m. m\<lparr>bReplaceMessage := r\<rparr>)) (ret r))"

definition ConvertMessageClass :: "SmsMessageClass \<Rightarrow> ('b SmsBaseMessage_scheme, unit) op" where
  "ConvertMessageClass c = upd (\<lambda>m. m\<lparr>bm_msgClass := (case c of
     SMS_SIM_MESSAGE \<Rightarrow> SMS_SIM_MESSAGE | SMS_INSTANT_MESSAGE \<Rightarrow> SMS_INSTANT_MESSAGE
   | SMS_OPTIONAL_MESSAGE \<Rightarrow> SMS_OPTIONAL_MESSAGE | SMS_FORWARD_MESSAGE \<Rightarrow> SMS_FORWARD_MESSAGE
   | SMS_CLASS_UNKNOWN \<Rightarrow> SMS_CLASS_UNKNOWN)\<rparr>)"

section \<open>Splitting a text\<close>

definition MSG_7BIT_DATA_LEN :: int where
  "MSG_7BIT_DATA_LEN = 160"

definition MSG_UCS2_DATA_LEN :: int where
  "MSG_UCS2_DATA_LEN = 140"

definition MAX_SEGMENT_NUM :: nat where
  "MAX_SEGMENT_NUM = 15"

definition MAX_MSG_TEXT_LEN :: nat where
  "MAX_MSG_TEXT_LEN = 1530"

definition DECODE_DATA_SIZE :: nat where
  "DECODE_DATA_SIZE = 160 * MAX_SEGMENT_NUM + 1"

definition is_7bit :: "DataCodingScheme \<Rightarrow> bool" where
  "is_7bit c \<longleftrightarrow> c = DATA_CODING_7BIT \<or> c = DATA_CODING_ASCII7BIT"

definition is_octets :: "DataCodingScheme \<Rightarrow> bool" where
  "is_octets c \<longleftrightarrow> c = DATA_CODING_8BIT \<or> c = DATA_CODING_UCS2"

definition max_data_len :: "DataCodingScheme \<Rightarrow> int" where
  "max_data_len c = (if is_7bit c then MSG_7BIT_DATA_LEN else if is_octets c then MSG_UCS2_DATA_LEN else 0)"

definition GetSegmentSize :: "DataCodingScheme \<Rightarrow> int \<Rightarrow> bool \<Rightarrow> u8 \<Rightarrow> int" where
  "GetSegmentSize scheme dataLen bPortNum langId =
     (let maxSize = max_data_len scheme;
          headerSize = (if bPortNum then 6 else 0) + (if langId \<noteq> MSG_ID_RESERVED_LANG then 3 else 0)
      in if is_7bit scheme then (if dataLen + headerSize > maxSize then 153 else dataLen)
         else if is_octets scheme then (if dataLen + headerSize > maxSize then 134 else dataLen)
         else 0)"

definition GetMaxSegmentSize :: "DataCodingScheme \<Rightarrow> int \<Rightarrow> bool \<Rightarrow> u8 \<Rightarrow> int \<Rightarrow> int" where
  "GetMaxSegmentSize scheme dataLen bPortNum langId replyAddrLen =
     (let maxSize = max_data_len scheme;
          headerSize = (if bPortNum then 6 else 0) + (if langId \<noteq> MSG_ID_RESERVED_LANG then 3 else 0)
            + (if replyAddrLen > 0 then 2 + replyAddrLen else 0)
      in if is_7bit scheme then
           (if dataLen + headerSize > maxSize then (140 * 8 - (1 + 5 + headerSize) * 8) sdiv 7
            else maxSize - headerSize)
         else if is_octets scheme then
           (if dataLen + headerSize > maxSize then 140 - (1 + 5 + headerSize) else maxSize - headerSize)
         else 0)"

text \<open>\<^verbatim>\<open>std::vector<uint8_t>(&data[i], &data[i] + n)\<close>\<close>

definition slice :: "bytes \<Rightarrow> nat \<Rightarrow> nat \<Rightarrow> ('s, bytes) op" where
  "slice xs i n = (if i + n \<le> length xs then ret (take n (drop i xs)) else fault)"

text \<open>\<^verbatim>\<open>str.insert(0, buff, n)\<close>, which reads \<open>n\<close> octets of the array.\<close>

definition insert_front :: "int \<Rightarrow> bytes \<Rightarrow> bytes \<Rightarrow> bytes option" where
  "insert_front n buff str = (if 0 \<le> n \<and> nat n \<le> length buff then Some (take (nat n) buff @ str) else None)"

definition no_shift :: MsgLangInfo where
  "no_shift = \<lparr>bSingleShift = False, bLockingShift = False, singleLang = 0, lockingLang = 0\<rparr>"

definition insert_text :: "int \<times> bytes \<Rightarrow> (SplitInfo, unit) op" where
  "insert_text = (\<lambda>(dataSize, buff) s. case insert_front dataSize buff (split_text s) of
     None \<Rightarrow> Fault | Some t \<Rightarrow> Ok () (s\<lparr>split_text := t\<rparr>))"

definition ConvertSpiltToUtf8 :: "iconv \<Rightarrow> nat \<Rightarrow> DataCodingScheme \<Rightarrow> (SplitInfo, unit) op" where
  "ConvertSpiltToUtf8 ic wsize codingType =
     bnd (gets encodeData) (\<lambda>data.
     let buff = replicate (MAX_MSG_TEXT_LEN + 1) 0
     in if data = [] then ret ()
        else case codingType of
          DATA_CODING_7BIT \<Rightarrow>
            bnd (with_new buff (Gsm7bitToUtf8 ic wsize (int MAX_MSG_TEXT_LEN) data (int (length data)) no_shift)) insert_text
        | DATA_CODING_UCS2 \<Rightarrow>
            bnd (with_new buff (Ucs2ToUtf8 ic (int MAX_MSG_TEXT_LEN) data (int (length data)))) insert_text
        | _ \<Rightarrow>
            if length data > length buff then ret ()
            else bnd (with_new buff (seq (put_all data) (put_at (length data) 0))) (\<lambda>(_, buff).
                 insert_text (int (length data), buff)))"

text \<open>
  A character \<^verbatim>\<open>BreakIterator\<close> is given by the boundaries it finds in a text. After
  \<^verbatim>\<open>isBoundary(offset)\<close> returned false the iterator stands on the first boundary behind \<^verbatim>\<open>offset\<close>, so
  \<^verbatim>\<open>previous()\<close> is the last one before it, or \<^verbatim>\<open>DONE\<close>, which is -1. The factory method may fail.
\<close>

type_synonym break_iterator = "(u16 list \<Rightarrow> nat \<Rightarrow> bool) option"

fun previous_boundary :: "(nat \<Rightarrow> bool) \<Rightarrow> nat \<Rightarrow> int" where
  "previous_boundary isBoundary 0 = - 1"
| "previous_boundary isBoundary (Suc n) = (if isBoundary n then int n else previous_boundary isBoundary n)"

definition FindNextUnicodePosition :: "(nat \<Rightarrow> bool) \<Rightarrow> nat \<Rightarrow> nat \<Rightarrow> nat" where
  "FindNextUnicodePosition isBoundary index segSizeHalf =
     (let nextIndex = index + segSizeHalf
      in if \<not> isBoundary nextIndex then
           (let breakPos = previous_boundary isBoundary nextIndex
            in if breakPos > int index then nat breakPos else nextIndex)
         else nextIndex)"

definition push_segment ::
  "iconv \<Rightarrow> nat \<Rightarrow> bytes \<Rightarrow> DataCodingScheme \<Rightarrow> u8 \<Rightarrow> nat \<Rightarrow> nat \<Rightarrow> (SplitInfo list, unit) op" where
  "push_segment ic wsize decodeData codingType langId i n =
     bnd (slice decodeData i n) (\<lambda>data.
     bnd (with_new \<lparr>split_text = [], encodeData = data, encodeType = codingType, split_langId = langId\<rparr>
            (ConvertSpiltToUtf8 ic wsize codingType)) (\<lambda>(_, splitInfo).
     upd (\<lambda>splitResult. splitResult @ [splitInfo])))"

lemma previous_boundary_less: "previous_boundary b n < int n"
  by (induction n) auto

lemma FindNext_le: "FindNextUnicodePosition b i h \<le> i + h"
  using previous_boundary_less [of b "i + h"] by (auto simp: FindNextUnicodePosition_def Let_def)

lemma FindNext_greater: "0 < h \<Longrightarrow> i < FindNextUnicodePosition b i h"
  by (auto simp: FindNextUnicodePosition_def Let_def)

text \<open>
  The loop and the last segment of \<^verbatim>\<open>SplitMessageUcs2\<close>, counted in 16-bit units. With segments of no unit it
  would not end, which counts as a fault.
\<close>

function ucs2_segments ::
  "iconv \<Rightarrow> nat \<Rightarrow> (nat \<Rightarrow> bool) \<Rightarrow> bytes \<Rightarrow> DataCodingScheme \<Rightarrow> nat \<Rightarrow> nat \<Rightarrow> nat \<Rightarrow> (SplitInfo list, unit) op" where
  "ucs2_segments ic wsize isBoundary decodeData codingType dataSize segSizeHalf index =
     (if dataSize - index > segSizeHalf then
        (if segSizeHalf = 0 then fault
         else let nextIndex = FindNextUnicodePosition isBoundary index segSizeHalf
              in seq (push_segment ic wsize decodeData codingType MSG_ID_RESERVED_LANG (2 * index) (2 * (nextIndex - index)))
                   (ucs2_segments ic wsize isBoundary decodeData codingType dataSize segSizeHalf nextIndex))
      else push_segment ic wsize decodeData codingType MSG_ID_RESERVED_LANG (2 * index) (2 * (dataSize - index)))"
  by pat_completeness auto
termination
  by (relation "measure (\<lambda>(ic, wsize, b, d, c, dataSize, h, index). dataSize - index)")
    (auto intro!: diff_less_mono2 FindNext_greater)

declare ucs2_segments.simps [simp del]

definition SplitMessageUcs2 ::
  "iconv \<Rightarrow> nat \<Rightarrow> break_iterator \<Rightarrow> bytes \<Rightarrow> nat \<Rightarrow> nat \<Rightarrow> DataCodingScheme \<Rightarrow> (SplitInfo list, unit) op" where
  "SplitMessageUcs2 ic wsize icu decodeData encodeLen segSize codingType =
     (let dataSize = encodeLen div 2
      in bnd (slice decodeData 0 (2 * dataSize)) (\<lambda>data.
         case icu of
           None \<Rightarrow> ret ()
         | Some breaks \<Rightarrow>
             ucs2_segments ic wsize (breaks (ucs2_chars data)) decodeData codingType dataSize (segSize div 2) 0))"

text \<open>
  \<open>decode\<close> is the virtual \<^verbatim>\<open>DecodeMessage\<close>, on the array \<^verbatim>\<open>decodeData\<close>: it gives the length, the coding
  type and the language. \<^verbatim>\<open>ceil\<close> of a quotient of two small integers, computed in \<^verbatim>\<open>double\<close>, is exact.
\<close>

type_synonym decode_message = "DataCodingScheme \<Rightarrow> bytes \<Rightarrow> (bytes, int \<times> DataCodingScheme \<times> u8) op"

definition ceil_div :: "int \<Rightarrow> int \<Rightarrow> int" where
  "ceil_div a b = (a + b - 1) div b"

definition split_data ::
  "iconv \<Rightarrow> nat \<Rightarrow> break_iterator \<Rightarrow> int \<Rightarrow> DataCodingScheme \<Rightarrow> u8 \<Rightarrow> bytes \<Rightarrow> bool \<Rightarrow> (SplitInfo list, unit) op" where
  "split_data ic wsize icu encodeLen codingType langId decodeData bPortNum =
     (if encodeLen \<le> 0 then ret ()
      else let segSize = GetSegmentSize codingType encodeLen bPortNum langId;
               segCount = (if segSize > 0 then ceil_div encodeLen segSize else 0)
           in if codingType = DATA_CODING_UCS2 \<and> segCount > 1 then
                SplitMessageUcs2 ic wsize icu decodeData (nat encodeLen) (nat segSize) codingType
              else
                each (\<lambda>i. push_segment ic wsize decodeData codingType langId (i * nat segSize)
                   (if i + 1 = nat segCount then nat encodeLen - i * nat segSize else nat segSize))
                  [0..<nat segCount])"

definition SplitMessage ::
  "iconv \<Rightarrow> nat \<Rightarrow> break_iterator \<Rightarrow> decode_message \<Rightarrow> bytes \<Rightarrow> bool \<Rightarrow> bool \<Rightarrow> bytes \<Rightarrow>
   (SplitInfo list, DataCodingScheme) op" where
  "SplitMessage ic wsize icu decode text force7BitCode bPortNum desAddr =
     (let codingType = (if force7BitCode then DATA_CODING_7BIT else DATA_CODING_AUTO);
          codingType = (if CT_SMSC = desAddr then DATA_CODING_8BIT else codingType)
      in bnd (with_new (replicate DECODE_DATA_SIZE 0) (decode codingType text))
           (\<lambda>((encodeLen, codingType, langId), decodeData).
         seq (split_data ic wsize icu encodeLen codingType langId decodeData bPortNum)
           (ret codingType)))"

definition MSG_ADD_PARAM_LEN :: int where
  "MSG_ADD_PARAM_LEN = 12"

text \<open>\<open>Fail\<close> is \<^verbatim>\<open>SMS_MMS_DECODE_DATA_EMPTY\<close>.\<close>

definition GetSmsSegmentsInfo :: "decode_message \<Rightarrow> bytes \<Rightarrow> bool \<Rightarrow> (LengthInfo, unit) op" where
  "GetSmsSegmentsInfo decode message force7BitCode =
     bnd (with_new (replicate DECODE_DATA_SIZE 0)
            (decode (if force7BitCode then DATA_CODING_7BIT else DATA_CODING_AUTO) message))
       (\<lambda>((encodeLen, codingType, langId), decodeData).
     seq (ensure (\<not> encodeLen \<le> 0)) (
     let segSize = GetMaxSegmentSize codingType encodeLen False langId MSG_ADD_PARAM_LEN;
         encodeCount = word_of_int encodeLen :: u16;
         dcs = (if is_7bit codingType then 1 else if codingType = DATA_CODING_UCS2 then 3
                else if codingType = DATA_CODING_8BIT then 2 else 0) :: u8;
         encodeCount = (if dcs = 3 then encodeCount div 2 else encodeCount);
         segSize = (if dcs = 3 then segSize sdiv 2 else segSize)
     in seq (upd (\<lambda>l. l\<lparr>msgEncodeCount := encodeCount, li_dcs := dcs\<rparr>))
          (if segSize \<noteq> 0 then
             upd (\<lambda>l. l\<lparr>msgRemainCount := word_of_int ((segSize - uint encodeCount smod segSize) smod segSize),
               msgSegCount := word_of_int (ceil_div (uint encodeCount) segSize)\<rparr>)
           else ret ())))"

section \<open>What splitting gives\<close>

text \<open>\<open>seg_ok\<close>: a segment of the data \<open>x\<close>.\<close>

definition seg_of :: "DataCodingScheme \<Rightarrow> u8 \<Rightarrow> bytes \<Rightarrow> SplitInfo \<Rightarrow> bool" where
  "seg_of c l x s \<longleftrightarrow> encodeData s = x \<and> encodeType s = c \<and> split_langId s = l"

lemma to_utf8_returns:
  assumes "iconv_bounded ic" "m \<le> int (length d)"
  shows "\<exists>n d'. to_utf8 ic cs m src k d = Ok n d' \<and> length d' = length d \<and> 0 \<le> n \<and> n \<le> int (length d)"
  using assms
  by (auto simp: to_utf8_def nat_le_iff put_all_def write_at_def op_simps split: option.splits prod.splits
      dest!: iconv_boundedD)

lemma gsm7_to_ucs2_loop_no_fail: "gsm7_to_ucs2_loop li m src st out d \<noteq> Fail e"
proof (induction li m src st out arbitrary: d rule: gsm7_to_ucs2_loop.induct)
  case (1 li m src st out)
  then show ?case
    by (subst gsm7_to_ucs2_loop.simps) (auto simp: op_simps put_at_def split: option.splits)
qed

lemma Gsm7bitToUtf8_returns:
  assumes "iconv_bounded ic" "no_stray_octet li src" "m \<le> int (length d)"
  shows "\<exists>n d'. Gsm7bitToUtf8 ic wsize m src k li d = Ok n d' \<and> length d' = length d \<and> 0 \<le> n \<and> n \<le> int (length d)"
proof (cases "k \<le> 0 \<or> k \<ge> UCS2_LEN_MAX wsize")
  case True
  then show ?thesis by (simp add: Gsm7bitToUtf8_def ret_def)
next
  case False
  let ?b = "replicate (nat k * wsize) (0 :: u8)"
  let ?r = "Gsm7bitToUcs2 (k * int wsize) (take (nat k) src) li ?b"
  have "keeps (len_is (nat k * wsize)) (Gsm7bitToUcs2 (k * int wsize) (take (nat k) src) li)"
    using assms(2) False by (intro keeps_Gsm7bitToUcs2) (auto intro: no_stray_take)
  then have "?r \<noteq> Fault" by (rule keeps_no_fault) simp
  moreover have "?r \<noteq> Fail e" for e
    by (auto simp: Gsm7bitToUcs2_def ret_def gsm7_to_ucs2_loop_no_fail)
  ultimately obtain n u where "?r = Ok n u" by (cases ?r) auto
  then show ?thesis using False to_utf8_returns [OF assms(1,3)]
    by (auto simp: Gsm7bitToUtf8_def op_simps Ucs2ToUtf8_def)
qed

lemma ConvertSpiltToUtf8_returns:
  assumes ic: "iconv_bounded ic" and len: "length (encodeData s) \<le> MAX_MSG_TEXT_LEN"
    and septets: "c = DATA_CODING_7BIT \<Longrightarrow> \<forall>x \<in> set (encodeData s). x < 0x80"
  shows "\<exists>t. ConvertSpiltToUtf8 ic wsize c s = Ok () (s\<lparr>split_text := t\<rparr>)"
proof -
  let ?b = "replicate (MAX_MSG_TEXT_LEN + 1) (0 :: u8)"
  have "int MAX_MSG_TEXT_LEN \<le> int (length ?b)" by simp
  note u = to_utf8_returns [OF ic this]
    and g = Gsm7bitToUtf8_returns [OF ic _ this]
  have "no_stray_octet no_shift (encodeData s)" if "c = DATA_CODING_7BIT"
    using septets [OF that] by (simp add: no_stray_octet_def)
  then show ?thesis
    using len u [where src = "encodeData s" and k = "int (length (encodeData s))" and cs = "''UTF16BE''"]
      g [where li = no_shift and src = "encodeData s" and k = "int (length (encodeData s))" and wsize = wsize]
    by (cases c)
      (auto simp: ConvertSpiltToUtf8_def Let_def op_simps Ucs2ToUtf8_def insert_text_def insert_front_def put_all_def put_at_def write_at_def nat_le_iff
        intro: exI [of _ "split_text s"])
qed

lemma push_segment_returns:
  assumes ic: "iconv_bounded ic" and "i + n \<le> length d" "n \<le> MAX_MSG_TEXT_LEN"
    and septets: "c = DATA_CODING_7BIT \<Longrightarrow> \<forall>x \<in> set (take n (drop i d)). x < 0x80"
  shows "\<exists>s. push_segment ic wsize d c l i n res = Ok () (res @ [s]) \<and> seg_of c l (take n (drop i d)) s"
proof -
  let ?s = "\<lparr>split_text = [], encodeData = take n (drop i d), encodeType = c, split_langId = l\<rparr>"
  have "length (encodeData ?s) \<le> MAX_MSG_TEXT_LEN" using assms by simp
  from ConvertSpiltToUtf8_returns [OF ic this] septets
  obtain t where "ConvertSpiltToUtf8 ic wsize c ?s = Ok () (?s\<lparr>split_text := t\<rparr>)" by fastforce
  then show ?thesis using assms(2) by (simp add: push_segment_def slice_def op_simps seg_of_def)
qed

lemma each_push:
  assumes "\<And>i res. i \<in> set is \<Longrightarrow> \<exists>s. f i res = Ok () (res @ [s]) \<and> seg_of c l (x i) s"
  shows "\<exists>segs. each f is res = Ok () (res @ segs) \<and> list_all2 (seg_of c l) (map x is) segs"
  using assms
proof (induction "is" arbitrary: res)
  case (Cons i rest)
  obtain s where s: "f i res = Ok () (res @ [s])" "seg_of c l (x i) s" using Cons.prems by force
  obtain segs where "each f rest (res @ [s]) = Ok () ((res @ [s]) @ segs)" "list_all2 (seg_of c l) (map x rest) segs"
    using Cons.IH [of "res @ [s]"] Cons.prems by (metis list.set_intros(2))
  with s show ?case by (auto simp: op_simps intro!: exI [of _ "s # segs"])
qed (simp add: ret_def)

text \<open>Chunks of \<open>s\<close> octets, the last one shorter.\<close>

definition chunks :: "nat \<Rightarrow> nat \<Rightarrow> nat \<Rightarrow> bytes \<Rightarrow> bytes list" where
  "chunks c s k d = map (\<lambda>i. take (if i + 1 = c then k - i * s else s) (drop (i * s) d)) [0..<c]"

lemma concat_full: "concat (map (\<lambda>i. take s (drop (i * s) d)) [0..<j]) = take (j * s) d"
proof (induction j)
  case (Suc j)
  have "take (s + j * s) d = take (j * s) d @ take s (drop (j * s) d)"
    by (metis add.commute take_add)
  with Suc show ?case by (simp add: add.commute)
qed simp

lemma concat_chunks:
  assumes "0 < c" "(c - 1) * s \<le> k"
  shows "concat (chunks c s k d) = take k d"
proof -
  from assms(1) obtain j where c: "c = Suc j" by (cases c) auto
  have "concat (chunks c s k d) = concat (map (\<lambda>i. take s (drop (i * s) d)) [0..<j]) @ take (k - j * s) (drop (j * s) d)"
    by (auto simp: chunks_def c intro!: arg_cong [of _ _ concat])
  also have "\<dots> = take k d" using assms(2) c by (simp add: concat_full flip: take_add)
  finally show ?thesis .
qed

text \<open>The pieces a UCS-2 text is cut into, by the positions the iterator allows.\<close>

function ucs2_pieces :: "(nat \<Rightarrow> bool) \<Rightarrow> nat \<Rightarrow> bytes \<Rightarrow> nat \<Rightarrow> nat \<Rightarrow> bytes list" where
  "ucs2_pieces b h d sz i =
     (if 0 < h \<and> h < sz - i then
        take (2 * (FindNextUnicodePosition b i h - i)) (drop (2 * i) d) # ucs2_pieces b h d sz (FindNextUnicodePosition b i h)
      else [take (2 * (sz - i)) (drop (2 * i) d)])"
  by pat_completeness auto
termination
  by (relation "measure (\<lambda>(b, h, d, sz, i). sz - i)") (auto intro!: diff_less_mono2 FindNext_greater)

declare ucs2_pieces.simps [simp del]

lemma ucs2_pieces_concat:
  assumes "2 * sz \<le> length d" "i \<le> sz"
  shows "concat (ucs2_pieces b h d sz i) = take (2 * (sz - i)) (drop (2 * i) d)"
  using assms
proof (induction b h d sz i rule: ucs2_pieces.induct)
  case (1 b h d sz i)
  let ?j = "FindNextUnicodePosition b i h"
  show ?case
  proof (cases "0 < h \<and> h < sz - i")
    case True
    then have j: "i < ?j" "?j \<le> sz" using FindNext_greater [of h i b] FindNext_le [of b i h] by auto
    have "take (2 * (?j - i)) (drop (2 * i) d) @ take (2 * (sz - ?j)) (drop (2 * ?j) d)
        = take (2 * (?j - i) + 2 * (sz - ?j)) (drop (2 * i) d)"
      using j by (simp only: take_add drop_drop) (simp add: diff_mult_distrib2)
    also have "2 * (?j - i) + 2 * (sz - ?j) = 2 * (sz - i)" using j by simp
    finally show ?thesis using True j 1 by (subst ucs2_pieces.simps) simp
  next
    case False
    then show ?thesis by (subst ucs2_pieces.simps) auto
  qed
qed

lemma ucs2_pieces_length:
  assumes "0 < h" "2 * sz \<le> length d" "i < sz" "x \<in> set (ucs2_pieces b h d sz i)"
  shows "0 < length x \<and> length x \<le> 2 * h \<and> even (length x)"
  using assms
proof (induction b h d sz i rule: ucs2_pieces.induct)
  case (1 b h d sz i)
  let ?j = "FindNextUnicodePosition b i h"
  show ?case
  proof (cases "h < sz - i")
    case True
    then have j: "i < ?j" "?j \<le> i + h" "?j < sz"
      using "1.prems"(1) FindNext_greater [of h i b] FindNext_le [of b i h] by auto
    have x: "x = take (2 * (?j - i)) (drop (2 * i) d) \<or> x \<in> set (ucs2_pieces b h d sz ?j)"
      using "1.prems"(1,4) True by (subst (asm) ucs2_pieces.simps) auto
    have "length (take (2 * (?j - i)) (drop (2 * i) d)) = 2 * (?j - i)" using j "1.prems"(2) by simp
    with x j show ?thesis using "1.IH" True "1.prems" by auto
  next
    case False
    then have "x = take (2 * (sz - i)) (drop (2 * i) d)"
      using "1.prems"(4) by (subst (asm) ucs2_pieces.simps) auto
    moreover have "length \<dots> = 2 * (sz - i)" using "1.prems"(2,3) by simp
    ultimately show ?thesis using "1.prems"(3) False by auto
  qed
qed

lemma ucs2_segments_returns:
  assumes ic: "iconv_bounded ic" and "0 < h" "h \<le> 765" "2 * sz \<le> length d" "i \<le> sz" "c \<noteq> DATA_CODING_7BIT"
  shows "\<exists>segs. ucs2_segments ic wsize b d c sz h i res = Ok () (res @ segs) \<and>
    list_all2 (seg_of c 0) (ucs2_pieces b h d sz i) segs"
  using assms
proof (induction ic wsize b d c sz h i arbitrary: res rule: ucs2_segments.induct)
  case (1 ic wsize b d c sz h i)
  let ?j = "FindNextUnicodePosition b i h"
  note push = push_segment_returns [OF "1.prems"(1), where c = c and d = d and l = 0]
  show ?case
  proof (cases "h < sz - i")
    case True
    then have j: "i < ?j" "?j \<le> i + h" "?j \<le> sz"
      using "1.prems"(2) FindNext_greater [of h i b] FindNext_le [of b i h] by auto
    obtain s where s: "push_segment ic wsize d c 0 (2 * i) (2 * (?j - i)) res = Ok () (res @ [s])"
      "seg_of c 0 (take (2 * (?j - i)) (drop (2 * i) d)) s"
      using push [of "2 * i" "2 * (?j - i)"] j "1.prems" by (fastforce simp: MAX_MSG_TEXT_LEN_def)
    obtain segs where "ucs2_segments ic wsize b d c sz h ?j (res @ [s]) = Ok () ((res @ [s]) @ segs)"
      "list_all2 (seg_of c 0) (ucs2_pieces b h d sz ?j) segs"
      using "1.IH" [OF True _ refl, of "res @ [s]"] j "1.prems" by auto
    with s True "1.prems"(2) show ?thesis
      by (subst ucs2_segments.simps, subst ucs2_pieces.simps) (auto simp: op_simps Let_def intro!: exI [of _ "s # segs"])
  next
    case False
    then show ?thesis using push [of "2 * i" "2 * (sz - i)"] "1.prems"
      by (subst ucs2_segments.simps, subst ucs2_pieces.simps) (force simp: MAX_MSG_TEXT_LEN_def)
  qed
qed

text \<open>
  Where a text is cut: behind the last boundary that fits, or after a full segment when there is none in it.
\<close>

lemma previous_boundary_last:
  "previous_boundary b n < int q \<Longrightarrow> q < n \<Longrightarrow> \<not> b q"
  "0 \<le> previous_boundary b n \<Longrightarrow> b (nat (previous_boundary b n))"
  by (induction n) (auto split: if_splits simp: less_Suc_eq)

lemma FindNext_boundary:
  "b (FindNextUnicodePosition b i h) \<or>
   FindNextUnicodePosition b i h = i + h \<and> (\<forall>q. i < q \<and> q \<le> i + h \<longrightarrow> \<not> b q)"
  using previous_boundary_last(1) [of b "i + h"] previous_boundary_last(2) [of b "i + h"]
  by (auto simp: FindNextUnicodePosition_def Let_def order_le_less)

definition good_cut :: "(nat \<Rightarrow> bool) \<Rightarrow> nat \<Rightarrow> nat \<Rightarrow> nat \<Rightarrow> bool" where
  "good_cut b h q p \<longleftrightarrow> b p \<or> p = q + h \<and> (\<forall>r. q < r \<and> r \<le> p \<longrightarrow> \<not> b r)"

lemma good_cut_FindNext: "good_cut b h i (FindNextUnicodePosition b i h)"
  using FindNext_boundary [of b i h] by (auto simp: good_cut_def)

text \<open>Where, in 16-bit units, segment \<open>n\<close> begins.\<close>

definition cut_at :: "bytes list \<Rightarrow> nat \<Rightarrow> nat" where
  "cut_at xs n = length (concat (take n xs)) div 2"

lemma ucs2_pieces_cuts:
  assumes "0 < h" "2 * sz \<le> length d" "n + 1 < length (ucs2_pieces b h d sz i)"
  shows "good_cut b h (i + cut_at (ucs2_pieces b h d sz i) n) (i + cut_at (ucs2_pieces b h d sz i) (n + 1))"
  using assms
proof (induction b h d sz i arbitrary: n rule: ucs2_pieces.induct)
  case (1 b h d sz i)
  let ?j = "FindNextUnicodePosition b i h"
  let ?p = "take (2 * (?j - i)) (drop (2 * i) d)"
  have more: "h < sz - i" using "1.prems"(1,3) by (subst (asm) ucs2_pieces.simps) (auto split: if_splits)
  then have j: "i < ?j" "?j < sz"
    using "1.prems"(1) FindNext_greater [of h i b] FindNext_le [of b i h] by auto
  have pieces: "ucs2_pieces b h d sz i = ?p # ucs2_pieces b h d sz ?j"
    using more "1.prems"(1) by (subst ucs2_pieces.simps) simp
  have p: "length ?p = 2 * (?j - i)" using j "1.prems"(2) by simp
  have at: "i + cut_at (?p # xs) (Suc m) = ?j + cut_at xs m" for xs m
    using j p by (simp add: cut_at_def)
  show ?case
  proof (cases n)
    case 0
    have "i + cut_at (?p # xs) (Suc 0) = ?j" for xs using at [of xs 0] by (simp add: cut_at_def)
    with 0 show ?thesis by (simp add: pieces good_cut_FindNext cut_at_def [of _ 0])
  next
    case (Suc m)
    have "good_cut b h (?j + cut_at (ucs2_pieces b h d sz ?j) m) (?j + cut_at (ucs2_pieces b h d sz ?j) (m + 1))"
      using "1.IH" [of m] more "1.prems" Suc by (simp add: pieces)
    then show ?thesis using Suc by (simp add: pieces at)
  qed
qed

section \<open>The interface of the coding\<close>

text \<open>
  \<open>split_spec\<close>: what splitting \<open>k\<close> octets of data \<open>d\<close> promises. The segments are not empty and fit into a message,
  with room for the header of a concatenated message when there are several; 7-bit segments carry the language; their
  data, in order, are the coded text (a UCS-2 text may lose the odd last octet of a text that filled the array), and no segment of a UCS-2 text ends within a character.
\<close>

definition segment_limit :: "DataCodingScheme \<Rightarrow> nat \<Rightarrow> nat" where
  "segment_limit c n = (if is_7bit c then (if n \<le> 1 then 160 else 153) else (if n \<le> 1 then 140 else 134))"

definition split_spec :: "int \<Rightarrow> DataCodingScheme \<Rightarrow> u8 \<Rightarrow> bytes \<Rightarrow> SplitInfo list \<Rightarrow> bool" where
  "split_spec k c l d segs \<longleftrightarrow>
     (\<forall>s \<in> set segs. encodeType s = c \<and> (c = DATA_CODING_7BIT \<longrightarrow> split_langId s = l) \<and> encodeData s \<noteq> [] \<and> length (encodeData s) \<le> segment_limit c (length segs)) \<and>
     (is_7bit c \<or> is_octets c \<longrightarrow>
        concat (map encodeData segs) = take (nat k) d \<or>
        c = DATA_CODING_UCS2 \<and> concat (map encodeData segs) = take (2 * (nat k div 2)) d) \<and>
     (c = DATA_CODING_UCS2 \<and> even k \<longrightarrow> (\<forall>s \<in> set segs. even (length (encodeData s))))"

definition start_coding :: "bool \<Rightarrow> bytes \<Rightarrow> DataCodingScheme" where
  "start_coding force7BitCode desAddr =
     (if CT_SMSC = desAddr then DATA_CODING_8BIT else if force7BitCode then DATA_CODING_7BIT else DATA_CODING_AUTO)"

lemma list_all2_seg_of: "list_all2 (seg_of c l) xs segs \<Longrightarrow> map encodeData segs = xs \<and> length segs = length xs \<and> (\<forall>s \<in> set segs. encodeType s = c \<and> split_langId s = l)"
  by (induction rule: list_all2_induct) (auto simp: seg_of_def)

lemma ceil_div_bounds:
  assumes "0 < k" "0 < s"
  shows "0 < ceil_div k s" "(ceil_div k s - 1) * s < k" "k \<le> ceil_div k s * s"
proof -
  have "ceil_div k s * s + (k + s - 1) mod s = k + s - 1" by (simp add: ceil_div_def)
  moreover have "0 \<le> (k + s - 1) mod s" "(k + s - 1) mod s < s" using assms by simp_all
  ultimately show *: "(ceil_div k s - 1) * s < k" "k \<le> ceil_div k s * s" by (simp_all add: algebra_simps)
  then show "0 < ceil_div k s" using assms by (smt (verit) mult_nonpos_nonneg)
qed

lemma ceil_div_nat:
  assumes "0 < k" "0 < s" "n = nat (ceil_div k (int s))"
  shows "0 < n" "(n - 1) * s < nat k" "nat k \<le> n * s"
proof -
  have b: "0 < ceil_div k (int s)" "(ceil_div k (int s) - 1) * int s < k" "k \<le> ceil_div k (int s) * int s"
    using ceil_div_bounds [of k "int s"] assms by simp_all
  then have c: "ceil_div k (int s) = int n" and pos: "0 < n" using assms(3) by simp_all
  then show "0 < n" "(n - 1) * s < nat k" "nat k \<le> n * s"
    using b(2,3) unfolding c by (simp_all add: nat_le_iff zless_nat_eq_int_zless of_nat_diff)
qed

lemma ceil_div_self: "0 < k \<Longrightarrow> ceil_div k k = 1"
  unfolding ceil_div_def by (rule int_div_pos_eq [of _ _ _ "k - 1"]) simp_all

lemma split_spec_chunks:
  assumes all: "list_all2 (seg_of c l) (chunks n s (nat k) d) segs" and n: "n = nat (ceil_div k (int s))"
    and "0 < k" "k \<le> int (length d)" "0 < s" and limit: "s \<le> segment_limit c n" and one: "c = DATA_CODING_UCS2 \<Longrightarrow> n \<le> 1"
  shows "split_spec k c l d segs"
proof -
  note pos = ceil_div_nat(1) [OF assms(3,5) n] and lo = ceil_div_nat(2) [OF assms(3,5) n]
    and hi = ceil_div_nat(3) [OF assms(3,5) n]
  have eq: "map encodeData segs = chunks n s (nat k) d" "length segs = n" "\<forall>x \<in> set segs. encodeType x = c \<and> split_langId x = l"
    using list_all2_seg_of [OF all] by (simp_all add: chunks_def)
  have "x \<noteq> [] \<and> length x \<le> s" if "x \<in> set (chunks n s (nat k) d)" for x
  proof -
    from that obtain i where i: "i < n" "x = take (if i + 1 = n then nat k - i * s else s) (drop (i * s) d)"
      by (auto simp: chunks_def)
    have "i * s \<le> (n - 1) * s" using i(1) by (intro mult_le_mono1) simp
    moreover have "nat k \<le> length d" using assms(4) by simp
    ultimately have "i * s < length d" using lo by linarith
    moreover have "nat k - i * s \<le> s \<and> i * s < nat k" if "i + 1 = n"
      using hi lo by (simp flip: that)
    ultimately show ?thesis using i \<open>0 < s\<close> by (auto simp: min_def)
  qed
  then have "\<forall>x \<in> set segs. encodeData x \<noteq> [] \<and> length (encodeData x) \<le> s" using eq(1) by (metis image_eqI set_map)
  moreover have "concat (map encodeData segs) = take (nat k) d" using eq pos lo by (simp add: concat_chunks)
  moreover have "even (length x)" if "c = DATA_CODING_UCS2" "even k" "y \<in> set segs" "x = encodeData y" for x y
  proof -
    from one [OF that(1)] pos have "n = 1" by linarith
    with eq(1,2) that(3,4) assms(3,4) have "length x = nat k" by (auto simp: chunks_def length_Suc_conv)
    with that(2) assms(3) show ?thesis by (simp add: even_nat_iff)
  qed
  ultimately show ?thesis using eq limit by (auto simp: split_spec_def)
qed

lemma split_spec_ucs2:
  assumes all: "list_all2 (seg_of DATA_CODING_UCS2 l) (ucs2_pieces b 67 d (nat k div 2) 0) segs"
    and "134 < k" "k \<le> int (length d)"
  shows "split_spec k DATA_CODING_UCS2 l' d segs"
proof -
  let ?xs = "ucs2_pieces b 67 d (nat k div 2) 0"
  note eq = list_all2_seg_of [OF all]
  have sz: "2 * (nat k div 2) \<le> length d" "0 < nat k div 2" using assms(2,3) by auto
  have "concat ?xs = take (2 * (nat k div 2)) d" using ucs2_pieces_concat [OF sz(1), of 0] by simp
  moreover have "x \<noteq> [] \<and> length x \<le> 134" if "x \<in> set ?xs" for x
    using ucs2_pieces_length [OF _ sz that] by auto
  then have "\<forall>s \<in> set segs. encodeData s \<noteq> [] \<and> length (encodeData s) \<le> 134"
    using eq by (metis image_eqI set_map)
  moreover have "\<forall>s \<in> set segs. even (length (encodeData s))"
    using ucs2_pieces_length [OF _ sz] eq by (metis image_eqI set_map zero_less_numeral)
  ultimately show ?thesis using eq
    by (auto simp: split_spec_def segment_limit_def is_7bit_def order_trans [of _ 134 140])
qed

lemma split_data_octets:
  assumes ic: "iconv_bounded ic" and k: "0 < k" "k \<le> int (length d)" and s: "0 < s" "s \<le> segment_limit c n" "n = nat (ceil_div k (int s))"
    and septets: "c = DATA_CODING_7BIT \<Longrightarrow> \<forall>x \<in> set (take (nat k) d). x < 0x80"
    and one: "c = DATA_CODING_UCS2 \<Longrightarrow> n \<le> 1"
  shows "\<exists>segs. each (\<lambda>i. push_segment ic wsize d c l (i * s) (if i + 1 = n then nat k - i * s else s)) [0..<n] res
      = Ok () (res @ segs) \<and> split_spec k c l d segs"
proof -
  let ?len = "\<lambda>i. if i + 1 = n then nat k - i * s else s"
  have lim: "s \<le> 160" using s(2) by (auto simp: segment_limit_def split: if_splits)
  note b = ceil_div_nat [OF k(1) s(1,3)]
  have in_data: "i * s + ?len i \<le> nat k \<and> ?len i \<le> s" if "i < n" for i
  proof (cases "i + 1 = n")
    case True
    with b show ?thesis by (auto simp flip: True)
  next
    case False
    then have "(i + 1) * s \<le> (n - 1) * s" using that by (intro mult_le_mono1) simp
    with b False show ?thesis by simp
  qed
  have "\<exists>x. push_segment ic wsize d c l (i * s) (?len i) res = Ok () (res @ [x]) \<and>
      seg_of c l (take (?len i) (drop (i * s) d)) x" if "i \<in> set [0..<n]" for i res
  proof (rule push_segment_returns [OF ic])
    have i: "i * s + ?len i \<le> nat k" "?len i \<le> s" using in_data that by auto
    show "i * s + ?len i \<le> length d" using i(1) k(2) by linarith
    show "?len i \<le> MAX_MSG_TEXT_LEN" using i(2) lim by (simp add: MAX_MSG_TEXT_LEN_def)
    have "set (take (?len i) (drop (i * s) d)) \<subseteq> set (take (nat k) d)"
      using i(1) set_drop_subset [of "i * s" "take (i * s + ?len i) d"] set_take_subset_set_take [of "i * s + ?len i" "nat k" d]
      by (simp add: take_drop add.commute)
    then show "\<forall>x \<in> set (take (?len i) (drop (i * s) d)). x < 0x80" if "c = DATA_CODING_7BIT"
      using septets [OF that] by blast
  qed
  then have "\<exists>segs. each (\<lambda>i. push_segment ic wsize d c l (i * s) (?len i)) [0..<n] res = Ok () (res @ segs) \<and>
      list_all2 (seg_of c l) (map (\<lambda>i. take (?len i) (drop (i * s) d)) [0..<n]) segs"
    by (rule each_push)
  then obtain segs where
    "each (\<lambda>i. push_segment ic wsize d c l (i * s) (?len i)) [0..<n] res = Ok () (res @ segs)"
    "list_all2 (seg_of c l) (chunks n s (nat k) d) segs"
    by (auto simp: chunks_def)
  with split_spec_chunks [of c l n s k d segs] k s one show ?thesis by blast
qed

lemma split_data_returns:
  assumes ic: "iconv_bounded ic" and k: "k \<le> int (length d)"
    and septets: "c = DATA_CODING_7BIT \<Longrightarrow> \<forall>x \<in> set (take (nat k) d). x < 0x80"
  shows "\<exists>segs. split_data ic wsize (Some icu) k c l d port res = Ok () (res @ segs) \<and> split_spec k c l d segs"
proof -
  let ?s = "GetSegmentSize c k port l"
  consider "k \<le> 0" | "0 < k" "\<not> is_7bit c" "\<not> is_octets c" | "0 < k" "c = DATA_CODING_UCS2" "1 < ceil_div k ?s"
    | "0 < k" "is_7bit c \<or> is_octets c" "\<not> (c = DATA_CODING_UCS2 \<and> 1 < ceil_div k ?s)" by linarith
  then show ?thesis
  proof cases
    case 1
    then show ?thesis by (auto simp: split_data_def ret_def split_spec_def)
  next
    case 2
    then show ?thesis by (auto simp: split_data_def ret_def split_spec_def GetSegmentSize_def)
  next
    case 3
    have "?s = k \<or> ?s = 134" using 3 by (auto simp: GetSegmentSize_def is_octets_def is_7bit_def Let_def)
    moreover have "ceil_div k k = 1" using 3(1) by (rule ceil_div_self)
    ultimately have s: "?s = 134" using 3(3) by auto
    have "134 < k" using 3(3) s by (auto simp: ceil_div_def)
    let ?b = "icu (ucs2_chars (take (2 * (nat k div 2)) d))"
    obtain segs where segs: "ucs2_segments ic wsize ?b d c (nat k div 2) 67 0 res = Ok () (res @ segs)"
      "list_all2 (seg_of c 0) (ucs2_pieces ?b 67 d (nat k div 2) 0) segs"
      using ucs2_segments_returns [OF ic, of 67 "nat k div 2" d 0 c] k 3(2) by fastforce
    with split_spec_ucs2 [OF segs(2) [unfolded 3(2)] \<open>134 < k\<close> k] show ?thesis
      using 3 s k by (auto simp: split_data_def Let_def SplitMessageUcs2_def slice_def op_simps)
  next
    case 4
    have s: "0 < ?s" "nat ?s \<le> segment_limit c (nat (ceil_div k ?s))"
      using 4(1,2) ceil_div_self [of k]
      by (auto simp: GetSegmentSize_def max_data_len_def segment_limit_def MSG_7BIT_DATA_LEN_def MSG_UCS2_DATA_LEN_def
          is_7bit_def is_octets_def Let_def nat_le_iff)
    have "c = DATA_CODING_UCS2 \<Longrightarrow> nat (ceil_div k ?s) \<le> 1" using 4(3) by simp
    from split_data_octets [OF ic 4(1) k, of "nat ?s" c "nat (ceil_div k ?s)", OF _ s(2) _ septets this, of wsize l res] s(1)
    obtain segs where "each (\<lambda>i. push_segment ic wsize d c l (i * nat ?s) (if i + 1 = nat (ceil_div k ?s) then nat k - i * nat ?s else nat ?s)) [0..<nat (ceil_div k ?s)] res
        = Ok () (res @ segs)" "split_spec k c l d segs"
      by auto
    then show ?thesis using 4 s(1) by (auto simp: split_data_def Let_def)
  qed
qed

locale message_decoder =
  fixes ic :: iconv and decode :: decode_message and handled :: "DataCodingScheme \<Rightarrow> bool"
  assumes decode_returns: "iconv_bounded ic \<Longrightarrow> handled c \<Longrightarrow> length dest = DECODE_DATA_SIZE \<Longrightarrow>
    \<exists>k sch l d. decode c msg dest = Ok (k, sch, l) d \<and> length d = length dest \<and> k \<le> int (length dest) \<and>
      (sch = DATA_CODING_7BIT \<longrightarrow> (\<forall>x \<in> set (take (nat k) d). x < 0x80))"
begin

lemma split_returns:
  assumes ic: "iconv_bounded ic" and ok: "handled (start_coding force7 addr)"
  shows "\<exists>k sch l d segs. decode (start_coding force7 addr) msg (replicate DECODE_DATA_SIZE 0) = Ok (k, sch, l) d \<and>
    SplitMessage ic wsize (Some icu) decode msg force7 port addr res = Ok sch (res @ segs) \<and> split_spec k sch l d segs"
proof -
  obtain k sch l d where d: "decode (start_coding force7 addr) msg (replicate DECODE_DATA_SIZE 0) = Ok (k, sch, l) d"
    "length d = DECODE_DATA_SIZE" "k \<le> int (length d)"
    "sch = DATA_CODING_7BIT \<Longrightarrow> \<forall>x \<in> set (take (nat k) d). x < 0x80"
    using decode_returns [OF ic ok, of "replicate DECODE_DATA_SIZE 0" msg] by auto
  have "\<exists>segs. split_data ic wsize (Some icu) k sch l d port res = Ok () (res @ segs) \<and> split_spec k sch l d segs"
    by (rule split_data_returns [OF ic d(3,4)])
  with d(1) show ?thesis by (auto simp: SplitMessage_def start_coding_def op_simps Let_def)
qed

end

end
