(* ===== verification/Gsm_Decoded_Data.thy ===== *)
theory Gsm_Decoded_Data
  imports Sms_Base_Message
begin

text \<open>
  What the user data of a decoded message satisfies beyond the sizes of its arrays, so that the message object can read
  it without further tests: the length stays within the array, the text of a 7-bit message consists of septets, the header
  count is at most 7 and each counted header has the member of the union that its type names. Partial correctness rules
  for operations that end \<open>Ok\<close> carry this through the decoders.
\<close>

section \<open>Partial correctness\<close>

definition ok_post :: "('s \<Rightarrow> bool) \<Rightarrow> ('s, 'a) op \<Rightarrow> ('a \<Rightarrow> 's \<Rightarrow> bool) \<Rightarrow> bool" where
  "ok_post P m Q \<longleftrightarrow> (\<forall>s x t. P s \<longrightarrow> m s = Ok x t \<longrightarrow> Q x t)"

abbreviation stays :: "('o \<Rightarrow> bool) \<Rightarrow> ('b \<times> 'o, 'a) op \<Rightarrow> bool" where
  "stays K m \<equiv> ok_post (\<lambda>s. K (snd s)) m (\<lambda>_ s. K (snd s))"

named_theorems ok_rules \<open>partial correctness of operations\<close>

lemma ok_postD: "ok_post P m Q \<Longrightarrow> P s \<Longrightarrow> m s = Ok x t \<Longrightarrow> Q x t"
  by (simp add: ok_post_def)

lemma ok_post_bnd: "ok_post P m Q \<Longrightarrow> (\<And>x. ok_post (Q x) (k x) R) \<Longrightarrow> ok_post P (bnd m k) R"
  by (auto simp: ok_post_def bnd_def split: outcome.splits)

lemma ok_post_seq: "ok_post P m Q \<Longrightarrow> ok_post (Q ()) n R \<Longrightarrow> ok_post P (seq m n) R"
  by (auto simp: seq_def intro: ok_post_bnd)

lemma ok_post_stay_bnd: "stays K m \<Longrightarrow> (\<And>x. ok_post (\<lambda>s. K (snd s)) (k x) R) \<Longrightarrow> ok_post (\<lambda>s. K (snd s)) (bnd m k) R"
  by (rule ok_post_bnd)

lemma ok_post_stay_seq: "stays K m \<Longrightarrow> ok_post (\<lambda>s. K (snd s)) n R \<Longrightarrow> ok_post (\<lambda>s. K (snd s)) (seq m n) R"
  unfolding seq_def by (rule ok_post_bnd)

lemma ok_post_if: "(c \<Longrightarrow> ok_post P m Q) \<Longrightarrow> (\<not> c \<Longrightarrow> ok_post P n Q) \<Longrightarrow> ok_post P (if c then m else n) Q"
  by simp

lemma ok_post_ret: "(\<And>s. P s \<Longrightarrow> Q x s) \<Longrightarrow> ok_post P (ret x) Q"
  by (simp add: ok_post_def ret_def)

lemma ok_post_fail [ok_rules]: "ok_post P fail Q"
  by (simp add: ok_post_def fail_def)

lemma ok_post_fault [ok_rules]: "ok_post P fault Q"
  by (simp add: ok_post_def fault_def)

lemma ok_post_ensure: "(\<And>s. c \<Longrightarrow> P s \<Longrightarrow> Q () s) \<Longrightarrow> ok_post P (ensure c) Q"
  by (simp add: ok_post_def ensure_def)

lemma ok_post_on_out: "(\<And>b x. P (b, x) \<Longrightarrow> Q () (b, f x)) \<Longrightarrow> ok_post P (on_out f) Q"
  by (auto simp: ok_post_def on_out_def)

lemma ok_post_get_out: "(\<And>x. ok_post (\<lambda>s. P s \<and> snd s = x) (k x) Q) \<Longrightarrow> ok_post P (bnd get_out k) Q"
  by (auto simp: ok_post_def bnd_def get_out_def)

lemma ok_post_weaken: "ok_post P m Q \<Longrightarrow> (\<And>s. P' s \<Longrightarrow> P s) \<Longrightarrow> (\<And>x s. Q x s \<Longrightarrow> Q' x s) \<Longrightarrow> ok_post P' m Q'"
  unfolding ok_post_def by blast

lemma stays_simple [ok_rules]:
  "stays K (ret x)" "stays K (ensure c)" "stays K (on_buf m)" "stays K (attempt (on_buf m))" "stays K get_out"
  by (auto simp: ok_post_def ret_def ensure_def on_buf_def attempt_def get_out_def split: outcome.splits if_splits)

lemma stays_zoom: "(\<And>x y. K x \<Longrightarrow> K (put y x)) \<Longrightarrow> stays K (zoom get put m)"
  by (auto simp: ok_post_def zoom_def split: outcome.splits)

lemma ok_post_zoom:
  assumes m: "ok_post P m Q" and get: "\<And>b x. P' (b, x) \<Longrightarrow> P (b, get x)"
    and put: "\<And>v b x c y. P' (b, x) \<Longrightarrow> Q v (c, y) \<Longrightarrow> Q' v (c, put y x)"
  shows "ok_post P' (zoom get put m) Q'"
  unfolding ok_post_def
proof (intro allI impI)
  fix s v t
  assume s: "P' s" and z: "zoom get put m s = Ok v t"
  then obtain t' where t': "m (fst s, get (snd s)) = Ok v t'" "t = (fst t', put (snd t') (snd s))"
    by (auto simp: zoom_def split: outcome.splits)
  have "Q v t'" using ok_postD [OF m _ t'(1)] get [of "fst s" "snd s"] s by simp
  then show "Q' v t" using put [of "fst s" "snd s" v "fst t'" "snd t'"] s t'(2) by simp
qed

section \<open>Headers\<close>

definition udh_matches :: "SmsUDH \<Rightarrow> bool" where
  "udh_matches h \<longleftrightarrow>
     (udhType h = UDH_CONCAT_8BIT \<longrightarrow> udh_concat8 h \<noteq> None) \<and> (udhType h = UDH_CONCAT_16BIT \<longrightarrow> udh_concat16 h \<noteq> None) \<and>
     (udhType h = UDH_APP_PORT_8BIT \<longrightarrow> udh_port8 h \<noteq> None) \<and> (udhType h = UDH_APP_PORT_16BIT \<longrightarrow> udh_port16 h \<noteq> None) \<and>
     (udhType h = UDH_SPECIAL_SMS \<longrightarrow> udh_special h \<noteq> None)"

lemmas udh_member_defs = udh_concat8_def udh_concat16_def udh_port8_def udh_port16_def udh_special_def

abbreviation typed_as :: "u8 \<Rightarrow> SmsUDH \<Rightarrow> bool" where
  "typed_as t \<equiv> \<lambda>h. udhType h = t \<and> udh_matches h"

lemma stays_read_iedl [ok_rules]: "stays K read_iedl"
  unfolding read_iedl_def by (intro ok_post_stay_bnd ok_rules)

lemma stays_header_cases [ok_rules]:
  "stays (typed_as UDH_CONCAT_8BIT) DecodeHeaderConcat8Bit" "stays (typed_as UDH_CONCAT_16BIT) DecodeHeaderConcat16Bit"
  "stays (typed_as UDH_APP_PORT_8BIT) DecodeHeaderAppPort8Bit" "stays (typed_as UDH_APP_PORT_16BIT) DecodeHeaderAppPort16Bit"
  "stays (typed_as UDH_SPECIAL_SMS) DecodeHeaderSpecialSms" "stays (typed_as UDH_SINGLE_SHIFT) DecodeHeaderSingleShift"
  "stays (typed_as UDH_LOCKING_SHIFT) DecodeHeaderLockingShift"
  "stays (typed_as UDH_ALTERNATE_REPLY_ADDRESS) (DecodeHeaderReplyAddress ic w)"
  unfolding DecodeHeaderConcat8Bit_def DecodeHeaderConcat16Bit_def DecodeHeaderAppPort8Bit_def
    DecodeHeaderAppPort16Bit_def DecodeHeaderSpecialSms_def DecodeHeaderSingleShift_def
    DecodeHeaderLockingShift_def DecodeHeaderReplyAddress_def
  by (intro ok_post_stay_bnd ok_post_stay_seq ok_rules ok_post_on_out stays_zoom;
      simp add: udh_matches_def udh_member_defs upd_concat8_def upd_concat16_def upd_port8_def upd_port16_def upd_special_def)+

lemma stays_DecodeHeaderDefaultCase [ok_rules]: "stays K DecodeHeaderDefaultCase"
  unfolding DecodeHeaderDefaultCase_def by (intro ok_post_stay_bnd ok_post_stay_seq ok_rules)

lemma DecodeHeader_matches: "ok_post (\<lambda>s. snd s = zero_udh) (DecodeHeader ic w) (\<lambda>_ s. udh_matches (snd s))"
proof -
  let ?body = "\<lambda>b. if b = UDH_CONCAT_8BIT then DecodeHeaderConcat8Bit
      else if b = UDH_CONCAT_16BIT then DecodeHeaderConcat16Bit
      else if b = UDH_APP_PORT_8BIT then DecodeHeaderAppPort8Bit
      else if b = UDH_APP_PORT_16BIT then DecodeHeaderAppPort16Bit
      else DecodeHeaderPartData ic w b"
  have "stays (typed_as b) (DecodeHeaderPartData ic w b)" for b
    unfolding DecodeHeaderPartData_def
    by (intro ok_post_stay_seq ok_post_on_out ok_post_if) (auto intro: ok_rules)
  then have body: "stays (typed_as b) (?body b)" for b by (auto intro: ok_rules)
  show ?thesis unfolding DecodeHeader_def
    by (rule ok_post_stay_bnd [where K = "\<lambda>h. h = zero_udh"], rule ok_rules)+
      (rule ok_post_seq [where Q = "\<lambda>_ s. typed_as b (snd s)" for b],
        simp add: ok_post_def on_out_def zero_udh_def udh_matches_def udh_member_defs,
        rule ok_post_stay_seq, rule body, rule ok_post_stay_bnd, rule ok_rules, simp add: ok_post_def ret_def)
qed

section \<open>User data\<close>

text \<open>\<open>headers_read i u\<close>: \<open>i\<close> headers have been decoded, the others are untouched.\<close>

definition headers_read :: "nat \<Rightarrow> SmsUDPackage \<Rightarrow> bool" where
  "headers_read i u \<longleftrightarrow> unat (headerCnt u) = i \<and> i \<le> MAX_UD_HEADER_NUM \<and> length (ud_header u) = MAX_UD_HEADER_NUM \<and>
     (\<forall>j < i. udh_matches (ud_header u ! j)) \<and> (\<forall>j. i \<le> j \<and> j < MAX_UD_HEADER_NUM \<longrightarrow> ud_header u ! j = zero_udh)"

definition data_fits :: "DataCodingScheme \<Rightarrow> SmsUDPackage \<times> SmsTpud option \<Rightarrow> bool" where
  "data_fits c x \<longleftrightarrow> unat (ud_length (fst x)) \<le> MAX_USER_DATA_LEN \<and>
     (\<forall>t. snd x = Some t \<longrightarrow> unat (tpud_udl t) \<le> MAX_USER_DATA_LEN) \<and>
     (c = DATA_CODING_7BIT \<longrightarrow> (\<forall>s \<in> set (ud_data (fst x)). s < 0x80))"

abbreviation ud_at :: "DataCodingScheme \<Rightarrow> nat \<Rightarrow> SmsUDPackage \<times> SmsTpud option \<Rightarrow> bool" where
  "ud_at c i \<equiv> \<lambda>x. headers_read i (fst x) \<and> data_fits c x"

definition ud_done :: "DataCodingScheme \<Rightarrow> SmsUDPackage \<times> SmsTpud option \<Rightarrow> bool" where
  "ud_done c x \<longleftrightarrow> (\<exists>i. ud_at c i x)"

lemma ok_post_on_ud: "(\<And>b u t. P (b, u, t) \<Longrightarrow> Q () (b, f u, t)) \<Longrightarrow> ok_post P (on_ud f) Q"
  unfolding on_ud_def by (rule ok_post_on_out) auto

lemma ok_post_on_tpud: "(\<And>b u t. P (b, u, t) \<Longrightarrow> Q () (b, u, map_option f t)) \<Longrightarrow> ok_post P (on_tpud f) Q"
  unfolding on_tpud_def by (rule ok_post_on_out) auto

lemma stays_on_ud: "(\<And>u t. K (u, t) \<Longrightarrow> K (f u, t)) \<Longrightarrow> stays K (on_ud f)"
  by (rule ok_post_on_ud) simp

lemma decode_header_at_count:
  assumes i: "i < MAX_UD_HEADER_NUM"
    and f: "\<And>n K. ok_post (\<lambda>s. K (snd s)) (f n) (\<lambda>_ s. \<exists>x. K x \<and> snd s = (count_header (fst x), snd x))"
  shows "ok_post (\<lambda>s. ud_at c i (snd s)) (bnd (decode_header_at ic w i) f) (\<lambda>_ s. ud_at c (Suc i) (snd s))"
proof -
  let ?K = "\<lambda>x. unat (headerCnt (fst x)) = i \<and> length (ud_header (fst x)) = MAX_UD_HEADER_NUM \<and>
     (\<forall>j < Suc i. udh_matches (ud_header (fst x) ! j)) \<and>
     (\<forall>j. Suc i \<le> j \<and> j < MAX_UD_HEADER_NUM \<longrightarrow> ud_header (fst x) ! j = zero_udh) \<and> data_fits c x"
  have "ok_post (\<lambda>s. ud_at c i (snd s)) (decode_header_at ic w i) (\<lambda>_ s. ?K (snd s))"
    unfolding decode_header_at_def case_prod_unfold
    by (rule ok_post_get_out, rule ok_post_if, rule ok_post_zoom [OF DecodeHeader_matches])
      (use i in \<open>auto simp: headers_read_def less_Suc_eq nth_list_update data_fits_def intro: ok_rules\<close>)
  then show ?thesis
  proof (rule ok_post_bnd)
    fix n
    have "unat (headerCnt u + 1) = Suc i" if "unat (headerCnt u) = i" for u :: SmsUDPackage
      using that i by (simp add: unat_word_ariths MAX_UD_HEADER_NUM_def)
    then show "ok_post (\<lambda>s. ?K (snd s)) (f n) (\<lambda>_ s. ud_at c (Suc i) (snd s))"
      using i by (intro ok_post_weaken [OF f [where K = ?K]]) (auto simp: headers_read_def count_header_def data_fits_def)
  qed
qed

lemma count_header_ok [ok_rules]:
  "ok_post (\<lambda>s. K (snd s)) (on_ud count_header) (\<lambda>_ s. \<exists>x. K x \<and> snd s = (count_header (fst x), snd x))"
  by (rule ok_post_on_ud) fastforce

lemma seq_fail_ok [ok_rules]: "ok_post P (seq m fail) Q"
  by (auto simp: ok_post_def seq_def bnd_def fail_def split: outcome.splits)

lemma for_headers_ok:
  assumes "\<And>j. i \<le> j \<Longrightarrow> j < i + n \<Longrightarrow> ok_post (\<lambda>s. ud_at c j (snd s)) (body j) (\<lambda>_ s. ud_at c (Suc j) (snd s))"
  shows "ok_post (\<lambda>s. ud_at c i (snd s)) (for_headers continue body i n) (\<lambda>_ s. ud_done c (snd s))"
  using assms
proof (induction n arbitrary: i)
  case 0
  then show ?case by (auto simp: ud_done_def intro!: ok_post_ret)
next
  case (Suc n)
  have "ok_post (\<lambda>s. ud_at c (Suc i) (snd s)) (for_headers continue body (Suc i) n) (\<lambda>_ s. ud_done c (snd s))"
    using Suc.prems by (intro Suc.IH) simp
  moreover have "ok_post (\<lambda>s. ud_at c i (snd s)) (body i) (\<lambda>_ s. ud_at c (Suc i) (snd s))" using Suc.prems by simp
  ultimately show ?case unfolding for_headers.simps
    by (intro ok_post_stay_bnd [where K = "ud_at c i"] ok_rules ok_post_if)
      (auto simp: ud_done_def intro: ok_post_seq intro!: ok_post_ret)
qed

lemma GetHeaderCnt_ok:
  "ok_post (\<lambda>s. ud_at c i (snd s)) (GetHeaderCnt ic w udhl i) (\<lambda>_ s. ud_at c (Suc i) (snd s))"
  unfolding GetHeaderCnt_def
proof (rule ok_post_seq)
  show "ok_post (\<lambda>s. ud_at c i (snd s)) (ensure (\<not> MAX_UD_HEADER_NUM \<le> i))
      (\<lambda>_ s. ud_at c i (snd s) \<and> i < MAX_UD_HEADER_NUM)"
    by (rule ok_post_ensure) simp
  show "ok_post (\<lambda>s. ud_at c i (snd s) \<and> i < MAX_UD_HEADER_NUM) (bnd (on_buf (gets GetIndex)) (\<lambda>current.
      bnd (decode_header_at ic w i) (\<lambda>headerLen.
      if headerLen = 0 then seq (on_ud ResetUserData) fail
      else bnd (on_buf (gets GetIndex)) (\<lambda>index.
        if index - current > udhl + 2 then seq (on_ud ResetUserData) fail
        else on_ud count_header)))) (\<lambda>_ s. ud_at c (Suc i) (snd s))"
  proof (cases "i < MAX_UD_HEADER_NUM")
    case True
    then show ?thesis
      by (simp, intro ok_post_stay_bnd [where K = "ud_at c i"] ok_rules decode_header_at_count ok_post_if ok_post_stay_bnd)
  qed (simp add: ok_post_def)
qed

lemma ud_done_length: "ud_done c (u, t) \<Longrightarrow> n \<le> MAX_USER_DATA_LEN \<Longrightarrow> ud_done c (u\<lparr>ud_length := word_of_nat n\<rparr>, t)"
  by (auto simp: ud_done_def headers_read_def data_fits_def unat_of_nat MAX_USER_DATA_LEN_def)

lemma ud_done_data: "ud_done c (u, t) \<Longrightarrow> c \<noteq> DATA_CODING_7BIT \<Longrightarrow> ud_done c (u\<lparr>ud_data := d\<rparr>, t)"
  by (auto simp: ud_done_def headers_read_def data_fits_def)

text \<open>After the count of headers is set to 0, with all headers blank, the loop leaves \<open>ud_done\<close>.\<close>

definition ud_blank :: "DataCodingScheme \<Rightarrow> SmsUDPackage \<times> SmsTpud option \<Rightarrow> bool" where
  "ud_blank c x \<longleftrightarrow> ud_header (fst x) = replicate MAX_UD_HEADER_NUM zero_udh \<and> data_fits c x"

lemma blank_count_ok: "ok_post (\<lambda>s. ud_blank c (snd s)) (on_ud (\<lambda>u. u\<lparr>headerCnt := 0\<rparr>)) (\<lambda>_ s. ud_at c 0 (snd s))"
  by (rule ok_post_on_ud) (simp add: ud_blank_def headers_read_def data_fits_def)

lemma blank_done_ok: "ok_post (\<lambda>s. ud_blank c (snd s)) (on_ud (\<lambda>u. u\<lparr>headerCnt := 0\<rparr>)) (\<lambda>_ s. ud_done c (snd s))"
  by (rule ok_post_weaken [OF blank_count_ok]) (auto simp: ud_done_def)

lemma stays_set_tpud [ok_rules]:
  "stays (ud_blank c) (set_tpud xs)"
  unfolding set_tpud_def case_prod_unfold
  by (rule ok_post_get_out) (auto simp: ud_blank_def data_fits_def intro!: ok_post_on_tpud ok_rules)

lemma stays_tpud_udl: "n \<le> MAX_USER_DATA_LEN \<Longrightarrow> stays (ud_blank c) (on_tpud (\<lambda>t. t\<lparr>tpud_udl := word_of_nat n\<rparr>))"
  by (rule ok_post_on_tpud) (auto simp: ud_blank_def data_fits_def MAX_USER_DATA_LEN_def unat_of_nat)

lemma stays_tpud_udl_word [ok_rules]:
  "unat n \<le> MAX_USER_DATA_LEN \<Longrightarrow> stays (ud_blank c) (on_tpud (\<lambda>t. t\<lparr>tpud_udl := n\<rparr>))"
  using stays_tpud_udl [of "unat n"] by simp

subsection \<open>The 7-bit alphabet\<close>

lemma headers_loop_ok:
  assumes "\<And>cur i. i < MAX_UD_HEADER_NUM \<Longrightarrow>
    ok_post (\<lambda>s. ud_at c i (snd s)) (body cur i) (\<lambda>_ s. ud_at c (Suc i) (snd s))"
  shows "ok_post (\<lambda>s. ud_blank c (snd s)) (seq (on_ud (\<lambda>u. u\<lparr>headerCnt := 0\<rparr>)) (bnd (on_buf m) (\<lambda>cur.
    seq (for_headers (continue cur) (body cur) 0 MAX_UD_HEADER_NUM) (ret (n cur))))) (\<lambda>_ s. ud_done c (snd s))"
proof (rule ok_post_seq [OF blank_count_ok])
  show "ok_post (\<lambda>s. ud_at c 0 (snd s)) (bnd (on_buf m) (\<lambda>cur.
      seq (for_headers (continue cur) (body cur) 0 MAX_UD_HEADER_NUM) (ret (n cur)))) (\<lambda>_ s. ud_done c (snd s))"
    by (rule ok_post_stay_bnd [where K = "ud_at c 0"], rule ok_rules, rule ok_post_seq [OF for_headers_ok])
      (auto intro!: assms ok_post_ret)
qed

lemma DecodeGsmHeadPduPartData_ok:
  "ok_post (\<lambda>s. ud_blank c (snd s)) (DecodeGsmHeadPduPartData ic w h udl) (\<lambda>v s. ud_done c (snd s) \<and> fst v \<le> udl)"
  unfolding DecodeGsmHeadPduPartData_def
  apply (rule ok_post_bnd [where Q = "\<lambda>_ s. ud_done c (snd s)"], rule ok_post_if)
    apply (rule ok_post_stay_bnd [where K = "ud_blank c"], rule stays_simple)
    apply (rule headers_loop_ok, rule decode_header_at_count, assumption)
    apply (rule ok_post_if, rule seq_fail_ok, rule ok_post_stay_bnd, rule stays_simple)
    apply (rule ok_post_if, rule seq_fail_ok, rule count_header_ok)
   apply (rule ok_post_seq [OF blank_done_ok], rule stays_simple)
  apply (auto intro!: ok_post_ret)
  done

lemma gsm_wap_push_ok: "unat udl \<le> MAX_USER_DATA_LEN \<Longrightarrow> stays (ud_blank c) (gsm_wap_push udl)"
  unfolding gsm_wap_push_def case_prod_unfold Let_def
  by (intro ok_post_stay_seq ok_post_stay_bnd ok_rules)

lemma DecodeGsmHeadPdu_ok:
  "ok_post (\<lambda>s. ud_blank c (snd s)) (DecodeGsmHeadPdu ic w h) (\<lambda>v s. ud_done c (snd s) \<and> fst v \<le> MAX_USER_DATA_LEN)"
proof -
  have "ok_post (\<lambda>s. ud_blank c (snd s)) (bnd get_out (\<lambda>(u, t). seq (if t \<noteq> None \<and> udl > 0 then gsm_wap_push udl else ret ())
      (DecodeGsmHeadPduPartData ic w h (unat udl)))) (\<lambda>v s. ud_done c (snd s) \<and> fst v \<le> MAX_USER_DATA_LEN)"
    if "\<not> 160 < unat udl" for udl
  proof -
    have le: "unat udl \<le> MAX_USER_DATA_LEN" using that by (simp add: MAX_USER_DATA_LEN_def)
    show ?thesis unfolding case_prod_unfold
      by (rule ok_post_stay_bnd [where K = "ud_blank c"], rule ok_rules, rule ok_post_stay_seq [where K = "ud_blank c"])
        (use le in \<open>auto intro!: gsm_wap_push_ok ok_rules intro: ok_post_weaken [OF DecodeGsmHeadPduPartData_ok]\<close>)
  qed
  then show ?thesis unfolding DecodeGsmHeadPdu_def
    by (intro ok_post_stay_bnd [where K = "ud_blank c", OF stays_simple(3)] ok_post_if seq_fail_ok)
qed

lemma stays_store_septet: "v < 0x80 \<Longrightarrow> stays (\<lambda>d. \<forall>s \<in> set d. s < 0x80) (store_at i v)"
  by (auto simp: ok_post_def store_at_def split: if_splits dest!: set_update_subset_insert [THEN subsetD])

lemma septet_AND: "(x :: u8) AND 0x7F < 0x80"
  by (rule order_le_less_trans [OF word_and_le1]) simp

lemma stays_unpack7:
  "stays (\<lambda>d. \<forall>s \<in> set d. s < 0x80) (unpack7_first i)" "stays (\<lambda>d. \<forall>s \<in> set d. s < 0x80) (unpack7_char i shift)"
  unfolding unpack7_first_def unpack7_char_def
  by (auto intro!: ok_post_stay_bnd ok_post_stay_seq ok_rules stays_store_septet septet_AND split: option.splits)

lemma unpack7_loop_ok:
  "i \<le> n \<Longrightarrow> ok_post (\<lambda>s. \<forall>x \<in> set (snd s). x < 0x80) (unpack7_loop n i shift) (\<lambda>v s. (\<forall>x \<in> set (snd s). x < 0x80) \<and> v \<le> n)"
proof (induction n i shift rule: unpack7_loop.induct)
  case (1 n i shift)
  then show ?case
    by (subst unpack7_loop.simps)
      (auto intro!: ok_post_if ok_post_bnd [OF stays_unpack7(1)] ok_post_bnd [OF stays_unpack7(2)] ok_post_ret)
qed

lemma Unpack7bitChar_ok:
  "ok_post (\<lambda>s. \<forall>x \<in> set (snd s). x < 0x80) (Unpack7bitChar n f m 0) (\<lambda>v s. (\<forall>x \<in> set (snd s). x < 0x80) \<and> v \<le> n)"
  unfolding Unpack7bitChar_def
  by (rule ok_post_stay_seq, rule ok_rules)
    (auto simp: seq_def intro!: ok_post_bnd [OF _ unpack7_loop_ok] intro: ok_rules)

lemma DecodeGsmBodyPdu_ok:
  "udl \<le> MAX_USER_DATA_LEN \<Longrightarrow> stays (ud_done DATA_CODING_7BIT) (DecodeGsmBodyPdu udl fillBits)"
  unfolding DecodeGsmBodyPdu_def
  by (rule ok_post_bnd [OF ok_post_zoom [OF Unpack7bitChar_ok,
          where Q' = "\<lambda>v s. ud_done DATA_CODING_7BIT (snd s) \<and> v \<le> udl" and P' = "\<lambda>s. ud_done DATA_CODING_7BIT (snd s)"]])
    (auto simp: ud_done_def headers_read_def data_fits_def unat_of_nat MAX_USER_DATA_LEN_def intro!: ok_post_on_ud)

lemma DecodeGsmPdu_ok:
  "ok_post (\<lambda>s. ud_blank DATA_CODING_7BIT (snd s)) (DecodeGsmPdu ic w h) (\<lambda>_ s. ud_done DATA_CODING_7BIT (snd s))"
  unfolding DecodeGsmPdu_def
proof (rule ok_post_bnd [OF DecodeGsmHeadPdu_ok])
  fix v :: "nat \<times> nat"
  have "stays (ud_done DATA_CODING_7BIT) (DecodeGsmBodyPdu (fst v) (snd v))" if "fst v \<le> MAX_USER_DATA_LEN"
    using that by (rule DecodeGsmBodyPdu_ok)
  then show "ok_post (\<lambda>s. ud_done DATA_CODING_7BIT (snd s) \<and> fst v \<le> MAX_USER_DATA_LEN)
      (case v of (udl, fillBits) \<Rightarrow> DecodeGsmBodyPdu udl fillBits) (\<lambda>_ s. ud_done DATA_CODING_7BIT (snd s))"
    unfolding case_prod_unfold ok_post_def by blast
qed

subsection \<open>Octets and UCS-2\<close>

lemma copy_payload_ok: "c \<noteq> DATA_CODING_7BIT \<Longrightarrow> stays (ud_done c) copy_payload"
  unfolding copy_payload_def case_prod_unfold Let_def
  by (intro ok_post_stay_bnd ok_post_stay_seq ok_post_if stays_simple stays_on_ud ud_done_data)

lemma set_length_ok: "n \<le> MAX_USER_DATA_LEN \<Longrightarrow> stays (ud_done c) (on_ud (\<lambda>u. u\<lparr>ud_length := word_of_nat n\<rparr>))"
  by (rule stays_on_ud) (rule ud_done_length)

lemma Decode8bitPduPartData_ok:
  assumes "c \<noteq> DATA_CODING_7BIT" "udl \<le> MAX_USER_DATA_LEN"
  shows "ok_post (\<lambda>s. ud_blank c (snd s)) (Decode8bitPduPartData ic w h udl) (\<lambda>_ s. ud_done c (snd s))"
  unfolding Decode8bitPduPartData_def
  apply (rule ok_post_bnd [where Q = "\<lambda>_ s. ud_done c (snd s)"], rule ok_post_if)
    apply (rule ok_post_stay_bnd [where K = "ud_blank c"], rule stays_simple)
    apply (rule headers_loop_ok, rule GetHeaderCnt_ok)
   apply (rule ok_post_seq [OF blank_done_ok], rule stays_simple)
  using assms by (intro ok_post_stay_seq ok_post_stay_bnd ok_post_if stays_simple set_length_ok copy_payload_ok) simp_all

lemma wap_push_8bit_ok: "n \<le> MAX_USER_DATA_LEN \<Longrightarrow> stays (ud_blank c) (wap_push_8bit n udhl)"
  unfolding wap_push_8bit_def
  by (intro ok_post_stay_seq ok_post_stay_bnd stays_simple stays_set_tpud stays_tpud_udl)

lemma Decode8bitPdu_ok:
  assumes "c \<noteq> DATA_CODING_7BIT"
  shows "ok_post (\<lambda>s. ud_blank c (snd s)) (Decode8bitPdu ic w h) (\<lambda>_ s. ud_done c (snd s))"
  unfolding Decode8bitPdu_def case_prod_unfold Let_def
  by (intro ok_post_stay_bnd [where K = "ud_blank c"] ok_post_stay_seq [where K = "ud_blank c"] ok_post_if stays_simple
      wap_push_8bit_ok seq_fail_ok Decode8bitPduPartData_ok assms)
    (auto simp: MAX_USER_DATA_LEN_def)

lemma DecodeUcs2PduPartData_ok:
  assumes "c \<noteq> DATA_CODING_7BIT" "udl \<le> MAX_USER_DATA_LEN"
  shows "ok_post (\<lambda>s. ud_blank c (snd s)) (DecodeUcs2PduPartData ic w h current udl) (\<lambda>_ s. ud_done c (snd s))"
  unfolding DecodeUcs2PduPartData_def
  apply (rule ok_post_seq [OF blank_count_ok])
  apply (rule ok_post_bnd [where Q = "\<lambda>_ s. ud_done c (snd s)"], rule ok_post_if)
    apply (rule ok_post_stay_bnd [where K = "ud_at c 0"], rule stays_simple)
    apply (rule ok_post_seq [OF for_headers_ok], rule decode_header_at_count, simp)
     apply (rule ok_post_stay_bnd, rule stays_simple)
     apply (rule ok_post_if, rule seq_fail_ok, rule count_header_ok)
    apply (rule stays_simple)
   apply (auto simp: ud_done_def intro: ok_post_ret)[1]
  using assms
  by (intro ok_post_stay_seq ok_post_stay_bnd ok_post_if stays_simple set_length_ok copy_payload_ok stays_on_ud ud_done_data)
    simp_all

lemma ucs2_wap_push_ok: "unat udl \<le> MAX_USER_DATA_LEN \<Longrightarrow> stays (ud_blank c) (ucs2_wap_push udl)"
  unfolding ucs2_wap_push_def case_prod_unfold
  by (intro ok_post_stay_seq ok_post_stay_bnd stays_simple stays_set_tpud stays_tpud_udl_word)

lemma DecodeUcs2Pdu_ok:
  assumes "c \<noteq> DATA_CODING_7BIT"
  shows "ok_post (\<lambda>s. ud_blank c (snd s)) (DecodeUcs2Pdu ic w h) (\<lambda>_ s. ud_done c (snd s))"
  unfolding DecodeUcs2Pdu_def case_prod_unfold Let_def
  by (intro ok_post_stay_bnd [where K = "ud_blank c"] ok_post_stay_seq [where K = "ud_blank c"] ok_post_if stays_simple
      ucs2_wap_push_ok seq_fail_ok DecodeUcs2PduPartData_ok assms)
    (auto simp: MAX_USER_DATA_LEN_def)

lemma DecodeUserDataPdu_ok:
  "ok_post (\<lambda>s. \<forall>t. snd (snd s) = Some t \<longrightarrow> unat (tpud_udl t) \<le> MAX_USER_DATA_LEN)
     (DecodeUserDataPdu ic w h c) (\<lambda>_ s. ud_done c (snd s))"
  unfolding DecodeUserDataPdu_def case_prod_unfold
  apply (rule ok_post_stay_bnd [where K = "\<lambda>x. \<forall>t. snd x = Some t \<longrightarrow> unat (tpud_udl t) \<le> MAX_USER_DATA_LEN"], rule stays_simple)
  apply (rule ok_post_seq [where Q = "\<lambda>_ s. ud_blank c (snd s)"])
   apply (rule ok_post_on_ud, simp add: ud_blank_def data_fits_def zero_ud_def)
  by (cases c) (auto intro!: DecodeGsmPdu_ok Decode8bitPdu_ok DecodeUcs2Pdu_ok ok_post_fail)

section \<open>Messages\<close>

definition deliver_done :: "SmsDeliver \<Rightarrow> bool" where
  "deliver_done d \<longleftrightarrow> ud_done (codingScheme (del_dcs d)) (del_userData d, Some (del_udData d))"

definition submit_done :: "SmsSubmit \<Rightarrow> bool" where
  "submit_done s \<longleftrightarrow> ud_done (codingScheme (sub_dcs s)) (sub_userData s, None)"

definition status_done :: "SmsStatusReport \<Rightarrow> bool" where
  "status_done s \<longleftrightarrow> ud_done (codingScheme (sr_dcs s)) (sr_userData s, None)"

definition tpdu_done :: "SmsTpdu \<Rightarrow> bool" where
  "tpdu_done x = (case x of
     SMS_TPDU_SUBMIT s \<Rightarrow> submit_done s | SMS_TPDU_DELIVER d \<Rightarrow> deliver_done d
   | SMS_TPDU_DELIVER_REP r \<Rightarrow> False | SMS_TPDU_STATUS_REP r \<Rightarrow> status_done r)"

lemma ud_done_zero: "ud_done c (zero_ud, None)"
  by (auto simp: ud_done_def headers_read_def data_fits_def zero_ud_def)

lemma ud_done_None: "ud_done c (u, t) \<Longrightarrow> ud_done c (u, None)"
  by (auto simp: ud_done_def data_fits_def)

lemma ok_post_last: "(\<And>x. ok_post (\<lambda>_. True) (k x) Q) \<Longrightarrow> ok_post P (bnd m k) Q"
  by (rule ok_post_bnd [where Q = "\<lambda>_ _. True"]) (simp_all add: ok_post_def)

lemma ok_post_last_seq: "ok_post (\<lambda>_. True) n Q \<Longrightarrow> ok_post P (seq m n) Q"
  unfolding seq_def by (rule ok_post_last)

lemma user_data_None_ok:
  assumes "\<And>x u. dcs (put u x) = dcs x" "\<And>x u. get (put u x) = u" "\<And>s. P s \<Longrightarrow> dcs (snd s) = c"
  shows "ok_post P (zoom (\<lambda>s. (get s, None)) (\<lambda>(u, _) s. put u s) (DecodeUserDataPdu ic w h c))
    (\<lambda>_ s. ud_done (dcs (snd s)) (get (snd s), None))"
  by (rule ok_post_zoom [OF DecodeUserDataPdu_ok])
    (use assms(3) in \<open>auto simp: assms(1,2) split: prod.splits dest: ud_done_None\<close>)

lemma DecodeSubmit_ok: "ok_post P (DecodeSubmit ic w) (\<lambda>_ s. submit_done (snd s))"
  unfolding DecodeSubmit_def DecodeSubmitPartData_def submit_done_def
  by (rule ok_post_get_out ok_post_last ok_post_last_seq)+ (rule user_data_None_ok; simp)

lemma stays_check_voicemail: "stays K check_voicemail"
  by (auto simp: ok_post_def check_voicemail_def split: outcome.splits)

lemma DecodeDeliver_ok:
  "ok_post (\<lambda>s. unat (tpud_udl (del_udData (snd s))) \<le> MAX_USER_DATA_LEN) (DecodeDeliver ic w) (\<lambda>_ s. deliver_done (snd s))"
proof -
  let ?K = "\<lambda>d. unat (tpud_udl (del_udData d)) \<le> MAX_USER_DATA_LEN"
  have last: "ok_post (\<lambda>s. ?K (snd s)) (bnd get_out (\<lambda>deliver.
      zoom (\<lambda>d. (del_userData d, Some (del_udData d)))
        (\<lambda>(u, t) d. d\<lparr>del_userData := u, del_udData := (case t of Some x \<Rightarrow> x | None \<Rightarrow> del_udData d)\<rparr>)
        (DecodeUserDataPdu ic w (del_bHeaderInd deliver) (codingScheme (del_dcs deliver)))))
      (\<lambda>_ s. deliver_done (snd s))"
    apply (rule ok_post_get_out, rule ok_post_zoom [OF DecodeUserDataPdu_ok])
    by (auto simp: deliver_done_def ud_done_def data_fits_def split: prod.splits option.splits)
  show ?thesis unfolding DecodeDeliver_def DecodeDeliverPartData_def
    apply (rule ok_post_stay_bnd [where K = ?K], rule stays_simple)
    apply (rule ok_post_stay_seq [where K = ?K], rule ok_post_on_out, simp add: DecodePartData_def)
    apply (rule ok_post_stay_seq [where K = ?K], rule stays_zoom, simp)
    apply (rule ok_post_stay_bnd [where K = ?K], rule stays_simple)
    apply (rule ok_post_stay_seq [where K = ?K], rule ok_post_on_out, simp)
    apply (rule ok_post_stay_seq [where K = ?K], rule stays_zoom, simp)
    apply (rule ok_post_stay_bnd [where K = ?K], rule stays_simple)+
    apply (rule ok_post_stay_seq [where K = ?K], rule ok_post_if, rule ok_post_on_out, simp, rule stays_simple)
    apply (rule ok_post_stay_bnd [where K = ?K], rule stays_simple)
    apply (rule ok_post_stay_seq [where K = ?K], rule ok_post_if)
      apply (rule ok_post_stay_bnd [where K = ?K], rule stays_check_voicemail)
      apply (auto intro!: ok_post_on_out stays_simple split: option.splits)[2]
    apply (rule ok_post_stay_seq [where K = ?K], rule stays_zoom, simp)
    by (rule last)
qed

lemma DecodeStatusReport_ok:
  "ok_post (\<lambda>s. sr_userData (snd s) = zero_ud) (DecodeStatusReport ic w) (\<lambda>_ s. status_done (snd s))"
proof -
  let ?K = "\<lambda>s. sr_userData s = zero_ud"
  have reset: "sr_userData (no_parameters s) = zero_ud" if "?K s" for s
    using that by (simp add: no_parameters_def zero_ud_def)
  have data: "ok_post (\<lambda>s. ?K (snd s)) (DecodeStatusReportData ic w) (\<lambda>_ s. status_done (snd s))"
    unfolding DecodeStatusReportData_def status_done_def
    apply (rule ok_post_stay_bnd [where K = ?K], rule stays_simple)
    apply (rule ok_post_stay_seq [where K = ?K], rule ok_post_if)
      apply (rule ok_post_stay_bnd [where K = ?K], rule stays_simple, rule ok_post_on_out, simp, rule stays_simple)
    apply (rule ok_post_stay_seq [where K = ?K], rule ok_post_if, rule stays_zoom, simp, rule stays_simple)
    apply (rule ok_post_get_out, rule ok_post_if)
     apply (rule user_data_None_ok, simp_all)
    by (auto simp: ud_done_zero intro!: ok_post_ret)
  have tail: "ok_post (\<lambda>s. ?K (snd s)) (case r of None \<Rightarrow> ret () | Some b \<Rightarrow>
      seq (on_out (\<lambda>s. s\<lparr>sr_paramInd := b\<rparr>)) (seq (if b = 0 then on_out no_parameters else ret ())
        (DecodeStatusReportData ic w))) (\<lambda>_ s. status_done (snd s))" for r
    by (cases r)
      (auto simp: status_done_def ud_done_zero reset intro!: ok_post_ret ok_post_stay_seq [where K = ?K] ok_post_on_out
        stays_simple data [unfolded status_done_def] split del: if_split, auto simp: reset intro: ok_post_on_out stays_simple)
  show ?thesis unfolding DecodeStatusReport_def DecodeStatusReportPartData_def
    by (rule ok_post_stay_bnd [where K = ?K], rule stays_simple |
        rule ok_post_stay_seq [where K = ?K], rule ok_post_on_out, simp |
        rule ok_post_stay_seq [where K = ?K], rule stays_zoom, simp | rule tail)+
qed

lemma run_decoder_ok:
  assumes "ok_post K decode (\<lambda>_ s. J (snd s))" "K (SmsReadBuffer pdu, start)" "\<And>x. J x \<Longrightarrow> tpdu_done (mk x)"
  shows "run_decoder mk start n decode (SmsReadBuffer pdu) = Ok v t \<Longrightarrow> \<exists>x. t = Some x \<and> tpdu_done x"
  using ok_postD [OF assms(1,2)] assms(3) by (auto simp: run_decoder_def split: outcome.splits if_splits)

lemma DecodeSmsPdu_done:
  assumes "DecodeSmsPdu ic w pdu = Ok v t"
  shows "\<exists>x. t = Some x \<and> tpdu_done x"
proof -
  have d: "unat (tpud_udl (del_udData (snd (SmsReadBuffer pdu, zero_deliver)))) \<le> MAX_USER_DATA_LEN"
    by (simp add: zero_deliver_def zero_tpud_def)
  have r: "sr_userData (snd (SmsReadBuffer pdu, zero_status_report)) = zero_ud" by (simp add: zero_status_report_def)
  show ?thesis using assms
    run_decoder_ok [OF DecodeDeliver_ok d, of SMS_TPDU_DELIVER]
    run_decoder_ok [OF DecodeSubmit_ok [where P = "\<lambda>_. True"] TrueI, of SMS_TPDU_SUBMIT]
    run_decoder_ok [OF DecodeStatusReport_ok r, of SMS_TPDU_STATUS_REP]
    by (auto simp: DecodeSmsPdu_def Let_def tpdu_done_def split: if_splits)
qed

end
