(* ===== verification/String_Utils.thy ===== *)
theory String_Utils
  imports Sms_Prelude
begin

text \<open>
  \<^verbatim>\<open>utils/string_utils.cpp\<close>: hexadecimal strings, in which PDUs travel between the modem and the service, and the
  parts of a URL. \<^verbatim>\<open>ToUtf8\<close>, \<^verbatim>\<open>ToUtf16\<close> and \<^verbatim>\<open>TrimStr\<close> are calls into another library.
\<close>

section \<open>Hexadecimal strings\<close>

definition HexCharToInt :: "u8 \<Rightarrow> u16" where
  "HexCharToInt c =
     (if 0x30 \<le> c \<and> c \<le> 0x39 then ucast c - 0x30
      else if 0x41 \<le> c \<and> c \<le> 0x46 then ucast c - 0x41 + 10
      else if 0x61 \<le> c \<and> c \<le> 0x66 then ucast c - 0x61 + 10
      else 0)"

definition HEX_TABLE :: bytes where
  "HEX_TABLE = [0x30, 0x31, 0x32, 0x33, 0x34, 0x35, 0x36, 0x37, 0x38, 0x39, 0x41, 0x42, 0x43, 0x44, 0x45, 0x46]"

definition StringToHex :: "bytes \<Rightarrow> bytes" where
  "StringToHex data = concat (map (\<lambda>c. [HEX_TABLE ! unat (drop_bit 4 c), HEX_TABLE ! unat (c AND 0xf)]) data)"

text \<open>The overload for \<^verbatim>\<open>const char *\<close> with a length, of which \<open>data\<close> are the readable octets.\<close>

definition StringToHex_buffer :: "bytes \<Rightarrow> int \<Rightarrow> ('s, bytes) op" where
  "StringToHex_buffer data byteLength =
     (if byteLength \<le> 0 \<or> byteLength > int MMS_PDU_MAX_SIZE then ret []
      else if nat byteLength > length data then fault
      else ret (StringToHex (take (nat byteLength) data)))"

text \<open>
  \<^verbatim>\<open>strtol(s, nullptr, 16)\<close> of the C library on a short string: white space, a sign, \<^verbatim>\<open>0x\<close> in front of a digit,
  digits.
\<close>

definition is_space :: "u8 \<Rightarrow> bool" where
  "is_space c \<longleftrightarrow> c = 0x20 \<or> 0x09 \<le> c \<and> c \<le> 0x0D"

definition hex_digit :: "u8 \<Rightarrow> int option" where
  "hex_digit c =
     (if 0x30 \<le> c \<and> c \<le> 0x39 then Some (uint c - 0x30)
      else if 0x41 \<le> c \<and> c \<le> 0x46 then Some (uint c - 0x41 + 10)
      else if 0x61 \<le> c \<and> c \<le> 0x66 then Some (uint c - 0x61 + 10)
      else None)"

fun hex_digits :: "int \<Rightarrow> bytes \<Rightarrow> int" where
  "hex_digits acc [] = acc"
| "hex_digits acc (c # cs) = (case hex_digit c of None \<Rightarrow> acc | Some v \<Rightarrow> hex_digits (16 * acc + v) cs)"

fun skip_0x :: "bytes \<Rightarrow> bytes" where
  "skip_0x (a # b # c # cs) =
     (if a = 0x30 \<and> (b = 0x78 \<or> b = 0x58) \<and> hex_digit c \<noteq> None then c # cs else a # b # c # cs)"
| "skip_0x cs = cs"

definition strtol16 :: "bytes \<Rightarrow> int" where
  "strtol16 s = (case dropWhile is_space s of
     [] \<Rightarrow> 0
   | c # cs \<Rightarrow> if c = 0x2D then - hex_digits 0 (skip_0x cs)
               else if c = 0x2B then hex_digits 0 (skip_0x cs)
               else hex_digits 0 (skip_0x (c # cs)))"

definition hex_byte :: "bytes \<Rightarrow> u8" where
  "hex_byte byte = (let strTemp = strtol16 byte in if strTemp > 0 then word_of_int strTemp else 0)"

text \<open>Both loops step over pairs of characters; an odd last character is not looked at.\<close>

fun HexToString :: "bytes \<Rightarrow> bytes" where
  "HexToString (a # b # cs) = hex_byte [a, b] # HexToString cs"
| "HexToString _ = []"

fun HexToByteVector :: "bytes \<Rightarrow> bytes" where
  "HexToByteVector (a # b # cs) = ucast (push_bit 4 (HexCharToInt a) OR HexCharToInt b) # HexToByteVector cs"
| "HexToByteVector _ = []"

lemma HEX_TABLE_nth:
  assumes "n < 16"
  shows "HexCharToInt (HEX_TABLE ! n) = word_of_nat n" "hex_digit (HEX_TABLE ! n) = Some (int n)"
    "\<not> is_space (HEX_TABLE ! n)" "HEX_TABLE ! n \<noteq> 0x2D" "HEX_TABLE ! n \<noteq> 0x2B"
proof -
  have "list_all (\<lambda>n. HexCharToInt (HEX_TABLE ! n) = word_of_nat n \<and> hex_digit (HEX_TABLE ! n) = Some (int n) \<and>
      \<not> is_space (HEX_TABLE ! n) \<and> HEX_TABLE ! n \<noteq> 0x2D \<and> HEX_TABLE ! n \<noteq> 0x2B) [0..<16]"
    by (simp add: upt_rec HEX_TABLE_def HexCharToInt_def hex_digit_def is_space_def)
  with assms show "HexCharToInt (HEX_TABLE ! n) = word_of_nat n" "hex_digit (HEX_TABLE ! n) = Some (int n)"
    "\<not> is_space (HEX_TABLE ! n)" "HEX_TABLE ! n \<noteq> 0x2D" "HEX_TABLE ! n \<noteq> 0x2B"
    by (auto simp: list_all_iff)
qed

lemma nibbles:
  fixes c :: u8
  shows "unat (drop_bit 4 c) = unat c div 16" "unat (c AND 0xf) = unat c mod 16"
proof -
  have "c AND 0xf = take_bit 4 c" by (simp add: take_bit_eq_mask mask_numeral)
  then show "unat (c AND 0xf) = unat c mod 16" by (simp add: unsigned_take_bit_eq take_bit_eq_mod unat_mod)
qed (simp add: drop_bit_eq_div unat_div)

lemma hex_nibbles:
  fixes c :: u8
  defines "a \<equiv> HEX_TABLE ! unat (drop_bit 4 c)" and "b \<equiv> HEX_TABLE ! unat (c AND 0xf)"
  shows "ucast (push_bit 4 (HexCharToInt a) OR HexCharToInt b) = c" "hex_byte [a, b] = c"
proof -
  have lt: "unat (drop_bit 4 c) < 16" "unat (c AND 0xf) < 16"
    using unsigned_less [of c, where ?'a = nat] by (auto simp: nibbles)
  note a = HEX_TABLE_nth [OF lt(1), folded a_def] and b = HEX_TABLE_nth [OF lt(2), folded b_def]
  have "strtol16 [a, b] = int (16 * unat (drop_bit 4 c) + unat (c AND 0xf))"
    using a b by (simp add: strtol16_def)
  also have "\<dots> = uint c" unfolding nibbles by simp
  finally have "strtol16 [a, b] = uint c" .
  then show "hex_byte [a, b] = c" by (cases "c = 0") (auto simp: hex_byte_def Let_def word_less_def word_neq_0_conv)
  have m: "(0xf :: u8) = mask 4" by (simp add: mask_numeral)
  have "ucast (push_bit 4 (ucast (drop_bit 4 c) :: u16) OR ucast (c AND 0xf)) = c"
    unfolding m by (rule bit_word_eqI) (auto simp: bit_simps)
  then show "ucast (push_bit 4 (HexCharToInt a) OR HexCharToInt b) = c" using a b by simp
qed

lemma hex_inverse: "HexToString (StringToHex xs) = xs" "HexToByteVector (StringToHex xs) = xs"
  by (induction xs) (simp_all add: StringToHex_def hex_nibbles)

text \<open>
  Octets survive the hexadecimal form in which PDUs are handed over: \<^verbatim>\<open>HexToString\<close>, which
  goes through \<^verbatim>\<open>strtol\<close>, and \<^verbatim>\<open>HexToByteVector\<close>, which goes through \<^verbatim>\<open>HexCharToInt\<close>, both
  invert \<^verbatim>\<open>StringToHex\<close>.
\<close>

theorem hex_roundtrip: "HexToString (StringToHex xs) = xs \<and> HexToByteVector (StringToHex xs) = xs"
  by (simp add: hex_inverse)

section \<open>Parts of a URL\<close>

text \<open>\<^verbatim>\<open>s.find(c, start)\<close>; \<^verbatim>\<open>npos\<close>, the greatest value of its type, is \<open>None\<close>.\<close>

definition find_from :: "(u8 \<Rightarrow> bool) \<Rightarrow> nat \<Rightarrow> bytes \<Rightarrow> nat option" where
  "find_from f start s =
     (let n = length (takeWhile (\<lambda>c. \<not> f c) (drop start s))
      in if start + n < length s then Some (start + n) else None)"

fun find_str :: "bytes \<Rightarrow> bytes \<Rightarrow> nat option" where
  "find_str pat [] = (if pat = [] then Some 0 else None)"
| "find_str pat (c # cs) =
     (if take (length pat) (c # cs) = pat then Some 0 else map_option Suc (find_str pat cs))"

definition npos_min :: "nat option \<Rightarrow> nat option \<Rightarrow> nat option" where
  "npos_min a b = (case (a, b) of (Some x, Some y) \<Rightarrow> Some (min x y) | (Some x, None) \<Rightarrow> Some x | (None, y) \<Rightarrow> y)"

definition url_delimiter :: bytes where
  "url_delimiter = [0x3A, 0x2F, 0x2F]"

definition GetProtocolFromURL :: "bytes \<Rightarrow> bytes" where
  "GetProtocolFromURL url = (case find_str url_delimiter url of Some pos \<Rightarrow> take pos url | None \<Rightarrow> [])"

definition GetHostnameFromURL :: "bytes \<Rightarrow> bytes" where
  "GetHostnameFromURL url =
     (if url = [] then []
      else let tempUrl = map (\<lambda>c. if c = 0x5C then 0x2F else c) url;
               posStart = (case find_str url_delimiter tempUrl of Some p \<Rightarrow> p + length url_delimiter | None \<Rightarrow> 0);
               posStart = (case find_from (\<lambda>c. c \<noteq> 0x2F) posStart tempUrl of Some p \<Rightarrow> p | None \<Rightarrow> posStart);
               posEnd = npos_min (find_from ((=) 0x3A) posStart tempUrl)
                          (npos_min (find_from ((=) 0x2F) posStart tempUrl) (find_from ((=) 0x3F) posStart tempUrl))
           in case posEnd of
                Some e \<Rightarrow> take (e - posStart) (drop posStart tempUrl)
              | None \<Rightarrow> drop posStart tempUrl)"

definition GetPortFromURL :: "bytes \<Rightarrow> bytes" where
  "GetPortFromURL url =
     (let protocol = GetProtocolFromURL url;
          hostname = GetHostnameFromURL url;
          start = (if protocol = [] then length hostname else length protocol + length url_delimiter + length hostname)
      in case find_from ((=) 0x3A) start url of
           None \<Rightarrow> []
         | Some posStart \<Rightarrow>
             (case npos_min (find_from ((=) 0x2F) start url) (find_from ((=) 0x3F) start url) of
                None \<Rightarrow> drop (posStart + 1) url
              | Some posEnd \<Rightarrow> if posStart > posEnd then []
                               else take (posEnd - posStart - 1) (drop (posStart + 1) url)))"

definition GetHostnameWithPortFromURL :: "bytes \<Rightarrow> bytes" where
  "GetHostnameWithPortFromURL url =
     (let hostname = GetHostnameFromURL url
      in if hostname \<noteq> [] then
           (let port = GetPortFromURL url in if port \<noteq> [] then hostname @ [0x3A] @ port else hostname)
         else hostname)"

end
