(* ===== verification/Gsm_User_Data_Layout.thy ===== *)
theory Gsm_User_Data_Layout
  imports Gsm_User_Data
begin

text \<open>
  What the user data codec puts on the wire, and that decoding gives it back: the octets of a header,
  of a sequence of headers and of the user data in the 7-bit, 8-bit and UCS-2 schemes.
\<close>

section \<open>An item and its octets\<close>

text \<open>
  The contract of a pair of methods that write an item at the cursor of a buffer and read it back:
  \<open>octets\<close> is what stands on the wire for an item \<open>ok\<close> accepts.
\<close>

locale wire_format =
  fixes ok :: "'h \<Rightarrow> bool" and octets :: "'h \<Rightarrow> bytes"
    and enc :: "'h \<Rightarrow> (SmsWriteBuffer, unit) op" and dec :: "(SmsReadBuffer \<times> 'h, nat) op"
  assumes enc_octets: "ok h \<Longrightarrow> length (octets h) \<le> length xs \<Longrightarrow>
      enc h (zb p xs) = Ok () (zb (rev (octets h) @ p) (drop (length (octets h)) xs))"
    and dec_octets: "ok h \<Longrightarrow>
      dec (zb p (octets h @ rest), old) = Ok (length (octets h)) (zb (rev (octets h) @ p) rest, h)"
    and octets_nonempty: "ok h \<Longrightarrow> octets h \<noteq> []"
begin

lemma enc_all:
  "\<forall>h \<in> set hs. ok h \<Longrightarrow> length (concat (map octets hs)) \<le> length xs \<Longrightarrow>
   each (\<lambda>h. ignore (enc h)) hs (zb p xs) = Ok () (zb (rev (concat (map octets hs)) @ p) (drop (length (concat (map octets hs))) xs))"
proof (induction hs arbitrary: p xs)
  case Nil
  then show ?case by (simp add: ret_def)
next
  case (Cons h hs)
  then have "ignore (enc h) (zb p xs) = Ok () (zb (rev (octets h) @ p) (drop (length (octets h)) xs))"
    by (simp add: ignore_def enc_octets)
  with Cons show ?case by (simp add: seq_def bnd_def add.commute)
qed

lemma wire_length: "\<forall>h \<in> set hs. ok h \<Longrightarrow> length hs \<le> length (concat (map octets hs))"
proof (induction hs)
  case (Cons h hs)
  then have "1 \<le> length (octets h)" using octets_nonempty by (simp add: Suc_le_eq)
  with Cons show ?case by simp
qed simp

end

section \<open>Headers\<close>

text \<open>The headers both directions support, with the octets of 3GPP TS 23.040.\<close>

definition plain_header :: "SmsUDH \<Rightarrow> bool" where
  "plain_header h = (case udh h of
     UdhConcat8bit _ \<Rightarrow> udhType h = UDH_CONCAT_8BIT
   | UdhConcat16bit _ \<Rightarrow> udhType h = UDH_CONCAT_16BIT
   | UdhAppPort8bit _ \<Rightarrow> udhType h = UDH_APP_PORT_8BIT
   | UdhAppPort16bit _ \<Rightarrow> udhType h = UDH_APP_PORT_16BIT
   | UdhSingleShift _ \<Rightarrow> udhType h = UDH_SINGLE_SHIFT
   | UdhLockingShift _ \<Rightarrow> udhType h = UDH_LOCKING_SHIFT
   | _ \<Rightarrow> False)"

definition be16 :: "u16 \<Rightarrow> bytes" where
  "be16 v = [ucast (drop_bit 8 v), ucast v]"

definition header_octets :: "SmsUDH \<Rightarrow> bytes" where
  "header_octets h = (case udh h of
     UdhConcat8bit c \<Rightarrow> [0x00, 0x03, c8_msgRef c, c8_totalSeg c, c8_seqNum c]
   | UdhConcat16bit c \<Rightarrow> [0x08, 0x04] @ be16 (c16_msgRef c) @ [c16_totalSeg c, c16_seqNum c]
   | UdhAppPort8bit q \<Rightarrow> [0x04, 0x02, p8_destPort q, p8_originPort q]
   | UdhAppPort16bit q \<Rightarrow> [0x05, 0x04] @ be16 (p16_destPort q) @ be16 (p16_originPort q)
   | UdhSingleShift l \<Rightarrow> [0x24, 0x01, l]
   | UdhLockingShift l \<Rightarrow> [0x25, 0x01, l]
   | _ \<Rightarrow> [])"

lemma low_octet: "ucast ((v :: u16) AND 0x00FF) = (ucast v :: u8)"
proof -
  have m: "(0x00FF :: u16) = mask 8" by (simp add: mask_eq_exp_minus_1)
  show ?thesis unfolding m by (rule bit_word_eqI) (auto simp: bit_simps)
qed

lemma join_octets: "ucast (ucast (v :: u16) :: u8) OR push_bit 8 (ucast (ucast (drop_bit 8 v) :: u8)) = v"
  by (rule bit_word_eqI) (auto simp: bit_simps)

lemmas header_encoders =
  EncodeHeader_def EncodeHeaderConcat_def EncodeHeaderConcat8Bit_def EncodeHeaderConcat16Bit_def
  EncodeHeaderAppPort8bit_def EncodeHeaderAppPort16bit_def EncodeHeaderShift_def

lemmas header_decoders =
  DecodeHeader_def DecodeHeaderConcat8Bit_def DecodeHeaderConcat16Bit_def DecodeHeaderAppPort8Bit_def
  DecodeHeaderAppPort16Bit_def DecodeHeaderPartData_def DecodeHeaderSingleShift_def
  DecodeHeaderLockingShift_def read_iedl_def upd_concat8_def upd_concat16_def upd_port8_def upd_port16_def

lemma EncodeHeader_zb:
  assumes "plain_header h" "length (header_octets h) \<le> length xs"
  shows "EncodeHeader h (zb p xs) =
    Ok () (zb (rev (header_octets h) @ p) (drop (length (header_octets h)) xs))"
proof -
  obtain ys where "xs = take (length (header_octets h)) xs @ ys" using append_take_drop_id by metis
  then show ?thesis using assms
    by (auto simp: plain_header_def header_octets_def be16_def header_encoders Suc_le_length_iff op_simps zb_simps low_octet
        split: UdhUnion.splits)
qed

lemma DecodeHeader_zb:
  assumes "plain_header h"
  shows "DecodeHeader ic w (zb p (header_octets h @ rest), old) =
    Ok (length (header_octets h)) (zb (rev (header_octets h) @ p) rest, h)"
  using assms
  by (cases h; cases "udh h")
    (auto simp: plain_header_def header_octets_def be16_def header_decoders op_simps zb_simps join_octets)

lemma header_octets_nonempty: "plain_header h \<Longrightarrow> header_octets h \<noteq> []"
  by (auto simp: plain_header_def header_octets_def split: UdhUnion.splits)

interpretation udh: wire_format plain_header header_octets EncodeHeader "DecodeHeader ic wsize" for ic wsize
  by unfold_locales (rule EncodeHeader_zb DecodeHeader_zb header_octets_nonempty; assumption)+

section \<open>Sequences of headers\<close>

abbreviation header_wire :: "SmsUDH list \<Rightarrow> bytes" where
  "header_wire hs \<equiv> concat (map header_octets hs)"

text \<open>The package of the headers \<open>hs\<close> and the payload \<open>us\<close>, with the rest of its arrays zeroed.\<close>

definition mk_ud :: "SmsUDH list \<Rightarrow> bytes \<Rightarrow> SmsUDPackage" where
  "mk_ud hs us = \<lparr>headerCnt = word_of_nat (length hs),
     ud_header = hs @ replicate (MAX_UD_HEADER_NUM - length hs) zero_udh,
     ud_length = word_of_nat (length us),
     ud_data = us @ replicate (MAX_USER_DATA_LEN + 1 - length us) 0\<rparr>"

definition headers_ok :: "SmsUDH list \<Rightarrow> bool" where
  "headers_ok hs \<longleftrightarrow> length hs \<le> MAX_UD_HEADER_NUM \<and> (\<forall>h \<in> set hs. plain_header h)"

lemma headers_ok_count: "headers_ok hs \<Longrightarrow> unat (word_of_nat (length hs) :: u8) = length hs"
  by (simp add: headers_ok_def MAX_UD_HEADER_NUM_def unat_of_nat)

lemma headers_cnt_0: "headers_ok hs \<Longrightarrow> (word_of_nat (length hs) :: u8) = 0 \<longleftrightarrow> hs = []"
  by (subst unat_eq_zero [symmetric]) (simp add: headers_ok_count)

lemma headers_cnt_pos: "headers_ok hs \<Longrightarrow> (0 :: u8) < word_of_nat (length hs) \<longleftrightarrow> hs \<noteq> []"
  using headers_cnt_0 [of hs] by (simp add: word_gt_0)

lemma each_nth:
  assumes "n \<le> length hs"
  shows "each (\<lambda>i. bnd (rd_at hs i) f) [k..<n] = each f (drop k (take n hs))"
proof (induction "n - k" arbitrary: k)
  case 0
  then show ?case by simp
next
  case (Suc m)
  then have k: "k < n" by simp
  then have "drop k (take n hs) = hs ! k # drop (Suc k) (take n hs)"
    using assms by (metis Cons_nth_drop_Suc length_take min.absorb2 nth_take)
  moreover have "bnd (rd_at hs k) f = f (hs ! k)" using k assms by (auto simp: bnd_def rd_at_def ret_def)
  ultimately show ?case using Suc.hyps(1) [of "Suc k"] Suc.hyps(2) k by (simp add: upt_conv_Cons)
qed

lemma EncodeHeaders_zb:
  assumes "headers_ok hs" "length (header_wire hs) \<le> length xs"
  shows "EncodeHeaders (mk_ud hs us) (zb p xs) =
    Ok () (zb (rev (header_wire hs) @ p) (drop (length (header_wire hs)) xs))"
  using assms udh.enc_all [of hs xs p] each_nth [of "length hs" "ud_header (mk_ud hs us)" "\<lambda>h. ignore (EncodeHeader h)" 0]
  by (simp add: EncodeHeaders_def mk_ud_def headers_ok_count) (simp add: headers_ok_def)

lemma header_wire_nonempty: "headers_ok hs \<Longrightarrow> header_wire hs = [] \<longleftrightarrow> hs = []"
  using header_octets_nonempty by (cases hs) (auto simp: headers_ok_def)

lemma mk_ud_simps [simp]:
  "headerCnt (mk_ud hs us) = word_of_nat (length hs)" "ud_length (mk_ud hs us) = word_of_nat (length us)"
  "ud_data (mk_ud hs us) = us @ replicate (MAX_USER_DATA_LEN + 1 - length us) 0"
  by (simp_all add: mk_ud_def)

section \<open>The 7-bit scheme on the wire\<close>

text \<open>Only the characters below the length are read.\<close>

lemma pack7_loop_append:
  "n \<le> length us \<Longrightarrow> pack7_loop (us @ zs) n i shift = pack7_loop us n i shift"
proof (induction us n i shift rule: pack7_loop.induct)
  case (1 us n i shift)
  have r: "rd_at (us @ zs) j = rd_at us j" if "j < n" for j
    using that 1(4) by (simp add: rd_at_def nth_append)
  show ?case
    using 1 by (subst (1 2) pack7_loop.simps)
      (auto simp: r Pack7bitCharPartData_def Pack7bitCharLast_def)
qed

definition fill_bits :: "nat \<Rightarrow> nat" where
  "fill_bits udhl = (7 - (udhl + 1) * 8 mod 7) mod 7"

text \<open>The septets the length octet, the headers and the fill bits take.\<close>

definition header_septets :: "nat \<Rightarrow> nat" where
  "header_septets udhl = ((udhl + 1) * 8 + fill_bits udhl) div 7"

lemma header_septets: "(udhl + 1) * 8 + fill_bits udhl = 7 * header_septets udhl"
proof -
  have "(x + (7 - x mod 7) mod 7) mod 7 = 0" for x :: nat
  proof -
    have "(x + (7 - x mod 7) mod 7) mod 7 = (x mod 7 + (7 - x mod 7)) mod 7" by (simp only: mod_simps)
    also have "x mod 7 + (7 - x mod 7) = 7" by (simp add: less_imp_le)
    finally show ?thesis by simp
  qed
  then have "((udhl + 1) * 8 + fill_bits udhl) mod 7 = 0" unfolding fill_bits_def by blast
  then show ?thesis unfolding header_septets_def by (metis mult_div_mod_eq add_0_right)
qed

definition gsm_octets :: "SmsUDH list \<Rightarrow> bytes \<Rightarrow> bytes" where
  "gsm_octets hs us =
     (if hs = [] then word_of_nat (length us) # packed 0 us
      else let udhl = length (header_wire hs)
           in word_of_nat (header_septets udhl + length us) # word_of_nat udhl #
                header_wire hs @ packed (fill_bits udhl) us)"

lemma Pack7bitChar_data:
  assumes "length us \<le> 160" "f \<le> 7" "length p + m < 65535" "length (packed f us) \<le> m"
  shows "Pack7bitChar (us @ zs) (length us) f (zb p (replicate m 0)) =
    Ok () (zb (rev (packed f us) @ p) (replicate (m - length (packed f us)) 0))"
  using Pack7bitChar_zb [OF assms] by (simp add: Pack7bitChar_def pack7_loop_append)

lemma u8_length: "length us \<le> 160 \<Longrightarrow> unat (word_of_nat (length us) :: u8) = length us"
  by (simp add: unat_of_nat)

lemma fill_bits_le: "fill_bits n \<le> 6"
  by (simp add: fill_bits_def less_Suc_eq_le [symmetric])

lemma fill_bits_code:
  "(if (n + 1) * 8 mod 7 > 0 \<and> 7 > (n + 1) * 8 mod 7 then 7 - (n + 1) * 8 mod 7 else 0) = fill_bits n"
  by (auto simp: fill_bits_def)

text \<open>The arithmetic of \<^verbatim>\<open>EncodeGsmHeadPdu\<close> in these terms.\<close>

lemma EncodeGsmHeadPdu_code:
  "EncodeGsmHeadPdu userData =
     bnd (gets GetIndex) (\<lambda>location.
     seq (MoveForward (if headerCnt userData > 0 then 2 else 1)) (
     bnd (gets GetIndex) (\<lambda>start.
     seq (EncodeHeaders userData) (
     bnd (gets GetIndex) (\<lambda>stop.
     if stop > start then
       seq (InsertByte (word_of_nat (header_septets (stop - start) + unat (ud_length userData))) location) (
       seq (InsertByte (word_of_nat (stop - start)) (location + 1))
         (ret (fill_bits (stop - start))))
     else seq (InsertByte (ud_length userData) location) (ret 0))))))"
proof -
  have v: "((n + 1) * 8 + fill_bits n + k * 7) div 7 = header_septets n + k" for n k
    unfolding header_septets by simp
  have inner: "(let udhl = (if stop > start then stop - start else 0);
         rem = (if udhl > 0 then ((udhl + 1) * 8) mod 7 else 0);
         fillBits = (if rem > 0 \<and> 7 > rem then 7 - rem else 0)
     in if udhl > 0 then
          (let value = (udhl + 1) * 8 + fillBits + unat (ud_length userData) * 7
           in seq (InsertByte (word_of_nat (value div 7)) location) (
              seq (InsertByte (word_of_nat udhl) (location + 1))
                (ret fillBits)))
        else seq (InsertByte (ud_length userData) location) (ret fillBits)) =
     (if stop > start then
       seq (InsertByte (word_of_nat (header_septets (stop - start) + unat (ud_length userData))) location) (
       seq (InsertByte (word_of_nat (stop - start)) (location + 1))
         (ret (fill_bits (stop - start))))
     else seq (InsertByte (ud_length userData) location) (ret 0))" for location start stop
  proof (cases "start < stop")
    case True
    then show ?thesis
      unfolding Let_def by (simp only: zero_less_diff if_True fill_bits_code v simp_thms)
  qed simp
  show ?thesis unfolding EncodeGsmHeadPdu_def inner ..
qed

definition gsm_head :: "SmsUDH list \<Rightarrow> bytes \<Rightarrow> bytes" where
  "gsm_head hs us =
     (if hs = [] then [word_of_nat (length us)]
      else let udhl = length (header_wire hs)
           in word_of_nat (header_septets udhl + length us) # word_of_nat udhl # header_wire hs)"

definition gsm_fill :: "SmsUDH list \<Rightarrow> nat" where
  "gsm_fill hs = (if hs = [] then 0 else fill_bits (length (header_wire hs)))"

lemma gsm_octets_split: "gsm_octets hs us = gsm_head hs us @ packed (gsm_fill hs) us"
  by (simp add: gsm_octets_def gsm_head_def gsm_fill_def Let_def)

lemma EncodeGsmHeadPdu_zb:
  assumes hs: "headers_ok hs" and us: "length us \<le> 160" and room: "length (gsm_head hs us) \<le> m"
  shows "EncodeGsmHeadPdu (mk_ud hs us) (zb p (replicate m 0)) =
    Ok (gsm_fill hs) (zb (rev (gsm_head hs us) @ p) (replicate (m - length (gsm_head hs us)) 0))"
proof (cases "hs = []")
  case True
  with room obtain m' where "m = Suc m'" by (cases m) (auto simp: gsm_head_def)
  then show ?thesis
    using True hs EncodeHeaders_zb [of "[]" "replicate m' 0" us "0 # p"]
    by (simp add: EncodeGsmHeadPdu_code op_simps Let_def zb_simps gsm_head_def gsm_fill_def headers_ok_def)
next
  case False
  let ?w = "header_wire hs"
  obtain m' where m: "m = Suc (Suc m')" "length ?w \<le> m'"
    using room False by (cases m; cases "m - 1") (auto simp: gsm_head_def Let_def)
  have w: "?w \<noteq> []" using header_wire_nonempty [OF hs] False by simp
  show ?thesis
    using False m w hs EncodeHeaders_zb [of hs "replicate m' 0" us "0 # 0 # p"]
      InsertByte_zb [of "word_of_nat (header_septets (length ?w) + length us)" p "rev ?w @ [0]" 0 "replicate (m' - length ?w) 0"]
      InsertByte_zb [of "word_of_nat (length ?w)" "word_of_nat (header_septets (length ?w) + length us) # p" "rev ?w" 0
        "replicate (m' - length ?w) 0"]
    by (simp add: EncodeGsmHeadPdu_code op_simps Let_def MoveForward_zb gsm_head_def gsm_fill_def headers_cnt_pos
        u8_length us)
qed

lemma EncodeGsmPdu_zb:
  assumes "headers_ok hs" "length us \<le> 160" "length p + m \<le> 256" "length (gsm_octets hs us) \<le> m"
  shows "EncodeGsmPdu (mk_ud hs us) (zb p (replicate m 0)) =
    Ok () (zb (rev (gsm_octets hs us) @ p) (replicate (m - length (gsm_octets hs us)) 0))"
proof -
  have f: "gsm_fill hs \<le> 7" using fill_bits_le [of "length (header_wire hs)"] by (simp add: gsm_fill_def)
  have "EncodeGsmHeadPdu (mk_ud hs us) (zb p (replicate m 0)) =
      Ok (gsm_fill hs) (zb (rev (gsm_head hs us) @ p) (replicate (m - length (gsm_head hs us)) 0))"
    using assms by (intro EncodeGsmHeadPdu_zb) (simp_all add: gsm_octets_split)
  then show ?thesis
    using assms f Pack7bitChar_data [of us "gsm_fill hs" "rev (gsm_head hs us) @ p" "m - length (gsm_head hs us)"]
    by (simp add: EncodeGsmPdu_def EncodeGsmBodyPdu_def bnd_def u8_length gsm_octets_split)
qed

section \<open>Decoding a sequence of headers\<close>

lemma decode_header_at_zb:
  assumes "plain_header h" "i < length (ud_header u)"
  shows "decode_header_at ic w i (zb p (header_octets h @ rest), u, t) =
    Ok (length (header_octets h)) (zb (rev (header_octets h) @ p) rest, u\<lparr>ud_header := (ud_header u)[i := h]\<rparr>, t)"
  using assms DecodeHeader_zb [OF assms(1), of ic w p rest "ud_header u ! i"]
  by (simp add: decode_header_at_def bnd_def get_out_def zoom_def)

lemma header_octets_length: "plain_header h \<Longrightarrow> 3 \<le> length (header_octets h)"
  by (auto simp: plain_header_def header_octets_def be16_def split: UdhUnion.splits)

text \<open>
  The loop over the headers, for any body that decodes one header and counts it. \<open>start\<close> and
  \<open>stop\<close> delimit the headers; the 7-bit and 8-bit decoders test the cursor against \<open>stop\<close>, the UCS-2
  decoder against a position two octets before, which is still inside the last header.
\<close>

lemma for_headers_zb:
  assumes "\<forall>h \<in> set hs. plain_header h" "i + length hs \<le> length (ud_header u)" "length hs \<le> n"
    and "start \<le> length p" "length p + length (header_wire hs) = stop" "length (ud_header u) = MAX_UD_HEADER_NUM"
    and "limit \<le> stop" "stop \<le> limit + 2"
    and cont: "\<And>q r. cont (zb q r) \<longleftrightarrow> length q < limit"
    and body: "\<And>j h q r u. plain_header h \<Longrightarrow> j < length (ud_header u) \<Longrightarrow> length (ud_header u) = MAX_UD_HEADER_NUM \<Longrightarrow> start \<le> length q \<Longrightarrow>
      length q + length (header_octets h) \<le> stop \<Longrightarrow>
      body j (zb q (header_octets h @ r), u, t) =
        Ok () (zb (rev (header_octets h) @ q) r, count_header (u\<lparr>ud_header := (ud_header u)[j := h]\<rparr>), t)"
  shows "for_headers cont body i n (zb p (header_wire hs @ rest), u, t) =
    Ok () (zb (rev (header_wire hs) @ p) rest,
      u\<lparr>headerCnt := headerCnt u + word_of_nat (length hs), ud_header := write_at i hs (ud_header u)\<rparr>, t)"
  using assms(1-6)
proof (induction hs arbitrary: i n p u)
  case Nil
  then show ?case using assms(7) cont by (cases n) (simp_all add: op_simps write_at_def)
next
  case (Cons h hs)
  then obtain n' where n: "n = Suc n'" by (cases n) auto
  have h: "plain_header h" "i < length (ud_header u)" using Cons.prems by auto
  let ?u = "count_header (u\<lparr>ud_header := (ud_header u)[i := h]\<rparr>)"
  have c: "cont (zb p (header_wire (h # hs) @ rest))"
    using cont header_octets_length [OF h(1)] Cons.prems(5) assms(8) by simp
  have b: "body i (zb p (header_octets h @ header_wire hs @ rest), u, t) =
      Ok () (zb (rev (header_octets h) @ p) (header_wire hs @ rest), ?u, t)"
    using Cons.prems h by (intro body) auto
  have "for_headers cont body (Suc i) n' (zb (rev (header_octets h) @ p) (header_wire hs @ rest), ?u, t) =
      Ok () (zb (rev (header_wire hs) @ rev (header_octets h) @ p) rest,
        ?u\<lparr>headerCnt := headerCnt ?u + word_of_nat (length hs), ud_header := write_at (Suc i) hs (ud_header ?u)\<rparr>, t)"
    using Cons.prems n by (intro Cons.IH) (auto simp: count_header_def)
  moreover have "write_at (Suc i) hs ((ud_header u)[i := h]) = write_at i (h # hs) (ud_header u)"
    using h(2) by (simp add: write_at_def take_Suc_conv_app_nth)
  ultimately show ?case using c b n by (simp add: op_simps count_header_def add.assoc)
qed

section \<open>Decoding the 7-bit scheme\<close>

lemma gsm_wap_push_zb:
  assumes "unat udl \<le> 160" "length p + length xs \<le> 256"
  shows "\<exists>t'. gsm_wap_push udl (zb p xs, u, Some t) = Ok () (zb p xs, u, Some t')"
proof -
  let ?n = "if length p + unat udl \<ge> length p + length xs then to_u8 (length xs) else unat udl"
  have "?n \<le> 160" "?n \<le> length xs" using assms by (auto simp: to_u8_def)
  then show ?thesis using assms(1)
    by (auto simp: gsm_wap_push_def op_simps on_tpud_def IsEmpty_def Let_def MAX_USER_DATA_LEN_def CopyOut_def
        memcpy_s_ok_def set_tpud_def)
qed

lemma gsm_arith:
  assumes "f \<le> 6" "(L + 1) * 8 + f = 7 * H"
  shows "(L + 1) * 8 \<le> (H + n) * 7" "((H + n) * 7 - (L + 1) * 8) div 7 = n" "((H + n) * 7 - (L + 1) * 8) mod 7 = (f :: nat)"
proof -
  have e: "(H + n) * 7 = (L + 1) * 8 + (f + 7 * n)" using assms(2) by simp
  then show "(L + 1) * 8 \<le> (H + n) * 7" by simp
  have "(H + n) * 7 - (L + 1) * 8 = f + 7 * n" using e by simp
  then show "((H + n) * 7 - (L + 1) * 8) div 7 = n" "((H + n) * 7 - (L + 1) * 8) mod 7 = f"
    using assms(1) by simp_all
qed

text \<open>The number of septets of the whole user data, which the UDL octet counts.\<close>

definition gsm_udl :: "SmsUDH list \<Rightarrow> bytes \<Rightarrow> nat" where
  "gsm_udl hs us = (if hs = [] then length us else header_septets (length (header_wire hs)) + length us)"

lemma gsm_head_Cons: "\<exists>tl. gsm_head hs us = word_of_nat (gsm_udl hs us) # tl"
  by (simp add: gsm_head_def gsm_udl_def Let_def)

lemma DecodeGsmHeadPduPartData_zb:
  assumes hs: "headers_ok hs" "hs \<noteq> []" and u: "length (ud_header u) = MAX_UD_HEADER_NUM"
    and room: "length p + 1 + length (header_wire hs) + length rest \<le> 256"
  shows "DecodeGsmHeadPduPartData ic w True (header_septets (length (header_wire hs)) + n)
      (zb p (word_of_nat (length (header_wire hs)) # header_wire hs @ rest), u, t) =
    Ok (n, fill_bits (length (header_wire hs))) (zb (rev (header_wire hs) @ word_of_nat (length (header_wire hs)) # p) rest,
      u\<lparr>headerCnt := word_of_nat (length hs), ud_header := write_at 0 hs (ud_header u)\<rparr>, t)"
proof -
  let ?w = "header_wire hs" and ?u = "u\<lparr>headerCnt := 0\<rparr>"
  have w: "0 < length ?w" using header_wire_nonempty [OF hs(1)] hs(2) by simp
  have L: "unat (word_of_nat (length ?w) :: u8) = length ?w" using room by (simp add: unat_of_nat)
  have i: "to_u8 (Suc (length p)) = Suc (length p)" using room w by (intro to_u8_id) linarith
  let ?cont = "\<lambda>b. GetIndex b < Suc (length p) + length ?w"
  let ?body = "\<lambda>i. bnd (decode_header_at ic w i) (\<lambda>headerLen.
      if headerLen = 0 then seq (on_ud ResetUserData) fail
      else bnd (on_buf (gets (\<lambda>b. GetIndex b > GetSize b))) (\<lambda>over.
        if over then seq (on_ud ResetUserData) fail else on_ud count_header))"
  have "for_headers ?cont ?body 0 MAX_UD_HEADER_NUM (zb (word_of_nat (length ?w) # p) (?w @ rest), ?u, t) =
      Ok () (zb (rev ?w @ word_of_nat (length ?w) # p) rest,
        ?u\<lparr>headerCnt := headerCnt ?u + word_of_nat (length hs), ud_header := write_at 0 hs (ud_header ?u)\<rparr>, t)"
  proof (rule for_headers_zb [where start = 0 and stop = "Suc (length p) + length ?w" and limit = "Suc (length p) + length ?w"])
    fix j h q r and v :: SmsUDPackage
    assume "plain_header h" "j < length (ud_header v)"
    with header_octets_nonempty [of h] decode_header_at_zb [of h j v ic w q r t]
    show "?body j (zb q (header_octets h @ r), v, t) =
        Ok () (zb (rev (header_octets h) @ q) r, count_header (v\<lparr>ud_header := (ud_header v)[j := h]\<rparr>), t)"
      by (simp add: op_simps on_ud_def)
  qed (use hs u in \<open>simp_all add: headers_ok_def\<close>)
  then show ?thesis
    using w L i gsm_arith [OF fill_bits_le header_septets, of "length ?w" n]
    by (simp add: DecodeGsmHeadPduPartData_def op_simps zb_simps on_ud_def)
qed

lemma DecodeGsmHeadPdu_zb:
  assumes hs: "headers_ok hs" and udl: "gsm_udl hs us \<le> 160"
    and room: "length p + length (gsm_head hs us) + length rest \<le> 256"
  shows "\<exists>t'. DecodeGsmHeadPdu ic w (hs \<noteq> []) (zb p (gsm_head hs us @ rest), zero_ud, t) =
    Ok (length us, gsm_fill hs) (zb (rev (gsm_head hs us) @ p) rest,
      zero_ud\<lparr>headerCnt := word_of_nat (length hs), ud_header := write_at 0 hs (ud_header zero_ud)\<rparr>, t') \<and> (t' = None \<longleftrightarrow> t = None)"
proof -
  obtain tl where tl: "gsm_head hs us = word_of_nat (gsm_udl hs us) # tl" using gsm_head_Cons by blast
  have n: "unat (word_of_nat (gsm_udl hs us) :: u8) = gsm_udl hs us" using udl by (simp add: unat_of_nat)
  let ?p = "word_of_nat (gsm_udl hs us) # p"
  have "\<exists>t'. (if t \<noteq> None \<and> (0 :: u8) < word_of_nat (gsm_udl hs us) then gsm_wap_push (word_of_nat (gsm_udl hs us)) else ret ())
      (zb ?p (tl @ rest), zero_ud, t) = Ok () (zb ?p (tl @ rest), zero_ud, t') \<and> (t' = None \<longleftrightarrow> t = None)"
  proof (cases "t \<noteq> None \<and> (0 :: u8) < word_of_nat (gsm_udl hs us)")
    case True
    then obtain t0 where "t = Some t0" by auto
    with True gsm_wap_push_zb [of "word_of_nat (gsm_udl hs us)" ?p "tl @ rest" zero_ud t0] n udl room tl
    show ?thesis by auto
  qed (auto simp: ret_def)
  then obtain t' where t': "(if t \<noteq> None \<and> (0 :: u8) < word_of_nat (gsm_udl hs us) then gsm_wap_push (word_of_nat (gsm_udl hs us)) else ret ())
      (zb ?p (tl @ rest), zero_ud, t) = Ok () (zb ?p (tl @ rest), zero_ud, t')" "t' = None \<longleftrightarrow> t = None" by blast
  have "DecodeGsmHeadPduPartData ic w (hs \<noteq> []) (gsm_udl hs us) (zb ?p (tl @ rest), zero_ud, t') =
      Ok (length us, gsm_fill hs) (zb (rev (gsm_head hs us) @ p) rest,
        zero_ud\<lparr>headerCnt := word_of_nat (length hs), ud_header := write_at 0 hs (ud_header zero_ud)\<rparr>, t')"
  proof (cases "hs = []")
    case True
    then show ?thesis using tl
      by (simp add: DecodeGsmHeadPduPartData_def op_simps on_ud_def gsm_udl_def gsm_fill_def gsm_head_def write_at_def zero_ud_def)
  next
    case False
    then have "tl = word_of_nat (length (header_wire hs)) # header_wire hs"
      using tl by (simp add: gsm_head_def Let_def)
    with False show ?thesis
      using DecodeGsmHeadPduPartData_zb [OF hs False, of zero_ud ?p rest ic w "length us" t'] room tl
      by (simp add: gsm_udl_def gsm_fill_def gsm_head_def Let_def zero_ud_def)
  qed
  with t' show ?thesis using tl n udl
    by (simp add: DecodeGsmHeadPdu_def op_simps zb_simps)
qed

lemma mk_ud_zero:
  "length us \<le> 161 \<Longrightarrow> length hs \<le> MAX_UD_HEADER_NUM \<Longrightarrow>
   zero_ud\<lparr>headerCnt := word_of_nat (length hs), ud_header := write_at 0 hs (ud_header zero_ud),
     ud_data := us @ drop (length us) (ud_data zero_ud), ud_length := word_of_nat (length us)\<rparr> = mk_ud hs us"
  by (simp add: mk_ud_def zero_ud_def write_at_def del: replicate_Suc)

lemma gsm_fill_le: "gsm_fill hs \<le> 6"
  by (simp add: gsm_fill_def fill_bits_le)

lemma octet_bound: "(a + 1) * 8 + x \<le> 1120 \<Longrightarrow> a + 1 + (x + 7) div 8 \<le> (140 :: nat)"
  by presburger

lemma gsm_octets_length:
  assumes "gsm_udl hs us \<le> 160"
  shows "length (gsm_octets hs us) \<le> 141"
proof (cases "hs = []")
  case True
  then show ?thesis using assms by (simp add: gsm_octets_def gsm_udl_def length_packed)
next
  case False
  let ?L = "length (header_wire hs)"
  have "(?L + 1) * 8 + fill_bits ?L + 7 * length us \<le> 1120"
    using assms False header_septets [of ?L] by (simp add: gsm_udl_def)
  then have "(?L + 1) * 8 + (fill_bits ?L + 7 * length us) \<le> 1120" by simp
  then have "?L + 1 + (fill_bits ?L + 7 * length us + 7) div 8 \<le> 140" by (rule octet_bound)
  then show ?thesis using False fill_bits_le [of ?L] by (simp add: gsm_octets_def Let_def length_packed)
qed

lemma DecodeGsmPdu_zb:
  assumes hs: "headers_ok hs" and us: "\<forall>c \<in> set us. c < 128" and udl: "gsm_udl hs us \<le> 160"
    and room: "length p + length (gsm_octets hs us) + length rest \<le> 256"
  shows "\<exists>q ys t'. DecodeGsmPdu ic w (hs \<noteq> []) (zb p (gsm_octets hs us @ rest), zero_ud, t) =
    Ok () (zb q ys, mk_ud hs us, t') \<and> rev q @ ys = rev p @ gsm_octets hs us @ rest \<and> (t' = None \<longleftrightarrow> t = None)"
proof -
  let ?p = "rev (gsm_head hs us) @ p" and ?xs = "packed (gsm_fill hs) us @ rest"
  let ?u = "zero_ud\<lparr>headerCnt := word_of_nat (length hs), ud_header := write_at 0 hs (ud_header zero_ud)\<rparr>"
  have n: "length us \<le> 160" using udl by (simp add: gsm_udl_def split: if_splits)
  have f: "gsm_fill hs \<le> 6" by (rule gsm_fill_le)
  obtain t' where h: "DecodeGsmHeadPdu ic w (hs \<noteq> []) (zb p (gsm_head hs us @ ?xs), zero_ud, t) =
      Ok (length us, gsm_fill hs) (zb ?p ?xs, ?u, t')" "t' = None \<longleftrightarrow> t = None"
    using DecodeGsmHeadPdu_zb [OF hs udl, of p ?xs ic w t] room by (auto simp: gsm_octets_split)
  have len: "length (ud_data zero_ud) = 161" by (simp add: zero_ud_def MAX_USER_DATA_LEN_def)
  have "\<exists>q ys. Unpack7bitChar (length us) (gsm_fill hs) (length (ud_data zero_ud)) 0 (zb ?p ?xs, ud_data zero_ud) =
      Ok (length us) (zb q ys, septets (length us) (octets_value ?xs div 2 ^ gsm_fill hs) @ drop (length us) (ud_data zero_ud)) \<and>
      rev q @ ys = rev ?p @ ?xs"
  proof (rule Unpack7bitChar_zb)
    show "gsm_fill hs + 7 * length us \<le> 8 * length ?xs" using f by (simp add: length_packed)
    show "0 < gsm_fill hs \<longrightarrow> ?xs \<noteq> []" using pk_nonempty by (simp add: packed_def)
  qed (use f n room len in \<open>simp_all add: gsm_octets_split\<close>)
  then obtain q ys where q: "rev q @ ys = rev ?p @ ?xs" and "Unpack7bitChar (length us) (gsm_fill hs) (MAX_USER_DATA_LEN + 1) 0 (zb ?p ?xs, ud_data zero_ud) =
      Ok (length us) (zb q ys, us @ drop (length us) (ud_data zero_ud))"
    using septets_packed [OF us, of "gsm_fill hs" rest] f len by (auto simp: MAX_USER_DATA_LEN_def)
  moreover have "ud_data ?u = ud_data zero_ud" by simp
  ultimately have "DecodeGsmPdu ic w (hs \<noteq> []) (zb p (gsm_octets hs us @ rest), zero_ud, t) =
      Ok () (zb q ys, ?u\<lparr>ud_data := us @ drop (length us) (ud_data zero_ud), ud_length := word_of_nat (length us)\<rparr>, t')"
    using h(1) by (simp add: DecodeGsmPdu_def DecodeGsmBodyPdu_def op_simps on_ud_def gsm_octets_split)
  moreover have "?u\<lparr>ud_data := us @ drop (length us) (ud_data zero_ud), ud_length := word_of_nat (length us)\<rparr> = mk_ud hs us"
    using n hs mk_ud_zero [of us hs] by (simp add: headers_ok_def)
  ultimately show ?thesis using h(2) q by (auto simp: gsm_octets_split)
qed

text \<open>
  C23. Round trip of user data in the GSM 7-bit alphabet, with any sequence of up to seven concatenation,
  port and shift headers: as long as headers, fill bits and text take no more than 160 septets, the encoder
  succeeds at any position of the PDU, and decoding the octets it wrote, whatever follows them, gives back
  the same headers and the same text.
\<close>

theorem gsm_user_data_roundtrip:
  assumes "headers_ok hs" "\<forall>c \<in> set us. c < 128" "gsm_udl hs us \<le> 160"
    and "length p + m \<le> 256" "141 \<le> m" "length p + 141 + length rest \<le> 256"
  shows "\<exists>out c q ys. EncodeUserDataPdu (mk_ud hs us) DATA_CODING_7BIT addr (zb p (replicate m 0)) = Ok () (zb (rev out @ p) c) \<and>
    DecodeUserDataPdu ic w (hs \<noteq> []) DATA_CODING_7BIT (zb p (out @ rest), u, None) = Ok () (zb q ys, mk_ud hs us, None) \<and>
    rev q @ ys = rev p @ out @ rest"
proof -
  have n: "length us \<le> 160" using assms(3) by (simp add: gsm_udl_def split: if_splits)
  have len: "length (gsm_octets hs us) \<le> 141" using assms(3) by (rule gsm_octets_length)
  then have "EncodeGsmPdu (mk_ud hs us) (zb p (replicate m 0)) =
      Ok () (zb (rev (gsm_octets hs us) @ p) (replicate (m - length (gsm_octets hs us)) 0))"
    using assms n by (intro EncodeGsmPdu_zb) simp_all
  then show ?thesis
    using DecodeGsmPdu_zb [OF assms(1-3), of p rest ic w None] assms len
    by (fastforce simp: EncodeUserDataPdu_def DecodeUserDataPdu_def op_simps on_ud_def)
qed

theorem gsm_user_data_roundtrip_witness:
  "\<exists>out c q ys. EncodeUserDataPdu (mk_ud [\<lparr>udhType = 0, udh = UdhConcat8bit \<lparr>c8_msgRef = 9, c8_totalSeg = 2, c8_seqNum = 1\<rparr>\<rparr>]
        [0x68, 0x69]) DATA_CODING_7BIT [] (zb [1] (replicate 255 0)) = Ok () (zb (rev out @ [1]) c) \<and>
    DecodeUserDataPdu (\<lambda>_ _. Some (\<lambda>src n. (True, take n src))) 8
      ([\<lparr>udhType = 0, udh = UdhConcat8bit \<lparr>c8_msgRef = 9, c8_totalSeg = 2, c8_seqNum = 1\<rparr>\<rparr>] \<noteq> []) DATA_CODING_7BIT
      (zb [1] (out @ [5, 5]), zero_ud, None) =
      Ok () (zb q ys, mk_ud [\<lparr>udhType = 0, udh = UdhConcat8bit \<lparr>c8_msgRef = 9, c8_totalSeg = 2, c8_seqNum = 1\<rparr>\<rparr>] [0x68, 0x69], None) \<and>
    rev q @ ys = rev [1] @ out @ [5, 5]"
  by (rule gsm_user_data_roundtrip)
    (simp_all add: headers_ok_def MAX_UD_HEADER_NUM_def plain_header_def gsm_udl_def header_octets_def header_septets_def fill_bits_def)

section \<open>The octet schemes on the wire\<close>

text \<open>8-bit data and UCS-2 share a layout: UDL counts octets, UDHL and the headers before the payload.\<close>

definition octet_head :: "SmsUDH list \<Rightarrow> bytes \<Rightarrow> bytes" where
  "octet_head hs us =
     (if hs = [] then [word_of_nat (length us)]
      else word_of_nat (length (header_wire hs) + 1 + length us) # word_of_nat (length (header_wire hs)) # header_wire hs)"

definition octet_udl :: "SmsUDH list \<Rightarrow> bytes \<Rightarrow> nat" where
  "octet_udl hs us = (if hs = [] then length us else length (header_wire hs) + 1 + length us)"

lemma octet_head_length: "length (octet_head hs us) + length us = 1 + octet_udl hs us"
  by (simp add: octet_head_def octet_udl_def)

lemma octet_head_Cons: "\<exists>tl. octet_head hs us = word_of_nat (octet_udl hs us) # tl"
  by (simp add: octet_head_def octet_udl_def)

text \<open>The head both encoders write, once they have decided to write the headers.\<close>

lemma octet_head_zb:
  assumes hs: "headers_ok hs" and us: "length us \<le> 160" and room: "length (octet_head hs us) \<le> m"
  shows "bnd (gets GetIndex) (\<lambda>location.
      seq (MoveForward (if hs \<noteq> [] then 2 else 1)) (
      bnd (gets GetIndex) (\<lambda>start.
      seq (EncodeHeaders (mk_ud hs us))
        (insert_lengths (mk_ud hs us) location start)))) (zb p (replicate m 0)) =
    Ok () (zb (rev (octet_head hs us) @ p) (replicate (m - length (octet_head hs us)) 0))"
proof (cases "hs = []")
  case True
  with room obtain m' where "m = Suc m'" by (cases m) (auto simp: octet_head_def)
  then show ?thesis
    using True hs EncodeHeaders_zb [of "[]" "replicate m' 0" us "0 # p"]
    by (simp add: insert_lengths_def op_simps Let_def zb_simps octet_head_def headers_ok_def)
next
  case False
  let ?w = "header_wire hs"
  obtain m' where m: "m = Suc (Suc m')" "length ?w \<le> m'"
    using room False by (cases m; cases "m - 1") (auto simp: octet_head_def Let_def)
  have w: "?w \<noteq> []" using header_wire_nonempty [OF hs] False by simp
  show ?thesis
    using False m w hs EncodeHeaders_zb [of hs "replicate m' 0" us "0 # 0 # p"]
      InsertByte_zb [of "word_of_nat (length ?w + 1 + length us)" p "rev ?w @ [0]" 0 "replicate (m' - length ?w) 0"]
      InsertByte_zb [of "word_of_nat (length ?w)" "word_of_nat (length ?w + 1 + length us) # p" "rev ?w" 0
        "replicate (m' - length ?w) 0"]
    by (simp add: insert_lengths_def op_simps Let_def MoveForward_zb octet_head_def u8_length us)
qed

lemma copy_user_data_zb:
  assumes "length us \<le> 160" "length p + length us < 254" "length us \<le> m"
  shows "copy_user_data (mk_ud hs us) (zb p (replicate m 0)) = Ok () (zb (rev us @ p) (replicate (m - length us) 0))"
  using assms
  by (simp add: copy_user_data_def op_simps CopyIn_zb memcpy_s_ok_def MAX_TPDU_LEN_def u8_length MoveForward_zb
      MAX_USER_DATA_LEN_def)

definition octet_wire :: "SmsUDH list \<Rightarrow> bytes \<Rightarrow> bytes" where
  "octet_wire hs us = octet_head hs us @ us"

lemma EncodeUcs2Pdu_zb:
  assumes "headers_ok hs" "octet_udl hs us \<le> 140" "length p + m \<le> 256" "length p \<le> 112" "141 \<le> m"
  shows "EncodeUcs2Pdu (mk_ud hs us) (zb p (replicate m 0)) =
    Ok () (zb (rev (octet_wire hs us) @ p) (replicate (m - length (octet_wire hs us)) 0))"
proof -
  have n: "length us \<le> 140" using assms(2) by (simp add: octet_udl_def split: if_splits)
  have len: "length (octet_head hs us) + length us \<le> 141" using assms(2) octet_head_length [of hs us] by simp
  let ?k = "length (octet_head hs us)"
  have "EncodeUcs2HeadPdu (mk_ud hs us) (zb p (replicate m 0)) = Ok () (zb (rev (octet_head hs us) @ p) (replicate (m - ?k) 0))"
    using octet_head_zb [OF assms(1), of us m p] n len assms(5)
    by (simp add: EncodeUcs2HeadPdu_def headers_cnt_0 [OF assms(1)] if_not_P cong: if_cong) (cases "hs = []"; simp)
  moreover have "EncodeUcs2BodyPdu (mk_ud hs us) (zb (rev (octet_head hs us) @ p) (replicate (m - ?k) 0)) =
      Ok () (zb (rev us @ rev (octet_head hs us) @ p) (replicate (m - ?k - length us) 0))"
    using copy_user_data_zb [of us "rev (octet_head hs us) @ p" "m - ?k" hs] n len assms(3-5)
    by (simp add: EncodeUcs2BodyPdu_def op_simps IsEmpty_def u8_length MAX_TPDU_LEN_def)
  ultimately show ?thesis by (simp add: EncodeUcs2Pdu_def op_simps octet_wire_def)
qed

section \<open>Decoding the octet schemes\<close>

lemma copy_payload_zb:
  assumes "unat (ud_length u) = n" "n \<le> length xs" "n \<le> 160" "length xs < 256"
  shows "copy_payload (zb p xs, u, t) =
    Ok (0 < n) (zb (rev (take n xs) @ p) (drop n xs), u\<lparr>ud_data := write_at 0 (take n xs) (ud_data u)\<rparr>, t)"
  using assms
  by (auto simp: copy_payload_def op_simps to_u8_id Let_def CopyOut_def memcpy_s_ok_def IsEmpty_def MAX_USER_DATA_LEN_def
      on_ud_def MoveForward_zb write_at_def)

lemma ucs2_wap_push_zb:
  assumes "unat udl \<le> 140" "unat udl \<le> length xs"
  shows "\<exists>t'. ucs2_wap_push udl (zb p xs, u, Some t) = Ok () (zb p xs, u, Some t')"
  using assms
  by (auto simp: ucs2_wap_push_def op_simps on_tpud_def MAX_USER_DATA_LEN_def CopyOut_def memcpy_s_ok_def set_tpud_def)

text \<open>The header loop of \<^verbatim>\<open>DecodeUcs2PduPartData\<close>; \<open>current\<close> is the position of the UDL octet.\<close>

lemma ucs2_headers_zb:
  assumes hs: "headers_ok hs" "hs \<noteq> []" and u: "length (ud_header u) = MAX_UD_HEADER_NUM"
    and p: "length p = current + 2"
  shows "for_headers (\<lambda>b. GetIndex b < length (header_wire hs) + current)
      (\<lambda>i. bnd (decode_header_at ic w i) (\<lambda>headerLen.
           bnd (on_buf (gets GetIndex)) (\<lambda>index.
           if headerLen = 0 \<or> index > current + length (header_wire hs) + 2 then seq (on_ud ResetUserData) fail
           else on_ud count_header)))
      0 MAX_UD_HEADER_NUM (zb p (header_wire hs @ rest), u, t) =
    Ok () (zb (rev (header_wire hs) @ p) rest,
      u\<lparr>headerCnt := headerCnt u + word_of_nat (length hs), ud_header := write_at 0 hs (ud_header u)\<rparr>, t)"
    (is "for_headers ?cont ?body _ _ _ = _")
proof (rule for_headers_zb [where start = 0 and stop = "length p + length (header_wire hs)" and limit = "current + length (header_wire hs)"])
  fix j h and q r :: bytes and v :: SmsUDPackage
  assume "plain_header h" "j < length (ud_header v)" "length q + length (header_octets h) \<le> length p + length (header_wire hs)"
  with header_octets_nonempty [of h] decode_header_at_zb [of h j v ic w q r t] p
  show "?body j (zb q (header_octets h @ r), v, t) =
      Ok () (zb (rev (header_octets h) @ q) r, count_header (v\<lparr>ud_header := (ud_header v)[j := h]\<rparr>), t)"
    by (simp add: op_simps on_ud_def)
qed (use hs u p in \<open>simp_all add: headers_ok_def add.commute\<close>)

lemma list_update_replicate: "(us @ replicate k x)[length us := x] = us @ replicate k x"
  by (cases k) (simp_all add: list_update_beyond)

lemma ucs2_payload:
  assumes n: "length us \<le> 140" and room: "length p + length us + length rest \<le> 256" "p \<noteq> []"
    and u: "ud_length u = word_of_nat (length us)" "ud_data u = ud_data zero_ud"
  shows "bnd copy_payload (\<lambda>copied.
     if copied then
       on_ud (\<lambda>u. u\<lparr>ud_data := (ud_data u)[
         (if unat (ud_length u) \<ge> MAX_USER_DATA_LEN + 1 then MAX_USER_DATA_LEN else unat (ud_length u)) := 0]\<rparr>)
     else ret ()) (zb p (us @ rest), u, t) =
    Ok () (zb (rev us @ p) rest, u\<lparr>ud_data := us @ replicate (161 - length us) 0\<rparr>, t)"
proof -
  have l: "unat (ud_length u) = length us" using n u by (simp add: unat_of_nat)
  have "length (us @ rest) < 256" using room by (cases p) auto
  then have "copy_payload (zb p (us @ rest), u, t) =
      Ok (0 < length us) (zb (rev us @ p) rest, u\<lparr>ud_data := write_at 0 us (ud_data u)\<rparr>, t)"
    using copy_payload_zb [of u "length us" "us @ rest" p t] l n by simp
  moreover have "write_at 0 us (ud_data u) = us @ replicate (161 - length us) 0"
    using u by (simp add: write_at_def zero_ud_def MAX_USER_DATA_LEN_def)
  ultimately show ?thesis using l n
    by (auto simp: op_simps on_ud_def MAX_USER_DATA_LEN_def list_update_replicate)
qed

lemma DecodeUcs2PduPartData_zb:
  assumes hs: "headers_ok hs" and udl: "octet_udl hs us \<le> 140" and p: "length p = current + 1"
    and room: "length p + octet_udl hs us + length rest \<le> 256"
  shows "DecodeUcs2PduPartData ic w (hs \<noteq> []) current (octet_udl hs us)
      (zb p (tl (octet_wire hs us) @ rest), zero_ud, t) =
    Ok () (zb (rev (tl (octet_wire hs us)) @ p) rest, mk_ud hs us, t)"
proof -
  have n: "length us \<le> 140" using udl by (simp add: octet_udl_def split: if_splits)
  have mk: "mk_ud hs us = zero_ud\<lparr>headerCnt := word_of_nat (length hs), ud_header := write_at 0 hs (ud_header zero_ud),
      ud_length := word_of_nat (length us), ud_data := us @ replicate (161 - length us) 0\<rparr>"
    using hs n by (simp add: mk_ud_def zero_ud_def write_at_def headers_ok_def MAX_USER_DATA_LEN_def)
  show ?thesis
  proof (cases "hs = []")
    case True
    have "p \<noteq> []" using p by auto
    with True p room n mk ucs2_payload [of us p rest "zero_ud\<lparr>headerCnt := 0, ud_header := ud_header zero_ud, ud_length := word_of_nat (length us)\<rparr>"]
    show ?thesis
      by (simp add: DecodeUcs2PduPartData_def seq_def bnd_def op_simps on_ud_def octet_wire_def octet_head_def octet_udl_def write_at_def)
  next
    case False
    let ?w = "header_wire hs"
    have w: "0 < length ?w" using header_wire_nonempty [OF hs(1)] False by simp
    have L: "unat (word_of_nat (length ?w) :: u8) = length ?w"
      using udl False by (simp add: octet_udl_def unat_of_nat)
    have h: "length (ud_header (zero_ud\<lparr>headerCnt := 0\<rparr>)) = MAX_UD_HEADER_NUM" by (simp add: zero_ud_def)
    show ?thesis
      using False w L p room udl n mk
        ucs2_headers_zb [OF hs False h, of "word_of_nat (length ?w) # p" current ic w "us @ rest" t]
        ucs2_payload [of us "rev ?w @ word_of_nat (length ?w) # p" rest
          "zero_ud\<lparr>headerCnt := word_of_nat (length hs), ud_header := write_at 0 hs (ud_header zero_ud), ud_length := word_of_nat (length us)\<rparr>"]
      by (simp add: DecodeUcs2PduPartData_def op_simps zb_simps on_ud_def octet_wire_def octet_head_def octet_udl_def)
  qed
qed

lemma DecodeUcs2Pdu_zb:
  assumes hs: "headers_ok hs" and udl: "octet_udl hs us \<le> 140"
    and room: "length p + 1 + octet_udl hs us + length rest \<le> 256"
  shows "\<exists>t'. DecodeUcs2Pdu ic w (hs \<noteq> []) (zb p (octet_wire hs us @ rest), zero_ud, t) =
    Ok () (zb (rev (octet_wire hs us) @ p) rest, mk_ud hs us, t') \<and> (t' = None \<longleftrightarrow> t = None)"
proof -
  let ?b = "word_of_nat (octet_udl hs us) :: u8" and ?tl = "tl (octet_wire hs us)"
  have wire: "octet_wire hs us = ?b # ?tl"
    using octet_head_Cons [of hs us] by (auto simp: octet_wire_def)
  have len: "length ?tl = octet_udl hs us"
    using octet_head_length [of hs us] by (simp add: octet_wire_def)
  have n: "unat ?b = octet_udl hs us" using udl by (simp add: unat_of_nat)
  obtain t' where t': "(if t \<noteq> None then ucs2_wap_push ?b else ret ()) (zb (?b # p) (?tl @ rest), zero_ud, t) =
      Ok () (zb (?b # p) (?tl @ rest), zero_ud, t')" "t' = None \<longleftrightarrow> t = None"
    using ucs2_wap_push_zb [of ?b "?tl @ rest" "?b # p" zero_ud "the t"] n udl len
    by (cases t) (auto simp: ret_def)
  have "DecodeUcs2PduPartData ic w (hs \<noteq> []) (length p) (octet_udl hs us) (zb (?b # p) (?tl @ rest), zero_ud, t') =
      Ok () (zb (rev ?tl @ ?b # p) rest, mk_ud hs us, t')"
    using hs udl room by (intro DecodeUcs2PduPartData_zb) simp_all
  with t' show ?thesis using n udl len
    by (subst (1 2) wire) (simp add: DecodeUcs2Pdu_def op_simps zb_simps IsEmpty_def)
qed

text \<open>
  Round trip of UCS-2 user data with any sequence of up to seven supported headers: while headers and
  payload take at most 140 octets, encoding succeeds and decoding gives back the same headers and payload
  and leaves the cursor right behind them.
\<close>

theorem ucs2_user_data_roundtrip:
  assumes "headers_ok hs" "octet_udl hs us \<le> 140" "length p \<le> 112" "length p + m \<le> 256" "141 \<le> m"
    and "length p + 141 + length rest \<le> 256"
  shows "\<exists>out c. EncodeUserDataPdu (mk_ud hs us) DATA_CODING_UCS2 addr (zb p (replicate m 0)) = Ok () (zb (rev out @ p) c) \<and>
    DecodeUserDataPdu ic w (hs \<noteq> []) DATA_CODING_UCS2 (zb p (out @ rest), u, None) =
      Ok () (zb (rev out @ p) rest, mk_ud hs us, None)"
  using EncodeUcs2Pdu_zb [OF assms(1,2,4,3,5)] DecodeUcs2Pdu_zb [OF assms(1,2), of p rest ic w None] assms
  by (fastforce simp: EncodeUserDataPdu_def DecodeUserDataPdu_def op_simps on_ud_def)

theorem ucs2_user_data_roundtrip_witness:
  "\<exists>out c. EncodeUserDataPdu (mk_ud [\<lparr>udhType = 0x05, udh = UdhAppPort16bit \<lparr>p16_destPort = 0x0B84, p16_originPort = 7\<rparr>\<rparr>]
        [0x4F, 0x60]) DATA_CODING_UCS2 [] (zb [1] (replicate 255 0)) = Ok () (zb (rev out @ [1]) c) \<and>
    DecodeUserDataPdu (\<lambda>_ _. Some (\<lambda>src n. (True, take n src))) 8
      ([\<lparr>udhType = 0x05, udh = UdhAppPort16bit \<lparr>p16_destPort = 0x0B84, p16_originPort = 7\<rparr>\<rparr>] \<noteq> []) DATA_CODING_UCS2
      (zb [1] (out @ [5]), zero_ud, None) =
      Ok () (zb (rev out @ [1]) [5], mk_ud [\<lparr>udhType = 0x05, udh = UdhAppPort16bit \<lparr>p16_destPort = 0x0B84, p16_originPort = 7\<rparr>\<rparr>] [0x4F, 0x60], None)"
  by (rule ucs2_user_data_roundtrip)
    (simp_all add: headers_ok_def MAX_UD_HEADER_NUM_def plain_header_def octet_udl_def header_octets_def be16_def)

section \<open>8-bit data\<close>

lemma Encode8bitPdu_zb:
  assumes "headers_ok hs" "octet_udl hs us \<le> 140" "length p \<le> 112" "length p + m \<le> 256" "142 \<le> m" "CT_SMSC \<noteq> addr"
  shows "Encode8bitPdu (mk_ud hs us) addr (zb p (replicate m 0)) =
    Ok () (zb (rev (octet_wire hs us) @ p) (replicate (m - length (octet_wire hs us)) 0))"
proof -
  have n: "length us \<le> 140" using assms(2) by (simp add: octet_udl_def split: if_splits)
  have len: "length (octet_head hs us) + length us \<le> 141" using assms(2) octet_head_length [of hs us] by simp
  let ?k = "length (octet_head hs us)"
  have "Encode8bitHeadPdu (mk_ud hs us) addr (zb p (replicate m 0)) = Ok () (zb (rev (octet_head hs us) @ p) (replicate (m - ?k) 0))"
    using octet_head_zb [OF assms(1), of us m p] n len assms(5,6)
    by (simp add: Encode8bitHeadPdu_def headers_cnt_pos [OF assms(1)] cong: if_cong)
  moreover have "Encode8bitBodyPdu (mk_ud hs us) (zb (rev (octet_head hs us) @ p) (replicate (m - ?k) 0)) =
      Ok () (zb (rev us @ rev (octet_head hs us) @ p) (replicate (m - ?k - length us) 0))"
    using copy_user_data_zb [of us "rev (octet_head hs us) @ p" "m - ?k" hs] n len assms(3-5)
    by (simp add: Encode8bitBodyPdu_def op_simps IsEmpty_def u8_length MAX_TPDU_LEN_def)
  ultimately show ?thesis by (simp add: Encode8bitPdu_def op_simps octet_wire_def)
qed

lemma Decode8bitPdu_None:
  assumes "unat b \<le> 140"
  shows "Decode8bitPdu ic w h (zb p (b # xs), u, None) = Decode8bitPduPartData ic w h (unat b) (zb (b # p) xs, u, None)"
  using assms by (cases xs) (simp_all add: Decode8bitPdu_def op_simps zb_simps Let_def)

lemma Decode8bitPdu_plain:
  assumes "length us \<le> 140" "length p + length (octet_wire [] us) + length rest \<le> 256"
  shows "Decode8bitPdu ic w False (zb p (octet_wire [] us @ rest), zero_ud, None) =
    Ok () (zb (rev (octet_wire [] us) @ p) rest, mk_ud [] us, None)"
proof -
  let ?b = "word_of_nat (length us) :: u8" and ?u = "zero_ud\<lparr>headerCnt := 0, ud_length := word_of_nat (length us)\<rparr>"
  have n: "unat ?b = length us" using assms(1) by (simp add: unat_of_nat)
  have "copy_payload (zb (?b # p) (us @ rest), ?u, None) =
      Ok (0 < length us) (zb (rev us @ ?b # p) rest, ?u\<lparr>ud_data := write_at 0 us (ud_data zero_ud)\<rparr>, None)"
    using copy_payload_zb [of ?u "length us" "us @ rest" "?b # p" None] n assms by (simp add: octet_wire_def octet_head_def)
  moreover have "?u\<lparr>ud_data := write_at 0 us (ud_data zero_ud)\<rparr> = mk_ud [] us"
    using assms(1) by (simp add: mk_ud_def zero_ud_def write_at_def MAX_USER_DATA_LEN_def)
  ultimately show ?thesis
    using n assms Decode8bitPdu_None [of ?b ic w False p "us @ rest" zero_ud]
    by (simp add: Decode8bitPduPartData_def op_simps on_ud_def octet_wire_def octet_head_def MAX_USER_DATA_LEN_def)
qed

text \<open>
  Round trip of 8-bit user data without headers: up to 140 octets are encoded and decoded to the same
  octets, and the cursor ends right behind them.
\<close>

theorem octets_user_data_roundtrip:
  assumes "length us \<le> 140" "length p \<le> 112" "length p + m \<le> 256" "142 \<le> m" "CT_SMSC \<noteq> addr"
    and "length p + 141 + length rest \<le> 256"
  shows "\<exists>out c. EncodeUserDataPdu (mk_ud [] us) DATA_CODING_8BIT addr (zb p (replicate m 0)) = Ok () (zb (rev out @ p) c) \<and>
    DecodeUserDataPdu ic w False DATA_CODING_8BIT (zb p (out @ rest), u, None) =
      Ok () (zb (rev out @ p) rest, mk_ud [] us, None)"
proof -
  have "headers_ok []" "length (octet_wire [] us) = Suc (length us)"
    by (simp_all add: headers_ok_def octet_wire_def octet_head_def)
  then show ?thesis
    using Encode8bitPdu_zb [of "[]" us p m addr] Decode8bitPdu_plain [of us p rest ic w] assms
    by (intro exI [of _ "octet_wire [] us"] exI [of _ "replicate (m - Suc (length us)) 0"])
      (simp add: EncodeUserDataPdu_def DecodeUserDataPdu_def op_simps on_ud_def octet_udl_def)
qed

theorem octets_user_data_roundtrip_witness:
  "\<exists>out c. EncodeUserDataPdu (mk_ud [] [1, 2, 3]) DATA_CODING_8BIT [] (zb [9] (replicate 255 0)) = Ok () (zb (rev out @ [9]) c) \<and>
    DecodeUserDataPdu (\<lambda>_ _. Some (\<lambda>src n. (True, take n src))) 8 False DATA_CODING_8BIT (zb [9] (out @ [5]), zero_ud, None) =
      Ok () (zb (rev out @ [9]) [5], mk_ud [] [1, 2, 3], None)"
  by (rule octets_user_data_roundtrip) (simp_all add: CT_SMSC_def)

lemma copy_payload_short:
  assumes "unat (ud_length u) = n" "length xs < n" "n \<le> 160"
  shows "copy_payload (zb p xs, u, t) =
    Ok (xs \<noteq> []) (zb p xs, u\<lparr>ud_data := write_at 0 xs (ud_data u)\<rparr>, t)"
  using assms
  by (auto simp: copy_payload_def op_simps to_u8_id Let_def CopyOut_def memcpy_s_ok_def IsEmpty_def MAX_USER_DATA_LEN_def
      on_ud_def MoveForward_zb write_at_def)

text \<open>The header loop of \<^verbatim>\<open>Decode8bitPduPartData\<close>.\<close>

lemma octet_headers_zb:
  assumes hs: "headers_ok hs" and u: "length (ud_header u) = MAX_UD_HEADER_NUM"
  shows "for_headers (\<lambda>b. GetIndex b - length p < length (header_wire hs)) (GetHeaderCnt ic w (length (header_wire hs)))
      0 MAX_UD_HEADER_NUM (zb p (header_wire hs @ rest), u, t) =
    Ok () (zb (rev (header_wire hs) @ p) rest,
      u\<lparr>headerCnt := headerCnt u + word_of_nat (length hs), ud_header := write_at 0 hs (ud_header u)\<rparr>, t)"
proof (cases "hs = []")
  case True
  then show ?thesis by (simp add: MAX_UD_HEADER_NUM_def numeral_eq_Suc op_simps write_at_def)
next
  case False
  then have w: "0 < length (header_wire hs)" using header_wire_nonempty [OF hs] by simp
  show ?thesis
  proof (rule for_headers_zb [where start = "length p" and stop = "length p + length (header_wire hs)"
        and limit = "length p + length (header_wire hs)"])
    fix j h and q r :: bytes and v :: SmsUDPackage
    assume "plain_header h" "j < length (ud_header v)" "length (ud_header v) = MAX_UD_HEADER_NUM" "length p \<le> length q"
      "length q + length (header_octets h) \<le> length p + length (header_wire hs)"
    with header_octets_nonempty [of h] decode_header_at_zb [of h j v ic w q r t]
    show "GetHeaderCnt ic w (length (header_wire hs)) j (zb q (header_octets h @ r), v, t) =
        Ok () (zb (rev (header_octets h) @ q) r, count_header (v\<lparr>ud_header := (ud_header v)[j := h]\<rparr>), t)"
      by (simp add: GetHeaderCnt_def op_simps on_ud_def)
  next
    show "GetIndex (zb q r) - length p < length (header_wire hs) \<longleftrightarrow> length q < length p + length (header_wire hs)"
      for q r unfolding zb_fields using w by linarith
  qed (use hs u in \<open>simp_all add: headers_ok_def\<close>)
qed

text \<open>
  With headers the 8-bit decoder loses the first octet of the payload: after the headers it skips one
  octet more, so that a PDU the encoder produced for headers and a payload decodes to the payload from its
  second octet on, under the length of the whole payload.
\<close>

theorem octets_first_lost:
  assumes "headers_ok hs" "hs \<noteq> []" "us \<noteq> []" "octet_udl hs us \<le> 140" "length p \<le> 112" "length p + m \<le> 256" "142 \<le> m"
    "CT_SMSC \<noteq> addr"
  shows "\<exists>out c b. EncodeUserDataPdu (mk_ud hs us) DATA_CODING_8BIT addr (zb p (replicate m 0)) = Ok () (zb (rev out @ p) c) \<and>
    DecodeUserDataPdu ic w True DATA_CODING_8BIT (zb p out, u, None) =
      Ok () (b, (mk_ud hs us)\<lparr>ud_data := tl us @ replicate (162 - length us) 0\<rparr>, None)"
proof -
  let ?w = "header_wire hs" and ?b = "word_of_nat (octet_udl hs us) :: u8"
  have w: "0 < length ?w" using header_wire_nonempty [OF assms(1)] assms(2) by simp
  have l: "length ?w + 1 + length us \<le> 140" using assms(2,4) by (simp add: octet_udl_def)
  then have n: "unat (word_of_nat (length ?w) :: u8) = length ?w" "length us \<le> 140" by (simp_all add: unat_of_nat)
  have b: "unat ?b = octet_udl hs us" using assms(4) by (simp add: unat_of_nat)
  obtain x xs where us: "us = x # xs" using assms(3) by (cases us) auto
  have wire: "octet_wire hs us = ?b # word_of_nat (length ?w) # ?w @ us"
    using assms(2) by (simp add: octet_wire_def octet_head_def octet_udl_def)
  let ?p = "word_of_nat (length ?w) # ?b # p"
  let ?u = "zero_ud\<lparr>headerCnt := word_of_nat (length hs), ud_header := write_at 0 hs (ud_header zero_ud), ud_length := word_of_nat (length us)\<rparr>"
  have hl: "length (ud_header (zero_ud\<lparr>headerCnt := 0\<rparr>)) = MAX_UD_HEADER_NUM" by (simp add: zero_ud_def)
  have "copy_payload (zb (x # rev ?w @ ?p) xs, ?u, None) =
      Ok (xs \<noteq> []) (zb (x # rev ?w @ ?p) xs, ?u\<lparr>ud_data := write_at 0 xs (ud_data ?u)\<rparr>, None)"
  proof (rule copy_payload_short [where n = "length us"])
    show "unat (ud_length ?u) = length us" using u8_length [of us] n by simp
  qed (use us n in simp_all)
  moreover have "?u\<lparr>ud_data := write_at 0 xs (ud_data ?u)\<rparr> = (mk_ud hs us)\<lparr>ud_data := tl us @ replicate (162 - length us) 0\<rparr>"
    using us n(2) assms(1) by (simp add: mk_ud_def zero_ud_def write_at_def headers_ok_def MAX_USER_DATA_LEN_def)
  ultimately have "Decode8bitPduPartData ic w True (octet_udl hs us) (zb (?b # p) (word_of_nat (length ?w) # ?w @ us), zero_ud, None) =
      Ok () (zb (x # rev ?w @ ?p) xs, (mk_ud hs us)\<lparr>ud_data := tl us @ replicate (162 - length us) 0\<rparr>, None)"
    using octet_headers_zb [OF assms(1) hl, of ?p ic w us None] w n us l assms(2)
    by (simp add: Decode8bitPduPartData_def op_simps zb_simps on_ud_def octet_udl_def MAX_USER_DATA_LEN_def)
  then have "DecodeUserDataPdu ic w True DATA_CODING_8BIT (zb p (octet_wire hs us), u, None) =
      Ok () (zb (x # rev ?w @ ?p) xs, (mk_ud hs us)\<lparr>ud_data := tl us @ replicate (162 - length us) 0\<rparr>, None)"
    using Decode8bitPdu_None [of ?b ic w True p "word_of_nat (length ?w) # ?w @ us" zero_ud] b assms(4) wire
    by (simp add: DecodeUserDataPdu_def op_simps on_ud_def)
  moreover have "EncodeUserDataPdu (mk_ud hs us) DATA_CODING_8BIT addr (zb p (replicate m 0)) =
      Ok () (zb (rev (octet_wire hs us) @ p) (replicate (m - length (octet_wire hs us)) 0))"
    using Encode8bitPdu_zb [OF assms(1,4-8)] by (simp add: EncodeUserDataPdu_def)
  ultimately show ?thesis by blast
qed

theorem octets_first_lost_witness:
  "\<exists>out c b. EncodeUserDataPdu (mk_ud [\<lparr>udhType = 0x04, udh = UdhAppPort8bit \<lparr>p8_destPort = 2, p8_originPort = 3\<rparr>\<rparr>] [7, 8, 9])
      DATA_CODING_8BIT [] (zb [1] (replicate 255 0)) = Ok () (zb (rev out @ [1]) c) \<and>
    DecodeUserDataPdu (\<lambda>_ _. Some (\<lambda>src n. (True, take n src))) 8 True DATA_CODING_8BIT (zb [1] out, zero_ud, None) =
      Ok () (b, (mk_ud [\<lparr>udhType = 0x04, udh = UdhAppPort8bit \<lparr>p8_destPort = 2, p8_originPort = 3\<rparr>\<rparr>] [7, 8, 9])
        \<lparr>ud_data := tl [7, 8, 9] @ replicate (162 - length [7, 8, 9 :: u8]) 0\<rparr>, None)"
  by (rule octets_first_lost)
    (simp_all add: headers_ok_def MAX_UD_HEADER_NUM_def plain_header_def octet_udl_def header_octets_def CT_SMSC_def)

end
