(* ===== verification/Gsm_Param_Layout.thy ===== *)
theory Gsm_Param_Layout
  imports Gsm_Param_Codec
begin

text \<open>
  What the parameter codec writes and understands for the data coding scheme, time stamps and the
  address of the service centre, against the octets of 3GPP TS 23.038 and TS 23.040.
\<close>

section \<open>The data coding scheme\<close>

lemma nibble_hi: "drop_bit 4 (v AND 0xF0) = drop_bit 4 (v :: u8)"
proof -
  have m: "(0xF0 :: u8) = push_bit 4 (mask 4)" by (simp add: mask_eq_exp_minus_1)
  show ?thesis unfolding m by (rule bit_word_eqI) (auto simp: bit_simps dest: bit_imp_le_length)
qed

lemma bits_hi: "drop_bit 6 (v AND 0xC0) = drop_bit 6 (v :: u8)"
proof -
  have m: "(0xC0 :: u8) = push_bit 6 (mask 2)" by (simp add: mask_eq_exp_minus_1)
  show ?thesis unfolding m by (rule bit_word_eqI) (auto simp: bit_simps dest: bit_imp_le_length)
qed

lemma div_range: "0 < m \<Longrightarrow> n div m = k \<longleftrightarrow> m * k \<le> n \<and> n < m * (k + 1)" for n m k :: nat
  using dividend_less_times_div [of m n] times_div_less_eq_dividend [of m n] by (auto intro: div_nat_eqI)

lemma drop_bit_eq_unat: "drop_bit n (v :: u8) = w \<longleftrightarrow> unat v div 2 ^ n = unat w"
  by (metis unat_drop_bit_u8 word_unat_eq_iff)

text \<open>The coding groups of TS 23.038 by the value of the octet.\<close>

definition dcs_group :: "nat \<Rightarrow> PduSchemeGroup" where
  "dcs_group v =
     (if v < 64 then CODING_GENERAL_GROUP else if v < 128 then CODING_DELETION_GROUP
      else if v < 192 then CODING_UNKNOWN_GROUP else if v < 208 then CODING_DISCARD_GROUP
      else if v < 240 then CODING_STORE_GROUP else SMS_CLASS_GROUP)"

definition scheme_bits :: "nat \<Rightarrow> DataCodingScheme" where
  "scheme_bits v = (let b = v div 4 mod 4
     in if b = 0 then DATA_CODING_7BIT else if b = 1 then DATA_CODING_8BIT
        else if b = 2 then DATA_CODING_UCS2 else DATA_CODING_AUTO)"

lemma GetMsgCodingScheme_bits: "GetMsgCodingScheme (drop_bit 2 (v AND 0x0C)) = scheme_bits (unat v)"
proof -
  have m: "(0x0C :: u8) = push_bit 2 (mask 2)" "(0x03 :: u8) = mask 2" by (simp_all add: mask_eq_exp_minus_1)
  have e: "drop_bit 2 (v AND 0x0C) AND 0x03 = take_bit 2 (drop_bit 2 v)"
    unfolding m by (rule bit_word_eqI) (auto simp: bit_simps)
  have t: "take_bit 2 (drop_bit 2 v) = w \<longleftrightarrow> unat v div 4 mod 4 = unat w" if "unat w < 4" for w :: u8
    unfolding word_unat_eq_iff unsigned_take_bit_eq by (simp add: take_bit_eq_mod unat_drop_bit_u8)
  have c: "take_bit 2 (drop_bit 2 v) = 0 \<longleftrightarrow> unat v div 4 mod 4 = 0" "take_bit 2 (drop_bit 2 v) = 1 \<longleftrightarrow> unat v div 4 mod 4 = 1"
    "take_bit 2 (drop_bit 2 v) = 2 \<longleftrightarrow> unat v div 4 mod 4 = 2"
    using t [of 0] t [of 1] t [of 2] by simp_all
  show ?thesis unfolding GetMsgCodingScheme_def scheme_bits_def Let_def e c by simp
qed

lemma dcs_cases:
  "drop_bit 6 (v AND 0xC0) = 0 \<longleftrightarrow> unat v div 64 = 0" "drop_bit 4 (v AND 0xF0) = 0x0F \<longleftrightarrow> unat v div 16 = 15"
  "drop_bit 6 (v AND 0xC0) = 0x01 \<longleftrightarrow> unat v div 64 = 1" "drop_bit 4 (v AND 0xF0) = 0x0C \<longleftrightarrow> unat v div 16 = 12"
  "drop_bit 4 (v AND 0xF0) = 0x0D \<longleftrightarrow> unat v div 16 = 13" "drop_bit 4 (v AND 0xF0) = 0x0E \<longleftrightarrow> unat (v :: u8) div 16 = 14"
  unfolding nibble_hi bits_hi drop_bit_eq_unat by simp_all

lemmas dcs_decoders =
  DecodeDcsGeneralGroupPdu_def DecodeDcsClassGroupPdu_def DecodeDcsDeleteGroupPdu_def DecodeDcsDiscardGroupPdu_def
  DecodeDcsStoreGsmGroupPdu_def DecodeDcsStoreUCS2GroupPdu_def DecodeDcsUnknownGroupPdu_def GetMwiType_def

text \<open>
  Decoding the data coding scheme, for each of the 256 octets: the coding group is the one TS 23.038
  assigns to the octet's range, and the alphabet is the fixed one of the message waiting groups that name
  one, the bits 2 and 3 elsewhere, and for the deletion and discard groups, where the decoder does not set
  it, whatever the struct held before.
\<close>

theorem decode_dcs_table:
  "codingGroup (decode_dcs v d) = dcs_group (unat v) \<and>
   codingScheme (decode_dcs v d) =
     (if dcs_group (unat v) \<in> {CODING_DELETION_GROUP, CODING_DISCARD_GROUP} then codingScheme d
      else if dcs_group (unat v) = CODING_STORE_GROUP then (if unat v < 224 then DATA_CODING_7BIT else DATA_CODING_UCS2)
      else scheme_bits (unat v))"
proof -
  have v: "unat v < 256" by (rule unat_u8_less)
  have r: "unat v div 64 = 0 \<longleftrightarrow> unat v < 64" "unat v div 64 = 1 \<longleftrightarrow> 64 \<le> unat v \<and> unat v < 128"
    "unat v div 16 = 15 \<longleftrightarrow> 240 \<le> unat v" "unat v div 16 = 12 \<longleftrightarrow> 192 \<le> unat v \<and> unat v < 208"
    "unat v div 16 = 13 \<longleftrightarrow> 208 \<le> unat v \<and> unat v < 224" "unat v div 16 = 14 \<longleftrightarrow> 224 \<le> unat v \<and> unat v < 240"
    using v by (auto simp: div_range)
  consider "unat v < 64" | "64 \<le> unat v" "unat v < 128" | "128 \<le> unat v" "unat v < 192" | "192 \<le> unat v" "unat v < 208"
    | "208 \<le> unat v" "unat v < 224" | "224 \<le> unat v" "unat v < 240" | "240 \<le> unat v" by linarith
  then show ?thesis
    unfolding decode_dcs_def Let_def dcs_cases r dcs_decoders GetMsgCodingScheme_bits
    by cases (simp_all add: dcs_group_def)
qed

text \<open>
  Round trip of the data coding scheme for 8-bit data and UCS-2: what \<^verbatim>\<open>EncodeDCS\<close> writes for a message
  of the general or the class group is one octet, from which the decoder restores the group, the class, the
  compression flag and the alphabet. Excluded are a class group without a class or with compression, which the octet cannot
  express, and compression without a class.
\<close>

theorem dcs_roundtrip:
  assumes "codingScheme d \<in> {DATA_CODING_8BIT, DATA_CODING_UCS2}"
    and "codingGroup d = CODING_GENERAL_GROUP \<and> (bCompressed d \<longrightarrow> msgClass d \<noteq> SMS_CLASS_UNKNOWN) \<or>
      codingGroup d = SMS_CLASS_GROUP \<and> \<not> bCompressed d \<and> msgClass d \<noteq> SMS_CLASS_UNKNOWN"
  shows "\<exists>v. EncodeDCS d [] = Ok () [v] \<and>
    codingScheme (decode_dcs v d0) = codingScheme d \<and> codingGroup (decode_dcs v d0) = codingGroup d \<and>
    msgClass (decode_dcs v d0) = msgClass d \<and> bCompressed (decode_dcs v d0) = bCompressed d"
proof -
  have enc: "EncodeDCS d [] = Ok () [v]"
    if "v = (if codingGroup d = SMS_CLASS_GROUP then 0xF0 + class_value (msgClass d)
        else (if msgClass d = SMS_CLASS_UNKNOWN then 0 else 0x10 + class_value (msgClass d)) OR (if bCompressed d then 0x20 else 0))
      OR (if codingScheme d = DATA_CODING_UCS2 then 0x08 else 0x04)" for v
    using assms that
    by (auto simp: EncodeDCS_def EncodeDCS_group_def op_simps push_back_def pop_back_def front_def)
  show ?thesis
    by (rule exI, rule conjI, rule enc, rule refl)
      (use assms in \<open>cases "msgClass d"; cases "bCompressed d"; force simp: class_value_def
        decode_dcs_def Let_def dcs_decoders GetMsgCodingScheme_def GetMsgClass_def\<close>)
qed

theorem dcs_roundtrip_witness:
  "\<exists>v. EncodeDCS \<lparr>bCompressed = False, bMWI = False, bIndActive = False, msgClass = SMS_SIM_MESSAGE,
      codingScheme = DATA_CODING_UCS2, codingGroup = CODING_GENERAL_GROUP, indType = SMS_OTHER_INDICATOR\<rparr> [] = Ok () [v] \<and>
    msgClass (decode_dcs v \<lparr>bCompressed = True, bMWI = True, bIndActive = True, msgClass = SMS_CLASS_UNKNOWN,
      codingScheme = DATA_CODING_7BIT, codingGroup = CODING_UNKNOWN_GROUP, indType = SMS_OTHER_INDICATOR\<rparr>) = SMS_SIM_MESSAGE"
  using dcs_roundtrip [of "\<lparr>bCompressed = False, bMWI = False, bIndActive = False, msgClass = SMS_SIM_MESSAGE,
      codingScheme = DATA_CODING_UCS2, codingGroup = CODING_GENERAL_GROUP, indType = SMS_OTHER_INDICATOR\<rparr>"
    "\<lparr>bCompressed = True, bMWI = True, bIndActive = True, msgClass = SMS_CLASS_UNKNOWN,
      codingScheme = DATA_CODING_7BIT, codingGroup = CODING_UNKNOWN_GROUP, indType = SMS_OTHER_INDICATOR\<rparr>"]
  by auto

text \<open>
  For the 7-bit alphabet \<^verbatim>\<open>EncodeDCS\<close> returns an empty string whatever the message class: the octet it had
  built is removed and nothing is put in its place, so a class 0 (instant) message is sent without a class.
  The only exception is a compressed message without a class, where it calls \<^verbatim>\<open>pop_back\<close> on an empty string.
\<close>

theorem EncodeDCS_7bit_empty:
  assumes "codingScheme d = DATA_CODING_7BIT"
  shows "EncodeDCS d [] =
    (if codingGroup d = CODING_UNKNOWN_GROUP then Fail []
     else if codingGroup d = CODING_GENERAL_GROUP \<and> bCompressed d \<and> msgClass d = SMS_CLASS_UNKNOWN then Fault
     else Ok () [])"
  using assms
  by (cases "codingGroup d")
    (simp_all add: EncodeDCS_def EncodeDCS_group_def op_simps push_back_def pop_back_def front_def)

theorem EncodeDCS_7bit_empty_witness:
  "EncodeDCS \<lparr>bCompressed = False, bMWI = False, bIndActive = False, msgClass = SMS_INSTANT_MESSAGE,
      codingScheme = DATA_CODING_7BIT, codingGroup = CODING_GENERAL_GROUP, indType = SMS_OTHER_INDICATOR\<rparr> [] = Ok () []"
  using EncodeDCS_7bit_empty [of "\<lparr>bCompressed = False, bMWI = False, bIndActive = False, msgClass = SMS_INSTANT_MESSAGE,
      codingScheme = DATA_CODING_7BIT, codingGroup = CODING_GENERAL_GROUP, indType = SMS_OTHER_INDICATOR\<rparr>"] by simp

section \<open>Time stamps\<close>

text \<open>The octet of TS 23.040 for a time zone in quarters of an hour, with the sign in bit 3.\<close>

definition zone_octet :: "int \<Rightarrow> u8" where
  "zone_octet z = swapped_digits (word_of_int \<bar>z\<bar>) OR (if z < 0 then 0x08 else 0)"

lemma swapped_digits_nibbles:
  assumes "x < 100"
  shows "unat (swapped_digits x) = 16 * (unat x mod 10) + unat x div 10"
    "swapped_digits x AND 0x0F = x div 10" "drop_bit 4 (swapped_digits x AND 0xF0) = x mod 10"
proof -
  have x: "unat x < 100" using assms by (simp add: word_less_nat_alt)
  then have d: "unat x mod 10 < 10" "unat x div 10 < 10" by auto
  show u: "unat (swapped_digits x) = 16 * (unat x mod 10) + unat x div 10"
    using d by (simp add: swapped_digits_def unat_word_ariths unat_push_bit_u8 unat_div unat_mod)
  have m: "(0x0F :: u8) = mask 4" by (simp add: mask_eq_exp_minus_1)
  have "unat (swapped_digits x AND 0x0F) = unat (swapped_digits x) mod 16"
    unfolding m by (simp add: take_bit_eq_mask [symmetric] unsigned_take_bit_eq take_bit_eq_mod unat_mod)
  also have "\<dots> = unat x div 10" unfolding u using d by simp
  finally show "swapped_digits x AND 0x0F = x div 10" by (simp add: word_unat_eq_iff unat_div)
  have "unat (drop_bit 4 (swapped_digits x)) = unat x mod 10"
    unfolding unat_drop_bit_u8 u using d by simp
  then show "drop_bit 4 (swapped_digits x AND 0xF0) = x mod 10"
    unfolding nibble_hi by (simp add: word_unat_eq_iff unat_mod)
qed

lemma time_value_swapped: "x < 100 \<Longrightarrow> time_value (swapped_digits x) (swapped_digits x) = x"
proof -
  assume x: "x < 100"
  have "x div 10 * 10 + x mod 10 = x" by (metis word_mod_div_equality)
  then show ?thesis unfolding time_value_def swapped_digits_nibbles(2,3) [OF x] by simp
qed

lemma small_mask:
  assumes "q < 8"
  shows "q AND 0x07 = (q :: u8)" "q AND 0x08 = 0"
proof -
  have m: "(0x07 :: u8) = mask 3" "(0x08 :: u8) = 2 ^ 3" by (simp_all add: mask_eq_exp_minus_1)
  have t: "take_bit 3 q = q" using assms by (simp add: word_less_nat_alt word_unat_eq_iff unsigned_take_bit_eq take_bit_eq_mod unat_mod)
  then show "q AND 0x07 = q" unfolding m by (simp add: take_bit_eq_mask)
  have "\<not> bit q 3" by (metis t bit_take_bit_iff less_irrefl)
  then show "q AND 0x08 = 0" unfolding m(2) and_exp_eq_0_iff_not_bit .
qed

lemma zone_octet_fields:
  assumes "\<bar>z\<bar> < 80"
  shows "int (unat (zone_octet z AND 0x07)) * 10 + int (unat (drop_bit 4 (zone_octet z AND 0xF0))) = \<bar>z\<bar>"
    "zone_octet z AND 0x08 \<noteq> 0 \<longleftrightarrow> z < 0"
proof -
  define a :: u8 where "a = word_of_int \<bar>z\<bar>"
  have ua: "int (unat a) = \<bar>z\<bar>" using assms by (simp add: a_def unsigned_of_int take_bit_int_eq_self)
  then have "unat a < 80" using assms by linarith
  then have a: "a < 100" "a div 10 < 8" by (auto simp: word_less_nat_alt unat_div)
  note n = swapped_digits_nibbles(2,3) [OF a(1)]
  have low: "swapped_digits a AND k = (a div 10) AND k" if "0x0F AND k = k" for k :: u8
    using n(1) that by (metis and.assoc)
  have seven: "zone_octet z AND 0x07 = a div 10"
    using low [of "0x07"] small_mask(1) [OF a(2)]
    by (auto simp: zone_octet_def a_def [symmetric] bit.conj_disj_distrib2)
  have high: "zone_octet z AND 0xF0 = swapped_digits a AND 0xF0"
    by (simp add: zone_octet_def a_def [symmetric] bit.conj_disj_distrib2)
  have "zone_octet z AND 0x08 = (if z < 0 then 0x08 else 0)"
    using low [of "0x08"] small_mask(2) [OF a(2)]
    by (auto simp: zone_octet_def a_def [symmetric] bit.conj_disj_distrib2)
  then show "zone_octet z AND 0x08 \<noteq> 0 \<longleftrightarrow> z < 0" by simp
  have "unat (a div 10) * 10 + unat (a mod 10) = unat a" by (simp add: unat_div unat_mod)
  then show "int (unat (zone_octet z AND 0x07)) * 10 + int (unat (drop_bit 4 (zone_octet z AND 0xF0))) = \<bar>z\<bar>"
    unfolding seven high n(2) ua [symmetric] by linarith
qed

definition time_octets :: "SmsTimeAbs \<Rightarrow> bytes" where
  "time_octets a = map swapped_digits [ta_year a, ta_month a, ta_day a, ta_hour a, ta_minute a, ta_second a] @
     [zone_octet (ta_timeZone a)]"

definition time_ok :: "SmsTimeAbs \<Rightarrow> bool" where
  "time_ok a \<longleftrightarrow> (\<forall>x \<in> {ta_year a, ta_month a, ta_day a, ta_hour a, ta_minute a, ta_second a}. x < 100) \<and> \<bar>ta_timeZone a\<bar> < 80"

lemma decode_time_field_zb:
  "x < 100 \<Longrightarrow> decode_time_field put (zb p (swapped_digits x # xs), t) =
     Ok () (zb (swapped_digits x # p) xs, t\<lparr>ts_absolute := put x (ts_absolute t)\<rparr>)"
  by (simp add: decode_time_field_def op_simps zb_simps time_value_swapped)

lemma DecodeTimePdu_zb:
  assumes "time_ok a"
  shows "DecodeTimePdu (zb p (time_octets a @ rest), t) =
    Ok () (zb (rev (time_octets a) @ p) rest, t\<lparr>ts_format := SMS_TIME_ABSOLUTE, ts_absolute := a\<rparr>)"
proof -
  have z: "\<bar>ta_timeZone a\<bar> < 80" using assms by (simp add: time_ok_def)
  have "(if zone_octet (ta_timeZone a) AND 0x08 \<noteq> 0
      then - (int (unat (zone_octet (ta_timeZone a) AND 0x07)) * 10 + int (unat (drop_bit 4 (zone_octet (ta_timeZone a) AND 0xF0))))
      else int (unat (zone_octet (ta_timeZone a) AND 0x07)) * 10 + int (unat (drop_bit 4 (zone_octet (ta_timeZone a) AND 0xF0)))) =
      ta_timeZone a"
    unfolding zone_octet_fields [OF z] by simp
  moreover have "DecodeTimePduData (zb p (swapped_digits (ta_second a) # zone_octet (ta_timeZone a) # xs), t) =
      Ok () (zb (zone_octet (ta_timeZone a) # swapped_digits (ta_second a) # p) xs,
        t\<lparr>ts_absolute := (ts_absolute t)\<lparr>ta_second := ta_second a, ta_timeZone := ta_timeZone a\<rparr>\<rparr>)" for p xs t
    using assms zone_octet_fields [OF z]
    by (auto simp: DecodeTimePduData_def op_simps zb_simps decode_time_field_zb time_ok_def simp del: of_nat_add)
  ultimately show ?thesis using assms
    by (simp add: DecodeTimePdu_def DecodeTimePduPartData_def op_simps decode_time_field_zb time_octets_def time_ok_def)
qed

text \<open>
  Decoding a time stamp: the seven octets TS 23.040 prescribes for a date, a time and a zone of up to
  79 quarters of an hour in either direction give exactly that time stamp, in the absolute format, wherever
  they stand in the PDU, and exactly those octets are consumed.
\<close>

theorem time_stamp_decoded:
  assumes "time_ok a"
  shows "DecodeTimePdu (zb p (time_octets a @ rest), t) =
    Ok () (zb (rev (time_octets a) @ p) rest, t\<lparr>ts_format := SMS_TIME_ABSOLUTE, ts_absolute := a\<rparr>)"
  using assms by (rule DecodeTimePdu_zb)

theorem time_stamp_decoded_witness:
  "DecodeTimePdu (zb [1] (time_octets \<lparr>ta_year = 24, ta_month = 12, ta_day = 31, ta_hour = 23, ta_minute = 59, ta_second = 58, ta_timeZone = -32\<rparr> @ [9]),
      \<lparr>ts_format = SMS_TIME_EMPTY, ts_relative = 0, ts_absolute =
        \<lparr>ta_year = 0, ta_month = 0, ta_day = 0, ta_hour = 0, ta_minute = 0, ta_second = 0, ta_timeZone = 0\<rparr>\<rparr>) =
    Ok () (zb (rev (time_octets \<lparr>ta_year = 24, ta_month = 12, ta_day = 31, ta_hour = 23, ta_minute = 59, ta_second = 58, ta_timeZone = -32\<rparr>) @ [1]) [9],
      \<lparr>ts_format = SMS_TIME_EMPTY, ts_relative = 0, ts_absolute =
        \<lparr>ta_year = 0, ta_month = 0, ta_day = 0, ta_hour = 0, ta_minute = 0, ta_second = 0, ta_timeZone = 0\<rparr>\<rparr>
      \<lparr>ts_format := SMS_TIME_ABSOLUTE, ts_absolute := \<lparr>ta_year = 24, ta_month = 12, ta_day = 31, ta_hour = 23, ta_minute = 59, ta_second = 58, ta_timeZone = -32\<rparr>\<rparr>)"
  by (rule time_stamp_decoded) (simp add: time_ok_def)

text \<open>
  \<^verbatim>\<open>EncodeTimePdu\<close> does not write that layout: for a zone that is not negative it removes the octet of the
  seconds to make room for the zone, and it adds the octet of the year to the zone, so the result has six
  octets, and no octet depends on the seconds.
\<close>

theorem EncodeTimePdu_loses_seconds:
  assumes "ts_format t = SMS_TIME_ABSOLUTE" "0 \<le> ta_timeZone (ts_absolute t)"
  shows "\<exists>z. EncodeTimePdu t [] = Ok () (map swapped_digits [ta_year (ts_absolute t), ta_month (ts_absolute t),
      ta_day (ts_absolute t), ta_hour (ts_absolute t), ta_minute (ts_absolute t)] @ [z]) \<and>
    z = word_of_int (ta_timeZone (ts_absolute t) mod 10 * 16 + ta_timeZone (ts_absolute t) div 10) + swapped_digits (ta_year (ts_absolute t))"
proof -
  let ?z = "ta_timeZone (ts_absolute t)"
  have "tmod ?z 10 mod 256 = ?z mod 10" "tdiv ?z 10 = ?z div 10"
    using assms(2) by (simp_all add: tmod_def tdiv_def minus_mult_div_eq_mod)
  then show ?thesis using assms
    by (simp add: EncodeTimePdu_def Let_def op_simps push_back_def pop_back_def front_def)
qed

theorem EncodeTimePdu_loses_seconds_witness:
  "\<exists>z. EncodeTimePdu \<lparr>ts_format = SMS_TIME_ABSOLUTE, ts_relative = 0, ts_absolute =
      \<lparr>ta_year = 24, ta_month = 1, ta_day = 2, ta_hour = 3, ta_minute = 4, ta_second = 5, ta_timeZone = 32\<rparr>\<rparr> [] =
    Ok () (map swapped_digits [24, 1, 2, 3, 4] @ [z]) \<and> z = word_of_int (32 mod 10 * 16 + 32 div 10) + swapped_digits 24"
  using EncodeTimePdu_loses_seconds [of "\<lparr>ts_format = SMS_TIME_ABSOLUTE, ts_relative = 0, ts_absolute =
      \<lparr>ta_year = 24, ta_month = 1, ta_day = 2, ta_hour = 3, ta_minute = 4, ta_second = 5, ta_timeZone = 32\<rparr>\<rparr>"] by simp

section \<open>The address of the service centre\<close>

lemma bcd_loop_even:
  "\<forall>c \<in> set cs. bcd_char c \<Longrightarrow> even (length cs) \<Longrightarrow> length digit + length cs < m \<Longrightarrow>
   bcd_to_digit_loop (bcd_octets cs @ ys) digit m = bcd_to_digit_loop ys (digit @ cs) m"
proof (induction cs arbitrary: digit rule: bcd_octets.induct)
  case (3 c d cs)
  have d: "charToBcd d \<noteq> 0xF" using charToBcd_props(4) [of d] 3 by auto
  have "charToBcd d \<le> 15" using charToBcd_props(4) [of d] 3 by (simp add: word_le_nat_alt)
  with d show ?case
    using 3 bcd_nibbles [of "charToBcd c" "charToBcd d"] charToBcd_props(4) [of d] charToBcd_props(4) [of c]
    by (simp add: Let_def charToBcd_props)
qed simp_all

lemma bcd_loop_odd:
  "\<forall>c \<in> set cs. bcd_char c \<Longrightarrow> odd (length cs) \<Longrightarrow> length digit + length cs + 1 < m \<Longrightarrow>
   bcd_to_digit_loop (bcd_octets cs @ ys) digit m = (True, digit @ cs)"
proof (induction cs arbitrary: digit rule: bcd_octets.induct)
  case (2 c)
  then show ?case using bcd_nibbles [of "charToBcd c" "0xF"] by (simp add: Let_def charToBcd_props)
next
  case (3 c d cs)
  have d: "charToBcd d \<noteq> 0xF" using charToBcd_props(4) [of d] 3 by auto
  have "charToBcd d \<le> 15" using charToBcd_props(4) [of d] 3 by (simp add: word_le_nat_alt)
  with d show ?case
    using 3 bcd_nibbles [of "charToBcd c" "charToBcd d"] charToBcd_props(4) [of d] charToBcd_props(4) [of c]
    by (simp add: Let_def charToBcd_props)
qed simp_all

lemma EncodeSmscPdu_digits:
  assumes ds: "\<forall>c \<in> set ds. bcd_char c" "length ds \<le> 20" and k: "length ds div 2 + 4 \<le> k" "4 \<le> k"
  shows "EncodeSmscPdu \<lparr>ton = t, npi = n, address = ds @ replicate (22 - length ds) 0\<rparr> (replicate k 0) =
    Ok (2 + length (bcd_octets ds))
      ([word_of_nat (1 + length (bcd_octets ds)), 0x80 + push_bit 4 t + n] @ bcd_octets ds @ replicate (k - 2 - length (bcd_octets ds)) 0)"
proof -
  let ?a = "ds @ replicate (22 - length ds) 0" and ?l = "length (bcd_octets ds)"
  have z: "0 \<notin> set ds" "ds \<noteq> [] \<Longrightarrow> hd ds \<noteq> 0x2B" using ds(1) bcd_char_nonzero bcd_char_no_plus by fastforce+
  have take: "take 21 ?a = ds @ replicate (21 - length ds) 0" using ds(2) by (simp add: min_def)
  have new: "smsc_newNum \<lparr>ton = t, npi = n, address = ?a\<rparr> = Some (ds @ replicate (21 - length ds) 0)"
    using z take by (cases "ds = []") (simp_all add: smsc_newNum_def Let_def c_str_padded MAX_SMSC_LEN_def)
  have digits: "c_str (ds @ replicate (21 - length ds) 0) = ds" using z by (simp add: c_str_padded)
  have size: "(if length ds mod 2 = 0 then 2 + length ds div 2 else 2 + length ds div 2 + 1) = 2 + ?l"
    unfolding length_bcd_octets by presburger
  have l: "?l \<le> 10" "?l + 3 \<le> k" using ds(2) k unfolding length_bcd_octets by presburger+
  obtain k' where k': "k = Suc (Suc k')" using k(2) by (cases k; cases "k - 1") auto
  have bcd: "DigitToBcd ds (replicate k' 0) 0 = Some (?l, bcd_octets ds @ replicate (k' - ?l) 0)"
    using ds k k' by (intro DigitToBcd_octets) auto
  have r: "(bcd_octets ds @ replicate (k' - ?l) 0)[?l := 0] = bcd_octets ds @ replicate (k' - ?l) 0"
    by (cases "k' - ?l") (simp_all add: list_update_beyond)
  show ?thesis
    using new digits size l k' bcd r ds(2) z
    by (simp add: EncodeSmscPdu_def Let_def MAX_SMSC_LEN_def list_update_append)
qed

lemma DecodeSmscPdu_octets:
  assumes l: "length os \<le> 10" and "t < 8" "n < 16" and "bcd_to_digit_loop (os @ [x]) [] 21 = (ok, s)"
  shows "DecodeSmscPdu (word_of_nat (1 + length os) # (0x80 + push_bit 4 t + n) # os @ x # y # rest) a =
    Ok (2 + length os) (let s' = (if t = TYPE_INTERNATIONAL then regProcessSmsAddrs s else s)
      in set_address s' (a\<lparr>address := replicate 22 0, ton := t, npi := n\<rparr>))"
proof -
  have u: "unat (word_of_nat (1 + length os) :: u8) = 1 + length os" using l by (simp add: unat_of_nat del: of_nat_Suc of_nat_add)
  have npi: "(0x80 + push_bit 4 t + n) AND 0x0F = n"
  proof -
    have m: "(0x0F :: u8) = mask 4" by (simp add: mask_eq_exp_minus_1)
    have t: "unat t < 8" and n: "unat n < 16" using assms(2,3) by (simp_all add: word_less_nat_alt)
    then have "unat (0x80 + push_bit 4 t + n) = 128 + 16 * unat t + unat n"
      by (simp add: unat_word_ariths unat_push_bit_u8)
    then have "unat ((0x80 + push_bit 4 t + n) AND 0x0F) = (unat n + (8 + unat t) * 16) mod 16"
      unfolding m by (simp add: take_bit_eq_mask [symmetric] unsigned_take_bit_eq take_bit_eq_mod unat_mod algebra_simps)
    also have "\<dots> = unat n" using n by (simp only: mod_mult_self1 mod_less)
    finally show ?thesis by (simp add: word_unat_eq_iff)
  qed
  have bcd: "BcdToDigit (os @ [x]) [] 21 = (ok, s)" using assms(4) by (simp add: BcdToDigit_def)
  show ?thesis
    using u npi ton_npi_octet [OF assms(2,3)] bcd l
    by (simp add: DecodeSmscPdu_def Let_def op_simps SMS_MAX_ADDRESS_LEN_def del: of_nat_Suc of_nat_add)
qed

text \<open>
  Round trip of the address of a service centre with an odd number of digits: \<^verbatim>\<open>EncodeSmscPdu\<close> writes it
  with its length and type, and \<^verbatim>\<open>DecodeSmscPdu\<close>, on a PDU that starts with it, gives back type, numbering
  plan and digits (with the plus sign of an international number) and the offset at which the TPDU starts.
\<close>

theorem smsc_roundtrip_odd:
  assumes "\<forall>c \<in> set ds. bcd_char c" "odd (length ds)" "length ds \<le> 19" "t < 8" "n < 16" "2 \<le> length tpdu" "13 \<le> k"
  shows "\<exists>len arr. EncodeSmscPdu \<lparr>ton = t, npi = n, address = ds @ replicate (22 - length ds) 0\<rparr> (replicate k 0) = Ok len arr \<and>
    DecodeSmscPdu (take len arr @ tpdu) a =
      Ok len (set_address (if t = TYPE_INTERNATIONAL then regProcessSmsAddrs ds else ds)
        (a\<lparr>address := replicate 22 0, ton := t, npi := n\<rparr>))"
proof -
  obtain x y rest where tpdu: "tpdu = x # y # rest" using assms(6) by (auto simp: Suc_le_length_iff numeral_2_eq_2)
  have l: "length (bcd_octets ds) \<le> 10" using assms(3) by (simp add: length_bcd_octets)
  have "bcd_to_digit_loop (bcd_octets ds @ [x]) [] 21 = (True, ds)"
    using bcd_loop_odd [of ds "[]" 21 "[x]"] assms(1-3) by simp
  from DecodeSmscPdu_octets [OF l assms(4,5) this, of y rest a]
  show ?thesis
    using EncodeSmscPdu_digits [OF assms(1), of k t n] assms(3,7) by (simp add: tpdu Let_def)
qed

theorem smsc_roundtrip_odd_witness:
  "\<exists>len arr. EncodeSmscPdu \<lparr>ton = 0, npi = 1, address = [0x31, 0x32, 0x33] @ replicate (22 - length [0x31, 0x32, 0x33 :: u8]) 0\<rparr> (replicate 21 0) = Ok len arr \<and>
    DecodeSmscPdu (take len arr @ [0x04, 0x0B]) \<lparr>ton = 7, npi = 7, address = []\<rparr> =
      Ok len (set_address (if 0 = TYPE_INTERNATIONAL then regProcessSmsAddrs [0x31, 0x32, 0x33] else [0x31, 0x32, 0x33])
        (\<lparr>ton = 7, npi = 7, address = []\<rparr>\<lparr>address := replicate 22 0, ton := 0, npi := 1\<rparr>))"
  by (rule smsc_roundtrip_odd) (simp_all add: bcd_char_def)

text \<open>
  With an even number of digits the decoder goes on into the TPDU: it converts as many octets as the
  length octet says, but that length counts the octet of the type too, so the two half-octets of the first
  TPDU octet come out as two more digits of the address.
\<close>

theorem smsc_even_extra_digits:
  assumes "\<forall>c \<in> set ds. bcd_char c" "even (length ds)" "length ds \<le> 18" "t < 8" "t \<noteq> TYPE_INTERNATIONAL" "n < 16" "13 \<le> k"
    and "drop_bit 4 (x AND 0xF0) \<noteq> 0x0F"
  shows "\<exists>len arr. EncodeSmscPdu \<lparr>ton = t, npi = n, address = ds @ replicate (22 - length ds) 0\<rparr> (replicate k 0) = Ok len arr \<and>
    DecodeSmscPdu (take len arr @ x # y # rest) a =
      Ok len (a\<lparr>address := (ds @ [BcdToChar (x AND 0x0F), BcdToChar (drop_bit 4 (x AND 0xF0))]) @ replicate (20 - length ds) 0,
        ton := t, npi := n\<rparr>)"
proof -
  have l: "length (bcd_octets ds) \<le> 10" using assms(3) by (simp add: length_bcd_octets)
  let ?s = "ds @ [BcdToChar (x AND 0x0F), BcdToChar (drop_bit 4 (x AND 0xF0))]"
  have "bcd_to_digit_loop (bcd_octets ds @ [x]) [] 21 = bcd_to_digit_loop [x] ds 21"
    using bcd_loop_even [OF assms(1,2), of "[]" 21 "[x]"] assms(3) by (simp del: bcd_to_digit_loop.simps)
  also have "\<dots> = (True, ?s)" using assms(3,8) by (simp add: Let_def)
  finally have "bcd_to_digit_loop (bcd_octets ds @ [x]) [] 21 = (True, ?s)" .
  from DecodeSmscPdu_octets [OF l assms(4,6) this, of y rest a]
  show ?thesis
    using EncodeSmscPdu_digits [OF assms(1), of k t n] assms(3,5,7)
    by (simp add: set_address_def write_at_def MAX_ADDRESS_LEN_def)
qed

theorem smsc_even_extra_digits_witness:
  "\<exists>len arr. EncodeSmscPdu \<lparr>ton = 0, npi = 1, address = [0x31, 0x32] @ replicate (22 - length [0x31, 0x32 :: u8]) 0\<rparr> (replicate 21 0) = Ok len arr \<and>
    DecodeSmscPdu (take len arr @ 0x04 # 0x0B # [0x91]) \<lparr>ton = 7, npi = 7, address = []\<rparr> =
      Ok len (\<lparr>ton = 7, npi = 7, address = []\<rparr>\<lparr>address := ([0x31, 0x32] @ [BcdToChar (0x04 AND 0x0F), BcdToChar (drop_bit 4 (0x04 AND 0xF0))]) @
        replicate (20 - length [0x31, 0x32 :: u8]) 0, ton := 0, npi := 1\<rparr>)"
  by (rule smsc_even_extra_digits) (simp_all add: bcd_char_def)

end
