(* ===== verification/Gsm_Tpdu_Layout.thy ===== *)
theory Gsm_Tpdu_Layout
  imports Gsm_Tpdu Gsm_User_Data_Layout Gsm_Param_Layout
begin

text \<open>
  The PDUs as octets: the layout \<^verbatim>\<open>EncodeSubmitPdu\<close> writes, the round trip of a submitted message through
  \<^verbatim>\<open>EncodeSmsPdu\<close> and \<^verbatim>\<open>DecodeSmsPdu\<close>, and what the decoder makes of a delivered message laid out as
  TS 23.040 prescribes. The three alphabets enter through the locale \<open>user_data_wire\<close>, so that the
  message types are treated once for all of them.
\<close>

section \<open>The steps of the encoders on a buffer in byte mode\<close>

lemma or_top_zb [zb_simps]:
  "or_top c v (zb p (x # xs)) = Ok () (zb p ((if c then x OR v else x) # xs))"
  by (simp add: or_top_def op_simps zb_simps)

lemma insert_top_zb [zb_simps]: "insert_top v (zb p (x # xs)) = Ok () (zb p (v # xs))"
  by (simp add: insert_top_def op_simps zb_simps)

lemma step_one_zb [zb_simps]: "step_one (zb p (x # xs)) = Ok () (zb (x # p) xs)"
  by (simp add: step_one_def op_simps zb_simps)

lemma append_str_zb:
  assumes "0 < length s" "length s \<le> length xs"
  shows "append_str (length s) s (zb p xs) = Ok () (zb (rev s @ p) (drop (length s) xs))"
  using assms
  by (simp add: append_str_def op_simps IsEmpty_def CopyIn_zb memcpy_s_ok_def MoveForward_zb)

lemma append_address_zb:
  assumes "EncodeAddressPdu num [] = Ok () out" "out \<noteq> []" "length out \<le> 12" "12 \<le> length xs"
  shows "append_address num (zb p xs) = Ok () (zb (rev out @ p) (drop (length out) xs))"
  using assms append_str_zb [of out xs p] by (simp add: append_address_def op_simps to_u8_id)

lemma append_dcs_zb:
  assumes "EncodeDCS d [] = Ok () dcs" "xs \<noteq> []"
  shows "append_dcs d (zb p (x # xs)) = Ok () (zb (front dcs # p) xs)"
  using assms
  by (simp add: append_dcs_def op_simps IsEmpty_def CopyIn_zb memcpy_s_ok_def zb_simps Suc_le_eq)

section \<open>The first octet and the address\<close>

definition submit_octet :: "SmsSubmit \<Rightarrow> u8" where
  "submit_octet s = 0x01 OR (if sub_bRejectDup s then 0x04 else 0) OR
     (if sub_vpf s = SMS_VPF_ENHANCED then 0x08 else if sub_vpf s = SMS_VPF_RELATIVE then 0x10
      else if sub_vpf s = SMS_VPF_ABSOLUTE then 0x18 else 0) OR
     (if sub_bStatusReport s then 0x20 else 0) OR
     (if sub_bHeaderInd s \<and> CT_SMSC \<noteq> c_str (address (sub_destAddress s)) then 0x40 else 0) OR
     (if sub_bReplyPath s then 0x80 else 0)"

lemma EncodeSubmitTpduType_zb:
  "EncodeSubmitTpduType s (zb p (x # xs)) = Ok () (zb (submit_octet s # p) xs)"
  by (simp add: EncodeSubmitTpduType_def EncodeSubmitTypePartData_def EncodeSubmitTypeData_def op_simps zb_simps
      submit_octet_def or.assoc)

text \<open>
  A number that is not alphanumeric, as the struct holds it and as octets: up to 20 digits, or, if it is
  international, a plus sign and up to 19 decimal digits.
\<close>

definition number_ok :: "u8 \<Rightarrow> u8 \<Rightarrow> bytes \<Rightarrow> bool" where
  "number_ok t n ds \<longleftrightarrow> (\<forall>c \<in> set ds. bcd_char c) \<and> ds \<noteq> [] \<and> length ds \<le> 20 \<and> t < 8 \<and> n < 16 \<and>
     t \<noteq> TYPE_ALPHA_NUMERIC \<and>
     (t = TYPE_INTERNATIONAL \<longrightarrow> (\<forall>c \<in> set ds. 0x30 \<le> c \<and> c \<le> 0x39) \<and> length ds \<le> 19)"

definition number_chars :: "u8 \<Rightarrow> bytes \<Rightarrow> bytes" where
  "number_chars t ds = (if t = TYPE_INTERNATIONAL then 0x2B # ds else ds)"

definition mk_number :: "u8 \<Rightarrow> u8 \<Rightarrow> bytes \<Rightarrow> AddressNumber" where
  "mk_number t n ds = \<lparr>ton = t, npi = n, address = number_chars t ds @ replicate (22 - length (number_chars t ds)) 0\<rparr>"

definition number_octets :: "u8 \<Rightarrow> u8 \<Rightarrow> bytes \<Rightarrow> bytes" where
  "number_octets t n ds = [word_of_nat (length ds), 0x80 + push_bit 4 t + n] @ bcd_octets ds"

lemma number_octets_length:
  assumes "number_ok t n ds"
  shows "number_octets t n ds \<noteq> []" "length (number_octets t n ds) \<le> 12"
  using assms by (auto simp: number_octets_def number_ok_def length_bcd_octets)

lemma EncodeAddressPdu_number:
  "number_ok t n ds \<Longrightarrow> EncodeAddressPdu (mk_number t n ds) [] = Ok () (number_octets t n ds)"
  using EncodeAddressPdu_national [of ds t n] EncodeAddressPdu_international [of ds t n]
  by (auto simp: number_ok_def mk_number_def number_octets_def number_chars_def)

lemma c_str_number: "number_ok t n ds \<Longrightarrow> c_str (address (mk_number t n ds)) = number_chars t ds"
  unfolding mk_number_def by simp (rule c_str_padded, use bcd_char_nonzero in \<open>auto simp: number_ok_def number_chars_def\<close>)

lemma DecodeAddressPdu_number:
  assumes "number_ok t n ds" "length p + length (number_octets t n ds) + length rest \<le> 256"
  shows "DecodeAddressPdu ic w (zb p (number_octets t n ds @ rest), zero_address) =
    Ok () (zb (rev (number_octets t n ds) @ p) rest, mk_number t 0 ds)"
proof -
  have "(if t = TYPE_INTERNATIONAL then regProcessSmsAddrs ds else ds) = number_chars t ds" "length (number_chars t ds) \<le> 21"
    using assms(1) regProcessSmsAddrs_digits [of ds] by (auto simp: number_ok_def number_chars_def)
  then show ?thesis
    using DecodeAddressPdu_digits [of ds t n p rest ic w zero_address] assms
      set_address_fresh [of "number_chars t ds" t zero_address]
    by (simp add: number_ok_def number_octets_def mk_number_def zero_address_def)
qed

section \<open>The user data of a PDU\<close>

text \<open>
  What the message types rely on: for an alphabet, \<open>wire\<close> is what the user data encoder writes for the
  headers and the text it accepts (\<open>ok\<close>), and the decoder gives both back and stays within the PDU. \<open>dcs_ok\<close>
  are the coding schemes whose octet tells the decoder this alphabet and everything else in the struct.
\<close>

locale user_data_wire =
  fixes scheme :: DataCodingScheme
    and ok :: "SmsUDH list \<Rightarrow> bytes \<Rightarrow> bool"
    and wire :: "SmsUDH list \<Rightarrow> bytes \<Rightarrow> bytes"
    and dcs_ok :: "SmsDcs \<Rightarrow> bool"
    and ic :: iconv and wsize :: nat
  assumes wire_length: "ok hs us \<Longrightarrow> wire hs us \<noteq> [] \<and> length (wire hs us) \<le> 141"
    and enc: "ok hs us \<Longrightarrow> length p \<le> 112 \<Longrightarrow> length p + m = 256 \<Longrightarrow> CT_SMSC \<noteq> addr \<Longrightarrow>
      EncodeUserDataPdu (mk_ud hs us) scheme addr (zb p (replicate m 0)) =
        Ok () (zb (rev (wire hs us) @ p) (replicate (m - length (wire hs us)) 0))"
    and dec: "ok hs us \<Longrightarrow> length p + length (wire hs us) + length rest \<le> 256 \<Longrightarrow>
      \<exists>q ys. DecodeUserDataPdu ic wsize (hs \<noteq> []) scheme (zb p (wire hs us @ rest), u, None) =
        Ok () (zb q ys, mk_ud hs us, None) \<and> rev q @ ys = rev p @ wire hs us @ rest"
    and dcs_scheme: "dcs_ok d \<Longrightarrow> codingScheme d = scheme"
    and dcs_octet: "dcs_ok d \<Longrightarrow> \<exists>s. EncodeDCS d [] = Ok () s \<and> decode_dcs (front s) zero_dcs = d"

context user_data_wire
begin

lemma EncodeSubmitPdu_zb:
  assumes number: "sub_destAddress s = mk_number t n ds" "number_ok t n ds" "number_chars t ds \<noteq> CT_SMSC"
    and ud: "sub_userData s = mk_ud hs us" "ok hs us"
    and dcs: "codingScheme (sub_dcs s) = scheme" "EncodeDCS (sub_dcs s) [] = Ok () v"
    and vp: "if sub_vpf s = SMS_VPF_NOT_PRESENT then vps = []
      else EncodeTimePdu (sub_validityPeriod s) [] = Ok () vps \<and> vps \<noteq> [] \<and> length vps \<le> 7"
    and out: "out = [submit_octet s, sub_msgRef s] @ number_octets t n ds @ [sub_pid s, front v] @ vps @ wire hs us"
  shows "EncodeSubmitPdu s SmsWriteBuffer = Ok () (zb (rev out) (replicate (256 - length out) 0))"
proof -
  let ?a = "number_octets t n ds"
  have a: "?a \<noteq> []" "length ?a \<le> 12" using number(2) by (rule number_octets_length)+
  have w: "length (wire hs us) \<le> 141" using wire_length [OF ud(2)] by simp
  let ?p = "rev ?a @ [sub_msgRef s, submit_octet s]"
  have buf: "SmsWriteBuffer = zb [] (0 # 0 # replicate 254 0)"
    unfolding SmsWriteBuffer_zb by (simp add: numeral_eq_Suc)
  have head: "EncodeSubmitPdu s SmsWriteBuffer =
      seq (WriteByte (sub_pid s)) (EncodeSubmitPduPartData s) (zb ?p (replicate (254 - length ?a) 0))"
    unfolding buf using a append_address_zb [OF EncodeAddressPdu_number [OF number(2)] a]
    by (simp add: EncodeSubmitPdu_def seq_def bnd_def ignore_def EncodeSubmitTpduType_zb zb_simps number(1))
  let ?z = "replicate (252 - length ?a) (0 :: u8)"
  have z: "replicate (254 - length ?a) 0 = (0 :: u8) # 0 # ?z" "?z \<noteq> []" "length ?z = 252 - length ?a"
    using a by (simp_all add: Suc_diff_le flip: replicate_Suc)
  have dcs': "append_dcs (sub_dcs s) (zb (sub_pid s # ?p) (0 # ?z)) = Ok () (zb (front v # sub_pid s # ?p) ?z)"
    by (rule append_dcs_zb [OF dcs(2) z(2)])
  have vps: "length vps \<le> 7" "sub_vpf s \<noteq> 0 \<longrightarrow> 0 < length vps" using vp by (auto split: if_splits)
  have vp': "(if sub_vpf s \<noteq> SMS_VPF_NOT_PRESENT then
        bnd (with_new [] (ignore (EncodeTimePdu (sub_validityPeriod s)))) (\<lambda>(_, vpTime).
        let position = to_u8 (length vpTime) in if position > 0 then append_str position vpTime else ret ())
      else ret ()) (zb (front v # sub_pid s # ?p) ?z) =
      Ok () (zb (rev vps @ front v # sub_pid s # ?p) (replicate (252 - length ?a - length vps) 0))"
    using vp vps a append_str_zb [of vps ?z "front v # sub_pid s # ?p"] by (auto simp: op_simps to_u8_id Let_def)
  have ud': "EncodeUserDataPdu (mk_ud hs us) scheme (number_chars t ds)
      (zb (rev vps @ front v # sub_pid s # ?p) (replicate (252 - length ?a - length vps) 0)) =
      Ok () (zb (rev out) (replicate (256 - length out) 0))"
    using enc [OF ud(2), of "rev vps @ front v # sub_pid s # ?p" "252 - length ?a - length vps" "number_chars t ds"] number(3) a vps w
    by (simp add: out)
  have pid: "WriteByte (sub_pid s) (zb ?p (0 # 0 # ?z)) = Ok () (zb (sub_pid s # ?p) (0 # ?z))" by (rule WriteByte_zb)
  show ?thesis
    unfolding head z(1)
    by (rule seq_Ok [THEN trans], rule pid, unfold EncodeSubmitPduPartData_def,
        rule seq_Ok [THEN trans], rule dcs', rule seq_Ok [THEN trans], rule vp')
      (use ud' in \<open>simp add: ud(1) dcs(1) number(1) c_str_number [OF number(2)]\<close>)
qed

lemma DecodeSubmit_zb:
  assumes number: "number_ok t n ds" and ud: "ok hs us"
    and dcs: "dcs_ok d" "decode_dcs v zero_dcs = d"
    and fo: "fo AND 0x40 \<noteq> 0 \<longleftrightarrow> hs \<noteq> []"
    and out: "out = [fo, mr] @ number_octets t n ds @ [pid, v] @ wire hs us"
  shows "\<exists>q ys. DecodeSubmit ic wsize (zb [] out, zero_submit) =
    Ok () (zb q ys, \<lparr>sub_bRejectDup = \<not> (fo AND 0x04 \<noteq> 0), sub_bStatusReport = (fo AND 0x20 \<noteq> 0),
      sub_bHeaderInd = (hs \<noteq> []), sub_bReplyPath = (fo AND 0x80 \<noteq> 0), sub_msgRef = mr, sub_vpf = fo AND 0x18,
      sub_destAddress = mk_number t 0 ds, sub_pid = pid, sub_dcs = d, sub_validityPeriod = zero_time,
      sub_userData = mk_ud hs us\<rparr>) \<and> rev q @ ys = out"
proof -
  let ?a = "number_octets t n ds" and ?w = "wire hs us"
  have len: "length ?a \<le> 12" "length ?w \<le> 141"
    using number_octets_length [OF number] wire_length [OF ud] by simp_all
  have adr: "DecodeAddressPdu ic wsize (zb [mr, fo] (?a @ pid # v # ?w), zero_address) =
      Ok () (zb (rev ?a @ [mr, fo]) (pid # v # ?w), mk_number t 0 ds)"
    using len by (intro DecodeAddressPdu_number number) simp
  obtain q ys where q: "DecodeUserDataPdu ic wsize (hs \<noteq> []) scheme (zb (v # pid # rev ?a @ [mr, fo]) ?w, zero_ud, None) =
      Ok () (zb q ys, mk_ud hs us, None)" "rev q @ ys = rev (v # pid # rev ?a @ [mr, fo]) @ ?w"
    using dec [OF ud, of "v # pid # rev ?a @ [mr, fo]" "[]" zero_ud] len by auto
  show ?thesis
    by (rule exI [of _ q], rule exI [of _ ys])
      (use q fo dcs dcs_scheme [OF dcs(1)] in \<open>simp add: DecodeSubmit_def DecodeSubmitPartData_def DecodeDcsPdu_def
        op_simps zb_simps zero_submit_def out adr\<close>)
qed

lemma submit_roundtrip:
  assumes number: "number_ok t n ds" "number_chars t ds \<noteq> CT_SMSC" and ud: "ok hs us" and dcs: "dcs_ok d"
    and s: "s = \<lparr>sub_bRejectDup = rd, sub_bStatusReport = sr, sub_bHeaderInd = (hs \<noteq> []), sub_bReplyPath = rp,
      sub_msgRef = mr, sub_vpf = SMS_VPF_NOT_PRESENT, sub_destAddress = mk_number t n ds, sub_pid = pid, sub_dcs = d,
      sub_validityPeriod = vp, sub_userData = mk_ud hs us\<rparr>"
    and arr: "length arr = 255"
  shows "\<exists>out arr'. EncodeSmsPdu (SMS_TPDU_SUBMIT s) 255 (arr, k) = Ok () (arr', length out) \<and> take (length out) arr' = out \<and>
    DecodeSmsPdu ic wsize out = Ok () (Some (SMS_TPDU_SUBMIT
      (s\<lparr>sub_bRejectDup := \<not> rd, sub_destAddress := mk_number t 0 ds, sub_validityPeriod := zero_time\<rparr>)))"
proof -
  let ?a = "number_octets t n ds" and ?w = "wire hs us" and ?fo = "submit_octet s"
  obtain v where v: "EncodeDCS d [] = Ok () v" "decode_dcs (front v) zero_dcs = d" using dcs_octet [OF dcs] by blast
  define out where "out = [?fo, mr] @ ?a @ [pid, front v] @ ?w"
  have a: "?a \<noteq> []" "length ?a \<le> 12" using number(1) by (rule number_octets_length)+
  have w: "?w \<noteq> []" "length ?w \<le> 141" using wire_length [OF ud] by simp_all
  have len: "2 \<le> length out" "length out \<le> 157" "out \<noteq> []" "hd out = ?fo" using a w by (simp_all add: out_def)
  have enc: "EncodeSubmitPdu s SmsWriteBuffer = Ok () (zb (rev out) (replicate (256 - length out) 0))"
    by (rule EncodeSubmitPdu_zb [where vps = "[]" and v = v])
      (use number ud v s dcs_scheme [OF dcs] in \<open>simp_all add: out_def\<close>)
  have e: "EncodeSmsPdu (SMS_TPDU_SUBMIT s) 255 (arr, k) = Ok () (write_at 0 out arr, length out)"
    using enc len arr GetPduBuffer_zb [of "rev out" "replicate (256 - length out) 0"]
    by (simp add: EncodeSmsPdu_def encode_tpdu_def op_simps MAX_ENCODE_LEN_def Let_def)
  have fo: "?fo AND 0x03 = 1" "?fo AND 0x40 \<noteq> 0 \<longleftrightarrow> hs \<noteq> []" "?fo AND 0x04 \<noteq> 0 \<longleftrightarrow> rd" "?fo AND 0x20 \<noteq> 0 \<longleftrightarrow> sr"
    "?fo AND 0x80 \<noteq> 0 \<longleftrightarrow> rp" "?fo AND 0x18 = 0"
    using number by (auto simp: submit_octet_def s c_str_number)
  have "\<exists>q ys. DecodeSubmit ic wsize (zb [] out, zero_submit) =
      Ok () (zb q ys, s\<lparr>sub_bRejectDup := \<not> rd, sub_destAddress := mk_number t 0 ds, sub_validityPeriod := zero_time\<rparr>) \<and>
      rev q @ ys = out"
    using DecodeSubmit_zb [OF number(1) ud dcs v(2) fo(2) out_def] unfolding fo by (simp add: s)
  then obtain q ys where d: "DecodeSubmit ic wsize (zb [] out, zero_submit) =
      Ok () (zb q ys, s\<lparr>sub_bRejectDup := \<not> rd, sub_destAddress := mk_number t 0 ds, sub_validityPeriod := zero_time\<rparr>)"
    "rev q @ ys = out" by blast
  have "length q \<le> length out" using d(2) by (metis length_append length_rev le_add1)
  then have "DecodeSmsPdu ic wsize out = Ok () (Some (SMS_TPDU_SUBMIT
      (s\<lparr>sub_bRejectDup := \<not> rd, sub_destAddress := mk_number t 0 ds, sub_validityPeriod := zero_time\<rparr>)))"
    using len fo(1) d(1) by (simp add: DecodeSmsPdu_def run_decoder_def Let_def MAX_DECODE_LEN_def SmsReadBuffer_zb)
  moreover have "take (length out) (write_at 0 out arr) = out" using len arr by (simp add: write_at_def)
  ultimately show ?thesis using e by blast
qed

end

text \<open>A delivered message also hands out its raw user data, for WAP push.\<close>

locale delivered_data = user_data_wire +
  assumes dec_tpud: "ok hs us \<Longrightarrow> length p + length (wire hs us) + length rest \<le> 256 \<Longrightarrow>
      \<exists>q ys t'. DecodeUserDataPdu ic wsize (hs \<noteq> []) scheme (zb p (wire hs us @ rest), u, Some t) =
        Ok () (zb q ys, mk_ud hs us, Some t') \<and> rev q @ ys = rev p @ wire hs us @ rest"
    and dcs_not_korean: "dcs_ok (decode_dcs v zero_dcs) \<Longrightarrow> v \<noteq> 0x84"

context delivered_data
begin

lemma DecodeDeliver_zb:
  assumes number: "number_ok t n ds" and ud: "ok hs us" and time: "time_ok a"
    and dcs: "dcs_ok (decode_dcs v zero_dcs)"
    and fo: "fo AND 0x40 \<noteq> 0 \<longleftrightarrow> hs \<noteq> []"
    and out: "out = fo # number_octets t n ds @ [pid, v] @ time_octets a @ wire hs us"
  shows "\<exists>q ys tpud. DecodeDeliver ic wsize (zb [] out, zero_deliver) =
    Ok () (zb q ys, \<lparr>del_bMoreMsg = \<not> (fo AND 0x04 \<noteq> 0), del_bStatusReport = (fo AND 0x20 \<noteq> 0),
      del_bHeaderInd = (hs \<noteq> []), del_bReplyPath = (fo AND 0x80 \<noteq> 0), del_originAddress = mk_number t 0 ds,
      del_pid = pid, del_dcs = decode_dcs v zero_dcs,
      del_timeStamp = \<lparr>ts_format = SMS_TIME_ABSOLUTE, ts_relative = 0, ts_absolute = a\<rparr>,
      del_userData = mk_ud hs us, del_udData = tpud\<rparr>) \<and> rev q @ ys = out"
proof -
  let ?a = "number_octets t n ds" and ?w = "wire hs us" and ?t = "time_octets a"
  let ?p = "rev ?a @ [fo]" and ?d = "decode_dcs v zero_dcs"
  have len: "length ?a \<le> 12" "length ?w \<le> 141" "length ?t = 7"
    using number_octets_length [OF number] wire_length [OF ud] by (simp_all add: time_octets_def)
  have adr: "DecodeAddressPdu ic wsize (zb [fo] (?a @ pid # v # ?t @ ?w), zero_address) =
      Ok () (zb ?p (pid # v # ?t @ ?w), mk_number t 0 ds)"
    using len by (intro DecodeAddressPdu_number number) simp
  have not_alpha: "t \<noteq> TYPE_ALPHA_NUMERIC" using number by (simp add: number_ok_def)
  have octet: "PickOneByteFromIndex (u16_pred (length (v # pid # ?p))) (zb (v # pid # ?p) (?t @ ?w)) =
      Ok v (zb (v # pid # ?p) (?t @ ?w))"
    using len PickOneByteFromIndex_zb [of "pid # ?p" v] by (simp add: u16_pred_Suc)
  obtain q ys tpud where q: "DecodeUserDataPdu ic wsize (hs \<noteq> []) scheme (zb (rev ?t @ v # pid # ?p) ?w, zero_ud, Some zero_tpud) =
      Ok () (zb q ys, mk_ud hs us, Some tpud)" "rev q @ ys = rev (rev ?t @ v # pid # ?p) @ ?w"
    using dec_tpud [OF ud, of "rev ?t @ v # pid # ?p" "[]" zero_ud zero_tpud] len by auto
  show ?thesis
    by (rule exI [of _ q], rule exI [of _ ys], rule exI [of _ tpud])
      (use q fo dcs_scheme [OF dcs] dcs_not_korean [OF dcs] not_alpha octet in \<open>simp add: DecodeDeliver_def DecodePartData_def DecodeDeliverPartData_def DecodeDcsPdu_def
        op_simps zb_simps zero_deliver_def out adr DecodeTimePdu_zb [OF time] mk_number_def zero_time_def\<close>)
qed

lemma deliver_decoded:
  assumes number: "number_ok t n ds" and ud: "ok hs us" and time: "time_ok a"
    and dcs: "dcs_ok (decode_dcs v zero_dcs)"
    and fo: "fo AND 0x03 = 0" "fo AND 0x40 \<noteq> 0 \<longleftrightarrow> hs \<noteq> []"
    and out: "out = fo # number_octets t n ds @ [pid, v] @ time_octets a @ wire hs us"
  shows "\<exists>tpud. DecodeSmsPdu ic wsize out = Ok () (Some (SMS_TPDU_DELIVER
    \<lparr>del_bMoreMsg = \<not> (fo AND 0x04 \<noteq> 0), del_bStatusReport = (fo AND 0x20 \<noteq> 0),
      del_bHeaderInd = (hs \<noteq> []), del_bReplyPath = (fo AND 0x80 \<noteq> 0), del_originAddress = mk_number t 0 ds,
      del_pid = pid, del_dcs = decode_dcs v zero_dcs,
      del_timeStamp = \<lparr>ts_format = SMS_TIME_ABSOLUTE, ts_relative = 0, ts_absolute = a\<rparr>,
      del_userData = mk_ud hs us, del_udData = tpud\<rparr>))"
proof -
  have len: "2 \<le> length out" "length out \<le> 163" "out \<noteq> []" "hd out = fo"
    using number_octets_length [OF number] wire_length [OF ud] by (simp_all add: out time_octets_def)
  obtain q ys tpud where d: "DecodeDeliver ic wsize (zb [] out, zero_deliver) =
    Ok () (zb q ys, \<lparr>del_bMoreMsg = \<not> (fo AND 0x04 \<noteq> 0), del_bStatusReport = (fo AND 0x20 \<noteq> 0),
      del_bHeaderInd = (hs \<noteq> []), del_bReplyPath = (fo AND 0x80 \<noteq> 0), del_originAddress = mk_number t 0 ds,
      del_pid = pid, del_dcs = decode_dcs v zero_dcs,
      del_timeStamp = \<lparr>ts_format = SMS_TIME_ABSOLUTE, ts_relative = 0, ts_absolute = a\<rparr>,
      del_userData = mk_ud hs us, del_udData = tpud\<rparr>)" "rev q @ ys = out"
    using DecodeDeliver_zb [OF number ud time dcs fo(2) out] by blast
  have "length q \<le> length out" using d(2) by (metis length_append length_rev le_add1)
  then show ?thesis
    using len fo(1) d(1) by (simp add: DecodeSmsPdu_def run_decoder_def Let_def MAX_DECODE_LEN_def SmsReadBuffer_zb)
qed

end

definition gsm_ok :: "SmsUDH list \<Rightarrow> bytes \<Rightarrow> bool" where
  "gsm_ok hs us \<longleftrightarrow> headers_ok hs \<and> (\<forall>c \<in> set us. c < 128) \<and> gsm_udl hs us \<le> 160"

definition ucs2_ok :: "SmsUDH list \<Rightarrow> bytes \<Rightarrow> bool" where
  "ucs2_ok hs us \<longleftrightarrow> headers_ok hs \<and> octet_udl hs us \<le> 140"

definition octets_ok :: "SmsUDH list \<Rightarrow> bytes \<Rightarrow> bool" where
  "octets_ok hs us \<longleftrightarrow> hs = [] \<and> length us \<le> 140"

text \<open>The coding schemes without compression and message waiting that survive the trip.\<close>

definition plain_dcs :: "DataCodingScheme \<Rightarrow> SmsDcs \<Rightarrow> bool" where
  "plain_dcs scheme d \<longleftrightarrow> codingScheme d = scheme \<and> \<not> bCompressed d \<and> \<not> bMWI d \<and> \<not> bIndActive d \<and>
     indType d = SMS_OTHER_INDICATOR \<and>
     (if scheme = DATA_CODING_7BIT then codingGroup d = CODING_GENERAL_GROUP \<and> msgClass d = SMS_CLASS_UNKNOWN
      else codingGroup d = CODING_GENERAL_GROUP \<or> codingGroup d = SMS_CLASS_GROUP \<and> msgClass d \<noteq> SMS_CLASS_UNKNOWN)"

lemma plain_dcs_octet:
  assumes "plain_dcs scheme d" "scheme \<in> {DATA_CODING_7BIT, DATA_CODING_8BIT, DATA_CODING_UCS2}"
  shows "\<exists>s. EncodeDCS d [] = Ok () s \<and> decode_dcs (front s) zero_dcs = d"
proof -
  have "case EncodeDCS d [] of Ok _ s \<Rightarrow> decode_dcs (front s) zero_dcs = d | _ \<Rightarrow> False"
    using assms
    by (cases d; cases "msgClass d"; cases "codingGroup d")
      (auto simp: plain_dcs_def EncodeDCS_def EncodeDCS_group_def op_simps push_back_def pop_back_def front_def
        class_value_def decode_dcs_def Let_def dcs_decoders GetMsgCodingScheme_def GetMsgClass_def zero_dcs_def split: if_splits)
  then show ?thesis by (cases "EncodeDCS d []") simp_all
qed

lemma plain_dcs_not_korean: "plain_dcs scheme (decode_dcs v zero_dcs) \<Longrightarrow> v \<noteq> 0x84"
  by (auto simp: plain_dcs_def decode_dcs_def Let_def dcs_decoders split: if_splits)

interpretation gsm7: delivered_data DATA_CODING_7BIT gsm_ok gsm_octets "plain_dcs DATA_CODING_7BIT" ic wsize for ic wsize
proof
  fix hs us p m addr rest u
  assume ok: "gsm_ok hs us"
  have n: "length us \<le> 160" using ok by (simp add: gsm_ok_def gsm_udl_def split: if_splits)
  have len: "length (gsm_octets hs us) \<le> 141" using ok gsm_octets_length by (simp add: gsm_ok_def)
  show "gsm_octets hs us \<noteq> [] \<and> length (gsm_octets hs us) \<le> 141"
    using len by (simp add: gsm_octets_def Let_def)
  show "EncodeUserDataPdu (mk_ud hs us) DATA_CODING_7BIT addr (zb p (replicate m 0)) =
      Ok () (zb (rev (gsm_octets hs us) @ p) (replicate (m - length (gsm_octets hs us)) 0))"
    if "length p \<le> 112" "length p + m = 256"
    using EncodeGsmPdu_zb [of hs us p m] ok n len that by (simp add: EncodeUserDataPdu_def gsm_ok_def)
  show "\<exists>q ys. DecodeUserDataPdu ic wsize (hs \<noteq> []) DATA_CODING_7BIT (zb p (gsm_octets hs us @ rest), u, None) =
      Ok () (zb q ys, mk_ud hs us, None) \<and> rev q @ ys = rev p @ gsm_octets hs us @ rest"
    if "length p + length (gsm_octets hs us) + length rest \<le> 256" for ic wsize
    using DecodeGsmPdu_zb [of hs us p rest ic wsize None] ok that
    by (auto simp: DecodeUserDataPdu_def op_simps on_ud_def gsm_ok_def)
  show "\<exists>q ys t'. DecodeUserDataPdu ic wsize (hs \<noteq> []) DATA_CODING_7BIT (zb p (gsm_octets hs us @ rest), u, Some t) =
      Ok () (zb q ys, mk_ud hs us, Some t') \<and> rev q @ ys = rev p @ gsm_octets hs us @ rest"
    if "length p + length (gsm_octets hs us) + length rest \<le> 256" for ic wsize t
    using DecodeGsmPdu_zb [of hs us p rest ic wsize "Some t"] ok that
    by (fastforce simp: DecodeUserDataPdu_def op_simps on_ud_def gsm_ok_def)
qed (simp_all add: plain_dcs_octet plain_dcs_not_korean, simp add: plain_dcs_def)

interpretation ucs2: delivered_data DATA_CODING_UCS2 ucs2_ok octet_wire "plain_dcs DATA_CODING_UCS2" ic wsize for ic wsize
proof
  fix hs us p m addr rest u
  assume ok: "ucs2_ok hs us"
  have len: "length (octet_wire hs us) = 1 + octet_udl hs us"
    using octet_head_length [of hs us] by (simp add: octet_wire_def)
  show "octet_wire hs us \<noteq> [] \<and> length (octet_wire hs us) \<le> 141"
    using ok len by (auto simp: ucs2_ok_def octet_wire_def octet_head_def)
  show "EncodeUserDataPdu (mk_ud hs us) DATA_CODING_UCS2 addr (zb p (replicate m 0)) =
      Ok () (zb (rev (octet_wire hs us) @ p) (replicate (m - length (octet_wire hs us)) 0))"
    if "length p \<le> 112" "length p + m = 256"
    using EncodeUcs2Pdu_zb [of hs us p m] ok that by (simp add: EncodeUserDataPdu_def ucs2_ok_def)
  show "\<exists>q ys. DecodeUserDataPdu ic wsize (hs \<noteq> []) DATA_CODING_UCS2 (zb p (octet_wire hs us @ rest), u, None) =
      Ok () (zb q ys, mk_ud hs us, None) \<and> rev q @ ys = rev p @ octet_wire hs us @ rest"
    if "length p + length (octet_wire hs us) + length rest \<le> 256" for ic wsize
    using DecodeUcs2Pdu_zb [of hs us p rest ic wsize None] ok that len
    by (fastforce simp: DecodeUserDataPdu_def op_simps on_ud_def ucs2_ok_def)
  show "\<exists>q ys t'. DecodeUserDataPdu ic wsize (hs \<noteq> []) DATA_CODING_UCS2 (zb p (octet_wire hs us @ rest), u, Some t) =
      Ok () (zb q ys, mk_ud hs us, Some t') \<and> rev q @ ys = rev p @ octet_wire hs us @ rest"
    if "length p + length (octet_wire hs us) + length rest \<le> 256" for ic wsize t
    using DecodeUcs2Pdu_zb [of hs us p rest ic wsize "Some t"] ok that len
    by (fastforce simp: DecodeUserDataPdu_def op_simps on_ud_def ucs2_ok_def)
qed (simp_all add: plain_dcs_octet plain_dcs_not_korean, simp add: plain_dcs_def)

interpretation octets: user_data_wire DATA_CODING_8BIT octets_ok octet_wire "plain_dcs DATA_CODING_8BIT" ic wsize for ic wsize
proof
  fix hs us p m addr rest u
  assume ok: "octets_ok hs us"
  then have e: "hs = []" "length us \<le> 140" "octet_udl hs us \<le> 140" "headers_ok hs"
    by (simp_all add: octets_ok_def octet_udl_def headers_ok_def)
  show "octet_wire hs us \<noteq> [] \<and> length (octet_wire hs us) \<le> 141"
    using e by (simp add: octet_wire_def octet_head_def)
  show "EncodeUserDataPdu (mk_ud hs us) DATA_CODING_8BIT addr (zb p (replicate m 0)) =
      Ok () (zb (rev (octet_wire hs us) @ p) (replicate (m - length (octet_wire hs us)) 0))"
    if "length p \<le> 112" "length p + m = 256" "CT_SMSC \<noteq> addr"
    using Encode8bitPdu_zb [of hs us p m addr] e that by (simp add: EncodeUserDataPdu_def)
  show "\<exists>q ys. DecodeUserDataPdu ic wsize (hs \<noteq> []) DATA_CODING_8BIT (zb p (octet_wire hs us @ rest), u, None) =
      Ok () (zb q ys, mk_ud hs us, None) \<and> rev q @ ys = rev p @ octet_wire hs us @ rest"
    if "length p + length (octet_wire hs us) + length rest \<le> 256" for ic wsize
    using Decode8bitPdu_plain [of us p rest ic wsize] e that
    by (intro exI [of _ "rev (octet_wire hs us) @ p"] exI [of _ rest]) (simp add: DecodeUserDataPdu_def op_simps on_ud_def)
qed (simp_all add: plain_dcs_octet plain_dcs_not_korean, simp add: plain_dcs_def)

section \<open>Messages\<close>

text \<open>The user data that the alphabet can carry, and its octets.\<close>

definition ud_ok :: "DataCodingScheme \<Rightarrow> SmsUDH list \<Rightarrow> bytes \<Rightarrow> bool" where
  "ud_ok scheme hs us = (case scheme of
     DATA_CODING_7BIT \<Rightarrow> gsm_ok hs us | DATA_CODING_8BIT \<Rightarrow> octets_ok hs us | DATA_CODING_UCS2 \<Rightarrow> ucs2_ok hs us | _ \<Rightarrow> False)"

definition ud_octets :: "DataCodingScheme \<Rightarrow> SmsUDH list \<Rightarrow> bytes \<Rightarrow> bytes" where
  "ud_octets scheme hs us = (if scheme = DATA_CODING_7BIT then gsm_octets hs us else octet_wire hs us)"

lemma submit_roundtrips:
  assumes "number_ok t n ds" "number_chars t ds \<noteq> CT_SMSC" "ud_ok scheme hs us" "plain_dcs scheme d" "length arr = 255"
    and "s = \<lparr>sub_bRejectDup = rd, sub_bStatusReport = sr, sub_bHeaderInd = (hs \<noteq> []), sub_bReplyPath = rp,
      sub_msgRef = mr, sub_vpf = SMS_VPF_NOT_PRESENT, sub_destAddress = mk_number t n ds, sub_pid = pid, sub_dcs = d,
      sub_validityPeriod = vp, sub_userData = mk_ud hs us\<rparr>"
  shows "\<exists>out arr'. EncodeSmsPdu (SMS_TPDU_SUBMIT s) 255 (arr, k) = Ok () (arr', length out) \<and> take (length out) arr' = out \<and>
    DecodeSmsPdu ic wsize out = Ok () (Some (SMS_TPDU_SUBMIT
      (s\<lparr>sub_bRejectDup := \<not> rd, sub_destAddress := mk_number t 0 ds, sub_validityPeriod := zero_time\<rparr>)))"
  using gsm7.submit_roundtrip [OF assms(1,2) _ _ assms(6,5)] ucs2.submit_roundtrip [OF assms(1,2) _ _ assms(6,5)]
    octets.submit_roundtrip [OF assms(1,2) _ _ assms(6,5)] assms(3,4)
  by (cases scheme) (simp_all add: ud_ok_def)

text \<open>
  C21. Round trip of a submitted message with a numeric destination and without a validity period. Its text is 7-bit or UCS-2 with
  any sequence of up to seven concatenation, port and shift headers, or 8-bit without headers; its coding scheme is neither compressed nor
  a message waiting indication, a 7-bit one has no message class. Then \<^verbatim>\<open>EncodeSmsPdu\<close> succeeds, and \<^verbatim>\<open>DecodeSmsPdu\<close> of the
  octets it reports restores the message: flags, reference, destination, protocol identifier, coding scheme, headers and text. Two
  fields do not survive: the reject-duplicates flag comes back inverted, and the numbering plan is lost. (8-bit data with
  headers is excluded because it loses its first octet.)
\<close>

theorem tpdu_submit_roundtrip:
  assumes "number_ok t n ds" "number_chars t ds \<noteq> CT_SMSC" "ud_ok scheme hs us" "plain_dcs scheme d" "length arr = 255"
    and "s = \<lparr>sub_bRejectDup = rd, sub_bStatusReport = sr, sub_bHeaderInd = (hs \<noteq> []), sub_bReplyPath = rp,
      sub_msgRef = mr, sub_vpf = SMS_VPF_NOT_PRESENT, sub_destAddress = mk_number t n ds, sub_pid = pid, sub_dcs = d,
      sub_validityPeriod = vp, sub_userData = mk_ud hs us\<rparr>"
  shows "\<exists>out arr'. EncodeSmsPdu (SMS_TPDU_SUBMIT s) 255 (arr, k) = Ok () (arr', length out) \<and> take (length out) arr' = out \<and>
    DecodeSmsPdu ic wsize out = Ok () (Some (SMS_TPDU_SUBMIT
      (s\<lparr>sub_bRejectDup := \<not> rd, sub_destAddress := mk_number t 0 ds, sub_validityPeriod := zero_time\<rparr>)))"
  using assms by (rule submit_roundtrips)

theorem tpdu_submit_roundtrip_witness:
  "\<exists>out arr'. EncodeSmsPdu (SMS_TPDU_SUBMIT
      \<lparr>sub_bRejectDup = False, sub_bStatusReport = True, sub_bHeaderInd = ([\<lparr>udhType = 0, udh = UdhConcat8bit \<lparr>c8_msgRef = 9, c8_totalSeg = 2, c8_seqNum = 1\<rparr>\<rparr>] \<noteq> []),
      sub_bReplyPath = False, sub_msgRef = 7, sub_vpf = SMS_VPF_NOT_PRESENT, sub_destAddress = mk_number 1 1 [0x38, 0x36],
      sub_pid = 0, sub_dcs = \<lparr>bCompressed = False, bMWI = False, bIndActive = False, msgClass = SMS_SIM_MESSAGE,
        codingScheme = DATA_CODING_UCS2, codingGroup = CODING_GENERAL_GROUP, indType = SMS_OTHER_INDICATOR\<rparr>,
      sub_validityPeriod = zero_time, sub_userData = mk_ud [\<lparr>udhType = 0, udh = UdhConcat8bit \<lparr>c8_msgRef = 9, c8_totalSeg = 2, c8_seqNum = 1\<rparr>\<rparr>] [0x4F, 0x60]\<rparr>) 255
      (replicate 255 0, 0) = Ok () (arr', length out) \<and> take (length out) arr' = out \<and>
    DecodeSmsPdu (\<lambda>_ _. Some (\<lambda>src n. (True, take n src))) 8 out = Ok () (Some (SMS_TPDU_SUBMIT
      \<lparr>sub_bRejectDup = True, sub_bStatusReport = True, sub_bHeaderInd = ([\<lparr>udhType = 0, udh = UdhConcat8bit \<lparr>c8_msgRef = 9, c8_totalSeg = 2, c8_seqNum = 1\<rparr>\<rparr>] \<noteq> []),
      sub_bReplyPath = False, sub_msgRef = 7, sub_vpf = SMS_VPF_NOT_PRESENT, sub_destAddress = mk_number 1 0 [0x38, 0x36],
      sub_pid = 0, sub_dcs = \<lparr>bCompressed = False, bMWI = False, bIndActive = False, msgClass = SMS_SIM_MESSAGE,
        codingScheme = DATA_CODING_UCS2, codingGroup = CODING_GENERAL_GROUP, indType = SMS_OTHER_INDICATOR\<rparr>,
      sub_validityPeriod = zero_time, sub_userData = mk_ud [\<lparr>udhType = 0, udh = UdhConcat8bit \<lparr>c8_msgRef = 9, c8_totalSeg = 2, c8_seqNum = 1\<rparr>\<rparr>] [0x4F, 0x60]\<rparr>))"
  using tpdu_submit_roundtrip [of 1 1 "[0x38, 0x36]" DATA_CODING_UCS2 "[\<lparr>udhType = 0, udh = UdhConcat8bit \<lparr>c8_msgRef = 9, c8_totalSeg = 2, c8_seqNum = 1\<rparr>\<rparr>]"
      "[0x4F, 0x60]" "\<lparr>bCompressed = False, bMWI = False, bIndActive = False, msgClass = SMS_SIM_MESSAGE,
        codingScheme = DATA_CODING_UCS2, codingGroup = CODING_GENERAL_GROUP, indType = SMS_OTHER_INDICATOR\<rparr>" "replicate 255 0" _ False True False 7 0 zero_time 0 "(\<lambda>_ _. Some (\<lambda>src n. (True, take n src)))" 8, OF _ _ _ _ _ refl]
  by (simp add: number_ok_def number_chars_def bcd_char_def CT_SMSC_def ud_ok_def ucs2_ok_def headers_ok_def
      MAX_UD_HEADER_NUM_def plain_header_def octet_udl_def header_octets_def plain_dcs_def)

text \<open>
  C22. A delivered 7-bit or UCS-2 text is understood: the octets TS 23.040 prescribes for an SMS-DELIVER with a numeric
  originator, any protocol identifier, a coding scheme of the general group, or for UCS-2 of the class group, without compression (a
  7-bit text without message class), a time stamp and up to seven concatenation, port and shift headers are decoded to
  that message, the numbering plan of the originator apart. Not covered are 8-bit data (which behind headers loses its
  first octet), alphanumeric originators and the other coding groups.
\<close>

theorem tpdu_deliver_decoded:
  assumes "number_ok t n ds" "ud_ok scheme hs us" "scheme \<noteq> DATA_CODING_8BIT" "time_ok a"
    and "plain_dcs scheme (decode_dcs v zero_dcs)" "fo AND 0x03 = 0" "fo AND 0x40 \<noteq> 0 \<longleftrightarrow> hs \<noteq> []"
  shows "\<exists>tpud. DecodeSmsPdu ic wsize (fo # number_octets t n ds @ [pid, v] @ time_octets a @ ud_octets scheme hs us) =
    Ok () (Some (SMS_TPDU_DELIVER
    \<lparr>del_bMoreMsg = \<not> (fo AND 0x04 \<noteq> 0), del_bStatusReport = (fo AND 0x20 \<noteq> 0),
      del_bHeaderInd = (hs \<noteq> []), del_bReplyPath = (fo AND 0x80 \<noteq> 0), del_originAddress = mk_number t 0 ds,
      del_pid = pid, del_dcs = decode_dcs v zero_dcs,
      del_timeStamp = \<lparr>ts_format = SMS_TIME_ABSOLUTE, ts_relative = 0, ts_absolute = a\<rparr>,
      del_userData = mk_ud hs us, del_udData = tpud\<rparr>))"
  using gsm7.deliver_decoded [OF assms(1) _ assms(4) _ assms(6,7)] ucs2.deliver_decoded [OF assms(1) _ assms(4) _ assms(6,7)]
    assms(2,3,5)
  by (cases scheme) (simp_all add: ud_ok_def ud_octets_def)

theorem tpdu_deliver_decoded_witness:
  "\<exists>tpud. DecodeSmsPdu (\<lambda>_ _. Some (\<lambda>src n. (True, take n src))) 8 (0x04 # number_octets 1 1 [0x38, 0x36] @ [0, 0] @
      time_octets \<lparr>ta_year = 24, ta_month = 12, ta_day = 31, ta_hour = 23, ta_minute = 59, ta_second = 58, ta_timeZone = 32\<rparr> @
      ud_octets DATA_CODING_7BIT [] [0x68, 0x69]) =
    Ok () (Some (SMS_TPDU_DELIVER
    \<lparr>del_bMoreMsg = \<not> ((0x04 :: u8) AND 0x04 \<noteq> 0), del_bStatusReport = ((0x04 :: u8) AND 0x20 \<noteq> 0),
      del_bHeaderInd = ([] \<noteq> ([] :: SmsUDH list)), del_bReplyPath = ((0x04 :: u8) AND 0x80 \<noteq> 0),
      del_originAddress = mk_number 1 0 [0x38, 0x36], del_pid = 0, del_dcs = decode_dcs 0 zero_dcs,
      del_timeStamp = \<lparr>ts_format = SMS_TIME_ABSOLUTE, ts_relative = 0, ts_absolute =
        \<lparr>ta_year = 24, ta_month = 12, ta_day = 31, ta_hour = 23, ta_minute = 59, ta_second = 58, ta_timeZone = 32\<rparr>\<rparr>,
      del_userData = mk_ud [] [0x68, 0x69], del_udData = tpud\<rparr>))"
  by (rule tpdu_deliver_decoded)
    (simp_all add: number_ok_def bcd_char_def ud_ok_def gsm_ok_def headers_ok_def gsm_udl_def time_ok_def plain_dcs_def
      decode_dcs_def dcs_decoders GetMsgCodingScheme_def Let_def)

text \<open>
  C25. A delivery report of the network is understood: the octets of an SMS-STATUS-REPORT that ends after its
  status are decoded to the message reference, the recipient, both time stamps and the status.
\<close>

theorem tpdu_status_report_decoded:
  assumes "number_ok t n ds" "time_ok a" "time_ok b" "fo AND 0x03 = 2"
  shows "DecodeSmsPdu ic wsize ([fo, mr] @ number_octets t n ds @ time_octets a @ time_octets b @ [st]) =
    Ok () (Some (SMS_TPDU_STATUS_REP (zero_status_report
    \<lparr>sr_bMoreMsg := \<not> (fo AND 0x04 \<noteq> 0), sr_bStatusReport := fo AND 0x20 \<noteq> 0, sr_bHeaderInd := fo AND 0x40 \<noteq> 0,
      sr_msgRef := mr, sr_recipAddress := mk_number t 0 ds,
      sr_timeStamp := \<lparr>ts_format = SMS_TIME_ABSOLUTE, ts_relative = 0, ts_absolute = a\<rparr>,
      sr_dischargeTime := \<lparr>ts_format = SMS_TIME_ABSOLUTE, ts_relative = 0, ts_absolute = b\<rparr>, sr_status := st\<rparr>)))"
proof -
  let ?a = "number_octets t n ds" and ?t = "time_octets a @ time_octets b @ [st]"
  let ?out = "[fo, mr] @ ?a @ ?t"
  have len: "length ?a \<le> 12" "length (time_octets x) = 7" for x
    using number_octets_length [OF assms(1)] by (simp_all add: time_octets_def)
  have mti: "fo AND 3 \<noteq> 0" "fo AND 3 \<noteq> 3" "fo AND 3 \<noteq> 1" unfolding assms(4) by simp_all
  have buf: "SmsReadBuffer ?out = zb [] (fo # mr # ?a @ ?t)"
    using len by (subst SmsReadBuffer_zb) simp_all
  have adr: "DecodeAddressPdu ic wsize (zb [mr, fo] (?a @ ?t), zero_address) = Ok () (zb (rev ?a @ [mr, fo]) ?t, mk_number t 0 ds)"
    using len by (intro DecodeAddressPdu_number assms(1)) simp
  show ?thesis
    using len mti adr DecodeTimePdu_zb [OF assms(2)] DecodeTimePdu_zb [OF assms(3)] buf
    by (simp add: DecodeSmsPdu_def run_decoder_def Let_def MAX_DECODE_LEN_def DecodeStatusReport_def DecodeStatusReportPartData_def
        op_simps zb_simps zero_status_report_def zero_time_def)
qed

theorem tpdu_status_report_decoded_witness:
  "DecodeSmsPdu (\<lambda>_ _. Some (\<lambda>src n. (True, take n src))) 8 ([0x06, 7] @ number_octets 0 1 [0x31, 0x30] @
      time_octets \<lparr>ta_year = 24, ta_month = 1, ta_day = 2, ta_hour = 3, ta_minute = 4, ta_second = 5, ta_timeZone = 32\<rparr> @
      time_octets \<lparr>ta_year = 24, ta_month = 1, ta_day = 2, ta_hour = 3, ta_minute = 4, ta_second = 9, ta_timeZone = 32\<rparr> @ [0x46]) =
    Ok () (Some (SMS_TPDU_STATUS_REP (zero_status_report
    \<lparr>sr_bMoreMsg := \<not> ((0x06 :: u8) AND 0x04 \<noteq> 0), sr_bStatusReport := (0x06 :: u8) AND 0x20 \<noteq> 0,
      sr_bHeaderInd := (0x06 :: u8) AND 0x40 \<noteq> 0, sr_msgRef := 7, sr_recipAddress := mk_number 0 0 [0x31, 0x30],
      sr_timeStamp := \<lparr>ts_format = SMS_TIME_ABSOLUTE, ts_relative = 0, ts_absolute =
        \<lparr>ta_year = 24, ta_month = 1, ta_day = 2, ta_hour = 3, ta_minute = 4, ta_second = 5, ta_timeZone = 32\<rparr>\<rparr>,
      sr_dischargeTime := \<lparr>ts_format = SMS_TIME_ABSOLUTE, ts_relative = 0, ts_absolute =
        \<lparr>ta_year = 24, ta_month = 1, ta_day = 2, ta_hour = 3, ta_minute = 4, ta_second = 9, ta_timeZone = 32\<rparr>\<rparr>,
      sr_status := 0x46\<rparr>)))"
  by (rule tpdu_status_report_decoded) (simp_all add: number_ok_def bcd_char_def time_ok_def)

section \<open>Where the encoders depart from the layout\<close>

text \<open>
  A relative validity period, which TS 23.040 makes one octet, takes two: between the coding scheme and the
  user data stand the period and a zero octet, so a receiver takes the zero for the length of the user data.
\<close>

theorem submit_relative_period:
  assumes "sub_destAddress s = mk_number t n ds" "number_ok t n ds" "number_chars t ds \<noteq> CT_SMSC"
    and "sub_userData s = mk_ud hs us" "gsm_ok hs us" "plain_dcs DATA_CODING_7BIT (sub_dcs s)"
    and "sub_vpf s = SMS_VPF_RELATIVE" "ts_format (sub_validityPeriod s) = SMS_TIME_RELATIVE"
    and "out = [submit_octet s, sub_msgRef s] @ number_octets t n ds @ [sub_pid s, 0] @
      [ts_relative (sub_validityPeriod s), 0] @ gsm_octets hs us"
  shows "EncodeSubmitPdu s SmsWriteBuffer = Ok () (zb (rev out) (replicate (256 - length out) 0))"
proof -
  have "EncodeDCS (sub_dcs s) [] = Ok () []" "codingScheme (sub_dcs s) = DATA_CODING_7BIT"
    using assms(6) by (simp_all add: plain_dcs_def EncodeDCS_def EncodeDCS_group_def op_simps front_def)
  then show ?thesis
    using assms
    by (intro gsm7.EncodeSubmitPdu_zb [OF assms(1-5), where v = "[]" and vps = "[ts_relative (sub_validityPeriod s), 0]"])
      (simp_all add: EncodeTimePdu_def Let_def op_simps front_def)
qed

theorem submit_relative_period_witness:
  "EncodeSubmitPdu
      \<lparr>sub_bRejectDup = False, sub_bStatusReport = False, sub_bHeaderInd = False, sub_bReplyPath = False, sub_msgRef = 7,
       sub_vpf = SMS_VPF_RELATIVE, sub_destAddress = mk_number 0 1 [0x38, 0x36], sub_pid = 0,
       sub_dcs = \<lparr>bCompressed = False, bMWI = False, bIndActive = False, msgClass = SMS_CLASS_UNKNOWN,
         codingScheme = DATA_CODING_7BIT, codingGroup = CODING_GENERAL_GROUP, indType = SMS_OTHER_INDICATOR\<rparr>,
       sub_validityPeriod = zero_time\<lparr>ts_format := SMS_TIME_RELATIVE, ts_relative := 167\<rparr>,
       sub_userData = mk_ud [] [0x68, 0x69]\<rparr> SmsWriteBuffer =
    Ok () (zb (rev ([0x11, 7, 2, 0x81, 0x68, 0, 0] @ [167, 0] @ gsm_octets [] [0x68, 0x69]))
      (replicate (256 - length ([0x11, 7, 2, 0x81, 0x68, 0, 0] @ [167, 0] @ gsm_octets [] [0x68, 0x69])) 0))"
  by (rule submit_relative_period [where t = 0 and n = 1 and ds = "[0x38, 0x36]" and hs = "[]" and us = "[0x68, 0x69]"])
    (simp_all add: number_ok_def number_chars_def bcd_char_def CT_SMSC_def gsm_ok_def headers_ok_def gsm_udl_def
      plain_dcs_def number_octets_def submit_octet_def charToBcd_def)

text \<open>
  Without the reply path flag the first octet of an encoded SMS-DELIVER is lost: the cursor stays on it and
  the address is written over it. The more-messages, status-report and header flags have no influence on the
  PDU, and its first octet is the length of the address.
\<close>

theorem EncodeDeliverPdu_flags_lost:
  assumes "\<not> del_bReplyPath d" "del_originAddress d = mk_number t n ds" "number_ok t n ds"
  shows "EncodeDeliverPdu (d\<lparr>del_bMoreMsg := m, del_bStatusReport := r, del_bHeaderInd := h\<rparr>) SmsWriteBuffer =
      EncodeDeliverPdu d SmsWriteBuffer \<and>
    EncodeDeliverPdu d SmsWriteBuffer = seq (WriteByte (del_pid d)) (EncodeDeliverData d)
      (zb (rev (number_octets t n ds)) (replicate (256 - length (number_octets t n ds)) 0))"
proof -
  let ?a = "number_octets t n ds"
  have a: "?a \<noteq> []" "length ?a \<le> 12" using assms(3) by (rule number_octets_length)+
  have buf: "SmsWriteBuffer = zb [] (0 # replicate 255 0)" unfolding SmsWriteBuffer_zb by (simp add: numeral_eq_Suc)
  have d: "drop (length ?a) (x # replicate 255 0) = replicate (256 - length ?a) 0" for x :: u8
    using a by (cases "length ?a") simp_all
  have "EncodeDeliverPdu e SmsWriteBuffer = seq (WriteByte (del_pid e)) (EncodeDeliverData e)
      (zb (rev ?a) (replicate (256 - length ?a) 0))"
    if "\<not> del_bReplyPath e" "del_originAddress e = mk_number t n ds" for e
    unfolding buf EncodeDeliverPdu_def EncodeDeliverPartData_def
    using that append_address_zb [OF EncodeAddressPdu_number [OF assms(3)] a] d
    by (simp add: seq_def bnd_def ret_def zb_simps)
  from this [of d] this [of "d\<lparr>del_bMoreMsg := m, del_bStatusReport := r, del_bHeaderInd := h\<rparr>"] assms(1,2)
  show ?thesis by (simp add: EncodeDeliverData_def)
qed

theorem EncodeDeliverPdu_flags_lost_witness:
  "EncodeDeliverPdu (zero_deliver\<lparr>del_originAddress := mk_number 0 1 [0x38, 0x36]\<rparr>
       \<lparr>del_bMoreMsg := True, del_bStatusReport := True, del_bHeaderInd := True\<rparr>) SmsWriteBuffer =
     EncodeDeliverPdu (zero_deliver\<lparr>del_originAddress := mk_number 0 1 [0x38, 0x36]\<rparr>) SmsWriteBuffer"
  using EncodeDeliverPdu_flags_lost [of "zero_deliver\<lparr>del_originAddress := mk_number 0 1 [0x38, 0x36]\<rparr>" 0 1 "[0x38, 0x36]" True True True]
  by (simp add: zero_deliver_def number_ok_def bcd_char_def)

lemma append_str_cut_zb:
  assumes "0 < len" "len \<le> length s + 1" "len \<le> length xs"
  shows "append_str len s (zb p xs) = Ok () (zb (rev (take len (s @ [0])) @ p) (drop len xs))"
proof -
  define r where "r = take len (s @ [0])"
  have "length r = len" using assms(2) by (simp add: r_def)
  with assms show ?thesis
    unfolding append_str_def r_def [symmetric]
    by (auto simp: op_simps IsEmpty_def CopyIn_zb memcpy_s_ok_def MoveForward_zb)
qed

lemma EncodeTimePdu_absolute_length:
  "ts_format t = SMS_TIME_ABSOLUTE \<Longrightarrow> \<exists>x. EncodeTimePdu t [] = Ok () x \<and> length x \<in> {6, 7}"
  by (simp add: EncodeTimePdu_def Let_def op_simps push_back_def pop_back_def)

lemma EncodeDCS_short:
  assumes "plain_dcs scheme d" "scheme \<in> {DATA_CODING_7BIT, DATA_CODING_8BIT, DATA_CODING_UCS2}"
  shows "\<exists>s. EncodeDCS d [] = Ok () s \<and> length s \<le> 1"
  using assms
  by (auto simp: plain_dcs_def EncodeDCS_def EncodeDCS_group_def op_simps push_back_def pop_back_def split: if_splits)

lemma EncodeStatusReportData_over_read:
  assumes "sr_paramInd r AND 0x02 \<noteq> 0" "EncodeDCS (sr_dcs r) [] = Ok () dcs" "length dcs + 1 < len" "len + 3 \<le> length xs"
  shows "EncodeStatusReportData r len (zb p xs) = Fault"
proof -
  obtain x y z ys where "xs = x # y # z # ys" "len \<le> length ys"
    using assms(4) by (cases xs; cases "tl xs"; cases "tl (tl xs)") auto
  then show ?thesis using assms(1-3)
    by (simp add: EncodeStatusReportData_def append_str_def op_simps zb_simps IsEmpty_def)
qed

text \<open>
  C32. Encoding an SMS-STATUS-REPORT whose parameter indicator announces a coding scheme copies the octet of the
  coding scheme with the length of the time stamp before it: six or seven octets are read from a string that
  holds at most one and its terminator.
\<close>

theorem EncodeStatusReport_over_read:
  assumes "sr_recipAddress r = mk_number t n ds" "number_ok t n ds" "sr_paramInd r AND 0x02 \<noteq> 0"
    and "ts_format (sr_timeStamp r) = SMS_TIME_ABSOLUTE" "ts_format (sr_dischargeTime r) = SMS_TIME_ABSOLUTE"
    and "plain_dcs scheme (sr_dcs r)" "scheme \<in> {DATA_CODING_7BIT, DATA_CODING_8BIT, DATA_CODING_UCS2}"
  shows "EncodeStatusReportPdu r SmsWriteBuffer = Fault"
proof -
  let ?a = "number_octets t n ds"
  have a: "?a \<noteq> []" "length ?a \<le> 12" using assms(2) by (rule number_octets_length)+
  obtain dcs where dcs: "EncodeDCS (sr_dcs r) [] = Ok () dcs" "length dcs \<le> 1" using EncodeDCS_short [OF assms(6,7)] by blast
  obtain x where x: "EncodeTimePdu (sr_timeStamp r) [] = Ok () x" "length x \<in> {6, 7}"
    using EncodeTimePdu_absolute_length [OF assms(4)] by blast
  obtain y where y: "EncodeTimePdu (sr_dischargeTime r) [] = Ok () y" "length y \<in> {6, 7}"
    using EncodeTimePdu_absolute_length [OF assms(5)] by blast
  have part: "EncodeStatusReportPartData r (zb p xs) = Fault" if "253 \<le> length xs" for p xs
  proof -
    have len: "to_u8 (length x) = length x" "0 < length x" "length x \<le> length x + 1" "length x \<le> length y + 1" "2 < length x"
      using x(2) y(2) by (auto simp: to_u8_id)
    define q zs where "q = rev ?a @ p" and "zs = drop (length ?a) xs"
    then have q: "append_address (sr_recipAddress r) (zb p xs) = Ok () (zb q zs)" "241 \<le> length zs"
      using append_address_zb [OF EncodeAddressPdu_number [OF assms(2)] a, of xs p] a that assms(1) by auto
    have "append_str (length x) x (zb q zs) = Ok () (zb (rev x @ q) (drop (length x) zs))"
      "append_str (length x) y (zb q' (drop (length x) zs)) =
        Ok () (zb (rev (take (length x) (y @ [0])) @ q') (drop (length x + length x) zs))" for q'
      using append_str_cut_zb [of "length x" x zs q] append_str_cut_zb [of "length x" y "drop (length x) zs" q'] len q(2) x(2)
      by auto
    moreover have "EncodeStatusReportData r (length x) (zb q' (drop (length x + length x) zs)) = Fault" for q'
      using len q(2) x(2) dcs by (intro EncodeStatusReportData_over_read [OF assms(3)]) auto
    ultimately show ?thesis
      using q(1) x(1) y(1) len(1) by (simp add: EncodeStatusReportPartData_def op_simps Let_def)
  qed
  have buf: "SmsWriteBuffer = zb [] (0 # 0 # replicate 254 0)" unfolding SmsWriteBuffer_zb by (simp add: numeral_eq_Suc)
  show ?thesis
    unfolding buf EncodeStatusReportPdu_def by (simp add: op_simps zb_simps part)
qed

theorem EncodeStatusReport_over_read_witness:
  "EncodeStatusReportPdu (zero_status_report\<lparr>sr_recipAddress := mk_number 0 1 [0x38, 0x36], sr_paramInd := 2,
      sr_timeStamp := zero_time\<lparr>ts_format := SMS_TIME_ABSOLUTE\<rparr>, sr_dischargeTime := zero_time\<lparr>ts_format := SMS_TIME_ABSOLUTE\<rparr>,
      sr_dcs := \<lparr>bCompressed = False, bMWI = False, bIndActive = False, msgClass = SMS_CLASS_UNKNOWN,
        codingScheme = DATA_CODING_UCS2, codingGroup = CODING_GENERAL_GROUP, indType = SMS_OTHER_INDICATOR\<rparr>\<rparr>) SmsWriteBuffer = Fault"
  by (rule EncodeStatusReport_over_read [where scheme = DATA_CODING_UCS2 and t = 0 and n = 1 and ds = "[0x38, 0x36]"])
    (simp_all add: number_ok_def bcd_char_def plain_dcs_def)

end
