(* ===== verification/Gsm_Sms_Message.thy ===== *)
theory Gsm_Sms_Message
  imports Gsm_Decoded_Data String_Utils Gsm_Tpdu_Layout
begin

text \<open>
  \<^verbatim>\<open>services/sms/gsm/gsm_sms_message.cpp\<close>: the GSM message, built from a text to be submitted or from a PDU that
  arrived, on top of the TPDU codec. The \<^verbatim>\<open>SmsTpdu\<close> a \<^verbatim>\<open>Create\<close> function returns is the object the message points to: a
  caller that writes to it writes to the message, so the state is the message alone. \<^verbatim>\<open>memset_s\<close> and \<^verbatim>\<open>memcpy_s\<close> with sizes that
  fit do not fail, and neither does \<^verbatim>\<open>make_shared\<close>.
\<close>

section \<open>Time stamps\<close>

text \<open>
  \<^verbatim>\<open>SmsCommonUtils::ConvertTime\<close> of \<^verbatim>\<open>utils/sms_common_utils.cpp\<close>. \<open>mktime\<close> is the one of the C library for standard
  time (\<^verbatim>\<open>tm_isdst\<close> is 0) in a zone \<open>timezone\<close> seconds west of UTC; fields out of range are carried over.
  \<^verbatim>\<open>GetDisplayTime\<close> has no effect.
\<close>

definition days_before_year :: "int \<Rightarrow> int" where
  "days_before_year y = 365 * y + (y + 3) div 4 - (y + 99) div 100 + (y + 399) div 400"

definition leap_year :: "int \<Rightarrow> bool" where
  "leap_year y \<longleftrightarrow> y mod 4 = 0 \<and> (y mod 100 \<noteq> 0 \<or> y mod 400 = 0)"

definition days_before_month :: "int \<Rightarrow> int \<Rightarrow> int" where
  "days_before_month y m =
     [0, 31, 59, 90, 120, 151, 181, 212, 243, 273, 304, 334] ! nat m + (if 2 \<le> m \<and> leap_year y then 1 else 0)"

definition mktime :: "int \<Rightarrow> int \<Rightarrow> int \<Rightarrow> int \<Rightarrow> int \<Rightarrow> int \<Rightarrow> int \<Rightarrow> int" where
  "mktime timezone year mon mday hour minute sec =
     (let y = 1900 + year + mon div 12; m = mon mod 12;
          days = days_before_year y - days_before_year 1970 + days_before_month y m + (mday - 1)
      in days * 86400 + hour * 3600 + minute * 60 + sec + timezone)"

definition ConvertTime :: "int \<Rightarrow> SmsTimeAbs \<Rightarrow> int" where
  "ConvertTime timezone t =
     (let rawtime = mktime timezone (uint (ta_year t) + 100) (uint (ta_month t) - 1) (uint (ta_day t))
            (uint (ta_hour t)) (uint (ta_minute t)) (uint (ta_second t));
          rawtime = rawtime - ta_timeZone t * (3600 div 4)
      in rawtime - timezone)"

section \<open>Regular expressions\<close>

text \<open>
  The ECMAScript expressions of \<^verbatim>\<open>std::regex\<close> that the code uses: \<open>run\<close> lists the ways to match a prefix, in the
  order in which backtracking finds them, with what is left and what the marked group matched. A repetition stops
  at an iteration that consumes nothing.
\<close>

datatype re = Eps | Cls "u8 \<Rightarrow> bool" | Cat re re | Alt re re | Star re | Mark re

type_synonym re_state = "bytes \<times> bytes option"

fun star :: "(re_state \<Rightarrow> re_state list) \<Rightarrow> nat \<Rightarrow> re_state \<Rightarrow> re_state list" where
  "star f 0 s = [s]"
| "star f (Suc n) s = concat (map (star f n) (filter (\<lambda>t. length (fst t) < length (fst s)) (f s))) @ [s]"

primrec run :: "re \<Rightarrow> re_state \<Rightarrow> re_state list" where
  "run Eps s = [s]"
| "run (Cls f) s = (case fst s of [] \<Rightarrow> [] | c # cs \<Rightarrow> if f c then [(cs, snd s)] else [])"
| "run (Cat a b) s = concat (map (run b) (run a s))"
| "run (Alt a b) s = run a s @ run b s"
| "run (Star a) s = star (run a) (length (fst s)) s"
| "run (Mark a) s = map (\<lambda>t. (fst t, Some (take (length (fst s) - length (fst t)) (fst s)))) (run a s)"

definition plus_re :: "re \<Rightarrow> re" where
  "plus_re r = Cat r (Star r)"

fun up_to :: "nat \<Rightarrow> re \<Rightarrow> re" where
  "up_to 0 r = Eps"
| "up_to (Suc n) r = Alt (Cat r (up_to n r)) Eps"

definition lit :: "u8 \<Rightarrow> re" where
  "lit c = Cls (\<lambda>x. x = c)"

fun regex_search :: "re \<Rightarrow> bytes \<Rightarrow> re_state option" where
  "regex_search r s = (case run r (s, None) of
     t # _ \<Rightarrow> Some t
   | [] \<Rightarrow> (case s of [] \<Rightarrow> None | _ # cs \<Rightarrow> regex_search r cs))"

definition regex_match :: "re \<Rightarrow> bytes \<Rightarrow> bool" where
  "regex_match r s \<longleftrightarrow> (\<exists>t \<in> set (run r (s, None)). fst t = [])"

definition is_alpha :: "u8 \<Rightarrow> bool" where
  "is_alpha c \<longleftrightarrow> 0x41 \<le> c \<and> c \<le> 0x5A \<or> 0x61 \<le> c \<and> c \<le> 0x7A"

definition domain_char :: "u8 \<Rightarrow> bool" where
  "domain_char c \<longleftrightarrow> is_alpha c \<or> 0x30 \<le> c \<and> c \<le> 0x39 \<or> c \<in> {0x5F, 0x2D, 0x2E}"

text \<open>
  \<^verbatim>\<open>\u4e00-\u9fa5\<close> is six octets in the source string: the class has the first and last two of them and the octets from
  the third to the fourth.
\<close>

definition local_char :: "u8 \<Rightarrow> bool" where
  "local_char c \<longleftrightarrow> domain_char c \<or> c \<in> {0xE4, 0xB8, 0xBE, 0xA5} \<or> 0x80 \<le> c \<and> c \<le> 0xE9"

definition nameAddrEmailRegex :: re where
  "nameAddrEmailRegex =
     (let space = Star (Cls is_space); quote = lit 0x22
      in Cat space (
         Cat (Alt (Cat quote (Cat (Star (Cls (\<lambda>c. c \<noteq> 0x22))) quote))
                (plus_re (Cls (\<lambda>c. c \<notin> {0x3C, 0x3E, 0x22})))) (
         Cat space (
         Cat (lit 0x3C) (
         Cat (Mark (plus_re (Cls (\<lambda>c. c \<notin> {0x3C, 0x3E})))) (
         Cat (lit 0x3E) space))))))"

definition addrEmailRegex :: re where
  "addrEmailRegex =
     Cat (plus_re (Cls local_char)) (
     Cat (lit 0x40) (
     Cat (plus_re (Cls domain_char)) (
     Cat (lit 0x2E) (
     Cat (Cls is_alpha) (Cat (Cls is_alpha) (up_to 61 (Cls is_alpha)))))))"

definition IsEmailAddress :: "bytes \<Rightarrow> bool" where
  "IsEmailAddress from =
     (if from = [] then False
      else let emailAddress = (case regex_search nameAddrEmailRegex from of
                 Some (_, Some x) \<Rightarrow> x | Some (_, None) \<Rightarrow> [] | None \<Rightarrow> from)
           in if emailAddress = [] then False else regex_match addrEmailRegex emailAddress)"

section \<open>The object\<close>

record GsmSmsMessage = SmsBaseMessage +
  fullText :: bytes
  destAddress :: bytes
  replyAddress :: bytes
  gm_destPort :: u16
  bSmsText :: bool
  smsTpdu :: "SmsTpdu option"
  smsCodingNationalType :: SmsCodingNationalType

definition new_message :: GsmSmsMessage where
  "new_message = \<lparr>scAddress = [], originatingAddress = [], visibleMessageBody = [], bm_msgClass = SMS_CLASS_UNKNOWN,
     scTimestamp = 0, bm_status = 0, protocolId = 0, bReplaceMessage = False, bStatusReportMessage = False,
     bMwi = False, bMwiSense = False, bCphsMwi = False, bMwiClear = False, bMwiSet = False, bMwiNotStore = False,
     hasReplyPath = False, bMoreMsg = False, bHeaderInd = False, bm_headerCnt = 0, headerDataLen = 0, bm_msgRef = 0,
     bm_bCompressed = False, bm_bIndActive = False, bm_codingScheme = DATA_CODING_7BIT,
     bm_codingGroup = CODING_GENERAL_GROUP, rawPdu = [], rawUserData = [], rawWapPushUserData = [],
     smsUserData = zero_ud, smsWapPushUserData = zero_tpud, smsConcat = None, portAddress = None,
     specialSmsInd = None, indexOnSim = - 1, emailFrom = [], emailBody = [], isEmail = False,
     fullText = [], destAddress = [], replyAddress = [], gm_destPort = - 1, bSmsText = False, smsTpdu = None,
     smsCodingNationalType = SMS_CODING_NATIONAL_TYPE_DEFAULT\<rparr>"

text \<open>What the code takes from its surroundings.\<close>

record sms_env =
  env_iconv :: iconv
  env_wsize :: nat
  env_timezone :: int
  env_now :: int

section \<open>Submitting\<close>

abbreviation (input) "TYPE_NATIONAL \<equiv> 2 :: u8"
abbreviation (input) "SMS_NPI_ISDN \<equiv> 1 :: u8"

text \<open>\<^verbatim>\<open>memcpy_s\<close> of \<open>n\<close> octets of a \<^verbatim>\<open>std::string\<close>, whose storage ends with one NUL.\<close>

definition copy_str :: "nat \<Rightarrow> bytes \<Rightarrow> bytes \<Rightarrow> bytes option" where
  "copy_str n s arr = (if n \<le> length s + 1 then Some (write_at 0 (take n (s @ [0])) arr) else None)"

definition CalcReplyEncodeAddress :: "bytes \<Rightarrow> ('s, u8) op" where
  "CalcReplyEncodeAddress reply =
     (if length reply > 0 then
        case copy_str MAX_ADDRESS_LEN reply (replicate (SMS_MAX_ADDRESS_LEN + 1) 0) of
          None \<Rightarrow> fault
        | Some a \<Rightarrow>
            bnd (with_new [] (ignore (EncodeAddressPdu \<lparr>ton = TYPE_NATIONAL, npi = SMS_NPI_ISDN, address = a\<rparr>)))
              (\<lambda>(_, encodedAddr). ret (word_of_nat (length encodedAddr)))
      else ret 0)"

text \<open>A write to a field of \<^verbatim>\<open>smsTpdu_->data.submit\<close>; another member of the union is not written that way.\<close>

definition upd_submit :: "(SmsSubmit \<Rightarrow> SmsSubmit) \<Rightarrow> (GsmSmsMessage, unit) op" where
  "upd_submit f m = (case smsTpdu m of
     Some (SMS_TPDU_SUBMIT s) \<Rightarrow> Ok () (m\<lparr>smsTpdu := Some (SMS_TPDU_SUBMIT (f s))\<rparr>)
   | _ \<Rightarrow> Fault)"

definition dest_chars :: "bytes \<Rightarrow> bytes \<Rightarrow> bytes" where
  "dest_chars desAddr arr =
     (let addLen = length desAddr
      in if addLen < MAX_ADDRESS_LEN then (write_at 0 desAddr arr)[addLen := 0]
         else if hd desAddr = 0x2B then (write_at 0 (take MAX_ADDRESS_LEN desAddr) arr)[MAX_ADDRESS_LEN := 0]
         else (write_at 0 (take (MAX_ADDRESS_LEN - 1) desAddr) arr)[MAX_ADDRESS_LEN := 0])"

definition SetSmsTpduDestAddress :: "bytes \<Rightarrow> (GsmSmsMessage, int) op" where
  "SetSmsTpduDestAddress desAddr =
     bnd (gets smsTpdu) (\<lambda>tPdu.
     if tPdu = None then ret 0
     else seq (upd_submit (\<lambda>s. s\<lparr>sub_destAddress := \<lparr>ton = TYPE_UNKNOWN, npi = SMS_NPI_ISDN,
                address = dest_chars desAddr (address (sub_destAddress s))\<rparr>\<rparr>))
            (ret (int (length desAddr))))"

definition set_header :: "nat \<Rightarrow> u8 \<Rightarrow> UdhUnion \<Rightarrow> SmsSubmit \<Rightarrow> SmsSubmit" where
  "set_header index t u s = s\<lparr>sub_userData := (sub_userData s)\<lparr>
     ud_header := (ud_header (sub_userData s))[index := \<lparr>udhType = t, udh = u\<rparr>]\<rparr>\<rparr>"

definition header_index_ok :: "int \<Rightarrow> bool" where
  "header_index_ok index \<longleftrightarrow> \<not> (index < 0 \<or> index \<ge> int MAX_UD_HEADER_NUM)"

definition SetHeaderLang :: "int \<Rightarrow> DataCodingScheme \<Rightarrow> u8 \<Rightarrow> (GsmSmsMessage, int) op" where
  "SetHeaderLang index codingType langId =
     bnd (gets smsTpdu) (\<lambda>tpdu.
     if tpdu = None \<or> \<not> header_index_ok index then ret 0
     else case tpdu of
       Some (SMS_TPDU_SUBMIT _) \<Rightarrow>
         if codingType = DATA_CODING_7BIT \<and> langId \<noteq> MSG_ID_RESERVED_LANG then
           seq (upd_submit (set_header (nat index) UDH_SINGLE_SHIFT (UdhSingleShift langId))) (ret 1)
         else ret 0
     | _ \<Rightarrow> ret 0)"

definition SetHeaderConcat :: "int \<Rightarrow> SmsConcat \<Rightarrow> (GsmSmsMessage, int) op" where
  "SetHeaderConcat index cc =
     bnd (gets smsTpdu) (\<lambda>tpdu.
     if tpdu = None \<or> \<not> header_index_ok index then ret 0
     else case tpdu of
       Some (SMS_TPDU_SUBMIT _) \<Rightarrow>
         seq (upd_submit
                (if cc_is8Bits cc then
                   set_header (nat index) UDH_CONCAT_8BIT (UdhConcat8bit \<lparr>c8_msgRef = ucast (cc_msgRef cc),
                     c8_totalSeg = ucast (cc_totalSeg cc), c8_seqNum = ucast (cc_seqNum cc)\<rparr>)
                 else
                   set_header (nat index) UDH_CONCAT_16BIT (UdhConcat16bit \<lparr>c16_msgRef = cc_msgRef cc,
                     c16_totalSeg = ucast (cc_totalSeg cc), c16_seqNum = ucast (cc_seqNum cc)\<rparr>)))
           (ret 1)
     | _ \<Rightarrow> ret 0)"

text \<open>\<^verbatim>\<open>ret\<close> is overwritten by the result of \<^verbatim>\<open>memcpy_s\<close>, so the function returns 0 when it has set the header.\<close>

definition SetHeaderReply :: "int \<Rightarrow> (GsmSmsMessage, int) op" where
  "SetHeaderReply index =
     bnd (gets replyAddress) (\<lambda>reply.
     bnd (gets smsTpdu) (\<lambda>tpdu.
     if reply = [] \<or> tpdu = None \<or> \<not> header_index_ok index then ret 0
     else case tpdu of
       Some (SMS_TPDU_SUBMIT _) \<Rightarrow>
         seq (upd_submit (\<lambda>s. set_header (nat index) UDH_ALTERNATE_REPLY_ADDRESS
                (UdhAlternateAddress \<lparr>ton = TYPE_NATIONAL, npi = SMS_NPI_ISDN,
                   address = (let blank = replicate (SMS_MAX_ADDRESS_LEN + 1) 0
                              in if SMS_MAX_ADDRESS_LEN + 1 < length reply then blank else write_at 0 reply blank)\<rparr>)
                (s\<lparr>sub_bReplyPath := True\<rparr>)))
           (ret 0)
     | _ \<Rightarrow> ret 0))"

definition CreateDefaultSubmit :: "bool \<Rightarrow> DataCodingScheme \<Rightarrow> (GsmSmsMessage, unit) op" where
  "CreateDefaultSubmit bStatusReport scheme = upd (\<lambda>m. m\<lparr>smsTpdu := Some (SMS_TPDU_SUBMIT (zero_submit\<lparr>
     sub_bHeaderInd := False, sub_bRejectDup := False, sub_bStatusReport := bStatusReport, sub_bReplyPath := False,
     sub_msgRef := 0,
     sub_dcs := zero_dcs\<lparr>bCompressed := False, msgClass := SMS_CLASS_UNKNOWN, codingGroup := CODING_GENERAL_GROUP,
       codingScheme := scheme\<rparr>,
     sub_pid := SMS_NORMAL_PID, sub_vpf := SMS_VPF_NOT_PRESENT\<rparr>))\<rparr>)"

definition CreateDefaultSubmitSmsTpdu ::
  "bytes \<Rightarrow> bytes \<Rightarrow> bytes \<Rightarrow> bool \<Rightarrow> DataCodingScheme \<Rightarrow> (GsmSmsMessage, unit) op" where
  "CreateDefaultSubmitSmsTpdu dest sc text bStatusReport scheme =
     seq (upd (\<lambda>m. m\<lparr>fullText := text\<rparr>)) (
     seq (SetSmscAddr sc) (
     seq (upd (\<lambda>m. m\<lparr>destAddress := dest\<rparr>)) (
     seq (CreateDefaultSubmit bStatusReport scheme) (
     seq (SetSmsTpduDestAddress dest)
       (ret ())))))"

text \<open>\<^verbatim>\<open>static_cast<int16_t>(dataLen)\<close>, and the copy of the septets into the array of the user data.\<close>

definition to_int16 :: "nat \<Rightarrow> int" where
  "to_int16 n = sint (word_of_nat n :: u16)"

definition data_septets :: "int \<Rightarrow> bytes \<Rightarrow> bytes" where
  "data_septets endcodeLen encoded =
     (let blank = replicate (MAX_USER_DATA_LEN + 1) 0
      in if endcodeLen < 0 \<or> endcodeLen \<ge> int (MAX_USER_DATA_LEN + 1)
         then (take (MAX_USER_DATA_LEN + 1) encoded)[MAX_USER_DATA_LEN := 0]
         else (write_at 0 (take (nat endcodeLen) encoded) blank)[nat endcodeLen := 0])"

definition CreateDataSubmitSmsTpdu ::
  "sms_env \<Rightarrow> bytes \<Rightarrow> bytes \<Rightarrow> bytes \<Rightarrow> nat \<Rightarrow> u8 \<Rightarrow> DataCodingScheme \<Rightarrow> bool \<Rightarrow> (GsmSmsMessage, unit) op" where
  "CreateDataSubmitSmsTpdu env desAddr scAddr data dataLen msgRef8bit codingType bStatusReport =
     seq (SetSmscAddr scAddr) (
     seq (upd (\<lambda>m. m\<lparr>destAddress := desAddr\<rparr>)) (
     seq (CreateDefaultSubmit bStatusReport codingType) (
     seq (SetSmsTpduDestAddress desAddr) (
     bnd (with_new (replicate DECODE_DATA_SIZE 0)
            (Utf8ToGsm7bit (env_iconv env) (env_wsize env) (int DECODE_DATA_SIZE) data (to_int16 dataLen) MSG_ID_RESERVED_LANG))
       (\<lambda>((endcodeLen, _), encoded).
     upd_submit (\<lambda>s. s\<lparr>sub_userData := (sub_userData s)\<lparr>
       ud_data := data_septets endcodeLen encoded, ud_length := word_of_nat dataLen\<rparr>,
       sub_msgRef := msgRef8bit\<rparr>))))))"

record EncodeInfo =
  tpduData :: bytes
  smcaData :: bytes
  tpduLen :: u16
  smcaLen :: u8
  ei_isMore :: bool

definition zero_info :: EncodeInfo where
  "zero_info = \<lparr>tpduData = replicate 256 0, smcaData = replicate 21 0, tpduLen = 0, smcaLen = 0, ei_isMore = False\<rparr>"

definition MAX_TPDU_DATA_LEN :: nat where
  "MAX_TPDU_DATA_LEN = 255"

definition GetSubmitEncodeInfoPartData :: "bytes \<Rightarrow> nat \<Rightarrow> bool \<Rightarrow> (GsmSmsMessage, EncodeInfo option) op" where
  "GetSubmitEncodeInfoPartData encodeSmscAddr encodeSmscLen bMore =
     bnd (gets smsTpdu) (\<lambda>tpdu.
     bnd (with_new (replicate MAX_TPDU_DATA_LEN 0, 0)
            (attempt (case tpdu of None \<Rightarrow> fail | Some t \<Rightarrow> EncodeSmsPdu t MAX_TPDU_DATA_LEN)))
       (\<lambda>(r, (tpduBuf, bufLen)).
     if r \<noteq> None \<and> bufLen > 0 then
       (if encodeSmscLen > length (smcaData zero_info) then ret None
        else if encodeSmscLen > length encodeSmscAddr then fault
        else if bufLen > length (tpduData zero_info) then ret None
        else if bufLen > length tpduBuf then fault
        else ret (Some (zero_info\<lparr>
          smcaData := write_at 0 (take encodeSmscLen encodeSmscAddr) (smcaData zero_info),
          tpduData := write_at 0 (take bufLen tpduBuf) (tpduData zero_info),
          smcaLen := word_of_nat encodeSmscLen, tpduLen := word_of_nat bufLen, ei_isMore := bMore\<rparr>)))
     else ret (Some zero_info)))"

definition GetSubmitEncodeInfo :: "bytes \<Rightarrow> bool \<Rightarrow> (GsmSmsMessage, EncodeInfo option) op" where
  "GetSubmitEncodeInfo sc bMore =
     (let blank = replicate MAX_SMSC_LEN 0
      in if sc \<noteq> [] \<and> length sc < MAX_SMSC_LEN then
           bnd (with_new blank (EncodeSmscPdu \<lparr>ton = (if hd sc = 0x2B then TYPE_INTERNATIONAL else TYPE_UNKNOWN),
                  npi = SMS_NPI_ISDN,
                  address = (write_at 0 sc (replicate (SMS_MAX_ADDRESS_LEN + 1) 0))[length sc := 0]\<rparr>))
             (\<lambda>(encodeSmscLen, encodeSmscAddr).
           GetSubmitEncodeInfoPartData encodeSmscAddr (to_u8 encodeSmscLen) bMore)
         else GetSubmitEncodeInfoPartData blank 0 bMore)"

definition CreateDeliverSmsTpdu :: "(GsmSmsMessage, unit) op" where
  "CreateDeliverSmsTpdu = upd (\<lambda>m. m\<lparr>smsTpdu := Some (SMS_TPDU_DELIVER (zero_deliver\<lparr>del_bHeaderInd := False\<rparr>))\<rparr>)"

definition CreateStatusReportSmsTpdu :: "(GsmSmsMessage, unit) op" where
  "CreateStatusReportSmsTpdu = upd (\<lambda>m. m\<lparr>smsTpdu := Some (SMS_TPDU_STATUS_REP zero_status_report)\<rparr>)"

definition CreateDeliverReportSmsTpdu :: "(GsmSmsMessage, unit) op" where
  "CreateDeliverReportSmsTpdu = upd (\<lambda>m. m\<lparr>smsTpdu := Some (SMS_TPDU_DELIVER_REP
     \<lparr>rep_reportType = 0, rep_bHeaderInd = False, rep_failCause = 0, rep_paramInd = 0, rep_pid = 0, rep_dcs = zero_dcs,
       rep_userData = zero_ud\<rparr>)\<rparr>)"

section \<open>Receiving\<close>

definition ConvertMsgTimeStamp :: "sms_env \<Rightarrow> SmsTimeStamp \<Rightarrow> (GsmSmsMessage, unit) op" where
  "ConvertMsgTimeStamp env stamp = upd (\<lambda>m. m\<lparr>scTimestamp :=
     (if ts_format stamp = SMS_TIME_ABSOLUTE then ConvertTime (env_timezone env) (ts_absolute stamp) else env_now env)\<rparr>)"

definition ConvertMessageDcs :: "(GsmSmsMessage, unit) op" where
  "ConvertMessageDcs =
     bnd (gets smsTpdu) (\<lambda>tpdu.
     case tpdu of
       Some (SMS_TPDU_DELIVER d) \<Rightarrow>
         seq (upd (\<lambda>m. m\<lparr>bm_bCompressed := bCompressed (del_dcs d), bm_codingScheme := codingScheme (del_dcs d),
                bm_codingGroup := codingGroup (del_dcs d), bm_bIndActive := bIndActive (del_dcs d),
                bMwi := bMWI (del_dcs d), bMwiSense := bIndActive (del_dcs d)\<rparr>))
           (ConvertMessageClass (msgClass (del_dcs d)))
     | Some (SMS_TPDU_STATUS_REP r) \<Rightarrow>
         seq (upd (\<lambda>m. m\<lparr>bm_bCompressed := bCompressed (sr_dcs r), bm_codingScheme := codingScheme (sr_dcs r),
                bm_codingGroup := codingGroup (sr_dcs r), bm_bIndActive := bIndActive (sr_dcs r)\<rparr>))
           (ConvertMessageClass (msgClass (sr_dcs r)))
     | Some (SMS_TPDU_SUBMIT s) \<Rightarrow>
         seq (upd (\<lambda>m. m\<lparr>bm_bCompressed := bCompressed (sub_dcs s), bm_codingScheme := codingScheme (sub_dcs s),
                bm_codingGroup := codingGroup (sub_dcs s), bm_bIndActive := bIndActive (sub_dcs s),
                bMwi := bMWI (sub_dcs s), bMwiSense := bIndActive (sub_dcs s)\<rparr>))
           (ConvertMessageClass (msgClass (sub_dcs s)))
     | _ \<Rightarrow> ret ())"

text \<open>The expression \<^verbatim>\<open>( /)|( )\<close> is first found at the first space.\<close>

definition ParseEmailFromMessageBody :: "(GsmSmsMessage, unit) op" where
  "ParseEmailFromMessageBody =
     bnd (gets (\<lambda>m. (originatingAddress m, visibleMessageBody m))) (\<lambda>(addr, body).
     if addr = [] \<or> length addr > 4 then ret ()
     else case find_from ((=) 0x20) 0 body of
       None \<Rightarrow> ret ()
     | Some pos \<Rightarrow>
         let from = take pos body;
             rest = drop (pos + 1) body;
             rest = (if rest \<noteq> [] \<and> hd rest = 0x2F then tl rest else rest)
         in upd (\<lambda>m. m\<lparr>emailFrom := from, emailBody := rest, isEmail := IsEmailAddress from\<rparr>))"

text \<open>
  \<^verbatim>\<open>header[0].udh.singleShift.langId\<close> is read whatever member of the union was written: it is the first octet
  of the union, on a little endian machine.
\<close>

definition udh_first_octet :: "UdhUnion \<Rightarrow> u8" where
  "udh_first_octet u = (case u of
     UdhZero \<Rightarrow> 0
   | UdhConcat8bit c \<Rightarrow> c8_msgRef c
   | UdhConcat16bit c \<Rightarrow> ucast (c16_msgRef c)
   | UdhAppPort8bit p \<Rightarrow> p8_destPort p
   | UdhAppPort16bit p \<Rightarrow> ucast (p16_destPort p)
   | UdhSpecialInd x \<Rightarrow> (if si_bStore x then 1 else 0)
   | UdhSingleShift l \<Rightarrow> l
   | UdhLockingShift l \<Rightarrow> l
   | UdhAlternateAddress a \<Rightarrow> ton a)"

definition insert_body :: "int \<times> bytes \<Rightarrow> (GsmSmsMessage, unit) op" where
  "insert_body = (\<lambda>(dataSize, buff) m. case insert_front dataSize buff (visibleMessageBody m) of
     None \<Rightarrow> Fault | Some t \<Rightarrow> Ok () (m\<lparr>visibleMessageBody := t\<rparr>))"

definition body_lang :: "SmsUDPackage \<Rightarrow> MsgLangInfo" where
  "body_lang ud =
     (let langId = udh_first_octet (udh (ud_header ud ! 0))
      in if langId \<noteq> 0 then no_shift\<lparr>bSingleShift := True, singleLang := langId\<rparr> else no_shift)"

definition text_buff :: bytes where
  "text_buff = replicate (MAX_MSG_TEXT_LEN + 1) 0"

definition convert_body :: "sms_env \<Rightarrow> DataCodingScheme \<Rightarrow> SmsUDPackage \<Rightarrow> (GsmSmsMessage, unit) op" where
  "convert_body env scheme ud =
     (let len = int (unat (ud_length ud)); ic = env_iconv env
      in case scheme of
           DATA_CODING_7BIT \<Rightarrow>
             bnd (with_new text_buff
                    (Gsm7bitToUtf8 ic (env_wsize env) (int MAX_MSG_TEXT_LEN) (ud_data ud) len (body_lang ud)))
               insert_body
         | DATA_CODING_UCS2 \<Rightarrow>
             bnd (with_new text_buff (Ucs2ToUtf8 ic (int MAX_MSG_TEXT_LEN) (ud_data ud) len)) insert_body
         | DATA_CODING_8BIT \<Rightarrow> insert_body (len, ud_data ud)
         | DATA_CODING_EUCKR \<Rightarrow>
             bnd (with_new text_buff (EuckrToUtf8 ic (int MAX_MSG_TEXT_LEN) (ud_data ud) len)) insert_body
         | _ \<Rightarrow> ret ())"

definition ConvertUserPartData :: "sms_env \<Rightarrow> (GsmSmsMessage, unit) op" where
  "ConvertUserPartData env =
     bnd (gets (\<lambda>m. (smsUserData m, smsWapPushUserData m, bm_codingScheme m))) (\<lambda>(ud, tpud, scheme).
     let len = unat (ud_length ud)
     in if len = 0 then ret ()
        else if len > length (ud_data ud) then fault
        else
          seq (convert_body env scheme ud) (
          seq (upd (\<lambda>m. m\<lparr>rawUserData := take len (ud_data ud) @ rawUserData m\<rparr>)) (
          seq (if unat (tpud_udl tpud) > length (tpud_ud tpud) then fault
               else upd (\<lambda>m. m\<lparr>rawWapPushUserData := take (unat (tpud_udl tpud)) (tpud_ud tpud) @ rawWapPushUserData m\<rparr>)) (
          bnd (gets visibleMessageBody) (\<lambda>body.
          if body \<noteq> [] then ParseEmailFromMessageBody else ret ())))))"

definition ConvertUserData :: "sms_env \<Rightarrow> (GsmSmsMessage, unit) op" where
  "ConvertUserData env =
     bnd (gets smsTpdu) (\<lambda>tpdu.
     if tpdu = None then ret ()
     else seq (upd (\<lambda>m. m\<lparr>smsUserData := zero_ud\<rparr>)) (
          seq (upd (\<lambda>m. case tpdu of
                 Some (SMS_TPDU_DELIVER d) \<Rightarrow> m\<lparr>headerDataLen := uint (ud_length (del_userData d)),
                   smsUserData := del_userData d, smsWapPushUserData := del_udData d\<rparr>
               | Some (SMS_TPDU_STATUS_REP r) \<Rightarrow> m\<lparr>headerDataLen := uint (ud_length (sr_userData r)),
                   smsUserData := sr_userData r\<rparr>
               | Some (SMS_TPDU_SUBMIT s) \<Rightarrow> m\<lparr>headerDataLen := uint (ud_length (sub_userData s)),
                   smsUserData := sub_userData s\<rparr>
               | _ \<Rightarrow> m))
            (ConvertUserPartData env)))"

definition AnalysisMsgDeliver :: "sms_env \<Rightarrow> SmsDeliver \<Rightarrow> (GsmSmsMessage, unit) op" where
  "AnalysisMsgDeliver env deliver =
     seq (upd (\<lambda>m. m\<lparr>protocolId := uint (del_pid deliver), hasReplyPath := del_bReplyPath deliver,
            bStatusReportMessage := del_bStatusReport deliver, bMoreMsg := del_bMoreMsg deliver,
            bHeaderInd := del_bHeaderInd deliver, originatingAddress := c_str (address (del_originAddress deliver)),
            bm_headerCnt := uint (headerCnt (del_userData deliver))\<rparr>)) (
     seq (ConvertMsgTimeStamp env (del_timeStamp deliver)) (
     seq ConvertMessageDcs
       (ConvertUserData env)))"

definition AnalysisMsgStatusReport :: "sms_env \<Rightarrow> SmsStatusReport \<Rightarrow> (GsmSmsMessage, unit) op" where
  "AnalysisMsgStatusReport env statusRep =
     seq (upd (\<lambda>m. m\<lparr>protocolId := uint (sr_pid statusRep), bm_msgRef := uint (sr_msgRef statusRep),
            bMoreMsg := sr_bMoreMsg statusRep, bStatusReportMessage := sr_bStatusReport statusRep,
            bHeaderInd := sr_bHeaderInd statusRep, bm_status := uint (sr_status statusRep)\<rparr>)) (
     seq (ConvertMsgTimeStamp env (sr_timeStamp statusRep)) (
     seq ConvertMessageDcs
       (ConvertUserData env)))"

definition AnalysisMsgSubmit :: "sms_env \<Rightarrow> SmsSubmit \<Rightarrow> (GsmSmsMessage, unit) op" where
  "AnalysisMsgSubmit env submit =
     seq (upd (\<lambda>m. m\<lparr>protocolId := uint (sub_pid submit), hasReplyPath := sub_bReplyPath submit,
            bm_msgRef := uint (sub_msgRef submit), bStatusReportMessage := sub_bStatusReport submit,
            bHeaderInd := sub_bHeaderInd submit\<rparr>)) (
     seq (ConvertMsgTimeStamp env (sub_validityPeriod submit)) (
     seq ConvertMessageDcs
       (ConvertUserData env)))"

definition PduAnalysisMsg :: "sms_env \<Rightarrow> (GsmSmsMessage, unit) op" where
  "PduAnalysisMsg env =
     bnd (gets smsTpdu) (\<lambda>tpdu.
     case tpdu of
       Some (SMS_TPDU_DELIVER d) \<Rightarrow> AnalysisMsgDeliver env d
     | Some (SMS_TPDU_STATUS_REP r) \<Rightarrow> AnalysisMsgStatusReport env r
     | Some (SMS_TPDU_SUBMIT s) \<Rightarrow> AnalysisMsgSubmit env s
     | _ \<Rightarrow> fail)"

definition decode_tpdu :: "sms_env \<Rightarrow> bytes \<Rightarrow> (GsmSmsMessage, unit) op" where
  "decode_tpdu env pdu m = (case DecodeSmsPdu (env_iconv env) (env_wsize env) pdu of
     Ok _ t \<Rightarrow> Ok () (m\<lparr>smsTpdu := t\<rparr>)
   | Fail t \<Rightarrow> Fail (case t of None \<Rightarrow> m | Some x \<Rightarrow> m\<lparr>smsTpdu := Some x\<rparr>)
   | Fault \<Rightarrow> Fault)"

text \<open>The array \<^verbatim>\<open>tempPdu\<close> has 521 octets, and the PDU at most 255.\<close>

definition PduAnalysis :: "sms_env \<Rightarrow> bytes \<Rightarrow> (GsmSmsMessage, unit) op" where
  "PduAnalysis env pdu =
     bnd (gets smsTpdu) (\<lambda>tpdu.
     seq (ensure (\<not> (tpdu = None \<or> pdu = [] \<or> length pdu > MAX_TPDU_DATA_LEN))) (
     bnd (with_new zero_address (DecodeSmscPdu pdu)) (\<lambda>(smscLen, smsc).
     seq (ensure (\<not> smscLen \<ge> length pdu)) (
     seq (if smscLen > 0 then upd (\<lambda>m. m\<lparr>scAddress := c_str (address smsc)\<rparr>) else ret ()) (
     seq (ensure (\<not> 521 + smscLen < length pdu)) (
     seq (decode_tpdu env (drop smscLen pdu))
       (PduAnalysisMsg env)))))))"

text \<open>The zeroed \<^verbatim>\<open>SmsTpdu\<close> has type 0, that of SMS-SUBMIT. \<open>None\<close> is \<^verbatim>\<open>nullptr\<close>.\<close>

definition CreateMessage :: "sms_env \<Rightarrow> bytes \<Rightarrow> (unit, GsmSmsMessage option) op" where
  "CreateMessage env pdu s =
     (case PduAnalysis env (HexToString pdu)
          (new_message\<lparr>smsTpdu := Some (SMS_TPDU_SUBMIT zero_submit), rawPdu := HexToByteVector pdu\<rparr>) of
        Ok _ m \<Rightarrow> Ok (Some m) s
      | Fail _ \<Rightarrow> Ok None s
      | Fault \<Rightarrow> Fault)"

section \<open>Queries\<close>

definition GetDestPort :: "(GsmSmsMessage, u16) op" where
  "GetDestPort = bnd GetPortAddress (\<lambda>p. case p of
     None \<Rightarrow> ret (- 1)
   | Some a \<Rightarrow> seq (upd (\<lambda>m. m\<lparr>gm_destPort := pa_destPort a\<rparr>)) (ret (pa_destPort a)))"

definition GetIsTypeZeroInd :: "GsmSmsMessage \<Rightarrow> bool" where
  "GetIsTypeZeroInd m \<longleftrightarrow> protocolId m = 0x40"

definition GetIsSIMDataTypeDownload :: "GsmSmsMessage \<Rightarrow> bool" where
  "GetIsSIMDataTypeDownload m \<longleftrightarrow> bm_msgClass m = SMS_SIM_MESSAGE \<and> (protocolId m = 0x7f \<or> protocolId m = 0x7c)"

definition IsSpecialMessage :: "GsmSmsMessage \<Rightarrow> bool" where
  "IsSpecialMessage m \<longleftrightarrow> GetIsTypeZeroInd m \<or> GetIsSIMDataTypeDownload m \<or> bMwiSet m \<or> bMwiClear m"

section \<open>Coding a text\<close>

text \<open>
  \<^verbatim>\<open>DecodeMessage\<close> on the array \<^verbatim>\<open>decodeData\<close>, called with \<^verbatim>\<open>langId\<close> set to \<^verbatim>\<open>MSG_ID_RESERVED_LANG\<close>; \<open>nt\<close> is
  \<^verbatim>\<open>smsCodingNationalType_\<close>.
\<close>

definition DecodeMessage :: "iconv \<Rightarrow> nat \<Rightarrow> SmsCodingNationalType \<Rightarrow> decode_message" where
  "DecodeMessage ic wsize nt codingType msgText =
     bnd (gets length) (\<lambda>maxDecodeLen.
     let dataLen = int (length msgText)
     in if msgText = [] then ret (0, codingType, MSG_ID_RESERVED_LANG)
        else case codingType of
          DATA_CODING_7BIT \<Rightarrow>
            bnd (Utf8ToGsm7bit ic wsize (int maxDecodeLen) msgText dataLen MSG_ID_RESERVED_LANG) (\<lambda>(n, l). ret (n, codingType, l))
        | DATA_CODING_8BIT \<Rightarrow>
            if length msgText > maxDecodeLen then ret (0, codingType, MSG_ID_RESERVED_LANG)
            else seq (put_all msgText) (ret (dataLen, codingType, MSG_ID_RESERVED_LANG))
        | DATA_CODING_UCS2 \<Rightarrow>
            bnd (Utf8ToUcs2 ic (int maxDecodeLen) msgText dataLen) (\<lambda>n. ret (n, codingType, MSG_ID_RESERVED_LANG))
        | _ \<Rightarrow>
            GsmUtf8ToAuto ic wsize (int maxDecodeLen) msgText dataLen DATA_CODING_AUTO nt MSG_ID_RESERVED_LANG)"

section \<open>Received messages are safe to read\<close>

definition msg_data_ok :: "GsmSmsMessage \<Rightarrow> bool" where
  "msg_data_ok m \<longleftrightarrow> wf_ud (smsUserData m) \<and> wf_tpud (smsWapPushUserData m) \<and>
     ud_done (bm_codingScheme m) (smsUserData m, Some (smsWapPushUserData m))"

lemma terminated_utf8_returns:
  assumes "iconv_bounded ic" "m \<le> int (length d)"
  shows "\<exists>n d'. terminated_utf8 ic cs m src k d = Ok n d' \<and> length d' = length d \<and> 0 \<le> n \<and> n \<le> int (length d)"
  using assms
  by (auto simp: terminated_utf8_def nat_le_iff put_all_def put_at_def write_at_def op_simps split: option.splits prod.splits
      dest!: iconv_boundedD)

lemma keeps_insert_body:
  assumes "0 \<le> n" "nat n \<le> length b"
  shows "keeps msg_data_ok (insert_body (n, b))"
  using assms by (intro keepsI) (simp add: insert_body_def insert_front_def msg_data_ok_def)

lemma keeps_text_body:
  assumes "\<exists>n d'. conv text_buff = Ok n d' \<and> length d' = length text_buff \<and> 0 \<le> n \<and> n \<le> int (length text_buff)"
  shows "keeps msg_data_ok (bnd (with_new text_buff conv) insert_body)"
proof -
  from assms obtain n d' where conv: "conv text_buff = Ok n d'" "0 \<le> n" "nat n \<le> length d'"
    by (auto simp: nat_le_iff)
  have "keeps msg_data_ok (insert_body (n, d'))" using conv by (intro keeps_insert_body)
  then show ?thesis using conv(1) by (simp add: keeps_def valid_def op_simps)
qed

lemma keeps_convert_body:
  assumes ic: "iconv_bounded (env_iconv env)" and len: "unat (ud_length u) \<le> length (ud_data u)"
    and septets: "c = DATA_CODING_7BIT \<Longrightarrow> \<forall>s \<in> set (ud_data u). s < 0x80"
  shows "keeps msg_data_ok (convert_body env c u)"
proof -
  have "int MAX_MSG_TEXT_LEN \<le> int (length text_buff)" by (simp add: text_buff_def)
  note conv = to_utf8_returns [OF ic this] terminated_utf8_returns [OF ic this] Gsm7bitToUtf8_returns [OF ic _ this]
  have "no_stray_octet (body_lang u) (ud_data u)" if "c = DATA_CODING_7BIT"
    using septets that by (simp add: no_stray_octet_def)
  then show ?thesis using len
    by (cases c) (simp_all add: convert_body_def Let_def Ucs2ToUtf8_def EuckrToUtf8_def conv keeps_text_body keeps_insert_body keeps_ret)
qed

lemma keeps_ParseEmail: "keeps msg_data_ok ParseEmailFromMessageBody"
  unfolding ParseEmailFromMessageBody_def case_prod_unfold Let_def
  by (intro keeps_bnd keeps_gets keeps_if keeps_option keeps_ret keeps_upd) (simp_all add: msg_data_ok_def)

lemma keeps_ConvertUserPartData:
  assumes ic: "iconv_bounded (env_iconv env)"
  shows "keeps msg_data_ok (ConvertUserPartData env)"
proof (rule keepsI)
  fix m
  assume m: "msg_data_ok m"
  let ?u = "smsUserData m" and ?t = "smsWapPushUserData m"
  have len: "unat (ud_length ?u) \<le> length (ud_data ?u)" "unat (tpud_udl ?t) \<le> length (tpud_ud ?t)"
    using m by (auto simp: msg_data_ok_def wf_ud_def wf_tpud_def ud_done_def data_fits_def)
  have "keeps msg_data_ok (convert_body env (bm_codingScheme m) ?u)"
    using m by (intro keeps_convert_body ic len) (auto simp: msg_data_ok_def ud_done_def data_fits_def)
  then have "keeps msg_data_ok (seq (convert_body env (bm_codingScheme m) ?u) (
      seq (upd (\<lambda>m. m\<lparr>rawUserData := take (unat (ud_length ?u)) (ud_data ?u) @ rawUserData m\<rparr>)) (
      seq (upd (\<lambda>m. m\<lparr>rawWapPushUserData := take (unat (tpud_udl ?t)) (tpud_ud ?t) @ rawWapPushUserData m\<rparr>)) (
      bnd (gets visibleMessageBody) (\<lambda>body. if body \<noteq> [] then ParseEmailFromMessageBody else ret ())))))"
    by (intro keeps_seq keeps_upd keeps_bnd keeps_gets keeps_if keeps_ParseEmail keeps_ret) (simp_all add: msg_data_ok_def)
  from keepsD [OF this m] show "case ConvertUserPartData env m of
      Ok x m' \<Rightarrow> msg_data_ok m' | Fail m' \<Rightarrow> msg_data_ok m' | Fault \<Rightarrow> False"
    using m len by (simp add: ConvertUserPartData_def Let_def bnd_def [of "gets _"] gets_def [of _ m] ret_def)
qed

lemma ud_done_zero_tpud: "ud_done c (u, None) \<Longrightarrow> ud_done c (u, Some zero_tpud)" "wf_tpud zero_tpud"
  by (auto simp: ud_done_def data_fits_def zero_tpud_def wf_tpud_def)

lemma same_result: "msg_data_ok m \<Longrightarrow> \<exists>m'. f m = f m' \<and> msg_data_ok m'"
  by blast

lemmas analysis_defs = PduAnalysisMsg_def AnalysisMsgSubmit_def AnalysisMsgDeliver_def AnalysisMsgStatusReport_def
  ConvertMsgTimeStamp_def ConvertMessageDcs_def ConvertMessageClass_def ConvertUserData_def

lemma PduAnalysisMsg_safe:
  assumes ic: "iconv_bounded (env_iconv env)" and x: "smsTpdu m = Some x" "wf_tpdu x" "tpdu_done x"
    and w: "smsWapPushUserData m = zero_tpud"
  shows "case PduAnalysisMsg env m of Ok _ m' \<Rightarrow> msg_data_ok m' | Fail _ \<Rightarrow> True | Fault \<Rightarrow> False"
proof -
  have "\<exists>m'. PduAnalysisMsg env m = ConvertUserPartData env m' \<and> msg_data_ok m'"
  proof (cases x)
    case (SMS_TPDU_SUBMIT s)
    with x w show ?thesis
      by (simp add: analysis_defs op_simps split del: if_split)
        (rule same_result, simp add: msg_data_ok_def wf_tpdu_def wf_submit_def tpdu_done_def submit_done_def ud_done_zero_tpud)
  next
    case (SMS_TPDU_DELIVER d)
    with x w show ?thesis
      by (simp add: analysis_defs op_simps split del: if_split)
        (rule same_result, simp add: msg_data_ok_def wf_tpdu_def wf_deliver_def tpdu_done_def deliver_done_def)
  next
    case (SMS_TPDU_STATUS_REP r)
    with x w show ?thesis
      by (simp add: analysis_defs op_simps split del: if_split)
        (rule same_result, simp add: msg_data_ok_def wf_tpdu_def wf_status_report_def tpdu_done_def status_done_def ud_done_zero_tpud)
  qed (use x in \<open>simp add: tpdu_done_def\<close>)
  then obtain m' where m': "PduAnalysisMsg env m = ConvertUserPartData env m'" "msg_data_ok m'" by blast
  show ?thesis using keepsD [OF keeps_ConvertUserPartData [OF ic] m'(2)] by (simp add: m'(1) split: outcome.splits)
qed

lemma PduAnalysis_safe:
  assumes ic: "iconv_bounded (env_iconv env)" and w: "smsWapPushUserData m = zero_tpud"
  shows "case PduAnalysis env pdu m of Ok _ m' \<Rightarrow> msg_data_ok m' | Fail _ \<Rightarrow> True | Fault \<Rightarrow> False"
proof (cases "smsTpdu m = None \<or> pdu = [] \<or> length pdu > MAX_TPDU_DATA_LEN")
  case False
  have "\<exists>n a. DecodeSmscPdu pdu zero_address = Ok n a"
    by (cases pdu) (auto simp: DecodeSmscPdu_def Let_def op_simps)
  then obtain n a where smsc: "DecodeSmscPdu pdu zero_address = Ok n a" by blast
  let ?d = "DecodeSmsPdu (env_iconv env) (env_wsize env) (drop n pdu)"
  show ?thesis
  proof (cases ?d)
    case (Ok v t)
    then obtain x where x: "t = Some x" "tpdu_done x" using DecodeSmsPdu_done by blast
    moreover have "wf_tpdu x" using DecodeSmsPdu_safe [OF ic, of "env_wsize env" "drop n pdu"] Ok x by auto
    ultimately show ?thesis using False smsc w Ok PduAnalysisMsg_safe [OF ic]
      by (auto simp: PduAnalysis_def op_simps decode_tpdu_def)
  next
    case (Fail t)
    then show ?thesis using False smsc by (auto simp: PduAnalysis_def op_simps decode_tpdu_def)
  next
    case Fault
    then show ?thesis using DecodeSmsPdu_safe [OF ic, of "env_wsize env" "drop n pdu"] by simp
  qed
qed (auto simp: PduAnalysis_def op_simps)

text \<open>The headers of a received message can be read.\<close>

lemma first_header_returns:
  assumes "\<And>j. i \<le> j \<Longrightarrow> j < i + n \<Longrightarrow> j < length (ud_header u) \<and> f (ud_header u ! j) \<noteq> Some None"
  shows "\<exists>r. first_header f u i n s = Ok r s"
  using assms
proof (induction n arbitrary: i)
  case (Suc n)
  have "i < length (ud_header u)" "f (ud_header u ! i) \<noteq> Some None" using Suc.prems [of i] by simp_all
  moreover have "\<exists>r. first_header f u (Suc i) n s = Ok r s" using Suc.prems by (intro Suc.IH) simp
  ultimately show ?case by (auto simp: op_simps split: option.splits)
qed (simp add: ret_def)

lemma scan_headers_returns:
  assumes "msg_data_ok m" "\<And>h. udh_matches h \<Longrightarrow> f h \<noteq> Some None"
  shows "\<exists>r. scan_headers f m = Ok r m"
proof -
  obtain i where "headers_read i (smsUserData m)" using assms(1) by (auto simp: msg_data_ok_def ud_done_def)
  then have "\<exists>r. first_header f (smsUserData m) 0 (unat (headerCnt (smsUserData m))) m = Ok r m"
    using assms(2) by (intro first_header_returns) (auto simp: headers_read_def)
  then show ?thesis by (simp add: scan_headers_def op_simps)
qed

lemma header_kinds:
  "udh_matches h \<Longrightarrow> concat_of h \<noteq> Some None" "udh_matches h \<Longrightarrow> port_of h \<noteq> Some None"
  "udh_matches h \<Longrightarrow> special_of h \<noteq> Some None"
  by (auto simp: udh_matches_def concat_of_def port_of_def special_of_def)

lemma headers_readable:
  assumes "msg_data_ok m"
  shows "\<exists>c. GetConcatMsg m = Ok c (m\<lparr>smsConcat := c\<rparr>)" "\<exists>p. GetPortAddress m = Ok p (m\<lparr>portAddress := p\<rparr>)"
    "\<exists>x. GetSpecialSmsInd m = Ok x (m\<lparr>specialSmsInd := x\<rparr>)"
  using scan_headers_returns [OF assms, of concat_of] scan_headers_returns [OF assms, of port_of]
    scan_headers_returns [OF assms, of special_of] header_kinds
  by (auto simp: GetConcatMsg_def GetPortAddress_def GetSpecialSmsInd_def op_simps)

text \<open>
  C2. A PDU handed over by the modem, whatever string it is: \<^verbatim>\<open>CreateMessage\<close> either gives no message or a message
  object, and never reads or writes outside an array on the way (hexadecimal form, service centre address, TPDU, text in any
  alphabet, e-mail detection). On the object it gives, the queries for the concatenation header, the ports and
  the special indication, which walk over the decoded headers, return as well.
\<close>

theorem CreateMessage_safe:
  assumes "iconv_bounded (env_iconv env)"
  shows "\<exists>r. CreateMessage env pdu () = Ok r () \<and> (\<forall>m. r = Some m \<longrightarrow>
    msg_data_ok m \<and> (\<exists>c. GetConcatMsg m = Ok c (m\<lparr>smsConcat := c\<rparr>)) \<and>
    (\<exists>p. GetPortAddress m = Ok p (m\<lparr>portAddress := p\<rparr>)) \<and> (\<exists>x. GetSpecialSmsInd m = Ok x (m\<lparr>specialSmsInd := x\<rparr>)))"
proof -
  let ?m = "new_message\<lparr>smsTpdu := Some (SMS_TPDU_SUBMIT zero_submit), rawPdu := HexToByteVector pdu\<rparr>"
  have "case PduAnalysis env (HexToString pdu) ?m of Ok _ m' \<Rightarrow> msg_data_ok m' | Fail _ \<Rightarrow> True | Fault \<Rightarrow> False"
    by (rule PduAnalysis_safe [OF assms]) (simp add: new_message_def)
  then show ?thesis using headers_readable by (auto simp: CreateMessage_def split: outcome.splits)
qed

theorem CreateMessage_safe_witness:
  "\<exists>r. CreateMessage \<lparr>env_iconv = \<lambda>_ _. Some (\<lambda>src n. (True, take n src)), env_wsize = 8, env_timezone = 0, env_now = 0\<rparr>
      [0x30, 0x30, 0x30, 0x34] () = Ok r () \<and> (\<forall>m. r = Some m \<longrightarrow>
    msg_data_ok m \<and> (\<exists>c. GetConcatMsg m = Ok c (m\<lparr>smsConcat := c\<rparr>)) \<and>
    (\<exists>p. GetPortAddress m = Ok p (m\<lparr>portAddress := p\<rparr>)) \<and> (\<exists>x. GetSpecialSmsInd m = Ok x (m\<lparr>specialSmsInd := x\<rparr>)))"
  by (rule CreateMessage_safe) (simp add: iconv_bounded_def)

section \<open>Splitting a GSM text\<close>

lemma seven_bit_values:
  "map_of gsm7bitDefMap c = Some s \<Longrightarrow> s < 0x80" "map_of (Get7BitCodingExtMap t) c = Some s \<Longrightarrow> s < 0x80"
proof -
  have "list_all (\<lambda>(c, s). s < 0x80) gsm7bitDefMap"
    by (simp add: gsm7bitDefMap_def GSM7_BIT_TO_UC_S2_def upt_rec)
  then show "map_of gsm7bitDefMap c = Some s \<Longrightarrow> s < 0x80" by (auto simp: list_all_iff dest: map_of_SomeD)
  have "list_all (\<lambda>(c, s). s < 0x80) (Get7BitCodingExtMap t)"
    by (cases t) (simp_all add: Get7BitCodingExtMap_def gsm7bitExtMap_def turkishMap_def spanishMap_def portuMap_def)
  then show "map_of (Get7BitCodingExtMap t) c = Some s \<Longrightarrow> s < 0x80" by (auto simp: list_all_iff dest: map_of_SomeD)
qed

lemma take_update_septets:
  assumes "\<forall>x \<in> set (take i d). (x :: u8) < 0x80" "v < 0x80" "i < length d"
  shows "\<forall>x \<in> set (take (Suc i) (d[i := v])). x < 0x80"
  using assms by (simp add: take_Suc_conv_app_nth)

lemma ucs2_auto_loop_septets:
  assumes "ucs2_auto_loop (Get7BitCodingExtMap t) m cs out d = Ok (n, u) d'" "\<forall>x \<in> set (take out d). x < 0x80"
  shows "\<forall>x \<in> set (take (nat n) d'). x < 0x80"
  using assms
proof (induction cs arbitrary: d out)
  case (Cons c rest)
  have esc: "(0x1B :: u8) < 0x80" by simp
  show ?case
  proof (cases "map_of gsm7bitDefMap c")
    case (Some s)
    note s = seven_bit_values(1) [OF Some]
    have "out < length d" using Cons.prems(1) Some by (auto simp: op_simps put_at_def split: if_splits)
    with Cons Some take_update_septets [OF Cons.prems(2) s] show ?thesis
      by (auto simp: op_simps put_at_def nat_add_distrib split: if_splits)
  next
    case None
    show ?thesis
    proof (cases "map_of (Get7BitCodingExtMap t) c")
      case (Some s)
      note s = seven_bit_values(2) [OF Some]
      show ?thesis
      proof (cases "m \<le> int (out + 1)")
        case True
        with Cons.prems None Some show ?thesis by (auto simp: op_simps)
      next
        case False
        then have len: "Suc out < length d" using Cons.prems(1) None Some by (auto simp: op_simps put_at_def split: if_splits)
        then have two: "\<forall>x \<in> set (take (Suc (Suc out)) (d[out := 0x1B, Suc out := s])). x < 0x80"
          by (intro take_update_septets [OF take_update_septets [OF Cons.prems(2) esc] s]) simp_all
        with Cons None Some False len show ?thesis
          by (auto simp: op_simps put_at_def nat_add_distrib split: if_splits)
      qed
    next
      case None
      with Cons.prems \<open>map_of gsm7bitDefMap c = None\<close> show ?thesis by (auto simp: op_simps)
    qed
  qed
qed (auto simp: ret_def)

lemma GsmUtf8ToAuto_septets:
  assumes "GsmUtf8ToAuto ic w m src k DATA_CODING_AUTO t l dest = Ok (n, DATA_CODING_7BIT, l') d"
  shows "\<forall>x \<in> set (take (nat n) d). x < 0x80"
  using assms
  by (auto simp: GsmUtf8ToAuto_def Ucs2ToGsm7bitAuto_def op_simps Let_def copy_prefix_def split: outcome.splits if_splits
      dest!: ucs2_auto_loop_septets)

lemma DecodeMessage_returns:
  assumes ic: "iconv_bounded ic" and c: "c \<noteq> DATA_CODING_7BIT" and len: "length dest = DECODE_DATA_SIZE"
  shows "\<exists>k sch l d. DecodeMessage ic wsize nt c msg dest = Ok (k, sch, l) d \<and> length d = length dest \<and> k \<le> int (length dest) \<and>
      (sch = DATA_CODING_7BIT \<longrightarrow> (\<forall>x \<in> set (take (nat k) d). x < 0x80))"
proof (cases "msg = []")
  case True
  then show ?thesis using c by (simp add: DecodeMessage_def op_simps)
next
  case False
  have "\<exists>n sch l d. GsmUtf8ToAuto ic wsize (int (length dest)) msg (int (length msg)) DATA_CODING_AUTO nt 0 dest = Ok (n, sch, l) d \<and>
      length d = length dest \<and> n \<le> int (length dest)"
    using GsmUtf8ToAuto_returns [OF ic, of "int (length msg)" msg "int (length dest)" dest wsize DATA_CODING_AUTO nt 0]
    by simp blast
  then have auto: "\<exists>n sch l d. GsmUtf8ToAuto ic wsize (int (length dest)) msg (int (length msg)) DATA_CODING_AUTO nt 0 dest = Ok (n, sch, l) d \<and>
      length d = length dest \<and> n \<le> int (length dest) \<and> (sch = DATA_CODING_7BIT \<longrightarrow> (\<forall>x \<in> set (take (nat n) d). x < 0x80))"
    using GsmUtf8ToAuto_septets by blast
  have "\<exists>n d. Utf8ToUcs2 ic (int (length dest)) msg (int (length msg)) dest = Ok n d \<and> length d = length dest \<and> n \<le> int (length dest)"
    using Utf8ToUcs2_returns [OF ic, of "int (length dest)" dest] by simp
  then show ?thesis using False c auto
    by (cases c) (auto simp: DecodeMessage_def op_simps Let_def put_all_def write_at_def)
qed

interpretation gsm_text: message_decoder ic "DecodeMessage ic wsize nt" "\<lambda>c. c \<noteq> DATA_CODING_7BIT"
  for ic wsize nt
  by unfold_locales (rule DecodeMessage_returns)

text \<open>
  C3. Splitting any text for sending (without the forced 7-bit mode): the call returns without leaving an array, also
  for texts longer than the array, and the loop over a UCS-2 text ends. Each segment is not empty, has the coding that was chosen
  for the text (and for 7-bit text its language) and fits into a message, with room for a concatenation header when there are several; the data of the
  segments in order are the coded text. ICU's break iterator is any set of boundaries.
\<close>

theorem SplitMessage_segments:
  assumes "iconv_bounded ic"
  shows "\<exists>k sch l d segs.
    DecodeMessage ic wsize nt (start_coding False addr) msg (replicate DECODE_DATA_SIZE 0) = Ok (k, sch, l) d \<and>
    SplitMessage ic wsize (Some icu) (DecodeMessage ic wsize nt) msg False port addr [] = Ok sch segs \<and>
    split_spec k sch l d segs"
proof -
  have "start_coding False addr \<noteq> DATA_CODING_7BIT" by (simp add: start_coding_def)
  from gsm_text.split_returns [OF assms this, of wsize nt msg wsize icu port "[]"] show ?thesis by simp
qed

theorem SplitMessage_segments_witness:
  "\<exists>k sch l d segs.
    DecodeMessage (\<lambda>_ _. None) 8 SMS_CODING_NATIONAL_TYPE_DEFAULT (start_coding False [0x31]) [0x61] (replicate DECODE_DATA_SIZE 0) = Ok (k, sch, l) d \<and>
    SplitMessage (\<lambda>_ _. None) 8 (Some (\<lambda>_ _. True)) (DecodeMessage (\<lambda>_ _. None) 8 SMS_CODING_NATIONAL_TYPE_DEFAULT) [0x61] False False [0x31] [] = Ok sch segs \<and>
    split_spec k sch l d segs"
  by (rule SplitMessage_segments) (simp add: iconv_bounded_def)

text \<open>
  \<^verbatim>\<open>GetSmsSegmentsInfo\<close>, which tells an application how many messages a text will take, counts differently from
  \<^verbatim>\<open>SplitMessage\<close>, which sends it: it subtracts a reply address of 12 octets that is never sent. For a text of 147 to 160
  septets it reports two segments, and exactly one is sent.
\<close>

theorem segment_count_differs:
  assumes "iconv_bounded ic" "decode DATA_CODING_AUTO msg (replicate DECODE_DATA_SIZE 0) = Ok (k, DATA_CODING_7BIT, 0) d"
    and "147 \<le> k" "k \<le> 160" "length d = DECODE_DATA_SIZE" "\<forall>x \<in> set (take (nat k) d). x < 0x80" "addr \<noteq> CT_SMSC"
  shows "\<exists>seg info'. SplitMessage ic wsize icu decode msg False False addr [] = Ok DATA_CODING_7BIT [seg] \<and>
    encodeData seg = take (nat k) d \<and> GetSmsSegmentsInfo decode msg False info = Ok () info' \<and> msgSegCount info' = 2"
proof -
  have size: "GetSegmentSize DATA_CODING_7BIT k False 0 = k" using assms(4)
    by (simp add: GetSegmentSize_def max_data_len_def is_7bit_def MSG_7BIT_DATA_LEN_def)
  have "nat k \<le> length d" "nat k \<le> MAX_MSG_TEXT_LEN"
    using assms(4,5) by (simp_all add: nat_le_iff DECODE_DATA_SIZE_def MAX_SEGMENT_NUM_def MAX_MSG_TEXT_LEN_def)
  then obtain seg where "push_segment ic wsize d DATA_CODING_7BIT 0 0 (nat k) [] = Ok () ([] @ [seg])"
      "seg_of DATA_CODING_7BIT 0 (take (nat k) (drop 0 d)) seg"
    using push_segment_returns [OF assms(1), of 0 "nat k" d DATA_CODING_7BIT wsize 0 "[]"] assms(6) by fastforce
  then have split: "SplitMessage ic wsize icu decode msg False False addr [] = Ok DATA_CODING_7BIT [seg]"
      "encodeData seg = take (nat k) d"
    using assms size ceil_div_self [of k]
    by (auto simp: SplitMessage_def split_data_def op_simps Let_def seg_of_def)
  have count: "uint (word_of_int k :: u16) = k" using assms(3,4) by (simp add: uint_word_of_int)
  have "ceil_div k 137 = 2" using assms(3,4) by (simp add: ceil_div_def)
  moreover have "GetMaxSegmentSize DATA_CODING_7BIT k False 0 MSG_ADD_PARAM_LEN = 137" using assms(3)
    by (simp add: GetMaxSegmentSize_def max_data_len_def is_7bit_def MSG_7BIT_DATA_LEN_def MSG_ADD_PARAM_LEN_def
        signed_divide_int_def)
  ultimately have "\<exists>info'. GetSmsSegmentsInfo decode msg False info = Ok () info' \<and> msgSegCount info' = 2"
    using assms(2,3) count by (simp add: GetSmsSegmentsInfo_def op_simps Let_def is_7bit_def)
  with split show ?thesis by blast
qed

theorem segment_count_differs_witness:
  "\<exists>seg info'. SplitMessage (\<lambda>_ _. None) 8 None (\<lambda>_ _ d. Ok (150, DATA_CODING_7BIT, 0) d) [0x61] False False [] [] = Ok DATA_CODING_7BIT [seg] \<and>
    encodeData seg = take (nat 150) (replicate DECODE_DATA_SIZE 0) \<and>
    GetSmsSegmentsInfo (\<lambda>_ _ d. Ok (150, DATA_CODING_7BIT, 0) d) [0x61] False
      \<lparr>li_dcs = 0, msgSegCount = 0, msgEncodeCount = 0, msgRemainCount = 0\<rparr> = Ok () info' \<and> msgSegCount info' = 2"
  by (rule segment_count_differs [where k = 150]) (simp_all add: iconv_bounded_def CT_SMSC_def)

text \<open>
  Received text in a national alphabet: the language of the shift table is read from the first header, whatever its
  type is. In a concatenated message, whose first header is the concatenation, it is the message reference
  that is taken for a language, and the letters of the announced Turkish table come out as spaces.
\<close>

theorem national_letters_lost:
  assumes "ud_header u = \<lparr>udhType = UDH_CONCAT_8BIT, udh = UdhConcat8bit c\<rparr> # \<lparr>udhType = UDH_SINGLE_SHIFT, udh = UdhSingleShift 1\<rparr> # rest"
    and "c8_msgRef c \<notin> {1, 2, 3}" "s \<in> {0x47, 0x49, 0x53, 0x63, 0x67, 0x69, 0x73}"
  shows "EscapeToUcs2 s (body_lang u) = Some 0x20 \<and>
    EscapeToUcs2 s (no_shift\<lparr>bSingleShift := True, singleLang := 1\<rparr>) \<noteq> Some 0x20"
proof -
  have "list_all (\<lambda>s. gsm7BitExtToUcs2 ! unat s = 0x20 \<and> turkishSingleToUcs2 ! unat s \<noteq> 0x20)
      [0x47, 0x49, 0x53, 0x63, 0x67, 0x69, 0x73 :: u8]"
    by (simp add: gsm7BitExtToUcs2_def turkishSingleToUcs2_def)
  then have "gsm7BitExtToUcs2 ! unat s = 0x20" "turkishSingleToUcs2 ! unat s \<noteq> 0x20" "unat s < 128"
    using assms(3) by auto
  then show ?thesis using assms(1,2)
    by (auto simp: body_lang_def udh_first_octet_def EscapeToUcs2_def GetGsm7BitExtToUcs2_def GetTurkishSingleToUcs2_def
        table_at_def no_shift_def Let_def)
qed

theorem national_letters_lost_witness:
  "EscapeToUcs2 0x53 (body_lang (zero_ud\<lparr>ud_header := [\<lparr>udhType = UDH_CONCAT_8BIT, udh = UdhConcat8bit \<lparr>c8_msgRef = 7, c8_totalSeg = 2, c8_seqNum = 1\<rparr>\<rparr>,
     \<lparr>udhType = UDH_SINGLE_SHIFT, udh = UdhSingleShift 1\<rparr>]\<rparr>)) = Some 0x20 \<and>
    EscapeToUcs2 0x53 (no_shift\<lparr>bSingleShift := True, singleLang := 1\<rparr>) \<noteq> Some 0x20"
  by (rule national_letters_lost [where c = "\<lparr>c8_msgRef = 7, c8_totalSeg = 2, c8_seqNum = 1\<rparr>" and rest = "[]"]) simp_all

end
