(* ===== verification/Sms_Sender.thy ===== *)
theory Sms_Sender
  imports Gsm_Sms_Message String_Utils
begin

text \<open>
  The outgoing side shared by the GSM and the CDMA sender: \<^verbatim>\<open>sms_send_indexer.cpp\<close> (one part of a message on its way)
  and \<^verbatim>\<open>sms_sender.cpp\<close> (the cache of parts without a result, the results of the radio, retries, the list of parts that
  wait for a delivery report, the splitting of data messages).

  Indexers are shared objects: the cache, the report list and a pending retry refer to the same one. They live in
  a heap, a list in which an object's address is its position; the \<^verbatim>\<open>shared_ptr<bool>\<close> that the parts of a text share
  refers to a second heap. A null pointer is \<open>None\<close>. What the sender does to its surroundings is a trace of outputs.
  Fault events for the statistics and log lines are left out.
\<close>

section \<open>The indexer\<close>

datatype NetWorkType = NET_TYPE_UNKNOWN | NET_TYPE_GSM | NET_TYPE_CDMA

datatype SmsSendResult =
    SEND_SMS_SUCCESS | SEND_SMS_FAILURE_UNKNOWN | SEND_SMS_FAILURE_RADIO_OFF | SEND_SMS_FAILURE_SERVICE_UNAVAILABLE

record SmsSendIndexer =
  ix_pdu :: bytes
  ix_smca :: bytes
  ackPdu :: bytes
  ix_data :: bytes
  errorCode :: u8
  ix_text :: bytes
  ix_netWorkType :: NetWorkType
  ix_scAddr :: bytes
  ix_destAddr :: bytes
  ix_destPort :: int
  isCdmaIms :: bool
  hasMore :: bool
  timeStamp :: int
  csResendCount :: u8
  psResendCount :: u8
  msgRefId :: u8
  msgRefId64Bit :: int
  unSentCellCount :: u8
  hasCellFailed :: "nat option"
  sendCallback :: "nat option"
  deliveryCallback :: "nat option"
  isFailure :: bool
  ix_dcs :: DataCodingScheme
  isConcat :: bool
  ix_smsConcat :: SmsConcat
  ix_langId :: u8
  isText :: bool
  isMmsApp :: bool
  msgId :: u16
  dataBaseId :: int

definition new_indexer :: SmsSendIndexer where
  "new_indexer = \<lparr>ix_pdu = [], ix_smca = [], ackPdu = [], ix_data = [], errorCode = 0, ix_text = [],
     ix_netWorkType = NET_TYPE_UNKNOWN, ix_scAddr = [], ix_destAddr = [], ix_destPort = 0, isCdmaIms = False,
     hasMore = False, timeStamp = 0, csResendCount = 0, psResendCount = 0, msgRefId = 0, msgRefId64Bit = 0,
     unSentCellCount = 0, hasCellFailed = None, sendCallback = None, deliveryCallback = None, isFailure = False,
     ix_dcs = DATA_CODING_7BIT, isConcat = False,
     ix_smsConcat = \<lparr>cc_msgRef = 0, cc_seqNum = 0, cc_totalSeg = 0, cc_is8Bits = False\<rparr>, ix_langId = 0, isText = False,
     isMmsApp = True, msgId = 0, dataBaseId = 0\<rparr>"

definition text_indexer :: "bytes \<Rightarrow> bytes \<Rightarrow> bytes \<Rightarrow> nat option \<Rightarrow> nat option \<Rightarrow> SmsSendIndexer" where
  "text_indexer desAddr scAddr txt sendCb deliveryCb = new_indexer\<lparr>ix_text := txt, ix_scAddr := scAddr,
     ix_destAddr := desAddr, sendCallback := sendCb, deliveryCallback := deliveryCb, isText := True\<rparr>"

definition data_indexer ::
  "bytes \<Rightarrow> bytes \<Rightarrow> int \<Rightarrow> bytes \<Rightarrow> nat option \<Rightarrow> nat option \<Rightarrow> SmsSendIndexer" where
  "data_indexer desAddr scAddr port dat sendCb deliveryCb = new_indexer\<lparr>ix_data := dat, ix_scAddr := scAddr,
     ix_destAddr := desAddr, ix_destPort := port, sendCallback := sendCb, deliveryCallback := deliveryCb,
     isText := False\<rparr>"

text \<open>A repeated SMS-SUBMIT carries the flag TP-RD and the same TP-MR.\<close>

definition UpdatePduForResend :: "SmsSendIndexer \<Rightarrow> SmsSendIndexer" where
  "UpdatePduForResend x = (case ix_pdu x of
     b # c # rest \<Rightarrow> if 0x01 AND b = 0x01 then x\<lparr>ix_pdu := (b OR 0x04) # msgRefId x # rest\<rparr> else x
   | _ \<Rightarrow> x)"

section \<open>State and outputs\<close>

record GsmSimMessageParam =
  gp_refId :: int
  gp_smscPdu :: bytes
  gp_pdu :: bytes

datatype msg_state = SMS_MMS_INFO_MSG_STATE_SUCCEED | SMS_MMS_INFO_MSG_STATE_FAILED

datatype notify_type = MESSAGE_STATUS_CHANGE_NOTIFY | SMS_MMS_SENT_RESULT_NOTIFY

datatype sender_out =
    OnSmsSendResult nat SmsSendResult
  | OnSmsDeliveryResult nat bytes
  | UpdateSms int msg_state
  | SendBroadcast int notify_type msg_state
  | RetryDelivery nat
  | SendSmsMoreMode GsmSimMessageParam
  | SendGsmSms GsmSimMessageParam
  | ImsSendMessage GsmSimMessageParam
  | SatelliteSendSmsMoreMode GsmSimMessageParam
  | SatelliteSendSms GsmSimMessageParam
  | SendSmsAck
  | SatelliteSendSmsAck
  | ImsSetSmsConfig int
  | ImsGetSmsConfig
  | RegisterImsSmsCallbackHandler
  | SendCdmaSms int bytes

text \<open>The members of \<^verbatim>\<open>SmsSender\<close>; \<^verbatim>\<open>msgSeqNum_\<close> and \<^verbatim>\<open>msgSubmitId_\<close> are members of the CDMA sender, which the GSM sender does not use.\<close>

record sender =
  indexers :: "SmsSendIndexer list"
  cell_flags :: "bool list"
  sendCacheMap :: "(int \<times> nat) list"
  msgRef64bit :: int
  reportList :: "nat list"
  msgRef8bit :: u8
  isImsNetDomain :: bool
  voiceServiceState :: int
  lastSmsDomain :: int
  imsSmsCfg :: int
  resIsSmsReady :: bool
  networkId :: "int option"
  isImsHandlerRegistered :: bool
  msgSeqNum :: u8
  msgSubmitId :: u8
  outs :: "sender_out list"

text \<open>
  The surroundings of one call: the clock, the value of \<^verbatim>\<open>ErrType::ERR_CMD_SEND_FAILURE\<close> and of
  \<^verbatim>\<open>RegServiceState::REG_STATE_IN_SERVICE\<close> (both declared by the core service), whether the IMS client exists, the satellite
  client (\<open>None\<close> in a build without it, otherwise whether satellite mode is on and its capability), the persisted and the
  operator settings, ICU, and what an uninitialised \<^verbatim>\<open>bool\<close> holds.
\<close>

record sender_env = sms_env +
  cmd_send_failure :: int
  reg_in_service :: int
  ims_client :: bool
  satellite :: "(bool \<times> int) option"
  force_7bit :: bool
  coding_national :: SmsCodingNationalType
  icu :: break_iterator
  uninit_bool :: bool

definition emit :: "sender_out \<Rightarrow> (sender, unit) op" where
  "emit e = upd (\<lambda>s. s\<lparr>outs := outs s @ [e]\<rparr>)"

definition get_ix :: "nat \<Rightarrow> (sender, SmsSendIndexer) op" where
  "get_ix p = bnd (gets indexers) (\<lambda>h. rd_at h p)"

definition upd_ix :: "nat \<Rightarrow> (SmsSendIndexer \<Rightarrow> SmsSendIndexer) \<Rightarrow> (sender, unit) op" where
  "upd_ix p f = bnd (get_ix p) (\<lambda>x. upd (\<lambda>s. s\<lparr>indexers := (indexers s)[p := f x]\<rparr>))"

definition make_indexer :: "SmsSendIndexer \<Rightarrow> (sender, nat) op" where
  "make_indexer x = bnd (gets (\<lambda>s. length (indexers s))) (\<lambda>p. seq (upd (\<lambda>s. s\<lparr>indexers := indexers s @ [x]\<rparr>)) (ret p))"

definition make_flag :: "bool \<Rightarrow> (sender, nat) op" where
  "make_flag b = bnd (gets (\<lambda>s. length (cell_flags s))) (\<lambda>p. seq (upd (\<lambda>s. s\<lparr>cell_flags := cell_flags s @ [b]\<rparr>)) (ret p))"

definition get_flag :: "nat \<Rightarrow> (sender, bool) op" where
  "get_flag p = bnd (gets cell_flags) (\<lambda>h. rd_at h p)"

definition set_flag :: "nat \<Rightarrow> (sender, unit) op" where
  "set_flag p = bnd (get_flag p) (\<lambda>_. upd (\<lambda>s. s\<lparr>cell_flags := (cell_flags s)[p := True]\<rparr>))"

section \<open>Results\<close>

definition MAX_SEND_RETRIES :: u8 where "MAX_SEND_RETRIES = 3"
definition EXPIRED_TIME :: int where "EXPIRED_TIME = 60 * 3"
definition MSG_QUEUE_LIMIT :: nat where "MSG_QUEUE_LIMIT = 25"
definition MAX_REPORT_LIST_LIMIT :: nat where "MAX_REPORT_LIST_LIMIT = 25"

abbreviation (input) "IMS_SMS_ENABLE \<equiv> 1 :: int"
abbreviation (input) "IMS_SMS_DISABLE \<equiv> 0 :: int"
abbreviation (input) "CS_DOMAIN \<equiv> 0 :: int"
abbreviation (input) "IMS_DOMAIN \<equiv> 1 :: int"

definition SendResultCallBack :: "nat option \<Rightarrow> SmsSendResult \<Rightarrow> (sender, unit) op" where
  "SendResultCallBack cb result = (case cb of None \<Rightarrow> ret () | Some c \<Rightarrow> emit (OnSmsSendResult c result))"

text \<open>The overload on an indexer.\<close>

definition SendResultCallBack_indexer :: "nat option \<Rightarrow> SmsSendResult \<Rightarrow> (sender, unit) op" where
  "SendResultCallBack_indexer p result = (case p of
     None \<Rightarrow> ret ()
   | Some p \<Rightarrow> bnd (get_ix p) (\<lambda>x. SendResultCallBack (sendCallback x) result))"

text \<open>The database row and the broadcast that follow the last result of a message, left out for row 0.\<close>

definition publish_state :: "SmsSendIndexer \<Rightarrow> msg_state \<Rightarrow> (sender, unit) op" where
  "publish_state x st =
     (if dataBaseId x = 0 then ret ()
      else seq (emit (UpdateSms (dataBaseId x) st))
             (emit (SendBroadcast (dataBaseId x)
                (if isMmsApp x then SMS_MMS_SENT_RESULT_NOTIFY else MESSAGE_STATUS_CHANGE_NOTIFY) st)))"

definition reset_counts :: "SmsSendIndexer \<Rightarrow> SmsSendIndexer" where
  "reset_counts x = x\<lparr>psResendCount := 0, csResendCount := 0\<rparr>"

definition SendMessageSucceed :: "nat \<Rightarrow> (sender, unit) op" where
  "SendMessageSucceed p =
     bnd (get_ix p) (\<lambda>x.
     if unSentCellCount x = 0 then
       seq (upd_ix p reset_counts) (
       bnd (case hasCellFailed x of None \<Rightarrow> ret False | Some f \<Rightarrow> get_flag f) (\<lambda>failed.
       seq (SendResultCallBack (sendCallback x) (if failed then SEND_SMS_FAILURE_UNKNOWN else SEND_SMS_SUCCESS))
         (publish_state x SMS_MMS_INFO_MSG_STATE_SUCCEED)))
     else ret ())"

definition SendMessageFailed :: "nat \<Rightarrow> (sender, unit) op" where
  "SendMessageFailed p =
     bnd (get_ix p) (\<lambda>x.
     seq (case hasCellFailed x of None \<Rightarrow> ret () | Some f \<Rightarrow> set_flag f)
       (if unSentCellCount x = 0 then
          seq (upd_ix p reset_counts) (
          seq (SendResultCallBack (sendCallback x) SEND_SMS_FAILURE_UNKNOWN)
            (publish_state x SMS_MMS_INFO_MSG_STATE_FAILED))
        else ret ()))"

section \<open>The cache of parts without a result\<close>

definition in_heap :: "sender \<Rightarrow> nat \<Rightarrow> bool" where
  "in_heap s p \<longleftrightarrow> p < length (indexers s)"

definition fresh_entries :: "int \<Rightarrow> sender \<Rightarrow> (int \<times> nat) list" where
  "fresh_entries now s = filter (\<lambda>(_, p). \<not> now - timeStamp (indexers s ! p) > EXPIRED_TIME) (sendCacheMap s)"

definition SendCacheMapTimeoutCheck :: "'e sender_env_scheme \<Rightarrow> (sender, unit) op" where
  "SendCacheMapTimeoutCheck env s =
     (if list_all (\<lambda>(_, p). in_heap s p) (sendCacheMap s) then Ok () (s\<lparr>sendCacheMap := fresh_entries (env_now env) s\<rparr>)
      else Fault)"

definition SendCacheMapLimitCheck :: "nat option \<Rightarrow> (sender, bool) op" where
  "SendCacheMapLimitCheck sendCb =
     bnd (gets sendCacheMap) (\<lambda>m.
     if length m > MSG_QUEUE_LIMIT then seq (SendResultCallBack sendCb SEND_SMS_FAILURE_UNKNOWN) (ret True) else ret False)"

text \<open>\<^verbatim>\<open>emplace\<close> leaves an existing entry as it is.\<close>

definition SendCacheMapAddItem :: "int \<Rightarrow> nat option \<Rightarrow> (sender, bool) op" where
  "SendCacheMapAddItem i p = (case p of
     None \<Rightarrow> ret False
   | Some p \<Rightarrow> bnd (gets sendCacheMap) (\<lambda>m.
       if map_of m i = None then seq (upd (\<lambda>s. s\<lparr>sendCacheMap := m @ [(i, p)]\<rparr>)) (ret True) else ret False))"

definition SendCacheMapEraseItem :: "int \<Rightarrow> (sender, bool) op" where
  "SendCacheMapEraseItem i =
     bnd (gets sendCacheMap) (\<lambda>m.
     seq (upd (\<lambda>s. s\<lparr>sendCacheMap := filter (\<lambda>(k, _). k \<noteq> i) m\<rparr>)) (ret (map_of m i \<noteq> None)))"

definition count_cell :: "u8 \<Rightarrow> SmsSendIndexer \<Rightarrow> SmsSendIndexer" where
  "count_cell refId x =
     (if msgRefId x = refId \<and> unSentCellCount x > 0 then x\<lparr>unSentCellCount := unSentCellCount x - 1\<rparr> else x)"

definition UpdateUnSentCellCount :: "u8 \<Rightarrow> (sender, unit) op" where
  "UpdateUnSentCellCount refId = bnd (gets sendCacheMap) (each (\<lambda>(_, p). upd_ix p (count_cell refId)))"

text \<open>What the radio answers: the failure of the request, the result of sending, or an object of another type.\<close>

datatype radio_answer =
    RadioResponseInfo int
  | SendSmsResultInfo (info_flag: int) (info_pdu: bytes) (info_errCode: int)
  | NoResult

definition answered :: "int \<Rightarrow> (SmsSendIndexer \<Rightarrow> SmsSendIndexer) \<Rightarrow> (sender, nat option) op" where
  "answered flag f =
     bnd (gets sendCacheMap) (\<lambda>m.
     case map_of m flag of
       None \<Rightarrow> ret None
     | Some p \<Rightarrow>
         seq (upd_ix p (\<lambda>x. f x\<lparr>msgRefId64Bit := flag\<rparr>)) (
         bnd (get_ix p) (\<lambda>x.
         seq (UpdateUnSentCellCount (msgRefId x))
           (ret (Some p)))))"

definition FindCacheMapAndTransform :: "radio_answer \<Rightarrow> (sender, nat option) op" where
  "FindCacheMapAndTransform ev = (case ev of
     RadioResponseInfo flag \<Rightarrow>
       answered flag (\<lambda>x. x\<lparr>errorCode := 1, isFailure := True\<rparr>)
   | SendSmsResultInfo flag pdu errCode \<Rightarrow>
       answered flag (\<lambda>x. x\<lparr>ackPdu := HexToByteVector pdu, isFailure := errCode \<noteq> 0, errorCode := word_of_int errCode\<rparr>)
   | NoResult \<Rightarrow> ret None)"

section \<open>Retries\<close>

definition HandleResend :: "'e sender_env_scheme \<Rightarrow> nat \<Rightarrow> (sender, unit) op" where
  "HandleResend env p =
     bnd (get_ix p) (\<lambda>x.
     bnd (gets lastSmsDomain) (\<lambda>domain.
     let code = uint (errorCode x) = cmd_send_failure env;
         csResend = (domain = 0 \<and> csResendCount x < MAX_SEND_RETRIES);
         psResend = (domain \<noteq> 0 \<and> psResendCount x \<le> MAX_SEND_RETRIES)
     in if code \<and> (csResend \<or> psResend) then
          (if domain \<noteq> 0 \<and> psResend then
             seq (upd_ix p (\<lambda>x. x\<lparr>psResendCount := psResendCount x + 1\<rparr>)) (emit (RetryDelivery p))
           else if csResend then
             seq (upd_ix p (\<lambda>x. x\<lparr>csResendCount := csResendCount x + 1\<rparr>)) (emit (RetryDelivery p))
           else ret ())
        else SendMessageFailed p))"

definition push_report :: "nat \<Rightarrow> (sender, unit) op" where
  "push_report p = upd (\<lambda>s. s\<lparr>reportList :=
     (if length (reportList s) > MAX_REPORT_LIST_LIMIT then tl (reportList s) else reportList s) @ [p]\<rparr>)"

definition HandleMessageResponse :: "'e sender_env_scheme \<Rightarrow> nat option \<Rightarrow> (sender, unit) op" where
  "HandleMessageResponse env ix = (case ix of
     None \<Rightarrow> ret ()
   | Some p \<Rightarrow>
       bnd (get_ix p) (\<lambda>x.
       seq (SendCacheMapEraseItem (msgRefId64Bit x)) (
       seq (SendCacheMapTimeoutCheck env)
         (if \<not> isFailure x then
            seq (if deliveryCallback x \<noteq> None then push_report p else ret ())
              (SendMessageSucceed p)
          else HandleResend env p))))"

section \<open>Configuration and the death of the radio service\<close>

definition GetMsgRef8Bit :: "(sender, u8) op" where
  "GetMsgRef8Bit = seq (upd (\<lambda>s. s\<lparr>msgRef8bit := msgRef8bit s + 1\<rparr>)) (gets msgRef8bit)"

definition GetMsgRef64Bit :: "(sender, int) op" where
  "GetMsgRef64Bit = seq (upd (\<lambda>s. s\<lparr>msgRef64bit := msgRef64bit s + 1\<rparr>)) (gets msgRef64bit)"

definition SetNetworkState :: "bool \<Rightarrow> int \<Rightarrow> (sender, unit) op" where
  "SetNetworkState ims voice = upd (\<lambda>s. s\<lparr>isImsNetDomain := ims, voiceServiceState := voice\<rparr>)"

definition SetNetworkId :: "int option \<Rightarrow> (sender, unit) op" where
  "SetNetworkId i = upd (\<lambda>s. s\<lparr>networkId := i\<rparr>)"

definition SyncSwitchISmsResponse :: "(sender, unit) op" where
  "SyncSwitchISmsResponse = upd (\<lambda>s. s\<lparr>resIsSmsReady := True\<rparr>)"

text \<open>The loop waits while the answer is there already, so it is never entered: \<^verbatim>\<open>resIsSmsReady_\<close> has just been cleared.\<close>

definition SetImsSmsConfig :: "'e sender_env_scheme \<Rightarrow> int \<Rightarrow> (sender, bool) op" where
  "SetImsSmsConfig env enable =
     (if \<not> ims_client env then ret False
      else seq (upd (\<lambda>s. s\<lparr>imsSmsCfg := enable, resIsSmsReady := False\<rparr>)) (
           seq (emit (ImsSetSmsConfig enable))
             (ret True)))"

text \<open>
  \<^verbatim>\<open>SendCacheMapEraseItem\<close> locks \<^verbatim>\<open>sendCacheMapMutex_\<close>, which this function holds: for a \<^verbatim>\<open>std::mutex\<close> that is undefined, and
  in practice the thread waits for itself. So nothing behind the call is reached.
\<close>

definition OnRilAdapterHostDied :: "(sender, unit) op" where
  "OnRilAdapterHostDied =
     bnd (gets sendCacheMap) (each (\<lambda>(_, p). bnd (get_ix p) (\<lambda>x. if isFailure x then ret () else fault)))"

section \<open>Data messages\<close>

text \<open>A loop that works on a local object; an iteration that gives \<open>None\<close> returns from the function.\<close>

fun loop_with :: "('i \<Rightarrow> 't \<Rightarrow> ('s, 't option) op) \<Rightarrow> 'i list \<Rightarrow> 't \<Rightarrow> ('s, unit) op" where
  "loop_with body [] t = ret ()"
| "loop_with body (i # is) t = bnd (body i t) (\<lambda>r. case r of None \<Rightarrow> ret () | Some t' \<Rightarrow> loop_with body is t')"

text \<open>The user data of the TPDU is cleared and filled with one part.\<close>

definition set_user_data :: "bytes \<Rightarrow> u8 \<Rightarrow> (GsmSmsMessage, unit) op" where
  "set_user_data enc msgRef = upd_submit (\<lambda>t. t\<lparr>
     sub_userData := (sub_userData t)\<lparr>
       ud_data := (write_at 0 enc (replicate (MAX_USER_DATA_LEN + 1) 0))[length enc := 0],
       ud_length := word_of_nat (length enc)\<rparr>,
     sub_msgRef := msgRef\<rparr>)"

definition set_header_count :: "int \<Rightarrow> SmsSubmit \<Rightarrow> SmsSubmit" where
  "set_header_count n t = t\<lparr>sub_userData := (sub_userData t)\<lparr>headerCnt := word_of_int n\<rparr>\<rparr>"

text \<open>The test of \<^verbatim>\<open>headerCnt\<close> against the size of the header array is made when it is at most 1.\<close>

definition page_encode :: "SmsConcat option \<Rightarrow> int \<Rightarrow> bytes \<Rightarrow> (GsmSmsMessage, EncodeInfo option) op" where
  "page_encode cc port scAddr =
     bnd (case cc of None \<Rightarrow> ret 0 | Some c \<Rightarrow> SetHeaderConcat 0 c) (\<lambda>n.
     seq (upd_submit (\<lambda>t. (set_header (nat n) UDH_APP_PORT_16BIT
            (UdhAppPort16bit \<lparr>p16_destPort = word_of_int port, p16_originPort = 0\<rparr>) t)\<lparr>sub_bHeaderInd := True\<rparr>)) (
     bnd (SetHeaderReply (n + 1)) (\<lambda>r.
     bnd (SetHeaderLang (n + 1 + r) DATA_CODING_7BIT MSG_ID_RESERVED_LANG) (\<lambda>l.
     seq (upd_submit (set_header_count (n + 1 + r + l)))
       (GetSubmitEncodeInfo scAddr False)))))"

definition part_concat :: "u8 \<Rightarrow> nat \<Rightarrow> nat \<Rightarrow> bool \<Rightarrow> SmsConcat" where
  "part_concat ref cnt i is8Bits = \<lparr>cc_msgRef = ucast ref, cc_seqNum = word_of_nat (i + 1),
     cc_totalSeg = word_of_nat cnt, cc_is8Bits = is8Bits\<rparr>"

definition DataBasedSmsDeliverySendSplitPage ::
  "(nat \<Rightarrow> (sender, unit) op) \<Rightarrow> 'e sender_env_scheme \<Rightarrow> EncodeInfo \<Rightarrow> nat \<Rightarrow> u8 \<Rightarrow> nat \<Rightarrow> (sender, unit) op" where
  "DataBasedSmsDeliverySendSplitPage sendSmsToRil env info p msgRef cnt =
     bnd (slice (smcaData info) 0 (unat (smcaLen info))) (\<lambda>smca.
     bnd (slice (tpduData info) 0 (unat (tpduLen info))) (\<lambda>pdu.
     bnd (make_flag False) (\<lambda>f.
     seq (upd_ix p (\<lambda>x. x\<lparr>unSentCellCount := word_of_nat cnt, hasCellFailed := Some f, ix_smca := smca, ix_pdu := pdu,
            hasMore := ei_isMore info, msgRefId := msgRef, ix_netWorkType := NET_TYPE_GSM, timeStamp := env_now env\<rparr>))
       (sendSmsToRil p))))"

definition DataBasedSmsDeliveryPacketSplitPage ::
  "(nat \<Rightarrow> (sender, unit) op) \<Rightarrow> 'e sender_env_scheme \<Rightarrow> u8 \<Rightarrow> int \<Rightarrow> bytes \<Rightarrow> nat option \<Rightarrow> nat option \<Rightarrow>
   nat \<Rightarrow> SplitInfo list \<Rightarrow> nat \<Rightarrow> GsmSmsMessage \<Rightarrow> (sender, GsmSmsMessage) op" where
  "DataBasedSmsDeliveryPacketSplitPage sendSmsToRil env msgRef port scAddr sendCb deliveryCb p cellsInfos i m =
     (let cnt = length cellsInfos; cc = part_concat msgRef cnt i True
      in bnd (rd_at cellsInfos i) (\<lambda>cell.
         bnd (with_new m (set_user_data (encodeData cell) msgRef)) (\<lambda>(_, m).
         seq (if cnt > 1 then upd_ix p (\<lambda>x. x\<lparr>isConcat := True, ix_smsConcat := cc\<rparr>) else ret ()) (
         bnd (with_new m (page_encode (if cnt > 1 then Some cc else None) port scAddr)) (\<lambda>(info, m).
         case info of
           None \<Rightarrow> seq (SendResultCallBack sendCb SEND_SMS_FAILURE_UNKNOWN) (ret m)
         | Some info \<Rightarrow>
             bnd (with_new m (upd_submit (\<lambda>t. t\<lparr>sub_bStatusReport :=
                    (if cnt > 1 \<and> i < cnt - 1 then False else deliveryCb \<noteq> None)\<rparr>))) (\<lambda>(_, m).
             seq (DataBasedSmsDeliverySendSplitPage sendSmsToRil env (info\<lparr>ei_isMore := cnt > 1\<rparr>) p msgRef cnt)
               (ret m)))))))"

text \<open>\<^verbatim>\<open>&encodeData[0]\<close> of an empty vector is undefined.\<close>

definition DataBasedSmsDeliverySplitPage ::
  "(nat \<Rightarrow> (sender, unit) op) \<Rightarrow> 'e sender_env_scheme \<Rightarrow> u8 \<Rightarrow> bytes \<Rightarrow> bytes \<Rightarrow> int \<Rightarrow> nat option \<Rightarrow> nat option \<Rightarrow>
   SplitInfo list \<Rightarrow> GsmSmsMessage \<Rightarrow> (sender, unit) op" where
  "DataBasedSmsDeliverySplitPage sendSmsToRil env msgRef desAddr scAddr port sendCb deliveryCb cellsInfos =
     loop_with (\<lambda>i m.
       bnd (rd_at cellsInfos i) (\<lambda>cell.
       bnd (make_indexer (data_indexer desAddr scAddr port (split_text cell) sendCb deliveryCb)) (\<lambda>p.
       if length (encodeData cell) > MAX_USER_DATA_LEN then ret None
       else if encodeData cell = [] then fault
       else bnd (DataBasedSmsDeliveryPacketSplitPage sendSmsToRil env msgRef port scAddr sendCb deliveryCb p cellsInfos i m)
              (\<lambda>m. ret (Some m)))))
     [0..<length cellsInfos]"

section \<open>Events\<close>

datatype sender_event =
    RADIO_SEND_SMS radio_answer
  | RADIO_SEND_CDMA_SMS radio_answer
  | RADIO_SEND_IMS_GSM_SMS radio_answer
  | RADIO_SEND_SMS_EXPECT_MORE radio_answer
  | MSG_SMS_RETRY_DELIVERY "nat option"
  | RADIO_SMS_STATUS "bytes option"
  | RADIO_SET_IMS_SMS "bool option"
  | RADIO_GET_IMS_SMS "int option"
  | UNKNOWN_EVENT

definition HandleAnswer :: "'e sender_env_scheme \<Rightarrow> radio_answer \<Rightarrow> (sender, unit) op" where
  "HandleAnswer env a = bnd (FindCacheMapAndTransform a) (HandleMessageResponse env)"

text \<open>
  \<open>sendRetry\<close> is \<^verbatim>\<open>sendRetryFun_\<close>, \<open>analysis\<close>, \<open>setIms\<close> and \<open>getIms\<close> are the virtual functions that a sender overrides.
\<close>

definition ProcessEvent ::
  "(nat option \<Rightarrow> (sender, unit) op) option \<Rightarrow> (bytes option \<Rightarrow> (sender, unit) op) \<Rightarrow> (bool option \<Rightarrow> (sender, unit) op) \<Rightarrow>
   (int option \<Rightarrow> (sender, unit) op) \<Rightarrow> 'e sender_env_scheme \<Rightarrow> sender_event \<Rightarrow> (sender, unit) op" where
  "ProcessEvent sendRetry analysis setIms getIms env ev = (case ev of
     RADIO_SEND_SMS a \<Rightarrow> HandleAnswer env a
   | RADIO_SEND_CDMA_SMS a \<Rightarrow> HandleAnswer env a
   | RADIO_SEND_IMS_GSM_SMS a \<Rightarrow> HandleAnswer env a
   | RADIO_SEND_SMS_EXPECT_MORE a \<Rightarrow> HandleAnswer env a
   | MSG_SMS_RETRY_DELIVERY p \<Rightarrow> (case sendRetry of None \<Rightarrow> ret () | Some f \<Rightarrow> f p)
   | RADIO_SMS_STATUS pdu \<Rightarrow> analysis pdu
   | RADIO_SET_IMS_SMS r \<Rightarrow> seq (setIms r) SyncSwitchISmsResponse
   | RADIO_GET_IMS_SMS r \<Rightarrow> seq (getIms r) SyncSwitchISmsResponse
   | UNKNOWN_EVENT \<Rightarrow> ret ())"

section \<open>One result for a message\<close>

text \<open>Objects are reached through distinct pointers, so an update of every cached part is an update at each position.\<close>

lemmas sender_ops = get_ix_def upd_ix_def get_flag_def set_flag_def emit_def op_simps

fun heap_map :: "('a \<Rightarrow> 'a) \<Rightarrow> nat list \<Rightarrow> 'a list \<Rightarrow> 'a list" where
  "heap_map g [] h = h"
| "heap_map g (p # ps) h = heap_map g ps (h[p := g (h ! p)])"

lemma length_heap_map [simp]: "length (heap_map g ps h) = length h"
  by (induction ps arbitrary: h) simp_all

lemma nth_heap_map:
  "distinct ps \<Longrightarrow> q < length h \<Longrightarrow> heap_map g ps h ! q = (if q \<in> set ps then g (h ! q) else h ! q)"
proof (induction ps arbitrary: h)
  case (Cons p ps)
  then show ?case by (cases "q = p") simp_all
qed simp

lemma upd_ix_eq: "in_heap s p \<Longrightarrow> upd_ix p g s = Ok () (s\<lparr>indexers := (indexers s)[p := g (indexers s ! p)]\<rparr>)"
  by (simp add: sender_ops in_heap_def)

lemma each_upd_ix:
  "list_all (\<lambda>(_, p). in_heap s p) m \<Longrightarrow>
   each (\<lambda>(_, p). upd_ix p g) m s = Ok () (s\<lparr>indexers := heap_map g (map snd m) (indexers s)\<rparr>)"
proof (induction m arbitrary: s)
  case (Cons kp m)
  obtain k p where kp: "kp = (k, p)" by (cases kp)
  have "list_all (\<lambda>(_, p). in_heap (s\<lparr>indexers := (indexers s)[p := g (indexers s ! p)]\<rparr>) p) m"
    using Cons.prems by (auto simp: in_heap_def list_all_iff)
  then show ?case using Cons.prems Cons.IH [of "s\<lparr>indexers := (indexers s)[p := g (indexers s ! p)]\<rparr>"]
    by (auto simp: kp upd_ix_eq seq_def bnd_def list_all_iff in_heap_def)
qed (simp add: ret_def)

lemma answered_None: "map_of (sendCacheMap s) k = None \<Longrightarrow> answered k f s = Ok None s"
  by (simp add: answered_def op_simps)

lemma answered_Some:
  assumes "map_of (sendCacheMap s) k = Some p" "list_all (\<lambda>(_, p). in_heap s p) (sendCacheMap s)"
    and "msgRefId (f (indexers s ! p)) = msgRefId (indexers s ! p)"
  shows "answered k f s = Ok (Some p) (s\<lparr>indexers := heap_map (count_cell (msgRefId (indexers s ! p)))
     (map snd (sendCacheMap s)) ((indexers s)[p := (f (indexers s ! p))\<lparr>msgRefId64Bit := k\<rparr>])\<rparr>)"
proof -
  have p: "p < length (indexers s)" using assms(2) map_of_SomeD [OF assms(1)] by (auto simp: list_all_iff in_heap_def)
  define t where "t = s\<lparr>indexers := (indexers s)[p := (f (indexers s ! p))\<lparr>msgRefId64Bit := k\<rparr>]\<rparr>"
  have "list_all (\<lambda>(_, p). in_heap t p) (sendCacheMap s)" using assms(2) by (simp add: t_def in_heap_def)
  from each_upd_ix [OF this] show ?thesis using assms p
    by (simp add: answered_def UpdateUnSentCellCount_def upd_ix_def get_ix_def op_simps t_def)
qed

text \<open>Handling an answer is independent of its kind: a part fails or not, with some error code.\<close>

fun answer_flag :: "radio_answer \<Rightarrow> int option" where
  "answer_flag (RadioResponseInfo k) = Some k"
| "answer_flag (SendSmsResultInfo k _ _) = Some k"
| "answer_flag NoResult = None"

fun answer_failed :: "radio_answer \<Rightarrow> bool" where
  "answer_failed (SendSmsResultInfo _ _ e) = (e \<noteq> 0)"
| "answer_failed _ = True"

fun answer_code :: "radio_answer \<Rightarrow> u8" where
  "answer_code (SendSmsResultInfo _ _ e) = word_of_int e"
| "answer_code _ = 1"

fun noted :: "radio_answer \<Rightarrow> SmsSendIndexer \<Rightarrow> SmsSendIndexer" where
  "noted (SendSmsResultInfo k pdu e) x =
     x\<lparr>ackPdu := HexToByteVector pdu, isFailure := e \<noteq> 0, errorCode := word_of_int e, msgRefId64Bit := k\<rparr>"
| "noted (RadioResponseInfo k) x = x\<lparr>errorCode := 1, isFailure := True, msgRefId64Bit := k\<rparr>"
| "noted NoResult x = x"

definition answered_heap :: "radio_answer \<Rightarrow> nat \<Rightarrow> sender \<Rightarrow> SmsSendIndexer list" where
  "answered_heap a p s = heap_map (count_cell (msgRefId (indexers s ! p))) (map snd (sendCacheMap s))
     ((indexers s)[p := noted a (indexers s ! p)])"

lemma FindCacheMapAndTransform_Some:
  assumes "answer_flag a = Some k" "map_of (sendCacheMap s) k = Some p" "list_all (\<lambda>(_, p). in_heap s p) (sendCacheMap s)"
  shows "FindCacheMapAndTransform a s = Ok (Some p) (s\<lparr>indexers := answered_heap a p s\<rparr>)"
  using assms answered_Some [OF assms(2,3)]
  by (cases a) (simp_all add: FindCacheMapAndTransform_def answered_heap_def)

lemma FindCacheMapAndTransform_None:
  assumes "\<And>k. answer_flag a = Some k \<Longrightarrow> map_of (sendCacheMap s) k = None"
  shows "FindCacheMapAndTransform a s = Ok None s"
  using assms by (cases a) (simp_all add: FindCacheMapAndTransform_def answered_None ret_def)

definition settled :: "'e sender_env_scheme \<Rightarrow> int \<Rightarrow> sender \<Rightarrow> sender" where
  "settled env k s = (let t = s\<lparr>sendCacheMap := filter (\<lambda>(i, _). i \<noteq> k) (sendCacheMap s)\<rparr>
     in t\<lparr>sendCacheMap := fresh_entries (env_now env) t\<rparr>)"

definition with_report :: "nat \<Rightarrow> sender \<Rightarrow> sender" where
  "with_report p s = (if deliveryCallback (indexers s ! p) = None then s else s\<lparr>reportList :=
     (if length (reportList s) > MAX_REPORT_LIST_LIMIT then tl (reportList s) else reportList s) @ [p]\<rparr>)"

lemma HandleMessageResponse_Some:
  assumes "in_heap s p" "list_all (\<lambda>(_, p). in_heap s p) (sendCacheMap s)"
  shows "HandleMessageResponse env (Some p) s =
    (let x = indexers s ! p; t = settled env (msgRefId64Bit x) s
     in if isFailure x then HandleResend env p t
        else SendMessageSucceed p (with_report p t))"
proof -
  have "list_all (\<lambda>(_, q). in_heap (s\<lparr>sendCacheMap := filter (\<lambda>(i, _). i \<noteq> k) (sendCacheMap s)\<rparr>) q)
      (filter (\<lambda>(i, _). i \<noteq> k) (sendCacheMap s))" for k
    using assms(2) by (auto simp: list_all_iff in_heap_def)
  then show ?thesis using assms(1)
    by (simp add: HandleMessageResponse_def SendCacheMapEraseItem_def SendCacheMapTimeoutCheck_def push_report_def settled_def
        with_report_def get_ix_def op_simps Let_def in_heap_def)
qed

text \<open>What is left of the effect once the part has left the cache: only its own object, the flags and the outputs change.\<close>

definition results_for :: "nat \<Rightarrow> sender \<Rightarrow> sender_out list" where
  "results_for cb s = filter (\<lambda>e. case e of OnSmsSendResult c _ \<Rightarrow> c = cb | _ \<Rightarrow> False) (outs s)"

definition cell_failed :: "sender \<Rightarrow> SmsSendIndexer \<Rightarrow> bool" where
  "cell_failed s x \<longleftrightarrow> (case hasCellFailed x of None \<Rightarrow> False | Some f \<Rightarrow> cell_flags s ! f)"

definition same_but :: "nat \<Rightarrow> sender \<Rightarrow> sender \<Rightarrow> bool" where
  "same_but p s t \<longleftrightarrow> sendCacheMap t = sendCacheMap s \<and> length (indexers t) = length (indexers s) \<and>
     (\<forall>q. q \<noteq> p \<longrightarrow> indexers t ! q = indexers s ! q) \<and> hasCellFailed (indexers t ! p) = hasCellFailed (indexers s ! p) \<and>
     length (cell_flags t) = length (cell_flags s)"

definition result_of :: "nat \<Rightarrow> SmsSendIndexer \<Rightarrow> SmsSendResult \<Rightarrow> sender_out list" where
  "result_of cb x r = (if unSentCellCount x = 0 \<and> sendCallback x = Some cb then [OnSmsSendResult cb r] else [])"

definition flag_ok :: "sender \<Rightarrow> SmsSendIndexer \<Rightarrow> bool" where
  "flag_ok s x \<longleftrightarrow> (\<forall>f. hasCellFailed x = Some f \<longrightarrow> f < length (cell_flags s))"

lemma SendMessageSucceed_effect:
  assumes "in_heap s p" "flag_ok s (indexers s ! p)"
  shows "\<exists>t. SendMessageSucceed p s = Ok () t \<and> same_but p s t \<and> cell_flags t = cell_flags s \<and>
    results_for cb t = results_for cb s @
      result_of cb (indexers s ! p) (if cell_failed s (indexers s ! p) then SEND_SMS_FAILURE_UNKNOWN else SEND_SMS_SUCCESS)"
  using assms
  by (auto simp: SendMessageSucceed_def SendResultCallBack_def publish_state_def reset_counts_def sender_ops in_heap_def
      same_but_def results_for_def result_of_def cell_failed_def flag_ok_def split: option.splits)

lemma SendMessageFailed_effect:
  assumes "in_heap s p" "flag_ok s (indexers s ! p)"
  shows "\<exists>t. SendMessageFailed p s = Ok () t \<and> same_but p s t \<and>
    cell_flags t = (case hasCellFailed (indexers s ! p) of None \<Rightarrow> cell_flags s | Some f \<Rightarrow> (cell_flags s)[f := True]) \<and>
    results_for cb t = results_for cb s @ result_of cb (indexers s ! p) SEND_SMS_FAILURE_UNKNOWN"
  using assms
  by (auto simp: SendMessageFailed_def SendResultCallBack_def publish_state_def reset_counts_def sender_ops in_heap_def
      same_but_def results_for_def result_of_def flag_ok_def split: option.splits)

text \<open>The code is of the kind the sender tries again.\<close>

definition retriable :: "'e sender_env_scheme \<Rightarrow> u8 \<Rightarrow> bool" where
  "retriable env c \<longleftrightarrow> uint c = cmd_send_failure env"

lemma HandleResend_final:
  assumes "in_heap s p" "\<not> retriable env (errorCode (indexers s ! p))"
  shows "HandleResend env p s = SendMessageFailed p s"
  using assms by (simp add: HandleResend_def sender_ops in_heap_def retriable_def Let_def)

lemma HandleResend_effect:
  assumes "in_heap s p" "flag_ok s (indexers s ! p)"
  shows "\<exists>t. HandleResend env p s = Ok () t \<and> same_but p s t \<and>
    (\<forall>g. hasCellFailed (indexers s ! p) \<noteq> Some g \<longrightarrow> cell_flags t ! g = cell_flags s ! g) \<and>
    (sendCallback (indexers s ! p) \<noteq> Some cb \<longrightarrow> results_for cb t = results_for cb s)"
proof (cases "HandleResend env p s = SendMessageFailed p s")
  case True
  with SendMessageFailed_effect [OF assms, of cb] show ?thesis by (auto simp: result_of_def split: option.splits)
next
  case False
  then show ?thesis using assms(1)
    by (auto simp: HandleResend_def sender_ops in_heap_def Let_def same_but_def results_for_def split: if_splits)
qed

text \<open>
  A message waits for the answers of the parts \<open>P\<close>: they are cached with the number of missing answers as their count,
  share callback and failure flag, and no other cached part has the message's reference, callback or flag.
\<close>

definition cache_ok :: "sender \<Rightarrow> bool" where
  "cache_ok s \<longleftrightarrow> distinct (map fst (sendCacheMap s)) \<and> distinct (map snd (sendCacheMap s)) \<and>
     list_all (\<lambda>(_, p). in_heap s p) (sendCacheMap s)"

definition part_waits :: "u8 \<Rightarrow> nat \<Rightarrow> nat \<Rightarrow> int \<Rightarrow> nat \<Rightarrow> SmsSendIndexer \<Rightarrow> bool" where
  "part_waits ref cb f since n x \<longleftrightarrow> msgRefId x = ref \<and> sendCallback x = Some cb \<and> hasCellFailed x = Some f \<and>
     since \<le> timeStamp x \<and> unSentCellCount x = word_of_nat n"

definition unrelated :: "u8 \<Rightarrow> nat \<Rightarrow> nat \<Rightarrow> SmsSendIndexer \<Rightarrow> bool" where
  "unrelated ref cb f x \<longleftrightarrow> msgRefId x \<noteq> ref \<and> sendCallback x \<noteq> Some cb \<and> hasCellFailed x \<noteq> Some f"

definition awaiting :: "u8 \<Rightarrow> nat \<Rightarrow> nat \<Rightarrow> int \<Rightarrow> (int \<times> nat) set \<Rightarrow> sender \<Rightarrow> bool" where
  "awaiting ref cb f since P s \<longleftrightarrow> cache_ok s \<and> P \<subseteq> set (sendCacheMap s) \<and> card P < 256 \<and> f < length (cell_flags s) \<and>
     (\<forall>(k, p) \<in> P. part_waits ref cb f since (card P) (indexers s ! p)) \<and>
     (\<forall>(k, p) \<in> set (sendCacheMap s) - P. unrelated ref cb f (indexers s ! p)) \<and>
     (\<forall>(k, p) \<in> set (sendCacheMap s). flag_ok s (indexers s ! p))"

lemma awaiting_same_but:
  assumes "awaiting ref cb f since P s" "same_but p s t" "p \<notin> snd ` set (sendCacheMap s)"
  shows "awaiting ref cb f since P t"
  using assms unfolding awaiting_def same_but_def cache_ok_def in_heap_def flag_ok_def by fastforce

lemma cached_ptr:
  assumes "cache_ok s" "(k, p) \<in> set (sendCacheMap s)" "(k', p) \<in> set (sendCacheMap s)"
  shows "k = k'"
  using assms unfolding cache_ok_def by (metis distinct_map inj_on_eq_iff prod.sel)

lemma noted_keeps [simp]:
  "msgRefId (noted a x) = msgRefId x" "sendCallback (noted a x) = sendCallback x" "hasCellFailed (noted a x) = hasCellFailed x"
  "timeStamp (noted a x) = timeStamp x" "unSentCellCount (noted a x) = unSentCellCount x"
  by (cases a; simp)+

lemma count_cell_keeps [simp]:
  "msgRefId (count_cell r x) = msgRefId x" "sendCallback (count_cell r x) = sendCallback x"
  "hasCellFailed (count_cell r x) = hasCellFailed x" "timeStamp (count_cell r x) = timeStamp x"
  "isFailure (count_cell r x) = isFailure x" "errorCode (count_cell r x) = errorCode x"
  "msgRefId64Bit (count_cell r x) = msgRefId64Bit x" "deliveryCallback (count_cell r x) = deliveryCallback x"
  by (simp_all add: count_cell_def)

lemma answered_heap_nth:
  assumes "cache_ok s" "(k, p) \<in> set (sendCacheMap s)" "(i, q) \<in> set (sendCacheMap s)"
  shows "answered_heap a p s ! q =
    count_cell (msgRefId (indexers s ! p)) (if q = p then noted a (indexers s ! p) else indexers s ! q)"
  using assms by (force simp: answered_heap_def nth_heap_map cache_ok_def list_all_iff in_heap_def nth_list_update)

lemma settled_cache:
  assumes "(i, q) \<in> set (sendCacheMap (settled env k s))"
  shows "(i, q) \<in> set (sendCacheMap s)" "i \<noteq> k"
  using assms by (auto simp: settled_def fresh_entries_def Let_def)

lemma settled_keeps [simp]:
  "indexers (settled env k s) = indexers s" "cell_flags (settled env k s) = cell_flags s" "outs (settled env k s) = outs s"
  "reportList (settled env k s) = reportList s" "lastSmsDomain (settled env k s) = lastSmsDomain s"
  by (simp_all add: settled_def Let_def)

lemma unat_word_of_nat_u8: "n < 256 \<Longrightarrow> unat (word_of_nat n :: u8) = n"
  by (simp add: unsigned_of_nat take_bit_nat_eq_self)

lemma word_of_nat_eq_0: "n < 256 \<Longrightarrow> (word_of_nat n :: u8) = 0 \<longleftrightarrow> n = 0"
  by (simp add: unat_word_of_nat_u8 flip: unat_eq_0)

lemma count_waits:
  assumes "part_waits ref cb f since (card P) x" "finite P" "kp \<in> P" "card P < 256"
  shows "part_waits ref cb f since (card (P - {kp})) (count_cell ref x)"
proof -
  have "card P > 0" using assms(2,3) card_gt_0_iff by blast
  then have "(word_of_nat (card P) :: u8) > 0" "(word_of_nat (card P) :: u8) - 1 = word_of_nat (card P - 1)"
    using assms(4) word_of_nat_eq_0 [of "card P"] by (simp_all add: word_gt_0)
  then show ?thesis using assms by (simp add: part_waits_def count_cell_def card_Diff_singleton)
qed

text \<open>After an answer to a cached part, and the removal of that part, the message waits for the others.\<close>

lemma awaiting_settled:
  fixes a :: radio_answer
  assumes w: "awaiting ref cb f since P s" and k: "(k, p) \<in> set (sendCacheMap s)" and now: "env_now env - since \<le> EXPIRED_TIME"
  defines "t \<equiv> settled env k (s\<lparr>indexers := answered_heap a p s\<rparr>)"
  shows "awaiting ref cb f since (P - {(k, p)}) t"
    and "p \<notin> snd ` set (sendCacheMap t)" "in_heap t p" "flag_ok t (indexers t ! p)"
proof -
  have cache: "cache_ok s" and sub: "P \<subseteq> set (sendCacheMap s)" and card: "card P < 256" using w by (simp_all add: awaiting_def)
  have fin: "finite P" using sub finite_subset by blast
  note nth = answered_heap_nth [OF cache k]
  have t_sub: "(i, q) \<in> set (sendCacheMap s) \<and> i \<noteq> k" if "(i, q) \<in> set (sendCacheMap t)" for i q
    using that settled_cache unfolding t_def by fastforce
  then show ptr: "p \<notin> snd ` set (sendCacheMap t)" using cached_ptr [OF cache k] by fastforce
  have heap: "length (indexers t) = length (indexers s)" "cell_flags t = cell_flags s" "indexers t = answered_heap a p s"
    by (simp_all add: t_def answered_heap_def)
  show "in_heap t p" using cache k heap(1) by (auto simp: cache_ok_def list_all_iff in_heap_def)
  show "flag_ok t (indexers t ! p)" using w k by (auto simp: awaiting_def heap nth [OF k] flag_ok_def)
  have ok: "cache_ok t" using cache t_sub heap(1)
    by (auto simp: cache_ok_def list_all_iff in_heap_def t_def settled_def fresh_entries_def Let_def distinct_map_filter)
  have other: "indexers t ! q = count_cell (msgRefId (indexers s ! p)) (indexers s ! q)" if "(i, q) \<in> set (sendCacheMap t)" for i q
    using t_sub [OF that] ptr that nth by (force simp: heap(3))
  have waits: "part_waits ref cb f since (card (P - {(k, p)})) (count_cell (msgRefId (indexers s ! p)) (indexers s ! q))"
    if "(i, q) \<in> P" for i q
  proof (cases "(k, p) \<in> P")
    case True
    then have "msgRefId (indexers s ! p) = ref" "part_waits ref cb f since (card P) (indexers s ! q)"
      using w that by (auto simp: awaiting_def part_waits_def)
    then show ?thesis using count_waits [OF _ fin True card] by simp
  next
    case False
    then have "msgRefId (indexers s ! p) \<noteq> ref" using w k by (auto simp: awaiting_def unrelated_def)
    then show ?thesis using w that False by (auto simp: awaiting_def part_waits_def count_cell_def)
  qed
  have stay: "(i, q) \<in> set (sendCacheMap t)" if "(i, q) \<in> P - {(k, p)}" for i q
  proof -
    have "(i, q) \<in> set (sendCacheMap s)" "since \<le> timeStamp (indexers s ! q)" "i \<noteq> k"
      using w that k by (auto simp: awaiting_def part_waits_def cache_ok_def dest: eq_key_imp_eq_value)
    then show ?thesis using now nth [of i q]
      by (auto simp: t_def settled_def fresh_entries_def Let_def split: if_splits)
  qed
  show "awaiting ref cb f since (P - {(k, p)}) t"
    using w ok stay waits other t_sub card_Diff1_le [of P "(k, p)"]
    unfolding awaiting_def by (fastforce simp: heap(2) unrelated_def flag_ok_def)
qed

lemma noted_answer:
  "answer_flag a = Some k \<Longrightarrow> msgRefId64Bit (noted a x) = k \<and> isFailure (noted a x) = answer_failed a \<and>
     errorCode (noted a x) = answer_code a \<and> deliveryCallback (noted a x) = deliveryCallback x"
  by (cases a) simp_all

lemma HandleAnswer_cached:
  fixes env :: "'e sender_env_scheme"
  assumes "cache_ok s" "answer_flag a = Some k" "(k, p) \<in> set (sendCacheMap s)"
  defines "t \<equiv> settled env k (s\<lparr>indexers := answered_heap a p s\<rparr>)"
  shows "HandleAnswer env a s =
    (if answer_failed a then HandleResend env p t
     else SendMessageSucceed p (with_report p t))"
proof -
  define u where "u = s\<lparr>indexers := answered_heap a p s\<rparr>"
  have heap: "list_all (\<lambda>(_, p). in_heap s p) (sendCacheMap s)" and key: "map_of (sendCacheMap s) k = Some p"
    using assms(1,3) by (simp_all add: cache_ok_def)
  have u: "in_heap u p" "list_all (\<lambda>(_, p). in_heap u p) (sendCacheMap u)"
    using heap assms(3) by (auto simp: u_def in_heap_def answered_heap_def list_all_iff)
  have x: "msgRefId64Bit (indexers u ! p) = k" "isFailure (indexers u ! p) = answer_failed a"
    using answered_heap_nth [OF assms(1,3,3), of a] noted_answer [OF assms(2)] by (simp_all add: u_def)
  have "HandleAnswer env a s = HandleMessageResponse env (Some p) u"
    by (simp add: HandleAnswer_def bnd_def FindCacheMapAndTransform_Some [OF assms(2) key heap] u_def)
  also have "\<dots> = (if answer_failed a then HandleResend env p t
     else SendMessageSucceed p (with_report p t))"
    unfolding HandleMessageResponse_Some [OF u] t_def u_def [symmetric] by (simp add: x Let_def)
  finally show ?thesis .
qed

lemma with_report_keeps [simp]:
  "indexers (with_report p s) = indexers s" "cell_flags (with_report p s) = cell_flags s"
  "sendCacheMap (with_report p s) = sendCacheMap s" "results_for cb (with_report p s) = results_for cb s"
  "in_heap (with_report p s) q = in_heap s q" "flag_ok (with_report p s) x = flag_ok s x"
  "awaiting ref cb f since P (with_report p s) = awaiting ref cb f since P s"
  by (simp_all add: with_report_def results_for_def in_heap_def flag_ok_def awaiting_def cache_ok_def)

lemma results_for_settled [simp]:
  "results_for cb (settled env k (s\<lparr>indexers := h\<rparr>)) = results_for cb s"
  by (simp add: results_for_def)

lemma own_answer:
  assumes w: "awaiting ref cb f since P s" and k: "answer_flag a = Some k" "(k, p) \<in> P"
    and env: "env_now env - since \<le> EXPIRED_TIME" "answer_failed a \<longrightarrow> \<not> retriable env (answer_code a)"
  shows "\<exists>t. HandleAnswer env a s = Ok () t \<and> awaiting ref cb f since (P - {(k, p)}) t \<and>
    cell_flags t ! f = (cell_flags s ! f \<or> answer_failed a) \<and>
    results_for cb t = results_for cb s @ (if card P = 1 then [OnSmsSendResult cb
      (if cell_flags s ! f \<or> answer_failed a then SEND_SMS_FAILURE_UNKNOWN else SEND_SMS_SUCCESS)] else [])"
proof -
  have kp: "(k, p) \<in> set (sendCacheMap s)" and cache: "cache_ok s" and fin: "finite P" and card: "card P < 256"
    and f: "f < length (cell_flags s)"
    using w k(2) by (auto simp: awaiting_def intro: finite_subset)
  define u where "u = settled env k (s\<lparr>indexers := answered_heap a p s\<rparr>)"
  note u = awaiting_settled [OF w kp env(1), of a, folded u_def]
  have ix: "indexers u ! p = count_cell ref (noted a (indexers s ! p))"
    using answered_heap_nth [OF cache kp kp, of a] w k(2) by (auto simp: u_def awaiting_def part_waits_def)
  moreover have "part_waits ref cb f since (card P) (noted a (indexers s ! p))"
    using w k(2) by (auto simp: awaiting_def part_waits_def)
  ultimately have x: "part_waits ref cb f since (card (P - {(k, p)})) (indexers u ! p)"
    using count_waits [OF _ fin k(2) card] by simp
  have last: "unSentCellCount (indexers u ! p) = 0 \<longleftrightarrow> card P = 1"
    using x card fin k(2) card_gt_0_iff [of P] by (auto simp: part_waits_def word_of_nat_eq_0 card_Diff_singleton)
  have code: "errorCode (indexers u ! p) = answer_code a" using noted_answer [OF k(1)] by (simp add: ix)
  show ?thesis
  proof (cases "answer_failed a")
    case True
    then have "HandleAnswer env a s = SendMessageFailed p u"
      using HandleAnswer_cached [OF cache k(1) kp, of env] HandleResend_final [OF u(3), of env] env(2) code by (simp add: u_def)
    then show ?thesis using SendMessageFailed_effect [OF u(3,4), of cb] awaiting_same_but [OF u(1) _ u(2)] True x last f
      by (auto simp: part_waits_def result_of_def u_def)
  next
    case False
    then have "HandleAnswer env a s = SendMessageSucceed p (with_report p u)"
      using HandleAnswer_cached [OF cache k(1) kp, of env] by (simp add: u_def)
    then show ?thesis using SendMessageSucceed_effect [of "with_report p u" p cb] u False x last
        awaiting_same_but [of ref cb f since _ "with_report p u" p]
      by (auto simp: part_waits_def result_of_def u_def cell_failed_def)
  qed
qed

lemma other_answer:
  assumes w: "awaiting ref cb f since P s" and k: "\<And>k. answer_flag a = Some k \<Longrightarrow> k \<notin> fst ` P"
    and env: "env_now env - since \<le> EXPIRED_TIME"
  shows "\<exists>t. HandleAnswer env a s = Ok () t \<and> awaiting ref cb f since P t \<and>
    cell_flags t ! f = cell_flags s ! f \<and> results_for cb t = results_for cb s"
proof (cases "\<exists>k p. answer_flag a = Some k \<and> (k, p) \<in> set (sendCacheMap s)")
  case False
  then have "FindCacheMapAndTransform a s = Ok None s"
    by (intro FindCacheMapAndTransform_None) (auto simp: map_of_eq_None_iff)
  then show ?thesis using w by (simp add: HandleAnswer_def bnd_def HandleMessageResponse_def ret_def)
next
  case True
  then obtain i p where i: "answer_flag a = Some i" and ip: "(i, p) \<in> set (sendCacheMap s)" by blast
  have cache: "cache_ok s" and no: "(i, p) \<notin> P" using w k [OF i] by (force simp: awaiting_def)+
  define u where "u = settled env i (s\<lparr>indexers := answered_heap a p s\<rparr>)"
  note u = awaiting_settled [OF w ip env(1), of a, folded u_def]
  have x: "unrelated ref cb f (indexers u ! p)"
    using answered_heap_nth [OF cache ip ip, of a] w ip no by (auto simp: u_def awaiting_def unrelated_def)
  have "HandleAnswer env a s = (if answer_failed a then HandleResend env p u else SendMessageSucceed p (with_report p u))"
    using HandleAnswer_cached [OF cache i ip, of env] by (simp add: u_def)
  moreover obtain t where "SendMessageSucceed p (with_report p u) = Ok () t" "same_but p (with_report p u) t"
      "cell_flags t = cell_flags u" "results_for cb t = results_for cb u"
    using SendMessageSucceed_effect [of "with_report p u" p cb] u x by (auto simp: unrelated_def result_of_def)
  moreover obtain r where "HandleResend env p u = Ok () r" "same_but p u r"
      "cell_flags r ! f = cell_flags u ! f" "results_for cb r = results_for cb u"
    using HandleResend_effect [OF u(3,4), of env cb] x by (auto simp: unrelated_def)
  moreover have "awaiting ref cb f since P (with_report p u)" "awaiting ref cb f since P u" using u(1) no by simp_all
  moreover have "cell_flags u = cell_flags s" "results_for cb u = results_for cb s" by (simp_all add: u_def)
  ultimately show ?thesis using awaiting_same_but u(2) with_report_keeps(3) by (cases "answer_failed a") (metis (full_types))+
qed

definition handle_all :: "('e sender_env_scheme \<times> radio_answer) list \<Rightarrow> (sender, unit) op" where
  "handle_all = each (\<lambda>(env, a). HandleAnswer env a)"

definition answers_to :: "int set \<Rightarrow> ('e sender_env_scheme \<times> radio_answer) list \<Rightarrow> ('e sender_env_scheme \<times> radio_answer) list" where
  "answers_to K evs = filter (\<lambda>(_, a). answer_flag a \<in> Some ` K) evs"

text \<open>Answers in time, at most one for each part, and none of them asks for a retry.\<close>

definition final_answers :: "int \<Rightarrow> int set \<Rightarrow> ('e sender_env_scheme \<times> radio_answer) list \<Rightarrow> bool" where
  "final_answers since K evs \<longleftrightarrow> (\<forall>(env, a) \<in> set evs. env_now env - since \<le> EXPIRED_TIME) \<and>
     distinct (map (answer_flag \<circ> snd) (answers_to K evs)) \<and>
     (\<forall>(env, a) \<in> set (answers_to K evs). answer_failed a \<longrightarrow> \<not> retriable env (answer_code a))"

lemma handle_all_awaiting:
  assumes "awaiting ref cb f since P s" "final_answers since (fst ` P) evs"
  shows "\<exists>t. handle_all evs s = Ok () t \<and> results_for cb t = results_for cb s @
    (if P \<noteq> {} \<and> (\<forall>k \<in> fst ` P. Some k \<in> (answer_flag \<circ> snd) ` set evs) then [OnSmsSendResult cb
      (if cell_flags s ! f \<or> (\<exists>(_, a) \<in> set (answers_to (fst ` P) evs). answer_failed a)
       then SEND_SMS_FAILURE_UNKNOWN else SEND_SMS_SUCCESS)] else [])"
  using assms
proof (induction evs arbitrary: s P)
  case Nil
  then show ?case by (auto simp: handle_all_def ret_def)
next
  case (Cons ea evs)
  obtain env a where ea: "ea = (env, a)" by (cases ea)
  have now: "env_now env - since \<le> EXPIRED_TIME" using Cons.prems(2) by (simp add: final_answers_def ea)
  have run: "handle_all (ea # evs) s = handle_all evs t" if "HandleAnswer env a s = Ok () t" for t
    using that by (simp add: handle_all_def ea seq_def bnd_def)
  show ?case
  proof (cases "\<exists>k p. answer_flag a = Some k \<and> (k, p) \<in> P")
    case False
    then have k: "k \<notin> fst ` P" if "answer_flag a = Some k" for k using that by force
    obtain t where t: "HandleAnswer env a s = Ok () t" "awaiting ref cb f since P t"
        "cell_flags t ! f = cell_flags s ! f" "results_for cb t = results_for cb s"
      using other_answer [OF Cons.prems(1) k now] by blast
    have "answers_to (fst ` P) (ea # evs) = answers_to (fst ` P) evs" using k by (auto simp: answers_to_def ea)
    moreover from this have "final_answers since (fst ` P) evs" using Cons.prems(2) by (simp add: final_answers_def)
    moreover have "(\<forall>k \<in> fst ` P. Some k \<in> (answer_flag \<circ> snd) ` set (ea # evs)) \<longleftrightarrow>
        (\<forall>k \<in> fst ` P. Some k \<in> (answer_flag \<circ> snd) ` set evs)"
      using k by (simp add: ea) (metis fst_conv imageI)
    ultimately show ?thesis using Cons.IH [OF t(2)] t(3,4) run [OF t(1)] by (simp only:)
  next
    case True
    then obtain k p where k: "answer_flag a = Some k" "(k, p) \<in> P" by blast
    have "(k, q) \<in> P \<longleftrightarrow> q = p" for q
      using Cons.prems(1) k(2) unfolding awaiting_def cache_ok_def by (meson eq_key_imp_eq_value subsetD)
    then have "fst x = k \<longleftrightarrow> x = (k, p)" if "x \<in> P" for x using that by (metis prod.collapse fst_conv)
    then have keys: "fst ` (P - {(k, p)}) = fst ` P - {k}" by blast
    have own: "answers_to (fst ` P) ((env, a) # evs) = (env, a) # answers_to (fst ` P) evs"
      using k by (force simp: answers_to_def)
    have "Some k \<notin> (answer_flag \<circ> snd) ` set (answers_to (fst ` P) evs)"
      using Cons.prems(2) k(1) by (simp add: final_answers_def own ea)
    moreover have "x \<in> set (answers_to (fst ` P) evs)" if "x \<in> set evs" "answer_flag (snd x) = Some k" for x
      using that imageI [OF imageI [OF k(2), of fst], of Some] by (simp add: answers_to_def case_prod_beta)
    ultimately have once: "Some k \<notin> (answer_flag \<circ> snd) ` set evs" by fastforce
    then have rest: "answers_to (fst ` P - {k}) evs = answers_to (fst ` P) evs"
      unfolding answers_to_def by (intro filter_cong) force+
    have final: "final_answers since (fst ` (P - {(k, p)})) evs" "answer_failed a \<longrightarrow> \<not> retriable env (answer_code a)"
      using Cons.prems(2) by (auto simp: final_answers_def own ea keys rest)
    obtain t where t: "HandleAnswer env a s = Ok () t" "awaiting ref cb f since (P - {(k, p)}) t"
        "cell_flags t ! f = (cell_flags s ! f \<or> answer_failed a)"
        "results_for cb t = results_for cb s @ (if card P = 1 then [OnSmsSendResult cb
           (if cell_flags s ! f \<or> answer_failed a then SEND_SMS_FAILURE_UNKNOWN else SEND_SMS_SUCCESS)] else [])"
      using own_answer [OF Cons.prems(1) k now final(2)] by blast
    have "finite P" using Cons.prems(1) finite_subset by (auto simp: awaiting_def)
    then have one: "card P = 1 \<longleftrightarrow> P - {(k, p)} = {}" using k(2) by (auto simp: card_1_singleton_iff)
    have all: "(\<forall>k' \<in> fst ` P. Some k' \<in> (answer_flag \<circ> snd) ` set (ea # evs)) \<longleftrightarrow>
        (\<forall>k' \<in> fst ` (P - {(k, p)}). Some k' \<in> (answer_flag \<circ> snd) ` set evs)"
      using k once by (auto simp: ea keys)
    have some: "(\<exists>(_, a) \<in> set (answers_to (fst ` P) (ea # evs)). answer_failed a) \<longleftrightarrow>
        answer_failed a \<or> (\<exists>(_, a) \<in> set (answers_to (fst ` (P - {(k, p)})) evs). answer_failed a)"
      unfolding keys rest ea own by simp
    define Q where "Q = P - {(k, p)}"
    obtain r where r: "handle_all evs t = Ok () r" "results_for cb r = results_for cb t @
        (if Q \<noteq> {} \<and> (\<forall>k \<in> fst ` Q. Some k \<in> (answer_flag \<circ> snd) ` set evs) then [OnSmsSendResult cb
          (if cell_flags t ! f \<or> (\<exists>(_, a) \<in> set (answers_to (fst ` Q) evs). answer_failed a)
           then SEND_SMS_FAILURE_UNKNOWN else SEND_SMS_SUCCESS)] else [])"
      using Cons.IH [OF t(2) final(1)] unfolding Q_def by blast
    have "P \<noteq> {}" using k(2) by blast
    then show ?thesis unfolding run [OF t(1)] all some r(1) Q_def [symmetric]
      using r(2) t(3,4) one [folded Q_def] by (cases "Q = {}") (simp_all add: answers_to_def disj_assoc)
  qed
qed

text \<open>
  C18. A message is reported once. Its parts wait for their answers; answers to them come in any order, at most one for each
  part, mixed with answers to other messages, in time and without a request to retry. Then the sender returns from every
  answer; the message's callback hears nothing before the last part is answered, and exactly one result then: success if
  and only if every part was sent.
\<close>

theorem one_result_per_message:
  assumes "awaiting ref cb f since P s" "P \<noteq> {}" "final_answers since (fst ` P) evs" "\<not> cell_flags s ! f"
  shows "\<exists>t. handle_all evs s = Ok () t \<and> results_for cb t = results_for cb s @
    (if \<forall>k \<in> fst ` P. Some k \<in> (answer_flag \<circ> snd) ` set evs then [OnSmsSendResult cb
      (if \<exists>(_, a) \<in> set (answers_to (fst ` P) evs). answer_failed a then SEND_SMS_FAILURE_UNKNOWN else SEND_SMS_SUCCESS)]
     else [])"
  using handle_all_awaiting [OF assms(1,3)] assms(2,4) by (simp cong: if_cong split del: if_split)

text \<open>A conversion to UTF-16 that knows ASCII only, for examples.\<close>

definition ascii_iconv :: iconv where
  "ascii_iconv to_set from_set = Some (\<lambda>src n. (True, take n (concat (map (\<lambda>c. [0, c]) src))))"

definition example_env :: sender_env where
  "example_env = \<lparr>env_iconv = ascii_iconv, env_wsize = 8, env_timezone = 0, env_now = 100,
     cmd_send_failure = 2, reg_in_service = 1, ims_client = True, satellite = None, force_7bit = False,
     coding_national = SMS_CODING_NATIONAL_TYPE_DEFAULT, icu = Some (\<lambda>_ _. True), uninit_bool = False\<rparr>"

definition idle_sender :: sender where
  "idle_sender = \<lparr>indexers = [], cell_flags = [], sendCacheMap = [], msgRef64bit = 0, reportList = [], msgRef8bit = 0,
     isImsNetDomain = False, voiceServiceState = 1, lastSmsDomain = 0, imsSmsCfg = 1, resIsSmsReady = False,
     networkId = None, isImsHandlerRegistered = False, msgSeqNum = 0, msgSubmitId = 0, outs = []\<rparr>"

definition waiting_part :: SmsSendIndexer where
  "waiting_part = new_indexer\<lparr>msgRefId := 7, sendCallback := Some 4, hasCellFailed := Some 0, timeStamp := 50,
     unSentCellCount := 2\<rparr>"

definition waiting_sender :: sender where
  "waiting_sender = idle_sender\<lparr>indexers := [waiting_part, waiting_part], cell_flags := [False],
     sendCacheMap := [(1, 0), (2, 1)], msgRef64bit := 2\<rparr>"

lemma waiting_sender_awaiting: "awaiting 7 4 0 50 {(1, 0), (2, 1)} waiting_sender"
  by (simp add: awaiting_def cache_ok_def in_heap_def part_waits_def flag_ok_def waiting_sender_def waiting_part_def
      idle_sender_def new_indexer_def)

theorem one_result_per_message_witness:
  "\<exists>t. handle_all [(example_env, SendSmsResultInfo 2 [] 0), (example_env, RadioResponseInfo 1)] waiting_sender = Ok () t \<and>
    results_for 4 t = results_for 4 waiting_sender @ [OnSmsSendResult 4 SEND_SMS_FAILURE_UNKNOWN]"
  using one_result_per_message [OF waiting_sender_awaiting, of "[(example_env, SendSmsResultInfo 2 [] 0), (example_env, RadioResponseInfo 1)]"]
  by (simp add: final_answers_def answers_to_def example_env_def EXPIRED_TIME_def retriable_def waiting_sender_def)

section \<open>Retries end\<close>

text \<open>
  A part that has been tried again \<open>n\<close> times since it was handed over: between two failures the sender may do anything
  that leaves the part's counters alone, such as sending other messages over another transport.
\<close>

inductive retried :: "nat \<Rightarrow> nat \<Rightarrow> sender \<Rightarrow> bool" where
  first: "csResendCount (indexers s ! p) = 0 \<Longrightarrow> psResendCount (indexers s ! p) = 0 \<Longrightarrow> retried p 0 s"
| retry: "retried p n s \<Longrightarrow> in_heap s p \<Longrightarrow> HandleResend (env :: sender_env) p s = Ok () t \<Longrightarrow>
    RetryDelivery p \<in> set (drop (length (outs s)) (outs t)) \<Longrightarrow>
    retried p (Suc n) t"
| other: "retried p n s \<Longrightarrow> csResendCount (indexers t ! p) = csResendCount (indexers s ! p) \<Longrightarrow>
    psResendCount (indexers t ! p) = psResendCount (indexers s ! p) \<Longrightarrow> retried p n t"

lemma SendMessageFailed_no_retry:
  assumes "in_heap s p" "SendMessageFailed p s = Ok () t"
  shows "RetryDelivery q \<notin> set (drop (length (outs s)) (outs t))"
  using assms
  by (auto simp: SendMessageFailed_def SendResultCallBack_def publish_state_def sender_ops in_heap_def
      split: if_splits option.splits)

lemma HandleResend_retry:
  assumes "in_heap s p" "HandleResend env p s = Ok () t" "RetryDelivery p \<in> set (drop (length (outs s)) (outs t))"
  shows "(lastSmsDomain s \<noteq> 0 \<and> psResendCount (indexers s ! p) \<le> 3 \<and>
      psResendCount (indexers t ! p) = psResendCount (indexers s ! p) + 1 \<and>
      csResendCount (indexers t ! p) = csResendCount (indexers s ! p)) \<or>
    (lastSmsDomain s = 0 \<and> csResendCount (indexers s ! p) < 3 \<and>
      csResendCount (indexers t ! p) = csResendCount (indexers s ! p) + 1 \<and>
      psResendCount (indexers t ! p) = psResendCount (indexers s ! p))"
  using assms SendMessageFailed_no_retry [OF assms(1)]
  by (auto simp: HandleResend_def sender_ops in_heap_def Let_def MAX_SEND_RETRIES_def split: if_splits)

lemma retried_counts:
  "retried p n s \<Longrightarrow> unat (csResendCount (indexers s ! p)) \<le> 3 \<and> unat (psResendCount (indexers s ! p)) \<le> 4 \<and>
     n = unat (csResendCount (indexers s ! p)) + unat (psResendCount (indexers s ! p))"
proof (induction rule: retried.induct)
  case (retry p n s env t)
  have inc: "c \<le> 3 \<Longrightarrow> unat (c + 1) = unat c + 1 \<and> unat c \<le> 3" "c < 3 \<Longrightarrow> unat (c + 1) = unat c + 1 \<and> unat c \<le> 2" for c :: u8
    by (auto simp: word_le_nat_alt word_less_nat_alt unat_plus_if')
  show ?case using HandleResend_retry [OF retry(2-4)] retry.IH inc by auto
qed auto

text \<open>
  C19. Retrying ends: a part is tried again at most seven times, whatever transport its attempts and other
  messages use in between (at most three times over circuit switched transport and four times over IMS). After the seventh retry
  a failure is final.
\<close>

theorem retries_end:
  assumes "retried p n s" "in_heap s p"
  shows "n \<le> 7 \<and> (n = 7 \<longrightarrow> HandleResend env p s = SendMessageFailed p s)"
proof -
  have c: "unat (csResendCount (indexers s ! p)) \<le> 3" "unat (psResendCount (indexers s ! p)) \<le> 4"
      "n = unat (csResendCount (indexers s ! p)) + unat (psResendCount (indexers s ! p))"
    using retried_counts [OF assms(1)] by auto
  moreover have "HandleResend env p s = SendMessageFailed p s" if "n = 7"
  proof -
    have "unat (csResendCount (indexers s ! p)) = 3" "unat (psResendCount (indexers s ! p)) = 4" using c that by auto
    then have "\<not> csResendCount (indexers s ! p) < 3" "\<not> psResendCount (indexers s ! p) \<le> 3"
      by (simp_all add: word_le_nat_alt word_less_nat_alt)
    then show ?thesis using assms(2) by (simp add: HandleResend_def sender_ops in_heap_def Let_def MAX_SEND_RETRIES_def)
  qed
  ultimately show ?thesis by simp
qed

text \<open>A part that has failed; the last transport used is \<open>d\<close>.\<close>

definition failing_sender :: "u8 \<Rightarrow> u8 \<Rightarrow> int \<Rightarrow> sender" where
  "failing_sender c q d = waiting_sender\<lparr>
     indexers := [waiting_part\<lparr>errorCode := 2, csResendCount := c, psResendCount := q\<rparr>, waiting_part], lastSmsDomain := d\<rparr>"

lemmas failing_simps = failing_sender_def waiting_sender_def idle_sender_def waiting_part_def new_indexer_def example_env_def

lemma failing_sender_retried:
  assumes "retried 0 n (failing_sender c q d)"
  shows "c < 3 \<Longrightarrow> retried 0 (Suc n) (failing_sender (c + 1) q d')" "q \<le> 3 \<Longrightarrow> retried 0 (Suc n) (failing_sender c (q + 1) d')"
proof -
  have step: "retried 0 (Suc n) (failing_sender c' q' d')"
    if "retried 0 n (failing_sender c q e)"
      "HandleResend example_env 0 (failing_sender c q e) = Ok () (failing_sender c' q' e\<lparr>outs := [RetryDelivery 0]\<rparr>)" for c' q' e
    by (rule other [OF retry [OF that(1) _ that(2)]]) (simp_all add: failing_simps in_heap_def)
  have dom: "retried 0 n (failing_sender c q e)" for e by (rule other [OF assms]) (simp_all add: failing_simps)
  show "retried 0 (Suc n) (failing_sender (c + 1) q d')" if "c < 3"
    using that by (intro step [OF dom, of 0])
      (simp add: failing_simps in_heap_def HandleResend_def sender_ops Let_def MAX_SEND_RETRIES_def)
  show "retried 0 (Suc n) (failing_sender c (q + 1) d')" if "q \<le> 3"
    using that by (intro step [OF dom, of 1])
      (simp add: failing_simps in_heap_def HandleResend_def sender_ops Let_def MAX_SEND_RETRIES_def)
qed

theorem retries_end_witness: "HandleResend example_env 0 (failing_sender 3 4 0) = SendMessageFailed 0 (failing_sender 3 4 0)"
proof -
  have "retried 0 0 (failing_sender 0 0 0)" by (rule first) (simp_all add: failing_simps)
  then have "retried 0 3 (failing_sender 3 0 0)"
    using failing_sender_retried(1) [of 0 0 0 0 0] failing_sender_retried(1) [of "Suc 0" 1 0 0 0]
      failing_sender_retried(1) [of "Suc (Suc 0)" 2 0 0 0]
    by (simp add: numeral_3_eq_3)
  then have "retried 0 7 (failing_sender 3 4 0)"
    using failing_sender_retried(2) [of 3 3 0 0 0] failing_sender_retried(2) [of 4 3 1 0 0] failing_sender_retried(2) [of 5 3 2 0 0]
      failing_sender_retried(2) [of 6 3 3 0 0]
    by simp
  then show ?thesis using retries_end [of 0 7 "failing_sender 3 4 0" example_env] by (simp add: failing_simps in_heap_def)
qed

section \<open>What goes wrong\<close>

lemma HandleResend_again:
  assumes "in_heap s p" "retriable env (errorCode (indexers s ! p))" "lastSmsDomain s = 0" "csResendCount (indexers s ! p) < 3"
  shows "\<exists>t. HandleResend env p s = Ok () t \<and> same_but p s t \<and> cell_flags t = cell_flags s \<and>
    results_for cb t = results_for cb s \<and> RetryDelivery p \<in> set (outs t)"
  using assms
  by (simp add: HandleResend_def sender_ops in_heap_def Let_def retriable_def MAX_SEND_RETRIES_def same_but_def results_for_def)

text \<open>
  C31. A retry does not take back that the part was counted as answered: of a message of two parts, the first fails and is
  to be tried again; when the second is then answered, the message is reported as sent although the first part is still waiting
  for its retry.
\<close>

theorem success_before_retry:
  assumes w: "awaiting ref cb f since {(k, p), (k', p')} s" and ne: "k \<noteq> k'" and fl: "\<not> cell_flags s ! f"
    and a: "answer_flag a = Some k" "answer_failed a" "retriable env (answer_code a)"
    and d: "lastSmsDomain s = 0" "csResendCount (indexers s ! p) < 3"
    and a': "answer_flag a' = Some k'" "\<not> answer_failed a'" and now: "env_now env - since \<le> EXPIRED_TIME"
  shows "\<exists>t u. HandleAnswer env a s = Ok () t \<and> RetryDelivery p \<in> set (outs t) \<and> results_for cb t = results_for cb s \<and>
    HandleAnswer env a' t = Ok () u \<and> results_for cb u = results_for cb s @ [OnSmsSendResult cb SEND_SMS_SUCCESS]"
proof -
  have cache: "cache_ok s" and kp: "(k, p) \<in> set (sendCacheMap s)" using w by (simp_all add: awaiting_def)
  define v where "v = settled env k (s\<lparr>indexers := answered_heap a p s\<rparr>)"
  note v = awaiting_settled [OF w kp now, of a, folded v_def]
  have rest: "{(k, p), (k', p')} - {(k, p)} = {(k', p')}" using ne by auto
  have "errorCode (indexers v ! p) = answer_code a" "csResendCount (indexers v ! p) < 3" "lastSmsDomain v = 0"
    using answered_heap_nth [OF cache kp kp, of a] noted_answer [OF a(1)] d a(1) by (cases a; simp add: v_def count_cell_def)+
  then obtain t where t: "HandleResend env p v = Ok () t" "same_but p v t" "cell_flags t = cell_flags v"
      "results_for cb t = results_for cb v" "RetryDelivery p \<in> set (outs t)"
    using HandleResend_again [OF v(3), of env cb] a(3) by auto
  have "awaiting ref cb f since {(k', p')} t" using awaiting_same_but [OF v(1) t(2) v(2)] rest by simp
  from own_answer [OF this a'(1) _ now] a'(2) fl t(3,4) obtain u where "HandleAnswer env a' t = Ok () u"
      "results_for cb u = results_for cb s @ [OnSmsSendResult cb SEND_SMS_SUCCESS]"
    by (auto simp: v_def)
  moreover have "HandleAnswer env a s = Ok () t" using HandleAnswer_cached [OF cache a(1) kp, of env] a(2) t(1) by (simp add: v_def)
  moreover have "results_for cb t = results_for cb s" using t(4) by (simp add: v_def)
  ultimately show ?thesis using t(5) by blast
qed

theorem success_before_retry_witness:
  "\<exists>t u. HandleAnswer example_env (SendSmsResultInfo 1 [] 2) waiting_sender = Ok () t \<and> RetryDelivery 0 \<in> set (outs t) \<and>
    results_for 4 t = results_for 4 waiting_sender \<and> HandleAnswer example_env (SendSmsResultInfo 2 [] 0) t = Ok () u \<and>
    results_for 4 u = results_for 4 waiting_sender @ [OnSmsSendResult 4 SEND_SMS_SUCCESS]"
  by (rule success_before_retry [OF waiting_sender_awaiting])
    (simp_all add: waiting_sender_def waiting_part_def idle_sender_def new_indexer_def example_env_def retriable_def EXPIRED_TIME_def)

text \<open>
  When the last answer to a message is a success but an earlier part had failed, the application is told of the failure,
  while the database row and the broadcast say that the message was sent.
\<close>

theorem failed_message_recorded_sent:
  assumes "in_heap s p" "x = indexers s ! p" "unSentCellCount x = 0" "sendCallback x = Some cb" "dataBaseId x \<noteq> 0"
    and "hasCellFailed x = Some f" "f < length (cell_flags s)" "cell_flags s ! f"
  shows "\<exists>t n. SendMessageSucceed p s = Ok () t \<and> outs t = outs s @ [OnSmsSendResult cb SEND_SMS_FAILURE_UNKNOWN,
    UpdateSms (dataBaseId x) SMS_MMS_INFO_MSG_STATE_SUCCEED, SendBroadcast (dataBaseId x) n SMS_MMS_INFO_MSG_STATE_SUCCEED]"
  using assms
  by (simp add: SendMessageSucceed_def SendResultCallBack_def publish_state_def sender_ops in_heap_def)

theorem failed_message_recorded_sent_witness:
  "\<exists>t n. SendMessageSucceed 0 (waiting_sender\<lparr>indexers := [waiting_part\<lparr>unSentCellCount := 0, dataBaseId := 9\<rparr>], cell_flags := [True]\<rparr>) = Ok () t \<and>
    outs t = outs waiting_sender @ [OnSmsSendResult 4 SEND_SMS_FAILURE_UNKNOWN,
    UpdateSms 9 SMS_MMS_INFO_MSG_STATE_SUCCEED, SendBroadcast 9 n SMS_MMS_INFO_MSG_STATE_SUCCEED]"
  using failed_message_recorded_sent [OF _ refl, of "waiting_sender\<lparr>indexers := [waiting_part\<lparr>unSentCellCount := 0, dataBaseId := 9\<rparr>], cell_flags := [True]\<rparr>" 0 4 0]
  by (simp add: in_heap_def waiting_part_def new_indexer_def)

text \<open>
  When the radio service dies while a part is waiting for its answer, the sender locks a mutex it already holds; only
  with no such part does it return, and then it has done nothing.
\<close>

theorem host_died_deadlock:
  assumes "list_all (\<lambda>(_, p). in_heap s p) (sendCacheMap s)"
  shows "OnRilAdapterHostDied s = (if \<exists>(_, p) \<in> set (sendCacheMap s). \<not> isFailure (indexers s ! p) then Fault else Ok () s)"
proof -
  have "each (\<lambda>(_, p). bnd (get_ix p) (\<lambda>x. if isFailure x then ret () else fault)) m s =
      (if \<exists>(_, p) \<in> set m. \<not> isFailure (indexers s ! p) then Fault else Ok () s)" if "list_all (\<lambda>(_, p). in_heap s p) m" for m :: "(int \<times> nat) list"
    using that by (induction m) (auto simp: sender_ops in_heap_def)
  from this [OF assms] show ?thesis by (simp only: OnRilAdapterHostDied_def bnd_def gets_def outcome.case)
qed

theorem host_died_deadlock_witness:
  "OnRilAdapterHostDied waiting_sender = (if \<exists>(_, p) \<in> set (sendCacheMap waiting_sender). \<not> isFailure (indexers waiting_sender ! p)
     then Fault else Ok () waiting_sender)"
  by (rule host_died_deadlock) (simp add: waiting_sender_def in_heap_def)

end
