(* ===== verification/Gsm_Sms_Sender.thy ===== *)
theory Gsm_Sms_Sender
  imports Sms_Sender
begin

text \<open>
  \<^verbatim>\<open>gsm/gsm_sms_sender.cpp\<close>: sending text and data over GSM, the choice between circuit switched, IMS and satellite transport,
  delivery reports, and building a part anew when the network type has changed.
\<close>

section \<open>Handing a part to the radio\<close>

definition SendCsSms :: "nat \<Rightarrow> GsmSimMessageParam \<Rightarrow> (sender, unit) op" where
  "SendCsSms p smsData =
     bnd (get_ix p) (\<lambda>x.
     let tryCount = csResendCount x
     in seq (upd (\<lambda>s. s\<lparr>lastSmsDomain := CS_DOMAIN\<rparr>)) (
        seq (if tryCount > 0 then upd_ix p UpdatePduForResend else ret ())
          (if tryCount = 0 \<and> hasMore x then emit (SendSmsMoreMode smsData) else emit (SendGsmSms smsData))))"

definition SendSatelliteSms :: "nat \<Rightarrow> GsmSimMessageParam \<Rightarrow> (sender, unit) op" where
  "SendSatelliteSms p smsData =
     bnd (get_ix p) (\<lambda>x.
     let tryCount = csResendCount x
     in seq (upd (\<lambda>s. s\<lparr>lastSmsDomain := CS_DOMAIN\<rparr>)) (
        seq (if tryCount > 0 then upd_ix p UpdatePduForResend else ret ())
          (if tryCount = 0 \<and> hasMore x then emit (SatelliteSendSmsMoreMode smsData) else emit (SatelliteSendSms smsData))))"

definition SendImsSms :: "'e sender_env_scheme \<Rightarrow> GsmSimMessageParam \<Rightarrow> (sender, unit) op" where
  "SendImsSms env smsData =
     (if \<not> ims_client env then ret ()
      else seq (upd (\<lambda>s. s\<lparr>lastSmsDomain := IMS_DOMAIN\<rparr>)) (emit (ImsSendMessage smsData)))"

definition satellite_on :: "'e sender_env_scheme \<Rightarrow> bool" where
  "satellite_on env \<longleftrightarrow> (case satellite env of None \<Rightarrow> False | Some (enabled, _) \<Rightarrow> enabled)"

definition out_of_service :: "'e sender_env_scheme \<Rightarrow> sender \<Rightarrow> bool" where
  "out_of_service env s \<longleftrightarrow> satellite env \<noteq> None \<and> \<not> satellite_on env \<and>
     \<not> isImsNetDomain s \<and> voiceServiceState s \<noteq> reg_in_service env"

definition use_cs :: "sender \<Rightarrow> SmsSendIndexer \<Rightarrow> bool" where
  "use_cs s x \<longleftrightarrow> \<not> isImsNetDomain s \<or> imsSmsCfg s = 0 \<or> psResendCount x = MAX_SEND_RETRIES"

definition SendSmsToRil :: "'e sender_env_scheme \<Rightarrow> nat option \<Rightarrow> (sender, unit) op" where
  "SendSmsToRil env ix = (case ix of
     None \<Rightarrow> SendResultCallBack_indexer None SEND_SMS_FAILURE_UNKNOWN
   | Some p \<Rightarrow>
       bnd (gets (out_of_service env)) (\<lambda>unavailable.
       if unavailable then SendResultCallBack_indexer (Some p) SEND_SMS_FAILURE_SERVICE_UNAVAILABLE
       else
         bnd GetMsgRef64Bit (\<lambda>refId.
         bnd (SendCacheMapAddItem refId (Some p)) (\<lambda>added.
         if \<not> added then ret ()
         else
           bnd (get_ix p) (\<lambda>x.
           let smsData = \<lparr>gp_refId = refId, gp_smscPdu = StringToHex (ix_smca x), gp_pdu = StringToHex (ix_pdu x)\<rparr>
           in if satellite_on env then SendSatelliteSms p smsData
              else bnd (gets (\<lambda>s. use_cs s x)) (\<lambda>sendCsSMS.
                   if sendCsSMS then SendCsSms p smsData else SendImsSms env smsData))))))"

section \<open>Sending text\<close>

definition SetSendIndexerInfo :: "'e sender_env_scheme \<Rightarrow> nat \<Rightarrow> EncodeInfo \<Rightarrow> u8 \<Rightarrow> (sender, unit) op" where
  "SetSendIndexerInfo env p info msgRef =
     bnd (slice (smcaData info) 0 (unat (smcaLen info))) (\<lambda>smca.
     bnd (slice (tpduData info) 0 (unat (tpduLen info))) (\<lambda>pdu.
     upd_ix p (\<lambda>x. x\<lparr>timeStamp := env_now env, ix_smca := smca, ix_pdu := pdu, hasMore := ei_isMore info,
       msgRefId := msgRef, ix_netWorkType := NET_TYPE_GSM\<rparr>)))"

text \<open>The headers of a part and the flags that depend on it; the reply header is the one of \<^verbatim>\<open>SetHeaderReply\<close>.\<close>

definition submit_headers ::
  "SmsConcat option \<Rightarrow> DataCodingScheme \<Rightarrow> u8 \<Rightarrow> bool \<Rightarrow> (GsmSmsMessage, unit) op" where
  "submit_headers cc codingType langId bStatusReport =
     bnd (case cc of None \<Rightarrow> ret 0 | Some c \<Rightarrow> SetHeaderConcat 0 c) (\<lambda>n.
     bnd (SetHeaderReply n) (\<lambda>r.
     bnd (SetHeaderLang (n + r) codingType langId) (\<lambda>l.
     upd_submit (\<lambda>t. (set_header_count (n + r + l) t)\<lparr>sub_bHeaderInd := n + r + l > 0,
       sub_bStatusReport := bStatusReport\<rparr>))))"

definition text_part ::
  "'e sender_env_scheme \<Rightarrow> bytes \<Rightarrow> bytes \<Rightarrow> SplitInfo list \<Rightarrow> DataCodingScheme \<Rightarrow> bool \<Rightarrow> nat option \<Rightarrow> nat option \<Rightarrow>
   int \<Rightarrow> bool \<Rightarrow> u8 \<Rightarrow> nat \<Rightarrow> nat \<Rightarrow> GsmSmsMessage \<Rightarrow> (sender, GsmSmsMessage option) op" where
  "text_part env desAddr scAddr cellsInfos codingType isStatusReport sendCb deliveryCb dbId mmsApp msgRef f i m =
     bnd (rd_at cellsInfos i) (\<lambda>cell.
     let cnt = length cellsInfos; enc = encodeData cell; isMore = (cnt > 1 \<and> i < cnt - 1)
     in if length enc > MAX_USER_DATA_LEN \<or> enc = [] then ret None
        else
          bnd (make_indexer (text_indexer desAddr scAddr enc sendCb deliveryCb)) (\<lambda>p.
          seq (upd_ix p (\<lambda>x. x\<lparr>ix_dcs := encodeType cell, dataBaseId := dbId, isMmsApp := mmsApp\<rparr>)) (
          bnd (with_new m (set_user_data enc msgRef)) (\<lambda>(_, m).
          seq (if cnt > 1 then upd_ix p (\<lambda>x. x\<lparr>isConcat := True, ix_smsConcat := part_concat msgRef cnt i (uninit_bool env)\<rparr>)
               else ret ()) (
          seq (upd_ix p (\<lambda>x. x\<lparr>ix_langId := split_langId cell\<rparr>)) (
          bnd (with_new m (seq (submit_headers (if cnt > 1 then Some (part_concat msgRef cnt i True) else None) codingType
                 (split_langId cell) (\<not> isMore \<and> isStatusReport)) (GetSubmitEncodeInfo scAddr isMore))) (\<lambda>(info, m).
          case info of
            None \<Rightarrow> seq (SendResultCallBack_indexer (Some p) SEND_SMS_FAILURE_UNKNOWN) (ret (Some m))
          | Some info \<Rightarrow>
              seq (SetSendIndexerInfo env p info msgRef) (
              seq (upd_ix p (\<lambda>x. x\<lparr>unSentCellCount := word_of_nat cnt, hasCellFailed := Some f\<rparr>)) (
              seq (SendSmsToRil env (Some p))
                (ret (Some m)))))))))))"

definition TextBasedSmsSplitDelivery ::
  "'e sender_env_scheme \<Rightarrow> bytes \<Rightarrow> bytes \<Rightarrow> SplitInfo list \<Rightarrow> DataCodingScheme \<Rightarrow> bool \<Rightarrow> nat option \<Rightarrow> nat option \<Rightarrow>
   int \<Rightarrow> bool \<Rightarrow> GsmSmsMessage \<Rightarrow> (sender, unit) op" where
  "TextBasedSmsSplitDelivery env desAddr scAddr cellsInfos codingType isStatusReport sendCb deliveryCb dbId mmsApp m =
     bnd GetMsgRef8Bit (\<lambda>msgRef.
     bnd (make_flag False) (\<lambda>f.
     loop_with (text_part env desAddr scAddr cellsInfos codingType isStatusReport sendCb deliveryCb dbId mmsApp msgRef f)
       [0..<length cellsInfos] m))"

definition split_text_message ::
  "'e sender_env_scheme \<Rightarrow> bool \<Rightarrow> bytes \<Rightarrow> bytes \<Rightarrow> (sender, DataCodingScheme \<times> SplitInfo list) op" where
  "split_text_message env bPortNum addr txt =
     with_new [] (SplitMessage (env_iconv env) (env_wsize env) (icu env)
       (DecodeMessage (env_iconv env) (env_wsize env) (coding_national env)) txt (force_7bit env) bPortNum addr)"

definition TextBasedSmsDelivery ::
  "'e sender_env_scheme \<Rightarrow> bytes \<Rightarrow> bytes \<Rightarrow> bytes \<Rightarrow> nat option \<Rightarrow> nat option \<Rightarrow> int \<Rightarrow> bool \<Rightarrow> (sender, unit) op" where
  "TextBasedSmsDelivery env desAddr scAddr txt sendCb deliveryCb dbId mmsApp =
     bnd (split_text_message env False [] txt) (\<lambda>(codingType, cellsInfos).
     bnd (with_new (new_message\<lparr>smsCodingNationalType := coding_national env\<rparr>)
            (CreateDefaultSubmitSmsTpdu desAddr scAddr txt (deliveryCb \<noteq> None) codingType)) (\<lambda>(_, m).
     if length cellsInfos > MAX_SEGMENT_NUM then SendResultCallBack sendCb SEND_SMS_FAILURE_UNKNOWN
     else TextBasedSmsSplitDelivery env desAddr scAddr cellsInfos codingType (deliveryCb \<noteq> None) sendCb deliveryCb
            dbId mmsApp m))"

section \<open>Sending data\<close>

definition DataBasedSmsDelivery ::
  "'e sender_env_scheme \<Rightarrow> bytes \<Rightarrow> bytes \<Rightarrow> int \<Rightarrow> bytes \<Rightarrow> nat option \<Rightarrow> nat option \<Rightarrow> (sender, unit) op" where
  "DataBasedSmsDelivery env desAddr scAddr port dat sendCb deliveryCb =
     bnd (split_text_message env True desAddr dat) (\<lambda>(codingType, cellsInfos).
     bnd GetMsgRef8Bit (\<lambda>msgRef.
     bnd (with_new (new_message\<lparr>smsCodingNationalType := coding_national env\<rparr>)
            (CreateDataSubmitSmsTpdu (sms_env.truncate env) desAddr scAddr dat (length dat) msgRef codingType
               (deliveryCb \<noteq> None))) (\<lambda>(_, m).
     DataBasedSmsDeliverySplitPage (\<lambda>p. SendSmsToRil env (Some p)) env msgRef desAddr scAddr port sendCb deliveryCb
       cellsInfos m)))"

section \<open>Reports\<close>

text \<open>
  Every waiting part with the reported reference leaves the list; only the callback of the last one is told. The pointers
  in the list are never null.
\<close>

definition take_reports :: "int \<Rightarrow> (sender, nat option) op" where
  "take_reports ref s =
     (if list_all (in_heap s) (reportList s) then
        (let hits = filter (\<lambda>p. ref = uint (msgRefId (indexers s ! p))) (reportList s)
         in Ok (if hits = [] then None else deliveryCallback (indexers s ! last hits))
              (s\<lparr>reportList := filter (\<lambda>p. ref \<noteq> uint (msgRefId (indexers s ! p))) (reportList s)\<rparr>))
      else Fault)"

definition StatusReportAnalysis :: "'e sender_env_scheme \<Rightarrow> bytes option \<Rightarrow> (sender, unit) op" where
  "StatusReportAnalysis env statusInfo = (case statusInfo of
     None \<Rightarrow> ret ()
   | Some pdu \<Rightarrow>
       bnd (with_new () (CreateMessage (sms_env.truncate env) (StringToHex pdu))) (\<lambda>(message, _).
       case message of
         None \<Rightarrow> ret ()
       | Some msg \<Rightarrow>
           bnd (take_reports (bm_msgRef msg)) (\<lambda>cb.
           seq (emit (case satellite env of
                  Some (True, capability) \<Rightarrow> if capability > 0 then SatelliteSendSmsAck else SendSmsAck
                | _ \<Rightarrow> SendSmsAck))
             (case cb of None \<Rightarrow> ret () | Some c \<Rightarrow> emit (OnSmsDeliveryResult c (StringToHex (rawPdu msg)))))))"

definition StatusReportSetImsSms :: "bool option \<Rightarrow> (sender, unit) op" where
  "StatusReportSetImsSms r = (case r of
     None \<Rightarrow> ret ()
   | Some hasError \<Rightarrow> if hasError then upd (\<lambda>s. s\<lparr>imsSmsCfg := IMS_SMS_DISABLE\<rparr>) else ret ())"

definition StatusReportGetImsSms :: "int option \<Rightarrow> (sender, unit) op" where
  "StatusReportGetImsSms r = (case r of None \<Rightarrow> ret () | Some cfg \<Rightarrow> upd (\<lambda>s. s\<lparr>imsSmsCfg := cfg\<rparr>))"

text \<open>\<open>None\<close> is \<^verbatim>\<open>TELEPHONY_ERR_LOCAL_PTR_NULL\<close>; the loop that would wait is never entered, as in \<open>SetImsSmsConfig\<close>.\<close>

definition IsImsSmsSupported :: "'e sender_env_scheme \<Rightarrow> (sender, bool option) op" where
  "IsImsSmsSupported env =
     (if \<not> ims_client env then ret None
      else seq (upd (\<lambda>s. s\<lparr>resIsSmsReady := False\<rparr>)) (
           seq (emit ImsGetSmsConfig)
             (gets (\<lambda>s. Some (imsSmsCfg s = IMS_SMS_ENABLE)))))"

definition RegisterImsHandler :: "'e sender_env_scheme \<Rightarrow> (sender, unit) op" where
  "RegisterImsHandler env =
     bnd (gets isImsHandlerRegistered) (\<lambda>registered.
     if registered \<or> \<not> ims_client env then ret ()
     else seq (emit RegisterImsSmsCallbackHandler) (upd (\<lambda>s. s\<lparr>isImsHandlerRegistered := True\<rparr>)))"

section \<open>Building a part anew\<close>

text \<open>\<^verbatim>\<open>SetPduInfo\<close> gives the message and \<^verbatim>\<open>isMore\<close>, or \<open>None\<close> when it returns \<^verbatim>\<open>false\<close>.\<close>

definition SetPduInfo :: "nat \<Rightarrow> (sender, (GsmSmsMessage \<times> bool) option) op" where
  "SetPduInfo p =
     bnd (get_ix p) (\<lambda>x.
     bnd (with_new new_message (CreateDefaultSubmitSmsTpdu (ix_destAddr x) (ix_scAddr x) (ix_text x)
            (deliveryCallback x \<noteq> None) (ix_dcs x))) (\<lambda>(_, m).
     if length (ix_text x) \<ge> MAX_USER_DATA_LEN + 1 then ret None
     else
       let cc = ix_smsConcat x; totalSeg = (ucast (cc_totalSeg cc) :: u8);
           isMore = (totalSeg > 1 \<and> cc_seqNum cc < ucast totalSeg)
       in bnd (with_new m (seq (set_user_data (ix_text x) (msgRefId x))
                 (submit_headers (if isConcat x then Some cc else None) (ix_dcs x) (ix_langId x)
                    (\<not> isMore \<and> deliveryCallback x \<noteq> None)))) (\<lambda>(_, m).
          ret (Some (m, isMore)))))"

definition ResendTextDelivery :: "'e sender_env_scheme \<Rightarrow> nat option \<Rightarrow> (sender, unit) op" where
  "ResendTextDelivery env ix = (case ix of
     None \<Rightarrow> ret ()
   | Some p \<Rightarrow>
       bnd (SetPduInfo p) (\<lambda>r.
       case r of
         None \<Rightarrow> ret ()
       | Some (m, isMore) \<Rightarrow>
           bnd (get_ix p) (\<lambda>x.
           bnd (with_new m (GetSubmitEncodeInfo (ix_scAddr x) isMore)) (\<lambda>(info, _).
           case info of
             None \<Rightarrow> SendResultCallBack_indexer (Some p) SEND_SMS_FAILURE_UNKNOWN
           | Some info \<Rightarrow> seq (SetSendIndexerInfo env p info (msgRefId x)) (SendSmsToRil env (Some p))))))"

definition ResendDataDelivery :: "'e sender_env_scheme \<Rightarrow> nat option \<Rightarrow> (sender, unit) op" where
  "ResendDataDelivery env ix = (case ix of
     None \<Rightarrow> ret ()
   | Some p \<Rightarrow>
       bnd (get_ix p) (\<lambda>x.
       bnd (with_new new_message (seq (CreateDataSubmitSmsTpdu (sms_env.truncate env) (ix_destAddr x) (ix_scAddr x) (ix_data x)
              (length (ix_data x)) (msgRefId x) (ix_dcs x) (deliveryCallback x \<noteq> None))
              (GetSubmitEncodeInfo (ix_scAddr x) False))) (\<lambda>(info, _).
       case info of
         None \<Rightarrow> SendResultCallBack_indexer (Some p) SEND_SMS_FAILURE_UNKNOWN
       | Some info \<Rightarrow>
           bnd (slice (smcaData info) 0 (unat (smcaLen info))) (\<lambda>smca.
           bnd (slice (tpduData info) 0 (unat (tpduLen info))) (\<lambda>pdu.
           bnd (make_flag False) (\<lambda>f.
           seq (upd_ix p (\<lambda>x. x\<lparr>unSentCellCount := 1, hasCellFailed := Some f, ix_smca := smca, ix_pdu := pdu,
                  hasMore := ei_isMore info, ix_netWorkType := NET_TYPE_GSM, timeStamp := env_now env\<rparr>))
             (SendSmsToRil env (Some p))))))))"

definition GsmProcessEvent ::
  "(nat option \<Rightarrow> (sender, unit) op) option \<Rightarrow> 'e sender_env_scheme \<Rightarrow> sender_event \<Rightarrow> (sender, unit) op" where
  "GsmProcessEvent sendRetry env =
     ProcessEvent sendRetry (StatusReportAnalysis env) StatusReportSetImsSms StatusReportGetImsSms env"

end
