(* ===== verification/Gsm_Sms_Delivery.thy ===== *)
theory Gsm_Sms_Delivery
  imports Gsm_Sms_Sender Gsm_Tpdu_Layout
begin

text \<open>
  A text on its way: what \<open>TextBasedSmsDelivery\<close> hands to the radio, and what it leaves behind to be answered.
\<close>

section \<open>Encoding a part\<close>

definition part_headers :: "u8 \<Rightarrow> nat \<Rightarrow> nat \<Rightarrow> SmsUDH list" where
  "part_headers ref cnt i = (if cnt > 1 then [\<lparr>udhType = UDH_CONCAT_8BIT, udh = UdhConcat8bit
     \<lparr>c8_msgRef = ref, c8_totalSeg = word_of_nat cnt, c8_seqNum = word_of_nat (i + 1)\<rparr>\<rparr>] else [])"

definition submit_dcs :: "DataCodingScheme \<Rightarrow> SmsDcs" where
  "submit_dcs sch = zero_dcs\<lparr>bCompressed := False, msgClass := SMS_CLASS_UNKNOWN, codingGroup := CODING_GENERAL_GROUP,
     codingScheme := sch\<rparr>"

text \<open>The SMS-SUBMIT of part \<open>i\<close> with the data \<open>us\<close>.\<close>

definition submit_part :: "u8 \<Rightarrow> nat \<Rightarrow> nat \<Rightarrow> bytes \<Rightarrow> DataCodingScheme \<Rightarrow> bool \<Rightarrow> bytes \<Rightarrow> SmsSubmit" where
  "submit_part ref cnt i ds sch sr us = \<lparr>sub_bRejectDup = False, sub_bStatusReport = sr,
     sub_bHeaderInd = (part_headers ref cnt i \<noteq> []), sub_bReplyPath = False, sub_msgRef = ref, sub_vpf = SMS_VPF_NOT_PRESENT,
     sub_destAddress = mk_number TYPE_UNKNOWN SMS_NPI_ISDN ds, sub_pid = SMS_NORMAL_PID, sub_dcs = submit_dcs sch,
     sub_validityPeriod = zero_time, sub_userData = mk_ud (part_headers ref cnt i) us\<rparr>"

text \<open>The message object between two parts: only the first header and the data are left from the part before.\<close>

definition outgoing :: "bytes \<Rightarrow> DataCodingScheme \<Rightarrow> nat \<Rightarrow> GsmSmsMessage \<Rightarrow> bool" where
  "outgoing ds sch cnt m \<longleftrightarrow> replyAddress m = [] \<and> (\<exists>t h. smsTpdu m = Some (SMS_TPDU_SUBMIT t) \<and> \<not> sub_bRejectDup t \<and>
     \<not> sub_bReplyPath t \<and> sub_vpf t = SMS_VPF_NOT_PRESENT \<and> sub_destAddress t = mk_number TYPE_UNKNOWN SMS_NPI_ISDN ds \<and>
     sub_pid t = SMS_NORMAL_PID \<and> sub_dcs t = submit_dcs sch \<and> sub_validityPeriod t = zero_time \<and>
     ud_header (sub_userData t) = h # replicate 6 zero_udh \<and> (cnt \<le> 1 \<longrightarrow> h = zero_udh))"

lemma padded_update [simp]: "(us @ replicate n x)[length us := x] = us @ replicate n x"
  by (cases n) (simp_all add: list_update_beyond)

lemma dest_chars_digits: "length ds \<le> 20 \<Longrightarrow> dest_chars ds (replicate 22 0) = ds @ replicate (22 - length ds) 0"
  by (simp add: dest_chars_def write_at_def MAX_ADDRESS_LEN_def)

lemma replicate_headers: "replicate 7 x = x # replicate 6 x"
  by (simp add: numeral_eq_Suc)

lemma outgoing_start:
  assumes "length ds \<le> 20"
  shows "\<exists>m. CreateDefaultSubmitSmsTpdu ds sc txt sr sch (new_message\<lparr>smsCodingNationalType := nt\<rparr>) = Ok () m \<and> outgoing ds sch cnt m"
  using dest_chars_digits [OF assms]
  by (simp add: CreateDefaultSubmitSmsTpdu_def CreateDefaultSubmit_def SetSmscAddr_def SetSmsTpduDestAddress_def upd_submit_def
      op_simps new_message_def outgoing_def submit_dcs_def zero_submit_def zero_ud_def zero_address_def mk_number_def
      number_chars_def SMS_MAX_ADDRESS_LEN_def MAX_UD_HEADER_NUM_def Let_def replicate_headers)

lemma u8_of_u16 [simp]: "ucast (ucast r :: u16) = (r :: u8)" "ucast (word_of_nat n :: u16) = (word_of_nat n :: u8)"
  by (rule bit_word_eqI; simp add: bit_simps)+

lemma SetHeaderConcat_first:
  "smsTpdu m = Some (SMS_TPDU_SUBMIT t) \<Longrightarrow> SetHeaderConcat 0 (part_concat ref cnt i True) m =
     Ok 1 (m\<lparr>smsTpdu := Some (SMS_TPDU_SUBMIT (set_header 0 UDH_CONCAT_8BIT (UdhConcat8bit
       \<lparr>c8_msgRef = ref, c8_totalSeg = word_of_nat cnt, c8_seqNum = word_of_nat (i + 1)\<rparr>) t))\<rparr>)"
  using u8_of_u16(2) [of "i + 1"]
  by (simp add: SetHeaderConcat_def upd_submit_def op_simps header_index_ok_def MAX_UD_HEADER_NUM_def part_concat_def)

lemma SetHeaderReply_none: "replyAddress m = [] \<Longrightarrow> SetHeaderReply n m = Ok 0 m"
  by (simp add: SetHeaderReply_def op_simps)

lemma SetHeaderLang_none: "(c = DATA_CODING_7BIT \<longrightarrow> l = 0) \<Longrightarrow> SetHeaderLang n c l m = Ok 0 m"
  by (auto simp: SetHeaderLang_def op_simps split: option.splits SmsTpdu.splits)

text \<open>Two steps of \<open>text_part\<close>: the data, and then the headers and the flags.\<close>

lemma part_built:
  assumes m: "outgoing ds sch cnt m" and us: "length us \<le> MAX_USER_DATA_LEN" and l: "sch = DATA_CODING_7BIT \<longrightarrow> l = 0"
  shows "\<exists>m1 m2. set_user_data us ref m = Ok () m1 \<and>
    submit_headers (if cnt > 1 then Some (part_concat ref cnt i True) else None) sch l sr m1 = Ok () m2 \<and>
    smsTpdu m2 = Some (SMS_TPDU_SUBMIT (submit_part ref cnt i ds sch sr us)) \<and> outgoing ds sch cnt m2"
proof -
  obtain t h where t: "smsTpdu m = Some (SMS_TPDU_SUBMIT t)" "replyAddress m = []"
      "ud_header (sub_userData t) = h # replicate 6 zero_udh" "cnt \<le> 1 \<longrightarrow> h = zero_udh"
      "\<not> sub_bRejectDup t" "\<not> sub_bReplyPath t" "sub_vpf t = SMS_VPF_NOT_PRESENT"
      "sub_destAddress t = mk_number TYPE_UNKNOWN SMS_NPI_ISDN ds" "sub_pid t = SMS_NORMAL_PID" "sub_dcs t = submit_dcs sch"
      "sub_validityPeriod t = zero_time"
    using m by (auto simp: outgoing_def)
  have data: "(write_at 0 us (replicate (MAX_USER_DATA_LEN + 1) 0))[length us := 0] = us @ replicate (MAX_USER_DATA_LEN + 1 - length us) 0"
    using us by (simp add: write_at_def del: replicate_Suc)
  define t1 where "t1 = t\<lparr>sub_userData := (sub_userData t)\<lparr>ud_data := us @ replicate (MAX_USER_DATA_LEN + 1 - length us) 0,
       ud_length := word_of_nat (length us)\<rparr>, sub_msgRef := ref\<rparr>"
  have 1: "set_user_data us ref m = Ok () (m\<lparr>smsTpdu := Some (SMS_TPDU_SUBMIT t1)\<rparr>)"
    using data by (simp add: set_user_data_def upd_submit_def t(1) t1_def)
  have "submit_part ref cnt i ds sch sr us = t1\<lparr>sub_userData := (sub_userData t1)\<lparr>headerCnt := word_of_nat (length (part_headers ref cnt i)),
      ud_header := part_headers ref cnt i @ replicate (7 - length (part_headers ref cnt i)) zero_udh\<rparr>,
      sub_bHeaderInd := part_headers ref cnt i \<noteq> [], sub_bStatusReport := sr\<rparr>"
    using t by (simp add: submit_part_def t1_def mk_ud_def MAX_UD_HEADER_NUM_def)
  moreover have "ud_header (sub_userData t1) = h # replicate 6 zero_udh" using t(3) by (simp add: t1_def)
  ultimately have 2: "submit_headers (if cnt > 1 then Some (part_concat ref cnt i True) else None) sch l sr (m\<lparr>smsTpdu := Some (SMS_TPDU_SUBMIT t1)\<rparr>) =
      Ok () (m\<lparr>smsTpdu := Some (SMS_TPDU_SUBMIT (submit_part ref cnt i ds sch sr us))\<rparr>)"
    using t(2,4) SetHeaderLang_none [OF l]
    by (cases "cnt > 1") (simp_all add: submit_headers_def upd_submit_def seq_def bnd_def ret_def SetHeaderConcat_first
        SetHeaderReply_none set_header_def set_header_count_def part_headers_def replicate_headers)
  have "outgoing ds sch cnt (m\<lparr>smsTpdu := Some (SMS_TPDU_SUBMIT (submit_part ref cnt i ds sch sr us))\<rparr>)"
    using t(2) by (simp add: outgoing_def submit_part_def mk_ud_def part_headers_def MAX_UD_HEADER_NUM_def replicate_headers)
  with 1 2 show ?thesis by fastforce
qed

text \<open>The service centre address, if one is given and fits, precedes the TPDU.\<close>

definition smsc_number :: "bytes \<Rightarrow> AddressNumber" where
  "smsc_number sc = \<lparr>ton = (if hd sc = 0x2B then TYPE_INTERNATIONAL else TYPE_UNKNOWN), npi = SMS_NPI_ISDN,
     address = (write_at 0 sc (replicate (SMS_MAX_ADDRESS_LEN + 1) 0))[length sc := 0]\<rparr>"

definition smsc_octets :: "bytes \<Rightarrow> bytes" where
  "smsc_octets sc = (if sc \<noteq> [] \<and> length sc < MAX_SMSC_LEN then
     (case EncodeSmscPdu (smsc_number sc) (replicate MAX_SMSC_LEN 0) of Ok n arr \<Rightarrow> take n arr | _ \<Rightarrow> []) else [])"

lemma c_str_short:
  assumes "0 \<in> set (take n xs)"
  shows "length (c_str xs) < n"
proof -
  from assms obtain i where i: "i < n" "i < length xs" "xs ! i = 0" by (auto simp: in_set_conv_nth)
  have "length (c_str xs) \<le> i"
  proof (rule ccontr)
    assume "\<not> ?thesis"
    then have "i < length (c_str xs)" by simp
    then have "c_str xs ! i \<in> set (c_str xs)" "c_str xs ! i = xs ! i" using nth_mem by (blast, simp add: c_str_def takeWhile_nth)
    then show False using i(3) by (auto simp: c_str_def dest: set_takeWhileD)
  qed
  with i(1) show ?thesis by simp
qed

lemma EncodeSmscPdu_returns:
  assumes "0 \<in> set (take 21 (address a))" "length (address a) = 22"
  shows "\<exists>n arr. EncodeSmscPdu a (replicate 20 0) = Ok n arr \<and> n \<le> 20 \<and> length arr = 20"
proof -
  have "0 \<in> set new" if "smsc_newNum a = Some new" for new
  proof (cases "length (c_str (address a)) > 1 \<and> hd (address a) = 0x2B")
    case True
    have "length (c_str (address a)) < 21" by (rule c_str_short [OF assms(1)])
    then show ?thesis using True that by (auto simp: smsc_newNum_def Let_def MAX_SMSC_LEN_def split: if_splits)
  next
    case False
    then show ?thesis using that assms(1) by (auto simp: smsc_newNum_def Let_def MAX_SMSC_LEN_def)
  qed
  then show ?thesis
    by (auto simp: EncodeSmscPdu_def Let_def MAX_SMSC_LEN_def dest!: DigitToBcd_length split: option.splits)
qed

lemma GetSubmitEncodeInfoPartData_encodes:
  assumes m: "smsTpdu m = Some (SMS_TPDU_SUBMIT t)" and n: "n \<le> length arr" "n \<le> 20"
    and enc: "EncodeSmsPdu (SMS_TPDU_SUBMIT t) 255 (replicate 255 0, 0) = Ok () (buf, length out)" "take (length out) buf = out" "out \<noteq> []"
  shows "\<exists>info. GetSubmitEncodeInfoPartData arr n bMore m = Ok (Some info) m \<and> ei_isMore info = bMore \<and>
    take (unat (smcaLen info)) (smcaData info) = take n arr \<and> unat (smcaLen info) \<le> 21 \<and> length (smcaData info) = 21 \<and>
    take (unat (tpduLen info)) (tpduData info) = out \<and> unat (tpduLen info) \<le> 256 \<and> length (tpduData info) = 256"
proof -
  have len: "length out \<le> length buf" using enc(2) by (metis length_take min.cobounded1)
  have out: "length out \<le> 255"
    using enc(1) by (auto simp: EncodeSmsPdu_def op_simps Let_def split: outcome.splits if_splits prod.splits)
  have "unat (word_of_nat (length out) :: u16) = length out" "unat (word_of_nat n :: u8) = n"
    using out n by (simp_all add: unsigned_of_nat take_bit_nat_eq_self)
  then show ?thesis using m n enc len out
    by (simp add: GetSubmitEncodeInfoPartData_def op_simps MAX_TPDU_DATA_LEN_def zero_info_def write_at_def)
qed

lemma GetSubmitEncodeInfo_encodes:
  assumes m: "smsTpdu m = Some (SMS_TPDU_SUBMIT t)"
    and enc: "EncodeSmsPdu (SMS_TPDU_SUBMIT t) 255 (replicate 255 0, 0) = Ok () (buf, length out)" "take (length out) buf = out" "out \<noteq> []"
  shows "\<exists>info. GetSubmitEncodeInfo sc bMore m = Ok (Some info) m \<and> ei_isMore info = bMore \<and>
    take (unat (smcaLen info)) (smcaData info) = smsc_octets sc \<and> unat (smcaLen info) \<le> 21 \<and> length (smcaData info) = 21 \<and>
    take (unat (tpduLen info)) (tpduData info) = out \<and> unat (tpduLen info) \<le> 256 \<and> length (tpduData info) = 256"
proof (cases "sc \<noteq> [] \<and> length sc < MAX_SMSC_LEN")
  case True
  then have "length (address (smsc_number sc)) = 22" "address (smsc_number sc) ! length sc = 0" "length sc < 20"
    by (auto simp: smsc_number_def write_at_def SMS_MAX_ADDRESS_LEN_def MAX_SMSC_LEN_def nth_append)
  then have "0 \<in> set (take 21 (address (smsc_number sc)))" by (auto simp: in_set_conv_nth intro!: exI [of _ "length sc"])
  then obtain n arr where n: "EncodeSmscPdu (smsc_number sc) (replicate 20 0) = Ok n arr" "n \<le> 20" "length arr = 20"
    using EncodeSmscPdu_returns \<open>length (address (smsc_number sc)) = 22\<close> by blast
  have "to_u8 n = n" using n(2) by (simp add: to_u8_def)
  then have "GetSubmitEncodeInfo sc bMore m = GetSubmitEncodeInfoPartData arr n bMore m" "smsc_octets sc = take n arr"
    using True n(1)
    by (simp_all add: GetSubmitEncodeInfo_def smsc_octets_def smsc_number_def MAX_SMSC_LEN_def op_simps Let_def)
  then show ?thesis using GetSubmitEncodeInfoPartData_encodes [OF m _ n(2) enc, of arr bMore] n by simp
next
  case False
  then have "GetSubmitEncodeInfo sc bMore m = GetSubmitEncodeInfoPartData (replicate MAX_SMSC_LEN 0) 0 bMore m" "smsc_octets sc = []"
    by (auto simp: GetSubmitEncodeInfo_def smsc_octets_def Let_def)
  then show ?thesis using GetSubmitEncodeInfoPartData_encodes [OF m _ _ enc, of 0 "replicate MAX_SMSC_LEN 0" bMore] by simp
qed

section \<open>Handing a part over\<close>

text \<open>The transport of a part that has not been tried before.\<close>

definition carrier :: "'e sender_env_scheme \<Rightarrow> sender \<Rightarrow> bool \<Rightarrow> GsmSimMessageParam \<Rightarrow> sender_out" where
  "carrier env s bMore d =
     (if satellite_on env then (if bMore then SatelliteSendSmsMoreMode d else SatelliteSendSms d)
      else if \<not> isImsNetDomain s \<or> imsSmsCfg s = 0 then (if bMore then SendSmsMoreMode d else SendGsmSms d)
      else ImsSendMessage d)"

definition carrier_domain :: "'e sender_env_scheme \<Rightarrow> sender \<Rightarrow> int" where
  "carrier_domain env s = (if satellite_on env \<or> \<not> isImsNetDomain s \<or> imsSmsCfg s = 0 then CS_DOMAIN else IMS_DOMAIN)"

definition keys_below :: "sender \<Rightarrow> bool" where
  "keys_below s \<longleftrightarrow> (\<forall>(k, _) \<in> set (sendCacheMap s). k \<le> msgRef64bit s)"

definition can_send :: "'e sender_env_scheme \<Rightarrow> sender \<Rightarrow> bool" where
  "can_send env s \<longleftrightarrow> ims_client env \<and> \<not> out_of_service env s \<and> keys_below s"

definition part_data :: "sender \<Rightarrow> SmsSendIndexer \<Rightarrow> GsmSimMessageParam" where
  "part_data s x = \<lparr>gp_refId = msgRef64bit s + 1, gp_smscPdu = StringToHex (ix_smca x), gp_pdu = StringToHex (ix_pdu x)\<rparr>"

definition handed_over :: "'e sender_env_scheme \<Rightarrow> nat \<Rightarrow> SmsSendIndexer \<Rightarrow> sender \<Rightarrow> sender" where
  "handed_over env p x s = s\<lparr>msgRef64bit := msgRef64bit s + 1, sendCacheMap := sendCacheMap s @ [(msgRef64bit s + 1, p)],
     lastSmsDomain := carrier_domain env s, outs := outs s @ [carrier env s (hasMore x) (part_data s x)]\<rparr>"

lemma keys_below_fresh: "keys_below s \<Longrightarrow> map_of (sendCacheMap s) (msgRef64bit s + 1) = None"
  by (auto simp: keys_below_def map_of_eq_None_iff)

lemma SendSmsToRil_first:
  assumes "in_heap s p" "csResendCount (indexers s ! p) = 0" "psResendCount (indexers s ! p) = 0" "can_send env s"
  shows "SendSmsToRil env (Some p) s = Ok () (handed_over env p (indexers s ! p) s)"
  using assms keys_below_fresh [of s]
  by (simp add: SendSmsToRil_def SendCsSms_def SendSatelliteSms_def SendImsSms_def GetMsgRef64Bit_def SendCacheMapAddItem_def
      sender_ops in_heap_def use_cs_def can_send_def handed_over_def carrier_def carrier_domain_def part_data_def Let_def
      MAX_SEND_RETRIES_def)

text \<open>
  What a receiver makes of it: the type of number and the text as they were sent; the flag for duplicates comes back inverted,
  the numbering plan is not decoded, and the kind of message waiting indication, which is not encoded, is the one of a message without
  indication.
\<close>

definition received_part :: "u8 \<Rightarrow> nat \<Rightarrow> nat \<Rightarrow> bytes \<Rightarrow> DataCodingScheme \<Rightarrow> bool \<Rightarrow> bytes \<Rightarrow> SmsSubmit" where
  "received_part ref cnt i ds sch sr us = (submit_part ref cnt i ds sch sr us)\<lparr>sub_bRejectDup := True,
     sub_destAddress := mk_number TYPE_UNKNOWN 0 ds, sub_dcs := (submit_dcs sch)\<lparr>indType := SMS_OTHER_INDICATOR\<rparr>\<rparr>"

lemma EncodeDCS_indType: "EncodeDCS (d\<lparr>indType := y\<rparr>) = EncodeDCS d"
  by (cases "codingGroup d") (simp_all add: EncodeDCS_def EncodeDCS_group_def)

lemma EncodeSmsPdu_indType:
  "EncodeSmsPdu (SMS_TPDU_SUBMIT (t\<lparr>sub_dcs := (sub_dcs t)\<lparr>indType := y\<rparr>\<rparr>)) = EncodeSmsPdu (SMS_TPDU_SUBMIT t)"
  by (simp add: fun_eq_iff EncodeSmsPdu_def encode_tpdu_def EncodeSubmitPdu_def EncodeSubmitTpduType_def EncodeSubmitTypePartData_def
      EncodeSubmitTypeData_def EncodeSubmitPduPartData_def append_dcs_def EncodeDCS_indType)

lemma part_encodes_one:
  assumes "number_ok TYPE_UNKNOWN SMS_NPI_ISDN ds" "ds \<noteq> CT_SMSC" "sch \<in> {DATA_CODING_7BIT, DATA_CODING_UCS2}"
    and "ud_ok sch (part_headers ref cnt i) us"
  shows "\<exists>out buf. EncodeSmsPdu (SMS_TPDU_SUBMIT (submit_part ref cnt i ds sch sr us)) 255 (replicate 255 0, 0) = Ok () (buf, length out) \<and>
    take (length out) buf = out \<and> out \<noteq> [] \<and>
    DecodeSmsPdu ic wsize out = Ok () (Some (SMS_TPDU_SUBMIT (received_part ref cnt i ds sch sr us)))"
proof -
  let ?d = "(submit_dcs sch)\<lparr>indType := SMS_OTHER_INDICATOR\<rparr>" and ?t = "submit_part ref cnt i ds sch sr us"
  have dcs: "plain_dcs sch ?d" using assms(3) by (auto simp: plain_dcs_def submit_dcs_def zero_dcs_def)
  have num: "number_chars TYPE_UNKNOWN ds \<noteq> CT_SMSC" using assms(2) by (simp add: number_chars_def)
  have t: "?t\<lparr>sub_dcs := ?d\<rparr> = \<lparr>sub_bRejectDup = False, sub_bStatusReport = sr,
     sub_bHeaderInd = (part_headers ref cnt i \<noteq> []), sub_bReplyPath = False, sub_msgRef = ref, sub_vpf = SMS_VPF_NOT_PRESENT,
     sub_destAddress = mk_number TYPE_UNKNOWN SMS_NPI_ISDN ds, sub_pid = SMS_NORMAL_PID, sub_dcs = ?d,
     sub_validityPeriod = zero_time, sub_userData = mk_ud (part_headers ref cnt i) us\<rparr>"
    by (simp add: submit_part_def)
  obtain out buf where o: "EncodeSmsPdu (SMS_TPDU_SUBMIT (?t\<lparr>sub_dcs := ?d\<rparr>)) 255 (replicate 255 0, 0) = Ok () (buf, length out)"
      "take (length out) buf = out" "DecodeSmsPdu ic wsize out = Ok () (Some (SMS_TPDU_SUBMIT
        (?t\<lparr>sub_dcs := ?d, sub_bRejectDup := \<not> False, sub_destAddress := mk_number TYPE_UNKNOWN 0 ds, sub_validityPeriod := zero_time\<rparr>)))"
    using submit_roundtrips [OF assms(1) num assms(4) dcs _ t, of "replicate 255 0" 0 ic wsize] by auto
  have "sub_dcs ?t = submit_dcs sch" by (simp add: submit_part_def)
  with o(1) EncodeSmsPdu_indType [of SMS_OTHER_INDICATOR ?t] have "EncodeSmsPdu (SMS_TPDU_SUBMIT ?t) 255 (replicate 255 0, 0) = Ok () (buf, length out)"
    by simp
  moreover have "out \<noteq> []" using o(3) by (auto simp: DecodeSmsPdu_def run_decoder_def op_simps Let_def)
  ultimately show ?thesis using o(2,3) by (auto simp: received_part_def submit_part_def)
qed

lemma part_encodes:
  assumes "number_ok TYPE_UNKNOWN SMS_NPI_ISDN ds" "ds \<noteq> CT_SMSC" "sch \<in> {DATA_CODING_7BIT, DATA_CODING_UCS2}"
    and "ud_ok sch (part_headers ref cnt i) us"
  shows "\<exists>out buf. EncodeSmsPdu (SMS_TPDU_SUBMIT (submit_part ref cnt i ds sch sr us)) 255 (replicate 255 0, 0) = Ok () (buf, length out) \<and>
    take (length out) buf = out \<and> out \<noteq> [] \<and>
    (\<forall>ic wsize. DecodeSmsPdu ic wsize out = Ok () (Some (SMS_TPDU_SUBMIT (received_part ref cnt i ds sch sr us))))"
proof -
  note one = part_encodes_one [OF assms, of sr]
  obtain out buf where o: "EncodeSmsPdu (SMS_TPDU_SUBMIT (submit_part ref cnt i ds sch sr us)) 255 (replicate 255 0, 0) = Ok () (buf, length out)"
      "take (length out) buf = out" "out \<noteq> []"
    using one by blast
  have "DecodeSmsPdu ic wsize out = Ok () (Some (SMS_TPDU_SUBMIT (received_part ref cnt i ds sch sr us)))" for ic wsize
    using one [of ic wsize] o by auto
  with o show ?thesis by blast
qed

lemma get_ix_eq: "in_heap s p \<Longrightarrow> get_ix p s = Ok (indexers s ! p) s"
  by (simp add: sender_ops in_heap_def)

lemma text_part_sent:
  fixes env :: "'e sender_env_scheme"
  assumes m: "outgoing ds sch cnt m" and cells: "cnt = length cells" "i < cnt" "us = encodeData (cells ! i)" "us \<noteq> []" "length us \<le> MAX_USER_DATA_LEN"
    and lang: "sch = DATA_CODING_7BIT \<longrightarrow> split_langId (cells ! i) = 0"
    and ds: "number_ok TYPE_UNKNOWN SMS_NPI_ISDN ds" "ds \<noteq> CT_SMSC"
    and ud: "sch \<in> {DATA_CODING_7BIT, DATA_CODING_UCS2}" "ud_ok sch (part_headers ref cnt i) us" and s: "can_send env s"
  defines "final \<equiv> i + 1 = cnt"
  shows "\<exists>m' x. text_part env ds sc cells sch sr sendCb deliveryCb dbId mmsApp ref f i m s =
      Ok (Some m') (handed_over env (length (indexers s)) x (s\<lparr>indexers := indexers s @ [x]\<rparr>)) \<and> outgoing ds sch cnt m' \<and>
    (\<forall>ic wsize. DecodeSmsPdu ic wsize (ix_pdu x) = Ok () (Some (SMS_TPDU_SUBMIT
      (received_part ref cnt i ds sch (final \<and> sr) us)))) \<and>
    ix_smca x = smsc_octets sc \<and> hasMore x = (\<not> final) \<and> msgRefId x = ref \<and> sendCallback x = sendCb \<and>
    deliveryCallback x = deliveryCb \<and> hasCellFailed x = Some f \<and> timeStamp x = env_now env \<and> unSentCellCount x = word_of_nat cnt"
proof -
  define bMore where "bMore = (cnt > 1 \<and> i < cnt - 1)"
  have more: "bMore = (\<not> final)" "(\<not> bMore \<and> sr) = (final \<and> sr)" using cells(2) by (auto simp: bMore_def final_def)
  obtain m1 m2 where m12: "set_user_data us ref m = Ok () m1"
      "submit_headers (if cnt > 1 then Some (part_concat ref cnt i True) else None) sch (split_langId (cells ! i)) (\<not> bMore \<and> sr) m1 = Ok () m2"
      "smsTpdu m2 = Some (SMS_TPDU_SUBMIT (submit_part ref cnt i ds sch (final \<and> sr) us))" "outgoing ds sch cnt m2"
    using part_built [OF m cells(5) lang, of ref i "\<not> bMore \<and> sr"] more(2) by auto
  obtain out buf where out: "EncodeSmsPdu (SMS_TPDU_SUBMIT (submit_part ref cnt i ds sch (final \<and> sr) us)) 255 (replicate 255 0, 0) = Ok () (buf, length out)"
      "take (length out) buf = out" "out \<noteq> []" and dec: "\<forall>ic wsize. DecodeSmsPdu ic wsize out = Ok () (Some (SMS_TPDU_SUBMIT
      (received_part ref cnt i ds sch (final \<and> sr) us)))"
    using part_encodes [OF ds ud] by blast
  obtain info where info: "GetSubmitEncodeInfo sc bMore m2 = Ok (Some info) m2" "ei_isMore info = bMore"
      "take (unat (smcaLen info)) (smcaData info) = smsc_octets sc" "unat (smcaLen info) \<le> 21" "length (smcaData info) = 21"
      "take (unat (tpduLen info)) (tpduData info) = out" "unat (tpduLen info) \<le> 256" "length (tpduData info) = 256"
    using GetSubmitEncodeInfo_encodes [OF m12(3) out] by blast
  let ?p = "length (indexers s)"
  define x0 where "x0 = (text_indexer ds sc us sendCb deliveryCb)\<lparr>ix_dcs := encodeType (cells ! i), dataBaseId := dbId, isMmsApp := mmsApp\<rparr>"
  define x1 where "x1 = (if cnt > 1 then x0\<lparr>isConcat := True, ix_smsConcat := part_concat ref cnt i (uninit_bool env)\<rparr> else x0)"
  define x where "x = x1\<lparr>ix_langId := split_langId (cells ! i), timeStamp := env_now env, ix_smca := smsc_octets sc, ix_pdu := out,
     hasMore := bMore, msgRefId := ref, ix_netWorkType := NET_TYPE_GSM, unSentCellCount := word_of_nat cnt, hasCellFailed := Some f\<rparr>"
  have x: "csResendCount x = 0" "psResendCount x = 0" "sendCallback x = sendCb" "deliveryCallback x = deliveryCb"
      "ix_pdu x = out" "ix_smca x = smsc_octets sc" "hasMore x = bMore" "msgRefId x = ref" "hasCellFailed x = Some f"
      "timeStamp x = env_now env" "unSentCellCount x = word_of_nat cnt"
    by (simp_all add: x_def x1_def x0_def text_indexer_def new_indexer_def)
  have "can_send env (s\<lparr>indexers := indexers s @ [x]\<rparr>)" using s by (simp add: can_send_def out_of_service_def keys_below_def)
  then have ril: "SendSmsToRil env (Some ?p) (s\<lparr>indexers := indexers s @ [x]\<rparr>) =
      Ok () (handed_over env ?p x (s\<lparr>indexers := indexers s @ [x]\<rparr>))"
    using SendSmsToRil_first [of "s\<lparr>indexers := indexers s @ [x]\<rparr>" ?p env] x by (simp add: in_heap_def)
  have b: "cnt > 1 \<Longrightarrow> (i < length cells - Suc 0) = bMore" "\<not> cnt > 1 \<Longrightarrow> \<not> bMore" using cells(1) by (simp_all add: bMore_def)
  have "text_part env ds sc cells sch sr sendCb deliveryCb dbId mmsApp ref f i m s =
      Ok (Some m2) (handed_over env ?p x (s\<lparr>indexers := indexers s @ [x]\<rparr>))"
    using cells m12(1,2) info ril b
    unfolding text_part_def SetSendIndexerInfo_def slice_def make_indexer_def
    by (cases "cnt > 1") (simp_all add: seq_def bnd_def ret_def rd_at_def gets_def upd_def with_new_def upd_ix_eq in_heap_def Let_def
        x_def x1_def x0_def)
  then show ?thesis using m12(4) dec more x by (intro exI [of _ m2] exI [of _ x]) simp
qed

section \<open>Handing all parts over\<close>

fun hand_all :: "'e sender_env_scheme \<Rightarrow> SmsSendIndexer list \<Rightarrow> sender \<Rightarrow> sender" where
  "hand_all env [] s = s"
| "hand_all env (x # xs) s = hand_all env xs (handed_over env (length (indexers s)) x (s\<lparr>indexers := indexers s @ [x]\<rparr>))"

definition part_output :: "'e sender_env_scheme \<Rightarrow> sender \<Rightarrow> SmsSendIndexer list \<Rightarrow> nat \<Rightarrow> sender_out" where
  "part_output env s xs j = carrier env s (hasMore (xs ! j)) \<lparr>gp_refId = msgRef64bit s + 1 + int j,
     gp_smscPdu = StringToHex (ix_smca (xs ! j)), gp_pdu = StringToHex (ix_pdu (xs ! j))\<rparr>"

lemma hand_all_effects:
  "indexers (hand_all env xs s) = indexers s @ xs \<and>
   sendCacheMap (hand_all env xs s) = sendCacheMap s @ map (\<lambda>j. (msgRef64bit s + 1 + int j, length (indexers s) + j)) [0..<length xs] \<and>
   outs (hand_all env xs s) = outs s @ map (part_output env s xs) [0..<length xs] \<and> cell_flags (hand_all env xs s) = cell_flags s"
proof (induction xs arbitrary: s)
  case (Cons x xs)
  let ?t = "handed_over env (length (indexers s)) x (s\<lparr>indexers := indexers s @ [x]\<rparr>)"
  have idx: "[0..<length (x # xs)] = 0 # map Suc [0..<length xs]" by (simp add: map_Suc_upt upt_conv_Cons del: upt_Suc)
  have t: "indexers ?t = indexers s @ [x]" "msgRef64bit ?t = msgRef64bit s + 1" "cell_flags ?t = cell_flags s"
    "sendCacheMap ?t = sendCacheMap s @ [(msgRef64bit s + 1, length (indexers s))]"
    "outs ?t = outs s @ [part_output env s (x # xs) 0]"
    by (simp_all add: handed_over_def part_output_def part_data_def carrier_def)
  have out: "part_output env ?t xs j = part_output env s (x # xs) (Suc j)" for j
    by (simp add: part_output_def handed_over_def carrier_def)
  show ?case using Cons.IH [of ?t] t out unfolding idx by (simp add: o_def add_ac)
qed simp

lemmas hand_all_effect =
  hand_all_effects [THEN conjunct1] hand_all_effects [THEN conjunct2, THEN conjunct1]
  hand_all_effects [THEN conjunct2, THEN conjunct2, THEN conjunct1] hand_all_effects [THEN conjunct2, THEN conjunct2, THEN conjunct2]

lemma can_send_handed: "can_send env s \<Longrightarrow> can_send env (handed_over env p x (s\<lparr>indexers := h\<rparr>))"
  by (auto simp: can_send_def keys_below_def out_of_service_def handed_over_def)

text \<open>What is known of the indexer of part \<open>i\<close>.\<close>

definition part_indexer ::
  "'e sender_env_scheme \<Rightarrow> bytes \<Rightarrow> bytes \<Rightarrow> SplitInfo list \<Rightarrow> DataCodingScheme \<Rightarrow> bool \<Rightarrow> nat option \<Rightarrow> nat option \<Rightarrow> u8 \<Rightarrow> nat \<Rightarrow>
   nat \<Rightarrow> SmsSendIndexer \<Rightarrow> bool" where
  "part_indexer env ds sc cells sch sr sendCb deliveryCb ref f i x \<longleftrightarrow>
     (\<forall>ic wsize. DecodeSmsPdu ic wsize (ix_pdu x) = Ok () (Some (SMS_TPDU_SUBMIT
        (received_part ref (length cells) i ds sch (i + 1 = length cells \<and> sr) (encodeData (cells ! i)))))) \<and>
     ix_smca x = smsc_octets sc \<and> hasMore x = (i + 1 \<noteq> length cells) \<and> msgRefId x = ref \<and> sendCallback x = sendCb \<and>
     deliveryCallback x = deliveryCb \<and> hasCellFailed x = Some f \<and> timeStamp x = env_now env \<and>
     unSentCellCount x = word_of_nat (length cells)"

definition segment_fits :: "DataCodingScheme \<Rightarrow> nat \<Rightarrow> SplitInfo \<Rightarrow> bool" where
  "segment_fits sch cnt c \<longleftrightarrow> encodeData c \<noteq> [] \<and> length (encodeData c) \<le> segment_limit sch cnt \<and>
     (sch = DATA_CODING_7BIT \<longrightarrow> split_langId c = 0 \<and> (\<forall>x \<in> set (encodeData c). x < 0x80))"

lemma segment_ud_ok:
  assumes "segment_fits sch cnt c" "sch \<in> {DATA_CODING_7BIT, DATA_CODING_UCS2}"
  shows "ud_ok sch (part_headers ref cnt i) (encodeData c)"
  using assms
  by (auto simp: segment_fits_def ud_ok_def gsm_ok_def ucs2_ok_def headers_ok_def part_headers_def plain_header_def MAX_UD_HEADER_NUM_def
      gsm_udl_def octet_udl_def header_octets_def header_septets_def fill_bits_def segment_limit_def is_7bit_def)

lemma text_parts_sent:
  fixes env :: "'e sender_env_scheme"
  assumes cells: "\<forall>c \<in> set cells. segment_fits sch (length cells) c"
    and ds: "number_ok TYPE_UNKNOWN SMS_NPI_ISDN ds" "ds \<noteq> CT_SMSC" and sch: "sch \<in> {DATA_CODING_7BIT, DATA_CODING_UCS2}"
    and m: "outgoing ds sch (length cells) m" and s: "can_send env s" and i: "i \<le> length cells"
  shows "\<exists>xs. loop_with (text_part env ds sc cells sch sr sendCb deliveryCb dbId mmsApp ref f) [i..<length cells] m s =
      Ok () (hand_all env xs s) \<and> length xs = length cells - i \<and>
    (\<forall>j < length xs. part_indexer env ds sc cells sch sr sendCb deliveryCb ref f (i + j) (xs ! j))"
  using m s i
proof (induction "length cells - i" arbitrary: i m s)
  case 0
  then show ?case by (intro exI [of _ "[]"]) (simp add: ret_def)
next
  case (Suc n)
  have i: "i < length cells" using Suc.hyps(2) by simp
  have c: "segment_fits sch (length cells) (cells ! i)" using cells i by simp
  have len: "length (encodeData (cells ! i)) \<le> MAX_USER_DATA_LEN"
    using c by (auto simp: segment_fits_def segment_limit_def MAX_USER_DATA_LEN_def split: if_splits)
  obtain m' x where 1: "text_part env ds sc cells sch sr sendCb deliveryCb dbId mmsApp ref f i m s =
      Ok (Some m') (handed_over env (length (indexers s)) x (s\<lparr>indexers := indexers s @ [x]\<rparr>))" "outgoing ds sch (length cells) m'"
      "part_indexer env ds sc cells sch sr sendCb deliveryCb ref f i x"
    using text_part_sent [OF Suc.prems(1) refl i refl _ len _ ds sch segment_ud_ok [OF c sch] Suc.prems(2),
        of sc sr sendCb deliveryCb dbId mmsApp ref f] c
    unfolding part_indexer_def segment_fits_def by auto
  let ?t = "handed_over env (length (indexers s)) x (s\<lparr>indexers := indexers s @ [x]\<rparr>)"
  obtain xs where xs: "loop_with (text_part env ds sc cells sch sr sendCb deliveryCb dbId mmsApp ref f) [Suc i..<length cells] m' ?t =
      Ok () (hand_all env xs ?t)" "length xs = length cells - Suc i"
      "\<forall>j < length xs. part_indexer env ds sc cells sch sr sendCb deliveryCb ref f (Suc i + j) (xs ! j)"
    using Suc.hyps(1) [OF _ 1(2) can_send_handed [OF Suc.prems(2)], of "Suc i"] Suc.hyps(2) i by fastforce
  have "[i..<length cells] = i # [Suc i..<length cells]" using i by (rule upt_conv_Cons)
  then have "loop_with (text_part env ds sc cells sch sr sendCb deliveryCb dbId mmsApp ref f) [i..<length cells] m s =
      Ok () (hand_all env (x # xs) s)"
    using 1(1) xs(1) by (simp add: bnd_def)
  moreover have "\<forall>j < length (x # xs). part_indexer env ds sc cells sch sr sendCb deliveryCb ref f (i + j) ((x # xs) ! j)"
    using xs(3) 1(3) by (auto simp: nth_Cons less_Suc_eq_0_disj split: nat.splits)
  ultimately show ?case using xs(2) i by (intro exI [of _ "x # xs"]) simp
qed

section \<open>A text\<close>

lemma segments_fit:
  assumes "split_spec k sch 0 d segs" "sch = DATA_CODING_7BIT \<longrightarrow> (\<forall>x \<in> set (take (nat k) d). x < 0x80)"
  shows "\<forall>c \<in> set segs. segment_fits sch (length segs) c"
proof
  fix c
  assume c: "c \<in> set segs"
  have "x < 0x80" if "sch = DATA_CODING_7BIT" "x \<in> set (encodeData c)" for x
  proof -
    have "concat (map encodeData segs) = take (nat k) d" using assms(1) that(1) by (auto simp: split_spec_def is_7bit_def)
    moreover have "x \<in> set (concat (map encodeData segs))" using c that(2) by auto
    ultimately have "x \<in> set (take (nat k) d)" by (simp only:)
    with assms(2) that(1) show ?thesis by blast
  qed
  then show "segment_fits sch (length segs) c" using assms(1) c by (auto simp: segment_fits_def split_spec_def)
qed

text \<open>The coding that \<open>TextBasedSmsDelivery\<close> chooses for a text.\<close>

definition text_coding :: "'e sender_env_scheme \<Rightarrow> bytes \<Rightarrow> (int \<times> DataCodingScheme \<times> u8, bytes) outcome" where
  "text_coding env txt = DecodeMessage (env_iconv env) (env_wsize env) (coding_national env) DATA_CODING_AUTO txt (replicate DECODE_DATA_SIZE 0)"

definition numbered :: "sender \<Rightarrow> sender" where
  "numbered s = s\<lparr>msgRef8bit := msgRef8bit s + 1, cell_flags := cell_flags s @ [False]\<rparr>"

lemma text_handed_over:
  fixes env :: "'e sender_env_scheme"
  assumes ic: "iconv_bounded (env_iconv env)" and icu: "icu env = Some b" and f7: "\<not> force_7bit env"
    and coding: "text_coding env txt = Ok (k, sch, 0) d" and sch: "sch \<in> {DATA_CODING_7BIT, DATA_CODING_UCS2}"
    and ds: "number_ok TYPE_UNKNOWN SMS_NPI_ISDN ds" "ds \<noteq> CT_SMSC" and s: "can_send env s"
  shows "\<exists>segs. split_spec k sch 0 d segs \<and>
    (if length segs > MAX_SEGMENT_NUM then
       TextBasedSmsDelivery env ds sc txt sendCb deliveryCb dbId mmsApp s = SendResultCallBack sendCb SEND_SMS_FAILURE_UNKNOWN s
     else \<exists>xs. TextBasedSmsDelivery env ds sc txt sendCb deliveryCb dbId mmsApp s = Ok () (hand_all env xs (numbered s)) \<and>
       length xs = length segs \<and> (\<forall>j < length xs. part_indexer env ds sc segs sch (deliveryCb \<noteq> None) sendCb deliveryCb
         (msgRef8bit s + 1) (length (cell_flags s)) j (xs ! j)))"
proof -
  let ?D = "DecodeMessage (env_iconv env) (env_wsize env) (coding_national env)"
  have start: "start_coding False [] = DATA_CODING_AUTO" by (simp add: start_coding_def CT_SMSC_def)
  obtain segs where segs: "SplitMessage (env_iconv env) (env_wsize env) (Some b) ?D txt False False [] [] = Ok sch segs" "split_spec k sch 0 d segs"
    using gsm_text.split_returns [OF ic, of False "[]" "env_wsize env" "coding_national env" "txt" "env_wsize env" b False "[]"] coding
    by (auto simp: start text_coding_def)
  have fits: "\<forall>c \<in> set segs. segment_fits sch (length segs) c"
    using segments_fit [OF segs(2)] DecodeMessage_returns [OF ic, of DATA_CODING_AUTO "replicate DECODE_DATA_SIZE 0" "env_wsize env" "coding_national env" "txt"] coding
    by (auto simp: text_coding_def)
  have split: "split_text_message env False [] txt s = Ok (sch, segs) s"
    using segs(1) icu f7 by (simp add: split_text_message_def with_new_def)
  obtain m where m: "CreateDefaultSubmitSmsTpdu ds sc txt (deliveryCb \<noteq> None) sch (new_message\<lparr>smsCodingNationalType := coding_national env\<rparr>) = Ok () m"
      "outgoing ds sch (length segs) m"
    using outgoing_start [of ds] ds(1) unfolding number_ok_def by blast
  have "can_send env (numbered s)" using s by (simp add: numbered_def can_send_def keys_below_def out_of_service_def)
  then obtain xs where xs: "loop_with (text_part env ds sc segs sch (deliveryCb \<noteq> None) sendCb deliveryCb dbId mmsApp (msgRef8bit s + 1) (length (cell_flags s)))
        [0..<length segs] m (numbered s) = Ok () (hand_all env xs (numbered s))" "length xs = length segs"
      "\<forall>j < length xs. part_indexer env ds sc segs sch (deliveryCb \<noteq> None) sendCb deliveryCb (msgRef8bit s + 1) (length (cell_flags s)) j (xs ! j)"
    using text_parts_sent [OF fits ds sch m(2), of env "numbered s" 0 sc "deliveryCb \<noteq> None" sendCb deliveryCb dbId mmsApp
        "msgRef8bit s + 1" "length (cell_flags s)"] by auto
  have "TextBasedSmsSplitDelivery env ds sc segs sch (deliveryCb \<noteq> None) sendCb deliveryCb dbId mmsApp m s = Ok () (hand_all env xs (numbered s))"
    using xs(1) by (simp add: TextBasedSmsSplitDelivery_def GetMsgRef8Bit_def make_flag_def seq_def bnd_def upd_def gets_def ret_def numbered_def)
  then have "TextBasedSmsDelivery env ds sc txt sendCb deliveryCb dbId mmsApp s =
      (if length segs > MAX_SEGMENT_NUM then SendResultCallBack sendCb SEND_SMS_FAILURE_UNKNOWN s else Ok () (hand_all env xs (numbered s)))"
    using split m(1) by (simp add: TextBasedSmsDelivery_def bnd_def with_new_def)
  then show ?thesis using segs(2) xs(2,3) by (intro exI [of _ segs]) auto
qed

text \<open>
  C4. A text reaches the air intact. For any text whose coding needs no language table, in the 7-bit or the UCS-2
  alphabet, to a number of digits: the segments fit and together are the coded text; a text of more than fifteen
  segments is refused with one failure result; otherwise every segment is handed to the transport in order, with consecutive
  reference numbers, and the TPDU handed over decodes to an SMS-SUBMIT to that number which holds exactly the segment's data and
  the concatenation header with its position, the delivery report being requested by the last one only.
\<close>

theorem text_on_air:
  fixes env :: sender_env
  assumes "iconv_bounded (env_iconv env)" "icu env = Some b" "\<not> force_7bit env"
    and "text_coding env txt = Ok (k, sch, 0) d" "sch \<in> {DATA_CODING_7BIT, DATA_CODING_UCS2}"
    and "number_ok TYPE_UNKNOWN SMS_NPI_ISDN ds" "ds \<noteq> CT_SMSC" "can_send env s"
  shows "\<exists>segs t pdus. split_spec k sch 0 d segs \<and> TextBasedSmsDelivery env ds sc txt (Some cb) deliveryCb dbId mmsApp s = Ok () t \<and>
    outs t = outs s @ (if length segs > MAX_SEGMENT_NUM then [OnSmsSendResult cb SEND_SMS_FAILURE_UNKNOWN]
      else map (\<lambda>i. carrier env s (i + 1 \<noteq> length segs) \<lparr>gp_refId = msgRef64bit s + 1 + int i,
        gp_smscPdu = StringToHex (smsc_octets sc), gp_pdu = StringToHex (pdus i)\<rparr>) [0..<length segs]) \<and>
    (length segs \<le> MAX_SEGMENT_NUM \<longrightarrow> (\<forall>i < length segs. \<forall>ic wsize. DecodeSmsPdu ic wsize (pdus i) = Ok () (Some (SMS_TPDU_SUBMIT
      (received_part (msgRef8bit s + 1) (length segs) i ds sch (i + 1 = length segs \<and> deliveryCb \<noteq> None) (encodeData (segs ! i)))))))"
proof -
  obtain segs where segs: "split_spec k sch 0 d segs" "if length segs > MAX_SEGMENT_NUM then
       TextBasedSmsDelivery env ds sc txt (Some cb) deliveryCb dbId mmsApp s = SendResultCallBack (Some cb) SEND_SMS_FAILURE_UNKNOWN s
     else \<exists>xs. TextBasedSmsDelivery env ds sc txt (Some cb) deliveryCb dbId mmsApp s = Ok () (hand_all env xs (numbered s)) \<and>
       length xs = length segs \<and> (\<forall>j < length xs. part_indexer env ds sc segs sch (deliveryCb \<noteq> None) (Some cb) deliveryCb
         (msgRef8bit s + 1) (length (cell_flags s)) j (xs ! j))"
    using text_handed_over [OF assms, of sc "Some cb" deliveryCb dbId mmsApp] by blast
  show ?thesis
  proof (cases "length segs > MAX_SEGMENT_NUM")
    case True
    then show ?thesis using segs by (intro exI [of _ segs] exI) (auto simp: SendResultCallBack_def emit_def upd_def)
  next
    case False
    then obtain xs where xs: "TextBasedSmsDelivery env ds sc txt (Some cb) deliveryCb dbId mmsApp s = Ok () (hand_all env xs (numbered s))"
        "length xs = length segs" "\<And>j. j < length xs \<Longrightarrow> part_indexer env ds sc segs sch (deliveryCb \<noteq> None) (Some cb) deliveryCb
         (msgRef8bit s + 1) (length (cell_flags s)) j (xs ! j)"
      using segs(2) by auto
    have "part_output env (numbered s) xs i = carrier env s (i + 1 \<noteq> length segs) \<lparr>gp_refId = msgRef64bit s + 1 + int i,
        gp_smscPdu = StringToHex (smsc_octets sc), gp_pdu = StringToHex (ix_pdu (xs ! i))\<rparr>" if "i < length segs" for i
      using xs(3) [of i] that xs(2) by (simp add: part_output_def part_indexer_def numbered_def carrier_def)
    then have "outs (hand_all env xs (numbered s)) = outs s @ map (\<lambda>i. carrier env s (i + 1 \<noteq> length segs) \<lparr>gp_refId = msgRef64bit s + 1 + int i,
        gp_smscPdu = StringToHex (smsc_octets sc), gp_pdu = StringToHex (ix_pdu (xs ! i))\<rparr>) [0..<length segs]"
      using xs(2) by (simp add: hand_all_effect numbered_def)
    then show ?thesis using segs(1) xs False
      by (intro exI [of _ segs] exI [of _ "hand_all env xs (numbered s)"] exI [of _ "\<lambda>i. ix_pdu (xs ! i)"]) (auto simp: part_indexer_def)
  qed
qed

section \<open>A text and its answers\<close>

text \<open>Nothing in the cache belongs to the message about to be sent: no part has its reference or its callback.\<close>

definition fresh_for :: "nat \<Rightarrow> sender \<Rightarrow> bool" where
  "fresh_for cb s \<longleftrightarrow> cache_ok s \<and> (\<forall>(_, p) \<in> set (sendCacheMap s). flag_ok s (indexers s ! p) \<and>
     msgRefId (indexers s ! p) \<noteq> msgRef8bit s + 1 \<and> sendCallback (indexers s ! p) \<noteq> Some cb)"

definition part_keys :: "sender \<Rightarrow> nat \<Rightarrow> (int \<times> nat) set" where
  "part_keys s n = (\<lambda>j. (msgRef64bit s + 1 + int j, length (indexers s) + j)) ` {..<n}"

lemma part_keys_card: "card (part_keys s n) = n" "fst ` part_keys s n = {msgRef64bit s + 1 ..< msgRef64bit s + 1 + int n}"
proof -
  show "card (part_keys s n) = n" by (auto simp: part_keys_def card_image inj_on_def)
  show "fst ` part_keys s n = {msgRef64bit s + 1 ..< msgRef64bit s + 1 + int n}"
    by (auto simp: part_keys_def image_image intro!: image_eqI [of _ _ "nat (_ - (msgRef64bit s + 1))"])
qed

lemma handed_over_awaits:
  assumes s: "fresh_for cb s" "keys_below s" and n: "length xs = length segs" "length segs < 256"
    and xs: "\<And>j. j < length xs \<Longrightarrow> part_indexer env ds sc segs sch sr (Some cb) deliveryCb (msgRef8bit s + 1) (length (cell_flags s)) j (xs ! j)"
  shows "awaiting (msgRef8bit s + 1) cb (length (cell_flags s)) (env_now env) (part_keys s (length segs)) (hand_all env xs (numbered s))"
    and "\<not> cell_flags (hand_all env xs (numbered s)) ! length (cell_flags s)"
proof -
  let ?t = "hand_all env xs (numbered s)" and ?P = "part_keys s (length segs)"
  have ix: "indexers ?t = indexers s @ xs" and fl: "cell_flags ?t = cell_flags s @ [False]"
    and cache: "set (sendCacheMap ?t) = set (sendCacheMap s) \<union> ?P"
    "sendCacheMap ?t = sendCacheMap s @ map (\<lambda>j. (msgRef64bit s + 1 + int j, length (indexers s) + j)) [0..<length xs]"
    by (auto simp: hand_all_effect numbered_def part_keys_def n(1))
  then show "\<not> cell_flags ?t ! length (cell_flags s)" by simp
  have old: "in_heap s p" "k \<le> msgRef64bit s" "unrelated (msgRef8bit s + 1) cb (length (cell_flags s)) (indexers ?t ! p)" "flag_ok ?t (indexers ?t ! p)"
    if "(k, p) \<in> set (sendCacheMap s)" for k p
  proof -
    show heap: "in_heap s p" and "k \<le> msgRef64bit s" using s that by (auto simp: fresh_for_def cache_ok_def list_all_iff keys_below_def)
    show "unrelated (msgRef8bit s + 1) cb (length (cell_flags s)) (indexers ?t ! p)" "flag_ok ?t (indexers ?t ! p)"
      using s(1) that heap by (auto simp: fresh_for_def ix fl in_heap_def nth_append unrelated_def flag_ok_def less_Suc_eq)
  qed
  have new: "part_waits (msgRef8bit s + 1) cb (length (cell_flags s)) (env_now env) (card ?P) (indexers ?t ! p)" "flag_ok ?t (indexers ?t ! p)" "in_heap ?t p"
    if "(k, p) \<in> ?P" for k p
  proof -
    from that obtain j where "j < length segs" "p = length (indexers s) + j" by (auto simp: part_keys_def)
    with xs [of j] n(1) show "part_waits (msgRef8bit s + 1) cb (length (cell_flags s)) (env_now env) (card ?P) (indexers ?t ! p)"
        "flag_ok ?t (indexers ?t ! p)" "in_heap ?t p"
      by (simp_all add: part_keys_card ix fl part_indexer_def part_waits_def flag_ok_def in_heap_def)
  qed
  have ok: "cache_ok ?t"
    using s(1) old(1,2) n(1) new(3)
    by (fastforce simp: cache_ok_def fresh_for_def cache(2) in_heap_def ix list_all_iff distinct_map inj_on_def)
  show "awaiting (msgRef8bit s + 1) cb (length (cell_flags s)) (env_now env) ?P ?t"
    using ok old new n(2) unfolding awaiting_def cache(1) by (auto simp: fl part_keys_card)
qed

text \<open>
  C5. From a text to its result, when every part gets a final answer. A text for a numeric address that needs no language table comes to one
  to fifteen parts and is sent at a time when no cached part has its reference number or its callback. If then the radio
  answers every part exactly once, in any order and mixed with answers to other messages, no answer comes later than the
  cache keeps a part, and no failed answer asks for a retry, the callback has heard exactly one result: success if and only if
  every part was sent. Nothing is said about a text of which a part is retried.
\<close>

theorem text_reported_once:
  fixes env :: sender_env
  assumes "iconv_bounded (env_iconv env)" "icu env = Some b" "\<not> force_7bit env"
    and "text_coding env txt = Ok (k, sch, 0) d" "sch \<in> {DATA_CODING_7BIT, DATA_CODING_UCS2}"
    and "number_ok TYPE_UNKNOWN SMS_NPI_ISDN ds" "ds \<noteq> CT_SMSC" "can_send env s" "fresh_for cb s"
  shows "\<exists>segs t. split_spec k sch 0 d segs \<and> TextBasedSmsDelivery env ds sc txt (Some cb) deliveryCb dbId mmsApp s = Ok () t \<and>
    (segs \<noteq> [] \<and> length segs \<le> MAX_SEGMENT_NUM \<longrightarrow>
     (\<forall>evs :: (sender_env \<times> radio_answer) list.
        let keys = {msgRef64bit s + 1 ..< msgRef64bit s + 1 + int (length segs)} in
        final_answers (env_now env) keys evs \<and> (\<forall>i \<in> keys. Some i \<in> (answer_flag \<circ> snd) ` set evs) \<longrightarrow>
        (\<exists>u. handle_all evs t = Ok () u \<and> results_for cb u = results_for cb s @ [OnSmsSendResult cb
          (if \<exists>(_, a) \<in> set (answers_to keys evs). answer_failed a then SEND_SMS_FAILURE_UNKNOWN else SEND_SMS_SUCCESS)])))"
proof -
  obtain segs where segs: "split_spec k sch 0 d segs" "if length segs > MAX_SEGMENT_NUM then
       TextBasedSmsDelivery env ds sc txt (Some cb) deliveryCb dbId mmsApp s = SendResultCallBack (Some cb) SEND_SMS_FAILURE_UNKNOWN s
     else \<exists>xs. TextBasedSmsDelivery env ds sc txt (Some cb) deliveryCb dbId mmsApp s = Ok () (hand_all env xs (numbered s)) \<and>
       length xs = length segs \<and> (\<forall>j < length xs. part_indexer env ds sc segs sch (deliveryCb \<noteq> None) (Some cb) deliveryCb
         (msgRef8bit s + 1) (length (cell_flags s)) j (xs ! j))"
    using text_handed_over [OF assms(1-8), of sc "Some cb" deliveryCb dbId mmsApp] by blast
  show ?thesis
  proof (cases "length segs > MAX_SEGMENT_NUM")
    case True
    then show ?thesis using segs by (intro exI [of _ segs] exI) (auto simp: SendResultCallBack_def emit_def upd_def)
  next
    case False
    then obtain xs where xs: "TextBasedSmsDelivery env ds sc txt (Some cb) deliveryCb dbId mmsApp s = Ok () (hand_all env xs (numbered s))"
        "length xs = length segs" "\<And>j. j < length xs \<Longrightarrow> part_indexer env ds sc segs sch (deliveryCb \<noteq> None) (Some cb) deliveryCb
         (msgRef8bit s + 1) (length (cell_flags s)) j (xs ! j)"
      using segs(2) by auto
    let ?t = "hand_all env xs (numbered s)" and ?P = "part_keys s (length segs)"
    have "keys_below s" "length segs < 256" using assms(8) False by (simp_all add: can_send_def MAX_SEGMENT_NUM_def)
    note w = handed_over_awaits [OF assms(9) this(1) xs(2) this(2) xs(3)]
    have res: "results_for cb ?t = results_for cb s"
      by (auto simp: results_for_def hand_all_effect numbered_def part_output_def carrier_def filter_empty_conv)
    have "\<exists>u. handle_all evs ?t = Ok () u \<and> results_for cb u = results_for cb s @ [OnSmsSendResult cb
        (if \<exists>(_, a) \<in> set (answers_to (fst ` ?P) evs). answer_failed a then SEND_SMS_FAILURE_UNKNOWN else SEND_SMS_SUCCESS)]"
      if "segs \<noteq> []" "final_answers (env_now env) (fst ` ?P) evs" "\<forall>i \<in> fst ` ?P. Some i \<in> (answer_flag \<circ> snd) ` set evs"
      for evs :: "(sender_env \<times> radio_answer) list"
    proof -
      have "?P \<noteq> {}" using that(1) by (simp add: part_keys_def lessThan_empty_iff)
      with handle_all_awaiting [OF w(1) that(2)] that(3) w(2) res show ?thesis by (simp cong: if_cong split del: if_split)
    qed
    then show ?thesis using segs(1) xs(1) unfolding part_keys_card Let_def by blast
  qed
qed

section \<open>Examples\<close>

lemma example_coding: "\<exists>d. text_coding example_env [0x61] = Ok (1, DATA_CODING_7BIT, 0) d"
proof -
  have "DECODE_DATA_SIZE > 1" by (simp add: DECODE_DATA_SIZE_def MAX_SEGMENT_NUM_def)
  moreover have "map_of gsm7bitDefMap (ucs2 0 0x61) = Some 0x61" by code_simp
  ultimately show ?thesis
    by (simp add: text_coding_def example_env_def ascii_iconv_def DecodeMessage_def GsmUtf8ToAuto_def Utf8ToUcs2_def src_text_def
      Ucs2ToGsm7bitAuto_def Get7BitCodingExtMap_def ucs2_chars.simps put_all_def put_at_def write_at_def op_simps UCS2_LEN_MAX_def c_str_def lang_id_def)
qed

lemma example_ready:
  "iconv_bounded (env_iconv example_env)" "icu example_env = Some (\<lambda>_ _. True)" "\<not> force_7bit example_env"
  "number_ok TYPE_UNKNOWN SMS_NPI_ISDN [0x31, 0x32]" "[0x31, 0x32] \<noteq> CT_SMSC" "can_send example_env waiting_sender"
  by (simp_all add: iconv_bounded_def example_env_def ascii_iconv_def number_ok_def bcd_char_def CT_SMSC_def can_send_def
      out_of_service_def keys_below_def waiting_sender_def)

lemma example_fresh: "fresh_for 8 waiting_sender"
  by (simp add: fresh_for_def cache_ok_def flag_ok_def in_heap_def waiting_sender_def waiting_part_def new_indexer_def idle_sender_def)

theorem text_on_air_witness:
  "\<exists>d segs t pdus. split_spec 1 DATA_CODING_7BIT 0 d segs \<and>
    TextBasedSmsDelivery example_env [0x31, 0x32] [] [0x61] (Some 8) None 5 True waiting_sender = Ok () t \<and>
    outs t = outs waiting_sender @ (if length segs > MAX_SEGMENT_NUM then [OnSmsSendResult 8 SEND_SMS_FAILURE_UNKNOWN]
      else map (\<lambda>i. carrier example_env waiting_sender (i + 1 \<noteq> length segs) \<lparr>gp_refId = msgRef64bit waiting_sender + 1 + int i,
        gp_smscPdu = StringToHex (smsc_octets []), gp_pdu = StringToHex (pdus i)\<rparr>) [0..<length segs]) \<and>
    (length segs \<le> MAX_SEGMENT_NUM \<longrightarrow> (\<forall>i < length segs. \<forall>ic wsize. DecodeSmsPdu ic wsize (pdus i) = Ok () (Some (SMS_TPDU_SUBMIT
      (received_part (msgRef8bit waiting_sender + 1) (length segs) i [0x31, 0x32] DATA_CODING_7BIT (i + 1 = length segs \<and> (None :: nat option) \<noteq> None)
        (encodeData (segs ! i)))))))"
proof -
  obtain d where "text_coding example_env [0x61] = Ok (1, DATA_CODING_7BIT, 0) d" using example_coding by blast
  from text_on_air [OF example_ready(1-3) this _ example_ready(4-6), of "[]" 8 None 5 True] show ?thesis by (intro exI [of _ d]) simp
qed

theorem text_reported_once_witness:
  "\<exists>d segs t. split_spec 1 DATA_CODING_7BIT 0 d segs \<and>
    TextBasedSmsDelivery example_env [0x31, 0x32] [] [0x61] (Some 8) None 5 True waiting_sender = Ok () t \<and>
    (segs \<noteq> [] \<and> length segs \<le> MAX_SEGMENT_NUM \<longrightarrow>
     (\<forall>evs :: (sender_env \<times> radio_answer) list.
        let keys = {msgRef64bit waiting_sender + 1 ..< msgRef64bit waiting_sender + 1 + int (length segs)} in
        final_answers (env_now example_env) keys evs \<and> (\<forall>i \<in> keys. Some i \<in> (answer_flag \<circ> snd) ` set evs) \<longrightarrow>
        (\<exists>u. handle_all evs t = Ok () u \<and> results_for 8 u = results_for 8 waiting_sender @ [OnSmsSendResult 8
          (if \<exists>(_, a) \<in> set (answers_to keys evs). answer_failed a then SEND_SMS_FAILURE_UNKNOWN else SEND_SMS_SUCCESS)])))"
proof -
  obtain d where "text_coding example_env [0x61] = Ok (1, DATA_CODING_7BIT, 0) d" using example_coding by blast
  from text_reported_once [OF example_ready(1-3) this _ example_ready(4-6) example_fresh, of "[]" None 5 True] show ?thesis
    by (intro exI [of _ d]) (simp only: insert_iff simp_thms)
qed

end
