(* ===== verification/Sms_Send_Manager.thy ===== *)
theory Sms_Send_Manager
  imports Gsm_Sms_Sender
begin

text \<open>
  \<^verbatim>\<open>sms_network_policy_manager.cpp\<close> and \<^verbatim>\<open>sms_send_manager.cpp\<close>: which network a message goes to, how the senders learn of
  changes of the network, and the choice of the sender for a message or a retry.

  The virtual functions of \<^verbatim>\<open>SmsSender\<close> that the manager calls are a table; \<open>gsm_ops\<close> is the one of the GSM sender, the
  table of the CDMA sender is an argument.
\<close>

section \<open>Senders\<close>

record sender_ops =
  op_text :: "bytes \<Rightarrow> bytes \<Rightarrow> bytes \<Rightarrow> nat option \<Rightarrow> nat option \<Rightarrow> int \<Rightarrow> bool \<Rightarrow> (sender, unit) op"
  op_data :: "bytes \<Rightarrow> bytes \<Rightarrow> int \<Rightarrow> bytes \<Rightarrow> nat option \<Rightarrow> nat option \<Rightarrow> (sender, unit) op"
  op_to_ril :: "nat option \<Rightarrow> (sender, unit) op"
  op_resend_text :: "nat option \<Rightarrow> (sender, unit) op"
  op_resend_data :: "nat option \<Rightarrow> (sender, unit) op"
  op_ims_supported :: "(sender, bool option) op"
  op_register_ims :: "(sender, unit) op"

definition gsm_ops :: "'e sender_env_scheme \<Rightarrow> sender_ops" where
  "gsm_ops env = \<lparr>op_text = TextBasedSmsDelivery env, op_data = DataBasedSmsDelivery env, op_to_ril = SendSmsToRil env,
     op_resend_text = ResendTextDelivery env, op_resend_data = ResendDataDelivery env,
     op_ims_supported = IsImsSmsSupported env, op_register_ims = RegisterImsHandler env\<rparr>"

text \<open>The functions the policy manager calls when the network changes.\<close>

datatype net_callback = GsmSetNetworkState | CdmaSetNetworkState

record SmsNetworkPolicyManager =
  np_netWorkType :: NetWorkType
  np_isImsNetDomain :: bool
  np_voiceServiceState :: int
  callbackMap :: "(int \<times> net_callback) list"
  np_id :: int

record SmsSendManager =
  gsmSmsSender :: "sender option"
  cdmaSmsSender :: "sender option"
  networkManager :: "SmsNetworkPolicyManager option"
  mgr_outs :: "sender_out list"

text \<open>\<^verbatim>\<open>sendCacheMap_\<close> and \<^verbatim>\<open>msgRef64bit_\<close> are static: both senders have them in common, with the objects and the outputs.\<close>

definition share :: "sender \<Rightarrow> sender \<Rightarrow> sender" where
  "share s t = t\<lparr>indexers := indexers s, cell_flags := cell_flags s, sendCacheMap := sendCacheMap s,
     msgRef64bit := msgRef64bit s, outs := outs s\<rparr>"

definition on_gsm :: "(sender, 'a) op \<Rightarrow> (SmsSendManager, 'a) op" where
  "on_gsm f m = (case gsmSmsSender m of
     None \<Rightarrow> Fault
   | Some s \<Rightarrow> (case f s of
       Ok x t \<Rightarrow> Ok x (m\<lparr>gsmSmsSender := Some t, cdmaSmsSender := map_option (share t) (cdmaSmsSender m)\<rparr>)
     | Fail t \<Rightarrow> Fail (m\<lparr>gsmSmsSender := Some t, cdmaSmsSender := map_option (share t) (cdmaSmsSender m)\<rparr>)
     | Fault \<Rightarrow> Fault))"

definition on_cdma :: "(sender, 'a) op \<Rightarrow> (SmsSendManager, 'a) op" where
  "on_cdma f m = (case cdmaSmsSender m of
     None \<Rightarrow> Fault
   | Some s \<Rightarrow> (case f s of
       Ok x t \<Rightarrow> Ok x (m\<lparr>cdmaSmsSender := Some t, gsmSmsSender := map_option (share t) (gsmSmsSender m)\<rparr>)
     | Fail t \<Rightarrow> Fail (m\<lparr>cdmaSmsSender := Some t, gsmSmsSender := map_option (share t) (gsmSmsSender m)\<rparr>)
     | Fault \<Rightarrow> Fault))"

section \<open>The network policy\<close>

text \<open>What the core service reports; \<open>ri_roaming\<close> is \<open>None\<close> when there is no network state.\<close>

record radio_info =
  ri_isCTSimCard :: bool
  ri_roaming :: "bool option"
  ri_satellite :: bool
  ri_imsRegistered :: bool
  ri_csRegState :: int

definition network_type :: "radio_info \<Rightarrow> NetWorkType" where
  "network_type r =
     (if ri_satellite r then NET_TYPE_GSM
      else if ri_isCTSimCard r \<and> ri_roaming r \<noteq> Some True then NET_TYPE_CDMA else NET_TYPE_GSM)"

definition run_callback :: "bool \<Rightarrow> int \<Rightarrow> net_callback \<Rightarrow> (SmsSendManager, unit) op" where
  "run_callback ims voice cb = (case cb of
     GsmSetNetworkState \<Rightarrow> on_gsm (SetNetworkState ims voice)
   | CdmaSetNetworkState \<Rightarrow> on_cdma (SetNetworkState ims voice))"

definition GetRadioState :: "radio_info \<Rightarrow> (SmsSendManager, unit) op" where
  "GetRadioState r =
     bnd (gets networkManager) (\<lambda>nm.
     case nm of
       None \<Rightarrow> fault
     | Some n \<Rightarrow>
         seq (upd (\<lambda>m. m\<lparr>networkManager := Some (n\<lparr>np_netWorkType := network_type r,
                np_isImsNetDomain := ri_imsRegistered r, np_voiceServiceState := ri_csRegState r\<rparr>)\<rparr>))
           (each (\<lambda>(_, cb). run_callback (ri_imsRegistered r) (ri_csRegState r) cb) (callbackMap n)))"

definition NetworkRegister :: "net_callback \<Rightarrow> (SmsSendManager, int option) op" where
  "NetworkRegister cb =
     bnd (gets networkManager) (\<lambda>nm.
     case nm of
       None \<Rightarrow> fault
     | Some n \<Rightarrow>
         seq (run_callback (np_isImsNetDomain n) (np_voiceServiceState n) cb) (
         seq (upd (\<lambda>m. m\<lparr>networkManager := Some (n\<lparr>np_id := np_id n + 1,
                callbackMap := callbackMap n @ [(np_id n + 1, cb)]\<rparr>)\<rparr>))
           (ret (Some (np_id n + 1)))))"

definition NetworkUnregister :: "int \<Rightarrow> SmsNetworkPolicyManager \<Rightarrow> SmsNetworkPolicyManager" where
  "NetworkUnregister i n = n\<lparr>callbackMap := filter (\<lambda>(k, _). k \<noteq> i) (callbackMap n)\<rparr>"

definition UnRegisterHandler :: "SmsNetworkPolicyManager \<Rightarrow> SmsNetworkPolicyManager" where
  "UnRegisterHandler n = n\<lparr>callbackMap := []\<rparr>"

section \<open>The manager\<close>

definition new_sender :: "int \<Rightarrow> sender" where
  "new_sender regUnknown = \<lparr>indexers = [], cell_flags = [], sendCacheMap = [], msgRef64bit = 0, reportList = [], msgRef8bit = 0,
     isImsNetDomain = False, voiceServiceState = regUnknown, lastSmsDomain = CS_DOMAIN, imsSmsCfg = IMS_SMS_ENABLE,
     resIsSmsReady = False, networkId = None, isImsHandlerRegistered = False, msgSeqNum = 0, msgSubmitId = 0,
     outs = []\<rparr>"

definition new_policy :: "int \<Rightarrow> SmsNetworkPolicyManager" where
  "new_policy regUnknown = \<lparr>np_netWorkType = NET_TYPE_UNKNOWN, np_isImsNetDomain = False, np_voiceServiceState = regUnknown,
     callbackMap = [], np_id = 0\<rparr>"

definition InitNetworkHandle :: "int \<Rightarrow> radio_info \<Rightarrow> (SmsSendManager, unit) op" where
  "InitNetworkHandle regUnknown r =
     seq (upd (\<lambda>m. m\<lparr>networkManager := Some (new_policy regUnknown)\<rparr>)) (
     seq (GetRadioState r) (
     bnd (NetworkRegister GsmSetNetworkState) (\<lambda>i.
     seq (on_gsm (SetNetworkId i)) (
     bnd (NetworkRegister CdmaSetNetworkState) (\<lambda>i.
     on_cdma (SetNetworkId i))))))"

text \<open>The senders of another slot may already share the static members: \<open>s\<close> holds what they have left.\<close>

definition Init :: "int \<Rightarrow> radio_info \<Rightarrow> sender \<Rightarrow> (SmsSendManager, unit) op" where
  "Init regUnknown r s =
     seq (upd (\<lambda>m. m\<lparr>gsmSmsSender := Some (share s (new_sender regUnknown)), cdmaSmsSender := Some (share s (new_sender regUnknown))\<rparr>))
       (InitNetworkHandle regUnknown r)"

text \<open>A result that is reported before a sender is involved, also when none has been created.\<close>

definition report :: "nat option \<Rightarrow> SmsSendResult \<Rightarrow> (SmsSendManager, unit) op" where
  "report cb result =
     bnd (gets gsmSmsSender) (\<lambda>g.
     if g \<noteq> None then on_gsm (SendResultCallBack cb result)
     else case cb of None \<Rightarrow> ret () | Some c \<Rightarrow> upd (\<lambda>m. m\<lparr>mgr_outs := mgr_outs m @ [OnSmsSendResult c result]\<rparr>))"

definition created :: "SmsSendManager \<Rightarrow> bool" where
  "created m \<longleftrightarrow> gsmSmsSender m \<noteq> None \<and> cdmaSmsSender m \<noteq> None"

definition current_type :: "SmsSendManager \<Rightarrow> NetWorkType option" where
  "current_type m = map_option np_netWorkType (networkManager m)"

definition dispatch ::
  "sender_ops \<Rightarrow> 'e sender_env_scheme \<Rightarrow> nat option \<Rightarrow> (sender_ops \<Rightarrow> (sender, unit) op) \<Rightarrow> (SmsSendManager, unit) op" where
  "dispatch cdma env sendCb f =
     bnd (gets current_type) (\<lambda>ty.
     bnd (gets created) (\<lambda>ok.
     if ty = None \<or> \<not> ok then report sendCb SEND_SMS_FAILURE_UNKNOWN
     else if ty = Some NET_TYPE_GSM then on_gsm (seq (op_register_ims (gsm_ops env)) (f (gsm_ops env)))
     else if ty = Some NET_TYPE_CDMA then on_cdma (seq (op_register_ims cdma) (f cdma))
     else report sendCb SEND_SMS_FAILURE_SERVICE_UNAVAILABLE))"

definition ManagerTextDelivery ::
  "sender_ops \<Rightarrow> 'e sender_env_scheme \<Rightarrow> bytes \<Rightarrow> bytes \<Rightarrow> bytes \<Rightarrow> nat option \<Rightarrow> nat option \<Rightarrow> int \<Rightarrow> bool \<Rightarrow> (SmsSendManager, unit) op" where
  "ManagerTextDelivery cdma env desAddr scAddr txt sendCb deliveryCb dbId mmsApp =
     (if desAddr = [] \<or> txt = [] then report sendCb SEND_SMS_FAILURE_UNKNOWN
      else dispatch cdma env sendCb (\<lambda>v. op_text v desAddr scAddr txt sendCb deliveryCb dbId mmsApp))"

definition ManagerDataDelivery ::
  "sender_ops \<Rightarrow> 'e sender_env_scheme \<Rightarrow> bytes \<Rightarrow> bytes \<Rightarrow> u16 \<Rightarrow> bytes option \<Rightarrow> nat option \<Rightarrow> nat option \<Rightarrow> (SmsSendManager, unit) op" where
  "ManagerDataDelivery cdma env desAddr scAddr port dat sendCb deliveryCb = (case dat of
     None \<Rightarrow> report sendCb SEND_SMS_FAILURE_UNKNOWN
   | Some d \<Rightarrow>
       if desAddr = [] then report sendCb SEND_SMS_FAILURE_UNKNOWN
       else dispatch cdma env sendCb (\<lambda>v. op_data v desAddr scAddr (uint port) d sendCb deliveryCb))"

text \<open>The function the senders call for a retry.\<close>

definition resend :: "sender_ops \<Rightarrow> nat \<Rightarrow> (sender, unit) op" where
  "resend v p = bnd (get_ix p) (\<lambda>x. if isText x then op_resend_text v (Some p) else op_resend_data v (Some p))"

definition RetriedSmsDelivery :: "sender_ops \<Rightarrow> 'e sender_env_scheme \<Rightarrow> nat option \<Rightarrow> (SmsSendManager, unit) op" where
  "RetriedSmsDelivery cdma env ix = (case ix of
     None \<Rightarrow> ret ()
   | Some p \<Rightarrow>
       bnd (gets current_type) (\<lambda>ty.
       bnd (gets created) (\<lambda>ok.
       case ty of
         None \<Rightarrow> ret ()
       | Some newNetWorkType \<Rightarrow>
           if \<not> ok then ret ()
           else
             bnd (on_gsm (get_ix p)) (\<lambda>x.
             if ix_netWorkType x \<noteq> newNetWorkType then
               seq (on_gsm (upd_ix p (\<lambda>x. x\<lparr>ix_netWorkType := newNetWorkType\<rparr>)))
                 (case newNetWorkType of
                    NET_TYPE_CDMA \<Rightarrow> on_cdma (resend cdma p)
                  | NET_TYPE_GSM \<Rightarrow> on_gsm (resend (gsm_ops env) p)
                  | NET_TYPE_UNKNOWN \<Rightarrow> on_gsm (SendResultCallBack_indexer (Some p) SEND_SMS_FAILURE_SERVICE_UNAVAILABLE))
             else (case newNetWorkType of
                 NET_TYPE_GSM \<Rightarrow> on_gsm (op_to_ril (gsm_ops env) (Some p))
               | NET_TYPE_CDMA \<Rightarrow> on_cdma (op_to_ril cdma (Some p))
               | NET_TYPE_UNKNOWN \<Rightarrow> on_gsm (SendResultCallBack_indexer (Some p) SEND_SMS_FAILURE_SERVICE_UNAVAILABLE))))))"

text \<open>
  The texts of the segments. The branches are as in the code: the GSM message splits on a CDMA network and the
  CDMA message on a GSM network. \<open>cdmaDecode\<close> is \<^verbatim>\<open>CdmaSmsMessage::DecodeMessage\<close>.
\<close>

definition split_texts :: "'e sender_env_scheme \<Rightarrow> decode_message \<Rightarrow> bytes \<Rightarrow> (SmsSendManager, bytes list) op" where
  "split_texts env decode message =
     bnd (with_new [] (SplitMessage (env_iconv env) (env_wsize env) (icu env) decode message False False []))
       (\<lambda>(_, cells). ret (map split_text cells))"

definition ManagerSplitMessage ::
  "'e sender_env_scheme \<Rightarrow> decode_message \<Rightarrow> bytes \<Rightarrow> (SmsSendManager, bytes list option) op" where
  "ManagerSplitMessage env cdmaDecode message =
     bnd (gets current_type) (\<lambda>ty.
     case ty of
       None \<Rightarrow> ret None
     | Some NET_TYPE_CDMA \<Rightarrow>
         bnd (split_texts env (DecodeMessage (env_iconv env) (env_wsize env) (coding_national env)) message) (\<lambda>r. ret (Some r))
     | Some NET_TYPE_GSM \<Rightarrow> bnd (split_texts env cdmaDecode message) (\<lambda>r. ret (Some r))
     | Some NET_TYPE_UNKNOWN \<Rightarrow> ret (Some []))"

datatype tel_error = TELEPHONY_ERR_LOCAL_PTR_NULL | TELEPHONY_ERR_UNKNOWN_NETWORK_TYPE

definition ManagerIsImsSmsSupported :: "sender_ops \<Rightarrow> 'e sender_env_scheme \<Rightarrow> (SmsSendManager, tel_error + bool) op" where
  "ManagerIsImsSmsSupported cdma env =
     bnd (gets current_type) (\<lambda>ty.
     bnd (gets created) (\<lambda>ok.
     if ty = None \<or> \<not> ok then ret (Inl TELEPHONY_ERR_LOCAL_PTR_NULL)
     else
       let answer = (\<lambda>r. ret (case r of None \<Rightarrow> Inl TELEPHONY_ERR_LOCAL_PTR_NULL | Some b \<Rightarrow> Inr b))
       in if ty = Some NET_TYPE_GSM then bnd (on_gsm (op_ims_supported (gsm_ops env))) answer
          else if ty = Some NET_TYPE_CDMA then bnd (on_cdma (op_ims_supported cdma)) answer
          else ret (Inl TELEPHONY_ERR_UNKNOWN_NETWORK_TYPE)))"

definition ManagerSetImsSmsConfig :: "'e sender_env_scheme \<Rightarrow> int \<Rightarrow> (SmsSendManager, bool) op" where
  "ManagerSetImsSmsConfig env enable =
     bnd (gets current_type) (\<lambda>ty.
     bnd (gets created) (\<lambda>ok.
     if ty = None \<or> \<not> ok then ret False
     else if ty = Some NET_TYPE_GSM then on_gsm (SetImsSmsConfig env enable)
     else if ty = Some NET_TYPE_CDMA then on_cdma (SetImsSmsConfig env enable)
     else ret False))"

definition GetImsShortMessageFormat :: "(SmsSendManager, tel_error + string) op" where
  "GetImsShortMessageFormat =
     bnd (gets current_type) (\<lambda>ty.
     case ty of
       None \<Rightarrow> ret (Inl TELEPHONY_ERR_LOCAL_PTR_NULL)
     | Some NET_TYPE_GSM \<Rightarrow> ret (Inr ''3gpp'')
     | Some NET_TYPE_CDMA \<Rightarrow> ret (Inr ''3gpp2'')
     | Some NET_TYPE_UNKNOWN \<Rightarrow> ret (Inr ''unknown''))"

definition ManagerHostDied :: "(SmsSendManager, unit) op" where
  "ManagerHostDied =
     bnd (gets gsmSmsSender) (\<lambda>g.
     bnd (gets cdmaSmsSender) (\<lambda>c.
     seq (if g \<noteq> None then on_gsm OnRilAdapterHostDied else ret ())
       (if c \<noteq> None then on_cdma OnRilAdapterHostDied else ret ())))"

section \<open>The senders know the network\<close>

definition knows :: "bool \<Rightarrow> int \<Rightarrow> sender option \<Rightarrow> bool" where
  "knows ims voice so \<longleftrightarrow> (\<exists>s. so = Some s \<and> isImsNetDomain s = ims \<and> voiceServiceState s = voice)"

definition told :: "radio_info \<Rightarrow> SmsSendManager \<Rightarrow> bool" where
  "told r m \<longleftrightarrow> knows (ri_imsRegistered r) (ri_csRegState r) (gsmSmsSender m) \<and>
     knows (ri_imsRegistered r) (ri_csRegState r) (cdmaSmsSender m) \<and> current_type m = Some (network_type r) \<and>
     (\<exists>n. networkManager m = Some n \<and> map snd (callbackMap n) = [GsmSetNetworkState, CdmaSetNetworkState])"

lemma share_network [simp]: "isImsNetDomain (share s t) = isImsNetDomain t" "voiceServiceState (share s t) = voiceServiceState t"
  by (simp_all add: share_def)

lemma Init_told: "\<exists>m'. Init regUnknown r s m = Ok () m' \<and> told r m'"
  by (simp add: Init_def InitNetworkHandle_def GetRadioState_def NetworkRegister_def run_callback_def on_gsm_def on_cdma_def
      SetNetworkState_def SetNetworkId_def new_policy_def new_sender_def op_simps told_def knows_def current_type_def)

lemma GetRadioState_told:
  assumes "told r m"
  shows "\<exists>m'. GetRadioState r' m = Ok () m' \<and> told r' m'"
proof -
  obtain n g c where n: "networkManager m = Some n" "gsmSmsSender m = Some g" "cdmaSmsSender m = Some c"
      "map snd (callbackMap n) = [GsmSetNetworkState, CdmaSetNetworkState]"
    using assms by (auto simp: told_def knows_def)
  from n(4) obtain i j where "callbackMap n = [(i, GsmSetNetworkState), (j, CdmaSetNetworkState)]" by auto
  with n(1-3) show ?thesis
    by (simp add: GetRadioState_def run_callback_def on_gsm_def on_cdma_def SetNetworkState_def op_simps told_def knows_def current_type_def)
qed

text \<open>
  C20. Both senders always know the network the core service reported last: after the initialisation and any sequence of
  network events, each sender holds the IMS registration and the service state of the last report, and messages go to the network type
  that follows from it.
\<close>

theorem senders_know_network:
  "\<exists>m'. seq (Init regUnknown r s) (each GetRadioState rs) m = Ok () m' \<and> told (last (r # rs)) m'"
proof -
  have "\<exists>m'. each GetRadioState rs m = Ok () m' \<and> told (last (r # rs)) m'" if "told r m" for m
    using that
  proof (induction rs arbitrary: r m)
    case (Cons r' rs)
    from GetRadioState_told [OF Cons.prems] obtain m' where "GetRadioState r' m = Ok () m'" "told r' m'" by blast
    with Cons.IH [of r' m'] show ?case by (simp add: seq_def bnd_def)
  qed (simp add: ret_def)
  with Init_told [of regUnknown r s m] show ?thesis by (auto simp: seq_def bnd_def)
qed

end
