(* ===== verification/Sms_Receive_Reliability.thy ===== *)
theory Sms_Receive_Reliability
  imports Gsm_Sms_Message
begin

text \<open>
  Pages of received messages: \<^verbatim>\<open>sms_receive_indexer.cpp\<close>, the access to the table of pages in \<^verbatim>\<open>sms_persist_helper.cpp\<close>,
  and \<^verbatim>\<open>sms_receive_reliability_handler.cpp\<close>, which publishes messages, removes pages, and after a restart recovers the
  messages whose pages are still in the table.
\<close>

section \<open>Receive indexers\<close>

text \<open>The members of \<^verbatim>\<open>SmsReceiveIndexer\<close>; its getters are the selectors. \<open>ri_destPort\<close> is an \<^verbatim>\<open>int16_t\<close>.\<close>

record SmsReceiveIndexer =
  ri_pdu :: bytes
  ri_timestamp :: int
  ri_destPort :: u16
  ri_isCdma :: bool
  ri_isCdmaWapPdu :: bool
  ri_visibleMessageBody :: bytes
  ri_originatingAddress :: bytes
  ri_msgRefId :: u16
  ri_msgSeqId :: u16
  ri_msgCount :: u16
  ri_dataBaseId :: int
  ri_visibleAddress :: bytes
  ri_rawUserData :: bytes
  ri_rawWapPushUserData :: bytes

definition empty_page :: SmsReceiveIndexer where
  "empty_page = \<lparr>ri_pdu = [], ri_timestamp = 0, ri_destPort = 0, ri_isCdma = False, ri_isCdmaWapPdu = False,
     ri_visibleMessageBody = [], ri_originatingAddress = [], ri_msgRefId = 0, ri_msgSeqId = 0, ri_msgCount = 1,
     ri_dataBaseId = 0, ri_visibleAddress = [], ri_rawUserData = [], ri_rawWapPushUserData = []\<rparr>"

definition page_of_many ::
  "bytes \<Rightarrow> int \<Rightarrow> u16 \<Rightarrow> bool \<Rightarrow> bytes \<Rightarrow> bytes \<Rightarrow> u16 \<Rightarrow> u16 \<Rightarrow> u16 \<Rightarrow> bool \<Rightarrow> bytes \<Rightarrow> SmsReceiveIndexer" where
  "page_of_many pdu time port cdma addr visibleAddr ref seqId cnt wapPdu body = empty_page\<lparr>
     ri_pdu := pdu, ri_timestamp := time, ri_destPort := port, ri_isCdma := cdma, ri_isCdmaWapPdu := wapPdu,
     ri_visibleMessageBody := body, ri_originatingAddress := addr, ri_msgRefId := ref, ri_msgSeqId := seqId,
     ri_msgCount := cnt, ri_visibleAddress := visibleAddr\<rparr>"

definition single_page :: "bytes \<Rightarrow> int \<Rightarrow> u16 \<Rightarrow> bool \<Rightarrow> bool \<Rightarrow> bytes \<Rightarrow> bytes \<Rightarrow> bytes \<Rightarrow> SmsReceiveIndexer" where
  "single_page pdu time port cdma wapPdu addr visibleAddr body =
     page_of_many pdu time port cdma addr visibleAddr 0 (if cdma \<and> wapPdu then 0 else 1) 1 wapPdu body"

definition GetIsText :: "SmsReceiveIndexer \<Rightarrow> bool" where
  "GetIsText x \<longleftrightarrow> ri_destPort x = - 1"

definition GetIsWapPushMsg :: "SmsReceiveIndexer \<Rightarrow> bool" where
  "GetIsWapPushMsg x \<longleftrightarrow> ri_destPort x = WAP_PUSH_PORT"

definition IsSingleMsg :: "SmsReceiveIndexer \<Rightarrow> bool" where
  "IsSingleMsg x \<longleftrightarrow> ri_msgCount x = 1"

section \<open>The table of pages\<close>

text \<open>
  A row of the table \<^verbatim>\<open>sms_subsection\<close>, and the conditions on rows the code uses. Numbers stored as decimal
  text are the numbers.
\<close>

record page_row =
  row_id :: int
  row_slot :: int
  row_receiver :: bytes
  row_sender :: bytes
  row_start :: int
  row_end :: int
  row_pdu :: bytes
  row_format :: int
  row_port :: int
  row_ref :: int
  row_size :: int
  row_index :: int

datatype predicates =
    PartsOf bytes int int
  | OfSlot int
  | Expired int int

text \<open>
  The data share service, which owns the table: whether a helper can be created, the identifier of a
  new row (negative for an error), the rows of a query unless it fails, and the number of rows deleted (negative for an error).
\<close>

record 'd datashare =
  ds_helper :: "'d \<Rightarrow> bool"
  ds_insert :: "page_row \<Rightarrow> 'd \<Rightarrow> int \<times> 'd"
  ds_query :: "predicates \<Rightarrow> 'd \<Rightarrow> page_row list option"
  ds_delete :: "predicates \<Rightarrow> 'd \<Rightarrow> int \<times> 'd"

text \<open>The event published for a received message; the port is given for data messages only.\<close>

record sms_event =
  ev_autoReg :: bool
  ev_isCdma :: bool
  ev_port :: "u16 option"
  ev_pdus :: "bytes list"
  ev_dataBaseId :: int
  ev_msgRefId :: u16
  ev_address :: bytes
  ev_msgCount :: u16

text \<open>
  The members of \<^verbatim>\<open>SmsCbData::CbData\<close>, what a cell broadcast is published with; \<open>None\<close> is the value of a member that was copied from one that was never
  set. The code of the language is not used. The parameters of the event are named values.
\<close>

record CbData =
  cb_slotId :: int
  cb_msgBody :: bytes
  cb_serial :: "u16 option"
  cb_recvTime :: int
  cb_msgId :: "u16 option"
  cb_format :: u8
  cb_category :: "u16 option"
  cb_isEtws :: bool
  cb_isCmas :: bool
  cb_cmasClass :: u8
  cb_cmasCate :: u8
  cb_severity :: u8
  cb_urgency :: u8
  cb_certainty :: u8
  cb_warnType :: u16
  cb_msgType :: u8
  cb_langType :: "u8 option"
  cb_dcs :: u8
  cb_priority :: u8
  cb_isPrimary :: bool
  cb_cmasRes :: u8
  cb_geoScope :: u8

datatype want_value = WantChar u8 | WantInt int | WantNumber int | WantString bytes | WantBool bool | WantUnset

type_synonym want = "(string \<times> want_value) list"

definition want_opt :: "('a \<Rightarrow> want_value) \<Rightarrow> 'a option \<Rightarrow> want_value" where
  "want_opt f x = (case x of None \<Rightarrow> WantUnset | Some y \<Rightarrow> f y)"

datatype receive_event_id = RUNNING_LOCK_TIMEOUT | DELAY_RELEASE_RUNNING_LOCK | RETRY_CONNECT_DATASHARE

datatype receive_out =
    PublishSms sms_event
  | SmsAck bool int
  | SatelliteSmsAck bool int
  | Lock
  | UnLock
  | SendEvent receive_event_id int
  | RemoveEvent receive_event_id
  | StrExitFinish
  | WapPushDecoded SmsReceiveIndexer bytes
  | PublishCb bool want
  | StatusReport u16 bytes

text \<open>
  The state of a receive handler. \<open>store\<close> is the service's, \<open>'m\<close> the class of message objects.
\<close>

record ('d, 'm) receiver =
  store :: 'd
  smsBaseMessageQueue :: "'m list"
  alreadySendEvent :: bool
  reconnectDataShareCount :: u8
  smsRunningLock :: bool
  smsRunningLockCount :: "32 word"
  smsLockSerialNum :: "32 word"
  r_outs :: "receive_out list"

text \<open>
  The environment: system parameters, the slot, whether satellite mode and power management are built in and on, and the data
  share service. \<open>decodeWapPush\<close> is \<^verbatim>\<open>SmsWapPushHandler::DecodeWapPushPdu\<close>.
\<close>

record 'd receive_env = sms_env +
  slotId :: int
  sms_disabled :: bool
  capable_param :: "bytes option"
  expire_days :: bytes
  is_valid_dec :: "bytes \<Rightarrow> bool"
  ds :: "'d datashare"
  ds_ready :: "'d \<Rightarrow> bool"
  satellite_enabled :: bool
  power_support :: bool
  lock_available :: bool
  power_service :: bool

type_synonym ('d, 'm, 'a) rop = "(('d, 'm) receiver, 'a) op"

type_synonym ('d, 'm) wap_decoder = "SmsReceiveIndexer \<Rightarrow> bytes \<Rightarrow> ('d, 'm, bool) rop"

definition put_out :: "receive_out \<Rightarrow> ('d, 'm, unit) rop" where
  "put_out x = upd (\<lambda>s. s\<lparr>r_outs := r_outs s @ [x]\<rparr>)"

definition PersistInsert :: "'d datashare \<Rightarrow> page_row \<Rightarrow> ('d, 'm, bool \<times> int) rop" where
  "PersistInsert D row s =
     (if \<not> ds_helper D (store s) then Ok (False, 0) s
      else case ds_insert D row (store s) of (r, d) \<Rightarrow> Ok (r \<ge> 0, r) (s\<lparr>store := d\<rparr>))"

definition PersistDelete :: "'d datashare \<Rightarrow> predicates \<Rightarrow> ('d, 'm, bool) rop" where
  "PersistDelete D p s =
     (if \<not> ds_helper D (store s) then Ok False s
      else case ds_delete D p (store s) of (r, d) \<Rightarrow> Ok (r \<ge> 0) (s\<lparr>store := d\<rparr>))"

abbreviation (input) "SMS_TYPE_GSM \<equiv> 1 :: int"
abbreviation (input) "SMS_TYPE_CDMA \<equiv> 2 :: int"

definition ConvertIntToIndexer :: "page_row \<Rightarrow> SmsReceiveIndexer \<Rightarrow> SmsReceiveIndexer" where
  "ConvertIntToIndexer w x = x\<lparr>ri_isCdma := row_format w = SMS_TYPE_CDMA, ri_msgRefId := word_of_int (row_ref w),
     ri_msgCount := word_of_int (row_size w), ri_msgSeqId := word_of_int (row_index w),
     ri_destPort := word_of_int (row_port w), ri_dataBaseId := row_id w\<rparr>"

definition ConvertStringToIndexer :: "page_row \<Rightarrow> SmsReceiveIndexer \<Rightarrow> SmsReceiveIndexer" where
  "ConvertStringToIndexer w x = x\<lparr>ri_visibleAddress := row_receiver w, ri_originatingAddress := row_sender w,
     ri_timestamp := row_end w, ri_pdu := HexToByteVector (row_pdu w)\<rparr>"

definition ResultSetConvertToIndexer :: "page_row \<Rightarrow> SmsReceiveIndexer" where
  "ResultSetConvertToIndexer w = ConvertStringToIndexer w (ConvertIntToIndexer w empty_page)"

text \<open>The pages a query adds to the empty vector; no caller looks at the \<^verbatim>\<open>bool\<close>.\<close>

definition PersistQuery :: "'d datashare \<Rightarrow> predicates \<Rightarrow> ('d, 'm, SmsReceiveIndexer list) rop" where
  "PersistQuery D p s =
     (if \<not> ds_helper D (store s) then Ok [] s
      else case ds_query D p (store s) of
             None \<Rightarrow> Ok [] s
           | Some rs \<Rightarrow> Ok (map ResultSetConvertToIndexer rs) s)"

definition QueryBlockPhoneNumber :: "bytes \<Rightarrow> bool" where
  "QueryBlockPhoneNumber phoneNum = False"

text \<open>\<^verbatim>\<open>GetParameter\<close> gives the value of the parameter, or nothing for an error.\<close>

definition QueryParamBoolean :: "bytes option \<Rightarrow> bool \<Rightarrow> bool" where
  "QueryParamBoolean param defValue =
     (let v = (case param of Some p \<Rightarrow> if p \<noteq> [] then p else (if defValue then [0x31] else [0x30])
                           | None \<Rightarrow> if defValue then [0x31] else [0x30])
      in if v \<in> {[0x31], [0x79], [0x79, 0x65, 0x73], [0x6F, 0x6E], [0x74, 0x72, 0x75, 0x65]} then True
         else if v \<in> {[0x30], [0x6E], [0x6E, 0x6F], [0x6F, 0x66, 0x66], [0x66, 0x61, 0x6C, 0x73, 0x65]} then False
         else defValue)"

section \<open>Removing pages\<close>

definition CheckSmsCapable :: "('d, 'e) receive_env_scheme \<Rightarrow> bool" where
  "CheckSmsCapable env = QueryParamBoolean (capable_param env) True"

definition DeleteMessageFormDb :: "'d datashare \<Rightarrow> u16 \<Rightarrow> int \<Rightarrow> int \<Rightarrow> bytes \<Rightarrow> ('d, 'm, unit) rop" where
  "DeleteMessageFormDb D refId dbId msgCount addr =
     (if refId = 0 \<and> dbId = 0 then ret ()
      else ignore (PersistDelete D (PartsOf addr (uint refId) msgCount)))"

definition DEFAULT_EXPIRE_DAYS :: bytes where
  "DEFAULT_EXPIRE_DAYS = [0x33]"

text \<open>\<^verbatim>\<open>std::stoi\<close>: leading white space, a sign, the longest run of digits; no digit or a value outside \<^verbatim>\<open>int\<close> throws.\<close>

fun dec_value :: "int \<Rightarrow> bytes \<Rightarrow> int" where
  "dec_value v [] = v"
| "dec_value v (c # cs) = (if 0x30 \<le> c \<and> c \<le> 0x39 then dec_value (10 * v + uint (c - 0x30)) cs else v)"

definition stoi :: "bytes \<Rightarrow> int option" where
  "stoi str =
     (let t = dropWhile is_space str;
          neg = (t \<noteq> [] \<and> hd t = 0x2D);
          u = (if t \<noteq> [] \<and> (hd t = 0x2D \<or> hd t = 0x2B) then tl t else t);
          v = (if neg then - dec_value 0 u else dec_value 0 u)
      in if u = [] \<or> \<not> (0x30 \<le> hd u \<and> hd u \<le> 0x39) \<or> v < - (2 ^ 31) \<or> v \<ge> 2 ^ 31 then None else Some v)"

definition ONE_DAY_TOTAL_SECONDS :: int where
  "ONE_DAY_TOTAL_SECONDS = 86400"

definition DeleteExpireSmsFromDB :: "('d, 'e) receive_env_scheme \<Rightarrow> ('d, 'm, bool) rop" where
  "DeleteExpireSmsFromDB env =
     (let days = (if is_valid_dec env (expire_days env) then expire_days env else DEFAULT_EXPIRE_DAYS)
      in case stoi days of
           None \<Rightarrow> fault
         | Some n \<Rightarrow>
             let deadlineTime = env_now env - n * ONE_DAY_TOTAL_SECONDS
             in if deadlineTime \<le> 0 then ret False
                else PersistDelete (ds env) (Expired (slotId env) deadlineTime))"

section \<open>Publishing a message\<close>

definition CT_SMSC_86 :: bytes where
  "CT_SMSC_86 = [0x38, 0x36] @ CT_SMSC"

definition CT_SMSC_INTERNATION_86 :: bytes where
  "CT_SMSC_INTERNATION_86 = 0x2B # CT_SMSC_86"

definition auto_reg :: "bytes \<Rightarrow> bool" where
  "auto_reg addr \<longleftrightarrow> addr \<in> {CT_SMSC, CT_SMSC_86, CT_SMSC_INTERNATION_86}"

definition PacketSmsData :: "SmsReceiveIndexer \<Rightarrow> sms_event" where
  "PacketSmsData x = \<lparr>ev_autoReg = auto_reg (ri_originatingAddress x), ev_isCdma = ri_isCdma x,
     ev_port = (if GetIsText x then None else Some (ri_destPort x)), ev_pdus = [], ev_dataBaseId = 0, ev_msgRefId = 0,
     ev_address = [], ev_msgCount = 0\<rparr>"

definition SendBroadcast :: "'d datashare \<Rightarrow> SmsReceiveIndexer \<Rightarrow> bytes list \<Rightarrow> ('d, 'm, unit) rop" where
  "SendBroadcast D x pdus =
     seq (put_out (PublishSms ((PacketSmsData x)\<lparr>ev_pdus := filter (\<lambda>p. p \<noteq> []) pdus, ev_dataBaseId := ri_dataBaseId x,
       ev_msgRefId := ri_msgRefId x, ev_address := ri_originatingAddress x, ev_msgCount := ri_msgCount x\<rparr>)))
       (if auto_reg (ri_originatingAddress x)
        then DeleteMessageFormDb D (ri_msgRefId x) (ri_dataBaseId x) (uint (ri_msgCount x)) (ri_originatingAddress x)
        else ret ())"

text \<open>
  \<^verbatim>\<open>SmsBroadcastSubscriberReceiver::OnReceiveEvent\<close>: when the applications have had the event, the pages are removed. The
  update of the contact is not modelled.
\<close>

definition OnReceiveEvent :: "'d datashare \<Rightarrow> sms_event \<Rightarrow> ('d, 'm, unit) rop" where
  "OnReceiveEvent D e =
     (if ev_autoReg e then ret ()
      else DeleteMessageFormDb D (ev_msgRefId e) (ev_dataBaseId e) (uint (ev_msgCount e)) (ev_address e))"

section \<open>Recovery after a restart\<close>

definition RemoveBlockedSms :: "('d, 'e) receive_env_scheme \<Rightarrow> ('d, 'm, SmsReceiveIndexer list) rop" where
  "RemoveBlockedSms env =
     bnd (PersistQuery (ds env) (OfSlot (slotId env))) (\<lambda>pages.
     ret (filter (\<lambda>x. \<not> QueryBlockPhoneNumber (ri_originatingAddress x) \<and>
            ri_pdu x \<noteq> [] \<and> length (ri_pdu x) \<le> MAX_TPDU_DATA_LEN) pages))"

text \<open>\<^verbatim>\<open>CreateMessage\<close> as a function; \<open>None\<close> if it would access memory outside an array.\<close>

definition message_of :: "('d, 'e) receive_env_scheme \<Rightarrow> bytes \<Rightarrow> GsmSmsMessage option option" where
  "message_of env pdu = (case CreateMessage (sms_env.truncate env) (StringToHex pdu) () of Ok r _ \<Rightarrow> Some r | _ \<Rightarrow> None)"

definition seq_valid :: "nat \<Rightarrow> SmsReceiveIndexer \<Rightarrow> bool" where
  "seq_valid n x \<longleftrightarrow> 1 \<le> unat (ri_msgSeqId x) \<and> unat (ri_msgSeqId x) \<le> n"

text \<open>
  The loop over the pages behind the first one of a message: pages with another reference are passed, others are
  put into their place and erased from the vector. The result is the number of pages, the places and the vector;
  an invalid page is erased and ends the loop.
\<close>

fun wap_pages ::
  "('d, 'e) receive_env_scheme \<Rightarrow> u16 \<Rightarrow> nat \<Rightarrow> bytes list \<Rightarrow> SmsReceiveIndexer list \<Rightarrow> (nat \<times> bytes list \<times> SmsReceiveIndexer list) option" where
  "wap_pages env ref n places [] = Some (n, places, [])"
| "wap_pages env ref n places (x # xs) =
     (if ri_msgRefId x \<noteq> ref then
        map_option (\<lambda>(k, ps, ys). (k, ps, x # ys)) (wap_pages env ref n places xs)
      else
        let n' = (if ri_pdu x \<noteq> [] then n + 1 else n)
        in case message_of env (ri_pdu x) of
             None \<Rightarrow> None
           | Some None \<Rightarrow> Some (n', places, xs)
           | Some (Some m) \<Rightarrow>
               if \<not> seq_valid MAX_SEGMENT_NUM x then Some (n', places, xs)
               else if unat (ri_msgSeqId x) - 1 < length places then
                 wap_pages env ref n' (places[unat (ri_msgSeqId x) - 1 := rawUserData m]) xs
               else None)"

definition GetWapPushUserDataSinglePage ::
  "('d, 'e) receive_env_scheme \<Rightarrow> SmsReceiveIndexer \<Rightarrow> bytes list \<Rightarrow> bytes list option" where
  "GetWapPushUserDataSinglePage env x places =
     map_option (\<lambda>r. case r of None \<Rightarrow> places | Some m \<Rightarrow> places[0 := rawWapPushUserData m]) (message_of env (ri_pdu x))"

definition GetWapPushUserDataMultipage ::
  "('d, 'e) receive_env_scheme \<Rightarrow> SmsReceiveIndexer \<Rightarrow> bytes list \<Rightarrow> SmsReceiveIndexer list \<Rightarrow>
   (nat \<times> bytes list \<times> SmsReceiveIndexer list) option" where
  "GetWapPushUserDataMultipage env x places xs =
     (case message_of env (ri_pdu x) of
        None \<Rightarrow> None
      | Some None \<Rightarrow> Some (1, places, xs)
      | Some (Some m) \<Rightarrow>
          if \<not> seq_valid MAX_SEGMENT_NUM x then Some (1, places, xs)
          else if unat (ri_msgSeqId x) - 1 < length places then
            wap_pages env (ri_msgRefId x) 1 (places[unat (ri_msgSeqId x) - 1 := rawUserData m]) xs
          else None)"

lemma wap_pages_length: "wap_pages env ref n places xs = Some (k, ps, ys) \<Longrightarrow> length ys \<le> length xs"
  by (induction xs arbitrary: n places k ps ys) (auto split: if_splits option.splits simp: Let_def le_SucI)

lemma GetWapPushUserDataMultipage_length:
  "GetWapPushUserDataMultipage env x places xs = Some (k, ps, ys) \<Longrightarrow> length ys \<le> length xs"
  by (auto simp: GetWapPushUserDataMultipage_def dest: wap_pages_length split: if_splits option.splits)

text \<open>The page a message is published or decoded with: a copy of its first page in the vector.\<close>

definition recovered_page :: "SmsReceiveIndexer \<Rightarrow> SmsReceiveIndexer" where
  "recovered_page x =
     (page_of_many (ri_pdu x) (ri_timestamp x) (ri_destPort x) (ri_isCdma x) (ri_originatingAddress x) (ri_visibleAddress x)
        (ri_msgRefId x) (ri_msgSeqId x) (ri_msgCount x) False (StringToHex (ri_pdu x)))\<lparr>ri_dataBaseId := ri_dataBaseId x\<rparr>"

definition ReadyDecodeWapPushUserData :: "('d, 'm) wap_decoder \<Rightarrow> SmsReceiveIndexer \<Rightarrow> bytes list \<Rightarrow> ('d, 'm, unit) rop" where
  "ReadyDecodeWapPushUserData wap x places = ignore (wap (recovered_page x) (concat places))"

function CheckUnReceiveWapPush ::
  "('d, 'e) receive_env_scheme \<Rightarrow> ('d, 'm) wap_decoder \<Rightarrow> SmsReceiveIndexer list \<Rightarrow> ('d, 'm, SmsReceiveIndexer list) rop" where
  "CheckUnReceiveWapPush env wap [] = ret []"
| "CheckUnReceiveWapPush env wap (x # xs) =
     (if \<not> GetIsWapPushMsg x then bnd (CheckUnReceiveWapPush env wap xs) (\<lambda>ys. ret (x # ys))
      else if ri_msgCount x = 1 then
        (case GetWapPushUserDataSinglePage env x (replicate MAX_SEGMENT_NUM []) of
           None \<Rightarrow> fault
         | Some places \<Rightarrow>
             seq (if places ! 0 \<noteq> [] then ReadyDecodeWapPushUserData wap x places else ret ())
               (CheckUnReceiveWapPush env wap xs))
      else
        (case GetWapPushUserDataMultipage env x (replicate MAX_SEGMENT_NUM []) xs of
           None \<Rightarrow> fault
         | Some (n, places, ys) \<Rightarrow>
             seq (if unat (ri_msgCount x) = n \<and> places ! 0 \<noteq> [] then ReadyDecodeWapPushUserData wap x places else ret ())
               (CheckUnReceiveWapPush env wap ys)))"
  by pat_completeness auto

termination CheckUnReceiveWapPush
  by (relation "measure (\<lambda>(_, _, xs). length xs)") (auto dest: GetWapPushUserDataMultipage_length)

fun sms_pages ::
  "u16 \<Rightarrow> nat \<Rightarrow> nat \<Rightarrow> bytes list \<Rightarrow> SmsReceiveIndexer list \<Rightarrow> (nat \<times> bytes list \<times> SmsReceiveIndexer list) option" where
  "sms_pages ref cnt n places [] = Some (n, places, [])"
| "sms_pages ref cnt n places (x # xs) =
     (if ri_msgRefId x \<noteq> ref then map_option (\<lambda>(k, ps, ys). (k, ps, x # ys)) (sms_pages ref cnt n places xs)
      else if \<not> seq_valid cnt x then Some (n, places, xs)
      else if unat (ri_msgSeqId x) - 1 < length places then
        sms_pages ref cnt (n + 1) (places[unat (ri_msgSeqId x) - 1 := StringToHex (ri_pdu x)]) xs
      else None)"

definition GetSmsUserDataMultipage ::
  "SmsReceiveIndexer \<Rightarrow> nat \<Rightarrow> SmsReceiveIndexer list \<Rightarrow> (nat \<times> bytes list \<times> SmsReceiveIndexer list) option" where
  "GetSmsUserDataMultipage x cnt xs =
     (if \<not> seq_valid cnt x then Some (1, replicate cnt [], xs)
      else sms_pages (ri_msgRefId x) cnt 1 ((replicate cnt [])[unat (ri_msgSeqId x) - 1 := StringToHex (ri_pdu x)]) xs)"

lemma sms_pages_length: "sms_pages ref cnt n places xs = Some (k, ps, ys) \<Longrightarrow> length ys \<le> length xs"
  by (induction xs arbitrary: n places k ps ys) (auto split: if_splits simp: le_SucI)

lemma GetSmsUserDataMultipage_length: "GetSmsUserDataMultipage x cnt xs = Some (k, ps, ys) \<Longrightarrow> length ys \<le> length xs"
  by (auto simp: GetSmsUserDataMultipage_def dest: sms_pages_length split: if_splits)

definition ReadySendSmsBroadcast :: "'d datashare \<Rightarrow> SmsReceiveIndexer \<Rightarrow> bytes list \<Rightarrow> ('d, 'm, unit) rop" where
  "ReadySendSmsBroadcast D x pdus = SendBroadcast D (recovered_page x) pdus"

text \<open>The loop of \<^verbatim>\<open>SmsReceiveReliabilityProcessing\<close>; \<^verbatim>\<open>pdus->at(0)\<close> throws on an empty vector.\<close>

function recover_pages :: "'d datashare \<Rightarrow> SmsReceiveIndexer list \<Rightarrow> ('d, 'm, unit) rop" where
  "recover_pages D [] = ret ()"
| "recover_pages D (x # xs) =
     (if ri_msgCount x = 0 then recover_pages D xs
      else if ri_msgCount x = 1 then
        seq (if StringToHex (ri_pdu x) \<noteq> [] then ReadySendSmsBroadcast D x [StringToHex (ri_pdu x)] else ret ())
          (recover_pages D xs)
      else
        (case GetSmsUserDataMultipage x (unat (ri_msgCount x)) xs of
           None \<Rightarrow> fault
         | Some (n, pdus, ys) \<Rightarrow>
             seq (if unat (ri_msgCount x) = n then
                    bnd (rd_at pdus 0) (\<lambda>p. if p \<noteq> [] then ReadySendSmsBroadcast D x pdus else ret ())
                  else ret ())
               (recover_pages D ys)))"
  by pat_completeness auto

termination recover_pages
  by (relation "measure (\<lambda>(_, xs). length xs)") (auto dest: GetSmsUserDataMultipage_length)

definition SmsReceiveReliabilityProcessing :: "('d, 'e) receive_env_scheme \<Rightarrow> ('d, 'm) wap_decoder \<Rightarrow> ('d, 'm, unit) rop" where
  "SmsReceiveReliabilityProcessing env wap =
     bnd (RemoveBlockedSms env) (\<lambda>pages.
     bnd (CheckUnReceiveWapPush env wap pages) (\<lambda>pages.
     recover_pages (ds env) pages))"

end
