(* ===== verification/Sms_Receive_Handler.thy ===== *)
theory Sms_Receive_Handler
  imports Sms_Receive_Reliability
begin

text \<open>
  Receiving: \<^verbatim>\<open>sms_receive_handler.cpp\<close>, with the running lock, the queue of messages that arrive while the data share service
  is not ready, and the combination of the pages of a message; and \<^verbatim>\<open>gsm_sms_receive_handler.cpp\<close>.
\<close>

section \<open>The running lock\<close>

text \<open>\<open>power_support\<close> is \<^verbatim>\<open>ABILITY_POWER_SUPPORT\<close>; \<open>lock_available\<close>: a lock can be created; \<open>power_service\<close>: it can be released.\<close>

definition CreateRunningLockInner :: "('d, 'e) receive_env_scheme \<Rightarrow> ('d, 'm, unit) rop" where
  "CreateRunningLockInner env =
     (if power_support env
      then upd (\<lambda>s. s\<lparr>smsRunningLock := lock_available env, smsRunningLockCount := 0, smsLockSerialNum := 0\<rparr>)
      else ret ())"

definition ApplyRunningLock :: "('d, 'e) receive_env_scheme \<Rightarrow> ('d, 'm, unit) rop" where
  "ApplyRunningLock env =
     (if \<not> power_support env then ret ()
      else
        bnd (gets smsRunningLock) (\<lambda>l.
        seq (if \<not> l then CreateRunningLockInner env else ret ()) (
        bnd (gets smsRunningLock) (\<lambda>l.
        if \<not> l then ret ()
        else
          seq (upd (\<lambda>s. s\<lparr>smsRunningLockCount := smsRunningLockCount s + 1, smsLockSerialNum := smsLockSerialNum s + 1\<rparr>)) (
          seq (put_out Lock) (
          bnd (gets smsLockSerialNum) (\<lambda>n. put_out (SendEvent RUNNING_LOCK_TIMEOUT (sint n)))))))))"

definition ReleaseRunningLock :: "('d, 'e) receive_env_scheme \<Rightarrow> ('d, 'm, unit) rop" where
  "ReleaseRunningLock env =
     (if \<not> power_support env then ret ()
      else
        bnd (gets smsRunningLock) (\<lambda>l.
        if \<not> l then ret ()
        else
          seq (upd (\<lambda>s. s\<lparr>smsRunningLockCount := 0\<rparr>)) (
          seq (put_out UnLock) (
          if power_service env then put_out (RemoveEvent RUNNING_LOCK_TIMEOUT)
          else bnd (gets smsLockSerialNum) (\<lambda>n. put_out (SendEvent RUNNING_LOCK_TIMEOUT (sint n)))))))"

definition ReduceRunningLock :: "('d, 'e) receive_env_scheme \<Rightarrow> ('d, 'm, unit) rop" where
  "ReduceRunningLock env =
     (if \<not> power_support env then ret ()
      else
        bnd (gets (\<lambda>s. (smsRunningLock s, smsRunningLockCount s))) (\<lambda>(l, n).
        if \<not> l then ret ()
        else if n > 1 then upd (\<lambda>s. s\<lparr>smsRunningLockCount := smsRunningLockCount s - 1\<rparr>)
        else seq (upd (\<lambda>s. s\<lparr>smsRunningLockCount := 0\<rparr>)) (ReleaseRunningLock env)))"

definition HandleRunningLockTimeoutEvent :: "('d, 'e) receive_env_scheme \<Rightarrow> int \<Rightarrow> ('d, 'm, unit) rop" where
  "HandleRunningLockTimeoutEvent env serial =
     (if \<not> power_support env then ret ()
      else bnd (gets smsLockSerialNum) (\<lambda>n. if serial = sint n then ReleaseRunningLock env else ret ()))"

section \<open>Pages of a message\<close>

definition page_key :: "SmsReceiveIndexer \<Rightarrow> predicates" where
  "page_key x = PartsOf (ri_originatingAddress x) (uint (ri_msgRefId x)) (uint (ri_msgCount x))"

definition IsRepeatedMessagePart :: "'d datashare \<Rightarrow> SmsReceiveIndexer \<Rightarrow> ('d, 'm, bool) rop" where
  "IsRepeatedMessagePart D x =
     bnd (PersistQuery D (page_key x)) (\<lambda>pages. ret (\<exists>y \<in> set pages. ri_msgSeqId y = ri_msgSeqId x))"

definition page_values :: "int \<Rightarrow> SmsReceiveIndexer \<Rightarrow> page_row" where
  "page_values slot x = \<lparr>row_id = 0, row_slot = slot, row_receiver = ri_originatingAddress x,
     row_sender = ri_originatingAddress x, row_start = ri_timestamp x, row_end = ri_timestamp x,
     row_pdu = StringToHex (ri_pdu x), row_format = (if ri_isCdma x then SMS_TYPE_CDMA else SMS_TYPE_GSM),
     row_port = sint (ri_destPort x), row_ref = uint (ri_msgRefId x), row_size = uint (ri_msgCount x),
     row_index = uint (ri_msgSeqId x)\<rparr>"

text \<open>The indexer is changed, so it is handed back.\<close>

definition AddMsgToDB :: "('d, 'e) receive_env_scheme \<Rightarrow> SmsReceiveIndexer \<Rightarrow> ('d, 'm, bool \<times> SmsReceiveIndexer) rop" where
  "AddMsgToDB env x =
     bnd (PersistInsert (ds env) (page_values (slotId env) x)) (\<lambda>(r, i). ret (r, x\<lparr>ri_dataBaseId := i\<rparr>))"

definition WAP_SEQ_NUMBER_TAG :: bytes where
  "WAP_SEQ_NUMBER_TAG = [0x30, 0x30, 0x30, 0x33]"

definition WAP_SEQ_NUMBER_LEN :: nat where
  "WAP_SEQ_NUMBER_LEN = 10"

text \<open>The WAP data of one page; \<^verbatim>\<open>substr\<close> beyond the end of the string throws.\<close>

definition wap_page_data :: "bytes \<Rightarrow> ('s, bytes) op" where
  "wap_page_data raw =
     (let hex = StringToHex raw
      in if take 4 hex = WAP_SEQ_NUMBER_TAG then
           (if WAP_SEQ_NUMBER_LEN \<le> length hex then ret (HexToString (drop WAP_SEQ_NUMBER_LEN hex)) else fault)
         else ret (HexToString hex))"

fun join_pages ::
  "('d, 'e) receive_env_scheme \<Rightarrow> bool \<Rightarrow> bytes \<times> bytes \<times> bytes \<Rightarrow> bytes list \<Rightarrow> ('d, 'm, bytes \<times> bytes \<times> bytes) rop" where
  "join_pages env isWap acc [] = ret acc"
| "join_pages env isWap acc (pdu # pdus) =
     (if pdu = [] then join_pages env isWap acc pdus
      else
        bnd (with_new () (CreateMessage (sms_env.truncate env) pdu)) (\<lambda>(message, _).
        case message of
          None \<Rightarrow> join_pages env isWap acc pdus
        | Some m \<Rightarrow>
            bnd (if isWap then wap_page_data (rawWapPushUserData m) else ret []) (\<lambda>w.
            case acc of (body, raw, wap) \<Rightarrow>
              join_pages env isWap (body @ GetVisibleMessageBody m, raw @ rawUserData m, wap @ w) pdus)))"

definition UpdateMultiPageMessage ::
  "('d, 'e) receive_env_scheme \<Rightarrow> SmsReceiveIndexer \<Rightarrow> bytes list \<Rightarrow> ('d, 'm, SmsReceiveIndexer) rop" where
  "UpdateMultiPageMessage env x pdus =
     (if pdus = [] then ret x
      else
        bnd (join_pages env (GetIsWapPushMsg x) ([], [], []) pdus) (\<lambda>(body, raw, wap).
        let x = x\<lparr>ri_visibleMessageBody := body, ri_rawUserData := raw\<rparr>
        in ret (if GetIsWapPushMsg x then x\<lparr>ri_rawWapPushUserData := wap\<rparr> else x)))"

text \<open>
  The loop of \<^verbatim>\<open>CombineMultiPageMessage\<close>: the places filled, the number of pages and of empty pages;
  \<open>None\<close> when a page has a number out of range, which removes the message from the table.
\<close>

fun place_pages :: "bytes list \<Rightarrow> nat \<Rightarrow> nat \<Rightarrow> SmsReceiveIndexer list \<Rightarrow> (bytes list \<times> nat \<times> nat) option" where
  "place_pages pdus cnt empties [] = Some (pdus, cnt, empties)"
| "place_pages pdus cnt empties (v # vs) =
     (if int (unat (ri_msgSeqId v)) - 1 \<ge> int (length pdus) \<or> int (unat (ri_msgSeqId v)) - 1 < 0 then None
      else place_pages (pdus[unat (ri_msgSeqId v) - 1 := StringToHex (ri_pdu v)]) (cnt + 1)
             (if ri_pdu v = [] then empties + 1 else empties) vs)"

text \<open>\<^verbatim>\<open>count\<close> is an \<^verbatim>\<open>int8_t\<close>.\<close>

definition count_int8 :: "nat \<Rightarrow> int" where
  "count_int8 n = sint (word_of_nat n :: 8 word)"

definition CombineMultiPageMessage ::
  "('d, 'e) receive_env_scheme \<Rightarrow> SmsReceiveIndexer \<Rightarrow> ('d, 'm, (SmsReceiveIndexer \<times> bytes list) option) rop" where
  "CombineMultiPageMessage env x =
     (let msgSeg = unat (ri_msgCount x)
      in bnd (PersistQuery (ds env) (page_key x)) (\<lambda>pages.
         case place_pages (replicate msgSeg []) 0 0 pages of
           None \<Rightarrow>
             seq (DeleteMessageFormDb (ds env) (ri_msgRefId x) (ri_dataBaseId x) (uint (ri_msgCount x)) (ri_originatingAddress x))
               (ret None)
         | Some (pdus, cnt, empties) \<Rightarrow>
             if count_int8 cnt \<noteq> int msgSeg \<or> pdus = [] \<or> int msgSeg - int empties \<noteq> int msgSeg then ret None
             else bnd (UpdateMultiPageMessage env x pdus) (\<lambda>x. ret (Some (x, pdus)))))"

definition CombineMessagePart ::
  "('d, 'e) receive_env_scheme \<Rightarrow> ('d, 'm) wap_decoder \<Rightarrow> SmsReceiveIndexer \<Rightarrow> ('d, 'm, unit) rop" where
  "CombineMessagePart env wap x =
     bnd (if IsSingleMsg x then ret (Some (x, [StringToHex (ri_pdu x)])) else CombineMultiPageMessage env x) (\<lambda>r.
     case r of
       None \<Rightarrow> ret ()
     | Some (x, pdus) \<Rightarrow>
         if GetIsWapPushMsg x then ignore (wap x (ri_rawWapPushUserData x))
         else SendBroadcast (ds env) x pdus)"

section \<open>Events\<close>

text \<open>
  The virtual functions of a handler. \<open>vh_ack\<close> may change the message object; \<open>vh_reply\<close> tells whether
  the result is \<^verbatim>\<open>SMS_ACK_RESULT_OK\<close>.
\<close>

record ('d, 'm) handler_ops =
  vh_by_type :: "'m option \<Rightarrow> ('d, 'm, int) rop"
  vh_ack :: "'m \<Rightarrow> ('d, 'm, int \<times> 'm) rop"
  vh_remain :: "'m \<Rightarrow> ('d, 'm, unit) rop"
  vh_reply :: "int \<Rightarrow> ('d, 'm, bool) rop"
  vh_transform :: "bytes option \<Rightarrow> ('d, 'm, 'm option) rop"

abbreviation (input) "SMS_ACK_RESULT_OK \<equiv> 0 :: int"
abbreviation (input) "SMS_ACK_PROCESSED \<equiv> 1 :: int"
abbreviation (input) "SMS_ACK_UNKNOWN_ERROR \<equiv> 0xFF :: int"

definition RECONNECT_MAX_COUNT :: u8 where
  "RECONNECT_MAX_COUNT = 20"

definition HandleReceivedSms :: "('d, 'm) handler_ops \<Rightarrow> 'm option \<Rightarrow> ('d, 'm, unit) rop" where
  "HandleReceivedSms h message = (case message of
     None \<Rightarrow> ret ()
   | Some m \<Rightarrow> bnd (vh_by_type h (Some m)) (\<lambda>r. ignore (vh_reply h r)))"

definition HandleReceivedSmsWithoutDataShare :: "('d, 'm) handler_ops \<Rightarrow> 'm option \<Rightarrow> ('d, 'm, unit) rop" where
  "HandleReceivedSmsWithoutDataShare h message = (case message of
     None \<Rightarrow> ret ()
   | Some m \<Rightarrow>
       bnd (vh_ack h m) (\<lambda>(r, m).
       bnd (vh_reply h r) (\<lambda>ok.
       if ok then upd (\<lambda>s. s\<lparr>smsBaseMessageQueue := smsBaseMessageQueue s @ [m]\<rparr>) else ret ())))"

text \<open>The loop over the queue, front first; a message leaves the queue after it was handled.\<close>

fun drain_queue :: "('d, 'm) handler_ops \<Rightarrow> nat \<Rightarrow> ('d, 'm, unit) rop" where
  "drain_queue h 0 = ret ()"
| "drain_queue h (Suc n) =
     bnd (gets smsBaseMessageQueue) (\<lambda>q.
     case q of
       [] \<Rightarrow> fault
     | m # _ \<Rightarrow> seq (vh_remain h m) (
                seq (upd (\<lambda>s. s\<lparr>smsBaseMessageQueue := tl (smsBaseMessageQueue s)\<rparr>))
                  (drain_queue h n)))"

definition HandleMessageQueue :: "('d, 'm) handler_ops \<Rightarrow> ('d, 'm, unit) rop" where
  "HandleMessageQueue h =
     bnd (gets (\<lambda>s. length (smsBaseMessageQueue s))) (\<lambda>n.
     seq (drain_queue h n) (
     seq (put_out (SendEvent DELAY_RELEASE_RUNNING_LOCK 0))
       (upd (\<lambda>s. s\<lparr>reconnectDataShareCount := 0, alreadySendEvent := False\<rparr>))))"

definition HandleReconnectEvent :: "('d, 'm) handler_ops \<Rightarrow> ('d, 'e) receive_env_scheme \<Rightarrow> ('d, 'm, unit) rop" where
  "HandleReconnectEvent h env =
     bnd (gets (\<lambda>s. ds_ready env (store s))) (\<lambda>ready.
     if ready then HandleMessageQueue h
     else
       seq (upd (\<lambda>s. s\<lparr>reconnectDataShareCount := reconnectDataShareCount s + 1\<rparr>)) (
       bnd (gets reconnectDataShareCount) (\<lambda>n.
       if n \<ge> RECONNECT_MAX_COUNT then
         seq (upd (\<lambda>s. s\<lparr>reconnectDataShareCount := 0, alreadySendEvent := False\<rparr>)) (ReleaseRunningLock env)
       else
         seq (ReduceRunningLock env) (
         seq (ApplyRunningLock env)
           (put_out (SendEvent RETRY_CONNECT_DATASHARE 0))))))"

definition HandleSmsEvent :: "('d, 'm) handler_ops \<Rightarrow> ('d, 'e) receive_env_scheme \<Rightarrow> bytes option \<Rightarrow> ('d, 'm, unit) rop" where
  "HandleSmsEvent h env info =
     (if sms_disabled env then ignore (vh_reply h SMS_ACK_RESULT_OK)
      else
        seq (ApplyRunningLock env) (
        bnd (vh_transform h info) (\<lambda>message.
        bnd (gets alreadySendEvent) (\<lambda>sent.
        if sent then HandleReceivedSmsWithoutDataShare h message
        else
          bnd (gets (\<lambda>s. ds_ready env (store s))) (\<lambda>ready.
          if ready then
            seq (HandleReceivedSms h message) (put_out (SendEvent DELAY_RELEASE_RUNNING_LOCK 0))
          else
            seq (HandleReceivedSmsWithoutDataShare h message) (
            seq (put_out (SendEvent RETRY_CONNECT_DATASHARE 0))
              (upd (\<lambda>s. s\<lparr>alreadySendEvent := True\<rparr>))))))))"

datatype receive_event =
    RADIO_GSM_SMS "bytes option"
  | RADIO_CDMA_SMS "bytes option"
  | LOCK_TIMEOUT int
  | DELAY_RELEASE
  | RETRY_CONNECT
  | SMS_EVENT_NEW_SMS_REPLY
  | UNKNOWN_RECEIVE_EVENT

text \<open>The reply of the core service is handled if \<^verbatim>\<open>BASE_POWER_IMPROVEMENT_FEATURE\<close> is built in (\<open>improved\<close>).\<close>

definition ReceiveEvent :: "('d, 'm) handler_ops \<Rightarrow> ('d, 'e) receive_env_scheme \<Rightarrow> bool \<Rightarrow> receive_event \<Rightarrow> ('d, 'm, unit) rop" where
  "ReceiveEvent h env improved ev = (case ev of
     RADIO_GSM_SMS i \<Rightarrow> HandleSmsEvent h env i
   | RADIO_CDMA_SMS i \<Rightarrow> HandleSmsEvent h env i
   | LOCK_TIMEOUT n \<Rightarrow> HandleRunningLockTimeoutEvent env n
   | DELAY_RELEASE \<Rightarrow> ReduceRunningLock env
   | RETRY_CONNECT \<Rightarrow> HandleReconnectEvent h env
   | SMS_EVENT_NEW_SMS_REPLY \<Rightarrow> if improved then put_out StrExitFinish else ret ()
   | UNKNOWN_RECEIVE_EVENT \<Rightarrow> ret ())"

section \<open>The GSM handler\<close>

definition INVALID_SMS_PORT :: u16 where
  "INVALID_SMS_PORT = 0x157B"

definition ReplySmsToSmsc :: "('d, 'e) receive_env_scheme \<Rightarrow> int \<Rightarrow> ('d, 'm, bool) rop" where
  "ReplySmsToSmsc env result =
     seq (put_out ((if satellite_enabled env then SatelliteSmsAck else SmsAck) (result = SMS_ACK_RESULT_OK) result))
       (ret (result = SMS_ACK_RESULT_OK))"

definition CheckSmsSupport :: "('d, 'e) receive_env_scheme \<Rightarrow> ('d, 'm, int) rop" where
  "CheckSmsSupport env =
     (if \<not> CheckSmsCapable env then ret SMS_ACK_PROCESSED
      else seq (DeleteExpireSmsFromDB env) (ret SMS_ACK_RESULT_OK))"

text \<open>The indexer of a message; \<open>None\<close> when its concatenation is null after all.\<close>

definition message_page :: "(GsmSmsMessage, SmsReceiveIndexer option) op" where
  "message_page =
     bnd IsConcatMsg (\<lambda>isConcat.
     bnd (if isConcat then GetConcatMsg else ret None) (\<lambda>c.
     if isConcat \<and> c = None then ret None
     else
       bnd GetDestPort (\<lambda>port.
       bnd (gets (\<lambda>m. m)) (\<lambda>m.
       ret (Some ((case c of
           None \<Rightarrow> single_page (rawPdu m) (scTimestamp m) port False False (originatingAddress m)
             (GetVisibleOriginatingAddress m) (GetVisibleMessageBody m)
         | Some c \<Rightarrow> page_of_many (rawPdu m) (scTimestamp m) port False (originatingAddress m)
             (GetVisibleOriginatingAddress m) (cc_msgRef c) (cc_seqNum c) (cc_totalSeg c) False (GetVisibleMessageBody m))
         \<lparr>ri_rawUserData := rawUserData m, ri_rawWapPushUserData := rawWapPushUserData m\<rparr>))))))"

definition repeated_part :: "'d datashare \<Rightarrow> SmsReceiveIndexer \<Rightarrow> 'b SmsBaseMessage_scheme \<Rightarrow> ('d, 'm, bool) rop" where
  "repeated_part D x m =
     (if GetIsText x then
        bnd (with_new m IsConcatMsg) (\<lambda>(isConcat, _). if isConcat then IsRepeatedMessagePart D x else ret False)
      else ret False)"

definition HandleNormalSmsByType ::
  "('d, 'e) receive_env_scheme \<Rightarrow> ('d, 'm) wap_decoder \<Rightarrow> GsmSmsMessage \<Rightarrow> ('d, 'm, int) rop" where
  "HandleNormalSmsByType env wap m =
     bnd (with_new m message_page) (\<lambda>(page, m).
     case page of
       None \<Rightarrow> ret SMS_ACK_UNKNOWN_ERROR
     | Some x \<Rightarrow>
         bnd (repeated_part (ds env) x m) (\<lambda>rep.
         if rep then ret SMS_ACK_RESULT_OK
         else if ri_destPort x = INVALID_SMS_PORT then ret SMS_ACK_RESULT_OK
         else
           bnd (AddMsgToDB env x) (\<lambda>(ok, x).
           if \<not> ok then ret SMS_ACK_UNKNOWN_ERROR
           else seq (CombineMessagePart env wap x) (ret SMS_ACK_RESULT_OK))))"

definition HandleSmsByType ::
  "('d, 'e) receive_env_scheme \<Rightarrow> ('d, 'm) wap_decoder \<Rightarrow> GsmSmsMessage option \<Rightarrow> ('d, 'm, int) rop" where
  "HandleSmsByType env wap message = (case message of
     None \<Rightarrow> ret SMS_ACK_UNKNOWN_ERROR
   | Some m \<Rightarrow>
       if IsSpecialMessage m then ret SMS_ACK_RESULT_OK
       else bnd (CheckSmsSupport env) (\<lambda>r.
            if r \<noteq> SMS_ACK_RESULT_OK then ret r else HandleNormalSmsByType env wap m))"

definition HandleAck :: "('d, 'e) receive_env_scheme \<Rightarrow> GsmSmsMessage \<Rightarrow> ('d, 'm, int \<times> GsmSmsMessage) rop" where
  "HandleAck env m =
     (if IsSpecialMessage m then ret (SMS_ACK_RESULT_OK, m)
      else if \<not> CheckSmsCapable env then ret (SMS_ACK_PROCESSED, m)
      else
        bnd (with_new m IsConcatMsg) (\<lambda>(isConcat, m).
        if isConcat then
          bnd (with_new m GetConcatMsg) (\<lambda>(c, m).
          ret (if c = None then SMS_ACK_UNKNOWN_ERROR else SMS_ACK_RESULT_OK, m))
        else ret (SMS_ACK_RESULT_OK, m)))"

definition HandleRemainDataShare ::
  "('d, 'e) receive_env_scheme \<Rightarrow> ('d, 'm) wap_decoder \<Rightarrow> GsmSmsMessage \<Rightarrow> ('d, 'm, unit) rop" where
  "HandleRemainDataShare env wap m =
     seq (ignore (DeleteExpireSmsFromDB env)) (
     bnd (with_new m message_page) (\<lambda>(page, m).
     case page of
       None \<Rightarrow> ret ()
     | Some x \<Rightarrow>
         bnd (repeated_part (ds env) x m) (\<lambda>rep.
         if rep then ret ()
         else
           bnd (AddMsgToDB env x) (\<lambda>(ok, x).
           if \<not> ok then ret () else CombineMessagePart env wap x))))"

definition TransformMessageInfo :: "('d, 'e) receive_env_scheme \<Rightarrow> bytes option \<Rightarrow> ('d, 'm, GsmSmsMessage option) rop" where
  "TransformMessageInfo env info = (case info of
     None \<Rightarrow> ret None
   | Some pdu \<Rightarrow> bnd (with_new () (CreateMessage (sms_env.truncate env) (StringToHex pdu))) (\<lambda>(m, _). ret m))"

definition gsm_handler ::
  "('d, 'e) receive_env_scheme \<Rightarrow> ('d, GsmSmsMessage) wap_decoder \<Rightarrow> ('d, GsmSmsMessage) handler_ops" where
  "gsm_handler env wap = \<lparr>vh_by_type = HandleSmsByType env wap, vh_ack = HandleAck env,
     vh_remain = HandleRemainDataShare env wap, vh_reply = ReplySmsToSmsc env, vh_transform = TransformMessageInfo env\<rparr>"

end
