(* ===== verification/Sms_Reassembly.thy ===== *)
theory Sms_Reassembly
  imports Sms_Receive_Handler
begin

text \<open>
  What the receive handlers do: pages of a message are combined, once and in order, whatever order they arrive in; every message is
  acknowledged; recovery after a restart is safe. The data share service is known by the laws of a table.
\<close>

section \<open>The laws of the table\<close>

fun row_matches :: "predicates \<Rightarrow> page_row \<Rightarrow> bool" where
  "row_matches (PartsOf a r n) w \<longleftrightarrow> row_sender w = a \<and> row_ref w = r \<and> row_size w = n"
| "row_matches (OfSlot k) w \<longleftrightarrow> row_slot w = k"
| "row_matches (Expired k t) w \<longleftrightarrow> row_slot w = k \<and> (row_start w < t \<or> row_pdu w = [] \<or> row_size w < 0)"

definition page_table :: "'d datashare \<Rightarrow> ('d \<Rightarrow> page_row list) \<Rightarrow> bool" where
  "page_table D rows \<longleftrightarrow>
     (\<forall>d. ds_helper D d) \<and>
     (\<forall>w d. 0 < fst (ds_insert D w d) \<and> rows (snd (ds_insert D w d)) = rows d @ [w\<lparr>row_id := fst (ds_insert D w d)\<rparr>]) \<and>
     (\<forall>p d. ds_query D p d = Some (filter (row_matches p) (rows d))) \<and>
     (\<forall>p d. rows (snd (ds_delete D p d)) = filter (\<lambda>w. \<not> row_matches p w) (rows d))"

lemma page_tableD:
  assumes "page_table D rows"
  shows "ds_helper D d" "0 < fst (ds_insert D w d)" "rows (snd (ds_insert D w d)) = rows d @ [w\<lparr>row_id := fst (ds_insert D w d)\<rparr>]"
    "ds_query D p d = Some (filter (row_matches p) (rows d))" "rows (snd (ds_delete D p d)) = filter (\<lambda>w. \<not> row_matches p w) (rows d)"
  using assms by (simp_all add: page_table_def)

lemma PersistQuery_table:
  "page_table D rows \<Longrightarrow> PersistQuery D p s = Ok (map ResultSetConvertToIndexer (filter (row_matches p) (rows (store s)))) s"
  by (simp add: PersistQuery_def page_tableD)

lemma PersistInsert_table:
  assumes "page_table D rows"
  shows "\<exists>i d. PersistInsert D w s = Ok (True, i) (s\<lparr>store := d\<rparr>) \<and> rows d = rows (store s) @ [w\<lparr>row_id := i\<rparr>]"
  using page_tableD(1) [OF assms, of "store s"] page_tableD(2,3) [OF assms, of w "store s"]
  by (cases "ds_insert D w (store s)") (auto simp: PersistInsert_def)

lemma PersistDelete_table:
  assumes "page_table D rows"
  shows "\<exists>b d. PersistDelete D p s = Ok b (s\<lparr>store := d\<rparr>) \<and> rows d = filter (\<lambda>w. \<not> row_matches p w) (rows (store s))"
  using page_tableD(1) [OF assms, of "store s"] page_tableD(5) [OF assms, of p "store s"]
  by (cases "ds_delete D p (store s)") (auto simp: PersistDelete_def)

section \<open>The page of a text message\<close>

text \<open>A text message whose first concatenation header is \<open>c\<close>.\<close>

definition concat_text :: "GsmSmsMessage \<Rightarrow> SmsConcat \<Rightarrow> bool" where
  "concat_text m c \<longleftrightarrow> \<not> IsSpecialMessage m \<and> scan_headers concat_of m = Ok (Some c) m \<and> scan_headers port_of m = Ok None m"

definition text_page :: "GsmSmsMessage \<Rightarrow> SmsConcat \<Rightarrow> SmsReceiveIndexer" where
  "text_page m c = (page_of_many (rawPdu m) (scTimestamp m) (- 1) False (originatingAddress m)
     (GetVisibleOriginatingAddress m) (cc_msgRef c) (cc_seqNum c) (cc_totalSeg c) False (GetVisibleMessageBody m))
     \<lparr>ri_rawUserData := rawUserData m, ri_rawWapPushUserData := rawWapPushUserData m\<rparr>"

lemma first_header_state: "first_header f u i n s = Ok x s \<Longrightarrow> first_header f u i n t = Ok x t"
  by (induction n arbitrary: i) (auto simp: op_simps split: option.splits if_splits)

lemma scan_headers_state:
  "scan_headers f m = Ok x m \<Longrightarrow> smsUserData m' = smsUserData m \<Longrightarrow> scan_headers f m' = Ok x m'"
  using first_header_state by (fastforce simp: scan_headers_def op_simps)

lemma message_page_concat:
  assumes "concat_text m c"
  shows "\<exists>m'. message_page m = Ok (Some (text_page m c)) m' \<and> IsConcatMsg m' = Ok True m'"
proof -
  let ?m = "m\<lparr>smsConcat := Some c\<rparr>"
  have c: "GetConcatMsg m' = Ok (Some c) (m'\<lparr>smsConcat := Some c\<rparr>)" if "smsUserData m' = smsUserData m" for m' :: GsmSmsMessage
    using assms scan_headers_state [OF _ that, of concat_of "Some c"] by (simp add: concat_text_def GetConcatMsg_def op_simps)
  have p: "GetPortAddress ?m = Ok None (?m\<lparr>portAddress := None\<rparr>)"
    using assms scan_headers_state [of port_of m None ?m] by (simp add: concat_text_def GetPortAddress_def op_simps)
  show ?thesis using c p
    by (simp add: message_page_def IsConcatMsg_def GetDestPort_def op_simps text_page_def GetVisibleOriginatingAddress_def
        GetVisibleMessageBody_def)
qed

section \<open>Places\<close>

text \<open>A part is the number and the octets of a page.\<close>

definition part :: "SmsReceiveIndexer \<Rightarrow> nat \<times> bytes" where
  "part v = (unat (ri_msgSeqId v), ri_pdu v)"

definition fill :: "(nat \<times> bytes) list \<Rightarrow> bytes list \<Rightarrow> bytes list" where
  "fill = fold (\<lambda>(q, p) ps. ps[q - 1 := StringToHex p])"

lemma place_pages_fill:
  assumes "\<forall>(q, p) \<in> set (map part vs). 1 \<le> q \<and> q \<le> length pdus \<and> p \<noteq> []"
  shows "place_pages pdus k e vs = Some (fill (map part vs) pdus, k + length vs, e)"
  using assms
proof (induction vs arbitrary: pdus k)
  case (Cons v vs)
  then have v: "1 \<le> unat (ri_msgSeqId v)" "unat (ri_msgSeqId v) \<le> length pdus" by (simp_all add: part_def)
  then have "int 1 \<le> int (unat (ri_msgSeqId v))" "int (unat (ri_msgSeqId v)) \<le> int (length pdus)"
    by (simp_all only: of_nat_le_iff)
  moreover have "place_pages (pdus[unat (ri_msgSeqId v) - 1 := StringToHex (ri_pdu v)]) (k + 1) e vs =
      Some (fill (map part vs) (pdus[unat (ri_msgSeqId v) - 1 := StringToHex (ri_pdu v)]), k + 1 + length vs, e)"
    using Cons.prems by (intro Cons.IH) auto
  ultimately show ?case using Cons.prems by (simp add: part_def [abs_def] fill_def)
qed (simp add: fill_def)

lemma length_fill [simp]: "length (fill ps pdus) = length pdus"
  by (induction ps arbitrary: pdus) (auto simp: fill_def)

lemma fill_nth:
  assumes "distinct (map fst ps)" "\<forall>q \<in> fst ` set ps. 1 \<le> q \<and> q \<le> length pdus" "i < length pdus"
  shows "fill ps pdus ! i = (case map_of ps (i + 1) of Some p \<Rightarrow> StringToHex p | None \<Rightarrow> pdus ! i)"
  using assms
proof (induction ps arbitrary: pdus)
  case (Cons x ps)
  obtain q p where x: "x = (q, p)" by (cases x)
  have "fill (x # ps) pdus = fill ps (pdus[q - 1 := StringToHex p])" by (simp add: fill_def x)
  moreover have "q \<notin> fst ` set ps" using Cons.prems(1) x by simp
  then have "map_of ps q = None" by (simp add: map_of_eq_None_iff)
  ultimately show ?case using Cons.IH [of "pdus[q - 1 := StringToHex p]"] Cons.prems
    by (auto simp: x nth_list_update split: option.splits)
qed (simp add: fill_def)

definition in_order :: "nat \<Rightarrow> (nat \<times> bytes) list \<Rightarrow> bytes list" where
  "in_order n ps = map (\<lambda>i. StringToHex (the (map_of ps (i + 1)))) [0..<n]"

definition complete :: "nat \<Rightarrow> (nat \<times> bytes) list \<Rightarrow> bool" where
  "complete n ps \<longleftrightarrow> {1..n} \<subseteq> fst ` set ps"

definition parts_ok :: "nat \<Rightarrow> (nat \<times> bytes) list \<Rightarrow> bool" where
  "parts_ok n ps \<longleftrightarrow> distinct (map fst ps) \<and> (\<forall>(q, p) \<in> set ps. 1 \<le> q \<and> q \<le> n \<and> p \<noteq> [])"

lemma fill_complete:
  assumes "parts_ok n ps" "complete n ps"
  shows "fill ps (replicate n []) = in_order n ps"
proof (rule nth_equalityI)
  fix i
  assume "i < length (fill ps (replicate n []))"
  then have i: "i < n" by simp
  then have "i + 1 \<in> fst ` set ps" using assms(2) by (auto simp: complete_def)
  then obtain p where "map_of ps (i + 1) = Some p" by (metis domIff dom_map_of_conv_image_fst option.exhaust)
  moreover have "\<forall>q \<in> fst ` set ps. 1 \<le> q \<and> q \<le> n" using assms(1) by (auto simp: parts_ok_def)
  ultimately show "fill ps (replicate n []) ! i = in_order n ps ! i"
    using fill_nth [of ps "replicate n []" i] assms(1) i by (simp add: parts_ok_def in_order_def)
qed (simp add: in_order_def)

lemma in_order_full:
  assumes "parts_ok n ps" "complete n ps" "i < n"
  shows "in_order n ps ! i \<noteq> []"
proof -
  have "i + 1 \<in> fst ` set ps" using assms(2,3) by (auto simp: complete_def)
  then obtain p where "map_of ps (i + 1) = Some p" by (metis domIff dom_map_of_conv_image_fst option.exhaust)
  moreover from map_of_SomeD [OF this] have "p \<noteq> []" using assms(1) by (auto simp: parts_ok_def)
  ultimately show ?thesis using hex_inverse(1) [of p] assms(3) by (auto simp: in_order_def)
qed

lemma in_order_filter:
  assumes "parts_ok n ps" "complete n ps"
  shows "filter (\<lambda>p. p \<noteq> []) (in_order n ps) = in_order n ps"
  using in_order_full [OF assms] by (auto simp: filter_id_conv in_set_conv_nth) (simp add: in_order_def)

lemma complete_length:
  assumes "parts_ok n ps"
  shows "length ps \<le> n" "length ps = n \<longleftrightarrow> complete n ps"
proof -
  have c: "card (fst ` set ps) = length ps" using assms distinct_card [of "map fst ps"] by (simp add: parts_ok_def)
  have sub: "fst ` set ps \<subseteq> {1..n}" using assms by (auto simp: parts_ok_def)
  then show "length ps \<le> n" using c card_mono [of "{1..n}" "fst ` set ps"] by simp
  show "length ps = n \<longleftrightarrow> complete n ps"
  proof
    assume "length ps = n"
    then have "fst ` set ps = {1..n}" using c sub card_subset_eq [of "{1..n}" "fst ` set ps"] by simp
    then show "complete n ps" by (simp add: complete_def)
  next
    assume "complete n ps"
    then have "fst ` set ps = {1..n}" using sub by (auto simp: complete_def)
    then show "length ps = n" using c by simp
  qed
qed

section \<open>The effect of one page\<close>

definition events :: "('d, 'm) receiver \<Rightarrow> sms_event list" where
  "events s = concat (map (\<lambda>x. case x of PublishSms e \<Rightarrow> [e] | _ \<Rightarrow> []) (r_outs s))"

text \<open>The PDUs published so far for the message of a sender with a reference number and a number of pages.\<close>

definition published :: "bytes \<Rightarrow> u16 \<Rightarrow> u16 \<Rightarrow> ('d, 'm) receiver \<Rightarrow> bytes list list" where
  "published a r n s = map ev_pdus (filter (\<lambda>e. ev_address e = a \<and> ev_msgRefId e = r \<and> ev_msgCount e = n) (events s))"

definition page_rows :: "('d \<Rightarrow> page_row list) \<Rightarrow> bytes \<Rightarrow> u16 \<Rightarrow> u16 \<Rightarrow> 'd \<Rightarrow> page_row list" where
  "page_rows rows a r n d = filter (row_matches (PartsOf a (uint r) (uint n))) (rows d)"

definition parts_in :: "('d \<Rightarrow> page_row list) \<Rightarrow> bytes \<Rightarrow> u16 \<Rightarrow> u16 \<Rightarrow> 'd \<Rightarrow> (nat \<times> bytes) list" where
  "parts_in rows a r n d = map (part \<circ> ResultSetConvertToIndexer) (page_rows rows a r n d)"

definition expire_value :: "('d, 'e) receive_env_scheme \<Rightarrow> bytes" where
  "expire_value env = (if is_valid_dec env (expire_days env) then expire_days env else DEFAULT_EXPIRE_DAYS)"

definition can_receive :: "('d, 'e) receive_env_scheme \<Rightarrow> ('d \<Rightarrow> page_row list) \<Rightarrow> bool" where
  "can_receive env rows \<longleftrightarrow> page_table (ds env) rows \<and> CheckSmsCapable env \<and> stoi (expire_value env) \<noteq> None \<and>
     iconv_bounded (env_iconv env)"

definition in_time :: "('d, 'e) receive_env_scheme \<Rightarrow> page_row list \<Rightarrow> bool" where
  "in_time env ws \<longleftrightarrow> (\<forall>w \<in> set ws. env_now env - the (stoi (expire_value env)) * ONE_DAY_TOTAL_SECONDS \<le> row_start w)"

lemma page_row_kept:
  assumes "in_time env ws" "w \<in> set ws" "snd (part (ResultSetConvertToIndexer w)) \<noteq> []" "row_matches (PartsOf a r (uint n)) w"
  shows "\<not> row_matches (Expired k (env_now env - the (stoi (expire_value env)) * ONE_DAY_TOTAL_SECONDS)) w"
  using assms by (auto simp: in_time_def part_def ResultSetConvertToIndexer_def ConvertStringToIndexer_def ConvertIntToIndexer_def)

lemma CheckSmsSupport_keeps_pages:
  assumes "can_receive env rows" "in_time env (page_rows rows a r n (store s))" "parts_ok k (parts_in rows a r n (store s))"
  shows "\<exists>d. CheckSmsSupport env s = Ok SMS_ACK_RESULT_OK (s\<lparr>store := d\<rparr>) \<and> page_rows rows a r n d = page_rows rows a r n (store s)"
proof -
  obtain i where env: "page_table (ds env) rows" "CheckSmsCapable env" "stoi (expire_value env) = Some i"
    using assms(1) by (auto simp: can_receive_def)
  let ?t = "env_now env - i * ONE_DAY_TOTAL_SECONDS"
  obtain b d where d: "PersistDelete (ds env) (Expired (slotId env) ?t) s = Ok b (s\<lparr>store := d\<rparr>)"
      "rows d = filter (\<lambda>w. \<not> row_matches (Expired (slotId env) ?t) w) (rows (store s))"
    using PersistDelete_table [OF env(1)] by blast
  have "\<not> row_matches (Expired (slotId env) ?t) w" if "w \<in> set (page_rows rows a r n (store s))" for w
  proof (rule page_row_kept [OF assms(2) that, unfolded env(3) option.sel])
    show "snd (part (ResultSetConvertToIndexer w)) \<noteq> []"
      using assms(3) that by (force simp: parts_ok_def parts_in_def)
  qed (use that in \<open>simp add: page_rows_def\<close>)
  then have "page_rows rows a r n d = page_rows rows a r n (store s)"
    unfolding page_rows_def d(2) by (auto intro: filter_cong simp: page_rows_def)
  moreover have "CheckSmsSupport env s = Ok SMS_ACK_RESULT_OK (if ?t \<le> 0 then s else s\<lparr>store := d\<rparr>)"
    using d(1) env(2,3) by (simp add: CheckSmsSupport_def DeleteExpireSmsFromDB_def expire_value_def [symmetric] Let_def op_simps)
  ultimately show ?thesis by (cases "?t \<le> 0") (auto intro: exI [of _ "store s"])
qed

lemma CreateMessage_returns:
  assumes "iconv_bounded (env_iconv env)"
  shows "\<exists>r. CreateMessage env pdu s = Ok r s \<and> (\<forall>m. r = Some m \<longrightarrow> msg_data_ok m)"
proof -
  let ?m = "new_message\<lparr>smsTpdu := Some (SMS_TPDU_SUBMIT zero_submit), rawPdu := HexToByteVector pdu\<rparr>"
  have "case PduAnalysis env (HexToString pdu) ?m of Ok _ m' \<Rightarrow> msg_data_ok m' | Fail _ \<Rightarrow> True | Fault \<Rightarrow> False"
    by (rule PduAnalysis_safe [OF assms]) (simp add: new_message_def)
  then show ?thesis by (auto simp: CreateMessage_def split: outcome.splits)
qed

lemma join_pages_returns:
  assumes "iconv_bounded (env_iconv env)"
  shows "\<exists>y. join_pages env False acc pdus s = Ok y s"
proof (induction pdus arbitrary: acc)
  case (Cons pdu pdus)
  obtain r where "CreateMessage (sms_env.truncate env) pdu () = Ok r ()"
    using CreateMessage_returns [of "sms_env.truncate env" pdu "()"] assms by (auto simp: sms_env.defs)
  moreover obtain body raw wap where "acc = (body, raw, wap)" by (cases acc)
  ultimately show ?case using Cons.IH by (auto simp: op_simps split: option.splits)
qed (rule exI, simp add: ret_def)

definition own_page :: "bytes \<Rightarrow> u16 \<Rightarrow> u16 \<Rightarrow> SmsReceiveIndexer \<Rightarrow> bool" where
  "own_page a r n x \<longleftrightarrow> ri_originatingAddress x = a \<and> ri_msgRefId x = r \<and> ri_msgCount x = n \<and> ri_destPort x = - 1"

lemma count_int8_small: "k < 128 \<Longrightarrow> count_int8 k = int k"
  by (simp add: count_int8_def signed_of_nat signed_take_bit_int_eq_self)

lemma CombineMultiPageMessage_text:
  assumes "can_receive env rows" "own_page a r n x" "unat n < 128" "n \<noteq> 0"
    and ps: "parts_in rows a r n (store s) = ps" "parts_ok (unat n) ps"
  shows "\<exists>y. own_page a r n y \<and> CombineMultiPageMessage env x s =
    Ok (if complete (unat n) ps then Some (y, in_order (unat n) ps) else None) s"
proof -
  have tab: "page_table (ds env) rows" and ic: "iconv_bounded (env_iconv env)" using assms(1) by (simp_all add: can_receive_def)
  have x: "ri_originatingAddress x = a" "ri_msgRefId x = r" "ri_msgCount x = n" "\<not> GetIsWapPushMsg x"
    using assms(2) by (simp_all add: own_page_def GetIsWapPushMsg_def WAP_PUSH_PORT_def)
  let ?vs = "map ResultSetConvertToIndexer (page_rows rows a r n (store s))"
  have vs: "map part ?vs = ps" using ps(1) by (simp add: parts_in_def)
  then have "length ?vs = length ps" using length_map by metis
  moreover have "\<forall>(q, p) \<in> set (map part ?vs). 1 \<le> q \<and> q \<le> length (replicate (unat n) ([] :: bytes)) \<and> p \<noteq> []"
    unfolding vs using ps(2) by (simp add: parts_ok_def)
  ultimately have place: "place_pages (replicate (unat n) []) 0 0 ?vs = Some (fill ps (replicate (unat n) []), length ps, 0)"
    using place_pages_fill [of ?vs "replicate (unat n) []" 0 0] vs by simp
  have query: "PersistQuery (ds env) (page_key x) s = Ok ?vs s"
    by (simp add: PersistQuery_table [OF tab] page_key_def x page_rows_def)
  have cnt: "count_int8 (length ps) = int (unat n) \<longleftrightarrow> complete (unat n) ps"
    using complete_length [OF ps(2)] assms(3) by (simp add: count_int8_small del: of_nat_unat)
  have ne: "fill ps (replicate (unat n) []) \<noteq> []" using length_fill [of ps "replicate (unat n) []"] assms(4)
    by (metis length_0_conv length_replicate unat_eq_zero)
  obtain b w u where j: "join_pages env False ([], [], []) (in_order (unat n) ps) s = Ok (b, w, u) s"
    using join_pages_returns [OF ic] by (metis prod_cases3)
  let ?y = "x\<lparr>ri_visibleMessageBody := b, ri_rawUserData := w\<rparr>"
  have "in_order (unat n) ps \<noteq> []" using assms(4) by (simp add: in_order_def unat_eq_zero)
  then have "UpdateMultiPageMessage env x (in_order (unat n) ps) s = Ok ?y s"
    using j x(4) by (simp add: UpdateMultiPageMessage_def op_simps GetIsWapPushMsg_def)
  then have "CombineMultiPageMessage env x s = Ok (if complete (unat n) ps then Some (?y, in_order (unat n) ps) else None) s"
    using query place cnt ne fill_complete [OF ps(2)]
    by (simp add: CombineMultiPageMessage_def Let_def op_simps x del: of_nat_unat)
  then show ?thesis using assms(2) by (intro exI [of _ ?y]) (simp add: own_page_def)
qed

definition add_part :: "nat \<Rightarrow> bytes \<Rightarrow> (nat \<times> bytes) list \<Rightarrow> (nat \<times> bytes) list" where
  "add_part q p ps = (if q \<in> fst ` set ps then ps else ps @ [(q, p)])"

text \<open>A text message that is a page of the message \<open>(a, r, n)\<close>, with a valid number.\<close>

definition page_of :: "bytes \<Rightarrow> u16 \<Rightarrow> u16 \<Rightarrow> GsmSmsMessage \<Rightarrow> SmsConcat \<Rightarrow> bool" where
  "page_of a r n m c \<longleftrightarrow> concat_text m c \<and> originatingAddress m = a \<and> cc_msgRef c = r \<and> cc_totalSeg c = n \<and>
     1 \<le> unat (cc_seqNum c) \<and> unat (cc_seqNum c) \<le> unat n \<and> rawPdu m \<noteq> []"

lemma text_page_simps [simp]:
  "ri_originatingAddress (text_page m c) = originatingAddress m" "ri_msgRefId (text_page m c) = cc_msgRef c"
  "ri_msgCount (text_page m c) = cc_totalSeg c" "ri_msgSeqId (text_page m c) = cc_seqNum c" "ri_destPort (text_page m c) = - 1"
  "ri_pdu (text_page m c) = rawPdu m" "ri_timestamp (text_page m c) = scTimestamp m"
  by (simp_all add: text_page_def page_of_many_def)

lemma part_of_row: "part (ResultSetConvertToIndexer ((page_values k x)\<lparr>row_id := i\<rparr>)) = part x"
  by (simp add: part_def ResultSetConvertToIndexer_def ConvertStringToIndexer_def ConvertIntToIndexer_def page_values_def hex_inverse)

lemma CombineMessagePart_text:
  assumes "can_receive env rows" "own_page a r n x" "unat n < 128" "2 \<le> unat n" "\<not> auto_reg a"
    and ps: "parts_in rows a r n (store s) = ps" "parts_ok (unat n) ps"
  shows "\<exists>t. CombineMessagePart env wap x s = Ok () t \<and> store t = store s \<and> smsBaseMessageQueue t = smsBaseMessageQueue s \<and>
    published a r n t = published a r n s @ (if complete (unat n) ps then [in_order (unat n) ps] else [])"
proof -
  have n: "n \<noteq> 0" "n \<noteq> 1" using assms(4) by auto
  obtain y where y: "own_page a r n y" "CombineMultiPageMessage env x s =
      Ok (if complete (unat n) ps then Some (y, in_order (unat n) ps) else None) s"
    using CombineMultiPageMessage_text [OF assms(1-3) n(1) ps] by blast
  have "filter (\<lambda>p. p \<noteq> []) (in_order (unat n) ps) = in_order (unat n) ps" if "complete (unat n) ps" by (rule in_order_filter [OF ps(2) that])
  then show ?thesis using assms(2,5) y n(2)
    by (auto simp: CombineMessagePart_def own_page_def IsSingleMsg_def GetIsWapPushMsg_def WAP_PUSH_PORT_def SendBroadcast_def
        PacketSmsData_def put_out_def op_simps published_def events_def)
qed

lemma page_arrives:
  assumes env: "can_receive env rows" and m: "page_of a r n m c"
    and n: "unat n < 128" "2 \<le> unat n" "\<not> auto_reg a"
    and s: "in_time env (page_rows rows a r n (store s))" "parts_in rows a r n (store s) = ps" "parts_ok (unat n) ps"
  defines "ps' \<equiv> add_part (unat (cc_seqNum c)) (rawPdu m) ps"
  shows "\<exists>t. HandleSmsByType env wap (Some m) s = Ok SMS_ACK_RESULT_OK t \<and> parts_in rows a r n (store t) = ps' \<and> parts_ok (unat n) ps' \<and>
    set (map row_start (page_rows rows a r n (store t))) \<subseteq> insert (scTimestamp m) (set (map row_start (page_rows rows a r n (store s)))) \<and>
    published a r n t = published a r n s @ (if complete (unat n) ps' \<and> \<not> complete (unat n) ps then [in_order (unat n) ps'] else [])"
proof -
  let ?x = "text_page m c" and ?q = "unat (cc_seqNum c)"
  have tab: "page_table (ds env) rows" using env by (simp add: can_receive_def)
  have m': "concat_text m c" "\<not> IsSpecialMessage m" "originatingAddress m = a" "cc_msgRef c = r" "cc_totalSeg c = n" "rawPdu m \<noteq> []"
      "1 \<le> ?q" "?q \<le> unat n"
    using m by (simp_all add: page_of_def concat_text_def)
  obtain d where d: "CheckSmsSupport env s = Ok SMS_ACK_RESULT_OK (s\<lparr>store := d\<rparr>)" "page_rows rows a r n d = page_rows rows a r n (store s)"
    using CheckSmsSupport_keeps_pages [OF env s(1)] s(2,3) by auto
  let ?s = "s\<lparr>store := d\<rparr>"
  have d': "parts_in rows a r n d = ps" using d(2) s(2) by (simp add: parts_in_def)
  obtain mm where mm: "message_page m = Ok (Some ?x) mm" "IsConcatMsg mm = Ok True mm" using message_page_concat [OF m'(1)] by blast
  have rep: "repeated_part (ds env) ?x mm ?s = Ok (?q \<in> fst ` set ps) ?s"
  proof -
    have "(\<exists>w \<in> set (page_rows rows a r n d). ri_msgSeqId (ResultSetConvertToIndexer w) = cc_seqNum c) \<longleftrightarrow> ?q \<in> fst ` set ps"
      unfolding d' [symmetric] by (simp add: parts_in_def part_def image_iff word_unat_eq_iff) metis
    then show ?thesis using mm(2) m'(3-5)
      by (simp add: repeated_part_def GetIsText_def op_simps IsRepeatedMessagePart_def PersistQuery_table [OF tab] page_key_def
          page_rows_def [symmetric])
  qed
  have normal: "HandleSmsByType env wap (Some m) s =
      (if ?q \<in> fst ` set ps then Ok SMS_ACK_RESULT_OK ?s
       else bnd (AddMsgToDB env ?x) (\<lambda>(ok, x). if \<not> ok then ret SMS_ACK_UNKNOWN_ERROR
         else seq (CombineMessagePart env wap x) (ret SMS_ACK_RESULT_OK)) ?s)"
    using d(1) mm(1) rep m'(2)
    by (simp add: HandleSmsByType_def HandleNormalSmsByType_def op_simps INVALID_SMS_PORT_def)
  show ?thesis
  proof (cases "?q \<in> fst ` set ps")
    case True
    then show ?thesis using normal d' d(2) s(3) by (auto simp: ps'_def add_part_def published_def events_def)
  next
    case False
    obtain i d2 where add: "AddMsgToDB env ?x ?s = Ok (True, ?x\<lparr>ri_dataBaseId := i\<rparr>) (?s\<lparr>store := d2\<rparr>)"
        "rows d2 = rows d @ [(page_values (slotId env) ?x)\<lparr>row_id := i\<rparr>]"
      using PersistInsert_table [OF tab, of "page_values (slotId env) ?x" ?s] by (auto simp: AddMsgToDB_def op_simps)
    have ps': "ps' = ps @ [(?q, rawPdu m)]" using False by (simp add: ps'_def add_part_def)
    have p2: "parts_in rows a r n d2 = ps'"
      using d' m'(3-5) part_of_row [of i "slotId env" ?x]
      by (simp add: parts_in_def page_rows_def add(2) ps' part_def page_values_def)
    have start: "set (map row_start (page_rows rows a r n d2)) \<subseteq> insert (scTimestamp m) (set (map row_start (page_rows rows a r n (store s))))"
      using d(2) by (auto simp: page_rows_def add(2) page_values_def)
    have ok: "parts_ok (unat n) ps'" using s(3) False m'(6-8) by (auto simp: ps' parts_ok_def)
    have nc: "\<not> complete (unat n) ps" using False m'(7,8) by (auto simp: complete_def)
    have own: "own_page a r n (?x\<lparr>ri_dataBaseId := i\<rparr>)" using m'(3-5) by (simp add: own_page_def)
    obtain t where t: "CombineMessagePart env wap (?x\<lparr>ri_dataBaseId := i\<rparr>) (?s\<lparr>store := d2\<rparr>) = Ok () t" "store t = d2"
        "published a r n t = published a r n s @ (if complete (unat n) ps' then [in_order (unat n) ps'] else [])"
      using CombineMessagePart_text [OF env own n(1,2,3), of "?s\<lparr>store := d2\<rparr>" ps' wap] p2 ok
      by (auto simp: published_def events_def)
    then show ?thesis using normal False add(1) p2 ok nc start by (simp add: op_simps)
  qed
qed

section \<open>Reassembly\<close>

text \<open>
  \<open>arrived rows a r n ps s\<close>: the pages \<open>ps\<close> of the message have arrived, each listed with the octets it had the first time.
  In between the handler may do anything that leaves the pages of this message in the table and does not publish it.
\<close>

inductive arrived ::
  "('d \<Rightarrow> page_row list) \<Rightarrow> bytes \<Rightarrow> u16 \<Rightarrow> u16 \<Rightarrow> (nat \<times> bytes) list \<Rightarrow> ('d, 'm) receiver \<Rightarrow> bool"
  for rows :: "'d \<Rightarrow> page_row list" and a :: bytes and r :: u16 and n :: u16 where
  none: "page_rows rows a r n (store s) = [] \<Longrightarrow> published a r n s = [] \<Longrightarrow> arrived rows a r n [] s"
| page: "arrived rows a r n ps s \<Longrightarrow> can_receive (env :: 'd receive_env) rows \<Longrightarrow> in_time env (page_rows rows a r n (store s)) \<Longrightarrow>
    page_of a r n m c \<Longrightarrow> HandleSmsByType env wap (Some m) s = Ok k t \<Longrightarrow>
    arrived rows a r n (add_part (unat (cc_seqNum c)) (rawPdu m) ps) t"
| between: "arrived rows a r n ps s \<Longrightarrow> page_rows rows a r n (store t) = page_rows rows a r n (store s) \<Longrightarrow>
    published a r n t = published a r n s \<Longrightarrow> arrived rows a r n ps t"

lemma arrived_parts:
  assumes "arrived rows a r n ps s" "unat n < 128" "2 \<le> unat n" "\<not> auto_reg a"
  shows "parts_in rows a r n (store s) = ps \<and> parts_ok (unat n) ps \<and>
    published a r n s = (if complete (unat n) ps then [in_order (unat n) ps] else [])"
  using assms(1)
proof (induction rule: arrived.induct)
  case (none s)
  then show ?case using assms(3) by (simp add: parts_in_def parts_ok_def complete_def)
next
  case (page ps s env m c wap k t)
  let ?ps = "add_part (unat (cc_seqNum c)) (rawPdu m) ps"
  have "in_order (unat n) ?ps = in_order (unat n) ps" "complete (unat n) ?ps" if "complete (unat n) ps"
    using that page.hyps(4) by (auto simp: add_part_def complete_def page_of_def)
  then show ?case using page_arrives [OF page.hyps(2,4) assms(2-4) page.hyps(3), of ps wap] page.IH page.hyps(5)
    by (cases "complete (unat n) ps") auto
next
  case (between ps s t)
  then show ?case by (simp add: parts_in_def)
qed

text \<open>
  C7. Pages of a long message are combined. A text of 2 to 127 pages arrives page by page, in any order, pages possibly
  repeated, with other messages and events in between, at any times before the pages expire. Then each page is
  acknowledged, the message is published exactly once, namely when its last missing page arrives, and what is published are the
  octets of the pages in the order of their numbers.
\<close>

theorem message_reassembled:
  fixes env :: "'d receive_env"
  assumes "arrived rows a r n ps s" "page_of a r n m c" "unat n < 128" "2 \<le> unat n" "\<not> auto_reg a"
    and "can_receive env rows" "in_time env (page_rows rows a r n (store s))"
  defines "ps' \<equiv> add_part (unat (cc_seqNum c)) (rawPdu m) ps"
  shows "\<exists>t. HandleSmsByType env wap (Some m) s = Ok SMS_ACK_RESULT_OK t \<and> arrived rows a r n ps' t \<and>
    published a r n s = (if complete (unat n) ps then [in_order (unat n) ps] else []) \<and>
    published a r n t = (if complete (unat n) ps' then [in_order (unat n) ps'] else [])"
proof -
  note s = arrived_parts [OF assms(1,3-5)]
  obtain t where t: "HandleSmsByType env wap (Some m) s = Ok SMS_ACK_RESULT_OK t"
    using page_arrives [OF assms(6,2,3-5,7)] s by blast
  then have t': "arrived rows a r n ps' t" unfolding ps'_def by (rule page [OF assms(1,6,7,2)])
  show ?thesis using t t' s arrived_parts [OF t' assms(3-5)] by blast
qed

text \<open>A table that is a list of rows, and messages of two pages, for examples.\<close>

definition list_share :: "page_row list datashare" where
  "list_share = \<lparr>ds_helper = (\<lambda>_. True),
     ds_insert = (\<lambda>w d. (int (length d) + 1, d @ [w\<lparr>row_id := int (length d) + 1\<rparr>])),
     ds_query = (\<lambda>p d. Some (filter (row_matches p) d)), ds_delete = (\<lambda>p d. (0, filter (\<lambda>w. \<not> row_matches p w) d))\<rparr>"

definition receive_example :: "page_row list receive_env" where
  "receive_example = \<lparr>env_iconv = (\<lambda>_ _. None), env_wsize = 8, env_timezone = 0, env_now = 1000000, slotId = 0, sms_disabled = False,
     capable_param = None, expire_days = [0x33], is_valid_dec = (\<lambda>_. True), ds = list_share, ds_ready = (\<lambda>_. True),
     satellite_enabled = False, power_support = False, lock_available = True, power_service = True\<rparr>"

definition empty_receiver :: "(page_row list, GsmSmsMessage) receiver" where
  "empty_receiver = \<lparr>store = [], smsBaseMessageQueue = [], alreadySendEvent = False, reconnectDataShareCount = 0,
     smsRunningLock = False, smsRunningLockCount = 0, smsLockSerialNum = 0, r_outs = []\<rparr>"

definition page_message :: "u8 \<Rightarrow> bytes \<Rightarrow> GsmSmsMessage" where
  "page_message q pdu = new_message\<lparr>originatingAddress := [0x31], rawPdu := pdu, scTimestamp := 900000,
     smsUserData := zero_ud\<lparr>headerCnt := 1, ud_header := [\<lparr>udhType = UDH_CONCAT_8BIT,
       udh = UdhConcat8bit \<lparr>c8_msgRef = 7, c8_totalSeg = 2, c8_seqNum = q\<rparr>\<rparr>]\<rparr>\<rparr>"

definition page_concat :: "u8 \<Rightarrow> SmsConcat" where
  "page_concat q = \<lparr>cc_msgRef = 7, cc_seqNum = ucast q, cc_totalSeg = 2, cc_is8Bits = True\<rparr>"

lemma list_share_table: "page_table list_share (\<lambda>d. d)"
  by (simp add: page_table_def list_share_def)

lemma receive_example_ok: "can_receive receive_example (\<lambda>d. d)" "stoi (expire_value receive_example) = Some 3"
  using list_share_table
  by (simp_all add: can_receive_def receive_example_def CheckSmsCapable_def QueryParamBoolean_def expire_value_def stoi_def is_space_def
      Let_def iconv_bounded_def)

lemma page_message_ok: "q \<in> {1, 2} \<Longrightarrow> pdu \<noteq> [] \<Longrightarrow> page_of [0x31] 7 2 (page_message q pdu) (page_concat q)"
  by (auto simp: page_of_def concat_text_def page_message_def page_concat_def scan_headers_def op_simps concat_of_def port_of_def
      udh_concat8_def IsSpecialMessage_def GetIsTypeZeroInd_def GetIsSIMDataTypeDownload_def new_message_def)

theorem message_reassembled_witness:
  "\<exists>s t. HandleSmsByType receive_example (\<lambda>_ _. ret True) (Some (page_message 2 [0xBB])) empty_receiver = Ok SMS_ACK_RESULT_OK s \<and>
    HandleSmsByType receive_example (\<lambda>_ _. ret True) (Some (page_message 1 [0xAA])) s = Ok SMS_ACK_RESULT_OK t \<and>
    published [0x31] 7 2 s = [] \<and> published [0x31] 7 2 t = [[StringToHex [0xAA], StringToHex [0xBB]]]"
proof -
  let ?wap = "\<lambda>_ _. ret True :: (page_row list, GsmSmsMessage, bool) rop"
  let ?two = "page_message 2 [0xBB]" and ?one = "page_message 1 [0xAA]"
  note ok = page_message_ok [of 2 "[0xBB]", simplified] page_message_ok [of 1 "[0xAA]", simplified]
  have a: "\<not> auto_reg [0x31]" by (simp add: auto_reg_def CT_SMSC_def CT_SMSC_86_def CT_SMSC_INTERNATION_86_def)
  have 0: "arrived (\<lambda>d. d) [0x31] 7 2 [] empty_receiver" "in_time receive_example (page_rows (\<lambda>d. d) [0x31] 7 2 (store empty_receiver))"
    by (auto intro: none simp: page_rows_def empty_receiver_def published_def events_def in_time_def)
  have p: "add_part (unat (cc_seqNum (page_concat 2))) (rawPdu ?two) [] = [(2, [0xBB])]"
      "add_part (unat (cc_seqNum (page_concat 1))) (rawPdu ?one) [(2, [0xBB])] = [(2, [0xBB]), (1, [0xAA])]" "scTimestamp ?two = 900000"
    by (simp_all add: add_part_def page_concat_def page_message_def)
  have c: "\<not> complete 2 [(2, [0xBB])]" "complete 2 [(2, [0xBB]), (1, [0xAA])]"
    by (auto simp: complete_def numeral_2_eq_2 atLeastAtMostSuc_conv)
  obtain s where s: "HandleSmsByType receive_example ?wap (Some ?two) empty_receiver = Ok SMS_ACK_RESULT_OK s"
      "arrived (\<lambda>d. d) [0x31] 7 2 [(2, [0xBB])] s" "published [0x31] 7 2 s = []"
    using message_reassembled [OF 0(1) ok(1) _ _ a receive_example_ok(1) 0(2), of ?wap] p c by auto
  have "in_time receive_example (page_rows (\<lambda>d. d) [0x31] 7 2 (store s))"
    using page_arrives [OF receive_example_ok(1) ok(1) _ _ a 0(2), of "[]" ?wap] s(1) p(3) receive_example_ok(2)
    by (auto simp: parts_in_def parts_ok_def page_rows_def empty_receiver_def in_time_def ONE_DAY_TOTAL_SECONDS_def receive_example_def)
  then obtain t where "HandleSmsByType receive_example ?wap (Some ?one) s = Ok SMS_ACK_RESULT_OK t"
      "published [0x31] 7 2 t = [in_order 2 [(2, [0xBB]), (1, [0xAA])]]"
    using message_reassembled [OF s(2) ok(2) _ _ a receive_example_ok(1), of ?wap] p c by auto
  with s show ?thesis by (auto simp: in_order_def upt_rec)
qed

text \<open>
  The pages found on arrival are counted in an \<^verbatim>\<open>int8_t\<close>, so a message of 128 to 255 pages, which the 8-bit concatenation header
  can announce, is not put together by the arrival of a page, whatever the table holds. The recovery after a restart counts in an
  \<^verbatim>\<open>int32_t\<close> and does publish it.
\<close>

lemma long_message_not_combined:
  assumes "128 \<le> unat (ri_msgCount x)"
  shows "\<exists>t. CombineMessagePart env wap x s = Ok () t \<and> r_outs t = r_outs s"
proof -
  have lt: "count_int8 k < 128" for k
    using signed_take_bit_int_less_exp [of 7 "int k"] by (simp add: count_int8_def signed_of_nat)
  have "int 128 \<le> int (unat (ri_msgCount x))" using assms by (simp only: of_nat_le_iff)
  then have "count_int8 k \<noteq> int (unat (ri_msgCount x))" for k using lt [of k] by linarith
  moreover have "\<not> IsSingleMsg x" using assms by (auto simp: IsSingleMsg_def)
  ultimately show ?thesis
    by (auto simp: CombineMessagePart_def CombineMultiPageMessage_def Let_def PersistQuery_def PersistDelete_def DeleteMessageFormDb_def
        op_simps split: option.splits prod.splits simp del: of_nat_unat)
qed

end
