(* ===== verification/Sms_Receive_Recovery.thy ===== *)
theory Sms_Receive_Recovery
  imports Sms_Reassembly
begin

text \<open>Recovery after a restart: what \<^verbatim>\<open>SmsReceiveReliabilityProcessing\<close> publishes.\<close>

section \<open>Recovery\<close>

lemma wap_pages_returns:
  assumes "iconv_bounded (env_iconv env)" "length places = MAX_SEGMENT_NUM"
  shows "\<exists>k ps ys. wap_pages env ref n places xs = Some (k, ps, ys) \<and> length ps = MAX_SEGMENT_NUM"
  using assms(2)
proof (induction xs arbitrary: n places)
  case (Cons x xs)
  obtain r where r: "message_of env (ri_pdu x) = Some r"
    using CreateMessage_returns [of "sms_env.truncate env" "StringToHex (ri_pdu x)" "()"] assms(1) by (auto simp: sms_env.defs message_of_def)
  have "wap_pages env ref n places xs \<noteq> None" for n using Cons.IH [OF Cons.prems, of n] by auto
  then show ?case using Cons.IH Cons.prems r
    by (auto simp: Let_def seq_valid_def split: option.splits)
qed simp

lemma sms_pages_other:
  assumes "length places = cnt"
  shows "\<exists>k ps ys. sms_pages ref cnt n places xs = Some (k, ps, ys) \<and> length ps = cnt \<and>
    (\<forall>r. r \<noteq> ref \<longrightarrow> filter (\<lambda>x. ri_msgRefId x = r) ys = filter (\<lambda>x. ri_msgRefId x = r) xs)"
  using assms
proof (induction xs arbitrary: n places)
  case (Cons x xs)
  show ?case
  proof (cases "ri_msgRefId x = ref \<and> seq_valid cnt x")
    case True
    then show ?thesis using Cons.IH [of "places[unat (ri_msgSeqId x) - 1 := StringToHex (ri_pdu x)]" "n + 1"] Cons.prems
      by (auto simp: seq_valid_def)
  next
    case False
    then show ?thesis using Cons.IH [OF Cons.prems, of n] Cons.prems by auto
  qed
qed simp

lemma wap_pages_other:
  "wap_pages env ref n places xs = Some (k, ps, ys) \<Longrightarrow> r \<noteq> ref \<Longrightarrow>
    filter (\<lambda>x. ri_msgRefId x = r) ys = filter (\<lambda>x. ri_msgRefId x = r) xs"
  by (induction xs arbitrary: n places k ps ys) (auto simp: Let_def split: if_splits option.splits)

lemma sms_pages_own:
  assumes "\<forall>x \<in> set xs. ri_msgRefId x = ref \<longrightarrow> seq_valid (length places) x"
  shows "sms_pages ref (length places) n places xs = Some (n + length (filter (\<lambda>x. ri_msgRefId x = ref) xs),
    fill (map part (filter (\<lambda>x. ri_msgRefId x = ref) xs)) places, filter (\<lambda>x. ri_msgRefId x \<noteq> ref) xs)"
  using assms
proof (induction xs arbitrary: n places)
  case (Cons x xs)
  show ?case
  proof (cases "ri_msgRefId x = ref")
    case True
    then have v: "seq_valid (length places) x" using Cons.prems by simp
    then have "unat (ri_msgSeqId x) - 1 < length places" unfolding seq_valid_def by linarith
    with v show ?thesis using True Cons.IH [of "places[unat (ri_msgSeqId x) - 1 := StringToHex (ri_pdu x)]" "n + 1"] Cons.prems
      by (simp add: seq_valid_def fill_def part_def Suc_le_eq)
  next
    case False
    then show ?thesis using Cons.IH [of places n] Cons.prems by simp
  qed
qed (simp add: fill_def)

lemma SendBroadcast_published:
  "\<exists>t. SendBroadcast D x pdus s = Ok () t \<and> published a r n t = published a r n s @
    (if ri_originatingAddress x = a \<and> ri_msgRefId x = r \<and> ri_msgCount x = n then [filter (\<lambda>p. p \<noteq> []) pdus] else [])"
  by (auto simp: SendBroadcast_def DeleteMessageFormDb_def PersistDelete_def put_out_def op_simps published_def events_def
      split: prod.splits)

lemma recovered_page_simps [simp]:
  "ri_originatingAddress (recovered_page x) = ri_originatingAddress x" "ri_msgRefId (recovered_page x) = ri_msgRefId x"
  "ri_msgCount (recovered_page x) = ri_msgCount x"
  by (simp_all add: recovered_page_def page_of_many_def)

lemma returns_recovered_broadcast:
  assumes "ri_msgRefId x \<noteq> r"
  shows "returns (\<lambda>s. published a r n s = P) (ReadySendSmsBroadcast D x pdus)"
proof (rule returnsI)
  fix s :: "('a, 'b) receiver"
  assume "published a r n s = P"
  then show "\<exists>u t. ReadySendSmsBroadcast D x pdus s = Ok u t \<and> published a r n t = P"
    using SendBroadcast_published [of D "recovered_page x" pdus s a r n] assms by (auto simp: ReadySendSmsBroadcast_def)
qed

text \<open>Pages of other references leave the message alone.\<close>

lemma recover_pages_other:
  assumes "filter (\<lambda>x. ri_msgRefId x = r) xs = []"
  shows "returns (\<lambda>s :: ('d, 'm) receiver. published a r n s = P) (recover_pages D xs)"
  using assms
proof (induction D xs rule: recover_pages.induct)
  case (2 D x xs)
  have x: "ri_msgRefId x \<noteq> r" using "2.prems" by (auto split: if_splits)
  show ?case
  proof (cases "ri_msgCount x = 0 \<or> ri_msgCount x = 1")
    case True
    then show ?thesis using 2 x by (auto intro!: returns_intros returns_recovered_broadcast)
  next
    case False
    obtain k pdus ys where ys: "GetSmsUserDataMultipage x (unat (ri_msgCount x)) xs = Some (k, pdus, ys)" "length pdus = unat (ri_msgCount x)"
        "filter (\<lambda>x. ri_msgRefId x = r) ys = filter (\<lambda>x. ri_msgRefId x = r) xs"
    proof (cases "seq_valid (unat (ri_msgCount x)) x")
      case True
      then show ?thesis using that sms_pages_other [of "(replicate (unat (ri_msgCount x)) [])[unat (ri_msgSeqId x) - 1 := StringToHex (ri_pdu x)]"
          "unat (ri_msgCount x)" "ri_msgRefId x" 1 xs] x by (auto simp: GetSmsUserDataMultipage_def)
    qed (use that in \<open>simp add: GetSmsUserDataMultipage_def\<close>)
    have "0 < unat (ri_msgCount x)" using False by (simp add: unat_gt_0)
    then have rd: "returns (\<lambda>s :: ('d, 'm) receiver. published a r n s = P) (rd_at pdus 0)" using ys(2) by (simp add: rd_at_def returns_ret)
    have IH: "returns (\<lambda>s :: ('d, 'm) receiver. published a r n s = P) (recover_pages D ys)"
      using "2.IH"(3) [of "(k, pdus, ys)" k "(pdus, ys)" pdus ys] False ys(1,3) "2.prems" x by simp
    then show ?thesis using False ys(1) by (auto intro!: returns_intros rd returns_recovered_broadcast [OF x])
  qed
qed (simp add: returns_ret)

definition pages_ref :: "u16 \<Rightarrow> SmsReceiveIndexer list \<Rightarrow> SmsReceiveIndexer list" where
  "pages_ref r = filter (\<lambda>x. ri_msgRefId x = r)"

text \<open>The pages with reference \<open>r\<close> are those of one message, all of them.\<close>

definition whole_message :: "bytes \<Rightarrow> u16 \<Rightarrow> u16 \<Rightarrow> SmsReceiveIndexer list \<Rightarrow> bool" where
  "whole_message a r n xs \<longleftrightarrow> 2 \<le> unat n \<and> parts_ok (unat n) (map part (pages_ref r xs)) \<and> complete (unat n) (map part (pages_ref r xs)) \<and>
     (\<forall>x \<in> set (pages_ref r xs). ri_originatingAddress x = a \<and> ri_msgCount x = n \<and> \<not> GetIsWapPushMsg x)"

lemma recover_pages_first:
  assumes "whole_message a r n (x # xs)" "ri_msgRefId x = r"
  shows "\<exists>t. recover_pages D (x # xs) s = Ok () t \<and>
    published a r n t = published a r n s @ [in_order (unat n) (map part (pages_ref r (x # xs)))]"
proof -
  let ?ps = "map part (pages_ref r (x # xs))" and ?vs = "filter (\<lambda>x. ri_msgRefId x = r) xs"
  have w: "2 \<le> unat n" "parts_ok (unat n) ?ps" "complete (unat n) ?ps" "ri_originatingAddress x = a" "ri_msgCount x = n"
    using assms by (auto simp: whole_message_def pages_ref_def)
  have n: "n \<noteq> 0" "n \<noteq> 1" using w(1) by auto
  have ps: "?ps = part x # map part ?vs" using assms(2) by (simp add: pages_ref_def)
  have valid: "seq_valid (unat n) v" if "v = x \<or> v \<in> set ?vs" for v
    using w(2) that assms(2) by (auto simp: parts_ok_def part_def seq_valid_def pages_ref_def)
  have len: "length ?ps = unat n" using complete_length [OF w(2)] w(3) by simp
  let ?places = "(replicate (unat n) ([] :: bytes))[unat (ri_msgSeqId x) - 1 := StringToHex (ri_pdu x)]"
  have "sms_pages r (length ?places) 1 ?places xs = Some (1 + length ?vs, fill (map part ?vs) ?places, filter (\<lambda>x. ri_msgRefId x \<noteq> r) xs)"
    using valid by (intro sms_pages_own) simp
  moreover have "fill (map part ?vs) ?places = in_order (unat n) ?ps"
    using fill_complete [OF w(2,3)] unfolding ps by (simp add: fill_def part_def)
  ultimately have multi: "GetSmsUserDataMultipage x (unat n) xs = Some (unat n, in_order (unat n) ?ps, filter (\<lambda>x. ri_msgRefId x \<noteq> r) xs)"
    using len valid assms(2) ps by (simp add: GetSmsUserDataMultipage_def)
  have zero: "0 < length (in_order (unat n) ?ps)" "0 < unat n" using w(1) by (simp_all add: in_order_def)
  obtain u where u: "ReadySendSmsBroadcast D x (in_order (unat n) ?ps) s = Ok () u"
      "published a r n u = published a r n s @ [in_order (unat n) ?ps]"
    using SendBroadcast_published [of D "recovered_page x" "in_order (unat n) ?ps" s a r n] w(4,5) assms(2)
      in_order_filter [OF w(2,3)]
    by (auto simp: ReadySendSmsBroadcast_def)
  obtain t where "recover_pages D (filter (\<lambda>x. ri_msgRefId x \<noteq> r) xs) u = Ok () t" "published a r n t = published a r n u"
    using returnsD [OF recover_pages_other [of r "filter (\<lambda>x. ri_msgRefId x \<noteq> r) xs" a n "published a r n u" D], of u] by auto
  then show ?thesis using multi n w(5) zero(1) in_order_full [OF w(2,3) zero(2)] u
    by (simp add: seq_def bnd_def rd_at_def ret_def)
qed

lemma recover_pages_own:
  assumes "whole_message a r n xs"
  shows "\<exists>t. recover_pages D xs s = Ok () t \<and> published a r n t = published a r n s @ [in_order (unat n) (map part (pages_ref r xs))]"
  using assms
proof (induction D xs arbitrary: s rule: recover_pages.induct)
  case (1 D)
  then show ?case by (auto simp: whole_message_def complete_def pages_ref_def)
next
  case (2 D x xs)
  show ?case
  proof (cases "ri_msgRefId x = r")
    case True
    then show ?thesis using recover_pages_first [OF "2.prems"] by blast
  next
    case False
    then have same: "pages_ref r (x # xs) = pages_ref r xs" "whole_message a r n xs" using "2.prems" by (simp_all add: whole_message_def pages_ref_def)
    have cast: "\<exists>u. ReadySendSmsBroadcast D x pdus s = Ok () u \<and> published a r n u = published a r n s" for pdus and s :: "('a, 'b) receiver"
      using SendBroadcast_published [of D "recovered_page x" pdus s a r n] False by (simp add: ReadySendSmsBroadcast_def)
    consider (none) "ri_msgCount x = 0" | (one) "ri_msgCount x = 1" | (many) "ri_msgCount x \<noteq> 0" "ri_msgCount x \<noteq> 1" by blast
    then show ?thesis
    proof cases
      case none
      then show ?thesis using "2.IH"(1) same by simp
    next
      case one
      obtain u where "(if StringToHex (ri_pdu x) \<noteq> [] then ReadySendSmsBroadcast D x [StringToHex (ri_pdu x)] else ret ()) s = Ok () u"
          "published a r n u = published a r n s"
        using cast by (cases "StringToHex (ri_pdu x) = []") (auto simp: ret_def)
      then show ?thesis using one "2.IH"(2) [of u] same by (auto simp: seq_def bnd_def)
    next
      case many
      let ?m = "unat (ri_msgCount x)"
      obtain k pdus ys where ys: "GetSmsUserDataMultipage x ?m xs = Some (k, pdus, ys)" "length pdus = ?m" "pages_ref r ys = pages_ref r xs"
      proof (cases "seq_valid ?m x")
        case True
        then show ?thesis using that sms_pages_other [of "(replicate ?m [])[unat (ri_msgSeqId x) - 1 := StringToHex (ri_pdu x)]" ?m "ri_msgRefId x" 1 xs] False
          by (auto simp: GetSmsUserDataMultipage_def pages_ref_def)
      qed (use that in \<open>simp add: GetSmsUserDataMultipage_def pages_ref_def\<close>)
      then have ys': "whole_message a r n ys" using same(2) by (simp add: whole_message_def)
      have "0 < length pdus" using many ys(2) by (simp add: unat_gt_0)
      then obtain u where u: "(if ?m = k then bnd (rd_at pdus 0) (\<lambda>p. if p \<noteq> [] then ReadySendSmsBroadcast D x pdus else ret ()) else ret ()) s = Ok () u"
          "published a r n u = published a r n s"
        using cast [of pdus s] by (cases "?m = k"; cases "pdus ! 0 = []") (auto simp: op_simps)
      then show ?thesis using many ys ys' same(1) "2.IH"(3) [of "(k, pdus, ys)" k "(pdus, ys)" pdus ys u] by (simp add: seq_def bnd_def)
    qed
  qed
qed

lemma GetWapPushUserDataMultipage_other:
  assumes "iconv_bounded (env_iconv env)" "ri_msgRefId x \<noteq> r"
  shows "\<exists>k ps ys. GetWapPushUserDataMultipage env x (replicate MAX_SEGMENT_NUM []) xs = Some (k, ps, ys) \<and> pages_ref r ys = pages_ref r xs"
proof -
  obtain q where q: "message_of env (ri_pdu x) = Some q"
    using CreateMessage_returns [of "sms_env.truncate env" "StringToHex (ri_pdu x)" "()"] assms(1) by (auto simp: sms_env.defs message_of_def)
  have "\<exists>k ps ys. wap_pages env (ri_msgRefId x) 1 places xs = Some (k, ps, ys) \<and> pages_ref r ys = pages_ref r xs"
    if "length places = MAX_SEGMENT_NUM" for places
    using wap_pages_returns [OF assms(1) that, of "ri_msgRefId x" 1 xs] wap_pages_other [where r = r] assms(2) by (fastforce simp: pages_ref_def)
  then show ?thesis using q by (auto simp: GetWapPushUserDataMultipage_def seq_valid_def split: option.splits)
qed

lemma CheckUnReceiveWapPush_other:
  assumes ic: "iconv_bounded (env_iconv env)" and wap: "\<And>x raw P. returns (\<lambda>s. published a r n s = P) (wap x raw)"
    and "\<forall>x \<in> set (pages_ref r xs). \<not> GetIsWapPushMsg x"
  shows "\<exists>ys t. CheckUnReceiveWapPush env wap xs s = Ok ys t \<and> pages_ref r ys = pages_ref r xs \<and> published a r n t = published a r n s"
  using assms(3)
proof (induction "length xs" arbitrary: xs s rule: less_induct)
  case less
  have decode: "\<exists>u. (if b then ReadyDecodeWapPushUserData wap x places else ret ()) s = Ok () u \<and> published a r n u = published a r n s" for b x places s
    using returnsD [OF returns_ignore [OF wap, of "published a r n s"], of s] by (auto simp: ReadyDecodeWapPushUserData_def ret_def)
  show ?case
  proof (cases xs)
    case (Cons x zs)
    show ?thesis
    proof (cases "GetIsWapPushMsg x")
      case False
      obtain ys t where "CheckUnReceiveWapPush env wap zs s = Ok ys t" "pages_ref r ys = pages_ref r zs" "published a r n t = published a r n s"
        using less.hyps [of zs s] less.prems Cons by (auto simp: pages_ref_def)
      then show ?thesis using Cons False by (auto simp: bnd_def ret_def pages_ref_def)
    next
      case True
      then have x: "ri_msgRefId x \<noteq> r" using less.prems Cons by (auto simp: pages_ref_def)
      obtain q where "message_of env (ri_pdu x) = Some q"
        using CreateMessage_returns [of "sms_env.truncate env" "StringToHex (ri_pdu x)" "()"] ic by (auto simp: sms_env.defs message_of_def)
      then obtain places where one: "GetWapPushUserDataSinglePage env x (replicate MAX_SEGMENT_NUM []) = Some places"
        by (simp add: GetWapPushUserDataSinglePage_def)
      obtain k ps ys where many: "GetWapPushUserDataMultipage env x (replicate MAX_SEGMENT_NUM []) zs = Some (k, ps, ys)" "pages_ref r ys = pages_ref r zs"
        using GetWapPushUserDataMultipage_other [OF ic x] by blast
      have len: "length ys < length xs" "length zs < length xs" using GetWapPushUserDataMultipage_length [OF many(1)] Cons by simp_all
      have rest: "pages_ref r xs = pages_ref r zs" using x Cons by (simp add: pages_ref_def)
      show ?thesis
      proof (cases "ri_msgCount x = 1")
        case one': True
        obtain u where "(if places ! 0 \<noteq> [] then ReadyDecodeWapPushUserData wap x places else ret ()) s = Ok () u" "published a r n u = published a r n s"
          using decode by blast
        then show ?thesis using less.hyps [OF len(2), of u] less.prems Cons True one one' rest by (auto simp: seq_def bnd_def)
      next
        case many': False
        obtain u where "(if unat (ri_msgCount x) = k \<and> ps ! 0 \<noteq> [] then ReadyDecodeWapPushUserData wap x ps else ret ()) s = Ok () u"
            "published a r n u = published a r n s"
          using decode by blast
        then show ?thesis using less.hyps [OF len(1), of u] less.prems Cons True many many' rest by (auto simp: seq_def bnd_def)
      qed
    qed
  qed (simp add: ret_def)
qed

text \<open>The pages of a slot that can be messages at all.\<close>

definition stored_pages :: "('d, 'e) receive_env_scheme \<Rightarrow> page_row list \<Rightarrow> SmsReceiveIndexer list" where
  "stored_pages env ws = filter (\<lambda>x. ri_pdu x \<noteq> [] \<and> length (ri_pdu x) \<le> MAX_TPDU_DATA_LEN)
     (map ResultSetConvertToIndexer (filter (\<lambda>w. row_slot w = slotId env) ws))"

text \<open>
  C9. Recovery after a restart. All pages of a text message are in the table, in any order and among pages of any other messages with
  other references, which may be invalid. Then recovery comes to its end and publishes the message once, its pages
  in the order of their numbers.
\<close>

theorem recovery_publishes:
  assumes "page_table (ds env) rows" "iconv_bounded (env_iconv env)"
    and "\<forall>x raw P. returns (\<lambda>s. published a r n s = P) (wap x raw)"
    and "whole_message a r n (stored_pages env (rows (store s)))"
  shows "\<exists>t. SmsReceiveReliabilityProcessing env wap s = Ok () t \<and>
    published a r n t = published a r n s @ [in_order (unat n) (map part (pages_ref r (stored_pages env (rows (store s)))))]"
proof -
  let ?xs = "stored_pages env (rows (store s))"
  have "row_matches (OfSlot (slotId env)) = (\<lambda>w. row_slot w = slotId env)" by (rule ext) simp
  then have pages: "RemoveBlockedSms env s = Ok ?xs s"
    by (simp add: RemoveBlockedSms_def QueryBlockPhoneNumber_def PersistQuery_table [OF assms(1)] bnd_def ret_def stored_pages_def)
  obtain ys u where ys: "CheckUnReceiveWapPush env wap ?xs s = Ok ys u" "pages_ref r ys = pages_ref r ?xs" "published a r n u = published a r n s"
    using CheckUnReceiveWapPush_other [OF assms(2), of a r n wap ?xs s] assms(3,4) by (auto simp: whole_message_def)
  then have "whole_message a r n ys" using assms(4) by (simp add: whole_message_def)
  from recover_pages_own [OF this, of "ds env" u] ys pages show ?thesis
    by (auto simp: SmsReceiveReliabilityProcessing_def bnd_def)
qed

definition stored_row :: "int \<Rightarrow> bytes \<Rightarrow> int \<Rightarrow> page_row" where
  "stored_row q a p = \<lparr>row_id = q, row_slot = 0, row_receiver = a, row_sender = a, row_start = 5, row_end = 5,
     row_pdu = StringToHex [word_of_int p], row_format = 1, row_port = - 1, row_ref = 7, row_size = 2, row_index = q\<rparr>"

theorem recovery_publishes_witness:
  "\<exists>t. SmsReceiveReliabilityProcessing receive_example (\<lambda>_ _. ret True)
      (empty_receiver\<lparr>store := [stored_row 2 [0x31] 0xBB, stored_row 1 [0x31] 0xAA]\<rparr>) = Ok () t \<and>
    published [0x31] 7 2 t = [[StringToHex [0xAA], StringToHex [0xBB]]]"
proof -
  let ?s = "empty_receiver\<lparr>store := [stored_row 2 [0x31] 0xBB, stored_row 1 [0x31] 0xAA]\<rparr>"
  have c: "complete 2 [(2, p), (1, q)]" for p q by (auto simp: complete_def numeral_2_eq_2 atLeastAtMostSuc_conv)
  have pages: "map part (pages_ref 7 (stored_pages receive_example (store ?s))) = [(2, [0xBB]), (1, [0xAA])]"
      "\<forall>x \<in> set (pages_ref 7 (stored_pages receive_example (store ?s))). ri_originatingAddress x = [0x31] \<and> ri_msgCount x = 2 \<and> ri_destPort x = - 1"
    by (simp_all add: pages_ref_def stored_pages_def receive_example_def stored_row_def part_def ResultSetConvertToIndexer_def
        ConvertStringToIndexer_def ConvertIntToIndexer_def hex_inverse MAX_TPDU_DATA_LEN_def)
  have w: "whole_message [0x31] 7 2 (stored_pages receive_example (store ?s))"
    unfolding whole_message_def pages(1) using pages(2) c by (auto simp: parts_ok_def GetIsWapPushMsg_def WAP_PUSH_PORT_def)
  have "page_table (ds receive_example) (\<lambda>d. d)" "iconv_bounded (env_iconv receive_example)"
    using receive_example_ok(1) by (simp_all add: can_receive_def)
  from recovery_publishes [OF this _ w, of "\<lambda>_ _. ret True"]
  have "\<exists>t. SmsReceiveReliabilityProcessing receive_example (\<lambda>_ _. ret True) ?s = Ok () t \<and>
      published [0x31] 7 2 t = published [0x31] 7 2 ?s @ [in_order (unat (2 :: u16)) [(2, [0xBB]), (1, [0xAA])]]"
    unfolding pages(1) by (simp add: returns_ret)
  moreover have "published [0x31] 7 2 ?s = []" by (simp add: published_def events_def empty_receiver_def)
  ultimately show ?thesis by (simp add: in_order_def upt_rec)
qed

text \<open>
  C40. Recovery mixes senders: it collects pages by the reference number alone. The first page of a message from one sender and
  the second page of a message from another sender, with the same reference number, are published as one message of
  the first sender.
\<close>

theorem recovery_mixes_senders:
  assumes "ri_msgRefId x = r" "ri_msgRefId y = r" "ri_msgCount x = 2" "ri_msgSeqId x = 1" "ri_msgSeqId y = 2"
    and "ri_originatingAddress x = a" "ri_originatingAddress y \<noteq> a" "ri_pdu x \<noteq> []" "ri_pdu y \<noteq> []"
  shows "\<exists>t. recover_pages D [x, y] s = Ok () t \<and> published a r 2 t = published a r 2 s @ [[StringToHex (ri_pdu x), StringToHex (ri_pdu y)]]"
proof -
  have two: "replicate 2 ([] :: bytes) = [[], []]" by (simp add: numeral_2_eq_2)
  have "GetSmsUserDataMultipage x 2 [y] = Some (2, [StringToHex (ri_pdu x), StringToHex (ri_pdu y)], [])"
    using assms two by (simp add: GetSmsUserDataMultipage_def seq_valid_def)
  moreover have "StringToHex (ri_pdu x) \<noteq> []" "StringToHex (ri_pdu y) \<noteq> []"
    using assms(8,9) hex_inverse(1) [of "ri_pdu x"] hex_inverse(1) [of "ri_pdu y"] by auto
  ultimately show ?thesis
    using assms SendBroadcast_published [of D "recovered_page x" "[StringToHex (ri_pdu x), StringToHex (ri_pdu y)]" s a r 2]
    by (auto simp: op_simps ReadySendSmsBroadcast_def)
qed

theorem recovery_mixes_senders_witness:
  "\<exists>t. recover_pages list_share [empty_page\<lparr>ri_msgRefId := 7, ri_msgCount := 2, ri_msgSeqId := 1, ri_originatingAddress := [0x31], ri_pdu := [0xAA]\<rparr>,
      empty_page\<lparr>ri_msgRefId := 7, ri_msgCount := 2, ri_msgSeqId := 2, ri_originatingAddress := [0x32], ri_pdu := [0xBB]\<rparr>] empty_receiver = Ok () t \<and>
    published [0x31] 7 2 t = published [0x31] 7 2 empty_receiver @ [[StringToHex [0xAA], StringToHex [0xBB]]]"
  using recovery_mixes_senders [of "empty_page\<lparr>ri_msgRefId := 7, ri_msgCount := 2, ri_msgSeqId := 1, ri_originatingAddress := [0x31], ri_pdu := [0xAA]\<rparr>" 7
      "empty_page\<lparr>ri_msgRefId := 7, ri_msgCount := 2, ri_msgSeqId := 2, ri_originatingAddress := [0x32], ri_pdu := [0xBB]\<rparr>" "[0x31]" list_share empty_receiver]
  by simp

end
