(* ===== verification/Sms_Receive_Acks.thy ===== *)
theory Sms_Receive_Acks
  imports Sms_Reassembly Gsm_Tpdu_Layout
begin

text \<open>
  What a received message leads to, whatever the data share service does: one acknowledgement, or a place in the queue.
\<close>

section \<open>Acknowledgements\<close>

definition is_ack :: "receive_out \<Rightarrow> bool" where
  "is_ack x \<longleftrightarrow> (case x of SmsAck _ _ \<Rightarrow> True | SatelliteSmsAck _ _ \<Rightarrow> True | _ \<Rightarrow> False)"

definition acks :: "('d, 'm) receiver \<Rightarrow> receive_out list" where
  "acks s = filter is_ack (r_outs s)"

lemma not_ack [simp]:
  "\<not> is_ack (PublishSms e)" "\<not> is_ack Lock" "\<not> is_ack UnLock" "\<not> is_ack (SendEvent i n)" "\<not> is_ack (RemoveEvent i)"
  "\<not> is_ack (PublishCb b w)" "\<not> is_ack (StatusReport r p)"
  by (simp_all add: is_ack_def)

lemma acks_upd [simp]:
  "acks (s\<lparr>store := d\<rparr>) = acks s" "acks (s\<lparr>smsRunningLock := l\<rparr>) = acks s" "acks (s\<lparr>smsRunningLockCount := k\<rparr>) = acks s"
  "acks (s\<lparr>smsLockSerialNum := i\<rparr>) = acks s" "acks (s\<lparr>smsBaseMessageQueue := q\<rparr>) = acks s" "acks (s\<lparr>alreadySendEvent := b\<rparr>) = acks s"
  by (simp_all add: acks_def)

text \<open>A message that is not a WAP push; its page then has another port.\<close>

definition plain_message :: "GsmSmsMessage \<Rightarrow> bool" where
  "plain_message m \<longleftrightarrow> msg_data_ok m \<and> (\<forall>p m'. GetPortAddress m = Ok (Some p) m' \<longrightarrow> pa_destPort p \<noteq> WAP_PUSH_PORT)"

lemma message_page_plain:
  assumes "plain_message m"
  shows "\<exists>x m'. message_page m = Ok (Some x) m' \<and> \<not> GetIsWapPushMsg x \<and> msg_data_ok m'"
proof -
  have ok: "msg_data_ok m" using assms by (simp add: plain_message_def)
  obtain c p where c: "scan_headers concat_of m = Ok c m" and p: "scan_headers port_of m = Ok p m"
    using scan_headers_returns [OF ok, of concat_of] scan_headers_returns [OF ok, of port_of] header_kinds by metis
  have c': "GetConcatMsg m' = Ok c (m'\<lparr>smsConcat := c\<rparr>)" if "smsUserData m' = smsUserData m" for m' :: GsmSmsMessage
    using scan_headers_state [OF c that] by (simp add: GetConcatMsg_def op_simps)
  have p': "GetPortAddress m' = Ok p (m'\<lparr>portAddress := p\<rparr>)" if "smsUserData m' = smsUserData m" for m' :: GsmSmsMessage
    using scan_headers_state [OF p that] by (simp add: GetPortAddress_def op_simps)
  have port: "(case p of None \<Rightarrow> - 1 | Some a \<Rightarrow> pa_destPort a) \<noteq> WAP_PUSH_PORT"
    using assms p' [of m] by (auto simp: plain_message_def WAP_PUSH_PORT_def split: option.splits)
  have "msg_data_ok m'" if "smsUserData m' = smsUserData m" "smsWapPushUserData m' = smsWapPushUserData m"
      "bm_codingScheme m' = bm_codingScheme m" for m' using ok that by (simp add: msg_data_ok_def)
  then show ?thesis using c' p' port
    by (cases c; cases p) (simp_all add: message_page_def IsConcatMsg_def GetDestPort_def op_simps GetIsWapPushMsg_def page_of_many_def
        single_page_def)
qed

lemma CombineMultiPageMessage_plain:
  assumes "iconv_bounded (env_iconv env)" "\<not> GetIsWapPushMsg x"
  shows "\<exists>r d. CombineMultiPageMessage env x s = Ok r (s\<lparr>store := d\<rparr>) \<and> (\<forall>y pdus. r = Some (y, pdus) \<longrightarrow> \<not> GetIsWapPushMsg y)"
proof -
  have up: "\<exists>y. UpdateMultiPageMessage env x pdus s = Ok y s \<and> \<not> GetIsWapPushMsg y" for pdus and s :: "('a, 'c) receiver"
  proof -
    obtain b w u where "join_pages env False ([], [], []) pdus s = Ok (b, w, u) s"
      using join_pages_returns [OF assms(1)] by (metis prod_cases3)
    then show ?thesis using assms(2) by (simp add: UpdateMultiPageMessage_def op_simps GetIsWapPushMsg_def)
  qed
  have "\<exists>vs. PersistQuery (ds env) (page_key x) s = Ok vs s" by (simp add: PersistQuery_def split: option.split)
  then obtain vs where q: "PersistQuery (ds env) (page_key x) s = Ok vs s" ..
  obtain d where d: "DeleteMessageFormDb (ds env) r i n a s = Ok () (s\<lparr>store := d r i n a\<rparr>)" for r i n a
  proof -
    have "\<forall>r i n a. \<exists>d. DeleteMessageFormDb (ds env) r i n a s = Ok () (s\<lparr>store := d\<rparr>)"
      by (auto simp: DeleteMessageFormDb_def PersistDelete_def op_simps split: prod.splits intro: exI [of _ "store s"])
    then show ?thesis using that by metis
  qed
  show ?thesis
  proof (cases "place_pages (replicate (unat (ri_msgCount x)) []) 0 0 vs")
    case None
    then show ?thesis using q d by (auto simp: CombineMultiPageMessage_def Let_def op_simps)
  next
    case (Some y)
    obtain pdus k e where y: "y = (pdus, k, e)" by (cases y)
    obtain z where "UpdateMultiPageMessage env x pdus s = Ok z s" "\<not> GetIsWapPushMsg z" using up by blast
    then show ?thesis using q Some y
      by (auto simp: CombineMultiPageMessage_def Let_def op_simps intro!: exI [of _ "store s"])
  qed
qed

lemma bnd_with_new: "m arr = Ok x t \<Longrightarrow> bnd (with_new arr m) k = k (x, t)"
  by (rule ext) (simp add: bnd_def with_new_def)

lemma bnd_ret: "bnd (ret x) k = k x"
  by (rule ext) (simp add: bnd_def ret_def)

lemma IsConcatMsg_returns: "msg_data_ok m \<Longrightarrow> \<exists>b m'. IsConcatMsg m = Ok b m' \<and> msg_data_ok m' \<and> (b \<longrightarrow> (\<exists>c m''. GetConcatMsg m' = Ok (Some c) m''))"
proof -
  assume ok: "msg_data_ok m"
  then obtain c where c: "scan_headers concat_of m = Ok c m" using scan_headers_returns [OF ok, of concat_of] header_kinds by metis
  have "GetConcatMsg m' = Ok c (m'\<lparr>smsConcat := c\<rparr>)" if "smsUserData m' = smsUserData m" for m' :: GsmSmsMessage
    using scan_headers_state [OF c that] by (simp add: GetConcatMsg_def op_simps)
  then show ?thesis using ok by (auto simp: IsConcatMsg_def op_simps msg_data_ok_def)
qed

text \<open>
  A condition on the state that does not depend on the table, the lock and outputs other than acknowledgements is kept by everything the
  handler does for a message before it acknowledges it.
\<close>

locale receiver_invariant =
  fixes I :: "('d, 'm) receiver \<Rightarrow> bool"
  assumes store_inert: "I s \<Longrightarrow> I (s\<lparr>store := d\<rparr>)"
    and out_inert: "\<not> is_ack x \<Longrightarrow> I s \<Longrightarrow> I (s\<lparr>r_outs := r_outs s @ [x]\<rparr>)"
    and lock_inert: "I s \<Longrightarrow> I (s\<lparr>smsRunningLock := l, smsRunningLockCount := k, smsLockSerialNum := i\<rparr>)"
      "I s \<Longrightarrow> I (s\<lparr>smsRunningLockCount := k, smsLockSerialNum := i\<rparr>)"
begin

lemma returns_put_out [returns_intros]: "\<not> is_ack x \<Longrightarrow> returns I (put_out x)"
  unfolding put_out_def by (rule returns_upd) (rule out_inert)

lemma returns_persist [returns_intros]:
  "returns I (PersistQuery D p)" "returns I (PersistInsert D w)"
  "returns I (PersistDelete D p)"
  by (auto simp: returns_def PersistQuery_def PersistInsert_def PersistDelete_def store_inert split: prod.splits option.splits)

lemma returns_locks [returns_intros]: "returns I (ApplyRunningLock env)"
  unfolding ApplyRunningLock_def CreateRunningLockInner_def
  by (intro returns_intros returns_upd) (simp_all add: lock_inert)

lemma returns_CheckSmsSupport [returns_intros]:
  assumes "stoi (expire_value env) \<noteq> None"
  shows "returns I (CheckSmsSupport env)"
  using assms unfolding CheckSmsSupport_def DeleteExpireSmsFromDB_def Let_def expire_value_def [symmetric]
  by (auto intro!: returns_intros)

lemma returns_DeleteMessageFormDb [returns_intros]: "returns I (DeleteMessageFormDb D r i n a)"
  unfolding DeleteMessageFormDb_def by (intro returns_intros)

lemma returns_SendBroadcast [returns_intros]: "returns I (SendBroadcast D x pdus)"
  unfolding SendBroadcast_def by (intro returns_intros) simp

lemma returns_CombineMessagePart:
  assumes "iconv_bounded (env_iconv env)" "\<not> GetIsWapPushMsg x"
  shows "returns I (CombineMessagePart env wap x)"
proof (rule returnsI)
  fix s
  assume s: "I s"
  obtain r d where r: "(if IsSingleMsg x then ret (Some (x, [StringToHex (ri_pdu x)])) else CombineMultiPageMessage env x) s = Ok r (s\<lparr>store := d\<rparr>)"
      "\<forall>y pdus. r = Some (y, pdus) \<longrightarrow> \<not> GetIsWapPushMsg y"
  proof (cases "IsSingleMsg x")
    case True
    then show ?thesis using that [of "Some (x, [StringToHex (ri_pdu x)])" "store s"] assms(2) by (simp add: ret_def)
  next
    case False
    then show ?thesis using that CombineMultiPageMessage_plain [OF assms, of s] by auto
  qed
  have "returns I (case r of None \<Rightarrow> ret () | Some (x, pdus) \<Rightarrow>
      if GetIsWapPushMsg x then ignore (wap x (ri_rawWapPushUserData x)) else SendBroadcast (ds env) x pdus)"
    using r(2) by (auto intro!: returns_intros split: option.splits)
  from returnsD [OF this, of "s\<lparr>store := d\<rparr>"] show "\<exists>u t. CombineMessagePart env wap x s = Ok u t \<and> I t"
    using r(1) store_inert [OF s] by (simp add: CombineMessagePart_def bnd_def)
qed

lemma returns_repeated_part:
  assumes "msg_data_ok m"
  shows "returns I (repeated_part D x m)"
proof -
  obtain b m' where "IsConcatMsg m = Ok b m'" using IsConcatMsg_returns [OF assms] by blast
  then show ?thesis by (auto simp: repeated_part_def IsRepeatedMessagePart_def bnd_with_new intro!: returns_intros)
qed

lemma returns_HandleSmsByType:
  assumes "plain_message m" "iconv_bounded (env_iconv env)" "stoi (expire_value env) \<noteq> None"
  shows "returns I (HandleSmsByType env wap (Some m))"
proof -
  obtain x m' where x: "message_page m = Ok (Some x) m'" "\<not> GetIsWapPushMsg x" "msg_data_ok m'"
    using message_page_plain [OF assms(1)] by blast
  have add: "returns I (bnd (AddMsgToDB env x) (\<lambda>(ok, x). if \<not> ok then ret SMS_ACK_UNKNOWN_ERROR
      else seq (CombineMessagePart env wap x) (ret SMS_ACK_RESULT_OK)))"
    unfolding AddMsgToDB_def bnd_assoc
  proof (rule returns_bnd [OF returns_persist(2)])
    fix y :: "bool \<times> int"
    have "\<not> GetIsWapPushMsg (x\<lparr>ri_dataBaseId := i\<rparr>)" for i using x(2) by (simp add: GetIsWapPushMsg_def)
    then have "returns I (if \<not> b then ret SMS_ACK_UNKNOWN_ERROR
        else seq (CombineMessagePart env wap (x\<lparr>ri_dataBaseId := i\<rparr>)) (ret SMS_ACK_RESULT_OK))" for b i
      by (intro returns_intros returns_CombineMessagePart [OF assms(2)])
    then show "returns I (bnd (case y of (r, i) \<Rightarrow> ret (r, x\<lparr>ri_dataBaseId := i\<rparr>)) (\<lambda>(ok, x).
        if \<not> ok then ret SMS_ACK_UNKNOWN_ERROR else seq (CombineMessagePart env wap x) (ret SMS_ACK_RESULT_OK)))"
      by (cases y) (simp add: bnd_ret)
  qed
  show ?thesis unfolding HandleSmsByType_def HandleNormalSmsByType_def option.case bnd_with_new [of message_page, OF x(1)] prod.case
    by (intro returns_intros returns_CheckSmsSupport [OF assms(3)] returns_repeated_part [OF x(3)] add)
qed

lemma returns_HandleAck:
  assumes "msg_data_ok m"
  shows "returns I (HandleAck env m)"
proof -
  obtain b m' where m': "IsConcatMsg m = Ok b m'" "b \<longrightarrow> (\<exists>c m''. GetConcatMsg m' = Ok (Some c) m'')"
    using IsConcatMsg_returns [OF assms] by blast
  then show ?thesis by (cases b) (auto simp: HandleAck_def bnd_with_new returns_ret)
qed

end

interpretation ack_inv: receiver_invariant "\<lambda>s. acks s = A" for A
  by unfold_locales (simp_all add: acks_def)

interpretation queue_inv: receiver_invariant "\<lambda>s. smsBaseMessageQueue s = q \<and> alreadySendEvent s = b" for q b
  by unfold_locales simp_all

definition acknowledged :: "receive_out list \<Rightarrow> ('d, 'm) receiver \<Rightarrow> bool" where
  "acknowledged A s \<longleftrightarrow> (\<exists>x. is_ack x \<and> acks s = A @ [x])"

lemma HandleReceivedSms_acks:
  assumes "plain_message m" "iconv_bounded (env_iconv env)" "stoi (expire_value env) \<noteq> None"
  shows "\<exists>t. HandleReceivedSms (gsm_handler env wap) (Some m) s = Ok () t \<and> acknowledged (acks s) t"
proof -
  obtain k t where "HandleSmsByType env wap (Some m) s = Ok k t" "acks t = acks s"
    using returnsD [OF ack_inv.returns_HandleSmsByType [OF assms, of "acks s" wap], of s] by auto
  then show ?thesis
    by (simp add: HandleReceivedSms_def gsm_handler_def op_simps ReplySmsToSmsc_def put_out_def acknowledged_def acks_def is_ack_def)
qed

lemma HandleReceivedSmsWithoutDataShare_acks:
  assumes "msg_data_ok m"
  shows "\<exists>t. HandleReceivedSmsWithoutDataShare (gsm_handler env wap) (Some m) s = Ok () t \<and> acknowledged (acks s) t"
proof -
  obtain y t where "HandleAck env m s = Ok y t" "acks t = acks s"
    using returnsD [OF ack_inv.returns_HandleAck [OF assms, of "acks s" env], of s] by auto
  then show ?thesis
    by (cases y) (simp add: HandleReceivedSmsWithoutDataShare_def gsm_handler_def op_simps ReplySmsToSmsc_def put_out_def acknowledged_def
        acks_def is_ack_def)
qed

lemma HandleSmsEvent_start:
  assumes "\<not> sms_disabled env" "iconv_bounded (env_iconv env)" "ApplyRunningLock env s = Ok () s'"
  shows "\<exists>r. message_of env pdu = Some r \<and> HandleSmsEvent (gsm_handler env wap) env (Some pdu) s =
     (if alreadySendEvent s' then HandleReceivedSmsWithoutDataShare (gsm_handler env wap) r s'
      else if ds_ready env (store s') then
        seq (HandleReceivedSms (gsm_handler env wap) r) (put_out (SendEvent DELAY_RELEASE_RUNNING_LOCK 0)) s'
      else seq (HandleReceivedSmsWithoutDataShare (gsm_handler env wap) r)
        (seq (put_out (SendEvent RETRY_CONNECT_DATASHARE 0)) (upd (\<lambda>s. s\<lparr>alreadySendEvent := True\<rparr>))) s')"
proof -
  obtain r where r: "CreateMessage (sms_env.truncate env) (StringToHex pdu) () = Ok r ()"
    using CreateMessage_returns [of "sms_env.truncate env" "StringToHex pdu" "()"] assms(2) by (auto simp: sms_env.defs)
  then show ?thesis using assms(1,3)
    by (simp add: HandleSmsEvent_def gsm_handler_def TransformMessageInfo_def message_of_def bnd_def seq_def with_new_def gets_def ret_def)
qed

text \<open>
  C8. Acknowledgements of short messages other than WAP pushes. Whatever the data share service does, the handler comes to its end
  for every PDU whose octets either cannot be decoded or decode to a message that is not a WAP push, and the service centre
  has got exactly one acknowledgement when they were decoded and none when they cannot be (the network then sends the message
  again). When receiving is disabled, every PDU is acknowledged once, undecoded. The device's own assumption is that its expiry setting is a number.
\<close>

theorem sms_acknowledged_once:
  assumes "iconv_bounded (env_iconv env)" "stoi (expire_value env) \<noteq> None"
    and "\<forall>m. message_of env pdu = Some (Some m) \<longrightarrow> plain_message m"
  shows "\<exists>t. HandleSmsEvent (gsm_handler env wap) env (Some pdu) s = Ok () t \<and>
    (if sms_disabled env \<or> message_of env pdu \<noteq> Some None then acknowledged (acks s) t else acks t = acks s)"
proof (cases "sms_disabled env")
  case True
  then show ?thesis
    by (simp add: HandleSmsEvent_def gsm_handler_def op_simps ReplySmsToSmsc_def put_out_def acknowledged_def acks_def is_ack_def)
next
  case False
  obtain s' where s': "ApplyRunningLock env s = Ok () s'" "acks s' = acks s"
    using returnsD [OF ack_inv.returns_locks [of "acks s" env], of s] by auto
  obtain r where msg: "message_of env pdu = Some r" and start: "HandleSmsEvent (gsm_handler env wap) env (Some pdu) s =
     (if alreadySendEvent s' then HandleReceivedSmsWithoutDataShare (gsm_handler env wap) r s'
      else if ds_ready env (store s') then
        seq (HandleReceivedSms (gsm_handler env wap) r) (put_out (SendEvent DELAY_RELEASE_RUNNING_LOCK 0)) s'
      else seq (HandleReceivedSmsWithoutDataShare (gsm_handler env wap) r)
        (seq (put_out (SendEvent RETRY_CONNECT_DATASHARE 0)) (upd (\<lambda>s. s\<lparr>alreadySendEvent := True\<rparr>))) s')"
    using HandleSmsEvent_start [OF False assms(1) s'(1)] by blast
  have more: "acks (u\<lparr>r_outs := r_outs u @ [SendEvent i k]\<rparr>) = acks u" for u :: "('a, GsmSmsMessage) receiver" and i k
    by (simp add: acks_def)
  show ?thesis
  proof (cases r)
    case None
    then show ?thesis using start msg s'(2) False
      by (auto simp: HandleReceivedSms_def HandleReceivedSmsWithoutDataShare_def op_simps put_out_def more)
  next
    case (Some m)
    then have m: "plain_message m" "msg_data_ok m" using assms(3) msg by (simp_all add: plain_message_def)
    obtain t u where "HandleReceivedSms (gsm_handler env wap) r s' = Ok () t" "acknowledged (acks s) t"
        "HandleReceivedSmsWithoutDataShare (gsm_handler env wap) r s' = Ok () u" "acknowledged (acks s) u"
      using HandleReceivedSms_acks [OF m(1) assms(1,2), of wap s'] HandleReceivedSmsWithoutDataShare_acks [OF m(2), of env wap s'] Some s'(2)
      by auto
    then show ?thesis using start msg Some by (auto simp: op_simps put_out_def acknowledged_def more)
  qed
qed

text \<open>A delivered text of one UCS-2 character, without the address of a service centre.\<close>

definition delivered_pdu :: bytes where
  "delivered_pdu = 0 # 0x04 # number_octets 1 1 [0x38, 0x36] @ [0, 8] @
     time_octets \<lparr>ta_year = 24, ta_month = 12, ta_day = 31, ta_hour = 23, ta_minute = 59, ta_second = 58, ta_timeZone = 32\<rparr> @ octet_wire [] [0x4F, 0x60]"

lemma delivered_message: "\<exists>m. message_of receive_example delivered_pdu = Some (Some m) \<and> plain_message m"
proof -
  let ?env = "sms_env.truncate receive_example"
  have "number_ok 1 1 [0x38, 0x36]" "ucs2_ok [] [0x4F, 0x60]" "plain_dcs DATA_CODING_UCS2 (decode_dcs 8 zero_dcs)" "(0x04 :: u8) AND 0x03 = 0" "(0x04 :: u8) AND 0x40 = 0"
    "time_ok \<lparr>ta_year = 24, ta_month = 12, ta_day = 31, ta_hour = 23, ta_minute = 59, ta_second = 58, ta_timeZone = 32\<rparr>"
    by (simp_all add: number_ok_def bcd_char_def ucs2_ok_def octet_udl_def headers_ok_def time_ok_def plain_dcs_def decode_dcs_def dcs_decoders GetMsgCodingScheme_def Let_def)
  with ucs2.deliver_decoded [of 1 1 "[0x38, 0x36]" "[]" "[0x4F, 0x60]" "\<lparr>ta_year = 24, ta_month = 12, ta_day = 31, ta_hour = 23, ta_minute = 59, ta_second = 58, ta_timeZone = 32\<rparr>"
      8 "0x04" "drop 1 delivered_pdu" 0 "env_iconv ?env" "env_wsize ?env"]
  obtain d where d: "DecodeSmsPdu (env_iconv ?env) (env_wsize ?env) (drop 1 delivered_pdu) = Ok () (Some (SMS_TPDU_DELIVER d))"
    "del_userData d = mk_ud [] [0x4F, 0x60]" "del_dcs d = decode_dcs 8 zero_dcs"
    by (auto simp: delivered_pdu_def)
  obtain r where r: "CreateMessage ?env (StringToHex delivered_pdu) () = Ok r ()" "\<forall>m. r = Some m \<longrightarrow> msg_data_ok m"
    using CreateMessage_returns [of ?env "StringToHex delivered_pdu" "()"] receive_example_ok(1) by (auto simp: can_receive_def sms_env.defs)
  have len: "1 < length delivered_pdu" "length delivered_pdu \<le> MAX_TPDU_DATA_LEN" "delivered_pdu ! 0 = 0" "delivered_pdu \<noteq> []" by code_simp+
  have ic: "env_iconv ?env = (\<lambda>_ _. None)" by (simp add: receive_example_def sms_env.defs)
  have dcs: "codingScheme (decode_dcs 8 zero_dcs) = DATA_CODING_UCS2" by code_simp
  have conv: "Ucs2ToUtf8 (\<lambda>_ _. None) n src l = ret 0" for n src l by (simp add: Ucs2ToUtf8_def to_utf8_def)
  have part: "case ConvertUserPartData ?env m of Ok _ m' \<Rightarrow> smsUserData m' = mk_ud [] [0x4F, 0x60] | Fail _ \<Rightarrow> False | Fault \<Rightarrow> True"
    if "smsUserData m = mk_ud [] [0x4F, 0x60]" "bm_codingScheme m = DATA_CODING_UCS2" "visibleMessageBody m = []" for m
    using that by (simp add: ConvertUserPartData_def op_simps convert_body_def Let_def ic conv insert_body_def insert_front_def)
  have msg: "case PduAnalysisMsg ?env m of Ok _ m' \<Rightarrow> smsUserData m' = mk_ud [] [0x4F, 0x60] | Fail _ \<Rightarrow> False | Fault \<Rightarrow> True"
    if "smsTpdu m = Some (SMS_TPDU_DELIVER d)" "visibleMessageBody m = []" for m
    using that d(2,3) dcs
    by (simp add: PduAnalysisMsg_def AnalysisMsgDeliver_def op_simps ConvertMsgTimeStamp_def ConvertMessageDcs_def ConvertMessageClass_def ConvertUserData_def)
      (intro conjI impI part; simp)
  have vis: "visibleMessageBody (new_message :: GsmSmsMessage) = []" by (simp add: new_message_def)
  have "\<exists>m. r = Some m \<and> smsUserData m = mk_ud [] [0x4F, 0x60]"
    using r(1) d(1) len vis msg [of "new_message\<lparr>rawPdu := delivered_pdu, scAddress := c_str (0 # replicate SMS_MAX_ADDRESS_LEN 0), smsTpdu := Some (SMS_TPDU_DELIVER d)\<rparr>"]
    by (simp add: CreateMessage_def PduAnalysis_def hex_inverse op_simps DecodeSmscPdu_def decode_tpdu_def MAX_TPDU_DATA_LEN_def Let_def split: outcome.splits) auto
  then obtain m where m: "r = Some m" "smsUserData m = mk_ud [] [0x4F, 0x60]" by blast
  then have "plain_message m" using r(2) by (auto simp: plain_message_def GetPortAddress_def scan_headers_def op_simps)
  with m(1) r(1) show ?thesis by (simp add: message_of_def)
qed

theorem sms_acknowledged_once_witness:
  "\<exists>t. HandleSmsEvent (gsm_handler receive_example (\<lambda>_ _. ret True)) receive_example (Some delivered_pdu) empty_receiver = Ok () t \<and>
    acknowledged [] t"
proof -
  obtain m where m: "message_of receive_example delivered_pdu = Some (Some m)" "plain_message m" using delivered_message by blast
  with sms_acknowledged_once [of receive_example delivered_pdu "\<lambda>_ _. ret True" empty_receiver] receive_example_ok
  show ?thesis by (auto simp: can_receive_def acks_def empty_receiver_def)
qed

section \<open>The queue\<close>

text \<open>
  C38. Messages are stranded. While the data share service is not ready, messages are acknowledged and queued, and the handler tries to
  connect again every five seconds. When the twentieth attempt fails it stops trying and forgets that it was waiting: the queue
  stays, no further attempt is scheduled, and messages that arrive once the service is ready are handled past the queue.
\<close>

theorem queue_stranded:
  assumes "\<not> ds_ready env (store s)" "reconnectDataShareCount s = 19"
    and "\<forall>d. ds_ready env' d" "\<not> sms_disabled env'" "iconv_bounded (env_iconv env')" "stoi (expire_value env') \<noteq> None"
    and "\<forall>m. message_of env' pdu = Some (Some m) \<longrightarrow> plain_message m"
  shows "\<exists>t u. HandleReconnectEvent (gsm_handler env wap) env s = Ok () t \<and>
    SendEvent RETRY_CONNECT_DATASHARE 0 \<notin> set (drop (length (r_outs s)) (r_outs t)) \<and>
    HandleSmsEvent (gsm_handler env' wap) env' (Some pdu) t = Ok () u \<and>
    smsBaseMessageQueue u = smsBaseMessageQueue s \<and> \<not> alreadySendEvent u"
proof -
  let ?Q = "\<lambda>t :: ('a, GsmSmsMessage) receiver. smsBaseMessageQueue t = smsBaseMessageQueue s \<and> alreadySendEvent t = False"
  have "\<exists>t. HandleReconnectEvent (gsm_handler env wap) env s = Ok () t \<and> ?Q t \<and>
      SendEvent RETRY_CONNECT_DATASHARE 0 \<notin> set (drop (length (r_outs s)) (r_outs t))"
    using assms(1,2) by (simp add: HandleReconnectEvent_def op_simps RECONNECT_MAX_COUNT_def ReleaseRunningLock_def put_out_def)
  then obtain t where t: "HandleReconnectEvent (gsm_handler env wap) env s = Ok () t" "?Q t"
      "SendEvent RETRY_CONNECT_DATASHARE 0 \<notin> set (drop (length (r_outs s)) (r_outs t))" by blast
  obtain t' where t': "ApplyRunningLock env' t = Ok () t'" "?Q t'"
    using returnsD [OF queue_inv.returns_locks [of "smsBaseMessageQueue s" False env'], of t] t(2) by auto
  obtain r where r: "message_of env' pdu = Some r" "HandleSmsEvent (gsm_handler env' wap) env' (Some pdu) t =
      seq (HandleReceivedSms (gsm_handler env' wap) r) (put_out (SendEvent DELAY_RELEASE_RUNNING_LOCK 0)) t'"
    using HandleSmsEvent_start [OF assms(4,5) t'(1), of pdu wap] assms(3) t'(2) by auto
  have "\<exists>u. HandleReceivedSms (gsm_handler env' wap) r t' = Ok () u \<and> ?Q u"
  proof (cases r)
    case (Some m)
    then have "plain_message m" using assms(7) r(1) by simp
    then obtain k u where "HandleSmsByType env' wap (Some m) t' = Ok k u" "?Q u"
      using returnsD [OF queue_inv.returns_HandleSmsByType [OF _ assms(5,6), of m "smsBaseMessageQueue s" False wap], of t'] t'(2) by auto
    then show ?thesis using Some by (simp add: HandleReceivedSms_def gsm_handler_def op_simps ReplySmsToSmsc_def put_out_def)
  qed (use t'(2) in \<open>simp add: HandleReceivedSms_def ret_def\<close>)
  then show ?thesis using t r(2) by (auto simp: op_simps put_out_def)
qed

theorem queue_stranded_witness:
  "\<exists>t u. HandleReconnectEvent (gsm_handler (receive_example\<lparr>ds_ready := \<lambda>_. False\<rparr>) (\<lambda>_ _. ret True)) (receive_example\<lparr>ds_ready := \<lambda>_. False\<rparr>)
      (empty_receiver\<lparr>smsBaseMessageQueue := [page_message 1 [0xAA]], reconnectDataShareCount := 19\<rparr>) = Ok () t \<and>
    SendEvent RETRY_CONNECT_DATASHARE 0 \<notin> set (drop 0 (r_outs t)) \<and>
    HandleSmsEvent (gsm_handler receive_example (\<lambda>_ _. ret True)) receive_example (Some []) t = Ok () u \<and>
    smsBaseMessageQueue u = [page_message 1 [0xAA]] \<and> \<not> alreadySendEvent u"
proof -
  have "message_of receive_example [] = Some None"
    by (simp add: message_of_def StringToHex_def CreateMessage_def PduAnalysis_def op_simps new_message_def)
  moreover have "iconv_bounded (env_iconv receive_example)" "stoi (expire_value receive_example) \<noteq> None" "\<forall>d. ds_ready receive_example d"
      "\<not> sms_disabled receive_example"
    using receive_example_ok by (simp_all add: can_receive_def) (simp_all add: receive_example_def)
  moreover have "r_outs empty_receiver = []" by (simp add: empty_receiver_def)
  ultimately show ?thesis
    using queue_stranded [of "receive_example\<lparr>ds_ready := \<lambda>_. False\<rparr>"
        "empty_receiver\<lparr>smsBaseMessageQueue := [page_message 1 [0xAA]], reconnectDataShareCount := 19\<rparr>" receive_example "[]" "\<lambda>_ _. ret True"]
    by simp
qed

end
