(* ===== verification/Mms_Buffer.thy ===== *)
theory Mms_Buffer
  imports Sms_Pdu_Buffer
begin

text \<open>
  The buffers of the MMS codec: \<^verbatim>\<open>mms_buffer.cpp\<close>, \<^verbatim>\<open>mms_decode_buffer.cpp\<close> and \<^verbatim>\<open>mms_encode_buffer.cpp\<close>, with the basic
  values of WSP (WAP-230 section 8.4.2): variable length integers, value lengths, integers and texts.
\<close>


section \<open>The decode buffer\<close>

text \<open>
  The members of \<^verbatim>\<open>MmsBuffer\<close>. Positions are \<^verbatim>\<open>uint32_t\<close>; they are at most \<^verbatim>\<open>MMS_PDU_MAX_SIZE\<close>, so the sums
  below do not wrap around and positions are natural numbers.
\<close>

record MmsBuffer =
  pduBuffer :: bytes
  curPosition :: nat
  totolLength :: nat
  savePosition :: nat

definition new_mms_buffer :: MmsBuffer where
  "new_mms_buffer = \<lparr>pduBuffer = replicate MMS_PDU_MAX_SIZE 0, curPosition = 0, totolLength = MMS_PDU_MAX_SIZE, savePosition = 0\<rparr>"

definition ReadDataBufferAt :: "nat \<Rightarrow> nat \<Rightarrow> (MmsBuffer, bytes) op" where
  "ReadDataBufferAt offset desLen b =
     (if desLen > MMS_PDU_MAX_SIZE \<or> (offset + desLen) mod 2 ^ 32 > totolLength b \<or> \<not> memcpy_s_ok desLen desLen then Fail b
      else if offset + desLen \<le> length (pduBuffer b) then Ok (take desLen (drop offset (pduBuffer b))) b
      else Fault)"

definition ReadDataBuffer :: "nat \<Rightarrow> (MmsBuffer, bytes) op" where
  "ReadDataBuffer desLen b = ReadDataBufferAt (curPosition b) desLen b"

definition WriteDataBuffer :: "bytes \<Rightarrow> (MmsBuffer, unit) op" where
  "WriteDataBuffer inBuff b =
     (if inBuff = [] \<or> length inBuff > MMS_PDU_MAX_SIZE then Fail b
      else Ok () (b\<lparr>pduBuffer := inBuff, totolLength := length inBuff\<rparr>))"

definition PeekOneByte :: "(MmsBuffer, u8) op" where
  "PeekOneByte b =
     (if curPosition b \<ge> totolLength b then Fail b
      else if curPosition b < length (pduBuffer b) then Ok (pduBuffer b ! curPosition b) b
      else Fault)"

definition GetOneByte :: "(MmsBuffer, u8) op" where
  "GetOneByte b =
     (if curPosition b \<ge> totolLength b then Fail b
      else if curPosition b < length (pduBuffer b)
           then Ok (pduBuffer b ! curPosition b) (b\<lparr>curPosition := curPosition b + 1\<rparr>)
      else Fault)"

definition IncreasePointer :: "nat \<Rightarrow> (MmsBuffer, unit) op" where
  "IncreasePointer offset b =
     (if offset > totolLength b \<or> curPosition b + offset > totolLength b then Fail b
      else Ok () (b\<lparr>curPosition := curPosition b + offset\<rparr>))"

definition DecreasePointer :: "nat \<Rightarrow> (MmsBuffer, unit) op" where
  "DecreasePointer offset b =
     (if offset > curPosition b then Fail b else Ok () (b\<lparr>curPosition := curPosition b - offset\<rparr>))"

definition MarkPosition :: "(MmsBuffer, unit) op" where
  "MarkPosition = upd (\<lambda>b. b\<lparr>savePosition := curPosition b\<rparr>)"

definition UnMarkPosition :: "(MmsBuffer, unit) op" where
  "UnMarkPosition = upd (\<lambda>b. b\<lparr>curPosition := savePosition b\<rparr>)"

lemma GetOneByte_advances: "GetOneByte b = Ok x c \<Longrightarrow> totolLength c - curPosition c < totolLength b - curPosition b"
  by (auto simp: GetOneByte_def split: if_splits)

section \<open>Decoding values\<close>

text \<open>\<^verbatim>\<open>uintVar = uintVar << 7; uintVar |= oneByte & 0x7f;\<close>\<close>

definition septet_in :: "u32 \<Rightarrow> u8 \<Rightarrow> u32" where
  "septet_in v oneByte = push_bit 7 v OR ucast (oneByte AND 0x7F)"

text \<open>
  The loop of \<^verbatim>\<open>DecodeUintvar\<close>, entered with the octet read last. The value is a \<^verbatim>\<open>uint32_t\<close>: the bits of more
  than five octets are shifted out at the top.
\<close>

function uintvar_loop :: "u32 \<Rightarrow> u32 \<Rightarrow> u8 \<Rightarrow> (MmsBuffer, u32 \<times> u32) op" where
  "uintvar_loop v count oneByte b =
     (if oneByte AND 0x80 = 0 then Ok (septet_in v oneByte, count) b
      else case GetOneByte b of
             Ok x c \<Rightarrow> uintvar_loop (septet_in v oneByte) (count + 1) x c
           | Fail c \<Rightarrow> Fail c
           | Fault \<Rightarrow> Fault)"
  by pat_completeness auto

termination uintvar_loop
  by (relation "measure (\<lambda>(_, _, _, b). totolLength b - curPosition b)") (auto dest: GetOneByte_advances)

declare uintvar_loop.simps [simp del]

definition DecodeUintvar :: "(MmsBuffer, u32 \<times> u32) op" where
  "DecodeUintvar = bnd GetOneByte (\<lambda>oneByte. uintvar_loop 0 1 oneByte)"

definition DecodeShortLength :: "(MmsBuffer, u8) op" where
  "DecodeShortLength = bnd GetOneByte (\<lambda>oneByte. if oneByte \<le> 30 then ret oneByte else fail)"

text \<open>When no octet is left the pointer goes back by one before \<^verbatim>\<open>false\<close> is returned.\<close>

definition DecodeValueLengthReturnLen :: "(MmsBuffer, u32 \<times> u32) op" where
  "DecodeValueLengthReturnLen =
     bnd (attempt GetOneByte) (\<lambda>r.
     case r of
       None \<Rightarrow> seq (ignore (DecreasePointer 1)) fail
     | Some oneByte \<Rightarrow>
         if oneByte \<le> 30 then ret (ucast oneByte, 1)
         else if oneByte = 0x1F then bnd DecodeUintvar (\<lambda>(v, count). ret (v, count + 1))
         else fail)"

definition DecodeValueLength :: "(MmsBuffer, u32) op" where
  "DecodeValueLength =
     bnd (attempt GetOneByte) (\<lambda>r.
     case r of
       None \<Rightarrow> seq (ignore (DecreasePointer 1)) fail
     | Some oneByte \<Rightarrow>
         if oneByte \<le> 30 then ret (ucast oneByte)
         else if oneByte = 0x1F then bnd DecodeUintvar (\<lambda>(v, count). ret v)
         else fail)"

definition separators :: "u8 list" where
  "separators = [0x22, 0x28, 0x29, 0x2C, 0x2F, 0x3A, 0x3B, 0x3C, 0x3D, 0x3E, 0x3F, 0x40, 0x5B, 0x5C, 0x5D, 0x7B, 0x7D]"

definition CharIsToken :: "u8 \<Rightarrow> bool" where
  "CharIsToken oneByte \<longleftrightarrow> 33 \<le> oneByte \<and> oneByte \<le> 126 \<and> oneByte \<notin> set separators"

text \<open>\<^verbatim>\<open>while (GetOneByte(oneByte))\<close> with a break at the octet 0: the octets before it, or up to the end.\<close>

function read_until_zero :: "(MmsBuffer, bytes) op" where
  "read_until_zero b =
     (case GetOneByte b of
        Ok x c \<Rightarrow> if x = 0 then Ok [] c
                  else (case read_until_zero c of Ok xs d \<Rightarrow> Ok (x # xs) d | Fail d \<Rightarrow> Fail d | Fault \<Rightarrow> Fault)
      | Fail c \<Rightarrow> Ok [] c
      | Fault \<Rightarrow> Fault)"
  by pat_completeness auto

termination read_until_zero
  by (relation "measure (\<lambda>b. totolLength b - curPosition b)") (auto dest: GetOneByte_advances)

declare read_until_zero.simps [simp del]

definition DecodeTokenText :: "(MmsBuffer, bytes \<times> u32) op" where
  "DecodeTokenText =
     bnd PeekOneByte (\<lambda>oneByte.
     if oneByte < 33 \<or> oneByte > 126 then fail
     else
       bnd read_until_zero (\<lambda>xs.
       let str = filter CharIsToken xs in if str \<noteq> [] then ret (str, word_of_nat (length str)) else fail))"

text \<open>The quote before a text counts for the length. \<^verbatim>\<open>len >= 0\<close> is true of every \<^verbatim>\<open>uint32_t\<close>.\<close>

definition DecodeText :: "(MmsBuffer, bytes \<times> u32) op" where
  "DecodeText =
     bnd GetOneByte (\<lambda>oneByte.
     bnd (if oneByte \<noteq> 127 then seq (ignore (DecreasePointer 1)) (ret 0) else ret 1) (\<lambda>quote.
     bnd read_until_zero (\<lambda>str. ret (str, quote + word_of_nat (length str)))))"

definition DecodeQuotedText :: "(MmsBuffer, bytes \<times> u32) op" where
  "DecodeQuotedText =
     bnd read_until_zero (\<lambda>xs.
     if xs \<noteq> [] then ret (filter (\<lambda>c. c \<noteq> 0x22) xs, word_of_nat (length xs)) else fail)"

definition DecodeShortInteger :: "(MmsBuffer, u8) op" where
  "DecodeShortInteger = bnd GetOneByte (\<lambda>oneByte. if oneByte > 0x7F then ret (oneByte AND 0x7F) else fail)"

definition LONG_VALUE_LEN_MAX :: u8 where
  "LONG_VALUE_LEN_MAX = 8"

definition multi_octet_value :: "bytes \<Rightarrow> u64" where
  "multi_octet_value xs = foldl (\<lambda>r x. push_bit 8 r OR ucast x) 0 xs"

definition DecodeLongInteger :: "(MmsBuffer, u64) op" where
  "DecodeLongInteger =
     bnd GetOneByte (\<lambda>oneByte.
     if oneByte > LONG_VALUE_LEN_MAX then fail
     else bnd (collect (\<lambda>_. GetOneByte) 0 (unat oneByte)) (\<lambda>xs. ret (multi_octet_value xs)))"

text \<open>The octet under the pointer, or the 0 the variable was set to when there is none.\<close>

definition peek_or_zero :: "(MmsBuffer, u8) op" where
  "peek_or_zero = bnd (attempt PeekOneByte) (\<lambda>r. ret (case r of None \<Rightarrow> 0 | Some x \<Rightarrow> x))"

definition DecodeIsShortInt :: "(MmsBuffer, bool) op" where
  "DecodeIsShortInt = bnd peek_or_zero (\<lambda>oneByte. ret (oneByte > 0x7F))"

definition DecodeIsString :: "(MmsBuffer, bool) op" where
  "DecodeIsString = bnd peek_or_zero (\<lambda>oneByte. ret (0x20 \<le> oneByte \<and> 0x7F \<ge> oneByte))"

definition DecodeIsValueLength :: "(MmsBuffer, bool) op" where
  "DecodeIsValueLength = bnd peek_or_zero (\<lambda>oneByte. ret (oneByte \<le> 0x1F))"

definition DecodeInteger :: "(MmsBuffer, u64) op" where
  "DecodeInteger =
     bnd DecodeIsShortInt (\<lambda>short.
     if short then bnd DecodeShortInteger (\<lambda>v. ret (ucast v)) else DecodeLongInteger)"

section \<open>The encode buffer\<close>

text \<open>
  An \<^verbatim>\<open>MmsEncodeBuffer\<close> is the list of the octets written so far, the first \<^verbatim>\<open>curPosition_\<close> octets of its array of
  \<^verbatim>\<open>MMS_PDU_MAX_SIZE\<close> octets; what is behind them is never read.
\<close>

type_synonym MmsEncodeBuffer = bytes

definition MmsWriteByte :: "u8 \<Rightarrow> (MmsEncodeBuffer, unit) op" where
  "MmsWriteByte value b = (if length b \<ge> MMS_PDU_MAX_SIZE then Fail b else Ok () (b @ [value]))"

definition MmsWriteBuffer :: "bytes \<Rightarrow> (MmsEncodeBuffer, unit) op" where
  "MmsWriteBuffer input b =
     (if length b + length input \<ge> MMS_PDU_MAX_SIZE \<or> \<not> memcpy_s_ok (length input) (length input) then Fail b
      else Ok () (b @ input))"

lemma unat_drop_bit_less: "0 < k \<Longrightarrow> (v :: 'a::len word) \<noteq> 0 \<Longrightarrow> unat (drop_bit k v) < unat v"
proof -
  assume k: "0 < k" and v: "v \<noteq> 0"
  have "unat (drop_bit k v) = unat v div 2 ^ k" by (simp only: unat_drop_bit_eq) (simp only: drop_bit_eq_div)
  also have "\<dots> < unat v" using k v one_less_power [of "2 :: nat" k] by (intro div_less_dividend) (simp_all add: unat_gt_0)
  finally show ?thesis .
qed

text \<open>The septets of \<^verbatim>\<open>value >> 7\<close>, lowest first; the array \<^verbatim>\<open>reversed\<close> has 8 elements.\<close>

function uintvar_more :: "u32 \<Rightarrow> bytes" where
  "uintvar_more value =
     (if value = 0 then [] else (0x80 OR ucast (value AND 0x7F)) # uintvar_more (drop_bit 7 value))"
  by pat_completeness auto

termination uintvar_more
  by (relation "measure unat") (auto intro: unat_drop_bit_less)

declare uintvar_more.simps [simp del]

definition uintvar_octets :: "u32 \<Rightarrow> bytes" where
  "uintvar_octets value = rev (ucast (value AND 0x7F) # uintvar_more (drop_bit 7 value))"

definition EncodeUintvar :: "u32 \<Rightarrow> (MmsEncodeBuffer, unit) op" where
  "EncodeUintvar value =
     (let reversed = ucast (value AND 0x7F) # uintvar_more (drop_bit 7 value)
      in if length reversed \<le> 8 then each MmsWriteByte (rev reversed) else fault)"

definition EncodeShortLength :: "u8 \<Rightarrow> (MmsEncodeBuffer, unit) op" where
  "EncodeShortLength value = (if value > 30 then fail else MmsWriteByte value)"

definition EncodeShortInteger :: "u8 \<Rightarrow> (MmsEncodeBuffer, unit) op" where
  "EncodeShortInteger value = MmsWriteByte (value OR 0x80)"

definition EncodeOctet :: "u8 \<Rightarrow> (MmsEncodeBuffer, unit) op" where
  "EncodeOctet value = MmsWriteByte value"

definition EncodeValueLength :: "u32 \<Rightarrow> (MmsEncodeBuffer, unit) op" where
  "EncodeValueLength value =
     (if value \<le> 30 then EncodeShortLength (ucast value)
      else seq (MmsWriteByte 0x1F) (EncodeUintvar value))"

text \<open>The octets of \<^verbatim>\<open>temp\<close>, lowest first; the array \<^verbatim>\<open>result\<close> has 8 elements.\<close>

function long_octets :: "u64 \<Rightarrow> bytes" where
  "long_octets temp = (if temp = 0 then [] else ucast temp # long_octets (drop_bit 8 temp))"
  by pat_completeness auto

termination long_octets
  by (relation "measure unat") (auto intro: unat_drop_bit_less)

declare long_octets.simps [simp del]

definition EncodeLongInteger :: "u64 \<Rightarrow> (MmsEncodeBuffer, unit) op" where
  "EncodeLongInteger value =
     (let octets = (if value = 0 then [0] else long_octets value)
      in if length octets \<le> 8
         then seq (MmsWriteByte (word_of_nat (length octets))) (each MmsWriteByte (rev octets))
         else fault)"

definition EncodeInteger :: "u32 \<Rightarrow> (MmsEncodeBuffer, unit) op" where
  "EncodeInteger value = (if value \<le> 127 then EncodeShortInteger (ucast value) else EncodeLongInteger (ucast value))"

text \<open>
  \<^verbatim>\<open>value.at(0) > quoteText\<close> compares a \<^verbatim>\<open>char\<close>, which is signed on some targets (\<open>sc\<close>) and then never exceeds 127.
\<close>

definition EncodeText :: "bool \<Rightarrow> bytes \<Rightarrow> (MmsEncodeBuffer, unit) op" where
  "EncodeText sc value =
     (if value = [] then ret ()
      else
        seq (if \<not> sc \<and> hd value > 0x7F then MmsWriteByte 0x7F else ret ()) (
        seq (each MmsWriteByte value) (MmsWriteByte 0)))"

definition EncodeQuotedText :: "bytes \<Rightarrow> (MmsEncodeBuffer, unit) op" where
  "EncodeQuotedText value =
     (if value = [] then ret ()
      else seq (MmsWriteByte 0x22) (seq (each MmsWriteByte value) (MmsWriteByte 0)))"

definition EncodeTokenText :: "bytes \<Rightarrow> (MmsEncodeBuffer, unit) op" where
  "EncodeTokenText value =
     (if value = [] then ret ()
      else if \<exists>c \<in> set value. \<not> CharIsToken c then fail
      else seq (each MmsWriteByte value) (MmsWriteByte 0))"

end
