(* ===== verification/Wsp_Values.thy ===== *)
theory Wsp_Values
  imports Mms_Buffer
begin

text \<open>
  What the buffers of the MMS codec promise. No operation leaves the array, and none of those that decode a value moves the
  pointer back (\<open>adv\<close>), which is why the loops over fields end. A decode buffer is viewed as the octets behind and before the pointer
  (\<open>mb\<close>); on this view, every value that is encoded is decoded again.
\<close>

section \<open>Safety and progress\<close>

text \<open>
  The pointer is at \<open>n\<close> or behind it, in a buffer of \<open>N\<close> octets; with \<open>w\<close>, the buffer is well-formed. An operation is \<open>safe\<close> from \<open>P\<close> if it
  ends in \<open>Q\<close> or fails in \<open>E\<close>, and with \<open>w\<close> does not leave the array. The case \<open>w\<close> is memory safety, the other one is used for the termination of
  loops, which does not depend on the buffer being well-formed.
\<close>

definition at_pos :: "bool \<Rightarrow> nat \<Rightarrow> nat \<Rightarrow> MmsBuffer \<Rightarrow> bool" where
  "at_pos w n N b \<longleftrightarrow> n \<le> curPosition b \<and> totolLength b = N \<and>
     (w \<longrightarrow> curPosition b \<le> N \<and> N \<le> length (pduBuffer b) \<and> N \<le> MMS_PDU_MAX_SIZE)"

definition safe :: "bool \<Rightarrow> ('s \<Rightarrow> bool) \<Rightarrow> ('s, 'a) op \<Rightarrow> ('s \<Rightarrow> bool) \<Rightarrow> ('s \<Rightarrow> bool) \<Rightarrow> bool" where
  "safe w P m Q E \<longleftrightarrow> (\<forall>s. P s \<longrightarrow> (case m s of Ok x t \<Rightarrow> Q t | Fail t \<Rightarrow> E t | Fault \<Rightarrow> \<not> w))"

text \<open>
  \<open>adv\<close>: \<open>m\<close> does not move the pointer back if it succeeds; \<open>p\<close> is the buffer in the state of \<open>m\<close>. \<open>keeps_pos\<close>: nor if it fails.
\<close>

abbreviation adv :: "bool \<Rightarrow> ('s \<Rightarrow> MmsBuffer) \<Rightarrow> nat \<Rightarrow> nat \<Rightarrow> ('s, 'a) op \<Rightarrow> bool" where
  "adv w p n N m \<equiv> safe w (\<lambda>s. at_pos w n N (p s)) m (\<lambda>s. at_pos w n N (p s)) (\<lambda>s. at_pos w 0 N (p s))"

abbreviation keeps_pos :: "bool \<Rightarrow> ('s \<Rightarrow> MmsBuffer) \<Rightarrow> nat \<Rightarrow> nat \<Rightarrow> ('s, 'a) op \<Rightarrow> bool" where
  "keeps_pos w p n N m \<equiv> safe w (\<lambda>s. at_pos w n N (p s)) m (\<lambda>s. at_pos w n N (p s)) (\<lambda>s. at_pos w n N (p s))"

named_theorems safe_intros \<open>composed operations that are safe\<close>
named_theorems adv_intros \<open>operations that do not move the pointer back\<close>

lemma at_pos_mono: "at_pos w n N b \<Longrightarrow> k \<le> n \<Longrightarrow> at_pos w k N b"
  by (simp add: at_pos_def)

lemma at_pos_0: "at_pos w n N b \<Longrightarrow> at_pos w 0 N b"
  by (rule at_pos_mono) simp_all

lemma safeI: "(\<And>s. P s \<Longrightarrow> (case m s of Ok x t \<Rightarrow> Q t | Fail t \<Rightarrow> E t | Fault \<Rightarrow> \<not> w)) \<Longrightarrow> safe w P m Q E"
  by (simp add: safe_def)

lemma safeD: "safe w P m Q E \<Longrightarrow> P s \<Longrightarrow> (case m s of Ok x t \<Rightarrow> Q t | Fail t \<Rightarrow> E t | Fault \<Rightarrow> \<not> w)"
  by (simp add: safe_def)

lemma safe_weaken:
  assumes "safe w P m Q E" "\<And>s. P' s \<Longrightarrow> P s" "\<And>t. Q t \<Longrightarrow> Q' t" "\<And>t. E t \<Longrightarrow> E' t"
  shows "safe w P' m Q' E'"
  using assms by (fastforce simp: safe_def split: outcome.splits)

lemma stays_adv: "keeps_pos w p n N m \<Longrightarrow> adv w p n N m"
  by (erule safe_weaken) (auto intro: at_pos_0)

lemma safe_ret [safe_intros]: "safe w P (ret x) P E"
  by (simp add: safe_def ret_def)

lemma safe_fail: "(\<And>s. P s \<Longrightarrow> E s) \<Longrightarrow> safe w P fail Q E"
  by (simp add: safe_def fail_def)

lemma safe_bnd: "safe w P m R E \<Longrightarrow> (\<And>x. safe w R (k x) Q E) \<Longrightarrow> safe w P (bnd m k) Q E"
  by (fastforce simp: safe_def bnd_def split: outcome.splits)

lemma safe_seq: "safe w P m R E \<Longrightarrow> safe w R k Q E \<Longrightarrow> safe w P (seq m k) Q E"
  by (simp add: seq_def safe_bnd)

lemma safe_if [safe_intros]: "(c \<Longrightarrow> safe w P m Q E) \<Longrightarrow> (\<not> c \<Longrightarrow> safe w P k Q E) \<Longrightarrow> safe w P (if c then m else k) Q E"
  by simp

lemma safe_option [safe_intros]:
  "(x = None \<Longrightarrow> safe w P m Q E) \<Longrightarrow> (\<And>y. x = Some y \<Longrightarrow> safe w P (k y) Q E) \<Longrightarrow> safe w P (case x of None \<Rightarrow> m | Some y \<Rightarrow> k y) Q E"
  by (cases x) simp_all

lemma safe_prod [safe_intros]: "(\<And>a b. x = (a, b) \<Longrightarrow> safe w P (k a b) Q E) \<Longrightarrow> safe w P (case x of (a, b) \<Rightarrow> k a b) Q E"
  by (cases x) simp

lemma safe_let [safe_intros]: "safe w P (k x) Q E \<Longrightarrow> safe w P (let y = x in k y) Q E"
  by simp

lemma safe_gets [safe_intros]: "safe w P (gets f) P E"
  by (simp add: safe_def gets_def)

lemma safe_upd: "(\<And>s. P s \<Longrightarrow> Q (f s)) \<Longrightarrow> safe w P (upd f) Q E"
  by (simp add: safe_def upd_def)

lemma safe_attempt [safe_intros]: "safe w P m P P \<Longrightarrow> safe w P (attempt m) P E"
  by (rule safeI, drule (1) safeD) (simp add: attempt_def split: outcome.splits)

lemma safe_ignore [safe_intros]: "safe w P m P P \<Longrightarrow> safe w P (ignore m) P E"
  by (rule safeI, drule (1) safeD) (simp add: ignore_def split: outcome.splits)

lemma safe_collect: "(\<And>i. safe w P (f i) P E) \<Longrightarrow> safe w P (collect f i n) P E"
  by (induction n arbitrary: i) (auto intro: safe_bnd safe_intros)

lemma safe_on_buf:
  assumes "safe w P m Q E"
  shows "safe w (\<lambda>s. P (fst s)) (on_buf m) (\<lambda>s. Q (fst s)) (\<lambda>s. E (fst s))"
proof (rule safeI)
  fix s :: "'a \<times> 'c"
  assume "P (fst s)"
  from safeD [OF assms this] show "case on_buf m s of Ok x t \<Rightarrow> Q (fst t) | Fail t \<Rightarrow> E (fst t) | Fault \<Rightarrow> \<not> w"
    by (simp add: on_buf_def split: outcome.splits)
qed

lemma safe_zoom:
  assumes "safe w (\<lambda>s. P (fst s)) m (\<lambda>s. Q (fst s)) (\<lambda>s. E (fst s))"
  shows "safe w (\<lambda>s. P (fst s)) (zoom get put m) (\<lambda>s. Q (fst s)) (\<lambda>s. E (fst s))"
proof (rule safeI, goal_cases)
  case (1 s)
  then have "P (fst (fst s, get (snd s)))" by simp
  from safeD [OF assms this] show ?case by (auto simp: zoom_def split: outcome.splits)
qed

lemma safe_on_out [safe_intros]: "safe w (\<lambda>s. P (fst s)) (on_out f) (\<lambda>s. P (fst s)) E"
  by (simp add: safe_def on_out_def)

lemma safe_get_out [safe_intros]: "safe w P get_out P E"
  by (simp add: safe_def get_out_def)

lemma safe_with_new [safe_intros]: "m arr \<noteq> Fault \<Longrightarrow> (\<And>s. P s \<Longrightarrow> E s) \<Longrightarrow> safe w P (with_new arr m) P E"
  by (auto simp: safe_def with_new_def split: outcome.splits)

text \<open>The rules for an invariant: \<open>stay_intros\<close> carry \<open>keeps_pos\<close> and \<open>adv\<close> through composed operations.\<close>

lemma stays_fail: "safe w P fail P P"
  by (rule safe_fail)

lemma adv_fail: "adv w p n N fail"
  by (rule safe_fail) (rule at_pos_0)

lemma inv_bnd: "safe w P m P E \<Longrightarrow> (\<And>x. safe w P (k x) P E) \<Longrightarrow> safe w P (bnd m k) P E"
  by (rule safe_bnd)

lemma inv_seq: "safe w P m P E \<Longrightarrow> safe w P k P E \<Longrightarrow> safe w P (seq m k) P E"
  by (rule safe_seq)

lemma stays_on_buf: "keeps_pos w (\<lambda>b. b) n N m \<Longrightarrow> keeps_pos w fst n N (on_buf m)"
  by (rule safe_on_buf)

lemma adv_on_buf: "adv w (\<lambda>b. b) n N m \<Longrightarrow> adv w fst n N (on_buf m)"
  by (rule safe_on_buf)

lemma stays_zoom_out: "keeps_pos w fst n N m \<Longrightarrow> keeps_pos w fst n N (zoom get put m)"
  by (rule safe_zoom)

lemma adv_zoom: "adv w fst n N m \<Longrightarrow> adv w fst n N (zoom get put m)"
  by (rule safe_zoom)

lemmas stay_intros = safe_intros stays_fail adv_fail inv_bnd inv_seq stays_on_buf adv_on_buf stays_zoom_out adv_zoom

lemma stays_PeekOneByte: "keeps_pos w (\<lambda>b. b) n N PeekOneByte"
  by (rule safeI) (auto simp: PeekOneByte_def at_pos_def)

lemma GetOneByte_step: "safe w (at_pos w n N) GetOneByte (at_pos w (Suc n) N) (at_pos w n N)"
  by (rule safeI) (auto simp: GetOneByte_def at_pos_def)

lemma stays_GetOneByte: "keeps_pos w (\<lambda>b. b) n N GetOneByte"
  using GetOneByte_step by (rule safe_weaken) (auto intro: at_pos_mono)

lemma stays_IncreasePointer: "keeps_pos w (\<lambda>b. b) n N (IncreasePointer k)"
  by (rule safeI) (auto simp: IncreasePointer_def at_pos_def)

lemma stays_ReadDataBufferAt: "k \<le> MMS_PDU_MAX_SIZE \<Longrightarrow> keeps_pos w (\<lambda>b. b) n N (ReadDataBufferAt k len)"
  by (rule safeI) (auto simp: ReadDataBufferAt_def at_pos_def MMS_PDU_MAX_SIZE_def)

lemma stays_uintvar_loop: "keeps_pos w (\<lambda>b. b) n N (uintvar_loop v c x)"
proof (rule safeI)
  fix b
  assume "at_pos w n N b"
  then show "case uintvar_loop v c x b of Ok _ t \<Rightarrow> at_pos w n N t | Fail t \<Rightarrow> at_pos w n N t | Fault \<Rightarrow> \<not> w"
  proof (induction v c x b rule: uintvar_loop.induct)
    case (1 v c x b)
    from safeD [OF stays_GetOneByte 1(2)] 1 show ?case
      by (cases "x AND 0x80 = 0"; subst uintvar_loop.simps) (auto split: outcome.splits)
  qed
qed

lemma stays_DecodeUintvar: "keeps_pos w (\<lambda>b. b) n N DecodeUintvar"
  unfolding DecodeUintvar_def by (intro stay_intros stays_GetOneByte stays_uintvar_loop)

lemma stays_read_until_zero: "keeps_pos w (\<lambda>b. b) n N read_until_zero"
proof (rule safeI)
  fix b
  assume "at_pos w n N b"
  then show "case read_until_zero b of Ok _ t \<Rightarrow> at_pos w n N t | Fail t \<Rightarrow> at_pos w n N t | Fault \<Rightarrow> \<not> w"
  proof (induction b rule: read_until_zero.induct)
    case (1 b)
    from safeD [OF stays_GetOneByte 1(2)] 1 show ?case
      by (subst read_until_zero.simps) (auto split: outcome.splits)
  qed
qed

lemma stays_DecodeTokenText: "keeps_pos w (\<lambda>b. b) n N DecodeTokenText"
  unfolding DecodeTokenText_def Let_def by (intro stay_intros stays_PeekOneByte stays_read_until_zero)

lemma stays_DecodeQuotedText: "keeps_pos w (\<lambda>b. b) n N DecodeQuotedText"
  unfolding DecodeQuotedText_def by (intro stay_intros stays_read_until_zero)

lemma stays_DecodeText: "keeps_pos w (\<lambda>b. b) n N DecodeText"
proof -
  have d: "safe w (at_pos w (Suc n) N) (ignore (DecreasePointer 1)) (at_pos w n N) (at_pos w n N)"
    by (auto simp: safe_def ignore_def DecreasePointer_def at_pos_def)
  have q: "safe w (at_pos w (Suc n) N) (if x \<noteq> 127 then seq (ignore (DecreasePointer 1)) (ret 0) else ret 1 :: (MmsBuffer, u32) op)
      (at_pos w n N) (at_pos w n N)" for x :: u8
    using safe_seq [OF d safe_ret] by (cases "x = 127") (simp_all add: safe_def ret_def at_pos_def)
  have "keeps_pos w (\<lambda>b. b) n N (bnd read_until_zero (\<lambda>str. ret (str, q + word_of_nat (length str) :: u32)))" for q
    by (intro stay_intros stays_read_until_zero)
  then show ?thesis unfolding DecodeText_def by (intro safe_bnd [OF GetOneByte_step] safe_bnd [OF q])
qed

lemma stays_DecodeShortInteger: "keeps_pos w (\<lambda>b. b) n N DecodeShortInteger"
  unfolding DecodeShortInteger_def by (intro stay_intros stays_GetOneByte)

lemma stays_DecodeLongInteger: "keeps_pos w (\<lambda>b. b) n N DecodeLongInteger"
  unfolding DecodeLongInteger_def by (intro stay_intros safe_collect stays_GetOneByte)

lemma stays_peek_or_zero: "keeps_pos w (\<lambda>b. b) n N peek_or_zero"
  unfolding peek_or_zero_def by (intro stay_intros stays_PeekOneByte)

lemma stays_DecodeIs:
  "keeps_pos w (\<lambda>b. b) n N DecodeIsShortInt" "keeps_pos w (\<lambda>b. b) n N DecodeIsString" "keeps_pos w (\<lambda>b. b) n N DecodeIsValueLength"
  unfolding DecodeIsShortInt_def DecodeIsString_def DecodeIsValueLength_def
  by (intro stay_intros stays_peek_or_zero)+

lemma stays_DecodeInteger: "keeps_pos w (\<lambda>b. b) n N DecodeInteger"
  unfolding DecodeInteger_def
  by (intro stay_intros stays_DecodeIs stays_DecodeShortInteger stays_DecodeLongInteger)

lemmas stays_values = stays_PeekOneByte stays_GetOneByte stays_IncreasePointer stays_DecodeUintvar stays_DecodeTokenText
  stays_DecodeQuotedText stays_DecodeText stays_DecodeShortInteger stays_DecodeLongInteger stays_DecodeIs stays_DecodeInteger

lemmas adv_values [adv_intros] = stays_values [THEN stays_adv]

lemma adv_DecreasePointer_fail [adv_intros]: "adv w (\<lambda>b. b) n N (seq (ignore (DecreasePointer 1)) fail)"
  by (auto simp: safe_def op_simps DecreasePointer_def at_pos_def)

lemma adv_attempt_GetOneByte [adv_intros]: "adv w (\<lambda>b. b) n N (attempt GetOneByte)"
  by (intro stay_intros stays_GetOneByte)

lemma adv_DecodeValueLength [adv_intros]: "adv w (\<lambda>b. b) n N DecodeValueLength"
  unfolding DecodeValueLength_def by (intro adv_intros stay_intros)

lemma adv_DecodeValueLengthReturnLen [adv_intros]: "adv w (\<lambda>b. b) n N DecodeValueLengthReturnLen"
  unfolding DecodeValueLengthReturnLen_def by (intro adv_intros stay_intros)

section \<open>A buffer as the octets behind and before its pointer\<close>

definition mb :: "bytes \<Rightarrow> bytes \<Rightarrow> MmsBuffer" where
  "mb p xs = \<lparr>pduBuffer = p @ xs, curPosition = length p, totolLength = length p + length xs, savePosition = 0\<rparr>"

definition dec_rest :: "MmsBuffer \<Rightarrow> bytes" where
  "dec_rest b = take (totolLength b - curPosition b) (drop (curPosition b) (pduBuffer b))"

definition dec_step :: "MmsBuffer \<Rightarrow> MmsBuffer" where
  "dec_step b = b\<lparr>curPosition := curPosition b + 1\<rparr>"

text \<open>The decode buffer is a source of octets, the encode buffer a sink.\<close>

interpretation mrd: byte_source GetOneByte dec_step "at_pos True 0 N" dec_rest
proof
  fix b x xs
  assume b: "at_pos True 0 N b" and r: "dec_rest b = x # xs"
  then have "curPosition b \<noteq> totolLength b" by (auto simp: dec_rest_def)
  with b have lt: "curPosition b < totolLength b" "curPosition b < length (pduBuffer b)" by (auto simp: at_pos_def)
  then have "dec_rest b = pduBuffer b ! curPosition b # dec_rest (dec_step b)"
    by (simp add: dec_rest_def dec_step_def take_Cons' Suc_diff_Suc flip: Cons_nth_drop_Suc)
  with b r lt show "GetOneByte b = Ok x (dec_step b)" "at_pos True 0 N (dec_step b)" "dec_rest (dec_step b) = xs"
    by (simp_all add: GetOneByte_def dec_step_def at_pos_def)
qed (auto simp: dec_rest_def at_pos_def GetOneByte_def)

interpretation mwr: byte_sink MmsWriteByte "\<lambda>x b. b @ [x]" "\<lambda>b. length b \<le> MMS_PDU_MAX_SIZE" "\<lambda>b. b" "\<lambda>b. MMS_PDU_MAX_SIZE - length b"
  by unfold_locales (auto simp: MmsWriteByte_def)

named_theorems mb_simps \<open>the operations of a decode buffer on the octets before its pointer\<close>

lemma mb_fields [simp]:
  "curPosition (mb p xs) = length p" "totolLength (mb p xs) = length p + length xs" "pduBuffer (mb p xs) = p @ xs"
  by (simp_all add: mb_def)

lemma GetOneByte_mb [mb_simps]: "GetOneByte (mb p (x # xs)) = Ok x (mb (p @ [x]) xs)" "GetOneByte (mb p []) = Fail (mb p [])"
  by (simp_all add: GetOneByte_def mb_def)

lemma PeekOneByte_mb [mb_simps]: "PeekOneByte (mb p (x # xs)) = Ok x (mb p (x # xs))" "PeekOneByte (mb p []) = Fail (mb p [])"
  by (simp_all add: PeekOneByte_def nth_append)

lemma peek_or_zero_mb [mb_simps]:
  "peek_or_zero (mb p (x # xs)) = Ok x (mb p (x # xs))" "peek_or_zero (mb p []) = Ok 0 (mb p [])"
  by (simp_all add: peek_or_zero_def op_simps mb_simps)

lemma DecreasePointer_mb [mb_simps]: "DecreasePointer (Suc 0) (mb (p @ [x]) xs) = Ok () (mb p (x # xs))"
  by (simp add: DecreasePointer_def mb_def)

lemma IncreasePointer_mb [mb_simps]: "IncreasePointer (length w) (mb p (w @ xs)) = Ok () (mb (p @ w) xs)"
  by (simp add: IncreasePointer_def mb_def)

lemma ReadDataBufferAt_mb:
  "w \<noteq> [] \<Longrightarrow> length p + length w + length xs \<le> MMS_PDU_MAX_SIZE \<Longrightarrow>
   ReadDataBufferAt (length p) (length w) (mb p (w @ xs)) = Ok w (mb p (w @ xs))"
  by (auto simp: ReadDataBufferAt_def MMS_PDU_MAX_SIZE_def memcpy_s_ok_def)

lemma collect_GetOneByte_mb: "collect (\<lambda>_. GetOneByte) i (length w) (mb p (w @ xs)) = Ok w (mb (p @ w) xs)"
  by (induction w arbitrary: i p) (simp_all add: op_simps mb_simps)

lemma read_until_zero_mb:
  "0 \<notin> set w \<Longrightarrow> read_until_zero (mb p (w @ 0 # xs)) = Ok w (mb (p @ w @ [0]) xs)"
  by (induction w arbitrary: p) (subst read_until_zero.simps; simp add: mb_simps)+

lemma mb_write: "each MmsWriteByte w b = Ok () (b @ w)" if "length b + length w \<le> MMS_PDU_MAX_SIZE"
proof -
  have "fold (\<lambda>x b. b @ [x]) w b = b @ w" by (induction w arbitrary: b) simp_all
  with that mwr.each_write [of b w] show ?thesis by simp
qed

section \<open>Values on the wire\<close>

text \<open>
  A kind of value: how it is encoded, how it is decoded, the octets it has on the wire, and the values that survive.
\<close>

locale wsp_value =
  fixes enc :: "'v \<Rightarrow> (MmsEncodeBuffer, unit) op" and dec :: "(MmsBuffer, 'r) op"
    and octets :: "'v \<Rightarrow> bytes" and result :: "'v \<Rightarrow> 'r" and fits :: "'v \<Rightarrow> bool"
  assumes enc_octets: "fits v \<Longrightarrow> length b + length (octets v) < MMS_PDU_MAX_SIZE \<Longrightarrow> enc v b = Ok () (b @ octets v)"
    and dec_octets: "fits v \<Longrightarrow> dec (mb p (octets v @ xs)) = Ok (result v) (mb (p @ octets v) xs)"
begin

lemma roundtrip:
  "fits v \<Longrightarrow> length (octets v) < MMS_PDU_MAX_SIZE \<Longrightarrow>
   \<exists>w. enc v [] = Ok () w \<and> dec (mb [] w) = Ok (result v) (mb w [])"
  using enc_octets [of v "[]"] dec_octets [of v "[]" "[]"] by simp

lemma each_enc:
  "\<forall>v \<in> set vs. fits v \<Longrightarrow> length b + length (concat (map octets vs)) < MMS_PDU_MAX_SIZE \<Longrightarrow>
   each enc vs b = Ok () (b @ concat (map octets vs))"
  by (induction vs arbitrary: b) (simp_all add: op_simps enc_octets)

lemma collect_dec:
  "\<forall>v \<in> set vs. fits v \<Longrightarrow>
   collect (\<lambda>_. dec) i (length vs) (mb p (concat (map octets vs) @ xs)) = Ok (map result vs) (mb (p @ concat (map octets vs)) xs)"
  by (induction vs arbitrary: i p) (simp_all add: op_simps dec_octets)

end

subsection \<open>Variable length integers\<close>

lemma bit_0x7F: "bit (0x7F :: int) n \<longleftrightarrow> n < 7"
  using bit_mask_iff [where 'a = int, of 7 n] by (simp add: mask_eq_exp_minus_1)

lemma bit_0x80: "bit (0x80 :: int) n \<longleftrightarrow> n = 7"
  using bit_exp_iff [where 'a = int, of 7 n] by auto

lemma add_diff_7: "7 + (n - 7) = (if 7 \<le> n then n else (7 :: nat))"
  by simp

lemmas septet_bits = bit_simps bit_0x7F bit_0x80 add_diff_7

lemma septet_in_low: "septet_in (drop_bit 7 v) (ucast (v AND 0x7F)) = v" "septet_in (drop_bit 7 v) (0x80 OR ucast (v AND 0x7F)) = v"
  by (auto simp: septet_in_def septet_bits intro!: bit_word_eqI split: if_splits)

definition uintvar_value :: "u32 \<Rightarrow> bytes \<Rightarrow> u32" where
  "uintvar_value v xs = foldl septet_in v xs"

lemma septets_value_more: "uintvar_value 0 (rev (uintvar_more v)) = v"
proof (induction v rule: uintvar_more.induct)
  case (1 v)
  then show ?case by (subst uintvar_more.simps) (simp add: uintvar_value_def septet_in_low)
qed

lemma uintvar_more_high: "x \<in> set (uintvar_more v) \<Longrightarrow> x AND 0x80 \<noteq> 0"
proof (induction v rule: uintvar_more.induct)
  case (1 v)
  have "(0x80 OR y) AND 0x80 = (0x80 :: u8)" for y by (auto simp: septet_bits intro!: bit_word_eqI)
  with 1 show ?case by (subst (asm) uintvar_more.simps) (auto split: if_splits)
qed

lemma uintvar_more_length: "unat v < 2 ^ (7 * k) \<Longrightarrow> length (uintvar_more v) \<le> k"
proof (induction k arbitrary: v)
  case 0
  then show ?case by (subst uintvar_more.simps) (simp add: unat_eq_zero)
next
  case (Suc k)
  have "unat (drop_bit 7 v) < 2 ^ (7 * k)" using Suc.prems
    by (simp only: unat_drop_bit_eq) (simp add: drop_bit_eq_div less_mult_imp_div_less mult.commute power_add)
  from Suc.IH [OF this] show ?case by (subst uintvar_more.simps) simp
qed

lemma uintvar_octets_length: "length (uintvar_octets v) \<le> 5"
proof -
  have "unat (drop_bit 7 v) = unat v div 2 ^ 7" by (simp only: unat_drop_bit_eq) (simp only: drop_bit_eq_div)
  moreover have "unat v < 2 ^ LENGTH(32)" by (rule unsigned_less)
  ultimately have "unat (drop_bit 7 v) < 2 ^ (7 * 4)" by simp
  from uintvar_more_length [OF this] show ?thesis by (simp add: uintvar_octets_def)
qed

lemma EncodeUintvar_octets:
  "length b + length (uintvar_octets v) \<le> MMS_PDU_MAX_SIZE \<Longrightarrow> EncodeUintvar v b = Ok () (b @ uintvar_octets v)"
  using uintvar_octets_length [of v] mb_write [of b "uintvar_octets v"]
  by (simp add: EncodeUintvar_def uintvar_octets_def Let_def)

lemma uintvar_loop_mb:
  "\<forall>y \<in> set (butlast (x # xs)). y AND 0x80 \<noteq> 0 \<Longrightarrow> last (x # xs) AND 0x80 = 0 \<Longrightarrow>
   uintvar_loop v c x (mb p (xs @ rest)) = Ok (uintvar_value v (x # xs), c + word_of_nat (length xs)) (mb (p @ xs) rest)"
proof (induction xs arbitrary: v c x p)
  case Nil
  then show ?case by (subst uintvar_loop.simps) (simp add: uintvar_value_def)
next
  case (Cons y ys)
  then show ?case by (subst uintvar_loop.simps) (simp add: uintvar_value_def mb_simps)
qed

lemma DecodeUintvar_mb:
  assumes "xs \<noteq> []" "\<forall>y \<in> set (butlast xs). y AND 0x80 \<noteq> 0" "last xs AND 0x80 = 0"
  shows "DecodeUintvar (mb p (xs @ rest)) = Ok (uintvar_value 0 xs, word_of_nat (length xs)) (mb (p @ xs) rest)"
proof (cases xs)
  case (Cons x ys)
  with assms uintvar_loop_mb [of x ys 0 1 "p @ [x]" rest] show ?thesis
    by (simp add: DecodeUintvar_def op_simps mb_simps)
qed (use assms in simp)

lemma uintvar_octets_form: "\<forall>y \<in> set (butlast (uintvar_octets v)). y AND 0x80 \<noteq> 0" "last (uintvar_octets v) AND 0x80 = 0"
proof -
  have "(y AND 0x7F) AND 0x80 = (0 :: u8)" for y by (auto simp: septet_bits intro!: bit_word_eqI)
  moreover have "ucast (v AND 0x7F) = (ucast v AND 0x7F :: u8)" by (auto simp: septet_bits intro!: bit_word_eqI)
  ultimately show "\<forall>y \<in> set (butlast (uintvar_octets v)). y AND 0x80 \<noteq> 0" "last (uintvar_octets v) AND 0x80 = 0"
    by (auto simp: uintvar_octets_def uintvar_more_high)
qed

interpretation uintvar: wsp_value EncodeUintvar DecodeUintvar uintvar_octets "\<lambda>v. (v, word_of_nat (length (uintvar_octets v)))" "\<lambda>_. True"
proof
  fix v p xs
  have "uintvar_value 0 (uintvar_octets v) = v"
    using septets_value_more [of "drop_bit 7 v"] by (simp add: uintvar_value_def uintvar_octets_def septet_in_low)
  then show "DecodeUintvar (mb p (uintvar_octets v @ xs)) = Ok (v, word_of_nat (length (uintvar_octets v))) (mb (p @ uintvar_octets v) xs)"
    using DecodeUintvar_mb [of "uintvar_octets v" p xs] uintvar_octets_form [of v] by (simp add: uintvar_octets_def)
qed (simp add: EncodeUintvar_octets)

subsection \<open>Lengths, integers and texts\<close>

definition value_length_octets :: "u32 \<Rightarrow> bytes" where
  "value_length_octets v = (if v \<le> 30 then [ucast v] else 0x1F # uintvar_octets v)"

lemma short_length: "v \<le> 30 \<Longrightarrow> ucast (v :: u32) \<le> (30 :: u8) \<and> ucast (ucast v :: u8) = v"
proof -
  assume "v \<le> 30"
  then have "unat v \<le> 30" by (simp add: word_le_nat_alt)
  moreover from this have "unat (ucast v :: u8) = unat v"
    by (simp only: unsigned_ucast_eq unsigned_take_bit_eq) (simp add: take_bit_eq_mod)
  moreover have "unat (ucast x :: u32) = unat x" for x :: u8
    using unsigned_less [of x, where 'a = nat] by (simp only: unsigned_ucast_eq unsigned_take_bit_eq) (simp add: take_bit_eq_mod)
  ultimately show ?thesis by (simp only: word_le_nat_alt word_unat_eq_iff) simp
qed

interpretation value_length: wsp_value EncodeValueLength DecodeValueLength value_length_octets "\<lambda>v. v" "\<lambda>_. True"
proof
  fix v and b :: bytes
  assume "length b + length (value_length_octets v) < MMS_PDU_MAX_SIZE"
  then show "EncodeValueLength v b = Ok () (b @ value_length_octets v)"
    using short_length [of v] uintvar.enc_octets [of "b @ [0x1F]" v]
    by (cases "v \<le> 30") (auto simp: EncodeValueLength_def EncodeShortLength_def value_length_octets_def MmsWriteByte_def op_simps)
next
  fix v p xs
  show "DecodeValueLength (mb p (value_length_octets v @ xs)) = Ok v (mb (p @ value_length_octets v) xs)"
    using short_length [of v] uintvar.dec_octets [of "p @ [0x1F]" v xs]
    by (auto simp: DecodeValueLength_def value_length_octets_def op_simps mb_simps)
qed

lemma octet_low: "push_bit 8 (drop_bit 8 v) OR ucast (ucast v :: u8) = (v :: u64)"
  by (auto simp: bit_simps intro!: bit_word_eqI)

lemma octets_value_long: "multi_octet_value (rev (long_octets v)) = v"
proof (induction v rule: long_octets.induct)
  case (1 v)
  then show ?case by (subst long_octets.simps) (simp add: multi_octet_value_def octet_low)
qed

lemma long_octets_length: "unat v < 2 ^ (8 * k) \<Longrightarrow> length (long_octets v) \<le> k"
proof (induction k arbitrary: v)
  case 0
  then show ?case by (subst long_octets.simps) (simp add: unat_eq_zero)
next
  case (Suc k)
  have "unat (drop_bit 8 v) < 2 ^ (8 * k)" using Suc.prems
    by (simp only: unat_drop_bit_eq) (simp add: drop_bit_eq_div less_mult_imp_div_less mult.commute power_add)
  from Suc.IH [OF this] show ?case by (subst long_octets.simps) simp
qed

definition long_integer_octets :: "u64 \<Rightarrow> bytes" where
  "long_integer_octets v = (let w = (if v = 0 then [0] else rev (long_octets v)) in word_of_nat (length w) # w)"

lemma long_integer_body:
  obtains w where "long_integer_octets v = word_of_nat (length w) # w" "w = (if v = 0 then [0] else rev (long_octets v))"
    "length w \<le> 8" "multi_octet_value w = v"
proof
  have "unat v < 2 ^ LENGTH(64)" by (rule unsigned_less)
  then have "length (long_octets v) \<le> 8" by (intro long_octets_length) simp
  then show "length (if v = 0 then [0] else rev (long_octets v)) \<le> 8" by simp
  show "multi_octet_value (if v = 0 then [0] else rev (long_octets v)) = v"
    using octets_value_long [of v] by (simp add: multi_octet_value_def)
qed (simp_all add: long_integer_octets_def)

interpretation long_integer: wsp_value EncodeLongInteger DecodeLongInteger long_integer_octets "\<lambda>v. v" "\<lambda>_. True"
proof
  fix v and b :: bytes
  assume room: "length b + length (long_integer_octets v) < MMS_PDU_MAX_SIZE"
  obtain w where w: "long_integer_octets v = word_of_nat (length w) # w" "w = (if v = 0 then [0] else rev (long_octets v))" "length w \<le> 8"
    by (rule long_integer_body)
  then have "rev w = (if v = 0 then [0] else long_octets v)" by simp
  with w room mb_write [of "b @ [word_of_nat (length w)]" w] show "EncodeLongInteger v b = Ok () (b @ long_integer_octets v)"
    by (cases "v = 0") (auto simp: EncodeLongInteger_def MmsWriteByte_def op_simps Let_def)
next
  fix v p xs
  obtain w where w: "long_integer_octets v = word_of_nat (length w) # w" "length w \<le> 8" "multi_octet_value w = v"
    by (rule long_integer_body)
  have n: "unat (word_of_nat (length w) :: u8) = length w" using w(2) by (simp add: unat_of_nat)
  then have "\<not> word_of_nat (length w) > LONG_VALUE_LEN_MAX" using w(2) by (simp add: LONG_VALUE_LEN_MAX_def word_less_nat_alt)
  with w n collect_GetOneByte_mb [of 0 w "p @ [word_of_nat (length w)]" xs]
  show "DecodeLongInteger (mb p (long_integer_octets v @ xs)) = Ok v (mb (p @ long_integer_octets v) xs)"
    by (simp add: DecodeLongInteger_def op_simps mb_simps)
qed

text \<open>Short and long integers are told apart by the first octet.\<close>

definition integer_octets :: "u32 \<Rightarrow> bytes" where
  "integer_octets v = (if v \<le> 127 then [ucast v OR 0x80] else long_integer_octets (ucast v))"

lemma long_integer_hd: "\<exists>n w. long_integer_octets v = n # w \<and> n \<le> 8"
proof -
  obtain w where "long_integer_octets v = word_of_nat (length w) # w" "length w \<le> 8" by (rule long_integer_body)
  then show ?thesis by (auto simp: word_le_nat_alt unat_of_nat)
qed

lemma short_integer: "(x OR 0x80) AND 0x7F = x AND (0x7F :: u8)" "0x7F < x OR (0x80 :: u8)"
proof -
  show "(x OR 0x80) AND 0x7F = x AND (0x7F :: u8)" by (auto simp: septet_bits intro!: bit_word_eqI)
  have "128 \<le> (128 :: int) OR uint x" by (rule or_greater_eq) simp
  then show "0x7F < x OR (0x80 :: u8)" by (simp add: word_less_def unsigned_or_eq or.commute)
qed

lemma ucast_u8_u64: "unat (ucast (x :: u8) :: u64) = unat x"
proof -
  have "unat x < 2 ^ LENGTH(8)" by (rule unsigned_less)
  then show ?thesis by (simp only: unsigned_ucast_eq unsigned_take_bit_eq) (simp add: take_bit_eq_mod)
qed

lemma ucast_u32_u64: "unat (ucast (x :: u32) :: u64) = unat x"
proof -
  have "unat x < 2 ^ LENGTH(32)" by (rule unsigned_less)
  then show ?thesis by (simp only: unsigned_ucast_eq unsigned_take_bit_eq) (simp add: take_bit_eq_mod)
qed

lemma short_integer_value:
  assumes "v \<le> (127 :: u32)"
  shows "ucast (((ucast v :: u8) OR 0x80) AND 0x7F) = (ucast v :: u64)"
proof -
  have v: "unat v \<le> 127" using assms by (simp add: word_le_nat_alt)
  then have c: "unat (ucast v :: u8) = unat v"
    by (simp only: unsigned_ucast_eq unsigned_take_bit_eq) (simp add: take_bit_eq_mod)
  have "(ucast v :: u8) AND 0x7F = ucast v"
  proof -
    have "(ucast v :: u8) AND mask 7 = take_bit 7 (ucast v)" by (simp add: take_bit_eq_mask)
    also have "\<dots> = ucast v" using v c by (simp add: word_unat_eq_iff unsigned_take_bit_eq) (simp add: take_bit_eq_mod)
    finally show ?thesis by (simp add: mask_eq_exp_minus_1)
  qed
  then show ?thesis using c by (simp only: short_integer word_unat_eq_iff ucast_u8_u64 ucast_u32_u64)
qed

interpretation integer: wsp_value EncodeInteger DecodeInteger integer_octets ucast "\<lambda>_. True"
proof
  fix v and b :: bytes
  assume "length b + length (integer_octets v) < MMS_PDU_MAX_SIZE"
  then show "EncodeInteger v b = Ok () (b @ integer_octets v)"
    using long_integer.enc_octets [of b "ucast v"]
    by (cases "v \<le> 127") (auto simp: EncodeInteger_def integer_octets_def EncodeShortInteger_def MmsWriteByte_def)
next
  fix v :: u32 and p xs
  obtain n w where n: "long_integer_octets (ucast v) = n # w" "n \<le> 8" using long_integer_hd by blast
  then have "\<not> 0x7F < n" by (simp add: word_le_nat_alt word_less_nat_alt)
  with n long_integer.dec_octets [of p "ucast v" xs] short_integer_value [of v] short_integer [of "ucast v"]
  show "DecodeInteger (mb p (integer_octets v @ xs)) = Ok (ucast v) (mb (p @ integer_octets v) xs)"
    by (cases "v \<le> 127")
      (auto simp: DecodeInteger_def integer_octets_def DecodeIsShortInt_def DecodeShortInteger_def op_simps mb_simps)
qed

definition text_octets :: "bool \<Rightarrow> bytes \<Rightarrow> bytes" where
  "text_octets sc v = (if \<not> sc \<and> hd v > 0x7F then [0x7F] else []) @ v @ [0]"

definition is_text :: "bytes \<Rightarrow> bool" where
  "is_text v \<longleftrightarrow> v \<noteq> [] \<and> 0 \<notin> set v \<and> hd v \<noteq> 0x7F"

interpretation wsp_text: wsp_value "EncodeText sc" DecodeText "text_octets sc"
  "\<lambda>v. (v, word_of_nat (length (text_octets sc v) - 1))" is_text for sc
proof
  fix v and b :: bytes
  assume "is_text v" "length b + length (text_octets sc v) < MMS_PDU_MAX_SIZE"
  then show "EncodeText sc v b = Ok () (b @ text_octets sc v)"
    using mb_write [of b v] mb_write [of "b @ [0x7F]" v]
    by (auto simp: EncodeText_def text_octets_def is_text_def MmsWriteByte_def op_simps)
next
  fix v p xs
  assume v: "is_text v"
  then obtain c w where c: "v = c # w" "c \<noteq> 0x7F" by (cases v) (auto simp: is_text_def)
  with v read_until_zero_mb [of v p xs] read_until_zero_mb [of v "p @ [0x7F]" xs]
  show "DecodeText (mb p (text_octets sc v @ xs)) =
      Ok (v, word_of_nat (length (text_octets sc v) - 1)) (mb (p @ text_octets sc v) xs)"
    by (auto simp: DecodeText_def text_octets_def is_text_def op_simps mb_simps)
qed

definition quoted_octets :: "bytes \<Rightarrow> bytes" where
  "quoted_octets v = 0x22 # v @ [0]"

interpretation quoted_text: wsp_value EncodeQuotedText DecodeQuotedText quoted_octets
  "\<lambda>v. (v, word_of_nat (length (quoted_octets v) - 1))" "\<lambda>v. v \<noteq> [] \<and> 0 \<notin> set v \<and> 0x22 \<notin> set v"
proof
  fix v and b :: bytes
  assume "v \<noteq> [] \<and> 0 \<notin> set v \<and> 0x22 \<notin> set v" "length b + length (quoted_octets v) < MMS_PDU_MAX_SIZE"
  then show "EncodeQuotedText v b = Ok () (b @ quoted_octets v)"
    using mb_write [of "b @ [0x22]" v] by (auto simp: EncodeQuotedText_def quoted_octets_def MmsWriteByte_def op_simps)
next
  fix v p xs
  assume v: "v \<noteq> [] \<and> (0 :: u8) \<notin> set v \<and> 0x22 \<notin> set v"
  then have "filter (\<lambda>c. c \<noteq> 0x22) v = v" by (auto intro: filter_True)
  with v read_until_zero_mb [of "0x22 # v" p xs]
  show "DecodeQuotedText (mb p (quoted_octets v @ xs)) = Ok (v, word_of_nat (length (quoted_octets v) - 1)) (mb (p @ quoted_octets v) xs)"
    by (simp add: DecodeQuotedText_def quoted_octets_def op_simps)
qed

section \<open>The range of variable length integers\<close>

definition base128 :: "bytes \<Rightarrow> nat" where
  "base128 xs = foldl (\<lambda>n x. n * 128 + unat (x AND 0x7F)) 0 xs"

lemma septet_in_arith: "septet_in v x = v * 128 + ucast (x AND 0x7F)"
proof -
  have "push_bit 7 v + ucast (x AND 0x7F) = push_bit 7 v OR ucast (x AND 0x7F)"
    by (rule disjunctive_add_eq_or) (auto simp: septet_bits intro!: bit_word_eqI)
  then show ?thesis by (simp add: septet_in_def push_bit_eq_mult)
qed

lemma septets_value_base128: "uintvar_value (word_of_nat n) xs = word_of_nat (foldl (\<lambda>n x. n * 128 + unat (x AND 0x7F)) n xs)"
proof (induction xs arbitrary: n)
  case (Cons x xs)
  have "septet_in (word_of_nat n) x = word_of_nat (n * 128 + unat (x AND 0x7F))" by (simp add: septet_in_arith)
  with Cons.IH [of "n * 128 + unat (x AND 0x7F)"] show ?case
    unfolding uintvar_value_def foldl_Cons by (simp only:)
qed (simp add: uintvar_value_def)

lemma foldl_base128_less: "n < 128 ^ k \<Longrightarrow> foldl (\<lambda>n x. n * 128 + unat (x AND (0x7F :: u8))) n xs < 128 ^ (k + length xs)"
proof (induction xs arbitrary: n k)
  case (Cons x xs)
  have "x AND 0x7F \<le> (0x7F :: u8)" by (rule word_and_le1)
  then have "n * 128 + unat (x AND 0x7F) < 128 ^ Suc k" using Cons.prems by (simp add: word_le_nat_alt)
  from Cons.IH [OF this] show ?case by simp
qed simp

text \<open>
  C33. What a variable length integer is decoded to: the number to base 128 of its octets modulo \<^verbatim>\<open>2^32\<close>, however many octets it has. WAP-230
  allows at most five octets; \<^verbatim>\<open>DecodeUintvar\<close> accepts any number of them and loses the upper bits. Up to four octets the value is exact.
\<close>

theorem DecodeUintvar_modulo:
  assumes "xs \<noteq> []" "\<forall>y \<in> set (butlast xs). y AND 0x80 \<noteq> 0" "last xs AND 0x80 = 0"
  shows "DecodeUintvar (mb p (xs @ rest)) = Ok (word_of_nat (base128 xs), word_of_nat (length xs)) (mb (p @ xs) rest) \<and>
    (length xs \<le> 4 \<longrightarrow> unat (word_of_nat (base128 xs) :: u32) = base128 xs)"
proof -
  have "uintvar_value 0 xs = word_of_nat (base128 xs)" using septets_value_base128 [of 0 xs] by (simp add: base128_def)
  with DecodeUintvar_mb [OF assms, of p rest]
  have "DecodeUintvar (mb p (xs @ rest)) = Ok (word_of_nat (base128 xs), word_of_nat (length xs)) (mb (p @ xs) rest)" by simp
  moreover have "unat (word_of_nat (base128 xs) :: u32) = base128 xs" if "length xs \<le> 4"
  proof -
    have "base128 xs < 128 ^ length xs" using foldl_base128_less [of 0 0 xs] by (simp add: base128_def)
    also have "\<dots> \<le> 128 ^ 4" using that by (intro power_increasing) simp_all
    finally show ?thesis by (simp add: unat_of_nat)
  qed
  ultimately show ?thesis by simp
qed

theorem DecodeUintvar_modulo_witness:
  "DecodeUintvar (mb [] ([0x90, 0x80, 0x80, 0x80, 0x01] @ [])) = Ok (1, 5) (mb [0x90, 0x80, 0x80, 0x80, 0x01] [])"
  using DecodeUintvar_modulo [of "[0x90, 0x80, 0x80, 0x80, 0x01]" "[]" "[]"] by (simp add: base128_def)

end
