(* ===== verification/Mms_Content.thy ===== *)
theory Mms_Content
  imports Wsp_Values
begin

text \<open>
  The values of the MMS codec that are made of several octet strings: encoded strings and addresses (\<^verbatim>\<open>mms_encode_string.cpp\<close>,
  \<^verbatim>\<open>mms_address.cpp\<close>), content types with their parameters (\<^verbatim>\<open>mms_content_type.cpp\<close>, \<^verbatim>\<open>mms_content_param.cpp\<close>, \<^verbatim>\<open>mms_charset.cpp\<close>),
  and the quoted printable transfer encoding (\<^verbatim>\<open>mms_quoted_printable.cpp\<close>).
\<close>

definition ascii :: "string \<Rightarrow> bytes" where
  "ascii s = map of_char s"

text \<open>
  What the codec takes from outside: whether \<^verbatim>\<open>char\<close> is signed, the clock, the conversion of character sets and of base 64 by the service,
  \<^verbatim>\<open>sscanf_s\<close> for two hexadecimal digits, the transaction identifier and the file name made from the clock, and the file system.
\<close>

record mms_env =
  char_signed :: bool
  mms_now :: u64
  encode_string_func :: "u32 \<Rightarrow> u32 \<Rightarrow> bytes \<Rightarrow> bool \<times> bytes"
  base64_decode :: "bytes \<Rightarrow> bytes"
  scan_hex :: "bytes \<Rightarrow> u32 option"
  transaction_id :: bytes
  time_name :: "bytes option"
  real_path :: "bytes \<Rightarrow> bytes option"
  read_file :: "bytes \<Rightarrow> bytes option"

section \<open>Quoted printable\<close>

definition hex_upper :: "u8 \<Rightarrow> u8" where
  "hex_upper n = (if n < 10 then 0x30 + n else 0x37 + n)"

definition qp_char :: "u8 \<Rightarrow> bytes" where
  "qp_char b =
     (if (33 \<le> b \<and> b < 61) \<or> (61 < b \<and> b \<le> 126) then [b]
      else [0x3D, hex_upper (drop_bit 4 b), hex_upper (b AND 0x0F)])"

definition QuotedPrintableEncode :: "bytes \<Rightarrow> bytes" where
  "QuotedPrintableEncode input = (if length input > MMS_PDU_MAX_SIZE then [] else concat (map qp_char input))"

definition MAX_MMS_ATTACHMENT_LEN :: nat where
  "MAX_MMS_ATTACHMENT_LEN = 10 * 1024 * 1024"

text \<open>The loop on the text that is left; the soft line break it looks for is the text \<^verbatim>\<open>=/r\<close>.\<close>

function qp_loop :: "mms_env \<Rightarrow> bytes \<Rightarrow> bytes" where
  "qp_loop env [] = []"
| "qp_loop env (c # cs) =
     (if take 3 (c # cs) = ascii ''=/r'' then qp_loop env (drop 2 cs)
      else if c = 0x3D \<and> scan_hex env cs \<noteq> None then ucast (the (scan_hex env cs)) # qp_loop env (drop 2 cs)
      else c # qp_loop env cs)"
  by pat_completeness auto

termination qp_loop
  by (relation "measure (\<lambda>(_, cs). length cs)") auto

definition QuotedPrintableDecode :: "mms_env \<Rightarrow> bytes \<Rightarrow> bytes option" where
  "QuotedPrintableDecode env src =
     (if src = [] \<or> length src > MAX_MMS_ATTACHMENT_LEN then None else Some (qp_loop env src))"

section \<open>Addresses and encoded strings\<close>

datatype MmsAddressType =
    ADDRESS_TYPE_UNKNOWN | ADDRESS_TYPE_PLMN | ADDRESS_TYPE_IPV4 | ADDRESS_TYPE_IPV6 | ADDRESS_TYPE_EMAIL

definition CHARSET_UTF8 :: u32 where
  "CHARSET_UTF8 = 0x6A"

record MmsAddress =
  addressString :: bytes
  addressCharset :: u32
  addressType :: MmsAddressType

text \<open>\<^verbatim>\<open>find\<close> gives a position, or \<^verbatim>\<open>npos\<close>, which is not 0: as a condition it is false only for a string that starts with the pattern.\<close>

definition find_as_bool :: "bytes \<Rightarrow> string \<Rightarrow> bool" where
  "find_as_bool s pat \<longleftrightarrow> take (length pat) s \<noteq> ascii pat"

definition CheckAddressType :: "bytes \<Rightarrow> MmsAddressType" where
  "CheckAddressType s =
     (if find_as_bool s ''PLMN'' then ADDRESS_TYPE_PLMN
      else if find_as_bool s ''IPv4'' then ADDRESS_TYPE_PLMN
      else if find_as_bool s ''IPv6'' then ADDRESS_TYPE_PLMN
      else if find_as_bool s ''EMAIL'' then ADDRESS_TYPE_PLMN
      else ADDRESS_TYPE_UNKNOWN)"

definition SetMmsAddressString :: "bytes \<Rightarrow> u32 \<Rightarrow> MmsAddress" where
  "SetMmsAddressString s charset = \<lparr>addressString = s, addressCharset = charset, addressType = CheckAddressType s\<rparr>"

definition empty_address :: MmsAddress where
  "empty_address = \<lparr>addressString = [], addressCharset = CHARSET_UTF8, addressType = ADDRESS_TYPE_UNKNOWN\<rparr>"

record MmsEncodeString =
  es_charset :: u32
  es_valLength :: u32
  strEncodeString :: bytes

definition new_encode_string :: MmsEncodeString where
  "new_encode_string = \<lparr>es_charset = 0, es_valLength = 0, strEncodeString = []\<rparr>"

definition DecodeEncodeString :: "(MmsBuffer \<times> MmsEncodeString, unit) op" where
  "DecodeEncodeString =
     seq (on_out (\<lambda>e. e\<lparr>strEncodeString := []\<rparr>)) (
     bnd (on_buf PeekOneByte) (\<lambda>oneByte.
     if oneByte = 0 then on_buf (ignore (IncreasePointer 1))
     else
       seq (if oneByte \<le> 30 \<or> oneByte = 0x1F then
              seq (on_out (\<lambda>e. e\<lparr>es_valLength := 0\<rparr>)) (
              bnd (on_buf DecodeValueLength) (\<lambda>n.
              seq (on_out (\<lambda>e. e\<lparr>es_valLength := n\<rparr>)) (
              bnd (on_buf DecodeInteger) (\<lambda>charset. on_out (\<lambda>e. e\<lparr>es_charset := ucast charset\<rparr>)))))
            else ret ()) (
       bnd (on_buf DecodeText) (\<lambda>(str, len). on_out (\<lambda>e. e\<lparr>strEncodeString := str, es_valLength := len\<rparr>)))))"

text \<open>
  An operation on the buffer and a local object; the caller gets the object whether it succeeds or not, with \<open>None\<close> for \<^verbatim>\<open>false\<close>.
\<close>

definition run_local :: "'o \<Rightarrow> ('b \<times> 'o, 'a) op \<Rightarrow> ('b, 'a option \<times> 'o) op" where
  "run_local v m b =
     (case m (b, v) of
        Ok x t \<Rightarrow> Ok (Some x, snd t) (fst t)
      | Fail t \<Rightarrow> Ok (None, snd t) (fst t)
      | Fault \<Rightarrow> Fault)"

text \<open>An octet string with its length before it: the content of the local buffer \<open>m\<close> writes.\<close>

definition with_length :: "(MmsEncodeBuffer, unit) op \<Rightarrow> (MmsEncodeBuffer, unit) op" where
  "with_length m =
     bnd (with_new [] m) (\<lambda>(_, temp). seq (EncodeValueLength (word_of_nat (length temp))) (MmsWriteBuffer temp))"

definition EncodeEncodeString :: "mms_env \<Rightarrow> MmsEncodeString \<Rightarrow> (MmsEncodeBuffer, unit) op" where
  "EncodeEncodeString env e =
     (if es_charset e \<noteq> 0 then
        with_length (
          seq (ignore (if es_charset e AND 0xFF00 = 0 then EncodeShortInteger (ucast (es_charset e)) else EncodeInteger (es_charset e)))
            (EncodeText (char_signed env) (strEncodeString e)))
      else EncodeText (char_signed env) (strEncodeString e))"

definition GetEncodeString :: "mms_env \<Rightarrow> MmsEncodeString \<Rightarrow> bool \<times> bytes" where
  "GetEncodeString env e =
     (case encode_string_func env (es_charset e) (es_valLength e) (strEncodeString e) of
        (ok, s) \<Rightarrow> (ok, if s = [] then strEncodeString e else s))"

definition SetEncodeString :: "u32 \<Rightarrow> bytes \<Rightarrow> MmsEncodeString" where
  "SetEncodeString charset s =
     \<lparr>es_charset = (if charset = 0 then CHARSET_UTF8 else charset), es_valLength = word_of_nat (length s), strEncodeString = s\<rparr>"

definition SetAddressString :: "MmsAddress \<Rightarrow> MmsEncodeString" where
  "SetAddressString a = SetEncodeString (addressCharset a) (addressString a)"

lemma stays_run_local:
  assumes "keeps_pos w fst n N m"
  shows "keeps_pos w (\<lambda>b. b) n N (run_local v m)"
proof (rule safeI)
  fix b
  assume "at_pos w n N b"
  then have "at_pos w n N (fst (b, v))" by simp
  from safeD [OF assms this]
  show "case run_local v m b of Ok x t \<Rightarrow> at_pos w n N t | Fail t \<Rightarrow> at_pos w n N t | Fault \<Rightarrow> \<not> w"
    by (auto simp: run_local_def split: outcome.splits)
qed

lemma safe_run_local: "safe w (at_pos w n N) (run_local v m) (at_pos w 0 N) (at_pos w 0 N)" if "adv w fst n N m"
proof (rule safeI)
  fix b
  assume "at_pos w n N b"
  then have "at_pos w n N (fst (b, v))" by simp
  from safeD [OF that this]
  show "case run_local v m b of Ok x t \<Rightarrow> at_pos w 0 N t | Fail t \<Rightarrow> at_pos w 0 N t | Fault \<Rightarrow> \<not> w"
    by (auto simp: run_local_def intro: at_pos_0 split: outcome.splits)
qed

text \<open>\<^verbatim>\<open>DecodeValueLength\<close> moves the pointer back only at the end of the buffer.\<close>

definition before_end :: "bool \<Rightarrow> nat \<Rightarrow> nat \<Rightarrow> MmsBuffer \<Rightarrow> bool" where
  "before_end w n N b \<longleftrightarrow> at_pos w n N b \<and> curPosition b < totolLength b"

lemma PeekOneByte_before_end: "safe w (at_pos w n N) PeekOneByte (before_end w n N) (at_pos w n N)"
  by (rule safeI) (auto simp: PeekOneByte_def at_pos_def before_end_def)

lemma DecodeValueLength_before_end: "safe w (before_end w n N) DecodeValueLength (at_pos w n N) (at_pos w n N)"
proof (rule safeI)
  fix b
  assume b: "before_end w n N b"
  have r: "keeps_pos w (\<lambda>b. b) n N (if x \<le> 30 then ret (ucast x) else if x = 0x1F then bnd DecodeUintvar (\<lambda>(v, count). ret v) else fail)" for x :: u8
    by (intro stay_intros stays_values)
  from b have "at_pos w n N (b\<lparr>curPosition := curPosition b + 1\<rparr>)" by (auto simp: before_end_def at_pos_def)
  from safeD [OF r this, of "pduBuffer b ! curPosition b"] b
  show "case DecodeValueLength b of Ok x t \<Rightarrow> at_pos w n N t | Fail t \<Rightarrow> at_pos w n N t | Fault \<Rightarrow> \<not> w"
    by (auto simp: DecodeValueLength_def bnd_def [of "attempt GetOneByte"] attempt_def GetOneByte_def before_end_def at_pos_def split: outcome.splits)
qed

lemma stays_DecodeEncodeString: "keeps_pos w fst n N DecodeEncodeString"
proof -
  have o: "safe w (\<lambda>s. before_end w n N (fst s)) (on_out f) (\<lambda>s. before_end w n N (fst s)) E" for f :: "MmsEncodeString \<Rightarrow> MmsEncodeString" and E
    by (rule safe_on_out)
  have weak: "safe w (\<lambda>s. at_pos w n N (fst s)) m Q E \<Longrightarrow> safe w (\<lambda>s. before_end w n N (fst s)) m Q E"
    for m :: "(MmsBuffer \<times> MmsEncodeString, 'a) op" and Q E
    by (erule safe_weaken) (auto simp: before_end_def)
  have v: "safe w (\<lambda>s. before_end w n N (fst s)) (bnd (on_buf DecodeValueLength) k) (\<lambda>s. at_pos w n N (fst s)) (\<lambda>s. at_pos w n N (fst s))"
    if "\<And>x. keeps_pos w fst n N (k x)" for k :: "u32 \<Rightarrow> (MmsBuffer \<times> MmsEncodeString, unit) op"
    by (rule safe_bnd [OF safe_on_buf [OF DecodeValueLength_before_end]]) (rule that)
  show ?thesis unfolding DecodeEncodeString_def
    by (rule inv_seq, rule safe_on_out, rule safe_bnd [OF safe_on_buf [OF PeekOneByte_before_end]], rule safe_if)
      (intro weak stay_intros stays_values, rule safe_seq, rule safe_if, rule safe_seq [OF o], rule v,
        (intro weak stay_intros stays_values)+)
qed

section \<open>Content types\<close>

definition mapCharSet :: "(bytes \<times> u32) list" where
  "mapCharSet = map (\<lambda>(s, n). (ascii s, n))
    [(''US-ASCII'', 0x03), (''UTF-16'', 0x03F7), (''CSUNICODE'', 0x03E8), (''UTF-8'', 0x6A), (''ISO-2022-KR'', 0x25),
     (''KS_C_5601-1987'', 0x24), (''EUC-KR'', 0x26), (''ISO-2022-JP'', 0x27), (''ISO-2022-JP-2'', 0x28), (''ISO_8859-1'', 0x04),
     (''ISO_8859-2'', 0x05), (''ISO-8859-3'', 0x06), (''ISO-8859-4'', 0x07), (''ISO-8859-5'', 0x08), (''ISO-8859-6'', 0x09),
     (''ISO-8859-7'', 0x0A), (''ISO-8859-8'', 0x0B), (''ISO-8859-9'', 0x0C), (''ISO-8859-10'', 0x0D), (''ISO-8859-15'', 0x6F),
     (''SHIFT_JIS'', 0x11), (''EUC-JP'', 0x13), (''GB2312'', 0x07E9), (''BIG5'', 0x0d), (''WINDOWS-1251'', 0x08CB),
     (''KOI8-R'', 0x0824), (''KOI8-U'', 0x0828)]"

definition GetCharSetIntFromString :: "bytes \<Rightarrow> u32 option" where
  "GetCharSetIntFromString s = map_of mapCharSet s"

text \<open>The table of content types; the key of an entry is its position.\<close>

definition content_names :: "bytes list" where
  "content_names = map ascii
    [''*/*'', ''text/*'', ''text/html'',
     ''text/plain'', ''text/x-hdml'', ''text/x-ttml'',
     ''text/x-vCalendar'', ''text/x-vCard'', ''text/vnd.wap.wml'',
     ''text/vnd.wap.wmlscript'', ''text/vnd.wap.wta-event'', ''multipart/*'',
     ''multipart/mixed'', ''multipart/form-data'', ''multipart/byterantes'',
     ''multipart/alternative'', ''application/*'', ''application/java-vm'',
     ''application/x-www-form-urlencoded'', ''application/x-hdmlc'', ''application/vnd.wap.wmlc'',
     ''application/vnd.wap.wmlscriptc'', ''application/vnd.wap.wta-eventc'', ''application/vnd.wap.uaprof'',
     ''application/vnd.wap.wtls-ca-certificate'', ''application/vnd.wap.wtls-user-certificate'', ''application/x-x509-ca-cert'',
     ''application/x-x509-user-cert'', ''image/*'', ''image/gif'',
     ''image/jpeg'', ''image/tiff'', ''image/png'',
     ''image/vnd.wap.wbmp'', ''application/vnd.wap.multipart.*'', ''application/vnd.wap.multipart.mixed'',
     ''application/vnd.wap.multipart.form-data'', ''application/vnd.wap.multipart.byteranges'', ''application/vnd.wap.multipart.alternative'',
     ''application/xml'', ''text/xml'', ''application/vnd.wap.wbxml'',
     ''application/x-x968-cross-cert'', ''application/x-x968-ca-cert'', ''application/x-x968-user-cert'',
     ''text/vnd.wap.si'', ''application/vnd.wap.sic'', ''text/vnd.wap.sl'',
     ''application/vnd.wap.slc'', ''text/vnd.wap.co'', ''application/vnd.wap.coc'',
     ''application/vnd.wap.multipart.related'', ''application/vnd.wap.sia'', ''text/vnd.wap.connectivity-xml'',
     ''application/vnd.wap.connectivity-wbxml'', ''application/pkcs7-mime'', ''application/vnd.wap.hashed-certificate'',
     ''application/vnd.wap.signed-certificate'', ''application/vnd.wap.cert-response'', ''application/xhtml+xml'',
     ''application/wml+xml'', ''text/css'', ''application/vnd.wap.mms-message'',
     ''application/vnd.wap.rollover-certificate'', ''application/vnd.wap.locc+wbxml'', ''application/vnd.wap.loc+xml'',
     ''application/vnd.syncml.dm+wbxml'', ''application/vnd.syncml.dm+xml'', ''application/vnd.syncml.notification'',
     ''application/vnd.wap.xhtml+xml'', ''application/vnd.wv.csp.cir'', ''application/vnd.oma.dd+xml'',
     ''application/vnd.oma.drm.message'', ''application/vnd.oma.drm.content'', ''application/vnd.oma.drm.rights+xml'',
     ''application/vnd.oma.drm.rights+wbxml'', ''application/vnd.wv.csp+xml'', ''application/vnd.wv.csp+wbxml'',
     ''application/vnd.syncml.ds.notification'', ''audio/*'', ''video/*'',
     ''application/vnd.oma.dd2+xml'', ''application/mikey'', ''application/vnd.oma.dcd'',
     ''application/vnd.oma.dcdc'']"

definition mmsContentNames :: "(u8 \<times> bytes) list" where
  "mmsContentNames = map (\<lambda>(i, s). (word_of_nat i, s)) (enumerate 0 content_names)"

definition GetContentTypeFromInt :: "u8 \<Rightarrow> bytes" where
  "GetContentTypeFromInt type = (case map_of mmsContentNames type of Some s \<Rightarrow> s | None \<Rightarrow> ascii ''*/*'')"

text \<open>The position of the first entry with the name; \<open>None\<close> stands for -1.\<close>

fun name_index :: "bytes \<Rightarrow> nat \<Rightarrow> (u8 \<times> bytes) list \<Rightarrow> nat option" where
  "name_index s i [] = None"
| "name_index s i ((k, v) # r) = (if s = v then Some i else name_index s (i + 1) r)"

definition GetContentTypeFromString :: "bytes \<Rightarrow> nat option" where
  "GetContentTypeFromString s = name_index s 0 mmsContentNames"

record MmsContentParam =
  cp_charset :: u32
  cp_type :: bytes
  textMap :: "u8 \<rightharpoonup> bytes"

record MmsContentType =
  contentType :: bytes
  msgContentParm :: MmsContentParam

definition new_content_type :: MmsContentType where
  "new_content_type = \<lparr>contentType = [], msgContentParm = \<lparr>cp_charset = 0, cp_type = [], textMap = Map.empty\<rparr>\<rparr>"

abbreviation (input) "CT_P_CHARSET \<equiv> 0x81 :: u8"
abbreviation (input) "CT_P_TYPE \<equiv> 0x83 :: u8"
abbreviation (input) "CT_P_NAME \<equiv> 0x85 :: u8"
abbreviation (input) "CT_P_FILENAME \<equiv> 0x86 :: u8"
abbreviation (input) "CT_P_TYPE_STRING \<equiv> 0x89 :: u8"
abbreviation (input) "CT_P_START \<equiv> 0x8A :: u8"
abbreviation (input) "CT_P_START_INFO \<equiv> 0x8B :: u8"
abbreviation (input) "CT_P_NAME_VALUE \<equiv> 0x97 :: u8"
abbreviation (input) "CT_P_FILENAME_VALUE \<equiv> 0x98 :: u8"
abbreviation (input) "CT_P_START_VALUE \<equiv> 0x99 :: u8"
abbreviation (input) "CT_P_START_INFO_VALUE \<equiv> 0x9A :: u8"

text \<open>\<^verbatim>\<open>std::map::insert\<close> leaves a key that is there as it is.\<close>

definition map_insert :: "'k \<Rightarrow> 'v \<Rightarrow> ('k \<rightharpoonup> 'v) \<Rightarrow> ('k \<rightharpoonup> 'v)" where
  "map_insert k v m = (if m k = None then m(k \<mapsto> v) else m)"

definition on_param :: "(MmsContentParam \<Rightarrow> MmsContentParam) \<Rightarrow> (MmsBuffer \<times> MmsContentType, unit) op" where
  "on_param f = on_out (\<lambda>c. c\<lparr>msgContentParm := f (msgContentParm c)\<rparr>)"

definition GetFileName :: "MmsContentParam \<Rightarrow> bytes" where
  "GetFileName c =
     (case textMap c CT_P_NAME of Some s \<Rightarrow> s | None \<Rightarrow>
     (case textMap c CT_P_NAME_VALUE of Some s \<Rightarrow> s | None \<Rightarrow>
     (case textMap c CT_P_FILENAME of Some s \<Rightarrow> s | None \<Rightarrow>
     (case textMap c CT_P_FILENAME_VALUE of Some s \<Rightarrow> s | None \<Rightarrow> []))))"

definition SetFileName :: "bytes \<Rightarrow> MmsContentParam \<Rightarrow> MmsContentParam" where
  "SetFileName s c = (if s = [] then c else c\<lparr>textMap := map_insert CT_P_NAME s (textMap c)\<rparr>)"

definition GetStart :: "MmsContentParam \<Rightarrow> bytes" where
  "GetStart c = (case textMap c CT_P_START of Some s \<Rightarrow> s | None \<Rightarrow> [])"

definition SetStart :: "bytes \<Rightarrow> MmsContentParam \<Rightarrow> MmsContentParam" where
  "SetStart s c = (if s = [] then c else c\<lparr>textMap := map_insert CT_P_START s (textMap c)\<rparr>)"

definition AddNormalField :: "u8 \<Rightarrow> bytes \<Rightarrow> MmsContentParam \<Rightarrow> MmsContentParam option" where
  "AddNormalField field s c = (if textMap c field \<noteq> None then None else Some (c\<lparr>textMap := (textMap c)(field \<mapsto> s)\<rparr>))"

definition GetNormalField :: "u8 \<Rightarrow> MmsContentParam \<Rightarrow> bytes" where
  "GetNormalField field c = (case textMap c field of Some s \<Rightarrow> s | None \<Rightarrow> [])"

subsection \<open>Decoding\<close>

text \<open>The fields of a content type's parameters hand back the length that is left, an \<^verbatim>\<open>int32_t\<close>.\<close>

definition DecodeTextField :: "u8 \<Rightarrow> int \<Rightarrow> (MmsBuffer \<times> MmsContentType, int) op" where
  "DecodeTextField field valueLength =
     bnd (on_buf DecodeText) (\<lambda>(str, len).
     seq (on_param (\<lambda>p. p\<lparr>textMap := map_insert field str (textMap p)\<rparr>))
       (ret (valueLength - sint len - 1)))"

definition DecodeCharsetField :: "int \<Rightarrow> (MmsBuffer \<times> MmsContentType, int) op" where
  "DecodeCharsetField valueLength =
     bnd (on_buf PeekOneByte) (\<lambda>oneByte.
     if (oneByte > 32 \<and> oneByte < 127) \<or> oneByte = 0 then
       bnd (on_buf DecodeText) (\<lambda>(sCharset, len).
       case GetCharSetIntFromString sCharset of
         None \<Rightarrow> fail
       | Some charset \<Rightarrow>
           seq (on_param (\<lambda>p. p\<lparr>cp_charset := charset\<rparr>)) (ret (valueLength - sint (len + 1))))
     else
       bnd (on_buf (gets curPosition)) (\<lambda>startPosition.
       bnd (on_buf DecodeInteger) (\<lambda>tmp.
       bnd (on_buf (gets curPosition)) (\<lambda>endPosition.
       seq (on_param (\<lambda>p. p\<lparr>cp_charset := ucast tmp\<rparr>))
         (ret (if endPosition \<ge> startPosition then valueLength - int (endPosition - startPosition) else valueLength))))))"

definition DecodeTypeField :: "int \<Rightarrow> (MmsBuffer \<times> MmsContentType, int) op" where
  "DecodeTypeField valueLength =
     bnd (on_buf GetOneByte) (\<lambda>oneByte.
     if oneByte > 0x7F then
       seq (on_param (\<lambda>p. p\<lparr>cp_type := GetContentTypeFromInt (oneByte AND 0x7F)\<rparr>)) (ret (valueLength - 1))
     else
       seq (on_buf (DecreasePointer 1)) (
       bnd (on_buf DecodeText) (\<lambda>(sType, len).
       seq (on_param (\<lambda>p. p\<lparr>cp_type := sType\<rparr>)) (ret (valueLength - sint len - 1)))))"

text \<open>The text parameters, in the order in which they are encoded.\<close>

definition text_params :: "u8 list" where
  "text_params = [CT_P_FILENAME, CT_P_FILENAME_VALUE, CT_P_START_VALUE, CT_P_START, CT_P_NAME, CT_P_NAME_VALUE,
     CT_P_START_INFO, CT_P_START_INFO_VALUE]"

definition parameter_field :: "u8 \<Rightarrow> int \<Rightarrow> (MmsBuffer \<times> MmsContentType, int) op" where
  "parameter_field paramCode valueLength =
     (if paramCode = CT_P_CHARSET then DecodeCharsetField valueLength
      else if paramCode \<in> set text_params then DecodeTextField paramCode valueLength
      else if paramCode = CT_P_TYPE \<or> paramCode = CT_P_TYPE_STRING then DecodeTypeField valueLength
      else seq (on_buf (IncreasePointer (nat valueLength))) (ret 0))"

lemma at_pos_D: "at_pos w n N b \<Longrightarrow> n \<le> curPosition b \<and> totolLength b = N"
  by (simp add: at_pos_def)

lemma at_pos_here: "at_pos False (curPosition b) (totolLength b) b"
  by (simp add: at_pos_def)

text \<open>An operation that does not move the pointer back takes nothing from what a loop has gained.\<close>

lemma adv_progress:
  assumes "adv False p (curPosition (p s)) (totolLength (p s)) m" "m s = Ok x t"
  shows "curPosition (p s) \<le> curPosition (p t)" "totolLength (p t) = totolLength (p s)"
  using safeD [OF assms(1) at_pos_here] assms(2) by (auto dest: at_pos_D)

lemma GetOneByte_progress:
  "on_buf GetOneByte s = Ok x t \<Longrightarrow> totolLength (fst t) = totolLength (fst s) \<and> curPosition (fst t) = Suc (curPosition (fst s)) \<and>
     curPosition (fst s) < totolLength (fst s)"
  by (cases s) (auto simp: on_buf_def GetOneByte_def split: if_splits)

lemma safe_on_param [adv_intros]: "safe w (\<lambda>s. P (fst s)) (on_param f) (\<lambda>s. P (fst s)) E"
  unfolding on_param_def by (rule safe_on_out)

lemma adv_gets: "adv w (\<lambda>b. b) n N (gets f)"
  by (intro stay_intros)

lemma adv_DecodeTextField [adv_intros]: "adv w fst n N (DecodeTextField f v)"
  unfolding DecodeTextField_def by (intro adv_intros stay_intros)

lemma adv_DecodeCharsetField [adv_intros]: "adv w fst n N (DecodeCharsetField v)"
  unfolding DecodeCharsetField_def by (intro adv_intros stay_intros)

text \<open>An octet that is read and put back.\<close>

lemma step_back: "safe w (at_pos w (Suc n) N) (DecreasePointer 1) (at_pos w n N) (at_pos w n N)"
  by (rule safeI) (auto simp: DecreasePointer_def at_pos_def)

lemma adv_DecodeTypeField [adv_intros]: "adv w fst n N (DecodeTypeField v)"
proof -
  have g: "safe w (\<lambda>s. at_pos w n N (fst s)) (on_buf GetOneByte :: (MmsBuffer \<times> MmsContentType, u8) op)
      (\<lambda>s. at_pos w (Suc n) N (fst s)) (\<lambda>s. at_pos w 0 N (fst s))"
    by (rule safe_weaken [OF safe_on_buf [OF GetOneByte_step [of w n N]]]) (auto intro: at_pos_0)
  have d: "safe w (\<lambda>s. at_pos w (Suc n) N (fst s)) (on_buf (DecreasePointer 1) :: (MmsBuffer \<times> MmsContentType, unit) op)
      (\<lambda>s. at_pos w n N (fst s)) (\<lambda>s. at_pos w 0 N (fst s))"
    by (rule safe_weaken [OF safe_on_buf [OF step_back [of w n N]]]) (auto intro: at_pos_0)
  have t: "adv w fst n N (bnd (on_buf DecodeText) (\<lambda>(sType, len). seq (on_param (f sType)) (ret (v - sint len - 1))))" for f
    by (intro adv_intros stay_intros)
  have s: "safe w (\<lambda>s. at_pos w (Suc n) N (fst s)) (seq (on_param f) (ret (v - 1)))
      (\<lambda>s. at_pos w n N (fst s)) (\<lambda>s. at_pos w 0 N (fst s))" for f
    by (rule safe_weaken [where P = "\<lambda>s. at_pos w n N (fst s)"]) (auto intro!: safe_seq safe_ret safe_on_param intro: at_pos_mono)
  show ?thesis unfolding DecodeTypeField_def
    by (rule safe_bnd [OF g], rule safe_if, rule s, rule safe_seq [OF d t])
qed

lemma adv_parameter_field [adv_intros]: "adv w fst n N (parameter_field c v)"
  unfolding parameter_field_def by (intro adv_intros stay_intros)

text \<open>The loop of \<^verbatim>\<open>DecodeParameter\<close>; an octet is read in every pass.\<close>

function DecodeParameter :: "int \<Rightarrow> (MmsBuffer \<times> MmsContentType, unit) op" where
  "DecodeParameter valueLength s =
     (if valueLength \<le> 0 then Ok () s
      else case bnd (on_buf GetOneByte) (\<lambda>paramCode. parameter_field paramCode (valueLength - 1)) s of
             Ok v t \<Rightarrow> DecodeParameter v t
           | Fail t \<Rightarrow> Fail t
           | Fault \<Rightarrow> Fault)"
  by pat_completeness auto

lemma parameter_progress:
  assumes "bnd (on_buf GetOneByte) (\<lambda>paramCode. parameter_field paramCode v) s = Ok v' t"
  shows "totolLength (fst t) - curPosition (fst t) < totolLength (fst s) - curPosition (fst s)"
proof -
  obtain c r where r: "on_buf GetOneByte s = Ok c r" "parameter_field c v r = Ok v' t"
    using assms by (auto simp: bnd_def split: outcome.splits)
  from GetOneByte_progress [OF r(1)] adv_progress [OF adv_parameter_field r(2)] show ?thesis by linarith
qed

termination DecodeParameter
  by (relation "measure (\<lambda>(_, s). totolLength (fst s) - curPosition (fst s))") (auto dest: parameter_progress)

declare DecodeParameter.simps [simp del]

definition GetContentType_text :: "(MmsBuffer \<times> MmsContentType, u32) op" where
  "GetContentType_text =
     bnd (on_buf (attempt DecodeText)) (\<lambda>r.
     let (sType, len) = (case r of None \<Rightarrow> ([], 0) | Some x \<Rightarrow> x)
     in seq (on_out (\<lambda>c. c\<lparr>contentType := sType\<rparr>)) (ret len))"

text \<open>The length that is handed back is an \<^verbatim>\<open>int32_t\<close>; the one that is counted down a \<^verbatim>\<open>uint32_t\<close>.\<close>

definition DecodeMmsCTGeneralForm :: "(MmsBuffer \<times> MmsContentType, int) op" where
  "DecodeMmsCTGeneralForm =
     bnd (on_buf DecodeIsValueLength) (\<lambda>valueLen.
     if \<not> valueLen then fail else
     bnd (on_buf DecodeValueLengthReturnLen) (\<lambda>(valueLength, returnLength).
     let totalLength = uint valueLength + uint returnLength in
     if totalLength > 0x7FFFFFFF then fail else
     bnd (on_buf PeekOneByte) (\<lambda>oneByte.
     bnd (on_buf DecodeIsShortInt) (\<lambda>short.
     bnd (on_buf DecodeIsString) (\<lambda>str.
     bnd (if short then
            seq (on_out (\<lambda>c. c\<lparr>contentType := GetContentTypeFromInt (oneByte AND 0x7F)\<rparr>)) (
            seq (on_buf (IncreasePointer 1)) (
            if valueLength = 0 then fail else ret (valueLength - 1)))
          else if str then
            bnd GetContentType_text (\<lambda>len. ret (if valueLength < len + 1 then 0 else valueLength - len - 1))
          else fail) (\<lambda>left.
     seq (DecodeParameter (sint left)) (ret totalLength)))))))"

definition DecodeMmsContentType :: "(MmsBuffer \<times> MmsContentType, int) op" where
  "DecodeMmsContentType =
     bnd (on_buf DecodeIsShortInt) (\<lambda>short.
     if short then
       bnd (on_buf GetOneByte) (\<lambda>oneByte.
       seq (on_out (\<lambda>c. c\<lparr>contentType := GetContentTypeFromInt (oneByte AND 0x7F)\<rparr>)) (ret 1))
     else
       bnd (on_buf DecodeIsString) (\<lambda>str.
       if str then
         bnd (on_buf (attempt DecodeText)) (\<lambda>r.
         let (sType, len) = (case r of None \<Rightarrow> ([], 0) | Some x \<Rightarrow> x) in
         if len \<ge> 0x7FFFFFFF then fail
         else seq (on_out (\<lambda>c. c\<lparr>contentType := sType\<rparr>)) (ret (sint (len + 1))))
       else DecodeMmsCTGeneralForm))"

lemma adv_DecodeParameter [adv_intros]: "adv w fst n N (DecodeParameter v)"
proof (rule safeI)
  fix s :: "MmsBuffer \<times> MmsContentType"
  assume "at_pos w n N (fst s)"
  then show "case DecodeParameter v s of Ok _ t \<Rightarrow> at_pos w n N (fst t) | Fail t \<Rightarrow> at_pos w 0 N (fst t) | Fault \<Rightarrow> \<not> w"
  proof (induction v s rule: DecodeParameter.induct)
    case (1 v s)
    have "adv w fst n N (bnd (on_buf GetOneByte) (\<lambda>c. parameter_field c (v - 1)))" by (intro adv_intros stay_intros)
    from safeD [OF this 1(2)] 1 show ?case
      by (cases "v \<le> 0"; subst DecodeParameter.simps) (auto intro: at_pos_0 split: outcome.splits)
  qed
qed

lemma adv_attempt_DecodeText [adv_intros]: "adv w (\<lambda>b. b) n N (attempt DecodeText)"
  by (intro stay_intros stays_DecodeText)

lemma adv_GetContentType_text [adv_intros]: "adv w fst n N GetContentType_text"
  unfolding GetContentType_text_def by (intro adv_intros stay_intros)

lemma adv_DecodeMmsCTGeneralForm [adv_intros]: "adv w fst n N DecodeMmsCTGeneralForm"
  unfolding DecodeMmsCTGeneralForm_def Let_def by (intro adv_intros stay_intros)

lemma adv_DecodeMmsContentType [adv_intros]: "adv w fst n N DecodeMmsContentType"
  unfolding DecodeMmsContentType_def Let_def by (intro adv_intros stay_intros)

subsection \<open>Encoding\<close>

definition EncodeTextField :: "mms_env \<Rightarrow> MmsContentParam \<Rightarrow> (MmsEncodeBuffer, unit) op" where
  "EncodeTextField env p =
     each (\<lambda>field. case textMap p field of None \<Rightarrow> ret () | Some s \<Rightarrow> seq (MmsWriteByte field) (EncodeText (char_signed env) s)) text_params"

definition EncodeCharsetField :: "MmsContentParam \<Rightarrow> (MmsEncodeBuffer, unit) op" where
  "EncodeCharsetField p =
     (if cp_charset p = 0 then ret ()
      else seq (MmsWriteByte CT_P_CHARSET) (EncodeLongInteger (ucast (cp_charset p))))"

definition EncodeTypeField :: "mms_env \<Rightarrow> MmsContentParam \<Rightarrow> (MmsEncodeBuffer, unit) op" where
  "EncodeTypeField env p =
     (if cp_type p = [] then ret ()
      else seq (MmsWriteByte CT_P_TYPE_STRING) (EncodeText (char_signed env) (cp_type p)))"

definition EncodeMmsBodyPartContentParam :: "mms_env \<Rightarrow> MmsContentParam \<Rightarrow> (MmsEncodeBuffer, unit) op" where
  "EncodeMmsBodyPartContentParam env p = seq (EncodeTextField env p) (seq (EncodeCharsetField p) (EncodeTypeField env p))"

definition EncodeMmsBodyPartContentType :: "mms_env \<Rightarrow> MmsContentType \<Rightarrow> (MmsEncodeBuffer, unit) op" where
  "EncodeMmsBodyPartContentType env c =
     with_length (
       seq (case GetContentTypeFromString (contentType c) of
              None \<Rightarrow> EncodeText (char_signed env) (contentType c)
            | Some i \<Rightarrow> MmsWriteByte (word_of_nat i OR 0x80))
         (EncodeMmsBodyPartContentParam env (msgContentParm c)))"

end
