(* ===== verification/Mms_Header.thy ===== *)
theory Mms_Header
  imports Mms_Content
begin

text \<open>
  The header of an MMS message: the tables of fields (\<^verbatim>\<open>mms_codec_type.h\<close>, \<^verbatim>\<open>mms_header_categ.cpp\<close>) and \<^verbatim>\<open>mms_header.cpp\<close>, the maps of values
  with their getters and setters, the decoders of the fields and the loop over them, and the encoders of the message types.
\<close>

section \<open>Fields\<close>

abbreviation (input) "MMS_BCC \<equiv> 0x81 :: u8"
abbreviation (input) "MMS_CC \<equiv> 0x82 :: u8"
abbreviation (input) "MMS_CONTENT_LOCATION \<equiv> 0x83 :: u8"
abbreviation (input) "MMS_CONTENT_TYPE \<equiv> 0x84 :: u8"
abbreviation (input) "MMS_DATE \<equiv> 0x85 :: u8"
abbreviation (input) "MMS_DELIVERY_REPORT \<equiv> 0x86 :: u8"
abbreviation (input) "MMS_DELIVERY_TIME \<equiv> 0x87 :: u8"
abbreviation (input) "MMS_EXPIRY \<equiv> 0x88 :: u8"
abbreviation (input) "MMS_FROM \<equiv> 0x89 :: u8"
abbreviation (input) "MMS_MESSAGE_CLASS \<equiv> 0x8A :: u8"
abbreviation (input) "MMS_MESSAGE_ID \<equiv> 0x8B :: u8"
abbreviation (input) "MMS_MESSAGE_TYPE \<equiv> 0x8C :: u8"
abbreviation (input) "MMS_MMS_VERSION \<equiv> 0x8D :: u8"
abbreviation (input) "MMS_MESSAGE_SIZE \<equiv> 0x8E :: u8"
abbreviation (input) "MMS_PRIORITY \<equiv> 0x8F :: u8"
abbreviation (input) "MMS_READ_REPORT \<equiv> 0x90 :: u8"
abbreviation (input) "MMS_REPORT_ALLOWED \<equiv> 0x91 :: u8"
abbreviation (input) "MMS_RESPONSE_STATUS \<equiv> 0x92 :: u8"
abbreviation (input) "MMS_RESPONSE_TEXT \<equiv> 0x93 :: u8"
abbreviation (input) "MMS_SENDER_VISIBILITY \<equiv> 0x94 :: u8"
abbreviation (input) "MMS_STATUS \<equiv> 0x95 :: u8"
abbreviation (input) "MMS_SUBJECT \<equiv> 0x96 :: u8"
abbreviation (input) "MMS_TO \<equiv> 0x97 :: u8"
abbreviation (input) "MMS_TRANSACTION_ID \<equiv> 0x98 :: u8"
abbreviation (input) "MMS_RETRIEVE_STATUS \<equiv> 0x99 :: u8"
abbreviation (input) "MMS_RETRIEVE_TEXT \<equiv> 0x9A :: u8"
abbreviation (input) "MMS_READ_STATUS \<equiv> 0x9B :: u8"
abbreviation (input) "MMS_REPLY_CHARGING \<equiv> 0x9C :: u8"
abbreviation (input) "MMS_REPLY_CHARGING_DEADLINE \<equiv> 0x9D :: u8"
abbreviation (input) "MMS_REPLY_CHARGING_ID \<equiv> 0x9E :: u8"
abbreviation (input) "MMS_REPLY_CHARGING_SIZE \<equiv> 0x9F :: u8"
abbreviation (input) "MMS_PREVIOUSLY_SENT_BY \<equiv> 0xA0 :: u8"
abbreviation (input) "MMS_PREVIOUSLY_SENT_DATE \<equiv> 0xA1 :: u8"
abbreviation (input) "MMS_STORE \<equiv> 0xA2 :: u8"
abbreviation (input) "MMS_MM_STATE \<equiv> 0xA3 :: u8"
abbreviation (input) "MMS_MM_FLAGS \<equiv> 0xA4 :: u8"
abbreviation (input) "MMS_STORE_STATUS \<equiv> 0xA5 :: u8"
abbreviation (input) "MMS_STORE_STATUS_TEXT \<equiv> 0xA6 :: u8"
abbreviation (input) "MMS_STORED \<equiv> 0xA7 :: u8"
abbreviation (input) "MMS_ATTRIBUTES \<equiv> 0xA8 :: u8"
abbreviation (input) "MMS_TOTALS \<equiv> 0xA9 :: u8"
abbreviation (input) "MMS_MBOX_TOTALS \<equiv> 0xAA :: u8"
abbreviation (input) "MMS_QUOTAS \<equiv> 0xAB :: u8"
abbreviation (input) "MMS_MBOX_QUOTAS \<equiv> 0xAC :: u8"
abbreviation (input) "MMS_MESSAGE_COUNT \<equiv> 0xAD :: u8"
abbreviation (input) "MMS_CONTENT \<equiv> 0xAE :: u8"
abbreviation (input) "MMS_START \<equiv> 0xAF :: u8"
abbreviation (input) "MMS_ADDITIONAL_HEADERS \<equiv> 0xB0 :: u8"
abbreviation (input) "MMS_DISTRIBUTION_INDICATOR \<equiv> 0xB1 :: u8"
abbreviation (input) "MMS_ELEMENT_DESCRIPTOR \<equiv> 0xB2 :: u8"
abbreviation (input) "MMS_LIMIT \<equiv> 0xB3 :: u8"
abbreviation (input) "MMS_RECOMMENDED_RETRIEVAL_MODE \<equiv> 0xB4 :: u8"
abbreviation (input) "MMS_RECOMMENDED_RETRIEVAL_MODE_TEXT \<equiv> 0xB5 :: u8"
abbreviation (input) "MMS_STATUS_TEXT \<equiv> 0xB6 :: u8"
abbreviation (input) "MMS_APPLIC_ID \<equiv> 0xB7 :: u8"
abbreviation (input) "MMS_REPLY_APPLIC_ID \<equiv> 0xB8 :: u8"
abbreviation (input) "MMS_AUX_APPLIC_INFO \<equiv> 0xB9 :: u8"
abbreviation (input) "MMS_CONTENT_CLASS \<equiv> 0xBA :: u8"
abbreviation (input) "MMS_DRM_CONTENT \<equiv> 0xBB :: u8"
abbreviation (input) "MMS_ADAPTATION_ALLOWED \<equiv> 0xBC :: u8"
abbreviation (input) "MMS_REPLACE_ID \<equiv> 0xBD :: u8"
abbreviation (input) "MMS_CANCEL_ID \<equiv> 0xBE :: u8"
abbreviation (input) "MMS_CANCEL_STATUS \<equiv> 0xBF :: u8"

abbreviation (input) "MMS_MSGTYPE_SEND_REQ \<equiv> 128 :: u8"
abbreviation (input) "MMS_MSGTYPE_SEND_CONF \<equiv> 129 :: u8"
abbreviation (input) "MMS_MSGTYPE_NOTIFICATION_IND \<equiv> 130 :: u8"
abbreviation (input) "MMS_MSGTYPE_NOTIFYRESP_IND \<equiv> 131 :: u8"
abbreviation (input) "MMS_MSGTYPE_RETRIEVE_CONF \<equiv> 132 :: u8"
abbreviation (input) "MMS_MSGTYPE_ACKNOWLEDGE_IND \<equiv> 133 :: u8"
abbreviation (input) "MMS_MSGTYPE_DELIVERY_IND \<equiv> 134 :: u8"
abbreviation (input) "MMS_MSGTYPE_READ_REC_IND \<equiv> 135 :: u8"
abbreviation (input) "MMS_MSGTYPE_READ_ORIG_IND \<equiv> 136 :: u8"
abbreviation (input) "MMS_MSGTYPE_FORWARD_REQ \<equiv> 137 :: u8"
abbreviation (input) "MMS_MSGTYPE_FORWARD_CONF \<equiv> 138 :: u8"
abbreviation (input) "MMS_MSGTYPE_MBOX_STORE_REQ \<equiv> 139 :: u8"
abbreviation (input) "MMS_MSGTYPE_MBOX_STORE_CONF \<equiv> 140 :: u8"
abbreviation (input) "MMS_MSGTYPE_MBOX_VIEW_REQ \<equiv> 141 :: u8"
abbreviation (input) "MMS_MSGTYPE_MBOX_VIEW_CONF \<equiv> 142 :: u8"
abbreviation (input) "MMS_MSGTYPE_MBOX_UPLOAD_REQ \<equiv> 143 :: u8"
abbreviation (input) "MMS_MSGTYPE_MBOX_UPLOAD_CONF \<equiv> 144 :: u8"
abbreviation (input) "MMS_MSGTYPE_MBOX_DELETE_REQ \<equiv> 145 :: u8"
abbreviation (input) "MMS_MSGTYPE_MBOX_DELETE_CONF \<equiv> 146 :: u8"
abbreviation (input) "MMS_MSGTYPE_MBOX_DESCR \<equiv> 147 :: u8"
abbreviation (input) "MMS_MSGTYPE_DELETE_REQ \<equiv> 148 :: u8"
abbreviation (input) "MMS_MSGTYPE_DELETE_CONF \<equiv> 149 :: u8"
abbreviation (input) "MMS_MSGTYPE_CANCEL_REQ \<equiv> 150 :: u8"
abbreviation (input) "MMS_MSGTYPE_CANCEL_CONF \<equiv> 151 :: u8"

datatype MmsFieldValueType =
    MMS_FIELD_OCTET_TYPE | MMS_FIELD_INTEGER_TYPE | MMS_FIELD_LONG_TYPE | MMS_FIELD_TEXT_TYPE
  | MMS_FIELD_ENCODE_TEXT_TYPE | MMS_FIELD_ENCODE_ADDR_TYPE | MMS_FIELD_UNKOWN_TYPE

datatype MmsFieldOptType = MMS_MANDATORY_TYPE | MMS_OPTIONAL_TYPE | MMS_UNSUPPORTED_TYPE

definition InitFieldDesV10 :: "(u8 \<times> MmsFieldValueType) list" where
  "InitFieldDesV10 =
    [(MMS_BCC, MMS_FIELD_ENCODE_ADDR_TYPE), (MMS_CC, MMS_FIELD_ENCODE_ADDR_TYPE), (MMS_CONTENT_LOCATION, MMS_FIELD_TEXT_TYPE),
     (MMS_CONTENT_TYPE, MMS_FIELD_UNKOWN_TYPE), (MMS_DATE, MMS_FIELD_LONG_TYPE), (MMS_DELIVERY_REPORT, MMS_FIELD_OCTET_TYPE),
     (MMS_DELIVERY_TIME, MMS_FIELD_LONG_TYPE), (MMS_EXPIRY, MMS_FIELD_LONG_TYPE), (MMS_FROM, MMS_FIELD_ENCODE_ADDR_TYPE),
     (MMS_MESSAGE_CLASS, MMS_FIELD_OCTET_TYPE), (MMS_MESSAGE_ID, MMS_FIELD_TEXT_TYPE), (MMS_MESSAGE_TYPE, MMS_FIELD_OCTET_TYPE),
     (MMS_MMS_VERSION, MMS_FIELD_INTEGER_TYPE), (MMS_MESSAGE_SIZE, MMS_FIELD_LONG_TYPE), (MMS_PRIORITY, MMS_FIELD_OCTET_TYPE),
     (MMS_READ_REPORT, MMS_FIELD_OCTET_TYPE), (MMS_REPORT_ALLOWED, MMS_FIELD_OCTET_TYPE), (MMS_RESPONSE_STATUS, MMS_FIELD_OCTET_TYPE),
     (MMS_RESPONSE_TEXT, MMS_FIELD_OCTET_TYPE), (MMS_SENDER_VISIBILITY, MMS_FIELD_OCTET_TYPE), (MMS_STATUS, MMS_FIELD_OCTET_TYPE),
     (MMS_SUBJECT, MMS_FIELD_ENCODE_TEXT_TYPE), (MMS_TO, MMS_FIELD_ENCODE_ADDR_TYPE), (MMS_TRANSACTION_ID, MMS_FIELD_TEXT_TYPE)]"

definition InitFieldDesV11 :: "(u8 \<times> MmsFieldValueType) list" where
  "InitFieldDesV11 =
    [(MMS_RETRIEVE_STATUS, MMS_FIELD_OCTET_TYPE), (MMS_RETRIEVE_TEXT, MMS_FIELD_ENCODE_TEXT_TYPE), (MMS_READ_STATUS, MMS_FIELD_OCTET_TYPE),
     (MMS_REPLY_CHARGING, MMS_FIELD_OCTET_TYPE), (MMS_REPLY_CHARGING_DEADLINE, MMS_FIELD_LONG_TYPE),
     (MMS_REPLY_CHARGING_ID, MMS_FIELD_TEXT_TYPE), (MMS_REPLY_CHARGING_SIZE, MMS_FIELD_LONG_TYPE),
     (MMS_PREVIOUSLY_SENT_BY, MMS_FIELD_ENCODE_TEXT_TYPE), (MMS_PREVIOUSLY_SENT_DATE, MMS_FIELD_LONG_TYPE)]"

definition InitFieldDesV12 :: "(u8 \<times> MmsFieldValueType) list" where
  "InitFieldDesV12 =
    [(MMS_STORE, MMS_FIELD_OCTET_TYPE), (MMS_MM_STATE, MMS_FIELD_OCTET_TYPE), (MMS_MM_FLAGS, MMS_FIELD_ENCODE_TEXT_TYPE),
     (MMS_STORE_STATUS, MMS_FIELD_OCTET_TYPE), (MMS_STORE_STATUS_TEXT, MMS_FIELD_ENCODE_TEXT_TYPE), (MMS_STORED, MMS_FIELD_OCTET_TYPE),
     (MMS_ATTRIBUTES, MMS_FIELD_OCTET_TYPE), (MMS_TOTALS, MMS_FIELD_OCTET_TYPE), (MMS_MBOX_TOTALS, MMS_FIELD_INTEGER_TYPE),
     (MMS_QUOTAS, MMS_FIELD_OCTET_TYPE), (MMS_MBOX_QUOTAS, MMS_FIELD_INTEGER_TYPE), (MMS_MESSAGE_COUNT, MMS_FIELD_INTEGER_TYPE),
     (MMS_CONTENT, MMS_FIELD_UNKOWN_TYPE), (MMS_START, MMS_FIELD_INTEGER_TYPE), (MMS_ADDITIONAL_HEADERS, MMS_FIELD_UNKOWN_TYPE),
     (MMS_DISTRIBUTION_INDICATOR, MMS_FIELD_OCTET_TYPE), (MMS_ELEMENT_DESCRIPTOR, MMS_FIELD_UNKOWN_TYPE),
     (MMS_LIMIT, MMS_FIELD_INTEGER_TYPE), (MMS_CONTENT_CLASS, MMS_FIELD_OCTET_TYPE)]"

text \<open>\<^verbatim>\<open>emplace\<close> keeps the first value of a key.\<close>

definition FindFieldDes :: "u8 \<Rightarrow> MmsFieldValueType" where
  "FindFieldDes fieldId =
     (case map_of (InitFieldDesV10 @ InitFieldDesV11 @ InitFieldDesV12) fieldId of Some t \<Rightarrow> t | None \<Rightarrow> MMS_FIELD_UNKOWN_TYPE)"

definition mmsSendReqOptMap :: "(u8 \<times> MmsFieldOptType) list" where
  "mmsSendReqOptMap =
    [(MMS_MESSAGE_TYPE, MMS_MANDATORY_TYPE), (MMS_TRANSACTION_ID, MMS_MANDATORY_TYPE), (MMS_MMS_VERSION, MMS_MANDATORY_TYPE),
     (MMS_CONTENT_TYPE, MMS_MANDATORY_TYPE), (MMS_FROM, MMS_MANDATORY_TYPE), (MMS_DATE, MMS_OPTIONAL_TYPE), (MMS_TO, MMS_OPTIONAL_TYPE),
     (MMS_CC, MMS_OPTIONAL_TYPE), (MMS_BCC, MMS_OPTIONAL_TYPE), (MMS_SUBJECT, MMS_OPTIONAL_TYPE), (MMS_MESSAGE_CLASS, MMS_OPTIONAL_TYPE),
     (MMS_EXPIRY, MMS_OPTIONAL_TYPE), (MMS_PRIORITY, MMS_OPTIONAL_TYPE), (MMS_SENDER_VISIBILITY, MMS_OPTIONAL_TYPE),
     (MMS_DELIVERY_REPORT, MMS_OPTIONAL_TYPE), (MMS_MESSAGE_TYPE, MMS_OPTIONAL_TYPE), (MMS_READ_REPORT, MMS_OPTIONAL_TYPE)]"

definition FindSendReqOptType :: "u8 \<Rightarrow> MmsFieldOptType" where
  "FindSendReqOptType fieldId = (case map_of mmsSendReqOptMap fieldId of Some t \<Rightarrow> t | None \<Rightarrow> MMS_UNSUPPORTED_TYPE)"

definition mmsHeaderNames :: "(u8 \<times> string) list" where
  "mmsHeaderNames =
    [(MMS_BCC, ''Mms-Bcc''), (MMS_CC, ''Mms-Cc''), (MMS_CONTENT_LOCATION, ''Mms-Content-Location''),
     (MMS_CONTENT_TYPE, ''Mms-Content-Type''), (MMS_DATE, ''Mms-Date''), (MMS_DELIVERY_REPORT, ''Mms-Delivery-Report''),
     (MMS_DELIVERY_TIME, ''Mms-Delivery-Time''), (MMS_EXPIRY, ''Mms-Expiry''), (MMS_FROM, ''Mms-From''),
     (MMS_MESSAGE_CLASS, ''Mms-Message-Class''), (MMS_MESSAGE_ID, ''Mms-Message-ID''), (MMS_MESSAGE_TYPE, ''Mms-Message-Type''),
     (MMS_MMS_VERSION, ''Mms-Mms-Version''), (MMS_MESSAGE_SIZE, ''Mms-Message-Size''), (MMS_PRIORITY, ''Mms-Priority''),
     (MMS_READ_REPORT, ''Mms-Read-Report''), (MMS_REPORT_ALLOWED, ''Mms-Report-Allowed''), (MMS_RESPONSE_STATUS, ''Mms-Response-Status''),
     (MMS_RESPONSE_TEXT, ''Mms-Response-Text''), (MMS_SENDER_VISIBILITY, ''Mms-X-Mms-Sender-Visibility''),
     (MMS_STATUS, ''Mms-X-Mms-Status''), (MMS_SUBJECT, ''Mms-Subject''), (MMS_TO, ''Mms-To''),
     (MMS_TRANSACTION_ID, ''Mms-X-Mms-Transaction-Id''), (MMS_RETRIEVE_STATUS, ''Mms-X-Mms-Retrieve-Status''),
     (MMS_RETRIEVE_TEXT, ''Mms-X-Mms-Retrieve-Text''), (MMS_READ_STATUS, ''Mms-X-Mms-Read-Status''),
     (MMS_REPLY_CHARGING, ''Mms-X-Mms-Reply-Charging''), (MMS_REPLY_CHARGING_DEADLINE, ''Mms-X-Mms-Reply-Charging-Deadline''),
     (MMS_REPLY_CHARGING_ID, ''Mms-X-Mms-Reply-Charging-ID''), (MMS_REPLY_CHARGING_SIZE, ''Mms-X-Mms-Reply-Charging-Size''),
     (MMS_PREVIOUSLY_SENT_BY, ''Mms-X-Mms-Previously-Sent-By''), (MMS_PREVIOUSLY_SENT_DATE, ''Mms-X-Mms-Previously-Sent-Date''),
     (MMS_STORE, ''Mms-X-Mms-Store''), (MMS_MM_STATE, ''Mms-X-Mms-MM-State''), (MMS_MM_FLAGS, ''Mms-X-Mms-MM-Flags''),
     (MMS_STORE_STATUS, ''Mms-X-Mms-Store-Status''), (MMS_STORE_STATUS_TEXT, ''Mms-X-Mms-Store-Status-Text''),
     (MMS_STORED, ''Mms-X-Mms-Stored''), (MMS_ATTRIBUTES, ''Mms-X-Mms-Attributes''), (MMS_TOTALS, ''Mms-X-Mms-Totals''),
     (MMS_MBOX_TOTALS, ''Mms-X-Mms-Mbox-Totals''), (MMS_QUOTAS, ''Mms-X-Mms-Quotas''), (MMS_MBOX_QUOTAS, ''Mms-X-Mms-Mbox-Quotas''),
     (MMS_MESSAGE_COUNT, ''Mms-X-Mms-Message-Count''), (MMS_CONTENT, ''Mms-Content''), (MMS_START, ''Mms-X-Mms-Start''),
     (MMS_ADDITIONAL_HEADERS, ''Mms-Additional-headers''), (MMS_DISTRIBUTION_INDICATOR, ''Mms-X-Mms-Distribution-Indicator''),
     (MMS_ELEMENT_DESCRIPTOR, ''Mms-X-Mms-Element-Descriptor''), (MMS_LIMIT, ''Mms-X-Mms-Limit''),
     (MMS_RECOMMENDED_RETRIEVAL_MODE, ''Mms-X-Mms-Recommended-Retrieval-Mode-Text''),
     (MMS_RECOMMENDED_RETRIEVAL_MODE_TEXT, ''Mms-X-Mms-Recommended-Retrieval-Mode-Text''), (MMS_STATUS_TEXT, ''Mms-X-Mms-Status-Text''),
     (MMS_APPLIC_ID, ''Mms-X-Mms-Applic-ID''), (MMS_REPLY_APPLIC_ID, ''Mms-X-Mms-Reply-Applic-ID''),
     (MMS_AUX_APPLIC_INFO, ''Mms-X-Mms-Aux-Applic-Info''), (MMS_CONTENT_CLASS, ''Mms-X-Mms-Content-Class''),
     (MMS_DRM_CONTENT, ''Mms-X-Mms-DRM-Content''), (MMS_ADAPTATION_ALLOWED, ''Mms-X-Mms-Adaptation-Allowed''),
     (MMS_REPLACE_ID, ''Mms-X-Mms-Replace-ID''), (MMS_CANCEL_ID, ''Mms-X-Mms-Cancel-ID''),
     (MMS_CANCEL_STATUS, ''Mms-X-Mms-Cancel-Status''), (0x00, ''empty'')]"

definition FindHeaderFieldName :: "u8 \<Rightarrow> string option" where
  "FindHeaderFieldName fieldId = map_of mmsHeaderNames fieldId"

section \<open>The values\<close>

text \<open>The maps of \<^verbatim>\<open>MmsHeader\<close>. A long value is an \<^verbatim>\<open>int64_t\<close>.\<close>

record MmsHeader =
  octetValueMap :: "u8 \<rightharpoonup> u8"
  longValueMap :: "u8 \<rightharpoonup> u64"
  textValueMap :: "u8 \<rightharpoonup> bytes"
  encodeStringsMap :: "u8 \<rightharpoonup> MmsEncodeString"
  addressMap :: "u8 \<rightharpoonup> MmsAddress list"
  mmsContentType :: MmsContentType

definition new_header :: MmsHeader where
  "new_header = \<lparr>octetValueMap = Map.empty, longValueMap = Map.empty, textValueMap = Map.empty, encodeStringsMap = Map.empty,
     addressMap = Map.empty, mmsContentType = new_content_type\<rparr>"

definition GetOctetValue :: "u8 \<Rightarrow> MmsHeader \<Rightarrow> u8 option" where
  "GetOctetValue fieldId h = octetValueMap h fieldId"

definition GetLongValue :: "u8 \<Rightarrow> MmsHeader \<Rightarrow> u64 option" where
  "GetLongValue fieldId h = longValueMap h fieldId"

definition GetTextValue :: "u8 \<Rightarrow> MmsHeader \<Rightarrow> bytes option" where
  "GetTextValue fieldId h = textValueMap h fieldId"

definition GetEncodeStringValue :: "u8 \<Rightarrow> MmsHeader \<Rightarrow> MmsEncodeString option" where
  "GetEncodeStringValue fieldId h = encodeStringsMap h fieldId"

definition GetHeaderAllAddressValue :: "u8 \<Rightarrow> MmsHeader \<Rightarrow> MmsAddress list option" where
  "GetHeaderAllAddressValue fieldId h = addressMap h fieldId"

definition GetStringValue :: "mms_env \<Rightarrow> u8 \<Rightarrow> MmsHeader \<Rightarrow> bytes option" where
  "GetStringValue env fieldId h =
     (case GetTextValue fieldId h of
        Some s \<Rightarrow> Some s
      | None \<Rightarrow> map_option (\<lambda>e. snd (GetEncodeString env e)) (GetEncodeStringValue fieldId h))"

definition put_octet :: "u8 \<Rightarrow> u8 \<Rightarrow> MmsHeader \<Rightarrow> MmsHeader" where
  "put_octet fieldId v h = h\<lparr>octetValueMap := (octetValueMap h)(fieldId \<mapsto> v)\<rparr>"

definition put_long :: "u8 \<Rightarrow> u64 \<Rightarrow> MmsHeader \<Rightarrow> MmsHeader" where
  "put_long fieldId v h = h\<lparr>longValueMap := (longValueMap h)(fieldId \<mapsto> v)\<rparr>"

definition put_text :: "u8 \<Rightarrow> bytes \<Rightarrow> MmsHeader \<Rightarrow> MmsHeader" where
  "put_text fieldId v h = h\<lparr>textValueMap := (textValueMap h)(fieldId \<mapsto> v)\<rparr>"

definition put_string :: "u8 \<Rightarrow> MmsEncodeString \<Rightarrow> MmsHeader \<Rightarrow> MmsHeader" where
  "put_string fieldId v h = h\<lparr>encodeStringsMap := (encodeStringsMap h)(fieldId \<mapsto> v)\<rparr>"

definition put_addresses :: "u8 \<Rightarrow> MmsAddress list \<Rightarrow> MmsHeader \<Rightarrow> MmsHeader" where
  "put_addresses fieldId v h = h\<lparr>addressMap := (addressMap h)(fieldId \<mapsto> v)\<rparr>"

subsection \<open>Setting values\<close>

definition in_range :: "u8 \<Rightarrow> u8 \<Rightarrow> u8 \<Rightarrow> bool" where
  "in_range lo hi v \<longleftrightarrow> lo \<le> v \<and> v \<le> hi"

definition CheckResponseStatus :: "u8 \<Rightarrow> bool" where
  "CheckResponseStatus v \<longleftrightarrow> in_range 128 136 v \<or> in_range 192 196 v \<or> in_range 224 235 v"

definition CheckRetrieveStatus :: "u8 \<Rightarrow> bool" where
  "CheckRetrieveStatus v \<longleftrightarrow> v = 128 \<or> in_range 192 194 v \<or> in_range 224 227 v"

definition CheckStoreStatus :: "u8 \<Rightarrow> bool" where
  "CheckStoreStatus v \<longleftrightarrow> v = 128 \<or> in_range 192 193 v \<or> in_range 224 228 v"

text \<open>The fields with a \<^verbatim>\<open>MmsBoolType\<close>; a value is set only if it is one.\<close>

definition CheckBooleanValue :: "u8 \<Rightarrow> u8 \<Rightarrow> bool" where
  "CheckBooleanValue fieldId v \<longleftrightarrow>
     fieldId \<in> {MMS_DELIVERY_REPORT, MMS_READ_REPORT, MMS_REPORT_ALLOWED, MMS_STORE, MMS_STORED, MMS_TOTALS, MMS_QUOTAS,
       MMS_DISTRIBUTION_INDICATOR, MMS_DRM_CONTENT, MMS_ADAPTATION_ALLOWED} \<and> in_range 128 129 v"

text \<open>The result and \<^verbatim>\<open>match\<close>.\<close>

definition SetOctetValuePortionData :: "u8 \<Rightarrow> u8 \<Rightarrow> bool \<times> bool" where
  "SetOctetValuePortionData fieldId v =
     (if fieldId = MMS_MESSAGE_TYPE then (in_range MMS_MSGTYPE_SEND_REQ MMS_MSGTYPE_FORWARD_CONF v, True)
      else if fieldId = MMS_PRIORITY then (in_range 128 130 v, True)
      else if fieldId = MMS_RESPONSE_STATUS then (CheckResponseStatus v, True)
      else if fieldId = MMS_SENDER_VISIBILITY then (in_range 128 129 v, True)
      else if fieldId = MMS_STATUS then (in_range 128 135 v, True)
      else if fieldId = MMS_RETRIEVE_STATUS then (CheckRetrieveStatus v, True)
      else (True, False))"

text \<open>\<^verbatim>\<open>match\<close> is false when the switch of \<^verbatim>\<open>SetOctetValuePartData\<close> is entered, and no case of it sets it.\<close>

definition SetOctetValuePartData :: "u8 \<Rightarrow> u8 \<Rightarrow> bool \<times> bool" where
  "SetOctetValuePartData fieldId v =
     (case SetOctetValuePortionData fieldId v of
        (False, match) \<Rightarrow> (False, match)
      | (True, True) \<Rightarrow> (True, True)
      | (True, False) \<Rightarrow>
          if fieldId = MMS_READ_STATUS then (in_range 128 129 v, False)
          else if fieldId = MMS_REPLY_CHARGING then (in_range 128 131 v, False)
          else if fieldId = MMS_MM_STATE then (in_range 128 132 v, False)
          else if fieldId = MMS_MM_FLAGS then (in_range 128 130 v, False)
          else if fieldId = MMS_STORE_STATUS then (CheckStoreStatus v, False)
          else (True, False))"

definition SetOctetValue :: "u8 \<Rightarrow> u8 \<Rightarrow> MmsHeader \<Rightarrow> bool \<times> MmsHeader" where
  "SetOctetValue fieldId v h =
     (if FindFieldDes fieldId \<noteq> MMS_FIELD_OCTET_TYPE then (False, h)
      else if CheckBooleanValue fieldId v then (True, put_octet fieldId v h)
      else case SetOctetValuePartData fieldId v of
             (False, match) \<Rightarrow> (False, h)
           | (True, match) \<Rightarrow>
               if fieldId = MMS_CONTENT_CLASS then (if in_range 128 135 v then (True, put_octet fieldId v h) else (False, h))
               else if fieldId = MMS_CANCEL_STATUS then (if in_range 128 129 v then (True, put_octet fieldId v h) else (False, h))
               else if fieldId = MMS_MESSAGE_CLASS then (if in_range 128 131 v then (True, put_octet fieldId v h) else (False, h))
               else if match then (True, put_octet fieldId v h) else (False, h))"

definition SetLongValue :: "u8 \<Rightarrow> u64 \<Rightarrow> MmsHeader \<Rightarrow> bool \<times> MmsHeader" where
  "SetLongValue fieldId v h =
     (if FindFieldDes fieldId \<noteq> MMS_FIELD_INTEGER_TYPE \<and> FindFieldDes fieldId \<noteq> MMS_FIELD_LONG_TYPE then (False, h)
      else (True, put_long fieldId v h))"

definition SetTextValue :: "u8 \<Rightarrow> bytes \<Rightarrow> MmsHeader \<Rightarrow> bool \<times> MmsHeader" where
  "SetTextValue fieldId v h =
     (if v = [] \<or> FindFieldDes fieldId \<noteq> MMS_FIELD_TEXT_TYPE then (False, h) else (True, put_text fieldId v h))"

definition SetEncodeStringValue :: "u8 \<Rightarrow> u32 \<Rightarrow> bytes \<Rightarrow> MmsHeader \<Rightarrow> bool \<times> MmsHeader" where
  "SetEncodeStringValue fieldId charset v h =
     (if v = [] \<or> FindFieldDes fieldId \<noteq> MMS_FIELD_ENCODE_TEXT_TYPE then (False, h)
      else (True, put_string fieldId (SetEncodeString charset v) h))"

definition AddHeaderAddressValue :: "u8 \<Rightarrow> MmsAddress \<Rightarrow> MmsHeader \<Rightarrow> bool \<times> MmsHeader" where
  "AddHeaderAddressValue fieldId a h =
     (if addressString a = [] \<and> fieldId \<noteq> MMS_FROM then (False, h)
      else if FindFieldDes fieldId \<noteq> MMS_FIELD_ENCODE_ADDR_TYPE then (False, h)
      else (True, put_addresses fieldId (case addressMap h fieldId of None \<Rightarrow> [a] | Some as \<Rightarrow> as @ [a]) h))"

definition IsHaveBody :: "MmsHeader \<Rightarrow> bool" where
  "IsHaveBody h \<longleftrightarrow>
     (case GetOctetValue MMS_MESSAGE_TYPE h of
        None \<Rightarrow> False
      | Some t \<Rightarrow> t = MMS_MSGTYPE_SEND_REQ \<or> t = MMS_MSGTYPE_RETRIEVE_CONF)"

definition GetSmilFileName :: "MmsHeader \<Rightarrow> bytes" where
  "GetSmilFileName h =
     (case textMap (msgContentParm (mmsContentType h)) CT_P_START_VALUE of
        Some s \<Rightarrow> s
      | None \<Rightarrow> (case textMap (msgContentParm (mmsContentType h)) CT_P_START of Some s \<Rightarrow> s | None \<Rightarrow> []))"

section \<open>Decoding\<close>

text \<open>
  The decoders of the fields. Every one of them looks the name of its field up first; the \<^verbatim>\<open>len\<close> they hand back is not read.
\<close>

definition named :: "u8 \<Rightarrow> (MmsBuffer \<times> MmsHeader, 'a) op \<Rightarrow> (MmsBuffer \<times> MmsHeader, 'a) op" where
  "named fieldId m = (if FindHeaderFieldName fieldId = None then fail else m)"

definition DecodeMmsMsgType :: "u8 \<Rightarrow> (MmsBuffer \<times> MmsHeader, unit) op" where
  "DecodeMmsMsgType fieldId = named fieldId (
     bnd (on_buf GetOneByte) (\<lambda>oneByte.
     if oneByte < MMS_MSGTYPE_SEND_REQ \<or> oneByte > MMS_MSGTYPE_CANCEL_CONF then fail else on_out (put_octet fieldId oneByte)))"

definition MmsAddress_of :: "bytes \<Rightarrow> MmsAddress" where
  "MmsAddress_of s = SetMmsAddressString s CHARSET_UTF8"

text \<open>Whether the string could be decoded is not asked.\<close>

definition DecodeFieldAddressModelValue :: "mms_env \<Rightarrow> u8 \<Rightarrow> (MmsBuffer \<times> MmsHeader, unit) op" where
  "DecodeFieldAddressModelValue env fieldId = named fieldId (
     bnd (on_buf (run_local new_encode_string DecodeEncodeString)) (\<lambda>(_, encodeString).
     let a = MmsAddress_of (snd (GetEncodeString env encodeString)) in
     on_out (\<lambda>h. put_addresses fieldId (case addressMap h fieldId of None \<Rightarrow> [a] | Some as \<Rightarrow> as @ [a]) h)))"

definition DecodeFieldOctetValue :: "u8 \<Rightarrow> (MmsBuffer \<times> MmsHeader, unit) op" where
  "DecodeFieldOctetValue fieldId = named fieldId (
     bnd (on_buf GetOneByte) (\<lambda>oneByte. on_out (put_octet fieldId oneByte)))"

definition DecodeFieldLongValue :: "u8 \<Rightarrow> (MmsBuffer \<times> MmsHeader, unit) op" where
  "DecodeFieldLongValue fieldId = named fieldId (
     bnd (on_buf DecodeLongInteger) (\<lambda>value. on_out (put_long fieldId value)))"

definition DecodeFieldTextStringValue :: "u8 \<Rightarrow> (MmsBuffer \<times> MmsHeader, unit) op" where
  "DecodeFieldTextStringValue fieldId = named fieldId (
     bnd (on_buf DecodeText) (\<lambda>(tempString, tempLen). on_out (put_text fieldId tempString)))"

definition DecodeFieldEncodedStringValue :: "u8 \<Rightarrow> (MmsBuffer \<times> MmsHeader, unit) op" where
  "DecodeFieldEncodedStringValue fieldId = named fieldId (
     bnd (on_buf (run_local new_encode_string DecodeEncodeString)) (\<lambda>(r, encodeString).
     if r = None then fail else on_out (put_string fieldId encodeString)))"

text \<open>A second sender is dropped: \<^verbatim>\<open>emplace\<close> leaves the first.\<close>

definition emplace_from :: "u8 \<Rightarrow> bytes \<Rightarrow> (MmsBuffer \<times> MmsHeader, unit) op" where
  "emplace_from fieldId s = on_out (\<lambda>h. h\<lparr>addressMap := map_insert fieldId [MmsAddress_of s] (addressMap h)\<rparr>)"

definition DecodeFromValue :: "mms_env \<Rightarrow> u8 \<Rightarrow> (MmsBuffer \<times> MmsHeader, unit) op" where
  "DecodeFromValue env fieldId = named fieldId (
     bnd (on_buf DecodeValueLength) (\<lambda>valueLength.
     bnd (on_buf GetOneByte) (\<lambda>oneByte.
     if oneByte = 128 then
       bnd (on_buf (run_local new_encode_string DecodeEncodeString)) (\<lambda>(_, encodeString).
       let encodeAddress = snd (GetEncodeString env encodeString) in
       emplace_from fieldId (if encodeAddress = [] then strEncodeString encodeString else encodeAddress))
     else if oneByte = 129 then emplace_from fieldId (ascii ''Insert-address-token'')
     else fail)))"

definition DecodeHeaderContentType :: "u8 \<Rightarrow> (MmsBuffer \<times> MmsHeader, unit) op" where
  "DecodeHeaderContentType fieldId = named fieldId (
     seq (zoom mmsContentType (\<lambda>c h. h\<lparr>mmsContentType := c\<rparr>) DecodeMmsContentType) (ret ()))"

text \<open>The octets of an unknown field, up to the next one with the highest bit set.\<close>

function DecodeMmsMsgUnKnownField :: "(MmsBuffer, unit) op" where
  "DecodeMmsMsgUnKnownField b =
     (case GetOneByte b of
        Ok oneByte c \<Rightarrow> if oneByte < 0x80 then DecodeMmsMsgUnKnownField c else ignore (DecreasePointer 1) c
      | Fail c \<Rightarrow> Fail c
      | Fault \<Rightarrow> Fault)"
  by pat_completeness auto

termination DecodeMmsMsgUnKnownField
  by (relation "measure (\<lambda>b. totolLength b - curPosition b)") (auto dest: GetOneByte_advances)

declare DecodeMmsMsgUnKnownField.simps [simp del]

definition DecodeFieldIntegerValue :: "u8 \<Rightarrow> (MmsBuffer \<times> MmsHeader, unit) op" where
  "DecodeFieldIntegerValue fieldId = named fieldId (
     bnd (on_buf DecodeInteger) (\<lambda>value. on_out (put_long fieldId value)))"

definition DecodeFieldDate :: "mms_env \<Rightarrow> u8 \<Rightarrow> (MmsBuffer \<times> MmsHeader, unit) op" where
  "DecodeFieldDate env fieldId = named fieldId (
     bnd (on_buf DecodeValueLength) (\<lambda>_.
     bnd (on_buf GetOneByte) (\<lambda>token.
     bnd (on_buf DecodeLongInteger) (\<lambda>timeValue.
     on_out (put_long fieldId (if token = 0x81 then timeValue + mms_now env else timeValue))))))"

definition DecodeFieldPreviouslySentDate :: "u8 \<Rightarrow> (MmsBuffer \<times> MmsHeader, unit) op" where
  "DecodeFieldPreviouslySentDate fieldId = named fieldId (
     bnd (on_buf DecodeValueLength) (\<lambda>_.
     bnd (on_buf DecodeInteger) (\<lambda>_.
     bnd (on_buf DecodeLongInteger) (\<lambda>perviouslySentDate. on_out (put_long fieldId perviouslySentDate)))))"

definition DecodeFieldMBox :: "u8 \<Rightarrow> (MmsBuffer \<times> MmsHeader, unit) op" where
  "DecodeFieldMBox fieldId = named fieldId (
     bnd (on_buf DecodeValueLength) (\<lambda>_.
     bnd (on_buf GetOneByte) (\<lambda>_.
     bnd (on_buf DecodeInteger) (\<lambda>_. ret ()))))"

definition DecodeFieldMMFlag :: "u8 \<Rightarrow> (MmsBuffer \<times> MmsHeader, unit) op" where
  "DecodeFieldMMFlag fieldId = named fieldId (
     bnd (on_buf DecodeValueLength) (\<lambda>_.
     bnd (on_buf GetOneByte) (\<lambda>_.
     bnd (on_buf (run_local new_encode_string DecodeEncodeString)) (\<lambda>(r, _).
     if r = None then fail else ret ()))))"

definition octet_fields :: "u8 list" where
  "octet_fields = [MMS_DELIVERY_REPORT, MMS_READ_REPORT, MMS_REPORT_ALLOWED, MMS_STORE, MMS_STORED, MMS_TOTALS, MMS_QUOTAS,
     MMS_DISTRIBUTION_INDICATOR, MMS_ADAPTATION_ALLOWED, MMS_MESSAGE_CLASS, MMS_PRIORITY, MMS_RESPONSE_STATUS, MMS_SENDER_VISIBILITY,
     MMS_STATUS, MMS_RETRIEVE_STATUS, MMS_READ_STATUS, MMS_REPLY_CHARGING, MMS_MM_STATE, MMS_STORE_STATUS,
     MMS_RECOMMENDED_RETRIEVAL_MODE, MMS_CONTENT_CLASS, MMS_CANCEL_STATUS, MMS_ATTRIBUTES, MMS_DRM_CONTENT]"

definition string_fields :: "u8 list" where
  "string_fields = [MMS_RESPONSE_TEXT, MMS_SUBJECT, MMS_RETRIEVE_TEXT, MMS_PREVIOUSLY_SENT_BY, MMS_STORE_STATUS_TEXT,
     MMS_RECOMMENDED_RETRIEVAL_MODE_TEXT, MMS_STATUS_TEXT]"

definition text_fields :: "u8 list" where
  "text_fields = [MMS_CONTENT_LOCATION, MMS_TRANSACTION_ID, MMS_MESSAGE_ID, MMS_REPLACE_ID, MMS_CANCEL_ID, MMS_APPLIC_ID,
     MMS_REPLY_APPLIC_ID, MMS_REPLY_CHARGING_ID, MMS_AUX_APPLIC_INFO]"

text \<open>The decoders by the code of the field.\<close>

definition InitOctetHandleFun :: "u8 \<Rightarrow> (MmsBuffer \<times> MmsHeader, unit) op option" where
  "InitOctetHandleFun f =
     (if f \<in> set octet_fields then Some (DecodeFieldOctetValue f)
      else if f = MMS_MM_FLAGS then Some (DecodeFieldMMFlag f)
      else if f = MMS_MBOX_TOTALS \<or> f = MMS_MBOX_QUOTAS then Some (DecodeFieldMBox f)
      else if f = MMS_MESSAGE_TYPE then Some (DecodeMmsMsgType f)
      else None)"

definition InitLongHandleFun :: "mms_env \<Rightarrow> u8 \<Rightarrow> (MmsBuffer \<times> MmsHeader, unit) op option" where
  "InitLongHandleFun env f =
     (if f = MMS_CONTENT_TYPE \<or> f = MMS_ELEMENT_DESCRIPTOR then Some (DecodeHeaderContentType f)
      else if f \<in> {MMS_DATE, MMS_REPLY_CHARGING_SIZE, MMS_MESSAGE_SIZE} then Some (DecodeFieldLongValue f)
      else if f \<in> {MMS_MESSAGE_COUNT, MMS_START, MMS_LIMIT, MMS_MMS_VERSION} then Some (DecodeFieldIntegerValue f)
      else if f \<in> {MMS_DELIVERY_TIME, MMS_EXPIRY, MMS_REPLY_CHARGING_DEADLINE} then Some (DecodeFieldDate env f)
      else if f = MMS_PREVIOUSLY_SENT_DATE then Some (DecodeFieldPreviouslySentDate f)
      else None)"

definition InitStringHandleFun :: "mms_env \<Rightarrow> u8 \<Rightarrow> (MmsBuffer \<times> MmsHeader, unit) op option" where
  "InitStringHandleFun env f =
     (if f \<in> set string_fields then Some (DecodeFieldEncodedStringValue f)
      else if f \<in> {MMS_BCC, MMS_CC, MMS_TO} then Some (DecodeFieldAddressModelValue env f)
      else if f = MMS_FROM then Some (DecodeFromValue env f)
      else None)"

definition InitTextStringHandleFun :: "u8 \<Rightarrow> (MmsBuffer \<times> MmsHeader, unit) op option" where
  "InitTextStringHandleFun f = (if f \<in> set text_fields then Some (DecodeFieldTextStringValue f) else None)"

definition memberFuncMap :: "mms_env \<Rightarrow> u8 \<Rightarrow> (MmsBuffer \<times> MmsHeader, unit) op option" where
  "memberFuncMap env f =
     (case InitOctetHandleFun f of Some m \<Rightarrow> Some m | None \<Rightarrow>
     (case InitLongHandleFun env f of Some m \<Rightarrow> Some m | None \<Rightarrow>
     (case InitStringHandleFun env f of Some m \<Rightarrow> Some m | None \<Rightarrow> InitTextStringHandleFun f)))"

definition header_field :: "mms_env \<Rightarrow> u8 \<Rightarrow> (MmsBuffer \<times> MmsHeader, unit) op" where
  "header_field env fieldCode =
     (case memberFuncMap env fieldCode of
        Some decodeFunc \<Rightarrow> decodeFunc
      | None \<Rightarrow> ignore (on_buf DecodeMmsMsgUnKnownField))"

subsection \<open>No decoder leaves the buffer or moves the pointer back\<close>

lemma stays_DecodeMmsMsgUnKnownField: "keeps_pos w (\<lambda>b. b) n N DecodeMmsMsgUnKnownField"
proof (rule safeI)
  fix b
  assume "at_pos w n N b"
  then show "case DecodeMmsMsgUnKnownField b of Ok x t \<Rightarrow> at_pos w n N t | Fail t \<Rightarrow> at_pos w n N t | Fault \<Rightarrow> \<not> w"
  proof (induction b rule: DecodeMmsMsgUnKnownField.induct)
    case (1 b)
    show ?case
    proof (cases "GetOneByte b")
      case (Ok x c)
      with safeD [OF GetOneByte_step 1(2)] have c: "at_pos w (Suc n) N c" by simp
      show ?thesis
      proof (cases "x < 0x80")
        case True
        with 1(1) [OF Ok] Ok c show ?thesis by (subst DecodeMmsMsgUnKnownField.simps) (simp add: at_pos_mono [of w "Suc n" N c n])
      next
        case False
        with safeD [OF step_back c] Ok show ?thesis
          by (subst DecodeMmsMsgUnKnownField.simps) (simp add: ignore_def split: outcome.splits)
      qed
    qed (use safeD [OF stays_GetOneByte 1(2)] in \<open>(subst DecodeMmsMsgUnKnownField.simps, simp)+\<close>)
  qed
qed

lemma adv_run_string [adv_intros]: "adv w (\<lambda>b. b) n N (run_local new_encode_string DecodeEncodeString)"
  by (intro stays_adv stays_run_local stays_DecodeEncodeString)

lemmas field_defs = named_def DecodeMmsMsgType_def DecodeFieldAddressModelValue_def DecodeFieldOctetValue_def DecodeFieldLongValue_def
  DecodeFieldTextStringValue_def DecodeFieldEncodedStringValue_def DecodeFromValue_def DecodeHeaderContentType_def
  DecodeFieldIntegerValue_def DecodeFieldDate_def DecodeFieldPreviouslySentDate_def DecodeFieldMBox_def DecodeFieldMMFlag_def emplace_from_def

lemma adv_fields [adv_intros]:
  "adv w fst n N (DecodeMmsMsgType f)" "adv w fst n N (DecodeFieldAddressModelValue env f)" "adv w fst n N (DecodeFieldOctetValue f)"
  "adv w fst n N (DecodeFieldLongValue f)" "adv w fst n N (DecodeFieldTextStringValue f)" "adv w fst n N (DecodeFieldEncodedStringValue f)"
  "adv w fst n N (DecodeFromValue env f)" "adv w fst n N (DecodeHeaderContentType f)" "adv w fst n N (DecodeFieldIntegerValue f)"
  "adv w fst n N (DecodeFieldDate env f)" "adv w fst n N (DecodeFieldPreviouslySentDate f)" "adv w fst n N (DecodeFieldMBox f)"
  "adv w fst n N (DecodeFieldMMFlag f)"
  unfolding field_defs Let_def by (intro adv_intros stay_intros)+

lemma adv_memberFuncMap: "memberFuncMap env f = Some m \<Longrightarrow> adv w fst n N m"
  by (auto simp: memberFuncMap_def InitOctetHandleFun_def InitLongHandleFun_def InitStringHandleFun_def InitTextStringHandleFun_def
      split: if_splits option.splits intro: adv_fields)

lemma adv_header_field [adv_intros]: "adv w fst n N (header_field env f)"
proof (cases "memberFuncMap env f")
  case None
  then show ?thesis unfolding header_field_def by (simp, intro stay_intros stays_DecodeMmsMsgUnKnownField)
next
  case (Some m)
  then show ?thesis unfolding header_field_def by (simp add: adv_memberFuncMap [OF Some])
qed

text \<open>The loop over the fields ends with the buffer or with the content type, behind which the body is.\<close>

function DecodeMmsHeader :: "mms_env \<Rightarrow> (MmsBuffer \<times> MmsHeader, unit) op" where
  "DecodeMmsHeader env s =
     (case on_buf GetOneByte s of
        Fail t \<Rightarrow> Ok () t
      | Fault \<Rightarrow> Fault
      | Ok oneByte t \<Rightarrow>
          (case header_field env (oneByte OR 0x80) t of
             Ok x u \<Rightarrow> if oneByte OR 0x80 = MMS_CONTENT_TYPE then Ok () u else DecodeMmsHeader env u
           | Fail u \<Rightarrow> Fail u
           | Fault \<Rightarrow> Fault))"
  by pat_completeness auto

lemma header_field_progress:
  assumes "on_buf GetOneByte s = Ok x t" "header_field env f t = Ok y u"
  shows "totolLength (fst u) - curPosition (fst u) < totolLength (fst s) - curPosition (fst s)"
  using GetOneByte_progress [OF assms(1)] adv_progress [OF adv_header_field assms(2)] by linarith

termination DecodeMmsHeader
  by (relation "measure (\<lambda>(_, s). totolLength (fst s) - curPosition (fst s))") (auto dest: header_field_progress)

declare DecodeMmsHeader.simps [simp del]

lemma adv_DecodeMmsHeader [adv_intros]: "adv w fst n N (DecodeMmsHeader env)"
proof (rule safeI)
  fix s :: "MmsBuffer \<times> MmsHeader"
  assume "at_pos w n N (fst s)"
  then show "case DecodeMmsHeader env s of Ok x t \<Rightarrow> at_pos w n N (fst t) | Fail t \<Rightarrow> at_pos w 0 N (fst t) | Fault \<Rightarrow> \<not> w"
  proof (induction env s rule: DecodeMmsHeader.induct)
    case (1 env s)
    have g: "keeps_pos w fst n N (on_buf GetOneByte :: (MmsBuffer \<times> MmsHeader, u8) op)" by (intro stay_intros stays_GetOneByte)
    show ?case
    proof (cases "on_buf GetOneByte s")
      case (Ok x t)
      with safeD [OF g 1(2)] have t: "at_pos w n N (fst t)" by simp
      note read = Ok and field = safeD [OF adv_header_field t, of env "x OR 0x80"]
      show ?thesis
      proof (cases "header_field env (x OR 0x80) t")
        case (Ok y u)
        with field read 1(1) [OF read Ok] show ?thesis
          by (cases "x OR 0x80 = MMS_CONTENT_TYPE"; subst DecodeMmsHeader.simps) simp_all
      qed (use field read in \<open>(subst DecodeMmsHeader.simps, simp)+\<close>)
    qed (use safeD [OF g 1(2)] in \<open>(subst DecodeMmsHeader.simps, simp add: at_pos_0)+\<close>)
  qed
qed

section \<open>Encoding\<close>

text \<open>The encoders work on the buffer and the header, from which the sender is removed.\<close>

type_synonym header_enc = "(MmsEncodeBuffer \<times> MmsHeader, unit) op"

definition EncodeOctetValue :: "u8 \<Rightarrow> u8 \<Rightarrow> (MmsEncodeBuffer, unit) op" where
  "EncodeOctetValue fieldId v = seq (MmsWriteByte fieldId) (MmsWriteByte v)"

definition EncodeShortIntegerValue :: "u8 \<Rightarrow> u64 \<Rightarrow> (MmsEncodeBuffer, unit) op" where
  "EncodeShortIntegerValue fieldId v = seq (MmsWriteByte fieldId) (EncodeShortInteger (ucast v))"

definition EncodeTextStringValue :: "mms_env \<Rightarrow> u8 \<Rightarrow> bytes \<Rightarrow> (MmsEncodeBuffer, unit) op" where
  "EncodeTextStringValue env fieldId v =
     (if v = [] then fail else seq (MmsWriteByte fieldId) (EncodeText (char_signed env) v))"

definition EncodeEncodeStringValue :: "mms_env \<Rightarrow> u8 \<Rightarrow> MmsEncodeString \<Rightarrow> (MmsEncodeBuffer, unit) op" where
  "EncodeEncodeStringValue env fieldId v =
     (case GetEncodeString env v of
        (ok, valueUtf8) \<Rightarrow>
          if \<not> ok \<or> valueUtf8 = [] then fail else seq (MmsWriteByte fieldId) (EncodeEncodeString env v))"

definition EncodeLongIntergerValue :: "u8 \<Rightarrow> u64 \<Rightarrow> (MmsEncodeBuffer, unit) op" where
  "EncodeLongIntergerValue fieldId v = seq (MmsWriteByte fieldId) (EncodeLongInteger v)"

definition EncodeOctetValueFromMap :: "u8 \<Rightarrow> MmsHeader \<Rightarrow> (MmsEncodeBuffer, unit) op" where
  "EncodeOctetValueFromMap fieldId h = (case GetOctetValue fieldId h of None \<Rightarrow> fail | Some v \<Rightarrow> EncodeOctetValue fieldId v)"

definition EncodeTextStringValueFromMap :: "mms_env \<Rightarrow> u8 \<Rightarrow> MmsHeader \<Rightarrow> (MmsEncodeBuffer, unit) op" where
  "EncodeTextStringValueFromMap env fieldId h =
     (case GetTextValue fieldId h of None \<Rightarrow> fail | Some v \<Rightarrow> EncodeTextStringValue env fieldId v)"

definition EnocdeEncodeStringValueFromMap :: "mms_env \<Rightarrow> u8 \<Rightarrow> MmsHeader \<Rightarrow> (MmsEncodeBuffer, unit) op" where
  "EnocdeEncodeStringValueFromMap env fieldId h =
     (case GetEncodeStringValue fieldId h of None \<Rightarrow> fail | Some v \<Rightarrow> EncodeEncodeStringValue env fieldId v)"

definition EncodeLongIntergerValueFromMap :: "u8 \<Rightarrow> MmsHeader \<Rightarrow> (MmsEncodeBuffer, unit) op" where
  "EncodeLongIntergerValueFromMap fieldId h =
     (case GetLongValue fieldId h of None \<Rightarrow> fail | Some v \<Rightarrow> EncodeLongIntergerValue fieldId v)"

definition EncodeFieldExpriyValue :: "u64 \<Rightarrow> (MmsEncodeBuffer, unit) op" where
  "EncodeFieldExpriyValue v =
     seq (MmsWriteByte MMS_EXPIRY) (with_length (seq (EncodeOctet 129) (EncodeLongInteger v)))"

definition EncodeFieldFromValue :: "mms_env \<Rightarrow> MmsAddress list \<Rightarrow> header_enc" where
  "EncodeFieldFromValue env addr =
     bnd get_out (\<lambda>h.
     if addressMap h MMS_FROM = None then ret ()
     else
       seq (on_buf (MmsWriteByte MMS_FROM)) (
       seq (on_buf (with_length (
              if addr = [] \<or> addressString (hd addr) = [] then MmsWriteByte 129
              else seq (MmsWriteByte 128) (EncodeEncodeString env (SetAddressString (hd addr)))))) (
       on_out (\<lambda>h. h\<lparr>addressMap := (addressMap h)(MMS_FROM := None)\<rparr>))))"

definition EncodeMultipleAddressValue :: "mms_env \<Rightarrow> u8 \<Rightarrow> MmsAddress list \<Rightarrow> (MmsEncodeBuffer, unit) op" where
  "EncodeMultipleAddressValue env fieldId addrs =
     (if addrs = [] then fail
      else each (\<lambda>addr. seq (MmsWriteByte fieldId) (EncodeEncodeString env (SetAddressString addr))) addrs)"

definition EcondeFieldMessageClassValue :: "mms_env \<Rightarrow> MmsHeader \<Rightarrow> (MmsEncodeBuffer, unit) op" where
  "EcondeFieldMessageClassValue env h =
     (case GetOctetValue MMS_MESSAGE_CLASS h of
        Some v \<Rightarrow> EncodeOctetValue MMS_MESSAGE_CLASS v
      | None \<Rightarrow>
          (case GetTextValue MMS_MESSAGE_CLASS h of
             None \<Rightarrow> fail
           | Some s \<Rightarrow>
               if s = ascii ''personal'' then EncodeOctetValue MMS_MESSAGE_CLASS 128
               else if s = ascii ''advertisement'' then EncodeOctetValue MMS_MESSAGE_CLASS 129
               else if s = ascii ''informational'' then EncodeOctetValue MMS_MESSAGE_CLASS 130
               else if s = ascii ''auto'' then EncodeOctetValue MMS_MESSAGE_CLASS 131
               else EncodeTextStringValue env MMS_MESSAGE_CLASS s))"

definition octet_or_zero :: "u8 \<Rightarrow> MmsHeader \<Rightarrow> u8" where
  "octet_or_zero fieldId h = (case GetOctetValue fieldId h of None \<Rightarrow> 0 | Some v \<Rightarrow> v)"

definition long_or_zero :: "u8 \<Rightarrow> MmsHeader \<Rightarrow> u64" where
  "long_or_zero fieldId h = (case GetLongValue fieldId h of None \<Rightarrow> 0 | Some v \<Rightarrow> v)"

definition EncodeCommontFieldValue :: "mms_env \<Rightarrow> MmsHeader \<Rightarrow> (MmsEncodeBuffer, unit) op" where
  "EncodeCommontFieldValue env h =
     seq (EncodeOctetValue MMS_MESSAGE_TYPE (octet_or_zero MMS_MESSAGE_TYPE h)) (
     seq (case GetTextValue MMS_TRANSACTION_ID h of None \<Rightarrow> ret () | Some v \<Rightarrow> EncodeTextStringValue env MMS_TRANSACTION_ID v) (
     EncodeShortIntegerValue MMS_MMS_VERSION (long_or_zero MMS_MMS_VERSION h)))"

text \<open>An encoder that looks values up in the header, and the lists of addresses.\<close>

definition from_header :: "(MmsHeader \<Rightarrow> (MmsEncodeBuffer, unit) op) \<Rightarrow> header_enc" where
  "from_header f = bnd get_out (\<lambda>h. on_buf (f h))"

definition addresses_or_nil :: "u8 \<Rightarrow> MmsHeader \<Rightarrow> MmsAddress list" where
  "addresses_or_nil fieldId h = (case GetHeaderAllAddressValue fieldId h of None \<Rightarrow> [] | Some as \<Rightarrow> as)"

text \<open>\<^verbatim>\<open>std::map\<close> is iterated in the order of its keys.\<close>

definition EncodeAllAddresses :: "mms_env \<Rightarrow> MmsHeader \<Rightarrow> (MmsEncodeBuffer, unit) op" where
  "EncodeAllAddresses env h =
     each (\<lambda>k. case addressMap h k of None \<Rightarrow> ret () | Some as \<Rightarrow> ignore (EncodeMultipleAddressValue env k as)) (map word_of_nat [0..<256])"

definition EncodeMmsSendReq :: "mms_env \<Rightarrow> header_enc" where
  "EncodeMmsSendReq env =
     seq (bnd get_out (\<lambda>h. EncodeFieldFromValue env (addresses_or_nil MMS_FROM h))) (
     seq (from_header (\<lambda>h. case GetLongValue MMS_EXPIRY h of None \<Rightarrow> ret () | Some v \<Rightarrow> ignore (EncodeFieldExpriyValue v))) (
     seq (from_header (EncodeAllAddresses env)) (
     seq (from_header (\<lambda>h. ignore (EcondeFieldMessageClassValue env h))) (
     seq (from_header (\<lambda>h. ignore (EncodeLongIntergerValueFromMap MMS_DATE h))) (
     seq (from_header (\<lambda>h. ignore (EnocdeEncodeStringValueFromMap env MMS_SUBJECT h))) (
     seq (from_header (\<lambda>h. ignore (EncodeTextStringValueFromMap env MMS_MESSAGE_CLASS h))) (
     seq (from_header (\<lambda>h. ignore (EncodeOctetValueFromMap MMS_PRIORITY h))) (
     seq (from_header (\<lambda>h. ignore (EncodeOctetValueFromMap MMS_SENDER_VISIBILITY h))) (
     seq (from_header (\<lambda>h. ignore (EncodeOctetValueFromMap MMS_DELIVERY_REPORT h)))
         (from_header (\<lambda>h. ignore (EncodeOctetValueFromMap MMS_READ_REPORT h))))))))))))"

definition EncodeMmsSendConf :: "mms_env \<Rightarrow> header_enc" where
  "EncodeMmsSendConf env =
     seq (from_header (EncodeOctetValueFromMap MMS_RESPONSE_STATUS))
         (from_header (\<lambda>h. ignore (EncodeTextStringValueFromMap env MMS_MESSAGE_ID h)))"

text \<open>The sender, if there is one; whether it could be encoded is not asked.\<close>

definition encode_from_if_any :: "mms_env \<Rightarrow> header_enc" where
  "encode_from_if_any env =
     bnd get_out (\<lambda>h.
     case GetHeaderAllAddressValue MMS_FROM h of None \<Rightarrow> ret () | Some as \<Rightarrow> ignore (EncodeFieldFromValue env as))"

definition EncodeMmsNotificationInd :: "mms_env \<Rightarrow> header_enc" where
  "EncodeMmsNotificationInd env =
     seq (from_header (EncodeTextStringValueFromMap env MMS_CONTENT_LOCATION)) (
     seq (from_header (EncodeLongIntergerValueFromMap MMS_MESSAGE_SIZE)) (
     seq (from_header (\<lambda>h. case GetLongValue MMS_EXPIRY h of None \<Rightarrow> fail | Some v \<Rightarrow> EncodeFieldExpriyValue v)) (
     seq (from_header (EcondeFieldMessageClassValue env)) (
     seq (encode_from_if_any env) (
     seq (from_header (\<lambda>h. ignore (EncodeOctetValueFromMap MMS_CONTENT_CLASS h))) (
     seq (from_header (\<lambda>h. ignore (EnocdeEncodeStringValueFromMap env MMS_SUBJECT h)))
         (from_header (\<lambda>h. ignore (EncodeOctetValueFromMap MMS_DELIVERY_REPORT h)))))))))"

definition EnocdeMmsNotifyRespInd :: "mms_env \<Rightarrow> header_enc" where
  "EnocdeMmsNotifyRespInd env =
     seq (from_header (EncodeOctetValueFromMap MMS_STATUS))
         (from_header (\<lambda>h. ignore (EncodeOctetValueFromMap MMS_REPORT_ALLOWED h)))"

definition encode_addresses_if_any :: "mms_env \<Rightarrow> u8 \<Rightarrow> MmsHeader \<Rightarrow> (MmsEncodeBuffer, unit) op" where
  "encode_addresses_if_any env fieldId h =
     (case GetHeaderAllAddressValue fieldId h of None \<Rightarrow> ret () | Some as \<Rightarrow> EncodeMultipleAddressValue env fieldId as)"

definition EnocdeMmsRetrieveConf :: "mms_env \<Rightarrow> header_enc" where
  "EnocdeMmsRetrieveConf env =
     seq (from_header (EncodeLongIntergerValueFromMap MMS_DATE)) (
     seq (from_header (\<lambda>h. ignore (EncodeTextStringValueFromMap env MMS_MESSAGE_ID h))) (
     seq (encode_from_if_any env) (
     seq (from_header (encode_addresses_if_any env MMS_TO)) (
     seq (from_header (encode_addresses_if_any env MMS_CC)) (
     seq (from_header (\<lambda>h. ignore (EcondeFieldMessageClassValue env h))) (
     seq (from_header (\<lambda>h. ignore (EnocdeEncodeStringValueFromMap env MMS_SUBJECT h))) (
     seq (from_header (\<lambda>h. ignore (EncodeOctetValueFromMap MMS_PRIORITY h))) (
     seq (from_header (\<lambda>h. ignore (EncodeOctetValueFromMap MMS_DELIVERY_REPORT h))) (
     seq (from_header (\<lambda>h. ignore (EncodeOctetValueFromMap MMS_READ_REPORT h))) (
     seq (from_header (\<lambda>h. ignore (EncodeOctetValueFromMap MMS_RETRIEVE_STATUS h)))
         (from_header (\<lambda>h. ignore (EnocdeEncodeStringValueFromMap env MMS_RETRIEVE_TEXT h)))))))))))))"

definition EnocdeMmsAcknowledgeInd :: "mms_env \<Rightarrow> header_enc" where
  "EnocdeMmsAcknowledgeInd env = from_header (\<lambda>h. ignore (EncodeOctetValueFromMap MMS_REPORT_ALLOWED h))"

definition encode_addresses :: "mms_env \<Rightarrow> u8 \<Rightarrow> MmsHeader \<Rightarrow> (MmsEncodeBuffer, unit) op" where
  "encode_addresses env fieldId h =
     (case GetHeaderAllAddressValue fieldId h of None \<Rightarrow> fail | Some as \<Rightarrow> EncodeMultipleAddressValue env fieldId as)"

definition EnocdeMmsDeliveryInd :: "mms_env \<Rightarrow> header_enc" where
  "EnocdeMmsDeliveryInd env =
     seq (from_header (encode_addresses env MMS_TO)) (
     seq (from_header (EncodeTextStringValueFromMap env MMS_MESSAGE_ID)) (
     seq (from_header (EncodeLongIntergerValueFromMap MMS_DATE))
         (from_header (EncodeOctetValueFromMap MMS_STATUS))))"

definition EncodeMmsReadRecInd :: "mms_env \<Rightarrow> header_enc" where
  "EncodeMmsReadRecInd env =
     seq (from_header (EncodeTextStringValueFromMap env MMS_MESSAGE_ID)) (
     seq (from_header (encode_addresses env MMS_TO)) (
     seq (bnd get_out (\<lambda>h. EncodeFieldFromValue env (addresses_or_nil MMS_FROM h))) (
     seq (from_header (EncodeOctetValueFromMap MMS_READ_STATUS))
         (from_header (\<lambda>h. ignore (EncodeLongIntergerValueFromMap MMS_DATE h))))))"

definition EncodeMmsReadOrigInd :: "mms_env \<Rightarrow> header_enc" where
  "EncodeMmsReadOrigInd env =
     seq (from_header (EncodeTextStringValueFromMap env MMS_MESSAGE_ID)) (
     seq (from_header (encode_addresses env MMS_TO)) (
     seq (bnd get_out (\<lambda>h. EncodeFieldFromValue env (addresses_or_nil MMS_FROM h))) (
     seq (from_header (EncodeOctetValueFromMap MMS_READ_STATUS))
         (from_header (EncodeLongIntergerValueFromMap MMS_DATE)))))"

definition IsHaveTransactionId :: "u8 \<Rightarrow> bool" where
  "IsHaveTransactionId messageType \<longleftrightarrow>
     messageType \<in> {MMS_MSGTYPE_SEND_REQ, MMS_MSGTYPE_SEND_CONF, MMS_MSGTYPE_NOTIFICATION_IND, MMS_MSGTYPE_NOTIFYRESP_IND,
       MMS_MSGTYPE_RETRIEVE_CONF, MMS_MSGTYPE_ACKNOWLEDGE_IND}"

definition MMS_VERSION_1_0 :: u64 where "MMS_VERSION_1_0 = 0x10"
definition MMS_VERSION_1_3 :: u64 where "MMS_VERSION_1_3 = 0x13"

text \<open>The identifier and the version that are filled in before encoding.\<close>

definition prepare_header :: "mms_env \<Rightarrow> u8 \<Rightarrow> MmsHeader \<Rightarrow> MmsHeader" where
  "prepare_header env messageType h =
     (let h1 = (if GetStringValue env MMS_TRANSACTION_ID h = None \<and> IsHaveTransactionId messageType
                then snd (SetTextValue MMS_TRANSACTION_ID (transaction_id env) h) else h);
          mmsVersion = (case GetLongValue MMS_MMS_VERSION h1 of None \<Rightarrow> MMS_VERSION_1_3 | Some v \<Rightarrow> v);
          h2 = (if GetLongValue MMS_MMS_VERSION h1 = None then snd (SetLongValue MMS_MMS_VERSION MMS_VERSION_1_3 h1) else h1)
      in if sint mmsVersion < sint MMS_VERSION_1_0 \<or> sint mmsVersion > sint MMS_VERSION_1_3
         then snd (SetLongValue MMS_MMS_VERSION MMS_VERSION_1_3 h2) else h2)"

definition encode_message_type :: "mms_env \<Rightarrow> u8 \<Rightarrow> header_enc" where
  "encode_message_type env messageType =
     (if messageType = MMS_MSGTYPE_SEND_REQ then EncodeMmsSendReq env
      else if messageType = MMS_MSGTYPE_SEND_CONF then EncodeMmsSendConf env
      else if messageType = MMS_MSGTYPE_NOTIFICATION_IND then EncodeMmsNotificationInd env
      else if messageType = MMS_MSGTYPE_NOTIFYRESP_IND then EnocdeMmsNotifyRespInd env
      else if messageType = MMS_MSGTYPE_RETRIEVE_CONF then EnocdeMmsRetrieveConf env
      else if messageType = MMS_MSGTYPE_ACKNOWLEDGE_IND then EnocdeMmsAcknowledgeInd env
      else if messageType = MMS_MSGTYPE_DELIVERY_IND then EnocdeMmsDeliveryInd env
      else if messageType = MMS_MSGTYPE_READ_REC_IND then EncodeMmsReadRecInd env
      else if messageType = MMS_MSGTYPE_READ_ORIG_IND then EncodeMmsReadOrigInd env
      else fail)"

definition EncodeMmsHeader :: "mms_env \<Rightarrow> header_enc" where
  "EncodeMmsHeader env =
     bnd get_out (\<lambda>h.
     case GetOctetValue MMS_MESSAGE_TYPE h of
       None \<Rightarrow> fail
     | Some messageType \<Rightarrow>
         seq (on_out (prepare_header env messageType)) (
         seq (from_header (EncodeCommontFieldValue env)) (encode_message_type env messageType)))"

end
