(* ===== verification/Mms_Body_Part.thy ===== *)
theory Mms_Body_Part
  imports Mms_Content
begin

text \<open>
  A part of the body of an MMS message: its header (\<^verbatim>\<open>mms_body_part_header.cpp\<close>), the part itself (\<^verbatim>\<open>mms_body_part.cpp\<close>) and the attachments
  an application exchanges for it (\<^verbatim>\<open>mms_attachment.cpp\<close>).
\<close>

section \<open>The header of a part\<close>

record MmsBodyPartHeader =
  strContentTransferEncoding :: bytes
  hdrFileName :: bytes
  strContentLocation :: bytes
  strContentID :: bytes
  strDisposition :: bytes

definition new_part_header :: MmsBodyPartHeader where
  "new_part_header = \<lparr>strContentTransferEncoding = ascii ''binary'', hdrFileName = [], strContentLocation = [], strContentID = [], strDisposition = []\<rparr>"

definition DISPOSITION_FROM_DATA :: bytes where "DISPOSITION_FROM_DATA = ascii ''from-data''"
definition DISPOSITION_ATTACHMENT :: bytes where "DISPOSITION_ATTACHMENT = ascii ''attachment''"
definition DISPOSITION_INLINE :: bytes where "DISPOSITION_INLINE = ascii ''inline''"

abbreviation (input) "P_CONTENT_LOCATION_V1 \<equiv> 0x04 :: u8"
abbreviation (input) "P_CONTENT_LOCATION_V2 \<equiv> 0x0E :: u8"
abbreviation (input) "P_CONTENT_ID \<equiv> 0x40 :: u8"
abbreviation (input) "P_CONTENT_DISPOSITION_V1 \<equiv> 0x2E :: u8"
abbreviation (input) "P_CONTENT_DISPOSITION_V2 \<equiv> 0x45 :: u8"
abbreviation (input) "P_DISPOSITION_FROM_DATA \<equiv> 0x80 :: u8"
abbreviation (input) "P_DISPOSITION_ATTACHMENT \<equiv> 0x81 :: u8"
abbreviation (input) "P_DISPOSITION_INLINE \<equiv> 0x82 :: u8"

text \<open>The decoders hand back the length they found.\<close>

definition DecodeContentLocation :: "(MmsBuffer \<times> MmsBodyPartHeader, u32) op" where
  "DecodeContentLocation =
     bnd (on_buf DecodeText) (\<lambda>(sTmp, len). seq (on_out (\<lambda>h. h\<lparr>strContentLocation := sTmp\<rparr>)) (ret len))"

definition DecodeContentId :: "(MmsBuffer \<times> MmsBodyPartHeader, u32) op" where
  "DecodeContentId =
     bnd (on_buf DecodeQuotedText) (\<lambda>(sTmp, len). seq (on_out (\<lambda>h. h\<lparr>strContentID := sTmp\<rparr>)) (ret len))"

definition DecodeDispositionParameter :: "u32 \<Rightarrow> nat \<Rightarrow> (MmsBuffer \<times> MmsBodyPartHeader, u32) op" where
  "DecodeDispositionParameter dispLen beginPos =
     bnd (on_buf (gets curPosition)) (\<lambda>endPosition.
     if endPosition < beginPos then ret dispLen
     else if unat dispLen \<le> endPosition - beginPos \<and> dispLen \<ge> 1 then ret (word_of_nat (endPosition - beginPos) - 1)
     else
       bnd (on_buf GetOneByte) (\<lambda>oneByte.
       seq (if oneByte = 0x98 then bnd (on_buf DecodeText) (\<lambda>(strTmp, tmpLen). on_out (\<lambda>h. h\<lparr>hdrFileName := strTmp\<rparr>)) else ret ()) (
       bnd (on_buf (gets curPosition)) (\<lambda>endPosition.
       if endPosition < beginPos \<or> unat dispLen < endPosition - beginPos then fail
       else seq (on_buf (IncreasePointer (unat dispLen - (endPosition - beginPos)))) (ret dispLen)))))"

definition DecodeContentDisposition :: "(MmsBuffer \<times> MmsBodyPartHeader, u32) op" where
  "DecodeContentDisposition =
     bnd (on_buf DecodeUintvar) (\<lambda>(dispositionLength, count).
     bnd (on_buf (gets curPosition)) (\<lambda>beginPosition.
     bnd (on_buf GetOneByte) (\<lambda>oneByte.
     seq (if oneByte = P_DISPOSITION_FROM_DATA then on_out (\<lambda>h. h\<lparr>strDisposition := DISPOSITION_FROM_DATA\<rparr>)
          else if oneByte = P_DISPOSITION_ATTACHMENT then on_out (\<lambda>h. h\<lparr>strDisposition := DISPOSITION_ATTACHMENT\<rparr>)
          else if oneByte = P_DISPOSITION_INLINE then on_out (\<lambda>h. h\<lparr>strDisposition := DISPOSITION_INLINE\<rparr>)
          else seq (on_buf (DecreasePointer 1)) (
               bnd (on_buf DecodeText) (\<lambda>(strTmp, tmpLen). on_out (\<lambda>h. h\<lparr>strDisposition := strTmp\<rparr>)))) (
     bnd (DecodeDispositionParameter dispositionLength beginPosition) (\<lambda>dispositionLength.
     ret (dispositionLength + count + 1))))))"

definition well_known_field :: "u8 \<Rightarrow> (MmsBuffer \<times> MmsBodyPartHeader, u32) op" where
  "well_known_field fieldCode =
     (if fieldCode = P_CONTENT_LOCATION_V1 \<or> fieldCode = P_CONTENT_LOCATION_V2 then DecodeContentLocation
      else if fieldCode = P_CONTENT_ID then DecodeContentId
      else if fieldCode = P_CONTENT_DISPOSITION_V1 \<or> fieldCode = P_CONTENT_DISPOSITION_V2 then DecodeContentDisposition
      else bnd (on_buf (attempt DecodeQuotedText)) (\<lambda>r. ret (case r of None \<Rightarrow> 0 | Some (_, len) \<Rightarrow> len)))"

text \<open>The length of the headers that is left is counted down as a \<^verbatim>\<open>uint32_t\<close>.\<close>

definition DecodeWellKnownHeader :: "u32 \<Rightarrow> (MmsBuffer \<times> MmsBodyPartHeader, u32) op" where
  "DecodeWellKnownHeader headerLen =
     bnd (on_buf GetOneByte) (\<lambda>oneByte.
     let headerLen = headerLen - 1 in
     bnd (well_known_field (oneByte AND 0x7F)) (\<lambda>len.
     ret (if headerLen > len + 1 then headerLen - (len + 1) else 0)))"

text \<open>\<^verbatim>\<open>headerLen = 0\<close> is executed first.\<close>

definition DecodeApplicationHeader :: "u32 \<Rightarrow> (MmsBuffer \<times> MmsBodyPartHeader, u32) op" where
  "DecodeApplicationHeader headerLen =
     (let headerLen = 0 in
     bnd (on_buf DecodeTokenText) (\<lambda>(sField, fieldLen).
     bnd (on_buf DecodeText) (\<lambda>(sValue, valueLen).
     seq (if sField = ascii ''Content-Transfer-Encoding'' then on_out (\<lambda>h. h\<lparr>strContentTransferEncoding := sValue\<rparr>) else ret ())
         (ret (if headerLen > fieldLen + valueLen + 2 then headerLen - (fieldLen + valueLen + 2) else 0)))))"

subsection \<open>Encoding\<close>

definition EncodeContentLocation :: "mms_env \<Rightarrow> MmsBodyPartHeader \<Rightarrow> (MmsEncodeBuffer, unit) op" where
  "EncodeContentLocation env h =
     (if strContentLocation h = [] then ret ()
      else seq (MmsWriteByte (P_CONTENT_LOCATION_V2 OR 0x80)) (EncodeText (char_signed env) (strContentLocation h)))"

definition EncodeContentId :: "MmsBodyPartHeader \<Rightarrow> (MmsEncodeBuffer, unit) op" where
  "EncodeContentId h =
     (if strContentID h = [] then ret ()
      else seq (MmsWriteByte (P_CONTENT_ID OR 0x80)) (EncodeQuotedText (strContentID h)))"

definition EncodeContentDisposition :: "MmsBodyPartHeader \<Rightarrow> (MmsEncodeBuffer, unit) op" where
  "EncodeContentDisposition h =
     (if strDisposition h \<notin> set [DISPOSITION_FROM_DATA, DISPOSITION_ATTACHMENT, DISPOSITION_INLINE] then ret ()
      else
        seq (MmsWriteByte (P_CONTENT_DISPOSITION_V1 OR 0x80)) (
        seq (EncodeUintvar 1) (
        if strDisposition h = DISPOSITION_FROM_DATA then MmsWriteByte P_DISPOSITION_FROM_DATA
        else if strDisposition h = DISPOSITION_ATTACHMENT then MmsWriteByte P_DISPOSITION_ATTACHMENT
        else if strDisposition h = DISPOSITION_INLINE then MmsWriteByte P_DISPOSITION_INLINE
        else ret ())))"

definition EncodeContentTransferEncoding :: "mms_env \<Rightarrow> MmsBodyPartHeader \<Rightarrow> (MmsEncodeBuffer, unit) op" where
  "EncodeContentTransferEncoding env h =
     (if strContentTransferEncoding h = [] then ret ()
      else seq (EncodeText (char_signed env) (ascii ''Content-Transfer-Encoding''))
             (EncodeText (char_signed env) (strContentTransferEncoding h)))"

definition EncodeMmsBodyPartHeader :: "mms_env \<Rightarrow> MmsBodyPartHeader \<Rightarrow> (MmsEncodeBuffer, unit) op" where
  "EncodeMmsBodyPartHeader env h =
     seq (EncodeContentId h) (
     seq (EncodeContentLocation env h) (
     seq (EncodeContentDisposition h) (EncodeContentTransferEncoding env h)))"

section \<open>Parts\<close>

text \<open>\<open>None\<close> stands for a null \<^verbatim>\<open>pbodyPartBuffer_\<close>.\<close>

record MmsBodyPart =
  part_isSmil :: bool
  strFileName :: bytes
  headerLen :: u32
  bodyLen :: nat
  bodyPartContentType :: MmsContentType
  mmsBodyPartHeader :: MmsBodyPartHeader
  pbodyPartBuffer :: "bytes option"

definition new_body_part :: MmsBodyPart where
  "new_body_part = \<lparr>part_isSmil = False, strFileName = [], headerLen = 0, bodyLen = 0, bodyPartContentType = new_content_type,
     mmsBodyPartHeader = new_part_header, pbodyPartBuffer = None\<rparr>"

text \<open>The copy constructor: the flag of a SMIL part is not copied, and a copy of no octets fails.\<close>

definition copy_part :: "MmsBodyPart \<Rightarrow> MmsBodyPart" where
  "copy_part src =
     (if bodyLen src > MMS_PDU_MAX_SIZE then new_body_part
      else
        let p = (case pbodyPartBuffer src of
                   None \<Rightarrow> new_body_part\<lparr>bodyLen := 0, pbodyPartBuffer := Some (replicate (bodyLen src) 0)\<rparr>
                 | Some d \<Rightarrow>
                     if memcpy_s_ok (bodyLen src) (bodyLen src)
                     then new_body_part\<lparr>bodyLen := bodyLen src, pbodyPartBuffer := Some (take (bodyLen src) d)\<rparr>
                     else new_body_part\<lparr>bodyLen := 0, pbodyPartBuffer := Some (replicate (bodyLen src) 0)\<rparr>)
        in p\<lparr>headerLen := headerLen src, mmsBodyPartHeader := mmsBodyPartHeader src, strFileName := strFileName src,
             bodyPartContentType := bodyPartContentType src\<rparr>)"

text \<open>A part with a name and with octets.\<close>

definition part_full :: "MmsBodyPart \<Rightarrow> bool" where
  "part_full p \<longleftrightarrow> strFileName p \<noteq> [] \<and>
     (\<exists>d. pbodyPartBuffer p = Some d \<and> d \<noteq> [] \<and> bodyLen p = length d \<and> length d \<le> MMS_PDU_MAX_SIZE)"

lemma copy_part_full: "part_full p \<Longrightarrow> copy_part p = p\<lparr>part_isSmil := False\<rparr>"
  by (cases p) (auto simp: part_full_def copy_part_def new_body_part_def memcpy_s_ok_def Let_def)

lemma part_full_copy: "part_full p \<Longrightarrow> part_full (copy_part p)"
  by (simp add: copy_part_full) (simp add: part_full_def)

subsection \<open>Decoding\<close>

definition on_part_header :: "(MmsBuffer \<times> MmsBodyPartHeader, 'a) op \<Rightarrow> (MmsBuffer \<times> MmsBodyPart, 'a) op" where
  "on_part_header m = zoom mmsBodyPartHeader (\<lambda>h p. p\<lparr>mmsBodyPartHeader := h\<rparr>) m"

definition part_header_step :: "u32 \<Rightarrow> (MmsBuffer \<times> MmsBodyPart, u32) op" where
  "part_header_step len =
     bnd (on_buf PeekOneByte) (\<lambda>oneByte.
     if 0x80 \<le> oneByte \<and> 0xC7 \<ge> oneByte then on_part_header (DecodeWellKnownHeader len)
     else if oneByte \<ge> 32 \<and> oneByte \<le> 127 then on_part_header (DecodeApplicationHeader len)
     else fail)"

lemma adv_part_headers [adv_intros]:
  "adv w fst n N DecodeContentLocation" "adv w fst n N DecodeContentId" "adv w fst n N (DecodeDispositionParameter l k)"
  unfolding DecodeContentLocation_def DecodeContentId_def DecodeDispositionParameter_def Let_def by (intro adv_intros stay_intros)+

lemma adv_attempt_DecodeQuotedText [adv_intros]: "adv w (\<lambda>b. b) n N (attempt DecodeQuotedText)"
  by (intro stay_intros stays_values)

lemma adv_DecodeContentDisposition [adv_intros]: "adv w fst n N DecodeContentDisposition"
proof -
  have g: "safe w (\<lambda>s. at_pos w n N (fst s)) (on_buf GetOneByte :: (MmsBuffer \<times> MmsBodyPartHeader, u8) op)
      (\<lambda>s. at_pos w (Suc n) N (fst s)) (\<lambda>s. at_pos w 0 N (fst s))"
    by (rule safe_weaken [OF safe_on_buf [OF GetOneByte_step [of w n N]]]) (auto intro: at_pos_0)
  have d: "safe w (\<lambda>s. at_pos w (Suc n) N (fst s)) (on_buf (DecreasePointer 1) :: (MmsBuffer \<times> MmsBodyPartHeader, unit) op)
      (\<lambda>s. at_pos w n N (fst s)) (\<lambda>s. at_pos w 0 N (fst s))"
    by (rule safe_weaken [OF safe_on_buf [OF step_back [of w n N]]]) (auto intro: at_pos_0)
  have o: "safe w (\<lambda>s. at_pos w (Suc n) N (fst s)) (on_out f :: (MmsBuffer \<times> MmsBodyPartHeader, unit) op)
      (\<lambda>s. at_pos w n N (fst s)) (\<lambda>s. at_pos w 0 N (fst s))" for f
    by (auto simp: safe_def on_out_def intro: at_pos_mono)
  show ?thesis unfolding DecodeContentDisposition_def
    by (rule inv_bnd, (intro adv_intros stay_intros)[1], rule safe_prod, rule inv_bnd, (intro adv_intros stay_intros)[1],
        rule safe_bnd [OF g], rule safe_seq, rule safe_if [OF o safe_if [OF o safe_if [OF o safe_seq [OF d]]]])
      (intro adv_intros stay_intros)+
qed

lemma adv_well_known_field [adv_intros]: "adv w fst n N (well_known_field f)"
  unfolding well_known_field_def by (intro adv_intros stay_intros)

lemma adv_part_fields [adv_intros]:
  "adv w fst n N (DecodeWellKnownHeader l)" "adv w fst n N (DecodeApplicationHeader l)"
  unfolding DecodeWellKnownHeader_def DecodeApplicationHeader_def Let_def by (intro adv_intros stay_intros)+

lemma adv_part_header_step [adv_intros]: "adv w fst n N (part_header_step l)"
  unfolding part_header_step_def on_part_header_def by (intro adv_intros stay_intros)

text \<open>
  A well-known header takes an octet at least, and any other one ends the loop: it leaves a length of 0.
\<close>

lemma part_header_progress:
  assumes "part_header_step l s = Ok l' t"
  shows "totolLength (fst t) - curPosition (fst t) < totolLength (fst s) - curPosition (fst s) \<or>
    l' = 0 \<and> totolLength (fst t) - curPosition (fst t) \<le> totolLength (fst s) - curPosition (fst s)"
proof -
  note adv = adv_progress [OF adv_part_header_step assms]
  from assms obtain x where x: "on_buf PeekOneByte s = Ok x s"
    by (auto simp: part_header_step_def bnd_def on_buf_def PeekOneByte_def split: outcome.splits if_splits)
  show ?thesis
  proof (cases "0x80 \<le> x \<and> 0xC7 \<ge> x")
    case True
    with assms x have "on_part_header (DecodeWellKnownHeader l) s = Ok l' t" by (simp add: part_header_step_def bnd_def)
    then obtain h' where h: "DecodeWellKnownHeader l (fst s, mmsBodyPartHeader (snd s)) = Ok l' (fst t, h')"
      by (auto simp: on_part_header_def zoom_def split: outcome.splits)
    then obtain y r where r: "on_buf GetOneByte (fst s, mmsBodyPartHeader (snd s)) = Ok y r"
      by (auto simp: DecodeWellKnownHeader_def bnd_def [of "on_buf GetOneByte"] split: outcome.splits)
    with h obtain len u where u: "well_known_field (y AND 0x7F) r = Ok len u" "fst u = fst t"
      by (auto simp: DecodeWellKnownHeader_def bnd_def ret_def Let_def split: outcome.splits)
    from adv_progress [OF adv_well_known_field u(1)] u(2) GetOneByte_progress [OF r] show ?thesis by simp linarith
  next
    case False
    with assms x have "on_part_header (DecodeApplicationHeader l) s = Ok l' t"
      by (simp add: part_header_step_def bnd_def fail_def split: if_splits)
    then have "l' = 0"
      by (auto simp: on_part_header_def zoom_def DecodeApplicationHeader_def bnd_def seq_def ret_def split: outcome.splits prod.splits if_splits)
    with adv show ?thesis by (simp add: diff_le_mono2)
  qed
qed

function DecodePartHeader :: "u32 \<Rightarrow> (MmsBuffer \<times> MmsBodyPart, unit) op" where
  "DecodePartHeader len s =
     (if len = 0 then Ok () s
      else case part_header_step len s of
             Ok len' t \<Rightarrow> DecodePartHeader len' t
           | Fail t \<Rightarrow> Fail t
           | Fault \<Rightarrow> Fault)"
  by pat_completeness auto

termination DecodePartHeader
  by (relation "measure (\<lambda>(len, s). totolLength (fst s) - curPosition (fst s) + (if len = 0 then 0 else 1))")
    (auto dest!: part_header_progress)

declare DecodePartHeader.simps [simp del]

lemma adv_DecodePartHeader [adv_intros]: "adv w fst n N (DecodePartHeader l)"
proof (rule safeI)
  fix s :: "MmsBuffer \<times> MmsBodyPart"
  assume "at_pos w n N (fst s)"
  then show "case DecodePartHeader l s of Ok x t \<Rightarrow> at_pos w n N (fst t) | Fail t \<Rightarrow> at_pos w 0 N (fst t) | Fault \<Rightarrow> \<not> w"
  proof (induction l s rule: DecodePartHeader.induct)
    case (1 l s)
    from safeD [OF adv_part_header_step 1(2), of l] 1 show ?case
      by (cases "l = 0"; subst DecodePartHeader.simps) (auto intro: at_pos_0 split: outcome.splits)
  qed
qed

definition ENCODE_BASE64 :: bytes where "ENCODE_BASE64 = ascii ''base64''"
definition ENCODE_QUOTED_PRINTABLE :: bytes where "ENCODE_QUOTED_PRINTABLE = ascii ''quoted-printable''"

text \<open>The octets of the body after its transfer encoding is undone; no octets if there is none or it fails.\<close>

definition transfer_decoded :: "mms_env \<Rightarrow> bytes \<Rightarrow> bytes \<Rightarrow> bytes" where
  "transfer_decoded env transferEncoding encodeString =
     (if transferEncoding = ENCODE_BASE64 then base64_decode env encodeString
      else if transferEncoding = ENCODE_QUOTED_PRINTABLE
      then (case QuotedPrintableDecode env encodeString of None \<Rightarrow> [] | Some s \<Rightarrow> s)
      else [])"

definition DecodePartBody :: "mms_env \<Rightarrow> u32 \<Rightarrow> (MmsBuffer \<times> MmsBodyPart, unit) op" where
  "DecodePartBody env bodyLength =
     bnd (on_buf (gets (\<lambda>b. (curPosition b, totolLength b)))) (\<lambda>(offset, total).
     if (offset + unat bodyLength) mod 2 ^ 32 > total \<or> unat bodyLength > MMS_PDU_MAX_SIZE then fail else
     bnd (on_buf (ReadDataBufferAt offset (unat bodyLength))) (\<lambda>bodyPartBuffer.
     bnd get_out (\<lambda>p.
     let encodebuffer = transfer_decoded env (strContentTransferEncoding (mmsBodyPartHeader p)) bodyPartBuffer in
     seq (if encodebuffer \<noteq> [] then
            seq (on_out (\<lambda>p. p\<lparr>bodyLen := 0\<rparr>)) (
            if length encodebuffer > MMS_PDU_MAX_SIZE then fail
            else on_out (\<lambda>p. p\<lparr>pbodyPartBuffer := Some encodebuffer, bodyLen := length encodebuffer\<rparr>))
          else on_out (\<lambda>p. p\<lparr>pbodyPartBuffer := Some bodyPartBuffer\<rparr>))
         (on_buf (IncreasePointer (unat bodyLength))))))"

text \<open>The name of the last resort is made of the time and the number of the part counted from the end, which is added to the character 0.\<close>

definition DecodeSetFileName :: "mms_env \<Rightarrow> u32 \<Rightarrow> MmsBodyPart \<Rightarrow> MmsBodyPart" where
  "DecodeSetFileName env nEntries p =
     (let fileName = GetFileName (msgContentParm (bodyPartContentType p)) in
      if fileName \<noteq> [] then p\<lparr>strFileName := fileName\<rparr>
      else if strContentLocation (mmsBodyPartHeader p) \<noteq> [] then p\<lparr>strFileName := strContentLocation (mmsBodyPartHeader p)\<rparr>
      else if strContentID (mmsBodyPartHeader p) \<noteq> [] then p\<lparr>strFileName := strContentID (mmsBodyPartHeader p)\<rparr>
      else case time_name env of
             None \<Rightarrow> p
           | Some chCurrentTime \<Rightarrow> p\<lparr>strFileName := chCurrentTime @ [0x5F, ucast (0x30 + nEntries)]\<rparr>)"

definition DecodePart :: "mms_env \<Rightarrow> u32 \<Rightarrow> (MmsBuffer \<times> MmsBodyPart, unit) op" where
  "DecodePart env nEntries =
     bnd (on_buf DecodeUintvar) (\<lambda>(headerLength, _).
     bnd (on_buf DecodeUintvar) (\<lambda>(bodyLength, _).
     bnd (zoom bodyPartContentType (\<lambda>c p. p\<lparr>bodyPartContentType := c\<rparr>) DecodeMmsContentType) (\<lambda>contentLength.
     seq (on_out (\<lambda>p. p\<lparr>headerLen := headerLength, bodyLen := unat bodyLength\<rparr>)) (
     if headerLength < word_of_int contentLength then fail
     else
       seq (DecodePartHeader (headerLength - word_of_int contentLength)) (
       seq (DecodePartBody env bodyLength) (on_out (DecodeSetFileName env nEntries)))))))"

text \<open>The position is within the buffer, so the body is read from inside the array.\<close>

lemma adv_DecodePartBody [adv_intros]: "adv w fst n N (DecodePartBody env l)"
proof (rule safeI)
  fix s :: "MmsBuffer \<times> MmsBodyPart"
  assume s: "at_pos w n N (fst s)"
  show "case DecodePartBody env l s of Ok x t \<Rightarrow> at_pos w n N (fst t) | Fail t \<Rightarrow> at_pos w 0 N (fst t) | Fault \<Rightarrow> \<not> w"
  proof (cases "curPosition (fst s) \<le> MMS_PDU_MAX_SIZE")
    case True
    let ?k = "\<lambda>bodyPartBuffer. bnd get_out (\<lambda>p.
       let encodebuffer = transfer_decoded env (strContentTransferEncoding (mmsBodyPartHeader p)) bodyPartBuffer in
       seq (if encodebuffer \<noteq> [] then
            seq (on_out (\<lambda>p. p\<lparr>bodyLen := 0\<rparr>)) (
            if length encodebuffer > MMS_PDU_MAX_SIZE then fail
            else on_out (\<lambda>p. p\<lparr>pbodyPartBuffer := Some encodebuffer, bodyLen := length encodebuffer\<rparr>))
          else on_out (\<lambda>p. p\<lparr>pbodyPartBuffer := Some bodyPartBuffer\<rparr>))
         (on_buf (IncreasePointer (unat l))))"
    have "adv w fst n N (if c then fail else bnd (on_buf (ReadDataBufferAt (curPosition (fst s)) (unat l))) ?k)" for c
      unfolding Let_def by (intro adv_intros stay_intros stays_adv [OF stays_ReadDataBufferAt [OF True]])
    from safeD [OF this s] show ?thesis
      by (simp add: DecodePartBody_def bnd_def [of "on_buf (gets _)"] on_buf_def [of "gets _"] gets_def)
  next
    case False
    with s have "\<not> w" by (auto simp: at_pos_def)
    with s show ?thesis by (auto simp: DecodePartBody_def op_simps at_pos_def ReadDataBufferAt_def IncreasePointer_def Let_def split: outcome.splits)
  qed
qed

lemma adv_DecodePart [adv_intros]: "adv w fst n N (DecodePart env k)"
  unfolding DecodePart_def by (intro adv_intros stay_intros)

subsection \<open>Attachments\<close>

text \<open>\<open>None\<close> stands for a null \<^verbatim>\<open>pAttachmentBuffer_\<close>.\<close>

record MmsAttachment =
  att_isSmil :: bool
  strPathName :: bytes
  att_contentId :: bytes
  att_contentLocation :: bytes
  att_contentDisposition :: bytes
  att_transferEncoding :: bytes
  att_contentType :: bytes
  att_fileName :: bytes
  att_charset :: u32
  dataLength :: nat
  pAttachmentBuffer :: "bytes option"

definition new_attachment :: MmsAttachment where
  "new_attachment = \<lparr>att_isSmil = False, strPathName = [], att_contentId = [], att_contentLocation = [], att_contentDisposition = [],
     att_transferEncoding = [], att_contentType = [], att_fileName = [], att_charset = 0, dataLength = 0, pAttachmentBuffer = None\<rparr>"

definition SetAttachmentFilePath :: "bytes \<Rightarrow> bool \<Rightarrow> MmsAttachment \<Rightarrow> bool \<times> MmsAttachment" where
  "SetAttachmentFilePath strPath isSmil a =
     (if strPath = [] then (False, a) else (True, a\<lparr>strPathName := strPath, att_isSmil := isSmil\<rparr>))"

text \<open>The last character is only asked to be one that is not 0.\<close>

definition SetAttContentId :: "bytes \<Rightarrow> MmsAttachment \<Rightarrow> bool \<times> MmsAttachment" where
  "SetAttContentId contentId a =
     (if contentId = [] then (False, a)
      else if length contentId > 1 \<and> hd contentId = of_char CHR ''<'' \<and> last contentId \<noteq> 0 then (True, a\<lparr>att_contentId := contentId\<rparr>)
      else (True, a\<lparr>att_contentId := of_char CHR ''<'' # contentId @ [of_char CHR ''>'']\<rparr>))"

definition SetAttContentLocation :: "bytes \<Rightarrow> MmsAttachment \<Rightarrow> bool \<times> MmsAttachment" where
  "SetAttContentLocation s a = (if s = [] then (False, a) else (True, a\<lparr>att_contentLocation := s\<rparr>))"

definition SetAttContentDisposition :: "bytes \<Rightarrow> MmsAttachment \<Rightarrow> bool \<times> MmsAttachment" where
  "SetAttContentDisposition s a = (if s = [] then (False, a) else (True, a\<lparr>att_contentDisposition := s\<rparr>))"

definition SetAttTransferEncoding :: "bytes \<Rightarrow> MmsAttachment \<Rightarrow> bool \<times> MmsAttachment" where
  "SetAttTransferEncoding s a = (if s = [] then (False, a) else (True, a\<lparr>att_transferEncoding := s\<rparr>))"

definition SetAttContentType :: "bytes \<Rightarrow> MmsAttachment \<Rightarrow> bool \<times> MmsAttachment" where
  "SetAttContentType s a = (if s = [] then (False, a) else (True, a\<lparr>att_contentType := s\<rparr>))"

definition SetAttFileName :: "bytes \<Rightarrow> MmsAttachment \<Rightarrow> bool \<times> MmsAttachment" where
  "SetAttFileName s a = (if s = [] then (False, a) else (True, a\<lparr>att_fileName := s\<rparr>))"

definition GetDataBuffer :: "(MmsAttachment, bytes) op" where
  "GetDataBuffer a =
     (if dataLength a > MAX_MMS_ATTACHMENT_LEN \<or> \<not> memcpy_s_ok (dataLength a) (dataLength a) then Fail a
      else case pAttachmentBuffer a of
             None \<Rightarrow> Fail a
           | Some d \<Rightarrow> if dataLength a \<le> length d then Ok (take (dataLength a) d) a else Fault)"

text \<open>The new array is there before the copy, which fails for no octets; the length is set only behind it.\<close>

definition SetDataBuffer :: "bytes \<Rightarrow> MmsAttachment \<Rightarrow> bool \<times> MmsAttachment" where
  "SetDataBuffer inBuff a =
     (if length inBuff > MAX_MMS_ATTACHMENT_LEN then (False, a)
      else if \<not> memcpy_s_ok (length inBuff) (length inBuff)
      then (False, a\<lparr>pAttachmentBuffer := Some (replicate (length inBuff) 0)\<rparr>)
      else (True, a\<lparr>pAttachmentBuffer := Some inBuff, dataLength := length inBuff\<rparr>))"

text \<open>The copy constructor: nothing but an array is made if there is no data, and the path of the file is never copied.\<close>

definition copy_attachment :: "(MmsAttachment, MmsAttachment) op" where
  "copy_attachment a =
     (if dataLength a > MAX_MMS_ATTACHMENT_LEN then Ok new_attachment a
      else case GetDataBuffer a of
             Ok d b \<Rightarrow> Ok (a\<lparr>strPathName := [], pAttachmentBuffer := Some d\<rparr>) a
           | Fail b \<Rightarrow> Ok (new_attachment\<lparr>pAttachmentBuffer := Some (replicate (dataLength a) 0)\<rparr>) a
           | Fault \<Rightarrow> Fault)"

definition APP_SAND_ABSOLUTE_DIR :: bytes where "APP_SAND_ABSOLUTE_DIR = ascii ''/data/app/''"
definition APP_SAND_RELATIVE_DIR :: bytes where "APP_SAND_RELATIVE_DIR = ascii ''/data/storage/''"

definition in_sandbox :: "bytes \<Rightarrow> bool" where
  "in_sandbox path \<longleftrightarrow> take (length APP_SAND_ABSOLUTE_DIR) path = APP_SAND_ABSOLUTE_DIR \<or>
     take (length APP_SAND_RELATIVE_DIR) path = APP_SAND_RELATIVE_DIR"

definition WriteBodyFromFile :: "mms_env \<Rightarrow> bytes \<Rightarrow> MmsBodyPart \<Rightarrow> MmsBodyPart option" where
  "WriteBodyFromFile env path p =
     (if path = [] then None
      else case real_path env path of
             None \<Rightarrow> None
           | Some realPath \<Rightarrow>
               if \<not> in_sandbox realPath then None
               else case read_file env realPath of
                      None \<Rightarrow> None
                    | Some content \<Rightarrow>
                        if length content = 0 \<or> length content > MMS_PDU_MAX_SIZE then None
                        else Some (p\<lparr>pbodyPartBuffer := Some content, bodyLen := length content\<rparr>))"

definition WriteBodyFromAttachmentBuffer :: "MmsAttachment \<Rightarrow> (MmsBodyPart, unit) op" where
  "WriteBodyFromAttachmentBuffer a =
     (if att_fileName a = [] then fail
      else case GetDataBuffer a of
             Fault \<Rightarrow> fault
           | Fail _ \<Rightarrow> fail
           | Ok d _ \<Rightarrow>
               if length d = 0 \<or> length d > MMS_PDU_MAX_SIZE then fail
               else upd (\<lambda>p. p\<lparr>pbodyPartBuffer := Some d, bodyLen := length d\<rparr>))"

text \<open>\<^verbatim>\<open>filePathName.substr(find_last_of('/') + 1)\<close>, or no name if there is no slash.\<close>

definition base_name :: "bytes \<Rightarrow> bytes" where
  "base_name path = (if of_char CHR ''/'' \<in> set path then rev (takeWhile (\<lambda>c. c \<noteq> of_char CHR ''/'') (rev path)) else [])"

definition part_from_attachment :: "MmsAttachment \<Rightarrow> MmsBodyPart \<Rightarrow> MmsBodyPart" where
  "part_from_attachment a p = p\<lparr>
     bodyPartContentType :=
       \<lparr>contentType = att_contentType a,
        msgContentParm = (SetFileName (strFileName p) (msgContentParm (bodyPartContentType p)))\<lparr>cp_charset := att_charset a\<rparr>\<rparr>,
     mmsBodyPartHeader := (mmsBodyPartHeader p)\<lparr>strContentID := att_contentId a, strContentLocation := att_contentLocation a,
       strContentTransferEncoding := att_transferEncoding a, strDisposition := att_contentDisposition a\<rparr>,
     part_isSmil := att_isSmil a\<rparr>"

text \<open>The content is read from the file, or taken from the attachment if that fails.\<close>

definition SetAttachment :: "mms_env \<Rightarrow> MmsAttachment \<Rightarrow> (MmsBodyPart, unit) op" where
  "SetAttachment env a =
     bnd (gets (WriteBodyFromFile env (strPathName a))) (\<lambda>r.
     seq (case r of
            Some q \<Rightarrow> upd (\<lambda>_. q\<lparr>strFileName := (if att_fileName a = [] then base_name (strPathName a) else att_fileName a)\<rparr>)
          | None \<Rightarrow> seq (WriteBodyFromAttachmentBuffer a) (upd (\<lambda>p. p\<lparr>strFileName := att_fileName a\<rparr>))) (
     bnd (gets strFileName) (\<lambda>name.
     if name = [] then fail else upd (part_from_attachment a))))"

subsection \<open>Encoding\<close>

definition ReadBodyPartBuffer :: "MmsBodyPart \<Rightarrow> bytes option" where
  "ReadBodyPartBuffer p =
     (if bodyLen p > MMS_PDU_MAX_SIZE \<or> \<not> memcpy_s_ok (bodyLen p) (bodyLen p) then None
      else map_option (take (bodyLen p)) (pbodyPartBuffer p))"

definition EncodeMmsBodyPart :: "mms_env \<Rightarrow> MmsBodyPart \<Rightarrow> (MmsEncodeBuffer, unit) op" where
  "EncodeMmsBodyPart env p =
     bnd (with_new [] (seq (EncodeMmsBodyPartContentType env (bodyPartContentType p)) (EncodeMmsBodyPartHeader env (mmsBodyPartHeader p)))) (\<lambda>(_, tmp).
     seq (EncodeUintvar (word_of_nat (length tmp))) (
     seq (EncodeUintvar (word_of_nat (bodyLen p))) (
     seq (MmsWriteBuffer tmp) (
     case ReadBodyPartBuffer p of None \<Rightarrow> fail | Some bodyBuff \<Rightarrow> MmsWriteBuffer bodyBuff))))"

end
