(* ===== verification/Mms_Msg.thy ===== *)
theory Mms_Msg
  imports Mms_Header Mms_Body_Part
begin

text \<open>
  The body of an MMS message (\<^verbatim>\<open>mms_body.cpp\<close>), the message (\<^verbatim>\<open>mms_msg.cpp\<close>), and the reading of a message from a file
  (\<^verbatim>\<open>MmsBuffer::WriteBufferFromFile\<close>).
\<close>

section \<open>The body\<close>

record MmsBody =
  bHaveSmilPart :: bool
  bodyEntrys :: u32
  mmsBodyParts :: "MmsBodyPart list"

definition new_body :: MmsBody where
  "new_body = \<lparr>bHaveSmilPart = False, bodyEntrys = 0, mmsBodyParts = []\<rparr>"

text \<open>The loop over the parts; \<open>n\<close> counts down.\<close>

primrec decode_parts :: "mms_env \<Rightarrow> nat \<Rightarrow> (MmsBuffer \<times> MmsBody, unit) op" where
  "decode_parts env 0 = ret ()"
| "decode_parts env (Suc n) =
     bnd (on_buf (run_local new_body_part (DecodePart env (word_of_nat (Suc n))))) (\<lambda>(r, bodyPart).
     if r = None then fail
     else
       seq (on_out (\<lambda>m. m\<lparr>mmsBodyParts := mmsBodyParts m @ [copy_part bodyPart]\<rparr>))
           (decode_parts env n))"

definition DecodeMultipart :: "mms_env \<Rightarrow> (MmsBuffer \<times> MmsBody, unit) op" where
  "DecodeMultipart env =
     bnd (on_buf DecodeUintvar) (\<lambda>(nEntries, _).
     seq (on_out (\<lambda>m. m\<lparr>bodyEntrys := nEntries\<rparr>)) (
     bnd (on_buf (gets (\<lambda>b. totolLength b - curPosition b))) (\<lambda>left.
     if left < unat nEntries then fail else decode_parts env (unat nEntries))))"

text \<open>The content types of messages with several parts, by their positions in the table.\<close>

definition multipart_types :: "nat list" where
  "multipart_types = [0x23, 0x33, 0x26, 0x0C, 0x0F, 0x48, 0x49]"

definition DecodeMmsBody :: "mms_env \<Rightarrow> MmsHeader \<Rightarrow> (MmsBuffer \<times> MmsBody, unit) op" where
  "DecodeMmsBody env h =
     (case GetOctetValue MMS_MESSAGE_TYPE h of
        None \<Rightarrow> fail
      | Some msgType \<Rightarrow>
          if msgType \<noteq> MMS_MSGTYPE_SEND_REQ \<and> msgType \<noteq> MMS_MSGTYPE_RETRIEVE_CONF then ret ()
          else
            (case GetContentTypeFromString (contentType (mmsContentType h)) of
               None \<Rightarrow> ret ()
             | Some i \<Rightarrow> if i \<in> set multipart_types then DecodeMultipart env else ret ()))"

definition EncodeMmsBody :: "mms_env \<Rightarrow> MmsBody \<Rightarrow> (MmsEncodeBuffer, unit) op" where
  "EncodeMmsBody env m =
     seq (EncodeUintvar (word_of_nat (length (mmsBodyParts m)))) (each (EncodeMmsBodyPart env) (mmsBodyParts m))"

definition EncodeMmsHeaderContentType :: "mms_env \<Rightarrow> MmsHeader \<Rightarrow> MmsBody \<Rightarrow> (MmsEncodeBuffer, unit) op" where
  "EncodeMmsHeaderContentType env h m =
     seq (MmsWriteByte MMS_CONTENT_TYPE) (
     let strContentType = contentType (mmsContentType h); p = msgContentParm (mmsContentType h) in
     if strContentType = [] then fail
     else if \<not> IsHaveBody h \<or> mmsBodyParts m = [] then EncodeText (char_signed env) strContentType
     else
       with_length (
         seq (EncodeText (char_signed env) strContentType) (
         seq (ignore (EncodeTextField env p)) (
         seq (ignore (EncodeTypeField env p)) (ignore (EncodeCharsetField p))))))"

definition IsContentLocationPartExist :: "bytes \<Rightarrow> MmsBody \<Rightarrow> bool" where
  "IsContentLocationPartExist s m \<longleftrightarrow> (\<exists>p \<in> set (mmsBodyParts m). strContentLocation (mmsBodyPartHeader p) = s)"

definition IsContentIdPartExist :: "bytes \<Rightarrow> MmsBody \<Rightarrow> bool" where
  "IsContentIdPartExist s m \<longleftrightarrow> (\<exists>p \<in> set (mmsBodyParts m). strContentID (mmsBodyPartHeader p) = s)"

definition IsBodyPartExist :: "MmsBodyPart \<Rightarrow> MmsBody \<Rightarrow> bool" where
  "IsBodyPartExist p m \<longleftrightarrow> IsContentIdPartExist (strContentID (mmsBodyPartHeader p)) m \<or>
     IsContentLocationPartExist (strContentLocation (mmsBodyPartHeader p)) m"

definition AddMmsBodyPart :: "MmsBodyPart \<Rightarrow> MmsBody \<Rightarrow> bool \<times> MmsBody" where
  "AddMmsBodyPart p m =
     (if part_isSmil p \<and> bHaveSmilPart m then (False, m)
      else if part_isSmil p then (True, m\<lparr>mmsBodyParts := copy_part p # mmsBodyParts m, bHaveSmilPart := True\<rparr>)
      else (True, m\<lparr>mmsBodyParts := mmsBodyParts m @ [copy_part p]\<rparr>))"

section \<open>The message\<close>

record MmsMsg =
  mmsHeader :: MmsHeader
  mmsBody :: MmsBody

definition new_msg :: MmsMsg where
  "new_msg = \<lparr>mmsHeader = new_header, mmsBody = new_body\<rparr>"

definition on_header :: "(MmsBuffer \<times> MmsHeader, 'a) op \<Rightarrow> (MmsBuffer \<times> MmsMsg, 'a) op" where
  "on_header m = zoom mmsHeader (\<lambda>h g. g\<lparr>mmsHeader := h\<rparr>) m"

definition on_body :: "(MmsBuffer \<times> MmsBody, 'a) op \<Rightarrow> (MmsBuffer \<times> MmsMsg, 'a) op" where
  "on_body m = zoom mmsBody (\<lambda>h g. g\<lparr>mmsBody := h\<rparr>) m"

definition decode_header_body :: "mms_env \<Rightarrow> (MmsBuffer \<times> MmsMsg, unit) op" where
  "decode_header_body env =
     seq (on_header (DecodeMmsHeader env)) (bnd get_out (\<lambda>g. on_body (DecodeMmsBody env (mmsHeader g))))"

text \<open>The operations on a message drop the local buffer at their end.\<close>

definition with_buffer :: "'b \<Rightarrow> ('b \<times> 'o, 'a) op \<Rightarrow> ('o, 'a) op" where
  "with_buffer b m g =
     (case m (b, g) of Ok x t \<Rightarrow> Ok x (snd t) | Fail t \<Rightarrow> Fail (snd t) | Fault \<Rightarrow> Fault)"

definition DecodeMsg :: "mms_env \<Rightarrow> bytes \<Rightarrow> (MmsMsg, unit) op" where
  "DecodeMsg env inBuff = with_buffer new_mms_buffer (seq (on_buf (WriteDataBuffer inBuff)) (decode_header_body env))"

definition WriteBufferFromFile :: "mms_env \<Rightarrow> bytes \<Rightarrow> (MmsBuffer, unit) op" where
  "WriteBufferFromFile env path =
     (if path = [] then fail
      else case real_path env path of
             None \<Rightarrow> fail
           | Some realPath \<Rightarrow>
               if \<not> in_sandbox realPath then fail
               else case read_file env realPath of
                      None \<Rightarrow> fail
                    | Some content \<Rightarrow>
                        if content = [] then upd (\<lambda>b. b\<lparr>totolLength := 0\<rparr>)
                        else if length content > MMS_PDU_MAX_SIZE then fail
                        else upd (\<lambda>b. b\<lparr>pduBuffer := content, totolLength := length content\<rparr>))"

definition DecodeMsgFile :: "mms_env \<Rightarrow> bytes \<Rightarrow> (MmsMsg, unit) op" where
  "DecodeMsgFile env mmsFilePathName =
     with_buffer new_mms_buffer (
       seq (on_buf (WriteBufferFromFile env mmsFilePathName)) (
       bnd (on_buf (gets totolLength)) (\<lambda>total.
       if total = 0 then ret () else decode_header_body env)))"

definition EncodeMsg :: "mms_env \<Rightarrow> (MmsMsg, bytes) op" where
  "EncodeMsg env =
     with_buffer [] (
       seq (zoom mmsHeader (\<lambda>h g. g\<lparr>mmsHeader := h\<rparr>) (EncodeMmsHeader env)) (
       seq (bnd get_out (\<lambda>g.
              if IsHaveBody (mmsHeader g)
              then seq (on_buf (EncodeMmsHeaderContentType env (mmsHeader g) (mmsBody g))) (on_buf (EncodeMmsBody env (mmsBody g)))
              else ret ())) (
       bnd (on_buf (gets (\<lambda>b. b))) (\<lambda>out. if memcpy_s_ok (length out) (length out) then ret out else fail))))"

subsection \<open>Values of the header\<close>

definition on_msg_header :: "(MmsHeader \<Rightarrow> bool \<times> MmsHeader) \<Rightarrow> MmsMsg \<Rightarrow> bool \<times> MmsMsg" where
  "on_msg_header f g = (case f (mmsHeader g) of (r, h) \<Rightarrow> (r, g\<lparr>mmsHeader := h\<rparr>))"

definition GetHeaderOctetValue :: "u8 \<Rightarrow> MmsMsg \<Rightarrow> u8" where
  "GetHeaderOctetValue fieldId g = octet_or_zero fieldId (mmsHeader g)"

definition SetHeaderOctetValue :: "u8 \<Rightarrow> u8 \<Rightarrow> MmsMsg \<Rightarrow> bool \<times> MmsMsg" where
  "SetHeaderOctetValue fieldId v = on_msg_header (SetOctetValue fieldId v)"

definition GetHeaderIntegerValue :: "u8 \<Rightarrow> MmsMsg \<Rightarrow> u32" where
  "GetHeaderIntegerValue fieldId g = ucast (long_or_zero fieldId (mmsHeader g))"

definition SetHeaderIntegerValue :: "u8 \<Rightarrow> u32 \<Rightarrow> MmsMsg \<Rightarrow> bool \<times> MmsMsg" where
  "SetHeaderIntegerValue fieldId v = on_msg_header (SetLongValue fieldId (scast v))"

definition GetHeaderLongValue :: "u8 \<Rightarrow> MmsMsg \<Rightarrow> u64" where
  "GetHeaderLongValue fieldId g = long_or_zero fieldId (mmsHeader g)"

definition SetHeaderLongValue :: "u8 \<Rightarrow> u64 \<Rightarrow> MmsMsg \<Rightarrow> bool \<times> MmsMsg" where
  "SetHeaderLongValue fieldId v = on_msg_header (SetLongValue fieldId v)"

definition GetHeaderStringValue :: "mms_env \<Rightarrow> u8 \<Rightarrow> MmsMsg \<Rightarrow> bytes" where
  "GetHeaderStringValue env fieldId g =
     (case GetTextValue fieldId (mmsHeader g) of
        Some s \<Rightarrow> s
      | None \<Rightarrow> (case GetEncodeStringValue fieldId (mmsHeader g) of None \<Rightarrow> [] | Some e \<Rightarrow> snd (GetEncodeString env e)))"

definition SetHeaderStringValue :: "u8 \<Rightarrow> bytes \<Rightarrow> MmsMsg \<Rightarrow> bool \<times> MmsMsg" where
  "SetHeaderStringValue fieldId v = on_msg_header (SetTextValue fieldId v)"

definition SetHeaderEncodedStringValue :: "u8 \<Rightarrow> bytes \<Rightarrow> u32 \<Rightarrow> MmsMsg \<Rightarrow> bool \<times> MmsMsg" where
  "SetHeaderEncodedStringValue fieldId v charset = on_msg_header (SetEncodeStringValue fieldId charset v)"

definition GetMmsVersion :: "MmsMsg \<Rightarrow> 16 word" where
  "GetMmsVersion g = ucast (GetHeaderLongValue MMS_MMS_VERSION g)"

definition SetMmsVersion :: "16 word \<Rightarrow> MmsMsg \<Rightarrow> bool \<times> MmsMsg" where
  "SetMmsVersion v = SetHeaderLongValue MMS_MMS_VERSION (ucast v)"

definition SetMmsMessageType :: "u8 \<Rightarrow> MmsMsg \<Rightarrow> bool \<times> MmsMsg" where
  "SetMmsMessageType v = on_msg_header (SetOctetValue MMS_MESSAGE_TYPE v)"

definition SetMmsTransactionId :: "bytes \<Rightarrow> MmsMsg \<Rightarrow> bool \<times> MmsMsg" where
  "SetMmsTransactionId v = on_msg_header (SetTextValue MMS_TRANSACTION_ID v)"

definition SetMmsDate :: "u64 \<Rightarrow> MmsMsg \<Rightarrow> bool \<times> MmsMsg" where
  "SetMmsDate v = on_msg_header (SetLongValue MMS_DATE v)"

definition GetMmsSubject :: "mms_env \<Rightarrow> MmsMsg \<Rightarrow> bytes" where
  "GetMmsSubject env g = (case GetStringValue env MMS_SUBJECT (mmsHeader g) of None \<Rightarrow> [] | Some s \<Rightarrow> s)"

definition SetMmsSubject :: "bytes \<Rightarrow> MmsMsg \<Rightarrow> bool \<times> MmsMsg" where
  "SetMmsSubject v = on_msg_header (SetEncodeStringValue MMS_SUBJECT 0x6A v)"

definition GetMmsFrom :: "MmsMsg \<Rightarrow> MmsAddress" where
  "GetMmsFrom g = (case GetHeaderAllAddressValue MMS_FROM (mmsHeader g) of Some [a] \<Rightarrow> a | _ \<Rightarrow> empty_address)"

definition SetMmsFrom :: "MmsAddress \<Rightarrow> MmsMsg \<Rightarrow> bool \<times> MmsMsg" where
  "SetMmsFrom a = on_msg_header (AddHeaderAddressValue MMS_FROM a)"

text \<open>The addresses before one that is refused stay; no address at all is a failure.\<close>

fun add_addresses :: "bool \<Rightarrow> u8 \<Rightarrow> MmsAddress list \<Rightarrow> MmsMsg \<Rightarrow> bool \<times> MmsMsg" where
  "add_addresses r fieldId [] g = (r, g)"
| "add_addresses r fieldId (a # as) g =
     (case on_msg_header (AddHeaderAddressValue fieldId a) g of
        (False, g') \<Rightarrow> (False, g')
      | (True, g') \<Rightarrow> add_addresses True fieldId as g')"

definition SetMmsTo :: "MmsAddress list \<Rightarrow> MmsMsg \<Rightarrow> bool \<times> MmsMsg" where
  "SetMmsTo toAddrs g = add_addresses False MMS_TO toAddrs g"

definition SetHeaderContentType :: "bytes \<Rightarrow> MmsMsg \<Rightarrow> MmsMsg" where
  "SetHeaderContentType strType g =
     g\<lparr>mmsHeader := (mmsHeader g)\<lparr>mmsContentType := (mmsContentType (mmsHeader g))\<lparr>contentType := strType\<rparr>\<rparr>\<rparr>"

definition GetHeaderContentTypeStart :: "MmsMsg \<Rightarrow> bytes" where
  "GetHeaderContentTypeStart g =
     (let p = msgContentParm (mmsContentType (mmsHeader g)); start = GetNormalField CT_P_START p
      in if start = [] then GetNormalField CT_P_START_VALUE p else start)"

subsection \<open>Attachments\<close>

definition AddAttachment :: "mms_env \<Rightarrow> MmsAttachment \<Rightarrow> (MmsMsg, unit) op" where
  "AddAttachment env a =
     bnd (with_new new_body_part (SetAttachment env a)) (\<lambda>(_, p).
     bnd (gets mmsBody) (\<lambda>m.
     if IsBodyPartExist p m then fail
     else
       (case AddMmsBodyPart p m of
          (False, m') \<Rightarrow> fail
        | (True, m') \<Rightarrow>
            seq (upd (\<lambda>g. g\<lparr>mmsBody := m'\<rparr>)) (
            if part_isSmil p then
              upd (\<lambda>g. g\<lparr>mmsHeader := (mmsHeader g)\<lparr>mmsContentType := (mmsContentType (mmsHeader g))\<lparr>
                msgContentParm := (SetStart (strContentID (mmsBodyPartHeader p)) (msgContentParm (mmsContentType (mmsHeader g))))\<lparr>
                  cp_type := contentType (bodyPartContentType p)\<rparr>\<rparr>\<rparr>\<rparr>)
            else ret ()))))"

text \<open>The attachment made for a part; its setters leave what is there when they are given nothing.\<close>

definition attachment_of_part :: "bytes \<Rightarrow> MmsBodyPart \<Rightarrow> bytes \<Rightarrow> MmsAttachment" where
  "attachment_of_part smilFileName p d =
     (let h = mmsBodyPartHeader p; c = bodyPartContentType p;
          a1 = (if strContentID h \<noteq> []
                then (snd (SetAttContentId (strContentID h) new_attachment))\<lparr>att_isSmil := (smilFileName = strContentID h)\<rparr>
                else new_attachment);
          a2 = snd (SetAttFileName (strFileName p) a1);
          a3 = (snd (SetAttContentType (contentType c) a2))\<lparr>att_charset := cp_charset (msgContentParm c)\<rparr>;
          a4 = snd (SetAttContentLocation (strContentLocation h) a3);
          a5 = snd (SetAttContentDisposition (strDisposition h) a4);
          a6 = snd (SetAttTransferEncoding (strContentTransferEncoding h) a5)
      in snd (SetDataBuffer d a6))"

fun all_attachments :: "bytes \<Rightarrow> MmsBodyPart list \<Rightarrow> bool \<times> MmsAttachment list" where
  "all_attachments smilFileName [] = (True, [])"
| "all_attachments smilFileName (p # ps) =
     (if strFileName p = [] then (False, [])
      else case ReadBodyPartBuffer p of
             None \<Rightarrow> (False, [])
           | Some d \<Rightarrow>
               (case copy_attachment (attachment_of_part smilFileName p d) of
                  Ok a _ \<Rightarrow> (case all_attachments smilFileName ps of (r, as) \<Rightarrow> (r, a # as))
                | _ \<Rightarrow> (False, [])))"

definition GetAllAttachment :: "MmsMsg \<Rightarrow> bool \<times> MmsAttachment list" where
  "GetAllAttachment g =
     (if mmsBodyParts (mmsBody g) = [] then (False, [])
      else all_attachments (GetSmilFileName (mmsHeader g)) (map copy_part (mmsBodyParts (mmsBody g))))"

section \<open>Decoding any octets is safe\<close>

lemma stays_decode_parts: "keeps_pos w fst 0 N (decode_parts env n)"
proof (induction n)
  case (Suc n)
  have r: "keeps_pos w fst 0 N (on_buf (run_local new_body_part (DecodePart env k)) :: (MmsBuffer \<times> MmsBody, _) op)" for k
    by (intro stays_on_buf safe_run_local adv_DecodePart)
  show ?case unfolding decode_parts.simps by (intro stay_intros r Suc)
qed (simp add: safe_ret)

lemma stays_DecodeMultipart: "keeps_pos w fst 0 N (DecodeMultipart env)"
  unfolding DecodeMultipart_def by (intro stay_intros stays_values stays_decode_parts)

lemma stays_DecodeMmsBody: "keeps_pos w fst 0 N (DecodeMmsBody env h)"
  unfolding DecodeMmsBody_def by (intro stay_intros stays_DecodeMultipart)

lemma stays_decode_header_body: "keeps_pos w fst 0 N (decode_header_body env)"
  unfolding decode_header_body_def on_header_def on_body_def
  by (intro stay_intros adv_DecodeMmsHeader stays_DecodeMmsBody)

lemma with_buffer_safe:
  assumes "safe True (\<lambda>s. P (fst s)) m Q E" "P b"
  shows "with_buffer b m g \<noteq> Fault"
proof -
  have "P (fst (b, g))" using assms(2) by simp
  from safeD [OF assms(1) this] show ?thesis by (auto simp: with_buffer_def split: outcome.splits)
qed

lemma DecodeMsg_no_fault: "DecodeMsg env inBuff g \<noteq> Fault"
proof -
  have "safe True (\<lambda>b. b = new_mms_buffer) (WriteDataBuffer inBuff) (at_pos True 0 (length inBuff)) (\<lambda>_. True)"
    by (rule safeI) (auto simp: WriteDataBuffer_def at_pos_def new_mms_buffer_def)
  note w = safe_on_buf [OF this]
  have "safe True (\<lambda>s. at_pos True 0 (length inBuff) (fst s)) (decode_header_body env) (\<lambda>_. True) (\<lambda>_. True)"
    by (rule safe_weaken [OF stays_decode_header_body]) auto
  from safe_seq [OF w this] show ?thesis unfolding DecodeMsg_def by (rule with_buffer_safe) (rule refl)
qed

text \<open>
  C10. Decoding a message is memory safe: whatever the octets are, from a buffer or from a file, and whatever the message held before, no access of the decoder is
  outside the array of the buffer. Its loops over header fields, parameters, part headers and parts end, since the functions are total.
\<close>

theorem DecodeMsg_safe: "DecodeMsg env inBuff g \<noteq> Fault \<and> DecodeMsgFile env path g \<noteq> Fault"
proof (intro conjI DecodeMsg_no_fault)
  have "safe True (\<lambda>b. b = new_mms_buffer) (WriteBufferFromFile env path) (\<lambda>b. at_pos True 0 (totolLength b) b) (\<lambda>_. True)"
    by (rule safeI) (auto simp: WriteBufferFromFile_def new_mms_buffer_def at_pos_def op_simps split: option.splits)
  note w = safe_on_buf [OF this]
  have "safe True (\<lambda>s. at_pos True 0 (totolLength (fst s)) (fst s)) (bnd (on_buf (gets totolLength)) (\<lambda>n. if n = 0 then ret () else decode_header_body env))
      (\<lambda>_. True) (\<lambda>_. True)"
  proof (rule safeI)
    fix s :: "MmsBuffer \<times> MmsMsg"
    assume s: "at_pos True 0 (totolLength (fst s)) (fst s)"
    from safeD [OF stays_decode_header_body this, of env]
    show "case bnd (on_buf (gets totolLength)) (\<lambda>n. if n = 0 then ret () else decode_header_body env) s of
        Ok x t \<Rightarrow> True | Fail t \<Rightarrow> True | Fault \<Rightarrow> \<not> True"
      by (auto simp: op_simps split: outcome.splits)
  qed
  from safe_seq [OF w this] show "DecodeMsgFile env path g \<noteq> Fault" unfolding DecodeMsgFile_def by (rule with_buffer_safe) simp
qed

end
