(* ===== verification/Mms_Content_Layout.thy ===== *)
theory Mms_Content_Layout
  imports Mms_Content
begin

text \<open>
  Encoded strings and content types survive encoding and decoding: their octets on the wire, and the interpretations of \<open>wsp_value\<close>. The table of
  content types is consistent with the two searches through it, and the quoted printable encoding is undone by the decoder.
\<close>

section \<open>The table of content types\<close>

lemma name_index_enumerate:
  "name_index s i (map (\<lambda>(i, s). (word_of_nat i, s)) (enumerate i xs)) = Some j \<Longrightarrow>
   i \<le> j \<and> j < i + length xs \<and> xs ! (j - i) = s"
proof (induction xs arbitrary: i)
  case (Cons x xs)
  then show ?case by (cases "s = x") (fastforce simp: nth_Cons')+
qed simp

lemma map_of_enumerate:
  "k < length xs \<Longrightarrow> i + length xs \<le> 256 \<Longrightarrow>
   map_of (map (\<lambda>(i, s). (word_of_nat i :: u8, s)) (enumerate i xs)) (word_of_nat (i + k)) = Some (xs ! k)"
proof (induction xs arbitrary: i k)
  case (Cons x xs)
  show ?case
  proof (cases k)
    case (Suc m)
    have "unat (word_of_nat (i + k) :: u8) = i + k" "unat (word_of_nat i :: u8) = i" using Cons.prems by (simp_all add: unat_of_nat del: of_nat_add)
    then have "word_of_nat (i + k) \<noteq> (word_of_nat i :: u8)" using Suc by (metis add_cancel_left_right nat.distinct(1))
    with Cons.IH [of m "Suc i"] Cons.prems Suc show ?thesis by simp
  qed simp
qed simp

lemma length_content_names: "length content_names = 85"
  by (simp add: content_names_def)

lemma GetContentTypeFromInt_nth: "i < 85 \<Longrightarrow> GetContentTypeFromInt (word_of_nat i) = content_names ! i"
  using map_of_enumerate [of i content_names 0]
  by (simp add: GetContentTypeFromInt_def mmsContentNames_def length_content_names)

lemma content_type_code: "GetContentTypeFromString s = Some i \<Longrightarrow> i < 85 \<and> GetContentTypeFromInt (word_of_nat i) = s"
  using name_index_enumerate [of s 0 content_names i]
  by (simp add: GetContentTypeFromString_def mmsContentNames_def length_content_names GetContentTypeFromInt_nth)

section \<open>Encoded strings\<close>

text \<open>Texts that are decoded as such on every target: the first octet is a printable character.\<close>

definition plain :: "bytes \<Rightarrow> bool" where
  "plain s \<longleftrightarrow> s \<noteq> [] \<and> 0 \<notin> set s \<and> 0x20 \<le> hd s \<and> hd s < 0x7F"

lemma plain_text: "plain s \<Longrightarrow> is_text s \<and> text_octets sc s = s @ [0]"
  by (auto simp: plain_def is_text_def text_octets_def)

lemma EncodeText_plain: "plain s \<Longrightarrow> length b + length s + 1 < MMS_PDU_MAX_SIZE \<Longrightarrow> EncodeText sc s b = Ok () (b @ s @ [0])"
  using wsp_text.enc_octets [of s b sc] plain_text [of s sc] by simp

lemma DecodeText_plain: "plain s \<Longrightarrow> DecodeText (mb p (s @ 0 # xs)) = Ok (s, word_of_nat (length s)) (mb (p @ s @ [0]) xs)"
  using wsp_text.dec_octets [of s p True xs] plain_text [of s True] by simp

lemma with_length_octets:
  assumes "m [] = Ok () w" "w \<noteq> []" "length b + length (value_length_octets (word_of_nat (length w))) + length w < MMS_PDU_MAX_SIZE"
  shows "with_length m b = Ok () (b @ value_length_octets (word_of_nat (length w)) @ w)"
  using assms value_length.enc_octets [of b "word_of_nat (length w)"]
  by (simp add: with_length_def op_simps MmsWriteBuffer_def memcpy_s_ok_def MMS_PDU_MAX_SIZE_def)

definition charset_octets :: "u32 \<Rightarrow> bytes" where
  "charset_octets c = (if c AND 0xFF00 = 0 then [ucast c OR 0x80] else integer_octets c)"

text \<open>The character sets that survive: those below 128, which are short integers, and those with a bit of the second octet set.\<close>

definition good_charset :: "u32 \<Rightarrow> bool" where
  "good_charset c \<longleftrightarrow> c \<le> 127 \<or> c AND 0xFF00 \<noteq> 0"

lemma short_charset: "c \<le> (127 :: u32) \<Longrightarrow> c AND 0xFF00 = 0"
proof -
  assume "c \<le> 127"
  then have c: "unat c < 2 ^ 7" by (simp add: word_le_nat_alt)
  have "\<not> bit c n" if "7 \<le> n" for n
  proof
    assume "bit c n"
    then have "bit (unat c) n" by (simp add: bit_unsigned_iff)
    moreover have "unat c < 2 ^ n" using c that by (rule less_le_trans [OF _ power_increasing]) simp
    ultimately show False by (simp add: bit_iff_odd)
  qed
  moreover have "bit (0xFF00 :: u32) n \<Longrightarrow> 7 \<le> n" for n
  proof -
    assume "bit (0xFF00 :: u32) n"
    then show "7 \<le> n" by (cases "n < 7") (auto simp: less_Suc_eq numeral_eq_Suc)
  qed
  ultimately show ?thesis by (auto simp: bit_simps intro!: bit_word_eqI)
qed

lemma charset_octets_integer: "good_charset c \<Longrightarrow> charset_octets c = integer_octets c"
  using short_charset [of c] by (auto simp: charset_octets_def good_charset_def integer_octets_def)

definition encode_string_octets :: "MmsEncodeString \<Rightarrow> bytes" where
  "encode_string_octets e =
     (if es_charset e = 0 then strEncodeString e @ [0]
      else let w = charset_octets (es_charset e) @ strEncodeString e @ [0] in value_length_octets (word_of_nat (length w)) @ w)"

definition good_encode_string :: "MmsEncodeString \<Rightarrow> bool" where
  "good_encode_string e \<longleftrightarrow> plain (strEncodeString e) \<and> good_charset (es_charset e) \<and>
     es_valLength e = word_of_nat (length (strEncodeString e))"

lemma integer_octets_length: "length (integer_octets c) \<le> 9"
proof -
  obtain w where "long_integer_octets (ucast c) = word_of_nat (length w) # w" "length w \<le> 8" by (rule long_integer_body)
  then show ?thesis by (simp add: integer_octets_def)
qed

lemma EncodeEncodeString_octets:
  assumes "good_encode_string e" "length b + length (encode_string_octets e) < MMS_PDU_MAX_SIZE"
  shows "EncodeEncodeString env e b = Ok () (b @ encode_string_octets e)"
proof (cases "es_charset e = 0")
  case True
  with assms show ?thesis by (simp add: EncodeEncodeString_def encode_string_octets_def good_encode_string_def EncodeText_plain)
next
  case False
  let ?w = "charset_octets (es_charset e) @ strEncodeString e @ [0]"
  let ?m = "seq (ignore (if es_charset e AND 0xFF00 = 0 then EncodeShortInteger (ucast (es_charset e)) else EncodeInteger (es_charset e)))
      (EncodeText (char_signed env) (strEncodeString e))"
  have room: "length b + length (value_length_octets (word_of_nat (length ?w))) + length ?w < MMS_PDU_MAX_SIZE"
    using assms(2) False by (simp add: encode_string_octets_def Let_def)
  have "(if es_charset e AND 0xFF00 = 0 then EncodeShortInteger (ucast (es_charset e)) else EncodeInteger (es_charset e)) [] =
      Ok () (charset_octets (es_charset e))"
    using integer.enc_octets [of "[]" "es_charset e"] room by (auto simp: EncodeShortInteger_def MmsWriteByte_def charset_octets_def MMS_PDU_MAX_SIZE_def)
  then have m: "?m [] = Ok () ?w"
    using assms room EncodeText_plain [of "strEncodeString e" "charset_octets (es_charset e)" "char_signed env"]
    by (simp add: seq_def bnd_def ignore_def good_encode_string_def)
  from with_length_octets [of ?m ?w b, OF m _ room] False show ?thesis by (simp add: EncodeEncodeString_def encode_string_octets_def)
qed

lemma value_length_first: "0 < v \<Longrightarrow> \<exists>x xs. value_length_octets v = x # xs \<and> x \<noteq> 0 \<and> (x \<le> 30 \<or> x = 0x1F)"
  using short_length [of v] by (cases "ucast v = (0 :: u8)") (auto simp: value_length_octets_def)

lemma DecodeEncodeString_octets:
  assumes "good_encode_string e" "length (encode_string_octets e) < MMS_PDU_MAX_SIZE"
  shows "run_local new_encode_string DecodeEncodeString (mb p (encode_string_octets e @ xs)) =
    Ok (Some (), e) (mb (p @ encode_string_octets e) xs)"
proof (cases "es_charset e = 0")
  case True
  from assms obtain c s where s: "strEncodeString e = c # s" "plain (c # s)"
    by (cases "strEncodeString e") (auto simp: good_encode_string_def plain_def)
  then have "\<not> c \<le> 30" "c \<noteq> 0x1F" "c \<noteq> 0" by (auto simp: plain_def word_le_nat_alt word_unat_eq_iff)
  with s True assms(1) DecodeText_plain [of "c # s" p xs] show ?thesis
    by (simp add: DecodeEncodeString_def run_local_def encode_string_octets_def good_encode_string_def new_encode_string_def op_simps mb_simps)
next
  case False
  define w where "w = charset_octets (es_charset e) @ strEncodeString e @ [0]"
  define n :: u32 where "n = word_of_nat (length w)"
  have oct: "encode_string_octets e = value_length_octets n @ w" using False by (simp add: encode_string_octets_def w_def n_def Let_def)
  have "length w < 2 ^ 32" using assms(2) oct by (simp add: MMS_PDU_MAX_SIZE_def)
  then have "unat n = length w" by (simp add: n_def unat_of_nat)
  then have "0 < n" by (auto simp: word_less_nat_alt w_def)
  from value_length_first [OF this] obtain x ys where x: "value_length_octets n = x # ys" "x \<noteq> 0" "x \<le> 30 \<or> x = 0x1F" by blast
  have g: "charset_octets (es_charset e) = integer_octets (es_charset e)" "plain (strEncodeString e)"
    using assms(1) by (auto simp: good_encode_string_def charset_octets_integer)
  have u: "ucast (ucast c :: u64) = (c :: u32)" for c by (auto simp: bit_simps intro!: bit_word_eqI)
  from x g False assms(1) value_length.dec_octets [of p n "w @ xs"] integer.dec_octets [of "p @ value_length_octets n" "es_charset e" "strEncodeString e @ 0 # xs"]
    DecodeText_plain [of "strEncodeString e" "p @ value_length_octets n @ integer_octets (es_charset e)" xs]
  show ?thesis
    by (simp add: DecodeEncodeString_def run_local_def oct w_def new_encode_string_def op_simps mb_simps u good_encode_string_def)
qed

text \<open>Strings with their character set, as the locale has them.\<close>

interpretation encode_string: wsp_value "EncodeEncodeString env" "run_local new_encode_string DecodeEncodeString" encode_string_octets
  "\<lambda>e. (Some (), e)" "\<lambda>e. good_encode_string e \<and> length (encode_string_octets e) < MMS_PDU_MAX_SIZE" for env
  by unfold_locales (simp_all add: EncodeEncodeString_octets DecodeEncodeString_octets)

section \<open>Content types\<close>

definition param_octets :: "(u8 \<rightharpoonup> bytes) \<Rightarrow> u8 \<Rightarrow> bytes" where
  "param_octets m f = (case m f of None \<Rightarrow> [] | Some s \<Rightarrow> f # s @ [0])"

definition charset_field_octets :: "u32 \<Rightarrow> bytes" where
  "charset_field_octets c = (if c = 0 then [] else CT_P_CHARSET # long_integer_octets (ucast c))"

definition type_field_octets :: "bytes \<Rightarrow> bytes" where
  "type_field_octets t = (if t = [] then [] else CT_P_TYPE_STRING # t @ [0])"

definition good_param :: "MmsContentParam \<Rightarrow> bool" where
  "good_param p \<longleftrightarrow> dom (textMap p) \<subseteq> set text_params \<and> (\<forall>s \<in> ran (textMap p). plain s) \<and> (cp_type p = [] \<or> plain (cp_type p))"

lemma sint_length: "n < 2 ^ 31 \<Longrightarrow> sint (word_of_nat n :: u32) = int n"
  by (simp add: signed_of_nat signed_take_bit_int_eq_self)

lemma DecodeParameter_0: "DecodeParameter 0 s = Ok () s"
  by (simp add: DecodeParameter.simps)

lemma DecodeParameter_step:
  "0 \<le> k \<Longrightarrow> parameter_field f (k + int (length w)) (mb (p @ [f]) (w @ xs), c) = Ok k (mb (p @ f # w) xs, d) \<Longrightarrow>
   DecodeParameter (k + int (length (f # w))) (mb p (f # w @ xs), c) = DecodeParameter k (mb (p @ f # w) xs, d)"
  by (subst DecodeParameter.simps) (simp add: bnd_def on_buf_def mb_simps)

lemma DecodeParameter_text:
  assumes "0 \<le> k" "f \<in> set text_params" "plain s" "length s < 2 ^ 31"
  shows "DecodeParameter (k + int (length (f # s @ [0]))) (mb p ((f # s @ [0]) @ xs), c) =
    DecodeParameter k (mb (p @ f # s @ [0]) xs, c\<lparr>msgContentParm := msgContentParm c\<lparr>textMap := map_insert f s (textMap (msgContentParm c))\<rparr>\<rparr>)"
proof -
  have "f \<noteq> CT_P_CHARSET" using assms(2) by (auto simp: text_params_def)
  with assms DecodeText_plain [of s "p @ [f]" xs]
  have "parameter_field f (k + int (length (s @ [0]))) (mb (p @ [f]) ((s @ [0]) @ xs), c) =
      Ok k (mb (p @ f # s @ [0]) xs, c\<lparr>msgContentParm := msgContentParm c\<lparr>textMap := map_insert f s (textMap (msgContentParm c))\<rparr>\<rparr>)"
    by (simp add: parameter_field_def DecodeTextField_def on_param_def op_simps sint_length)
  from DecodeParameter_step [OF assms(1) this] show ?thesis by simp
qed

lemma DecodeInteger_long:
  obtains n w where "long_integer_octets v = n # w" "n \<noteq> 0" "n \<le> 8"
    "DecodeInteger (mb p (long_integer_octets v @ xs)) = Ok v (mb (p @ long_integer_octets v) xs)"
proof -
  obtain w where w: "long_integer_octets v = word_of_nat (length w) # w" "w = (if v = 0 then [0] else rev (long_octets v))" "length w \<le> 8"
    by (rule long_integer_body)
  from w(2) have "0 < length w" by (auto simp: long_octets.simps)
  with w(3) have n: "word_of_nat (length w) \<noteq> (0 :: u8)" "word_of_nat (length w) \<le> (8 :: u8)"
    by (auto simp: word_le_nat_alt word_unat_eq_iff unat_of_nat)
  then have "\<not> 0x7F < (word_of_nat (length w) :: u8)" by (auto simp: word_le_nat_alt word_less_nat_alt)
  with w(1) long_integer.dec_octets [of p v xs]
  have "DecodeInteger (mb p (long_integer_octets v @ xs)) = Ok v (mb (p @ long_integer_octets v) xs)"
    by (simp add: DecodeInteger_def DecodeIsShortInt_def op_simps mb_simps)
  with w(1) n show ?thesis using that by blast
qed

lemma DecodeParameter_charset:
  assumes "0 \<le> k"
  shows "DecodeParameter (k + int (length (charset_field_octets v))) (mb p (charset_field_octets v @ xs), c) =
    DecodeParameter k (mb (p @ charset_field_octets v) xs,
      if v = 0 then c else c\<lparr>msgContentParm := msgContentParm c\<lparr>cp_charset := v\<rparr>\<rparr>)"
proof (cases "v = 0")
  case False
  obtain n w where n: "long_integer_octets (ucast v) = n # w" "n \<noteq> 0" "n \<le> 8" "DecodeInteger (mb (p @ [CT_P_CHARSET]) (long_integer_octets (ucast v) @ xs)) =
      Ok (ucast v) (mb ((p @ [CT_P_CHARSET]) @ long_integer_octets (ucast v)) xs)"
    by (rule DecodeInteger_long)
  then have "\<not> 32 < n" by (auto simp: word_le_nat_alt word_less_nat_alt)
  moreover have "ucast (ucast v :: u64) = v" by (auto simp: bit_simps intro!: bit_word_eqI)
  ultimately have "parameter_field CT_P_CHARSET (k + int (length (long_integer_octets (ucast v))))
      (mb (p @ [CT_P_CHARSET]) (long_integer_octets (ucast v) @ xs), c) =
      Ok k (mb (p @ CT_P_CHARSET # long_integer_octets (ucast v)) xs, c\<lparr>msgContentParm := msgContentParm c\<lparr>cp_charset := v\<rparr>\<rparr>)"
    using n by (simp add: parameter_field_def DecodeCharsetField_def on_param_def op_simps mb_simps)
  from DecodeParameter_step [OF assms this] False show ?thesis by (simp add: charset_field_octets_def)
qed (simp add: charset_field_octets_def)

lemma DecodeParameter_type:
  assumes "0 \<le> k" "t = [] \<or> plain t" "length t < 2 ^ 31"
  shows "DecodeParameter (k + int (length (type_field_octets t))) (mb p (type_field_octets t @ xs), c) =
    DecodeParameter k (mb (p @ type_field_octets t) xs,
      if t = [] then c else c\<lparr>msgContentParm := msgContentParm c\<lparr>cp_type := t\<rparr>\<rparr>)"
proof (cases t)
  case (Cons x s)
  with assms have pl: "plain t" "\<not> x > 0x7F" by (auto simp: plain_def word_less_nat_alt)
  then have "parameter_field CT_P_TYPE_STRING (k + int (length (t @ [0]))) (mb (p @ [CT_P_TYPE_STRING]) ((t @ [0]) @ xs), c) =
      Ok k (mb (p @ CT_P_TYPE_STRING # t @ [0]) xs, c\<lparr>msgContentParm := msgContentParm c\<lparr>cp_type := t\<rparr>\<rparr>)"
    using DecodeText_plain [of t "p @ [CT_P_TYPE_STRING]" xs] DecreasePointer_mb [of "p @ [CT_P_TYPE_STRING]" x "s @ 0 # xs"] Cons
      assms(3) sint_length [of "length t"]
    by (simp add: parameter_field_def text_params_def DecodeTypeField_def on_param_def op_simps mb_simps)
  from DecodeParameter_step [OF assms(1) this] Cons show ?thesis by (simp add: type_field_octets_def)
qed (simp add: type_field_octets_def)

text \<open>The text parameters one after the other: those that are there end up in the map.\<close>

lemma DecodeParameter_texts:
  assumes "0 \<le> k" "set fs \<subseteq> set text_params" "\<forall>s \<in> ran m. plain s \<and> length s < 2 ^ 31" "textMap (msgContentParm c) = m |` A"
  shows "DecodeParameter (k + int (length (concat (map (param_octets m) fs)))) (mb p (concat (map (param_octets m) fs) @ xs), c) =
    DecodeParameter k (mb (p @ concat (map (param_octets m) fs)) xs, c\<lparr>msgContentParm := msgContentParm c\<lparr>textMap := m |` (A \<union> set fs)\<rparr>\<rparr>)"
  using assms(2-)
proof (induction fs arbitrary: p c A)
  case Nil
  then have "c\<lparr>msgContentParm := msgContentParm c\<lparr>textMap := m |` (A \<union> set [])\<rparr>\<rparr> = c" by (cases c) auto
  then show ?case by simp
next
  case (Cons f fs)
  show ?case
  proof (cases "m f")
    case None
    then have "m |` (insert f (A \<union> set fs)) = m |` (A \<union> set fs)" by (auto simp: restrict_map_def)
    with Cons.IH [of c A p] Cons.prems None show ?thesis by (simp add: param_octets_def)
  next
    case (Some s)
    let ?d = "c\<lparr>msgContentParm := msgContentParm c\<lparr>textMap := map_insert f s (textMap (msgContentParm c))\<rparr>\<rparr>"
    have d: "textMap (msgContentParm ?d) = m |` (insert f A)"
      using Some Cons.prems(3) by (auto simp: map_insert_def restrict_map_def)
    have s: "plain s" "length s < 2 ^ 31" "f \<in> set text_params" using Cons.prems Some by (auto simp: ranI)
    have oct: "param_octets m f = f # s @ [0]" using Some by (simp add: param_octets_def)
    have "0 \<le> k + int (length (concat (map (param_octets m) fs)))" using assms(1) by simp
    from DecodeParameter_text [OF this s(3, 1, 2), of p "concat (map (param_octets m) fs) @ xs" c] Cons.IH [of ?d "insert f A" "p @ f # s @ [0]"] Cons.prems d oct
    show ?thesis by (simp add: ac_simps)
  qed
qed

text \<open>The octets of the parameters: the text parameters, then the character set and the type, in this order in a body part.\<close>

definition texts_octets :: "MmsContentParam \<Rightarrow> bytes" where
  "texts_octets q = concat (map (param_octets (textMap q)) text_params)"

lemma good_param_texts:
  assumes "good_param q" "length (texts_octets q) < MMS_PDU_MAX_SIZE" "s \<in> ran (textMap q)"
  shows "plain s \<and> length s < 2 ^ 31"
proof -
  from assms(3) obtain f where f: "textMap q f = Some s" by (auto simp: ran_def)
  with assms(1) have "f \<in> set text_params" by (auto simp: good_param_def)
  then have "length (param_octets (textMap q) f) \<le> length (texts_octets q)"
    by (auto simp: texts_octets_def length_concat intro!: member_le_sum_list)
  with f assms show ?thesis by (auto simp: param_octets_def good_param_def MMS_PDU_MAX_SIZE_def ranI)
qed

lemma DecodeParameter_all_texts:
  assumes "good_param q" "length (texts_octets q) < MMS_PDU_MAX_SIZE" "0 \<le> k" "textMap (msgContentParm c) = Map.empty"
  shows "DecodeParameter (k + int (length (texts_octets q))) (mb p (texts_octets q @ xs), c) =
    DecodeParameter k (mb (p @ texts_octets q) xs, c\<lparr>msgContentParm := msgContentParm c\<lparr>textMap := textMap q\<rparr>\<rparr>)"
proof -
  have "(textMap q |` ({} \<union> set text_params)) f = textMap q f" for f
    using assms(1) by (cases "textMap q f") (auto simp: good_param_def restrict_map_def)
  then have "textMap q |` ({} \<union> set text_params) = textMap q" by (rule ext)
  with DecodeParameter_texts [of k text_params "textMap q" c "{}" p xs] good_param_texts [OF assms(1, 2)] assms show ?thesis
    by (simp add: texts_octets_def restrict_map_def)
qed

lemma DecodeParameter_param:
  assumes q: "good_param q" and "length (texts_octets q @ charset_field_octets (cp_charset q) @ type_field_octets (cp_type q)) < MMS_PDU_MAX_SIZE"
    and c: "msgContentParm c = msgContentParm new_content_type"
  shows "DecodeParameter (int (length (texts_octets q @ charset_field_octets (cp_charset q) @ type_field_octets (cp_type q))))
      (mb p ((texts_octets q @ charset_field_octets (cp_charset q) @ type_field_octets (cp_type q)) @ xs), c) =
      Ok () (mb (p @ texts_octets q @ charset_field_octets (cp_charset q) @ type_field_octets (cp_type q)) xs, c\<lparr>msgContentParm := q\<rparr>)"
    and "DecodeParameter (int (length (texts_octets q @ type_field_octets (cp_type q) @ charset_field_octets (cp_charset q))))
      (mb p ((texts_octets q @ type_field_octets (cp_type q) @ charset_field_octets (cp_charset q)) @ xs), c) =
      Ok () (mb (p @ texts_octets q @ type_field_octets (cp_type q) @ charset_field_octets (cp_charset q)) xs, c\<lparr>msgContentParm := q\<rparr>)"
proof -
  have t: "cp_type q = [] \<or> plain (cp_type q)" using q by (auto simp: good_param_def)
  have l: "length (cp_type q) < 2 ^ 31" using assms(2) by (auto simp: type_field_octets_def MMS_PDU_MAX_SIZE_def split: if_splits)
  note texts = DecodeParameter_all_texts [OF q, where c = c and p = p]
  have q': "\<lparr>cp_charset = cp_charset q, cp_type = cp_type q, textMap = textMap q\<rparr> = q" by simp
  show "DecodeParameter (int (length (texts_octets q @ charset_field_octets (cp_charset q) @ type_field_octets (cp_type q))))
      (mb p ((texts_octets q @ charset_field_octets (cp_charset q) @ type_field_octets (cp_type q)) @ xs), c) =
      Ok () (mb (p @ texts_octets q @ charset_field_octets (cp_charset q) @ type_field_octets (cp_type q)) xs, c\<lparr>msgContentParm := q\<rparr>)"
    using assms(2) c q' t l
      texts [of "int (length (charset_field_octets (cp_charset q))) + int (length (type_field_octets (cp_type q)))"
        "charset_field_octets (cp_charset q) @ type_field_octets (cp_type q) @ xs"]
      DecodeParameter_charset [of "int (length (type_field_octets (cp_type q)))" "cp_charset q" "p @ texts_octets q" "type_field_octets (cp_type q) @ xs"]
      DecodeParameter_type [of 0 "cp_type q" "p @ texts_octets q @ charset_field_octets (cp_charset q)" xs]
    by (simp add: new_content_type_def DecodeParameter_0 ac_simps)
  show "DecodeParameter (int (length (texts_octets q @ type_field_octets (cp_type q) @ charset_field_octets (cp_charset q))))
      (mb p ((texts_octets q @ type_field_octets (cp_type q) @ charset_field_octets (cp_charset q)) @ xs), c) =
      Ok () (mb (p @ texts_octets q @ type_field_octets (cp_type q) @ charset_field_octets (cp_charset q)) xs, c\<lparr>msgContentParm := q\<rparr>)"
    using assms(2) c q' t l
      texts [of "int (length (charset_field_octets (cp_charset q))) + int (length (type_field_octets (cp_type q)))"
        "type_field_octets (cp_type q) @ charset_field_octets (cp_charset q) @ xs"]
      DecodeParameter_type [of "int (length (charset_field_octets (cp_charset q)))" "cp_type q" "p @ texts_octets q" "charset_field_octets (cp_charset q) @ xs"]
      DecodeParameter_charset [of 0 "cp_charset q" "p @ texts_octets q @ type_field_octets (cp_type q)" xs]
    by (simp add: new_content_type_def DecodeParameter_0 ac_simps)
qed

text \<open>The media type before the parameters: a text, or a number of the table.\<close>

definition media_octets :: "bytes \<Rightarrow> bytes" where
  "media_octets t = (case GetContentTypeFromString t of None \<Rightarrow> t @ [0] | Some i \<Rightarrow> [word_of_nat i OR 0x80])"

definition media_of :: "bytes \<Rightarrow> bytes \<Rightarrow> bool" where
  "media_of w t \<longleftrightarrow> plain t \<and> w = t @ [0] \<or> (\<exists>x. w = [x] \<and> 0x7F < x \<and> GetContentTypeFromInt (x AND 0x7F) = t)"

lemma media_octets_of: "GetContentTypeFromString t \<noteq> None \<or> plain t \<Longrightarrow> media_of (media_octets t) t"
proof (cases "GetContentTypeFromString t")
  case (Some i)
  then have i: "i < 85" "GetContentTypeFromInt (word_of_nat i) = t" using content_type_code by auto
  have "(word_of_nat i :: u8) AND mask 7 = take_bit 7 (word_of_nat i)" by (simp add: take_bit_eq_mask)
  also have "\<dots> = word_of_nat i" using i(1) by (simp add: word_unat_eq_iff unsigned_take_bit_eq unat_of_nat) (simp add: take_bit_eq_mod)
  finally have "(word_of_nat i OR 0x80) AND 0x7F = (word_of_nat i :: u8)" by (simp add: short_integer mask_eq_exp_minus_1)
  with Some i show ?thesis by (simp add: media_of_def media_octets_def short_integer)
qed (simp add: media_of_def media_octets_def)

lemma DecodeValueLengthReturnLen_octets:
  "DecodeValueLengthReturnLen (mb p (value_length_octets v @ xs)) =
   Ok (v, word_of_nat (length (value_length_octets v))) (mb (p @ value_length_octets v) xs)"
  using short_length [of v] uintvar.dec_octets [of "p @ [0x1F]" v xs]
  by (auto simp: DecodeValueLengthReturnLen_def value_length_octets_def op_simps mb_simps)

lemma value_length_octets_length: "length (value_length_octets v) \<le> 6"
  using uintvar_octets_length [of v] by (simp add: value_length_octets_def)

lemma DecodeMmsContentType_general:
  assumes m: "media_of w t" and len: "length (w @ ps) < MMS_PDU_MAX_SIZE" and n: "n = word_of_nat (length (w @ ps))"
    and ps: "DecodeParameter (int (length ps)) (mb (p @ value_length_octets n @ w) (ps @ xs), c\<lparr>contentType := t\<rparr>) = Ok () s"
  shows "DecodeMmsContentType (mb p (value_length_octets n @ w @ ps @ xs), c) = Ok (int (length (value_length_octets n @ w @ ps))) s"
proof -
  have un: "unat n = length (w @ ps)" using len n by (simp add: unat_of_nat MMS_PDU_MAX_SIZE_def del: of_nat_add)
  moreover have "w \<noteq> []" using m by (auto simp: media_of_def)
  ultimately have n0: "0 < n" by (auto simp: word_less_nat_alt)
  from value_length_first [OF n0] obtain x ys where x: "value_length_octets n = x # ys" "x \<noteq> 0" "x \<le> 30 \<or> x = 0x1F" by blast
  then have nx: "\<not> 0x7F < x" "\<not> 0x20 \<le> x" "x \<le> 0x1F" by (auto simp: word_le_nat_alt word_less_nat_alt)
  have u: "uint n = int (length w) + int (length ps)" using un by (metis length_append of_nat_add uint_nat)
  have r: "uint (word_of_nat (length (value_length_octets n)) :: u32) = int (length (value_length_octets n))"
    using value_length_octets_length [of n] by (simp add: unsigned_of_nat take_bit_eq_mod)
  have small: "\<not> uint n + uint (word_of_nat (length (value_length_octets n)) :: u32) > 0x7FFFFFFF"
    using u r len value_length_octets_length [of n] by (simp add: MMS_PDU_MAX_SIZE_def)
  have form: "DecodeMmsContentType (mb p (value_length_octets n @ w @ ps @ xs), c) = DecodeMmsCTGeneralForm (mb p (value_length_octets n @ w @ ps @ xs), c)"
    using x(1) nx by (simp add: DecodeMmsContentType_def DecodeIsShortInt_def DecodeIsString_def op_simps mb_simps)
  have vl: "DecodeIsValueLength (mb p (value_length_octets n @ w @ ps @ xs)) = Ok True (mb p (value_length_octets n @ w @ ps @ xs))"
    using x(1) nx by (simp add: DecodeIsValueLength_def op_simps mb_simps)
  have sn: "sint (word_of_nat (length ps) :: u32) = int (length ps)" using len by (simp add: sint_length MMS_PDU_MAX_SIZE_def)
  consider (t) "plain t" "w = t @ [0]" | (i) y where "w = [y]" "0x7F < y" "GetContentTypeFromInt (y AND 0x7F) = t"
    using m by (auto simp: media_of_def)
  then show ?thesis
  proof cases
    case t
    then obtain h r' where h: "t = h # r'" by (cases t) (auto simp: plain_def)
    with t have hh: "\<not> 0x7F < h" "0x20 \<le> h" "h \<le> 0x7F" by (auto simp: plain_def)
    have "n = word_of_nat (length ps) + (word_of_nat (length t) + 1)" using n t by simp
    moreover have "unat (word_of_nat (length t) + 1 :: u32) \<le> unat n"
      using un len t by (subst add.commute, subst of_nat_Suc [symmetric]) (simp add: unat_of_nat MMS_PDU_MAX_SIZE_def del: of_nat_Suc)
    ultimately have left: "\<not> n < word_of_nat (length (h # r')) + 1" "n - word_of_nat (length (h # r')) - 1 = word_of_nat (length ps)"
      using h by (simp_all add: word_less_nat_alt)
    show ?thesis
      using form vl DecodeValueLengthReturnLen_octets [of p n "w @ ps @ xs"] small h hh t ps sn left u r
        DecodeText_plain [OF t(1), of "p @ value_length_octets n" "ps @ xs"]
      by (simp add: DecodeMmsCTGeneralForm_def GetContentType_text_def DecodeIsShortInt_def DecodeIsString_def op_simps mb_simps)
  next
    case i
    have left: "n - 1 = word_of_nat (length ps)" using n i by simp
    have inc: "IncreasePointer 1 (mb (p @ value_length_octets n) (y # ps @ xs)) = Ok () (mb (p @ value_length_octets n @ [y]) (ps @ xs))"
      using IncreasePointer_mb [of "[y]" "p @ value_length_octets n" "ps @ xs"] by simp
    show ?thesis
      using form vl DecodeValueLengthReturnLen_octets [of p n "w @ ps @ xs"] small i ps sn left u r inc n0
      by (simp add: DecodeMmsCTGeneralForm_def DecodeIsShortInt_def DecodeIsString_def op_simps mb_simps)
  qed
qed

text \<open>The octets of a content type in a body part.\<close>

definition content_body :: "MmsContentType \<Rightarrow> bytes" where
  "content_body c = media_octets (contentType c) @ texts_octets (msgContentParm c) @
     charset_field_octets (cp_charset (msgContentParm c)) @ type_field_octets (cp_type (msgContentParm c))"

definition content_type_octets :: "MmsContentType \<Rightarrow> bytes" where
  "content_type_octets c = value_length_octets (word_of_nat (length (content_body c))) @ content_body c"

definition good_content_type :: "MmsContentType \<Rightarrow> bool" where
  "good_content_type c \<longleftrightarrow> (GetContentTypeFromString (contentType c) \<noteq> None \<or> plain (contentType c)) \<and> good_param (msgContentParm c) \<and>
     length (content_body c) < MMS_PDU_MAX_SIZE"

lemma each_param_octets:
  assumes "\<forall>s \<in> ran m. plain s" "length b + length (concat (map (param_octets m) fs)) < MMS_PDU_MAX_SIZE"
  shows "each (\<lambda>field. case m field of None \<Rightarrow> ret () | Some s \<Rightarrow> seq (MmsWriteByte field) (EncodeText sc s)) fs b =
    Ok () (b @ concat (map (param_octets m) fs))"
  using assms(2)
proof (induction fs arbitrary: b)
  case (Cons f fs)
  show ?case
  proof (cases "m f")
    case (Some s)
    then have "plain s" using assms(1) by (auto simp: ranI)
    with Some Cons.IH [of "b @ f # s @ [0]"] Cons.prems EncodeText_plain [of s "b @ [f]" sc] show ?thesis
      by (simp add: op_simps MmsWriteByte_def param_octets_def)
  qed (use Cons in \<open>simp add: op_simps param_octets_def\<close>)
qed (simp add: op_simps)

lemma EncodeTextField_octets:
  "good_param q \<Longrightarrow> length b + length (texts_octets q) < MMS_PDU_MAX_SIZE \<Longrightarrow> EncodeTextField env q b = Ok () (b @ texts_octets q)"
  unfolding EncodeTextField_def texts_octets_def by (rule each_param_octets) (simp_all add: good_param_def)

lemma EncodeCharsetField_octets:
  "length b + length (charset_field_octets (cp_charset q)) < MMS_PDU_MAX_SIZE \<Longrightarrow>
   EncodeCharsetField q b = Ok () (b @ charset_field_octets (cp_charset q))"
  using long_integer.enc_octets [of "b @ [CT_P_CHARSET]" "ucast (cp_charset q)"]
  by (cases "cp_charset q = 0") (simp_all add: EncodeCharsetField_def charset_field_octets_def MmsWriteByte_def op_simps)

lemma EncodeTypeField_octets:
  "good_param q \<Longrightarrow> length b + length (type_field_octets (cp_type q)) < MMS_PDU_MAX_SIZE \<Longrightarrow>
   EncodeTypeField env q b = Ok () (b @ type_field_octets (cp_type q))"
  using EncodeText_plain [of "cp_type q" "b @ [CT_P_TYPE_STRING]" "char_signed env"]
  by (auto simp: EncodeTypeField_def type_field_octets_def good_param_def MmsWriteByte_def op_simps)

lemma media_octets_nonempty: "media_octets t \<noteq> []"
  by (simp add: media_octets_def split: option.splits)

lemma EncodeMmsBodyPartContentType_octets:
  assumes "good_content_type c" "length b + length (content_type_octets c) < MMS_PDU_MAX_SIZE"
  shows "EncodeMmsBodyPartContentType env c b = Ok () (b @ content_type_octets c)"
proof -
  let ?q = "msgContentParm c"
  let ?m = "case GetContentTypeFromString (contentType c) of
      None \<Rightarrow> EncodeText (char_signed env) (contentType c) | Some i \<Rightarrow> MmsWriteByte (word_of_nat i OR 0x80)"
  have len: "length (content_body c) < MMS_PDU_MAX_SIZE" and q: "good_param ?q" using assms(1) by (simp_all add: good_content_type_def)
  have "?m [] = Ok () (media_octets (contentType c))"
    using assms(1) len EncodeText_plain [of "contentType c" "[]" "char_signed env"]
    by (auto simp: good_content_type_def media_octets_def content_body_def MmsWriteByte_def split: option.splits)
  then have "seq ?m (EncodeMmsBodyPartContentParam env ?q) [] = Ok () (content_body c)"
    using len EncodeTextField_octets [OF q, of "media_octets (contentType c)" env]
      EncodeCharsetField_octets [of "media_octets (contentType c) @ texts_octets ?q" ?q]
      EncodeTypeField_octets [OF q, of "media_octets (contentType c) @ texts_octets ?q @ charset_field_octets (cp_charset ?q)" env]
    by (simp add: EncodeMmsBodyPartContentParam_def content_body_def op_simps)
  moreover have "content_body c \<noteq> []" by (simp add: content_body_def media_octets_nonempty)
  ultimately show ?thesis
    using with_length_octets [of "seq ?m (EncodeMmsBodyPartContentParam env ?q)" "content_body c" b] assms(2)
    by (simp add: EncodeMmsBodyPartContentType_def content_type_octets_def)
qed

lemma DecodeMmsContentType_octets:
  assumes "good_content_type c"
  shows "DecodeMmsContentType (mb p (content_type_octets c @ xs), new_content_type) =
    Ok (int (length (content_type_octets c))) (mb (p @ content_type_octets c) xs, c)"
proof -
  let ?q = "msgContentParm c"
  let ?ps = "texts_octets ?q @ charset_field_octets (cp_charset ?q) @ type_field_octets (cp_type ?q)"
  define n :: u32 where "n = word_of_nat (length (media_octets (contentType c) @ ?ps))"
  have oct: "content_type_octets c = value_length_octets n @ media_octets (contentType c) @ ?ps"
    by (simp add: content_type_octets_def content_body_def n_def)
  have m: "media_of (media_octets (contentType c)) (contentType c)" using assms by (intro media_octets_of) (simp add: good_content_type_def)
  have len: "length (media_octets (contentType c) @ ?ps) < MMS_PDU_MAX_SIZE" and q: "good_param ?q"
    using assms by (simp_all add: good_content_type_def content_body_def)
  have "length ?ps < MMS_PDU_MAX_SIZE" using len by simp
  from DecodeParameter_param(1) [OF q this, of "new_content_type\<lparr>contentType := contentType c\<rparr>"
      "p @ value_length_octets n @ media_octets (contentType c)" xs]
  have ps: "DecodeParameter (int (length ?ps)) (mb (p @ value_length_octets n @ media_octets (contentType c)) (?ps @ xs), new_content_type\<lparr>contentType := contentType c\<rparr>)
      = Ok () (mb (p @ content_type_octets c) xs, c)"
    by (simp add: oct new_content_type_def)
  from DecodeMmsContentType_general [OF m len n_def ps] show ?thesis by (simp add: oct)
qed

interpretation content_type: wsp_value "EncodeMmsBodyPartContentType env" "run_local new_content_type DecodeMmsContentType" content_type_octets
  "\<lambda>c. (Some (int (length (content_type_octets c))), c)" good_content_type for env
  by unfold_locales (simp_all add: EncodeMmsBodyPartContentType_octets DecodeMmsContentType_octets run_local_def)

section \<open>Quoted printable\<close>

text \<open>What \<^verbatim>\<open>sscanf_s(input, "=%02X", ...)\<close> is documented to do with two hexadecimal digits.\<close>

definition scans_hex :: "mms_env \<Rightarrow> bool" where
  "scans_hex env \<longleftrightarrow> (\<forall>b cs. scan_hex env (hex_upper (drop_bit 4 b) # hex_upper (b AND 0x0F) # cs) = Some (ucast b))"

lemma hex_upper_not_slash: "n \<le> 15 \<Longrightarrow> hex_upper n \<noteq> of_char CHR ''/''"
proof -
  assume "n \<le> 15"
  then have "unat n \<le> 15" by (simp add: word_le_nat_alt)
  then have "unat (hex_upper n) \<ge> 0x30"
    by (auto simp: hex_upper_def word_less_nat_alt unat_word_ariths)
  then show ?thesis by (auto simp: word_unat_eq_iff)
qed

lemma drop_bit_nibble: "drop_bit 4 (b :: u8) \<le> 15"
proof -
  have "unat b < 2 ^ LENGTH(8)" by (rule unsigned_less)
  then have "unat b div 2 ^ 4 \<le> 15" by simp
  then show ?thesis by (simp only: word_le_nat_alt unat_drop_bit_eq) (simp add: drop_bit_eq_div)
qed

lemma qp_loop_encoded: "scans_hex env \<Longrightarrow> qp_loop env (concat (map qp_char xs)) = xs"
proof (induction xs)
  case (Cons b xs)
  have u: "ucast (ucast b :: u32) = b" by (auto simp: bit_simps intro!: bit_word_eqI)
  show ?case
  proof (cases "(33 \<le> b \<and> b < 61) \<or> (61 < b \<and> b \<le> 126)")
    case True
    then have "b \<noteq> 0x3D" by auto
    then show ?thesis using Cons True by (simp add: qp_char_def ascii_def)
  next
    case False
    with Cons u hex_upper_not_slash [OF drop_bit_nibble, of b] show ?thesis
      by (simp add: qp_char_def ascii_def scans_hex_def)
  qed
qed simp

text \<open>
  The quoted printable encoding of a body is undone by the decoder, given that \<^verbatim>\<open>sscanf_s\<close> reads two hexadecimal digits.
\<close>

theorem QuotedPrintable_roundtrip:
  assumes "scans_hex env" "xs \<noteq> []" "length xs \<le> MMS_PDU_MAX_SIZE" "length (QuotedPrintableEncode xs) \<le> MAX_MMS_ATTACHMENT_LEN"
  shows "QuotedPrintableDecode env (QuotedPrintableEncode xs) = Some xs"
proof -
  have "QuotedPrintableEncode xs = concat (map qp_char xs)" using assms(3) by (simp add: QuotedPrintableEncode_def)
  moreover have "qp_char (hd xs) \<noteq> []" by (simp add: qp_char_def)
  then have "concat (map qp_char xs) \<noteq> []" using assms(2) by (cases xs) auto
  ultimately show ?thesis using assms qp_loop_encoded [of env xs] by (simp add: QuotedPrintableDecode_def)
qed

text \<open>A reader of two hexadecimal digits.\<close>

definition hex_value :: "u8 \<Rightarrow> u8 option" where
  "hex_value c =
     (if 0x30 \<le> c \<and> c \<le> 0x39 then Some (c - 0x30) else if 0x41 \<le> c \<and> c \<le> 0x46 then Some (c - 0x37) else None)"

fun two_digits :: "bytes \<Rightarrow> u32 option" where
  "two_digits (x # y # _) =
     (case (hex_value x, hex_value y) of (Some a, Some b) \<Rightarrow> Some (ucast (push_bit 4 a OR b)) | _ \<Rightarrow> None)"
| "two_digits _ = None"

lemma hex_value_upper:
  assumes "n \<le> 15"
  shows "hex_value (hex_upper n) = Some n"
proof -
  have n: "unat n \<le> 15" using assms by (simp add: word_le_nat_alt)
  then have "unat (0x30 + n) = 48 + unat n" "unat (0x37 + n) = 55 + unat n" by (simp_all add: unat_word_ariths)
  with n show ?thesis by (auto simp: hex_value_def hex_upper_def word_le_nat_alt word_less_nat_alt)
qed

lemma nibble_bits: "bit (0x0F :: int) n \<longleftrightarrow> n < 4" "4 + (n - 4) = (if 4 \<le> n then n else (4 :: nat))"
  using bit_mask_iff [where 'a = int, of 4 n] by (simp_all add: mask_eq_exp_minus_1)

lemma octet_nibbles: "push_bit 4 (drop_bit 4 b) OR (b AND 0x0F) = (b :: u8)"
  by (auto simp: bit_simps nibble_bits intro!: bit_word_eqI split: if_splits)

lemma two_digits_hex: "two_digits (hex_upper (drop_bit 4 b) # hex_upper (b AND 0x0F) # cs) = Some (ucast b)"
proof -
  have "b AND 0x0F \<le> 15" by (rule word_and_le1)
  then show ?thesis using octet_nibbles [of b] by (simp add: hex_value_upper drop_bit_nibble del: drop_bit_eq_div)
qed

text \<open>A concrete environment: strings are UTF-8 throughout, there is no base 64 service and no file.\<close>

definition sample_env :: mms_env where
  "sample_env =
     \<lparr>char_signed = True, mms_now = 1000, encode_string_func = (\<lambda>charset len s. (True, s)), base64_decode = (\<lambda>s. []), scan_hex = two_digits,
      transaction_id = ascii ''A1'', time_name = Some (ascii ''20240101000000''), real_path = (\<lambda>p. None), read_file = (\<lambda>p. None)\<rparr>"

lemma sample_env_hex: "scans_hex sample_env"
  by (simp add: scans_hex_def sample_env_def two_digits_hex del: two_digits.simps)

theorem QuotedPrintable_roundtrip_witness:
  "QuotedPrintableDecode sample_env (QuotedPrintableEncode [0x61, 0x3D, 0xFF]) = Some [0x61, 0x3D, 0xFF]"
  using QuotedPrintable_roundtrip [of sample_env "[0x61, 0x3D, 0xFF]"] sample_env_hex
  by (simp add: QuotedPrintableEncode_def qp_char_def MMS_PDU_MAX_SIZE_def MAX_MMS_ATTACHMENT_LEN_def)

end
