(* ===== verification/Mms_Api.thy ===== *)
theory Mms_Api
  imports Mms_Msg Mms_Content_Layout
begin

text \<open>
  What the interface of an MMS message keeps: the maps of a header hold only fields of their type, the parts of a body differ in their
  identifiers and come back as attachments, and no file outside the directories of applications is read.
\<close>

section \<open>The types of header fields\<close>

definition header_typed :: "MmsHeader \<Rightarrow> bool" where
  "header_typed h \<longleftrightarrow>
     (\<forall>f v. octetValueMap h f = Some v \<longrightarrow> FindFieldDes f = MMS_FIELD_OCTET_TYPE \<and> 128 \<le> v) \<and>
     (\<forall>f v. longValueMap h f = Some v \<longrightarrow> FindFieldDes f = MMS_FIELD_INTEGER_TYPE \<or> FindFieldDes f = MMS_FIELD_LONG_TYPE) \<and>
     (\<forall>f v. textValueMap h f = Some v \<longrightarrow> FindFieldDes f = MMS_FIELD_TEXT_TYPE \<and> v \<noteq> []) \<and>
     (\<forall>f e. encodeStringsMap h f = Some e \<longrightarrow> FindFieldDes f = MMS_FIELD_ENCODE_TEXT_TYPE \<and> strEncodeString e \<noteq> [] \<and> es_charset e \<noteq> 0) \<and>
     (\<forall>f as. addressMap h f = Some as \<longrightarrow> FindFieldDes f = MMS_FIELD_ENCODE_ADDR_TYPE \<and> as \<noteq> [])"

lemma in_range_128: "in_range 128 hi v \<Longrightarrow> 128 \<le> v"
  by (simp add: in_range_def)

lemma CheckBooleanValue_128: "CheckBooleanValue f v \<Longrightarrow> 128 \<le> v"
  by (auto simp: CheckBooleanValue_def in_range_def)

lemma status_128: "CheckResponseStatus v \<Longrightarrow> 128 \<le> v" "CheckRetrieveStatus v \<Longrightarrow> 128 \<le> v"
  by (auto simp: CheckResponseStatus_def CheckRetrieveStatus_def in_range_def word_le_nat_alt)

lemma PartData_match: "SetOctetValuePartData f v = (True, True) \<Longrightarrow> 128 \<le> v"
  by (auto simp: SetOctetValuePartData_def SetOctetValuePortionData_def in_range_128 status_128 split: if_splits bool.splits prod.splits)

lemma SetOctetValue_effect:
  "\<exists>r. SetOctetValue f v h = (r, h) \<or> SetOctetValue f v h = (r, put_octet f v h) \<and> FindFieldDes f = MMS_FIELD_OCTET_TYPE \<and> 128 \<le> v"
  using PartData_match [of f v] CheckBooleanValue_128 [of f v] in_range_128 [of _ v]
  by (auto simp: SetOctetValue_def split: prod.splits bool.splits)

lemma typed_put_octet: "header_typed h \<Longrightarrow> FindFieldDes f = MMS_FIELD_OCTET_TYPE \<Longrightarrow> 128 \<le> v \<Longrightarrow> header_typed (put_octet f v h)"
  by (simp add: header_typed_def put_octet_def)

lemma typed_SetOctetValue: "header_typed h \<Longrightarrow> header_typed (snd (SetOctetValue f v h))"
  using SetOctetValue_effect [of f v h] by (auto intro: typed_put_octet)

lemma typed_SetLongValue: "header_typed h \<Longrightarrow> header_typed (snd (SetLongValue f v h))"
  by (simp add: header_typed_def SetLongValue_def put_long_def)

lemma typed_SetTextValue: "header_typed h \<Longrightarrow> header_typed (snd (SetTextValue f v h))"
  by (simp add: header_typed_def SetTextValue_def put_text_def)

lemma typed_SetEncodeStringValue: "header_typed h \<Longrightarrow> header_typed (snd (SetEncodeStringValue f c v h))"
  by (simp add: header_typed_def SetEncodeStringValue_def put_string_def SetEncodeString_def CHARSET_UTF8_def)

lemma typed_AddHeaderAddressValue: "header_typed h \<Longrightarrow> header_typed (snd (AddHeaderAddressValue f a h))"
  by (simp add: header_typed_def AddHeaderAddressValue_def put_addresses_def split: option.splits)

lemma typed_new_header: "header_typed new_header"
  by (simp add: header_typed_def new_header_def)

lemma typed_fields:
  "header_typed h \<Longrightarrow> header_typed (h\<lparr>mmsContentType := c\<rparr>)" "header_typed h \<Longrightarrow> header_typed (h\<lparr>addressMap := (addressMap h)(MMS_FROM := None)\<rparr>)"
  by (auto simp: header_typed_def)

text \<open>Encoding changes the header by \<open>prepare_header\<close> and the removal of the sender only.\<close>

lemma safe_on_buf_snd: "safe False (\<lambda>s. P (snd s)) (on_buf m) (\<lambda>s. P (snd s)) (\<lambda>s. P (snd s))"
  by (rule safeI) (simp add: on_buf_def split: outcome.splits)

lemma from_header_stays: "safe False (\<lambda>s. P (snd s)) (from_header f) (\<lambda>s. P (snd s)) (\<lambda>s. P (snd s))"
  unfolding from_header_def by (intro stay_intros safe_on_buf_snd)

lemmas message_type_defs = encode_message_type_def EncodeMmsSendReq_def EncodeMmsSendConf_def EncodeMmsNotificationInd_def
  EnocdeMmsNotifyRespInd_def EnocdeMmsRetrieveConf_def EnocdeMmsAcknowledgeInd_def EnocdeMmsDeliveryInd_def EncodeMmsReadRecInd_def
  EncodeMmsReadOrigInd_def encode_from_if_any_def

text \<open>The headers an application can build.\<close>

inductive built :: "mms_env \<Rightarrow> MmsHeader \<Rightarrow> bool" for env where
  new: "built env new_header"
| octet: "built env h \<Longrightarrow> built env (snd (SetOctetValue f v h))"
| long: "built env h \<Longrightarrow> built env (snd (SetLongValue f l h))"
| texts: "built env h \<Longrightarrow> built env (snd (SetTextValue f s h))"
| string: "built env h \<Longrightarrow> built env (snd (SetEncodeStringValue f c s h))"
| addr: "built env h \<Longrightarrow> built env (snd (AddHeaderAddressValue f a h))"
| content: "built env h \<Longrightarrow> built env (h\<lparr>mmsContentType := c\<rparr>)"
| encoded: "built env h \<Longrightarrow> EncodeMmsHeader env (b, h) = Ok () (b', h') \<Longrightarrow> built env h'"
| not_encoded: "built env h \<Longrightarrow> EncodeMmsHeader env (b, h) = Fail (b', h') \<Longrightarrow> built env h'"

text \<open>An invariant of headers: what holds of a new header and is kept by every setter holds of every header an application builds.\<close>

locale header_invariant =
  fixes P :: "MmsHeader \<Rightarrow> bool"
  assumes starts: "P new_header"
    and keeps_octet: "P h \<Longrightarrow> P (snd (SetOctetValue f v h))"
    and keeps_long: "P h \<Longrightarrow> P (snd (SetLongValue f l h))"
    and keeps_text: "P h \<Longrightarrow> P (snd (SetTextValue f s h))"
    and keeps_string: "P h \<Longrightarrow> P (snd (SetEncodeStringValue f c s h))"
    and keeps_address: "P h \<Longrightarrow> P (snd (AddHeaderAddressValue f a h))"
    and keeps_content: "P h \<Longrightarrow> P (h\<lparr>mmsContentType := t\<rparr>)"
    and keeps_erased: "P h \<Longrightarrow> P (h\<lparr>addressMap := (addressMap h)(MMS_FROM := None)\<rparr>)"
begin

lemma prepare_keeps: "P h \<Longrightarrow> P (prepare_header env t h)"
  by (simp add: prepare_header_def Let_def keeps_text keeps_long)

lemma from_value_keeps: "safe False (\<lambda>s. P (snd s)) (EncodeFieldFromValue env as) (\<lambda>s. P (snd s)) (\<lambda>s. P (snd s))"
proof -
  have "safe False (\<lambda>s. P (snd s)) (on_out (\<lambda>h. h\<lparr>addressMap := (addressMap h)(MMS_FROM := None)\<rparr>)) (\<lambda>s. P (snd s)) (\<lambda>s. P (snd s))"
    by (auto simp: safe_def on_out_def keeps_erased)
  then show ?thesis unfolding EncodeFieldFromValue_def by (intro stay_intros safe_on_buf_snd)
qed

lemma encode_keeps: "safe False (\<lambda>s. P (snd s)) (EncodeMmsHeader env) (\<lambda>s. P (snd s)) (\<lambda>s. P (snd s))"
proof -
  have "safe False (\<lambda>s. P (snd s)) (on_out (prepare_header env t)) (\<lambda>s. P (snd s)) (\<lambda>s. P (snd s))" for t
    by (auto simp: safe_def on_out_def prepare_keeps)
  moreover have "safe False (\<lambda>s. P (snd s)) (encode_message_type env t) (\<lambda>s. P (snd s)) (\<lambda>s. P (snd s))" for t
    unfolding message_type_defs by (intro stay_intros from_header_stays from_value_keeps)
  ultimately show ?thesis unfolding EncodeMmsHeader_def by (intro stay_intros from_header_stays)
qed

lemma built_keeps: "built env h \<Longrightarrow> P h"
proof (induction rule: built.induct)
  case (encoded h b b' h')
  with safeD [OF encode_keeps, of "(b, h)" env] show ?case by simp
next
  case (not_encoded h b b' h')
  with safeD [OF encode_keeps, of "(b, h)" env] show ?case by simp
qed (simp_all add: starts keeps_octet keeps_long keeps_text keeps_string keeps_address keeps_content)

end

interpretation typed: header_invariant header_typed
  by unfold_locales (simp_all add: typed_new_header typed_SetOctetValue typed_SetLongValue typed_SetTextValue typed_SetEncodeStringValue
      typed_AddHeaderAddressValue typed_fields)

text \<open>
  C15. The maps of a header are typed: after any sequence of calls of the setters and of the encoder, each map holds only fields of its type in the table
  of \<^verbatim>\<open>MmsHeaderCateg\<close>, octets are at least 128, texts and lists of addresses are not empty, and strings have a character set.
\<close>

theorem built_header_typed: "built env h \<Longrightarrow> header_typed h"
  by (rule typed.built_keeps)

theorem built_header_typed_witness: "header_typed (snd (SetOctetValue MMS_PRIORITY 129 new_header))"
  by (rule built_header_typed [of sample_env]) (intro built.intros)

text \<open>Without a read status no read report is written.\<close>

definition no_read_status :: "MmsHeader \<Rightarrow> bool" where
  "no_read_status h \<longleftrightarrow> octetValueMap h MMS_READ_STATUS = None"

lemma read_status_refused: "SetOctetValue MMS_READ_STATUS v h = (False, h)"
  by (simp add: SetOctetValue_def SetOctetValuePartData_def SetOctetValuePortionData_def CheckBooleanValue_def split: bool.splits)

lemma no_read_status_octet: "no_read_status h \<Longrightarrow> no_read_status (snd (SetOctetValue f v h))"
  using SetOctetValue_effect [of f v h] read_status_refused [of v h]
  by (cases "f = MMS_READ_STATUS") (auto simp: no_read_status_def put_octet_def)

interpretation unread: header_invariant no_read_status
  by unfold_locales (simp_all add: no_read_status_octet, simp_all add: no_read_status_def new_header_def SetLongValue_def put_long_def
      SetTextValue_def put_text_def SetEncodeStringValue_def put_string_def AddHeaderAddressValue_def put_addresses_def split: option.splits)

lemma never_read_report:
  "safe False (\<lambda>s. no_read_status (snd s)) (seq (from_header (EncodeCommontFieldValue env)) (EncodeMmsReadRecInd env)) (\<lambda>_. False) (\<lambda>_. True)"
proof -
  have keep: "safe False (\<lambda>s. no_read_status (snd s)) (from_header f) (\<lambda>s. no_read_status (snd s)) (\<lambda>_. True)" for f
    by (rule safe_weaken [OF from_header_stays]) auto
  have from_any: "safe False (\<lambda>s. no_read_status (snd s)) (bnd get_out (\<lambda>h. EncodeFieldFromValue env (addresses_or_nil MMS_FROM h)))
      (\<lambda>s. no_read_status (snd s)) (\<lambda>_. True)"
    by (intro stay_intros safe_weaken [OF unread.from_value_keeps]) auto
  have stop: "safe False (\<lambda>s. no_read_status (snd s)) (from_header (EncodeOctetValueFromMap MMS_READ_STATUS)) (\<lambda>_. False) (\<lambda>_. True)"
    by (rule safeI) (auto simp: from_header_def EncodeOctetValueFromMap_def GetOctetValue_def no_read_status_def op_simps)
  have rest: "safe False (\<lambda>_. False) m Q (\<lambda>_. True)" for m :: header_enc and Q by (simp add: safe_def)
  show ?thesis unfolding EncodeMmsReadRecInd_def
    by (rule safe_seq [OF keep safe_seq [OF keep safe_seq [OF keep safe_seq [OF from_any safe_seq [OF stop rest]]]]])
qed

text \<open>
  C34. An application cannot send a read report. The switch of the setters for the read status leaves \<^verbatim>\<open>match\<close> false, so \<^verbatim>\<open>SetOctetValue\<close> refuses every
  value of it; a header that was built with the setters, however they were called, never has the field a read report must have,
  and encoding it as a read report fails. Only decoding stores a read status: a header that came from \<^verbatim>\<open>DecodeMmsHeader\<close> is not covered.
\<close>

theorem read_report_not_encodable:
  assumes "built env h" "octetValueMap h MMS_MESSAGE_TYPE = Some MMS_MSGTYPE_READ_REC_IND"
  shows "\<forall>r. EncodeMmsHeader env (b, h) \<noteq> Ok () r"
proof -
  have "no_read_status (snd (b, prepare_header env MMS_MSGTYPE_READ_REC_IND h))"
    using unread.prepare_keeps [OF unread.built_keeps [OF assms(1)]] by simp
  from safeD [OF never_read_report this, of env] assms(2) show ?thesis
    by (auto simp: EncodeMmsHeader_def encode_message_type_def GetOctetValue_def bnd_def [of get_out] get_out_def seq_def [of "on_out _"]
        bnd_def [of "on_out _"] on_out_def [of "prepare_header _ _"] split: outcome.splits)
qed

theorem read_report_not_encodable_witness:
  "\<forall>r. EncodeMmsHeader sample_env ([], snd (SetOctetValue MMS_READ_STATUS 128 (snd (SetOctetValue MMS_MESSAGE_TYPE MMS_MSGTYPE_READ_REC_IND new_header)))) \<noteq> Ok () r"
proof -
  have "octetValueMap (snd (SetOctetValue MMS_READ_STATUS 128 (snd (SetOctetValue MMS_MESSAGE_TYPE MMS_MSGTYPE_READ_REC_IND new_header)))) MMS_MESSAGE_TYPE =
      Some MMS_MSGTYPE_READ_REC_IND"
    by code_simp
  then show ?thesis by (intro read_report_not_encodable built.intros)
qed

section \<open>Parts and attachments\<close>

lemma SetAttachment_full: "SetAttachment env a p = Ok () q \<Longrightarrow> part_full q"
  by (auto simp: SetAttachment_def op_simps WriteBodyFromFile_def WriteBodyFromAttachmentBuffer_def GetDataBuffer_def part_from_attachment_def
      part_full_def memcpy_s_ok_def MAX_MMS_ATTACHMENT_LEN_def MMS_PDU_MAX_SIZE_def split: if_splits option.splits outcome.splits)

text \<open>
  What an attachment stands for: the content of its file, if its path leads to a file of an application that is neither empty
  nor too long, and otherwise its own data; its name, or else the last part of its path; and its content type.
\<close>

definition attached_file :: "mms_env \<Rightarrow> MmsAttachment \<Rightarrow> bytes option" where
  "attached_file env a =
     (if strPathName a = [] then None
      else Option.bind (real_path env (strPathName a)) (\<lambda>path.
           if \<not> in_sandbox path then None
           else Option.bind (read_file env path) (\<lambda>d. if d \<noteq> [] \<and> length d \<le> MMS_PDU_MAX_SIZE then Some d else None)))"

definition attached_data :: "mms_env \<Rightarrow> MmsAttachment \<Rightarrow> bytes" where
  "attached_data env a = (case attached_file env a of Some d \<Rightarrow> d | None \<Rightarrow> take (dataLength a) (the (pAttachmentBuffer a)))"

definition attached_name :: "MmsAttachment \<Rightarrow> bytes" where
  "attached_name a = (if att_fileName a = [] then base_name (strPathName a) else att_fileName a)"

text \<open>The messages that arise when attachments are added, and the attachments in the order in which they were added.\<close>

inductive attached :: "mms_env \<Rightarrow> MmsAttachment list \<Rightarrow> MmsMsg \<Rightarrow> bool" for env where
  none: "mmsBodyParts (mmsBody g) = [] \<Longrightarrow> attached env [] g"
| add: "attached env as g \<Longrightarrow> AddAttachment env a g = Ok () g' \<Longrightarrow> attached env (as @ [a]) g'"

text \<open>The presentation comes first.\<close>

definition smil_first :: "MmsAttachment list \<Rightarrow> MmsAttachment list" where
  "smil_first as = filter att_isSmil as @ filter (\<lambda>a. \<not> att_isSmil a) as"

definition part_content :: "MmsBodyPart \<Rightarrow> bytes option \<times> bytes \<times> bytes" where
  "part_content p = (pbodyPartBuffer p, strFileName p, contentType (bodyPartContentType p))"

definition attached_content :: "mms_env \<Rightarrow> MmsAttachment \<Rightarrow> bytes option \<times> bytes \<times> bytes" where
  "attached_content env a = (Some (attached_data env a), attached_name a, att_contentType a)"

lemma WriteBodyFromFile_file:
  "WriteBodyFromFile env (strPathName a) p = map_option (\<lambda>d. p\<lparr>pbodyPartBuffer := Some d, bodyLen := length d\<rparr>) (attached_file env a)"
  by (auto simp: WriteBodyFromFile_def attached_file_def split: option.splits)

lemma SetAttachment_content:
  "SetAttachment env a p = Ok () q \<Longrightarrow> part_content q = attached_content env a \<and> part_isSmil q = att_isSmil a"
  by (auto simp: SetAttachment_def WriteBodyFromFile_file op_simps WriteBodyFromAttachmentBuffer_def GetDataBuffer_def part_from_attachment_def
      part_content_def attached_content_def attached_data_def attached_name_def split: if_splits option.splits outcome.splits)

lemma AddAttachment_parts:
  assumes "AddAttachment env a g = Ok () g'"
  shows "\<exists>p. SetAttachment env a new_body_part = Ok () p \<and> \<not> IsBodyPartExist p (mmsBody g) \<and>
    (if att_isSmil a then \<not> bHaveSmilPart (mmsBody g) \<and> mmsBody g' = (mmsBody g)\<lparr>mmsBodyParts := copy_part p # mmsBodyParts (mmsBody g), bHaveSmilPart := True\<rparr>
     else mmsBody g' = (mmsBody g)\<lparr>mmsBodyParts := mmsBodyParts (mmsBody g) @ [copy_part p]\<rparr>)"
  using assms SetAttachment_content [of env a new_body_part]
  by (fastforce simp: AddAttachment_def op_simps AddMmsBodyPart_def split: if_splits outcome.splits)

definition body_ok :: "MmsMsg \<Rightarrow> bool" where
  "body_ok g \<longleftrightarrow>
     distinct (map (\<lambda>p. strContentID (mmsBodyPartHeader p)) (mmsBodyParts (mmsBody g))) \<and>
     distinct (map (\<lambda>p. strContentLocation (mmsBodyPartHeader p)) (mmsBodyParts (mmsBody g))) \<and>
     (\<forall>p \<in> set (mmsBodyParts (mmsBody g)). part_full p \<and> \<not> part_isSmil p)"

lemma AddAttachment_body_ok:
  assumes "body_ok g" "AddAttachment env a g = Ok () g'"
  shows "body_ok g'"
proof -
  obtain p where p: "SetAttachment env a new_body_part = Ok () p" "\<not> IsBodyPartExist p (mmsBody g)"
    "mmsBodyParts (mmsBody g') = copy_part p # mmsBodyParts (mmsBody g) \<or> mmsBodyParts (mmsBody g') = mmsBodyParts (mmsBody g) @ [copy_part p]"
    using AddAttachment_parts [OF assms(2)] by (auto split: if_splits)
  from SetAttachment_full [OF p(1)] have full: "part_full p" .
  have "strContentID (mmsBodyPartHeader p) \<notin> (\<lambda>p. strContentID (mmsBodyPartHeader p)) ` set (mmsBodyParts (mmsBody g))"
    "strContentLocation (mmsBodyPartHeader p) \<notin> (\<lambda>p. strContentLocation (mmsBodyPartHeader p)) ` set (mmsBodyParts (mmsBody g))"
    using p(2) by (fastforce simp: IsBodyPartExist_def IsContentIdPartExist_def IsContentLocationPartExist_def)+
  with p(3) assms(1) part_full_copy [OF full] copy_part_full [OF full] show ?thesis by (simp add: body_ok_def) (elim disjE; simp)
qed

lemma attached_ok: "attached env as g \<Longrightarrow> body_ok g"
proof (induction rule: attached.induct)
  case (none g)
  then show ?case by (simp add: body_ok_def)
next
  case (add as g a g')
  from AddAttachment_body_ok [OF add.IH add.hyps(2)] show ?case .
qed

lemma attached_parts:
  "attached env as g \<Longrightarrow> map part_content (mmsBodyParts (mmsBody g)) = map (attached_content env) (smil_first as) \<and>
     length (filter att_isSmil as) \<le> 1 \<and> (filter att_isSmil as \<noteq> [] \<longrightarrow> bHaveSmilPart (mmsBody g))"
proof (induction rule: attached.induct)
  case (add as g a g')
  obtain p where p: "SetAttachment env a new_body_part = Ok () p"
    "if att_isSmil a then \<not> bHaveSmilPart (mmsBody g) \<and> mmsBody g' = (mmsBody g)\<lparr>mmsBodyParts := copy_part p # mmsBodyParts (mmsBody g), bHaveSmilPart := True\<rparr>
     else mmsBody g' = (mmsBody g)\<lparr>mmsBodyParts := mmsBodyParts (mmsBody g) @ [copy_part p]\<rparr>"
    using AddAttachment_parts [OF add.hyps(2)] by blast
  have "part_content (copy_part p) = attached_content env a"
    using SetAttachment_content [OF p(1)] copy_part_full [OF SetAttachment_full [OF p(1)]] by (simp add: part_content_def)
  with p(2) add.IH show ?case by (cases "att_isSmil a") (auto simp: smil_first_def)
qed (simp add: smil_first_def)

text \<open>What the setters of an attachment leave alone.\<close>

lemma set_att_fileName:
  "att_fileName (snd (SetAttContentType s a)) = att_fileName a" "att_fileName (snd (SetAttContentLocation s a)) = att_fileName a"
  "att_fileName (snd (SetAttContentDisposition s a)) = att_fileName a" "att_fileName (snd (SetAttTransferEncoding s a)) = att_fileName a"
  "att_fileName (snd (SetDataBuffer s a)) = att_fileName a" "att_fileName (snd (SetAttFileName s a)) = (if s = [] then att_fileName a else s)"
  by (simp_all add: SetAttContentType_def SetAttContentLocation_def SetAttContentDisposition_def SetAttTransferEncoding_def SetDataBuffer_def SetAttFileName_def)

lemma set_att_contentType:
  "att_contentType (snd (SetAttContentType s a)) = (if s = [] then att_contentType a else s)"
  "att_contentType (snd (SetAttContentLocation s a)) = att_contentType a" "att_contentType (snd (SetAttContentDisposition s a)) = att_contentType a"
  "att_contentType (snd (SetAttTransferEncoding s a)) = att_contentType a" "att_contentType (snd (SetDataBuffer s a)) = att_contentType a"
  "att_contentType (snd (SetAttFileName s a)) = att_contentType a" "att_contentType (snd (SetAttContentId s a)) = att_contentType a"
  by (simp_all add: SetAttContentType_def SetAttContentLocation_def SetAttContentDisposition_def SetAttTransferEncoding_def SetDataBuffer_def
      SetAttFileName_def SetAttContentId_def)

lemma attachment_of_part_fields:
  assumes "d \<noteq> []" "length d \<le> MMS_PDU_MAX_SIZE" "strFileName p \<noteq> []"
  shows "pAttachmentBuffer (attachment_of_part n p d) = Some d" "dataLength (attachment_of_part n p d) = length d"
    "att_fileName (attachment_of_part n p d) = strFileName p" "att_contentType (attachment_of_part n p d) = contentType (bodyPartContentType p)"
  using assms
  by (simp_all add: attachment_of_part_def Let_def set_att_fileName set_att_contentType)
    (simp_all add: SetDataBuffer_def memcpy_s_ok_def MAX_MMS_ATTACHMENT_LEN_def MMS_PDU_MAX_SIZE_def new_attachment_def)

lemma attachment_of_full:
  assumes "part_full p"
  shows "\<exists>d a. pbodyPartBuffer p = Some d \<and> ReadBodyPartBuffer p = Some d \<and> copy_attachment (attachment_of_part n p d) = Ok a (attachment_of_part n p d) \<and>
    pAttachmentBuffer a = Some d \<and> att_fileName a = strFileName p \<and> att_contentType a = contentType (bodyPartContentType p)"
proof -
  from assms obtain d where d: "strFileName p \<noteq> []" "pbodyPartBuffer p = Some d" "d \<noteq> []" "bodyLen p = length d" "length d \<le> MMS_PDU_MAX_SIZE"
    by (auto simp: part_full_def)
  moreover from attachment_of_part_fields [OF d(3, 5, 1), of n] d
  have "copy_attachment (attachment_of_part n p d) = Ok ((attachment_of_part n p d)\<lparr>strPathName := [], pAttachmentBuffer := Some d\<rparr>) (attachment_of_part n p d)"
    by (simp add: copy_attachment_def GetDataBuffer_def memcpy_s_ok_def MAX_MMS_ATTACHMENT_LEN_def MMS_PDU_MAX_SIZE_def)
  ultimately show ?thesis using attachment_of_part_fields [OF d(3, 5, 1), of n]
    by (simp add: ReadBodyPartBuffer_def memcpy_s_ok_def MMS_PDU_MAX_SIZE_def)
qed

lemma all_attachments_full:
  "\<forall>p \<in> set ps. part_full p \<Longrightarrow> \<exists>as. all_attachments n ps = (True, as) \<and>
     map pAttachmentBuffer as = map pbodyPartBuffer ps \<and> map att_fileName as = map strFileName ps \<and>
     map att_contentType as = map (\<lambda>p. contentType (bodyPartContentType p)) ps"
proof (induction ps)
  case (Cons p ps)
  then obtain as where as: "all_attachments n ps = (True, as)" "map pAttachmentBuffer as = map pbodyPartBuffer ps"
    "map att_fileName as = map strFileName ps" "map att_contentType as = map (\<lambda>p. contentType (bodyPartContentType p)) ps" by auto
  moreover from Cons.prems have "part_full p" by simp
  with attachment_of_full [of p n] obtain d a where "pbodyPartBuffer p = Some d" "ReadBodyPartBuffer p = Some d"
    "copy_attachment (attachment_of_part n p d) = Ok a (attachment_of_part n p d)"
    "pAttachmentBuffer a = Some d" "att_fileName a = strFileName p" "att_contentType a = contentType (bodyPartContentType p)" by auto
  moreover have "strFileName p \<noteq> []" using \<open>part_full p\<close> by (simp add: part_full_def)
  ultimately show ?case by simp
qed simp

text \<open>
  C16. What was attached is read back. However many attachments were added to a message without parts, \<^verbatim>\<open>GetAllAttachment\<close> succeeds and returns
  one attachment for each of them, the presentation first (there is at most one) and the others in the order in which they were added, each
  with the data, the file name and the content type of the attachment that was added. The parts have different content identifiers
  and different content locations, and none of them is empty or longer than a message may be.
\<close>

theorem attachments_read_back:
  assumes "attached env as g" "as \<noteq> []"
  shows "body_ok g \<and> length (filter att_isSmil as) \<le> 1 \<and> (\<exists>bs. GetAllAttachment g = (True, bs) \<and>
    map pAttachmentBuffer bs = map (\<lambda>a. Some (attached_data env a)) (smil_first as) \<and>
    map att_fileName bs = map attached_name (smil_first as) \<and> map att_contentType bs = map att_contentType (smil_first as))"
proof -
  let ?ps = "mmsBodyParts (mmsBody g)"
  have ok: "body_ok g" using assms(1) by (rule attached_ok)
  then have full: "\<forall>p \<in> set ?ps. part_full p \<and> \<not> part_isSmil p" by (simp add: body_ok_def)
  then have "copy_part p = p" if "p \<in> set ?ps" for p using that by (cases p) (auto simp: copy_part_full)
  then have copies: "map copy_part ?ps = ?ps" by (simp add: map_idI)
  have content: "map part_content ?ps = map (attached_content env) (smil_first as)" "length (filter att_isSmil as) \<le> 1"
    using attached_parts [OF assms(1)] by simp_all
  have "set (smil_first as) = set as" by (auto simp: smil_first_def)
  then have "smil_first as \<noteq> []" using assms(2) by (metis set_empty)
  then have "?ps \<noteq> []" using content(1) by (metis map_is_Nil_conv)
  moreover have "map pbodyPartBuffer ?ps = map (\<lambda>a. Some (attached_data env a)) (smil_first as)" "map strFileName ?ps = map attached_name (smil_first as)"
    "map (\<lambda>p. contentType (bodyPartContentType p)) ?ps = map att_contentType (smil_first as)"
    using arg_cong [OF content(1), of "map fst"] arg_cong [OF content(1), of "map (\<lambda>c. fst (snd c))"] arg_cong [OF content(1), of "map (\<lambda>c. snd (snd c))"]
    by (simp_all add: part_content_def attached_content_def o_def)
  ultimately show ?thesis
    using ok all_attachments_full [of ?ps "GetSmilFileName (mmsHeader g)"] full content(2) copies by (auto simp: GetAllAttachment_def)
qed

definition sample_attachment :: MmsAttachment where
  "sample_attachment = snd (SetDataBuffer [0x68, 0x69] (snd (SetAttFileName (ascii ''a.txt'') (snd (SetAttContentType (ascii ''text/plain'') new_attachment)))))"

definition sample_part :: MmsBodyPart where
  "sample_part = \<lparr>part_isSmil = False, strFileName = ascii ''a.txt'', headerLen = 0, bodyLen = 2,
     bodyPartContentType = \<lparr>contentType = ascii ''text/plain'',
       msgContentParm = \<lparr>cp_charset = 0, cp_type = [], textMap = [CT_P_NAME \<mapsto> ascii ''a.txt'']\<rparr>\<rparr>,
     mmsBodyPartHeader = new_part_header\<lparr>strContentTransferEncoding := []\<rparr>, pbodyPartBuffer = Some [0x68, 0x69]\<rparr>"

lemma AddAttachment_sample:
  "AddAttachment sample_env sample_attachment new_msg = Ok () (new_msg\<lparr>mmsBody := new_body\<lparr>mmsBodyParts := [sample_part]\<rparr>\<rparr>)"
  by (simp add: AddAttachment_def SetAttachment_def sample_attachment_def sample_part_def SetDataBuffer_def SetAttFileName_def SetAttContentType_def
      new_attachment_def memcpy_s_ok_def MAX_MMS_ATTACHMENT_LEN_def WriteBodyFromFile_def WriteBodyFromAttachmentBuffer_def GetDataBuffer_def
      MMS_PDU_MAX_SIZE_def part_from_attachment_def new_body_part_def new_content_type_def SetFileName_def map_insert_def IsBodyPartExist_def
      IsContentIdPartExist_def IsContentLocationPartExist_def new_msg_def new_body_def AddMmsBodyPart_def copy_part_def new_part_header_def
      ascii_def op_simps)

theorem attachments_read_back_witness:
  "\<exists>bs. GetAllAttachment (new_msg\<lparr>mmsBody := new_body\<lparr>mmsBodyParts := [sample_part]\<rparr>\<rparr>) = (True, bs) \<and>
    map pAttachmentBuffer bs = [Some [0x68, 0x69]] \<and> map att_fileName bs = [ascii ''a.txt'']"
proof -
  have "attached sample_env ([] @ [sample_attachment]) (new_msg\<lparr>mmsBody := new_body\<lparr>mmsBodyParts := [sample_part]\<rparr>\<rparr>)"
    by (rule attached.add [OF attached.none AddAttachment_sample]) (simp add: new_msg_def new_body_def)
  moreover have "\<not> att_isSmil sample_attachment" "attached_data sample_env sample_attachment = [0x68, 0x69]"
    "attached_name sample_attachment = ascii ''a.txt''"
    by (simp_all add: sample_attachment_def SetDataBuffer_def SetAttFileName_def SetAttContentType_def new_attachment_def memcpy_s_ok_def
        MAX_MMS_ATTACHMENT_LEN_def attached_data_def attached_file_def attached_name_def ascii_def)
  ultimately show ?thesis using attachments_read_back [of sample_env "[sample_attachment]"] by (fastforce simp: smil_first_def)
qed

text \<open>
  C35. \<^verbatim>\<open>SetDataBuffer\<close> with no octets replaces the array of an attachment by an empty one and keeps the old length. The next copy of the data, by
  \<^verbatim>\<open>GetDataBuffer\<close>, the copy constructor or \<^verbatim>\<open>AddAttachment\<close>, reads behind the end of the array.
\<close>

theorem empty_data_buffer_dangles:
  assumes "0 < dataLength a" "dataLength a \<le> MAX_MMS_ATTACHMENT_LEN" "att_fileName a \<noteq> []" "strPathName a = []"
  shows "\<exists>b. SetDataBuffer [] a = (False, b) \<and> GetDataBuffer b = Fault \<and> copy_attachment b = Fault \<and> AddAttachment env b g = Fault"
proof -
  let ?b = "a\<lparr>pAttachmentBuffer := Some []\<rparr>"
  have "SetDataBuffer [] a = (False, ?b)" by (simp add: SetDataBuffer_def memcpy_s_ok_def)
  moreover have f: "GetDataBuffer ?b = Fault" using assms by (simp add: GetDataBuffer_def memcpy_s_ok_def)
  moreover have "copy_attachment ?b = Fault" using assms(2) f by (simp add: copy_attachment_def)
  moreover have "AddAttachment env ?b g = Fault"
    using assms(3, 4) f by (simp add: AddAttachment_def SetAttachment_def WriteBodyFromFile_def WriteBodyFromAttachmentBuffer_def op_simps)
  ultimately show ?thesis by blast
qed

theorem empty_data_buffer_dangles_witness:
  "\<exists>b. SetDataBuffer [] sample_attachment = (False, b) \<and> GetDataBuffer b = Fault"
  using empty_data_buffer_dangles [of sample_attachment sample_env new_msg]
  by (auto simp: sample_attachment_def SetDataBuffer_def SetAttFileName_def SetAttContentType_def new_attachment_def memcpy_s_ok_def
      MAX_MMS_ATTACHMENT_LEN_def ascii_def)

section \<open>Files\<close>

lemma sandbox_WriteBodyFromFile:
  "\<forall>p. in_sandbox p \<longrightarrow> read_file env p = files p \<Longrightarrow> WriteBodyFromFile (env\<lparr>read_file := files\<rparr>) path p = WriteBodyFromFile env path p"
  by (auto simp: WriteBodyFromFile_def split: option.splits)

text \<open>
  C17. Only files in the directories of applications are read: attachments and messages are the same whatever the files are that lie outside
  \<^verbatim>\<open>/data/app/\<close> and \<^verbatim>\<open>/data/storage/\<close> once links are resolved, even if a path leads there.
\<close>

theorem files_outside_sandbox_not_read:
  assumes "\<forall>p. in_sandbox p \<longrightarrow> read_file env p = files p"
  shows "AddAttachment (env\<lparr>read_file := files\<rparr>) a g = AddAttachment env a g \<and>
    WriteBufferFromFile (env\<lparr>read_file := files\<rparr>) path = WriteBufferFromFile env path"
proof
  have "WriteBodyFromFile (env\<lparr>read_file := files\<rparr>) (strPathName a) = WriteBodyFromFile env (strPathName a)"
    using sandbox_WriteBodyFromFile [OF assms] by (intro ext)
  then show "AddAttachment (env\<lparr>read_file := files\<rparr>) a g = AddAttachment env a g" by (simp add: AddAttachment_def SetAttachment_def)
  show "WriteBufferFromFile (env\<lparr>read_file := files\<rparr>) path = WriteBufferFromFile env path"
    using assms by (auto simp: WriteBufferFromFile_def split: option.splits)
qed

theorem files_outside_sandbox_not_read_witness:
  "AddAttachment (sample_env\<lparr>real_path := Some, read_file := (\<lambda>p. if p = ascii ''/etc/passwd'' then Some [1] else None)\<rparr>)
     (sample_attachment\<lparr>strPathName := ascii ''/etc/passwd''\<rparr>) new_msg =
   AddAttachment (sample_env\<lparr>real_path := Some\<rparr>) (sample_attachment\<lparr>strPathName := ascii ''/etc/passwd''\<rparr>) new_msg"
  using files_outside_sandbox_not_read [of "sample_env\<lparr>real_path := Some\<rparr>" "\<lambda>p. if p = ascii ''/etc/passwd'' then Some [1] else None"
      "sample_attachment\<lparr>strPathName := ascii ''/etc/passwd''\<rparr>" new_msg]
  by (auto simp: sample_env_def in_sandbox_def APP_SAND_ABSOLUTE_DIR_def APP_SAND_RELATIVE_DIR_def ascii_def)

end
