(* ===== verification/Mms_Header_Layout.thy ===== *)
theory Mms_Header_Layout
  imports Mms_Msg Mms_Content_Layout
begin

text \<open>
  The header of a request to send a message survives encoding and decoding: what each field writes, and what the loop over the fields makes of it.
\<close>

section \<open>Fields on the wire\<close>

text \<open>An encoder that writes \<open>w\<close>, and octets \<open>w\<close> that the loop of \<open>DecodeMmsHeader\<close> reads as the update \<open>f\<close> of the header.\<close>

definition writes :: "(MmsEncodeBuffer, unit) op \<Rightarrow> bytes \<Rightarrow> bool" where
  "writes m w \<longleftrightarrow> (\<forall>b. length b + length w < MMS_PDU_MAX_SIZE \<longrightarrow> m b = Ok () (b @ w))"

definition reads :: "mms_env \<Rightarrow> bytes \<Rightarrow> (MmsHeader \<Rightarrow> MmsHeader) \<Rightarrow> bool" where
  "reads env w f \<longleftrightarrow> (\<forall>p xs h. DecodeMmsHeader env (mb p (w @ xs), h) = DecodeMmsHeader env (mb (p @ w) xs, f h))"

named_theorems field_intros \<open>fields that are written and read\<close>

lemma writes_ret [field_intros]: "writes (ret ()) []"
  by (simp add: writes_def ret_def)

lemma writes_seq: "writes m v \<Longrightarrow> writes k w \<Longrightarrow> writes (seq m k) (v @ w)"
  by (simp add: writes_def op_simps)

lemma writes_ignore: "writes m w \<Longrightarrow> writes (ignore m) w"
  by (simp add: writes_def ignore_def)

text \<open>A field that is absent fails and writes nothing; the failure is ignored.\<close>

lemma writes_ignore_fail: "writes (ignore fail) []"
  by (simp add: writes_def ignore_def fail_def)

lemma writes_byte: "writes (MmsWriteByte x) [x]"
  by (simp add: writes_def MmsWriteByte_def)

lemma writes_each: "(\<And>x. x \<in> set xs \<Longrightarrow> writes (f x) (g x)) \<Longrightarrow> writes (each f xs) (concat (map g xs))"
proof (induction xs)
  case (Cons x xs)
  from writes_seq [OF Cons.prems Cons.IH] Cons.prems show ?case by simp
qed (simp add: writes_ret)

lemma reads_nil [field_intros]: "reads env [] (\<lambda>h. h)"
  by (simp add: reads_def)

lemma reads_append: "reads env v f \<Longrightarrow> reads env w g \<Longrightarrow> reads env (v @ w) (\<lambda>h. g (f h))"
  by (simp add: reads_def)

lemma reads_concat: "(\<And>x. x \<in> set xs \<Longrightarrow> reads env (w x) (f x)) \<Longrightarrow> reads env (concat (map w xs)) (fold f xs)"
proof (induction xs)
  case (Cons x xs)
  from reads_append [of env "w x" "f x" "concat (map w xs)" "fold f xs"] Cons show ?case by (simp add: comp_def)
qed (simp add: reads_def)

text \<open>One pass of the loop.\<close>

lemma reads_field:
  assumes "f OR 0x80 = f" "f \<noteq> MMS_CONTENT_TYPE"
    "\<And>p xs h. header_field env f (mb p (w @ xs), h) = Ok () (mb (p @ w) xs, g h)"
  shows "reads env (f # w) g"
  unfolding reads_def
proof (intro allI)
  fix p xs h
  show "DecodeMmsHeader env (mb p ((f # w) @ xs), h) = DecodeMmsHeader env (mb (p @ f # w) xs, g h)"
    using assms(1, 2) assms(3) [of "p @ [f]" xs h]
    by (subst DecodeMmsHeader.simps) (simp add: on_buf_def mb_simps)
qed

lemmas field_lookups = header_field_def memberFuncMap_def InitOctetHandleFun_def InitLongHandleFun_def InitStringHandleFun_def
  InitTextStringHandleFun_def octet_fields_def string_fields_def text_fields_def

lemma names_found:
  "FindHeaderFieldName MMS_MESSAGE_TYPE \<noteq> None" "FindHeaderFieldName MMS_MESSAGE_CLASS \<noteq> None" "FindHeaderFieldName MMS_PRIORITY \<noteq> None"
  "FindHeaderFieldName MMS_SENDER_VISIBILITY \<noteq> None" "FindHeaderFieldName MMS_DELIVERY_REPORT \<noteq> None" "FindHeaderFieldName MMS_READ_REPORT \<noteq> None"
  "FindHeaderFieldName MMS_MMS_VERSION \<noteq> None" "FindHeaderFieldName MMS_DATE \<noteq> None" "FindHeaderFieldName MMS_EXPIRY \<noteq> None"
  "FindHeaderFieldName MMS_TRANSACTION_ID \<noteq> None" "FindHeaderFieldName MMS_SUBJECT \<noteq> None" "FindHeaderFieldName MMS_FROM \<noteq> None"
  "FindHeaderFieldName MMS_BCC \<noteq> None" "FindHeaderFieldName MMS_CC \<noteq> None" "FindHeaderFieldName MMS_TO \<noteq> None"
  "FindHeaderFieldName MMS_CONTENT_TYPE \<noteq> None"
  by (simp_all add: FindHeaderFieldName_def mmsHeaderNames_def)

lemma named_found: "FindHeaderFieldName f \<noteq> None \<Longrightarrow> named f m = m"
  by (auto simp: named_def)

lemmas named_simps = names_found [THEN named_found]

definition send_octets :: "u8 list" where
  "send_octets = [MMS_MESSAGE_CLASS, MMS_PRIORITY, MMS_SENDER_VISIBILITY, MMS_DELIVERY_REPORT, MMS_READ_REPORT]"

lemma reads_octet: "f \<in> set send_octets \<Longrightarrow> reads env [f, v] (put_octet f v)"
proof (rule reads_field [of f env "[v]", simplified])
  assume f: "f \<in> set send_octets"
  then show "f OR 0x80 = f" "f \<noteq> MMS_CONTENT_TYPE" by (auto simp: send_octets_def)
  fix p xs h
  show "header_field env f (mb p (v # xs), h) = Ok () (mb (p @ [v]) xs, put_octet f v h)"
    using f by (auto simp: send_octets_def field_lookups DecodeFieldOctetValue_def named_simps op_simps mb_simps)
qed

lemma reads_message_type: "reads env [MMS_MESSAGE_TYPE, MMS_MSGTYPE_SEND_REQ] (put_octet MMS_MESSAGE_TYPE MMS_MSGTYPE_SEND_REQ)"
  by (rule reads_field [of MMS_MESSAGE_TYPE env "[MMS_MSGTYPE_SEND_REQ]", simplified])
    (simp_all add: field_lookups DecodeMmsMsgType_def named_simps op_simps mb_simps)

lemma reads_date: "reads env (MMS_DATE # long_integer_octets v) (put_long MMS_DATE v)"
  by (rule reads_field)
    (simp_all add: field_lookups DecodeFieldLongValue_def named_simps op_simps long_integer.dec_octets)

lemma reads_transaction_id: "plain s \<Longrightarrow> reads env (MMS_TRANSACTION_ID # s @ [0]) (put_text MMS_TRANSACTION_ID s)"
  by (rule reads_field)
    (simp_all add: field_lookups DecodeFieldTextStringValue_def named_simps op_simps DecodeText_plain)

lemma reads_subject:
  assumes "good_encode_string e" "length (encode_string_octets e) < MMS_PDU_MAX_SIZE"
  shows "reads env (MMS_SUBJECT # encode_string_octets e) (put_string MMS_SUBJECT e)"
  by (rule reads_field)
    (simp_all add: field_lookups DecodeFieldEncodedStringValue_def named_simps op_simps DecodeEncodeString_octets [OF assms])

text \<open>Versions are short integers.\<close>

lemma reads_version:
  assumes "v \<le> (127 :: u32)"
  shows "reads env [MMS_MMS_VERSION, ucast v OR 0x80] (put_long MMS_MMS_VERSION (ucast v))"
proof (rule reads_field [of MMS_MMS_VERSION env "[ucast v OR 0x80]", simplified])
  fix p xs h
  from integer.dec_octets [of p v xs] assms
  show "header_field env MMS_MMS_VERSION (mb p ((ucast v OR 0x80) # xs), h) =
      Ok () (mb (p @ [ucast v OR 0x80]) xs, put_long MMS_MMS_VERSION (ucast v) h)"
    by (simp add: field_lookups DecodeFieldIntegerValue_def named_simps op_simps integer_octets_def)
qed

text \<open>The time of expiry is written as a relative one, and read by adding the time of the day.\<close>

definition expiry_body :: "u64 \<Rightarrow> bytes" where
  "expiry_body v = 129 # long_integer_octets v"

lemma reads_expiry:
  "reads env (MMS_EXPIRY # value_length_octets (word_of_nat (length (expiry_body v))) @ expiry_body v) (put_long MMS_EXPIRY (v + mms_now env))"
proof (rule reads_field)
  fix p xs h
  let ?n = "word_of_nat (length (expiry_body v)) :: u32"
  show "header_field env MMS_EXPIRY (mb p ((value_length_octets ?n @ expiry_body v) @ xs), h) =
      Ok () (mb (p @ value_length_octets ?n @ expiry_body v) xs, put_long MMS_EXPIRY (v + mms_now env) h)"
    using long_integer.dec_octets [of "p @ value_length_octets ?n @ [129]" v xs]
    by (simp add: field_lookups DecodeFieldDate_def named_simps op_simps value_length.dec_octets expiry_body_def mb_simps)
qed simp_all

subsection \<open>Addresses\<close>

text \<open>Strings in UTF-8 are handed through by the conversion of the service.\<close>

definition utf8_kept :: "mms_env \<Rightarrow> bool" where
  "utf8_kept env \<longleftrightarrow> (\<forall>len s. encode_string_func env CHARSET_UTF8 len s = (True, s))"

definition good_address :: "MmsAddress \<Rightarrow> bool" where
  "good_address a \<longleftrightarrow> plain (addressString a) \<and> a = MmsAddress_of (addressString a) \<and>
     length (encode_string_octets (SetAddressString a)) < MMS_PDU_MAX_SIZE"

lemma good_address_string:
  assumes "good_address a"
  shows "good_encode_string (SetAddressString a)" "utf8_kept env \<Longrightarrow> GetEncodeString env (SetAddressString a) = (True, addressString a)"
proof -
  have "addressCharset a = CHARSET_UTF8" using assms by (metis MmsAddress.select_convs(2) MmsAddress_of_def SetMmsAddressString_def good_address_def)
  then have e: "SetAddressString a = \<lparr>es_charset = CHARSET_UTF8, es_valLength = word_of_nat (length (addressString a)), strEncodeString = addressString a\<rparr>"
    by (simp add: SetAddressString_def SetEncodeString_def CHARSET_UTF8_def)
  have "plain (addressString a)" using assms by (simp add: good_address_def)
  then show "good_encode_string (SetAddressString a)" by (simp add: good_encode_string_def e good_charset_def CHARSET_UTF8_def)
  show "utf8_kept env \<Longrightarrow> GetEncodeString env (SetAddressString a) = (True, addressString a)"
    by (simp add: GetEncodeString_def e utf8_kept_def)
qed

definition append_header_address :: "u8 \<Rightarrow> MmsAddress \<Rightarrow> MmsHeader \<Rightarrow> MmsHeader" where
  "append_header_address f a h = put_addresses f (case addressMap h f of None \<Rightarrow> [a] | Some as \<Rightarrow> as @ [a]) h"

lemma reads_address:
  assumes f: "f \<in> {MMS_BCC, MMS_CC, MMS_TO}" and a: "good_address a" and env: "utf8_kept env"
  shows "reads env (f # encode_string_octets (SetAddressString a)) (append_header_address f a)"
proof (rule reads_field)
  show "f OR 0x80 = f" "f \<noteq> MMS_CONTENT_TYPE" using f by auto
  fix p xs h
  note s = good_address_string [OF a] good_address_string(2) [OF a env]
  have "length (encode_string_octets (SetAddressString a)) < MMS_PDU_MAX_SIZE" "MmsAddress_of (addressString a) = a"
    using a by (simp_all add: good_address_def)
  with f s DecodeEncodeString_octets [of "SetAddressString a" p xs]
  show "header_field env f (mb p (encode_string_octets (SetAddressString a) @ xs), h) =
      Ok () (mb (p @ encode_string_octets (SetAddressString a)) xs, append_header_address f a h)"
    by (auto simp: field_lookups DecodeFieldAddressModelValue_def named_simps op_simps append_header_address_def)
qed

definition from_body :: "MmsAddress \<Rightarrow> bytes" where
  "from_body a = 128 # encode_string_octets (SetAddressString a)"

lemma reads_from:
  assumes a: "good_address a" and env: "utf8_kept env"
  shows "reads env (MMS_FROM # value_length_octets (word_of_nat (length (from_body a))) @ from_body a)
    (\<lambda>h. h\<lparr>addressMap := map_insert MMS_FROM [a] (addressMap h)\<rparr>)"
proof (rule reads_field)
  fix p xs h
  let ?n = "word_of_nat (length (from_body a)) :: u32"
  note s = good_address_string(1) [OF a] good_address_string(2) [OF a env]
  have "length (encode_string_octets (SetAddressString a)) < MMS_PDU_MAX_SIZE" "MmsAddress_of (addressString a) = a" "addressString a \<noteq> []"
    using a by (auto simp: good_address_def plain_def)
  with s DecodeEncodeString_octets [of "SetAddressString a" "p @ value_length_octets ?n @ [128]" xs]
  show "header_field env MMS_FROM (mb p ((value_length_octets ?n @ from_body a) @ xs), h) =
      Ok () (mb (p @ value_length_octets ?n @ from_body a) xs, h\<lparr>addressMap := map_insert MMS_FROM [a] (addressMap h)\<rparr>)"
    by (simp add: field_lookups DecodeFromValue_def emplace_from_def named_simps op_simps value_length.dec_octets from_body_def mb_simps)
qed simp_all

section \<open>The header of a request to send\<close>

definition octet_piece :: "MmsHeader \<Rightarrow> u8 \<Rightarrow> bytes" where
  "octet_piece h f = (case octetValueMap h f of None \<Rightarrow> [] | Some v \<Rightarrow> [f, v])"

definition octet_upd :: "MmsHeader \<Rightarrow> u8 \<Rightarrow> MmsHeader \<Rightarrow> MmsHeader" where
  "octet_upd h f = (case octetValueMap h f of None \<Rightarrow> (\<lambda>g. g) | Some v \<Rightarrow> put_octet f v)"

definition date_piece :: "MmsHeader \<Rightarrow> bytes" where
  "date_piece h = (case longValueMap h MMS_DATE of None \<Rightarrow> [] | Some v \<Rightarrow> MMS_DATE # long_integer_octets v)"

definition date_upd :: "MmsHeader \<Rightarrow> MmsHeader \<Rightarrow> MmsHeader" where
  "date_upd h = (case longValueMap h MMS_DATE of None \<Rightarrow> (\<lambda>g. g) | Some v \<Rightarrow> put_long MMS_DATE v)"

definition expiry_piece :: "MmsHeader \<Rightarrow> bytes" where
  "expiry_piece h = (case longValueMap h MMS_EXPIRY of
     None \<Rightarrow> [] | Some v \<Rightarrow> MMS_EXPIRY # value_length_octets (word_of_nat (length (expiry_body v))) @ expiry_body v)"

definition expiry_upd :: "mms_env \<Rightarrow> MmsHeader \<Rightarrow> MmsHeader \<Rightarrow> MmsHeader" where
  "expiry_upd env h = (case longValueMap h MMS_EXPIRY of None \<Rightarrow> (\<lambda>g. g) | Some v \<Rightarrow> put_long MMS_EXPIRY (v + mms_now env))"

definition subject_piece :: "MmsHeader \<Rightarrow> bytes" where
  "subject_piece h = (case encodeStringsMap h MMS_SUBJECT of None \<Rightarrow> [] | Some e \<Rightarrow> MMS_SUBJECT # encode_string_octets e)"

definition subject_upd :: "MmsHeader \<Rightarrow> MmsHeader \<Rightarrow> MmsHeader" where
  "subject_upd h = (case encodeStringsMap h MMS_SUBJECT of None \<Rightarrow> (\<lambda>g. g) | Some e \<Rightarrow> put_string MMS_SUBJECT e)"

definition from_piece :: "MmsHeader \<Rightarrow> bytes" where
  "from_piece h = (case addressMap h MMS_FROM of
     None \<Rightarrow> [] | Some as \<Rightarrow> MMS_FROM # value_length_octets (word_of_nat (length (from_body (hd as)))) @ from_body (hd as))"

definition from_upd :: "MmsHeader \<Rightarrow> MmsHeader \<Rightarrow> MmsHeader" where
  "from_upd h = (case addressMap h MMS_FROM of
     None \<Rightarrow> (\<lambda>g. g) | Some as \<Rightarrow> (\<lambda>g. g\<lparr>addressMap := map_insert MMS_FROM [hd as] (addressMap g)\<rparr>))"

text \<open>The other addresses, in the order of the codes of their fields.\<close>

definition addr_piece :: "MmsHeader \<Rightarrow> u8 \<Rightarrow> bytes" where
  "addr_piece h f = (case addressMap h f of
     None \<Rightarrow> [] | Some as \<Rightarrow> concat (map (\<lambda>a. f # encode_string_octets (SetAddressString a)) as))"

definition addr_upd :: "MmsHeader \<Rightarrow> u8 \<Rightarrow> MmsHeader \<Rightarrow> MmsHeader" where
  "addr_upd h f = (case addressMap h f of None \<Rightarrow> (\<lambda>g. g) | Some as \<Rightarrow> fold (append_header_address f) as)"

definition all_fields :: "u8 list" where
  "all_fields = map word_of_nat [0..<256]"

text \<open>The headers that survive: those with the fields a request can have, texts that are plain and addresses in UTF-8.\<close>

definition good_send_req :: "MmsHeader \<Rightarrow> bool" where
  "good_send_req h \<longleftrightarrow>
     octetValueMap h MMS_MESSAGE_TYPE = Some MMS_MSGTYPE_SEND_REQ \<and> dom (octetValueMap h) \<subseteq> insert MMS_MESSAGE_TYPE (set send_octets) \<and>
     (\<exists>v \<in> {0x10, 0x11, 0x12, 0x13}. longValueMap h MMS_MMS_VERSION = Some v) \<and> dom (longValueMap h) \<subseteq> {MMS_MMS_VERSION, MMS_EXPIRY, MMS_DATE} \<and>
     (\<exists>t. plain t \<and> textValueMap h = [MMS_TRANSACTION_ID \<mapsto> t]) \<and>
     dom (encodeStringsMap h) \<subseteq> {MMS_SUBJECT} \<and>
     (\<forall>e. encodeStringsMap h MMS_SUBJECT = Some e \<longrightarrow> good_encode_string e \<and> es_charset e = CHARSET_UTF8) \<and>
     dom (addressMap h) \<subseteq> {MMS_FROM, MMS_BCC, MMS_CC, MMS_TO} \<and>
     (\<forall>as. addressMap h MMS_FROM = Some as \<longrightarrow> (\<exists>a. as = [a])) \<and>
     (\<forall>f as. addressMap h f = Some as \<longrightarrow> as \<noteq> [] \<and> (\<forall>a \<in> set as. good_address a))"

lemma good_send_req_doms:
  assumes "good_send_req h"
  shows "dom (octetValueMap h) \<subseteq> insert MMS_MESSAGE_TYPE (set send_octets)" "dom (longValueMap h) \<subseteq> {MMS_MMS_VERSION, MMS_EXPIRY, MMS_DATE}"
    "dom (encodeStringsMap h) \<subseteq> {MMS_SUBJECT}" "dom (addressMap h) \<subseteq> {MMS_FROM, MMS_BCC, MMS_CC, MMS_TO}"
  using assms unfolding good_send_req_def by - (elim conjE, assumption)+

lemma good_send_reqE:
  assumes "good_send_req h"
  obtains v t where "v \<in> {0x10, 0x11, 0x12, 0x13}" "longValueMap h MMS_MMS_VERSION = Some v" "plain t" "textValueMap h = [MMS_TRANSACTION_ID \<mapsto> t]"
    "octetValueMap h MMS_MESSAGE_TYPE = Some MMS_MSGTYPE_SEND_REQ"
  using assms unfolding good_send_req_def by - (elim conjE bexE exE, rule that)

lemma outside_dom: "dom m \<subseteq> A \<Longrightarrow> k \<notin> A \<Longrightarrow> m k = None"
  by blast

definition no_from :: "MmsHeader \<Rightarrow> MmsHeader" where
  "no_from h = h\<lparr>addressMap := (addressMap h)(MMS_FROM := None)\<rparr>"

definition common_octets :: "MmsHeader \<Rightarrow> bytes" where
  "common_octets h = [MMS_MESSAGE_TYPE, MMS_MSGTYPE_SEND_REQ] @ (MMS_TRANSACTION_ID # the (textValueMap h MMS_TRANSACTION_ID) @ [0]) @
     [MMS_MMS_VERSION, ucast (the (longValueMap h MMS_MMS_VERSION)) OR 0x80]"

definition send_req_octets :: "MmsHeader \<Rightarrow> bytes" where
  "send_req_octets h = from_piece h @ expiry_piece h @ concat (map (addr_piece (no_from h)) all_fields) @ octet_piece h MMS_MESSAGE_CLASS @
     date_piece h @ subject_piece h @ octet_piece h MMS_PRIORITY @ octet_piece h MMS_SENDER_VISIBILITY @ octet_piece h MMS_DELIVERY_REPORT @
     octet_piece h MMS_READ_REPORT"

subsection \<open>Reading it\<close>

lemma reads_octet_piece: "f \<in> set send_octets \<Longrightarrow> reads env (octet_piece h f) (octet_upd h f)"
  by (cases "octetValueMap h f") (simp_all add: octet_piece_def octet_upd_def reads_nil reads_octet)

lemma reads_date_piece: "reads env (date_piece h) (date_upd h)"
  by (cases "longValueMap h MMS_DATE") (simp_all add: date_piece_def date_upd_def reads_nil reads_date)

lemma reads_expiry_piece: "reads env (expiry_piece h) (expiry_upd env h)"
  by (cases "longValueMap h MMS_EXPIRY") (simp_all add: expiry_piece_def expiry_upd_def reads_nil reads_expiry)

lemma reads_subject_piece:
  assumes "good_send_req h" "length (subject_piece h) < MMS_PDU_MAX_SIZE"
  shows "reads env (subject_piece h) (subject_upd h)"
proof (cases "encodeStringsMap h MMS_SUBJECT")
  case (Some e)
  with assms reads_subject [of e env] show ?thesis by (simp add: subject_piece_def subject_upd_def good_send_req_def)
qed (simp add: subject_piece_def subject_upd_def reads_nil)

lemma reads_from_piece:
  assumes "good_send_req h" "utf8_kept env"
  shows "reads env (from_piece h) (from_upd h)"
proof (cases "addressMap h MMS_FROM")
  case (Some as)
  then have "good_address (hd as)" using assms(1) unfolding good_send_req_def by (metis hd_in_set)
  from reads_from [OF this assms(2)] Some show ?thesis by (simp add: from_piece_def from_upd_def)
qed (simp add: from_piece_def from_upd_def reads_nil)

lemma reads_addr_piece:
  assumes "good_send_req h" "utf8_kept env"
  shows "reads env (addr_piece (no_from h) f) (addr_upd (no_from h) f)"
proof (cases "addressMap (no_from h) f")
  case (Some as)
  then have as: "addressMap h f = Some as" "f \<noteq> MMS_FROM" by (auto simp: no_from_def split: if_splits)
  with outside_dom [OF good_send_req_doms(4) [OF assms(1)], of f] have f: "f \<in> {MMS_BCC, MMS_CC, MMS_TO}" by auto
  have "good_address a" if "a \<in> set as" for a using assms(1) as that unfolding good_send_req_def by metis
  from reads_concat [of as env "\<lambda>a. f # encode_string_octets (SetAddressString a)" "append_header_address f"] reads_address [OF f this assms(2)] Some
  show ?thesis by (simp add: addr_piece_def addr_upd_def)
qed (simp add: addr_piece_def addr_upd_def reads_nil)

lemma reads_common:
  assumes "good_send_req h"
  shows "reads env (common_octets h) (\<lambda>g. put_long MMS_MMS_VERSION (the (longValueMap h MMS_MMS_VERSION))
    (put_text MMS_TRANSACTION_ID (the (textValueMap h MMS_TRANSACTION_ID)) (put_octet MMS_MESSAGE_TYPE MMS_MSGTYPE_SEND_REQ g)))"
proof -
  from assms obtain v t where v: "v \<in> {0x10, 0x11, 0x12, 0x13}" "longValueMap h MMS_MMS_VERSION = Some v"
    and t: "plain t" "textValueMap h = [MMS_TRANSACTION_ID \<mapsto> t]" by (rule good_send_reqE)
  have "reads env [MMS_MMS_VERSION, ucast v OR 0x80] (put_long MMS_MMS_VERSION v)"
    using v(1) reads_version [of "0x10" env] reads_version [of "0x11" env] reads_version [of "0x12" env] reads_version [of "0x13" env] by auto
  from reads_append [OF reads_message_type reads_append [OF reads_transaction_id [OF t(1)] this]] v(2) t(2)
  show ?thesis by (simp add: common_octets_def)
qed

definition send_req_upd :: "mms_env \<Rightarrow> MmsHeader \<Rightarrow> MmsHeader \<Rightarrow> MmsHeader" where
  "send_req_upd env h = (\<lambda>g.
     octet_upd h MMS_READ_REPORT (octet_upd h MMS_DELIVERY_REPORT (octet_upd h MMS_SENDER_VISIBILITY (octet_upd h MMS_PRIORITY (
     subject_upd h (date_upd h (octet_upd h MMS_MESSAGE_CLASS (fold (addr_upd (no_from h)) all_fields (expiry_upd env h (from_upd h g))))))))))"

lemma reads_send_req:
  assumes "good_send_req h" "utf8_kept env" "length (send_req_octets h) < MMS_PDU_MAX_SIZE"
  shows "reads env (send_req_octets h) (send_req_upd env h)"
proof -
  have s: "length (subject_piece h) < MMS_PDU_MAX_SIZE" using assms(3) by (simp add: send_req_octets_def)
  have o: "reads env (octet_piece h f) (octet_upd h f)" if "f \<in> set send_octets" for f by (rule reads_octet_piece [OF that])
  have c: "reads env (concat (map (addr_piece (no_from h)) all_fields)) (fold (addr_upd (no_from h)) all_fields)"
    by (rule reads_concat) (rule reads_addr_piece [OF assms(1, 2)])
  note r = reads_append [OF reads_from_piece [OF assms(1, 2)] reads_append [OF reads_expiry_piece [of env h] reads_append [OF c
      reads_append [OF o reads_append [OF reads_date_piece [of env h] reads_append [OF reads_subject_piece [OF assms(1) s]
      reads_append [OF o reads_append [OF o reads_append [OF o o]]]]]]]]]
  from r [of MMS_MESSAGE_CLASS MMS_PRIORITY MMS_SENDER_VISIBILITY MMS_DELIVERY_REPORT MMS_READ_REPORT]
  show ?thesis by (simp add: send_req_octets_def send_req_upd_def send_octets_def)
qed

text \<open>What is decoded: the header, with the time of expiry moved.\<close>

definition received :: "mms_env \<Rightarrow> MmsHeader \<Rightarrow> MmsHeader" where
  "received env h = h\<lparr>longValueMap := (longValueMap h)(MMS_EXPIRY := map_option (\<lambda>v. v + mms_now env) (longValueMap h MMS_EXPIRY)),
     mmsContentType := new_content_type\<rparr>"

lemma octet_upd_maps:
  "octetValueMap (octet_upd h f g) = (octetValueMap g)(f := (case octetValueMap h f of None \<Rightarrow> octetValueMap g f | Some v \<Rightarrow> Some v))"
  "longValueMap (octet_upd h f g) = longValueMap g" "textValueMap (octet_upd h f g) = textValueMap g"
  "encodeStringsMap (octet_upd h f g) = encodeStringsMap g" "addressMap (octet_upd h f g) = addressMap g"
  "mmsContentType (octet_upd h f g) = mmsContentType g"
  by (cases "octetValueMap h f"; simp add: octet_upd_def put_octet_def)+

lemma long_upd_maps:
  "octetValueMap (date_upd h g) = octetValueMap g" "octetValueMap (expiry_upd env h g) = octetValueMap g"
  "longValueMap (date_upd h g) = (longValueMap g)(MMS_DATE := (case longValueMap h MMS_DATE of None \<Rightarrow> longValueMap g MMS_DATE | Some v \<Rightarrow> Some v))"
  "longValueMap (expiry_upd env h g) =
     (longValueMap g)(MMS_EXPIRY := (case longValueMap h MMS_EXPIRY of None \<Rightarrow> longValueMap g MMS_EXPIRY | Some v \<Rightarrow> Some (v + mms_now env)))"
  "textValueMap (date_upd h g) = textValueMap g" "textValueMap (expiry_upd env h g) = textValueMap g"
  "encodeStringsMap (date_upd h g) = encodeStringsMap g" "encodeStringsMap (expiry_upd env h g) = encodeStringsMap g"
  "addressMap (date_upd h g) = addressMap g" "addressMap (expiry_upd env h g) = addressMap g"
  "mmsContentType (date_upd h g) = mmsContentType g" "mmsContentType (expiry_upd env h g) = mmsContentType g"
  by (cases "longValueMap h MMS_DATE"; cases "longValueMap h MMS_EXPIRY"; simp add: date_upd_def expiry_upd_def put_long_def)+

lemma subject_upd_maps:
  "octetValueMap (subject_upd h g) = octetValueMap g" "longValueMap (subject_upd h g) = longValueMap g" "textValueMap (subject_upd h g) = textValueMap g"
  "encodeStringsMap (subject_upd h g) =
     (encodeStringsMap g)(MMS_SUBJECT := (case encodeStringsMap h MMS_SUBJECT of None \<Rightarrow> encodeStringsMap g MMS_SUBJECT | Some v \<Rightarrow> Some v))"
  "addressMap (subject_upd h g) = addressMap g" "mmsContentType (subject_upd h g) = mmsContentType g"
  by (cases "encodeStringsMap h MMS_SUBJECT"; simp add: subject_upd_def put_string_def)+

lemma from_upd_maps:
  "octetValueMap (from_upd h g) = octetValueMap g" "longValueMap (from_upd h g) = longValueMap g" "textValueMap (from_upd h g) = textValueMap g"
  "encodeStringsMap (from_upd h g) = encodeStringsMap g" "mmsContentType (from_upd h g) = mmsContentType g"
  by (cases "addressMap h MMS_FROM"; simp add: from_upd_def)+

lemma append_header_address_maps:
  "octetValueMap (fold (append_header_address f) as g) = octetValueMap g" "longValueMap (fold (append_header_address f) as g) = longValueMap g"
  "textValueMap (fold (append_header_address f) as g) = textValueMap g" "encodeStringsMap (fold (append_header_address f) as g) = encodeStringsMap g"
  "mmsContentType (fold (append_header_address f) as g) = mmsContentType g"
  by (induction as arbitrary: g; simp add: append_header_address_def put_addresses_def)+

lemma append_header_address_map: "addressMap (append_header_address f a g) = (addressMap g)(f \<mapsto> (case addressMap g f of None \<Rightarrow> [a] | Some bs \<Rightarrow> bs @ [a]))"
  by (simp add: append_header_address_def put_addresses_def)

lemma append_addresses: "as \<noteq> [] \<Longrightarrow> addressMap (fold (append_header_address f) as g) =
    (addressMap g)(f \<mapsto> (case addressMap g f of None \<Rightarrow> as | Some bs \<Rightarrow> bs @ as))"
proof (induction as arbitrary: g)
  case (Cons a as)
  then show ?case by (cases "as = []") (auto simp: append_header_address_map fun_eq_iff split: option.splits)
qed simp

lemma addr_upd_maps:
  "octetValueMap (fold (addr_upd h) fs g) = octetValueMap g" "longValueMap (fold (addr_upd h) fs g) = longValueMap g"
  "textValueMap (fold (addr_upd h) fs g) = textValueMap g" "encodeStringsMap (fold (addr_upd h) fs g) = encodeStringsMap g"
  "mmsContentType (fold (addr_upd h) fs g) = mmsContentType g"
  by (induction fs arbitrary: g; simp add: addr_upd_def append_header_address_maps split: option.splits)+

lemma addr_upd_addresses:
  assumes "distinct fs" "\<forall>f \<in> set fs. addressMap g f = None \<or> addressMap h f = None" "\<forall>f as. addressMap h f = Some as \<longrightarrow> as \<noteq> []"
  shows "addressMap (fold (addr_upd h) fs g) f = (if f \<in> set fs \<and> addressMap h f \<noteq> None then addressMap h f else addressMap g f)"
  using assms(1, 2)
proof (induction fs arbitrary: g)
  case (Cons k fs)
  show ?case
  proof (cases "addressMap h k")
    case None
    with Cons.IH [of g] Cons.prems show ?thesis by (auto simp: addr_upd_def)
  next
    case (Some as)
    with Cons.prems assms(3) have m: "addressMap (addr_upd h k g) = (addressMap g)(k \<mapsto> as)" by (auto simp: addr_upd_def append_addresses)
    with Cons.prems have "\<forall>f \<in> set fs. addressMap (addr_upd h k g) f = None \<or> addressMap h f = None" by auto
    from Cons.IH [OF _ this] m Cons.prems(1) Some show ?thesis by auto
  qed
qed simp

lemma all_fields: "distinct all_fields" "f \<in> set all_fields"
proof -
  have "inj_on (word_of_nat :: nat \<Rightarrow> u8) (set [0..<256])" by (rule inj_onI) (auto simp: word_of_nat_eq_iff take_bit_eq_mod)
  then show "distinct all_fields" by (simp add: all_fields_def distinct_map)
  have "unat f < 2 ^ LENGTH(8)" by (rule unsigned_less)
  then have "unat f \<in> set [0..<256]" by simp
  then have "word_of_nat (unat f) \<in> set all_fields" unfolding all_fields_def by (simp only: set_map image_eqI)
  then show "f \<in> set all_fields" by simp
qed

lemma send_req_addresses:
  assumes h: "good_send_req h" and g: "addressMap g = Map.empty"
  shows "addressMap (fold (addr_upd (no_from h)) all_fields (from_upd h g)) = addressMap h"
proof
  fix f
  have from_none: "addressMap (from_upd h g) f = (if f = MMS_FROM then addressMap h MMS_FROM else None)" for f
    using g h by (cases "addressMap h MMS_FROM") (auto simp: from_upd_def map_insert_def good_send_req_def)
  then have "\<forall>f \<in> set all_fields. addressMap (from_upd h g) f = None \<or> addressMap (no_from h) f = None" by (simp add: no_from_def)
  moreover have "\<forall>f as. addressMap (no_from h) f = Some as \<longrightarrow> as \<noteq> []" using h by (auto simp: no_from_def good_send_req_def)
  ultimately have "addressMap (fold (addr_upd (no_from h)) all_fields (from_upd h g)) f =
      (if f \<in> set all_fields \<and> addressMap (no_from h) f \<noteq> None then addressMap (no_from h) f else addressMap (from_upd h g) f)"
    by (intro addr_upd_addresses all_fields)
  with all_fields(2) [of f] from_none [of f] show "addressMap (fold (addr_upd (no_from h)) all_fields (from_upd h g)) f = addressMap h f"
    by (auto simp: no_from_def)
qed

lemma expiry_address: "fold (addr_upd h) fs (expiry_upd env k g) = expiry_upd env k (fold (addr_upd h) fs g)"
proof -
  have "append_header_address k a (put_long f v g) = put_long f v (append_header_address k a g)" for f v k a g
    by (simp add: put_long_def append_header_address_def put_addresses_def)
  then have "fold (append_header_address k) as (put_long f v g) = put_long f v (fold (append_header_address k) as g)" for f v k as g
    by (induction as arbitrary: g) simp_all
  then have "addr_upd h f (put_long k v g) = put_long k v (addr_upd h f g)" for f k v g
    by (cases "addressMap h f") (simp_all add: addr_upd_def)
  then have "fold (addr_upd h) fs (put_long k v g) = put_long k v (fold (addr_upd h) fs g)" for k v
    by (induction fs arbitrary: g) simp_all
  then show ?thesis by (cases "longValueMap k MMS_EXPIRY") (simp_all add: expiry_upd_def)
qed

lemma send_req_received:
  assumes "good_send_req h"
  shows "send_req_upd env h (put_long MMS_MMS_VERSION (the (longValueMap h MMS_MMS_VERSION))
    (put_text MMS_TRANSACTION_ID (the (textValueMap h MMS_TRANSACTION_ID)) (put_octet MMS_MESSAGE_TYPE MMS_MSGTYPE_SEND_REQ new_header))) =
    received env h"
    (is "?l = _")
proof (rule MmsHeader.equality)
  note maps = send_req_upd_def octet_upd_maps long_upd_maps subject_upd_maps from_upd_maps addr_upd_maps put_long_def put_text_def put_octet_def new_header_def
  note dom_octet = outside_dom [OF good_send_req_doms(1) [OF assms]] and dom_long = outside_dom [OF good_send_req_doms(2) [OF assms]]
  from assms obtain v t where v: "longValueMap h MMS_MMS_VERSION = Some v" and t: "textValueMap h = [MMS_TRANSACTION_ID \<mapsto> t]"
    and o: "octetValueMap h MMS_MESSAGE_TYPE = Some MMS_MSGTYPE_SEND_REQ" by (rule good_send_reqE)
  show "octetValueMap ?l = octetValueMap (received env h)"
  proof
    fix f
    show "octetValueMap ?l f = octetValueMap (received env h) f"
    proof (cases "f \<in> insert MMS_MESSAGE_TYPE (set send_octets)")
      case True
      then consider "f = MMS_MESSAGE_TYPE" | "f = MMS_MESSAGE_CLASS" | "f = MMS_PRIORITY" | "f = MMS_SENDER_VISIBILITY" | "f = MMS_DELIVERY_REPORT"
        | "f = MMS_READ_REPORT" by (auto simp: send_octets_def)
      then show ?thesis by cases (simp_all add: maps received_def o split: option.split)
    next
      case False
      then have "octetValueMap h f = None" by (rule dom_octet)
      with False show ?thesis by (simp add: maps received_def send_octets_def)
    qed
  qed
  show "longValueMap ?l = longValueMap (received env h)"
  proof
    fix f
    show "longValueMap ?l f = longValueMap (received env h) f"
      using v dom_long [of f] by (auto simp: maps received_def split: option.splits)
  qed
  show "textValueMap ?l = textValueMap (received env h)" using t by (simp add: maps received_def)
  show "encodeStringsMap ?l = encodeStringsMap (received env h)"
  proof
    fix f
    show "encodeStringsMap ?l f = encodeStringsMap (received env h) f"
      using outside_dom [OF good_send_req_doms(3) [OF assms], of f] by (auto simp: maps received_def split: option.splits)
  qed
  show "addressMap ?l = addressMap (received env h)"
    by (simp add: maps received_def expiry_address send_req_addresses [OF assms])
  show "mmsContentType ?l = mmsContentType (received env h)" by (simp add: maps received_def)
qed simp

subsection \<open>Writing it\<close>

lemma writes_long: "writes (EncodeLongInteger v) (long_integer_octets v)"
  by (simp add: writes_def long_integer.enc_octets)

lemma writes_text: "plain s \<Longrightarrow> writes (EncodeText sc s) (s @ [0])"
  by (simp add: writes_def EncodeText_plain)

lemma writes_string:
  "good_encode_string e \<Longrightarrow> writes (EncodeEncodeString env e) (encode_string_octets e)"
  by (simp add: writes_def EncodeEncodeString_octets)

lemma writes_with_length:
  assumes "writes m w" "w \<noteq> []"
  shows "writes (with_length m) (value_length_octets (word_of_nat (length w)) @ w)"
  unfolding writes_def
proof (intro allI impI)
  fix b :: bytes
  assume room: "length b + length (value_length_octets (word_of_nat (length w)) @ w) < MMS_PDU_MAX_SIZE"
  then have "m [] = Ok () w" using assms(1) by (simp add: writes_def)
  from with_length_octets [of m w b, OF this assms(2)] room show "with_length m b = Ok () (b @ value_length_octets (word_of_nat (length w)) @ w)" by simp
qed

lemma writes_octet_piece: "writes (ignore (EncodeOctetValueFromMap f h)) (octet_piece h f)"
  using writes_ignore [OF writes_seq [OF writes_byte [of f] writes_byte]] writes_ignore_fail
  by (cases "octetValueMap h f") (simp_all add: EncodeOctetValueFromMap_def GetOctetValue_def octet_piece_def EncodeOctetValue_def)

lemma writes_date_piece: "writes (ignore (EncodeLongIntergerValueFromMap MMS_DATE h)) (date_piece h)"
  using writes_ignore [OF writes_seq [OF writes_byte [of MMS_DATE] writes_long]] writes_ignore_fail
  by (cases "longValueMap h MMS_DATE")
    (simp_all add: EncodeLongIntergerValueFromMap_def GetLongValue_def date_piece_def EncodeLongIntergerValue_def)

lemma writes_expiry_piece:
  "writes (case GetLongValue MMS_EXPIRY h of None \<Rightarrow> ret () | Some v \<Rightarrow> ignore (EncodeFieldExpriyValue v)) (expiry_piece h)"
proof (cases "longValueMap h MMS_EXPIRY")
  case (Some v)
  have "writes (seq (EncodeOctet 129) (EncodeLongInteger v)) (expiry_body v)"
    using writes_seq [OF writes_byte [of 129] writes_long [of v]] by (simp add: EncodeOctet_def expiry_body_def)
  then have "writes (with_length (seq (EncodeOctet 129) (EncodeLongInteger v))) (value_length_octets (word_of_nat (length (expiry_body v))) @ expiry_body v)"
    by (rule writes_with_length) (simp add: expiry_body_def)
  from writes_ignore [OF writes_seq [OF writes_byte [of MMS_EXPIRY] this]] Some show ?thesis
    by (simp add: GetLongValue_def EncodeFieldExpriyValue_def expiry_piece_def)
qed (simp add: GetLongValue_def expiry_piece_def writes_ret)

lemma writes_subject_piece:
  assumes "good_send_req h" "utf8_kept env"
  shows "writes (ignore (EnocdeEncodeStringValueFromMap env MMS_SUBJECT h)) (subject_piece h)"
proof (cases "encodeStringsMap h MMS_SUBJECT")
  case (Some e)
  with assms(1) have e: "good_encode_string e" "es_charset e = CHARSET_UTF8" by (auto simp: good_send_req_def)
  then have "GetEncodeString env e = (True, strEncodeString e)" "strEncodeString e \<noteq> []"
    using assms(2) by (auto simp: GetEncodeString_def utf8_kept_def good_encode_string_def plain_def)
  with writes_ignore [OF writes_seq [OF writes_byte [of MMS_SUBJECT] writes_string [OF e(1), of env]]] Some show ?thesis
    by (simp add: EnocdeEncodeStringValueFromMap_def GetEncodeStringValue_def EncodeEncodeStringValue_def subject_piece_def)
qed (simp add: EnocdeEncodeStringValueFromMap_def GetEncodeStringValue_def subject_piece_def writes_ignore_fail)

lemma writes_addresses:
  assumes "good_send_req h"
  shows "writes (EncodeAllAddresses env (no_from h)) (concat (map (addr_piece (no_from h)) all_fields))"
  unfolding EncodeAllAddresses_def all_fields_def [symmetric]
proof (rule writes_each)
  fix f
  show "writes (case addressMap (no_from h) f of None \<Rightarrow> ret () | Some as \<Rightarrow> ignore (EncodeMultipleAddressValue env f as)) (addr_piece (no_from h) f)"
  proof (cases "addressMap (no_from h) f")
    case (Some as)
    then have as: "as \<noteq> []" "\<forall>a \<in> set as. good_address a" using assms by (auto simp: no_from_def good_send_req_def split: if_splits)
    have "writes (each (\<lambda>addr. seq (MmsWriteByte f) (EncodeEncodeString env (SetAddressString addr))) as)
        (concat (map (\<lambda>a. f # encode_string_octets (SetAddressString a)) as))"
      using as(2) writes_seq [OF writes_byte [of f] writes_string [OF good_address_string(1)]] by (intro writes_each) simp
    then show ?thesis using Some as(1) by (simp add: EncodeMultipleAddressValue_def addr_piece_def writes_ignore)
  qed (simp add: addr_piece_def writes_ret)
qed

text \<open>An encoder of the header that writes \<open>w\<close> and leaves the header \<open>h'\<close>.\<close>

definition hwrites :: "header_enc \<Rightarrow> bytes \<Rightarrow> MmsHeader \<Rightarrow> MmsHeader \<Rightarrow> bool" where
  "hwrites m w h h' \<longleftrightarrow> (\<forall>b. length b + length w < MMS_PDU_MAX_SIZE \<longrightarrow> m (b, h) = Ok () (b @ w, h'))"

lemma hwrites_seq: "hwrites m v h g \<Longrightarrow> hwrites k w g f \<Longrightarrow> hwrites (seq m k) (v @ w) h f"
  by (simp add: hwrites_def op_simps)

lemma hwrites_from_header: "writes (f h) w \<Longrightarrow> hwrites (from_header f) w h h"
  by (simp add: hwrites_def writes_def from_header_def op_simps)

lemma hwrites_from:
  assumes "good_send_req h"
  shows "hwrites (bnd get_out (\<lambda>h. EncodeFieldFromValue env (addresses_or_nil MMS_FROM h))) (from_piece h) h (no_from h)"
proof (cases "addressMap h MMS_FROM")
  case None
  then have "no_from h = h" by (cases h) (auto simp: no_from_def)
  with None show ?thesis by (simp add: hwrites_def EncodeFieldFromValue_def from_piece_def op_simps)
next
  case (Some as)
  then obtain a where a: "as = [a]" "good_address a" using assms by (fastforce simp: good_send_req_def)
  then have ne: "addressString a \<noteq> []" by (auto simp: good_address_def plain_def)
  have "writes (seq (MmsWriteByte 128) (EncodeEncodeString env (SetAddressString a))) (from_body a)"
    using writes_seq [OF writes_byte [of 128] writes_string [OF good_address_string(1) [OF a(2)]]] by (simp add: from_body_def)
  then have "writes (with_length (seq (MmsWriteByte 128) (EncodeEncodeString env (SetAddressString a))))
      (value_length_octets (word_of_nat (length (from_body a))) @ from_body a)"
    by (rule writes_with_length) (simp add: from_body_def)
  note w = this
  show ?thesis unfolding hwrites_def
  proof (intro allI impI)
    fix b :: bytes
    assume room: "length b + length (from_piece h) < MMS_PDU_MAX_SIZE"
    then have "with_length (seq (MmsWriteByte 128) (EncodeEncodeString env (SetAddressString a))) (b @ [MMS_FROM]) = Ok () (b @ from_piece h)"
      using w Some a(1) by (simp add: writes_def from_piece_def)
    moreover have "MmsWriteByte MMS_FROM b = Ok () (b @ [MMS_FROM])" using room by (simp add: MmsWriteByte_def)
    ultimately show "bnd get_out (\<lambda>h. EncodeFieldFromValue env (addresses_or_nil MMS_FROM h)) (b, h) = Ok () (b @ from_piece h, no_from h)"
      using ne Some a(1)
      by (simp add: EncodeFieldFromValue_def addresses_or_nil_def GetHeaderAllAddressValue_def no_from_def seq_def bnd_def get_out_def on_buf_def on_out_def)
  qed
qed

lemma no_from_pieces:
  "octet_piece (no_from h) f = octet_piece h f" "date_piece (no_from h) = date_piece h" "expiry_piece (no_from h) = expiry_piece h"
  "subject_piece (no_from h) = subject_piece h"
  by (simp_all add: octet_piece_def date_piece_def expiry_piece_def subject_piece_def no_from_def)

lemma hwrites_send_req:
  assumes "good_send_req h" "utf8_kept env"
  shows "hwrites (EncodeMmsSendReq env) (send_req_octets h) h (no_from h)"
proof -
  have text_none: "textValueMap h MMS_MESSAGE_CLASS = None" using assms(1) by (rule good_send_reqE) simp
  have oct: "hwrites (from_header (\<lambda>h. ignore (EncodeOctetValueFromMap f h))) (octet_piece h f) (no_from h) (no_from h)" for f
    using writes_octet_piece [of f "no_from h"] by (intro hwrites_from_header) (simp add: no_from_pieces)
  have cls: "hwrites (from_header (\<lambda>h. ignore (EcondeFieldMessageClassValue env h))) (octet_piece h MMS_MESSAGE_CLASS) (no_from h) (no_from h)"
  proof (rule hwrites_from_header)
    have "ignore (EcondeFieldMessageClassValue env (no_from h)) = ignore (EncodeOctetValueFromMap MMS_MESSAGE_CLASS (no_from h))"
      using text_none by (cases "octetValueMap h MMS_MESSAGE_CLASS")
        (simp_all add: EcondeFieldMessageClassValue_def EncodeOctetValueFromMap_def GetOctetValue_def GetTextValue_def no_from_def)
    then show "writes (ignore (EcondeFieldMessageClassValue env (no_from h))) (octet_piece h MMS_MESSAGE_CLASS)"
      using writes_octet_piece [of MMS_MESSAGE_CLASS "no_from h"] by (simp add: no_from_pieces)
  qed
  have txt_cls: "hwrites (from_header (\<lambda>h. ignore (EncodeTextStringValueFromMap env MMS_MESSAGE_CLASS h))) [] (no_from h) (no_from h)"
    using text_none by (intro hwrites_from_header) (simp add: EncodeTextStringValueFromMap_def GetTextValue_def no_from_def writes_ignore_fail)
  have subj: "hwrites (from_header (\<lambda>h. ignore (EnocdeEncodeStringValueFromMap env MMS_SUBJECT h))) (subject_piece h) (no_from h) (no_from h)"
    using writes_subject_piece [OF assms]
    by (intro hwrites_from_header) (simp add: EnocdeEncodeStringValueFromMap_def GetEncodeStringValue_def no_from_def)
  have date: "hwrites (from_header (\<lambda>h. ignore (EncodeLongIntergerValueFromMap MMS_DATE h))) (date_piece h) (no_from h) (no_from h)"
    using writes_date_piece [of "no_from h"] by (intro hwrites_from_header) (simp add: no_from_pieces)
  have expiry: "hwrites (from_header (\<lambda>h. case GetLongValue MMS_EXPIRY h of None \<Rightarrow> ret () | Some v \<Rightarrow> ignore (EncodeFieldExpriyValue v)))
      (expiry_piece h) (no_from h) (no_from h)"
    using writes_expiry_piece [of "no_from h"] by (intro hwrites_from_header) (simp add: no_from_pieces)
  have addrs: "hwrites (from_header (EncodeAllAddresses env)) (concat (map (addr_piece (no_from h)) all_fields)) (no_from h) (no_from h)"
    by (rule hwrites_from_header) (rule writes_addresses [OF assms(1)])
  from hwrites_seq [OF hwrites_from [OF assms(1)] hwrites_seq [OF expiry hwrites_seq [OF addrs hwrites_seq [OF cls hwrites_seq [OF date
      hwrites_seq [OF subj hwrites_seq [OF txt_cls hwrites_seq [OF oct hwrites_seq [OF oct hwrites_seq [OF oct oct]]]]]]]]]]
  show ?thesis unfolding EncodeMmsSendReq_def send_req_octets_def by simp
qed

lemma prepare_send_req: "good_send_req h \<Longrightarrow> prepare_header env MMS_MSGTYPE_SEND_REQ h = h"
  by (erule good_send_reqE)
    (auto simp: prepare_header_def GetStringValue_def GetTextValue_def GetLongValue_def MMS_VERSION_1_0_def MMS_VERSION_1_3_def Let_def)

lemma writes_common:
  assumes "good_send_req h"
  shows "writes (EncodeCommontFieldValue env h) (common_octets h)"
proof -
  from assms obtain v t where v: "longValueMap h MMS_MMS_VERSION = Some v" and t: "plain t" "textValueMap h = [MMS_TRANSACTION_ID \<mapsto> t]"
    and o: "octetValueMap h MMS_MESSAGE_TYPE = Some MMS_MSGTYPE_SEND_REQ" by (rule good_send_reqE)
  have ty: "writes (EncodeOctetValue MMS_MESSAGE_TYPE MMS_MSGTYPE_SEND_REQ) [MMS_MESSAGE_TYPE, MMS_MSGTYPE_SEND_REQ]"
    using writes_seq [OF writes_byte [of MMS_MESSAGE_TYPE] writes_byte] by (simp add: EncodeOctetValue_def)
  have tx: "writes (EncodeTextStringValue env MMS_TRANSACTION_ID t) (MMS_TRANSACTION_ID # t @ [0])"
    using writes_seq [OF writes_byte [of MMS_TRANSACTION_ID] writes_text [OF t(1), of "char_signed env"]] t(1)
    by (auto simp: EncodeTextStringValue_def plain_def)
  have ve: "writes (EncodeShortIntegerValue MMS_MMS_VERSION v) [MMS_MMS_VERSION, ucast v OR 0x80]"
    using writes_seq [OF writes_byte [of MMS_MMS_VERSION] writes_byte] by (simp add: EncodeShortIntegerValue_def EncodeShortInteger_def)
  from writes_seq [OF ty writes_seq [OF tx ve]] v t o show ?thesis
    by (simp add: EncodeCommontFieldValue_def common_octets_def octet_or_zero_def long_or_zero_def GetOctetValue_def GetLongValue_def GetTextValue_def)
qed

lemma EncodeMmsHeader_octets:
  assumes "good_send_req h" "utf8_kept env" "length b + length (common_octets h @ send_req_octets h) < MMS_PDU_MAX_SIZE"
  shows "EncodeMmsHeader env (b, h) = Ok () (b @ common_octets h @ send_req_octets h, no_from h)"
proof -
  have o: "octetValueMap h MMS_MESSAGE_TYPE = Some MMS_MSGTYPE_SEND_REQ" using assms(1) by (rule good_send_reqE)
  have "hwrites (seq (from_header (EncodeCommontFieldValue env)) (EncodeMmsSendReq env)) (common_octets h @ send_req_octets h) h (no_from h)"
    by (rule hwrites_seq [OF _ hwrites_send_req [OF assms(1, 2)]]) (rule hwrites_from_header, rule writes_common [OF assms(1)])
  with assms(3) o prepare_send_req [OF assms(1), of env] show ?thesis
    by (simp add: EncodeMmsHeader_def GetOctetValue_def encode_message_type_def hwrites_def bnd_def [of get_out] get_out_def seq_def [of "on_out _"]
        bnd_def [of "on_out _"] on_out_def)
qed

end
