(* ===== verification/Mms_Body_Layout.thy ===== *)
theory Mms_Body_Layout
  imports Mms_Header_Layout
begin

text \<open>
  Body parts, and with them whole messages, survive encoding and decoding.
\<close>

section \<open>The header of a part\<close>

definition id_piece :: "bytes \<Rightarrow> bytes" where
  "id_piece s = (if s = [] then [] else 0xC0 # quoted_octets s)"

definition location_piece :: "bytes \<Rightarrow> bytes" where
  "location_piece s = (if s = [] then [] else 0x8E # s @ [0])"

definition disposition_piece :: "bytes \<Rightarrow> bytes" where
  "disposition_piece s =
     (if s = DISPOSITION_FROM_DATA then [0xAE, 1, P_DISPOSITION_FROM_DATA]
      else if s = DISPOSITION_ATTACHMENT then [0xAE, 1, P_DISPOSITION_ATTACHMENT]
      else if s = DISPOSITION_INLINE then [0xAE, 1, P_DISPOSITION_INLINE]
      else [])"

definition encoding_piece :: "bytes \<Rightarrow> bytes" where
  "encoding_piece s = (if s = [] then [] else ascii ''Content-Transfer-Encoding'' @ 0 # s @ [0])"

definition part_header_octets :: "MmsBodyPartHeader \<Rightarrow> bytes" where
  "part_header_octets h = id_piece (strContentID h) @ location_piece (strContentLocation h) @ disposition_piece (strDisposition h) @
     encoding_piece (strContentTransferEncoding h)"

text \<open>What the decoder makes of a header: without a transfer encoding, the one it starts with keeps_pos.\<close>

definition seen_header :: "MmsBodyPartHeader \<Rightarrow> MmsBodyPartHeader" where
  "seen_header h = (if strContentTransferEncoding h = [] then h\<lparr>strContentTransferEncoding := ascii ''binary''\<rparr> else h)"

definition good_part_header :: "MmsBodyPartHeader \<Rightarrow> bool" where
  "good_part_header h \<longleftrightarrow> 0 \<notin> set (strContentID h) \<and> 0x22 \<notin> set (strContentID h) \<and>
     (strContentLocation h = [] \<or> plain (strContentLocation h)) \<and>
     strDisposition h \<in> {[], DISPOSITION_FROM_DATA, DISPOSITION_ATTACHMENT, DISPOSITION_INLINE} \<and>
     (strContentTransferEncoding h = [] \<or> plain (strContentTransferEncoding h)) \<and> hdrFileName h = []"

subsection \<open>Reading it\<close>

text \<open>The count of the octets that are left.\<close>

lemma unat_small: "n < 2 ^ 32 \<Longrightarrow> unat (word_of_nat n :: u32) = n"
  by (simp add: unat_of_nat)

lemma count_down:
  assumes "k + r < 2 ^ 32"
  shows "(if word_of_nat k < (word_of_nat (k + r) :: u32) then word_of_nat (k + r) - word_of_nat k else 0) = (word_of_nat r :: u32)"
proof -
  have "unat (word_of_nat k :: u32) = k" "unat (word_of_nat (k + r) :: u32) = k + r" using assms by (simp_all add: unat_of_nat del: of_nat_add)
  then have "word_of_nat k < (word_of_nat (k + r) :: u32) \<longleftrightarrow> 0 < r" by (simp add: word_less_nat_alt del: of_nat_add)
  then show ?thesis by simp
qed

lemma word_of_nat_0: "n < 2 ^ 32 \<Longrightarrow> (word_of_nat n = (0 :: u32)) = (n = 0)"
  by (auto simp: word_of_nat_eq_0_iff nat_dvd_not_less)

lemma DecodePartHeader_0: "DecodePartHeader 0 s = Ok () s"
  by (simp add: DecodePartHeader.simps)

lemma DecodePartHeader_step: "l \<noteq> 0 \<Longrightarrow> part_header_step l s = Ok l' t \<Longrightarrow> DecodePartHeader l s = DecodePartHeader l' t"
  by (subst DecodePartHeader.simps) simp

lemma part_header_well_known:
  assumes "0x80 \<le> c" "c \<le> 0xC7" "well_known_field (c AND 0x7F) (mb (p @ [c]) ys, mmsBodyPartHeader q) = Ok len (mb p' zs, h)"
  shows "part_header_step n (mb p (c # ys), q) =
    Ok (if len + 1 < n - 1 then n - 1 - (len + 1) else 0) (mb p' zs, q\<lparr>mmsBodyPartHeader := h\<rparr>)"
  using assms by (simp add: part_header_step_def on_part_header_def DecodeWellKnownHeader_def op_simps mb_simps Let_def)

text \<open>A well-known header whose decoder finds \<open>k\<close> octets behind its code.\<close>

lemma part_header_counted:
  assumes "0x80 \<le> c" "c \<le> 0xC7" "k + 2 + r < 2 ^ 32"
    and field: "well_known_field (c AND 0x7F) (mb (p @ [c]) ys, mmsBodyPartHeader q) = Ok (word_of_nat k) (mb p' zs, h)"
  shows "DecodePartHeader (word_of_nat (k + 2 + r)) (mb p (c # ys), q) = DecodePartHeader (word_of_nat r) (mb p' zs, q\<lparr>mmsBodyPartHeader := h\<rparr>)"
proof (rule DecodePartHeader_step)
  show "word_of_nat (k + 2 + r) \<noteq> (0 :: u32)" using word_of_nat_0 [OF assms(3)] by (metis add_is_0 zero_neq_numeral)
  have e: "word_of_nat (k + 2 + r) - 1 = (word_of_nat (k + 1 + r) :: u32)" "word_of_nat k + 1 = (word_of_nat (k + 1) :: u32)" by simp_all
  have "(if word_of_nat k + 1 < (word_of_nat (k + 2 + r) - 1 :: u32) then word_of_nat (k + 2 + r) - 1 - (word_of_nat k + 1) else 0) = (word_of_nat r :: u32)"
    unfolding e by (rule count_down) (use assms(3) in simp)
  with part_header_well_known [OF assms(1, 2) field, of "word_of_nat (k + 2 + r)"]
  show "part_header_step (word_of_nat (k + 2 + r)) (mb p (c # ys), q) = Ok (word_of_nat r) (mb p' zs, q\<lparr>mmsBodyPartHeader := h\<rparr>)"
    by (simp only:)
qed

lemma part_header_same:
  "strContentID (mmsBodyPartHeader q) = s \<Longrightarrow> q\<lparr>mmsBodyPartHeader := (mmsBodyPartHeader q)\<lparr>strContentID := s\<rparr>\<rparr> = q"
  "strContentLocation (mmsBodyPartHeader q) = s \<Longrightarrow> q\<lparr>mmsBodyPartHeader := (mmsBodyPartHeader q)\<lparr>strContentLocation := s\<rparr>\<rparr> = q"
  "strDisposition (mmsBodyPartHeader q) = s \<Longrightarrow> q\<lparr>mmsBodyPartHeader := (mmsBodyPartHeader q)\<lparr>strDisposition := s\<rparr>\<rparr> = q"
  "strContentTransferEncoding (mmsBodyPartHeader q) = s \<Longrightarrow> q\<lparr>mmsBodyPartHeader := (mmsBodyPartHeader q)\<lparr>strContentTransferEncoding := s\<rparr>\<rparr> = q"
  by (cases q; simp)+

lemma part_header_id:
  assumes "0 \<notin> set s" "0x22 \<notin> set s" "length (id_piece s) + r < 2 ^ 32" "strContentID (mmsBodyPartHeader q) = []"
  shows "DecodePartHeader (word_of_nat (length (id_piece s) + r)) (mb p (id_piece s @ xs), q) =
    DecodePartHeader (word_of_nat r) (mb (p @ id_piece s) xs, q\<lparr>mmsBodyPartHeader := (mmsBodyPartHeader q)\<lparr>strContentID := s\<rparr>\<rparr>)"
proof (cases "s = []")
  case True
  with assms(4) show ?thesis by (simp add: id_piece_def part_header_same)
next
  case False
  with assms quoted_text.dec_octets [of s "p @ [0xC0]" xs]
  have "well_known_field (0xC0 AND 0x7F) (mb (p @ [0xC0]) (quoted_octets s @ xs), mmsBodyPartHeader q) =
      Ok (word_of_nat (length s + 1)) (mb (p @ id_piece s) xs, (mmsBodyPartHeader q)\<lparr>strContentID := s\<rparr>)"
    by (simp add: well_known_field_def DecodeContentId_def op_simps id_piece_def quoted_octets_def)
  moreover have "(0x80 :: u8) \<le> 0xC0" "(0xC0 :: u8) \<le> 0xC7" "length s + 1 + 2 + r < 2 ^ 32" using assms(3) False by (simp_all add: id_piece_def quoted_octets_def)
  ultimately have "DecodePartHeader (word_of_nat (length s + 1 + 2 + r)) (mb p (0xC0 # quoted_octets s @ xs), q) =
      DecodePartHeader (word_of_nat r) (mb (p @ id_piece s) xs, q\<lparr>mmsBodyPartHeader := (mmsBodyPartHeader q)\<lparr>strContentID := s\<rparr>\<rparr>)"
    by (intro part_header_counted)
  with False show ?thesis by (simp add: id_piece_def quoted_octets_def add.commute add.left_commute)
qed

lemma part_header_location:
  assumes "s = [] \<or> plain s" "length (location_piece s) + r < 2 ^ 32" "strContentLocation (mmsBodyPartHeader q) = []"
  shows "DecodePartHeader (word_of_nat (length (location_piece s) + r)) (mb p (location_piece s @ xs), q) =
    DecodePartHeader (word_of_nat r) (mb (p @ location_piece s) xs, q\<lparr>mmsBodyPartHeader := (mmsBodyPartHeader q)\<lparr>strContentLocation := s\<rparr>\<rparr>)"
proof (cases "s = []")
  case True
  with assms(3) show ?thesis by (simp add: location_piece_def part_header_same)
next
  case False
  with assms DecodeText_plain [of s "p @ [0x8E]" xs]
  have "well_known_field (0x8E AND 0x7F) (mb (p @ [0x8E]) (s @ 0 # xs), mmsBodyPartHeader q) =
      Ok (word_of_nat (length s)) (mb (p @ location_piece s) xs, (mmsBodyPartHeader q)\<lparr>strContentLocation := s\<rparr>)"
    by (simp add: well_known_field_def DecodeContentLocation_def op_simps location_piece_def)
  moreover have "(0x80 :: u8) \<le> 0x8E" "(0x8E :: u8) \<le> 0xC7" "length s + 2 + r < 2 ^ 32" using assms(2) False by (simp_all add: location_piece_def)
  ultimately have "DecodePartHeader (word_of_nat (length s + 2 + r)) (mb p (0x8E # s @ 0 # xs), q) =
      DecodePartHeader (word_of_nat r) (mb (p @ location_piece s) xs, q\<lparr>mmsBodyPartHeader := (mmsBodyPartHeader q)\<lparr>strContentLocation := s\<rparr>\<rparr>)"
    by (intro part_header_counted)
  with False show ?thesis by (simp add: location_piece_def add.commute add.left_commute)
qed

text \<open>The disposition counts one octet more than it has.\<close>

lemma part_header_disposition:
  assumes "s \<in> {[], DISPOSITION_FROM_DATA, DISPOSITION_ATTACHMENT, DISPOSITION_INLINE}" "length (disposition_piece s) + r < 2 ^ 32"
    "strDisposition (mmsBodyPartHeader q) = []" "r \<noteq> 1"
  shows "\<exists>r'. (r' = 0) = (r = 0) \<and> r' \<le> r \<and> DecodePartHeader (word_of_nat (length (disposition_piece s) + r)) (mb p (disposition_piece s @ xs), q) =
    DecodePartHeader (word_of_nat r') (mb (p @ disposition_piece s) xs, q\<lparr>mmsBodyPartHeader := (mmsBodyPartHeader q)\<lparr>strDisposition := s\<rparr>\<rparr>)"
proof (cases "s = []")
  case True
  then have "disposition_piece s = []" by (simp add: disposition_piece_def DISPOSITION_FROM_DATA_def DISPOSITION_ATTACHMENT_def DISPOSITION_INLINE_def ascii_def)
  with assms(3) True show ?thesis by (intro exI [of _ r]) (simp add: part_header_same)
next
  case False
  have u: "DecodeUintvar (mb (p @ [0xAE]) (1 # ys)) = Ok (1, 1) (mb (p @ [0xAE, 1]) ys)" for ys
    using DecodeUintvar_mb [of "[1]" "p @ [0xAE]" ys] by (simp add: uintvar_value_def septet_in_def)
  from False assms(1) obtain d where d: "disposition_piece s = [0xAE, 1, d]" "well_known_field (0xAE AND 0x7F) (mb (p @ [0xAE]) (1 # d # xs), mmsBodyPartHeader q) =
      Ok 2 (mb (p @ disposition_piece s) xs, (mmsBodyPartHeader q)\<lparr>strDisposition := s\<rparr>)"
    by (auto simp: disposition_piece_def DISPOSITION_FROM_DATA_def DISPOSITION_ATTACHMENT_def DISPOSITION_INLINE_def ascii_def well_known_field_def
        DecodeContentDisposition_def DecodeDispositionParameter_def op_simps mb_simps u)
  have "DecodePartHeader (word_of_nat (3 + r)) (mb p (0xAE # 1 # d # xs), q) =
      DecodePartHeader (word_of_nat (r - 1)) (mb (p @ disposition_piece s) xs, q\<lparr>mmsBodyPartHeader := (mmsBodyPartHeader q)\<lparr>strDisposition := s\<rparr>\<rparr>)"
  proof (rule DecodePartHeader_step)
    have r: "3 + r < 2 ^ 32" using assms(2) d(1) by simp
    show "word_of_nat (3 + r) \<noteq> (0 :: u32)" using word_of_nat_0 [OF r] by (metis add_is_0 zero_neq_numeral)
    have e: "word_of_nat (3 + r) - 1 = (word_of_nat (2 + r) :: u32)" "2 + 1 = (word_of_nat 3 :: u32)" by simp_all
    have "unat (word_of_nat 3 :: u32) = 3" "unat (word_of_nat (2 + r) :: u32) = 2 + r" using r by (intro unat_small, simp)+
    then have "(word_of_nat 3 < (word_of_nat (2 + r) :: u32)) = (1 < r)" by (simp add: word_less_nat_alt del: of_nat_add of_nat_numeral)
    moreover have "1 < r \<Longrightarrow> word_of_nat (2 + r) - word_of_nat 3 = (word_of_nat (r - 1) :: u32)" by (simp add: of_nat_diff)
    ultimately have "(if 2 + 1 < (word_of_nat (3 + r) - 1 :: u32) then word_of_nat (3 + r) - 1 - (2 + 1) else 0) = (word_of_nat (r - 1) :: u32)"
      unfolding e by (cases "r = 0"; cases "1 < r") auto
    with part_header_well_known [OF _ _ d(2), of "word_of_nat (3 + r)"]
    show "part_header_step (word_of_nat (3 + r)) (mb p (0xAE # 1 # d # xs), q) =
        Ok (word_of_nat (r - 1)) (mb (p @ disposition_piece s) xs, q\<lparr>mmsBodyPartHeader := (mmsBodyPartHeader q)\<lparr>strDisposition := s\<rparr>\<rparr>)"
      by simp
  qed
  with d(1) assms(4) show ?thesis by (intro exI [of _ "r - 1"]) auto
qed

lemma encoding_name: "filter CharIsToken (ascii ''Content-Transfer-Encoding'') = ascii ''Content-Transfer-Encoding''"
  "0 \<notin> set (ascii ''Content-Transfer-Encoding'')"
  by code_simp+

lemma DecodeTokenText_name:
  "DecodeTokenText (mb p (ascii ''Content-Transfer-Encoding'' @ 0 # xs)) =
   Ok (ascii ''Content-Transfer-Encoding'', 25) (mb (p @ ascii ''Content-Transfer-Encoding'' @ [0]) xs)"
proof -
  obtain c cs where c: "ascii ''Content-Transfer-Encoding'' = c # cs" "\<not> c < 33" "\<not> c > 126" "length (c # cs) = 25"
    by (simp add: ascii_def)
  with encoding_name read_until_zero_mb [of "c # cs" p xs] show ?thesis
    by (simp add: DecodeTokenText_def op_simps mb_simps del: filter.simps set_simps)
qed

lemma part_header_encoding:
  assumes "s = [] \<or> plain s" "(n = 0) = (s = [])"
  shows "DecodePartHeader n (mb p (encoding_piece s @ xs), q) =
    Ok () (mb (p @ encoding_piece s) xs, if s = [] then q else q\<lparr>mmsBodyPartHeader := (mmsBodyPartHeader q)\<lparr>strContentTransferEncoding := s\<rparr>\<rparr>)"
proof (cases "s = []")
  case True
  with assms show ?thesis by (simp add: encoding_piece_def DecodePartHeader_0)
next
  case False
  with assms have "plain s" by simp
  have peek: "PeekOneByte (mb p (ascii ''Content-Transfer-Encoding'' @ ys)) = Ok 0x43 (mb p (ascii ''Content-Transfer-Encoding'' @ ys))" for ys
    by (simp add: ascii_def mb_simps)
  have "part_header_step n (mb p (ascii ''Content-Transfer-Encoding'' @ 0 # s @ 0 # xs), q) =
      Ok 0 (mb (p @ encoding_piece s) xs, q\<lparr>mmsBodyPartHeader := (mmsBodyPartHeader q)\<lparr>strContentTransferEncoding := s\<rparr>\<rparr>)"
    using False DecodeText_plain [OF \<open>plain s\<close>, of "p @ ascii ''Content-Transfer-Encoding'' @ [0]" xs]
    by (simp add: part_header_step_def on_part_header_def DecodeApplicationHeader_def op_simps peek DecodeTokenText_name encoding_piece_def)
  then have "DecodePartHeader n (mb p (ascii ''Content-Transfer-Encoding'' @ 0 # s @ 0 # xs), q) =
      DecodePartHeader 0 (mb (p @ encoding_piece s) xs, q\<lparr>mmsBodyPartHeader := (mmsBodyPartHeader q)\<lparr>strContentTransferEncoding := s\<rparr>\<rparr>)"
    using assms(2) False by (intro DecodePartHeader_step) auto
  then show ?thesis using False by (simp add: encoding_piece_def DecodePartHeader_0)
qed

lemma DecodePartHeader_octets:
  assumes h: "good_part_header h" and len: "length (part_header_octets h) < MMS_PDU_MAX_SIZE" and q: "mmsBodyPartHeader q = new_part_header"
  shows "DecodePartHeader (word_of_nat (length (part_header_octets h))) (mb p (part_header_octets h @ xs), q) =
    Ok () (mb (p @ part_header_octets h) xs, q\<lparr>mmsBodyPartHeader := seen_header h\<rparr>)"
proof -
  let ?i = "id_piece (strContentID h)" and ?l = "location_piece (strContentLocation h)" and ?d = "disposition_piece (strDisposition h)"
    and ?e = "encoding_piece (strContentTransferEncoding h)"
  define q1 where "q1 = q\<lparr>mmsBodyPartHeader := new_part_header\<lparr>strContentID := strContentID h\<rparr>\<rparr>"
  define q2 where "q2 = q\<lparr>mmsBodyPartHeader := new_part_header\<lparr>strContentID := strContentID h, strContentLocation := strContentLocation h\<rparr>\<rparr>"
  define q3 where "q3 = q\<lparr>mmsBodyPartHeader := new_part_header\<lparr>strContentID := strContentID h, strContentLocation := strContentLocation h,
    strDisposition := strDisposition h\<rparr>\<rparr>"
  have small: "length ?i + (length ?l + (length ?d + length ?e)) < 2 ^ 32" using len by (simp add: part_header_octets_def MMS_PDU_MAX_SIZE_def)
  have s1: "DecodePartHeader (word_of_nat (length ?i + (length ?l + (length ?d + length ?e)))) (mb p (?i @ ?l @ ?d @ ?e @ xs), q) =
      DecodePartHeader (word_of_nat (length ?l + (length ?d + length ?e))) (mb (p @ ?i) (?l @ ?d @ ?e @ xs), q1)"
    using part_header_id [of "strContentID h" "length ?l + (length ?d + length ?e)" q p "?l @ ?d @ ?e @ xs"] h q small
    by (simp add: q1_def good_part_header_def new_part_header_def del: of_nat_add)
  have s2: "DecodePartHeader (word_of_nat (length ?l + (length ?d + length ?e))) (mb (p @ ?i) (?l @ ?d @ ?e @ xs), q1) =
      DecodePartHeader (word_of_nat (length ?d + length ?e)) (mb (p @ ?i @ ?l) (?d @ ?e @ xs), q2)"
    using part_header_location [of "strContentLocation h" "length ?d + length ?e" q1 "p @ ?i" "?d @ ?e @ xs"] h q small
    by (simp add: q1_def q2_def good_part_header_def new_part_header_def del: of_nat_add)
  have e1: "length ?e \<noteq> 1" "(length ?e = 0) = (strContentTransferEncoding h = [])" by (simp_all add: encoding_piece_def ascii_def)
  have "\<exists>r'. (r' = 0) = (length ?e = 0) \<and> r' \<le> length ?e \<and>
      DecodePartHeader (word_of_nat (length ?d + length ?e)) (mb (p @ ?i @ ?l) (?d @ ?e @ xs), q2) =
      DecodePartHeader (word_of_nat r') (mb ((p @ ?i @ ?l) @ ?d) (?e @ xs), q2\<lparr>mmsBodyPartHeader := (mmsBodyPartHeader q2)\<lparr>strDisposition := strDisposition h\<rparr>\<rparr>)"
    using h small e1(1) by (intro part_header_disposition) (simp_all add: good_part_header_def q2_def new_part_header_def)
  then obtain r where r: "(r = 0) = (length ?e = 0)" "r \<le> length ?e"
      "DecodePartHeader (word_of_nat (length ?d + length ?e)) (mb (p @ ?i @ ?l) (?d @ ?e @ xs), q2) =
      DecodePartHeader (word_of_nat r) (mb (p @ ?i @ ?l @ ?d) (?e @ xs), q3)"
    by (auto simp: q2_def q3_def)
  have "r < 2 ^ 32" using r(2) small by simp
  with r(1) e1(2) have z: "(word_of_nat r = (0 :: u32)) = (strContentTransferEncoding h = [])" by (simp add: word_of_nat_0)
  have "(if strContentTransferEncoding h = [] then q3 else q3\<lparr>mmsBodyPartHeader := (mmsBodyPartHeader q3)\<lparr>strContentTransferEncoding := strContentTransferEncoding h\<rparr>\<rparr>) =
      q\<lparr>mmsBodyPartHeader := seen_header h\<rparr>"
    using h by (cases h) (simp add: q3_def new_part_header_def good_part_header_def seen_header_def)
  with part_header_encoding [of "strContentTransferEncoding h" "word_of_nat r" "p @ ?i @ ?l @ ?d" xs q3] h z
  have s4: "DecodePartHeader (word_of_nat r) (mb (p @ ?i @ ?l @ ?d) (?e @ xs), q3) = Ok () (mb (p @ ?i @ ?l @ ?d @ ?e) xs, q\<lparr>mmsBodyPartHeader := seen_header h\<rparr>)"
    by (simp add: good_part_header_def q3_def new_part_header_def)
  have "length (part_header_octets h) = length ?i + (length ?l + (length ?d + length ?e))" by (simp add: part_header_octets_def)
  with s1 s2 r(3) s4 show ?thesis by (simp add: part_header_octets_def del: of_nat_add)
qed

subsection \<open>Writing it\<close>

lemma writes_id: "0 \<notin> set (strContentID h) \<Longrightarrow> 0x22 \<notin> set (strContentID h) \<Longrightarrow> writes (EncodeContentId h) (id_piece (strContentID h))"
  using writes_seq [OF writes_byte [of "0xC0"], of "EncodeQuotedText (strContentID h)" "quoted_octets (strContentID h)"]
  by (auto simp: EncodeContentId_def id_piece_def writes_ret writes_def [of "EncodeQuotedText _"] quoted_text.enc_octets)

lemma writes_location:
  "strContentLocation h = [] \<or> plain (strContentLocation h) \<Longrightarrow> writes (EncodeContentLocation env h) (location_piece (strContentLocation h))"
  using writes_seq [OF writes_byte [of "0x8E"] writes_text [of "strContentLocation h" "char_signed env"]]
  by (auto simp: EncodeContentLocation_def location_piece_def writes_ret)

lemma writes_uintvar: "writes (EncodeUintvar v) (uintvar_octets v)"
  by (simp add: writes_def EncodeUintvar_octets)

lemma writes_disposition: "writes (EncodeContentDisposition h) (disposition_piece (strDisposition h))"
proof -
  have "uintvar_octets 1 = [1]" by (simp add: uintvar_octets_def uintvar_more.simps)
  then have "writes (seq (MmsWriteByte 0xAE) (seq (EncodeUintvar 1) (MmsWriteByte d))) [0xAE, 1, d]" for d
    using writes_seq [OF writes_byte [of "0xAE"] writes_seq [OF writes_uintvar [of 1] writes_byte [of d]]] by simp
  then show ?thesis by (auto simp: EncodeContentDisposition_def disposition_piece_def writes_ret)
qed

lemma writes_encoding:
  assumes "strContentTransferEncoding h = [] \<or> plain (strContentTransferEncoding h)"
  shows "writes (EncodeContentTransferEncoding env h) (encoding_piece (strContentTransferEncoding h))"
proof -
  have "plain (ascii ''Content-Transfer-Encoding'')" by code_simp
  from writes_seq [OF writes_text [OF this] writes_text [of "strContentTransferEncoding h" "char_signed env"], of "char_signed env"] assms
  show ?thesis by (auto simp: EncodeContentTransferEncoding_def encoding_piece_def writes_ret)
qed

lemma writes_part_header:
  assumes "good_part_header h"
  shows "writes (EncodeMmsBodyPartHeader env h) (part_header_octets h)"
  unfolding EncodeMmsBodyPartHeader_def part_header_octets_def
  using assms by (intro writes_seq writes_id writes_location writes_disposition writes_encoding) (simp_all add: good_part_header_def)

section \<open>Parts\<close>

text \<open>
  The parts that survive: their name is a parameter of the content type, as \<open>SetAttachment\<close> puts it there, and the transfer encoding is none that the
  decoder would undo, since the encoder does not apply it.
\<close>

definition good_part :: "MmsBodyPart \<Rightarrow> bool" where
  "good_part p \<longleftrightarrow> part_full p \<and> \<not> part_isSmil p \<and> good_content_type (bodyPartContentType p) \<and> good_part_header (mmsBodyPartHeader p) \<and>
     strContentTransferEncoding (mmsBodyPartHeader p) \<notin> {ENCODE_BASE64, ENCODE_QUOTED_PRINTABLE} \<and>
     GetFileName (msgContentParm (bodyPartContentType p)) = strFileName p"

definition mms_part_headers :: "MmsBodyPart \<Rightarrow> bytes" where
  "mms_part_headers p = content_type_octets (bodyPartContentType p) @ part_header_octets (mmsBodyPartHeader p)"

definition part_octets :: "MmsBodyPart \<Rightarrow> bytes" where
  "part_octets p = uintvar_octets (word_of_nat (length (mms_part_headers p))) @ uintvar_octets (word_of_nat (bodyLen p)) @ mms_part_headers p @
     the (pbodyPartBuffer p)"

definition decoded_part :: "MmsBodyPart \<Rightarrow> MmsBodyPart" where
  "decoded_part p = p\<lparr>headerLen := word_of_nat (length (mms_part_headers p)), mmsBodyPartHeader := seen_header (mmsBodyPartHeader p)\<rparr>"

lemma writes_buffer: "w \<noteq> [] \<Longrightarrow> writes (MmsWriteBuffer w) w"
  by (simp add: writes_def MmsWriteBuffer_def memcpy_s_ok_def MMS_PDU_MAX_SIZE_def)

lemma writes_part:
  assumes p: "good_part p" and len: "length (mms_part_headers p) < MMS_PDU_MAX_SIZE"
  shows "writes (EncodeMmsBodyPart env p) (part_octets p)"
proof -
  from p obtain d where d: "pbodyPartBuffer p = Some d" "d \<noteq> []" "bodyLen p = length d" "length d \<le> MMS_PDU_MAX_SIZE"
    by (auto simp: good_part_def part_full_def)
  have "writes (seq (EncodeMmsBodyPartContentType env (bodyPartContentType p)) (EncodeMmsBodyPartHeader env (mmsBodyPartHeader p))) (mms_part_headers p)"
    unfolding mms_part_headers_def using p
    by (intro writes_seq writes_part_header) (simp_all add: writes_def EncodeMmsBodyPartContentType_octets good_part_def)
  with len have h: "seq (EncodeMmsBodyPartContentType env (bodyPartContentType p)) (EncodeMmsBodyPartHeader env (mmsBodyPartHeader p)) [] = Ok () (mms_part_headers p)"
    by (simp add: writes_def)
  have ne: "mms_part_headers p \<noteq> []" by (simp add: mms_part_headers_def content_type_octets_def content_body_def media_octets_nonempty)
  have "ReadBodyPartBuffer p = Some d" using d by (simp add: ReadBodyPartBuffer_def memcpy_s_ok_def MMS_PDU_MAX_SIZE_def)
  with writes_seq [OF writes_uintvar writes_seq [OF writes_uintvar writes_seq [OF writes_buffer [OF ne] writes_buffer [OF d(2)]]]] d(1) h
  show ?thesis by (simp add: EncodeMmsBodyPart_def writes_def part_octets_def bnd_def [of "with_new _ _"] with_new_def)
qed

lemma DecodePartBody_octets:
  assumes q: "strContentTransferEncoding (mmsBodyPartHeader q) \<notin> {ENCODE_BASE64, ENCODE_QUOTED_PRINTABLE}"
    and d: "d \<noteq> []" "length p + length d + length xs \<le> MMS_PDU_MAX_SIZE"
  shows "DecodePartBody env (word_of_nat (length d)) (mb p (d @ xs), q) = Ok () (mb (p @ d) xs, q\<lparr>pbodyPartBuffer := Some d\<rparr>)"
proof -
  have n: "unat (word_of_nat (length d) :: u32) = length d" using d(2) by (simp add: unat_of_nat MMS_PDU_MAX_SIZE_def)
  have ok: "\<not> (length p + length d) mod 2 ^ 32 > length p + (length d + length xs)" "\<not> length d > MMS_PDU_MAX_SIZE"
    using d(2) by (simp_all add: MMS_PDU_MAX_SIZE_def)
  have "transfer_decoded env (strContentTransferEncoding (mmsBodyPartHeader q)) d = []" using q by (simp add: transfer_decoded_def)
  with n ok ReadDataBufferAt_mb [OF d(1), of p xs] IncreasePointer_mb [of d p xs] d(2) show ?thesis
    by (simp add: DecodePartBody_def op_simps)
qed

lemma seen_encoding:
  "strContentTransferEncoding h \<notin> {ENCODE_BASE64, ENCODE_QUOTED_PRINTABLE} \<Longrightarrow>
   strContentTransferEncoding (seen_header h) \<notin> {ENCODE_BASE64, ENCODE_QUOTED_PRINTABLE}"
  by (simp add: seen_header_def ENCODE_BASE64_def ENCODE_QUOTED_PRINTABLE_def ascii_def)

lemma DecodePart_octets:
  assumes p: "good_part p" and len: "length pp + length (part_octets p) + length xs \<le> MMS_PDU_MAX_SIZE"
    and hl: "length (mms_part_headers p) < MMS_PDU_MAX_SIZE"
  shows "DecodePart env k (mb pp (part_octets p @ xs), new_body_part) = Ok () (mb (pp @ part_octets p) xs, decoded_part p)"
proof -
  let ?c = "bodyPartContentType p" and ?h = "mmsBodyPartHeader p"
  let ?u1 = "uintvar_octets (word_of_nat (length (mms_part_headers p)))" and ?u2 = "uintvar_octets (word_of_nat (bodyLen p))"
  from p obtain d where d: "pbodyPartBuffer p = Some d" "d \<noteq> []" "bodyLen p = length d" "strFileName p \<noteq> []"
    by (auto simp: good_part_def part_full_def)
  have oct: "part_octets p = ?u1 @ ?u2 @ content_type_octets ?c @ part_header_octets ?h @ d" using d(1) by (simp add: part_octets_def mms_part_headers_def)
  have g: "good_content_type ?c" "good_part_header ?h" "strContentTransferEncoding ?h \<notin> {ENCODE_BASE64, ENCODE_QUOTED_PRINTABLE}"
    "GetFileName (msgContentParm ?c) = strFileName p" using p by (auto simp: good_part_def)
  have lens: "length (content_type_octets ?c) < 2 ^ 32" "length (content_type_octets ?c) + length (part_header_octets ?h) < 2 ^ 32"
    "length (part_header_octets ?h) < MMS_PDU_MAX_SIZE"
    using hl by (simp_all add: mms_part_headers_def MMS_PDU_MAX_SIZE_def)
  have n: "unat (word_of_nat (length d) :: u32) = length d" using len d by (intro unat_small) (simp add: oct MMS_PDU_MAX_SIZE_def)
  define q where "q = new_body_part\<lparr>bodyPartContentType := ?c, headerLen := word_of_nat (length (mms_part_headers p)), bodyLen := length d\<rparr>"
  have lt: "\<not> word_of_nat (length (mms_part_headers p)) < (word_of_nat (length (content_type_octets ?c)) :: u32)"
  proof -
    have "unat (word_of_nat (length (mms_part_headers p)) :: u32) = length (mms_part_headers p)"
      "unat (word_of_nat (length (content_type_octets ?c)) :: u32) = length (content_type_octets ?c)"
      using lens by (intro unat_small; simp add: mms_part_headers_def)+
    then show ?thesis by (simp add: word_less_nat_alt mms_part_headers_def del: of_nat_add)
  qed
  have rest: "word_of_nat (length (mms_part_headers p)) - word_of_nat (length (content_type_octets ?c)) = (word_of_nat (length (part_header_octets ?h)) :: u32)"
    by (simp add: mms_part_headers_def)
  have h: "DecodePartHeader (word_of_nat (length (part_header_octets ?h)))
      (mb (pp @ ?u1 @ ?u2 @ content_type_octets ?c) (part_header_octets ?h @ d @ xs), q) =
      Ok () (mb (pp @ ?u1 @ ?u2 @ content_type_octets ?c @ part_header_octets ?h) (d @ xs), q\<lparr>mmsBodyPartHeader := seen_header ?h\<rparr>)"
    using DecodePartHeader_octets [OF g(2) lens(3), of q "pp @ ?u1 @ ?u2 @ content_type_octets ?c" "d @ xs"] by (simp add: q_def new_body_part_def)
  have b: "DecodePartBody env (word_of_nat (length d)) (mb (pp @ ?u1 @ ?u2 @ content_type_octets ?c @ part_header_octets ?h) (d @ xs), q\<lparr>mmsBodyPartHeader := seen_header ?h\<rparr>) =
      Ok () (mb (pp @ ?u1 @ ?u2 @ content_type_octets ?c @ part_header_octets ?h @ d) xs, q\<lparr>mmsBodyPartHeader := seen_header ?h, pbodyPartBuffer := Some d\<rparr>)"
    using DecodePartBody_octets [of "q\<lparr>mmsBodyPartHeader := seen_header ?h\<rparr>" d "pp @ ?u1 @ ?u2 @ content_type_octets ?c @ part_header_octets ?h" xs env]
      seen_encoding [OF g(3)] d(2) len by (simp add: oct)
  have f: "DecodeSetFileName env k (q\<lparr>mmsBodyPartHeader := seen_header ?h, pbodyPartBuffer := Some d\<rparr>) = decoded_part p"
    using g(4) d p by (cases p) (simp add: DecodeSetFileName_def q_def decoded_part_def new_body_part_def good_part_def)
  from uintvar.dec_octets [of pp "word_of_nat (length (mms_part_headers p))" "?u2 @ content_type_octets ?c @ part_header_octets ?h @ d @ xs"]
    uintvar.dec_octets [of "pp @ ?u1" "word_of_nat (bodyLen p)" "content_type_octets ?c @ part_header_octets ?h @ d @ xs"]
    DecodeMmsContentType_octets [OF g(1), of "pp @ ?u1 @ ?u2" "part_header_octets ?h @ d @ xs"] h b f lt rest n d(3)
  show ?thesis
    by (simp add: DecodePart_def oct op_simps q_def new_body_part_def)
qed

end
