(* ===== verification/Mms_Msg_Layout.thy ===== *)
theory Mms_Msg_Layout
  imports Mms_Body_Layout
begin

text \<open>
  A request to send, with its parts, survives \<^verbatim>\<open>MmsMsg::EncodeMsg\<close> and \<^verbatim>\<open>MmsMsg::DecodeMsg\<close>.
\<close>

section \<open>The parts of a body\<close>

definition good_parts :: "MmsBodyPart list \<Rightarrow> bool" where
  "good_parts ps \<longleftrightarrow> ps \<noteq> [] \<and> (\<forall>p \<in> set ps. good_part p)"

definition body_octets :: "MmsBodyPart list \<Rightarrow> bytes" where
  "body_octets ps = uintvar_octets (word_of_nat (length ps)) @ concat (map part_octets ps)"

lemma part_headers_shorter: "length (mms_part_headers p) \<le> length (part_octets p)" "part_octets p \<noteq> []"
  by (simp_all add: part_octets_def mms_part_headers_def content_type_octets_def content_body_def media_octets_nonempty)

lemma parts_longer: "length ps \<le> length (concat (map part_octets ps))"
proof (induction ps)
  case (Cons p ps)
  moreover have "0 < length (part_octets p)" using part_headers_shorter(2) [of p] by (rule length_greater_0_conv [THEN iffD2])
  ultimately show ?case by (simp del: length_greater_0_conv)
qed simp

lemma copy_decoded: "good_part p \<Longrightarrow> copy_part (decoded_part p) = decoded_part p"
proof -
  assume p: "good_part p"
  then have "part_full (decoded_part p)" by (simp add: good_part_def part_full_def decoded_part_def)
  moreover have "(decoded_part p)\<lparr>part_isSmil := False\<rparr> = decoded_part p" using p by (cases p) (simp add: good_part_def decoded_part_def)
  ultimately show ?thesis by (simp add: copy_part_full)
qed

lemma decode_parts_octets:
  assumes "\<forall>p \<in> set ps. good_part p" "length pp + length (concat (map part_octets ps)) + length xs < MMS_PDU_MAX_SIZE"
  shows "decode_parts env (length ps) (mb pp (concat (map part_octets ps) @ xs), m) =
    Ok () (mb (pp @ concat (map part_octets ps)) xs, m\<lparr>mmsBodyParts := mmsBodyParts m @ map decoded_part ps\<rparr>)"
  using assms
proof (induction ps arbitrary: pp m)
  case (Cons p ps)
  have "length (mms_part_headers p) < MMS_PDU_MAX_SIZE" using Cons.prems(2) part_headers_shorter(1) [of p] by simp
  then have "DecodePart env k (mb pp (part_octets p @ concat (map part_octets ps) @ xs), new_body_part) =
      Ok () (mb (pp @ part_octets p) (concat (map part_octets ps) @ xs), decoded_part p)" for k
    using Cons.prems by (intro DecodePart_octets) simp_all
  then have "on_buf (run_local new_body_part (DecodePart env k)) (mb pp (part_octets p @ concat (map part_octets ps) @ xs), m) =
      Ok (Some (), decoded_part p) (mb (pp @ part_octets p) (concat (map part_octets ps) @ xs), m)" for k
    by (simp add: on_buf_def run_local_def)
  with Cons.IH [of "pp @ part_octets p" "m\<lparr>mmsBodyParts := mmsBodyParts m @ [decoded_part p]\<rparr>"] Cons.prems copy_decoded [of p]
  show ?case by (simp add: bnd_def seq_def on_out_def)
qed (simp add: ret_def)

lemma DecodeMultipart_octets:
  assumes "good_parts ps" "length pp + length (body_octets ps) < MMS_PDU_MAX_SIZE"
  shows "DecodeMultipart env (mb pp (body_octets ps), new_body) =
    Ok () (mb (pp @ body_octets ps) [], new_body\<lparr>bodyEntrys := word_of_nat (length ps), mmsBodyParts := map decoded_part ps\<rparr>)"
proof -
  let ?u = "uintvar_octets (word_of_nat (length ps))"
  have "length ps < 2 ^ 32" using assms(2) parts_longer [of ps] by (simp add: body_octets_def MMS_PDU_MAX_SIZE_def)
  then have n: "unat (word_of_nat (length ps) :: u32) = length ps" by (rule unat_small)
  from assms have "decode_parts env (length ps) (mb (pp @ ?u) (concat (map part_octets ps) @ []), new_body\<lparr>bodyEntrys := word_of_nat (length ps)\<rparr>) =
      Ok () (mb ((pp @ ?u) @ concat (map part_octets ps)) [], new_body\<lparr>bodyEntrys := word_of_nat (length ps),
        mmsBodyParts := mmsBodyParts (new_body\<lparr>bodyEntrys := word_of_nat (length ps)\<rparr>) @ map decoded_part ps\<rparr>)"
    by (intro decode_parts_octets) (simp_all add: good_parts_def body_octets_def)
  with n parts_longer [of ps] uintvar.dec_octets [of pp "word_of_nat (length ps)" "concat (map part_octets ps)"] show ?thesis
    by (simp add: DecodeMultipart_def body_octets_def op_simps new_body_def mb_simps)
qed

lemma writes_body:
  assumes "good_parts ps" "mmsBodyParts m = ps" "length (body_octets ps) < MMS_PDU_MAX_SIZE"
  shows "writes (EncodeMmsBody env m) (body_octets ps)"
proof -
  have "writes (EncodeMmsBodyPart env p) (part_octets p)" if "p \<in> set ps" for p
  proof (rule writes_part)
    show "good_part p" using assms(1) that by (simp add: good_parts_def)
    have "length (part_octets p) \<le> length (concat (map part_octets ps))" using that by (auto simp: length_concat intro!: member_le_sum_list)
    with assms(3) part_headers_shorter(1) [of p] show "length (mms_part_headers p) < MMS_PDU_MAX_SIZE" by (simp add: body_octets_def)
  qed
  from writes_seq [OF writes_uintvar writes_each [OF this]] assms(2) show ?thesis by (simp add: EncodeMmsBody_def body_octets_def)
qed

section \<open>The content type in the header\<close>

definition main_type_body :: "MmsContentType \<Rightarrow> bytes" where
  "main_type_body c = contentType c @ 0 # texts_octets (msgContentParm c) @ type_field_octets (cp_type (msgContentParm c)) @
     charset_field_octets (cp_charset (msgContentParm c))"

definition main_type_octets :: "MmsContentType \<Rightarrow> bytes" where
  "main_type_octets c = MMS_CONTENT_TYPE # value_length_octets (word_of_nat (length (main_type_body c))) @ main_type_body c"

definition good_main_type :: "MmsContentType \<Rightarrow> bool" where
  "good_main_type c \<longleftrightarrow> plain (contentType c) \<and> good_param (msgContentParm c) \<and>
     (\<exists>i \<in> set multipart_types. GetContentTypeFromString (contentType c) = Some i)"

lemma writes_main_type:
  assumes "good_main_type (mmsContentType h)" "IsHaveBody h" "mmsBodyParts m \<noteq> []"
  shows "writes (EncodeMmsHeaderContentType env h m) (main_type_octets (mmsContentType h))"
proof -
  let ?c = "mmsContentType h" and ?q = "msgContentParm (mmsContentType h)"
  have g: "plain (contentType ?c)" "good_param ?q" using assms(1) by (simp_all add: good_main_type_def)
  have "writes (EncodeTextField env ?q) (texts_octets ?q)" "writes (EncodeTypeField env ?q) (type_field_octets (cp_type ?q))"
    "writes (EncodeCharsetField ?q) (charset_field_octets (cp_charset ?q))"
    using g(2) by (simp_all add: writes_def EncodeTextField_octets EncodeTypeField_octets EncodeCharsetField_octets)
  from writes_seq [OF writes_text [OF g(1), of "char_signed env"] writes_seq [OF writes_ignore [OF this(1)] writes_seq [OF writes_ignore [OF this(2)] writes_ignore [OF this(3)]]]]
  have "writes (seq (EncodeText (char_signed env) (contentType ?c)) (seq (ignore (EncodeTextField env ?q)) (
      seq (ignore (EncodeTypeField env ?q)) (ignore (EncodeCharsetField ?q))))) (main_type_body ?c)"
    by (simp add: main_type_body_def)
  from writes_seq [OF writes_byte [of MMS_CONTENT_TYPE] writes_with_length [OF this]] assms(2, 3) g(1) show ?thesis
    by (auto simp: EncodeMmsHeaderContentType_def main_type_octets_def main_type_body_def plain_def Let_def)
qed

lemma DecodeMmsContentType_main:
  assumes "good_main_type c" "length (main_type_octets c) < MMS_PDU_MAX_SIZE"
  shows "DecodeMmsContentType (mb p (value_length_octets (word_of_nat (length (main_type_body c))) @ main_type_body c @ xs), new_content_type) =
    Ok (int (length (value_length_octets (word_of_nat (length (main_type_body c))) @ main_type_body c)))
      (mb (p @ value_length_octets (word_of_nat (length (main_type_body c))) @ main_type_body c) xs, c)"
proof -
  let ?q = "msgContentParm c" and ?w = "contentType c @ [0]"
  let ?ps = "texts_octets ?q @ type_field_octets (cp_type ?q) @ charset_field_octets (cp_charset ?q)"
  define n :: u32 where "n = word_of_nat (length (?w @ ?ps))"
  have oct: "main_type_body c = ?w @ ?ps" by (simp add: main_type_body_def)
  have m: "media_of ?w (contentType c)" and q: "good_param ?q" using assms(1) by (simp_all add: good_main_type_def media_of_def)
  have len: "length (?w @ ?ps) < MMS_PDU_MAX_SIZE" using assms(2) by (simp add: main_type_octets_def oct)
  then have "length (texts_octets ?q @ charset_field_octets (cp_charset ?q) @ type_field_octets (cp_type ?q)) < MMS_PDU_MAX_SIZE" by simp
  from DecodeParameter_param(2) [OF q this, of "new_content_type\<lparr>contentType := contentType c\<rparr>" "p @ value_length_octets n @ ?w" xs]
  have ps: "DecodeParameter (int (length ?ps)) (mb (p @ value_length_octets n @ ?w) (?ps @ xs), new_content_type\<lparr>contentType := contentType c\<rparr>)
      = Ok () (mb (p @ value_length_octets n @ main_type_body c) xs, c)"
    by (simp add: oct new_content_type_def)
  from DecodeMmsContentType_general [OF m len n_def ps] show ?thesis by (simp add: oct n_def)
qed

text \<open>The content type ends the loop over the fields of the header.\<close>

lemma DecodeMmsHeader_content_type:
  assumes "good_main_type c" "length (main_type_octets c) < MMS_PDU_MAX_SIZE" "mmsContentType h = new_content_type"
  shows "DecodeMmsHeader env (mb p (main_type_octets c @ xs), h) = Ok () (mb (p @ main_type_octets c) xs, h\<lparr>mmsContentType := c\<rparr>)"
  using DecodeMmsContentType_main [OF assms(1, 2), of "p @ [MMS_CONTENT_TYPE]" xs] assms(3)
  by (subst DecodeMmsHeader.simps)
    (simp add: main_type_octets_def on_buf_def mb_simps field_lookups DecodeHeaderContentType_def named_simps zoom_def op_simps)

section \<open>The message\<close>

definition good_message :: "MmsMsg \<Rightarrow> bool" where
  "good_message g \<longleftrightarrow> good_send_req (mmsHeader g) \<and> good_main_type (mmsContentType (mmsHeader g)) \<and> good_parts (mmsBodyParts (mmsBody g))"

definition message_octets :: "MmsMsg \<Rightarrow> bytes" where
  "message_octets g = common_octets (mmsHeader g) @ send_req_octets (mmsHeader g) @ main_type_octets (mmsContentType (mmsHeader g)) @
     body_octets (mmsBodyParts (mmsBody g))"

lemma EncodeMsg_octets:
  assumes g: "good_message g" and env: "utf8_kept env" and len: "length (message_octets g) < MMS_PDU_MAX_SIZE"
  shows "EncodeMsg env g = Ok (message_octets g) (g\<lparr>mmsHeader := no_from (mmsHeader g)\<rparr>)"
proof -
  let ?h = "mmsHeader g" and ?m = "mmsBody g"
  let ?u = "common_octets ?h @ send_req_octets ?h"
  have parts: "good_send_req ?h" "good_main_type (mmsContentType ?h)" "good_parts (mmsBodyParts ?m)" using g by (simp_all add: good_message_def)
  have h: "EncodeMmsHeader env ([], ?h) = Ok () (?u, no_from ?h)"
    using EncodeMmsHeader_octets [OF parts(1) env, of "[]"] len by (simp add: message_octets_def)
  have "octetValueMap ?h MMS_MESSAGE_TYPE = Some MMS_MSGTYPE_SEND_REQ" using parts(1) by (rule good_send_reqE)
  then have b: "IsHaveBody (no_from ?h)" by (simp add: IsHaveBody_def GetOctetValue_def no_from_def)
  have "writes (EncodeMmsHeaderContentType env (no_from ?h) ?m) (main_type_octets (mmsContentType ?h))"
    using writes_main_type [of "no_from ?h" ?m env] parts(2, 3) b by (simp add: no_from_def good_parts_def)
  moreover have "writes (EncodeMmsBody env ?m) (body_octets (mmsBodyParts ?m))"
    using writes_body [OF parts(3) refl] len by (simp add: message_octets_def)
  ultimately have t: "EncodeMmsHeaderContentType env (no_from ?h) ?m ?u = Ok () (?u @ main_type_octets (mmsContentType ?h))"
    and m: "EncodeMmsBody env ?m (?u @ main_type_octets (mmsContentType ?h)) = Ok () (message_octets g)"
    using len by (simp_all add: writes_def message_octets_def)
  have "memcpy_s_ok (length (message_octets g)) (length (message_octets g))" using len
    by (simp add: memcpy_s_ok_def MMS_PDU_MAX_SIZE_def message_octets_def common_octets_def)
  with h b t m show ?thesis
    by (simp add: EncodeMsg_def with_buffer_def zoom_def op_simps)
qed

lemma DecodeMsg_octets:
  assumes g: "good_message g" and env: "utf8_kept env" and len: "length (message_octets g) < MMS_PDU_MAX_SIZE"
  shows "DecodeMsg env (message_octets g) new_msg =
    Ok () \<lparr>mmsHeader = (received env (mmsHeader g))\<lparr>mmsContentType := mmsContentType (mmsHeader g)\<rparr>,
      mmsBody = \<lparr>bHaveSmilPart = False, bodyEntrys = word_of_nat (length (mmsBodyParts (mmsBody g))),
        mmsBodyParts = map decoded_part (mmsBodyParts (mmsBody g))\<rparr>\<rparr>"
proof -
  let ?h = "mmsHeader g" and ?ps = "mmsBodyParts (mmsBody g)" and ?c = "mmsContentType (mmsHeader g)"
  let ?u = "common_octets ?h @ send_req_octets ?h"
  have parts: "good_send_req ?h" "good_main_type ?c" "good_parts ?ps" using g by (simp_all add: good_message_def)
  have lens: "length (send_req_octets ?h) < MMS_PDU_MAX_SIZE" "length (main_type_octets ?c) < MMS_PDU_MAX_SIZE"
    "length (?u @ main_type_octets ?c) + length (body_octets ?ps) < MMS_PDU_MAX_SIZE"
    using len by (simp_all add: message_octets_def)
  have "reads env ?u (\<lambda>k. send_req_upd env ?h (put_long MMS_MMS_VERSION (the (longValueMap ?h MMS_MMS_VERSION))
    (put_text MMS_TRANSACTION_ID (the (textValueMap ?h MMS_TRANSACTION_ID)) (put_octet MMS_MESSAGE_TYPE MMS_MSGTYPE_SEND_REQ k))))"
    by (rule reads_append [OF reads_common [OF parts(1)] reads_send_req [OF parts(1) env lens(1)]])
  then have "DecodeMmsHeader env (mb [] (?u @ main_type_octets ?c @ body_octets ?ps), new_header) =
      DecodeMmsHeader env (mb ?u (main_type_octets ?c @ body_octets ?ps), received env ?h)"
    by (simp add: reads_def send_req_received [OF parts(1)] del: append_assoc)
  also have "\<dots> = Ok () (mb (?u @ main_type_octets ?c) (body_octets ?ps), (received env ?h)\<lparr>mmsContentType := ?c\<rparr>)"
    using parts(2) lens(2) by (intro DecodeMmsHeader_content_type) (simp_all add: received_def)
  finally have h: "DecodeMmsHeader env (mb [] (message_octets g), new_header) =
      Ok () (mb (?u @ main_type_octets ?c) (body_octets ?ps), (received env ?h)\<lparr>mmsContentType := ?c\<rparr>)"
    by (simp add: message_octets_def)
  have "octetValueMap ?h MMS_MESSAGE_TYPE = Some MMS_MSGTYPE_SEND_REQ" using parts(1) by (rule good_send_reqE)
  with DecodeMultipart_octets [OF parts(3) lens(3), of env] parts(2)
  have b: "DecodeMmsBody env ((received env ?h)\<lparr>mmsContentType := ?c\<rparr>) (mb (?u @ main_type_octets ?c) (body_octets ?ps), new_body) =
      Ok () (mb ((?u @ main_type_octets ?c) @ body_octets ?ps) [], new_body\<lparr>bodyEntrys := word_of_nat (length ?ps), mmsBodyParts := map decoded_part ?ps\<rparr>)"
    by (auto simp: DecodeMmsBody_def GetOctetValue_def received_def good_main_type_def)
  have w: "WriteDataBuffer (message_octets g) new_mms_buffer = Ok () (mb [] (message_octets g))"
    using len by (simp add: WriteDataBuffer_def mb_def new_mms_buffer_def) (simp add: message_octets_def common_octets_def)
  from h b w show ?thesis
    by (simp add: DecodeMsg_def decode_header_body_def on_header_def on_body_def zoom_def with_buffer_def op_simps new_msg_def new_body_def)
qed

text \<open>
  C11. A multimedia message survives its way over the network: a request to send, with its addresses, subject, dates, flags, content type and parts, is encoded into octets
  from which a new message decodes the same header, with the time of expiry made absolute, and the same parts in the same order with their names, types, ids and contents.
  The sender is removed from the message that was encoded, as the code does.
\<close>

theorem message_roundtrip:
  assumes "good_message g" "utf8_kept env" "length (message_octets g) < MMS_PDU_MAX_SIZE"
  shows "\<exists>w. EncodeMsg env g = Ok w (g\<lparr>mmsHeader := no_from (mmsHeader g)\<rparr>) \<and>
    DecodeMsg env w new_msg =
      Ok () \<lparr>mmsHeader = (received env (mmsHeader g))\<lparr>mmsContentType := mmsContentType (mmsHeader g)\<rparr>,
        mmsBody = \<lparr>bHaveSmilPart = False, bodyEntrys = word_of_nat (length (mmsBodyParts (mmsBody g))),
          mmsBodyParts = map decoded_part (mmsBodyParts (mmsBody g))\<rparr>\<rparr>"
  using EncodeMsg_octets [OF assms] DecodeMsg_octets [OF assms] by blast

text \<open>A message to one subscriber with one text.\<close>

definition sample_header :: MmsHeader where
  "sample_header =
     \<lparr>octetValueMap = [MMS_MESSAGE_TYPE \<mapsto> MMS_MSGTYPE_SEND_REQ, MMS_PRIORITY \<mapsto> 129],
      longValueMap = [MMS_MMS_VERSION \<mapsto> 0x12, MMS_EXPIRY \<mapsto> 60, MMS_DATE \<mapsto> 7],
      textValueMap = [MMS_TRANSACTION_ID \<mapsto> ascii ''T1''],
      encodeStringsMap = [MMS_SUBJECT \<mapsto> SetEncodeString CHARSET_UTF8 (ascii ''Hello'')],
      addressMap = [MMS_FROM \<mapsto> [MmsAddress_of (ascii ''123'')], MMS_TO \<mapsto> [MmsAddress_of (ascii ''456'')]],
      mmsContentType = \<lparr>contentType = ascii ''application/vnd.wap.multipart.mixed'', msgContentParm = msgContentParm new_content_type\<rparr>\<rparr>"

definition sample_body_part :: MmsBodyPart where
  "sample_body_part = \<lparr>part_isSmil = False, strFileName = ascii ''a.txt'', headerLen = 0, bodyLen = 2,
     bodyPartContentType = \<lparr>contentType = ascii ''text/plain'', msgContentParm = (msgContentParm new_content_type)\<lparr>textMap := [CT_P_NAME \<mapsto> ascii ''a.txt'']\<rparr>\<rparr>,
     mmsBodyPartHeader = new_part_header\<lparr>strContentID := ascii ''<a>'', strDisposition := DISPOSITION_INLINE\<rparr>,
     pbodyPartBuffer = Some [0x68, 0x69]\<rparr>"

definition sample_msg :: MmsMsg where
  "sample_msg = \<lparr>mmsHeader = sample_header, mmsBody = \<lparr>bHaveSmilPart = False, bodyEntrys = 0, mmsBodyParts = [sample_body_part]\<rparr>\<rparr>"

lemma concat_one: "distinct xs \<Longrightarrow> a \<in> set xs \<Longrightarrow> (\<And>x. x \<noteq> a \<Longrightarrow> f x = []) \<Longrightarrow> concat (map f xs) = f a"
proof (induction xs)
  case (Cons x xs)
  show ?case
  proof (cases "x = a")
    case True
    with Cons.prems have "\<forall>y \<in> set xs. f y = []" by (metis distinct.simps(2))
    then have "concat (map f xs) = []" by simp
    with True show ?thesis by simp
  qed (use Cons in auto)
qed simp

lemma sample_length: "length (message_octets sample_msg) < MMS_PDU_MAX_SIZE"
proof -
  have a: "addr_piece (no_from sample_header) f = []" if "f \<noteq> MMS_TO" for f
    using that by (simp add: addr_piece_def no_from_def sample_header_def)
  have "concat (map (addr_piece (no_from sample_header)) all_fields) = addr_piece (no_from sample_header) MMS_TO"
    by (rule concat_one [OF all_fields]) (rule a)
  then have "send_req_octets sample_header = from_piece sample_header @ expiry_piece sample_header @ addr_piece (no_from sample_header) MMS_TO @
      octet_piece sample_header MMS_MESSAGE_CLASS @ date_piece sample_header @ subject_piece sample_header @ octet_piece sample_header MMS_PRIORITY @
      octet_piece sample_header MMS_SENDER_VISIBILITY @ octet_piece sample_header MMS_DELIVERY_REPORT @ octet_piece sample_header MMS_READ_REPORT"
    unfolding send_req_octets_def by (simp only:)
  moreover have "length (from_piece sample_header) < 100" by code_simp
  moreover have "length (expiry_piece sample_header) < 100" by code_simp
  moreover have "length (addr_piece (no_from sample_header) MMS_TO) < 100" by code_simp
  moreover have "length (date_piece sample_header) < 100" by code_simp
  moreover have "length (subject_piece sample_header) < 100" by code_simp
  moreover have "length (octet_piece sample_header MMS_MESSAGE_CLASS) = 0" "length (octet_piece sample_header MMS_PRIORITY) = 2"
    "length (octet_piece sample_header MMS_SENDER_VISIBILITY) = 0" "length (octet_piece sample_header MMS_DELIVERY_REPORT) = 0"
    "length (octet_piece sample_header MMS_READ_REPORT) = 0"
    by (simp_all add: octet_piece_def sample_header_def)
  moreover have "length (common_octets sample_header) < 100" by code_simp
  moreover have "length (main_type_octets (mmsContentType sample_header)) < 100" by code_simp
  moreover have "length (mms_part_headers sample_body_part) < 100" by code_simp
  then have "length (body_octets (mmsBodyParts (mmsBody sample_msg))) < 200"
    using uintvar_octets_length [of "word_of_nat (length (mms_part_headers sample_body_part))"] uintvar_octets_length [of 2] uintvar_octets_length [of 1]
    by (simp add: body_octets_def part_octets_def sample_msg_def) (simp add: sample_body_part_def)
  moreover have "mmsHeader sample_msg = sample_header" by (simp add: sample_msg_def)
  ultimately show ?thesis by (simp add: message_octets_def MMS_PDU_MAX_SIZE_def)
qed

lemma sample_addresses: "good_address (MmsAddress_of (ascii ''123''))" "good_address (MmsAddress_of (ascii ''456''))"
proof -
  have "plain (addressString (MmsAddress_of s)) \<and> length (encode_string_octets (SetAddressString (MmsAddress_of s))) = 6" if "s \<in> {ascii ''123'', ascii ''456''}" for s
    using that by (elim insertE emptyE; (simp only:); code_simp)
  moreover have "MmsAddress_of (addressString (MmsAddress_of s)) = MmsAddress_of s" for s by (simp add: MmsAddress_of_def SetMmsAddressString_def)
  ultimately show "good_address (MmsAddress_of (ascii ''123''))" "good_address (MmsAddress_of (ascii ''456''))"
    by (simp_all add: good_address_def MMS_PDU_MAX_SIZE_def)
qed

lemma sample_subject: "good_encode_string (SetEncodeString CHARSET_UTF8 (ascii ''Hello''))" "es_charset (SetEncodeString CHARSET_UTF8 (ascii ''Hello'')) = CHARSET_UTF8"
  by code_simp+

lemma sample_send_req: "good_send_req sample_header"
proof -
  have "plain (ascii ''T1'')" by code_simp
  with sample_addresses sample_subject show ?thesis
    unfolding good_send_req_def by (auto simp: sample_header_def send_octets_def)
qed

lemma sample_main_type: "good_main_type (mmsContentType sample_header)"
proof -
  have "GetContentTypeFromString (contentType (mmsContentType sample_header)) = Some 0x23" "plain (contentType (mmsContentType sample_header))" by code_simp+
  moreover have "good_param (msgContentParm (mmsContentType sample_header))" by (simp add: good_param_def sample_header_def new_content_type_def)
  ultimately show ?thesis by (simp add: good_main_type_def multipart_types_def)
qed

lemma sample_good_part: "good_part sample_body_part"
proof -
  have "plain (ascii ''a.txt'')" by code_simp
  then have "good_param (msgContentParm (bodyPartContentType sample_body_part))"
    by (simp add: good_param_def sample_body_part_def new_content_type_def text_params_def)
  moreover have "plain (contentType (bodyPartContentType sample_body_part))" "length (content_body (bodyPartContentType sample_body_part)) = 8" by code_simp+
  ultimately have "good_content_type (bodyPartContentType sample_body_part)" by (simp add: good_content_type_def MMS_PDU_MAX_SIZE_def)
  moreover have "good_part_header (mmsBodyPartHeader sample_body_part)" by code_simp
  moreover have "part_full sample_body_part" by (simp add: part_full_def sample_body_part_def MMS_PDU_MAX_SIZE_def ascii_def)
  moreover have "strContentTransferEncoding (mmsBodyPartHeader sample_body_part) \<notin> {ENCODE_BASE64, ENCODE_QUOTED_PRINTABLE}" by code_simp
  moreover have "GetFileName (msgContentParm (bodyPartContentType sample_body_part)) = strFileName sample_body_part" by code_simp
  ultimately show ?thesis by (simp add: good_part_def) (simp add: sample_body_part_def)
qed

theorem message_roundtrip_witness:
  "\<exists>w. EncodeMsg sample_env sample_msg = Ok w (sample_msg\<lparr>mmsHeader := no_from (mmsHeader sample_msg)\<rparr>) \<and>
    DecodeMsg sample_env w new_msg =
      Ok () \<lparr>mmsHeader = (received sample_env (mmsHeader sample_msg))\<lparr>mmsContentType := mmsContentType (mmsHeader sample_msg)\<rparr>,
        mmsBody = \<lparr>bHaveSmilPart = False, bodyEntrys = word_of_nat (length (mmsBodyParts (mmsBody sample_msg))),
          mmsBodyParts = map decoded_part (mmsBodyParts (mmsBody sample_msg))\<rparr>\<rparr>"
proof (rule message_roundtrip)
  show "good_message sample_msg"
    using sample_send_req sample_main_type sample_good_part by (simp add: good_message_def good_parts_def sample_msg_def)
  show "utf8_kept sample_env" by (simp add: utf8_kept_def sample_env_def)
  show "length (message_octets sample_msg) < MMS_PDU_MAX_SIZE" by (rule sample_length)
qed

end
