(* ===== verification/Wap_Buffer.thy ===== *)
theory Wap_Buffer
  imports Wsp_Values
begin

text \<open>
  The buffer of WAP pushes, \<^verbatim>\<open>services/sms/sms_wap_push_buffer.cpp\<close>: a second implementation of the WSP values in the repository. It is compared with
  \<^verbatim>\<open>MmsDecodeBuffer\<close>: \<open>alike\<close> relates an operation of the one to an operation of the other, and carries over what is known of it.
\<close>

section \<open>The buffer\<close>

record SmsWapPushBuffer =
  wb_pduBuffer :: bytes
  wb_curPosition :: nat
  wb_totolLength :: nat
  wb_savePosition :: nat

definition new_wap_buffer :: SmsWapPushBuffer where
  "new_wap_buffer = \<lparr>wb_pduBuffer = [], wb_curPosition = 0, wb_totolLength = 0, wb_savePosition = 0\<rparr>"

text \<open>The sum of offset and length is computed with 64 bits.\<close>

definition Wap_ReadDataBufferAt :: "nat \<Rightarrow> nat \<Rightarrow> (SmsWapPushBuffer, bytes) op" where
  "Wap_ReadDataBufferAt offset desLen b =
     (if desLen > MMS_PDU_MAX_SIZE \<or> desLen > wb_totolLength b \<or> offset + desLen > wb_totolLength b \<or> \<not> memcpy_s_ok desLen desLen then Fail b
      else if offset + desLen \<le> length (wb_pduBuffer b) then Ok (take desLen (drop offset (wb_pduBuffer b))) b
      else Fault)"

definition Wap_ReadDataBuffer :: "nat \<Rightarrow> (SmsWapPushBuffer, bytes) op" where
  "Wap_ReadDataBuffer desLen b = Wap_ReadDataBufferAt (wb_curPosition b) desLen b"

text \<open>The array of an empty string is allocated before \<^verbatim>\<open>memcpy_s\<close> refuses to copy nothing.\<close>

definition WriteRawStringBuffer :: "bytes \<Rightarrow> (SmsWapPushBuffer, unit) op" where
  "WriteRawStringBuffer inSrc b =
     (if length inSrc > MMS_PDU_MAX_SIZE then Fail b
      else if \<not> memcpy_s_ok (length inSrc) (length inSrc) then Fail (b\<lparr>wb_pduBuffer := replicate (length inSrc) 0\<rparr>)
      else Ok () (b\<lparr>wb_pduBuffer := inSrc, wb_totolLength := length inSrc\<rparr>))"

definition Wap_WriteDataBuffer :: "bytes \<Rightarrow> (SmsWapPushBuffer, unit) op" where
  "Wap_WriteDataBuffer inBuff b =
     (if inBuff = [] \<or> length inBuff > MMS_PDU_MAX_SIZE then Fail b
      else Ok () (b\<lparr>wb_pduBuffer := inBuff, wb_totolLength := length inBuff\<rparr>))"

definition Wap_PeekOneByte :: "(SmsWapPushBuffer, u8) op" where
  "Wap_PeekOneByte b =
     (if wb_curPosition b \<ge> wb_totolLength b then Fail b
      else if wb_curPosition b < length (wb_pduBuffer b) then Ok (wb_pduBuffer b ! wb_curPosition b) b
      else Fault)"

definition Wap_GetOneByte :: "(SmsWapPushBuffer, u8) op" where
  "Wap_GetOneByte b =
     (if wb_curPosition b \<ge> wb_totolLength b then Fail b
      else if wb_curPosition b < length (wb_pduBuffer b)
           then Ok (wb_pduBuffer b ! wb_curPosition b) (b\<lparr>wb_curPosition := wb_curPosition b + 1\<rparr>)
      else Fault)"

definition Wap_IncreasePointer :: "nat \<Rightarrow> (SmsWapPushBuffer, unit) op" where
  "Wap_IncreasePointer offset b =
     (if offset > wb_totolLength b \<or> wb_curPosition b + offset > wb_totolLength b then Fail b
      else Ok () (b\<lparr>wb_curPosition := wb_curPosition b + offset\<rparr>))"

definition Wap_DecreasePointer :: "nat \<Rightarrow> (SmsWapPushBuffer, unit) op" where
  "Wap_DecreasePointer offset b =
     (if offset > wb_curPosition b then Fail b else Ok () (b\<lparr>wb_curPosition := wb_curPosition b - offset\<rparr>))"

definition Wap_MarkPosition :: "(SmsWapPushBuffer, unit) op" where
  "Wap_MarkPosition = upd (\<lambda>b. b\<lparr>wb_savePosition := wb_curPosition b\<rparr>)"

definition Wap_UnMarkPosition :: "(SmsWapPushBuffer, unit) op" where
  "Wap_UnMarkPosition = upd (\<lambda>b. b\<lparr>wb_curPosition := wb_savePosition b\<rparr>)"

lemma Wap_GetOneByte_advances:
  "Wap_GetOneByte b = Ok x c \<Longrightarrow> wb_totolLength c - wb_curPosition c < wb_totolLength b - wb_curPosition b"
  by (auto simp: Wap_GetOneByte_def split: if_splits)

section \<open>Values\<close>

function wap_uintvar_loop :: "u32 \<Rightarrow> u32 \<Rightarrow> u8 \<Rightarrow> (SmsWapPushBuffer, u32 \<times> u32) op" where
  "wap_uintvar_loop uintVar count oneByte b =
     (if oneByte AND 0x80 \<noteq> 0 then
        (case Wap_GetOneByte b of
           Ok x c \<Rightarrow> wap_uintvar_loop (push_bit 7 uintVar OR ucast (oneByte AND 0x7F)) (count + 1) x c
         | Fail c \<Rightarrow> Fail c
         | Fault \<Rightarrow> Fault)
      else Ok (push_bit 7 uintVar OR ucast (oneByte AND 0x7F), count) b)"
  by pat_completeness auto

termination wap_uintvar_loop
  by (relation "measure (\<lambda>(_, _, _, b). wb_totolLength b - wb_curPosition b)") (auto dest: Wap_GetOneByte_advances)

declare wap_uintvar_loop.simps [simp del]

definition Wap_DecodeUintvar :: "(SmsWapPushBuffer, u32 \<times> u32) op" where
  "Wap_DecodeUintvar = bnd Wap_GetOneByte (\<lambda>oneByte. wap_uintvar_loop 0 1 oneByte)"

definition Wap_DecodeShortLength :: "(SmsWapPushBuffer, u8) op" where
  "Wap_DecodeShortLength = bnd Wap_GetOneByte (\<lambda>oneByte. if oneByte \<le> 30 then ret oneByte else fail)"

definition Wap_DecodeValueLengthReturnLen :: "(SmsWapPushBuffer, u32 \<times> u32) op" where
  "Wap_DecodeValueLengthReturnLen =
     bnd (attempt Wap_GetOneByte) (\<lambda>r.
     case r of
       None \<Rightarrow> seq (ignore (Wap_DecreasePointer 1)) fail
     | Some oneByte \<Rightarrow>
         if oneByte \<le> 30 then ret (ucast oneByte, 1)
         else if oneByte = 0x1F then bnd Wap_DecodeUintvar (\<lambda>(uintvar, count). ret (uintvar, count + 1))
         else fail)"

definition Wap_DecodeValueLength :: "(SmsWapPushBuffer, u32) op" where
  "Wap_DecodeValueLength =
     bnd (attempt Wap_GetOneByte) (\<lambda>r.
     case r of
       None \<Rightarrow> seq (ignore (Wap_DecreasePointer 1)) fail
     | Some oneByte \<Rightarrow>
         if oneByte \<le> 30 then ret (ucast oneByte)
         else if oneByte = 0x1F then bnd Wap_DecodeUintvar (\<lambda>(uintvar, count). ret uintvar)
         else fail)"

definition Wap_CharIsToken :: "u8 \<Rightarrow> bool" where
  "Wap_CharIsToken oneByte \<longleftrightarrow> \<not> (oneByte < 33 \<or> oneByte > 126) \<and>
     oneByte \<notin> {0x22, 0x28, 0x29, 0x2F, 0x2C, 0x3A, 0x3B, 0x3C, 0x3D, 0x3E, 0x3F, 0x40, 0x5B, 0x5C, 0x5D, 0x7B, 0x7D}"

function wap_until_zero :: "(SmsWapPushBuffer, bytes) op" where
  "wap_until_zero b =
     (case Wap_GetOneByte b of
        Ok x c \<Rightarrow> if x \<noteq> 0 then (case wap_until_zero c of Ok xs d \<Rightarrow> Ok (x # xs) d | Fail d \<Rightarrow> Fail d | Fault \<Rightarrow> Fault)
                  else Ok [] c
      | Fail c \<Rightarrow> Ok [] c
      | Fault \<Rightarrow> Fault)"
  by pat_completeness auto

termination wap_until_zero
  by (relation "measure (\<lambda>b. wb_totolLength b - wb_curPosition b)") (auto dest: Wap_GetOneByte_advances)

declare wap_until_zero.simps [simp del]

definition Wap_DecodeTokenText :: "(SmsWapPushBuffer, bytes \<times> u32) op" where
  "Wap_DecodeTokenText =
     bnd Wap_PeekOneByte (\<lambda>oneByte.
     if oneByte < 33 \<or> oneByte > 126 then fail
     else
       bnd wap_until_zero (\<lambda>xs.
       let str = filter Wap_CharIsToken xs in if str \<noteq> [] then ret (str, word_of_nat (length str)) else fail))"

text \<open>Here an empty text is a failure.\<close>

definition Wap_DecodeText :: "(SmsWapPushBuffer, bytes \<times> u32) op" where
  "Wap_DecodeText =
     bnd Wap_GetOneByte (\<lambda>oneByte.
     bnd (if oneByte \<noteq> 127 then seq (ignore (Wap_DecreasePointer 1)) (ret 0) else ret 1) (\<lambda>quote.
     bnd wap_until_zero (\<lambda>str.
     let len = quote + word_of_nat (length str) in if len > 0 then ret (str, len) else fail)))"

definition Wap_DecodeQuotedText :: "(SmsWapPushBuffer, bytes \<times> u32) op" where
  "Wap_DecodeQuotedText =
     bnd wap_until_zero (\<lambda>xs.
     if xs \<noteq> [] then ret (filter (\<lambda>c. c \<noteq> 0x22) xs, word_of_nat (length xs)) else fail)"

definition Wap_DecodeShortInteger :: "(SmsWapPushBuffer, u8) op" where
  "Wap_DecodeShortInteger = bnd Wap_GetOneByte (\<lambda>oneByte. if oneByte > 0x7F then ret (oneByte AND 0x7F) else fail)"

definition Wap_LONG_VALUE_LEN_MAX :: u8 where
  "Wap_LONG_VALUE_LEN_MAX = 8"

definition Wap_DecodeLongInteger :: "(SmsWapPushBuffer, u64) op" where
  "Wap_DecodeLongInteger =
     bnd Wap_GetOneByte (\<lambda>oneByte.
     if oneByte > Wap_LONG_VALUE_LEN_MAX then fail
     else bnd (collect (\<lambda>_. Wap_GetOneByte) 0 (unat oneByte)) (\<lambda>xs. ret (foldl (\<lambda>r x. push_bit 8 r OR ucast x) 0 xs)))"

definition wap_peek_or_zero :: "(SmsWapPushBuffer, u8) op" where
  "wap_peek_or_zero = bnd (attempt Wap_PeekOneByte) (\<lambda>r. ret (case r of None \<Rightarrow> 0 | Some x \<Rightarrow> x))"

definition Wap_DecodeIsShortInt :: "(SmsWapPushBuffer, bool) op" where
  "Wap_DecodeIsShortInt = bnd wap_peek_or_zero (\<lambda>oneByte. ret (oneByte > 0x7F))"

definition Wap_DecodeIsString :: "(SmsWapPushBuffer, bool) op" where
  "Wap_DecodeIsString = bnd wap_peek_or_zero (\<lambda>oneByte. ret (0x20 \<le> oneByte \<and> 0x7F \<ge> oneByte))"

definition Wap_DecodeIsValueLength :: "(SmsWapPushBuffer, bool) op" where
  "Wap_DecodeIsValueLength = bnd wap_peek_or_zero (\<lambda>oneByte. ret (oneByte \<le> 0x1F))"

definition Wap_DecodeInteger :: "(SmsWapPushBuffer, u64) op" where
  "Wap_DecodeInteger =
     bnd Wap_DecodeIsShortInt (\<lambda>short.
     if short then bnd Wap_DecodeShortInteger (\<lambda>v. ret (ucast v)) else Wap_DecodeLongInteger)"

definition DecodeNoValue :: "(SmsWapPushBuffer, bool) op" where
  "DecodeNoValue = bnd Wap_GetOneByte (\<lambda>oneByte. ret (oneByte = 0))"

text \<open>\<^verbatim>\<open>std::to_string\<close>.\<close>

fun decimal_digits :: "nat \<Rightarrow> bytes" where
  "decimal_digits n = (if n < 10 then [] else decimal_digits (n div 10)) @ [0x30 + word_of_nat (n mod 10)]"

declare decimal_digits.simps [simp del]

text \<open>A value of a parameter: \<open>None\<close> is the value that says there is none.\<close>

definition DecodeTextValue :: "(SmsWapPushBuffer, bytes option) op" where
  "DecodeTextValue =
     bnd Wap_GetOneByte (\<lambda>oneByte.
     seq (if oneByte AND 0x80 = 0 \<and> oneByte > 31 then seq Wap_DecodeTokenText (ret ()) else seq Wap_DecodeInteger (ret ())) (
     bnd DecodeNoValue (\<lambda>bNoValue.
     if bNoValue then ret None
     else
       seq (Wap_DecreasePointer 1) (
       bnd (attempt Wap_DecodeInteger) (\<lambda>r.
       case r of
         Some fieldValue \<Rightarrow> ret (Some (decimal_digits (unat fieldValue)))
       | None \<Rightarrow>
           bnd Wap_DecodeTokenText (\<lambda>(str, valueLength).
           ret (Some (if length str > 1 \<and> hd str = 0x22 then tl str else str))))))))"

section \<open>The two implementations\<close>

definition mms_of :: "SmsWapPushBuffer \<Rightarrow> MmsBuffer" where
  "mms_of b = \<lparr>pduBuffer = wb_pduBuffer b, curPosition = wb_curPosition b, totolLength = wb_totolLength b, savePosition = wb_savePosition b\<rparr>"

lemma mms_of_fields [simp]:
  "pduBuffer (mms_of b) = wb_pduBuffer b" "curPosition (mms_of b) = wb_curPosition b" "totolLength (mms_of b) = wb_totolLength b"
  by (simp_all add: mms_of_def)

text \<open>The two operations do the same to the two buffers and return the same.\<close>

definition alike :: "(SmsWapPushBuffer, 'a) op \<Rightarrow> (MmsBuffer, 'a) op \<Rightarrow> bool" where
  "alike m n \<longleftrightarrow> (\<forall>b. n (mms_of b) = map_outcome (\<lambda>x. x) mms_of (m b))"

named_theorems alike_intros \<open>operations of the two buffers that do the same\<close>

lemma alikeD: "alike m n \<Longrightarrow> n (mms_of b) = map_outcome (\<lambda>x. x) mms_of (m b)"
  by (simp add: alike_def)

lemma alike_ret [alike_intros]: "alike (ret x) (ret x)"
  by (simp add: alike_def ret_def)

lemma alike_fail [alike_intros]: "alike fail fail"
  by (simp add: alike_def fail_def)

lemma alike_bnd [alike_intros]: "alike m n \<Longrightarrow> (\<And>x. alike (k x) (l x)) \<Longrightarrow> alike (bnd m k) (bnd n l)"
  by (auto simp: alike_def bnd_def split: outcome.splits)

lemma alike_seq [alike_intros]: "alike m n \<Longrightarrow> alike k l \<Longrightarrow> alike (seq m k) (seq n l)"
  unfolding seq_def by (intro alike_intros)

lemma alike_attempt [alike_intros]: "alike m n \<Longrightarrow> alike (attempt m) (attempt n)"
  by (auto simp: alike_def attempt_def split: outcome.splits)

lemma alike_ignore [alike_intros]: "alike m n \<Longrightarrow> alike (ignore m) (ignore n)"
  by (auto simp: alike_def ignore_def split: outcome.splits)

lemma alike_if [alike_intros]: "(c \<Longrightarrow> alike m n) \<Longrightarrow> (\<not> c \<Longrightarrow> alike k l) \<Longrightarrow> alike (if c then m else k) (if c then n else l)"
  by simp

lemma alike_option [alike_intros]:
  "alike m n \<Longrightarrow> (\<And>y. alike (k y) (l y)) \<Longrightarrow> alike (case x of None \<Rightarrow> m | Some y \<Rightarrow> k y) (case x of None \<Rightarrow> n | Some y \<Rightarrow> l y)"
  by (cases x) simp_all

lemma alike_prod [alike_intros]: "(\<And>a b. alike (k a b) (l a b)) \<Longrightarrow> alike (case x of (a, b) \<Rightarrow> k a b) (case x of (a, b) \<Rightarrow> l a b)"
  by (cases x) simp

lemma alike_collect [alike_intros]: "(\<And>i. alike (f i) (g i)) \<Longrightarrow> alike (collect f i n) (collect g i n)"
  by (induction n arbitrary: i) (auto intro: alike_intros)

lemma alike_octets [alike_intros]:
  "alike Wap_PeekOneByte PeekOneByte" "alike Wap_GetOneByte GetOneByte" "alike (Wap_IncreasePointer n) (IncreasePointer n)"
  "alike (Wap_DecreasePointer n) (DecreasePointer n)" "alike Wap_MarkPosition MarkPosition" "alike Wap_UnMarkPosition UnMarkPosition"
  "alike (Wap_WriteDataBuffer w) (WriteDataBuffer w)"
  by (simp_all add: alike_def Wap_PeekOneByte_def PeekOneByte_def Wap_GetOneByte_def GetOneByte_def Wap_IncreasePointer_def IncreasePointer_def
      Wap_DecreasePointer_def DecreasePointer_def Wap_MarkPosition_def MarkPosition_def Wap_UnMarkPosition_def UnMarkPosition_def
      Wap_WriteDataBuffer_def WriteDataBuffer_def upd_def mms_of_def)

lemma alike_uintvar_loop [alike_intros]: "alike (wap_uintvar_loop v c x) (uintvar_loop v c x)"
  unfolding alike_def
proof
  fix b
  show "uintvar_loop v c x (mms_of b) = map_outcome (\<lambda>x. x) mms_of (wap_uintvar_loop v c x b)"
  proof (induction v c x b rule: wap_uintvar_loop.induct)
    case (1 v c x b)
    show ?case
      using alikeD [OF alike_octets(2), of b] 1
      by (cases "Wap_GetOneByte b"; subst uintvar_loop.simps; subst wap_uintvar_loop.simps) (auto simp: septet_in_def)
  qed
qed

lemma alike_until_zero [alike_intros]: "alike wap_until_zero read_until_zero"
  unfolding alike_def
proof
  fix b
  show "read_until_zero (mms_of b) = map_outcome (\<lambda>x. x) mms_of (wap_until_zero b)"
  proof (induction b rule: wap_until_zero.induct)
    case (1 b)
    show ?case
      using alikeD [OF alike_octets(2), of b] 1
      by (cases "Wap_GetOneByte b"; subst read_until_zero.simps; subst wap_until_zero.simps) (auto split: outcome.splits)
  qed
qed

lemma alike_DecodeUintvar [alike_intros]: "alike Wap_DecodeUintvar DecodeUintvar"
  unfolding Wap_DecodeUintvar_def DecodeUintvar_def by (intro alike_intros)

lemma alike_lengths [alike_intros]:
  "alike Wap_DecodeShortLength DecodeShortLength" "alike Wap_DecodeValueLength DecodeValueLength"
  "alike Wap_DecodeValueLengthReturnLen DecodeValueLengthReturnLen"
  unfolding Wap_DecodeShortLength_def DecodeShortLength_def Wap_DecodeValueLength_def DecodeValueLength_def
    Wap_DecodeValueLengthReturnLen_def DecodeValueLengthReturnLen_def
  by (intro alike_intros)+

lemma alike_CharIsToken: "Wap_CharIsToken = CharIsToken"
  by (auto simp: Wap_CharIsToken_def CharIsToken_def separators_def fun_eq_iff not_less)

lemma alike_texts [alike_intros]:
  "alike Wap_DecodeTokenText DecodeTokenText" "alike Wap_DecodeQuotedText DecodeQuotedText"
  unfolding Wap_DecodeTokenText_def DecodeTokenText_def Wap_DecodeQuotedText_def DecodeQuotedText_def alike_CharIsToken Let_def
  by (intro alike_intros)+

lemma alike_DecodeText [alike_intros]: "alike Wap_DecodeText (bnd DecodeText (\<lambda>(str, len). if len > 0 then ret (str, len) else fail))"
proof -
  have r: "bnd (ret x) k = k x" for x :: "bytes \<times> u32" and k :: "bytes \<times> u32 \<Rightarrow> (MmsBuffer, bytes \<times> u32) op" by (rule ext) (simp add: bnd_def ret_def)
  show ?thesis unfolding Wap_DecodeText_def DecodeText_def bnd_assoc Let_def r prod.case by (intro alike_intros)
qed

lemma alike_integers [alike_intros]:
  "alike Wap_DecodeShortInteger DecodeShortInteger" "alike Wap_DecodeLongInteger DecodeLongInteger"
  unfolding Wap_DecodeShortInteger_def DecodeShortInteger_def Wap_DecodeLongInteger_def DecodeLongInteger_def Wap_LONG_VALUE_LEN_MAX_def
    LONG_VALUE_LEN_MAX_def multi_octet_value_def
  by (intro alike_intros)+

lemma alike_peek [alike_intros]:
  "alike wap_peek_or_zero peek_or_zero"
  unfolding wap_peek_or_zero_def peek_or_zero_def by (intro alike_intros)

lemma alike_kinds [alike_intros]:
  "alike Wap_DecodeIsShortInt DecodeIsShortInt" "alike Wap_DecodeIsString DecodeIsString" "alike Wap_DecodeIsValueLength DecodeIsValueLength"
  unfolding Wap_DecodeIsShortInt_def DecodeIsShortInt_def Wap_DecodeIsString_def DecodeIsString_def Wap_DecodeIsValueLength_def DecodeIsValueLength_def
  by (intro alike_intros)+

lemma alike_DecodeInteger [alike_intros]: "alike Wap_DecodeInteger DecodeInteger"
  unfolding Wap_DecodeInteger_def DecodeInteger_def by (intro alike_intros)

text \<open>Reading a block differs only where offset and length together pass 32 bits.\<close>

lemma alike_ReadDataBufferAt: "k + n < 2 ^ 32 \<Longrightarrow> alike (Wap_ReadDataBufferAt k n) (ReadDataBufferAt k n)"
  by (auto simp: alike_def Wap_ReadDataBufferAt_def ReadDataBufferAt_def)

text \<open>
  C14. The two implementations of the WSP values agree: on every buffer, each decoder of \<^verbatim>\<open>SmsWapPushBuffer\<close> returns what the decoder of
  \<^verbatim>\<open>MmsDecodeBuffer\<close> returns, fails where it fails, and leaves the pointer where it leaves it. The one exception is an empty text, which the decoder of the
  WAP push refuses.
\<close>

theorem wap_buffer_equivalent:
  "alike Wap_DecodeUintvar DecodeUintvar \<and> alike Wap_DecodeShortLength DecodeShortLength \<and> alike Wap_DecodeValueLength DecodeValueLength \<and>
   alike Wap_DecodeValueLengthReturnLen DecodeValueLengthReturnLen \<and> alike Wap_DecodeTokenText DecodeTokenText \<and>
   alike Wap_DecodeQuotedText DecodeQuotedText \<and> alike Wap_DecodeInteger DecodeInteger \<and> alike Wap_DecodeIsShortInt DecodeIsShortInt \<and>
   alike Wap_DecodeIsString DecodeIsString \<and> alike Wap_DecodeIsValueLength DecodeIsValueLength \<and>
   alike Wap_DecodeText (bnd DecodeText (\<lambda>(str, len). if len > 0 then ret (str, len) else fail))"
  by (intro conjI alike_intros)

section \<open>What is carried over\<close>

text \<open>What an operation of the one buffer keeps, an operation of the other one keeps that is like it.\<close>

lemma safe_alike:
  assumes "alike m n" "safe w P n Q E"
  shows "safe w (\<lambda>b. P (mms_of b)) m (\<lambda>b. Q (mms_of b)) (\<lambda>b. E (mms_of b))"
proof (rule safeI)
  fix b
  assume "P (mms_of b)"
  from safeD [OF assms(2) this] alikeD [OF assms(1), of b]
  show "case m b of Ok x t \<Rightarrow> Q (mms_of t) | Fail t \<Rightarrow> E (mms_of t) | Fault \<Rightarrow> \<not> w" by (cases "m b") auto
qed

lemma stays_DecodeText_full: "keeps_pos w (\<lambda>b. b) n N (bnd DecodeText (\<lambda>(str, len). if len > 0 then ret (str, len) else fail))"
  by (intro stay_intros stays_DecodeText)

lemmas wap_stays = alike_octets(1) [THEN safe_alike, OF stays_PeekOneByte] alike_octets(2) [THEN safe_alike, OF stays_GetOneByte]
  alike_octets(3) [THEN safe_alike, OF stays_IncreasePointer] alike_DecodeUintvar [THEN safe_alike, OF stays_DecodeUintvar]
  alike_texts(1) [THEN safe_alike, OF stays_DecodeTokenText] alike_texts(2) [THEN safe_alike, OF stays_DecodeQuotedText]
  alike_DecodeText [THEN safe_alike, OF stays_DecodeText_full] alike_integers(1) [THEN safe_alike, OF stays_DecodeShortInteger]
  alike_integers(2) [THEN safe_alike, OF stays_DecodeLongInteger] alike_kinds(1) [THEN safe_alike, OF stays_DecodeIs(1)]
  alike_kinds(2) [THEN safe_alike, OF stays_DecodeIs(2)] alike_kinds(3) [THEN safe_alike, OF stays_DecodeIs(3)]
  alike_DecodeInteger [THEN safe_alike, OF stays_DecodeInteger]

lemmas wap_adv = wap_stays [THEN stays_adv] alike_lengths(3) [THEN safe_alike, OF adv_DecodeValueLengthReturnLen]

text \<open>Reading a block is safe wherever it starts.\<close>

lemma wap_stays_ReadDataBufferAt: "keeps_pos w mms_of n N (Wap_ReadDataBufferAt k len)"
  by (rule safeI) (auto simp: Wap_ReadDataBufferAt_def at_pos_def)

lemma wap_on_buf: "keeps_pos w mms_of n N m \<Longrightarrow> keeps_pos w (\<lambda>s. mms_of (fst s)) n N (on_buf m)"
  "adv w mms_of n N m \<Longrightarrow> adv w (\<lambda>s. mms_of (fst s)) n N (on_buf m)"
  by (erule safe_on_buf)+

lemma wap_zoom: "keeps_pos w (\<lambda>s. mms_of (fst s)) n N m \<Longrightarrow> keeps_pos w (\<lambda>s. mms_of (fst s)) n N (zoom get put m)"
  "adv w (\<lambda>s. mms_of (fst s)) n N m \<Longrightarrow> adv w (\<lambda>s. mms_of (fst s)) n N (zoom get put m)"
  by (erule safe_zoom)+

lemma wap_on_out: "safe w (\<lambda>s. at_pos w n N (mms_of (fst s))) (on_out f) (\<lambda>s. at_pos w n N (mms_of (fst s))) E"
  by (rule safe_on_out)

lemmas wap_intros = safe_ret safe_if safe_option safe_prod safe_let safe_gets safe_attempt safe_ignore safe_get_out stays_fail adv_fail inv_bnd inv_seq
  wap_on_buf wap_zoom wap_on_out wap_stays wap_adv wap_stays_ReadDataBufferAt

end
