(* ===== verification/Wap_Push.thy ===== *)
theory Wap_Push
  imports Wap_Buffer Mms_Msg Sms_Receive_Reliability
begin

text \<open>
  WAP pushes: \<^verbatim>\<open>sms_wap_push_content_type.cpp\<close> and \<^verbatim>\<open>sms_wap_push_handler.cpp\<close>. The handler takes the user data of a message to the WAP port apart and publishes it; a
  notification of a multimedia message is decoded by the MMS codec to see whether its sender is blocked.
\<close>

section \<open>The content type\<close>

record SmsWapPushContentType =
  wct_contentType :: bytes
  wct_charset :: u32
  wct_type :: bytes
  textParameterMap :: "u8 \<rightharpoonup> bytes"

definition new_wap_content_type :: SmsWapPushContentType where
  "new_wap_content_type = \<lparr>wct_contentType = [], wct_charset = 0, wct_type = [], textParameterMap = Map.empty\<rparr>"

definition Wap_mapCharSet :: "(bytes \<times> u32) list" where
  "Wap_mapCharSet = map (\<lambda>(s, n). (ascii s, n))
    [(''US-ASCII'', 0x03), (''UTF-16'', 0x03F7), (''CSUNICODE'', 0x03E8), (''UTF-8'', 0x6A), (''ISO-2022-KR'', 0x25),
     (''KS_C_5601-1987'', 0x24), (''EUC-KR'', 0x26), (''ISO-2022-JP'', 0x27), (''ISO-2022-JP-2'', 0x28), (''ISO_8859-1'', 0x04),
     (''ISO_8859-2'', 0x05), (''ISO-8859-3'', 0x06), (''ISO-8859-4'', 0x07), (''ISO-8859-5'', 0x08), (''ISO-8859-6'', 0x09),
     (''ISO-8859-7'', 0x0A), (''ISO-8859-8'', 0x0B), (''ISO-8859-9'', 0x0C), (''ISO-8859-10'', 0x0D), (''ISO-8859-15'', 0x6F),
     (''SHIFT_JIS'', 0x11), (''EUC-JP'', 0x13), (''GB2312'', 0x07E9), (''BIG5'', 0x0d), (''WINDOWS-1251'', 0x08CB),
     (''KOI8-R'', 0x0824), (''KOI8-U'', 0x0828)]"

definition Wap_GetCharSetIntFromString :: "bytes \<Rightarrow> u32 option" where
  "Wap_GetCharSetIntFromString s = map_of Wap_mapCharSet s"

text \<open>The table \<^verbatim>\<open>wapContentNames\<close> has the rows of \<^verbatim>\<open>mmsContentNames\<close>; an unknown number is any type.\<close>

definition Wap_GetContentTypeFromInt :: "u8 \<Rightarrow> bytes" where
  "Wap_GetContentTypeFromInt ty = (case map_of mmsContentNames ty of None \<Rightarrow> ascii ''*/*'' | Some s \<Rightarrow> s)"

definition Wap_DecodeTextField :: "u8 \<Rightarrow> int \<Rightarrow> (SmsWapPushBuffer \<times> SmsWapPushContentType, int) op" where
  "Wap_DecodeTextField field valueLength =
     bnd (on_buf Wap_DecodeText) (\<lambda>(str, len).
     seq (on_out (\<lambda>c. c\<lparr>textParameterMap := map_insert field str (textParameterMap c)\<rparr>))
       (ret (valueLength - sint len - 1)))"

definition Wap_DecodeCharsetField :: "int \<Rightarrow> (SmsWapPushBuffer \<times> SmsWapPushContentType, int) op" where
  "Wap_DecodeCharsetField valueLength =
     bnd (on_buf Wap_PeekOneByte) (\<lambda>oneByte.
     if (oneByte > 0x20 \<and> oneByte < 0x7F) \<or> oneByte = 0 then
       bnd (on_buf Wap_DecodeText) (\<lambda>(sCharset, len).
       case Wap_GetCharSetIntFromString sCharset of
         None \<Rightarrow> fail
       | Some charset \<Rightarrow> seq (on_out (\<lambda>c. c\<lparr>wct_charset := charset\<rparr>)) (ret (valueLength - sint (len + 1))))
     else
       bnd (on_buf (gets wb_curPosition)) (\<lambda>startPosition.
       bnd (on_buf Wap_DecodeInteger) (\<lambda>tmp.
       bnd (on_buf (gets wb_curPosition)) (\<lambda>endPosition.
       seq (on_out (\<lambda>c. c\<lparr>wct_charset := ucast tmp\<rparr>))
         (ret (if endPosition \<ge> startPosition then valueLength - int (endPosition - startPosition) else valueLength))))))"

definition Wap_DecodeTypeField :: "int \<Rightarrow> (SmsWapPushBuffer \<times> SmsWapPushContentType, int) op" where
  "Wap_DecodeTypeField valueLength =
     bnd (on_buf Wap_GetOneByte) (\<lambda>oneByte.
     if oneByte > 0x7F then
       seq (on_out (\<lambda>c. c\<lparr>wct_type := Wap_GetContentTypeFromInt (oneByte AND 0x7F)\<rparr>)) (ret (valueLength - 1))
     else
       seq (on_buf (Wap_DecreasePointer 1)) (
       bnd (on_buf Wap_DecodeText) (\<lambda>(sType, len).
       seq (on_out (\<lambda>c. c\<lparr>wct_type := sType\<rparr>)) (ret (valueLength - sint len - 1)))))"

definition wap_parameter :: "u8 \<Rightarrow> int \<Rightarrow> (SmsWapPushBuffer \<times> SmsWapPushContentType, int) op" where
  "wap_parameter paramCode valueLength =
     (if paramCode = CT_P_CHARSET then Wap_DecodeCharsetField valueLength
      else if paramCode \<in> {CT_P_FILENAME, CT_P_FILENAME_VALUE, CT_P_START_VALUE, CT_P_START, CT_P_NAME, CT_P_NAME_VALUE,
        CT_P_START_INFO, CT_P_START_INFO_VALUE} then Wap_DecodeTextField paramCode valueLength
      else if paramCode = CT_P_TYPE \<or> paramCode = CT_P_TYPE_STRING then Wap_DecodeTypeField valueLength
      else seq (on_buf (Wap_IncreasePointer (nat valueLength))) (ret 0))"

lemma wap_step:
  "safe w (\<lambda>s. at_pos w n N (mms_of (fst s))) (on_buf Wap_GetOneByte) (\<lambda>s. at_pos w (Suc n) N (mms_of (fst s))) (\<lambda>s. at_pos w n N (mms_of (fst s)))"
  by (rule safe_on_buf [OF safe_alike [OF alike_octets(2) GetOneByte_step]])

lemma wap_step_back:
  "safe w (\<lambda>s. at_pos w (Suc n) N (mms_of (fst s))) (on_buf (Wap_DecreasePointer 1)) (\<lambda>s. at_pos w n N (mms_of (fst s))) (\<lambda>s. at_pos w n N (mms_of (fst s)))"
  by (rule safe_on_buf [OF safe_alike [OF alike_octets(4) step_back]])

lemma wap_TypeField: "keeps_pos w (\<lambda>s. mms_of (fst s)) n N (Wap_DecodeTypeField v)"
proof -
  have t: "keeps_pos w (\<lambda>s. mms_of (fst s)) n N (bnd (on_buf Wap_DecodeText) (\<lambda>(sType, len). seq (on_out (f sType)) (ret (v - sint len - 1))))" for f
    by (intro wap_intros)
  have s: "safe w (\<lambda>s. at_pos w (Suc n) N (mms_of (fst s))) (seq (on_out f) (ret (v - 1)))
      (\<lambda>s. at_pos w n N (mms_of (fst s))) (\<lambda>s. at_pos w n N (mms_of (fst s)))" for f
    by (rule safe_weaken [where P = "\<lambda>s. at_pos w n N (mms_of (fst s))"]) (auto intro!: wap_intros intro: at_pos_mono)
  show ?thesis unfolding Wap_DecodeTypeField_def
    by (rule safe_bnd [OF wap_step], rule safe_if, rule s, rule safe_seq [OF wap_step_back t])
qed

lemma wap_parameter_stays: "keeps_pos w (\<lambda>s. mms_of (fst s)) n N (wap_parameter c v)"
  unfolding wap_parameter_def Wap_DecodeTextField_def Wap_DecodeCharsetField_def by (intro wap_intros wap_TypeField)

text \<open>The loop over the parameters; an octet is read in every pass.\<close>

function Wap_DecodeParameter :: "int \<Rightarrow> (SmsWapPushBuffer \<times> SmsWapPushContentType, unit) op" where
  "Wap_DecodeParameter valueLength s =
     (if valueLength \<le> 0 then Ok () s
      else case bnd (on_buf Wap_GetOneByte) (\<lambda>oneByte. wap_parameter oneByte (valueLength - 1)) s of
             Ok v t \<Rightarrow> Wap_DecodeParameter v t
           | Fail t \<Rightarrow> Fail t
           | Fault \<Rightarrow> Fault)"
  by pat_completeness auto

lemma wap_progress:
  assumes m: "keeps_pos False (\<lambda>s. mms_of (fst s)) (Suc (wb_curPosition (fst s))) (wb_totolLength (fst s)) (k x)"
    and r: "on_buf Wap_GetOneByte s = Ok x r" "k x r = Ok v t"
  shows "wb_totolLength (fst t) - wb_curPosition (fst t) < wb_totolLength (fst s) - wb_curPosition (fst s)"
proof -
  have "at_pos False (Suc (wb_curPosition (fst s))) (wb_totolLength (fst s)) (mms_of (fst r))" "wb_curPosition (fst s) < wb_totolLength (fst s)"
    using r(1) by (auto simp: on_buf_def Wap_GetOneByte_def at_pos_def split: if_splits)
  with safeD [OF m this(1)] r(2) show ?thesis by (auto simp: at_pos_def)
qed

lemma wap_parameter_progress:
  assumes "bnd (on_buf Wap_GetOneByte) (\<lambda>c. wap_parameter c v) s = Ok v' t"
  shows "wb_totolLength (fst t) - wb_curPosition (fst t) < wb_totolLength (fst s) - wb_curPosition (fst s)"
proof -
  obtain c r where "on_buf Wap_GetOneByte s = Ok c r" "wap_parameter c v r = Ok v' t"
    using assms by (auto simp: bnd_def split: outcome.splits)
  then show ?thesis by (rule wap_progress [OF wap_parameter_stays])
qed

termination Wap_DecodeParameter
  by (relation "measure (\<lambda>(_, s). wb_totolLength (fst s) - wb_curPosition (fst s))") (auto dest: wap_parameter_progress)

declare Wap_DecodeParameter.simps [simp del]

lemma wap_DecodeParameter_stays: "keeps_pos w (\<lambda>s. mms_of (fst s)) n N (Wap_DecodeParameter v)"
proof (rule safeI)
  fix s :: "SmsWapPushBuffer \<times> SmsWapPushContentType"
  assume "at_pos w n N (mms_of (fst s))"
  then show "case Wap_DecodeParameter v s of Ok x t \<Rightarrow> at_pos w n N (mms_of (fst t)) | Fail t \<Rightarrow> at_pos w n N (mms_of (fst t)) | Fault \<Rightarrow> \<not> w"
  proof (induction v s rule: Wap_DecodeParameter.induct)
    case (1 v s)
    have "keeps_pos w (\<lambda>s. mms_of (fst s)) n N (bnd (on_buf Wap_GetOneByte) (\<lambda>c. wap_parameter c (v - 1)))" by (intro wap_intros wap_parameter_stays)
    from safeD [OF this 1(2)] 1 show ?case by (subst Wap_DecodeParameter.simps) (auto split: outcome.splits)
  qed
qed

text \<open>The text of a type, where the call of \<^verbatim>\<open>DecodeText\<close> is not looked at.\<close>

definition wap_type_text :: "(SmsWapPushBuffer \<times> SmsWapPushContentType, bytes \<times> u32) op" where
  "wap_type_text = bnd (on_buf (attempt Wap_DecodeText)) (\<lambda>r. ret (case r of None \<Rightarrow> ([], 0) | Some x \<Rightarrow> x))"

definition DecodeCTGeneralForm :: "(SmsWapPushBuffer \<times> SmsWapPushContentType, int) op" where
  "DecodeCTGeneralForm =
     bnd (on_buf Wap_DecodeIsValueLength) (\<lambda>c.
     if \<not> c then fail
     else
       bnd (on_buf Wap_DecodeValueLengthReturnLen) (\<lambda>(valueLength, returnLength).
       let contentLength = sint (valueLength + returnLength) in
       bnd (on_buf Wap_PeekOneByte) (\<lambda>oneByte.
       bnd (on_buf Wap_DecodeIsShortInt) (\<lambda>short.
       bnd (on_buf Wap_DecodeIsString) (\<lambda>string.
       bnd (if short then
              seq (on_out (\<lambda>c. c\<lparr>wct_contentType := Wap_GetContentTypeFromInt (oneByte AND 0x7F)\<rparr>)) (
              seq (on_buf (Wap_IncreasePointer 1)) (
              if valueLength = 0 then fail else ret (valueLength - 1)))
            else if string then
              bnd wap_type_text (\<lambda>(sType, len).
              seq (on_out (\<lambda>c. c\<lparr>wct_contentType := sType\<rparr>))
                (ret (if valueLength < len + 1 then 0 else valueLength - len - 1)))
            else fail) (\<lambda>valueLength.
       seq (Wap_DecodeParameter (sint valueLength)) (ret contentLength)))))))"

definition DecodeContentType :: "(SmsWapPushBuffer \<times> SmsWapPushContentType, int) op" where
  "DecodeContentType =
     bnd (on_buf Wap_DecodeIsShortInt) (\<lambda>short.
     if short then
       bnd (on_buf Wap_GetOneByte) (\<lambda>oneByte.
       seq (on_out (\<lambda>c. c\<lparr>wct_contentType := Wap_GetContentTypeFromInt (oneByte AND 0x7F)\<rparr>)) (ret 1))
     else
       bnd (on_buf Wap_DecodeIsString) (\<lambda>string.
       if string then
         bnd wap_type_text (\<lambda>(sType, len).
         seq (on_out (\<lambda>c. c\<lparr>wct_contentType := sType\<rparr>)) (ret (sint (len + 1))))
       else DecodeCTGeneralForm))"

lemma wap_content_type_adv: "adv w (\<lambda>s. mms_of (fst s)) n N DecodeContentType"
proof -
  have t: "adv w (\<lambda>s. mms_of (fst s)) n N wap_type_text" unfolding wap_type_text_def by (intro wap_intros)
  note p = stays_adv [OF wap_DecodeParameter_stays]
  show ?thesis unfolding DecodeContentType_def DecodeCTGeneralForm_def Let_def by (intro wap_intros t p)
qed

section \<open>The handler\<close>

definition PDU_TYPE_PUSH :: u8 where "PDU_TYPE_PUSH = 0x06"
definition PDU_TYPE_CONFIRMED_PUSH :: u8 where "PDU_TYPE_CONFIRMED_PUSH = 0x07"
definition PARAMETER_X_WAP_APPLICATION_ID :: u64 where "PARAMETER_X_WAP_APPLICATION_ID = 0x2F"
definition CONTENT_MIME_TYPE_B_PUSH_CO :: bytes where "CONTENT_MIME_TYPE_B_PUSH_CO = ascii ''application/vnd.wap.coc''"

text \<open>The members of the handler; it handles one push after the other.\<close>

record SmsWapPushHandler =
  wh_slotId :: int
  pushType :: u8
  strAppId :: bytes
  wh_transactionId :: u8
  wh_contentType :: SmsWapPushContentType
  hexHeaderData :: bytes
  hexWbXmlData :: bytes

definition new_wap_handler :: "int \<Rightarrow> SmsWapPushHandler" where
  "new_wap_handler slot = \<lparr>wh_slotId = slot, pushType = 0, strAppId = [], wh_transactionId = 0, wh_contentType = new_wap_content_type,
     hexHeaderData = [], hexWbXmlData = []\<rparr>"

text \<open>What is published, and what the handler does at its end.\<close>

record wap_event =
  we_slotId :: int
  we_pushType :: int
  we_applicationId :: bytes
  we_transactionId :: int
  we_contentType :: bytes
  we_headerData :: bytes
  we_rawData :: bytes
  we_dataBaseId :: int
  we_msgRefId :: u16
  we_address :: bytes
  we_msgCount :: u16

datatype wap_action = PublishWapPush wap_event | DeleteWapPush SmsReceiveIndexer

type_synonym 'a wap_op = "(SmsWapPushBuffer \<times> SmsWapPushHandler, 'a) op"

definition DecodePushType :: "unit wap_op" where
  "DecodePushType =
     seq (on_out (\<lambda>h. h\<lparr>wh_transactionId := 0\<rparr>)) (
     bnd (on_buf Wap_GetOneByte) (\<lambda>x.
     seq (on_out (\<lambda>h. h\<lparr>wh_transactionId := x, pushType := 0\<rparr>)) (
     bnd (on_buf Wap_GetOneByte) (\<lambda>y.
     seq (on_out (\<lambda>h. h\<lparr>pushType := y\<rparr>)) (
     if y \<noteq> PDU_TYPE_PUSH \<and> y \<noteq> PDU_TYPE_CONFIRMED_PUSH then fail else ret ())))))"

text \<open>
  The application: a number is passed over, and the identifier stays what it was. \<^verbatim>\<open>DecodeText\<close> clears the identifier before it reads.
\<close>

definition DecodeXWapApplicationValue :: "unit wap_op" where
  "DecodeXWapApplicationValue =
     bnd (on_buf (attempt Wap_DecodeInteger)) (\<lambda>r.
     if r \<noteq> None then ret ()
     else
       bnd (on_buf (attempt Wap_DecodeText)) (\<lambda>r.
       case r of
         None \<Rightarrow> seq (on_out (\<lambda>h. h\<lparr>strAppId := []\<rparr>)) fail
       | Some (str, len) \<Rightarrow> on_out (\<lambda>h. h\<lparr>strAppId := str\<rparr>)))"

definition DecodeXWapAbandonHeaderValue :: "(SmsWapPushBuffer, unit) op" where
  "DecodeXWapAbandonHeaderValue =
     bnd Wap_GetOneByte (\<lambda>oneByte.
     if oneByte \<le> 30 then Wap_IncreasePointer (unat oneByte)
     else if oneByte = 31 then bnd Wap_DecodeUintvar (\<lambda>(len, count). Wap_IncreasePointer (unat len))
     else if oneByte \<le> 127 then seq Wap_DecodeText (ret ())
     else ret ())"

lemma DecodeInteger_step: "safe w (at_pos w n N) DecodeInteger (at_pos w (Suc n) N) (at_pos w n N)"
proof -
  have f: "safe w (at_pos w (Suc n) N) fail (at_pos w (Suc n) N) (at_pos w n N)" by (rule safe_fail) (simp add: at_pos_def)
  have c: "safe w (at_pos w (Suc n) N) (collect (\<lambda>_. GetOneByte) i k) (at_pos w (Suc n) N) (at_pos w n N)" for i k
    by (rule safe_collect, rule safe_weaken [OF stays_GetOneByte [of w "Suc n" N]]) (auto intro: at_pos_mono)
  show ?thesis unfolding DecodeInteger_def DecodeShortInteger_def DecodeLongInteger_def bnd_assoc
    by (rule safe_bnd [OF stays_DecodeIs(1)], rule safe_if; rule safe_bnd [OF GetOneByte_step])
      (intro safe_intros safe_bnd [of w "at_pos w (Suc n) N" _ "at_pos w (Suc n) N"] f c)+
qed

lemma wap_integer_step:
  "safe w (\<lambda>s. at_pos w n N (mms_of (fst s))) (on_buf Wap_DecodeInteger) (\<lambda>s. at_pos w (Suc n) N (mms_of (fst s))) (\<lambda>s. at_pos w n N (mms_of (fst s)))"
  by (rule safe_on_buf [OF safe_alike [OF alike_DecodeInteger DecodeInteger_step]])

lemma wap_abandon_stays: "keeps_pos w mms_of n N DecodeXWapAbandonHeaderValue"
  unfolding DecodeXWapAbandonHeaderValue_def by (intro wap_intros)

definition wap_pass_field :: "unit wap_op" where
  "wap_pass_field = on_buf (ignore DecodeXWapAbandonHeaderValue)"

lemma wap_pass_field_stays: "keeps_pos w (\<lambda>s. mms_of (fst s)) n N wap_pass_field"
  unfolding wap_pass_field_def by (intro wap_intros wap_abandon_stays)

function DecodeXWapApplicationField :: "unit wap_op" where
  "DecodeXWapApplicationField s =
     (if wb_curPosition (fst s) < wb_totolLength (fst s) then
        (case on_buf Wap_DecodeInteger s of
           Ok fieldValue t \<Rightarrow>
             if fieldValue = PARAMETER_X_WAP_APPLICATION_ID then DecodeXWapApplicationValue t
             else (case wap_pass_field t of Ok _ u \<Rightarrow> DecodeXWapApplicationField u | Fail u \<Rightarrow> Fail u | Fault \<Rightarrow> Fault)
         | Fail t \<Rightarrow> Fail t
         | Fault \<Rightarrow> Fault)
      else Fail s)"
  by pat_completeness auto

lemma wap_field_progress:
  assumes lt: "wb_curPosition (fst s) < wb_totolLength (fst s)" and r: "on_buf Wap_DecodeInteger s = Ok v t" "wap_pass_field t = Ok x u"
  shows "wb_totolLength (fst u) - wb_curPosition (fst u) < wb_totolLength (fst s) - wb_curPosition (fst s)"
proof -
  have "at_pos False (wb_curPosition (fst s)) (wb_totolLength (fst s)) (mms_of (fst s))" by (simp add: at_pos_def)
  from safeD [OF wap_integer_step this] r(1)
  have t: "at_pos False (Suc (wb_curPosition (fst s))) (wb_totolLength (fst s)) (mms_of (fst t))" by simp
  from safeD [OF wap_pass_field_stays t] r(2) lt show ?thesis by (auto simp: at_pos_def)
qed

termination DecodeXWapApplicationField
  by (relation "measure (\<lambda>s. wb_totolLength (fst s) - wb_curPosition (fst s))") (auto dest: wap_field_progress)

declare DecodeXWapApplicationField.simps [simp del]

text \<open>The headers behind the content type, in a buffer of their own.\<close>

definition DecodeXWapApplication :: "nat \<Rightarrow> unit wap_op" where
  "DecodeXWapApplication headersLen =
     bnd (on_buf (attempt (Wap_ReadDataBuffer headersLen))) (\<lambda>r.
     case r of
       None \<Rightarrow> fail
     | Some tempHeadersBuffer \<Rightarrow>
         if headersLen = 0 then fail
         else
           bnd (with_new new_wap_buffer (Wap_WriteDataBuffer tempHeadersBuffer)) (\<lambda>(_, tempXWapDataBuffer).
           seq (on_buf (ignore (Wap_IncreasePointer headersLen)))
             (\<lambda>s. case DecodeXWapApplicationField (tempXWapDataBuffer, snd s) of
                    Ok x t \<Rightarrow> Ok x (fst s, snd t) | Fail t \<Rightarrow> Fail (fst s, snd t) | Fault \<Rightarrow> Fault)))"

definition DecodeWapPushPduData :: "nat \<Rightarrow> nat \<Rightarrow> unit wap_op" where
  "DecodeWapPushPduData startHeader headerLength =
     bnd (on_buf (Wap_ReadDataBufferAt startHeader headerLength)) (\<lambda>headerBuffer.
     bnd (StringToHex_buffer headerBuffer (int headerLength)) (\<lambda>hexHeader.
     seq (on_out (\<lambda>h. h\<lparr>hexHeaderData := hexHeader\<rparr>)) (
     bnd get_out (\<lambda>h.
     bnd (on_buf (gets wb_totolLength)) (\<lambda>total.
     let co = (wct_contentType (wh_contentType h) = CONTENT_MIME_TYPE_B_PUSH_CO);
         dataLength = (if co then total else total - startHeader - headerLength);
         posData = (if co then 0 else startHeader + headerLength) in
     bnd (on_buf (Wap_ReadDataBufferAt posData dataLength)) (\<lambda>pduBuffer.
     bnd (StringToHex_buffer pduBuffer (int dataLength)) (\<lambda>hexData.
     on_out (\<lambda>h. h\<lparr>hexWbXmlData := hexData\<rparr>))))))))"

text \<open>
  Whether the sender of the notification of a multimedia message is blocked. The address ends before its type, as in \<^verbatim>\<open>+123/TYPE=PLMN\<close>.
\<close>

definition DeocdeCheckIsBlock :: "mms_env \<Rightarrow> bytes \<Rightarrow> ('s, bool) op" where
  "DeocdeCheckIsBlock env hexData =
     (let pdustr = HexToString hexData in
      if pdustr = [] \<or> \<not> memcpy_s_ok (length pdustr) (length pdustr) then ret False
      else
        (case DecodeMsg env pdustr new_msg of
           Fault \<Rightarrow> fault
         | Fail g \<Rightarrow> ret False
         | Ok _ mmsMsg \<Rightarrow>
             if GetHeaderOctetValue MMS_MESSAGE_TYPE mmsMsg = 130 then
               let addr = addressString (GetMmsFrom mmsMsg); n = length (takeWhile (\<lambda>c. c \<noteq> 0x2F) addr) in
               if n < length addr \<and> n = 0 then ret False
               else ret (QueryBlockPhoneNumber (take n addr))
             else ret False))"

definition SendWapPushMessageBroadcast :: "SmsReceiveIndexer \<Rightarrow> SmsWapPushHandler \<Rightarrow> wap_event" where
  "SendWapPushMessageBroadcast x h = \<lparr>we_slotId = wh_slotId h, we_pushType = uint (pushType h), we_applicationId = strAppId h,
     we_transactionId = uint (wh_transactionId h), we_contentType = wct_contentType (wh_contentType h), we_headerData = hexHeaderData h,
     we_rawData = hexWbXmlData h, we_dataBaseId = ri_dataBaseId x, we_msgRefId = ri_msgRefId x, we_address = ri_originatingAddress x,
     we_msgCount = ri_msgCount x\<rparr>"

text \<open>Sums and differences of lengths are computed with 32 bits.\<close>

definition decode_wap_pdu :: "mms_env \<Rightarrow> SmsReceiveIndexer \<Rightarrow> wap_action wap_op" where
  "decode_wap_pdu env x =
     seq DecodePushType (
     bnd (on_buf Wap_DecodeUintvar) (\<lambda>(headerLength, count).
     bnd (on_buf (gets wb_curPosition)) (\<lambda>startHeader.
     seq (zoom wh_contentType (\<lambda>c h. h\<lparr>wh_contentType := c\<rparr>) DecodeContentType) (
     bnd (on_buf (gets wb_curPosition)) (\<lambda>curentPosition.
     if headerLength + word_of_nat startHeader \<le> word_of_nat curentPosition then fail
     else
       let headersLen = headerLength - word_of_nat curentPosition + word_of_nat startHeader in
       seq (ignore (DecodeXWapApplication (unat headersLen))) (
       seq (DecodeWapPushPduData startHeader (unat headerLength)) (
       bnd get_out (\<lambda>h.
       bnd (DeocdeCheckIsBlock env (hexWbXmlData h)) (\<lambda>blocked.
       ret (if blocked then DeleteWapPush x else PublishWapPush (SendWapPushMessageBroadcast x h)))))))))))"

definition DecodeWapPushPdu :: "mms_env \<Rightarrow> SmsReceiveIndexer option \<Rightarrow> bytes \<Rightarrow> (SmsWapPushHandler, wap_action) op" where
  "DecodeWapPushPdu env indexer wapPdu =
     (case indexer of
        None \<Rightarrow> fail
      | Some x \<Rightarrow> with_buffer new_wap_buffer (seq (on_buf (WriteRawStringBuffer wapPdu)) (decode_wap_pdu env x)))"

section \<open>Memory safety\<close>

abbreviation (input) wap_pos :: "SmsWapPushBuffer \<times> 'o \<Rightarrow> MmsBuffer" where
  "wap_pos \<equiv> \<lambda>s. mms_of (fst s)"

lemma wap_value_stays: "keeps_pos w wap_pos n N DecodeXWapApplicationValue"
  unfolding DecodeXWapApplicationValue_def by (intro wap_intros)

lemma wap_field_inv:
  assumes i: "safe w P (on_buf Wap_DecodeInteger) P P" and f: "safe w P wap_pass_field P P" and v: "safe w P DecodeXWapApplicationValue P P"
  shows "safe w P DecodeXWapApplicationField P P"
proof (rule safeI)
  fix s :: "SmsWapPushBuffer \<times> SmsWapPushHandler"
  assume "P s"
  then show "case DecodeXWapApplicationField s of Ok x t \<Rightarrow> P t | Fail t \<Rightarrow> P t | Fault \<Rightarrow> \<not> w"
  proof (induction s rule: DecodeXWapApplicationField.induct)
    case (1 s)
    show ?case
    proof (cases "on_buf Wap_DecodeInteger s")
      case (Ok x t)
      with safeD [OF i 1(2)] have t: "P t" by simp
      note vf = safeD [OF v t] safeD [OF f t]
      show ?thesis by (cases "wap_pass_field t") (use 1 Ok vf in \<open>subst DecodeXWapApplicationField.simps; simp\<close>)+
    qed (use 1(2) safeD [OF i 1(2)] in \<open>subst DecodeXWapApplicationField.simps; simp\<close>)+
  qed
qed

lemma wap_field_stays: "keeps_pos w wap_pos n N DecodeXWapApplicationField"
  by (intro wap_field_inv wap_pass_field_stays wap_value_stays) (intro wap_intros)

lemma wap_headers_stays: "keeps_pos w wap_pos n N (\<lambda>s. case DecodeXWapApplicationField (b, snd s) of
    Ok x t \<Rightarrow> Ok x (fst s, snd t) | Fail t \<Rightarrow> Fail (fst s, snd t) | Fault \<Rightarrow> Fault)"
  if "Wap_WriteDataBuffer xs new_wap_buffer = Ok u b"
proof -
  have b: "at_pos w 0 (length xs) (mms_of b)"
    using that by (auto simp: Wap_WriteDataBuffer_def new_wap_buffer_def at_pos_def split: if_splits)
  have "case DecodeXWapApplicationField (b, g) of Fault \<Rightarrow> \<not> w | _ \<Rightarrow> True" for g
    using safeD [OF wap_field_stays, of w 0 "length xs" "(b, g)"] b by (auto split: outcome.splits)
  then show ?thesis by (intro safeI) (fastforce split: outcome.splits)
qed

lemma with_new_ok: "m b = Ok x c \<Longrightarrow> bnd (with_new b m) k = k (x, c)"
  by (simp add: fun_eq_iff bnd_def with_new_def)

lemma wap_application_stays: "keeps_pos w wap_pos n N (DecodeXWapApplication k)"
proof -
  have "keeps_pos w mms_of n N (Wap_ReadDataBuffer k)"
    using wap_stays_ReadDataBufferAt by (simp add: safe_def Wap_ReadDataBuffer_def)
  then have r: "keeps_pos w wap_pos n N (on_buf (attempt (Wap_ReadDataBuffer k)))" by (intro wap_intros)
  have h: "keeps_pos w wap_pos n N (bnd (with_new new_wap_buffer (Wap_WriteDataBuffer xs)) (\<lambda>(_, b). seq (on_buf (ignore (Wap_IncreasePointer k)))
      (\<lambda>s. case DecodeXWapApplicationField (b, snd s) of Ok x t \<Rightarrow> Ok x (fst s, snd t) | Fail t \<Rightarrow> Fail (fst s, snd t) | Fault \<Rightarrow> Fault)))" for xs
  proof (cases "Wap_WriteDataBuffer xs new_wap_buffer")
    case (Ok u b)
    have "keeps_pos w wap_pos n N (seq (on_buf (ignore (Wap_IncreasePointer k)))
      (\<lambda>s. case DecodeXWapApplicationField (b, snd s) of Ok x t \<Rightarrow> Ok x (fst s, snd t) | Fail t \<Rightarrow> Fail (fst s, snd t) | Fault \<Rightarrow> Fault))"
      by (rule safe_seq [OF _ wap_headers_stays [OF Ok]]) (intro wap_intros)
    then show ?thesis by (simp add: with_new_ok [where m = "Wap_WriteDataBuffer xs", OF Ok])
  qed (simp_all add: safe_def bnd_def with_new_def Wap_WriteDataBuffer_def split: if_splits)
  show ?thesis unfolding DecodeXWapApplication_def
    by (rule inv_bnd [OF r], rule safe_option, rule stays_fail, rule safe_if, rule stays_fail, rule h)
qed

text \<open>As many octets are converted as were read.\<close>

lemma wap_hex_stays:
  assumes "\<And>x. keeps_pos w wap_pos n N (f x)"
  shows "keeps_pos w wap_pos n N (bnd (on_buf (Wap_ReadDataBufferAt k len)) (\<lambda>xs. bnd (StringToHex_buffer xs (int len)) f))"
proof (rule safeI)
  fix s :: "SmsWapPushBuffer \<times> 'a"
  assume s: "at_pos w n N (mms_of (fst s))"
  from safeD [OF wap_stays_ReadDataBufferAt this, of k len] safeD [OF assms s]
  show "case bnd (on_buf (Wap_ReadDataBufferAt k len)) (\<lambda>xs. bnd (StringToHex_buffer xs (int len)) f) s of
      Ok x t \<Rightarrow> at_pos w n N (mms_of (fst t)) | Fail t \<Rightarrow> at_pos w n N (mms_of (fst t)) | Fault \<Rightarrow> \<not> w"
    by (auto simp: bnd_def on_buf_def Wap_ReadDataBufferAt_def StringToHex_buffer_def ret_def fault_def)
qed

lemma wap_data_stays: "keeps_pos w wap_pos n N (DecodeWapPushPduData k len)"
  unfolding DecodeWapPushPduData_def Let_def by (intro wap_hex_stays wap_intros)

lemma wap_block_stays: "safe w P (DeocdeCheckIsBlock env x) P E"
  using DecodeMsg_no_fault by (intro safeI) (auto simp: DeocdeCheckIsBlock_def Let_def ret_def split: outcome.splits)

lemma wap_decode_adv: "adv w wap_pos n N (decode_wap_pdu env x)"
  unfolding decode_wap_pdu_def DecodePushType_def Let_def
  by (intro wap_intros wap_content_type_adv wap_block_stays stays_adv [OF wap_data_stays] wap_application_stays)

text \<open>
  C13. Handling a WAP push is memory safe: whatever octets arrive, and whatever an earlier push left in the handler, no read of the push handler, of the
  content type decoder or of the multimedia codec it calls is outside its array. Every loop ends, since the functions are total.
\<close>

theorem DecodeWapPushPdu_safe: "DecodeWapPushPdu env indexer wapPdu h \<noteq> Fault"
proof (cases indexer)
  case (Some x)
  have "safe True (\<lambda>b. b = new_wap_buffer) (WriteRawStringBuffer wapPdu) (\<lambda>b. at_pos True 0 (length wapPdu) (mms_of b)) (\<lambda>_. True)"
    by (rule safeI) (auto simp: WriteRawStringBuffer_def at_pos_def new_wap_buffer_def)
  note w = safe_on_buf [OF this]
  have "safe True (\<lambda>s. at_pos True 0 (length wapPdu) (mms_of (fst s))) (decode_wap_pdu env x) (\<lambda>_. True) (\<lambda>_. True)"
    by (rule safe_weaken [OF wap_decode_adv]) auto
  from with_buffer_safe [OF safe_seq [OF w this]] Some show ?thesis by (simp add: DecodeWapPushPdu_def)
qed (simp add: DecodeWapPushPdu_def fail_def)

end
