(* ===== verification/Wap_Push_Layout.thy ===== *)
theory Wap_Push_Layout
  imports Wap_Push
begin

text \<open>
  What the handler of WAP pushes makes of a well formed push: the octets before and after its pointer are written out, and the decoders of the multimedia
  codec that do the same give their results.
\<close>

section \<open>Octets before the pointer\<close>

definition wmb :: "bytes \<Rightarrow> bytes \<Rightarrow> SmsWapPushBuffer" where
  "wmb p xs = \<lparr>wb_pduBuffer = p @ xs, wb_curPosition = length p, wb_totolLength = length p + length xs, wb_savePosition = 0\<rparr>"

lemma mms_of_wmb [simp]: "mms_of (wmb p xs) = mb p xs"
  by (simp add: mms_of_def wmb_def mb_def)

lemma wmb_fields [simp]:
  "wb_curPosition (wmb p xs) = length p" "wb_totolLength (wmb p xs) = length p + length xs" "wb_pduBuffer (wmb p xs) = p @ xs"
  by (simp_all add: wmb_def)

lemma mms_of_inject [simp]: "mms_of b = mms_of c \<longleftrightarrow> b = c"
  by (cases b; cases c) (simp add: mms_of_def)

lemma mms_of_mb: "mms_of b = mb p xs \<longleftrightarrow> b = wmb p xs"
  using mms_of_inject [of b "wmb p xs"] by simp

lemma alike_Ok: "alike m n \<Longrightarrow> n (mb p xs) = Ok r (mb q ys) \<Longrightarrow> m (wmb p xs) = Ok r (wmb q ys)"
  using alikeD [of m n "wmb p xs"] by (cases "m (wmb p xs)") (auto simp: mms_of_mb dest: sym)

lemma alike_Fail: "alike m n \<Longrightarrow> n (mb p xs) = Fail (mb q ys) \<Longrightarrow> m (wmb p xs) = Fail (wmb q ys)"
  using alikeD [of m n "wmb p xs"] by (cases "m (wmb p xs)") (auto simp: mms_of_mb dest: sym)

lemmas wap_octet = alike_octets(2) [THEN alike_Ok, OF GetOneByte_mb(1)]
lemmas wap_uintvar = alike_DecodeUintvar [THEN alike_Ok, OF uintvar.dec_octets, simplified]

lemma wap_is_short: "Wap_DecodeIsShortInt (wmb p (x # xs)) = Ok (x > 0x7F) (wmb p (x # xs))"
  by (rule alike_kinds(1) [THEN alike_Ok]) (simp add: DecodeIsShortInt_def op_simps mb_simps)

lemma wap_short: "x > 0x7F \<Longrightarrow> Wap_DecodeInteger (wmb p (x # xs)) = Ok (ucast (x AND 0x7F)) (wmb (p @ [x]) xs)"
  by (rule alike_DecodeInteger [THEN alike_Ok])
    (simp add: DecodeInteger_def DecodeIsShortInt_def DecodeShortInteger_def op_simps mb_simps)

text \<open>A character is taken for the length of a long integer.\<close>

lemma wap_no_integer: "8 < x \<Longrightarrow> x \<le> 0x7F \<Longrightarrow> Wap_DecodeInteger (wmb p (x # xs)) = Fail (wmb (p @ [x]) xs)"
  by (rule alike_DecodeInteger [THEN alike_Fail])
    (simp add: DecodeInteger_def DecodeIsShortInt_def DecodeLongInteger_def LONG_VALUE_LEN_MAX_def op_simps mb_simps linorder_not_less [symmetric])

lemma wap_text:
  assumes "is_text v" "length v < 2 ^ 32"
  shows "Wap_DecodeText (wmb p (v @ 0 # xs)) = Ok (v, word_of_nat (length v)) (wmb (p @ v @ [0]) xs)"
proof (rule alike_DecodeText [THEN alike_Ok])
  obtain c w where "v = c # w" "c \<noteq> 0x7F" "0 \<notin> set v" using assms(1) by (cases v) (auto simp: is_text_def)
  moreover have "(word_of_nat (length v) :: u32) > 0" using assms by (simp add: word_less_nat_alt unat_of_nat is_text_def)
  ultimately show "bnd DecodeText (\<lambda>(str, len). if len > 0 then ret (str, len) else fail) (mb p (v @ 0 # xs)) =
      Ok (v, word_of_nat (length v)) (mb (p @ v @ [0]) xs)"
    using read_until_zero_mb [of v p xs] by (simp add: DecodeText_def op_simps mb_simps)
qed

section \<open>The application id\<close>

text \<open>
  C36. The identifier of the application a push is for: a textual identifier loses its first character, because the attempt to read an integer has taken an octet
  before the text is read; and a push with a numeric identifier is published with the identifier of the push before it, since nothing is stored for it.
\<close>

theorem application_id_decoded:
  assumes "8 < c" "c \<le> 0x7F" "is_text cs" "length cs < 2 ^ 32" "v > 0x7F"
  shows "DecodeXWapApplicationField (wmb p (0xAF # c # cs @ 0 # rest), h) = Ok () (wmb (p @ 0xAF # c # cs @ [0]) rest, h\<lparr>strAppId := cs\<rparr>) \<and>
         DecodeXWapApplicationField (wmb p (0xAF # v # rest), h) = Ok () (wmb (p @ [0xAF, v]) rest, h)"
proof -
  have "on_buf Wap_DecodeInteger (wmb p (0xAF # xs), h) = Ok PARAMETER_X_WAP_APPLICATION_ID (wmb (p @ [0xAF]) xs, h)" for xs
    using wap_short [of "0xAF" p xs] by (simp add: on_buf_def PARAMETER_X_WAP_APPLICATION_ID_def)
  moreover have "Wap_DecodeInteger (wmb (p @ [0xAF]) (c # cs @ 0 # rest)) = Fail (wmb (p @ [0xAF, c]) (cs @ 0 # rest))"
    using wap_no_integer [OF assms(1,2), of "p @ [0xAF]"] by simp
  moreover have "Wap_DecodeText (wmb (p @ [0xAF, c]) (cs @ 0 # rest)) = Ok (cs, word_of_nat (length cs)) (wmb (p @ 0xAF # c # cs @ [0]) rest)"
    using wap_text [OF assms(3,4), of "p @ [0xAF, c]"] by simp
  moreover have "Wap_DecodeInteger (wmb (p @ [0xAF]) (v # rest)) = Ok (ucast (v AND 0x7F)) (wmb (p @ [0xAF, v]) rest)"
    using wap_short [OF assms(5), of "p @ [0xAF]"] by simp
  ultimately show ?thesis
    by (subst (1 2) DecodeXWapApplicationField.simps) (simp add: DecodeXWapApplicationValue_def op_simps)
qed

theorem application_id_decoded_witness:
  "strAppId (snd (wmb (0xAF # 0x78 # [0x2D, 0x77] @ [0]) [1], (new_wap_handler 0)\<lparr>strAppId := [0x2D, 0x77]\<rparr>)) = [0x2D, 0x77] \<and>
   DecodeXWapApplicationField (wmb [] (0xAF # 0x78 # [0x2D, 0x77] @ 0 # [1]), new_wap_handler 0) =
     Ok () (wmb ([] @ 0xAF # 0x78 # [0x2D, 0x77] @ [0]) [1], (new_wap_handler 0)\<lparr>strAppId := [0x2D, 0x77]\<rparr>) \<and>
   DecodeXWapApplicationField (wmb [] (0xAF # 0x84 # [1]), new_wap_handler 0) = Ok () (wmb ([] @ [0xAF, 0x84]) [1], new_wap_handler 0)"
  using application_id_decoded [of "0x78" "[0x2D, 0x77]" "0x84" "[]" "[1]" "new_wap_handler 0"] by (simp add: is_text_def)

section \<open>A push\<close>

text \<open>The handler changes only the identifier while it looks for it; the buffer keeps its octets.\<close>

definition only_id :: "bytes \<Rightarrow> SmsWapPushHandler \<Rightarrow> SmsWapPushBuffer \<times> SmsWapPushHandler \<Rightarrow> bool" where
  "only_id pdu h s \<longleftrightarrow> (\<exists>k a. s = (\<lparr>wb_pduBuffer = pdu, wb_curPosition = k, wb_totolLength = length pdu, wb_savePosition = 0\<rparr>, h\<lparr>strAppId := a\<rparr>))"

lemma wap_field_handler: "safe w (\<lambda>s. \<exists>a. snd s = h\<lparr>strAppId := a\<rparr>) DecodeXWapApplicationField (\<lambda>s. \<exists>a. snd s = h\<lparr>strAppId := a\<rparr>) (\<lambda>s. \<exists>a. snd s = h\<lparr>strAppId := a\<rparr>)"
  if "\<not> w"
proof (rule wap_field_inv)
  have b: "safe w (\<lambda>s. \<exists>a. snd s = h\<lparr>strAppId := a\<rparr>) (on_buf m) (\<lambda>s. \<exists>a. snd s = h\<lparr>strAppId := a\<rparr>) (\<lambda>s. \<exists>a. snd s = h\<lparr>strAppId := a\<rparr>)"
    for m :: "(SmsWapPushBuffer, 'v) op" using that by (intro safeI) (auto simp: on_buf_def split: outcome.splits)
  show "safe w (\<lambda>s. \<exists>a. snd s = h\<lparr>strAppId := a\<rparr>) (on_buf Wap_DecodeInteger) (\<lambda>s. \<exists>a. snd s = h\<lparr>strAppId := a\<rparr>) (\<lambda>s. \<exists>a. snd s = h\<lparr>strAppId := a\<rparr>)"
    "safe w (\<lambda>s. \<exists>a. snd s = h\<lparr>strAppId := a\<rparr>) wap_pass_field (\<lambda>s. \<exists>a. snd s = h\<lparr>strAppId := a\<rparr>) (\<lambda>s. \<exists>a. snd s = h\<lparr>strAppId := a\<rparr>)"
    unfolding wap_pass_field_def by (rule b)+
  show "safe w (\<lambda>s. \<exists>a. snd s = h\<lparr>strAppId := a\<rparr>) DecodeXWapApplicationValue (\<lambda>s. \<exists>a. snd s = h\<lparr>strAppId := a\<rparr>) (\<lambda>s. \<exists>a. snd s = h\<lparr>strAppId := a\<rparr>)"
    unfolding DecodeXWapApplicationValue_def
    by (intro inv_bnd inv_seq safe_if safe_option safe_prod safe_ret b) (auto simp: safe_def on_out_def fail_def)
qed

lemma application_only_id:
  assumes "only_id pdu h s" "length pdu \<le> MMS_PDU_MAX_SIZE" "wb_curPosition (fst s) + k \<le> length pdu"
  shows "\<exists>t. ignore (DecodeXWapApplication k) s = Ok () t \<and> only_id pdu h t"
proof -
  from assms(1) obtain n a where s: "s = (\<lparr>wb_pduBuffer = pdu, wb_curPosition = n, wb_totolLength = length pdu, wb_savePosition = 0\<rparr>, h\<lparr>strAppId := a\<rparr>)"
    by (auto simp: only_id_def)
  define b where "b = \<lparr>wb_pduBuffer = take k (drop n pdu), wb_curPosition = 0, wb_totolLength = k, wb_savePosition = 0\<rparr>"
  have "k \<le> MMS_PDU_MAX_SIZE" "n + k \<le> length pdu" using assms(2,3) s by simp_all
  then have "DecodeXWapApplicationField (b, h\<lparr>strAppId := a\<rparr>) \<noteq> Fault"
    using safeD [OF wap_field_stays, of True 0 k "(b, h\<lparr>strAppId := a\<rparr>)"] assms
    by (auto simp: b_def at_pos_def)
  moreover have "case DecodeXWapApplicationField (b, h\<lparr>strAppId := a\<rparr>) of Ok x t \<Rightarrow> \<exists>a. snd t = h\<lparr>strAppId := a\<rparr> | Fail t \<Rightarrow> \<exists>a. snd t = h\<lparr>strAppId := a\<rparr> | Fault \<Rightarrow> True"
    using safeD [OF wap_field_handler [of False h], of "(b, h\<lparr>strAppId := a\<rparr>)"] by (cases "DecodeXWapApplicationField (b, h\<lparr>strAppId := a\<rparr>)") (simp_all, blast+)
  ultimately show ?thesis using assms(2,3) s
    by (auto simp: ignore_def DecodeXWapApplication_def op_simps only_id_def Wap_ReadDataBuffer_def Wap_ReadDataBufferAt_def memcpy_s_ok_def
      with_new_def Wap_WriteDataBuffer_def new_wap_buffer_def Wap_IncreasePointer_def bnd_def on_buf_def attempt_def ret_def fail_def seq_def
      b_def [symmetric] split: outcome.splits)
qed


text \<open>No push is dropped as blocked, since no number is.\<close>

lemma not_blocked: "DeocdeCheckIsBlock env x s = Ok False s"
  using DecodeMsg_no_fault [of env "HexToString x" new_msg]
  by (auto simp: DeocdeCheckIsBlock_def QueryBlockPhoneNumber_def Let_def ret_def split: outcome.splits)

lemma read_block:
  assumes "length (p @ w @ xs) \<le> MMS_PDU_MAX_SIZE" "w \<noteq> []" "only_id (p @ w @ xs) h s"
  shows "on_buf (Wap_ReadDataBufferAt (length p) (length w)) s = Ok w s"
  using assms by (auto simp: only_id_def on_buf_def Wap_ReadDataBufferAt_def memcpy_s_ok_def)

lemma hex_block: "length w \<le> MMS_PDU_MAX_SIZE \<Longrightarrow> w \<noteq> [] \<Longrightarrow> StringToHex_buffer w (int (length w)) = ret (StringToHex w)"
  by (simp add: StringToHex_buffer_def)

lemma data_decoded:
  assumes "length (p @ w @ dat) \<le> MMS_PDU_MAX_SIZE" "w \<noteq> []" "dat \<noteq> []" "only_id (p @ w @ dat) h s"
    and co: "wct_contentType (wh_contentType h) \<noteq> CONTENT_MIME_TYPE_B_PUSH_CO"
  shows "DecodeWapPushPduData (length p) (length w) s =
    Ok () (fst s, (snd s)\<lparr>hexHeaderData := StringToHex w, hexWbXmlData := StringToHex dat\<rparr>)"
proof -
  from assms(4) obtain n a where s: "s = (\<lparr>wb_pduBuffer = p @ w @ dat, wb_curPosition = n, wb_totolLength = length (p @ w @ dat), wb_savePosition = 0\<rparr>, h\<lparr>strAppId := a\<rparr>)"
    by (auto simp: only_id_def)
  define t where "t = (fst s, (snd s)\<lparr>hexHeaderData := StringToHex w\<rparr>)"
  have t: "only_id ((p @ w) @ dat @ []) (h\<lparr>hexHeaderData := StringToHex w\<rparr>) t"
    by (auto simp: t_def s only_id_def intro!: exI [of _ n] exI [of _ a])
  have "on_buf (Wap_ReadDataBufferAt (length p + length w) (length dat)) t = Ok dat t"
    using read_block [OF _ assms(3) t] assms(1) by simp
  then show ?thesis using read_block [OF assms(1,2,4)] assms(1-3) co
    unfolding DecodeWapPushPduData_def Let_def
    by (simp add: op_simps hex_block t_def s)
qed

text \<open>A push: the transaction, the type, the length of the headers, the content type, the other headers, the data.\<close>

definition push_pdu :: "u8 \<Rightarrow> u8 \<Rightarrow> u8 \<Rightarrow> bytes \<Rightarrow> bytes \<Rightarrow> bytes" where
  "push_pdu tid ty ct headers dat = tid # ty # uintvar_octets (word_of_nat (Suc (length headers))) @ ct # headers @ dat"

lemma header_lengths:
  assumes "s + Suc n \<le> MMS_PDU_MAX_SIZE" "n \<noteq> 0"
  shows "\<not> word_of_nat (Suc n) + word_of_nat s \<le> (word_of_nat (Suc s) :: u32)"
    "unat (word_of_nat (Suc n) - word_of_nat (Suc s) + word_of_nat s :: u32) = n" "unat (word_of_nat (Suc n) :: u32) = Suc n"
proof -
  have "word_of_nat (Suc n) + word_of_nat s = (word_of_nat (Suc n + s) :: u32)" by simp
  moreover have "unat (word_of_nat (Suc n + s) :: u32) = Suc n + s" "unat (word_of_nat (Suc s) :: u32) = Suc s"
    using assms by (simp_all only: unat_of_nat) (simp_all add: MMS_PDU_MAX_SIZE_def)
  ultimately show "\<not> word_of_nat (Suc n) + word_of_nat s \<le> (word_of_nat (Suc s) :: u32)"
    using assms(2) by (simp only: word_le_nat_alt)
  show "unat (word_of_nat (Suc n) :: u32) = Suc n"
    using assms by (simp only: unat_of_nat) (simp add: MMS_PDU_MAX_SIZE_def)
  have "word_of_nat (Suc n) - word_of_nat (Suc s) + word_of_nat s = (word_of_nat n :: u32)" by simp
  then show "unat (word_of_nat (Suc n) - word_of_nat (Suc s) + word_of_nat s :: u32) = n"
    using assms by (simp only: unat_of_nat) (simp add: MMS_PDU_MAX_SIZE_def)
qed

lemma content_type_short:
  "ct > 0x7F \<Longrightarrow> DecodeContentType (wmb p (ct # xs), c) = Ok 1 (wmb (p @ [ct]) xs, c\<lparr>wct_contentType := Wap_GetContentTypeFromInt (ct AND 0x7F)\<rparr>)"
  by (simp add: DecodeContentType_def op_simps wap_is_short wap_octet)

text \<open>
  C12. A push is published. It is a push or a confirmed push of at most \<^verbatim>\<open>MMS_PDU_MAX_SIZE\<close> octets, its content type is one octet and not that of connection
  oriented pushes, at least one octet of headers follows the content type, and there is at least one octet of data. Then the event that is published
  holds the transaction, the type of the push, the name of the content type, and in hexadecimal exactly the octets of the headers and exactly those of the data, and
  where the message is found in the table. Nothing a former push left in the handler shows, the identifier of the application apart. A push
  with no header but its content type, or without data, is refused by the code.
\<close>

theorem wap_push_published:
  assumes "ty = PDU_TYPE_PUSH \<or> ty = PDU_TYPE_CONFIRMED_PUSH" "ct > 0x7F" "headers \<noteq> []" "dat \<noteq> []"
    and len: "length (push_pdu tid ty ct headers dat) \<le> MMS_PDU_MAX_SIZE"
    and co: "Wap_GetContentTypeFromInt (ct AND 0x7F) \<noteq> CONTENT_MIME_TYPE_B_PUSH_CO"
  shows "\<exists>a h' e. DecodeWapPushPdu env (Some x) (push_pdu tid ty ct headers dat) h = Ok (PublishWapPush e) h' \<and>
     e = \<lparr>we_slotId = wh_slotId h, we_pushType = uint ty, we_applicationId = a, we_transactionId = uint tid,
       we_contentType = Wap_GetContentTypeFromInt (ct AND 0x7F), we_headerData = StringToHex (ct # headers), we_rawData = StringToHex dat,
       we_dataBaseId = ri_dataBaseId x, we_msgRefId = ri_msgRefId x, we_address = ri_originatingAddress x, we_msgCount = ri_msgCount x\<rparr>"
proof -
  define u where "u = uintvar_octets (word_of_nat (Suc (length headers)))"
  define p where "p = tid # ty # u"
  define pdu where "pdu = p @ (ct # headers) @ dat"
  have pdu: "push_pdu tid ty ct headers dat = pdu" by (simp add: push_pdu_def pdu_def p_def u_def)
  note len = len [unfolded pdu]
  define h' where "h' = h\<lparr>wh_transactionId := tid, pushType := ty, wh_contentType := (wh_contentType h)\<lparr>wct_contentType := Wap_GetContentTypeFromInt (ct AND 0x7F)\<rparr>\<rparr>"
  have w: "WriteRawStringBuffer pdu new_wap_buffer = Ok () (wmb [] pdu)"
    using len by (simp add: WriteRawStringBuffer_def memcpy_s_ok_def new_wap_buffer_def wmb_def pdu_def)
  have g: "DecodePushType (wmb [] pdu, h) = Ok () (wmb [tid, ty] (u @ (ct # headers) @ dat), h\<lparr>wh_transactionId := tid, pushType := ty\<rparr>)"
    using assms(1) wap_octet [of "[]" tid] wap_octet [of "[tid]" ty] by (auto simp: DecodePushType_def pdu_def p_def op_simps)
  have v: "Wap_DecodeUintvar (wmb [tid, ty] (u @ (ct # headers) @ dat)) = Ok (word_of_nat (Suc (length headers)), word_of_nat (length u)) (wmb p ((ct # headers) @ dat))"
    unfolding u_def p_def by (subst wap_uintvar) simp
  have c: "DecodeContentType (wmb p ((ct # headers) @ dat), k) = Ok 1 (wmb (p @ [ct]) (headers @ dat), k\<lparr>wct_contentType := Wap_GetContentTypeFromInt (ct AND 0x7F)\<rparr>)" for k
    using content_type_short [OF assms(2)] by simp
  have "only_id pdu h' (wmb (p @ [ct]) (headers @ dat), h')"
    by (auto simp: only_id_def wmb_def pdu_def intro!: exI [of _ "strAppId h'"])
  from application_only_id [OF this, of "length headers"] len obtain t where
    t: "ignore (DecodeXWapApplication (length headers)) (wmb (p @ [ct]) (headers @ dat), h') = Ok () t" "only_id pdu h' t" by (auto simp: pdu_def)
  note d = data_decoded [of p "ct # headers" dat h' t, folded pdu_def, OF len _ assms(4) t(2)]
  from t(2) obtain a where a: "snd t = h'\<lparr>strAppId := a\<rparr>" by (auto simp: only_id_def)
  have n: "length p + Suc (length headers) \<le> MMS_PDU_MAX_SIZE" using len by (simp add: pdu_def)
  show ?thesis unfolding pdu
    using w g v c t(1) d assms(3) co header_lengths [OF n] a
    by (simp add: DecodeWapPushPdu_def with_buffer_def decode_wap_pdu_def Let_def op_simps zoom_def not_blocked h'_def SendWapPushMessageBroadcast_def)
qed

definition plain_env :: mms_env where
  "plain_env = \<lparr>char_signed = True, mms_now = 0, encode_string_func = \<lambda>_ _ s. (True, s), base64_decode = \<lambda>s. s, scan_hex = \<lambda>_. None,
     transaction_id = [], time_name = None, real_path = \<lambda>_. None, read_file = \<lambda>_. None\<rparr>"

theorem wap_push_published_witness:
  "push_pdu 1 6 0xBE [0xAF, 0x84] [1, 2] = [1, 6, 3, 0xBE, 0xAF, 0x84, 1, 2] \<and>
   (\<exists>a h' e. DecodeWapPushPdu plain_env (Some empty_page) (push_pdu 1 6 0xBE [0xAF, 0x84] [1, 2]) (new_wap_handler 0) = Ok (PublishWapPush e) h' \<and>
     we_contentType e = ascii ''application/vnd.wap.mms-message'' \<and> we_rawData e = ascii ''0102'')"
proof
  show "push_pdu 1 6 0xBE [0xAF, 0x84] [1, 2] = [1, 6, 3, 0xBE, 0xAF, 0x84, 1, 2]" by code_simp
  then have "length (push_pdu 1 6 0xBE [0xAF, 0x84] [1, 2]) \<le> MMS_PDU_MAX_SIZE" by (simp add: MMS_PDU_MAX_SIZE_def)
  moreover have "Wap_GetContentTypeFromInt (0xBE AND 0x7F) = ascii ''application/vnd.wap.mms-message''" by code_simp
  moreover have "StringToHex [1, 2] = ascii ''0102''" by code_simp
  moreover have "ascii ''application/vnd.wap.mms-message'' \<noteq> CONTENT_MIME_TYPE_B_PUSH_CO" by code_simp
  ultimately show "\<exists>a h' e. DecodeWapPushPdu plain_env (Some empty_page) (push_pdu 1 6 0xBE [0xAF, 0x84] [1, 2]) (new_wap_handler 0) = Ok (PublishWapPush e) h' \<and>
     we_contentType e = ascii ''application/vnd.wap.mms-message'' \<and> we_rawData e = ascii ''0102''"
    using wap_push_published [of 6 "0xBE" "[0xAF, 0x84]" "[1, 2]" 1 plain_env empty_page "new_wap_handler 0"]
    by (auto simp: PDU_TYPE_PUSH_def)
qed

end
