(* ===== verification/Sms_Common_Utils.thy ===== *)
theory Sms_Common_Utils
  imports Gsm_Common_Utils
begin

text \<open>
  \<^verbatim>\<open>utils/sms_common_utils.cpp\<close>: the septet packing the CDMA and cell broadcast codecs use, which works on plain arrays, and DTMF digits. (The conversion of a
  time stamp is with the GSM messages.) The names carry the prefix \<open>Utils_\<close> where the GSM class has a function of the same name.
\<close>

section \<open>Packing\<close>

text \<open>A write to element \<open>i\<close> of the array that is the state.\<close>

definition set_at :: "nat \<Rightarrow> 'a \<Rightarrow> ('a list, unit) op" where
  "set_at i v xs = (if i < length xs then Ok () (xs[i := v]) else Fault)"

definition get_at :: "nat \<Rightarrow> ('a list, 'a) op" where
  "get_at i xs = (if i < length xs then Ok (xs ! i) xs else Fault)"

text \<open>\<^verbatim>\<open>packData[dstIdx - 1] |= userData[srcIdx] << shift\<close>, and the branch that goes on with the next octet.\<close>

definition upack_low :: "u8 \<Rightarrow> nat \<Rightarrow> nat \<Rightarrow> (bytes, unit) op" where
  "upack_low c dstIdx shift =
     (if dstIdx = 0 then fault else bnd (get_at (dstIdx - 1)) (\<lambda>x. set_at (dstIdx - 1) (x OR push_bit shift c)))"

definition upack_split :: "u8 \<Rightarrow> nat \<Rightarrow> nat \<Rightarrow> (bytes, unit) op" where
  "upack_split c dstIdx shift =
     (if shift > SMS_BYTE_BIT then fault else seq (upack_low c dstIdx shift) (set_at dstIdx (drop_bit (SMS_BYTE_BIT - shift) c)))"

function upack_loop :: "bytes \<Rightarrow> nat \<Rightarrow> nat \<Rightarrow> nat \<Rightarrow> nat \<Rightarrow> nat \<Rightarrow> (bytes, nat) op" where
  "upack_loop userData dataLen packLen srcIdx dstIdx shift =
     (if \<not> (srcIdx < dataLen \<and> dstIdx < packLen) then ret dstIdx
      else if shift = 0 then
        bnd (rd_at userData srcIdx) (\<lambda>c.
        seq (set_at dstIdx c)
          (if Suc srcIdx \<ge> dataLen then ret (Suc dstIdx)
           else bnd (rd_at userData (Suc srcIdx)) (\<lambda>c.
             seq (upack_split c (Suc dstIdx) SMS_ENCODE_GSM_BIT)
               (upack_loop userData dataLen packLen (Suc (Suc srcIdx)) (Suc (Suc dstIdx)) (SMS_ENCODE_GSM_BIT - 1)))))
      else if shift > 1 then
        bnd (rd_at userData srcIdx) (\<lambda>c.
        seq (upack_split c dstIdx shift) (upack_loop userData dataLen packLen (Suc srcIdx) (Suc dstIdx) (shift - 1)))
      else
        bnd (rd_at userData srcIdx) (\<lambda>c.
        seq (upack_low c dstIdx shift) (upack_loop userData dataLen packLen (Suc srcIdx) dstIdx (shift - 1))))"
  by pat_completeness auto
termination
  by (relation "measure (\<lambda>(userData, dataLen, packLen, srcIdx, dstIdx, shift). dataLen - srcIdx)") auto

declare upack_loop.simps [simp del]

text \<open>The state is the array \<^verbatim>\<open>packData\<close>, the value the number of octets written.\<close>

definition Utils_Pack7bitChar :: "bytes \<Rightarrow> nat \<Rightarrow> nat \<Rightarrow> nat \<Rightarrow> (bytes, nat) op" where
  "Utils_Pack7bitChar userData dataLen fillBits packLen =
     (if dataLen > MAX_GSM_7BIT_DATA_LEN then ret 0
      else upack_loop userData dataLen packLen 0 (if fillBits > 0 then 1 else 0) fillBits)"

section \<open>Unpacking\<close>

text \<open>The character that is spread over the octets before and at \<^verbatim>\<open>srcIdx\<close>.\<close>

definition uunpack_char :: "bytes \<Rightarrow> nat \<Rightarrow> nat \<Rightarrow> nat \<Rightarrow> (bytes, unit) op" where
  "uunpack_char tpdu srcIdx dstIdx shift =
     (if srcIdx = 0 \<or> shift > SMS_BYTE_BIT then fault
      else bnd (rd_at tpdu (srcIdx - 1)) (\<lambda>a.
        bnd (rd_at tpdu srcIdx) (\<lambda>b.
        set_at dstIdx ((drop_bit shift a + push_bit (SMS_BYTE_BIT - shift) b) AND 0x7F))))"

text \<open>
  The \<^verbatim>\<open>for\<close> loop. At the start of a group of octets the index of the destination is compared with the length of the source, and the loop is left.
\<close>

function uunpack_loop :: "bytes \<Rightarrow> nat \<Rightarrow> nat \<Rightarrow> nat \<Rightarrow> nat \<Rightarrow> nat \<Rightarrow> (bytes, nat) op" where
  "uunpack_loop tpdu dataLen unpackDataLen srcIdx dstIdx shift =
     (if \<not> (srcIdx < dataLen \<and> dstIdx < unpackDataLen) then ret dstIdx
      else if shift = 0 then
        bnd (rd_at tpdu srcIdx) (\<lambda>x.
        seq (set_at dstIdx (x AND 0x7F))
          (if Suc dstIdx \<ge> dataLen then ret dstIdx
           else if Suc srcIdx < dataLen \<and> Suc dstIdx < unpackDataLen then
             seq (uunpack_char tpdu (Suc srcIdx) (Suc dstIdx) SMS_ENCODE_GSM_BIT)
               (uunpack_loop tpdu dataLen unpackDataLen (Suc (Suc srcIdx)) (Suc (Suc dstIdx)) (SMS_ENCODE_GSM_BIT - 1))
           else uunpack_loop tpdu dataLen unpackDataLen (Suc srcIdx) (Suc (Suc dstIdx)) SMS_ENCODE_GSM_BIT))
      else
        seq (uunpack_char tpdu srcIdx dstIdx shift)
          (uunpack_loop tpdu dataLen unpackDataLen (if shift - 1 > 0 then Suc srcIdx else srcIdx) (Suc dstIdx) (shift - 1)))"
  by pat_completeness auto
termination
  by (relation "measure (\<lambda>(tpdu, dataLen, unpackDataLen, srcIdx, dstIdx, shift). unpackDataLen - dstIdx)") auto

declare uunpack_loop.simps [simp del]

definition Utils_Unpack7bitChar :: "bytes \<Rightarrow> nat \<Rightarrow> nat \<Rightarrow> nat \<Rightarrow> (bytes, nat) op" where
  "Utils_Unpack7bitChar tpdu dataLen fillBits unpackDataLen =
     (if dataLen = 0 \<or> unpackDataLen = 0 \<or> dataLen > unpackDataLen then ret 0
      else uunpack_loop tpdu dataLen unpackDataLen (if fillBits > 0 then 1 else 0) 0 fillBits)"

text \<open>The variant for cell broadcasts, which has no early exit and looks for a last character in the remaining bits.\<close>

function cb_unpack_loop :: "bytes \<Rightarrow> nat \<Rightarrow> nat \<Rightarrow> nat \<Rightarrow> nat \<Rightarrow> nat \<Rightarrow> (bytes, nat \<times> nat \<times> nat) op" where
  "cb_unpack_loop tpdu dataLen unpackDataLen srcIdx dstIdx shift =
     (if \<not> (srcIdx < dataLen \<and> dstIdx < unpackDataLen) then ret (srcIdx, dstIdx, shift)
      else if shift = 0 then
        bnd (rd_at tpdu srcIdx) (\<lambda>x.
        seq (set_at dstIdx (x AND 0x7F))
          (if Suc srcIdx < dataLen \<and> Suc dstIdx < unpackDataLen then
             seq (uunpack_char tpdu (Suc srcIdx) (Suc dstIdx) SMS_ENCODE_GSM_BIT)
               (cb_unpack_loop tpdu dataLen unpackDataLen (Suc (Suc srcIdx)) (Suc (Suc dstIdx)) (SMS_ENCODE_GSM_BIT - 1))
           else cb_unpack_loop tpdu dataLen unpackDataLen (Suc srcIdx) (Suc dstIdx) SMS_ENCODE_GSM_BIT))
      else
        seq (uunpack_char tpdu srcIdx dstIdx shift)
          (cb_unpack_loop tpdu dataLen unpackDataLen (if shift - 1 > 0 then Suc srcIdx else srcIdx) (Suc dstIdx) (shift - 1)))"
  by pat_completeness auto
termination
  by (relation "measure (\<lambda>(tpdu, dataLen, unpackDataLen, srcIdx, dstIdx, shift). unpackDataLen - dstIdx)") auto

declare cb_unpack_loop.simps [simp del]

definition MIN_PRINTABLE_CHAR :: u8 where "MIN_PRINTABLE_CHAR = 32"
definition MAX_PRINTABLE_CHAR :: u8 where "MAX_PRINTABLE_CHAR = 127"

definition Unpack7bitCharForCBPdu :: "bytes \<Rightarrow> nat \<Rightarrow> nat \<Rightarrow> nat \<Rightarrow> (bytes, nat) op" where
  "Unpack7bitCharForCBPdu tpdu dataLen fillBits unpackDataLen =
     (if dataLen = 0 \<or> unpackDataLen = 0 \<or> dataLen > unpackDataLen then ret 0
      else
        bnd (cb_unpack_loop tpdu dataLen unpackDataLen (if fillBits > 0 then 1 else 0) 0 fillBits) (\<lambda>(srcIdx, dstIdx, shift).
        if dstIdx \<ge> unpackDataLen then ret 0
        else
          bnd (if shift = 0 then rd_at tpdu srcIdx
               else if srcIdx > 1 then bnd (rd_at tpdu (srcIdx - 1)) (\<lambda>x. ret (drop_bit shift x))
               else ret 0) (\<lambda>v.
          if v \<ge> MIN_PRINTABLE_CHAR \<and> v \<le> MAX_PRINTABLE_CHAR then seq (set_at dstIdx v) (ret (Suc dstIdx)) else ret dstIdx)))"

section \<open>DTMF digits\<close>

definition DigitToDtmfChar :: "u8 \<Rightarrow> u8" where
  "DigitToDtmfChar c = (if c = 0x30 then 0x0A else if c = 0x2A then 0x0B else if c = 0x23 then 0x0C else c - 0x30)"

definition DtmfCharToDigit :: "u8 \<Rightarrow> u8" where
  "DtmfCharToDigit c = (if c = 0x0B then 0x2A else if c = 0x0C then 0x23 else if c = 0x0A then 0x30 else c + 0x30)"

end
