(* ===== verification/Cdma_Types.thy ===== *)
theory Cdma_Types
  imports Gsm_User_Data Sms_Common_Utils
begin

text \<open>
  The structs and enums of \<^verbatim>\<open>services/sms/include/cdma/cdma_sms_common.h\<close>. Enumerations that the decoders fill by a cast of a whole field stay octets. Members that no
  function reads or writes (\<^verbatim>\<open>multiEncodeData\<close>) are left out.
\<close>


section \<open>Enumerations\<close>

abbreviation (input) "ENC_OCTET \<equiv> 0x0 :: u8"
abbreviation (input) "ENC_EPM \<equiv> 0x1 :: u8"
abbreviation (input) "ENC_ASCII_7BIT \<equiv> 0x2 :: u8"
abbreviation (input) "ENC_IA5 \<equiv> 0x3 :: u8"
abbreviation (input) "ENC_UNICODE \<equiv> 0x4 :: u8"
abbreviation (input) "ENC_SHIFT_JIS \<equiv> 0x5 :: u8"
abbreviation (input) "ENC_KOREAN \<equiv> 0x6 :: u8"
abbreviation (input) "ENC_LATIN_HEBREW \<equiv> 0x7 :: u8"
abbreviation (input) "ENC_LATIN \<equiv> 0x8 :: u8"
abbreviation (input) "ENC_GSM7BIT \<equiv> 0x9 :: u8"
abbreviation (input) "ENC_GSMDCS \<equiv> 0xA :: u8"
abbreviation (input) "ENC_EUCKR \<equiv> 0x10 :: u8"
abbreviation (input) "ENC_RESERVED \<equiv> 0x11 :: u8"

abbreviation (input) "PRIORITY_EMERGENCY \<equiv> 3 :: u8"
abbreviation (input) "PRIORITY_RESERVED \<equiv> 4 :: u8"

abbreviation (input) "ERR_CLASS_NONE \<equiv> 0 :: u8"
abbreviation (input) "ERR_CLASS_TEMPORARY \<equiv> 2 :: u8"
abbreviation (input) "ERR_CLASS_PERMANENT \<equiv> 3 :: u8"

datatype TeleserviceMsgType =
  TELE_RESERVED | TELE_DELIVER | TELE_SUBMIT | TELE_CANCEL | TELE_DELIVERY_ACK | TELE_USER_ACK | TELE_READ_ACK
| TELE_DELIVER_REPORT | TELE_SUBMIT_REPORT

datatype CdmaTransportMsgType = TRANS_P2P | TRANS_BROADCAST | TRANS_ACK | TRANS_RESERVED

definition CDMASMS_USER_DATA_LEN_MAX :: nat where "CDMASMS_USER_DATA_LEN_MAX = 160"
definition CDMASMS_ADDRESS_LEN_MAX :: nat where "CDMASMS_ADDRESS_LEN_MAX = 256"
definition CDMASMS_NUMBER_OF_ACK_MAX :: nat where "CDMASMS_NUMBER_OF_ACK_MAX = 8"

section \<open>Parts of a teleservice message\<close>

record SmsTeleSvcMsgId =
  mi_msgId :: u16
  mi_headerInd :: bool

record SmsTeleSvcAddr =
  sa_digitMode :: bool
  sa_numberType :: u8
  sa_numberPlan :: u8
  sa_addrLen :: u32
  sa_szData :: bytes

record SmsReplyOption =
  ro_userAck :: bool
  ro_dak :: bool
  ro_readAck :: bool
  ro_report :: bool

text \<open>The union of the relative and the absolute time: the relative time shares its octet with the year.\<close>

record SmsValPeriod =
  vp_format :: SmsTimeFormat
  vp_absTime :: SmsTimeAbs

record SmsTeleSvcUserData =
  tu_encodeType :: u8
  tu_msgType :: u8
  tu_userData :: SmsUDPackage

record SmsTeleSvcCmasData =
  cd_dataLen :: nat
  cd_encodeType :: u8
  cd_alertText :: bytes
  cd_category :: u8
  cd_responseType :: u8
  cd_severity :: u8
  cd_urgency :: u8
  cd_certainty :: u8
  cd_id :: int
  cd_alertHandle :: u8
  cd_expires :: SmsTimeAbs
  cd_language :: u8
  cd_isWrongRecodeType :: bool

record SmsEnhancedVmn =
  vmn_priority :: u8
  vmn_passwordReq :: bool
  vmn_setupReq :: bool
  vmn_pwChangeReq :: bool
  vmn_minPwLen :: u8
  vmn_maxPwLen :: u8
  vmn_vmNumUnheardMsg :: u8
  vmn_vmMailboxAlmFull :: bool
  vmn_vmMailboxFull :: bool
  vmn_replyAllowed :: bool
  vmn_faxIncluded :: bool
  vmn_vmLen :: u16
  vmn_vmRetDay :: u8
  vmn_vmMsgId :: u16
  vmn_vmMailboxId :: u16
  vmn_anDigitMode :: bool
  vmn_anNumberType :: u8
  vmn_anNumberPlan :: u8
  vmn_anNumField :: u8
  vmn_anChar :: bytes
  vmn_cliDigitMode :: bool
  vmn_cliNumberType :: u8
  vmn_cliNumberPlan :: u8
  vmn_cliNumField :: u8
  vmn_cliChar :: bytes

record SmsEnhancedVmnAck =
  va_vmMailboxId :: u16
  va_vmNumUnheardMsg :: u8
  va_numDeleteAck :: u8
  va_numPlayAck :: u8
  va_daVmMsgId :: "u16 list"
  va_paVmMsgId :: "u16 list"

section \<open>Teleservice messages\<close>

record TeleserviceDeliver =
  dl_msgId :: SmsTeleSvcMsgId
  dl_userData :: SmsTeleSvcUserData
  dl_cmasData :: SmsTeleSvcCmasData
  dl_timeStamp :: SmsTimeAbs
  dl_valPeriod :: SmsValPeriod
  dl_priority :: u8
  dl_privacy :: u8
  dl_replyOpt :: SmsReplyOption
  dl_numMsg :: u32
  dl_alertPriority :: u8
  dl_language :: u8
  dl_callbackNumber :: SmsTeleSvcAddr
  dl_displayMode :: u8
  dl_depositId :: u16
  dl_vmn :: SmsEnhancedVmn
  dl_vmnAck :: SmsEnhancedVmnAck

record TeleserviceSubmit =
  sm_msgId :: SmsTeleSvcMsgId
  sm_userData :: SmsTeleSvcUserData
  sm_valPeriod :: SmsValPeriod
  sm_deferValPeriod :: SmsValPeriod
  sm_priority :: u8
  sm_privacy :: u8
  sm_replyOpt :: SmsReplyOption
  sm_alertPriority :: u8
  sm_language :: u8
  sm_callbackNumber :: SmsTeleSvcAddr
  sm_depositId :: u16

record TeleserviceUserAck =
  uk_msgId :: SmsTeleSvcMsgId
  uk_userData :: SmsTeleSvcUserData
  uk_respCode :: u8
  uk_timeStamp :: SmsTimeAbs
  uk_depositId :: u16

record TeleserviceDeliverAck =
  dk_msgId :: SmsTeleSvcMsgId
  dk_userData :: SmsTeleSvcUserData
  dk_timeStamp :: SmsTimeAbs
  dk_msgStatus :: u8

record TeleserviceReadAck =
  rk_msgId :: SmsTeleSvcMsgId
  rk_userData :: SmsTeleSvcUserData
  rk_timeStamp :: SmsTimeAbs
  rk_depositId :: u16

record TeleserviceDeliverReport =
  rp_msgId :: SmsTeleSvcMsgId
  rp_tpFailCause :: u8
  rp_userData :: SmsTeleSvcUserData

text \<open>The union of a teleservice message: the member written last, or zeroed memory. \<^verbatim>\<open>TeleserviceCancel\<close> has only the message id.\<close>

datatype TeleUnion =
  TeleZero
| TeleDeliver TeleserviceDeliver
| TeleSubmit TeleserviceSubmit
| TeleCancel SmsTeleSvcMsgId
| TeleUserAck TeleserviceUserAck
| TeleDeliverAck TeleserviceDeliverAck
| TeleReadAck TeleserviceReadAck
| TeleReport TeleserviceDeliverReport

record CdmaTeleserviceMsg =
  tm_type :: TeleserviceMsgType
  tm_data :: TeleUnion

section \<open>Transport messages\<close>

record TransportAddr =
  tra_digitMode :: bool
  tra_numberMode :: bool
  tra_numberType :: u8
  tra_numberPlan :: u8
  tra_addrLen :: u32
  tra_szData :: bytes

record TransportSubAddr =
  tsa_type :: u8
  tsa_odd :: bool
  tsa_addrLen :: u32
  tsa_szData :: bytes

record TransportCauseCode =
  cc_transReplySeq :: u8
  cc_errorClass :: u8
  cc_causeCode :: u8

record CdmaP2PMsg =
  p2p_teleserviceId :: u16
  p2p_serviceCtg :: u16
  p2p_address :: TransportAddr
  p2p_subAddress :: TransportSubAddr
  p2p_replySeq :: u8
  p2p_telesvcMsg :: CdmaTeleserviceMsg

record CdmaBroadCastMsg =
  bc_serviceCtg :: u16
  bc_telesvcMsg :: CdmaTeleserviceMsg

record CdmaAckMsg =
  ack_address :: TransportAddr
  ack_subAddress :: TransportSubAddr
  ack_causeCode :: TransportCauseCode

datatype TransUnion = TransP2P CdmaP2PMsg | TransBroadcast CdmaBroadCastMsg | TransAck CdmaAckMsg

record CdmaTransportMsg =
  tr_type :: CdmaTransportMsgType
  tr_data :: TransUnion

section \<open>Zeroed structs\<close>

definition zero_abs_time :: SmsTimeAbs where
  "zero_abs_time = \<lparr>ta_year = 0, ta_month = 0, ta_day = 0, ta_hour = 0, ta_minute = 0, ta_second = 0, ta_timeZone = 0\<rparr>"

definition zero_msgId :: SmsTeleSvcMsgId where
  "zero_msgId = \<lparr>mi_msgId = 0, mi_headerInd = False\<rparr>"

definition zero_sub_addr :: SmsTeleSvcAddr where
  "zero_sub_addr = \<lparr>sa_digitMode = False, sa_numberType = 0, sa_numberPlan = 0, sa_addrLen = 0,
     sa_szData = replicate (CDMASMS_ADDRESS_LEN_MAX + 1) 0\<rparr>"

definition zero_reply :: SmsReplyOption where
  "zero_reply = \<lparr>ro_userAck = False, ro_dak = False, ro_readAck = False, ro_report = False\<rparr>"

definition zero_period :: SmsValPeriod where
  "zero_period = \<lparr>vp_format = SMS_TIME_EMPTY, vp_absTime = zero_abs_time\<rparr>"

definition zero_tele_ud :: SmsTeleSvcUserData where
  "zero_tele_ud = \<lparr>tu_encodeType = 0, tu_msgType = 0, tu_userData = zero_ud\<rparr>"

definition zero_cmas :: SmsTeleSvcCmasData where
  "zero_cmas = \<lparr>cd_dataLen = 0, cd_encodeType = 0, cd_alertText = replicate (CDMASMS_USER_DATA_LEN_MAX + 1) 0, cd_category = 0, cd_responseType = 0,
     cd_severity = 0, cd_urgency = 0, cd_certainty = 0, cd_id = 0, cd_alertHandle = 0, cd_expires = zero_abs_time, cd_language = 0,
     cd_isWrongRecodeType = False\<rparr>"

definition zero_vmn :: SmsEnhancedVmn where
  "zero_vmn = \<lparr>vmn_priority = 0, vmn_passwordReq = False, vmn_setupReq = False, vmn_pwChangeReq = False, vmn_minPwLen = 0, vmn_maxPwLen = 0,
     vmn_vmNumUnheardMsg = 0, vmn_vmMailboxAlmFull = False, vmn_vmMailboxFull = False, vmn_replyAllowed = False, vmn_faxIncluded = False,
     vmn_vmLen = 0, vmn_vmRetDay = 0, vmn_vmMsgId = 0, vmn_vmMailboxId = 0, vmn_anDigitMode = False, vmn_anNumberType = 0, vmn_anNumberPlan = 0,
     vmn_anNumField = 0, vmn_anChar = replicate (CDMASMS_USER_DATA_LEN_MAX + 1) 0, vmn_cliDigitMode = False, vmn_cliNumberType = 0,
     vmn_cliNumberPlan = 0, vmn_cliNumField = 0, vmn_cliChar = replicate (CDMASMS_USER_DATA_LEN_MAX + 1) 0\<rparr>"

definition zero_vmn_ack :: SmsEnhancedVmnAck where
  "zero_vmn_ack = \<lparr>va_vmMailboxId = 0, va_vmNumUnheardMsg = 0, va_numDeleteAck = 0, va_numPlayAck = 0,
     va_daVmMsgId = replicate (CDMASMS_NUMBER_OF_ACK_MAX + 1) 0, va_paVmMsgId = replicate (CDMASMS_NUMBER_OF_ACK_MAX + 1) 0\<rparr>"

definition zero_tele_deliver :: TeleserviceDeliver where
  "zero_tele_deliver = \<lparr>dl_msgId = zero_msgId, dl_userData = zero_tele_ud, dl_cmasData = zero_cmas, dl_timeStamp = zero_abs_time, dl_valPeriod = zero_period,
     dl_priority = 0, dl_privacy = 0, dl_replyOpt = zero_reply, dl_numMsg = 0, dl_alertPriority = 0, dl_language = 0,
     dl_callbackNumber = zero_sub_addr, dl_displayMode = 0, dl_depositId = 0, dl_vmn = zero_vmn, dl_vmnAck = zero_vmn_ack\<rparr>"

definition zero_tele_submit :: TeleserviceSubmit where
  "zero_tele_submit = \<lparr>sm_msgId = zero_msgId, sm_userData = zero_tele_ud, sm_valPeriod = zero_period, sm_deferValPeriod = zero_period, sm_priority = 0,
     sm_privacy = 0, sm_replyOpt = zero_reply, sm_alertPriority = 0, sm_language = 0, sm_callbackNumber = zero_sub_addr, sm_depositId = 0\<rparr>"

definition zero_user_ack :: TeleserviceUserAck where
  "zero_user_ack = \<lparr>uk_msgId = zero_msgId, uk_userData = zero_tele_ud, uk_respCode = 0, uk_timeStamp = zero_abs_time, uk_depositId = 0\<rparr>"

definition zero_deliver_ack :: TeleserviceDeliverAck where
  "zero_deliver_ack = \<lparr>dk_msgId = zero_msgId, dk_userData = zero_tele_ud, dk_timeStamp = zero_abs_time, dk_msgStatus = 0\<rparr>"

definition zero_read_ack :: TeleserviceReadAck where
  "zero_read_ack = \<lparr>rk_msgId = zero_msgId, rk_userData = zero_tele_ud, rk_timeStamp = zero_abs_time, rk_depositId = 0\<rparr>"

definition zero_report :: TeleserviceDeliverReport where
  "zero_report = \<lparr>rp_msgId = zero_msgId, rp_tpFailCause = 0, rp_userData = zero_tele_ud\<rparr>"

definition zero_tele :: CdmaTeleserviceMsg where
  "zero_tele = \<lparr>tm_type = TELE_RESERVED, tm_data = TeleZero\<rparr>"

definition zero_trans_addr :: TransportAddr where
  "zero_trans_addr = \<lparr>tra_digitMode = False, tra_numberMode = False, tra_numberType = 0, tra_numberPlan = 0, tra_addrLen = 0,
     tra_szData = replicate (CDMASMS_ADDRESS_LEN_MAX + 1) 0\<rparr>"

definition zero_trans_sub :: TransportSubAddr where
  "zero_trans_sub = \<lparr>tsa_type = 0, tsa_odd = False, tsa_addrLen = 0, tsa_szData = replicate (CDMASMS_ADDRESS_LEN_MAX + 1) 0\<rparr>"

definition zero_cause :: TransportCauseCode where
  "zero_cause = \<lparr>cc_transReplySeq = 0, cc_errorClass = 0, cc_causeCode = 0\<rparr>"

definition zero_p2p :: CdmaP2PMsg where
  "zero_p2p = \<lparr>p2p_teleserviceId = 0, p2p_serviceCtg = 0, p2p_address = zero_trans_addr, p2p_subAddress = zero_trans_sub, p2p_replySeq = 0,
     p2p_telesvcMsg = zero_tele\<rparr>"

definition zero_broadcast :: CdmaBroadCastMsg where
  "zero_broadcast = \<lparr>bc_serviceCtg = 0, bc_telesvcMsg = zero_tele\<rparr>"

definition zero_ack :: CdmaAckMsg where
  "zero_ack = \<lparr>ack_address = zero_trans_addr, ack_subAddress = zero_trans_sub, ack_causeCode = zero_cause\<rparr>"

section \<open>Members of unions\<close>

text \<open>
  The members of a union share their memory. What a member reads as when another one was written is the object representation of the platform; it is a
  parameter, here for the seven members of a teleservice message.
\<close>

record tele_overlay =
  as_deliver :: "TeleUnion \<Rightarrow> TeleserviceDeliver"
  as_submit :: "TeleUnion \<Rightarrow> TeleserviceSubmit"
  as_user_ack :: "TeleUnion \<Rightarrow> TeleserviceUserAck"
  as_deliver_ack :: "TeleUnion \<Rightarrow> TeleserviceDeliverAck"
  as_read_ack :: "TeleUnion \<Rightarrow> TeleserviceReadAck"
  as_cancel :: "TeleUnion \<Rightarrow> SmsTeleSvcMsgId"
  as_report :: "TeleUnion \<Rightarrow> TeleserviceDeliverReport"

definition get_deliver :: "tele_overlay \<Rightarrow> TeleUnion \<Rightarrow> TeleserviceDeliver" where
  "get_deliver ov u = (case u of TeleZero \<Rightarrow> zero_tele_deliver | TeleDeliver d \<Rightarrow> d | _ \<Rightarrow> as_deliver ov u)"

definition get_submit :: "tele_overlay \<Rightarrow> TeleUnion \<Rightarrow> TeleserviceSubmit" where
  "get_submit ov u = (case u of TeleZero \<Rightarrow> zero_tele_submit | TeleSubmit d \<Rightarrow> d | _ \<Rightarrow> as_submit ov u)"

definition get_user_ack :: "tele_overlay \<Rightarrow> TeleUnion \<Rightarrow> TeleserviceUserAck" where
  "get_user_ack ov u = (case u of TeleZero \<Rightarrow> zero_user_ack | TeleUserAck d \<Rightarrow> d | _ \<Rightarrow> as_user_ack ov u)"

definition get_deliver_ack :: "tele_overlay \<Rightarrow> TeleUnion \<Rightarrow> TeleserviceDeliverAck" where
  "get_deliver_ack ov u = (case u of TeleZero \<Rightarrow> zero_deliver_ack | TeleDeliverAck d \<Rightarrow> d | _ \<Rightarrow> as_deliver_ack ov u)"

definition get_read_ack :: "tele_overlay \<Rightarrow> TeleUnion \<Rightarrow> TeleserviceReadAck" where
  "get_read_ack ov u = (case u of TeleZero \<Rightarrow> zero_read_ack | TeleReadAck d \<Rightarrow> d | _ \<Rightarrow> as_read_ack ov u)"

definition get_cancel :: "tele_overlay \<Rightarrow> TeleUnion \<Rightarrow> SmsTeleSvcMsgId" where
  "get_cancel ov u = (case u of TeleZero \<Rightarrow> zero_msgId | TeleCancel d \<Rightarrow> d | _ \<Rightarrow> as_cancel ov u)"

definition get_report :: "tele_overlay \<Rightarrow> TeleUnion \<Rightarrow> TeleserviceDeliverReport" where
  "get_report ov u = (case u of TeleZero \<Rightarrow> zero_report | TeleReport d \<Rightarrow> d | _ \<Rightarrow> as_report ov u)"

text \<open>The type of a transport message is chosen once, and only the member for it is used.\<close>

definition get_p2p :: "TransUnion \<Rightarrow> CdmaP2PMsg" where
  "get_p2p u = (case u of TransP2P m \<Rightarrow> m | _ \<Rightarrow> zero_p2p)"

definition get_broadcast :: "TransUnion \<Rightarrow> CdmaBroadCastMsg" where
  "get_broadcast u = (case u of TransBroadcast m \<Rightarrow> m | _ \<Rightarrow> zero_broadcast)"

definition get_ack :: "TransUnion \<Rightarrow> CdmaAckMsg" where
  "get_ack u = (case u of TransAck m \<Rightarrow> m | _ \<Rightarrow> zero_ack)"

definition zero_trans :: CdmaTransportMsg where
  "zero_trans = \<lparr>tr_type = TRANS_P2P, tr_data = TransP2P zero_p2p\<rparr>"

end
