(* ===== verification/Cdma_Sub_Parameter.thy ===== *)
theory Cdma_Sub_Parameter
  imports Cdma_Types
begin

text \<open>
  \<^verbatim>\<open>services/sms/cdma/cdma_sms_sub_parameter.cpp\<close>: the sub-parameters of a teleservice message. The encoder of a class takes the member it refers to; the decoder works on
  the buffer and that member. Definitions are named by class and method.
\<close>

section \<open>Identifiers and helpers\<close>

abbreviation (input) "MESSAGE_IDENTIFIER \<equiv> 0x00 :: u8"
abbreviation (input) "USER_DATA \<equiv> 0x01 :: u8"
abbreviation (input) "USER_RESPONSE_CODE \<equiv> 0x02 :: u8"
abbreviation (input) "MESSAGE_CENTER_TIME_STAMP \<equiv> 0x03 :: u8"
abbreviation (input) "VALIDITY_PERIOD_ABSOLUTE \<equiv> 0x04 :: u8"
abbreviation (input) "VALIDITY_PERIOD_RELATIVE \<equiv> 0x05 :: u8"
abbreviation (input) "DEFERRED_DELIVERY_TIME_ABSOLUTE \<equiv> 0x06 :: u8"
abbreviation (input) "DEFERRED_DELIVERY_TIME_RELATIVE \<equiv> 0x07 :: u8"
abbreviation (input) "PRIORITY_INDICATOR \<equiv> 0x08 :: u8"
abbreviation (input) "PRIVACY_INDICATOR \<equiv> 0x09 :: u8"
abbreviation (input) "REPLY_OPTION \<equiv> 0x0A :: u8"
abbreviation (input) "NUMBER_OF_MESSAGES \<equiv> 0x0B :: u8"
abbreviation (input) "ALERT_ON_MSG_DELIVERY \<equiv> 0x0C :: u8"
abbreviation (input) "LANGUAGE_INDICATOR \<equiv> 0x0D :: u8"
abbreviation (input) "CALLBACK_NUMBER \<equiv> 0x0E :: u8"
abbreviation (input) "MESSAGE_DISPLAY_MODE \<equiv> 0x0F :: u8"
abbreviation (input) "MESSAGE_DEPOSIT_INDEX \<equiv> 0x11 :: u8"
abbreviation (input) "MESSAGE_STATUS \<equiv> 0x14 :: u8"
abbreviation (input) "TP_FAILURE_CAUSE \<equiv> 0x15 :: u8"
abbreviation (input) "ENHANCED_VMN \<equiv> 0x16 :: u8"
abbreviation (input) "ENHANCED_VMN_ACK \<equiv> 0x17 :: u8"

abbreviation (input) rbits :: "nat \<Rightarrow> (SmsReadBuffer \<times> 'o, u8) op" where
  "rbits l \<equiv> on_buf (ReadBits l)"

abbreviation (input) rbyte :: "(SmsReadBuffer \<times> 'o, u8) op" where
  "rbyte \<equiv> on_buf ReadByte"

abbreviation (input) skip_bits :: "(SmsReadBuffer \<times> 'o, unit) op" where
  "skip_bits \<equiv> on_buf (ignore SkipBits)"

definition flag :: "bool \<Rightarrow> u8" where
  "flag b = (if b then 1 else 0)"

text \<open>\<^verbatim>\<open>if (pdu.IsEmpty()) return false;\<close>\<close>

definition nonempty :: "(SmsPduBuffer, 'a) op \<Rightarrow> (SmsPduBuffer, 'a) op" where
  "nonempty m = bnd (gets IsEmpty) (\<lambda>e. if e then fail else m)"

text \<open>The identifier and the length every decoder starts with; the value is the length.\<close>

definition IsInvalidPdu :: "u8 \<Rightarrow> (SmsReadBuffer, u8) op" where
  "IsInvalidPdu ident = nonempty (bnd ReadByte (\<lambda>x. bnd ReadByte (\<lambda>len. if x \<noteq> ident then fail else ret len)))"

text \<open>A length that is inserted when the value is written.\<close>

definition tlv_length :: "u8 \<Rightarrow> (SmsWriteBuffer, unit) op \<Rightarrow> (SmsWriteBuffer, unit) op" where
  "tlv_length ident body =
     nonempty (
     seq (WriteByte ident) (
     bnd (MoveForward 1) (\<lambda>lenIndex.
     seq body (
     bnd SkipBits (\<lambda>stop.
     InsertByte (word_of_nat stop - word_of_nat lenIndex - 1) lenIndex)))))"

text \<open>
  The values of a loop counter \<^verbatim>\<open>uint8_t i\<close> in \<^verbatim>\<open>for (i = 0; i < n; i++)\<close>. For \<open>n\<close> above 255 the loop ends only when its body fails; the
  buffer has 256 octets, and every body writes at least four bits, so the values given here are more than it gets through.
\<close>

definition u8_for :: "nat \<Rightarrow> nat list" where
  "u8_for n = (if n < 256 then [0..<n] else map (\<lambda>i. i mod 256) [0..<65536])"

text \<open>\<^verbatim>\<open>member[i] = v\<close>\<close>

definition store_in :: "('o \<Rightarrow> 'v list) \<Rightarrow> ('v list \<Rightarrow> 'o \<Rightarrow> 'o) \<Rightarrow> nat \<Rightarrow> 'v \<Rightarrow> ('b \<times> 'o, unit) op" where
  "store_in get put i v = on_part get put (set_at i v)"

section \<open>Simple parameters\<close>

definition CdmaSmsBaseParameter_Encode :: "u8 \<Rightarrow> u8 \<Rightarrow> (SmsWriteBuffer, unit) op" where
  "CdmaSmsBaseParameter_Encode ident v = nonempty (seq (WriteByte ident) (seq (WriteByte 1) (WriteByte v)))"

definition CdmaSmsBaseParameter_Decode :: "u8 \<Rightarrow> (SmsReadBuffer \<times> u8, unit) op" where
  "CdmaSmsBaseParameter_Decode ident = seq (on_buf (IsInvalidPdu ident)) (bnd rbyte (\<lambda>v. on_out (\<lambda>_. v)))"

definition CdmaSmsReservedParameter_Encode :: "(SmsWriteBuffer, unit) op" where
  "CdmaSmsReservedParameter_Encode = nonempty (ret ())"

definition CdmaSmsReservedParameter_Decode :: "u8 \<Rightarrow> (SmsReadBuffer, unit) op" where
  "CdmaSmsReservedParameter_Decode ident = bnd (IsInvalidPdu ident) (\<lambda>len. ignore (MoveForward (unat len)))"

definition CdmaSmsMessageId_Encode :: "u8 \<Rightarrow> SmsTeleSvcMsgId \<Rightarrow> (SmsWriteBuffer, unit) op" where
  "CdmaSmsMessageId_Encode ty m =
     nonempty (
     seq (WriteByte MESSAGE_IDENTIFIER) (
     seq (WriteByte 3) (
     seq (WriteBits ty 4) (
     seq (WriteBits (ucast (drop_bit 8 (mi_msgId m))) 8) (
     seq (WriteBits (ucast (mi_msgId m)) 8) (
     seq (WriteBits (flag (mi_headerInd m)) 1) (
     ignore SkipBits)))))))"

text \<open>The value is the type of the message, which \<^verbatim>\<open>GetMessageType\<close> returns.\<close>

definition CdmaSmsMessageId_Decode :: "(SmsReadBuffer \<times> SmsTeleSvcMsgId, u8) op" where
  "CdmaSmsMessageId_Decode =
     seq (on_buf (IsInvalidPdu MESSAGE_IDENTIFIER)) (
     bnd (rbits 4) (\<lambda>ty.
     bnd (rbits 8) (\<lambda>vh.
     bnd (rbits 8) (\<lambda>v.
     seq (on_out (\<lambda>m. m\<lparr>mi_msgId := push_bit 8 (ucast vh) OR ucast v\<rparr>)) (
     bnd (rbits 1) (\<lambda>v.
     seq (on_out (\<lambda>m. m\<lparr>mi_headerInd := (v = 1)\<rparr>)) (
     seq skip_bits (ret ty))))))))"

definition EncodeBCD :: "u8 \<Rightarrow> u8" where
  "EncodeBCD v = push_bit 4 (v div 10) OR (v mod 10)"

definition DecodeBCD :: "u8 \<Rightarrow> u8" where
  "DecodeBCD v = drop_bit 4 (v AND 0xF0) * 10 + (v AND 0x0F)"

definition CdmaSmsAbsoluteTime_Encode :: "u8 \<Rightarrow> SmsTimeAbs \<Rightarrow> (SmsWriteBuffer, unit) op" where
  "CdmaSmsAbsoluteTime_Encode ident t =
     nonempty (
     seq (WriteByte ident) (
     seq (WriteByte 6) (
     seq (WriteByte (EncodeBCD (ta_year t))) (
     seq (WriteByte (EncodeBCD (ta_month t))) (
     seq (WriteByte (EncodeBCD (ta_day t))) (
     seq (WriteByte (EncodeBCD (ta_hour t))) (
     seq (WriteByte (EncodeBCD (ta_minute t))) (
     WriteByte (EncodeBCD (ta_second t))))))))))"

definition CdmaSmsAbsoluteTime_Decode :: "u8 \<Rightarrow> (SmsReadBuffer \<times> SmsTimeAbs, unit) op" where
  "CdmaSmsAbsoluteTime_Decode ident =
     seq (on_buf (IsInvalidPdu ident)) (
     bnd rbyte (\<lambda>v1. bnd rbyte (\<lambda>v2. bnd rbyte (\<lambda>v3. bnd rbyte (\<lambda>v4. bnd rbyte (\<lambda>v5. bnd rbyte (\<lambda>v6.
     on_out (\<lambda>t. t\<lparr>ta_year := DecodeBCD v1, ta_month := DecodeBCD v2, ta_day := DecodeBCD v3, ta_hour := DecodeBCD v4,
       ta_minute := DecodeBCD v5, ta_second := DecodeBCD v6\<rparr>))))))))"

text \<open>The indicators of two bits: priority, privacy, alert priority and display mode have the same code, with their own identifiers.\<close>

definition two_bit_encode :: "u8 \<Rightarrow> u8 \<Rightarrow> (SmsWriteBuffer, unit) op" where
  "two_bit_encode ident v = nonempty (seq (WriteByte ident) (seq (WriteByte 1) (seq (WriteBits v 2) (ignore SkipBits))))"

definition two_bit_decode :: "u8 \<Rightarrow> (SmsReadBuffer \<times> u8, unit) op" where
  "two_bit_decode ident = seq (on_buf (IsInvalidPdu ident)) (bnd (rbits 2) (\<lambda>v. seq skip_bits (on_out (\<lambda>_. v))))"

definition CdmaSmsPriorityInd_Encode :: "u8 \<Rightarrow> (SmsWriteBuffer, unit) op" where
  "CdmaSmsPriorityInd_Encode = two_bit_encode PRIORITY_INDICATOR"

definition CdmaSmsPriorityInd_Decode :: "(SmsReadBuffer \<times> u8, unit) op" where
  "CdmaSmsPriorityInd_Decode = two_bit_decode PRIORITY_INDICATOR"

definition CdmaSmsPrivacyInd_Encode :: "u8 \<Rightarrow> (SmsWriteBuffer, unit) op" where
  "CdmaSmsPrivacyInd_Encode = two_bit_encode PRIVACY_INDICATOR"

definition CdmaSmsPrivacyInd_Decode :: "(SmsReadBuffer \<times> u8, unit) op" where
  "CdmaSmsPrivacyInd_Decode = two_bit_decode PRIVACY_INDICATOR"

definition CdmaSmsAlertPriority_Encode :: "u8 \<Rightarrow> (SmsWriteBuffer, unit) op" where
  "CdmaSmsAlertPriority_Encode = two_bit_encode ALERT_ON_MSG_DELIVERY"

definition CdmaSmsAlertPriority_Decode :: "(SmsReadBuffer \<times> u8, unit) op" where
  "CdmaSmsAlertPriority_Decode = two_bit_decode ALERT_ON_MSG_DELIVERY"

definition CdmaSmsDisplayMode_Encode :: "u8 \<Rightarrow> (SmsWriteBuffer, unit) op" where
  "CdmaSmsDisplayMode_Encode = two_bit_encode MESSAGE_DISPLAY_MODE"

definition CdmaSmsDisplayMode_Decode :: "(SmsReadBuffer \<times> u8, unit) op" where
  "CdmaSmsDisplayMode_Decode = two_bit_decode MESSAGE_DISPLAY_MODE"

definition CdmaSmsReplyOption_Encode :: "SmsReplyOption \<Rightarrow> (SmsWriteBuffer, unit) op" where
  "CdmaSmsReplyOption_Encode r =
     nonempty (
     seq (WriteByte REPLY_OPTION) (
     seq (WriteByte 1) (
     seq (WriteBits (flag (ro_userAck r)) 1) (
     seq (WriteBits (flag (ro_dak r)) 1) (
     seq (WriteBits (flag (ro_readAck r)) 1) (
     seq (WriteBits (flag (ro_report r)) 1) (
     ignore SkipBits)))))))"

definition CdmaSmsReplyOption_Decode :: "(SmsReadBuffer \<times> SmsReplyOption, unit) op" where
  "CdmaSmsReplyOption_Decode =
     seq (on_buf (IsInvalidPdu REPLY_OPTION)) (
     bnd (rbits 1) (\<lambda>v1. bnd (rbits 1) (\<lambda>v2. bnd (rbits 1) (\<lambda>v3. bnd (rbits 1) (\<lambda>v4.
     seq (on_out (\<lambda>r. r\<lparr>ro_userAck := (v1 = 1), ro_dak := (v2 = 1), ro_readAck := (v3 = 1), ro_report := (v4 = 1)\<rparr>)) skip_bits)))))"

definition CdmaSmsLanguageInd_Encode :: "u8 \<Rightarrow> (SmsWriteBuffer, unit) op" where
  "CdmaSmsLanguageInd_Encode v = nonempty (seq (WriteByte LANGUAGE_INDICATOR) (seq (WriteByte 1) (WriteByte v)))"

definition CdmaSmsLanguageInd_Decode :: "(SmsReadBuffer \<times> u8, unit) op" where
  "CdmaSmsLanguageInd_Decode = seq (on_buf (IsInvalidPdu LANGUAGE_INDICATOR)) (bnd rbyte (\<lambda>v. on_out (\<lambda>_. v)))"

definition CdmaSmsDepositIndex_Encode :: "u16 \<Rightarrow> (SmsWriteBuffer, unit) op" where
  "CdmaSmsDepositIndex_Encode v = nonempty (seq (WriteByte MESSAGE_DEPOSIT_INDEX) (seq (WriteByte 2) (WriteWord v)))"

definition CdmaSmsDepositIndex_Decode :: "(SmsReadBuffer \<times> u16, unit) op" where
  "CdmaSmsDepositIndex_Decode = seq (on_buf (IsInvalidPdu MESSAGE_DEPOSIT_INDEX)) (bnd (on_buf ReadWord) (\<lambda>v. on_out (\<lambda>_. v)))"

definition CdmaSmsMessageStatus_Decode :: "(SmsReadBuffer \<times> u8, unit) op" where
  "CdmaSmsMessageStatus_Decode = seq (on_buf (IsInvalidPdu MESSAGE_STATUS)) (bnd rbyte (\<lambda>v. on_out (\<lambda>_. v)))"

definition CdmaSmsNumberMessages_Decode :: "(SmsReadBuffer \<times> u32, unit) op" where
  "CdmaSmsNumberMessages_Decode =
     seq (on_buf (IsInvalidPdu NUMBER_OF_MESSAGES))
       (bnd rbyte (\<lambda>v. on_out (\<lambda>_. ucast (drop_bit 4 (v AND 0xF0)) * 10 + ucast (v AND 0x0F))))"

section \<open>Callback numbers\<close>

definition CdmaSmsCallbackNumber_Encode :: "SmsTeleSvcAddr \<Rightarrow> (SmsWriteBuffer, unit) op" where
  "CdmaSmsCallbackNumber_Encode a =
     tlv_length CALLBACK_NUMBER (
       seq (WriteBits (flag (sa_digitMode a)) 1) (
       if unat (sa_addrLen a) > CDMASMS_ADDRESS_LEN_MAX + 1 then fail
       else if sa_digitMode a then
         seq (WriteBits (sa_numberType a) 3) (
         seq (WriteBits (sa_numberPlan a) 4) (
         seq (WriteBits (ucast (sa_addrLen a)) 8) (
         each (\<lambda>i. bnd (rd_at (sa_szData a) i) (\<lambda>c. WriteBits c 8)) (u8_for (unat (sa_addrLen a))))))
       else
         seq (WriteBits (ucast (sa_addrLen a)) 8) (
         each (\<lambda>i. bnd (rd_at (sa_szData a) i) (\<lambda>c. WriteBits (DigitToDtmfChar c) 4)) (u8_for (unat (sa_addrLen a))))))"

definition CdmaSmsCallbackNumber_Decode :: "(SmsReadBuffer \<times> SmsTeleSvcAddr, unit) op" where
  "CdmaSmsCallbackNumber_Decode =
     seq (on_buf (IsInvalidPdu CALLBACK_NUMBER)) (
     bnd (rbits 1) (\<lambda>v.
     seq (on_out (\<lambda>a. a\<lparr>sa_digitMode := (v = 1)\<rparr>)) (
     seq (if v = 1 then
            bnd (rbits 3) (\<lambda>x. seq (on_out (\<lambda>a. a\<lparr>sa_numberType := x\<rparr>)) (
            bnd (rbits 4) (\<lambda>x. on_out (\<lambda>a. a\<lparr>sa_numberPlan := x\<rparr>))))
          else ret ()) (
     bnd (rbits 8) (\<lambda>n.
     seq (on_out (\<lambda>a. a\<lparr>sa_addrLen := ucast n\<rparr>)) (
     seq (if unat n > CDMASMS_ADDRESS_LEN_MAX + 1 then fail
          else each (\<lambda>i. bnd (rbits (if v = 1 then 8 else 4)) (\<lambda>x.
            store_in sa_szData (\<lambda>xs a. a\<lparr>sa_szData := xs\<rparr>) i (if v = 1 then x else DtmfCharToDigit x))) [0..<unat n])
       skip_bits))))))"

end
