(* ===== verification/Cdma_User_Data.thy ===== *)
theory Cdma_User_Data
  imports Cdma_Sub_Parameter
begin

text \<open>
  The user data of \<^verbatim>\<open>services/sms/cdma/cdma_sms_sub_parameter.cpp\<close>: \<^verbatim>\<open>CdmaSmsUserData\<close> with its headers and encodings, and the alerts of
  \<^verbatim>\<open>CdmaSmsCmasData\<close>, which take the place of user data in a broadcast.
\<close>

section \<open>Encoding\<close>

text \<open>The septets the headers and their length take, and the bits up to the next septet; seven when there are none.\<close>

definition udh_septets :: "u8 \<Rightarrow> nat" where
  "udh_septets udhBytes = (unat udhBytes + 1) * 8 div 7"

definition header_fill :: "u8 \<Rightarrow> nat" where
  "header_fill udhBytes = 7 - (unat udhBytes + 1) * 8 mod 7"

definition copy_headers :: "SmsWriteBuffer \<Rightarrow> u8 \<Rightarrow> (SmsWriteBuffer, unit) op" where
  "copy_headers headerPdu udhBytes =
     each (\<lambda>i. bnd (with_new headerPdu (GetValueFromIndex i)) (\<lambda>(v, _). WriteBits v 8)) [0..<unat udhBytes]"

definition EncodeHeader7Bit :: "SmsTeleSvcUserData \<Rightarrow> (SmsWriteBuffer, unit) op" where
  "EncodeHeader7Bit d =
     (if unat (headerCnt (tu_userData d)) > MAX_UD_HEADER_NUM then fail
      else bnd (with_new SmsWriteBuffer (EncodeHeaders (tu_userData d))) (\<lambda>(_, headerPdu).
        let udhBytes = word_of_nat (GetIndex headerPdu) :: u8 in
        if udhBytes > 0 then
          let gsm = (tu_encodeType d = ENC_GSM7BIT);
              fill = header_fill udhBytes;
              udhLen = udh_septets udhBytes + (if fill \<noteq> 7 then 1 else 0) + (if gsm then 1 else 0);
              ignoredBits = (if gsm then 8 else fill) in
          seq (WriteBits (word_of_nat udhLen + ud_length (tu_userData d)) 8) (
          seq (WriteBits udhBytes 8) (
          seq (copy_headers headerPdu udhBytes)
            (if ignoredBits \<noteq> 7 then WriteBits 0 ignoredBits else ret ())))
        else WriteBits (ud_length (tu_userData d)) 8))"

text \<open>\<open>l\<close> bits of each character of the text.\<close>

definition write_text :: "nat \<Rightarrow> SmsTeleSvcUserData \<Rightarrow> (SmsWriteBuffer, unit) op" where
  "write_text l d =
     (if unat (ud_length (tu_userData d)) > MAX_USER_DATA_LEN + 1 then fail
      else each (\<lambda>i. bnd (rd_at (ud_data (tu_userData d)) i) (\<lambda>c. WriteBits c l)) [0..<unat (ud_length (tu_userData d))])"

definition EncodeAscii7Bit :: "SmsTeleSvcUserData \<Rightarrow> (SmsWriteBuffer, unit) op" where
  "EncodeAscii7Bit d = seq (EncodeHeader7Bit d) (write_text 7 d)"

definition EncodeGsm7Bit :: "SmsTeleSvcUserData \<Rightarrow> (SmsWriteBuffer, unit) op" where
  "EncodeGsm7Bit d =
     seq (EncodeHeader7Bit d) (
     bnd (with_new (replicate (MAX_USER_DATA_LEN + 1) 0)
            (Utils_Pack7bitChar (ud_data (tu_userData d)) (unat (ud_length (tu_userData d))) 0 (MAX_USER_DATA_LEN + 1))) (\<lambda>(n, dest).
     if n > MAX_USER_DATA_LEN + 1 then fail
     else each (\<lambda>i. bnd (rd_at dest i) (\<lambda>c. WriteBits c 8)) [0..<n]))"

definition EncodeHeaderUnicode :: "SmsTeleSvcUserData \<Rightarrow> (SmsWriteBuffer, unit) op" where
  "EncodeHeaderUnicode d =
     (if unat (headerCnt (tu_userData d)) > MAX_UD_HEADER_NUM then fail
      else bnd (with_new SmsWriteBuffer (EncodeHeaders (tu_userData d))) (\<lambda>(_, headerPdu).
        let udhBytes = word_of_nat (GetIndex headerPdu) :: u8; len = unat (ud_length (tu_userData d)) in
        if udhBytes > 0 then
          seq (WriteBits (word_of_nat ((unat udhBytes + len) div 2 + 1)) 8) (
          seq (WriteBits udhBytes 8) (
          copy_headers headerPdu udhBytes))
        else WriteBits (word_of_nat (len div 2)) 8))"

definition EncodeUnicode :: "SmsTeleSvcUserData \<Rightarrow> (SmsWriteBuffer, unit) op" where
  "EncodeUnicode d = seq (EncodeHeaderUnicode d) (write_text 8 d)"

definition Encode8BitData :: "SmsTeleSvcUserData \<Rightarrow> (SmsWriteBuffer, unit) op" where
  "Encode8BitData d =
     (if unat (ud_length (tu_userData d)) > MAX_USER_DATA_LEN + 1 then fail
      else seq (WriteBits (ud_length (tu_userData d)) 8) (write_text 8 d))"

definition CdmaSmsUserData_Encode :: "SmsTeleSvcUserData \<Rightarrow> (SmsWriteBuffer, unit) op" where
  "CdmaSmsUserData_Encode d =
     tlv_length USER_DATA (
       seq (WriteBits (tu_encodeType d) 5) (
       seq (if tu_encodeType d = ENC_EPM \<or> tu_encodeType d = ENC_GSMDCS then WriteBits (tu_msgType d) 8 else ret ()) (
       if tu_encodeType d = ENC_ASCII_7BIT \<or> tu_encodeType d = ENC_IA5 then EncodeAscii7Bit d
       else if tu_encodeType d = ENC_GSM7BIT then EncodeGsm7Bit d
       else if tu_encodeType d = ENC_UNICODE then EncodeUnicode d
       else Encode8BitData d)))"

section \<open>Decoding\<close>

type_synonym 'a tele_ud_op = "(SmsReadBuffer \<times> SmsTeleSvcUserData, 'a) op"

definition GetEncodingType :: "u8 \<Rightarrow> u8" where
  "GetEncodingType v = (if v \<le> ENC_GSMDCS \<or> v = ENC_EUCKR then v else ENC_RESERVED)"

definition put_package :: "(SmsUDPackage \<Rightarrow> SmsUDPackage) \<Rightarrow> SmsTeleSvcUserData \<Rightarrow> SmsTeleSvcUserData" where
  "put_package f d = d\<lparr>tu_userData := f (tu_userData d)\<rparr>"

definition put_ud_text :: "bytes \<Rightarrow> SmsTeleSvcUserData \<Rightarrow> SmsTeleSvcUserData" where
  "put_ud_text xs = put_package (\<lambda>u. u\<lparr>ud_data := xs\<rparr>)"

definition put_length :: "u8 \<Rightarrow> SmsTeleSvcUserData \<Rightarrow> SmsTeleSvcUserData" where
  "put_length n = put_package (\<lambda>u. u\<lparr>ud_length := n\<rparr>)"

text \<open>\<^verbatim>\<open>DecodeHeader(pdu, data_.userData.header[i], length)\<close>\<close>

definition cdma_header_at :: "iconv \<Rightarrow> nat \<Rightarrow> nat \<Rightarrow> nat tele_ud_op" where
  "cdma_header_at ic wsize i =
     bnd get_out (\<lambda>d.
     if i < length (ud_header (tu_userData d)) then
       zoom (\<lambda>d. ud_header (tu_userData d) ! i) (\<lambda>h. put_package (\<lambda>u. u\<lparr>ud_header := (ud_header u)[i := h]\<rparr>)) (DecodeHeader ic wsize)
     else fault)"

text \<open>The loop over the headers; every error makes the number of their octets 0, and the decoder goes on.\<close>

function cdma_headers :: "iconv \<Rightarrow> nat \<Rightarrow> u8 \<Rightarrow> nat \<Rightarrow> u8 \<Rightarrow> u8 tele_ud_op" where
  "cdma_headers ic wsize udhBytes i index =
     (if \<not> index < udhBytes then ret udhBytes
      else if i \<ge> MAX_UD_HEADER_NUM then ret 0
      else bnd (attempt (cdma_header_at ic wsize i)) (\<lambda>r.
        case r of
          None \<Rightarrow> ret 0
        | Some len \<Rightarrow>
            if len = 0 then seq (on_out (put_package ResetUserData)) (ret 0)
            else if unat (index + word_of_nat len) > unat udhBytes + 2 then seq (on_out (put_package ResetUserData)) (ret 0)
            else seq (on_out (put_package count_header)) (cdma_headers ic wsize udhBytes (Suc i) (index + word_of_nat len))))"
  by pat_completeness auto
termination
  by (relation "measure (\<lambda>(ic, wsize, udhBytes, i, index). MAX_UD_HEADER_NUM - i)") auto

declare cdma_headers.simps [simp del]

definition DecodeHeader7Bit :: "iconv \<Rightarrow> nat \<Rightarrow> bool \<Rightarrow> u8 tele_ud_op" where
  "DecodeHeader7Bit ic wsize headerInd =
     bnd (if headerInd then attempt (bnd (rbits 8) (\<lambda>n. if unat n > MAX_USER_DATA_LEN + 1 then fail else ret n)) else ret (Some 0)) (\<lambda>r.
     case r of
       None \<Rightarrow> ret 0
     | Some udhBytes \<Rightarrow>
         seq (on_out (put_package (\<lambda>u. u\<lparr>headerCnt := 0\<rparr>))) (cdma_headers ic wsize udhBytes 0 0))"

text \<open>\<open>n\<close> characters of \<open>l\<close> bits.\<close>

definition read_text :: "nat \<Rightarrow> nat \<Rightarrow> unit tele_ud_op" where
  "read_text l n = each (\<lambda>i. bnd (rbits l) (\<lambda>v. store_in (\<lambda>d. ud_data (tu_userData d)) put_ud_text i v)) [0..<n]"

definition DecodeAscii7Bit :: "u8 \<Rightarrow> u8 \<Rightarrow> unit tele_ud_op" where
  "DecodeAscii7Bit numFields udhBytes =
     (let udhLen = (if udhBytes = 0 then 0 else word_of_nat (udh_septets udhBytes) :: u8) in
      bnd (if udhLen > 0 \<and> header_fill udhBytes < 7 then seq (rbits (header_fill udhBytes)) (ret (udhLen + 1)) else ret udhLen) (\<lambda>udhLen.
      if udhLen > numFields then fail
      else
        seq (on_out (put_length (numFields - udhLen))) (
        if unat (numFields - udhLen) > MAX_USER_DATA_LEN + 1 then fail
        else seq (read_text 7 (unat (numFields - udhLen))) skip_bits)))"

definition DecodeGsm7Bit :: "u8 \<Rightarrow> u8 \<Rightarrow> unit tele_ud_op" where
  "DecodeGsm7Bit numFields udhBytes =
     (let udhLen = (if udhBytes = 0 then 0 else word_of_nat (udh_septets udhBytes) :: u8) in
      bnd (if udhLen > 0 then
             if header_fill udhBytes \<noteq> 7 then seq (rbits 8) (ret (udhLen + 2)) else ret (udhLen + 1)
           else ret udhLen) (\<lambda>udhLen.
      if udhLen > numFields then fail
      else
        seq (on_out (put_length (numFields - udhLen))) (
        let n = unat (numFields - udhLen); udBytes = n * 7 div 8 + (if n * 7 mod 8 > 0 then 1 else 0) in
        if udBytes > MAX_USER_DATA_LEN + 1 then fail
        else bnd (collect (\<lambda>_. rbits 8) 0 udBytes) (\<lambda>dest.
          seq (on_part (\<lambda>d. ud_data (tu_userData d)) put_ud_text (Utils_Unpack7bitChar dest udBytes 0 (MAX_USER_DATA_LEN + 1)))
            skip_bits))))"

definition Decode8BitData :: "unit tele_ud_op" where
  "Decode8BitData =
     bnd get_out (\<lambda>d.
     if unat (ud_length (tu_userData d)) > MAX_USER_DATA_LEN + 1 then fail
     else read_text 8 (unat (ud_length (tu_userData d))))"

text \<open>The length is an octet, so what is subtracted from it wraps around.\<close>

definition CdmaSmsUserData_Decode :: "iconv \<Rightarrow> nat \<Rightarrow> bool \<Rightarrow> unit tele_ud_op" where
  "CdmaSmsUserData_Decode ic wsize headerInd =
     seq (on_buf (IsInvalidPdu USER_DATA)) (
     bnd (rbits 5) (\<lambda>v.
     let ty = GetEncodingType v in
     seq (on_out (\<lambda>d. d\<lparr>tu_encodeType := ty\<rparr>)) (
     seq (if ty = ENC_EPM \<or> ty = ENC_GSMDCS then bnd (rbits 8) (\<lambda>x. on_out (\<lambda>d. d\<lparr>tu_msgType := x\<rparr>)) else ret ()) (
     bnd (rbits 8) (\<lambda>numFields.
     bnd (DecodeHeader7Bit ic wsize headerInd) (\<lambda>udhBytes.
     if ty = ENC_ASCII_7BIT \<or> ty = ENC_IA5 then DecodeAscii7Bit numFields udhBytes
     else if ty = ENC_GSM7BIT then DecodeGsm7Bit numFields udhBytes
     else if ty = ENC_UNICODE then
       seq (on_out (put_length (if headerInd then numFields * 2 - udhBytes - 1 else numFields * 2))) (seq Decode8BitData skip_bits)
     else if ty = ENC_EPM \<or> ty = ENC_GSMDCS then fail
     else
       seq (on_out (put_length (if headerInd then numFields - udhBytes - 1 else numFields))) (seq Decode8BitData skip_bits)))))))"

section \<open>Alerts\<close>

type_synonym 'a cmas_op = "(SmsReadBuffer \<times> SmsTeleSvcCmasData, 'a) op"

definition read_alert :: "nat \<Rightarrow> nat \<Rightarrow> unit cmas_op" where
  "read_alert l n = each (\<lambda>i. bnd (rbits l) (\<lambda>v. store_in cd_alertText (\<lambda>xs d. d\<lparr>cd_alertText := xs\<rparr>) i v)) [0..<n]"

text \<open>For an empty record \<^verbatim>\<open>(len * 8 - 5) / 7\<close> is 0 and \<^verbatim>\<open>(len * 8 - 5) % 7\<close> is -5, which is 251 as an octet.\<close>

definition DecodeType0Data :: "unit cmas_op" where
  "DecodeType0Data =
     bnd (rbits 8) (\<lambda>len.
     bnd (rbits 5) (\<lambda>v.
     let ty = GetEncodingType v; n = unat len in
     if ty = ENC_ASCII_7BIT \<or> ty = ENC_IA5 \<or> ty = ENC_GSM7BIT then
       let dataLen = (if n = 0 then 0 else (n * 8 - 5) div 7); ignoredBits = (if n = 0 then 251 else (n * 8 - 5) mod 7) in
       seq (on_out (\<lambda>d. d\<lparr>cd_dataLen := dataLen\<rparr>)) (
       if dataLen > CDMASMS_USER_DATA_LEN_MAX + 1 then fail
       else
         seq (read_alert 7 dataLen)
           (if ignoredBits = 0 then ret () else seq (rbits ignoredBits) (ret ())))
     else if ty = ENC_EPM \<or> ty = ENC_GSMDCS then fail
     else
       let dataLen = (if n = 0 then 0 else n - 1) in
       seq (on_out (\<lambda>d. d\<lparr>cd_dataLen := dataLen\<rparr>)) (
       if dataLen > CDMASMS_USER_DATA_LEN_MAX + 1 then fail else read_alert 8 dataLen)))"

definition DecodeType1Data :: "unit cmas_op" where
  "DecodeType1Data =
     seq (rbits 8) (
     bnd (rbits 8) (\<lambda>v1. bnd (rbits 8) (\<lambda>v2. bnd (rbits 4) (\<lambda>v3. bnd (rbits 4) (\<lambda>v4. bnd (rbits 4) (\<lambda>v5.
     seq (on_out (\<lambda>d. d\<lparr>cd_category := v1, cd_responseType := v2, cd_severity := v3, cd_urgency := v4, cd_certainty := v5\<rparr>)) (
     seq (rbits 4) (ret ()))))))))"

definition read_alert_bcd :: "(SmsTimeAbs \<Rightarrow> u8 \<Rightarrow> SmsTimeAbs) \<Rightarrow> unit cmas_op" where
  "read_alert_bcd put = bnd (rbits 4) (\<lambda>v1. bnd (rbits 4) (\<lambda>v2. on_out (\<lambda>d. d\<lparr>cd_expires := put (cd_expires d) (v1 * 10 + v2)\<rparr>)))"

definition DecodeAbsTime :: "unit cmas_op" where
  "DecodeAbsTime =
     seq (read_alert_bcd (\<lambda>t v. t\<lparr>ta_year := v\<rparr>)) (
     seq (read_alert_bcd (\<lambda>t v. t\<lparr>ta_month := v\<rparr>)) (
     seq (read_alert_bcd (\<lambda>t v. t\<lparr>ta_day := v\<rparr>)) (
     seq (read_alert_bcd (\<lambda>t v. t\<lparr>ta_hour := v\<rparr>)) (
     seq (read_alert_bcd (\<lambda>t v. t\<lparr>ta_minute := v\<rparr>)) (
     read_alert_bcd (\<lambda>t v. t\<lparr>ta_second := v\<rparr>))))))"

definition DecodeType2Data :: "unit cmas_op" where
  "DecodeType2Data =
     seq (rbits 8) (
     bnd (rbits 8) (\<lambda>v1. bnd (rbits 8) (\<lambda>v2.
     seq (on_out (\<lambda>d. d\<lparr>cd_id := uint v1 * 256 + uint v2\<rparr>)) (
     bnd (rbits 8) (\<lambda>v1.
     seq (on_out (\<lambda>d. d\<lparr>cd_alertHandle := v1\<rparr>)) (
     seq DecodeAbsTime (
     bnd (rbits 8) (\<lambda>v1. on_out (\<lambda>d. d\<lparr>cd_language := v1\<rparr>)))))))))"

definition DecodeData :: "unit cmas_op" where
  "DecodeData =
     bnd (rbits 8) (\<lambda>v.
     if v = 0 then DecodeType0Data else if v = 1 then DecodeType1Data else if v = 2 then DecodeType2Data else ret ())"

text \<open>
  The loop over the records of an alert. Each pass reads at least an octet of a buffer of at most 256, so 257 passes are enough; the memory safety of the decoder,
  proved below, includes that they do not run out.
\<close>

fun cmas_records :: "nat \<Rightarrow> int \<Rightarrow> unit cmas_op" where
  "cmas_records 0 stop = fault"
| "cmas_records (Suc fuel) stop =
     bnd (on_buf (gets GetIndex)) (\<lambda>i. if int i < stop then seq DecodeData (cmas_records fuel stop) else ret ())"

definition CdmaSmsCmasData_Decode :: "unit cmas_op" where
  "CdmaSmsCmasData_Decode =
     bnd (on_buf (IsInvalidPdu USER_DATA)) (\<lambda>len.
     seq (on_out (\<lambda>_. zero_cmas)) (
     bnd (on_buf (gets GetIndex)) (\<lambda>index.
     bnd (rbits 5) (\<lambda>v.
     if GetEncodingType v \<noteq> ENC_OCTET then fail
     else
       seq (rbits 8) (
       bnd (rbits 8) (\<lambda>v.
       if v \<noteq> 0 then seq (on_out (\<lambda>d. d\<lparr>cd_isWrongRecodeType := True\<rparr>)) fail
       else seq (cmas_records 257 (int index + int (unat len) - 1)) skip_bits))))))"

end
