(* ===== verification/Cdma_Voice_Mail.thy ===== *)
theory Cdma_Voice_Mail
  imports Cdma_Sub_Parameter
begin

text \<open>
  The voice mail notifications of \<^verbatim>\<open>services/sms/cdma/cdma_sms_sub_parameter.cpp\<close>: \<^verbatim>\<open>CdmaSmsEnhancedVmn\<close> and \<^verbatim>\<open>CdmaSmsEnhancedVmnAck\<close>. They are only decoded.
\<close>

type_synonym vmn_op = "(SmsReadBuffer \<times> SmsEnhancedVmn, unit) op"

definition Vmn_DecodeHeader :: vmn_op where
  "Vmn_DecodeHeader =
     bnd (rbits 2) (\<lambda>v1. bnd (rbits 1) (\<lambda>v2. bnd (rbits 1) (\<lambda>v3. bnd (rbits 1) (\<lambda>v4.
     seq (on_out (\<lambda>d. d\<lparr>vmn_priority := v1, vmn_passwordReq := (v2 = 1), vmn_setupReq := (v3 = 1), vmn_pwChangeReq := (v4 = 1)\<rparr>)) (
     if v3 = 1 \<or> v4 = 1 then
       bnd (rbits 4) (\<lambda>x. seq (on_out (\<lambda>d. d\<lparr>vmn_minPwLen := x\<rparr>)) (
       bnd (rbits 4) (\<lambda>x. on_out (\<lambda>d. d\<lparr>vmn_maxPwLen := x\<rparr>))))
     else ret ())))))"

definition Vmn_DecodeVoiceMail :: vmn_op where
  "Vmn_DecodeVoiceMail =
     bnd (rbits 8) (\<lambda>x. seq (on_out (\<lambda>d. d\<lparr>vmn_vmNumUnheardMsg := x\<rparr>)) (
     bnd (rbits 1) (\<lambda>v1. bnd (rbits 1) (\<lambda>v2. bnd (rbits 1) (\<lambda>v3. bnd (rbits 1) (\<lambda>v4.
     seq (on_out (\<lambda>d. d\<lparr>vmn_vmMailboxAlmFull := (v1 = 1), vmn_vmMailboxFull := (v2 = 1), vmn_replyAllowed := (v3 = 1),
       vmn_faxIncluded := (v4 = 1)\<rparr>)) (
     bnd (rbits 7) (\<lambda>v1. bnd (rbits 5) (\<lambda>v2.
     bnd (rbits 7) (\<lambda>x. seq (on_out (\<lambda>d. d\<lparr>vmn_vmRetDay := x\<rparr>)) (
     seq (on_out (\<lambda>d. d\<lparr>vmn_vmLen := push_bit 5 (ucast v1) OR ucast v2\<rparr>)) (
     bnd (rbits 8) (\<lambda>v1. bnd (rbits 8) (\<lambda>v2. bnd (rbits 8) (\<lambda>v3. bnd (rbits 8) (\<lambda>v4.
     on_out (\<lambda>d. d\<lparr>vmn_vmMsgId := push_bit 8 (ucast v1) OR ucast v2, vmn_vmMailboxId := push_bit 8 (ucast v3) OR ucast v4\<rparr>)))))))))))))))))"

text \<open>
  The characters of a number, of four bits in digit mode and of eight otherwise; \<open>get\<close> and \<open>put\<close> are the array. The code has the loop twice for each of the two numbers.
\<close>

definition vmn_number :: "(SmsEnhancedVmn \<Rightarrow> bytes) \<Rightarrow> (bytes \<Rightarrow> SmsEnhancedVmn \<Rightarrow> SmsEnhancedVmn) \<Rightarrow> bool \<Rightarrow> u8 \<Rightarrow> vmn_op" where
  "vmn_number get put digitMode numField =
     (if unat numField \<ge> CDMASMS_USER_DATA_LEN_MAX + 1 then fail
      else if digitMode then
        seq (each (\<lambda>i. bnd (rbits 4) (\<lambda>v. store_in get put i (DtmfCharToDigit v))) [0..<unat numField])
          (store_in get put (unat numField) 0)
      else each (\<lambda>i. bnd (rbits 8) (\<lambda>v. store_in get put i v)) [0..<unat numField])"

definition Vmn_DecodeAccessNumber :: vmn_op where
  "Vmn_DecodeAccessNumber =
     bnd (rbits 1) (\<lambda>v1. bnd (rbits 3) (\<lambda>v2.
     seq (on_out (\<lambda>d. d\<lparr>vmn_anDigitMode := (v1 = 1), vmn_anNumberType := v2\<rparr>)) (
     seq (if v1 = 1 then bnd (rbits 4) (\<lambda>x. on_out (\<lambda>d. d\<lparr>vmn_anNumberPlan := x\<rparr>)) else ret ()) (
     bnd (rbits 8) (\<lambda>n.
     seq (on_out (\<lambda>d. d\<lparr>vmn_anNumField := n\<rparr>))
       (vmn_number vmn_anChar (\<lambda>xs d. d\<lparr>vmn_anChar := xs\<rparr>) (v1 = 1) n))))))"

definition Vmn_DecodeCallingPartyNumber :: vmn_op where
  "Vmn_DecodeCallingPartyNumber =
     bnd (rbits 1) (\<lambda>v. bnd (rbits 3) (\<lambda>x.
     seq (on_out (\<lambda>d. d\<lparr>vmn_cliNumberType := x, vmn_cliDigitMode := (v = 1)\<rparr>)) (
     seq (if v = 1 then bnd (rbits 4) (\<lambda>x. on_out (\<lambda>d. d\<lparr>vmn_cliNumberPlan := x\<rparr>)) else ret ()) (
     bnd (rbits 8) (\<lambda>n.
     seq (on_out (\<lambda>d. d\<lparr>vmn_cliNumField := n\<rparr>))
       (vmn_number vmn_cliChar (\<lambda>xs d. d\<lparr>vmn_cliChar := xs\<rparr>) (v = 1) n))))))"

definition CdmaSmsEnhancedVmn_Decode :: vmn_op where
  "CdmaSmsEnhancedVmn_Decode =
     seq (on_buf (IsInvalidPdu ENHANCED_VMN)) (
     seq (on_out (\<lambda>_. zero_vmn)) (
     seq Vmn_DecodeHeader (
     seq Vmn_DecodeVoiceMail (
     seq Vmn_DecodeAccessNumber (
     seq Vmn_DecodeCallingPartyNumber skip_bits)))))"

text \<open>The identifiers of \<open>n\<close> acknowledged messages.\<close>

definition vmn_ids ::
  "(SmsEnhancedVmnAck \<Rightarrow> u16 list) \<Rightarrow> (u16 list \<Rightarrow> SmsEnhancedVmnAck \<Rightarrow> SmsEnhancedVmnAck) \<Rightarrow> u8 \<Rightarrow>
   (SmsReadBuffer \<times> SmsEnhancedVmnAck, unit) op" where
  "vmn_ids get put n =
     (if unat n > CDMASMS_NUMBER_OF_ACK_MAX + 1 then fail
      else each (\<lambda>i. bnd (rbits 8) (\<lambda>v1. bnd (rbits 8) (\<lambda>v2.
        store_in get put i (push_bit 8 (ucast v1) OR ucast v2)))) [0..<unat n])"

definition CdmaSmsEnhancedVmnAck_Decode :: "(SmsReadBuffer \<times> SmsEnhancedVmnAck, unit) op" where
  "CdmaSmsEnhancedVmnAck_Decode =
     seq (on_buf (IsInvalidPdu ENHANCED_VMN_ACK)) (
     seq (on_out (\<lambda>_. zero_vmn_ack)) (
     bnd (on_buf ReadWord) (\<lambda>w. seq (on_out (\<lambda>d. d\<lparr>va_vmMailboxId := w\<rparr>)) (
     bnd rbyte (\<lambda>x. seq (on_out (\<lambda>d. d\<lparr>va_vmNumUnheardMsg := x\<rparr>)) (
     bnd (rbits 3) (\<lambda>v1. bnd (rbits 3) (\<lambda>v2.
     seq (on_out (\<lambda>d. d\<lparr>va_numDeleteAck := v1, va_numPlayAck := v2\<rparr>)) (
     seq (vmn_ids va_daVmMsgId (\<lambda>xs d. d\<lparr>va_daVmMsgId := xs\<rparr>) v1) (
     seq (vmn_ids va_paVmMsgId (\<lambda>xs d. d\<lparr>va_paVmMsgId := xs\<rparr>) v2) skip_bits))))))))))"

end
