(* ===== verification/Cdma_Teleservice.thy ===== *)
theory Cdma_Teleservice
  imports Cdma_User_Data Cdma_Voice_Mail
begin

text \<open>
  \<^verbatim>\<open>services/sms/cdma/cdma_sms_teleservice_message.cpp\<close>: the teleservice messages, made of sub-parameters. A message object is the list of its sub-parameters. One that is to be encoded is
  built from the struct it will write; one that is to be decoded is built by a first pass over the PDU that finds out which sub-parameters it has, and its
  sub-parameters refer to members of the struct they will fill.
\<close>

section \<open>Messages as lists of parameters\<close>

text \<open>A parameter that is to be encoded, and one that is to be decoded into a struct \<open>'t\<close>. A parameter that refers to a member is the decoder of that member on the struct (\<open>zoom\<close>).\<close>

type_synonym enc_param = "(SmsWriteBuffer, unit) op"
type_synonym 't dec_param = "(SmsReadBuffer \<times> 't, unit) op"

definition CdmaSmsTeleserviceMessage_Encode :: "enc_param list \<Rightarrow> (SmsWriteBuffer, unit) op" where
  "CdmaSmsTeleserviceMessage_Encode ps = nonempty (if ps = [] then fail else each (\<lambda>p. p) ps)"

definition on_nonempty :: "'a \<Rightarrow> (SmsReadBuffer \<times> 't, 'a) op \<Rightarrow> (SmsReadBuffer \<times> 't, 'a) op" where
  "on_nonempty x m = bnd (on_buf (gets IsEmpty)) (\<lambda>e. if e then ret x else m)"

definition CdmaSmsTeleserviceMessage_Decode :: "'t dec_param list \<Rightarrow> (SmsReadBuffer \<times> 't, unit) op" where
  "CdmaSmsTeleserviceMessage_Decode ps = seq (on_buf (nonempty (ret ()))) (if ps = [] then fail else each (\<lambda>p. p) ps)"

text \<open>A local struct that is filled and dropped.\<close>

definition on_local :: "'t \<Rightarrow> (SmsReadBuffer \<times> 't, 'a) op \<Rightarrow> (SmsReadBuffer, 'a) op" where
  "on_local z m b = (case m (b, z) of Ok x t \<Rightarrow> Ok x (fst t) | Fail t \<Rightarrow> Fail (fst t) | Fault \<Rightarrow> Fault)"

text \<open>
  The search for the message identifier. Each pass reads an octet, of a buffer of at most 256, so 257 passes are enough; the memory safety of the decoder includes that they do not run out.
\<close>

fun find_message_type :: "nat \<Rightarrow> (SmsReadBuffer, u8) op" where
  "find_message_type 0 = fault"
| "find_message_type (Suc fuel) =
     bnd (attempt ReadByte) (\<lambda>r.
     case r of
       None \<Rightarrow> ret 0
     | Some ident \<Rightarrow>
         if ident = MESSAGE_IDENTIFIER then
           seq (MoveBack 1) (bnd (attempt (on_local zero_msgId CdmaSmsMessageId_Decode)) (\<lambda>r. ret (case r of None \<Rightarrow> 0 | Some ty \<Rightarrow> ty)))
         else
           bnd (attempt ReadByte) (\<lambda>r.
           case r of None \<Rightarrow> ret 0 | Some len \<Rightarrow> seq (MoveForward (unat len)) (find_message_type fuel)))"

definition GetMessageType :: "(SmsReadBuffer, u8) op" where
  "GetMessageType = bnd (gets IsEmpty) (\<lambda>e. if e then ret 0 else find_message_type 257)"

text \<open>
  The first pass of a decoding constructor: at most \<open>n\<close> parameters. \<open>push\<close> makes the parameter for an identifier, which may set members of the struct; \<open>None\<close> ends the
  pass.
\<close>

fun scan_parameters :: "(u8 \<Rightarrow> (SmsReadBuffer \<times> 't, 't dec_param option) op) \<Rightarrow> nat \<Rightarrow> (SmsReadBuffer \<times> 't, 't dec_param list) op" where
  "scan_parameters push 0 = ret []"
| "scan_parameters push (Suc n) =
     bnd (attempt (on_buf (bnd ReadByte (\<lambda>ident. bnd ReadByte (\<lambda>len. ret (ident, len)))))) (\<lambda>r.
     case r of
       None \<Rightarrow> ret []
     | Some (ident, len) \<Rightarrow>
         bnd (push ident) (\<lambda>p.
         case p of
           None \<Rightarrow> ret []
         | Some d \<Rightarrow> seq (on_buf (MoveForward (unat len))) (bnd (scan_parameters push n) (\<lambda>ps. ret (d # ps)))))"

definition SUB_PARAMETER_SIZE_MAX :: nat where
  "SUB_PARAMETER_SIZE_MAX = 24"

definition pushed :: "('t \<Rightarrow> 't) \<Rightarrow> 't dec_param \<Rightarrow> (SmsReadBuffer \<times> 't, 't dec_param option) op" where
  "pushed f d = seq (on_out f) (ret (Some d))"

abbreviation (input) "param d \<equiv> ret (Some d)"

definition reserved :: "u8 \<Rightarrow> (SmsReadBuffer \<times> 't, 't dec_param option) op" where
  "reserved ident = param (on_buf (CdmaSmsReservedParameter_Decode ident))"

text \<open>The user data refers to the header indicator of the message identifier, and looks at it when it is decoded.\<close>

definition user_data_param ::
  "iconv \<Rightarrow> nat \<Rightarrow> ('t \<Rightarrow> SmsTeleSvcMsgId) \<Rightarrow> ('t \<Rightarrow> SmsTeleSvcUserData) \<Rightarrow> (SmsTeleSvcUserData \<Rightarrow> 't \<Rightarrow> 't) \<Rightarrow> 't dec_param" where
  "user_data_param ic wsize msgId get put =
     bnd get_out (\<lambda>m. zoom get put (CdmaSmsUserData_Decode ic wsize (mi_headerInd (msgId m))))"

definition message_id_param :: "('t \<Rightarrow> SmsTeleSvcMsgId) \<Rightarrow> (SmsTeleSvcMsgId \<Rightarrow> 't \<Rightarrow> 't) \<Rightarrow> 't dec_param" where
  "message_id_param get put = zoom get put (seq CdmaSmsMessageId_Decode (ret ()))"

text \<open>The relative time is the octet that holds the year of the absolute time.\<close>

definition relative_param :: "u8 \<Rightarrow> (SmsReadBuffer \<times> SmsValPeriod, unit) op" where
  "relative_param ident =
     zoom (\<lambda>p. ta_year (vp_absTime p)) (\<lambda>v p. p\<lparr>vp_absTime := (vp_absTime p)\<lparr>ta_year := v\<rparr>\<rparr>) (CdmaSmsBaseParameter_Decode ident)"

definition absolute_param :: "u8 \<Rightarrow> (SmsReadBuffer \<times> SmsValPeriod, unit) op" where
  "absolute_param ident = zoom vp_absTime (\<lambda>t p. p\<lparr>vp_absTime := t\<rparr>) (CdmaSmsAbsoluteTime_Decode ident)"

section \<open>Messages to encode\<close>

definition CdmaSmsSubmitMessage :: "TeleserviceSubmit \<Rightarrow> enc_param list" where
  "CdmaSmsSubmitMessage m =
     [CdmaSmsMessageId_Encode 2 (sm_msgId m), CdmaSmsUserData_Encode (sm_userData m)] @
     (case vp_format (sm_deferValPeriod m) of
        SMS_TIME_RELATIVE \<Rightarrow> [CdmaSmsBaseParameter_Encode DEFERRED_DELIVERY_TIME_RELATIVE (ta_year (vp_absTime (sm_deferValPeriod m)))]
      | SMS_TIME_ABSOLUTE \<Rightarrow> [CdmaSmsAbsoluteTime_Encode DEFERRED_DELIVERY_TIME_ABSOLUTE (vp_absTime (sm_deferValPeriod m))]
      | _ \<Rightarrow> []) @
     (if sm_priority m \<le> PRIORITY_EMERGENCY then [CdmaSmsPriorityInd_Encode (sm_priority m)] else []) @
     (if ro_userAck (sm_replyOpt m) \<or> ro_dak (sm_replyOpt m) \<or> ro_readAck (sm_replyOpt m) \<or> ro_report (sm_replyOpt m)
      then [CdmaSmsReplyOption_Encode (sm_replyOpt m)] else []) @
     (if sa_addrLen (sm_callbackNumber m) > 0 then [CdmaSmsCallbackNumber_Encode (sm_callbackNumber m)] else [])"

definition CdmaSmsCancelMessage :: "SmsTeleSvcMsgId \<Rightarrow> enc_param list" where
  "CdmaSmsCancelMessage m = [CdmaSmsMessageId_Encode 3 m]"

definition CdmaSmsDeliverReport :: "TeleserviceDeliverReport \<Rightarrow> enc_param list" where
  "CdmaSmsDeliverReport m =
     [CdmaSmsMessageId_Encode 7 (rp_msgId m)] @
     (if rp_tpFailCause m \<ge> 0x80 then [CdmaSmsBaseParameter_Encode TP_FAILURE_CAUSE (rp_tpFailCause m)] else []) @
     [CdmaSmsUserData_Encode (rp_userData m)]"

section \<open>Messages to decode\<close>

definition Submit_push :: "iconv \<Rightarrow> nat \<Rightarrow> u8 \<Rightarrow> (SmsReadBuffer \<times> TeleserviceSubmit, TeleserviceSubmit dec_param option) op" where
  "Submit_push ic wsize ident =
     (let valPeriod = zoom sm_valPeriod (\<lambda>p m. m\<lparr>sm_valPeriod := p\<rparr>); val_format = (\<lambda>f m. m\<lparr>sm_valPeriod := (sm_valPeriod m)\<lparr>vp_format := f\<rparr>\<rparr>);
          deferPeriod = zoom sm_deferValPeriod (\<lambda>p m. m\<lparr>sm_deferValPeriod := p\<rparr>);
          defer_format = (\<lambda>f m. m\<lparr>sm_deferValPeriod := (sm_deferValPeriod m)\<lparr>vp_format := f\<rparr>\<rparr>) in
      if ident = MESSAGE_IDENTIFIER then param (message_id_param sm_msgId (\<lambda>x m. m\<lparr>sm_msgId := x\<rparr>))
      else if ident = USER_DATA then param (user_data_param ic wsize sm_msgId sm_userData (\<lambda>x m. m\<lparr>sm_userData := x\<rparr>))
      else if ident = VALIDITY_PERIOD_ABSOLUTE then pushed (val_format SMS_TIME_ABSOLUTE) (valPeriod (absolute_param ident))
      else if ident = VALIDITY_PERIOD_RELATIVE then pushed (val_format SMS_TIME_RELATIVE) (valPeriod (relative_param ident))
      else if ident = DEFERRED_DELIVERY_TIME_ABSOLUTE then pushed (defer_format SMS_TIME_ABSOLUTE) (deferPeriod (absolute_param ident))
      else if ident = DEFERRED_DELIVERY_TIME_RELATIVE then pushed (defer_format SMS_TIME_RELATIVE) (deferPeriod (relative_param ident))
      else if ident = PRIORITY_INDICATOR then param (zoom sm_priority (\<lambda>x m. m\<lparr>sm_priority := x\<rparr>) CdmaSmsPriorityInd_Decode)
      else if ident = PRIVACY_INDICATOR then param (zoom sm_privacy (\<lambda>x m. m\<lparr>sm_privacy := x\<rparr>) CdmaSmsPrivacyInd_Decode)
      else if ident = REPLY_OPTION then param (zoom sm_replyOpt (\<lambda>x m. m\<lparr>sm_replyOpt := x\<rparr>) CdmaSmsReplyOption_Decode)
      else if ident = ALERT_ON_MSG_DELIVERY then param (zoom sm_alertPriority (\<lambda>x m. m\<lparr>sm_alertPriority := x\<rparr>) CdmaSmsAlertPriority_Decode)
      else if ident = LANGUAGE_INDICATOR then param (zoom sm_language (\<lambda>x m. m\<lparr>sm_language := x\<rparr>) CdmaSmsLanguageInd_Decode)
      else if ident = CALLBACK_NUMBER then param (zoom sm_callbackNumber (\<lambda>x m. m\<lparr>sm_callbackNumber := x\<rparr>) CdmaSmsCallbackNumber_Decode)
      else if ident = MESSAGE_DEPOSIT_INDEX then param (zoom sm_depositId (\<lambda>x m. m\<lparr>sm_depositId := x\<rparr>) CdmaSmsDepositIndex_Decode)
      else reserved ident)"

definition CdmaSmsSubmitMessage_scan :: "iconv \<Rightarrow> nat \<Rightarrow> (SmsReadBuffer \<times> TeleserviceSubmit, TeleserviceSubmit dec_param list) op" where
  "CdmaSmsSubmitMessage_scan ic wsize =
     on_nonempty [] (seq (on_out (\<lambda>m. m\<lparr>sm_priority := PRIORITY_RESERVED\<rparr>)) (scan_parameters (Submit_push ic wsize) SUB_PARAMETER_SIZE_MAX))"

definition PushParameter :: "iconv \<Rightarrow> nat \<Rightarrow> u8 \<Rightarrow> (SmsReadBuffer \<times> TeleserviceDeliver, TeleserviceDeliver dec_param option) op" where
  "PushParameter ic wsize ident =
     (let valPeriod = zoom dl_valPeriod (\<lambda>p m. m\<lparr>dl_valPeriod := p\<rparr>); val_format = (\<lambda>f m. m\<lparr>dl_valPeriod := (dl_valPeriod m)\<lparr>vp_format := f\<rparr>\<rparr>) in
      if ident = MESSAGE_IDENTIFIER then param (message_id_param dl_msgId (\<lambda>x m. m\<lparr>dl_msgId := x\<rparr>))
      else if ident = USER_DATA then param (user_data_param ic wsize dl_msgId dl_userData (\<lambda>x m. m\<lparr>dl_userData := x\<rparr>))
      else if ident = MESSAGE_CENTER_TIME_STAMP then param (zoom dl_timeStamp (\<lambda>x m. m\<lparr>dl_timeStamp := x\<rparr>) (CdmaSmsAbsoluteTime_Decode ident))
      else if ident = VALIDITY_PERIOD_ABSOLUTE then pushed (val_format SMS_TIME_ABSOLUTE) (valPeriod (absolute_param ident))
      else if ident = VALIDITY_PERIOD_RELATIVE then pushed (val_format SMS_TIME_RELATIVE) (valPeriod (relative_param ident))
      else if ident = PRIORITY_INDICATOR then param (zoom dl_priority (\<lambda>x m. m\<lparr>dl_priority := x\<rparr>) CdmaSmsPriorityInd_Decode)
      else if ident = PRIVACY_INDICATOR then param (zoom dl_privacy (\<lambda>x m. m\<lparr>dl_privacy := x\<rparr>) CdmaSmsPrivacyInd_Decode)
      else if ident = REPLY_OPTION then param (zoom dl_replyOpt (\<lambda>x m. m\<lparr>dl_replyOpt := x\<rparr>) CdmaSmsReplyOption_Decode)
      else if ident = NUMBER_OF_MESSAGES then param (zoom dl_numMsg (\<lambda>x m. m\<lparr>dl_numMsg := x\<rparr>) CdmaSmsNumberMessages_Decode)
      else if ident = ALERT_ON_MSG_DELIVERY then param (zoom dl_alertPriority (\<lambda>x m. m\<lparr>dl_alertPriority := x\<rparr>) CdmaSmsAlertPriority_Decode)
      else if ident = LANGUAGE_INDICATOR then param (zoom dl_language (\<lambda>x m. m\<lparr>dl_language := x\<rparr>) CdmaSmsLanguageInd_Decode)
      else if ident = CALLBACK_NUMBER then param (zoom dl_callbackNumber (\<lambda>x m. m\<lparr>dl_callbackNumber := x\<rparr>) CdmaSmsCallbackNumber_Decode)
      else if ident = MESSAGE_DISPLAY_MODE then param (zoom dl_displayMode (\<lambda>x m. m\<lparr>dl_displayMode := x\<rparr>) CdmaSmsDisplayMode_Decode)
      else if ident = MESSAGE_DEPOSIT_INDEX then param (zoom dl_depositId (\<lambda>x m. m\<lparr>dl_depositId := x\<rparr>) CdmaSmsDepositIndex_Decode)
      else if ident = ENHANCED_VMN then param (zoom dl_vmn (\<lambda>x m. m\<lparr>dl_vmn := x\<rparr>) CdmaSmsEnhancedVmn_Decode)
      else if ident = ENHANCED_VMN_ACK then param (zoom dl_vmnAck (\<lambda>x m. m\<lparr>dl_vmnAck := x\<rparr>) CdmaSmsEnhancedVmnAck_Decode)
      else reserved ident)"

definition Deliver_push :: "iconv \<Rightarrow> nat \<Rightarrow> bool \<Rightarrow> u8 \<Rightarrow> (SmsReadBuffer \<times> TeleserviceDeliver, TeleserviceDeliver dec_param option) op" where
  "Deliver_push ic wsize isCMAS ident =
     (if isCMAS \<and> ident = USER_DATA then param (zoom dl_cmasData (\<lambda>x m. m\<lparr>dl_cmasData := x\<rparr>) CdmaSmsCmasData_Decode)
      else PushParameter ic wsize ident)"

definition CdmaSmsDeliverMessage_scan ::
  "iconv \<Rightarrow> nat \<Rightarrow> bool \<Rightarrow> (SmsReadBuffer \<times> TeleserviceDeliver, TeleserviceDeliver dec_param list) op" where
  "CdmaSmsDeliverMessage_scan ic wsize isCMAS = on_nonempty [] (scan_parameters (Deliver_push ic wsize isCMAS) SUB_PARAMETER_SIZE_MAX)"

definition DeliveryAck_push :: "iconv \<Rightarrow> nat \<Rightarrow> u8 \<Rightarrow> (SmsReadBuffer \<times> TeleserviceDeliverAck, TeleserviceDeliverAck dec_param option) op" where
  "DeliveryAck_push ic wsize ident =
     (if ident = MESSAGE_IDENTIFIER then param (message_id_param dk_msgId (\<lambda>x m. m\<lparr>dk_msgId := x\<rparr>))
      else if ident = USER_DATA then param (user_data_param ic wsize dk_msgId dk_userData (\<lambda>x m. m\<lparr>dk_userData := x\<rparr>))
      else if ident = MESSAGE_CENTER_TIME_STAMP then param (zoom dk_timeStamp (\<lambda>x m. m\<lparr>dk_timeStamp := x\<rparr>) (CdmaSmsAbsoluteTime_Decode ident))
      else if ident = MESSAGE_STATUS then param (zoom dk_msgStatus (\<lambda>x m. m\<lparr>dk_msgStatus := x\<rparr>) CdmaSmsMessageStatus_Decode)
      else reserved ident)"

definition CdmaSmsDeliveryAck_scan :: "iconv \<Rightarrow> nat \<Rightarrow> (SmsReadBuffer \<times> TeleserviceDeliverAck, TeleserviceDeliverAck dec_param list) op" where
  "CdmaSmsDeliveryAck_scan ic wsize = on_nonempty [] (scan_parameters (DeliveryAck_push ic wsize) SUB_PARAMETER_SIZE_MAX)"

definition UserAck_push :: "iconv \<Rightarrow> nat \<Rightarrow> u8 \<Rightarrow> (SmsReadBuffer \<times> TeleserviceUserAck, TeleserviceUserAck dec_param option) op" where
  "UserAck_push ic wsize ident =
     (if ident = MESSAGE_IDENTIFIER then param (message_id_param uk_msgId (\<lambda>x m. m\<lparr>uk_msgId := x\<rparr>))
      else if ident = USER_DATA then param (user_data_param ic wsize uk_msgId uk_userData (\<lambda>x m. m\<lparr>uk_userData := x\<rparr>))
      else if ident = USER_RESPONSE_CODE then param (zoom uk_respCode (\<lambda>x m. m\<lparr>uk_respCode := x\<rparr>) (CdmaSmsBaseParameter_Decode ident))
      else if ident = MESSAGE_CENTER_TIME_STAMP then param (zoom uk_timeStamp (\<lambda>x m. m\<lparr>uk_timeStamp := x\<rparr>) (CdmaSmsAbsoluteTime_Decode ident))
      else if ident = MESSAGE_DEPOSIT_INDEX then param (zoom uk_depositId (\<lambda>x m. m\<lparr>uk_depositId := x\<rparr>) CdmaSmsDepositIndex_Decode)
      else reserved ident)"

definition CdmaSmsUserAck_scan :: "iconv \<Rightarrow> nat \<Rightarrow> (SmsReadBuffer \<times> TeleserviceUserAck, TeleserviceUserAck dec_param list) op" where
  "CdmaSmsUserAck_scan ic wsize = on_nonempty [] (scan_parameters (UserAck_push ic wsize) SUB_PARAMETER_SIZE_MAX)"

definition ReadAck_push :: "iconv \<Rightarrow> nat \<Rightarrow> u8 \<Rightarrow> (SmsReadBuffer \<times> TeleserviceReadAck, TeleserviceReadAck dec_param option) op" where
  "ReadAck_push ic wsize ident =
     (if ident = MESSAGE_IDENTIFIER then param (message_id_param rk_msgId (\<lambda>x m. m\<lparr>rk_msgId := x\<rparr>))
      else if ident = USER_DATA then param (user_data_param ic wsize rk_msgId rk_userData (\<lambda>x m. m\<lparr>rk_userData := x\<rparr>))
      else if ident = MESSAGE_CENTER_TIME_STAMP then param (zoom rk_timeStamp (\<lambda>x m. m\<lparr>rk_timeStamp := x\<rparr>) (CdmaSmsAbsoluteTime_Decode ident))
      else if ident = MESSAGE_DEPOSIT_INDEX then param (zoom rk_depositId (\<lambda>x m. m\<lparr>rk_depositId := x\<rparr>) CdmaSmsDepositIndex_Decode)
      else reserved ident)"

definition CdmaSmsReadAck_scan :: "iconv \<Rightarrow> nat \<Rightarrow> (SmsReadBuffer \<times> TeleserviceReadAck, TeleserviceReadAck dec_param list) op" where
  "CdmaSmsReadAck_scan ic wsize = on_nonempty [] (scan_parameters (ReadAck_push ic wsize) SUB_PARAMETER_SIZE_MAX)"

end
