(* ===== verification/Cdma_Transport.thy ===== *)
theory Cdma_Transport
  imports Cdma_Teleservice
begin

text \<open>
  The transport layer: the parameter records of \<^verbatim>\<open>services/sms/cdma/cdma_sms_parameter_record.cpp\<close> and the messages made of them, \<^verbatim>\<open>cdma_sms_transport_message.cpp\<close>. The
  bearer data is the record that holds a teleservice message.
\<close>

section \<open>Parameter records\<close>

abbreviation (input) "TELESERVICE_ID \<equiv> 0x00 :: u8"
abbreviation (input) "SERVICE_CATEGORY \<equiv> 0x01 :: u8"
abbreviation (input) "ORG_ADDRESS \<equiv> 0x02 :: u8"
abbreviation (input) "ORG_SUB_ADDRESS \<equiv> 0x03 :: u8"
abbreviation (input) "DEST_ADDRESS \<equiv> 0x04 :: u8"
abbreviation (input) "DEST_SUB_ADDRESS \<equiv> 0x05 :: u8"
abbreviation (input) "BEARER_REPLY_OPTION \<equiv> 0x06 :: u8"
abbreviation (input) "CAUSE_CODES \<equiv> 0x07 :: u8"
abbreviation (input) "BEARER_DATA \<equiv> 0x08 :: u8"

definition CdmaSmsTeleserviceId_Encode :: "u16 \<Rightarrow> enc_param" where
  "CdmaSmsTeleserviceId_Encode v = nonempty (seq (WriteByte TELESERVICE_ID) (seq (WriteByte 2) (WriteWord v)))"

definition CdmaSmsTeleserviceId_Decode :: "u16 dec_param" where
  "CdmaSmsTeleserviceId_Decode = seq (on_buf (IsInvalidPdu TELESERVICE_ID)) (bnd (on_buf ReadWord) (\<lambda>v. on_out (\<lambda>_. v)))"

definition CdmaSmsServiceCategory_Encode :: "u16 \<Rightarrow> enc_param" where
  "CdmaSmsServiceCategory_Encode v = nonempty (seq (WriteByte SERVICE_CATEGORY) (seq (WriteByte 2) (WriteWord v)))"

definition CdmaSmsServiceCategory_Decode :: "u16 dec_param" where
  "CdmaSmsServiceCategory_Decode = seq (on_buf (IsInvalidPdu SERVICE_CATEGORY)) (bnd (on_buf ReadWord) (\<lambda>v. on_out (\<lambda>_. v)))"

definition CdmaSmsBearerReply_Encode :: "u8 \<Rightarrow> enc_param" where
  "CdmaSmsBearerReply_Encode v =
     nonempty (seq (WriteByte BEARER_REPLY_OPTION) (seq (WriteByte 1) (seq (WriteBits v 6) (ignore SkipBits))))"

definition CdmaSmsBearerReply_Decode :: "u8 dec_param" where
  "CdmaSmsBearerReply_Decode =
     seq (on_buf (IsInvalidPdu BEARER_REPLY_OPTION)) (bnd (rbits 6) (\<lambda>v. seq (on_out (\<lambda>_. v)) skip_bits))"

definition CdmaSmsCauseCodes_Encode :: "TransportCauseCode \<Rightarrow> enc_param" where
  "CdmaSmsCauseCodes_Encode c =
     tlv_length CAUSE_CODES (
       seq (WriteBits (cc_transReplySeq c) 6) (
       seq (WriteBits (cc_errorClass c) 2)
         (if cc_errorClass c \<noteq> ERR_CLASS_NONE then WriteBits (cc_causeCode c) 8 else ret ())))"

text \<open>The class 1 is none of the three; it leaves the class as it was.\<close>

definition CdmaSmsCauseCodes_Decode :: "TransportCauseCode dec_param" where
  "CdmaSmsCauseCodes_Decode =
     seq (on_buf (IsInvalidPdu CAUSE_CODES)) (
     bnd (rbits 6) (\<lambda>x. seq (on_out (\<lambda>c. c\<lparr>cc_transReplySeq := x\<rparr>)) (
     bnd (rbits 2) (\<lambda>v.
     seq (if v = ERR_CLASS_NONE \<or> v = ERR_CLASS_TEMPORARY \<or> v = ERR_CLASS_PERMANENT then on_out (\<lambda>c. c\<lparr>cc_errorClass := v\<rparr>) else ret ()) (
     bnd get_out (\<lambda>c.
     seq (if cc_errorClass c \<noteq> ERR_CLASS_NONE then bnd (rbits 8) (\<lambda>x. on_out (\<lambda>c. c\<lparr>cc_causeCode := x\<rparr>)) else ret ()) skip_bits))))))"

definition EncodeAddress :: "TransportAddr \<Rightarrow> enc_param" where
  "EncodeAddress a =
     seq (WriteBits (ucast (tra_addrLen a)) 8) (
     if unat (tra_addrLen a) > CDMASMS_ADDRESS_LEN_MAX + 1 then fail
     else each (\<lambda>i. bnd (rd_at (tra_szData a) i) (\<lambda>c. if tra_digitMode a then WriteBits c 8 else WriteBits (DigitToDtmfChar c) 4))
            (u8_for (unat (tra_addrLen a))))"

definition CdmaSmsAddressParameter_Encode :: "u8 \<Rightarrow> TransportAddr \<Rightarrow> enc_param" where
  "CdmaSmsAddressParameter_Encode ident a =
     (if ident \<noteq> ORG_ADDRESS \<and> ident \<noteq> DEST_ADDRESS then fail
      else tlv_length ident (
        seq (WriteBits (flag (tra_digitMode a)) 1) (
        seq (WriteBits (flag (tra_numberMode a)) 1) (
        seq (if tra_digitMode a then
               seq (WriteBits (tra_numberType a) 3) (if tra_numberMode a then ret () else WriteBits (tra_numberPlan a) 4)
             else ret ())
          (EncodeAddress a)))))"

definition DecodeAddress :: "bool \<Rightarrow> TransportAddr dec_param" where
  "DecodeAddress digitMode =
     bnd (rbits 8) (\<lambda>n.
     seq (on_out (\<lambda>a. a\<lparr>tra_addrLen := ucast n\<rparr>)) (
     if unat n > CDMASMS_ADDRESS_LEN_MAX + 1 then fail
     else each (\<lambda>i. bnd (rbits (if digitMode then 8 else 4)) (\<lambda>x.
       store_in tra_szData (\<lambda>xs a. a\<lparr>tra_szData := xs\<rparr>) i (if digitMode then x else DtmfCharToDigit x))) [0..<unat n]))"

definition CdmaSmsAddressParameter_Decode :: "u8 \<Rightarrow> TransportAddr dec_param" where
  "CdmaSmsAddressParameter_Decode ident =
     (if ident \<noteq> ORG_ADDRESS \<and> ident \<noteq> DEST_ADDRESS then fail
      else
        seq (on_buf (IsInvalidPdu ident)) (
        seq (on_out (\<lambda>_. zero_trans_addr)) (
        bnd (rbits 1) (\<lambda>v1. bnd (rbits 1) (\<lambda>v2.
        seq (on_out (\<lambda>a. a\<lparr>tra_digitMode := (v1 = 1), tra_numberMode := (v2 = 1)\<rparr>)) (
        seq (if v1 = 1 then
               bnd (rbits 3) (\<lambda>x. seq (on_out (\<lambda>a. a\<lparr>tra_numberType := x\<rparr>)) (
               if v2 = 1 then ret () else bnd (rbits 4) (\<lambda>x. on_out (\<lambda>a. a\<lparr>tra_numberPlan := x\<rparr>))))
             else ret ()) (
        seq (DecodeAddress (v1 = 1)) skip_bits)))))))"

definition CdmaSmsSubaddress_Encode :: "u8 \<Rightarrow> TransportSubAddr \<Rightarrow> enc_param" where
  "CdmaSmsSubaddress_Encode ident a =
     (if ident \<noteq> ORG_SUB_ADDRESS \<and> ident \<noteq> DEST_SUB_ADDRESS then fail
      else tlv_length ident (
        seq (WriteBits (tsa_type a) 3) (
        seq (WriteBits (flag (tsa_odd a)) 1) (
        seq (WriteBits (ucast (tsa_addrLen a)) 8) (
        if unat (tsa_addrLen a) > CDMASMS_ADDRESS_LEN_MAX + 1 then fail
        else each (\<lambda>i. bnd (rd_at (tsa_szData a) i) (\<lambda>c. WriteBits c 8)) (u8_for (unat (tsa_addrLen a))))))))"

definition CdmaSmsSubaddress_Decode :: "u8 \<Rightarrow> TransportSubAddr dec_param" where
  "CdmaSmsSubaddress_Decode ident =
     (if ident \<noteq> ORG_SUB_ADDRESS \<and> ident \<noteq> DEST_SUB_ADDRESS then fail
      else
        seq (on_buf (IsInvalidPdu ident)) (
        seq (on_out (\<lambda>_. zero_trans_sub)) (
        bnd (rbits 3) (\<lambda>v1. bnd (rbits 1) (\<lambda>v2. bnd (rbits 8) (\<lambda>v3.
        seq (on_out (\<lambda>a. a\<lparr>tsa_type := (if v1 \<le> 1 then v1 else 2), tsa_odd := (v2 = 1), tsa_addrLen := ucast v3\<rparr>)) (
        if unat v3 > CDMASMS_ADDRESS_LEN_MAX + 1 then fail
        else
          seq (each (\<lambda>i. bnd (rbits 8) (\<lambda>x. store_in tsa_szData (\<lambda>xs a. a\<lparr>tsa_szData := xs\<rparr>) i x)) [0..<unat v3])
            skip_bits)))))))"

section \<open>Bearer data\<close>

text \<open>\<open>None\<close> is a null \<^verbatim>\<open>teleserviceMessage_\<close>.\<close>

definition CdmaSmsBearerData :: "tele_overlay \<Rightarrow> CdmaTeleserviceMsg \<Rightarrow> enc_param list option" where
  "CdmaSmsBearerData ov msg =
     (case tm_type msg of
        TELE_SUBMIT \<Rightarrow> Some (CdmaSmsSubmitMessage (get_submit ov (tm_data msg)))
      | TELE_CANCEL \<Rightarrow> Some (CdmaSmsCancelMessage (get_cancel ov (tm_data msg)))
      | TELE_DELIVER_REPORT \<Rightarrow> Some (CdmaSmsDeliverReport (get_report ov (tm_data msg)))
      | _ \<Rightarrow> None)"

definition CdmaSmsBearerData_Encode :: "tele_overlay \<Rightarrow> CdmaTeleserviceMsg \<Rightarrow> enc_param" where
  "CdmaSmsBearerData_Encode ov msg =
     nonempty (case CdmaSmsBearerData ov msg of
       None \<Rightarrow> fail
     | Some ps \<Rightarrow>
         seq (WriteByte BEARER_DATA) (
         bnd (MoveForward 1) (\<lambda>lenIndex.
         seq (CdmaSmsTeleserviceMessage_Encode ps) (
         bnd (gets GetIndex) (\<lambda>stop.
         InsertByte (word_of_nat stop - word_of_nat lenIndex - 1) lenIndex)))))"

text \<open>The first pass on a member of the union; the parameters it makes are turned into parameters of the whole teleservice message.\<close>

definition scan_member ::
  "TeleserviceMsgType \<Rightarrow> (TeleUnion \<Rightarrow> 't) \<Rightarrow> ('t \<Rightarrow> TeleUnion) \<Rightarrow> (SmsReadBuffer \<times> 't, 't dec_param list) op \<Rightarrow>
   (SmsReadBuffer \<times> CdmaTeleserviceMsg, CdmaTeleserviceMsg dec_param list option) op" where
  "scan_member ty get put scan =
     (let member = (\<lambda>m. get (tm_data m)); write_member = (\<lambda>d m. m\<lparr>tm_data := put d\<rparr>) in
      seq (on_out (\<lambda>m. m\<lparr>tm_type := ty\<rparr>)) (
      bnd (zoom member write_member scan) (\<lambda>ps. ret (Some (map (zoom member write_member) ps)))))"

text \<open>The index is kept in a \<^verbatim>\<open>uint8_t\<close> here, and the result of \<^verbatim>\<open>SetIndex\<close> is dropped.\<close>

definition CdmaSmsBearerData_scan ::
  "tele_overlay \<Rightarrow> iconv \<Rightarrow> nat \<Rightarrow> bool \<Rightarrow> (SmsReadBuffer \<times> CdmaTeleserviceMsg, CdmaTeleserviceMsg dec_param list option) op" where
  "CdmaSmsBearerData_scan ov ic wsize isCMAS =
     bnd (on_buf (gets GetIndex)) (\<lambda>index.
     bnd (on_buf GetMessageType) (\<lambda>ty.
     seq (on_buf (ignore (SetIndex (to_u8 index)))) (
     if ty = 1 then scan_member TELE_DELIVER (get_deliver ov) TeleDeliver (CdmaSmsDeliverMessage_scan ic wsize isCMAS)
     else if ty = 2 then scan_member TELE_SUBMIT (get_submit ov) TeleSubmit (CdmaSmsSubmitMessage_scan ic wsize)
     else if ty = 4 then scan_member TELE_DELIVERY_ACK (get_deliver_ack ov) TeleDeliverAck (CdmaSmsDeliveryAck_scan ic wsize)
     else if ty = 5 then scan_member TELE_USER_ACK (get_user_ack ov) TeleUserAck (CdmaSmsUserAck_scan ic wsize)
     else if ty = 6 then scan_member TELE_READ_ACK (get_read_ack ov) TeleReadAck (CdmaSmsReadAck_scan ic wsize)
     else seq (on_out (\<lambda>m. m\<lparr>tm_type := TELE_RESERVED\<rparr>)) (ret None))))"

definition CdmaSmsBearerData_Decode :: "CdmaTeleserviceMsg dec_param list option \<Rightarrow> CdmaTeleserviceMsg dec_param" where
  "CdmaSmsBearerData_Decode ps =
     (case ps of
        None \<Rightarrow> fail
      | Some xs \<Rightarrow> seq (on_buf (IsInvalidPdu BEARER_DATA)) (CdmaSmsTeleserviceMessage_Decode xs))"

section \<open>Transport messages\<close>

definition CAT_UNKNOWN :: u16 where
  "CAT_UNKNOWN = 0x8001"

definition PARAMETER_SIZE_MAX :: nat where
  "PARAMETER_SIZE_MAX = 9"

definition CMAS_PRESIDENTIAL :: u16 where
  "CMAS_PRESIDENTIAL = 0x1000"

definition CMAS_TEST :: u16 where
  "CMAS_TEST = 0x1004"

definition CdmaSmsTransportMessage_Encode :: "u8 \<Rightarrow> enc_param list \<Rightarrow> (SmsWriteBuffer, unit) op" where
  "CdmaSmsTransportMessage_Encode ty ps =
     nonempty (if ps = [] then fail else seq (ignore (SetIndex 0)) (seq (WriteByte ty) (each (\<lambda>p. p) ps)))"

definition CdmaSmsTransportMessage_Decode :: "'t dec_param list \<Rightarrow> (SmsReadBuffer \<times> 't, unit) op" where
  "CdmaSmsTransportMessage_Decode ps =
     seq (on_buf (nonempty (ret ()))) (
     if ps = [] then fail
     else
       seq (on_buf (ignore (SetIndex 0))) (
       bnd rbyte (\<lambda>ty. if ty > 2 then fail else each (\<lambda>p. p) ps)))"

definition CdmaSmsP2pMessage :: "tele_overlay \<Rightarrow> CdmaP2PMsg \<Rightarrow> enc_param list" where
  "CdmaSmsP2pMessage ov m =
     [CdmaSmsTeleserviceId_Encode (p2p_teleserviceId m)] @
     (if p2p_serviceCtg m < CAT_UNKNOWN then [CdmaSmsServiceCategory_Encode (p2p_serviceCtg m)] else []) @
     [CdmaSmsAddressParameter_Encode DEST_ADDRESS (p2p_address m)] @
     (if tsa_addrLen (p2p_subAddress m) > 0 then [CdmaSmsSubaddress_Encode DEST_SUB_ADDRESS (p2p_subAddress m)] else []) @
     (if p2p_replySeq m > 0 then [CdmaSmsBearerReply_Encode (p2p_replySeq m)] else []) @
     [CdmaSmsBearerData_Encode ov (p2p_telesvcMsg m)]"

text \<open>The first pass on the bearer data, after which the cursor is put back.\<close>

definition bearer_param ::
  "(SmsReadBuffer \<times> CdmaTeleserviceMsg, CdmaTeleserviceMsg dec_param list option) op \<Rightarrow> ('t \<Rightarrow> CdmaTeleserviceMsg) \<Rightarrow>
   (CdmaTeleserviceMsg \<Rightarrow> 't \<Rightarrow> 't) \<Rightarrow> (SmsReadBuffer \<times> 't, 't dec_param option) op" where
  "bearer_param scan get put =
     bnd (on_buf (gets GetIndex)) (\<lambda>index.
     bnd (zoom get put scan) (\<lambda>ps.
     seq (on_buf (ignore (SetIndex index))) (
     ret (Some (zoom get put (CdmaSmsBearerData_Decode ps))))))"

definition P2p_push :: "tele_overlay \<Rightarrow> iconv \<Rightarrow> nat \<Rightarrow> u8 \<Rightarrow> (SmsReadBuffer \<times> CdmaP2PMsg, CdmaP2PMsg dec_param option) op" where
  "P2p_push ov ic wsize ident =
     (if ident = TELESERVICE_ID then param (zoom p2p_teleserviceId (\<lambda>x m. m\<lparr>p2p_teleserviceId := x\<rparr>) CdmaSmsTeleserviceId_Decode)
      else if ident = SERVICE_CATEGORY then param (zoom p2p_serviceCtg (\<lambda>x m. m\<lparr>p2p_serviceCtg := x\<rparr>) CdmaSmsServiceCategory_Decode)
      else if ident = ORG_ADDRESS \<or> ident = DEST_ADDRESS then
        param (zoom p2p_address (\<lambda>x m. m\<lparr>p2p_address := x\<rparr>) (CdmaSmsAddressParameter_Decode ident))
      else if ident = ORG_SUB_ADDRESS \<or> ident = DEST_SUB_ADDRESS then
        param (zoom p2p_subAddress (\<lambda>x m. m\<lparr>p2p_subAddress := x\<rparr>) (CdmaSmsSubaddress_Decode ident))
      else if ident = BEARER_REPLY_OPTION then param (zoom p2p_replySeq (\<lambda>x m. m\<lparr>p2p_replySeq := x\<rparr>) CdmaSmsBearerReply_Decode)
      else if ident = BEARER_DATA then
        bearer_param (CdmaSmsBearerData_scan ov ic wsize False) p2p_telesvcMsg (\<lambda>x m. m\<lparr>p2p_telesvcMsg := x\<rparr>)
      else ret None)"

definition CdmaSmsP2pMessage_scan :: "tele_overlay \<Rightarrow> iconv \<Rightarrow> nat \<Rightarrow> (SmsReadBuffer \<times> CdmaP2PMsg, CdmaP2PMsg dec_param list) op" where
  "CdmaSmsP2pMessage_scan ov ic wsize =
     on_nonempty [] (seq (on_out (\<lambda>m. m\<lparr>p2p_serviceCtg := CAT_UNKNOWN\<rparr>)) (scan_parameters (P2p_push ov ic wsize) PARAMETER_SIZE_MAX))"

definition CdmaSmsBroadcastMessage :: "tele_overlay \<Rightarrow> CdmaBroadCastMsg \<Rightarrow> enc_param list" where
  "CdmaSmsBroadcastMessage ov m = [CdmaSmsServiceCategory_Encode (bc_serviceCtg m), CdmaSmsBearerData_Encode ov (bc_telesvcMsg m)]"

text \<open>The service category is decoded at once, since it says how the bearer data is to be read.\<close>

definition Broadcast_push :: "tele_overlay \<Rightarrow> iconv \<Rightarrow> nat \<Rightarrow> u8 \<Rightarrow> (SmsReadBuffer \<times> CdmaBroadCastMsg, CdmaBroadCastMsg dec_param option) op" where
  "Broadcast_push ov ic wsize ident =
     (let category = zoom bc_serviceCtg (\<lambda>x m. m\<lparr>bc_serviceCtg := x\<rparr>) CdmaSmsServiceCategory_Decode in
      if ident = SERVICE_CATEGORY then
        bnd (on_buf (gets GetIndex)) (\<lambda>index.
        seq (on_buf (MoveBack 2)) (
        seq (ignore category) (
        seq (on_buf (ignore (SetIndex index))) (
        param category))))
      else if ident = BEARER_DATA then
        bnd get_out (\<lambda>m.
        bearer_param (CdmaSmsBearerData_scan ov ic wsize (CMAS_PRESIDENTIAL \<le> bc_serviceCtg m \<and> bc_serviceCtg m \<le> CMAS_TEST))
          bc_telesvcMsg (\<lambda>x m. m\<lparr>bc_telesvcMsg := x\<rparr>))
      else ret None)"

definition CdmaSmsBroadcastMessage_scan ::
  "tele_overlay \<Rightarrow> iconv \<Rightarrow> nat \<Rightarrow> (SmsReadBuffer \<times> CdmaBroadCastMsg, CdmaBroadCastMsg dec_param list) op" where
  "CdmaSmsBroadcastMessage_scan ov ic wsize =
     on_nonempty [] (seq (on_out (\<lambda>m. m\<lparr>bc_serviceCtg := CAT_UNKNOWN\<rparr>)) (scan_parameters (Broadcast_push ov ic wsize) PARAMETER_SIZE_MAX))"

definition CdmaSmsAckMessage :: "CdmaAckMsg \<Rightarrow> enc_param list" where
  "CdmaSmsAckMessage m =
     [CdmaSmsAddressParameter_Encode DEST_ADDRESS (ack_address m)] @
     (if tsa_addrLen (ack_subAddress m) > 0 then [CdmaSmsSubaddress_Encode DEST_SUB_ADDRESS (ack_subAddress m)] else []) @
     [CdmaSmsCauseCodes_Encode (ack_causeCode m)]"

definition Ack_push :: "u8 \<Rightarrow> (SmsReadBuffer \<times> CdmaAckMsg, CdmaAckMsg dec_param option) op" where
  "Ack_push ident =
     (if ident = DEST_ADDRESS then param (zoom ack_address (\<lambda>x m. m\<lparr>ack_address := x\<rparr>) (CdmaSmsAddressParameter_Decode ident))
      else if ident = DEST_SUB_ADDRESS then param (zoom ack_subAddress (\<lambda>x m. m\<lparr>ack_subAddress := x\<rparr>) (CdmaSmsSubaddress_Decode ident))
      else if ident = CAUSE_CODES then param (zoom ack_causeCode (\<lambda>x m. m\<lparr>ack_causeCode := x\<rparr>) CdmaSmsCauseCodes_Decode)
      else ret None)"

definition CdmaSmsAckMessage_scan :: "(SmsReadBuffer \<times> CdmaAckMsg, CdmaAckMsg dec_param list) op" where
  "CdmaSmsAckMessage_scan = on_nonempty [] (scan_parameters Ack_push PARAMETER_SIZE_MAX)"

text \<open>\<^verbatim>\<open>CreateTransportMessage\<close> for a message to send, with its type octet.\<close>

definition CreateTransportMessage :: "tele_overlay \<Rightarrow> CdmaTransportMsg \<Rightarrow> (u8 \<times> enc_param list) option" where
  "CreateTransportMessage ov msg =
     (case tr_type msg of
        TRANS_P2P \<Rightarrow> Some (0, CdmaSmsP2pMessage ov (get_p2p (tr_data msg)))
      | TRANS_BROADCAST \<Rightarrow> Some (1, CdmaSmsBroadcastMessage ov (get_broadcast (tr_data msg)))
      | TRANS_ACK \<Rightarrow> Some (2, CdmaSmsAckMessage (get_ack (tr_data msg)))
      | TRANS_RESERVED \<Rightarrow> None)"

definition trans_member ::
  "CdmaTransportMsgType \<Rightarrow> (TransUnion \<Rightarrow> 't) \<Rightarrow> ('t \<Rightarrow> TransUnion) \<Rightarrow> (SmsReadBuffer \<times> 't, 't dec_param list) op \<Rightarrow>
   (SmsReadBuffer \<times> CdmaTransportMsg, CdmaTransportMsg dec_param list) op" where
  "trans_member ty get put scan =
     (let member = (\<lambda>m. get (tr_data m)); write_member = (\<lambda>d m. m\<lparr>tr_data := put d\<rparr>) in
      seq (on_out (\<lambda>m. m\<lparr>tr_type := ty\<rparr>)) (
      bnd (zoom member write_member scan) (\<lambda>ps. ret (map (zoom member write_member) ps))))"

text \<open>\<^verbatim>\<open>CreateTransportMessage\<close> for a PDU; a null pointer and a message without parameters are both rejected by the caller.\<close>

definition CreateTransportMessage_scan ::
  "tele_overlay \<Rightarrow> iconv \<Rightarrow> nat \<Rightarrow> (SmsReadBuffer \<times> CdmaTransportMsg, CdmaTransportMsg dec_param list) op" where
  "CreateTransportMessage_scan ov ic wsize =
     seq (on_buf (nonempty (ret ()))) (
     bnd rbyte (\<lambda>ty.
     if ty = 0 then trans_member TRANS_P2P get_p2p TransP2P (CdmaSmsP2pMessage_scan ov ic wsize)
     else if ty = 1 then trans_member TRANS_BROADCAST get_broadcast TransBroadcast (CdmaSmsBroadcastMessage_scan ov ic wsize)
     else if ty = 2 then trans_member TRANS_ACK get_ack TransAck CdmaSmsAckMessage_scan
     else seq (on_out (\<lambda>m. m\<lparr>tr_type := TRANS_RESERVED\<rparr>)) fail))"

end
