(* ===== verification/Cdma_Sms_Message.thy ===== *)
theory Cdma_Sms_Message
  imports Cdma_Transport Gsm_Sms_Message
begin

text \<open>
  \<^verbatim>\<open>services/sms/cdma/cdma_sms_message.cpp\<close>: the CDMA message object, built from the transport message of a PDU, and the transport message built from a text that is to be sent.
\<close>

section \<open>The object\<close>

text \<open>
  The members that the constructor leaves uninitialised are \<open>None\<close> until they are set. The members of type \<^verbatim>\<open>int8_t\<close> are integers, and \<^verbatim>\<open>callbackNumber_\<close>, which
  nothing uses, is left out.
\<close>

record CdmaSmsMessage = SmsBaseMessage +
  cm_destPort :: u16
  cm_address :: "TransportAddr option"
  cm_userHeaders :: "SmsUDH list"
  cm_category :: int
  cm_responseType :: int
  cm_severity :: int
  cm_urgency :: int
  cm_certainty :: int
  cm_messageClass :: int
  cm_priority :: int
  cm_isCmas :: bool
  cm_messageId :: "u16 option"
  cm_language :: "int option"
  cm_serviceCategory :: "u16 option"
  cm_transMsg :: "CdmaTransportMsg option"

definition new_cdma_message :: CdmaSmsMessage where
  "new_cdma_message = \<lparr>scAddress = [], originatingAddress = [], visibleMessageBody = [], bm_msgClass = SMS_CLASS_UNKNOWN,
     scTimestamp = 0, bm_status = 0, protocolId = 0, bReplaceMessage = False, bStatusReportMessage = False,
     bMwi = False, bMwiSense = False, bCphsMwi = False, bMwiClear = False, bMwiSet = False, bMwiNotStore = False,
     hasReplyPath = False, bMoreMsg = False, bHeaderInd = False, bm_headerCnt = 0, headerDataLen = 0, bm_msgRef = 0,
     bm_bCompressed = False, bm_bIndActive = False, bm_codingScheme = DATA_CODING_7BIT,
     bm_codingGroup = CODING_GENERAL_GROUP, rawPdu = [], rawUserData = [], rawWapPushUserData = [],
     smsUserData = zero_ud, smsWapPushUserData = zero_tpud, smsConcat = None, portAddress = None,
     specialSmsInd = None, indexOnSim = - 1, emailFrom = [], emailBody = [], isEmail = False,
     cm_destPort = - 1, cm_address = None, cm_userHeaders = [], cm_category = 12, cm_responseType = 8, cm_severity = 2, cm_urgency = 0,
     cm_certainty = 2, cm_messageClass = 4, cm_priority = 0, cm_isCmas = False, cm_messageId = None, cm_language = None,
     cm_serviceCategory = None, cm_transMsg = None\<rparr>"

text \<open>
  The surroundings of a GSM message, with what the union of a teleservice message reads as, and the octets of the struct \<^verbatim>\<open>SmsUDPackage\<close> in memory.
\<close>

record cdma_env = sms_env +
  ce_overlay :: tele_overlay
  ce_ud_bytes :: "SmsUDPackage \<Rightarrow> bytes"

type_synonym 'a cdma_op = "(CdmaSmsMessage, 'a) op"

section \<open>Submitting\<close>

definition CMT_95 :: u16 where
  "CMT_95 = 0x1002"

definition UNDEFINED_CTG :: u16 where
  "UNDEFINED_CTG = 0x8001"

definition upd_cdma_submit :: "(TeleserviceSubmit \<Rightarrow> TeleserviceSubmit) \<Rightarrow> CdmaTransportMsg \<Rightarrow> CdmaTransportMsg" where
  "upd_cdma_submit f t =
     (case tr_data t of
        TransP2P p \<Rightarrow>
          (case tm_data (p2p_telesvcMsg p) of
             TeleSubmit s \<Rightarrow> t\<lparr>tr_data := TransP2P (p\<lparr>p2p_telesvcMsg := (p2p_telesvcMsg p)\<lparr>tm_data := TeleSubmit (f s)\<rparr>\<rparr>)\<rparr>
           | _ \<Rightarrow> t)
      | _ \<Rightarrow> t)"

definition GreateTransMsg :: CdmaTransportMsg where
  "GreateTransMsg =
     \<lparr>tr_type = TRANS_P2P, tr_data = TransP2P (zero_p2p\<lparr>p2p_teleserviceId := CMT_95, p2p_serviceCtg := UNDEFINED_CTG,
        p2p_telesvcMsg := \<lparr>tm_type = TELE_SUBMIT, tm_data = TeleSubmit (zero_tele_submit\<lparr>
          sm_valPeriod := \<lparr>vp_format = SMS_TIME_RELATIVE, vp_absTime = zero_abs_time\<lparr>ta_year := 245\<rparr>\<rparr>,
          sm_priority := 0, sm_privacy := 0, sm_alertPriority := 0, sm_language := 0\<rparr>)\<rparr>\<rparr>)\<rparr>"

definition CovertEncodingType :: "DataCodingScheme \<Rightarrow> u8" where
  "CovertEncodingType c =
     (case c of DATA_CODING_7BIT \<Rightarrow> ENC_GSM7BIT | DATA_CODING_ASCII7BIT \<Rightarrow> ENC_ASCII_7BIT | DATA_CODING_8BIT \<Rightarrow> ENC_OCTET | _ \<Rightarrow> ENC_UNICODE)"

text \<open>
  The address of the recipient. \<^verbatim>\<open>strncpy_s\<close> copies up to the first NUL and adds one; when there is no room it clears the array, and the length becomes 256. An empty
  number makes \<^verbatim>\<open>dest.at(0)\<close> throw.
\<close>

definition submit_address :: "bytes \<Rightarrow> TransportAddr \<Rightarrow> TransportAddr" where
  "submit_address dest a =
     (let fits = length (c_str dest) \<le> CDMASMS_ADDRESS_LEN_MAX; plus = (hd dest = 0x2B) in
      a\<lparr>tra_digitMode := plus, tra_numberMode := False, tra_numberPlan := 0,
        tra_addrLen := (if fits then word_of_nat (length dest) else word_of_nat CDMASMS_ADDRESS_LEN_MAX),
        tra_szData := (if fits then write_at 0 (c_str dest @ [0]) (tra_szData a) else (tra_szData a)[0 := 0, CDMASMS_ADDRESS_LEN_MAX := 0]),
        tra_numberType := (if plus then 1 else 2)\<rparr>)"

definition upd_p2p_address :: "(TransportAddr \<Rightarrow> TransportAddr) \<Rightarrow> CdmaTransportMsg \<Rightarrow> CdmaTransportMsg" where
  "upd_p2p_address f t = (case tr_data t of TransP2P p \<Rightarrow> t\<lparr>tr_data := TransP2P (p\<lparr>p2p_address := f (p2p_address p)\<rparr>)\<rparr> | _ \<Rightarrow> t)"

definition CreateSubmitTransMsg :: "bytes \<Rightarrow> bytes \<Rightarrow> bytes \<Rightarrow> bool \<Rightarrow> DataCodingScheme \<Rightarrow> CdmaTransportMsg cdma_op" where
  "CreateSubmitTransMsg dest sc body bStatusReport scheme =
     seq (upd (\<lambda>m. m\<lparr>scAddress := sc, originatingAddress := dest, visibleMessageBody := body, bStatusReportMessage := bStatusReport\<rparr>)) (
     if dest = [] then fault
     else ret (upd_p2p_address (submit_address dest) (upd_cdma_submit (\<lambda>s. s\<lparr>
            sm_userData := (sm_userData s)\<lparr>tu_encodeType := CovertEncodingType scheme\<rparr>,
            sm_replyOpt := (sm_replyOpt s)\<lparr>ro_dak := bStatusReport\<rparr>\<rparr>) GreateTransMsg)))"

definition CreateSubmitTransMsg_data :: "bytes \<Rightarrow> bytes \<Rightarrow> int \<Rightarrow> bool \<Rightarrow> CdmaTransportMsg cdma_op" where
  "CreateSubmitTransMsg_data dest sc port bStatusReport =
     seq (upd (\<lambda>m. m\<lparr>scAddress := sc, cm_destPort := word_of_int port, originatingAddress := dest, bStatusReportMessage := bStatusReport\<rparr>)) (
     if length dest > CDMASMS_ADDRESS_LEN_MAX + 1 then fail
     else if dest = [] then fault
     else ret (upd_p2p_address (submit_address dest) (upd_cdma_submit (\<lambda>s. s\<lparr>
            sm_replyOpt := (sm_replyOpt s)\<lparr>ro_dak := bStatusReport\<rparr>\<rparr>) GreateTransMsg)))"

section \<open>The text of a message\<close>

definition insert_cdma_body :: "int \<times> bytes \<Rightarrow> unit cdma_op" where
  "insert_cdma_body = (\<lambda>(dataSize, buff) m. case insert_front dataSize buff (visibleMessageBody m) of
     None \<Rightarrow> Fault | Some t \<Rightarrow> Ok () (m\<lparr>visibleMessageBody := t\<rparr>))"

definition AnalsisHeader :: "SmsTeleSvcUserData \<Rightarrow> unit cdma_op" where
  "AnalsisHeader d =
     (let u = tu_userData d; n = unat (headerCnt u) in
      seq (upd (\<lambda>m. m\<lparr>smsUserData := u, headerDataLen := uint (ud_length u)\<rparr>)) (
      bnd (gets bHeaderInd) (\<lambda>ind.
      if ind \<and> 0 < n \<and> n \<le> MAX_UD_HEADER_NUM then
        if n \<le> length (ud_header u) then upd (\<lambda>m. m\<lparr>cm_userHeaders := take n (ud_header u)\<rparr>) else fault
      else ret ())))"

text \<open>
  For the GSM alphabet and the Korean encodings the converter gets the address of the struct \<^verbatim>\<open>userData.userData\<close>, not that of its text.
\<close>

definition AnalsisUserData :: "cdma_env \<Rightarrow> SmsTeleSvcUserData \<Rightarrow> unit cdma_op" where
  "AnalsisUserData env d =
     (let u = tu_userData d; ty = tu_encodeType d; len = int (unat (ud_length u)); ic = env_iconv env; maxLen = int MAX_MSG_TEXT_LEN;
          converted = (\<lambda>src conv. if unat (ud_length u) > length src then fault else bnd (with_new text_buff (conv src)) insert_cdma_body) in
      seq (AnalsisHeader d) (
      if ty = ENC_GSM7BIT then converted (ce_ud_bytes env u) (\<lambda>src. Gsm7bitToUtf8 ic (env_wsize env) maxLen src len no_shift)
      else if ty = ENC_KOREAN \<or> ty = ENC_EUCKR then converted (ce_ud_bytes env u) (\<lambda>src. EuckrToUtf8 ic maxLen src len)
      else if ty = ENC_IA5 \<or> ty = ENC_ASCII_7BIT \<or> ty = ENC_LATIN_HEBREW \<or> ty = ENC_LATIN \<or> ty = ENC_OCTET then
        if len \<ge> maxLen + 1 then ret ()
        else if unat (ud_length u) > length (ud_data u) then fault
        else insert_cdma_body (len, ud_data u)
      else if ty = ENC_SHIFT_JIS then converted (ud_data u) (\<lambda>src. ShiftjisToUtf8 ic maxLen src len)
      else converted (ud_data u) (\<lambda>src. Ucs2ToUtf8 ic maxLen src len)))"

section \<open>Receiving\<close>

definition AnalsisDeliverMsg :: "cdma_env \<Rightarrow> TeleserviceDeliver \<Rightarrow> unit cdma_op" where
  "AnalsisDeliverMsg env d =
     seq (upd (\<lambda>m. m\<lparr>cm_isCmas := False,
            bm_msgClass := (if dl_displayMode d = 0 then SMS_INSTANT_MESSAGE else SMS_CLASS_UNKNOWN),
            bm_msgRef := uint (mi_msgId (dl_msgId d)), bHeaderInd := mi_headerInd (dl_msgId d),
            scTimestamp := ConvertTime (env_timezone env) (dl_timeStamp d)\<rparr>))
       (AnalsisUserData env (dl_userData d))"

text \<open>The number of messages is unsigned, so \<^verbatim>\<open>numMsg < 0\<close> is never true, and the branch that clears the indication is dead.\<close>

definition VMN_95 :: u16 where
  "VMN_95 = 0x1003"

definition AnalsisDeliverMwi :: "CdmaP2PMsg \<Rightarrow> TeleserviceDeliver \<Rightarrow> unit cdma_op" where
  "AnalsisDeliverMwi p d =
     seq (upd (\<lambda>m. m\<lparr>specialSmsInd := None\<rparr>)) (
     if p2p_teleserviceId p = VMN_95 then
       upd (\<lambda>m. m\<lparr>specialSmsInd := Some \<lparr>ss_bStore = False, ss_msgInd = (if vmn_faxIncluded (dl_vmn d) then 2 else 0),
           ss_waitMsgNum = ucast (dl_numMsg d)\<rparr>,
         bMwiClear := False, bMwiSet := True, bMwiNotStore := (ud_length (tu_userData (dl_userData d)) = 0)\<rparr>)
     else ret ())"

definition AnalsisDeliverAck :: "cdma_env \<Rightarrow> TeleserviceDeliverAck \<Rightarrow> unit cdma_op" where
  "AnalsisDeliverAck env d =
     seq (upd (\<lambda>m. m\<lparr>bStatusReportMessage := True, scTimestamp := ConvertTime (env_timezone env) (dk_timeStamp d)\<rparr>))
       (AnalsisUserData env (dk_userData d))"

definition AnalsisSubmitReport :: "cdma_env \<Rightarrow> TeleserviceDeliverReport \<Rightarrow> unit cdma_op" where
  "AnalsisSubmitReport env d = AnalsisUserData env (rp_userData d)"

definition AnalsisSubmitMsg :: "cdma_env \<Rightarrow> TeleserviceSubmit \<Rightarrow> unit cdma_op" where
  "AnalsisSubmitMsg env d =
     seq (upd (\<lambda>m. m\<lparr>bm_msgRef := uint (mi_msgId (sm_msgId d)), bHeaderInd := mi_headerInd (sm_msgId d),
            scTimestamp := ConvertTime (env_timezone env) (vp_absTime (sm_valPeriod d))\<rparr>))
       (AnalsisUserData env (sm_userData d))"

definition AnalsisCMASMsg :: "cdma_env \<Rightarrow> TeleserviceDeliver \<Rightarrow> unit cdma_op" where
  "AnalsisCMASMsg env d =
     (let c = dl_cmasData d in
      seq (upd (\<lambda>m. m\<lparr>cm_isCmas := True, cm_category := sint (cd_category c), cm_responseType := sint (cd_responseType c),
             cm_severity := sint (cd_severity c), cm_urgency := sint (cd_urgency c), cm_certainty := sint (cd_certainty c),
             cm_messageClass := sint (cd_alertHandle c), bm_msgClass := SMS_CLASS_UNKNOWN,
             scTimestamp := ConvertTime (env_timezone env) (dl_timeStamp d)\<rparr>)) (
      if cd_dataLen c > MAX_USER_DATA_LEN + 1 then ret ()
      else if cd_dataLen c > length (cd_alertText c) then fault
      else AnalsisUserData env (zero_tele_ud\<lparr>tu_encodeType := cd_encodeType c,
             tu_userData := zero_ud\<lparr>ud_length := word_of_nat (cd_dataLen c),
               ud_data := write_at 0 (take (cd_dataLen c) (cd_alertText c)) (ud_data zero_ud)\<rparr>\<rparr>)))"

text \<open>A C string held in an array: reading it stops at the first NUL, which must be there.\<close>

definition c_string :: "bytes \<Rightarrow> ('s, bytes) op" where
  "c_string xs = (if 0 \<in> set xs then ret (c_str xs) else fault)"

definition AnalysisP2pMsg :: "cdma_env \<Rightarrow> CdmaP2PMsg \<Rightarrow> unit cdma_op" where
  "AnalysisP2pMsg env p =
     (let ov = ce_overlay env; u = tm_data (p2p_telesvcMsg p) in
      if p2p_teleserviceId p = 0xFFFF then ret ()
      else
        seq (upd (\<lambda>m. m\<lparr>cm_address := Some (p2p_address p)\<rparr>)) (
        bnd (c_string (tra_szData (p2p_address p))) (\<lambda>s.
        seq (upd (\<lambda>m. m\<lparr>originatingAddress := s\<rparr>)) (
        case tm_type (p2p_telesvcMsg p) of
          TELE_DELIVER \<Rightarrow> seq (AnalsisDeliverMwi p (get_deliver ov u)) (AnalsisDeliverMsg env (get_deliver ov u))
        | TELE_DELIVERY_ACK \<Rightarrow> AnalsisDeliverAck env (get_deliver_ack ov u)
        | TELE_SUBMIT_REPORT \<Rightarrow> AnalsisSubmitReport env (get_report ov u)
        | TELE_SUBMIT \<Rightarrow> AnalsisSubmitMsg env (get_submit ov u)
        | _ \<Rightarrow> ret ()))))"

definition AnalysisCbMsg :: "cdma_env \<Rightarrow> CdmaBroadCastMsg \<Rightarrow> unit cdma_op" where
  "AnalysisCbMsg env b =
     (let d = get_deliver (ce_overlay env) (tm_data (bc_telesvcMsg b)) in
      seq (upd (\<lambda>m. m\<lparr>cm_serviceCategory := Some (bc_serviceCtg b)\<rparr>)) (
      if tm_type (bc_telesvcMsg b) \<noteq> TELE_DELIVER then ret ()
      else
        seq (upd (\<lambda>m. m\<lparr>cm_messageId := Some (mi_msgId (dl_msgId d)), cm_priority := sint (dl_priority d), cm_language := Some (sint (dl_language d))\<rparr>)) (
        if CMAS_PRESIDENTIAL \<le> bc_serviceCtg b \<and> bc_serviceCtg b \<le> CMAS_TEST then AnalsisCMASMsg env d
        else AnalsisDeliverMsg env d)))"

definition AnalsisAckMsg :: "CdmaAckMsg \<Rightarrow> unit cdma_op" where
  "AnalsisAckMsg a = bnd (c_string (tra_szData (ack_address a))) (\<lambda>s. upd (\<lambda>m. m\<lparr>originatingAddress := s\<rparr>))"

text \<open>The first and the second pass over the PDU, which fill \<^verbatim>\<open>*transMsg_\<close>.\<close>

definition decode_transport :: "tele_overlay \<Rightarrow> iconv \<Rightarrow> nat \<Rightarrow> (SmsReadBuffer \<times> CdmaTransportMsg, unit) op" where
  "decode_transport ov ic wsize =
     bnd (CreateTransportMessage_scan ov ic wsize) (\<lambda>ps. if ps = [] then fail else CdmaSmsTransportMessage_Decode ps)"

definition run_transport :: "cdma_env \<Rightarrow> bytes \<Rightarrow> unit cdma_op" where
  "run_transport env pdu m =
     (case cm_transMsg m of
        None \<Rightarrow> Fail m
      | Some t \<Rightarrow>
          (case decode_transport (ce_overlay env) (env_iconv env) (env_wsize env) (SmsReadBuffer pdu, t) of
             Ok _ s \<Rightarrow> Ok () (m\<lparr>cm_transMsg := Some (snd s)\<rparr>)
           | Fail s \<Rightarrow> Fail (m\<lparr>cm_transMsg := Some (snd s)\<rparr>)
           | Fault \<Rightarrow> Fault))"

definition Cdma_PduAnalysis :: "cdma_env \<Rightarrow> bytes \<Rightarrow> unit cdma_op" where
  "Cdma_PduAnalysis env pduHex =
     (if pduHex = [] then fail
      else
        seq (run_transport env (HexToString pduHex)) (
        bnd (gets cm_transMsg) (\<lambda>t.
        case t of
          None \<Rightarrow> fail
        | Some t \<Rightarrow>
            (case tr_type t of
               TRANS_P2P \<Rightarrow> AnalysisP2pMsg env (get_p2p (tr_data t))
             | TRANS_BROADCAST \<Rightarrow>
                 let c = dl_cmasData (get_deliver (ce_overlay env) (tm_data (bc_telesvcMsg (get_broadcast (tr_data t))))) in
                 if cd_isWrongRecodeType c then fail
                 else if cd_encodeType c = ENC_KOREAN \<or> cd_encodeType c = ENC_GSMDCS then fail
                 else AnalysisCbMsg env (get_broadcast (tr_data t))
             | TRANS_ACK \<Rightarrow> AnalsisAckMsg (get_ack (tr_data t))
             | TRANS_RESERVED \<Rightarrow> fail))))"

definition Cdma_CreateMessage :: "cdma_env \<Rightarrow> bytes \<Rightarrow> (unit, CdmaSmsMessage option) op" where
  "Cdma_CreateMessage env pdu s =
     (case Cdma_PduAnalysis env pdu (new_cdma_message\<lparr>cm_transMsg := Some zero_trans\<rparr>) of
        Ok _ m \<Rightarrow> Ok (Some m) s
      | Fail _ \<Rightarrow> Ok None s
      | Fault \<Rightarrow> Fault)"

section \<open>Queries\<close>

definition CDMA_MAX_UD_HEADER_NUM :: nat where
  "CDMA_MAX_UD_HEADER_NUM = 7"

definition AddUserDataHeader :: "SmsUDH \<Rightarrow> unit cdma_op" where
  "AddUserDataHeader h =
     bnd (gets cm_userHeaders) (\<lambda>hs.
     if length hs \<ge> CDMA_MAX_UD_HEADER_NUM then fail else upd (\<lambda>m. m\<lparr>cm_userHeaders := hs @ [h]\<rparr>))"

definition GetTransMsgType :: "CdmaSmsMessage \<Rightarrow> CdmaTransportMsgType" where
  "GetTransMsgType m = (case cm_transMsg m of None \<Rightarrow> TRANS_RESERVED | Some t \<Rightarrow> tr_type t)"

definition GetTransTeleService :: "CdmaSmsMessage \<Rightarrow> u16" where
  "GetTransTeleService m =
     (case cm_transMsg m of
        None \<Rightarrow> 0xFFFF
      | Some t \<Rightarrow> if tr_type t \<noteq> TRANS_P2P then 0xFFFF else p2p_teleserviceId (get_p2p (tr_data t)))"

definition WAP_TELESERVICE :: u16 where
  "WAP_TELESERVICE = 0x1004"

definition Cdma_IsWapPushMsg :: "CdmaSmsMessage \<Rightarrow> bool" where
  "Cdma_IsWapPushMsg m =
     (case cm_transMsg m of
        None \<Rightarrow> False
      | Some t \<Rightarrow> tr_type t = TRANS_P2P \<and> p2p_teleserviceId (get_p2p (tr_data t)) = WAP_TELESERVICE)"

definition Cdma_IsStatusReport :: "CdmaSmsMessage \<Rightarrow> bool" where
  "Cdma_IsStatusReport m =
     (case cm_transMsg m of
        None \<Rightarrow> False
      | Some t \<Rightarrow> tr_type t = TRANS_P2P \<and> tm_type (p2p_telesvcMsg (get_p2p (tr_data t))) = TELE_DELIVERY_ACK)"

definition IsBroadcastMsg :: "CdmaSmsMessage \<Rightarrow> bool" where
  "IsBroadcastMsg m \<longleftrightarrow> GetTransMsgType m = TRANS_BROADCAST"

definition IsEmergencyMsg :: "CdmaSmsMessage \<Rightarrow> bool" where
  "IsEmergencyMsg m \<longleftrightarrow> cm_priority m = sint PRIORITY_EMERGENCY"

section \<open>Coding a text\<close>

text \<open>A refused \<^verbatim>\<open>memcpy_s\<close> clears the destination.\<close>

definition Cdma_DecodeMessage :: "iconv \<Rightarrow> nat \<Rightarrow> decode_message" where
  "Cdma_DecodeMessage ic wsize codingType msgText =
     bnd (gets length) (\<lambda>maxDecodeLen.
     let dataLen = int (length msgText)
     in if msgText = [] then ret (0, codingType, MSG_ID_RESERVED_LANG)
        else case codingType of
          DATA_CODING_7BIT \<Rightarrow>
            if length msgText > maxDecodeLen then ret (0, codingType, MSG_ID_RESERVED_LANG)
            else seq (put_all msgText) (ret (dataLen, DATA_CODING_ASCII7BIT, MSG_ID_RESERVED_LANG))
        | DATA_CODING_8BIT \<Rightarrow>
            if length msgText > maxDecodeLen then
              seq (put_all (replicate maxDecodeLen 0)) (ret (0, codingType, MSG_ID_RESERVED_LANG))
            else seq (put_all msgText) (ret (dataLen, codingType, MSG_ID_RESERVED_LANG))
        | DATA_CODING_UCS2 \<Rightarrow>
            bnd (Utf8ToUcs2 ic (int maxDecodeLen) msgText dataLen) (\<lambda>n. ret (n, codingType, MSG_ID_RESERVED_LANG))
        | _ \<Rightarrow>
            bnd (CdmaUtf8ToAuto ic wsize (int maxDecodeLen) msgText dataLen codingType) (\<lambda>(n, c). ret (n, c, MSG_ID_RESERVED_LANG)))"

end
