(* ===== verification/Cdma_Safety.thy ===== *)
theory Cdma_Safety
  imports Cdma_Sms_Message
begin

text \<open>
  Decoding a CDMA PDU is memory safe: whatever octets arrive, no decoder leaves an array, and the loops end. Each struct has a predicate that says its arrays have their
  sizes; the decoders keep it. The first pass hands out decoders, so its lemmas also say that what it hands out is safe.
\<close>

section \<open>Operations that hand something out\<close>

text \<open>\<open>gives I K m\<close>: \<open>m\<close> keeps \<open>I\<close>, and what it returns satisfies \<open>K\<close>.\<close>

definition gives :: "('s \<Rightarrow> bool) \<Rightarrow> ('a \<Rightarrow> bool) \<Rightarrow> ('s, 'a) op \<Rightarrow> bool" where
  "gives I K m \<longleftrightarrow> valid I m (\<lambda>x s. I s \<and> K x) I"

named_theorems gives_intros \<open>operations that hand something out\<close>

lemma gives_keeps: "gives I K m \<Longrightarrow> keeps I m"
  unfolding gives_def keeps_def by (erule valid_weaken) simp_all

lemma gives_ret [gives_intros]: "K x \<Longrightarrow> gives I K (ret x)"
  by (simp add: gives_def valid_def ret_def)

lemma gives_fail [gives_intros]: "gives I K fail"
  by (simp add: gives_def valid_def fail_def)

lemma gives_any: "keeps I m \<Longrightarrow> gives I (\<lambda>_. True) m"
  by (simp add: gives_def keeps_def)

lemma gives_bnd:
  assumes m: "gives I K m" and k: "\<And>x. K x \<Longrightarrow> gives I L (k x)"
  shows "gives I L (bnd m k)"
  unfolding gives_def
proof (rule valid_bnd)
  show "valid I m (\<lambda>x s. I s \<and> K x) I" using m by (simp add: gives_def)
  show "valid (\<lambda>s. I s \<and> K x) (k x) (\<lambda>x s. I s \<and> L x) I" for x
    using k [of x] by (cases "K x") (auto simp: gives_def valid_def)
qed

lemma gives_bnd_keeps: "gives I K m \<Longrightarrow> (\<And>x. K x \<Longrightarrow> keeps I (k x)) \<Longrightarrow> keeps I (bnd m k)"
  using gives_keeps [OF gives_bnd, of I K m "\<lambda>_. True" k] gives_any by blast

lemma gives_after [gives_intros]: "keeps I m \<Longrightarrow> (\<And>x. gives I L (k x)) \<Longrightarrow> gives I L (bnd m k)"
  by (rule gives_bnd [OF gives_any])

lemma gives_seq [gives_intros]: "keeps I m \<Longrightarrow> gives I L n \<Longrightarrow> gives I L (seq m n)"
  unfolding seq_def by (rule gives_after)

lemma gives_if [gives_intros]: "(c \<Longrightarrow> gives I K m) \<Longrightarrow> (\<not> c \<Longrightarrow> gives I K n) \<Longrightarrow> gives I K (if c then m else n)"
  by simp

lemma gives_option [gives_intros]:
  "(x = None \<Longrightarrow> gives I K m) \<Longrightarrow> (\<And>y. x = Some y \<Longrightarrow> gives I K (k y)) \<Longrightarrow> gives I K (case x of None \<Rightarrow> m | Some y \<Rightarrow> k y)"
  by (cases x) simp_all

lemma gives_prod [gives_intros]: "(\<And>a b. x = (a, b) \<Longrightarrow> gives I K (k a b)) \<Longrightarrow> gives I K (case x of (a, b) \<Rightarrow> k a b)"
  by (cases x) simp

lemma gives_zoom:
  assumes m: "gives (wf_with L) K m" and "\<And>x. J x \<Longrightarrow> L (get x)" and "\<And>x p. J x \<Longrightarrow> L p \<Longrightarrow> J (put p x)"
  shows "gives (wf_with J) K (zoom get put m)"
  unfolding gives_def valid_def
proof (intro allI impI)
  fix s
  assume s: "wf_pdu (fst s) \<and> J (snd s)"
  with assms(2) have "wf_with L (fst s, get (snd s))" by simp
  from validD [OF m [unfolded gives_def] this] s assms(3)
  show "case zoom get put m s of Ok x t \<Rightarrow> wf_with J t \<and> K x | Fail t \<Rightarrow> wf_with J t | Fault \<Rightarrow> False"
    by (auto simp: zoom_def split: outcome.splits)
qed

lemma keeps_case_prod [keeps_intros]: "(\<And>a b. x = (a, b) \<Longrightarrow> keeps I (k a b)) \<Longrightarrow> keeps I (case x of (a, b) \<Rightarrow> k a b)"
  by (cases x) simp

section \<open>Reading moves on\<close>

definition bits_left :: "SmsReadBuffer \<Rightarrow> nat" where
  "bits_left b = 8 * buf_length b - (8 * buf_index b + buf_bitIndex b)"

definition left_at_most :: "nat \<Rightarrow> SmsReadBuffer \<Rightarrow> bool" where
  "left_at_most n b \<longleftrightarrow> wf_pdu b \<and> bits_left b \<le> n"

lemma left_at_most_start: "wf_pdu b \<Longrightarrow> left_at_most 2048 b"
  using wf_pdu_bounds [of b] unfolding left_at_most_def bits_left_def by linarith

lemma ReadBits_left:
  assumes "wf_pdu b"
  shows "case ReadBits l b of Ok x t \<Rightarrow> wf_pdu t \<and> bits_left t + l \<le> bits_left b | Fail t \<Rightarrow> t = b | Fault \<Rightarrow> False"
  using assms
  by (auto simp: ReadBits_def wf_pdu_def bits_left_def Let_def split: option.splits)

lemma ReadByte_left:
  assumes "wf_pdu b"
  shows "case ReadByte b of Ok x t \<Rightarrow> wf_pdu t \<and> bits_left t + 8 \<le> bits_left b | Fail t \<Rightarrow> t = b | Fault \<Rightarrow> False"
proof (cases "buf_bitIndex b = 0")
  case True
  with assms show ?thesis by (auto simp: ReadByte_def wf_pdu_def bits_left_def split: option.splits)
next
  case False
  with ReadBits_left [OF assms, of 8] show ?thesis by (simp add: ReadByte_def split: option.splits)
qed

lemma keeps_left_ReadBits: "keeps (left_at_most n) (ReadBits l)"
proof (rule keepsI)
  fix b
  assume b: "left_at_most n b"
  then have "wf_pdu b" by (simp add: left_at_most_def)
  from ReadBits_left [OF this, of l] b
  show "case ReadBits l b of Ok x t \<Rightarrow> left_at_most n t | Fail t \<Rightarrow> left_at_most n t | Fault \<Rightarrow> False"
    by (auto simp: left_at_most_def split: outcome.splits)
qed

lemma keeps_left_ReadByte: "keeps (left_at_most n) ReadByte"
proof (rule keepsI)
  fix b
  assume b: "left_at_most n b"
  then have "wf_pdu b" by (simp add: left_at_most_def)
  from ReadByte_left [OF this] b
  show "case ReadByte b of Ok x t \<Rightarrow> left_at_most n t | Fail t \<Rightarrow> left_at_most n t | Fault \<Rightarrow> False"
    by (auto simp: left_at_most_def split: outcome.splits)
qed

lemma keeps_left_MoveForward: "keeps (left_at_most n) (MoveForward k)"
  by (rule keepsI) (auto simp: left_at_most_def MoveForward_def wf_pdu_def bits_left_def split: option.splits)

section \<open>Sub-parameters\<close>

definition wf_sub_addr :: "SmsTeleSvcAddr \<Rightarrow> bool" where
  "wf_sub_addr a \<longleftrightarrow> length (sa_szData a) = CDMASMS_ADDRESS_LEN_MAX + 1"

definition wf_tele_ud :: "SmsTeleSvcUserData \<Rightarrow> bool" where
  "wf_tele_ud d \<longleftrightarrow> wf_ud (tu_userData d)"

definition wf_cmas :: "SmsTeleSvcCmasData \<Rightarrow> bool" where
  "wf_cmas d \<longleftrightarrow> length (cd_alertText d) = CDMASMS_USER_DATA_LEN_MAX + 1"

definition wf_vmn :: "SmsEnhancedVmn \<Rightarrow> bool" where
  "wf_vmn d \<longleftrightarrow> length (vmn_anChar d) = CDMASMS_USER_DATA_LEN_MAX + 1 \<and> length (vmn_cliChar d) = CDMASMS_USER_DATA_LEN_MAX + 1"

definition wf_vmn_ack :: "SmsEnhancedVmnAck \<Rightarrow> bool" where
  "wf_vmn_ack d \<longleftrightarrow> length (va_daVmMsgId d) = CDMASMS_NUMBER_OF_ACK_MAX + 1 \<and> length (va_paVmMsgId d) = CDMASMS_NUMBER_OF_ACK_MAX + 1"

lemmas cdma_sizes = CDMASMS_ADDRESS_LEN_MAX_def CDMASMS_USER_DATA_LEN_MAX_def CDMASMS_NUMBER_OF_ACK_MAX_def MAX_USER_DATA_LEN_def

lemma wf_zeroed [simp]:
  "wf_sub_addr zero_sub_addr" "wf_tele_ud zero_tele_ud" "wf_cmas zero_cmas" "wf_vmn zero_vmn" "wf_vmn_ack zero_vmn_ack"
  by (simp_all add: wf_sub_addr_def zero_sub_addr_def wf_tele_ud_def zero_tele_ud_def wf_cmas_def zero_cmas_def wf_vmn_def zero_vmn_def
      wf_vmn_ack_def zero_vmn_ack_def)

text \<open>The rules for the code of a decoder; what stays are facts about the struct. \<open>I\<close> is an invariant of the buffer that reading bits keeps.\<close>

lemmas dec_keeps = keeps_ret keeps_fail keeps_if keeps_bnd keeps_seq keeps_on_buf keeps_on_out keeps_ignore keeps_option keeps_attempt keeps_gets
  keeps_wf_ReadBits keeps_wf_ReadByte keeps_wf_ReadWord keeps_wf_SkipBits keeps_wf_MoveForward

lemma keeps_store_in:
  assumes "\<And>x. J x \<Longrightarrow> i < length (get x) \<and> J (put ((get x)[i := v]) x)"
  shows "keeps (\<lambda>s. I (fst s) \<and> J (snd s)) (store_in get put i v)"
  by (rule keepsI) (use assms in \<open>auto simp: store_in_def on_part_def set_at_def\<close>)

lemma keeps_nonempty: "keeps I m \<Longrightarrow> keeps I (nonempty m)"
  unfolding nonempty_def by (intro keeps_bnd keeps_gets keeps_if keeps_fail)

lemma keeps_IsInvalidPdu: "keeps wf_pdu (IsInvalidPdu ident)"
  unfolding IsInvalidPdu_def by (intro keeps_nonempty dec_keeps)

lemma keeps_simple_params:
  "keeps (wf_with (\<lambda>_. True)) (CdmaSmsBaseParameter_Decode ident)"
  "keeps wf_pdu (CdmaSmsReservedParameter_Decode ident)"
  "keeps (wf_with (\<lambda>_. True)) CdmaSmsMessageId_Decode"
  "keeps (wf_with (\<lambda>_. True)) (CdmaSmsAbsoluteTime_Decode ident)"
  "keeps (wf_with (\<lambda>_. True)) (two_bit_decode ident)"
  "keeps (wf_with (\<lambda>_. True)) CdmaSmsReplyOption_Decode"
  "keeps (wf_with (\<lambda>_. True)) CdmaSmsLanguageInd_Decode"
  "keeps (wf_with (\<lambda>_. True)) CdmaSmsDepositIndex_Decode"
  "keeps (wf_with (\<lambda>_. True)) CdmaSmsMessageStatus_Decode"
  "keeps (wf_with (\<lambda>_. True)) CdmaSmsNumberMessages_Decode"
  unfolding CdmaSmsBaseParameter_Decode_def CdmaSmsReservedParameter_Decode_def CdmaSmsMessageId_Decode_def CdmaSmsAbsoluteTime_Decode_def
    two_bit_decode_def CdmaSmsReplyOption_Decode_def CdmaSmsLanguageInd_Decode_def CdmaSmsDepositIndex_Decode_def CdmaSmsMessageStatus_Decode_def
    CdmaSmsNumberMessages_Decode_def
  by (intro dec_keeps keeps_IsInvalidPdu TrueI)+

lemma keeps_two_bit_params:
  "keeps (wf_with (\<lambda>_. True)) CdmaSmsPriorityInd_Decode" "keeps (wf_with (\<lambda>_. True)) CdmaSmsPrivacyInd_Decode"
  "keeps (wf_with (\<lambda>_. True)) CdmaSmsAlertPriority_Decode" "keeps (wf_with (\<lambda>_. True)) CdmaSmsDisplayMode_Decode"
  unfolding CdmaSmsPriorityInd_Decode_def CdmaSmsPrivacyInd_Decode_def CdmaSmsAlertPriority_Decode_def CdmaSmsDisplayMode_Decode_def
  by (rule keeps_simple_params)+

lemma keeps_CallbackNumber: "keeps (wf_with wf_sub_addr) CdmaSmsCallbackNumber_Decode"
  unfolding CdmaSmsCallbackNumber_Decode_def
  by (intro dec_keeps keeps_IsInvalidPdu keeps_each keeps_store_in) (auto simp: wf_sub_addr_def)

lemma keeps_vmn_number:
  assumes "\<And>x. wf_vmn x \<Longrightarrow> length (get x) = CDMASMS_USER_DATA_LEN_MAX + 1"
    and "\<And>x xs. wf_vmn x \<Longrightarrow> length xs = CDMASMS_USER_DATA_LEN_MAX + 1 \<Longrightarrow> wf_vmn (put xs x)"
  shows "keeps (wf_with wf_vmn) (vmn_number get put digitMode n)"
  unfolding vmn_number_def by (intro dec_keeps keeps_each keeps_store_in) (auto simp: assms)

lemma keeps_EnhancedVmn: "keeps (wf_with wf_vmn) CdmaSmsEnhancedVmn_Decode"
  unfolding CdmaSmsEnhancedVmn_Decode_def Vmn_DecodeHeader_def Vmn_DecodeVoiceMail_def Vmn_DecodeAccessNumber_def Vmn_DecodeCallingPartyNumber_def
  by (intro dec_keeps keeps_IsInvalidPdu keeps_vmn_number) (auto simp: wf_vmn_def zero_vmn_def)

lemma keeps_vmn_ids:
  assumes "\<And>x. wf_vmn_ack x \<Longrightarrow> length (get x) = CDMASMS_NUMBER_OF_ACK_MAX + 1"
    and "\<And>x xs. wf_vmn_ack x \<Longrightarrow> length xs = CDMASMS_NUMBER_OF_ACK_MAX + 1 \<Longrightarrow> wf_vmn_ack (put xs x)"
  shows "keeps (wf_with wf_vmn_ack) (vmn_ids get put n)"
  unfolding vmn_ids_def by (intro dec_keeps keeps_each keeps_store_in) (auto simp: assms)

lemma keeps_EnhancedVmnAck: "keeps (wf_with wf_vmn_ack) CdmaSmsEnhancedVmnAck_Decode"
  unfolding CdmaSmsEnhancedVmnAck_Decode_def
  by (intro dec_keeps keeps_IsInvalidPdu keeps_vmn_ids) (auto simp: wf_vmn_ack_def zero_vmn_ack_def)

section \<open>User data\<close>

lemma wf_put_package: "wf_tele_ud d \<Longrightarrow> (\<And>u. wf_ud u \<Longrightarrow> wf_ud (f u)) \<Longrightarrow> wf_tele_ud (put_package f d)"
  by (simp add: wf_tele_ud_def put_package_def)

lemma wf_put_ud_text: "wf_tele_ud d \<Longrightarrow> length xs = MAX_USER_DATA_LEN + 1 \<Longrightarrow> wf_tele_ud (put_ud_text xs d)"
  by (simp add: wf_tele_ud_def put_ud_text_def put_package_def wf_ud_def)

lemma wf_put_length: "wf_tele_ud d \<Longrightarrow> wf_tele_ud (put_length n d)"
  unfolding put_length_def by (erule wf_put_package) simp

lemma wf_tele_ud_length: "wf_tele_ud d \<Longrightarrow> length (ud_data (tu_userData d)) = MAX_USER_DATA_LEN + 1"
  by (simp add: wf_tele_ud_def wf_ud_def)

lemma keeps_cdma_header_at:
  assumes "iconv_bounded ic" "i < MAX_UD_HEADER_NUM"
  shows "keeps (wf_with wf_tele_ud) (cdma_header_at ic wsize i)"
proof -
  have "keeps (wf_with wf_tele_ud)
      (zoom (\<lambda>d. ud_header (tu_userData d) ! i) (\<lambda>h. put_package (\<lambda>u. u\<lparr>ud_header := (ud_header u)[i := h]\<rparr>)) (DecodeHeader ic wsize))"
  proof (rule keeps_zoom [OF keeps_DecodeHeader [OF assms(1)]])
    fix d h
    assume d: "wf_tele_ud d"
    then show "wf_udh (ud_header (tu_userData d) ! i)" using assms(2) by (auto simp: wf_tele_ud_def wf_ud_def)
    assume "wf_udh h"
    with d show "wf_tele_ud (put_package (\<lambda>u. u\<lparr>ud_header := (ud_header u)[i := h]\<rparr>) d)"
      using set_update_subset_insert [of "ud_header (tu_userData d)" i h]
      by (auto simp: wf_tele_ud_def wf_ud_def put_package_def)
  qed
  then show ?thesis unfolding cdma_header_at_def using assms(2)
    by (intro keeps_get_out_bnd) (auto simp: wf_tele_ud_def wf_ud_def)
qed

lemma keeps_cdma_headers:
  assumes "iconv_bounded ic"
  shows "keeps (wf_with wf_tele_ud) (cdma_headers ic wsize udhBytes i index)"
  using assms
proof (induction ic wsize udhBytes i index rule: cdma_headers.induct)
  case (1 ic wsize udhBytes i index)
  then show ?case
    by (subst cdma_headers.simps, intro dec_keeps keeps_cdma_header_at wf_put_package) auto
qed

lemma keeps_DecodeHeader7Bit: "iconv_bounded ic \<Longrightarrow> keeps (wf_with wf_tele_ud) (DecodeHeader7Bit ic wsize headerInd)"
  unfolding DecodeHeader7Bit_def
  by (intro dec_keeps keeps_cdma_headers wf_put_package) auto

lemma keeps_read_text: "n \<le> MAX_USER_DATA_LEN + 1 \<Longrightarrow> keeps (wf_with wf_tele_ud) (read_text l n)"
  unfolding read_text_def
  by (intro dec_keeps keeps_each keeps_store_in) (auto simp: wf_tele_ud_length intro: wf_put_ud_text)

lemma keeps_DecodeAscii7Bit: "keeps (wf_with wf_tele_ud) (DecodeAscii7Bit numFields udhBytes)"
  unfolding DecodeAscii7Bit_def Let_def
  by (intro dec_keeps keeps_read_text wf_put_length) auto

lemma keeps_Decode8BitData: "keeps (wf_with wf_tele_ud) Decode8BitData"
  unfolding Decode8BitData_def by (intro dec_keeps keeps_get_out keeps_read_text) simp

lemma keeps_uunpack_char:
  "0 < srcIdx \<Longrightarrow> srcIdx < length tpdu \<Longrightarrow> dstIdx < n \<Longrightarrow> shift \<le> SMS_BYTE_BIT \<Longrightarrow>
   keeps (\<lambda>xs. length xs = n) (uunpack_char tpdu srcIdx dstIdx shift)"
  unfolding uunpack_char_def by (rule keepsI) (auto simp: op_simps set_at_def)

lemma keeps_uunpack_loop:
  assumes "dataLen \<le> length tpdu" "unpackDataLen \<le> n" "0 < shift \<longrightarrow> 0 < srcIdx" "shift \<le> SMS_ENCODE_GSM_BIT"
  shows "keeps (\<lambda>xs. length xs = n) (uunpack_loop tpdu dataLen unpackDataLen srcIdx dstIdx shift)"
  using assms
proof (induction tpdu dataLen unpackDataLen srcIdx dstIdx shift rule: uunpack_loop.induct)
  case (1 tpdu dataLen unpackDataLen srcIdx dstIdx shift)
  have set: "keeps (\<lambda>xs. length xs = n) (set_at dstIdx v)" if "dstIdx < n" for v :: u8
    using that by (intro keepsI) (simp add: set_at_def)
  show ?case
    by (subst uunpack_loop.simps, intro dec_keeps keeps_rd_at set keeps_uunpack_char 1)
      (use 1 in \<open>auto simp: SMS_ENCODE_GSM_BIT_def SMS_BYTE_BIT_def\<close>)
qed

lemma keeps_Utils_Unpack7bitChar:
  "dataLen \<le> length tpdu \<Longrightarrow> unpackDataLen \<le> n \<Longrightarrow> keeps (\<lambda>xs. length xs = n) (Utils_Unpack7bitChar tpdu dataLen 0 unpackDataLen)"
  unfolding Utils_Unpack7bitChar_def by (intro dec_keeps keeps_uunpack_loop) auto

lemma keeps_DecodeGsm7Bit: "keeps (wf_with wf_tele_ud) (DecodeGsm7Bit numFields udhBytes)"
proof -
  have unpack: "keeps (wf_with wf_tele_ud) (on_part (\<lambda>d. ud_data (tu_userData d)) put_ud_text (Utils_Unpack7bitChar xs n 0 (MAX_USER_DATA_LEN + 1)))"
    if "length xs = n" for xs :: bytes and n
    by (rule keeps_on_part [where K = "\<lambda>xs. length xs = MAX_USER_DATA_LEN + 1"])
      (use that in \<open>auto intro!: keeps_Utils_Unpack7bitChar wf_put_ud_text simp: wf_tele_ud_length\<close>)
  show ?thesis unfolding DecodeGsm7Bit_def Let_def
    by (intro keeps_collect_bnd unpack dec_keeps wf_put_length) auto
qed

lemma keeps_UserData: "iconv_bounded ic \<Longrightarrow> keeps (wf_with wf_tele_ud) (CdmaSmsUserData_Decode ic wsize headerInd)"
  unfolding CdmaSmsUserData_Decode_def Let_def
  by (intro dec_keeps keeps_IsInvalidPdu keeps_DecodeHeader7Bit keeps_DecodeAscii7Bit keeps_DecodeGsm7Bit keeps_Decode8BitData wf_put_length)
    (auto simp: wf_tele_ud_def)

section \<open>Alerts\<close>

text \<open>The decoders of a record only read bits, so they keep every invariant of the buffer that reading bits keeps.\<close>

lemma keeps_DecodeTypeData:
  assumes "\<And>l. keeps I (ReadBits l)"
  shows "keeps (\<lambda>s. I (fst s) \<and> wf_cmas (snd s)) DecodeType0Data"
    "keeps (\<lambda>s. I (fst s) \<and> wf_cmas (snd s)) DecodeType1Data"
    "keeps (\<lambda>s. I (fst s) \<and> wf_cmas (snd s)) DecodeType2Data"
  unfolding DecodeType0Data_def DecodeType1Data_def DecodeType2Data_def read_alert_def DecodeAbsTime_def read_alert_bcd_def Let_def
  by (intro keeps_ret keeps_fail keeps_if keeps_bnd keeps_seq keeps_on_buf keeps_on_out keeps_each keeps_store_in assms;
      auto simp: wf_cmas_def)+

abbreviation cmas_left :: "nat \<Rightarrow> SmsReadBuffer \<times> SmsTeleSvcCmasData \<Rightarrow> bool" where
  "cmas_left n \<equiv> \<lambda>s. left_at_most n (fst s) \<and> wf_cmas (snd s)"

lemma valid_guard: "keeps (cmas_left n) m \<Longrightarrow> valid (\<lambda>s. c \<and> cmas_left n s) m (\<lambda>_ s. c \<and> cmas_left n s) (wf_with wf_cmas)"
proof (cases c)
  case True
  assume "keeps (cmas_left n) m"
  then have "valid (cmas_left n) m (\<lambda>_. cmas_left n) (cmas_left n)" by (simp add: keeps_def)
  then show ?thesis by (rule valid_weaken) (use True in \<open>auto simp: left_at_most_def\<close>)
qed (simp add: valid_def)

lemma DecodeData_left: "valid (cmas_left n) DecodeData (\<lambda>_ s. 8 \<le> n \<and> cmas_left (n - 8) s) (wf_with wf_cmas)"
  unfolding DecodeData_def
proof (rule valid_bnd)
  show "valid (cmas_left n) (on_buf (ReadBits 8)) (\<lambda>_ s. 8 \<le> n \<and> cmas_left (n - 8) s) (wf_with wf_cmas)"
    unfolding valid_def
  proof (intro allI impI)
    fix s
    assume s: "cmas_left n s"
    then have "wf_pdu (fst s)" by (simp add: left_at_most_def)
    from ReadBits_left [OF this, of 8] s
    show "case on_buf (ReadBits 8) s of Ok x t \<Rightarrow> 8 \<le> n \<and> cmas_left (n - 8) t | Fail t \<Rightarrow> wf_with wf_cmas t | Fault \<Rightarrow> False"
      by (auto simp: on_buf_def left_at_most_def split: outcome.splits)
  qed
  fix v
  let ?m = "if v = 0 then DecodeType0Data else if v = 1 then DecodeType1Data else if v = 2 then DecodeType2Data else ret ()"
  have "keeps (cmas_left (n - 8)) ?m"
    by (intro keeps_if keeps_ret keeps_DecodeTypeData keeps_left_ReadBits)
  then show "valid (\<lambda>s. 8 \<le> n \<and> cmas_left (n - 8) s) ?m (\<lambda>_ s. 8 \<le> n \<and> cmas_left (n - 8) s) (wf_with wf_cmas)"
    by (intro valid_guard)
qed

text \<open>Enough fuel: eight bits for each pass.\<close>

lemma cmas_records_fuel:
  "n < 8 * fuel \<Longrightarrow> valid (cmas_left n) (cmas_records fuel stop) (\<lambda>_. wf_with wf_cmas) (wf_with wf_cmas)"
proof (induction fuel arbitrary: n)
  case 0
  then show ?case by simp
next
  case (Suc fuel)
  have rec: "valid (\<lambda>s. 8 \<le> n \<and> cmas_left (n - 8) s) (cmas_records fuel stop) (\<lambda>_. wf_with wf_cmas) (wf_with wf_cmas)"
  proof (cases "8 \<le> n")
    case True
    with Suc.prems have "n - 8 < 8 * fuel" by simp
    from Suc.IH [OF this] show ?thesis by (rule valid_weaken) auto
  qed (simp add: valid_def)
  have "valid (cmas_left n) (if int i < stop then seq DecodeData (cmas_records fuel stop) else ret ()) (\<lambda>_. wf_with wf_cmas) (wf_with wf_cmas)" for i
    using valid_bnd [OF DecodeData_left rec] by (auto simp: seq_def valid_def ret_def left_at_most_def)
  then show ?case by (simp add: valid_def bnd_def on_buf_def gets_def)
qed

lemma keeps_cmas_records: "keeps (wf_with wf_cmas) (cmas_records 257 stop)"
  unfolding keeps_def
  by (rule valid_weaken [OF cmas_records_fuel [where n = 2048]]) (auto dest: left_at_most_start)

lemma keeps_CmasData: "keeps (wf_with wf_cmas) CdmaSmsCmasData_Decode"
  unfolding CdmaSmsCmasData_Decode_def
  by (intro dec_keeps keeps_IsInvalidPdu keeps_cmas_records) (auto simp: wf_cmas_def zero_cmas_def)

section \<open>Teleservice messages\<close>

definition wf_deliver_msg :: "TeleserviceDeliver \<Rightarrow> bool" where
  "wf_deliver_msg d \<longleftrightarrow> wf_tele_ud (dl_userData d) \<and> wf_cmas (dl_cmasData d) \<and> wf_sub_addr (dl_callbackNumber d) \<and> wf_vmn (dl_vmn d) \<and>
     wf_vmn_ack (dl_vmnAck d)"

definition wf_submit_msg :: "TeleserviceSubmit \<Rightarrow> bool" where
  "wf_submit_msg d \<longleftrightarrow> wf_tele_ud (sm_userData d) \<and> wf_sub_addr (sm_callbackNumber d)"

definition wf_user_ack :: "TeleserviceUserAck \<Rightarrow> bool" where
  "wf_user_ack d \<longleftrightarrow> wf_tele_ud (uk_userData d)"

definition wf_deliver_ack :: "TeleserviceDeliverAck \<Rightarrow> bool" where
  "wf_deliver_ack d \<longleftrightarrow> wf_tele_ud (dk_userData d)"

definition wf_read_ack :: "TeleserviceReadAck \<Rightarrow> bool" where
  "wf_read_ack d \<longleftrightarrow> wf_tele_ud (rk_userData d)"

definition wf_report :: "TeleserviceDeliverReport \<Rightarrow> bool" where
  "wf_report d \<longleftrightarrow> wf_tele_ud (rp_userData d)"

lemmas tele_wf = wf_deliver_msg_def wf_submit_msg_def wf_user_ack_def wf_deliver_ack_def wf_read_ack_def wf_report_def

text \<open>What a pass over a PDU hands out.\<close>

abbreviation safe_param :: "('t \<Rightarrow> bool) \<Rightarrow> 't dec_param option \<Rightarrow> bool" where
  "safe_param J p \<equiv> \<forall>d. p = Some d \<longrightarrow> keeps (wf_with J) d"

abbreviation safe_params :: "('t \<Rightarrow> bool) \<Rightarrow> 't dec_param list \<Rightarrow> bool" where
  "safe_params J ps \<equiv> \<forall>d \<in> set ps. keeps (wf_with J) d"

lemma keeps_run_params: "safe_params J ps \<Longrightarrow> keeps (wf_with J) (each (\<lambda>p. p) ps)"
  by (rule keeps_each) simp

lemma keeps_CdmaSmsTeleserviceMessage: "safe_params J ps \<Longrightarrow> keeps (wf_with J) (CdmaSmsTeleserviceMessage_Decode ps)"
  unfolding CdmaSmsTeleserviceMessage_Decode_def by (intro dec_keeps keeps_nonempty keeps_run_params)

lemma gives_scan:
  assumes "\<And>ident. gives (wf_with J) (safe_param J) (push ident)"
  shows "gives (wf_with J) (safe_params J) (scan_parameters push n)"
proof (induction n)
  case 0
  show ?case by (simp add: gives_ret)
next
  case (Suc n)
  have next_params: "gives (wf_with J) (safe_params J) (bnd (scan_parameters push n) (\<lambda>ps. ret (d # ps)))" if "keeps (wf_with J) d" for d
    by (rule gives_bnd [OF Suc.IH]) (use that in \<open>simp add: gives_ret\<close>)
  have rest: "gives (wf_with J) (safe_params J) (bnd (push ident) (\<lambda>p. case p of None \<Rightarrow> ret []
      | Some d \<Rightarrow> seq (on_buf (MoveForward len)) (bnd (scan_parameters push n) (\<lambda>ps. ret (d # ps)))))" for ident len
    by (rule gives_bnd [OF assms], intro gives_option gives_seq next_params keeps_on_buf keeps_wf_MoveForward) (auto simp: gives_ret)
  show ?case unfolding scan_parameters.simps
    by (intro gives_after keeps_attempt keeps_on_buf keeps_bnd keeps_ret keeps_wf_ReadByte gives_option gives_prod rest gives_ret) simp
qed

lemma gives_pushed: "(\<And>x. J x \<Longrightarrow> J (f x)) \<Longrightarrow> keeps (wf_with J) d \<Longrightarrow> gives (wf_with J) (safe_param J) (pushed f d)"
  unfolding pushed_def by (intro gives_seq keeps_on_out gives_ret) auto

lemma gives_param: "keeps (wf_with J) d \<Longrightarrow> gives (wf_with J) (safe_param J) (param d)"
  by (rule gives_ret) simp

lemma gives_reserved: "gives (wf_with J) (safe_param J) (reserved ident)"
  unfolding reserved_def by (intro gives_param keeps_on_buf keeps_simple_params)

lemma gives_on_nonempty: "K x \<Longrightarrow> gives (wf_with J) K m \<Longrightarrow> gives (wf_with J) K (on_nonempty x m)"
  unfolding on_nonempty_def by (rule gives_after) (auto intro: keeps_on_buf keeps_gets gives_ret)

lemma keeps_member:
  "keeps (wf_with (\<lambda>_. True)) m \<Longrightarrow> (\<And>x p. J x \<Longrightarrow> J (put p x)) \<Longrightarrow> keeps (wf_with J) (zoom get put m)"
  by (erule keeps_zoom) simp_all

lemma keeps_message_id_param: "(\<And>x p. J x \<Longrightarrow> J (put p x)) \<Longrightarrow> keeps (wf_with J) (message_id_param get put)"
  unfolding message_id_param_def by (rule keeps_member [OF keeps_seq [OF keeps_simple_params(3) keeps_ret]])

lemma keeps_user_data_param:
  assumes "iconv_bounded ic" "\<And>x. J x \<Longrightarrow> wf_tele_ud (get x)" "\<And>x p. J x \<Longrightarrow> wf_tele_ud p \<Longrightarrow> J (put p x)"
  shows "keeps (wf_with J) (user_data_param ic wsize msgId get put)"
  unfolding user_data_param_def
  by (intro keeps_bnd keeps_get_out keeps_zoom [OF keeps_UserData]) (use assms in auto)

lemma keeps_time_params:
  "keeps (wf_with (\<lambda>_. True)) (relative_param ident)" "keeps (wf_with (\<lambda>_. True)) (absolute_param ident)"
  unfolding relative_param_def absolute_param_def by (rule keeps_member [OF keeps_simple_params(1)] keeps_member [OF keeps_simple_params(4)], simp)+

lemmas param_keeps = gives_if gives_param gives_pushed gives_reserved keeps_message_id_param keeps_user_data_param
  keeps_member [OF keeps_simple_params(1)] keeps_member [OF keeps_simple_params(4)] keeps_member [OF keeps_simple_params(6)]
  keeps_member [OF keeps_simple_params(7)] keeps_member [OF keeps_simple_params(8)] keeps_member [OF keeps_simple_params(9)]
  keeps_member [OF keeps_simple_params(10)] keeps_member [OF keeps_two_bit_params(1)] keeps_member [OF keeps_two_bit_params(2)]
  keeps_member [OF keeps_two_bit_params(3)] keeps_member [OF keeps_two_bit_params(4)] keeps_member [OF keeps_time_params(1)]
  keeps_member [OF keeps_time_params(2)] keeps_zoom [OF keeps_CallbackNumber] keeps_zoom [OF keeps_EnhancedVmn]
  keeps_zoom [OF keeps_EnhancedVmnAck] keeps_zoom [OF keeps_CmasData]

lemma gives_submit_push:
  assumes "iconv_bounded ic"
  shows "gives (wf_with wf_submit_msg) (safe_param wf_submit_msg) (Submit_push ic wsize ident)"
  unfolding Submit_push_def Let_def by (intro param_keeps assms) (auto simp: tele_wf)

lemma gives_deliver_push:
  assumes "iconv_bounded ic"
  shows "gives (wf_with wf_deliver_msg) (safe_param wf_deliver_msg) (Deliver_push ic wsize isCMAS ident)"
  unfolding Deliver_push_def PushParameter_def Let_def by (intro param_keeps assms) (auto simp: tele_wf)

lemma gives_ack_push:
  assumes "iconv_bounded ic"
  shows "gives (wf_with wf_deliver_ack) (safe_param wf_deliver_ack) (DeliveryAck_push ic wsize ident)"
    "gives (wf_with wf_user_ack) (safe_param wf_user_ack) (UserAck_push ic wsize ident)"
    "gives (wf_with wf_read_ack) (safe_param wf_read_ack) (ReadAck_push ic wsize ident)"
  unfolding DeliveryAck_push_def UserAck_push_def ReadAck_push_def by (intro param_keeps assms; auto simp: tele_wf)+

lemma gives_message_scans:
  assumes "iconv_bounded ic"
  shows "gives (wf_with wf_submit_msg) (safe_params wf_submit_msg) (CdmaSmsSubmitMessage_scan ic wsize)"
    "gives (wf_with wf_deliver_msg) (safe_params wf_deliver_msg) (CdmaSmsDeliverMessage_scan ic wsize isCMAS)"
    "gives (wf_with wf_deliver_ack) (safe_params wf_deliver_ack) (CdmaSmsDeliveryAck_scan ic wsize)"
    "gives (wf_with wf_user_ack) (safe_params wf_user_ack) (CdmaSmsUserAck_scan ic wsize)"
    "gives (wf_with wf_read_ack) (safe_params wf_read_ack) (CdmaSmsReadAck_scan ic wsize)"
  unfolding CdmaSmsSubmitMessage_scan_def CdmaSmsDeliverMessage_scan_def CdmaSmsDeliveryAck_scan_def CdmaSmsUserAck_scan_def CdmaSmsReadAck_scan_def
  by (rule gives_on_nonempty, simp, (rule gives_seq [OF keeps_on_out])?,
      (simp add: wf_submit_msg_def)?, intro gives_scan gives_submit_push gives_deliver_push gives_ack_push assms)+

section \<open>The type of a message\<close>

lemma keeps_on_local: "keeps (wf_with J) m \<Longrightarrow> J z \<Longrightarrow> keeps wf_pdu (on_local z m)"
proof (rule keepsI)
  fix b
  assume "keeps (wf_with J) m" "J z" "wf_pdu b"
  from keepsD [OF this(1), of "(b, z)"] this(2,3)
  show "case on_local z m b of Ok x t \<Rightarrow> wf_pdu t | Fail t \<Rightarrow> wf_pdu t | Fault \<Rightarrow> False"
    by (cases "m (b, z)") (simp_all add: on_local_def)
qed

lemma ReadByte_counts: "valid (left_at_most n) (attempt ReadByte) (\<lambda>r b. left_at_most n b \<and> (r \<noteq> None \<longrightarrow> 8 \<le> n \<and> left_at_most (n - 8) b)) wf_pdu"
  unfolding valid_def
proof (intro allI impI)
  fix b
  assume b: "left_at_most n b"
  then have "wf_pdu b" by (simp add: left_at_most_def)
  from ReadByte_left [OF this] b
  show "case attempt ReadByte b of Ok r t \<Rightarrow> left_at_most n t \<and> (r \<noteq> None \<longrightarrow> 8 \<le> n \<and> left_at_most (n - 8) t)
      | Fail t \<Rightarrow> wf_pdu t | Fault \<Rightarrow> False"
    by (auto simp: attempt_def left_at_most_def split: outcome.splits)
qed

lemma valid_wf: "keeps wf_pdu m \<Longrightarrow> (\<And>b. P b \<Longrightarrow> wf_pdu b) \<Longrightarrow> valid P m (\<lambda>_. wf_pdu) wf_pdu"
  unfolding keeps_def by (erule valid_weaken) simp_all

lemma find_message_type_fuel: "n < 8 * fuel \<Longrightarrow> valid (left_at_most n) (find_message_type fuel) (\<lambda>_. wf_pdu) wf_pdu"
proof (induction fuel arbitrary: n)
  case 0
  then show ?case by simp
next
  case (Suc fuel)
  let ?P = "\<lambda>b. left_at_most n b \<and> 8 \<le> n \<and> left_at_most (n - 8) b"
  have local_id: "keeps wf_pdu (bnd (attempt (on_local zero_msgId CdmaSmsMessageId_Decode)) (\<lambda>r. ret (case r of None \<Rightarrow> 0 | Some ty \<Rightarrow> ty)))"
    by (intro keeps_bnd keeps_attempt keeps_ret keeps_on_local [OF keeps_simple_params(3)] TrueI)
  have "valid ?P (bnd (attempt ReadByte) (\<lambda>r. case r of None \<Rightarrow> ret 0 | Some len \<Rightarrow> seq (MoveForward (unat len)) (find_message_type fuel)))
      (\<lambda>_. wf_pdu) wf_pdu"
  proof (cases "8 \<le> n")
    case True
    then have "n - 8 < 8 * fuel" using Suc.prems by simp
    note rec = Suc.IH [OF this]
    have step: "valid (left_at_most (n - 8)) (seq (MoveForward k) (find_message_type fuel)) (\<lambda>_. wf_pdu) wf_pdu" for k
      unfolding seq_def
      by (rule valid_bnd [OF _ rec], rule valid_weaken [OF keeps_left_MoveForward [unfolded keeps_def]]) (auto simp: left_at_most_def)
    have next_pass: "valid (left_at_most (n - 8)) (case r of None \<Rightarrow> ret 0 | Some len \<Rightarrow> seq (MoveForward (unat len)) (find_message_type fuel))
        (\<lambda>_. wf_pdu) wf_pdu" for r :: "u8 option"
      using step by (cases r) (auto simp: valid_def ret_def left_at_most_def)
    have "valid ?P (attempt ReadByte) (\<lambda>_. left_at_most (n - 8)) wf_pdu"
      by (rule valid_weaken [OF keeps_attempt [OF keeps_left_ReadByte, unfolded keeps_def, of "n - 8"]]) (auto simp: left_at_most_def)
    then show ?thesis by (rule valid_bnd [OF _ next_pass])
  qed (simp add: valid_def)
  then have "valid (\<lambda>b. left_at_most n b \<and> (r \<noteq> None \<longrightarrow> 8 \<le> n \<and> left_at_most (n - 8) b))
      (case r of None \<Rightarrow> ret 0 | Some ident \<Rightarrow>
         if ident = MESSAGE_IDENTIFIER then
           seq (MoveBack 1) (bnd (attempt (on_local zero_msgId CdmaSmsMessageId_Decode)) (\<lambda>r. ret (case r of None \<Rightarrow> 0 | Some ty \<Rightarrow> ty)))
         else bnd (attempt ReadByte) (\<lambda>r. case r of None \<Rightarrow> ret 0 | Some len \<Rightarrow> seq (MoveForward (unat len)) (find_message_type fuel)))
      (\<lambda>_. wf_pdu) wf_pdu" for r
    using valid_wf [OF keeps_seq [OF keeps_wf_MoveBack local_id]]
    by (cases r) (auto simp: left_at_most_def valid_def ret_def)
  from valid_bnd [OF ReadByte_counts this] show ?case by simp
qed

lemma keeps_GetMessageType: "keeps wf_pdu GetMessageType"
proof -
  have "keeps wf_pdu (find_message_type 257)"
    unfolding keeps_def by (rule valid_weaken [OF find_message_type_fuel [of 2048]]) (auto dest: left_at_most_start)
  then show ?thesis unfolding GetMessageType_def by (intro keeps_bnd keeps_gets keeps_if keeps_ret)
qed

section \<open>Transport messages\<close>

definition wf_union :: "TeleUnion \<Rightarrow> bool" where
  "wf_union u \<longleftrightarrow> (case u of
     TeleZero \<Rightarrow> True | TeleDeliver d \<Rightarrow> wf_deliver_msg d | TeleSubmit d \<Rightarrow> wf_submit_msg d | TeleCancel _ \<Rightarrow> True
   | TeleUserAck d \<Rightarrow> wf_user_ack d | TeleDeliverAck d \<Rightarrow> wf_deliver_ack d | TeleReadAck d \<Rightarrow> wf_read_ack d | TeleReport d \<Rightarrow> wf_report d)"

text \<open>However the memory of the union is read, the arrays of the struct have the sizes of their types.\<close>

definition overlay_sized :: "tele_overlay \<Rightarrow> bool" where
  "overlay_sized ov \<longleftrightarrow> (\<forall>u. wf_deliver_msg (as_deliver ov u) \<and> wf_submit_msg (as_submit ov u) \<and> wf_user_ack (as_user_ack ov u) \<and>
     wf_deliver_ack (as_deliver_ack ov u) \<and> wf_read_ack (as_read_ack ov u) \<and> wf_report (as_report ov u))"

definition wf_tele :: "CdmaTeleserviceMsg \<Rightarrow> bool" where
  "wf_tele m \<longleftrightarrow> wf_union (tm_data m)"

lemma wf_get:
  assumes "overlay_sized ov" "wf_union u"
  shows "wf_deliver_msg (get_deliver ov u)" "wf_submit_msg (get_submit ov u)" "wf_user_ack (get_user_ack ov u)"
    "wf_deliver_ack (get_deliver_ack ov u)" "wf_read_ack (get_read_ack ov u)" "wf_report (get_report ov u)"
  using assms
  by (cases u; simp add: overlay_sized_def wf_union_def get_deliver_def get_submit_def get_user_ack_def get_deliver_ack_def get_read_ack_def
      get_report_def tele_wf zero_tele_deliver_def zero_tele_submit_def zero_user_ack_def zero_deliver_ack_def zero_read_ack_def zero_report_def)+

text \<open>The terminator behind the characters of an address is never overwritten.\<close>

definition wf_trans_addr :: "TransportAddr \<Rightarrow> bool" where
  "wf_trans_addr a \<longleftrightarrow> length (tra_szData a) = CDMASMS_ADDRESS_LEN_MAX + 1 \<and> tra_szData a ! CDMASMS_ADDRESS_LEN_MAX = 0"

definition wf_trans_sub :: "TransportSubAddr \<Rightarrow> bool" where
  "wf_trans_sub a \<longleftrightarrow> length (tsa_szData a) = CDMASMS_ADDRESS_LEN_MAX + 1"

definition wf_p2p :: "CdmaP2PMsg \<Rightarrow> bool" where
  "wf_p2p m \<longleftrightarrow> wf_trans_addr (p2p_address m) \<and> wf_trans_sub (p2p_subAddress m) \<and> wf_tele (p2p_telesvcMsg m)"

definition wf_broadcast :: "CdmaBroadCastMsg \<Rightarrow> bool" where
  "wf_broadcast m \<longleftrightarrow> wf_tele (bc_telesvcMsg m)"

definition wf_ack_msg :: "CdmaAckMsg \<Rightarrow> bool" where
  "wf_ack_msg m \<longleftrightarrow> wf_trans_addr (ack_address m) \<and> wf_trans_sub (ack_subAddress m)"

definition wf_trans :: "CdmaTransportMsg \<Rightarrow> bool" where
  "wf_trans t \<longleftrightarrow> (case tr_data t of TransP2P m \<Rightarrow> wf_p2p m | TransBroadcast m \<Rightarrow> wf_broadcast m | TransAck m \<Rightarrow> wf_ack_msg m)"

lemma replicate_zero_end [simp]: "(0 # replicate n 0) ! n = (0 :: 'a :: zero)"
  by (induction n) simp_all

lemma wf_zero_trans [simp]: "wf_trans_addr zero_trans_addr" "wf_trans_sub zero_trans_sub" "wf_tele zero_tele" "wf_p2p zero_p2p"
  "wf_broadcast zero_broadcast" "wf_ack_msg zero_ack" "wf_trans zero_trans"
  by (simp_all add: wf_trans_addr_def wf_trans_sub_def wf_tele_def wf_p2p_def wf_broadcast_def wf_ack_msg_def wf_trans_def wf_union_def
      zero_trans_addr_def zero_trans_sub_def zero_tele_def zero_p2p_def zero_broadcast_def zero_ack_def zero_trans_def)

lemma wf_get_trans [simp]:
  "wf_trans t \<Longrightarrow> wf_p2p (get_p2p (tr_data t))" "wf_trans t \<Longrightarrow> wf_broadcast (get_broadcast (tr_data t))" "wf_trans t \<Longrightarrow> wf_ack_msg (get_ack (tr_data t))"
  by (auto simp: wf_trans_def get_p2p_def get_broadcast_def get_ack_def split: TransUnion.splits)

lemma keeps_records:
  "keeps (wf_with (\<lambda>_. True)) CdmaSmsTeleserviceId_Decode" "keeps (wf_with (\<lambda>_. True)) CdmaSmsServiceCategory_Decode"
  "keeps (wf_with (\<lambda>_. True)) CdmaSmsBearerReply_Decode" "keeps (wf_with (\<lambda>_. True)) CdmaSmsCauseCodes_Decode"
  unfolding CdmaSmsTeleserviceId_Decode_def CdmaSmsServiceCategory_Decode_def CdmaSmsBearerReply_Decode_def CdmaSmsCauseCodes_Decode_def
  by (intro dec_keeps keeps_IsInvalidPdu keeps_get_out TrueI)+

lemma keeps_AddressParameter: "keeps (wf_with wf_trans_addr) (CdmaSmsAddressParameter_Decode ident)"
proof -
  have store: "i < length (tra_szData x) \<and> wf_trans_addr (x\<lparr>tra_szData := (tra_szData x)[i := v]\<rparr>)"
    if "wf_trans_addr x" "i \<in> set [0..<unat (n :: u8)]" for x i v n
    using that unat_u8_less [of n] by (auto simp: wf_trans_addr_def CDMASMS_ADDRESS_LEN_MAX_def)
  show ?thesis unfolding CdmaSmsAddressParameter_Decode_def DecodeAddress_def
    by (intro dec_keeps keeps_IsInvalidPdu keeps_each keeps_store_in store) (auto simp: wf_trans_addr_def zero_trans_addr_def)
qed

lemma keeps_Subaddress: "keeps (wf_with wf_trans_sub) (CdmaSmsSubaddress_Decode ident)"
  unfolding CdmaSmsSubaddress_Decode_def
  by (intro dec_keeps keeps_IsInvalidPdu keeps_each keeps_store_in) (auto simp: wf_trans_sub_def zero_trans_sub_def)

lemma gives_scan_member:
  assumes scan: "gives (wf_with L) (safe_params L) scan" and get: "\<And>u. wf_union u \<Longrightarrow> L (get u)" and put: "\<And>d. L d \<Longrightarrow> wf_union (put d)"
  shows "gives (wf_with wf_tele) (\<lambda>r. \<forall>ps. r = Some ps \<longrightarrow> safe_params wf_tele ps) (scan_member ty get put scan)"
proof -
  let ?zoom = "zoom (\<lambda>m. get (tm_data m)) (\<lambda>d m. m\<lparr>tm_data := put d\<rparr>)"
  have member: "gives (wf_with wf_tele) (safe_params L) (?zoom scan)"
    by (rule gives_zoom [OF scan]) (auto simp: wf_tele_def get put)
  have "keeps (wf_with wf_tele) (?zoom d)" if "keeps (wf_with L) d" for d :: "'a dec_param"
    by (rule keeps_zoom [OF that]) (auto simp: wf_tele_def get put)
  then show ?thesis unfolding scan_member_def Let_def
    by (intro gives_seq keeps_on_out gives_bnd [OF member] gives_ret) (auto simp: wf_tele_def)
qed

lemma gives_BearerData_scan:
  assumes ic: "iconv_bounded ic" and ov: "overlay_sized ov"
  shows "gives (wf_with wf_tele) (\<lambda>r. \<forall>ps. r = Some ps \<longrightarrow> safe_params wf_tele ps) (CdmaSmsBearerData_scan ov ic wsize isCMAS)"
  unfolding CdmaSmsBearerData_scan_def
  by (intro gives_after gives_seq gives_if gives_ret keeps_on_buf keeps_gets keeps_GetMessageType keeps_ignore keeps_wf_SetIndex keeps_on_out
      gives_scan_member [OF gives_message_scans(1) [OF ic]] gives_scan_member [OF gives_message_scans(2) [OF ic]]
      gives_scan_member [OF gives_message_scans(3) [OF ic]] gives_scan_member [OF gives_message_scans(4) [OF ic]]
      gives_scan_member [OF gives_message_scans(5) [OF ic]] wf_get [OF ov])
    (auto simp: wf_union_def wf_tele_def)

lemma keeps_BearerData_Decode:
  "(\<And>ps. r = Some ps \<Longrightarrow> safe_params wf_tele ps) \<Longrightarrow> keeps (wf_with wf_tele) (CdmaSmsBearerData_Decode r)"
  unfolding CdmaSmsBearerData_Decode_def
  by (intro keeps_option keeps_fail keeps_seq keeps_on_buf keeps_IsInvalidPdu keeps_CdmaSmsTeleserviceMessage) simp

lemma gives_bearer_param:
  assumes scan: "gives (wf_with wf_tele) (\<lambda>r. \<forall>ps. r = Some ps \<longrightarrow> safe_params wf_tele ps) scan"
    and get: "\<And>x. J x \<Longrightarrow> wf_tele (get x)" and put: "\<And>x p. J x \<Longrightarrow> wf_tele p \<Longrightarrow> J (put p x)"
  shows "gives (wf_with J) (safe_param J) (bearer_param scan get put)"
proof -
  note member = gives_zoom [OF scan, of J get put, OF get put]
  have "keeps (wf_with J) (zoom get put (CdmaSmsBearerData_Decode r))" if "\<forall>ps. r = Some ps \<longrightarrow> safe_params wf_tele ps" for r
    by (rule keeps_zoom [OF keeps_BearerData_Decode]) (use that get put in auto)
  then show ?thesis unfolding bearer_param_def
    by (intro gives_after gives_bnd [OF member] gives_seq gives_ret keeps_on_buf keeps_gets keeps_ignore keeps_wf_SetIndex) auto
qed

lemma gives_P2p_push:
  assumes "iconv_bounded ic" "overlay_sized ov"
  shows "gives (wf_with wf_p2p) (safe_param wf_p2p) (P2p_push ov ic wsize ident)"
  unfolding P2p_push_def
  by (intro gives_if gives_param gives_bearer_param gives_BearerData_scan assms keeps_member [OF keeps_records(1)]
      keeps_member [OF keeps_records(2)] keeps_member [OF keeps_records(3)] keeps_zoom [OF keeps_AddressParameter] keeps_zoom [OF keeps_Subaddress])
    (auto simp: wf_p2p_def intro: gives_ret)

lemma gives_Broadcast_push:
  assumes "iconv_bounded ic" "overlay_sized ov"
  shows "gives (wf_with wf_broadcast) (safe_param wf_broadcast) (Broadcast_push ov ic wsize ident)"
proof -
  have category: "keeps (wf_with wf_broadcast) (zoom bc_serviceCtg (\<lambda>x m. m\<lparr>bc_serviceCtg := x\<rparr>) CdmaSmsServiceCategory_Decode)"
    by (rule keeps_member [OF keeps_records(2)]) (simp add: wf_broadcast_def)
  show ?thesis unfolding Broadcast_push_def Let_def
    by (intro gives_if gives_after gives_seq gives_param gives_bearer_param gives_BearerData_scan assms category keeps_on_buf keeps_gets keeps_ignore
        keeps_wf_SetIndex keeps_wf_MoveBack keeps_get_out)
      (auto simp: wf_broadcast_def intro: gives_ret)
qed

lemma gives_Ack_push: "gives (wf_with wf_ack_msg) (safe_param wf_ack_msg) (Ack_push ident)"
  unfolding Ack_push_def
  by (intro gives_if gives_param keeps_member [OF keeps_records(4)] keeps_zoom [OF keeps_AddressParameter] keeps_zoom [OF keeps_Subaddress])
    (auto simp: wf_ack_msg_def intro: gives_ret)

lemma gives_trans_member:
  assumes scan: "gives (wf_with L) (safe_params L) scan" and get: "\<And>t. wf_trans t \<Longrightarrow> L (get (tr_data t))"
    and put: "\<And>d t. L d \<Longrightarrow> wf_trans (t\<lparr>tr_data := put d\<rparr>)"
  shows "gives (wf_with wf_trans) (safe_params wf_trans) (trans_member ty get put scan)"
proof -
  let ?zoom = "zoom (\<lambda>m. get (tr_data m)) (\<lambda>d m. m\<lparr>tr_data := put d\<rparr>)"
  have member: "gives (wf_with wf_trans) (safe_params L) (?zoom scan)"
    by (rule gives_zoom [OF scan]) (auto simp: get put)
  have "keeps (wf_with wf_trans) (?zoom d)" if "keeps (wf_with L) d" for d :: "'a dec_param"
    by (rule keeps_zoom [OF that]) (auto simp: get put)
  then show ?thesis unfolding trans_member_def Let_def
    by (intro gives_seq keeps_on_out gives_bnd [OF member] gives_ret) (auto simp: wf_trans_def)
qed

lemma gives_CreateTransportMessage:
  assumes "iconv_bounded ic" "overlay_sized ov"
  shows "gives (wf_with wf_trans) (safe_params wf_trans) (CreateTransportMessage_scan ov ic wsize)"
proof -
  have p2p: "gives (wf_with wf_p2p) (safe_params wf_p2p) (CdmaSmsP2pMessage_scan ov ic wsize)"
    unfolding CdmaSmsP2pMessage_scan_def
    by (intro gives_on_nonempty gives_seq keeps_on_out gives_scan gives_P2p_push assms) (auto simp: wf_p2p_def)
  have broadcast: "gives (wf_with wf_broadcast) (safe_params wf_broadcast) (CdmaSmsBroadcastMessage_scan ov ic wsize)"
    unfolding CdmaSmsBroadcastMessage_scan_def
    by (intro gives_on_nonempty gives_seq keeps_on_out gives_scan gives_Broadcast_push assms) (auto simp: wf_broadcast_def)
  have ack: "gives (wf_with wf_ack_msg) (safe_params wf_ack_msg) CdmaSmsAckMessage_scan"
    unfolding CdmaSmsAckMessage_scan_def by (intro gives_on_nonempty gives_scan gives_Ack_push) simp
  show ?thesis unfolding CreateTransportMessage_scan_def
    by (intro gives_seq gives_after gives_if gives_fail keeps_on_buf keeps_nonempty keeps_ret keeps_wf_ReadByte keeps_on_out
        gives_trans_member [OF p2p] gives_trans_member [OF broadcast] gives_trans_member [OF ack])
      (auto simp: wf_trans_def get_p2p_def get_broadcast_def get_ack_def split: TransUnion.splits)
qed

lemma keeps_decode_transport:
  assumes "iconv_bounded ic" "overlay_sized ov"
  shows "keeps (wf_with wf_trans) (decode_transport ov ic wsize)"
  unfolding decode_transport_def CdmaSmsTransportMessage_Decode_def
  by (intro gives_bnd_keeps [OF gives_CreateTransportMessage] assms keeps_if keeps_fail keeps_seq keeps_on_buf keeps_nonempty keeps_ret keeps_ignore
      keeps_wf_SetIndex keeps_bnd keeps_wf_ReadByte keeps_run_params)

section \<open>Any PDU is safe to decode\<close>

definition zero_overlay :: tele_overlay where
  "zero_overlay = \<lparr>as_deliver = \<lambda>_. zero_tele_deliver, as_submit = \<lambda>_. zero_tele_submit, as_user_ack = \<lambda>_. zero_user_ack,
     as_deliver_ack = \<lambda>_. zero_deliver_ack, as_read_ack = \<lambda>_. zero_read_ack, as_cancel = \<lambda>_. zero_msgId, as_report = \<lambda>_. zero_report\<rparr>"

lemma overlay_sized_zero: "overlay_sized zero_overlay"
  using wf_get [of zero_overlay TeleZero]
  by (simp add: overlay_sized_def zero_overlay_def tele_wf zero_tele_deliver_def zero_tele_submit_def zero_user_ack_def zero_deliver_ack_def
      zero_read_ack_def zero_report_def)

text \<open>
  C29. Both passes over a received CDMA PDU, whatever its octets are: no decoder reads or writes outside an array, and the loops over sub-parameters, alert records and
  user data headers end; also when decoding fails, every array of the transport message keeps its size, the address its terminator, and the union of the
  teleservice message holds a well-formed struct. \<^verbatim>\<open>iconv\<close> keeps to the size of its output buffer, and a member of the union takes as a struct of its type.
\<close>

theorem cdma_decode_safe:
  assumes "iconv_bounded ic" "overlay_sized ov"
  shows "case decode_transport ov ic wsize (SmsReadBuffer pdu, zero_trans) of
      Ok _ s \<Rightarrow> wf_trans (snd s) | Fail s \<Rightarrow> wf_trans (snd s) | Fault \<Rightarrow> False"
proof -
  have "wf_with wf_trans (SmsReadBuffer pdu, zero_trans)" by (simp add: wf_SmsReadBuffer)
  from keepsD [OF keeps_decode_transport [OF assms] this, of wsize] show ?thesis by (auto split: outcome.splits)
qed

theorem cdma_decode_safe_witness:
  "case decode_transport zero_overlay (\<lambda>_ _. None) 4 (SmsReadBuffer [2, 4, 2, 0x02, 0x44, 7, 1, 0xFC], zero_trans) of
     Ok _ s \<Rightarrow> wf_trans (snd s) | Fail s \<Rightarrow> wf_trans (snd s) | Fault \<Rightarrow> False"
  by (rule cdma_decode_safe) (simp_all add: iconv_bounded_def overlay_sized_zero)

end
