(* ===== verification/Cdma_Fields.thy ===== *)
theory Cdma_Fields
  imports Cdma_Transport
begin

text \<open>
  How the CDMA codec lays out its parameters: bit fields packed into octets, the most significant bit first, each parameter padded to whole octets and preceded by its
  identifier and its length. The theory gives the octets that a sequence of fields becomes, and the interface \<open>cdma_param\<close> of a parameter that is written and read back.
\<close>

section \<open>Fields and octets\<close>

definition fbits :: "(u8 \<times> nat) list \<Rightarrow> bool list" where
  "fbits fs = concat (map (\<lambda>(v, l). map (\<lambda>k. bit v (l - 1 - k)) [0..<l]) fs)"

definition octet_of :: "bool list \<Rightarrow> u8" where
  "octet_of bs = horner_sum of_bool 2 (rev (take 8 (bs @ replicate 8 False)))"

fun octets_of :: "bool list \<Rightarrow> bytes" where
  "octets_of [] = []"
| "octets_of (x # bs) = octet_of (x # bs) # octets_of (drop 7 bs)"

definition pack :: "(u8 \<times> nat) list \<Rightarrow> bytes" where
  "pack fs = octets_of (fbits fs)"

abbreviation widths :: "(u8 \<times> nat) list \<Rightarrow> nat" where
  "widths fs \<equiv> sum_list (map snd fs)"

lemma fbits_simps [simp]: "fbits [] = []" "fbits ((v, l) # fs) = map (\<lambda>k. bit v (l - 1 - k)) [0..<l] @ fbits fs"
  by (simp_all add: fbits_def)

lemma length_fbits [simp]: "length (fbits fs) = widths fs"
  by (induction fs) auto

lemma bit_octet_of: "q < 8 \<Longrightarrow> bit (octet_of bs) (7 - q) \<longleftrightarrow> q < length bs \<and> bs ! q"
proof -
  assume q: "q < 8"
  let ?xs = "take 8 (bs @ replicate 8 False)"
  have len: "length ?xs = 8" by simp
  have "bit (octet_of bs) (7 - q) \<longleftrightarrow> rev ?xs ! (7 - q)"
    using q len unfolding octet_of_def by (subst bit_horner_sum_bit_word_iff) auto
  also have "\<dots> \<longleftrightarrow> ?xs ! q" using q len by (simp only: rev_nth) simp
  also have "\<dots> \<longleftrightarrow> q < length bs \<and> bs ! q" using q by (auto simp: nth_append)
  finally show ?thesis .
qed

lemma length_octets_of: "length (octets_of bs) = (length bs + 7) div 8"
proof (induction bs rule: octets_of.induct)
  case (2 x bs)
  show ?case
  proof (cases "length bs \<le> 7")
    case True
    then show ?thesis by simp
  next
    case False
    then obtain m where "length bs = m + 7" by (metis add.commute le_add_diff_inverse nat_le_linear)
    with 2 show ?thesis by simp
  qed
qed simp

lemma stream_bit_octets_of: "i < 8 * length (octets_of bs) \<Longrightarrow> stream_bit (octets_of bs) i \<longleftrightarrow> i < length bs \<and> bs ! i"
proof (induction bs arbitrary: i rule: octets_of.induct)
  case (2 x bs)
  show ?case
  proof (cases "i < 8")
    case True
    then show ?thesis using bit_octet_of [of i "x # bs"] by (simp add: stream_bit_def)
  next
    case False
    then obtain j where i: "i = j + 8" by (metis add.commute le_add_diff_inverse not_less)
    with 2(2) have "j < 8 * length (octets_of (drop 7 bs))" by simp
    from 2(1) [OF this] have "stream_bit (octets_of (drop 7 bs)) j \<longleftrightarrow> 7 + j < length bs \<and> bs ! (7 + j)" by auto
    moreover have "(j + 8) div 8 = Suc (j div 8)" by simp
    ultimately show ?thesis using i by (simp add: stream_bit_def)
  qed
qed simp

lemma length_pack: "length (pack fs) = (widths fs + 7) div 8"
  by (simp add: pack_def length_octets_of)

lemma stream_bit_append:
  "stream_bit (xs @ ys) p = (if p < 8 * length xs then stream_bit xs p else stream_bit ys (p - 8 * length xs))"
proof (cases "p < 8 * length xs")
  case False
  then obtain j where "p = 8 * length xs + j" by (metis le_add_diff_inverse not_less)
  then show ?thesis by (simp add: stream_bit_def nth_append)
next
  case True
  then have "p div 8 < length xs" by (simp add: less_mult_imp_div_less mult.commute)
  with True show ?thesis by (simp add: stream_bit_def nth_append)
qed

lemma stream_bit_zeros [simp]: "p < 8 * n \<Longrightarrow> \<not> stream_bit (replicate n 0) p"
  by (simp add: stream_bit_def less_mult_imp_div_less mult.commute)

lemma bytes_eq_streamI:
  assumes "length xs = length ys" "\<And>p. p < 8 * length xs \<Longrightarrow> stream_bit xs p = stream_bit ys p"
  shows "xs = ys"
proof (rule nth_equalityI)
  fix i
  assume i: "i < length xs"
  show "xs ! i = ys ! i"
  proof (rule word_eq_bits)
    fix n :: nat
    assume "n < LENGTH(8)"
    then have n: "n < 8" by simp
    have "8 * i + (7 - n) < 8 * length xs" using i by simp
    from assms(2) [OF this] n show "bit (xs ! i) n = bit (ys ! i) n"
      by (simp only: stream_bit_in_byte [of "7 - n"]) simp
  qed
qed (rule assms(1))

section \<open>Writing\<close>

lemma WriteFields_append: "WriteFields (fs @ gs) = seq (WriteFields fs) (WriteFields gs)"
  by (induction fs) (auto simp: seq_def bnd_def ret_def fun_eq_iff split: outcome.splits)

lemma WriteFields_at:
  assumes "wf_pdu b" "buf_data b = Some d" "\<forall>f \<in> set fs. field_ok f" "bitpos b + widths fs \<le> 8 * length d"
  shows "\<exists>d' b'. WriteFields fs b = Ok () b' \<and> wf_pdu b' \<and> buf_data b' = Some d' \<and> length d' = length d \<and> bitpos b' = bitpos b + widths fs \<and>
    (\<forall>p < 8 * length d. stream_bit d' p \<longleftrightarrow> stream_bit d p \<or> bitpos b \<le> p \<and> p < bitpos b + widths fs \<and> fbits fs ! (p - bitpos b))"
  using assms
proof (induction fs arbitrary: b d)
  case Nil
  then show ?case by (auto simp: ret_def)
next
  case (Cons f fs)
  obtain v l where f: "f = (v, l)" by (cases f)
  have fok: "field_ok (v, l)" using Cons.prems(3) f by simp
  then have l: "0 < l" "l \<le> 8" by (simp_all add: field_ok_def)
  have room: "bitpos b + l \<le> 8 * length d" using Cons.prems(4) f by simp
  obtain d1 b1 where W: "WriteBits v l b = Ok () b1" "wf_pdu b1" "buf_data b1 = Some d1" "length d1 = length d" "bitpos b1 = bitpos b + l"
    and bits1: "\<And>p. p < 8 * length d \<Longrightarrow> stream_bit d1 p \<longleftrightarrow>
       stream_bit d p \<or> bitpos b \<le> p \<and> p < bitpos b + l \<and> bit v (l - 1 - (p - bitpos b))"
    using WriteBits_fits [OF Cons.prems(1,2) l room field_ok_bits [OF fok]] by blast
  have "\<forall>f \<in> set fs. field_ok f" "bitpos b1 + widths fs \<le> 8 * length d1" using Cons.prems(3,4) W f by simp_all
  from Cons.IH [OF W(2,3) this] obtain d' b' where R: "WriteFields fs b1 = Ok () b'" "wf_pdu b'" "buf_data b' = Some d'" "length d' = length d1"
    "bitpos b' = bitpos b1 + widths fs"
    and bits: "\<And>p. p < 8 * length d1 \<Longrightarrow> stream_bit d' p \<longleftrightarrow>
       stream_bit d1 p \<or> bitpos b1 \<le> p \<and> p < bitpos b1 + widths fs \<and> fbits fs ! (p - bitpos b1)"
    by blast
  have "stream_bit d' p \<longleftrightarrow> stream_bit d p \<or> bitpos b \<le> p \<and> p < bitpos b + widths (f # fs) \<and> fbits (f # fs) ! (p - bitpos b)"
    if "p < 8 * length d" for p
    using bits [of p] bits1 [of p] that W by (auto simp: f nth_append)
  with W R f show ?case by (auto simp: seq_def bnd_def)
qed

text \<open>A buffer at the end of what was written: zeros follow.\<close>

abbreviation wb :: "bytes \<Rightarrow> nat \<Rightarrow> SmsWriteBuffer" where
  "wb p n \<equiv> zb p (replicate n 0)"

lemma SkipBits_zb:
  assumes "wf_pdu b" "buf_data b = Some (rev q @ xs)" "8 * length q < bitpos b + 8" "bitpos b \<le> 8 * length q"
  shows "SkipBits b = Ok (length q) (zb q xs)"
proof (cases b)
  case (fields data index len bitIndex)
  from assms fields have b: "data = Some (rev q @ xs)" "len = length q + length xs" "bitIndex < 8"
    by (auto simp: wf_pdu_def)
  have "(if bitIndex > 0 then Suc index else index) = length q"
    using assms(3,4) fields b(3) by (auto simp: bitpos_def)
  then show ?thesis using fields b by (auto simp: SkipBits_def zb_def Let_def)
qed

lemma WriteFields_zb:
  assumes "\<forall>f \<in> set fs. field_ok f" "length (pack fs) \<le> n" "length p + n \<le> 256"
  shows "seq (WriteFields fs) SkipBits (wb p n) =
    Ok (length p + length (pack fs)) (wb (rev (pack fs) @ p) (n - length (pack fs)))"
proof -
  have bp: "bitpos (wb p n) = 8 * length p" by (simp add: bitpos_def)
  let ?d = "rev p @ replicate n 0"
  let ?k = "length (pack fs)"
  have "widths fs \<le> 8 * ?k" unfolding length_pack by linarith
  then have "bitpos (wb p n) + widths fs \<le> 8 * length ?d" using assms(2) bp by simp
  from WriteFields_at [OF _ _ assms(1) this] assms(3) obtain d' b' where W: "WriteFields fs (wb p n) = Ok () b'" "wf_pdu b'" "buf_data b' = Some d'"
    "length d' = length ?d" "bitpos b' = 8 * length p + widths fs"
    and bits: "\<And>q. q < 8 * length ?d \<Longrightarrow> stream_bit d' q \<longleftrightarrow>
       stream_bit ?d q \<or> 8 * length p \<le> q \<and> q < 8 * length p + widths fs \<and> fbits fs ! (q - 8 * length p)"
    using bp by auto
  have "d' = rev (rev (pack fs) @ p) @ replicate (n - ?k) 0"
  proof (rule bytes_eq_streamI)
    show "length d' = length (rev (rev (pack fs) @ p) @ replicate (n - ?k) 0)" using W(4) assms(2) by simp
    fix q
    assume "q < 8 * length d'"
    then have q: "q < 8 * length ?d" using W(4) by simp
    show "stream_bit d' q = stream_bit (rev (rev (pack fs) @ p) @ replicate (n - ?k) 0) q"
    proof (cases "q < 8 * length p")
      case True
      with bits [OF q] show ?thesis by (simp add: stream_bit_append)
    next
      case False
      then obtain j where j: "q = 8 * length p + j" by (metis le_add_diff_inverse not_less)
      then have jn: "j < 8 * n" using q by simp
      have "stream_bit d' q \<longleftrightarrow> j < widths fs \<and> fbits fs ! j"
        using bits [OF q] j jn by (simp add: stream_bit_append)
      also have "\<dots> \<longleftrightarrow> stream_bit (pack fs @ replicate (n - ?k) 0) j"
      proof (cases "j < 8 * ?k")
        case True
        then show ?thesis using stream_bit_octets_of [of j "fbits fs"] by (simp add: stream_bit_append pack_def)
      next
        case False
        then have "\<not> j < widths fs" using \<open>widths fs \<le> 8 * ?k\<close> by simp
        with False jn show ?thesis by (simp add: stream_bit_append)
      qed
      also have "\<dots> \<longleftrightarrow> stream_bit (rev (rev (pack fs) @ p) @ replicate (n - ?k) 0) q"
        using j by (simp add: stream_bit_append)
      finally show ?thesis .
    qed
  qed
  then have "SkipBits b' = Ok (length (rev (pack fs) @ p)) (zb (rev (pack fs) @ p) (replicate (n - ?k) 0))"
    using W by (intro SkipBits_zb) (auto simp: length_pack)
  with W(1) show ?thesis by (simp add: seq_def bnd_def)
qed

section \<open>Reading\<close>

text \<open>A buffer inside the fields of a parameter: the fields that were read, and those to come.\<close>

definition fz :: "bytes \<Rightarrow> (u8 \<times> nat) list \<Rightarrow> (u8 \<times> nat) list \<Rightarrow> bytes \<Rightarrow> SmsReadBuffer" where
  "fz p done todo rest =
     \<lparr>buf_data = Some (rev p @ pack (done @ todo) @ rest), buf_index = length p + widths done div 8,
      buf_length = length p + length (pack (done @ todo)) + length rest, buf_bitIndex = widths done mod 8\<rparr>"

definition fits :: "bytes \<Rightarrow> (u8 \<times> nat) list \<Rightarrow> bytes \<Rightarrow> bool" where
  "fits p fs rest \<longleftrightarrow> (\<forall>f \<in> set fs. field_ok f) \<and> length p + length (pack fs) + length rest \<le> 256"

lemma fz_start: "zb p (pack fs @ rest) = fz p [] fs rest"
  by (simp add: zb_def fz_def)

lemma widths_le_pack: "widths done \<le> 8 * length (pack (done @ todo))"
  unfolding length_pack by simp

lemma div_below: "0 < w mod 8 \<Longrightarrow> w \<le> 8 * n \<Longrightarrow> w div 8 < (n :: nat)"
  using mult_div_mod_eq [of 8 w] by linarith

lemma wf_fz:
  assumes "length p + length (pack (done @ todo)) + length rest \<le> 256"
  shows "wf_pdu (fz p done todo rest)"
proof -
  have w: "widths done \<le> 8 * length (pack (done @ todo))" by (rule widths_le_pack)
  then have "widths done div 8 \<le> length (pack (done @ todo))" by simp
  moreover have "widths done div 8 < length (pack (done @ todo))" if "0 < widths done mod 8"
    by (rule div_below [OF that w])
  ultimately show ?thesis using assms by (auto simp: wf_pdu_def fz_def)
qed

lemma bitpos_fz: "bitpos (fz p done todo rest) = 8 * length p + widths done"
  by (simp add: bitpos_def fz_def)

lemma stream_bit_fz:
  assumes "i < widths (done @ todo)"
  shows "stream_bit (rev p @ pack (done @ todo) @ rest) (8 * length p + i) = fbits (done @ todo) ! i"
proof -
  have "i < 8 * length (pack (done @ todo))" using assms widths_le_pack [of "done @ todo" "[]"] by simp
  then show ?thesis using assms stream_bit_octets_of [of i "fbits (done @ todo)"] by (simp add: stream_bit_append pack_def)
qed

lemma pdu_eqI:
  assumes "wf_pdu a" "wf_pdu b" "buf_data a = Some d" "buf_data b = Some d" "bitpos a = bitpos b"
  shows "a = b"
proof -
  have "buf_length a = buf_length b" "buf_bitIndex a < 8" "buf_bitIndex b < 8" using assms by (auto simp: wf_pdu_def)
  moreover from this(2,3) assms(5) have "buf_index a = buf_index b" unfolding bitpos_def by linarith
  moreover from this assms(5) have "buf_bitIndex a = buf_bitIndex b" by (simp add: bitpos_def)
  ultimately show ?thesis using assms(3,4) by simp
qed

lemma fbits_append: "fbits (fs @ gs) = fbits fs @ fbits gs"
  by (simp add: fbits_def)

lemma ReadBits_fz:
  assumes "fits p (done @ (v, l) # todo) rest"
  shows "ReadBits l (fz p done ((v, l) # todo) rest) = Ok v (fz p (done @ [(v, l)]) todo rest)"
proof -
  let ?b = "fz p done ((v, l) # todo) rest"
  let ?fs = "done @ (v, l) # todo"
  let ?d = "rev p @ pack ?fs @ rest"
  have fok: "field_ok (v, l)" using assms by (simp add: fits_def)
  then have l: "0 < l" "l \<le> 8" by (simp_all add: field_ok_def)
  have wf: "wf_pdu ?b" using assms by (intro wf_fz) (simp add: fits_def)
  have d: "buf_data ?b = Some ?d" by (simp add: fz_def)
  have room: "bitpos ?b + l \<le> 8 * length ?d" using widths_le_pack [of "done @ [(v, l)]" todo] by (simp add: bitpos_fz)
  from ReadBits_fits [OF wf d l room] obtain w b' where R: "ReadBits l ?b = Ok w b'" "wf_pdu b'" "buf_data b' = Some ?d" "bitpos b' = bitpos ?b + l"
    "\<And>k. bit w k \<longleftrightarrow> k < l \<and> stream_bit ?d (bitpos ?b + (l - 1 - k))" by blast
  have "w = v"
  proof (rule bit_word_eqI)
    fix k
    show "bit w k = bit v k"
    proof (cases "k < l")
      case True
      define j where "j = l - 1 - k"
      have j: "j < l" "l - Suc j = k" using True by (simp_all add: j_def)
      have "stream_bit ?d (8 * length p + (widths done + j)) = fbits ?fs ! (widths done + j)"
        using j by (intro stream_bit_fz) simp
      also have "\<dots> = bit v k" using j by (simp add: fbits_append nth_append)
      finally show ?thesis using True R(5) [of k] by (simp add: bitpos_fz j_def add.assoc)
    qed (use R(5) field_ok_bits [OF fok] in auto)
  qed
  moreover have "b' = fz p (done @ [(v, l)]) todo rest"
    by (rule pdu_eqI [OF R(2) wf_fz R(3)]) (use assms R(4) in \<open>auto simp: fits_def bitpos_fz fz_def bitpos_def\<close>)
  ultimately show ?thesis using R(1) by simp
qed

lemma ReadByte_fz:
  assumes "fits p (done @ (v, 8) # todo) rest"
  shows "ReadByte (fz p done ((v, 8) # todo) rest) = Ok v (fz p (done @ [(v, 8)]) todo rest)"
proof (cases "widths done mod 8 = 0")
  case False
  with ReadBits_fz [OF assms] show ?thesis by (simp add: ReadByte_def fz_def)
next
  case True
  let ?b = "fz p done ((v, 8) # todo) rest"
  from ReadBits_fz [OF assms] True have R: "ReadBits 8 ?b = Ok v (fz p (done @ [(v, 8)]) todo rest)" by simp
  have "buf_bitIndex ?b = 0" "buf_data ?b \<noteq> None" using True by (simp_all add: fz_def)
  then have "ReadByte ?b = ReadBits 8 ?b"
    by (auto simp: ReadByte_def ReadBits_def Let_def)
  with R show ?thesis by simp
qed

lemma SkipBits_fz:
  assumes "fits p fs rest"
  shows "SkipBits (fz p fs [] rest) = Ok (length p + length (pack fs)) (zb (rev (pack fs) @ p) rest)"
proof -
  have "8 * length (pack fs) < widths fs + 8" "widths fs \<le> 8 * length (pack fs)" by (simp_all add: length_pack)
  with SkipBits_zb [of "fz p fs [] rest" "rev (pack fs) @ p" rest] wf_fz [of p fs "[]" rest] assms
  show ?thesis by (simp add: bitpos_fz fits_def) (simp add: fz_def)
qed

section \<open>Loops over an array\<close>

text \<open>A member that is an array: what was put is there, and the last put counts.\<close>

locale array_member =
  fixes get :: "'o \<Rightarrow> 'v list" and put :: "'v list \<Rightarrow> 'o \<Rightarrow> 'o"
  assumes get_put: "get (put xs x) = xs" and put_put: "put xs (put ys x) = put xs x" and put_get: "put (get x) x = x"
begin

lemma store_in_Ok: "i < length (get x) \<Longrightarrow> store_in get put i v (b, x) = Ok () (b, put ((get x)[i := v]) x)"
  by (simp add: store_in_def on_part_def set_at_def)

lemma write_at_Cons: "i < length xs \<Longrightarrow> write_at (Suc i) vs (xs[i := v]) = write_at i (v # vs) xs"
  by (simp add: write_at_def take_Suc_conv_app_nth)

text \<open>\<open>length vs\<close> values of \<open>l\<close> bits are read into the array from position \<open>i\<close> on.\<close>

lemma read_into:
  assumes "fits p (done @ map (\<lambda>v. (v, l)) vs @ todo) rest" "i + length vs \<le> length (get x)"
  shows "each (\<lambda>i. bnd (on_buf (ReadBits l)) (\<lambda>v. store_in get put i (f v))) [i..<i + length vs] (fz p done (map (\<lambda>v. (v, l)) vs @ todo) rest, x) =
    Ok () (fz p (done @ map (\<lambda>v. (v, l)) vs) todo rest, put (write_at i (map f vs) (get x)) x)"
  using assms
proof (induction vs arbitrary: i x "done")
  case Nil
  then show ?case by (simp add: ret_def write_at_def put_get)
next
  case (Cons v vs)
  have read: "ReadBits l (fz p done ((v, l) # map (\<lambda>v. (v, l)) vs @ todo) rest) = Ok v (fz p (done @ [(v, l)]) (map (\<lambda>v. (v, l)) vs @ todo) rest)"
    using Cons.prems(1) by (intro ReadBits_fz) simp
  have "i < length (get x)" using Cons.prems(2) by simp
  note store = store_in_Ok [OF this]
  have "fits p ((done @ [(v, l)]) @ map (\<lambda>v. (v, l)) vs @ todo) rest" using Cons.prems(1) by simp
  from Cons.IH [OF this, of "Suc i" "put ((get x)[i := f v]) x"] Cons.prems(2)
  show ?case by (simp add: upt_conv_Cons seq_def bnd_def on_buf_def read store get_put put_put write_at_Cons del: upt_Suc)
qed

end

section \<open>Parameters\<close>

text \<open>What an encoder appends to a buffer, and what a decoder makes of octets that follow the cursor.\<close>

definition emits :: "enc_param \<Rightarrow> bytes \<Rightarrow> bool" where
  "emits e bs \<longleftrightarrow> (\<forall>p n. length bs \<le> n \<longrightarrow> length p + n \<le> 256 \<longrightarrow> e (wb p n) = Ok () (wb (rev bs @ p) (n - length bs)))"

definition takes :: "'t dec_param \<Rightarrow> bytes \<Rightarrow> 't \<Rightarrow> 't \<Rightarrow> bool" where
  "takes d bs x y \<longleftrightarrow> (\<forall>p rest. length p + length bs + length rest \<le> 256 \<longrightarrow> d (zb p (bs @ rest), x) = Ok () (zb (rev bs @ p) rest, y))"

definition tlv :: "u8 \<Rightarrow> bytes \<Rightarrow> bytes" where
  "tlv ident bs = ident # word_of_nat (length bs) # bs"

lemma length_tlv [simp]: "length (tlv ident bs) = length bs + 2"
  by (simp add: tlv_def)

text \<open>
  The interface of a parameter with an encoder and a decoder: \<open>octets v\<close> is how \<open>v\<close> looks on the air, and \<open>fill v\<close> what decoding it does to a
  struct that meets \<open>pre\<close>.
\<close>

locale cdma_param =
  fixes enc :: "'v \<Rightarrow> enc_param" and dec :: "'t dec_param" and ok :: "'v \<Rightarrow> bool" and pre :: "'v \<Rightarrow> 't \<Rightarrow> bool" and octets :: "'v \<Rightarrow> bytes"
    and fill :: "'v \<Rightarrow> 't \<Rightarrow> 't"
  assumes enc_emits: "ok v \<Longrightarrow> emits (enc v) (octets v)" and dec_takes: "ok v \<Longrightarrow> pre v x \<Longrightarrow> takes dec (octets v) x (fill v x)"
begin

lemma round_trip:
  assumes "ok v" "pre v x" "length (octets v) \<le> n" "length p + n \<le> 256"
  shows "enc v (wb p n) = Ok () (wb (rev (octets v) @ p) (n - length (octets v)))"
    "dec (zb p (octets v @ replicate (n - length (octets v)) 0), x) = Ok () (wb (rev (octets v) @ p) (n - length (octets v)), fill v x)"
  using enc_emits [OF assms(1)] dec_takes [OF assms(1,2)] assms(3,4) by (simp_all add: emits_def takes_def)

end

lemma seq_assoc: "seq (seq a b) c = seq a (seq b c)"
  by (simp add: seq_def bnd_assoc)

lemma seq_ret: "seq (ret x) m = m"
  by (rule ext) (simp add: seq_def bnd_def ret_def)

lemma seq_unit: "seq m (ret ()) = m"
  by (rule ext) (auto simp: seq_def bnd_def ret_def split: outcome.splits)

lemma bnd_fresh: "m a = Ok x t \<Longrightarrow> bnd (with_new a m) k = k (x, t)"
  by (rule ext) (simp add: bnd_def with_new_def)

lemma nonempty_zb: "nonempty m (zb p xs) = m (zb p xs)"
  by (simp add: nonempty_def IsEmpty_def op_simps)

lemma IsInvalidPdu_zb: "IsInvalidPdu ident (zb p (ident # len # xs)) = Ok len (zb (len # ident # p) xs)"
  by (simp add: IsInvalidPdu_def nonempty_zb op_simps zb_simps)

lemma wb_Suc: "0 < n \<Longrightarrow> wb p n = zb p (0 # replicate (n - 1) 0)"
  by (cases n) simp_all

lemma WriteByte_wb: "0 < n \<Longrightarrow> WriteByte v (wb p n) = Ok () (wb (v # p) (n - 1))"
  by (simp add: wb_Suc WriteByte_zb)

lemma MoveForward_wb: "0 < n \<Longrightarrow> MoveForward (Suc 0) (wb p n) = Ok (length p) (wb (0 # p) (n - 1))"
  by (simp add: wb_Suc MoveForward1_zb)

lemma len_word: "word_of_nat (length p + 2 + k) - word_of_nat (Suc (length p)) - 1 = (word_of_nat k :: u8)"
  by (simp add: algebra_simps)

lemma emits_tlv_length:
  assumes "\<forall>f \<in> set fs. field_ok f"
  shows "emits (tlv_length ident (WriteFields fs)) (tlv ident (pack fs))"
  unfolding emits_def
proof (intro allI impI)
  fix p :: bytes and n
  let ?k = "length (pack fs)"
  assume n: "length (tlv ident (pack fs)) \<le> n" "length p + n \<le> 256"
  have W: "seq (WriteFields fs) SkipBits (wb (0 # ident # p) (n - 2)) =
      Ok (length p + 2 + ?k) (wb (rev (pack fs) @ 0 # ident # p) (n - 2 - ?k))"
    using WriteFields_zb [OF assms, of "n - 2" "0 # ident # p"] n by simp
  have I: "InsertByte v (Suc (length p)) (wb (rev (pack fs) @ 0 # ident # p) m) = Ok () (wb (rev (pack fs) @ v # ident # p) m)" for v m
    using InsertByte_zb [of v "ident # p" "rev (pack fs)" 0] by simp
  from W show "tlv_length ident (WriteFields fs) (wb p n) = Ok () (wb (rev (tlv ident (pack fs)) @ p) (n - length (tlv ident (pack fs))))"
    using n
    by (auto simp: tlv_length_def nonempty_zb seq_def bnd_def WriteByte_wb MoveForward_wb I tlv_def numeral_2_eq_2
        split: outcome.splits)
qed

lemma emits_fixed_length:
  assumes "\<forall>f \<in> set fs. field_ok f"
  shows "emits (nonempty (seq (WriteByte ident) (seq (WriteByte (word_of_nat (length (pack fs)))) (seq (WriteFields fs) (ignore SkipBits)))))
    (tlv ident (pack fs))"
  unfolding emits_def
proof (intro allI impI)
  fix p :: bytes and n
  let ?len = "word_of_nat (length (pack fs)) :: u8"
  assume n: "length (tlv ident (pack fs)) \<le> n" "length p + n \<le> 256"
  have W: "seq (WriteFields fs) SkipBits (wb (?len # ident # p) (n - 2)) =
      Ok (length p + 2 + length (pack fs)) (wb (rev (pack fs) @ ?len # ident # p) (n - 2 - length (pack fs)))"
    using WriteFields_zb [OF assms, of "n - 2" "?len # ident # p"] n by simp
  then have "seq (WriteFields fs) (ignore SkipBits) (wb (?len # ident # p) (n - 2)) =
      Ok () (wb (rev (pack fs) @ ?len # ident # p) (n - 2 - length (pack fs)))"
    by (auto simp: seq_def bnd_def ignore_def split: outcome.splits)
  then show "nonempty (seq (WriteByte ident) (seq (WriteByte ?len) (seq (WriteFields fs) (ignore SkipBits)))) (wb p n) =
      Ok () (wb (rev (tlv ident (pack fs)) @ p) (n - length (tlv ident (pack fs))))"
    using n by (simp add: nonempty_zb seq_Ok WriteByte_wb tlv_def numeral_2_eq_2)
qed

text \<open>A decoder in the middle of the fields of a parameter: \<open>done\<close> were read, and it goes on to the end of \<open>todo\<close>.\<close>

definition runs :: "'t dec_param \<Rightarrow> (u8 \<times> nat) list \<Rightarrow> (u8 \<times> nat) list \<Rightarrow> 't \<Rightarrow> 't \<Rightarrow> bool" where
  "runs k done todo x y \<longleftrightarrow>
     (\<forall>p rest. fits p (done @ todo) rest \<longrightarrow> k (fz p done todo rest, x) = Ok () (zb (rev (pack (done @ todo)) @ p) rest, y))"

lemma runs_bits: "runs (k v) (done @ [(v, l)]) todo x y \<Longrightarrow> runs (bnd (on_buf (ReadBits l)) k) done ((v, l) # todo) x y"
  by (simp add: runs_def bnd_def on_buf_def ReadBits_fz)

lemma runs_out: "runs k done todo (f x) y \<Longrightarrow> runs (seq (on_out f) k) done todo x y"
  by (simp add: runs_def seq_def bnd_def on_out_def)

lemma runs_ret: "runs k done todo x y \<Longrightarrow> runs (seq (ret v) k) done todo x y"
  by (simp add: runs_def seq_def bnd_def ret_def)

lemma runs_get: "runs (k x) done todo x y \<Longrightarrow> runs (bnd get_out k) done todo x y"
  by (simp add: runs_def bnd_def get_out_def)

lemma runs_skip: "runs (on_buf (ignore SkipBits)) done [] x x" "runs (seq (on_buf (ignore SkipBits)) (on_out f)) done [] x (f x)"
  by (simp_all add: runs_def seq_def bnd_def on_buf_def on_out_def ignore_def SkipBits_fz)

lemma runs_skip_eq: "x = y \<Longrightarrow> runs (on_buf (ignore SkipBits)) done [] x y"
  by (simp add: runs_skip)

lemma ret_bnd: "bnd (ret x) k = k x"
  by (rule ext) (simp add: bnd_def ret_def)

lemma runs_seq_bits: "runs k (done @ [(v, l)]) todo x y \<Longrightarrow> runs (seq (on_buf (ReadBits l)) k) done ((v, l) # todo) x y"
  unfolding seq_def by (rule runs_bits)

lemma bnd_seq: "bnd (seq a b) k = seq a (bnd b k)"
  by (simp add: seq_def bnd_assoc)

lemma seq_bnd: "seq (bnd a f) b = bnd a (\<lambda>v. seq (f v) b)"
  by (simp add: seq_def bnd_assoc)

lemmas runs_intros = runs_bits runs_out runs_ret runs_skip

lemma takes_tlv:
  assumes "\<forall>f \<in> set fs. field_ok f" "runs k [] fs x y"
  shows "takes (seq (on_buf (IsInvalidPdu ident)) k) (tlv ident (pack fs)) x y"
  unfolding takes_def
proof (intro allI impI)
  fix p rest :: bytes
  let ?len = "word_of_nat (length (pack fs)) :: u8"
  assume "length p + length (tlv ident (pack fs)) + length rest \<le> 256"
  then have "fits (?len # ident # p) fs rest" using assms(1) by (simp add: fits_def)
  with assms(2) have "k (fz (?len # ident # p) [] fs rest, x) = Ok () (zb (rev (pack fs) @ ?len # ident # p) rest, y)"
    by (simp add: runs_def)
  then show "seq (on_buf (IsInvalidPdu ident)) k (zb p (tlv ident (pack fs) @ rest), x) = Ok () (zb (rev (tlv ident (pack fs)) @ p) rest, y)"
    by (simp add: tlv_def seq_def bnd_def on_buf_def IsInvalidPdu_zb fz_start)
qed

lemma takes_zoom: "takes d bs (get x) y \<Longrightarrow> takes (zoom get put d) bs x (put y x)"
  by (simp add: takes_def zoom_def)

end
