(* ===== verification/Cdma_Param_Layout.thy ===== *)
theory Cdma_Param_Layout
  imports Cdma_Fields
begin

text \<open>
  The parameters of the CDMA codec as instances of \<open>cdma_param\<close>: what each encoder emits, its decoder takes back.
\<close>

section \<open>Indicators\<close>

lemmas fz_simps = ReadBits_fz ReadByte_fz SkipBits_fz

abbreviation below :: "nat \<Rightarrow> u8 \<Rightarrow> bool" where
  "below l v \<equiv> unat v < 2 ^ l"

lemma field_ok_flag [simp]: "field_ok (flag b, Suc 0)" "field_ok (flag b, 1)" "flag b = 1 \<longleftrightarrow> b"
  by (simp_all add: field_ok_def flag_def)

lemma field_ok_octet [simp]: "field_ok (v, 8)"
  using unat_u8_less [of v] by (simp add: field_ok_def)

lemma emits_two_bit:
  assumes "below 2 v"
  shows "emits (two_bit_encode ident v) (tlv ident (pack [(v, 2)]))"
  using emits_fixed_length [of "[(v, 2)]" ident] assms
  by (simp add: two_bit_encode_def field_ok_def length_pack seq_assoc seq_ret)

lemma takes_two_bit:
  assumes "below 2 v"
  shows "takes (two_bit_decode ident) (tlv ident (pack [(v, 2)])) x v"
  unfolding two_bit_decode_def
  by (rule takes_tlv) (use assms in \<open>simp_all add: field_ok_def runs_def fits_def op_simps fz_simps\<close>)

interpretation two_bit: cdma_param "two_bit_encode ident" "two_bit_decode ident" "below 2" "\<lambda>_ _. True" "\<lambda>v. tlv ident (pack [(v, 2)])" "\<lambda>v _. v" for ident
  by unfold_locales (auto intro: emits_two_bit takes_two_bit)

definition reply_fields :: "SmsReplyOption \<Rightarrow> (u8 \<times> nat) list" where
  "reply_fields r = [(flag (ro_userAck r), 1), (flag (ro_dak r), 1), (flag (ro_readAck r), 1), (flag (ro_report r), 1)]"

interpretation reply_option: cdma_param CdmaSmsReplyOption_Encode CdmaSmsReplyOption_Decode "\<lambda>_. True" "\<lambda>_ _. True" "\<lambda>r. tlv REPLY_OPTION (pack (reply_fields r))"
  "\<lambda>r _. r"
proof
  fix r x
  show "emits (CdmaSmsReplyOption_Encode r) (tlv REPLY_OPTION (pack (reply_fields r)))"
    using emits_fixed_length [of "reply_fields r" REPLY_OPTION]
    by (simp add: CdmaSmsReplyOption_Encode_def reply_fields_def length_pack seq_assoc seq_ret)
  show "takes CdmaSmsReplyOption_Decode (tlv REPLY_OPTION (pack (reply_fields r))) x r"
    unfolding CdmaSmsReplyOption_Decode_def
    by (rule takes_tlv) (simp_all add: reply_fields_def runs_def fits_def op_simps fz_simps)
qed

section \<open>Message identifier\<close>

definition msg_id_fields :: "u8 \<Rightarrow> SmsTeleSvcMsgId \<Rightarrow> (u8 \<times> nat) list" where
  "msg_id_fields ty m = [(ty, 4), (ucast (drop_bit 8 (mi_msgId m)), 8), (ucast (mi_msgId m), 8), (flag (mi_headerInd m), 1)]"

lemma word_halves: "push_bit 8 (ucast (ucast (drop_bit 8 w) :: u8)) OR ucast (ucast w :: u8) = (w :: u16)"
  by (rule bit_word_eqI) (auto simp: bit_simps)

lemma takes_message_id:
  assumes "below 4 ty"
  shows "takes (seq CdmaSmsMessageId_Decode (ret ())) (tlv MESSAGE_IDENTIFIER (pack (msg_id_fields ty m))) x m"
  unfolding CdmaSmsMessageId_Decode_def seq_assoc
  by (rule takes_tlv)
    (use assms in \<open>simp_all add: msg_id_fields_def field_ok_def [of "(ty, 4)"] runs_def fits_def op_simps fz_simps word_halves\<close>)

interpretation message_id: cdma_param "CdmaSmsMessageId_Encode ty" "seq CdmaSmsMessageId_Decode (ret ())" "\<lambda>_. below 4 ty" "\<lambda>_ _. True"
  "\<lambda>m. tlv MESSAGE_IDENTIFIER (pack (msg_id_fields ty m))" "\<lambda>m _. m" for ty
proof
  fix m
  assume ty: "below 4 ty"
  then show "emits (CdmaSmsMessageId_Encode ty m) (tlv MESSAGE_IDENTIFIER (pack (msg_id_fields ty m)))"
    using emits_fixed_length [of "msg_id_fields ty m" MESSAGE_IDENTIFIER]
    by (simp add: CdmaSmsMessageId_Encode_def length_pack field_ok_def [of "(ty, 4)"] msg_id_fields_def seq_assoc seq_ret)
qed (rule takes_message_id)

section \<open>Octets and words\<close>

lemma WriteWord_wb: "2 \<le> n \<Longrightarrow> WriteWord v (wb p n) = Ok () (wb (ucast v # ucast (drop_bit 8 v) # p) (n - 2))"
proof -
  assume n: "2 \<le> n"
  have masks: "0x00FF = (mask 8 :: u16)" "0xFF00 = (push_bit 8 (mask 8) :: u16)"
    by (simp_all add: mask_eq_exp_minus_1 push_bit_eq_mult)
  have "drop_bit 8 (0xFF00 AND v) = drop_bit 8 v"
    unfolding masks by (rule bit_word_eqI) (auto simp: bit_simps dest: bit_imp_le_length)
  moreover have "ucast (0x00FF AND v) = (ucast v :: u8)"
    unfolding masks by (rule bit_word_eqI) (auto simp: bit_simps)
  moreover obtain m where "n = Suc (Suc m)" using n by (metis add_2_eq_Suc le_Suc_ex)
  ultimately show ?thesis
    by (simp add: WriteWord_def zb_def list_update_append nth_append)
qed

lemma ReadWord_zb: "ReadWord (zb p (a # b # xs)) = Ok (push_bit 8 (ucast a) OR ucast b) (zb (b # a # p) xs)"
  by (simp add: ReadWord_def zb_def nth_append)

definition word_octets :: "u16 \<Rightarrow> bytes" where
  "word_octets v = [ucast (drop_bit 8 v), ucast v]"

lemma emits_word: "emits (nonempty (seq (WriteByte ident) (seq (WriteByte 2) (WriteWord v)))) (tlv ident (word_octets v))"
  by (simp add: emits_def tlv_def word_octets_def nonempty_zb seq_Ok WriteByte_wb WriteWord_wb numeral_2_eq_2)

lemma takes_word: "takes (seq (on_buf (IsInvalidPdu ident)) (bnd (on_buf ReadWord) (\<lambda>v. on_out (\<lambda>_. v)))) (tlv ident (word_octets v)) x v"
  by (simp add: takes_def tlv_def word_octets_def seq_def op_simps IsInvalidPdu_zb ReadWord_zb word_halves)

interpretation deposit_index: cdma_param CdmaSmsDepositIndex_Encode CdmaSmsDepositIndex_Decode "\<lambda>_. True" "\<lambda>_ _. True"
  "\<lambda>v. tlv MESSAGE_DEPOSIT_INDEX (word_octets v)" "\<lambda>v _. v"
  unfolding CdmaSmsDepositIndex_Encode_def CdmaSmsDepositIndex_Decode_def by unfold_locales (rule emits_word takes_word)+

interpretation teleservice_id: cdma_param CdmaSmsTeleserviceId_Encode CdmaSmsTeleserviceId_Decode "\<lambda>_. True" "\<lambda>_ _. True" "\<lambda>v. tlv TELESERVICE_ID (word_octets v)" "\<lambda>v _. v"
  unfolding CdmaSmsTeleserviceId_Encode_def CdmaSmsTeleserviceId_Decode_def by unfold_locales (rule emits_word takes_word)+

interpretation service_category: cdma_param CdmaSmsServiceCategory_Encode CdmaSmsServiceCategory_Decode "\<lambda>_. True" "\<lambda>_ _. True"
  "\<lambda>v. tlv SERVICE_CATEGORY (word_octets v)" "\<lambda>v _. v"
  unfolding CdmaSmsServiceCategory_Encode_def CdmaSmsServiceCategory_Decode_def by unfold_locales (rule emits_word takes_word)+

lemma emits_octet: "emits (nonempty (seq (WriteByte ident) (seq (WriteByte 1) (WriteByte v)))) (tlv ident [v])"
  by (simp add: emits_def tlv_def nonempty_zb seq_Ok WriteByte_wb numeral_2_eq_2)

lemma takes_octet: "takes (seq (on_buf (IsInvalidPdu ident)) (bnd (on_buf ReadByte) (\<lambda>v. on_out (\<lambda>_. v)))) (tlv ident [v]) x v"
  by (simp add: takes_def tlv_def seq_def op_simps IsInvalidPdu_zb ReadByte_zb)

interpretation base_param: cdma_param "CdmaSmsBaseParameter_Encode ident" "CdmaSmsBaseParameter_Decode ident" "\<lambda>_. True" "\<lambda>_ _. True" "\<lambda>v. tlv ident [v]" "\<lambda>v _. v"
  for ident
  unfolding CdmaSmsBaseParameter_Encode_def CdmaSmsBaseParameter_Decode_def by unfold_locales (rule emits_octet takes_octet)+

interpretation language_ind: cdma_param CdmaSmsLanguageInd_Encode CdmaSmsLanguageInd_Decode "\<lambda>_. True" "\<lambda>_ _. True" "\<lambda>v. tlv LANGUAGE_INDICATOR [v]" "\<lambda>v _. v"
  unfolding CdmaSmsLanguageInd_Encode_def CdmaSmsLanguageInd_Decode_def by unfold_locales (rule emits_octet takes_octet)+

text \<open>A time stamp in semi-octets, whose members are below 100; the time zone has no place in it.\<close>

lemma BCD_round_trip: "unat v < 100 \<Longrightarrow> DecodeBCD (EncodeBCD v) = v"
proof -
  have all: "list_all (\<lambda>n. DecodeBCD (EncodeBCD (word_of_nat n)) = word_of_nat n) [0..<100]"
    by code_simp
  assume "unat v < 100"
  then have "unat v \<in> set [0..<100]" by simp
  with all have "DecodeBCD (EncodeBCD (word_of_nat (unat v))) = word_of_nat (unat v)" unfolding list_all_iff by blast
  then show ?thesis by simp
qed

definition bcd_time_ok :: "SmsTimeAbs \<Rightarrow> bool" where
  "bcd_time_ok t \<longleftrightarrow> (\<forall>v \<in> {ta_year t, ta_month t, ta_day t, ta_hour t, ta_minute t, ta_second t}. unat v < 100)"

definition bcd_time :: "SmsTimeAbs \<Rightarrow> bytes" where
  "bcd_time t = map EncodeBCD [ta_year t, ta_month t, ta_day t, ta_hour t, ta_minute t, ta_second t]"

interpretation absolute_time: cdma_param "CdmaSmsAbsoluteTime_Encode ident" "CdmaSmsAbsoluteTime_Decode ident" bcd_time_ok "\<lambda>_ _. True"
  "\<lambda>t. tlv ident (bcd_time t)" "\<lambda>t x. t\<lparr>ta_timeZone := ta_timeZone x\<rparr>" for ident
proof
  fix t x
  assume t: "bcd_time_ok t"
  show "emits (CdmaSmsAbsoluteTime_Encode ident t) (tlv ident (bcd_time t))"
    by (simp add: emits_def tlv_def bcd_time_def CdmaSmsAbsoluteTime_Encode_def nonempty_zb seq_Ok WriteByte_wb numeral_eq_Suc)
  show "takes (CdmaSmsAbsoluteTime_Decode ident) (tlv ident (bcd_time t)) x (t\<lparr>ta_timeZone := ta_timeZone x\<rparr>)"
    using t by (simp add: takes_def tlv_def bcd_time_def CdmaSmsAbsoluteTime_Decode_def bcd_time_ok_def seq_def op_simps IsInvalidPdu_zb ReadByte_zb
        BCD_round_trip)
qed

section \<open>Addresses\<close>

text \<open>The characters of a number in DTMF.\<close>

definition dtmf_char :: "u8 \<Rightarrow> bool" where
  "dtmf_char c \<longleftrightarrow> 0x30 \<le> c \<and> c \<le> 0x39 \<or> c = 0x2A \<or> c = 0x23"

lemma dtmf_round_trip: "dtmf_char c \<Longrightarrow> DtmfCharToDigit (DigitToDtmfChar c) = c \<and> field_ok (DigitToDtmfChar c, 4)"
proof -
  let ?P = "\<lambda>c. DtmfCharToDigit (DigitToDtmfChar c) = c \<and> unat (DigitToDtmfChar c) < 16"
  have digits: "list_all (\<lambda>n. ?P (0x30 + word_of_nat n)) [0..<10]" by code_simp
  have marks: "?P 0x2A" "?P 0x23" by code_simp+
  have "?P c" if c: "0x30 \<le> c" "c \<le> 0x39"
  proof -
    have "unat (c - 0x30) \<in> set [0..<10]" using c by (simp add: word_le_nat_alt unat_sub)
    with digits have "?P (0x30 + word_of_nat (unat (c - 0x30)))" unfolding list_all_iff by blast
    then show ?thesis by simp
  qed
  with marks show "dtmf_char c \<Longrightarrow> DtmfCharToDigit (DigitToDtmfChar c) = c \<and> field_ok (DigitToDtmfChar c, 4)"
    by (auto simp: dtmf_char_def field_ok_def)
qed

text \<open>A loop that writes the characters of an array one by one.\<close>

lemma write_chars:
  assumes "n \<le> length xs"
  shows "each (\<lambda>i. bnd (rd_at xs i) (\<lambda>c. WriteBits (f c) l)) [0..<n] = WriteFields (map (\<lambda>c. (f c, l)) (take n xs))"
  using assms
proof (induction n)
  case (Suc n)
  have "each g (ys @ zs) = seq (each g ys) (each g zs)" for g :: "nat \<Rightarrow> enc_param" and ys zs
    by (induction ys) (simp_all add: seq_ret seq_assoc)
  moreover have "bnd (rd_at xs n) (\<lambda>c. WriteBits (f c) l) = WriteBits (f (xs ! n)) l"
    using Suc.prems by (intro ext) (simp add: rd_at_def bnd_def ret_def)
  ultimately show ?case using Suc by (simp add: take_Suc_conv_app_nth WriteFields_append seq_unit)
qed simp


lemma write_at_zeros: "length vs \<le> n \<Longrightarrow> write_at 0 vs (replicate n 0) = vs @ replicate (n - length vs) 0"
  by (simp add: write_at_def)

text \<open>An array of characters, and the fields they are sent as: octets, or DTMF digits of four bits.\<close>

definition padded :: "nat \<Rightarrow> bytes \<Rightarrow> bytes" where
  "padded n s = s @ replicate (n - length s) 0"

lemma take_padded [simp]: "take (length s) (padded n s) = s" "length s \<le> n \<Longrightarrow> length (padded n s) = n"
  by (simp_all add: padded_def)

abbreviation chars8 :: "bytes \<Rightarrow> (u8 \<times> nat) list" where
  "chars8 s \<equiv> map (\<lambda>c. (c, 8)) s"

abbreviation chars4 :: "bytes \<Rightarrow> (u8 \<times> nat) list" where
  "chars4 s \<equiv> map (\<lambda>c. (DigitToDtmfChar c, 4)) s"

definition digit_fields :: "bool \<Rightarrow> bytes \<Rightarrow> (u8 \<times> nat) list" where
  "digit_fields digitMode s = (if digitMode then chars8 s else chars4 s)"

definition digits_ok :: "bool \<Rightarrow> bytes \<Rightarrow> bool" where
  "digits_ok digitMode s \<longleftrightarrow> length s < 256 \<and> (digitMode \<or> list_all dtmf_char s)"

lemma number_fields_ok: "digits_ok digitMode s \<Longrightarrow> \<forall>f \<in> set (digit_fields digitMode s). field_ok f"
  using dtmf_round_trip by (auto simp: digits_ok_def digit_fields_def list_all_iff)

lemma unat_length: "length s < 256 \<Longrightarrow> unat (word_of_nat (length s) :: u8) = length s" "length s < 256 \<Longrightarrow> unat (word_of_nat (length s) :: u32) = length s"
  "length s < 256 \<Longrightarrow> ucast (word_of_nat (length s) :: u32) = (word_of_nat (length s) :: u8)" "length s < 256 \<Longrightarrow> ucast (word_of_nat (length s) :: u8) = (word_of_nat (length s) :: u32)"
  by (simp_all add: unat_of_nat take_bit_nat_eq_self unsigned_of_nat)

text \<open>The loop that writes a number, as fields.\<close>

lemma write_number:
  assumes "length s < 256" "length s \<le> n"
  shows "each (\<lambda>i. bnd (rd_at (padded n s) i) (\<lambda>c. if digitMode then WriteBits c 8 else WriteBits (DigitToDtmfChar c) 4)) (u8_for (length s)) =
    WriteFields (digit_fields digitMode s)"
  using assms write_chars [of "length s" "padded n s" "\<lambda>c. c" 8] write_chars [of "length s" "padded n s" DigitToDtmfChar 4]
  by (simp add: u8_for_def digit_fields_def)

text \<open>The loop that reads a number into an array.\<close>

locale number_member = array_member get put for get :: "'o \<Rightarrow> bytes" and put :: "bytes \<Rightarrow> 'o \<Rightarrow> 'o"
begin

lemma read_number:
  assumes "fits p (done @ digit_fields digitMode s @ todo) rest" "digits_ok digitMode s" "length s \<le> length (get x)"
  shows "each (\<lambda>i. bnd (on_buf (ReadBits (if digitMode then 8 else 4))) (\<lambda>v. store_in get put i (if digitMode then v else DtmfCharToDigit v))) [0..<length s]
      (fz p done (digit_fields digitMode s @ todo) rest, x) =
    Ok () (fz p (done @ digit_fields digitMode s) todo rest, put (write_at 0 s (get x)) x)"
proof (cases digitMode)
  case True
  with assms read_into [where f = "\<lambda>v. v" and vs = s and i = "0" and l = "8" and todo = todo] show ?thesis by (simp add: digit_fields_def)
next
  case False
  let ?vs = "map DigitToDtmfChar s"
  have again: "map DtmfCharToDigit ?vs = s" using assms(2) False dtmf_round_trip by (auto simp: digits_ok_def list_all_iff intro!: map_idI)
  have "chars4 s = map (\<lambda>v. (v, 4)) ?vs" by simp
  with assms read_into [where f = DtmfCharToDigit and vs = ?vs and i = "0" and l = "4" and todo = todo] again show ?thesis
    by (simp add: digit_fields_def False del: map_map)
qed

lemma runs_number:
  assumes "runs k (done @ digit_fields digitMode s) todo (put (write_at 0 s (get x)) x) y" "digits_ok digitMode s" "length s \<le> length (get x)"
  shows "runs (seq (each (\<lambda>i. bnd (on_buf (ReadBits (if digitMode then 8 else 4)))
      (\<lambda>v. store_in get put i (if digitMode then v else DtmfCharToDigit v))) [0..<length s]) k) done (digit_fields digitMode s @ todo) x y"
  using assms by (simp add: runs_def seq_def bnd_def read_number)

lemma runs_octets:
  assumes "runs k (done @ digit_fields True s) [] (put (write_at 0 s (get x)) x) y" "digits_ok True s" "length s \<le> length (get x)"
  shows "runs (seq (each (\<lambda>i. bnd (on_buf (ReadBits 8)) (\<lambda>v. store_in get put i v)) [0..<length s]) k) done (digit_fields True s) x y"
  using runs_number [where digitMode = True and todo = "[]"] assms by simp

lemma runs_digits:
  assumes "runs k (done @ digit_fields False s) [] (put (write_at 0 s (get x)) x) y" "digits_ok False s" "length s \<le> length (get x)"
  shows "runs (seq (each (\<lambda>i. bnd (on_buf (ReadBits 4)) (\<lambda>v. store_in get put i (DtmfCharToDigit v))) [0..<length s]) k) done (digit_fields False s) x y"
  using runs_number [where digitMode = False and todo = "[]"] assms by simp

end

interpretation trans_chars: number_member tra_szData "\<lambda>xs a. a\<lparr>tra_szData := xs\<rparr>"
  by unfold_locales simp_all

interpretation sub_chars: number_member tsa_szData "\<lambda>xs a. a\<lparr>tsa_szData := xs\<rparr>"
  by unfold_locales simp_all

interpretation callback_chars: number_member sa_szData "\<lambda>xs a. a\<lparr>sa_szData := xs\<rparr>"
  by unfold_locales simp_all

interpretation text_chars: number_member "\<lambda>d. ud_data (tu_userData d)" put_ud_text
  by unfold_locales (simp_all add: put_ud_text_def put_package_def)

end
