(* ===== verification/Cdma_Address_Layout.thy ===== *)
theory Cdma_Address_Layout
  imports Cdma_Param_Layout
begin

text \<open>
  The parameters that hold numbers (addresses, subaddresses, callback numbers) and the other records of the transport layer as instances of \<open>cdma_param\<close>.
\<close>

section \<open>Addresses\<close>

definition addr_fields :: "TransportAddr \<Rightarrow> bytes \<Rightarrow> (u8 \<times> nat) list" where
  "addr_fields a s =
     [(flag (tra_digitMode a), 1), (flag (tra_numberMode a), 1)] @
     (if tra_digitMode a then (tra_numberType a, 3) # (if tra_numberMode a then [] else [(tra_numberPlan a, 4)]) else []) @
     (word_of_nat (length s), 8) # digit_fields (tra_digitMode a) s"

definition with_number :: "TransportAddr \<Rightarrow> bytes \<Rightarrow> TransportAddr" where
  "with_number a s = a\<lparr>tra_addrLen := word_of_nat (length s), tra_szData := padded (CDMASMS_ADDRESS_LEN_MAX + 1) s\<rparr>"

definition addr_ok :: "TransportAddr \<times> bytes \<Rightarrow> bool" where
  "addr_ok = (\<lambda>(a, s). digits_ok (tra_digitMode a) s \<and> below 3 (tra_numberType a) \<and> below 4 (tra_numberPlan a))"

text \<open>The type and the plan of the number are sent with some modes only.\<close>

definition sent_addr :: "TransportAddr \<Rightarrow> bytes \<Rightarrow> TransportAddr" where
  "sent_addr a s = (with_number a s)\<lparr>tra_numberType := (if tra_digitMode a then tra_numberType a else 0),
     tra_numberPlan := (if tra_digitMode a \<and> \<not> tra_numberMode a then tra_numberPlan a else 0)\<rparr>"

lemma addr_fields_ok: "addr_ok (a, s) \<Longrightarrow> \<forall>f \<in> set (addr_fields a s). field_ok f"
  using number_fields_ok by (auto simp: addr_ok_def addr_fields_def field_ok_def [of "(_, 3)"] field_ok_def [of "(_, 4)"])

lemma EncodeAddress_fields:
  "length s < 256 \<Longrightarrow> EncodeAddress (with_number a s) = WriteFields ((word_of_nat (length s), 8) # digit_fields (tra_digitMode a) s)"
  using write_number [of s 257 "tra_digitMode a"] by (simp add: EncodeAddress_def with_number_def unat_length CDMASMS_ADDRESS_LEN_MAX_def)

lemma emits_address:
  assumes "addr_ok (a, s)"
  shows "emits (CdmaSmsAddressParameter_Encode DEST_ADDRESS (with_number a s)) (tlv DEST_ADDRESS (pack (addr_fields a s)))"
proof -
  have "length s < 256" using assms by (simp add: addr_ok_def digits_ok_def)
  from EncodeAddress_fields [OF this, of a] emits_tlv_length [OF addr_fields_ok [OF assms], of DEST_ADDRESS] show ?thesis
    by (cases "tra_digitMode a"; cases "tra_numberMode a")
      (simp_all add: CdmaSmsAddressParameter_Encode_def addr_fields_def with_number_def seq_assoc seq_ret)
qed

lemma runs_DecodeAddress:
  assumes "runs k (done @ (word_of_nat (length s), 8) # digit_fields digitMode s) []
      (x\<lparr>tra_addrLen := word_of_nat (length s), tra_szData := write_at 0 s (tra_szData x)\<rparr>) y"
    "digits_ok digitMode s" "length (tra_szData x) = 257"
  shows "runs (seq (DecodeAddress digitMode) k) done ((word_of_nat (length s), 8) # digit_fields digitMode s) x y"
proof -
  have "length s < 256" using assms(2) by (simp add: digits_ok_def)
  note s = this unat_length [OF this]
  show ?thesis
    unfolding DecodeAddress_def seq_bnd
    apply (rule runs_bits)
    using assms s trans_chars.runs_number [where todo = "[]" and s = s and k = k and x = "x\<lparr>tra_addrLen := word_of_nat (length s)\<rparr>"]
    by (simp add: CDMASMS_ADDRESS_LEN_MAX_def seq_assoc runs_out)
qed

lemma runs_address_end:
  assumes "digits_ok digitMode s" "length (tra_szData x) = 257"
    "y = x\<lparr>tra_addrLen := word_of_nat (length s), tra_szData := write_at 0 s (tra_szData x)\<rparr>"
  shows "runs (seq (DecodeAddress digitMode) (on_buf (ignore SkipBits))) done ((word_of_nat (length s), 8) # digit_fields digitMode s) x y"
  using assms by (intro runs_DecodeAddress) (simp_all add: runs_skip)

lemma takes_address:
  assumes "addr_ok (a, s)"
  shows "takes (CdmaSmsAddressParameter_Decode DEST_ADDRESS) (tlv DEST_ADDRESS (pack (addr_fields a s))) x (sent_addr a s)"
proof -
  have s: "tra_digitMode a \<Longrightarrow> digits_ok True s" "\<not> tra_digitMode a \<Longrightarrow> digits_ok False s" using assms by (auto simp: addr_ok_def)
  from assms have "length s \<le> 257" by (simp add: addr_ok_def digits_ok_def)
  note end_rule = runs_address_end and end_simps = s this sent_addr_def with_number_def zero_trans_addr_def padded_def write_at_zeros CDMASMS_ADDRESS_LEN_MAX_def
  show ?thesis
    unfolding CdmaSmsAddressParameter_Decode_def if_False simp_thms
    by (rule takes_tlv [OF addr_fields_ok [OF assms]], cases "tra_digitMode a"; cases "tra_numberMode a")
      (simp_all add: addr_fields_def, (rule runs_out runs_bits end_rule | simp add: seq_bnd seq_assoc seq_ret | simp add: end_simps)+)
qed

interpretation dest_address: cdma_param "\<lambda>(a, s). CdmaSmsAddressParameter_Encode DEST_ADDRESS (with_number a s)"
  "CdmaSmsAddressParameter_Decode DEST_ADDRESS" addr_ok "\<lambda>_ _. True" "\<lambda>(a, s). tlv DEST_ADDRESS (pack (addr_fields a s))" "\<lambda>(a, s) _. sent_addr a s"
  by unfold_locales (auto intro: emits_address takes_address)

section \<open>Reply options and cause codes\<close>

interpretation bearer_reply: cdma_param CdmaSmsBearerReply_Encode CdmaSmsBearerReply_Decode "below 6" "\<lambda>_ _. True"
  "\<lambda>v. tlv BEARER_REPLY_OPTION (pack [(v, 6)])" "\<lambda>v _. v"
proof
  fix v :: u8 and x
  assume v: "below 6 v"
  then show "emits (CdmaSmsBearerReply_Encode v) (tlv BEARER_REPLY_OPTION (pack [(v, 6)]))"
    using emits_fixed_length [of "[(v, 6)]" BEARER_REPLY_OPTION]
    by (simp add: CdmaSmsBearerReply_Encode_def field_ok_def length_pack seq_assoc seq_ret)
  from v show "takes CdmaSmsBearerReply_Decode (tlv BEARER_REPLY_OPTION (pack [(v, 6)])) x v"
    unfolding CdmaSmsBearerReply_Decode_def
    by (intro takes_tlv runs_bits runs_out) (simp_all add: field_ok_def runs_skip)
qed

definition cause_ok :: "TransportCauseCode \<Rightarrow> bool" where
  "cause_ok c \<longleftrightarrow> below 6 (cc_transReplySeq c) \<and> cc_errorClass c \<in> {ERR_CLASS_NONE, ERR_CLASS_TEMPORARY, ERR_CLASS_PERMANENT}"

definition cause_fields :: "TransportCauseCode \<Rightarrow> (u8 \<times> nat) list" where
  "cause_fields c = [(cc_transReplySeq c, 6), (cc_errorClass c, 2)] @ (if cc_errorClass c \<noteq> ERR_CLASS_NONE then [(cc_causeCode c, 8)] else [])"

interpretation cause_codes: cdma_param CdmaSmsCauseCodes_Encode CdmaSmsCauseCodes_Decode cause_ok "\<lambda>_ _. True"
  "\<lambda>c. tlv CAUSE_CODES (pack (cause_fields c))"
  "\<lambda>c x. c\<lparr>cc_causeCode := (if cc_errorClass c = ERR_CLASS_NONE then cc_causeCode x else cc_causeCode c)\<rparr>"
proof
  fix c :: TransportCauseCode and x
  assume c: "cause_ok c"
  then have ok: "\<forall>f \<in> set (cause_fields c). field_ok f"
    by (auto simp: cause_ok_def cause_fields_def field_ok_def [of "(_, 6)"] field_ok_def [of "(_, 2)"])
  from emits_tlv_length [OF ok, of CAUSE_CODES] show "emits (CdmaSmsCauseCodes_Encode c) (tlv CAUSE_CODES (pack (cause_fields c)))"
    by (simp add: CdmaSmsCauseCodes_Encode_def cause_fields_def seq_assoc seq_ret seq_unit split: if_splits)
  from c show "takes CdmaSmsCauseCodes_Decode (tlv CAUSE_CODES (pack (cause_fields c))) x
      (c\<lparr>cc_causeCode := (if cc_errorClass c = ERR_CLASS_NONE then cc_causeCode x else cc_causeCode c)\<rparr>)"
    unfolding CdmaSmsCauseCodes_Decode_def
    by (intro takes_tlv ok)
      (auto simp: cause_ok_def cause_fields_def seq_bnd intro!: runs_bits runs_out runs_ret runs_get runs_skip_eq TransportCauseCode.equality)
qed


section \<open>Subaddresses and callback numbers\<close>

definition sub_fields :: "TransportSubAddr \<Rightarrow> bytes \<Rightarrow> (u8 \<times> nat) list" where
  "sub_fields a s = (tsa_type a, 3) # (flag (tsa_odd a), 1) # (word_of_nat (length s), 8) # digit_fields True s"

definition with_subaddr :: "TransportSubAddr \<Rightarrow> bytes \<Rightarrow> TransportSubAddr" where
  "with_subaddr a s = a\<lparr>tsa_addrLen := word_of_nat (length s), tsa_szData := padded (CDMASMS_ADDRESS_LEN_MAX + 1) s\<rparr>"

interpretation dest_subaddress: cdma_param "\<lambda>(a, s). CdmaSmsSubaddress_Encode DEST_SUB_ADDRESS (with_subaddr a s)"
  "CdmaSmsSubaddress_Decode DEST_SUB_ADDRESS" "\<lambda>(a, s). tsa_type a \<le> 2 \<and> length s < 256" "\<lambda>_ _. True"
  "\<lambda>(a, s). tlv DEST_SUB_ADDRESS (pack (sub_fields a s))" "\<lambda>(a, s) _. with_subaddr a s"
proof (unfold_locales, unfold split_paired_all prod.case, goal_cases)
  case (1 a s)
  then have ok: "\<forall>f \<in> set (sub_fields a s). field_ok f"
    by (auto simp: sub_fields_def digit_fields_def field_ok_def [of "(_, 3)"] word_le_nat_alt)
  have "length s < 256" using 1 by simp
  with write_number [of s 257 True] emits_tlv_length [OF ok, of DEST_SUB_ADDRESS] show ?case
    by (simp add: CdmaSmsSubaddress_Encode_def with_subaddr_def sub_fields_def unat_length CDMASMS_ADDRESS_LEN_MAX_def)
next
  case (2 a s x)
  then have ok: "\<forall>f \<in> set (sub_fields a s). field_ok f"
    by (auto simp: sub_fields_def digit_fields_def field_ok_def [of "(_, 3)"] word_le_nat_alt)
  have s: "digits_ok True s" "length s \<le> 257" and t: "(if tsa_type a \<le> 1 then tsa_type a else 2) = tsa_type a"
    using 2 by (auto simp: digits_ok_def word_le_nat_alt word_unat_eq_iff)
  note end_simps = s unat_length with_subaddr_def zero_trans_sub_def padded_def write_at_zeros CDMASMS_ADDRESS_LEN_MAX_def
  from 2 show ?case
    unfolding CdmaSmsSubaddress_Decode_def if_False simp_thms
    by (intro takes_tlv [OF ok], unfold sub_fields_def)
      (rule runs_out runs_bits sub_chars.runs_octets runs_skip_eq | simp add: seq_bnd seq_assoc seq_ret t | simp add: end_simps)+
qed

definition callback_fields :: "SmsTeleSvcAddr \<Rightarrow> bytes \<Rightarrow> (u8 \<times> nat) list" where
  "callback_fields a s =
     (flag (sa_digitMode a), 1) # (if sa_digitMode a then [(sa_numberType a, 3), (sa_numberPlan a, 4)] else []) @
     (word_of_nat (length s), 8) # digit_fields (sa_digitMode a) s"

definition with_callback :: "SmsTeleSvcAddr \<Rightarrow> bytes \<Rightarrow> SmsTeleSvcAddr" where
  "with_callback a s = a\<lparr>sa_addrLen := word_of_nat (length s), sa_szData := padded (CDMASMS_ADDRESS_LEN_MAX + 1) s\<rparr>"

definition callback_ok :: "SmsTeleSvcAddr \<times> bytes \<Rightarrow> bool" where
  "callback_ok = (\<lambda>(a, s). digits_ok (sa_digitMode a) s \<and> below 3 (sa_numberType a) \<and> below 4 (sa_numberPlan a))"

text \<open>What is not sent keeps its value, and characters are written over those that were there.\<close>

definition sent_callback :: "SmsTeleSvcAddr \<Rightarrow> bytes \<Rightarrow> SmsTeleSvcAddr \<Rightarrow> SmsTeleSvcAddr" where
  "sent_callback a s x = x\<lparr>sa_digitMode := sa_digitMode a, sa_numberType := (if sa_digitMode a then sa_numberType a else sa_numberType x),
     sa_numberPlan := (if sa_digitMode a then sa_numberPlan a else sa_numberPlan x),
     sa_addrLen := word_of_nat (length s), sa_szData := write_at 0 s (sa_szData x)\<rparr>"

interpretation callback_number: cdma_param "\<lambda>(a, s). CdmaSmsCallbackNumber_Encode (with_callback a s)" CdmaSmsCallbackNumber_Decode callback_ok
  "\<lambda>_ x. length (sa_szData x) = 257" "\<lambda>(a, s). tlv CALLBACK_NUMBER (pack (callback_fields a s))" "\<lambda>(a, s). sent_callback a s"
proof (unfold_locales, unfold split_paired_all prod.case, goal_cases)
  case (1 a s)
  then have ok: "\<forall>f \<in> set (callback_fields a s). field_ok f"
    using number_fields_ok by (auto simp: callback_fields_def callback_ok_def field_ok_def [of "(_, 3)"] field_ok_def [of "(_, 4)"])
  have "length s < 256" using 1 by (simp add: callback_ok_def digits_ok_def)
  with write_number [of s 257 "sa_digitMode a"] emits_tlv_length [OF ok, of CALLBACK_NUMBER] show ?case
    by (cases "sa_digitMode a")
      (simp_all add: CdmaSmsCallbackNumber_Encode_def with_callback_def callback_fields_def unat_length CDMASMS_ADDRESS_LEN_MAX_def)
next
  case (2 a s x)
  then have ok: "\<forall>f \<in> set (callback_fields a s). field_ok f"
    using number_fields_ok by (auto simp: callback_fields_def callback_ok_def field_ok_def [of "(_, 3)"] field_ok_def [of "(_, 4)"])
  have s: "sa_digitMode a \<Longrightarrow> digits_ok True s" "\<not> sa_digitMode a \<Longrightarrow> digits_ok False s" "length s < 256" "\<not> 257 < length s" "length s \<le> 257" using 2 by (auto simp: callback_ok_def digits_ok_def)
  note end_simps = s unat_length [OF s(3)] sent_callback_def CDMASMS_ADDRESS_LEN_MAX_def
  from 2 show ?case
    unfolding CdmaSmsCallbackNumber_Decode_def
    by (intro takes_tlv [OF ok], unfold callback_fields_def, cases "sa_digitMode a")
      (simp_all, (rule runs_out runs_bits callback_chars.runs_octets callback_chars.runs_digits runs_skip_eq
         | simp add: seq_bnd seq_assoc seq_ret end_simps)+)
qed

end
