(* ===== verification/Cdma_User_Data_Layout.thy ===== *)
theory Cdma_User_Data_Layout
  imports Cdma_Address_Layout Gsm_User_Data_Layout
begin

text \<open>
  The user data of a CDMA message as an instance of \<open>cdma_param\<close>: texts in the 7-bit encodings, in UCS-2 and in octets, the first two with user data headers. The
  encoding in the GSM alphabet is not among them: its encoder and its decoder disagree on the bits behind the headers, and the decoder drops characters of long texts.
\<close>

section \<open>Fields\<close>

abbreviation mk_tele_ud :: "u8 \<Rightarrow> u8 \<Rightarrow> SmsUDH list \<Rightarrow> bytes \<Rightarrow> SmsTeleSvcUserData" where
  "mk_tele_ud ty mt hs us \<equiv> \<lparr>tu_encodeType = ty, tu_msgType = mt, tu_userData = mk_ud hs us\<rparr>"

abbreviation udhl :: "SmsUDH list \<Rightarrow> nat" where
  "udhl hs \<equiv> length (header_wire hs)"

text \<open>The septets of the headers with their length, and the fill bits behind them.\<close>

definition hdr_septets :: "nat \<Rightarrow> nat" where
  "hdr_septets k = (k + 1) * 8 div 7 + (if (k + 1) * 8 mod 7 = 0 then 0 else 1)"

definition hdr_fill :: "nat \<Rightarrow> (u8 \<times> nat) list" where
  "hdr_fill k = (if (k + 1) * 8 mod 7 = 0 then [] else [(0, 7 - (k + 1) * 8 mod 7)])"

definition head7 :: "SmsUDH list \<Rightarrow> nat \<Rightarrow> (u8 \<times> nat) list" where
  "head7 hs n = (if hs = [] then [(word_of_nat n, 8)]
     else (word_of_nat (hdr_septets (udhl hs) + n), 8) # (word_of_nat (udhl hs), 8) # chars8 (header_wire hs) @ hdr_fill (udhl hs))"

definition head16 :: "SmsUDH list \<Rightarrow> nat \<Rightarrow> (u8 \<times> nat) list" where
  "head16 hs n = (if hs = [] then [(word_of_nat (n div 2), 8)]
     else (word_of_nat ((udhl hs + n) div 2 + 1), 8) # (word_of_nat (udhl hs), 8) # chars8 (header_wire hs))"

lemma header_octets_short: "length (header_octets h) \<le> 6"
  by (auto simp: header_octets_def be16_def split: UdhUnion.splits)

lemma udhl_bound: "headers_ok hs \<Longrightarrow> udhl hs \<le> 42"
proof -
  have "udhl hs \<le> 6 * length hs" for hs
    using header_octets_short by (induction hs) (auto simp: add_mono)
  from this [of hs] show "headers_ok hs \<Longrightarrow> ?thesis" by (simp add: headers_ok_def MAX_UD_HEADER_NUM_def)
qed

lemma headers_fit: "headers_ok hs \<Longrightarrow> \<not> MAX_UD_HEADER_NUM < length hs"
  by (simp add: headers_ok_def)

lemma udhl_pos: "headers_ok hs \<Longrightarrow> hs \<noteq> [] \<Longrightarrow> 0 < udhl hs"
  using header_wire_nonempty [of hs] by simp

section \<open>Writing\<close>

lemma SmsWriteBuffer_wb: "SmsWriteBuffer = wb [] 256"
  by (simp add: SmsWriteBuffer_def zb_def PDU_BUFFER_MAX_SIZE_def)

lemma encoded_headers:
  assumes "headers_ok hs"
  shows "bnd (with_new SmsWriteBuffer (EncodeHeaders (mk_ud hs us))) k = k ((), wb (rev (header_wire hs)) (256 - udhl hs))"
  apply (rule bnd_fresh)
  using EncodeHeaders_zb [of hs "replicate 256 0" us "[]"] assms udhl_bound [OF assms] by (simp add: SmsWriteBuffer_wb)

lemma each_cong: "(\<And>i. i \<in> set is \<Longrightarrow> f i = g i) \<Longrightarrow> each f is = each g is"
  by (induction "is") simp_all

lemma copy_headers_fields:
  assumes "length ws < 256"
  shows "copy_headers (wb (rev ws) m) (word_of_nat (length ws)) = WriteFields (chars8 ws)"
proof -
  have "bnd (with_new (wb (rev ws) m) (GetValueFromIndex i)) (\<lambda>(v, _). WriteBits v 8) = bnd (rd_at ws i) (\<lambda>c. WriteBits c 8)" if "i < length ws" for i
    using that by (intro ext) (auto simp: bnd_def with_new_def GetValueFromIndex_def zb_def rd_at_def ret_def nth_append)
  then have "copy_headers (wb (rev ws) m) (word_of_nat (length ws)) = each (\<lambda>i. bnd (rd_at ws i) (\<lambda>c. WriteBits c 8)) [0..<length ws]"
    unfolding copy_headers_def unat_length(1) [OF assms] by (intro each_cong) simp
  with write_chars [of "length ws" ws "\<lambda>c. c" 8] show ?thesis by simp
qed

lemma write_text_fields: "length us \<le> 161 \<Longrightarrow> write_text l (mk_tele_ud ty mt hs us) = WriteFields (map (\<lambda>c. (c, l)) us)"
  using write_chars [of "length us" "us @ replicate (161 - length us) 0" "\<lambda>c. c" l] by (simp add: write_text_def MAX_USER_DATA_LEN_def unat_length)

lemma EncodeHeader7Bit_fields:
  assumes "headers_ok hs" "ty \<noteq> ENC_GSM7BIT" "length us \<le> 161"
  shows "EncodeHeader7Bit (mk_tele_ud ty mt hs us) = WriteFields (head7 hs (length us))"
proof (cases "hs = []")
  case True
  with assms show ?thesis
    by (simp add: EncodeHeader7Bit_def head7_def encoded_headers headers_ok_count headers_fit seq_unit Let_def)
next
  case False
  have k: "udhl hs < 256" "0 < udhl hs" using udhl_bound [OF assms(1)] udhl_pos [OF assms(1) False] by simp_all
  have pos: "(0 :: u8) < word_of_nat (udhl hs)" using k by (simp add: word_less_nat_alt unat_length)
  have full: "7 - m mod 7 = 7 \<longleftrightarrow> m mod 7 = 0" for m :: nat by (cases "m mod 7") simp_all
  have fill: "WriteFields (hdr_fill (udhl hs)) = (if header_fill (word_of_nat (udhl hs)) \<noteq> 7 then WriteBits 0 (header_fill (word_of_nat (udhl hs))) else ret ())"
    using k full by (simp add: hdr_fill_def header_fill_def unat_length seq_unit)
  have sept: "word_of_nat (hdr_septets (udhl hs)) =
      (word_of_nat (udh_septets (word_of_nat (udhl hs))) + (if header_fill (word_of_nat (udhl hs)) \<noteq> 7 then 1 else 0) :: u8)"
    using k full by (simp add: hdr_septets_def udh_septets_def header_fill_def unat_length)
  from False assms pos k fill sept copy_headers_fields [OF k(1)] show ?thesis
    by (simp add: EncodeHeader7Bit_def head7_def encoded_headers headers_ok_count headers_fit WriteFields_append Let_def)
qed

lemma EncodeHeaderUnicode_fields:
  assumes "headers_ok hs" "length us \<le> 161"
  shows "EncodeHeaderUnicode (mk_tele_ud ty mt hs us) = WriteFields (head16 hs (length us))"
proof (cases "hs = []")
  case True
  with assms show ?thesis by (simp add: EncodeHeaderUnicode_def head16_def encoded_headers headers_ok_count headers_fit seq_unit unat_length Let_def)
next
  case False
  have k: "udhl hs < 256" "0 < udhl hs" using udhl_bound [OF assms(1)] udhl_pos [OF assms(1) False] by simp_all
  have pos: "(0 :: u8) < word_of_nat (udhl hs)" using k by (simp add: word_less_nat_alt unat_length)
  from False assms pos k copy_headers_fields [OF k(1)] show ?thesis
    by (simp add: EncodeHeaderUnicode_def head16_def encoded_headers headers_ok_count headers_fit unat_length Let_def)
qed

section \<open>Texts that are sent\<close>

definition text_ok :: "u8 \<Rightarrow> SmsUDH list \<Rightarrow> bytes \<Rightarrow> bool" where
  "text_ok ty hs us \<longleftrightarrow> headers_ok hs \<and> length us \<le> MAX_USER_DATA_LEN + 1 \<and>
     (if ty = ENC_ASCII_7BIT \<or> ty = ENC_IA5 then list_all (below 7) us
      else if ty = ENC_UNICODE then (if hs = [] then even (length us) else odd (udhl hs + length us))
      else hs = [] \<and> ty \<in> {ENC_OCTET, ENC_SHIFT_JIS, ENC_KOREAN, ENC_LATIN_HEBREW, ENC_LATIN, ENC_EUCKR, ENC_RESERVED})"

definition user_text_fields :: "u8 \<Rightarrow> SmsUDH list \<Rightarrow> bytes \<Rightarrow> (u8 \<times> nat) list" where
  "user_text_fields ty hs us = (ty, 5) #
     (if ty = ENC_ASCII_7BIT \<or> ty = ENC_IA5 then head7 hs (length us) @ map (\<lambda>c. (c, 7)) us
      else if ty = ENC_UNICODE then head16 hs (length us) @ chars8 us
      else (word_of_nat (length us), 8) # chars8 us)"

lemma hdr_fill_ok: "\<forall>f \<in> set (hdr_fill k). field_ok f"
  by (auto simp: hdr_fill_def field_ok_def intro: le_trans [OF diff_le_self])

lemma text_fields_ok:
  assumes "text_ok ty hs us"
  shows "\<forall>f \<in> set (user_text_fields ty hs us). field_ok f"
proof -
  have "below 5 ty" using assms by (auto simp: text_ok_def split: if_splits)
  moreover have "\<forall>f \<in> set (head7 hs n). field_ok f" "\<forall>f \<in> set (head16 hs n). field_ok f" for n
    using hdr_fill_ok by (auto simp: head7_def head16_def)
  ultimately show ?thesis using assms
    by (auto simp: user_text_fields_def text_ok_def field_ok_def [of "(_, 5)"] field_ok_def [of "(_, 7)"] list_all_iff)
qed

lemma emits_text:
  assumes "text_ok ty hs us"
  shows "emits (CdmaSmsUserData_Encode (mk_tele_ud ty mt hs us)) (tlv USER_DATA (pack (user_text_fields ty hs us)))"
proof -
  have hs: "headers_ok hs" "length us \<le> 161" and ty: "ty \<noteq> ENC_GSM7BIT" "ty \<noteq> ENC_EPM" "ty \<noteq> ENC_GSMDCS"
    using assms by (auto simp: text_ok_def MAX_USER_DATA_LEN_def split: if_splits)
  have "seq (WriteBits ty 5) (
      if ty = ENC_ASCII_7BIT \<or> ty = ENC_IA5 then EncodeAscii7Bit (mk_tele_ud ty mt hs us)
      else if ty = ENC_UNICODE then EncodeUnicode (mk_tele_ud ty mt hs us)
      else Encode8BitData (mk_tele_ud ty mt hs us)) = WriteFields (user_text_fields ty hs us)"
    using hs ty
    by (simp add: user_text_fields_def EncodeAscii7Bit_def EncodeUnicode_def Encode8BitData_def WriteFields_append EncodeHeader7Bit_fields
        EncodeHeaderUnicode_fields write_text_fields unat_length MAX_USER_DATA_LEN_def)
  with emits_tlv_length [OF text_fields_ok [OF assms], of USER_DATA] ty show ?thesis
    by (auto simp: CdmaSmsUserData_Encode_def seq_ret split: if_splits)
qed

section \<open>Reading\<close>

lemma runs_attempt_bits: "runs (k (Some v)) (done @ [(v, l)]) todo x y \<Longrightarrow>
    runs (bnd (attempt (bnd (on_buf (ReadBits l)) (\<lambda>n. if P n then fail else ret n))) k) done ((v, l) # todo) x y" if "\<not> P v"
  using that by (simp add: runs_def bnd_def on_buf_def attempt_def ReadBits_fz ret_def)

lemma GetIndex_fz: "GetIndex (fz p done todo rest) = length p + widths done div 8"
  by (simp add: GetIndex_def fz_def)

lemma DecodeHeader_fz:
  assumes "plain_header h" "fits p (done @ chars8 (header_octets h) @ todo) rest"
  shows "DecodeHeader ic w (fz p done (chars8 (header_octets h) @ todo) rest, old) =
    Ok (length (header_octets h)) (fz p (done @ chars8 (header_octets h)) todo rest, h)"
  using assms
  by (cases h; cases "udh h")
    (auto simp: plain_header_def header_octets_def be16_def header_decoders op_simps ReadByte_fz GetIndex_fz join_octets)

interpretation header_slots: array_member "\<lambda>d. ud_header (tu_userData d)" "\<lambda>hs. put_package (\<lambda>u. u\<lparr>ud_header := hs\<rparr>)"
  by unfold_locales (simp_all add: put_package_def)

definition put_headers :: "nat \<Rightarrow> SmsUDH list \<Rightarrow> SmsTeleSvcUserData \<Rightarrow> SmsTeleSvcUserData" where
  "put_headers i hs = put_package (\<lambda>u. u\<lparr>headerCnt := headerCnt u + word_of_nat (length hs), ud_header := write_at i hs (ud_header u)\<rparr>)"

lemma cdma_header_at_fz:
  assumes "plain_header h" "fits p (done @ chars8 (header_octets h) @ todo) rest" "i < length (ud_header (tu_userData d))"
  shows "cdma_header_at ic w i (fz p done (chars8 (header_octets h) @ todo) rest, d) =
    Ok (length (header_octets h)) (fz p (done @ chars8 (header_octets h)) todo rest,
      put_package (\<lambda>u. u\<lparr>ud_header := (ud_header u)[i := h]\<rparr>) d)"
  using assms by (simp add: cdma_header_at_def bnd_def get_out_def zoom_def DecodeHeader_fz)

lemma cdma_headers_fz:
  assumes "headers_ok (hs @ gs)" "fits p (done @ chars8 (header_wire gs) @ todo) rest" "length (ud_header (tu_userData d)) = MAX_UD_HEADER_NUM"
  shows "cdma_headers ic w (word_of_nat (udhl (hs @ gs))) (length hs) (word_of_nat (udhl hs)) (fz p done (chars8 (header_wire gs) @ todo) rest, d) =
    Ok (word_of_nat (udhl (hs @ gs))) (fz p (done @ chars8 (header_wire gs)) todo rest, put_headers (length hs) gs d)"
  using assms
proof (induction gs arbitrary: hs "done" d)
  case Nil
  then show ?case
    by (subst cdma_headers.simps) (simp add: ret_def put_headers_def put_package_def write_at_def)
next
  case (Cons h gs)
  let ?o = "header_octets h"
  let ?n = "word_of_nat (udhl (hs @ h # gs)) :: u8"
  have ok: "headers_ok ((hs @ [h]) @ gs)" "plain_header h" using Cons.prems(1) by (simp_all add: headers_ok_def)
  have len: "0 < length ?o" "length ?o \<le> 6" using header_octets_nonempty [OF ok(2)] header_octets_short by simp_all
  have bound: "udhl (hs @ h # gs) \<le> 42" by (rule udhl_bound [OF Cons.prems(1)])
  then have lt: "word_of_nat (udhl hs) < ?n" using len by (simp add: word_less_nat_alt unat_of_nat flip: of_nat_add)
  have i: "\<not> MAX_UD_HEADER_NUM \<le> length hs" "length hs < length (ud_header (tu_userData d))"
    using Cons.prems(1,3) by (simp_all add: headers_ok_def)
  have no_over: "\<not> unat ?n + 2 < unat (word_of_nat (udhl hs) + word_of_nat (length ?o) :: u8)"
    using bound by (simp add: unat_of_nat flip: of_nat_add)
  let ?d = "put_package count_header (put_package (\<lambda>u. u\<lparr>ud_header := (ud_header u)[length hs := h]\<rparr>) d)"
  have step: "cdma_header_at ic w (length hs) (fz p done (chars8 ?o @ chars8 (header_wire gs) @ todo) rest, d) =
      Ok (length ?o) (fz p (done @ chars8 ?o) (chars8 (header_wire gs) @ todo) rest, put_package (\<lambda>u. u\<lparr>ud_header := (ud_header u)[length hs := h]\<rparr>) d)"
    using Cons.prems(2) i(2) by (intro cdma_header_at_fz ok) simp_all
  have "fits p ((done @ chars8 ?o) @ chars8 (header_wire gs) @ todo) rest" using Cons.prems(2) by simp
  from Cons.IH [OF ok(1) this, of ?d] Cons.prems(3)
  have IH: "cdma_headers ic w ?n (Suc (length hs)) (word_of_nat (udhl hs) + word_of_nat (length ?o)) (fz p (done @ chars8 ?o) (chars8 (header_wire gs) @ todo) rest, ?d) =
      Ok ?n (fz p (done @ chars8 (header_wire (h # gs))) todo rest, put_headers (Suc (length hs)) gs ?d)"
    by (simp add: put_package_def count_header_def)
  have "put_headers (Suc (length hs)) gs ?d = put_headers (length hs) (h # gs) d"
    using header_slots.write_at_Cons [of "length hs" "ud_header (tu_userData d)" gs h] i(2)
    by (simp add: put_headers_def put_package_def count_header_def)
  with IH lt i no_over len show ?case
    by (subst cdma_headers.simps) (simp add: bnd_def seq_def attempt_def step on_out_def)
qed

definition no_headers :: "SmsTeleSvcUserData \<Rightarrow> SmsTeleSvcUserData" where
  "no_headers = put_package (\<lambda>u. u\<lparr>headerCnt := 0\<rparr>)"

definition hdr_fields :: "SmsUDH list \<Rightarrow> (u8 \<times> nat) list" where
  "hdr_fields hs = (if hs = [] then [] else (word_of_nat (udhl hs), 8) # chars8 (header_wire hs))"

lemma runs_headers:
  assumes "runs (k (word_of_nat (udhl hs))) (done @ hdr_fields hs) todo (put_headers 0 hs (no_headers d)) y" "headers_ok hs"
    "length (ud_header (tu_userData d)) = MAX_UD_HEADER_NUM"
  shows "runs (bnd (DecodeHeader7Bit ic w (hs \<noteq> [])) k) done (hdr_fields hs @ todo) d y"
proof -
  have n: "unat (word_of_nat (udhl hs) :: u8) \<le> MAX_USER_DATA_LEN + 1" using udhl_bound [OF assms(2)] by (simp add: unat_of_nat MAX_USER_DATA_LEN_def)
  have "length (ud_header (tu_userData (no_headers d))) = MAX_UD_HEADER_NUM" using assms(3) by (simp add: no_headers_def put_package_def)
  note H = cdma_headers_fz [of "[]" hs, simplified, OF assms(2) _ this]
  show ?thesis
  proof (cases "hs = []")
    case True
    with assms(1) H [of p "done" todo rest ic w for p rest] show ?thesis
      by (simp add: runs_def DecodeHeader7Bit_def bnd_def seq_def ret_def on_out_def hdr_fields_def flip: no_headers_def)
  next
    case False
    let ?f = "(word_of_nat (udhl hs) :: u8, 8 :: nat)"
    have "fits p ((done @ [?f]) @ chars8 (header_wire hs) @ todo) rest" if "fits p (done @ hdr_fields hs @ todo) rest" for p rest
      using that False by (simp add: hdr_fields_def)
    from assms(1) False n H [OF this, of _ _ ic w] show ?thesis
      by (auto simp: runs_def DecodeHeader7Bit_def bnd_def seq_def ret_def on_out_def on_buf_def attempt_def hdr_fields_def ReadBits_fz simp flip: no_headers_def)
  qed
qed

lemma runs_text:
  assumes "runs k (done @ map (\<lambda>c. (c, l)) us) [] (put_ud_text (write_at 0 us (ud_data (tu_userData d))) d) y"
    "length us \<le> length (ud_data (tu_userData d))"
  shows "runs (seq (read_text l (length us)) k) done (map (\<lambda>c. (c, l)) us) d y"
  using assms text_chars.read_into [where f = "\<lambda>c. c" and todo = "[]" and i = "0" and vs = us and l = l]
  by (simp add: runs_def read_text_def seq_def bnd_def)

text \<open>What decoding a text does to the user data: only what was sent is written.\<close>

definition sent_text :: "u8 \<Rightarrow> SmsUDH list \<Rightarrow> bytes \<Rightarrow> SmsTeleSvcUserData \<Rightarrow> SmsTeleSvcUserData" where
  "sent_text ty hs us d = put_ud_text (write_at 0 us (ud_data (tu_userData d)))
     (put_length (word_of_nat (length us)) (put_headers 0 hs (no_headers (d\<lparr>tu_encodeType := ty\<rparr>))))"

definition ud_sized :: "SmsTeleSvcUserData \<Rightarrow> bool" where
  "ud_sized d \<longleftrightarrow> length (ud_header (tu_userData d)) = MAX_UD_HEADER_NUM \<and> length (ud_data (tu_userData d)) = MAX_USER_DATA_LEN + 1"

lemma put_keeps_text [simp]:
  "ud_data (tu_userData (put_headers i hs d)) = ud_data (tu_userData d)" "ud_data (tu_userData (no_headers d)) = ud_data (tu_userData d)"
  "ud_data (tu_userData (put_length n d)) = ud_data (tu_userData d)" "ud_length (tu_userData (put_length n d)) = n"
  "ud_header (tu_userData (no_headers d)) = ud_header (tu_userData d)"
  by (simp_all add: put_headers_def no_headers_def put_length_def put_package_def)

lemma runs_Ascii7Bit:
  assumes "headers_ok hs" "length us \<le> 161" "ud_sized d"
    "y = put_ud_text (write_at 0 us (ud_data (tu_userData d))) (put_length (word_of_nat (length us)) d)"
  shows "runs (DecodeAscii7Bit (word_of_nat (if hs = [] then length us else hdr_septets (udhl hs) + length us)) (word_of_nat (udhl hs))) done
    ((if hs = [] then [] else hdr_fill (udhl hs)) @ map (\<lambda>c. (c, 7)) us) d y"
proof -
  have n: "unat (word_of_nat (length us) :: u8) = length us" "\<not> Suc MAX_USER_DATA_LEN < length us"
    using assms(2) by (simp_all add: unat_length MAX_USER_DATA_LEN_def)
  have end_rule: "runs (seq (on_out (put_length (word_of_nat (length us)))) (seq (read_text 7 (length us)) (on_buf (ignore SkipBits)))) done'
      (map (\<lambda>c. (c, 7)) us) d y" for done'
    using assms(2-4) by (auto simp: MAX_USER_DATA_LEN_def ud_sized_def intro!: runs_out runs_text runs_skip_eq)
  show ?thesis
  proof (cases "hs = []")
    case True
    with end_rule n show ?thesis by (simp add: DecodeAscii7Bit_def ret_bnd)
  next
    case False
    let ?k = "udhl hs"
    have k: "?k \<le> 42" "0 < ?k" using udhl_bound [OF assms(1)] udhl_pos [OF assms(1) False] by simp_all
    have full: "7 - m mod 7 < 7 \<longleftrightarrow> m mod 7 \<noteq> 0" for m :: nat by (cases "m mod 7") simp_all
    have udh: "udh_septets (word_of_nat ?k) = (?k + 1) * 8 div 7" "header_fill (word_of_nat ?k) = 7 - (?k + 1) * 8 mod 7" "word_of_nat ?k \<noteq> (0 :: u8)"
      using k by (simp_all add: udh_septets_def header_fill_def unat_of_nat word_unat_eq_iff)
    have sept: "hdr_septets ?k \<le> 51" "(?k + 1) * 8 div 7 \<le> 50" "0 < (?k + 1) * 8 div 7" using k by (auto simp: hdr_septets_def)
    have diff: "word_of_nat (hdr_septets ?k + length us) - word_of_nat (hdr_septets ?k) = (word_of_nat (length us) :: u8)" by simp
    have less: "\<not> word_of_nat (hdr_septets ?k + length us) < (word_of_nat (hdr_septets ?k) :: u8)" "(0 :: u8) < word_of_nat ((?k + 1) * 8 div 7)"
      using sept assms(2) by (simp_all add: word_less_nat_alt unat_of_nat flip: of_nat_add)
    show ?thesis
    proof (cases "(?k + 1) * 8 mod 7 = 0")
      case True
      then have "hdr_septets ?k = (?k + 1) * 8 div 7" by (simp add: hdr_septets_def)
      with True False end_rule n less diff udh full show ?thesis by (simp add: DecodeAscii7Bit_def hdr_fill_def ret_bnd Let_def)
    next
      case False
      then have eq: "word_of_nat (hdr_septets ?k) = (word_of_nat ((?k + 1) * 8 div 7) + 1 :: u8)" by (simp add: hdr_septets_def)
      note rules = runs_seq_bits [OF end_rule, where v = 0]
      with False \<open>hs \<noteq> []\<close> n less diff udh full eq show ?thesis
        by (simp add: DecodeAscii7Bit_def hdr_fill_def ret_bnd bnd_seq Let_def)
    qed
  qed
qed

lemma runs_8BitData:
  assumes "length us \<le> 161" "ud_sized d" "y = put_ud_text (write_at 0 us (ud_data (tu_userData d))) (put_length (word_of_nat (length us)) d)"
  shows "runs (seq (on_out (put_length (word_of_nat (length us)))) (seq Decode8BitData (on_buf (ignore SkipBits)))) done (chars8 us) d y"
proof -
  have n: "unat (word_of_nat (length us) :: u8) = length us" "\<not> Suc MAX_USER_DATA_LEN < length us"
    using assms(1) by (simp_all add: unat_length MAX_USER_DATA_LEN_def)
  have "runs (seq (read_text 8 (length us)) (on_buf (ignore SkipBits))) done (chars8 us) (put_length (word_of_nat (length us)) d) y"
    using assms by (auto simp: MAX_USER_DATA_LEN_def ud_sized_def intro!: runs_text runs_skip_eq)
  with n show ?thesis by (auto simp: Decode8BitData_def seq_bnd intro!: runs_out runs_get)
qed

lemma unicode_length:
  assumes "k \<le> 42" "n \<le> 161" "odd (k + n)"
  shows "word_of_nat ((k + n) div 2 + 1) * 2 - word_of_nat k - 1 = (word_of_nat n :: u8)"
proof -
  have "((k + n) div 2 + 1) * 2 = k + n + 1" using assms(3) by presburger
  then have "word_of_nat ((k + n) div 2 + 1) * 2 = (word_of_nat (k + n + 1) :: u8)" by (metis of_nat_mult of_nat_numeral)
  then show ?thesis by (simp only: of_nat_add of_nat_1) simp
qed

text \<open>The fields behind the type and the number of fields.\<close>

definition text_count :: "u8 \<Rightarrow> SmsUDH list \<Rightarrow> bytes \<Rightarrow> u8" where
  "text_count ty hs us =
     (if ty = ENC_ASCII_7BIT \<or> ty = ENC_IA5 then word_of_nat (if hs = [] then length us else hdr_septets (udhl hs) + length us)
      else if ty = ENC_UNICODE then word_of_nat (if hs = [] then length us div 2 else (udhl hs + length us) div 2 + 1)
      else word_of_nat (length us))"

definition text_rest :: "u8 \<Rightarrow> SmsUDH list \<Rightarrow> bytes \<Rightarrow> (u8 \<times> nat) list" where
  "text_rest ty hs us = (if ty = ENC_ASCII_7BIT \<or> ty = ENC_IA5 then (if hs = [] then [] else hdr_fill (udhl hs)) @ map (\<lambda>c. (c, 7)) us else chars8 us)"

lemma text_fields_split: "text_ok ty hs us \<Longrightarrow> user_text_fields ty hs us = (ty, 5) # (text_count ty hs us, 8) # hdr_fields hs @ text_rest ty hs us"
  by (auto simp: text_ok_def user_text_fields_def text_count_def text_rest_def head7_def head16_def hdr_fields_def split: if_splits)

lemma takes_text:
  assumes "text_ok ty hs us" "ud_sized x"
  shows "takes (CdmaSmsUserData_Decode ic w (hs \<noteq> [])) (tlv USER_DATA (pack (user_text_fields ty hs us))) x (sent_text ty hs us x)"
proof -
  have hs: "headers_ok hs" "length us \<le> 161" and ty: "GetEncodingType ty = ty" "ty \<noteq> ENC_GSM7BIT" "ty \<noteq> ENC_EPM" "ty \<noteq> ENC_GSMDCS"
    using assms(1) by (auto simp: text_ok_def MAX_USER_DATA_LEN_def GetEncodingType_def split: if_splits)
  let ?x = "put_headers 0 hs (no_headers (x\<lparr>tu_encodeType := ty\<rparr>))"
  have x: "ud_sized ?x" "length (ud_header (tu_userData (x\<lparr>tu_encodeType := ty\<rparr>))) = MAX_UD_HEADER_NUM"
    using assms hs(1) by (simp_all add: ud_sized_def put_headers_def put_package_def no_headers_def length_write_at headers_ok_def)
  have y: "sent_text ty hs us x = put_ud_text (write_at 0 us (ud_data (tu_userData ?x))) (put_length (word_of_nat (length us)) ?x)"
    by (simp add: sent_text_def)
  have tail: "runs (if ty = ENC_ASCII_7BIT \<or> ty = ENC_IA5 then DecodeAscii7Bit (text_count ty hs us) (word_of_nat (udhl hs))
     else if ty = ENC_UNICODE then
       seq (on_out (put_length (if hs \<noteq> [] then text_count ty hs us * 2 - word_of_nat (udhl hs) - 1 else text_count ty hs us * 2)))
         (seq Decode8BitData (on_buf (ignore SkipBits)))
     else seq (on_out (put_length (if hs \<noteq> [] then text_count ty hs us - word_of_nat (udhl hs) - 1 else text_count ty hs us)))
         (seq Decode8BitData (on_buf (ignore SkipBits)))) done (text_rest ty hs us) ?x (sent_text ty hs us x)" for "done"
  proof -
    consider (ascii) "ty = ENC_ASCII_7BIT \<or> ty = ENC_IA5" | (ucs2) "ty = ENC_UNICODE" | (octets) "ty \<noteq> ENC_ASCII_7BIT" "ty \<noteq> ENC_IA5" "ty \<noteq> ENC_UNICODE"
      by blast
    then show ?thesis
    proof cases
      case ascii
      with runs_Ascii7Bit [OF hs x(1) y] show ?thesis by (auto simp: text_count_def text_rest_def)
    next
      case ucs2
      have "(if hs \<noteq> [] then text_count ty hs us * 2 - word_of_nat (udhl hs) - 1 else text_count ty hs us * 2) = word_of_nat (length us)"
        using assms(1) ucs2 unicode_length [OF udhl_bound [OF hs(1)] hs(2)]
        by (auto simp: text_ok_def text_count_def elim!: evenE)
      with ucs2 runs_8BitData [OF hs(2) x(1) y] show ?thesis by (simp add: text_rest_def)
    next
      case octets
      with assms(1) have "hs = []" by (simp add: text_ok_def)
      with octets runs_8BitData [OF hs(2) x(1) y] show ?thesis by (simp add: text_count_def text_rest_def)
    qed
  qed
  show ?thesis
    unfolding CdmaSmsUserData_Decode_def
    by (rule takes_tlv [OF text_fields_ok [OF assms(1)]], unfold text_fields_split [OF assms(1)], rule runs_bits, unfold ty(1) Let_def,
        intro runs_out, simp only: ty(2-4) simp_thms if_False, rule runs_ret, rule runs_bits, rule runs_headers [OF _ hs(1) x(2)], rule tail)
qed

interpretation user_data: cdma_param "\<lambda>(ty, mt, hs, us). CdmaSmsUserData_Encode (mk_tele_ud ty mt hs us)"
  "CdmaSmsUserData_Decode ic w headerInd" "\<lambda>(ty, mt, hs, us). text_ok ty hs us \<and> headerInd = (hs \<noteq> [])" "\<lambda>_. ud_sized"
  "\<lambda>(ty, mt, hs, us). tlv USER_DATA (pack (user_text_fields ty hs us))" "\<lambda>(ty, mt, hs, us). sent_text ty hs us" for ic w headerInd
  by unfold_locales (auto intro: emits_text takes_text)

end
