(* ===== verification/Cdma_Items.thy ===== *)
theory Cdma_Items
  imports Cdma_User_Data_Layout
begin

text \<open>
  Messages as sequences of parameters. An \<open>item\<close> is a parameter in a message: how it looks on the air, what the first pass of the decoder makes of it and what the second pass
  stores. The theory composes the items of a message, and lifts them to the struct that contains the message.
\<close>

section \<open>Items\<close>

record 't item =
  it_ident :: u8
  it_body :: bytes
  it_dec :: "'t dec_param"
  it_set :: "'t \<Rightarrow> 't"
  it_fill :: "'t \<Rightarrow> 't"

definition it_wire :: "'t item \<Rightarrow> bytes" where
  "it_wire i = tlv (it_ident i) (it_body i)"

definition wire :: "'t item list \<Rightarrow> bytes" where
  "wire its = concat (map it_wire its)"

lemma wire_simps [simp]: "wire [] = []" "wire (i # its) = tlv (it_ident i) (it_body i) @ wire its" "wire (its @ jts) = wire its @ wire jts"
  by (simp_all add: wire_def it_wire_def)

lemma body_in_wire: "i \<in> set its \<Longrightarrow> length (it_body i) \<le> length (wire its)"
  by (induction its) auto

text \<open>An item for a member of a struct.\<close>

definition member_item :: "u8 \<Rightarrow> bytes \<Rightarrow> ('t \<Rightarrow> 'v) \<Rightarrow> ('v \<Rightarrow> 't \<Rightarrow> 't) \<Rightarrow> 'v dec_param \<Rightarrow> ('v \<Rightarrow> 'v) \<Rightarrow> 't item" where
  "member_item ident body get put dec fill =
     \<lparr>it_ident = ident, it_body = body, it_dec = zoom get put dec, it_set = (\<lambda>x. x), it_fill = (\<lambda>x. put (fill (get x)) x)\<rparr>"

lemma member_item_simps [simp]:
  "it_ident (member_item ident body get put dec fill) = ident" "it_body (member_item ident body get put dec fill) = body"
  "it_dec (member_item ident body get put dec fill) = zoom get put dec" "it_set (member_item ident body get put dec fill) = (\<lambda>x. x)"
  "it_fill (member_item ident body get put dec fill) x = put (fill (get x)) x"
  by (simp_all add: member_item_def)

section \<open>Writing\<close>

lemma emits_ret: "emits (ret ()) []"
  by (simp add: emits_def ret_def)

lemma emits_seq: "emits e bs \<Longrightarrow> emits f cs \<Longrightarrow> emits (seq e f) (bs @ cs)"
  by (auto simp: emits_def seq_def bnd_def)

definition emit_all :: "enc_param list \<Rightarrow> 't item list \<Rightarrow> bool" where
  "emit_all es its \<longleftrightarrow> list_all2 (\<lambda>e i. emits e (it_wire i)) es its"

lemma emit_all_simps [simp]: "emit_all [] []" "emit_all (e # es) (i # its) \<longleftrightarrow> emits e (tlv (it_ident i) (it_body i)) \<and> emit_all es its"
  by (simp_all add: emit_all_def it_wire_def)

lemma emit_all_append: "emit_all es its \<Longrightarrow> emit_all fs jts \<Longrightarrow> emit_all (es @ fs) (its @ jts)"
  unfolding emit_all_def by (rule list_all2_appendI)

lemma emit_all_if: "(c \<Longrightarrow> emit_all es its) \<Longrightarrow> emit_all (if c then es else []) (if c then its else [])"
  by simp

lemma emits_each: "emit_all es its \<Longrightarrow> emits (each (\<lambda>p. p) es) (wire its)"
proof (induction es arbitrary: its)
  case Nil
  then show ?case by (simp add: emit_all_def emits_ret)
next
  case (Cons e es)
  then obtain i jts where "its = i # jts" by (auto simp: emit_all_def list_all2_Cons1)
  with Cons show ?case by (simp add: emits_seq del: append_Cons)
qed

section \<open>The second pass\<close>

lemma takes_ret: "takes (ret ()) [] x x"
  by (simp add: takes_def ret_def)

lemma takes_seq: "takes d bs x y \<Longrightarrow> takes e cs y z \<Longrightarrow> takes (seq d e) (bs @ cs) x z"
  by (simp add: takes_def seq_def bnd_def)

lemma takes_to_end: "takes d bs x y \<Longrightarrow> length p + length bs \<le> 256 \<Longrightarrow> d (zb p bs, x) = Ok () (zb (rev bs @ p) [], y)"
  unfolding takes_def by (drule spec [of _ p], drule spec [of _ "[]"]) simp

lemma takes_get_out: "takes (k x) bs x y \<Longrightarrow> takes (bnd get_out k) bs x y"
  by (simp add: takes_def bnd_def get_out_def)

fun decodable :: "'t item list \<Rightarrow> 't \<Rightarrow> bool" where
  "decodable [] x = True"
| "decodable (i # its) x = (takes (it_dec i) (tlv (it_ident i) (it_body i)) x (it_fill i x) \<and> decodable its (it_fill i x))"

lemma decodable_append: "decodable (its @ jts) x \<longleftrightarrow> decodable its x \<and> decodable jts (fold it_fill its x)"
  by (induction its arbitrary: x) auto

lemma takes_each: "decodable its x \<Longrightarrow> takes (each (\<lambda>p. p) (map it_dec its)) (wire its) x (fold it_fill its x)"
  by (induction its arbitrary: x) (auto simp: takes_ret intro: takes_seq)

section \<open>The first pass\<close>

fun scannable :: "(u8 \<Rightarrow> (SmsReadBuffer \<times> 't, 't dec_param option) op) \<Rightarrow> 't item list \<Rightarrow> 't \<Rightarrow> bool" where
  "scannable push [] x = True"
| "scannable push (i # its) x \<longleftrightarrow>
     length (it_body i) < 256 \<and>
     (\<forall>p. length p + length (it_body i) + length (wire its) < 256 \<longrightarrow>
        push (it_ident i) (zb p (it_body i @ wire its), x) = Ok (Some (it_dec i)) (zb p (it_body i @ wire its), it_set i x)) \<and>
     scannable push its (it_set i x)"

lemma scan_parameters_end: "scan_parameters push n (zb p [], x) = Ok [] (zb p [], x)"
  by (cases n) (simp_all add: op_simps zb_simps)

lemma scan_items:
  assumes "scannable push its x" "length its \<le> n" "length p + length (wire its) < 256"
  shows "scan_parameters push n (zb p (wire its), x) = Ok (map it_dec its) (zb (rev (wire its) @ p) [], fold it_set its x)"
  using assms
proof (induction its arbitrary: n p x)
  case Nil
  then show ?case by (simp add: scan_parameters_end)
next
  case (Cons i its)
  let ?b = "it_body i"
  let ?p = "word_of_nat (length ?b) # it_ident i # p"
  obtain m where n: "n = Suc m" "length its \<le> m" using Cons.prems(2) by (cases n) auto
  have len: "unat (word_of_nat (length ?b) :: u8) = length ?b" using Cons.prems(1) by (simp add: unat_length)
  have head: "push (it_ident i) (zb ?p (?b @ wire its), x) = Ok (Some (it_dec i)) (zb ?p (?b @ wire its), it_set i x)"
    using Cons.prems(1,3) by simp
  have move: "MoveForward (length ?b) (zb ?p (?b @ wire its)) = Ok (length ?p) (zb (rev ?b @ ?p) (wire its))"
    by (simp add: MoveForward_zb)
  have "length (rev ?b @ ?p) + length (wire its) < 256" "scannable push its (it_set i x)" using Cons.prems(1,3) by simp_all
  from Cons.IH [OF this(2) n(2) this(1)]
  have rest: "scan_parameters push m (zb (rev ?b @ ?p) (wire its), it_set i x) = Ok (map it_dec its) (zb (rev (wire its) @ rev ?b @ ?p) [], fold it_set its (it_set i x))" .
  show ?case
    by (simp add: n(1) tlv_def attempt_def bnd_def seq_def on_buf_def ret_def ReadByte_zb head len move rest)
qed

lemma pushed_id: "pushed (\<lambda>x. x) d = ret (Some d)"
  by (rule ext) (simp add: pushed_def op_simps)

lemma scannable_Cons:
  assumes "push (it_ident i) = pushed (it_set i) (it_dec i)" "length (it_body i) < 256" "scannable push its (it_set i x)"
  shows "scannable push (i # its) x"
  using assms by (simp add: pushed_def op_simps)

lemma scannable_append:
  assumes "\<forall>i \<in> set its. length (it_body i) < 256 \<and> push (it_ident i) = pushed (it_set i) (it_dec i)" "scannable push jts (fold it_set its x)"
  shows "scannable push (its @ jts) x"
  using assms by (induction its arbitrary: x) (simp, simp del: scannable.simps add: scannable_Cons)

section \<open>Members of a struct\<close>

text \<open>A member of a struct or of a union; the whole struct keeps what is written last.\<close>

locale struct_member =
  fixes get :: "'o \<Rightarrow> 'v" and put :: "'v \<Rightarrow> 'o \<Rightarrow> 'o"
  assumes get_put: "get (put v x) = v" and put_put: "put v (put w x) = put v x"
begin

definition lift :: "'v item \<Rightarrow> 'o item" where
  "lift i = \<lparr>it_ident = it_ident i, it_body = it_body i, it_dec = zoom get put (it_dec i), it_set = (\<lambda>x. put (it_set i (get x)) x), it_fill = (\<lambda>x. put (it_fill i (get x)) x)\<rparr>"

lemma wire_lift: "wire (map lift its) = wire its"
  by (induction its) (simp_all add: lift_def)

lemma dec_lift: "map it_dec (map lift its) = map (zoom get put) (map it_dec its)"
  by (simp add: lift_def)

lemma decodable_lift: "decodable its (get x) \<Longrightarrow> decodable (map lift its) x"
  by (induction its arbitrary: x) (auto simp: lift_def get_put intro: takes_zoom)

lemma fill_lift: "fold it_fill (map lift its) (put v x) = put (fold it_fill its v) x"
  by (induction its arbitrary: v) (simp_all add: lift_def get_put put_put)

lemma takes_lift:
  assumes "decodable its v"
  shows "takes (each (\<lambda>p. p) (map (zoom get put) (map it_dec its))) (wire its) (put v x) (put (fold it_fill its v) x)"
  using takes_each [OF decodable_lift [of its "put v x"]] assms unfolding dec_lift wire_lift fill_lift get_put .

end

end
