(* ===== verification/Cdma_Sms_Sender.thy ===== *)
theory Cdma_Sms_Sender
  imports Cdma_Sms_Message Sms_Send_Manager
begin

text \<open>
  \<^verbatim>\<open>services/sms/cdma/cdma_sms_sender.cpp\<close>: the sender for CDMA networks. It builds transport messages from the parts of a text, or GSM messages when it sends over IMS.
  Definitions carry the prefix \<open>Cdma_\<close> where the GSM sender has a function of the same name.
\<close>

section \<open>Surroundings\<close>

text \<open>
  What a CDMA message needs besides the surroundings of a sender, and whether \<^verbatim>\<open>data()\<close> of an empty vector is a null pointer, which \<^verbatim>\<open>memcpy_s\<close> refuses.
\<close>

record cdma_sender_env = sender_env +
  se_overlay :: tele_overlay
  se_ud_bytes :: "SmsUDPackage \<Rightarrow> bytes"
  empty_data_null :: bool

definition cdma_message_env :: "'e cdma_sender_env_scheme \<Rightarrow> cdma_env" where
  "cdma_message_env env = sms_env.extend (sms_env.truncate env) (cdma_env.fields (se_overlay env) (se_ud_bytes env))"

section \<open>Encoding\<close>

text \<open>\<open>None\<close> is a null pointer.\<close>

definition Cdma_EncodeMsg :: "tele_overlay \<Rightarrow> CdmaTransportMsg \<Rightarrow> ('s, bytes option) op" where
  "Cdma_EncodeMsg ov t =
     (case CreateTransportMessage ov t of
        None \<Rightarrow> ret None
      | Some (ty, ps) \<Rightarrow>
          if ps = [] then ret None
          else bnd (with_new SmsWriteBuffer (attempt (seq (CdmaSmsTransportMessage_Encode ty ps) GetPduBuffer))) (\<lambda>(pdu, _). ret pdu))"

definition GetSeqNum :: "(sender, u8) op" where
  "GetSeqNum = seq (upd (\<lambda>s. s\<lparr>msgSeqNum := (msgSeqNum s + 1) mod 64\<rparr>)) (gets msgSeqNum)"

text \<open>The modulus 65536 has no effect on an octet.\<close>

definition GetSubmitMsgId :: "(sender, u8) op" where
  "GetSubmitMsgId = seq (upd (\<lambda>s. s\<lparr>msgSubmitId := msgSubmitId s + 1\<rparr>)) (gets msgSubmitId)"

section \<open>Transport\<close>

definition Cdma_SendCsSms :: "int \<Rightarrow> bytes \<Rightarrow> (sender, unit) op" where
  "Cdma_SendCsSms refId pdu = seq (upd (\<lambda>s. s\<lparr>lastSmsDomain := CS_DOMAIN\<rparr>)) (emit (SendCdmaSms refId pdu))"

definition Cdma_SendImsSms :: "'e sender_env_scheme \<Rightarrow> SmsSendIndexer \<Rightarrow> int \<Rightarrow> bytes \<Rightarrow> (sender, unit) op" where
  "Cdma_SendImsSms env x refId pdu =
     (if \<not> ims_client env then ret ()
      else seq (upd (\<lambda>s. s\<lparr>lastSmsDomain := IMS_DOMAIN\<rparr>))
             (emit (ImsSendMessage \<lparr>gp_refId = refId, gp_smscPdu = StringToHex (ix_smca x), gp_pdu = pdu\<rparr>)))"

text \<open>The result of \<^verbatim>\<open>SendCacheMapAddItem\<close> is only logged.\<close>

definition Cdma_SendSmsToRil :: "'e sender_env_scheme \<Rightarrow> nat option \<Rightarrow> (sender, unit) op" where
  "Cdma_SendSmsToRil env ix = (case ix of
     None \<Rightarrow> ret ()
   | Some p \<Rightarrow>
       bnd (gets (\<lambda>s. \<not> isImsNetDomain s \<and> voiceServiceState s \<noteq> reg_in_service env)) (\<lambda>unavailable.
       if unavailable then SendResultCallBack_indexer (Some p) SEND_SMS_FAILURE_SERVICE_UNAVAILABLE
       else
         bnd GetMsgRef64Bit (\<lambda>refId.
         seq (SendCacheMapAddItem refId (Some p)) (
         bnd (get_ix p) (\<lambda>x.
         let pdu = StringToHex (ix_pdu x); sendImsSMS = (isCdmaIms x \<or> psResendCount x < MAX_SEND_RETRIES)
         in if sendImsSMS then Cdma_SendImsSms env x refId pdu else Cdma_SendCsSms refId pdu)))))"

section \<open>Texts over the CDMA network\<close>

definition WEMT :: u16 where
  "WEMT = 0x1005"

definition upd_p2p :: "(CdmaP2PMsg \<Rightarrow> CdmaP2PMsg) \<Rightarrow> CdmaTransportMsg \<Rightarrow> CdmaTransportMsg" where
  "upd_p2p f t = (case tr_data t of TransP2P p \<Rightarrow> t\<lparr>tr_data := TransP2P (f p)\<rparr> | _ \<Rightarrow> t)"

definition upd_cdma_ud :: "(SmsUDPackage \<Rightarrow> SmsUDPackage) \<Rightarrow> CdmaTransportMsg \<Rightarrow> CdmaTransportMsg" where
  "upd_cdma_ud f = upd_cdma_submit (\<lambda>s. s\<lparr>sm_userData := (sm_userData s)\<lparr>tu_userData := f (tu_userData (sm_userData s))\<rparr>\<rparr>)"

text \<open>The header of a part, in the union member for the 8-bit reference.\<close>

definition put_concat_header :: "u8 \<Rightarrow> SmsConcat8Bit \<Rightarrow> CdmaTransportMsg \<Rightarrow> CdmaTransportMsg" where
  "put_concat_header ty c t =
     upd_cdma_ud (\<lambda>u. u\<lparr>headerCnt := 1, ud_header := (ud_header u)[0 := \<lparr>udhType = ty, udh = UdhConcat8bit c\<rparr>]\<rparr>)
       (upd_cdma_submit (\<lambda>s. s\<lparr>sm_msgId := (sm_msgId s)\<lparr>mi_headerInd := True\<rparr>\<rparr>)
         (upd_p2p (\<lambda>p. p\<lparr>p2p_teleserviceId := WEMT\<rparr>) t))"

definition SetPduSeqInfo :: "nat \<Rightarrow> nat \<Rightarrow> CdmaTransportMsg \<Rightarrow> nat \<Rightarrow> u8 \<Rightarrow> (sender, CdmaTransportMsg) op" where
  "SetPduSeqInfo p cnt t i msgRef =
     (if cnt > 1 then
        seq (upd_ix p (\<lambda>x. x\<lparr>isConcat := True, ix_smsConcat := \<lparr>cc_msgRef = ucast msgRef, cc_seqNum = word_of_nat (i + 1),
               cc_totalSeg = ucast (word_of_nat cnt :: u8), cc_is8Bits = True\<rparr>\<rparr>))
          (ret (put_concat_header UDH_CONCAT_8BIT \<lparr>c8_msgRef = msgRef, c8_totalSeg = word_of_nat cnt, c8_seqNum = word_of_nat (i + 1)\<rparr> t))
      else ret t)"

definition UpdateIndexerInfo :: "nat \<Rightarrow> u8 \<Rightarrow> u8 \<Rightarrow> nat \<Rightarrow> int \<Rightarrow> u16 \<Rightarrow> int \<Rightarrow> bool \<Rightarrow> (sender, unit) op" where
  "UpdateIndexerInfo p msgRef cells flg now ident dbId mmsApp =
     upd_ix p (\<lambda>x. x\<lparr>msgRefId := msgRef, ix_netWorkType := NET_TYPE_CDMA, unSentCellCount := cells, hasCellFailed := Some flg,
       timeStamp := now, msgId := ident, dataBaseId := dbId, isMmsApp := mmsApp\<rparr>)"

text \<open>
  One part. The database id and the flag of the application change places in the call of \<^verbatim>\<open>UpdateIndexerInfo\<close>, with the conversions between \<^verbatim>\<open>bool\<close> and
  \<^verbatim>\<open>int32_t\<close>.
\<close>

definition cdma_text_part ::
  "'e cdma_sender_env_scheme \<Rightarrow> bytes \<Rightarrow> bytes \<Rightarrow> SplitInfo list \<Rightarrow> u8 \<Rightarrow> u16 \<Rightarrow> nat option \<Rightarrow> nat option \<Rightarrow> int \<Rightarrow> bool \<Rightarrow> nat \<Rightarrow>
   nat \<Rightarrow> CdmaTransportMsg \<Rightarrow> (sender, CdmaTransportMsg option) op" where
  "cdma_text_part env desAddr scAddr splits msgRef ident sendCb deliveryCb dbId mmsApp flg i t =
     bnd (rd_at splits i) (\<lambda>cell.
     let enc = encodeData cell; blank = replicate (MAX_USER_DATA_LEN + 1) 0
     in if length enc > MAX_USER_DATA_LEN + 1 then ret None
        else if enc = [] \<and> empty_data_null env then seq (SendResultCallBack sendCb SEND_SMS_FAILURE_UNKNOWN) (ret None)
        else
          bnd (make_indexer (text_indexer desAddr scAddr enc sendCb deliveryCb)) (\<lambda>p.
          seq (upd_ix p (\<lambda>x. x\<lparr>ix_dcs := encodeType cell\<rparr>)) (
          bnd (SetPduSeqInfo p (length splits) (upd_cdma_ud (\<lambda>u. u\<lparr>ud_data := write_at 0 enc blank\<rparr>) t) i msgRef) (\<lambda>t.
          let t = upd_cdma_ud (\<lambda>u. u\<lparr>ud_length := word_of_nat (length enc)\<rparr>) t
          in bnd (Cdma_EncodeMsg (se_overlay env) t) (\<lambda>pdu.
             case pdu of
               None \<Rightarrow> seq (SendResultCallBack sendCb SEND_SMS_FAILURE_UNKNOWN) (ret None)
             | Some pdu \<Rightarrow>
                 seq (upd_ix p (\<lambda>x. x\<lparr>ix_pdu := pdu\<rparr>)) (
                 seq (UpdateIndexerInfo p msgRef (word_of_nat (length splits)) flg (env_now env) ident (if mmsApp then 1 else 0) (dbId \<noteq> 0)) (
                 seq (Cdma_SendSmsToRil env (Some p))
                   (ret (Some t)))))))))"

definition Cdma_TextBasedSmsSplitDelivery ::
  "'e cdma_sender_env_scheme \<Rightarrow> bytes \<Rightarrow> bytes \<Rightarrow> SplitInfo list \<Rightarrow> CdmaTransportMsg \<Rightarrow> u8 \<Rightarrow> u16 \<Rightarrow> nat option \<Rightarrow> nat option \<Rightarrow> int \<Rightarrow> bool \<Rightarrow>
   (sender, unit) op" where
  "Cdma_TextBasedSmsSplitDelivery env desAddr scAddr splits t msgRef ident sendCb deliveryCb dbId mmsApp =
     bnd (make_flag False) (\<lambda>flg.
     loop_with (cdma_text_part env desAddr scAddr splits msgRef ident sendCb deliveryCb dbId mmsApp flg) [0..<length splits] t)"

section \<open>Texts over IMS\<close>

definition Cdma_SetSendIndexerInfo :: "'e sender_env_scheme \<Rightarrow> nat \<Rightarrow> EncodeInfo \<Rightarrow> u8 \<Rightarrow> (sender, unit) op" where
  "Cdma_SetSendIndexerInfo env p info msgRef =
     bnd (slice (smcaData info) 0 (unat (smcaLen info))) (\<lambda>smca.
     bnd (slice (tpduData info) 0 (unat (tpduLen info))) (\<lambda>pdu.
     upd_ix p (\<lambda>x. x\<lparr>timeStamp := env_now env, ix_smca := smca, ix_pdu := pdu, hasMore := ei_isMore info,
       msgRefId := msgRef, ix_netWorkType := NET_TYPE_CDMA\<rparr>)))"

definition ReadySendSms :: "'e sender_env_scheme \<Rightarrow> GsmSmsMessage \<Rightarrow> bytes \<Rightarrow> bool \<Rightarrow> nat \<Rightarrow> u8 \<Rightarrow> u8 \<Rightarrow> nat \<Rightarrow> (sender, unit) op" where
  "ReadySendSms env m scAddr isMore p msgRef cells flg =
     bnd (with_new m (GetSubmitEncodeInfo scAddr isMore)) (\<lambda>(info, _).
     case info of
       None \<Rightarrow> SendResultCallBack_indexer (Some p) SEND_SMS_FAILURE_UNKNOWN
     | Some info \<Rightarrow>
         seq (Cdma_SetSendIndexerInfo env p info msgRef) (
         seq (upd_ix p (\<lambda>x. x\<lparr>unSentCellCount := cells, hasCellFailed := Some flg, isCdmaIms := True\<rparr>))
           (Cdma_SendSmsToRil env (Some p))))"

text \<open>
  The message is passed by value but shares its TPDU, the only part of it that changes. \<^verbatim>\<open>&encodeData[0]\<close> of an empty vector is undefined.
\<close>

definition clear_user_data :: "(GsmSmsMessage, unit) op" where
  "clear_user_data = upd_submit (\<lambda>t. t\<lparr>sub_userData := (sub_userData t)\<lparr>ud_data := replicate (MAX_USER_DATA_LEN + 1) 0\<rparr>\<rparr>)"

definition SendSmsForEveryIndexer ::
  "'e sender_env_scheme \<Rightarrow> SplitInfo list \<Rightarrow> bytes \<Rightarrow> bytes \<Rightarrow> u8 \<Rightarrow> nat \<Rightarrow> DataCodingScheme \<Rightarrow> u8 \<Rightarrow> nat option \<Rightarrow> nat option \<Rightarrow> int \<Rightarrow> bool \<Rightarrow>
   nat \<Rightarrow> GsmSmsMessage \<Rightarrow> (sender, GsmSmsMessage) op" where
  "SendSmsForEveryIndexer env cellsInfos desAddr scAddr cells flg codingType msgRef sendCb deliveryCb dbId mmsApp i m =
     bnd (rd_at cellsInfos i) (\<lambda>cell.
     let cnt = length cellsInfos; enc = encodeData cell; isMore = (cnt > 1 \<and> i < cnt - 1); cc = part_concat msgRef cnt i True
     in bnd (make_indexer (text_indexer desAddr scAddr enc sendCb deliveryCb)) (\<lambda>p.
        seq (upd_ix p (\<lambda>x. x\<lparr>ix_dcs := encodeType cell\<rparr>)) (
        bnd (with_new m clear_user_data) (\<lambda>(_, m).
        if length enc > MAX_USER_DATA_LEN then ret m
        else if enc = [] then fault
        else
          bnd (with_new m (set_user_data enc msgRef)) (\<lambda>(_, m).
          seq (if cnt > 1 then upd_ix p (\<lambda>x. x\<lparr>isConcat := True, ix_smsConcat := cc\<rparr>) else ret ()) (
          bnd (with_new m (submit_headers (if cnt > 1 then Some cc else None) codingType (split_langId cell) (\<not> isMore \<and> deliveryCb \<noteq> None))) (\<lambda>(_, m).
          seq (upd_ix p (\<lambda>x. x\<lparr>ix_langId := split_langId cell, isMmsApp := mmsApp, dataBaseId := dbId\<rparr>)) (
          seq (ReadySendSms env m scAddr isMore p msgRef cells flg)
            (ret m)))))))))"

definition TpduNullOrSmsPageOverNormalOrSmsEncodeFail :: "SplitInfo list \<Rightarrow> nat option \<Rightarrow> (sender, bool) op" where
  "TpduNullOrSmsPageOverNormalOrSmsEncodeFail cellsInfos sendCb =
     (if length cellsInfos > MAX_SEGMENT_NUM then seq (SendResultCallBack sendCb SEND_SMS_FAILURE_UNKNOWN) (ret True) else ret False)"

definition TextBasedSmsDeliveryViaIms ::
  "'e sender_env_scheme \<Rightarrow> bytes \<Rightarrow> bytes \<Rightarrow> bytes \<Rightarrow> nat option \<Rightarrow> nat option \<Rightarrow> int \<Rightarrow> bool \<Rightarrow> (sender, unit) op" where
  "TextBasedSmsDeliveryViaIms env desAddr scAddr txt sendCb deliveryCb dbId mmsApp =
     bnd (split_text_message env False [] txt) (\<lambda>(codingType, cellsInfos).
     bnd (with_new (new_message\<lparr>smsCodingNationalType := coding_national env\<rparr>)
            (CreateDefaultSubmitSmsTpdu desAddr scAddr txt (deliveryCb \<noteq> None) codingType)) (\<lambda>(_, m).
     bnd (make_flag False) (\<lambda>flg.
     bnd (TpduNullOrSmsPageOverNormalOrSmsEncodeFail cellsInfos sendCb) (\<lambda>refused.
     if refused then ret ()
     else
       bnd GetMsgRef8Bit (\<lambda>msgRef.
       loop_with (\<lambda>i m. bnd (SendSmsForEveryIndexer env cellsInfos desAddr scAddr (word_of_nat (length cellsInfos)) flg codingType msgRef sendCb deliveryCb
           dbId mmsApp i m) (\<lambda>m. ret (Some m)))
         [0..<length cellsInfos] m)))))"

section \<open>Sending text\<close>

definition split_cdma_message ::
  "'e sender_env_scheme \<Rightarrow> bool \<Rightarrow> bool \<Rightarrow> bytes \<Rightarrow> (sender, DataCodingScheme \<times> SplitInfo list) op" where
  "split_cdma_message env force bPortNum txt =
     with_new [] (SplitMessage (env_iconv env) (env_wsize env) (icu env) (Cdma_DecodeMessage (env_iconv env) (env_wsize env)) txt force bPortNum [])"

definition via_ims :: "sender \<Rightarrow> bool" where
  "via_ims s \<longleftrightarrow> isImsNetDomain s \<and> imsSmsCfg s \<noteq> 0"

text \<open>The reply sequence number and the message id of a new message.\<close>

definition number_message :: "u8 \<Rightarrow> u16 \<Rightarrow> CdmaTransportMsg \<Rightarrow> CdmaTransportMsg" where
  "number_message msgRef ident t =
     upd_cdma_submit (\<lambda>s. s\<lparr>sm_msgId := (sm_msgId s)\<lparr>mi_msgId := ident\<rparr>\<rparr>) (upd_p2p (\<lambda>p. p\<lparr>p2p_replySeq := msgRef\<rparr>) t)"

definition Cdma_TextBasedSmsDelivery ::
  "'e cdma_sender_env_scheme \<Rightarrow> bytes \<Rightarrow> bytes \<Rightarrow> bytes \<Rightarrow> nat option \<Rightarrow> nat option \<Rightarrow> int \<Rightarrow> bool \<Rightarrow> (sender, unit) op" where
  "Cdma_TextBasedSmsDelivery env desAddr scAddr txt sendCb deliveryCb dbId mmsApp =
     bnd (gets via_ims) (\<lambda>ims.
     if ims then TextBasedSmsDeliveryViaIms env desAddr scAddr txt sendCb deliveryCb dbId mmsApp
     else
       bnd (split_cdma_message env (force_7bit env) False txt) (\<lambda>(codingType, splits).
       if length splits > MAX_SEGMENT_NUM then SendResultCallBack sendCb SEND_SMS_FAILURE_UNKNOWN
       else
         bnd (with_new new_cdma_message (CreateSubmitTransMsg desAddr scAddr txt (deliveryCb \<noteq> None) codingType)) (\<lambda>(t, _).
         bnd GetSeqNum (\<lambda>msgRef.
         bnd GetSubmitMsgId (\<lambda>ident.
         Cdma_TextBasedSmsSplitDelivery env desAddr scAddr splits (number_message msgRef (ucast ident) t) msgRef (ucast ident)
           sendCb deliveryCb dbId mmsApp)))))"

section \<open>Sending data\<close>

definition DataBasedSmsDeliveryViaIms ::
  "'e sender_env_scheme \<Rightarrow> bytes \<Rightarrow> bytes \<Rightarrow> int \<Rightarrow> bytes \<Rightarrow> nat option \<Rightarrow> nat option \<Rightarrow> (sender, unit) op" where
  "DataBasedSmsDeliveryViaIms env desAddr scAddr port dat sendCb deliveryCb =
     bnd (split_text_message env True desAddr dat) (\<lambda>(codingType, cellsInfos).
     bnd GetMsgRef8Bit (\<lambda>msgRef.
     bnd (with_new (new_message\<lparr>smsCodingNationalType := coding_national env\<rparr>)
            (CreateDataSubmitSmsTpdu (sms_env.truncate env) desAddr scAddr dat (length dat) msgRef codingType (deliveryCb \<noteq> None))) (\<lambda>(_, m).
     DataBasedSmsDeliverySplitPage (\<lambda>p. Cdma_SendSmsToRil env (Some p)) env msgRef desAddr scAddr port sendCb deliveryCb cellsInfos m)))"

text \<open>The indexer gets an id of its own, the one behind that in the message.\<close>

definition EncodeMsgData :: "'e cdma_sender_env_scheme \<Rightarrow> CdmaTransportMsg \<Rightarrow> nat \<Rightarrow> u8 \<Rightarrow> nat option \<Rightarrow> (sender, unit) op" where
  "EncodeMsgData env t p msgRef sendCb =
     bnd (Cdma_EncodeMsg (se_overlay env) t) (\<lambda>pdu.
     case pdu of
       None \<Rightarrow> SendResultCallBack sendCb SEND_SMS_FAILURE_UNKNOWN
     | Some pdu \<Rightarrow>
         bnd (make_flag False) (\<lambda>flg.
         bnd GetSubmitMsgId (\<lambda>ident.
         seq (upd_ix p (\<lambda>x. x\<lparr>ix_pdu := pdu, msgRefId := msgRef, ix_netWorkType := NET_TYPE_CDMA, unSentCellCount := 1,
                hasCellFailed := Some flg, timeStamp := env_now env, msgId := ucast ident\<rparr>))
           (Cdma_SendSmsToRil env (Some p)))))"

definition header_flag :: "CdmaTransportMsg \<Rightarrow> CdmaTransportMsg" where
  "header_flag = upd_cdma_submit (\<lambda>s. s\<lparr>sm_msgId := (sm_msgId s)\<lparr>mi_headerInd := True\<rparr>\<rparr>)"

definition put_data :: "bytes \<Rightarrow> SmsUDPackage \<Rightarrow> SmsUDPackage" where
  "put_data dat u = u\<lparr>ud_length := word_of_nat (length dat), ud_data := write_at 0 dat (ud_data u)\<rparr>"

definition Cdma_DataBasedSmsDelivery ::
  "'e cdma_sender_env_scheme \<Rightarrow> bytes \<Rightarrow> bytes \<Rightarrow> int \<Rightarrow> bytes \<Rightarrow> nat option \<Rightarrow> nat option \<Rightarrow> (sender, unit) op" where
  "Cdma_DataBasedSmsDelivery env desAddr scAddr port dat sendCb deliveryCb =
     bnd (gets via_ims) (\<lambda>ims.
     if ims then DataBasedSmsDeliveryViaIms env desAddr scAddr port dat sendCb deliveryCb
     else
       bnd (split_cdma_message env False True dat) (\<lambda>(_, splits).
       case splits of
         [] \<Rightarrow> ret ()
       | cell # _ \<Rightarrow>
           bnd (with_new new_cdma_message (attempt (CreateSubmitTransMsg_data desAddr scAddr port (deliveryCb \<noteq> None)))) (\<lambda>(t, _).
           case t of
             None \<Rightarrow> SendResultCallBack sendCb SEND_SMS_FAILURE_UNKNOWN
           | Some t \<Rightarrow>
               bnd GetSeqNum (\<lambda>msgRef.
               bnd GetSubmitMsgId (\<lambda>ident.
               let enc = encodeData cell
               in if length enc > MAX_USER_DATA_LEN + 1 then ret ()
                  else if enc = [] \<and> empty_data_null env then SendResultCallBack sendCb SEND_SMS_FAILURE_UNKNOWN
                  else
                    bnd (make_indexer (data_indexer desAddr scAddr port enc sendCb deliveryCb)) (\<lambda>p.
                    EncodeMsgData env (upd_cdma_ud (put_data enc) (header_flag (number_message msgRef (ucast ident) t))) p msgRef sendCb))))))"

section \<open>Reports and settings\<close>

definition Cdma_StatusReportAnalysis :: "'e cdma_sender_env_scheme \<Rightarrow> bytes option \<Rightarrow> (sender, unit) op" where
  "Cdma_StatusReportAnalysis env statusInfo = (case statusInfo of
     None \<Rightarrow> ret ()
   | Some pdu \<Rightarrow>
       bnd (with_new () (Cdma_CreateMessage (cdma_message_env env) (StringToHex pdu))) (\<lambda>(message, _).
       case message of
         None \<Rightarrow> ret ()
       | Some msg \<Rightarrow>
           bnd (take_reports (bm_msgRef msg)) (\<lambda>cb.
           case cb of None \<Rightarrow> ret () | Some c \<Rightarrow> emit (OnSmsDeliveryResult c (StringToHex (rawPdu msg))))))"

text \<open>The remaining functions have the same text as those of the GSM sender.\<close>

definition Cdma_IsImsSmsSupported :: "'e sender_env_scheme \<Rightarrow> (sender, bool option) op" where
  "Cdma_IsImsSmsSupported env =
     (if \<not> ims_client env then ret None
      else seq (upd (\<lambda>s. s\<lparr>resIsSmsReady := False\<rparr>)) (
           seq (emit ImsGetSmsConfig)
             (gets (\<lambda>s. Some (imsSmsCfg s = IMS_SMS_ENABLE)))))"

definition Cdma_StatusReportSetImsSms :: "bool option \<Rightarrow> (sender, unit) op" where
  "Cdma_StatusReportSetImsSms r = (case r of
     None \<Rightarrow> ret ()
   | Some hasError \<Rightarrow> if hasError then upd (\<lambda>s. s\<lparr>imsSmsCfg := IMS_SMS_DISABLE\<rparr>) else ret ())"

definition Cdma_StatusReportGetImsSms :: "int option \<Rightarrow> (sender, unit) op" where
  "Cdma_StatusReportGetImsSms r = (case r of None \<Rightarrow> ret () | Some cfg \<Rightarrow> upd (\<lambda>s. s\<lparr>imsSmsCfg := cfg\<rparr>))"

definition Cdma_RegisterImsHandler :: "'e sender_env_scheme \<Rightarrow> (sender, unit) op" where
  "Cdma_RegisterImsHandler env =
     bnd (gets isImsHandlerRegistered) (\<lambda>registered.
     if registered \<or> \<not> ims_client env then ret ()
     else seq (emit RegisterImsSmsCallbackHandler) (upd (\<lambda>s. s\<lparr>isImsHandlerRegistered := True\<rparr>)))"

section \<open>Building a part anew\<close>

definition SetConcact :: "SmsSendIndexer \<Rightarrow> CdmaTransportMsg \<Rightarrow> CdmaTransportMsg" where
  "SetConcact x t =
     (if isConcat x then
        let cc = ix_smsConcat x
        in put_concat_header (if cc_is8Bits cc then UDH_CONCAT_8BIT else UDH_CONCAT_16BIT)
             \<lparr>c8_msgRef = ucast (cc_msgRef cc), c8_totalSeg = ucast (cc_totalSeg cc), c8_seqNum = ucast (cc_seqNum cc)\<rparr> t
      else t)"

definition as_octets :: "CdmaTransportMsg \<Rightarrow> CdmaTransportMsg" where
  "as_octets = upd_cdma_submit (\<lambda>s. s\<lparr>sm_userData := (sm_userData s)\<lparr>tu_encodeType := ENC_OCTET\<rparr>\<rparr>)"

definition resend_pdu :: "'e cdma_sender_env_scheme \<Rightarrow> nat \<Rightarrow> SmsSendIndexer \<Rightarrow> CdmaTransportMsg \<Rightarrow> (sender, unit) op" where
  "resend_pdu env p x t =
     bnd (Cdma_EncodeMsg (se_overlay env) t) (\<lambda>pdu.
     case pdu of
       None \<Rightarrow> SendResultCallBack (sendCallback x) SEND_SMS_FAILURE_UNKNOWN
     | Some pdu \<Rightarrow>
         seq (upd_ix p (\<lambda>x. x\<lparr>ix_pdu := pdu, ix_netWorkType := NET_TYPE_CDMA, timeStamp := env_now env\<rparr>))
           (Cdma_SendSmsToRil env (Some p)))"

text \<open>The characters are copied; the length of the user data is not set.\<close>

definition Cdma_ResendTextDelivery :: "'e cdma_sender_env_scheme \<Rightarrow> nat option \<Rightarrow> (sender, unit) op" where
  "Cdma_ResendTextDelivery env ix = (case ix of
     None \<Rightarrow> ret ()
   | Some p \<Rightarrow>
       bnd (get_ix p) (\<lambda>x.
       bnd (with_new new_cdma_message (CreateSubmitTransMsg (ix_destAddr x) (ix_scAddr x) (ix_text x) (deliveryCallback x \<noteq> None) (ix_dcs x))) (\<lambda>(t, _).
       seq (upd_ix p (\<lambda>x. x\<lparr>timeStamp := env_now env\<rparr>)) (
       if length (ix_text x) > MAX_USER_DATA_LEN + 1 then ret ()
       else resend_pdu env p x (SetConcact x (upd_cdma_ud (\<lambda>u. u\<lparr>ud_data := write_at 0 (ix_text x) (replicate (MAX_USER_DATA_LEN + 1) 0)\<rparr>)
              (as_octets (number_message (msgRefId x) (msgId x) t))))))))"

definition Cdma_ResendDataDelivery :: "'e cdma_sender_env_scheme \<Rightarrow> nat option \<Rightarrow> (sender, unit) op" where
  "Cdma_ResendDataDelivery env ix = (case ix of
     None \<Rightarrow> ret ()
   | Some p \<Rightarrow>
       bnd (get_ix p) (\<lambda>x.
       bnd (with_new new_cdma_message (attempt (CreateSubmitTransMsg_data (ix_destAddr x) (ix_scAddr x) (ix_destPort x) (deliveryCallback x \<noteq> None)))) (\<lambda>(t, _).
       case t of
         None \<Rightarrow> SendResultCallBack (sendCallback x) SEND_SMS_FAILURE_UNKNOWN
       | Some t \<Rightarrow>
           if length (ix_data x) > MAX_USER_DATA_LEN + 1 then ret ()
           else if ix_data x = [] \<and> empty_data_null env then SendResultCallBack (sendCallback x) SEND_SMS_FAILURE_UNKNOWN
           else resend_pdu env p x (upd_cdma_ud (put_data (ix_data x)) (as_octets (header_flag (number_message (msgRefId x) (msgId x) t)))))))"

section \<open>The sender as one of the two of the manager\<close>

definition cdma_ops :: "'e cdma_sender_env_scheme \<Rightarrow> sender_ops" where
  "cdma_ops env = \<lparr>op_text = Cdma_TextBasedSmsDelivery env, op_data = Cdma_DataBasedSmsDelivery env, op_to_ril = Cdma_SendSmsToRil env,
     op_resend_text = Cdma_ResendTextDelivery env, op_resend_data = Cdma_ResendDataDelivery env,
     op_ims_supported = Cdma_IsImsSmsSupported env, op_register_ims = Cdma_RegisterImsHandler env\<rparr>"

definition CdmaProcessEvent ::
  "(nat option \<Rightarrow> (sender, unit) op) option \<Rightarrow> 'e cdma_sender_env_scheme \<Rightarrow> sender_event \<Rightarrow> (sender, unit) op" where
  "CdmaProcessEvent sendRetry env =
     ProcessEvent sendRetry (Cdma_StatusReportAnalysis env) Cdma_StatusReportSetImsSms Cdma_StatusReportGetImsSms env"

end
