(* ===== verification/Cdma_Msg_Layout.thy ===== *)
theory Cdma_Msg_Layout
  imports Cdma_Items Cdma_Sms_Sender
begin

text \<open>
  The submitted CDMA message on the air: its items, what the encoder writes and what the decoder makes of it, up to the PDU that the sender hands to the radio.
\<close>

section \<open>The text of a message\<close>

definition ud_headers :: "SmsUDPackage \<Rightarrow> SmsUDH list" where
  "ud_headers u = take (unat (headerCnt u)) (ud_header u)"

definition ud_text :: "SmsUDPackage \<Rightarrow> bytes" where
  "ud_text u = take (unat (ud_length u)) (ud_data u)"

definition callback_text :: "SmsTeleSvcAddr \<Rightarrow> bytes" where
  "callback_text a = take (unat (sa_addrLen a)) (sa_szData a)"

text \<open>A struct that is in the form the encoder can send completely.\<close>

definition submit_ok :: "TeleserviceSubmit \<Rightarrow> bool" where
  "submit_ok m \<longleftrightarrow>
     (let d = sm_userData m; u = tu_userData d; c = sm_callbackNumber m in
      u = mk_ud (ud_headers u) (ud_text u) \<and> text_ok (tu_encodeType d) (ud_headers u) (ud_text u) \<and>
      mi_headerInd (sm_msgId m) = (ud_headers u \<noteq> []) \<and>
      (vp_format (sm_deferValPeriod m) = SMS_TIME_ABSOLUTE \<longrightarrow> bcd_time_ok (vp_absTime (sm_deferValPeriod m))) \<and>
      c = with_callback c (callback_text c) \<and> callback_ok (c, callback_text c))"

definition asks_reply :: "SmsReplyOption \<Rightarrow> bool" where
  "asks_reply r \<longleftrightarrow> ro_userAck r \<or> ro_dak r \<or> ro_readAck r \<or> ro_report r"

definition defer_items :: "SmsValPeriod \<Rightarrow> TeleserviceSubmit item list" where
  "defer_items v =
     (let period = zoom sm_deferValPeriod (\<lambda>p m. m\<lparr>sm_deferValPeriod := p\<rparr>);
          set_format = (\<lambda>f m. m\<lparr>sm_deferValPeriod := (sm_deferValPeriod m)\<lparr>vp_format := f\<rparr>\<rparr>);
          set_time = (\<lambda>f m. m\<lparr>sm_deferValPeriod := (sm_deferValPeriod m)\<lparr>vp_absTime := f (vp_absTime (sm_deferValPeriod m))\<rparr>\<rparr>) in
      case vp_format v of
        SMS_TIME_RELATIVE \<Rightarrow> [\<lparr>it_ident = DEFERRED_DELIVERY_TIME_RELATIVE, it_body = [ta_year (vp_absTime v)],
          it_dec = period (relative_param DEFERRED_DELIVERY_TIME_RELATIVE), it_set = set_format SMS_TIME_RELATIVE,
          it_fill = set_time (\<lambda>t. t\<lparr>ta_year := ta_year (vp_absTime v)\<rparr>)\<rparr>]
      | SMS_TIME_ABSOLUTE \<Rightarrow> [\<lparr>it_ident = DEFERRED_DELIVERY_TIME_ABSOLUTE, it_body = bcd_time (vp_absTime v),
          it_dec = period (absolute_param DEFERRED_DELIVERY_TIME_ABSOLUTE), it_set = set_format SMS_TIME_ABSOLUTE,
          it_fill = set_time (\<lambda>t. (vp_absTime v)\<lparr>ta_timeZone := ta_timeZone t\<rparr>)\<rparr>]
      | _ \<Rightarrow> [])"

definition id_item :: "SmsTeleSvcMsgId \<Rightarrow> TeleserviceSubmit item" where
  "id_item v = \<lparr>it_ident = MESSAGE_IDENTIFIER, it_body = pack (msg_id_fields 2 v), it_dec = message_id_param sm_msgId (\<lambda>x m. m\<lparr>sm_msgId := x\<rparr>),
     it_set = (\<lambda>x. x), it_fill = (\<lambda>m. m\<lparr>sm_msgId := v\<rparr>)\<rparr>"

definition text_item :: "iconv \<Rightarrow> nat \<Rightarrow> SmsTeleSvcUserData \<Rightarrow> TeleserviceSubmit item" where
  "text_item ic w d =
     (let ty = tu_encodeType d; hs = ud_headers (tu_userData d); us = ud_text (tu_userData d) in
      \<lparr>it_ident = USER_DATA, it_body = pack (user_text_fields ty hs us),
       it_dec = user_data_param ic w sm_msgId sm_userData (\<lambda>x m. m\<lparr>sm_userData := x\<rparr>), it_set = (\<lambda>x. x),
       it_fill = (\<lambda>m. m\<lparr>sm_userData := sent_text ty hs us (sm_userData m)\<rparr>)\<rparr>)"

definition callback_item :: "SmsTeleSvcAddr \<Rightarrow> TeleserviceSubmit item" where
  "callback_item c = member_item CALLBACK_NUMBER (pack (callback_fields c (callback_text c))) sm_callbackNumber (\<lambda>x m. m\<lparr>sm_callbackNumber := x\<rparr>)
     CdmaSmsCallbackNumber_Decode (sent_callback c (callback_text c))"

definition submit_items :: "iconv \<Rightarrow> nat \<Rightarrow> TeleserviceSubmit \<Rightarrow> TeleserviceSubmit item list" where
  "submit_items ic w m =
     [id_item (sm_msgId m), text_item ic w (sm_userData m)] @ defer_items (sm_deferValPeriod m) @
     (if sm_priority m \<le> PRIORITY_EMERGENCY
      then [member_item PRIORITY_INDICATOR (pack [(sm_priority m, 2)]) sm_priority (\<lambda>x m. m\<lparr>sm_priority := x\<rparr>) CdmaSmsPriorityInd_Decode (\<lambda>_. sm_priority m)]
      else []) @
     (if asks_reply (sm_replyOpt m)
      then [member_item REPLY_OPTION (pack (reply_fields (sm_replyOpt m))) sm_replyOpt (\<lambda>x m. m\<lparr>sm_replyOpt := x\<rparr>) CdmaSmsReplyOption_Decode (\<lambda>_. sm_replyOpt m)]
      else []) @
     (if sa_addrLen (sm_callbackNumber m) > 0 then [callback_item (sm_callbackNumber m)] else [])"

section \<open>Writing a teleservice message\<close>

lemma submit_okD:
  assumes "submit_ok m"
  shows "sm_userData m = mk_tele_ud (tu_encodeType (sm_userData m)) (tu_msgType (sm_userData m)) (ud_headers (tu_userData (sm_userData m))) (ud_text (tu_userData (sm_userData m)))"
    "text_ok (tu_encodeType (sm_userData m)) (ud_headers (tu_userData (sm_userData m))) (ud_text (tu_userData (sm_userData m)))"
    "mi_headerInd (sm_msgId m) = (ud_headers (tu_userData (sm_userData m)) \<noteq> [])"
    "vp_format (sm_deferValPeriod m) = SMS_TIME_ABSOLUTE \<Longrightarrow> bcd_time_ok (vp_absTime (sm_deferValPeriod m))"
    "sm_callbackNumber m = with_callback (sm_callbackNumber m) (callback_text (sm_callbackNumber m))"
    "callback_ok (sm_callbackNumber m, callback_text (sm_callbackNumber m))"
  using assms by (auto simp: submit_ok_def Let_def intro: SmsTeleSvcUserData.equality)

lemma emit_submit:
  assumes "submit_ok m"
  shows "emit_all (CdmaSmsSubmitMessage m) (submit_items ic w m)"
proof -
  note ok = submit_okD [OF assms]
  have ud: "emits (CdmaSmsUserData_Encode (sm_userData m)) (tlv USER_DATA (it_body (text_item ic w (sm_userData m))))"
    by (subst ok(1)) (use emits_text [OF ok(2)] in \<open>simp add: text_item_def Let_def\<close>)
  have cb: "emits (CdmaSmsCallbackNumber_Encode (sm_callbackNumber m)) (tlv CALLBACK_NUMBER (it_body (callback_item (sm_callbackNumber m))))"
    by (subst ok(5)) (use callback_number.enc_emits [OF ok(6)] in \<open>simp add: callback_item_def\<close>)
  have prio: "sm_priority m \<le> 3 \<Longrightarrow> below 2 (sm_priority m)" by (simp add: word_le_nat_alt)
  have defer_e: "emit_all (case vp_format (sm_deferValPeriod m) of
        SMS_TIME_RELATIVE \<Rightarrow> [CdmaSmsBaseParameter_Encode DEFERRED_DELIVERY_TIME_RELATIVE (ta_year (vp_absTime (sm_deferValPeriod m)))]
      | SMS_TIME_ABSOLUTE \<Rightarrow> [CdmaSmsAbsoluteTime_Encode DEFERRED_DELIVERY_TIME_ABSOLUTE (vp_absTime (sm_deferValPeriod m))]
      | _ \<Rightarrow> []) (defer_items (sm_deferValPeriod m))"
    using base_param.enc_emits absolute_time.enc_emits [OF ok(4)] by (simp add: defer_items_def Let_def split: SmsTimeFormat.split)
  show ?thesis
    unfolding CdmaSmsSubmitMessage_def submit_items_def asks_reply_def
    by (intro emit_all_append emit_all_if defer_e)
      (use ud cb prio message_id.enc_emits [of 2] two_bit.enc_emits reply_option.enc_emits in
        \<open>simp_all add: id_item_def CdmaSmsPriorityInd_Encode_def text_item_def callback_item_def Let_def\<close>)
qed

section \<open>Reading a teleservice message\<close>

definition received_period :: "SmsValPeriod \<Rightarrow> SmsValPeriod" where
  "received_period v =
     (case vp_format v of
        SMS_TIME_RELATIVE \<Rightarrow> zero_period\<lparr>vp_format := SMS_TIME_RELATIVE, vp_absTime := zero_abs_time\<lparr>ta_year := ta_year (vp_absTime v)\<rparr>\<rparr>
      | SMS_TIME_ABSOLUTE \<Rightarrow> v\<lparr>vp_absTime := (vp_absTime v)\<lparr>ta_timeZone := 0\<rparr>\<rparr>
      | _ \<Rightarrow> zero_period)"

definition received_callback :: "SmsTeleSvcAddr \<Rightarrow> SmsTeleSvcAddr" where
  "received_callback c = (if sa_addrLen c > 0 then sent_callback c (callback_text c) zero_sub_addr else zero_sub_addr)"

definition received_submit :: "TeleserviceSubmit \<Rightarrow> TeleserviceSubmit" where
  "received_submit m = zero_tele_submit\<lparr>sm_msgId := sm_msgId m, sm_userData := (sm_userData m)\<lparr>tu_msgType := 0\<rparr>,
     sm_deferValPeriod := received_period (sm_deferValPeriod m),
     sm_priority := (if sm_priority m \<le> PRIORITY_EMERGENCY then sm_priority m else PRIORITY_RESERVED), sm_replyOpt := sm_replyOpt m,
     sm_callbackNumber := received_callback (sm_callbackNumber m)\<rparr>"

abbreviation scanned_submit :: "TeleserviceSubmit \<Rightarrow> TeleserviceSubmit" where
  "scanned_submit m \<equiv> zero_tele_submit\<lparr>sm_priority := PRIORITY_RESERVED,
     sm_deferValPeriod := zero_period\<lparr>vp_format := (case vp_format (sm_deferValPeriod m) of SMS_TIME_RELATIVE \<Rightarrow> SMS_TIME_RELATIVE | SMS_TIME_ABSOLUTE \<Rightarrow> SMS_TIME_ABSOLUTE | _ \<Rightarrow> SMS_TIME_EMPTY)\<rparr>\<rparr>"

lemmas item_defs = id_item_def text_item_def callback_item_def member_item_def Let_def

lemma reply_none: "\<not> asks_reply r \<Longrightarrow> zero_reply = r"
  by (cases r) (simp add: asks_reply_def zero_reply_def)

lemma set_defer: "fold it_set (defer_items v) x = (case vp_format v of
    SMS_TIME_RELATIVE \<Rightarrow> x\<lparr>sm_deferValPeriod := (sm_deferValPeriod x)\<lparr>vp_format := SMS_TIME_RELATIVE\<rparr>\<rparr>
  | SMS_TIME_ABSOLUTE \<Rightarrow> x\<lparr>sm_deferValPeriod := (sm_deferValPeriod x)\<lparr>vp_format := SMS_TIME_ABSOLUTE\<rparr>\<rparr> | _ \<Rightarrow> x)"
  by (simp add: defer_items_def Let_def split: SmsTimeFormat.split)

lemma scanned_items:
  "fold it_set (submit_items ic w m) (zero_tele_submit\<lparr>sm_priority := PRIORITY_RESERVED\<rparr>) = scanned_submit m"
  by (simp add: submit_items_def set_defer item_defs zero_tele_submit_def zero_period_def split: SmsTimeFormat.split)

lemma sent_text_zero:
  assumes "text_ok ty hs us"
  shows "sent_text ty hs us zero_tele_ud = mk_tele_ud ty 0 hs us"
proof -
  have "length hs \<le> MAX_UD_HEADER_NUM" "length us \<le> MAX_USER_DATA_LEN + 1" using assms by (auto simp: text_ok_def headers_ok_def)
  then show ?thesis
    by (simp add: sent_text_def put_ud_text_def put_length_def put_headers_def no_headers_def put_package_def zero_tele_ud_def zero_ud_def mk_ud_def write_at_def
        del: replicate_Suc)
qed

lemma filled_items:
  assumes "submit_ok m"
  shows "fold it_fill (submit_items ic w m) (scanned_submit m) = received_submit m"
proof -
  note ok = submit_okD [OF assms]
  let ?d = "sm_userData m"
  have "sent_text (tu_encodeType ?d) (ud_headers (tu_userData ?d)) (ud_text (tu_userData ?d)) zero_tele_ud = ?d\<lparr>tu_msgType := 0\<rparr>"
    using sent_text_zero [OF ok(2)] arg_cong [OF ok(1), of "\<lambda>d. d\<lparr>tu_msgType := 0\<rparr>"] by simp
  then show ?thesis
    using reply_none [of "sm_replyOpt m"]
    by (cases "vp_format (sm_deferValPeriod m)")
      (simp_all add: submit_items_def defer_items_def item_defs received_submit_def received_period_def received_callback_def zero_tele_submit_def zero_period_def
        zero_abs_time_def)
qed

lemma scan_submit:
  assumes "submit_ok m" "length (wire (submit_items ic w m)) < 256"
  shows "scannable (Submit_push ic w) (submit_items ic w m) x"
proof -
  note ok = submit_okD [OF assms(1)]
  have parts: "length (it_body i) < 256" if "i \<in> set (submit_items ic w m)" for i
    using body_in_wire [OF that] assms(2) by simp
  moreover have "Submit_push ic w (it_ident i) = pushed (it_set i) (it_dec i)" if "i \<in> set (submit_items ic w m)" for i
    using that by (auto simp: submit_items_def defer_items_def item_defs Submit_push_def pushed_id split: SmsTimeFormat.splits if_splits)
  ultimately show ?thesis using scannable_append [of "submit_items ic w m" "Submit_push ic w" "[]" x] by simp
qed

lemma decode_defer:
  assumes "vp_format v = SMS_TIME_ABSOLUTE \<Longrightarrow> bcd_time_ok (vp_absTime v)"
  shows "decodable (defer_items v) x"
  using assms base_param.dec_takes absolute_time.dec_takes
  by (auto simp: defer_items_def Let_def relative_param_def absolute_param_def split: SmsTimeFormat.split intro!: takes_zoom)

lemma keep_id:
  "sm_msgId (fold it_fill (defer_items v) x) = sm_msgId x" "sm_callbackNumber (fold it_fill (defer_items v) x) = sm_callbackNumber x"
  by (simp_all add: defer_items_def Let_def split: SmsTimeFormat.split)

lemma decode_submit:
  assumes "submit_ok m" "ud_sized (sm_userData x)" "length (sa_szData (sm_callbackNumber x)) = 257"
  shows "decodable (submit_items ic w m) x"
proof -
  note ok = submit_okD [OF assms(1)]
  let ?d = "sm_userData m"
  have id: "takes (message_id_param sm_msgId (\<lambda>v m. m\<lparr>sm_msgId := v\<rparr>)) (tlv MESSAGE_IDENTIFIER (pack (msg_id_fields 2 (sm_msgId m)))) y (y\<lparr>sm_msgId := sm_msgId m\<rparr>)" for y
    unfolding message_id_param_def by (intro takes_zoom message_id.dec_takes) simp_all
  have ud: "takes (user_data_param ic w sm_msgId sm_userData (\<lambda>v m. m\<lparr>sm_userData := v\<rparr>)) (tlv USER_DATA (it_body (text_item ic w ?d))) y (it_fill (text_item ic w ?d) y)"
    if "sm_msgId y = sm_msgId m" "ud_sized (sm_userData y)" for y
    unfolding user_data_param_def using that ok(3) takes_text [OF ok(2) that(2), of ic w]
    by (intro takes_get_out) (auto simp: text_item_def Let_def intro: takes_zoom)
  have cb: "takes (zoom sm_callbackNumber (\<lambda>v m. m\<lparr>sm_callbackNumber := v\<rparr>) CdmaSmsCallbackNumber_Decode)
      (tlv CALLBACK_NUMBER (it_body (callback_item (sm_callbackNumber m)))) y (it_fill (callback_item (sm_callbackNumber m)) y)"
    if "length (sa_szData (sm_callbackNumber y)) = 257" for y
    using callback_number.dec_takes [OF ok(6) that] by (auto simp: callback_item_def intro: takes_zoom)
  have prio: "sm_priority m \<le> 3 \<Longrightarrow> below 2 (sm_priority m)" by (simp add: word_le_nat_alt)
  have head: "decodable [id_item (sm_msgId m), text_item ic w ?d] x"
    using id [of x] ud [of "x\<lparr>sm_msgId := sm_msgId m\<rparr>"] assms(2) by (simp add: id_item_def text_item_def Let_def)
  have tail: "decodable (if sa_addrLen (sm_callbackNumber m) > 0 then [callback_item (sm_callbackNumber m)] else []) y"
    if "length (sa_szData (sm_callbackNumber y)) = 257" for y
    using cb [OF that] by (simp add: callback_item_def)
  show ?thesis
    unfolding submit_items_def decodable_append
    by (intro conjI head decode_defer tail)
      (use ok(4) prio assms(3) in \<open>auto simp: keep_id item_defs CdmaSmsPriorityInd_Decode_def intro!: takes_zoom two_bit.dec_takes reply_option.dec_takes\<close>)
qed

section \<open>Bearer data\<close>

lemma SetIndex_zb: "SetIndex (length p) (zb (rev q @ p) xs) = Ok () (zb p (q @ xs))"
  by (simp add: SetIndex_def zb_def)

lemma CdmaSmsMessageId_Decode_type:
  assumes "below 4 ty" "length p + length (tlv 0 (pack (msg_id_fields ty v))) + length rest \<le> 256"
  shows "CdmaSmsMessageId_Decode (zb p (tlv 0 (pack (msg_id_fields ty v)) @ rest), x) = Ok ty (zb (rev (tlv 0 (pack (msg_id_fields ty v))) @ p) rest, v)"
proof -
  have "fits (word_of_nat (length (pack (msg_id_fields ty v))) # 0 # p) (msg_id_fields ty v) rest"
    using assms by (simp add: fits_def) (simp add: msg_id_fields_def field_ok_def [of "(ty, 4)"])
  then show ?thesis
    by (simp add: CdmaSmsMessageId_Decode_def tlv_def op_simps IsInvalidPdu_zb fz_start)
      (simp add: msg_id_fields_def op_simps fz_simps word_halves)
qed

lemma find_message_type_here:
  assumes "CdmaSmsMessageId_Decode (zb p (MESSAGE_IDENTIFIER # t), zero_msgId) = Ok ty (b, x)"
  shows "find_message_type (Suc n) (zb p (MESSAGE_IDENTIFIER # t)) = Ok ty b"
  using assms by (simp add: op_simps zb_simps on_local_def)

lemma GetMessageType_submit:
  assumes "length p + length (wire (submit_items ic w m)) < 256"
  shows "\<exists>q r. wire (submit_items ic w m) = q @ r \<and> GetMessageType (zb p (wire (submit_items ic w m))) = Ok 2 (zb (rev q @ p) r)"
proof -
  let ?q = "tlv 0 (pack (msg_id_fields 2 (sm_msgId m)))"
  obtain r where r: "wire (submit_items ic w m) = ?q @ r" by (simp add: submit_items_def id_item_def)
  obtain t where t: "?q @ r = 0 # t" by (simp add: tlv_def)
  have "CdmaSmsMessageId_Decode (zb p (?q @ r), zero_msgId) = Ok 2 (zb (rev ?q @ p) r, sm_msgId m)"
    using assms r by (intro CdmaSmsMessageId_Decode_type) simp_all
  then have "find_message_type (Suc 256) (zb p (?q @ r)) = Ok 2 (zb (rev ?q @ p) r)"
    unfolding t by (rule find_message_type_here)
  then have "GetMessageType (zb p (?q @ r)) = Ok 2 (zb (rev ?q @ p) r)"
    by (simp add: GetMessageType_def IsEmpty_def bnd_def gets_def)
  with r show ?thesis by (auto simp only:)
qed

interpretation submit_member: struct_member "\<lambda>m. get_submit ov (tm_data m)" "\<lambda>d m. m\<lparr>tm_data := TeleSubmit d\<rparr>" for ov
  by unfold_locales (simp_all add: get_submit_def)

definition bearer_decoder :: "tele_overlay \<Rightarrow> iconv \<Rightarrow> nat \<Rightarrow> TeleserviceSubmit \<Rightarrow> CdmaTeleserviceMsg dec_param" where
  "bearer_decoder ov ic w m = CdmaSmsBearerData_Decode
     (Some (map (zoom (\<lambda>m. get_submit ov (tm_data m)) (\<lambda>d m. m\<lparr>tm_data := TeleSubmit d\<rparr>)) (map it_dec (submit_items ic w m))))"

abbreviation scanned_tele :: "TeleserviceSubmit \<Rightarrow> CdmaTeleserviceMsg" where
  "scanned_tele m \<equiv> \<lparr>tm_type = TELE_SUBMIT, tm_data = TeleSubmit (scanned_submit m)\<rparr>"

abbreviation received_tele :: "TeleserviceSubmit \<Rightarrow> CdmaTeleserviceMsg" where
  "received_tele m \<equiv> \<lparr>tm_type = TELE_SUBMIT, tm_data = TeleSubmit (received_submit m)\<rparr>"

lemma items_nonempty [simp]: "submit_items ic w m \<noteq> []" "CdmaSmsSubmitMessage m \<noteq> []"
  by (simp_all add: submit_items_def CdmaSmsSubmitMessage_def)

lemma items_count: "length (submit_items ic w m) \<le> SUB_PARAMETER_SIZE_MAX"
  by (simp add: submit_items_def defer_items_def Let_def SUB_PARAMETER_SIZE_MAX_def split: SmsTimeFormat.split)

lemma bearer_scan:
  assumes "submit_ok m" "length p + length (wire (submit_items ic w m)) < 256"
  shows "CdmaSmsBearerData_scan ov ic w cmas (zb p (wire (submit_items ic w m)), zero_tele) =
    Ok (Some (map (zoom (\<lambda>m. get_submit ov (tm_data m)) (\<lambda>d m. m\<lparr>tm_data := TeleSubmit d\<rparr>)) (map it_dec (submit_items ic w m))))
      (zb (rev (wire (submit_items ic w m)) @ p) [], scanned_tele m)"
proof -
  let ?x = "zero_tele_submit\<lparr>sm_priority := PRIORITY_RESERVED\<rparr>"
  from GetMessageType_submit [OF assms(2)] obtain q r where q: "wire (submit_items ic w m) = q @ r"
    "GetMessageType (zb p (wire (submit_items ic w m))) = Ok 2 (zb (rev q @ p) r)" by blast
  have set: "SetIndex (to_u8 (length p)) (zb (rev q @ p) r) = Ok () (zb p (wire (submit_items ic w m)))"
    using assms(2) SetIndex_zb [of p q r] q(1) by (simp add: to_u8_def)
  have "scannable (Submit_push ic w) (submit_items ic w m) ?x" using assms by (intro scan_submit) simp_all
  from scan_items [OF this items_count assms(2)]
  have scan: "CdmaSmsSubmitMessage_scan ic w (zb p (wire (submit_items ic w m)), zero_tele_submit) =
      Ok (map it_dec (submit_items ic w m)) (zb (rev (wire (submit_items ic w m)) @ p) [], scanned_submit m)"
    by (simp add: CdmaSmsSubmitMessage_scan_def on_nonempty_def IsEmpty_def op_simps scanned_items)
  show ?thesis
    by (simp add: CdmaSmsBearerData_scan_def scan_member_def Let_def bnd_def seq_def on_buf_def gets_def q(2) ignore_def set zoom_def on_out_def ret_def
        zero_tele_def get_submit_def scan)
qed

lemma bearer_takes:
  assumes "submit_ok m"
  shows "takes (bearer_decoder ov ic w m) (tlv BEARER_DATA (wire (submit_items ic w m))) (scanned_tele m) (received_tele m)"
proof -
  have "decodable (submit_items ic w m) (scanned_submit m)"
    using assms by (intro decode_submit) (simp_all add: zero_tele_submit_def zero_tele_ud_def zero_ud_def ud_sized_def zero_sub_addr_def CDMASMS_ADDRESS_LEN_MAX_def)
  from submit_member.takes_lift [OF this, of ov "scanned_tele m"] filled_items [OF assms]
  have T: "takes (each (\<lambda>p. p) (map (zoom (\<lambda>m. get_submit ov (tm_data m)) (\<lambda>d m. m\<lparr>tm_data := TeleSubmit d\<rparr>)) (map it_dec (submit_items ic w m))))
      (wire (submit_items ic w m)) (scanned_tele m) (received_tele m)"
    by simp
  show ?thesis
    unfolding takes_def
  proof (intro allI impI)
    fix p rest :: bytes
    assume "length p + length (tlv BEARER_DATA (wire (submit_items ic w m))) + length rest \<le> 256"
    with T show "bearer_decoder ov ic w m (zb p (tlv BEARER_DATA (wire (submit_items ic w m)) @ rest), scanned_tele m) =
        Ok () (zb (rev (tlv BEARER_DATA (wire (submit_items ic w m))) @ p) rest, received_tele m)"
      by (simp add: bearer_decoder_def CdmaSmsBearerData_Decode_def CdmaSmsTeleserviceMessage_Decode_def tlv_def takes_def bnd_def seq_def on_buf_def
          IsInvalidPdu_zb nonempty_zb ret_def)
  qed
qed

lemma bearer_emits:
  assumes "submit_ok m" "tm_type t = TELE_SUBMIT" "tm_data t = TeleSubmit m"
  shows "emits (CdmaSmsBearerData_Encode ov t) (tlv BEARER_DATA (wire (submit_items ic w m)))"
  unfolding emits_def
proof (intro allI impI)
  fix p :: bytes and n
  let ?w = "wire (submit_items ic w m)"
  assume n: "length (tlv BEARER_DATA ?w) \<le> n" "length p + n \<le> 256"
  have "emits (each (\<lambda>p. p) (CdmaSmsSubmitMessage m)) ?w" by (rule emits_each [OF emit_submit [OF assms(1)]])
  with n have E: "each (\<lambda>p. p) (CdmaSmsSubmitMessage m) (wb (0 # BEARER_DATA # p) (n - 2)) = Ok () (wb (rev ?w @ 0 # BEARER_DATA # p) (n - 2 - length ?w))"
    by (simp add: emits_def)
  have I: "InsertByte v (Suc (length p)) (wb (rev ?w @ 0 # BEARER_DATA # p) k) = Ok () (wb (rev ?w @ v # BEARER_DATA # p) k)" for v k
    using InsertByte_zb [of v "BEARER_DATA # p" "rev ?w" 0] by simp
  show "CdmaSmsBearerData_Encode ov t (wb p n) = Ok () (wb (rev (tlv BEARER_DATA ?w) @ p) (n - length (tlv BEARER_DATA ?w)))"
    using E n assms(2,3)
    by (simp add: CdmaSmsBearerData_Encode_def CdmaSmsBearerData_def get_submit_def CdmaSmsTeleserviceMessage_Encode_def nonempty_zb seq_def bnd_def gets_def
        WriteByte_wb MoveForward_wb I tlv_def numeral_2_eq_2)
qed

section \<open>Point to point messages\<close>

definition addr_text :: "TransportAddr \<Rightarrow> bytes" where
  "addr_text a = take (unat (tra_addrLen a)) (tra_szData a)"

definition subaddr_text :: "TransportSubAddr \<Rightarrow> bytes" where
  "subaddr_text a = take (unat (tsa_addrLen a)) (tsa_szData a)"

definition submitted :: "CdmaP2PMsg \<Rightarrow> TeleserviceSubmit" where
  "submitted m = (case tm_data (p2p_telesvcMsg m) of TeleSubmit s \<Rightarrow> s | _ \<Rightarrow> zero_tele_submit)"

definition p2p_ok :: "CdmaP2PMsg \<Rightarrow> bool" where
  "p2p_ok m \<longleftrightarrow>
     (let a = p2p_address m; b = p2p_subAddress m in
      a = with_number a (addr_text a) \<and> addr_ok (a, addr_text a) \<and>
      b = with_subaddr b (subaddr_text b) \<and> tsa_type b \<le> 2 \<and> length (subaddr_text b) < 256 \<and> below 6 (p2p_replySeq m) \<and>
      p2p_telesvcMsg m = \<lparr>tm_type = TELE_SUBMIT, tm_data = TeleSubmit (submitted m)\<rparr> \<and> submit_ok (submitted m))"

definition head_items :: "CdmaP2PMsg \<Rightarrow> CdmaP2PMsg item list" where
  "head_items m =
     (let a = p2p_address m; b = p2p_subAddress m in
      [member_item TELESERVICE_ID (word_octets (p2p_teleserviceId m)) p2p_teleserviceId (\<lambda>x m. m\<lparr>p2p_teleserviceId := x\<rparr>)
         CdmaSmsTeleserviceId_Decode (\<lambda>_. p2p_teleserviceId m)] @
      (if p2p_serviceCtg m < CAT_UNKNOWN
       then [member_item SERVICE_CATEGORY (word_octets (p2p_serviceCtg m)) p2p_serviceCtg (\<lambda>x m. m\<lparr>p2p_serviceCtg := x\<rparr>)
         CdmaSmsServiceCategory_Decode (\<lambda>_. p2p_serviceCtg m)] else []) @
      [member_item DEST_ADDRESS (pack (addr_fields a (addr_text a))) p2p_address (\<lambda>x m. m\<lparr>p2p_address := x\<rparr>)
         (CdmaSmsAddressParameter_Decode DEST_ADDRESS) (\<lambda>_. sent_addr a (addr_text a))] @
      (if tsa_addrLen b > 0
       then [member_item DEST_SUB_ADDRESS (pack (sub_fields b (subaddr_text b))) p2p_subAddress (\<lambda>x m. m\<lparr>p2p_subAddress := x\<rparr>)
         (CdmaSmsSubaddress_Decode DEST_SUB_ADDRESS) (\<lambda>_. b)] else []) @
      (if p2p_replySeq m > 0
       then [member_item BEARER_REPLY_OPTION (pack [(p2p_replySeq m, 6)]) p2p_replySeq (\<lambda>x m. m\<lparr>p2p_replySeq := x\<rparr>)
         CdmaSmsBearerReply_Decode (\<lambda>_. p2p_replySeq m)] else []))"

definition bearer_item :: "tele_overlay \<Rightarrow> iconv \<Rightarrow> nat \<Rightarrow> TeleserviceSubmit \<Rightarrow> CdmaP2PMsg item" where
  "bearer_item ov ic w s =
     \<lparr>it_ident = BEARER_DATA, it_body = wire (submit_items ic w s), it_dec = zoom p2p_telesvcMsg (\<lambda>x m. m\<lparr>p2p_telesvcMsg := x\<rparr>) (bearer_decoder ov ic w s),
      it_set = (\<lambda>m. m\<lparr>p2p_telesvcMsg := scanned_tele s\<rparr>), it_fill = (\<lambda>m. m\<lparr>p2p_telesvcMsg := received_tele s\<rparr>)\<rparr>"

abbreviation p2p_items :: "tele_overlay \<Rightarrow> iconv \<Rightarrow> nat \<Rightarrow> CdmaP2PMsg \<Rightarrow> CdmaP2PMsg item list" where
  "p2p_items ov ic w m \<equiv> head_items m @ [bearer_item ov ic w (submitted m)]"

definition received_p2p :: "CdmaP2PMsg \<Rightarrow> CdmaP2PMsg" where
  "received_p2p m = \<lparr>p2p_teleserviceId = p2p_teleserviceId m, p2p_serviceCtg = (if p2p_serviceCtg m < CAT_UNKNOWN then p2p_serviceCtg m else CAT_UNKNOWN),
     p2p_address = sent_addr (p2p_address m) (addr_text (p2p_address m)),
     p2p_subAddress = (if tsa_addrLen (p2p_subAddress m) > 0 then p2p_subAddress m else zero_trans_sub), p2p_replySeq = p2p_replySeq m,
     p2p_telesvcMsg = received_tele (submitted m)\<rparr>"

lemma p2p_okD:
  assumes "p2p_ok m"
  shows "p2p_address m = with_number (p2p_address m) (addr_text (p2p_address m))" "addr_ok (p2p_address m, addr_text (p2p_address m))"
    "p2p_subAddress m = with_subaddr (p2p_subAddress m) (subaddr_text (p2p_subAddress m))"
    "tsa_type (p2p_subAddress m) \<le> 2 \<and> length (subaddr_text (p2p_subAddress m)) < 256" "below 6 (p2p_replySeq m)"
    "p2p_telesvcMsg m = \<lparr>tm_type = TELE_SUBMIT, tm_data = TeleSubmit (submitted m)\<rparr>" "submit_ok (submitted m)"
  using assms by (simp_all add: p2p_ok_def Let_def)

lemma emit_p2p:
  assumes "p2p_ok m"
  shows "emit_all (CdmaSmsP2pMessage ov m) (p2p_items ov ic w m)"
proof -
  note ok = p2p_okD [OF assms]
  have addr: "emits (CdmaSmsAddressParameter_Encode DEST_ADDRESS (p2p_address m)) (tlv DEST_ADDRESS (pack (addr_fields (p2p_address m) (addr_text (p2p_address m)))))"
    by (subst ok(1)) (rule emits_address [OF ok(2)])
  have sub: "emits (CdmaSmsSubaddress_Encode DEST_SUB_ADDRESS (p2p_subAddress m)) (tlv DEST_SUB_ADDRESS (pack (sub_fields (p2p_subAddress m) (subaddr_text (p2p_subAddress m)))))"
    by (subst ok(3)) (use dest_subaddress.enc_emits [of "(p2p_subAddress m, subaddr_text (p2p_subAddress m))"] ok(4) in simp)
  have bearer: "emits (CdmaSmsBearerData_Encode ov (p2p_telesvcMsg m)) (tlv BEARER_DATA (wire (submit_items ic w (submitted m))))"
    using ok(6,7) by (intro bearer_emits) simp_all
  show ?thesis
    unfolding CdmaSmsP2pMessage_def head_items_def Let_def append_assoc
    by (intro emit_all_append emit_all_if)
      (use addr sub bearer ok(5) teleservice_id.enc_emits service_category.enc_emits bearer_reply.enc_emits in \<open>simp_all add: bearer_item_def\<close>)
qed

lemma scan_p2p:
  assumes "p2p_ok m" "length (wire (p2p_items ov ic w m)) < 256" "p2p_telesvcMsg x = zero_tele"
  shows "scannable (P2p_push ov ic w) (p2p_items ov ic w m) x" "fold it_set (p2p_items ov ic w m) x = x\<lparr>p2p_telesvcMsg := scanned_tele (submitted m)\<rparr>"
proof -
  let ?i = "bearer_item ov ic w (submitted m)"
  have keep: "fold it_set (head_items m) x = x" for x
    by (simp add: head_items_def Let_def)
  have "length (it_body i) < 256" if "i \<in> set (p2p_items ov ic w m)" for i
    using body_in_wire [OF that] assms(2) by simp
  moreover have "P2p_push ov ic w (it_ident i) = pushed (it_set i) (it_dec i)" if "i \<in> set (head_items m)" for i
    using that by (auto simp: head_items_def Let_def P2p_push_def pushed_id split: if_splits)
  moreover have "P2p_push ov ic w BEARER_DATA (zb p (it_body ?i), x) = Ok (Some (it_dec ?i)) (zb p (it_body ?i), it_set ?i x)"
    if "length p + length (it_body ?i) < 256" for p
    using bearer_scan [OF p2p_okD(7) [OF assms(1)], of p ic w ov False] that assms(3)
      SetIndex_zb [of p "it_body ?i" "[]"]
    by (simp add: P2p_push_def bearer_param_def bearer_item_def bnd_def seq_def gets_def on_buf_def zoom_def ret_def ignore_def bearer_decoder_def)
  moreover have "it_ident ?i = BEARER_DATA" by (simp add: bearer_item_def)
  ultimately show "scannable (P2p_push ov ic w) (p2p_items ov ic w m) x"
    by (intro scannable_append) (simp_all add: keep)
  show "fold it_set (p2p_items ov ic w m) x = x\<lparr>p2p_telesvcMsg := scanned_tele (submitted m)\<rparr>"
    by (simp add: keep) (simp add: bearer_item_def)
qed

lemma decode_p2p:
  assumes "p2p_ok m" "p2p_telesvcMsg x = scanned_tele (submitted m)"
  shows "decodable (p2p_items ov ic w m) x"
proof -
  note ok = p2p_okD [OF assms(1)]
  have addr: "takes (CdmaSmsAddressParameter_Decode DEST_ADDRESS) (tlv DEST_ADDRESS (pack (addr_fields (p2p_address m) (addr_text (p2p_address m))))) y
      (sent_addr (p2p_address m) (addr_text (p2p_address m)))" for y
    by (rule takes_address [OF ok(2)])
  have sub: "takes (CdmaSmsSubaddress_Decode DEST_SUB_ADDRESS) (tlv DEST_SUB_ADDRESS (pack (sub_fields (p2p_subAddress m) (subaddr_text (p2p_subAddress m))))) y
      (p2p_subAddress m)" for y
    using dest_subaddress.dec_takes [of "(p2p_subAddress m, subaddr_text (p2p_subAddress m))"] ok(4) by (simp flip: ok(3))
  have "p2p_telesvcMsg (fold it_fill (head_items m) x) = scanned_tele (submitted m)"
    using assms(2) by (simp add: head_items_def Let_def)
  then have "decodable [bearer_item ov ic w (submitted m)] (fold it_fill (head_items m) x)"
    using bearer_takes [OF ok(7), of ov ic w] by (auto simp: bearer_item_def intro!: takes_zoom)
  moreover have "decodable (head_items m) x"
    unfolding head_items_def Let_def decodable_append
    by (auto intro!: takes_zoom teleservice_id.dec_takes service_category.dec_takes addr sub bearer_reply.dec_takes ok(5))
  ultimately show ?thesis by (simp add: decodable_append)
qed

lemma filled_p2p:
  "fold it_fill (p2p_items ov ic w m) (zero_p2p\<lparr>p2p_serviceCtg := CAT_UNKNOWN, p2p_telesvcMsg := t\<rparr>) = received_p2p m"
  by (simp add: head_items_def bearer_item_def Let_def received_p2p_def zero_p2p_def word_gt_0)

section \<open>PDUs\<close>

definition submit_pdu :: "tele_overlay \<Rightarrow> iconv \<Rightarrow> nat \<Rightarrow> CdmaP2PMsg \<Rightarrow> bytes" where
  "submit_pdu ov ic w m = 0 # wire (p2p_items ov ic w m)"

interpretation p2p_member: struct_member "\<lambda>m. get_p2p (tr_data m)" "\<lambda>d m. m\<lparr>tr_data := TransP2P d\<rparr>"
  by unfold_locales (simp_all add: get_p2p_def)

lemma encode_p2p:
  assumes "p2p_ok m" "length (submit_pdu ov ic w m) < 256"
  shows "Cdma_EncodeMsg ov \<lparr>tr_type = TRANS_P2P, tr_data = TransP2P m\<rparr> s = Ok (Some (submit_pdu ov ic w m)) s"
proof -
  let ?w = "wire (p2p_items ov ic w m)"
  let ?ps = "CdmaSmsP2pMessage ov m"
  have len: "length ?w < 255" "submit_pdu ov ic w m = 0 # ?w" using assms(2) by (simp_all add: submit_pdu_def)
  have "emits (each (\<lambda>p. p) ?ps) ?w" by (rule emits_each [OF emit_p2p [OF assms(1)]])
  then have E: "each (\<lambda>p. p) ?ps (wb [0] 255) = Ok () (wb (rev ?w @ [0]) (255 - length ?w))" using len by (simp add: emits_def)
  have N: "?ps \<noteq> []" by (simp add: CdmaSmsP2pMessage_def)
  have start: "SetIndex 0 (wb [] 256) = Ok () (wb [] 256)" "WriteByte 0 (wb [] 256) = Ok () (wb [0] 255)" by (simp add: SetIndex_def zb_def) (simp add: WriteByte_wb)
  have "seq (CdmaSmsTransportMessage_Encode 0 ?ps) GetPduBuffer SmsWriteBuffer = Ok (submit_pdu ov ic w m) (wb (rev ?w @ [0]) (255 - length ?w))"
    using N len GetPduBuffer_zb [of "rev ?w @ [0]" "replicate (255 - length ?w) 0"]
    by (simp add: SmsWriteBuffer_wb CdmaSmsTransportMessage_Encode_def nonempty_zb seq_def bnd_def ignore_def start E)
  with N show ?thesis
    by (simp add: Cdma_EncodeMsg_def CreateTransportMessage_def get_p2p_def bnd_def with_new_def attempt_def ret_def)
qed

lemma decode_p2p_pdu:
  assumes "p2p_ok m" "length (submit_pdu ov ic w m) < 256"
  shows "\<exists>b. decode_transport ov ic w (SmsReadBuffer (submit_pdu ov ic w m), zero_trans) = Ok () (b, \<lparr>tr_type = TRANS_P2P, tr_data = TransP2P (received_p2p m)\<rparr>)"
proof -
  let ?its = "p2p_items ov ic w m"
  let ?w = "wire ?its"
  let ?x = "zero_p2p\<lparr>p2p_serviceCtg := CAT_UNKNOWN\<rparr>"
  let ?y = "?x\<lparr>p2p_telesvcMsg := scanned_tele (submitted m)\<rparr>"
  let ?lift = "map (zoom (\<lambda>m. get_p2p (tr_data m)) (\<lambda>d m. m\<lparr>tr_data := TransP2P d\<rparr>)) (map it_dec ?its)"
  have len: "length ?w < 255" "submit_pdu ov ic w m = 0 # ?w" using assms(2) by (simp_all add: submit_pdu_def)
  have buf: "SmsReadBuffer (submit_pdu ov ic w m) = zb [] (0 # ?w)" unfolding len(2) by (rule SmsReadBuffer_zb) (use len in \<open>simp_all add: head_items_def Let_def\<close>)
  have "p2p_telesvcMsg ?x = zero_tele" by (simp add: zero_p2p_def)
  note S = scan_p2p [OF assms(1) _ this, of ov ic w]
  have "length ?its \<le> PARAMETER_SIZE_MAX" by (simp add: head_items_def Let_def PARAMETER_SIZE_MAX_def)
  from scan_items [OF S(1) this, of "[0]"] S(2) len
  have scan: "CdmaSmsP2pMessage_scan ov ic w (zb [0] ?w, zero_p2p) = Ok (map it_dec ?its) (zb (rev ?w @ [0]) [], ?y)"
    by (simp add: CdmaSmsP2pMessage_scan_def on_nonempty_def IsEmpty_def bnd_def seq_def gets_def on_buf_def on_out_def)
  then have C: "CreateTransportMessage_scan ov ic w (zb [] (0 # ?w), zero_trans) = Ok ?lift (zb (rev ?w @ [0]) [], \<lparr>tr_type = TRANS_P2P, tr_data = TransP2P ?y\<rparr>)"
    by (simp add: CreateTransportMessage_scan_def trans_member_def Let_def bnd_def seq_def on_buf_def nonempty_zb ret_def ReadByte_zb on_out_def zoom_def
        zero_trans_def get_p2p_def)
  have "decodable ?its ?y" using assms(1) by (intro decode_p2p) simp_all
  from p2p_member.takes_lift [OF this, of "\<lparr>tr_type = TRANS_P2P, tr_data = TransP2P ?y\<rparr>"]
  have "takes (each (\<lambda>p. p) ?lift) ?w \<lparr>tr_type = TRANS_P2P, tr_data = TransP2P ?y\<rparr> \<lparr>tr_type = TRANS_P2P, tr_data = TransP2P (received_p2p m)\<rparr>"
    by (simp only: filled_p2p CdmaTransportMsg.update_convs)
  from takes_to_end [OF this, of "[0]"] len(1)
  have T: "each (\<lambda>p. p) ?lift (zb [0] ?w, \<lparr>tr_type = TRANS_P2P, tr_data = TransP2P ?y\<rparr>) =
      Ok () (zb (rev ?w @ [0]) [], \<lparr>tr_type = TRANS_P2P, tr_data = TransP2P (received_p2p m)\<rparr>)"
    by simp
  have set: "SetIndex 0 (zb (rev ?w @ [0]) []) = Ok () (zb [] (0 # ?w))" using SetIndex_zb [of "[]" "0 # ?w" "[]"] by simp
  have ne: "?lift \<noteq> []" by simp
  show ?thesis
    unfolding buf decode_transport_def bnd_def C outcome.case if_not_P [OF ne] CdmaSmsTransportMessage_Decode_def
    using T by (simp only: seq_def bnd_def on_buf_def fst_conv snd_conv nonempty_zb ret_def outcome.case if_not_P [OF ne] ignore_def set ReadByte_zb) simp
qed

text \<open>
  C30. Round trip of a point to point CDMA message to be submitted. Its text is 7-bit ASCII or IA5 or UCS-2, with or without user data headers, or octets (also the
  Shift-JIS, Korean, Latin and Hebrew encodings) without headers, and the header indicator is set exactly if there are headers. If its PDU is shorter than 256 octets, the
  message is encoded, and decoding the PDU gives it back: addresses, reply sequence number, message id, headers and text, deferred delivery time, priority, reply options and callback
  number, apart from what is not sent: the validity period, the type and plan of a number in digits, the message type of the user data and the time zone of a time.
  Not covered are the GSM 7-bit alphabet, octets with headers, and messages that set the header indicator without headers, as the sender does for data messages.
\<close>

theorem cdma_submit_roundtrip:
  assumes "p2p_ok m" "length (submit_pdu ov ic w m) < 256"
  shows "\<exists>pdu. Cdma_EncodeMsg ov \<lparr>tr_type = TRANS_P2P, tr_data = TransP2P m\<rparr> s = Ok (Some pdu) s \<and>
    (\<exists>b. decode_transport ov ic w (SmsReadBuffer pdu, zero_trans) = Ok () (b, \<lparr>tr_type = TRANS_P2P, tr_data = TransP2P (received_p2p m)\<rparr>))"
  by (intro exI [of _ "submit_pdu ov ic w m"] conjI encode_p2p [OF assms] decode_p2p_pdu [OF assms])

definition sample_p2p :: CdmaP2PMsg where
  "sample_p2p = zero_p2p\<lparr>p2p_teleserviceId := WEMT, p2p_serviceCtg := UNDEFINED_CTG,
     p2p_address := with_number (zero_trans_addr\<lparr>tra_digitMode := True, tra_numberType := 1\<rparr>) [0x2B, 0x34, 0x39, 0x38, 0x39], p2p_replySeq := 5,
     p2p_telesvcMsg := \<lparr>tm_type = TELE_SUBMIT, tm_data = TeleSubmit (zero_tele_submit\<lparr>sm_msgId := \<lparr>mi_msgId = 7, mi_headerInd = True\<rparr>,
       sm_userData := mk_tele_ud ENC_UNICODE 0 [\<lparr>udhType = UDH_CONCAT_8BIT, udh = UdhConcat8bit \<lparr>c8_msgRef = 5, c8_totalSeg = 2, c8_seqNum = 1\<rparr>\<rparr>] [0x4F, 0x60],
       sm_replyOpt := zero_reply\<lparr>ro_dak := True\<rparr>\<rparr>)\<rparr>\<rparr>"

definition plain_overlay :: tele_overlay where
  "plain_overlay = \<lparr>as_deliver = \<lambda>_. zero_tele_deliver, as_submit = \<lambda>_. zero_tele_submit, as_user_ack = \<lambda>_. zero_user_ack, as_deliver_ack = \<lambda>_. zero_deliver_ack,
     as_read_ack = \<lambda>_. zero_read_ack, as_cancel = \<lambda>_. zero_msgId, as_report = \<lambda>_. zero_report\<rparr>"

lemma sample_p2p_ok: "p2p_ok sample_p2p"
  by code_simp

lemma sample_p2p_short: "length (submit_pdu plain_overlay (\<lambda>_ _. None) 4 sample_p2p) < 256"
  by code_simp

theorem cdma_submit_roundtrip_witness:
  "\<exists>pdu. Cdma_EncodeMsg plain_overlay \<lparr>tr_type = TRANS_P2P, tr_data = TransP2P sample_p2p\<rparr> () = Ok (Some pdu) () \<and>
    (\<exists>b. decode_transport plain_overlay (\<lambda>_ _. None) 4 (SmsReadBuffer pdu, zero_trans) =
      Ok () (b, \<lparr>tr_type = TRANS_P2P, tr_data = TransP2P (received_p2p sample_p2p)\<rparr>))"
  by (rule cdma_submit_roundtrip [OF sample_p2p_ok sample_p2p_short])

end
