(* ===== verification/Cdma_Sms_Delivery.thy ===== *)
theory Cdma_Sms_Delivery
  imports Cdma_Msg_Layout Gsm_Sms_Delivery
begin

text \<open>
  A text from the application to the air on a CDMA network: coding, splitting, numbering, encoding and handing over, on top of the layout of CDMA messages and of the interface
  \<open>message_decoder\<close> of the coding.
\<close>

section \<open>Coding\<close>

lemma ucs2_ascii_loop_returns:
  assumes "int out < m" "m \<le> int (length dest)" "\<forall>x \<in> set (take out dest). x < 0x80"
  shows "\<exists>n un d. ucs2_ascii_loop m cs out dest = Ok (n, un) d \<and> length d = length dest \<and> n \<le> m \<and> (\<not> un \<longrightarrow> (\<forall>x \<in> set (take (nat n) d). x < 0x80))"
  using assms
proof (induction m cs out arbitrary: dest rule: ucs2_ascii_loop.induct)
  case (1 m out)
  then show ?case by (simp add: ret_def) blast
next
  case (2 m c cs out)
  show ?case
  proof (cases "c > 0x007F")
    case True
    with 2 show ?thesis by (simp add: ret_def) blast
  next
    case False
    have out: "out < length dest" using 2(2,3) by simp
    have "ucast c < (0x80 :: u8)" using False order_le_less_trans [OF take_bit_nat_less_eq_self [of 8 "unat c"], of 128]
      by (simp add: word_less_nat_alt word_le_nat_alt unsigned_ucast_eq not_less)
    with out 2(4) have "\<forall>x \<in> set (take (Suc out) (dest[out := ucast c])). x < 0x80" by (simp add: take_Suc_conv_app_nth)
    with "2.IH" [of "dest[out := ucast c]"] 2(2,3) False out show ?thesis by (auto simp: op_simps put_at_def nat_add_distrib)
  qed
qed

lemma Ucs2ToAscii_returns:
  assumes "m \<le> int (length dest)"
  shows "\<exists>n un d. Ucs2ToAscii m src dest = Ok (n, un) d \<and> length d = length dest \<and> (0 < m \<longrightarrow> n \<le> m) \<and> (\<not> un \<longrightarrow> (\<forall>x \<in> set (take (nat n) d). x < 0x80))"
  using ucs2_ascii_loop_returns [of 0 m dest "ucs2_chars src"] assms by (auto simp: Ucs2ToAscii_def ret_def)

lemma CdmaUtf8ToAuto_returns:
  assumes ic: "iconv_bounded ic" and "srcLength \<le> int (length src)" "maxLength \<le> int (length dest)" "0 \<le> maxLength"
  shows "\<exists>n sch d. CdmaUtf8ToAuto ic wsize maxLength src srcLength scheme dest = Ok (n, sch) d \<and> length d = length dest \<and> n \<le> maxLength \<and>
    sch \<in> {DATA_CODING_ASCII7BIT, DATA_CODING_8BIT, DATA_CODING_UCS2, scheme} \<and> (sch = DATA_CODING_ASCII7BIT \<and> scheme \<noteq> sch \<longrightarrow> (\<forall>x \<in> set (take (nat n) d). x < 0x80)) \<and>
    (sch = scheme \<longrightarrow> n \<le> 0 \<or> sch \<noteq> DATA_CODING_7BIT)"
proof (cases "maxLength \<le> 0 \<or> srcLength \<le> 0 \<or> srcLength \<ge> UCS2_LEN_MAX wsize")
  case True
  with assms(4) show ?thesis by (auto simp: CdmaUtf8ToAuto_def ret_def)
next
  case False
  obtain k u where u: "Utf8ToUcs2 ic (srcLength * int wsize) src srcLength (replicate (nat srcLength * wsize) 0) = Ok k u"
    "length u = nat srcLength * wsize" "k \<le> int (length u)"
  proof -
    have "srcLength * int wsize \<le> int (length (replicate (nat srcLength * wsize) (0 :: u8)))" using False by simp
    from Utf8ToUcs2_returns [OF ic this] that show thesis by fastforce
  qed
  from Ucs2ToAscii_returns [OF assms(3), of "take (nat k) u"] obtain n un d where a: "Ucs2ToAscii maxLength (take (nat k) u) dest = Ok (n, un) d"
    "length d = length dest" "0 < maxLength \<longrightarrow> n \<le> maxLength" "\<not> un \<longrightarrow> (\<forall>x \<in> set (take (nat n) d). x < 0x80)" by blast
  have copy: "\<exists>e. copy_prefix (min j maxLength) xs t = Ok () e \<and> length e = length t" if "j \<le> int (length xs)" "length t = length dest" for j xs t
    using that assms(3) by (auto simp: copy_prefix_def put_all_def write_at_def op_simps nat_le_iff min_def)
  have open_run: "CdmaUtf8ToAuto ic wsize maxLength src srcLength scheme dest =
      (if k < 0 then seq (copy_prefix (min srcLength maxLength) src) (ret (min srcLength maxLength, DATA_CODING_8BIT)) dest
       else if un then (if k \<le> 0 then Ok (n, DATA_CODING_UCS2) d else seq (copy_prefix (min k maxLength) u) (ret (min k maxLength, DATA_CODING_UCS2)) d)
       else Ok (n, DATA_CODING_ASCII7BIT) d)"
    using False u(1) a(1) by (simp add: CdmaUtf8ToAuto_def Let_def bnd_def with_new_def ret_def)
  consider "k < 0" | "0 \<le> k" "un" "k \<le> 0" | "0 < k" "un" | "0 \<le> k" "\<not> un" by linarith
  then show ?thesis
  proof cases
    case 1
    with copy [of srcLength src dest] assms(2) show ?thesis by (auto simp: open_run seq_def bnd_def ret_def)
  next
    case 2
    with a False show ?thesis by (auto simp: open_run)
  next
    case 3
    with copy [of k u d] u(3) a(2) show ?thesis by (auto simp: open_run seq_def bnd_def ret_def)
  next
    case 4
    with a False show ?thesis by (auto simp: open_run)
  qed
qed

lemma Cdma_DecodeMessage_returns:
  assumes ic: "iconv_bounded ic" and len: "length dest = DECODE_DATA_SIZE"
  shows "\<exists>k sch l d. Cdma_DecodeMessage ic wsize c msg dest = Ok (k, sch, l) d \<and> length d = length dest \<and> k \<le> int (length dest) \<and>
      (sch = DATA_CODING_7BIT \<longrightarrow> (\<forall>x \<in> set (take (nat k) d). x < 0x80))"
proof (cases "msg = []")
  case True
  then show ?thesis by (simp add: Cdma_DecodeMessage_def op_simps)
next
  case False
  have "\<exists>n sch d. CdmaUtf8ToAuto ic wsize (int (length dest)) msg (int (length msg)) c dest = Ok (n, sch) d \<and>
      length d = length dest \<and> n \<le> int (length dest) \<and> (sch = DATA_CODING_7BIT \<longrightarrow> n \<le> 0)" if "c \<noteq> DATA_CODING_7BIT"
    using CdmaUtf8ToAuto_returns [OF ic, of "int (length msg)" msg "int (length dest)" dest wsize c] that by auto
  moreover have "\<exists>n d. Utf8ToUcs2 ic (int (length dest)) msg (int (length msg)) dest = Ok n d \<and> length d = length dest \<and> n \<le> int (length dest)"
    using Utf8ToUcs2_returns [OF ic, of "int (length dest)" dest] by simp
  ultimately show ?thesis using False
    by (cases c) (auto simp: Cdma_DecodeMessage_def op_simps Let_def put_all_def write_at_def)
qed

interpretation cdma_text: message_decoder ic "Cdma_DecodeMessage ic wsize" "\<lambda>_. True" for ic wsize
  by unfold_locales (rule Cdma_DecodeMessage_returns)

definition cdma_coding :: "'e sender_env_scheme \<Rightarrow> bytes \<Rightarrow> (int \<times> DataCodingScheme \<times> u8, bytes) outcome" where
  "cdma_coding env txt = Cdma_DecodeMessage (env_iconv env) (env_wsize env) DATA_CODING_AUTO txt (replicate DECODE_DATA_SIZE 0)"

lemma cdma_coding_ascii:
  assumes "iconv_bounded (env_iconv env)" "cdma_coding env txt = Ok (k, DATA_CODING_ASCII7BIT, l) d"
  shows "\<forall>x \<in> set (take (nat k) d). x < 0x80"
proof (cases "txt = []")
  case True
  with assms(2) show ?thesis by (simp add: cdma_coding_def Cdma_DecodeMessage_def op_simps)
next
  case False
  with assms(2) CdmaUtf8ToAuto_returns [OF assms(1), of "int (length txt)" "txt" "int DECODE_DATA_SIZE" "replicate DECODE_DATA_SIZE 0" "env_wsize env" DATA_CODING_AUTO]
  show ?thesis by (auto simp: cdma_coding_def Cdma_DecodeMessage_def op_simps Let_def split: outcome.splits)
qed

section \<open>The messages\<close>

definition cdma_number :: "bytes \<Rightarrow> bool" where
  "cdma_number ds \<longleftrightarrow> ds \<noteq> [] \<and> length ds \<le> 20 \<and> 0 \<notin> set ds \<and> (hd ds = 0x2B \<or> list_all dtmf_char ds)"

definition cdma_address :: "bytes \<Rightarrow> TransportAddr" where
  "cdma_address ds = with_number (zero_trans_addr\<lparr>tra_digitMode := (hd ds = 0x2B), tra_numberType := (if hd ds = 0x2B then 1 else 2)\<rparr>) ds"

text \<open>Part \<open>i\<close> of \<open>n\<close> of a text, with the data \<open>us\<close>.\<close>

definition cdma_part :: "bytes \<Rightarrow> DataCodingScheme \<Rightarrow> bool \<Rightarrow> u8 \<Rightarrow> u16 \<Rightarrow> nat \<Rightarrow> nat \<Rightarrow> bytes \<Rightarrow> CdmaP2PMsg" where
  "cdma_part ds sch sr ref ident n i us =
     \<lparr>p2p_teleserviceId = (if n > 1 then WEMT else CMT_95), p2p_serviceCtg = UNDEFINED_CTG, p2p_address = cdma_address ds, p2p_subAddress = zero_trans_sub,
      p2p_replySeq = ref, p2p_telesvcMsg = \<lparr>tm_type = TELE_SUBMIT, tm_data = TeleSubmit (zero_tele_submit\<lparr>
        sm_msgId := \<lparr>mi_msgId = ident, mi_headerInd = (n > 1)\<rparr>, sm_userData := mk_tele_ud (CovertEncodingType sch) 0 (part_headers ref n i) us,
        sm_valPeriod := \<lparr>vp_format = SMS_TIME_RELATIVE, vp_absTime = zero_abs_time\<lparr>ta_year := 245\<rparr>\<rparr>, sm_replyOpt := zero_reply\<lparr>ro_dak := sr\<rparr>\<rparr>)\<rparr>\<rparr>"

abbreviation of_p2p :: "CdmaP2PMsg \<Rightarrow> CdmaTransportMsg" where
  "of_p2p m \<equiv> \<lparr>tr_type = TRANS_P2P, tr_data = TransP2P m\<rparr>"

lemma submit_address_number:
  assumes "cdma_number ds"
  shows "submit_address ds zero_trans_addr = cdma_address ds"
proof -
  have "c_str ds = ds" using assms by (auto simp: cdma_number_def c_str_def takeWhile_eq_all_conv)
  moreover have "length ds \<le> 20" using assms by (simp add: cdma_number_def)
  moreover from this have "write_at 0 (ds @ [0]) (replicate 257 0) = padded 257 ds"
    using write_at_zeros [of "ds @ [0]" 257] by (simp add: padded_def Suc_diff_le flip: replicate_Suc)
  ultimately show ?thesis
    by (simp add: submit_address_def cdma_address_def with_number_def zero_trans_addr_def CDMASMS_ADDRESS_LEN_MAX_def)
qed

lemma new_text_message:
  assumes "cdma_number ds"
  shows "\<exists>m. CreateSubmitTransMsg ds sc body sr sch new_cdma_message = Ok t m \<Longrightarrow> number_message ref ident t = of_p2p (cdma_part ds sch sr ref ident 1 0 [])"
  using assms submit_address_number [OF assms]
  by (auto simp: CreateSubmitTransMsg_def op_simps cdma_number_def GreateTransMsg_def upd_p2p_address_def upd_cdma_submit_def number_message_def upd_p2p_def
      zero_p2p_def cdma_part_def part_headers_def mk_ud_def zero_tele_submit_def zero_tele_ud_def zero_ud_def zero_msgId_def)

text \<open>How a part is put into the message that sent the part before.\<close>

definition put_part :: "u8 \<Rightarrow> nat \<Rightarrow> nat \<Rightarrow> bytes \<Rightarrow> CdmaTransportMsg \<Rightarrow> CdmaTransportMsg" where
  "put_part ref n i us t = upd_cdma_ud (\<lambda>u. u\<lparr>ud_length := word_of_nat (length us)\<rparr>)
     ((if n > 1 then put_concat_header UDH_CONCAT_8BIT \<lparr>c8_msgRef = ref, c8_totalSeg = word_of_nat n, c8_seqNum = word_of_nat (i + 1)\<rparr> else (\<lambda>t. t))
       (upd_cdma_ud (\<lambda>u. u\<lparr>ud_data := write_at 0 us (replicate (MAX_USER_DATA_LEN + 1) 0)\<rparr>) t))"

lemma put_part_eq:
  assumes "length us \<le> MAX_USER_DATA_LEN + 1" "n' = 1 \<or> n' = n"
  shows "put_part ref n i us (of_p2p (cdma_part ds sch sr ref ident n' j vs)) = of_p2p (cdma_part ds sch sr ref ident n i us)"
proof -
  have "replicate 7 z = z # replicate 6 z" for z :: SmsUDH by (simp add: numeral_eq_Suc)
  with assms write_at_zeros [of us "MAX_USER_DATA_LEN + 1"] show ?thesis
    by (auto simp: put_part_def put_concat_header_def upd_cdma_ud_def upd_cdma_submit_def upd_p2p_def cdma_part_def part_headers_def mk_ud_def MAX_UD_HEADER_NUM_def
        zero_tele_submit_def)
qed

lemma cdma_address_ok:
  assumes "cdma_number ds"
  shows "addr_text (cdma_address ds) = ds" "cdma_address ds = with_number (cdma_address ds) ds" "addr_ok (cdma_address ds, ds)"
proof -
  have len: "length ds < 256" using assms by (simp add: cdma_number_def)
  then show "addr_text (cdma_address ds) = ds" "cdma_address ds = with_number (cdma_address ds) ds"
    by (simp_all add: addr_text_def cdma_address_def with_number_def unat_length)
  show "addr_ok (cdma_address ds, ds)"
    using assms len by (auto simp: addr_ok_def cdma_address_def with_number_def zero_trans_addr_def digits_ok_def cdma_number_def)
qed

text \<open>What the data of a part has to be.\<close>

definition part_text_ok :: "DataCodingScheme \<Rightarrow> nat \<Rightarrow> bytes \<Rightarrow> bool" where
  "part_text_ok sch n us \<longleftrightarrow> length us \<le> segment_limit sch n \<and>
     (sch = DATA_CODING_ASCII7BIT \<and> (\<forall>x \<in> set us. x < 0x80) \<or> sch = DATA_CODING_UCS2 \<and> even (length us))"

lemma segment_short: "part_text_ok sch n us \<Longrightarrow> length us \<le> 160" "part_text_ok sch n us \<Longrightarrow> sch = DATA_CODING_UCS2 \<Longrightarrow> length us \<le> 140"
  by (auto simp: part_text_ok_def segment_limit_def is_7bit_def split: if_splits)

lemma udhl_part: "header_wire (part_headers ref n i) = (if n > 1 then [0, 3, ref, word_of_nat n, word_of_nat (i + 1)] else [])"
  by (simp add: part_headers_def header_octets_def)

lemma headers_ok_part: "headers_ok (part_headers ref n i)"
  by (simp add: headers_ok_def part_headers_def plain_header_def MAX_UD_HEADER_NUM_def)

lemma mk_ud_parts:
  assumes "headers_ok hs" "length us \<le> 161"
  shows "ud_headers (mk_ud hs us) = hs" "ud_text (mk_ud hs us) = us"
  using assms by (simp_all add: ud_headers_def ud_text_def mk_ud_def headers_ok_count unat_length)

lemma part_text:
  assumes "part_text_ok sch n us"
  shows "text_ok (CovertEncodingType sch) (part_headers ref n i) us"
  using assms segment_short [OF assms] headers_ok_part [of ref n i] udhl_part [of ref n i]
  by (auto simp: text_ok_def part_text_ok_def CovertEncodingType_def MAX_USER_DATA_LEN_def list_all_iff word_less_nat_alt part_headers_def split: if_splits)

lemma cdma_part_ok:
  assumes "cdma_number ds" "part_text_ok sch n us" "unat ref < 64"
  shows "p2p_ok (cdma_part ds sch sr ref ident n i us)"
proof -
  have us: "length us \<le> 161" using segment_short(1) [OF assms(2)] by simp
  note ud = mk_ud_parts [OF headers_ok_part us, of ref n i]
  have "callback_text zero_sub_addr = []" "subaddr_text zero_trans_sub = []"
    by (simp_all add: callback_text_def zero_sub_addr_def subaddr_text_def zero_trans_sub_def)
  moreover have "zero_sub_addr = with_callback zero_sub_addr []" "callback_ok (zero_sub_addr, [])" "zero_trans_sub = with_subaddr zero_trans_sub []"
    by (simp_all add: with_callback_def zero_sub_addr_def padded_def callback_ok_def digits_ok_def with_subaddr_def zero_trans_sub_def)
  moreover have "vp_format (sm_deferValPeriod zero_tele_submit) \<noteq> SMS_TIME_ABSOLUTE" "sm_callbackNumber zero_tele_submit = zero_sub_addr"
    "(part_headers ref n i = []) = (\<not> n > 1)" "tsa_type zero_trans_sub = 0"
    by (simp_all add: zero_tele_submit_def zero_period_def part_headers_def zero_trans_sub_def)
  ultimately show ?thesis
    using assms cdma_address_ok [OF assms(1)] part_text [OF assms(2), of ref i] ud
    by (simp add: p2p_ok_def cdma_part_def submitted_def submit_ok_def Let_def)
qed

lemma widths_chars: "sum_list (map (snd \<circ> (\<lambda>c. (f c, l))) us) = l * length us"
  by (induction us) simp_all

lemma text_body_length:
  assumes "part_text_ok sch n us"
  shows "length (pack (user_text_fields (CovertEncodingType sch) (part_headers ref n i) us)) \<le> 170"
proof -
  have "widths (hdr_fill k) \<le> 7" for k by (simp add: hdr_fill_def)
  from this [of "Suc (Suc (Suc (Suc (Suc 0))))"] assms segment_short [OF assms] udhl_part [of ref n i]
  have "widths (user_text_fields (CovertEncodingType sch) (part_headers ref n i) us) \<le> 1300"
    by (auto simp: user_text_fields_def head7_def head16_def widths_chars part_text_ok_def CovertEncodingType_def part_headers_def)
  then show ?thesis by (simp add: length_pack)
qed

lemma address_body_length: "length ds \<le> 20 \<Longrightarrow> length (pack (addr_fields a ds)) \<le> 23"
proof -
  assume "length ds \<le> 20"
  then have "widths (addr_fields a ds) \<le> 177" by (simp add: addr_fields_def digit_fields_def widths_chars)
  then show ?thesis by (simp add: length_pack)
qed

lemma cdma_part_short:
  assumes "cdma_number ds" "part_text_ok sch n us"
  shows "length (submit_pdu ov ic w (cdma_part ds sch sr ref ident n i us)) < 256"
proof -
  have us: "length us \<le> 161" using segment_short(1) [OF assms(2)] by simp
  note ud = mk_ud_parts [OF headers_ok_part us, of ref n i]
  have addr: "length (pack (addr_fields (cdma_address ds) ds)) \<le> 23" using assms(1) by (intro address_body_length) (simp add: cdma_number_def)
  have "length (wire (head_items (cdma_part ds sch sr ref ident n i us))) \<le> 40"
    using addr cdma_address_ok(1) [OF assms(1)]
    by (simp add: head_items_def cdma_part_def Let_def UNDEFINED_CTG_def CAT_UNKNOWN_def word_octets_def zero_trans_sub_def length_pack)
  moreover have "length (wire (submit_items ic w (submitted (cdma_part ds sch sr ref ident n i us)))) \<le> 190"
    using text_body_length [OF assms(2), of ref i] ud
    by (simp add: submit_items_def submitted_def cdma_part_def item_defs defer_items_def zero_tele_submit_def zero_period_def zero_sub_addr_def length_pack msg_id_fields_def
        reply_fields_def)
  ultimately show ?thesis by (simp add: submit_pdu_def bearer_item_def)
qed

definition cdma_pdu :: "'e cdma_sender_env_scheme \<Rightarrow> CdmaP2PMsg \<Rightarrow> bytes" where
  "cdma_pdu env m = submit_pdu (se_overlay env) (env_iconv env) (env_wsize env) m"

lemma cdma_part_encoded:
  assumes "cdma_number ds" "part_text_ok sch n us" "unat ref < 64"
  shows "Cdma_EncodeMsg (se_overlay env) (of_p2p (cdma_part ds sch sr ref ident n i us)) s = Ok (Some (cdma_pdu env (cdma_part ds sch sr ref ident n i us))) s"
  unfolding cdma_pdu_def by (intro encode_p2p cdma_part_ok cdma_part_short assms)

section \<open>Handing over\<close>

definition cdma_ready :: "'e sender_env_scheme \<Rightarrow> sender \<Rightarrow> bool" where
  "cdma_ready env s \<longleftrightarrow> ims_client env \<and> (isImsNetDomain s \<or> voiceServiceState s = reg_in_service env) \<and> keys_below s"

definition cdma_handed :: "SmsSendIndexer \<Rightarrow> sender \<Rightarrow> sender" where
  "cdma_handed x s = s\<lparr>indexers := indexers s @ [x], msgRef64bit := msgRef64bit s + 1, sendCacheMap := sendCacheMap s @ [(msgRef64bit s + 1, length (indexers s))],
     lastSmsDomain := IMS_DOMAIN, outs := outs s @ [ImsSendMessage (part_data s x)]\<rparr>"

lemma cdma_ready_handed: "cdma_ready env s \<Longrightarrow> cdma_ready env (cdma_handed x s)"
  by (auto simp: cdma_ready_def keys_below_def cdma_handed_def)

lemma last_indexer:
  "upd_ix (length (indexers s)) f (s\<lparr>indexers := indexers s @ [x]\<rparr>) = Ok () (s\<lparr>indexers := indexers s @ [f x]\<rparr>)"
  "make_indexer x s = Ok (length (indexers s)) (s\<lparr>indexers := indexers s @ [x]\<rparr>)"
  by (simp_all add: make_indexer_def sender_ops)

lemma Cdma_SendSmsToRil_first:
  assumes "cdma_ready env s" "psResendCount x = 0"
  shows "Cdma_SendSmsToRil env (Some (length (indexers s))) (s\<lparr>indexers := indexers s @ [x]\<rparr>) = Ok () (cdma_handed x s)"
  using assms keys_below_fresh [of s]
  by (auto simp: Cdma_SendSmsToRil_def Cdma_SendImsSms_def GetMsgRef64Bit_def SendCacheMapAddItem_def sender_ops cdma_ready_def cdma_handed_def part_data_def Let_def
      MAX_SEND_RETRIES_def)

text \<open>The indexer of a part.\<close>

definition cdma_indexer ::
  "'e cdma_sender_env_scheme \<Rightarrow> bytes \<Rightarrow> bytes \<Rightarrow> DataCodingScheme \<Rightarrow> bool \<Rightarrow> u8 \<Rightarrow> u16 \<Rightarrow> nat option \<Rightarrow> nat option \<Rightarrow> int \<Rightarrow> bool \<Rightarrow> nat \<Rightarrow> nat \<Rightarrow> nat \<Rightarrow> SplitInfo \<Rightarrow>
   SmsSendIndexer" where
  "cdma_indexer env ds sc sch sr ref ident sendCb deliveryCb dbId mmsApp flg n i cell =
     (let x = (text_indexer ds sc (encodeData cell) sendCb deliveryCb)\<lparr>ix_dcs := encodeType cell\<rparr>;
          x = (if n > 1 then x\<lparr>isConcat := True, ix_smsConcat := \<lparr>cc_msgRef = ucast ref, cc_seqNum = word_of_nat (i + 1), cc_totalSeg = ucast (word_of_nat n :: u8),
            cc_is8Bits = True\<rparr>\<rparr> else x)
      in x\<lparr>ix_pdu := cdma_pdu env (cdma_part ds sch sr ref ident n i (encodeData cell)), msgRefId := ref, ix_netWorkType := NET_TYPE_CDMA,
        unSentCellCount := word_of_nat n, hasCellFailed := Some flg, timeStamp := env_now env, msgId := ident, dataBaseId := (if mmsApp then 1 else 0),
        isMmsApp := (dbId \<noteq> 0)\<rparr>)"

lemma cdma_text_part_sent:
  assumes "cdma_number ds" "unat ref < 64" "n = length cells" "i < n" "part_text_ok sch n (encodeData (cells ! i))" "encodeData (cells ! i) \<noteq> []" "cdma_ready env s"
    "n' = 1 \<or> n' = n"
  shows "cdma_text_part env ds sc cells ref ident sendCb deliveryCb dbId mmsApp flg i (of_p2p (cdma_part ds sch sr ref ident n' j vs)) s =
    Ok (Some (of_p2p (cdma_part ds sch sr ref ident n i (encodeData (cells ! i)))))
      (cdma_handed (cdma_indexer env ds sc sch sr ref ident sendCb deliveryCb dbId mmsApp flg n i (cells ! i)) s)"
proof -
  let ?us = "encodeData (cells ! i)"
  have len: "length ?us \<le> 160" using segment_short(1) [OF assms(5)] .
  then have "length ?us \<le> MAX_USER_DATA_LEN + 1" by (simp add: MAX_USER_DATA_LEN_def)
  note put = put_part_eq [OF this assms(8), of ref i ds sch sr ident j vs, unfolded put_part_def]
  note enc = cdma_part_encoded [OF assms(1,5,2), of env sr ident i]
  show ?thesis
    unfolding cdma_text_part_def
    using assms(3,4,6) len put Cdma_SendSmsToRil_first [OF assms(7)]
    by (cases "n > 1") (simp_all add: rd_at_def ret_def bnd_def Let_def MAX_USER_DATA_LEN_def last_indexer seq_def SetPduSeqInfo_def UpdateIndexerInfo_def cdma_indexer_def
        text_indexer_def new_indexer_def enc [unfolded assms(3)])
qed

definition cdma_output :: "'e cdma_sender_env_scheme \<Rightarrow> int \<Rightarrow> CdmaP2PMsg \<Rightarrow> sender_out" where
  "cdma_output env refId m = ImsSendMessage \<lparr>gp_refId = refId, gp_smscPdu = StringToHex [], gp_pdu = StringToHex (cdma_pdu env m)\<rparr>"

lemma cdma_indexer_fields [simp]:
  "ix_smca (cdma_indexer env ds sc sch sr ref ident sendCb deliveryCb dbId mmsApp flg n i cell) = []"
  "ix_pdu (cdma_indexer env ds sc sch sr ref ident sendCb deliveryCb dbId mmsApp flg n i cell) = cdma_pdu env (cdma_part ds sch sr ref ident n i (encodeData cell))"
  "dataBaseId (cdma_indexer env ds sc sch sr ref ident sendCb deliveryCb dbId mmsApp flg n i cell) = (if mmsApp then 1 else 0)"
  by (simp_all add: cdma_indexer_def text_indexer_def new_indexer_def Let_def)

lemma cdma_loop:
  assumes "cdma_number ds" "unat ref < 64" "n = length cells" "\<forall>c \<in> set cells. part_text_ok sch n (encodeData c) \<and> encodeData c \<noteq> []" "cdma_ready env s" "i \<le> n"
    "n' = 1 \<or> n' = n"
  shows "\<exists>t. loop_with (cdma_text_part env ds sc cells ref ident sendCb deliveryCb dbId mmsApp flg) [i..<n] (of_p2p (cdma_part ds sch sr ref ident n' j vs)) s = Ok () t \<and>
    outs t = outs s @ map (\<lambda>k. cdma_output env (msgRef64bit s + 1 + int (k - i)) (cdma_part ds sch sr ref ident n k (encodeData (cells ! k)))) [i..<n] \<and>
    indexers t = indexers s @ map (\<lambda>k. cdma_indexer env ds sc sch sr ref ident sendCb deliveryCb dbId mmsApp flg n k (cells ! k)) [i..<n]"
  using assms(5-7)
proof (induction "n - i" arbitrary: i n' j vs s)
  case 0
  then show ?case by (simp add: ret_def)
next
  case (Suc m)
  then have i: "i < n" "[i..<n] = i # [Suc i..<n]" "m = n - Suc i" "Suc i \<le> n" by (simp_all add: upt_conv_Cons)
  let ?x = "cdma_indexer env ds sc sch sr ref ident sendCb deliveryCb dbId mmsApp flg n i (cells ! i)"
  let ?s = "cdma_handed ?x s"
  have "part_text_ok sch n (encodeData (cells ! i))" "encodeData (cells ! i) \<noteq> []" using assms(3,4) i(1) by simp_all
  note step = cdma_text_part_sent [OF assms(1-3) i(1) this Suc.prems(1,3), of sc ident sendCb deliveryCb dbId mmsApp flg sr j vs]
  obtain t where t: "loop_with (cdma_text_part env ds sc cells ref ident sendCb deliveryCb dbId mmsApp flg) [Suc i..<n]
        (of_p2p (cdma_part ds sch sr ref ident n i (encodeData (cells ! i)))) ?s = Ok () t"
      "outs t = outs ?s @ map (\<lambda>k. cdma_output env (msgRef64bit ?s + 1 + int (k - Suc i)) (cdma_part ds sch sr ref ident n k (encodeData (cells ! k)))) [Suc i..<n]"
      "indexers t = indexers ?s @ map (\<lambda>k. cdma_indexer env ds sc sch sr ref ident sendCb deliveryCb dbId mmsApp flg n k (cells ! k)) [Suc i..<n]"
    using Suc.hyps(1) [OF i(3) cdma_ready_handed [OF Suc.prems(1)] i(4), of n] by blast
  have head: "outs ?s = outs s @ [cdma_output env (msgRef64bit s + 1) (cdma_part ds sch sr ref ident n i (encodeData (cells ! i)))]"
    "msgRef64bit ?s = msgRef64bit s + 1" "indexers ?s = indexers s @ [?x]"
    by (simp_all add: cdma_handed_def cdma_output_def part_data_def)
  have tail: "map (\<lambda>k. cdma_output env (msgRef64bit s + 1 + 1 + int (k - Suc i)) (f k)) [Suc i..<n] = map (\<lambda>k. cdma_output env (msgRef64bit s + 1 + int (k - i)) (f k)) [Suc i..<n]" for f
    by (intro map_cong) (auto simp: of_nat_diff algebra_simps)
  show ?case
    using t step unfolding i(2) head tail by (auto simp: bnd_def)
qed

section \<open>Sending a text\<close>

lemma cdma_segments_ok:
  assumes "iconv_bounded (env_iconv env)" "cdma_coding env txt = Ok (k, sch, l) d" "sch = DATA_CODING_ASCII7BIT \<or> sch = DATA_CODING_UCS2 \<and> even k" "split_spec k sch l d segs"
  shows "\<forall>c \<in> set segs. part_text_ok sch (length segs) (encodeData c) \<and> encodeData c \<noteq> []"
proof
  fix c
  assume c: "c \<in> set segs"
  have "\<forall>x \<in> set (encodeData c). x < 0x80" if "sch = DATA_CODING_ASCII7BIT"
  proof -
    have "set (encodeData c) \<subseteq> set (concat (map encodeData segs))" using c by auto
    also have "\<dots> \<subseteq> set (take (nat k) d)" using assms(4) that by (auto simp: split_spec_def is_7bit_def)
    finally show ?thesis using cdma_coding_ascii [OF assms(1) assms(2) [unfolded that]] by blast
  qed
  then show "part_text_ok sch (length segs) (encodeData c) \<and> encodeData c \<noteq> []"
    using assms(3,4) c by (auto simp: part_text_ok_def split_spec_def)
qed

lemma cdma_split:
  assumes "iconv_bounded (env_iconv env)" "icu env = Some b" "cdma_coding env txt = Ok (k, sch, l) d"
  shows "\<exists>segs. split_cdma_message env False False txt s = Ok (sch, segs) s \<and> split_spec k sch l d segs"
proof -
  let ?dec = "Cdma_DecodeMessage (env_iconv env) (env_wsize env)"
  have "\<exists>k sch l d segs. ?dec (start_coding False []) txt (replicate DECODE_DATA_SIZE 0) = Ok (k, sch, l) d \<and>
      SplitMessage (env_iconv env) (env_wsize env) (Some b) ?dec txt False False [] [] = Ok sch ([] @ segs) \<and> split_spec k sch l d segs"
    by (rule cdma_text.split_returns [OF assms(1)]) simp
  with assms(2,3) show ?thesis by (auto simp: split_cdma_message_def with_new_def cdma_coding_def start_coding_def CT_SMSC_def)
qed

definition cdma_numbered :: "sender \<Rightarrow> sender" where
  "cdma_numbered s = s\<lparr>msgSeqNum := (msgSeqNum s + 1) mod 64, msgSubmitId := msgSubmitId s + 1, cell_flags := cell_flags s @ [False]\<rparr>"

abbreviation next_seq :: "sender \<Rightarrow> u8" where
  "next_seq s \<equiv> (msgSeqNum s + 1) mod 64"

abbreviation next_id :: "sender \<Rightarrow> u16" where
  "next_id s \<equiv> ucast (msgSubmitId s + 1)"

lemma cdma_text_sent:
  fixes env :: "'e cdma_sender_env_scheme"
  assumes "iconv_bounded (env_iconv env)" "icu env = Some b" "\<not> force_7bit env" "cdma_coding env txt = Ok (k, sch, l) d"
    "sch = DATA_CODING_ASCII7BIT \<or> sch = DATA_CODING_UCS2 \<and> even k" "cdma_number ds" "cdma_ready env s" "\<not> via_ims s"
  shows "\<exists>segs t. split_spec k sch l d segs \<and> (\<forall>c \<in> set segs. part_text_ok sch (length segs) (encodeData c)) \<and>
    Cdma_TextBasedSmsDelivery env ds sc txt (Some cb) deliveryCb dbId mmsApp s = Ok () t \<and>
    outs t = outs s @ (if length segs > MAX_SEGMENT_NUM then [OnSmsSendResult cb SEND_SMS_FAILURE_UNKNOWN]
      else map (\<lambda>i. cdma_output env (msgRef64bit s + 1 + int i)
        (cdma_part ds sch (deliveryCb \<noteq> None) (next_seq s) (next_id s) (length segs) i (encodeData (segs ! i)))) [0..<length segs]) \<and>
    indexers t = indexers s @ (if length segs > MAX_SEGMENT_NUM then []
      else map (\<lambda>i. cdma_indexer env ds sc sch (deliveryCb \<noteq> None) (next_seq s) (next_id s) (Some cb) deliveryCb dbId mmsApp (length (cell_flags s)) (length segs) i (segs ! i))
        [0..<length segs])"
proof -
  obtain segs where segs: "split_cdma_message env False False txt s = Ok (sch, segs) s" "split_spec k sch l d segs"
    using cdma_split [OF assms(1,2,4)] by blast
  note ok = cdma_segments_ok [OF assms(1,4,5) segs(2)]
  show ?thesis
  proof (cases "length segs > MAX_SEGMENT_NUM")
    case True
    then have "Cdma_TextBasedSmsDelivery env ds sc txt (Some cb) deliveryCb dbId mmsApp s = SendResultCallBack (Some cb) SEND_SMS_FAILURE_UNKNOWN s"
      using segs(1) assms(3,8) by (simp add: Cdma_TextBasedSmsDelivery_def bnd_def gets_def)
    with True segs(2) ok show ?thesis by (intro exI [of _ segs]) (auto simp: SendResultCallBack_def emit_def upd_def)
  next
    case False
    let ?s = "cdma_numbered s"
    let ?t = "of_p2p (cdma_part ds sch (deliveryCb \<noteq> None) (next_seq s) (next_id s) 1 0 [])"
    have ready: "cdma_ready env ?s" using assms(7) by (simp add: cdma_ready_def cdma_numbered_def keys_below_def)
    have ref: "unat (next_seq s) < 64" by (simp add: unat_mod)
    obtain t where t: "loop_with (cdma_text_part env ds sc segs (next_seq s) (next_id s) (Some cb) deliveryCb dbId mmsApp (length (cell_flags s))) [0..<length segs] ?t ?s = Ok () t"
        "outs t = outs ?s @ map (\<lambda>i. cdma_output env (msgRef64bit ?s + 1 + int (i - 0))
          (cdma_part ds sch (deliveryCb \<noteq> None) (next_seq s) (next_id s) (length segs) i (encodeData (segs ! i)))) [0..<length segs]"
        "indexers t = indexers ?s @ map (\<lambda>i. cdma_indexer env ds sc sch (deliveryCb \<noteq> None) (next_seq s) (next_id s) (Some cb) deliveryCb dbId mmsApp
          (length (cell_flags s)) (length segs) i (segs ! i)) [0..<length segs]"
      using cdma_loop [OF assms(6) ref refl ok ready, of 0 1] by blast
    obtain m u where m: "CreateSubmitTransMsg ds sc txt (deliveryCb \<noteq> None) sch new_cdma_message = Ok u m"
      using assms(6) by (auto simp: CreateSubmitTransMsg_def op_simps cdma_number_def)
    have u: "number_message (next_seq s) (next_id s) u = ?t" by (rule new_text_message [OF assms(6)]) (rule exI, rule m)
    have "Cdma_TextBasedSmsDelivery env ds sc txt (Some cb) deliveryCb dbId mmsApp s = Ok () t"
      using segs(1) assms(3,8) False m u t(1)
      by (simp add: Cdma_TextBasedSmsDelivery_def Cdma_TextBasedSmsSplitDelivery_def bnd_def seq_def ret_def gets_def upd_def with_new_def GetSeqNum_def GetSubmitMsgId_def
          make_flag_def cdma_numbered_def)
    with t segs(2) ok False show ?thesis by (intro exI [of _ segs] exI [of _ t]) (simp add: cdma_numbered_def)
  qed
qed

lemma cdma_pdu_any: "cdma_pdu env m = submit_pdu ov ic w m"
  by (simp add: cdma_pdu_def submit_pdu_def bearer_item_def submit_items_def text_item_def Let_def)

text \<open>
  C6. A text reaches the air intact on a CDMA network. For any text that is coded in ASCII or UCS-2, to a number of at most twenty digits or an international number: the segments fit and together are
  the coded text; a text of more than fifteen segments is refused with one failure result; otherwise every segment is handed over in order, with consecutive reference numbers, and the
  PDU handed over decodes to a submitted message to that number, with the sequence number and the message id that follow those of the message before, exactly the segment's data, and the
  concatenation header with its position. The parts go to the IMS service, although the sender is not in the IMS domain.
\<close>

theorem cdma_text_on_air:
  fixes env :: cdma_sender_env
  assumes "iconv_bounded (env_iconv env)" "icu env = Some b" "\<not> force_7bit env" "cdma_coding env txt = Ok (k, sch, l) d"
    "sch = DATA_CODING_ASCII7BIT \<or> sch = DATA_CODING_UCS2 \<and> even k" "cdma_number ds" "cdma_ready env s" "\<not> via_ims s"
  shows "\<exists>segs t pdus. split_spec k sch l d segs \<and> Cdma_TextBasedSmsDelivery env ds sc txt (Some cb) deliveryCb dbId mmsApp s = Ok () t \<and>
    outs t = outs s @ (if length segs > MAX_SEGMENT_NUM then [OnSmsSendResult cb SEND_SMS_FAILURE_UNKNOWN]
      else map (\<lambda>i. ImsSendMessage \<lparr>gp_refId = msgRef64bit s + 1 + int i, gp_smscPdu = StringToHex [], gp_pdu = StringToHex (pdus i)\<rparr>) [0..<length segs]) \<and>
    (\<forall>i < length segs. \<forall>ov ic w. \<exists>r. decode_transport ov ic w (SmsReadBuffer (pdus i), zero_trans) =
      Ok () (r, of_p2p (received_p2p (cdma_part ds sch (deliveryCb \<noteq> None) (next_seq s) (next_id s) (length segs) i (encodeData (segs ! i))))))"
proof -
  obtain segs t where t: "split_spec k sch l d segs" "\<forall>c \<in> set segs. part_text_ok sch (length segs) (encodeData c)"
      "Cdma_TextBasedSmsDelivery env ds sc txt (Some cb) deliveryCb dbId mmsApp s = Ok () t"
      "outs t = outs s @ (if length segs > MAX_SEGMENT_NUM then [OnSmsSendResult cb SEND_SMS_FAILURE_UNKNOWN]
        else map (\<lambda>i. cdma_output env (msgRef64bit s + 1 + int i)
          (cdma_part ds sch (deliveryCb \<noteq> None) (next_seq s) (next_id s) (length segs) i (encodeData (segs ! i)))) [0..<length segs])"
    using cdma_text_sent [OF assms, of sc cb deliveryCb dbId mmsApp] by blast
  let ?m = "\<lambda>i. cdma_part ds sch (deliveryCb \<noteq> None) (next_seq s) (next_id s) (length segs) i (encodeData (segs ! i))"
  have "\<exists>r. decode_transport ov ic w (SmsReadBuffer (cdma_pdu env (?m i)), zero_trans) = Ok () (r, of_p2p (received_p2p (?m i)))" if "i < length segs" for i ov ic w
    unfolding cdma_pdu_any [of env "?m i" ov ic w]
    by (intro decode_p2p_pdu cdma_part_ok cdma_part_short assms(6)) (use t(2) that in \<open>simp_all add: unat_mod\<close>)
  with t(1,3,4) show ?thesis
    by (intro exI [of _ segs] exI [of _ t] exI [of _ "\<lambda>i. cdma_pdu env (?m i)"]) (simp add: cdma_output_def)
qed

text \<open>
  C37. The parts of a text that is sent on a CDMA network carry row 1 of the database when the message application sends, and row 0 otherwise, whatever row the application
  named: the row and the flag of the application change places in the call of \<^verbatim>\<open>UpdateIndexerInfo\<close>.
\<close>

theorem cdma_database_row_lost:
  fixes env :: cdma_sender_env
  assumes "iconv_bounded (env_iconv env)" "icu env = Some b" "\<not> force_7bit env" "cdma_coding env txt = Ok (k, sch, l) d"
    "sch = DATA_CODING_ASCII7BIT \<or> sch = DATA_CODING_UCS2 \<and> even k" "cdma_number ds" "cdma_ready env s" "\<not> via_ims s"
  shows "\<exists>t. Cdma_TextBasedSmsDelivery env ds sc txt (Some cb) deliveryCb dbId mmsApp s = Ok () t \<and>
    take (length (indexers s)) (indexers t) = indexers s \<and> (\<forall>x \<in> set (drop (length (indexers s)) (indexers t)). dataBaseId x = (if mmsApp then 1 else 0))"
  using cdma_text_sent [OF assms, of sc cb deliveryCb dbId mmsApp] by (elim exE conjE) (intro exI conjI, assumption, auto split: if_splits)

section \<open>Examples\<close>

definition example_cdma_env :: cdma_sender_env where
  "example_cdma_env = sender_env.extend example_env (cdma_sender_env.fields plain_overlay (\<lambda>_. []) False)"

lemma example_cdma_coding: "\<exists>d. cdma_coding example_cdma_env [0x61] = Ok (1, DATA_CODING_ASCII7BIT, 0) d"
proof -
  have "DECODE_DATA_SIZE > 1" by (simp add: DECODE_DATA_SIZE_def MAX_SEGMENT_NUM_def)
  moreover have "\<not> ucs2 0 0x61 > 0x7F" by code_simp
  ultimately show ?thesis
    by (simp add: cdma_coding_def example_cdma_env_def sender_env.defs cdma_sender_env.defs example_env_def ascii_iconv_def Cdma_DecodeMessage_def CdmaUtf8ToAuto_def
      Utf8ToUcs2_def src_text_def Ucs2ToAscii_def ucs2_chars.simps put_all_def put_at_def write_at_def op_simps UCS2_LEN_MAX_def c_str_def)
qed

lemma example_cdma_ready:
  "iconv_bounded (env_iconv example_cdma_env)" "icu example_cdma_env = Some (\<lambda>_ _. True)" "\<not> force_7bit example_cdma_env"
  "cdma_number [0x31, 0x32]" "cdma_ready example_cdma_env waiting_sender" "\<not> via_ims waiting_sender"
  by (simp_all add: iconv_bounded_def example_cdma_env_def sender_env.defs cdma_sender_env.defs example_env_def ascii_iconv_def cdma_number_def dtmf_char_def cdma_ready_def
      keys_below_def waiting_sender_def idle_sender_def via_ims_def)

theorem cdma_text_on_air_witness:
  "\<exists>d segs t pdus. split_spec 1 DATA_CODING_ASCII7BIT 0 d segs \<and>
    Cdma_TextBasedSmsDelivery example_cdma_env [0x31, 0x32] [] [0x61] (Some 8) None 5 True waiting_sender = Ok () t \<and>
    outs t = outs waiting_sender @ (if length segs > MAX_SEGMENT_NUM then [OnSmsSendResult 8 SEND_SMS_FAILURE_UNKNOWN]
      else map (\<lambda>i. ImsSendMessage \<lparr>gp_refId = msgRef64bit waiting_sender + 1 + int i, gp_smscPdu = StringToHex [], gp_pdu = StringToHex (pdus i)\<rparr>) [0..<length segs]) \<and>
    (\<forall>i < length segs. \<forall>ov ic w. \<exists>r. decode_transport ov ic w (SmsReadBuffer (pdus i), zero_trans) =
      Ok () (r, of_p2p (received_p2p (cdma_part [0x31, 0x32] DATA_CODING_ASCII7BIT ((None :: nat option) \<noteq> None) (next_seq waiting_sender) (next_id waiting_sender)
        (length segs) i (encodeData (segs ! i))))))"
proof -
  obtain d where "cdma_coding example_cdma_env [0x61] = Ok (1, DATA_CODING_ASCII7BIT, 0) d" using example_cdma_coding by blast
  from cdma_text_on_air [OF example_cdma_ready(1-3) this _ example_cdma_ready(4-6), of "[]" 8 None 5 True] show ?thesis by (intro exI [of _ d]) simp
qed

theorem cdma_database_row_lost_witness:
  "\<exists>t. Cdma_TextBasedSmsDelivery example_cdma_env [0x31, 0x32] [] [0x61] (Some 8) None 5 True waiting_sender = Ok () t \<and>
    take (length (indexers waiting_sender)) (indexers t) = indexers waiting_sender \<and>
    list_all (\<lambda>x. dataBaseId x = 1) (drop (length (indexers waiting_sender)) (indexers t))"
proof -
  obtain d where "cdma_coding example_cdma_env [0x61] = Ok (1, DATA_CODING_ASCII7BIT, 0) d" using example_cdma_coding by blast
  from cdma_database_row_lost [OF example_cdma_ready(1-3) this _ example_cdma_ready(4-6), of "[]" 8 None 5 True] show ?thesis by (simp add: list_all_iff)
qed

end
