(* ===== verification/Cdma_Receive_Handler.thy ===== *)
theory Cdma_Receive_Handler
  imports Sms_Receive_Acks Cdma_Sms_Sender
begin

text \<open>
  Receiving on a CDMA network: \<^verbatim>\<open>services/sms/cdma/cdma_sms_receive_handler.cpp\<close>. The queue, the running lock, the table and the combination of pages are those of
  \<^verbatim>\<open>SmsReceiveHandler\<close>; this handler gives its virtual functions.
\<close>

section \<open>Environment\<close>

text \<open>
  What the handler needs besides the environment of every receive handler: how the union of a teleservice message and the struct of the user data are laid out in memory, the
  numeric name of the operator in UTF-8, and whether \<^verbatim>\<open>cdmaSmsSender_\<close> still points to a sender.
\<close>

record 'd cdma_receive_env = "'d receive_env" +
  re_overlay :: tele_overlay
  re_ud_bytes :: "SmsUDPackage \<Rightarrow> bytes"
  re_plmn :: bytes
  re_sender_alive :: bool

definition cdma_received_env :: "('d, 'e) cdma_receive_env_scheme \<Rightarrow> cdma_env" where
  "cdma_received_env env = sms_env.extend (sms_env.truncate env) (cdma_env.fields (re_overlay env) (re_ud_bytes env))"

section \<open>Cell broadcast\<close>

text \<open>
  A member of the message that was never set is \<open>None\<close>, and so is what is copied from it. \<^verbatim>\<open>GetFormat\<close> is 2, \<^verbatim>\<open>GetGeoScope\<close> is 1.
\<close>

definition new_cb_data :: CbData where
  "new_cb_data = \<lparr>cb_slotId = - 1, cb_msgBody = [], cb_serial = Some 0, cb_recvTime = 0, cb_msgId = Some 0, cb_format = 0, cb_category = Some 12,
     cb_isEtws = False, cb_isCmas = False, cb_cmasClass = 4, cb_cmasCate = 12, cb_severity = 2, cb_urgency = 0, cb_certainty = 2, cb_warnType = 0,
     cb_msgType = 0, cb_langType = Some 0xFF, cb_dcs = 0, cb_priority = 0, cb_isPrimary = False, cb_cmasRes = 8, cb_geoScope = 0\<rparr>"

definition GetCBData :: "CdmaSmsMessage \<Rightarrow> CbData" where
  "GetCBData m = new_cb_data\<lparr>cb_format := 2, cb_geoScope := 1, cb_msgId := cm_messageId m, cb_serial := cm_messageId m, cb_category := cm_serviceCategory m,
     cb_langType := map_option word_of_int (cm_language m), cb_msgBody := GetVisibleMessageBody m, cb_priority := word_of_int (cm_priority m),
     cb_isCmas := cm_isCmas m, cb_cmasClass := word_of_int (cm_messageClass m), cb_cmasCate := word_of_int (cm_category m),
     cb_severity := word_of_int (cm_severity m), cb_urgency := word_of_int (cm_urgency m), cb_certainty := word_of_int (cm_certainty m),
     cb_recvTime := scTimestamp m\<rparr>"

definition SetCBBroadcastParam :: "('d, 'e) cdma_receive_env_scheme \<Rightarrow> CbData \<Rightarrow> want" where
  "SetCBBroadcastParam env d =
     [(''geoScope'', WantChar (cb_geoScope d)), (''cmasResponseType'', WantChar (cb_cmasRes d)), (''slotId'', WantInt (slotId env)),
      (''format'', WantChar (cb_format d)), (''cbMsgType'', WantChar (cb_msgType d)), (''msgId'', want_opt (\<lambda>x. WantInt (uint x)) (cb_msgId d)),
      (''serviceCategory'', want_opt (\<lambda>x. WantInt (uint x)) (cb_category d)), (''langType'', want_opt WantChar (cb_langType d)),
      (''priority'', WantChar (cb_priority d)), (''msgBody'', WantString (cb_msgBody d)), (''cmasClass'', WantChar (cb_cmasClass d)),
      (''cmasCategory'', WantChar (cb_cmasCate d)), (''severity'', WantChar (cb_severity d)), (''urgency'', WantChar (cb_urgency d)),
      (''certainty'', WantChar (cb_certainty d)), (''isCmasMessage'', WantBool (cb_isCmas d)), (''serialNum'', want_opt (\<lambda>x. WantInt (uint x)) (cb_serial d)),
      (''recvTime'', WantNumber (cb_recvTime d)), (''dcs'', WantChar (cb_dcs d)), (''isEtwsPrimary'', WantBool (cb_isPrimary d)),
      (''isEtwsMessage'', WantBool (cb_isEtws d)), (''plmn'', WantString (re_plmn env)), (''lac'', WantInt (- 1)), (''cid'', WantInt (- 1)),
      (''warningType'', WantInt (uint (cb_warnType d)))]"

text \<open>No caller looks at the result of \<^verbatim>\<open>SendCBBroadcast\<close>.\<close>

definition SendCBBroadcast :: "('d, 'e) cdma_receive_env_scheme \<Rightarrow> CdmaSmsMessage \<Rightarrow> ('d, 'm, unit) rop" where
  "SendCBBroadcast env m = put_out (PublishCb (IsEmergencyMsg m) (SetCBBroadcastParam env (GetCBData m)))"

section \<open>Messages\<close>

text \<open>The indexer of a message; \<open>None\<close> when its concatenation is null after all. \<^verbatim>\<open>GetDestPort\<close> is the member, which decoding a PDU never sets.\<close>

definition cdma_page :: "(CdmaSmsMessage, SmsReceiveIndexer option) op" where
  "cdma_page =
     bnd IsConcatMsg (\<lambda>isConcat.
     if \<not> isConcat then
       gets (\<lambda>m. Some (single_page (rawPdu m) (scTimestamp m) (cm_destPort m) True False (originatingAddress m) (GetVisibleOriginatingAddress m)
         (GetVisibleMessageBody m)))
     else
       bnd GetConcatMsg (\<lambda>c. case c of
         None \<Rightarrow> ret None
       | Some c \<Rightarrow> gets (\<lambda>m. Some (page_of_many (rawPdu m) (scTimestamp m) (cm_destPort m) True (originatingAddress m) (GetVisibleOriginatingAddress m)
           (cc_msgRef c) (cc_seqNum c) (cc_totalSeg c) False (GetVisibleMessageBody m)))))"

definition HandleSmsOtherSvcid :: "('d, 'e) cdma_receive_env_scheme \<Rightarrow> ('d, 'm) wap_decoder \<Rightarrow> CdmaSmsMessage \<Rightarrow> ('d, 'm, int) rop" where
  "HandleSmsOtherSvcid env wap m =
     bnd (with_new m cdma_page) (\<lambda>(page, m).
     case page of
       None \<Rightarrow> ret SMS_ACK_UNKNOWN_ERROR
     | Some x \<Rightarrow>
         bnd (repeated_part (ds env) x m) (\<lambda>rep.
         if rep then ret SMS_ACK_RESULT_OK
         else
           bnd (AddMsgToDB env x) (\<lambda>(ok, x).
           if \<not> ok then ret SMS_ACK_UNKNOWN_ERROR
           else
             bnd (DeleteExpireSmsFromDB env) (\<lambda>ok.
             if \<not> ok then ret SMS_ACK_UNKNOWN_ERROR
             else seq (CombineMessagePart env wap x) (ret SMS_ACK_RESULT_OK)))))"

text \<open>The beginning that \<^verbatim>\<open>HandleSmsByType\<close> and \<^verbatim>\<open>HandleAck\<close> share: broadcasts, other teleservices and status reports.\<close>

definition HandleSmsByType_cases :: "('d, 'e) cdma_receive_env_scheme \<Rightarrow> CdmaSmsMessage \<Rightarrow> ('d, 'm, int) rop \<Rightarrow> ('d, 'm, int) rop" where
  "HandleSmsByType_cases env m other =
     (if IsBroadcastMsg m then seq (SendCBBroadcast env m) (ret SMS_ACK_RESULT_OK)
      else if GetTransTeleService m \<noteq> WEMT \<and> GetTransTeleService m \<noteq> CMT_95 then ret SMS_ACK_RESULT_OK
      else if Cdma_IsStatusReport m \<and> re_sender_alive env then
        seq (put_out (StatusReport (word_of_int (bm_msgRef m)) (rawPdu m))) (ret SMS_ACK_RESULT_OK)
      else other)"

definition Cdma_HandleSmsByType :: "('d, 'e) cdma_receive_env_scheme \<Rightarrow> ('d, 'm) wap_decoder \<Rightarrow> CdmaSmsMessage option \<Rightarrow> ('d, 'm, int) rop" where
  "Cdma_HandleSmsByType env wap message = (case message of
     None \<Rightarrow> ret SMS_ACK_UNKNOWN_ERROR
   | Some m \<Rightarrow> HandleSmsByType_cases env m (HandleSmsOtherSvcid env wap m))"

text \<open>The message object changes when its concatenation is looked up.\<close>

definition Cdma_HandleAck :: "('d, 'e) cdma_receive_env_scheme \<Rightarrow> CdmaSmsMessage \<Rightarrow> ('d, 'm, int \<times> CdmaSmsMessage) rop" where
  "Cdma_HandleAck env m =
     (if IsBroadcastMsg m then seq (SendCBBroadcast env m) (ret (SMS_ACK_RESULT_OK, m))
      else if GetTransTeleService m \<noteq> WEMT \<and> GetTransTeleService m \<noteq> CMT_95 then ret (SMS_ACK_RESULT_OK, m)
      else if Cdma_IsStatusReport m \<and> re_sender_alive env then
        seq (put_out (StatusReport (word_of_int (bm_msgRef m)) (rawPdu m))) (ret (SMS_ACK_RESULT_OK, m))
      else
        bnd (with_new m IsConcatMsg) (\<lambda>(isConcat, m).
        if isConcat then
          bnd (with_new m GetConcatMsg) (\<lambda>(c, m). ret (if c = None then SMS_ACK_UNKNOWN_ERROR else SMS_ACK_RESULT_OK, m))
        else ret (SMS_ACK_RESULT_OK, m)))"

definition Cdma_HandleRemainDataShare :: "('d, 'e) cdma_receive_env_scheme \<Rightarrow> ('d, 'm) wap_decoder \<Rightarrow> CdmaSmsMessage \<Rightarrow> ('d, 'm, unit) rop" where
  "Cdma_HandleRemainDataShare env wap m =
     bnd (with_new m cdma_page) (\<lambda>(page, m).
     case page of
       None \<Rightarrow> ret ()
     | Some x \<Rightarrow>
         bnd (repeated_part (ds env) x m) (\<lambda>rep.
         if rep then ret ()
         else
           bnd (AddMsgToDB env x) (\<lambda>(ok, x).
           if \<not> ok then ret ()
           else
             bnd (DeleteExpireSmsFromDB env) (\<lambda>ok.
             if \<not> ok then ret () else CombineMessagePart env wap x))))"

definition Cdma_ReplySmsToSmsc :: "int \<Rightarrow> ('d, 'm, bool) rop" where
  "Cdma_ReplySmsToSmsc result = seq (put_out (SmsAck (result = SMS_ACK_RESULT_OK) result)) (ret (result = SMS_ACK_RESULT_OK))"

definition Cdma_TransformMessageInfo :: "('d, 'e) cdma_receive_env_scheme \<Rightarrow> bytes option \<Rightarrow> ('d, 'm, CdmaSmsMessage option) rop" where
  "Cdma_TransformMessageInfo env info = (case info of
     None \<Rightarrow> ret None
   | Some pdu \<Rightarrow> bnd (with_new () (Cdma_CreateMessage (cdma_received_env env) (StringToHex pdu))) (\<lambda>(m, _). ret m))"

definition cdma_handler ::
  "('d, 'e) cdma_receive_env_scheme \<Rightarrow> ('d, CdmaSmsMessage) wap_decoder \<Rightarrow> ('d, CdmaSmsMessage) handler_ops" where
  "cdma_handler env wap = \<lparr>vh_by_type = Cdma_HandleSmsByType env wap, vh_ack = Cdma_HandleAck env,
     vh_remain = Cdma_HandleRemainDataShare env wap, vh_reply = Cdma_ReplySmsToSmsc, vh_transform = Cdma_TransformMessageInfo env\<rparr>"

end
