(* ===== verification/Cdma_Receive.thy ===== *)
theory Cdma_Receive
  imports Cdma_Receive_Handler Cdma_Safety
begin

text \<open>
  What becomes of messages that are received on a CDMA network: they are acknowledged, but the raw PDU of the message object is never set, so that no event the handler
  publishes carries a PDU, and messages of several parts are never put together.
\<close>

section \<open>Whenever an operation returns\<close>

text \<open>An operation that keeps \<open>I\<close>, and hands out what satisfies \<open>K\<close>, unless it accesses memory outside an array.\<close>

definition leaves :: "('s \<Rightarrow> bool) \<Rightarrow> ('a \<Rightarrow> bool) \<Rightarrow> ('s, 'a) op \<Rightarrow> bool" where
  "leaves I K m \<longleftrightarrow> (\<forall>s. I s \<longrightarrow> (case m s of Ok x t \<Rightarrow> I t \<and> K x | Fail t \<Rightarrow> I t | Fault \<Rightarrow> True))"

named_theorems leaves_intros \<open>operations that keep an invariant whenever they return\<close>

lemma leavesD: "leaves I K m \<Longrightarrow> I s \<Longrightarrow> m s = Ok x t \<Longrightarrow> I t \<and> K x"
  unfolding leaves_def by (erule allE [of _ s]) simp

lemma leaves_weaken:
  assumes "leaves I K m" "\<And>x. K x \<Longrightarrow> L x"
  shows "leaves I L m"
  unfolding leaves_def
proof (intro allI impI)
  fix s
  assume "I s"
  with assms show "case m s of Ok x t \<Rightarrow> I t \<and> L x | Fail t \<Rightarrow> I t | Fault \<Rightarrow> True" unfolding leaves_def by (cases "m s") auto
qed

lemma leaves_bnd:
  assumes "leaves I K m" "\<And>x. K x \<Longrightarrow> leaves I L (k x)"
  shows "leaves I L (bnd m k)"
  unfolding leaves_def bnd_def
proof (intro allI impI)
  fix s
  assume "I s"
  with assms(1) show "case (case m s of Ok x t \<Rightarrow> k x t | Fail t \<Rightarrow> Fail t | Fault \<Rightarrow> Fault) of Ok x t \<Rightarrow> I t \<and> L x | Fail t \<Rightarrow> I t | Fault \<Rightarrow> True"
    using assms(2) by (cases "m s") (fastforce simp: leaves_def)+
qed

lemma leaves_seq: "leaves I (\<lambda>_. True) m \<Longrightarrow> leaves I K n \<Longrightarrow> leaves I K (seq m n)"
  by (simp add: seq_def leaves_bnd)

lemma leaves_ret [leaves_intros]: "K x \<Longrightarrow> leaves I K (ret x)"
  by (simp add: leaves_def ret_def)

lemma leaves_fail [leaves_intros]: "leaves I K fail" "leaves I K fault"
  by (simp_all add: leaves_def fail_def fault_def)

lemma leaves_upd [leaves_intros]: "(\<And>s. I s \<Longrightarrow> I (f s)) \<Longrightarrow> leaves I (\<lambda>_. True) (upd f)"
  by (simp add: leaves_def upd_def)

lemma leaves_gets [leaves_intros]: "(\<And>s. I s \<Longrightarrow> K (f s)) \<Longrightarrow> leaves I K (gets f)"
  by (simp add: leaves_def gets_def)

lemma leaves_with_new [leaves_intros]: "(\<And>y t. n arr = Ok y t \<Longrightarrow> K (y, t)) \<Longrightarrow> leaves I K (with_new arr n)"
  by (simp add: leaves_def with_new_def split: outcome.splits)

lemma leaves_if [leaves_intros]: "(b \<Longrightarrow> leaves I K m) \<Longrightarrow> (\<not> b \<Longrightarrow> leaves I K n) \<Longrightarrow> leaves I K (if b then m else n)"
  by simp

lemma leaves_ignore:
  assumes "leaves I (\<lambda>_. True) m"
  shows "leaves I (\<lambda>_. True) (ignore m)"
  unfolding leaves_def
proof (intro allI impI)
  fix s
  assume "I s"
  with assms show "case ignore m s of Ok x t \<Rightarrow> I t \<and> True | Fail t \<Rightarrow> I t | Fault \<Rightarrow> True"
    unfolding leaves_def ignore_def by (cases "m s") auto
qed

section \<open>The object of a message\<close>

definition bare :: "CdmaSmsMessage \<Rightarrow> bool" where
  "bare m \<longleftrightarrow> rawPdu m = [] \<and> cm_destPort m = - 1"

lemma leaves_insert_body: "leaves bare (\<lambda>_. True) (insert_cdma_body p)"
  by (cases p) (auto simp: leaves_def insert_cdma_body_def bare_def split: option.splits)

lemma leaves_AnalsisUserData: "leaves bare (\<lambda>_. True) (AnalsisUserData env d)"
  unfolding AnalsisUserData_def AnalsisHeader_def Let_def
  by (intro leaves_seq leaves_if leaves_bnd [where K = "\<lambda>_. True"] leaves_insert_body leaves_intros) (simp_all add: bare_def)

lemma leaves_message_parts:
  "leaves bare (\<lambda>_. True) (AnalsisDeliverMsg env d)" "leaves bare (\<lambda>_. True) (AnalsisDeliverMwi p d)" "leaves bare (\<lambda>_. True) (AnalsisDeliverAck env a)"
  "leaves bare (\<lambda>_. True) (AnalsisSubmitReport env r)" "leaves bare (\<lambda>_. True) (AnalsisSubmitMsg env u)" "leaves bare (\<lambda>_. True) (AnalsisCMASMsg env d)"
  "leaves bare (\<lambda>_. True) (AnalsisAckMsg k)"
  unfolding AnalsisDeliverMsg_def AnalsisDeliverMwi_def AnalsisDeliverAck_def AnalsisSubmitReport_def AnalsisSubmitMsg_def AnalsisCMASMsg_def AnalsisAckMsg_def
    c_string_def Let_def
  by (intro leaves_seq leaves_if leaves_AnalsisUserData leaves_bnd [where K = "\<lambda>_. True"] leaves_intros; simp add: bare_def)+

lemma leaves_AnalysisP2pMsg: "leaves bare (\<lambda>_. True) (AnalysisP2pMsg env p)"
  unfolding AnalysisP2pMsg_def c_string_def Let_def
  by (cases "tm_type (p2p_telesvcMsg p)")
    (auto intro!: leaves_seq leaves_if leaves_message_parts leaves_bnd [where K = "\<lambda>_. True"] leaves_intros simp: bare_def)

lemma leaves_AnalysisCbMsg: "leaves bare (\<lambda>_. True) (AnalysisCbMsg env b)"
  unfolding AnalysisCbMsg_def Let_def
  by (intro leaves_seq leaves_if leaves_message_parts leaves_intros) (simp_all add: bare_def)

lemma leaves_PduAnalysis: "leaves bare (\<lambda>_. True) (Cdma_PduAnalysis env pdu)"
proof -
  have run: "leaves bare (\<lambda>_. True) (run_transport env p)" for p
    by (auto simp: leaves_def run_transport_def bare_def split: option.splits outcome.splits)
  have "leaves bare (\<lambda>_. True) (case t of None \<Rightarrow> fail | Some t \<Rightarrow>
      (case tr_type t of
         TRANS_P2P \<Rightarrow> AnalysisP2pMsg env (get_p2p (tr_data t))
       | TRANS_BROADCAST \<Rightarrow>
           let c = dl_cmasData (get_deliver (ce_overlay env) (tm_data (bc_telesvcMsg (get_broadcast (tr_data t))))) in
           if cd_isWrongRecodeType c then fail
           else if cd_encodeType c = ENC_KOREAN \<or> cd_encodeType c = ENC_GSMDCS then fail
           else AnalysisCbMsg env (get_broadcast (tr_data t))
       | TRANS_ACK \<Rightarrow> AnalsisAckMsg (get_ack (tr_data t))
       | TRANS_RESERVED \<Rightarrow> fail))" for t
    by (auto simp: Let_def leaves_AnalysisP2pMsg leaves_AnalysisCbMsg leaves_message_parts leaves_intros split: option.splits CdmaTransportMsgType.splits)
  then show ?thesis unfolding Cdma_PduAnalysis_def
    by (intro leaves_if leaves_seq leaves_bnd [where K = "\<lambda>_. True"] run leaves_intros) simp_all
qed

lemma created_bare: "Cdma_CreateMessage env pdu s = Ok (Some m) t \<Longrightarrow> bare m"
  using leavesD [OF leaves_PduAnalysis [of env pdu], of "new_cdma_message\<lparr>cm_transMsg := Some zero_trans\<rparr>"]
  by (auto simp: Cdma_CreateMessage_def bare_def new_cdma_message_def split: outcome.splits)

lemma first_header_same: "first_header f u i n s = Ok x t \<Longrightarrow> t = s" "first_header f u i n s = Fail t \<Longrightarrow> t = s"
  by (induction n arbitrary: i) (auto simp: op_simps split: option.splits if_splits)

lemma GetConcatMsg_state:
  fixes m :: CdmaSmsMessage
  shows "GetConcatMsg m = Ok c m' \<Longrightarrow> m' = m\<lparr>smsConcat := c\<rparr>"
  by (cases "first_header concat_of (smsUserData m) 0 (unat (headerCnt (smsUserData m))) m")
    (auto simp: GetConcatMsg_def op_simps scan_headers_def dest!: first_header_same)

lemma bare_concat: "GetConcatMsg m = Ok c m' \<Longrightarrow> bare m \<Longrightarrow> bare m'"
  using GetConcatMsg_state by (fastforce simp: bare_def)

section \<open>The page of a message\<close>

definition bare_page :: "SmsReceiveIndexer \<Rightarrow> bool" where
  "bare_page x \<longleftrightarrow> ri_pdu x = [] \<and> ri_destPort x = - 1"

lemma leaves_concat: "leaves bare (\<lambda>_. True) IsConcatMsg" "leaves bare (\<lambda>_. True) GetConcatMsg"
proof -
  have "leaves bare (\<lambda>_. True) (scan_headers f)" for f :: "SmsUDH \<Rightarrow> 'x option option"
    by (auto simp: leaves_def scan_headers_def op_simps dest: first_header_same split: outcome.splits)
  then show "leaves bare (\<lambda>_. True) GetConcatMsg" unfolding GetConcatMsg_def
    by (intro leaves_seq leaves_bnd [where K = "\<lambda>_. True"] leaves_intros) (simp_all add: bare_def)
  then show "leaves bare (\<lambda>_. True) IsConcatMsg" unfolding IsConcatMsg_def by (intro leaves_bnd [where K = "\<lambda>_. True"] leaves_intros) simp_all
qed

lemma leaves_cdma_page: "leaves bare (\<lambda>p. \<forall>x. p = Some x \<longrightarrow> bare_page x) cdma_page"
proof -
  have pages: "bare m \<Longrightarrow> bare_page (single_page (rawPdu m) t (cm_destPort m) True False a v b)"
      "bare m \<Longrightarrow> bare_page (page_of_many (rawPdu m) t (cm_destPort m) True a v r i n False b)" for m t a v b r i n
    by (simp_all add: bare_def bare_page_def single_page_def page_of_many_def)
  have "leaves bare (\<lambda>p. \<forall>x. p = Some x \<longrightarrow> bare_page x) (case c of None \<Rightarrow> ret None
       | Some c \<Rightarrow> gets (\<lambda>m. Some (page_of_many (rawPdu m) (scTimestamp m) (cm_destPort m) True (originatingAddress m) (GetVisibleOriginatingAddress m)
           (cc_msgRef c) (cc_seqNum c) (cc_totalSeg c) False (GetVisibleMessageBody m))))" for c
    by (cases c) (auto intro!: leaves_intros pages)
  then show ?thesis unfolding cdma_page_def
    by (intro leaves_bnd [OF leaves_concat(1)] leaves_if leaves_bnd [OF leaves_concat(2)] leaves_intros) (auto intro: pages)
qed

section \<open>Nothing published carries a PDU\<close>

definition no_pdu :: "('d \<Rightarrow> page_row list) \<Rightarrow> ('d, CdmaSmsMessage) receiver \<Rightarrow> bool" where
  "no_pdu rows s \<longleftrightarrow> (\<forall>e \<in> set (events s). ev_pdus e = [] \<and> ev_msgCount e = 1) \<and> list_all bare (smsBaseMessageQueue s) \<and>
     (\<forall>w \<in> set (rows (store s)). row_pdu w = [])"

lemma events_out [simp]: "events (s\<lparr>r_outs := r_outs s @ [x]\<rparr>) = events s @ (case x of PublishSms e \<Rightarrow> [e] | _ \<Rightarrow> [])"
  by (simp add: events_def)

lemma events_upd [simp]:
  "events (s\<lparr>store := d\<rparr>) = events s" "events (s\<lparr>smsRunningLock := l\<rparr>) = events s" "events (s\<lparr>smsRunningLockCount := k\<rparr>) = events s"
  "events (s\<lparr>smsLockSerialNum := i\<rparr>) = events s" "events (s\<lparr>smsBaseMessageQueue := q\<rparr>) = events s" "events (s\<lparr>alreadySendEvent := b\<rparr>) = events s"
  "events (s\<lparr>reconnectDataShareCount := c\<rparr>) = events s"
  by (simp_all add: events_def)

lemma leaves_put_out: "(\<And>e. x \<noteq> PublishSms e) \<Longrightarrow> leaves (no_pdu rows) (\<lambda>_. True) (put_out x)"
  by (cases x) (auto simp: put_out_def no_pdu_def intro!: leaves_upd)

lemma leaves_persist:
  assumes "page_table D rows"
  shows "leaves (no_pdu rows) (\<lambda>vs. \<forall>v \<in> set vs. ri_pdu v = []) (PersistQuery D p)"
    "row_pdu w = [] \<Longrightarrow> leaves (no_pdu rows) (\<lambda>_. True) (PersistInsert D w)" "leaves (no_pdu rows) (\<lambda>_. True) (PersistDelete D p)"
proof -
  show "leaves (no_pdu rows) (\<lambda>vs. \<forall>v \<in> set vs. ri_pdu v = []) (PersistQuery D p)"
    by (auto simp: leaves_def PersistQuery_table [OF assms] no_pdu_def ResultSetConvertToIndexer_def ConvertStringToIndexer_def)
  show "leaves (no_pdu rows) (\<lambda>_. True) (PersistInsert D w)" if "row_pdu w = []"
    unfolding leaves_def
  proof (intro allI impI)
    fix s :: "('a, CdmaSmsMessage) receiver"
    assume "no_pdu rows s"
    with PersistInsert_table [OF assms, of w s] that show "case PersistInsert D w s of Ok x t \<Rightarrow> no_pdu rows t \<and> True | Fail t \<Rightarrow> no_pdu rows t | Fault \<Rightarrow> True"
      by (auto simp: no_pdu_def)
  qed
  show "leaves (no_pdu rows) (\<lambda>_. True) (PersistDelete D p)"
    unfolding leaves_def
  proof (intro allI impI)
    fix s :: "('a, CdmaSmsMessage) receiver"
    assume "no_pdu rows s"
    with PersistDelete_table [OF assms, of p s] show "case PersistDelete D p s of Ok x t \<Rightarrow> no_pdu rows t \<and> True | Fail t \<Rightarrow> no_pdu rows t | Fault \<Rightarrow> True"
      by (auto simp: no_pdu_def)
  qed
qed

lemma place_empty_pages:
  assumes "\<forall>v \<in> set vs. ri_pdu v = []" "place_pages pdus cnt e vs = Some (pdus', cnt', e')"
  shows "cnt' = cnt + length vs \<and> e' = e + length vs \<and> length pdus' = length pdus"
  using assms
proof (induction vs arbitrary: pdus cnt e)
  case (Cons v vs)
  then have "place_pages (pdus[unat (ri_msgSeqId v) - 1 := StringToHex (ri_pdu v)]) (cnt + 1) (e + 1) vs = Some (pdus', cnt', e')"
    by (auto split: if_splits)
  from Cons.IH [OF _ this] Cons.prems(1) show ?case by simp
qed simp

lemma leaves_DeleteMessageFormDb:
  assumes "page_table D rows"
  shows "leaves (no_pdu rows) (\<lambda>_. True) (DeleteMessageFormDb D r i n a)"
  unfolding DeleteMessageFormDb_def by (intro leaves_if leaves_intros leaves_ignore leaves_persist [OF assms]) simp

lemma leaves_CombineMultiPageMessage:
  assumes "page_table (ds env) rows"
  shows "leaves (no_pdu rows) (\<lambda>r. r = None) (CombineMultiPageMessage env x)"
  unfolding CombineMultiPageMessage_def Let_def
proof (rule leaves_bnd [OF leaves_persist(1) [OF assms]])
  fix vs :: "SmsReceiveIndexer list"
  assume vs: "\<forall>v \<in> set vs. ri_pdu v = []"
  let ?n = "unat (ri_msgCount x)"
  show "leaves (no_pdu rows) (\<lambda>r. r = None) (case place_pages (replicate ?n []) 0 0 vs of
      None \<Rightarrow> seq (DeleteMessageFormDb (ds env) (ri_msgRefId x) (ri_dataBaseId x) (uint (ri_msgCount x)) (ri_originatingAddress x)) (ret None)
    | Some (pdus, cnt, empties) \<Rightarrow> if count_int8 cnt \<noteq> int ?n \<or> pdus = [] \<or> int ?n - int empties \<noteq> int ?n then ret None
        else bnd (UpdateMultiPageMessage env x pdus) (\<lambda>x. ret (Some (x, pdus))))"
  proof (cases "place_pages (replicate ?n []) 0 0 vs")
    case None
    then show ?thesis by (auto intro!: leaves_seq leaves_intros leaves_DeleteMessageFormDb [OF assms])
  next
    case (Some y)
    obtain pdus k e where y: "y = (pdus, k, e)" by (cases y)
    with Some place_empty_pages [OF vs, of "replicate ?n []" 0 0 pdus k e] have "k = length vs" "e = length vs" "length pdus = ?n" by simp_all
    then have "count_int8 k \<noteq> int ?n \<or> pdus = [] \<or> int ?n - int e \<noteq> int ?n" by (cases "vs = []"; cases pdus) (auto simp: count_int8_def simp del: of_nat_unat)
    then show ?thesis using Some y by (simp add: leaves_ret)
  qed
qed

lemma leaves_CombineMessagePart:
  assumes "page_table (ds env) rows" "bare_page x"
  shows "leaves (no_pdu rows) (\<lambda>_. True) (CombineMessagePart env wap x)"
proof -
  let ?K = "\<lambda>r. \<forall>y pdus. r = Some (y, pdus) \<longrightarrow> bare_page y \<and> ri_msgCount y = 1 \<and> filter (\<lambda>p. p \<noteq> []) pdus = []"
  have page: "leaves (no_pdu rows) ?K (if IsSingleMsg x then ret (Some (x, [StringToHex (ri_pdu x)])) else CombineMultiPageMessage env x)"
  proof (cases "IsSingleMsg x")
    case True
    with assms(2) show ?thesis by (auto simp: IsSingleMsg_def bare_page_def StringToHex_def intro!: leaves_ret)
  next
    case False
    have "leaves (no_pdu rows) ?K (CombineMultiPageMessage env x)"
      by (rule leaves_weaken [OF leaves_CombineMultiPageMessage [OF assms(1)]]) simp
    with False show ?thesis by simp
  qed
  have send: "leaves (no_pdu rows) (\<lambda>_. True) (Sms_Receive_Reliability.SendBroadcast (ds env) y pdus)" if "ri_msgCount y = 1" "filter (\<lambda>p. p \<noteq> []) pdus = []" for y pdus
    unfolding SendBroadcast_def put_out_def
    by (intro leaves_seq leaves_if leaves_intros leaves_DeleteMessageFormDb [OF assms(1)]) (use that in \<open>auto simp: no_pdu_def\<close>)
  show ?thesis unfolding CombineMessagePart_def
    by (rule leaves_bnd [OF page]) (auto simp: bare_page_def GetIsWapPushMsg_def WAP_PUSH_PORT_def split: option.splits intro!: leaves_intros send)
qed

lemma leaves_AddMsgToDB:
  assumes "page_table (ds env) rows" "bare_page x"
  shows "leaves (no_pdu rows) (\<lambda>(_, y). bare_page y) (AddMsgToDB env x)"
  unfolding AddMsgToDB_def
  by (rule leaves_bnd [OF leaves_persist(2) [OF assms(1)]])
    (use assms(2) in \<open>auto simp: page_values_def bare_page_def StringToHex_def intro!: leaves_ret\<close>)

lemma leaves_DeleteExpire:
  assumes "page_table (ds env) rows"
  shows "leaves (no_pdu rows) (\<lambda>_. True) (DeleteExpireSmsFromDB env)"
  unfolding DeleteExpireSmsFromDB_def Let_def by (auto intro!: leaves_intros leaves_persist [OF assms] split: option.splits)

lemma leaves_repeated_part:
  assumes "page_table D rows"
  shows "leaves (no_pdu rows) (\<lambda>_. True) (repeated_part D x m)"
proof -
  have "leaves (no_pdu rows) (\<lambda>_. True) (IsRepeatedMessagePart D x)" unfolding IsRepeatedMessagePart_def
    by (rule leaves_bnd [OF leaves_persist(1) [OF assms]]) (simp add: leaves_ret)
  then show ?thesis unfolding repeated_part_def
    by (intro leaves_if leaves_bnd [OF leaves_with_new [where K = "\<lambda>_. True"]] leaves_intros) (auto intro!: leaves_intros)
qed

lemma bare_pages: "bare m \<Longrightarrow> cdma_page m = Ok (Some x) m' \<Longrightarrow> bare_page x"
  using leavesD [OF leaves_cdma_page] by blast

lemma leaves_store_page:
  assumes "page_table (ds env) rows" "bare_page x"
  shows "leaves (no_pdu rows) (\<lambda>_. True) (bnd (AddMsgToDB env x) (\<lambda>(ok, x). if \<not> ok then ret a
      else bnd (DeleteExpireSmsFromDB env) (\<lambda>ok. if \<not> ok then ret b else seq (CombineMessagePart env wap x) (ret c))))"
  by (rule leaves_bnd [OF leaves_AddMsgToDB [OF assms]])
    (auto intro!: leaves_intros leaves_seq leaves_bnd [OF leaves_DeleteExpire [OF assms(1)]] leaves_CombineMessagePart [OF assms(1)])

lemma leaves_HandleSmsByType:
  assumes "page_table (ds env) rows" "\<forall>m. message = Some m \<longrightarrow> bare m"
  shows "leaves (no_pdu rows) (\<lambda>_. True) (Cdma_HandleSmsByType env wap message)"
proof (cases message)
  case None
  then show ?thesis by (simp add: Cdma_HandleSmsByType_def leaves_ret)
next
  case (Some m)
  have "leaves (no_pdu rows) (\<lambda>_. True) (HandleSmsOtherSvcid env wap m)"
    unfolding HandleSmsOtherSvcid_def
    by (rule leaves_bnd [OF leaves_with_new [where K = "\<lambda>(p, _). \<forall>x. p = Some x \<longrightarrow> bare_page x"]])
      (use assms Some in \<open>auto dest: bare_pages split: option.splits intro!: leaves_intros leaves_bnd [OF leaves_repeated_part [OF assms(1)]] leaves_store_page\<close>)
  with Some show ?thesis by (auto simp: Cdma_HandleSmsByType_def HandleSmsByType_cases_def SendCBBroadcast_def intro!: leaves_seq leaves_intros leaves_put_out)
qed

lemma leaves_HandleAck:
  assumes "bare m"
  shows "leaves (no_pdu rows) (\<lambda>(_, m). bare m) (Cdma_HandleAck env m)"
proof -
  have c: "bare m \<Longrightarrow> leaves (no_pdu rows) (\<lambda>(_, m). bare m) (bnd (with_new m GetConcatMsg) (\<lambda>(c, m). ret (if c = None then SMS_ACK_UNKNOWN_ERROR else SMS_ACK_RESULT_OK, m)))" for m
    by (rule leaves_bnd [OF leaves_with_new [where K = "\<lambda>(_, m). bare m"]]) (use leavesD [OF leaves_concat(2)] in \<open>auto intro!: leaves_ret\<close>)
  have "leaves (no_pdu rows) (\<lambda>(_, m). bare m) (bnd (with_new m IsConcatMsg) (\<lambda>(isConcat, m). if isConcat then
      bnd (with_new m GetConcatMsg) (\<lambda>(c, m). ret (if c = None then SMS_ACK_UNKNOWN_ERROR else SMS_ACK_RESULT_OK, m)) else ret (SMS_ACK_RESULT_OK, m)))"
    by (rule leaves_bnd [OF leaves_with_new [where K = "\<lambda>(_, m). bare m"]])
      (use leavesD [OF leaves_concat(1)] assms in \<open>auto intro!: leaves_intros c\<close>)
  then show ?thesis unfolding Cdma_HandleAck_def SendCBBroadcast_def using assms by (intro leaves_if leaves_seq leaves_put_out leaves_intros) auto
qed

lemma leaves_HandleRemainDataShare:
  assumes "page_table (ds env) rows" "bare m"
  shows "leaves (no_pdu rows) (\<lambda>_. True) (Cdma_HandleRemainDataShare env wap m)"
  unfolding Cdma_HandleRemainDataShare_def
proof (rule leaves_bnd [OF leaves_with_new [where K = "\<lambda>(p, _). \<forall>x. p = Some x \<longrightarrow> bare_page x"]])
  fix y :: "SmsReceiveIndexer option \<times> CdmaSmsMessage"
  assume y: "case y of (p, _) \<Rightarrow> \<forall>x. p = Some x \<longrightarrow> bare_page x"
  have "leaves (no_pdu rows) (\<lambda>_. True) (bnd (AddMsgToDB env x) (\<lambda>(ok, x). if \<not> ok then ret ()
      else bnd (DeleteExpireSmsFromDB env) (\<lambda>ok. if \<not> ok then ret () else CombineMessagePart env wap x)))" if "bare_page x" for x
    by (rule leaves_bnd [OF leaves_AddMsgToDB [OF assms(1) that]])
      (auto intro!: leaves_intros leaves_bnd [OF leaves_DeleteExpire [OF assms(1)]] leaves_CombineMessagePart [OF assms(1)])
  with y show "leaves (no_pdu rows) (\<lambda>_. True) (case y of (page, m) \<Rightarrow> (case page of None \<Rightarrow> ret () | Some x \<Rightarrow>
      bnd (repeated_part (ds env) x m) (\<lambda>rep. if rep then ret () else
        bnd (AddMsgToDB env x) (\<lambda>(ok, x). if \<not> ok then ret ()
          else bnd (DeleteExpireSmsFromDB env) (\<lambda>ok. if \<not> ok then ret () else CombineMessagePart env wap x)))))"
    by (auto split: option.splits intro!: leaves_intros leaves_bnd [OF leaves_repeated_part [OF assms(1)]])
qed (use assms(2) in \<open>auto dest: bare_pages\<close>)

lemma leaves_TransformMessageInfo: "leaves (no_pdu rows) (\<lambda>r. \<forall>m. r = Some m \<longrightarrow> bare m) (Cdma_TransformMessageInfo env info)"
proof (cases info)
  case (Some pdu)
  have "leaves (no_pdu rows) (\<lambda>r. \<forall>m. r = Some m \<longrightarrow> bare m)
      (bnd (with_new () (Cdma_CreateMessage (cdma_received_env env) (StringToHex pdu))) (\<lambda>(m, _). ret m))"
    by (rule leaves_bnd [OF leaves_with_new [where K = "\<lambda>(r, _). \<forall>m. r = Some m \<longrightarrow> bare m"]]) (auto dest: created_bare intro!: leaves_ret)
  with Some show ?thesis by (simp add: Cdma_TransformMessageInfo_def)
qed (simp add: Cdma_TransformMessageInfo_def leaves_ret)

lemma leaves_inert:
  "(\<And>s. events (f s) = events s \<and> smsBaseMessageQueue (f s) = smsBaseMessageQueue s \<and> store (f s) = store s) \<Longrightarrow> leaves (no_pdu rows) (\<lambda>_. True) (upd f)"
  by (rule leaves_upd) (simp add: no_pdu_def)

lemma leaves_locks:
  "leaves (no_pdu rows) (\<lambda>_. True) (ApplyRunningLock env)" "leaves (no_pdu rows) (\<lambda>_. True) (ReleaseRunningLock env)"
  "leaves (no_pdu rows) (\<lambda>_. True) (ReduceRunningLock env)" "leaves (no_pdu rows) (\<lambda>_. True) (HandleRunningLockTimeoutEvent env n)"
proof -
  have a: "leaves (no_pdu rows) (\<lambda>_. True) (CreateRunningLockInner env)" unfolding CreateRunningLockInner_def
    by (intro leaves_if leaves_inert leaves_intros) simp_all
  show "leaves (no_pdu rows) (\<lambda>_. True) (ApplyRunningLock env)" unfolding ApplyRunningLock_def
    by (intro leaves_if leaves_seq leaves_bnd [OF leaves_gets [where K = "\<lambda>_. True"]] a leaves_inert leaves_put_out leaves_ret) simp_all
  show r: "leaves (no_pdu rows) (\<lambda>_. True) (ReleaseRunningLock env)" unfolding ReleaseRunningLock_def
    by (intro leaves_if leaves_seq leaves_bnd [OF leaves_gets [where K = "\<lambda>_. True"]] leaves_inert leaves_put_out leaves_ret) simp_all
  show "leaves (no_pdu rows) (\<lambda>_. True) (ReduceRunningLock env)" unfolding ReduceRunningLock_def
    by (intro leaves_if leaves_seq leaves_bnd [OF leaves_gets [where K = "\<lambda>_. True"]] leaves_inert leaves_put_out leaves_ret r)
      (auto intro!: leaves_if leaves_seq leaves_inert leaves_ret r)
  show "leaves (no_pdu rows) (\<lambda>_. True) (HandleRunningLockTimeoutEvent env n)" unfolding HandleRunningLockTimeoutEvent_def
    by (intro leaves_if leaves_bnd [OF leaves_gets [where K = "\<lambda>_. True"]] leaves_ret r) simp_all
qed

lemma leaves_reply: "leaves (no_pdu rows) (\<lambda>_. True) (Cdma_ReplySmsToSmsc r)"
  unfolding Cdma_ReplySmsToSmsc_def by (intro leaves_seq leaves_put_out leaves_ret) simp_all

lemma leaves_received:
  assumes "page_table (ds env) rows" "\<forall>m. message = Some m \<longrightarrow> bare m"
  shows "leaves (no_pdu rows) (\<lambda>_. True) (HandleReceivedSms (cdma_handler env wap) message)"
    "leaves (no_pdu rows) (\<lambda>_. True) (HandleReceivedSmsWithoutDataShare (cdma_handler env wap) message)"
proof -
  show "leaves (no_pdu rows) (\<lambda>_. True) (HandleReceivedSms (cdma_handler env wap) message)"
    using assms(2) leaves_HandleSmsByType [OF assms]
    by (cases message) (auto simp: HandleReceivedSms_def cdma_handler_def intro!: leaves_ret leaves_bnd [OF leaves_HandleSmsByType [OF assms(1)]] leaves_ignore leaves_reply)
  have "leaves (no_pdu rows) (\<lambda>_. True) (bnd (Cdma_ReplySmsToSmsc r) (\<lambda>ok. if ok then upd (\<lambda>s. s\<lparr>smsBaseMessageQueue := smsBaseMessageQueue s @ [m]\<rparr>) else ret ()))"
    if "bare m" for m r
    by (intro leaves_bnd [OF leaves_reply] leaves_if leaves_upd leaves_ret) (use that in \<open>simp_all add: no_pdu_def\<close>)
  then show "leaves (no_pdu rows) (\<lambda>_. True) (HandleReceivedSmsWithoutDataShare (cdma_handler env wap) message)"
    using assms(2) by (cases message)
      (auto simp: HandleReceivedSmsWithoutDataShare_def cdma_handler_def intro!: leaves_ret leaves_bnd [OF leaves_HandleAck])
qed

lemma leaves_drain_queue:
  assumes "page_table (ds env) rows"
  shows "leaves (no_pdu rows) (\<lambda>_. True) (drain_queue (cdma_handler env wap) n)"
proof (induction n)
  case (Suc n)
  have tail: "list_all bare q \<Longrightarrow> list_all bare (tl q)" for q by (cases q) simp_all
  have pop: "leaves (no_pdu rows) (\<lambda>_. True) (upd (\<lambda>s. s\<lparr>smsBaseMessageQueue := tl (smsBaseMessageQueue s)\<rparr>))"
    by (rule leaves_upd) (simp add: no_pdu_def tail)
  have step: "leaves (no_pdu rows) (\<lambda>_. True) (case q of [] \<Rightarrow> fault | m # _ \<Rightarrow> seq (vh_remain (cdma_handler env wap) m) (
      seq (upd (\<lambda>s. s\<lparr>smsBaseMessageQueue := tl (smsBaseMessageQueue s)\<rparr>)) (drain_queue (cdma_handler env wap) n)))" if "list_all bare q" for q
    using that Suc pop leaves_HandleRemainDataShare [OF assms] by (cases q) (auto simp: cdma_handler_def intro!: leaves_seq leaves_fail)
  show ?case unfolding drain_queue.simps
    by (rule leaves_bnd [OF leaves_gets [where K = "list_all bare"]]) (simp add: no_pdu_def, rule step)
qed (simp add: leaves_ret)

lemma leaves_ReceiveEvent:
  assumes "page_table (ds env) rows"
  shows "leaves (no_pdu rows) (\<lambda>_. True) (ReceiveEvent (cdma_handler env wap) env improved ev)"
proof -
  have queue: "leaves (no_pdu rows) (\<lambda>_. True) (HandleMessageQueue (cdma_handler env wap))" unfolding HandleMessageQueue_def
    by (intro leaves_seq leaves_bnd [OF leaves_gets [where K = "\<lambda>_. True"]] leaves_drain_queue [OF assms] leaves_put_out leaves_inert) simp_all
  have reconnect: "leaves (no_pdu rows) (\<lambda>_. True) (HandleReconnectEvent (cdma_handler env wap) env)" unfolding HandleReconnectEvent_def
    by (intro leaves_if leaves_seq leaves_bnd [OF leaves_gets [where K = "\<lambda>_. True"]] queue leaves_locks leaves_put_out leaves_inert) simp_all
  have transform: "leaves (no_pdu rows) (\<lambda>r. \<forall>m. r = Some m \<longrightarrow> bare m) (vh_transform (cdma_handler env wap) i)" for i
    by (simp add: cdma_handler_def leaves_TransformMessageInfo)
  have reply: "leaves (no_pdu rows) (\<lambda>_. True) (ignore (vh_reply (cdma_handler env wap) r))" for r
    by (simp add: cdma_handler_def leaves_reply leaves_ignore)
  have sms: "leaves (no_pdu rows) (\<lambda>_. True) (HandleSmsEvent (cdma_handler env wap) env i)" for i unfolding HandleSmsEvent_def
    by (intro leaves_if leaves_seq reply leaves_locks leaves_bnd [OF transform] leaves_bnd [OF leaves_gets [where K = "\<lambda>_. True"]] leaves_received [OF assms]
        leaves_put_out leaves_inert) simp_all
  show ?thesis unfolding ReceiveEvent_def
    by (cases ev) (simp_all add: sms reconnect leaves_locks leaves_ret leaves_put_out)
qed

section \<open>Runs of the handler\<close>

text \<open>
  The states a handler comes to from \<open>s\<close> by the events it gets: messages, timeouts, attempts to connect. What surrounds it may change from one event to the next, apart
  from the service with the table.
\<close>

inductive cdma_run :: "'d datashare \<Rightarrow> ('d, CdmaSmsMessage) receiver \<Rightarrow> ('d, CdmaSmsMessage) receiver \<Rightarrow> bool" for D s where
  cdma_start: "cdma_run D s s"
| cdma_event: "cdma_run D s t \<Longrightarrow> ds env = D \<Longrightarrow> ReceiveEvent (cdma_handler (env :: 'd cdma_receive_env) wap) env improved ev t = Ok () u \<Longrightarrow> cdma_run D s u"

lemma run_no_pdu:
  assumes "cdma_run D s t" "page_table D rows" "no_pdu rows s"
  shows "no_pdu rows t"
  using assms(1)
proof induction
  case (cdma_event t env wap improved ev u)
  with leavesD [OF leaves_ReceiveEvent] assms(2) show ?case by blast
qed (rule assms(3))

section \<open>Acknowledgements\<close>

text \<open>What the octets of a PDU are decoded to; \<open>None\<close> if decoding accesses memory outside an array. The headers of a message are read without fault.\<close>

definition cdma_message_of :: "('d, 'e) cdma_receive_env_scheme \<Rightarrow> bytes \<Rightarrow> CdmaSmsMessage option option" where
  "cdma_message_of env pdu = (case Cdma_CreateMessage (cdma_received_env env) (StringToHex pdu) () of Ok r _ \<Rightarrow> Some r | _ \<Rightarrow> None)"

definition cdma_headers_read :: "CdmaSmsMessage \<Rightarrow> bool" where
  "cdma_headers_read m \<longleftrightarrow> (\<exists>c m'. GetConcatMsg m = Ok c m')"

lemma concat_again:
  assumes "GetConcatMsg m = Ok c m'"
  shows "GetConcatMsg (m\<lparr>smsConcat := d\<rparr>) = Ok c (m\<lparr>smsConcat := c\<rparr>)" "IsConcatMsg (m\<lparr>smsConcat := d\<rparr>) = Ok (c \<noteq> None) (m\<lparr>smsConcat := c\<rparr>)"
proof -
  have "scan_headers concat_of m = Ok c m"
    using assms by (cases "first_header concat_of (smsUserData m) 0 (unat (headerCnt (smsUserData m))) m")
      (auto simp: GetConcatMsg_def op_simps scan_headers_def dest!: first_header_same)
  from scan_headers_state [OF this, of "m\<lparr>smsConcat := d\<rparr>"]
  show "GetConcatMsg (m\<lparr>smsConcat := d\<rparr>) = Ok c (m\<lparr>smsConcat := c\<rparr>)" "IsConcatMsg (m\<lparr>smsConcat := d\<rparr>) = Ok (c \<noteq> None) (m\<lparr>smsConcat := c\<rparr>)"
    by (simp_all add: GetConcatMsg_def IsConcatMsg_def op_simps)
qed

lemma headers_readD:
  assumes "cdma_headers_read m"
  shows "\<exists>c. IsConcatMsg m = Ok (c \<noteq> None) (m\<lparr>smsConcat := c\<rparr>) \<and> GetConcatMsg (m\<lparr>smsConcat := c\<rparr>) = Ok c (m\<lparr>smsConcat := c\<rparr>)"
proof -
  obtain c m' where "GetConcatMsg m = Ok c m'" using assms by (auto simp: cdma_headers_read_def)
  from concat_again [OF this] concat_again(2) [OF this, of "smsConcat m"] show ?thesis by auto
qed

lemma cdma_page_returns:
  assumes "cdma_headers_read m" "bare m"
  shows "\<exists>x m'. cdma_page m = Ok (Some x) m' \<and> bare_page x \<and> cdma_headers_read m'"
proof -
  obtain c where c: "IsConcatMsg m = Ok (c \<noteq> None) (m\<lparr>smsConcat := c\<rparr>)" "GetConcatMsg (m\<lparr>smsConcat := c\<rparr>) = Ok c (m\<lparr>smsConcat := c\<rparr>)"
    using headers_readD [OF assms(1)] by blast
  then have "\<exists>x. cdma_page m = Ok (Some x) (m\<lparr>smsConcat := c\<rparr>)" by (cases c) (simp_all add: cdma_page_def op_simps)
  with c(2) bare_pages [OF assms(2)] show ?thesis by (auto simp: cdma_headers_read_def)
qed

context receiver_invariant
begin

lemma returns_DeleteExpire [returns_intros]:
  assumes "stoi (expire_value env) \<noteq> None"
  shows "returns I (DeleteExpireSmsFromDB env)"
  using assms unfolding DeleteExpireSmsFromDB_def Let_def expire_value_def [symmetric] by (auto intro!: returns_intros)

lemma returns_cdma_repeated:
  assumes "cdma_headers_read m"
  shows "returns I (repeated_part D x m)"
proof -
  obtain b m' where "IsConcatMsg m = Ok b m'" using headers_readD [OF assms] by blast
  then show ?thesis by (auto simp: repeated_part_def IsRepeatedMessagePart_def bnd_with_new intro!: returns_intros)
qed

lemma returns_Cdma_HandleSmsByType:
  assumes "cdma_headers_read m" "bare m" "iconv_bounded (env_iconv env)" "stoi (expire_value env) \<noteq> None"
  shows "returns I (Cdma_HandleSmsByType env wap (Some m))"
proof -
  obtain x m' where x: "cdma_page m = Ok (Some x) m'" "bare_page x" "cdma_headers_read m'" using cdma_page_returns [OF assms(1,2)] by blast
  have combine: "returns I (CombineMessagePart env wap (x\<lparr>ri_dataBaseId := i\<rparr>))" for i
    by (rule returns_CombineMessagePart [OF assms(3)]) (use x(2) in \<open>simp add: bare_page_def GetIsWapPushMsg_def WAP_PUSH_PORT_def\<close>)
  have add: "returns I (bnd (AddMsgToDB env x) (\<lambda>(ok, x). if \<not> ok then ret SMS_ACK_UNKNOWN_ERROR
      else bnd (DeleteExpireSmsFromDB env) (\<lambda>ok. if \<not> ok then ret SMS_ACK_UNKNOWN_ERROR else seq (CombineMessagePart env wap x) (ret SMS_ACK_RESULT_OK))))"
    unfolding AddMsgToDB_def bnd_assoc
  proof (rule returns_bnd [OF returns_persist(2)])
    fix y :: "bool \<times> int"
    have "returns I (if \<not> b then ret SMS_ACK_UNKNOWN_ERROR else bnd (DeleteExpireSmsFromDB env) (\<lambda>ok. if \<not> ok then ret SMS_ACK_UNKNOWN_ERROR
        else seq (CombineMessagePart env wap (x\<lparr>ri_dataBaseId := i\<rparr>)) (ret SMS_ACK_RESULT_OK)))" for b i
      by (intro returns_intros combine returns_DeleteExpire [OF assms(4)])
    then show "returns I (bnd (case y of (r, i) \<Rightarrow> ret (r, x\<lparr>ri_dataBaseId := i\<rparr>)) (\<lambda>(ok, x). if \<not> ok then ret SMS_ACK_UNKNOWN_ERROR
        else bnd (DeleteExpireSmsFromDB env) (\<lambda>ok. if \<not> ok then ret SMS_ACK_UNKNOWN_ERROR else seq (CombineMessagePart env wap x) (ret SMS_ACK_RESULT_OK))))"
      by (cases y) (simp add: bnd_ret)
  qed
  show ?thesis unfolding Cdma_HandleSmsByType_def HandleSmsByType_cases_def HandleSmsOtherSvcid_def SendCBBroadcast_def option.case bnd_with_new [of cdma_page, OF x(1)] prod.case
    by (intro returns_intros returns_cdma_repeated [OF x(3)] add) simp_all
qed

lemma returns_Cdma_HandleAck:
  assumes "cdma_headers_read m"
  shows "returns I (Cdma_HandleAck env m)"
proof -
  obtain c where c: "IsConcatMsg m = Ok (c \<noteq> None) (m\<lparr>smsConcat := c\<rparr>)" "GetConcatMsg (m\<lparr>smsConcat := c\<rparr>) = Ok c (m\<lparr>smsConcat := c\<rparr>)"
    using headers_readD [OF assms] by blast
  then have "returns I (bnd (with_new m IsConcatMsg) (\<lambda>(isConcat, m). if isConcat then
      bnd (with_new m GetConcatMsg) (\<lambda>(c, m). ret (if c = None then SMS_ACK_UNKNOWN_ERROR else SMS_ACK_RESULT_OK, m)) else ret (SMS_ACK_RESULT_OK, m)))"
    by (simp add: bnd_with_new [of IsConcatMsg, OF c(1)] bnd_with_new [of GetConcatMsg, OF c(2)] returns_ret)
  then show ?thesis unfolding Cdma_HandleAck_def SendCBBroadcast_def by (intro returns_if returns_seq returns_put_out returns_ret) simp_all
qed

end

lemma Cdma_received_acks:
  assumes "cdma_headers_read m" "bare m" "iconv_bounded (env_iconv env)" "stoi (expire_value env) \<noteq> None"
  shows "\<exists>t. HandleReceivedSms (cdma_handler env wap) (Some m) s = Ok () t \<and> acknowledged (acks s) t"
    "\<exists>t. HandleReceivedSmsWithoutDataShare (cdma_handler env wap) (Some m) s = Ok () t \<and> acknowledged (acks s) t"
proof -
  obtain k t where "Cdma_HandleSmsByType env wap (Some m) s = Ok k t" "acks t = acks s"
    using returnsD [OF ack_inv.returns_Cdma_HandleSmsByType [OF assms, of "acks s" wap], of s] by auto
  then show "\<exists>t. HandleReceivedSms (cdma_handler env wap) (Some m) s = Ok () t \<and> acknowledged (acks s) t"
    by (simp add: HandleReceivedSms_def cdma_handler_def op_simps Cdma_ReplySmsToSmsc_def put_out_def acknowledged_def acks_def is_ack_def)
  obtain y u where "Cdma_HandleAck env m s = Ok y u" "acks u = acks s"
    using returnsD [OF ack_inv.returns_Cdma_HandleAck [OF assms(1), of "acks s" env], of s] by auto
  then show "\<exists>t. HandleReceivedSmsWithoutDataShare (cdma_handler env wap) (Some m) s = Ok () t \<and> acknowledged (acks s) t"
    by (cases y) (simp add: HandleReceivedSmsWithoutDataShare_def cdma_handler_def op_simps Cdma_ReplySmsToSmsc_def put_out_def acknowledged_def
        acks_def is_ack_def)
qed

lemma cdma_sms_acknowledged:
  assumes "iconv_bounded (env_iconv env)" "stoi (expire_value env) \<noteq> None" "cdma_message_of env pdu = Some (Some m)" "cdma_headers_read m"
  shows "\<exists>t. HandleSmsEvent (cdma_handler env wap) env (Some pdu) s = Ok () t \<and> acknowledged (acks s) t"
proof (cases "sms_disabled env")
  case True
  then show ?thesis
    by (simp add: HandleSmsEvent_def cdma_handler_def op_simps Cdma_ReplySmsToSmsc_def put_out_def acknowledged_def acks_def is_ack_def)
next
  case False
  have m: "Cdma_CreateMessage (cdma_received_env env) (StringToHex pdu) () = Ok (Some m) ()"
    using assms(3) by (auto simp: cdma_message_of_def split: outcome.splits)
  note ok = Cdma_received_acks [OF assms(4) created_bare [OF m] assms(1,2), of wap]
  obtain s' where s': "ApplyRunningLock env s = Ok () s'" "acks s' = acks s"
    using returnsD [OF ack_inv.returns_locks [of "acks s" env], of s] by auto
  obtain t u where "HandleReceivedSms (cdma_handler env wap) (Some m) s' = Ok () t" "acknowledged (acks s) t"
      "HandleReceivedSmsWithoutDataShare (cdma_handler env wap) (Some m) s' = Ok () u" "acknowledged (acks s) u"
    using ok [of s'] s'(2) by auto
  moreover have "acks (u\<lparr>r_outs := r_outs u @ [SendEvent i k]\<rparr>) = acks u" for u :: "('a, CdmaSmsMessage) receiver" and i k
    by (simp add: acks_def)
  moreover have "vh_transform (cdma_handler env wap) (Some pdu) = ret (Some m)"
    using m by (auto simp: cdma_handler_def Cdma_TransformMessageInfo_def bnd_def with_new_def ret_def)
  ultimately show ?thesis using False s'(1)
    by (auto simp: HandleSmsEvent_def op_simps put_out_def acknowledged_def)
qed

section \<open>Messages without a PDU\<close>

text \<open>
  C39. Messages received on a CDMA network lose their PDU. Start a handler with an empty table and let it get any events, in any order: PDUs of any octets, with the table
  service ready or not, timeouts and attempts to connect again. Whenever an event announces a short message to the applications, the list of PDUs it carries is empty, and it is
  a message of one part: \<^verbatim>\<open>CdmaSmsMessage::CreateMessage\<close> does not set the raw PDU from which the list is made, and pages without a PDU never make up a message.
\<close>

theorem cdma_publishes_no_pdu:
  assumes "page_table D rows" "rows (store s) = []" "smsBaseMessageQueue s = []" "r_outs s = []" "cdma_run D s t"
  shows "\<forall>e \<in> set (events t). ev_pdus e = [] \<and> ev_msgCount e = 1"
proof -
  have "no_pdu rows s" using assms(2-4) by (simp add: no_pdu_def events_def)
  from run_no_pdu [OF assms(5,1) this] show ?thesis by (simp add: no_pdu_def)
qed

text \<open>The text \<^verbatim>\<open>a\<close> from the number 1 as a delivered message.\<close>

definition cdma_sample :: bytes where
  "cdma_sample = [0, 0, 2, 0x10, 0x02, 2, 2, 0x00, 0x44, 8, 10, 0, 3, 0x10, 0x00, 0x10, 1, 3, 0x10, 0x0E, 0x10]"

definition cdma_example :: "page_row list cdma_receive_env" where
  "cdma_example = receive_env.extend receive_example (cdma_receive_env.fields zero_overlay (\<lambda>_. replicate 400 0) [] True)"

definition cdma_idle :: "(page_row list, CdmaSmsMessage) receiver" where
  "cdma_idle = \<lparr>store = [], smsBaseMessageQueue = [], alreadySendEvent = False, reconnectDataShareCount = 0,
     smsRunningLock = False, smsRunningLockCount = 0, smsLockSerialNum = 0, r_outs = []\<rparr>"

definition cdma_after :: "(page_row list, CdmaSmsMessage) receiver" where
  "cdma_after = (case ReceiveEvent (cdma_handler cdma_example (\<lambda>_ _. ret True)) cdma_example False (RADIO_CDMA_SMS (Some cdma_sample)) cdma_idle of Ok _ t \<Rightarrow> t | _ \<Rightarrow> cdma_idle)"

lemma cdma_after_event: "ReceiveEvent (cdma_handler cdma_example (\<lambda>_ _. ret True)) cdma_example False (RADIO_CDMA_SMS (Some cdma_sample)) cdma_idle = Ok () cdma_after"
proof -
  have "case ReceiveEvent (cdma_handler cdma_example (\<lambda>_ _. ret True)) cdma_example False (RADIO_CDMA_SMS (Some cdma_sample)) cdma_idle of Ok _ _ \<Rightarrow> True | _ \<Rightarrow> False"
    by code_simp
  then show ?thesis by (auto simp: cdma_after_def split: outcome.splits)
qed

theorem cdma_publishes_no_pdu_witness:
  "map (\<lambda>e. (ev_address e, ev_isCdma e)) (events cdma_after) = [([0x31], True)] \<and> list_all (\<lambda>e. ev_pdus e = [] \<and> ev_msgCount e = 1) (events cdma_after)"
proof
  show "map (\<lambda>e. (ev_address e, ev_isCdma e)) (events cdma_after) = [([0x31], True)]" by code_simp
  have "cdma_run list_share cdma_idle cdma_after"
    by (rule cdma_event [OF cdma_start _ cdma_after_event]) (simp add: cdma_example_def receive_example_def receive_env.defs)
  from cdma_publishes_no_pdu [OF list_share_table _ _ _ this] show "list_all (\<lambda>e. ev_pdus e = [] \<and> ev_msgCount e = 1) (events cdma_after)"
    by (simp add: cdma_idle_def list_all_iff)
qed

end
