(* ===== verification/Spec2Isabelle.thy ===== *)
theory Spec2Isabelle
  imports Gsm_Sms_Delivery Sms_Send_Manager Sms_Receive_Recovery Sms_Receive_Acks Mms_Api Mms_Msg_Layout Wap_Push_Layout Cdma_Safety Cdma_Sms_Delivery Cdma_Receive
begin

text \<open>
  \<^bold>\<open>The telephony SMS/MMS service.\<close> The service sends and receives short messages for applications: it turns text into protocol
  data units (PDUs) for the modem, and the PDUs of the network into messages; it also takes WAP pushes apart and encodes and decodes multimedia
  messages. This library models the GSM side and the CDMA side, from the application's text to the octets handed to the modem and
  from the octets of the network to what is published, the WAP push handler and the MMS codec.

  \<^bold>\<open>Parts and how they interact.\<close> An application's text goes to \<^verbatim>\<open>SmsSendManager\<close>, which passes it to the GSM or the CDMA sender
  by the network the \<^verbatim>\<open>SmsNetworkPolicyManager\<close> knows. \<^verbatim>\<open>GsmSmsSender\<close> has the text split by \<^verbatim>\<open>SmsBaseMessage::SplitMessage\<close>,
  has a \<^verbatim>\<open>GsmSmsMessage\<close> build and encode one \<^verbatim>\<open>SmsTpdu\<close> for each segment, puts a \<^verbatim>\<open>SmsSendIndexer\<close> for it into the cache and
  hands the octets to the modem; the answers come back as events, and \<^verbatim>\<open>SmsSender\<close> counts them, schedules retries and
  reports one result for the message. Received octets become a message object by \<^verbatim>\<open>GsmSmsMessage::CreateMessage\<close>; \<^verbatim>\<open>SmsReceiveHandler\<close>
  stores each page in a table, publishes the message when all its pages are there, and acknowledges it; after a restart
  \<^verbatim>\<open>SmsReceiveReliabilityHandler\<close> publishes what the table still holds. The codec below,
  \<^verbatim>\<open>GsmSmsTpduCodec::EncodeSmsPdu\<close> and \<^verbatim>\<open>DecodeSmsPdu\<close>, works on one \<^verbatim>\<open>SmsPduBuffer\<close>, which its parts share as mutable state:
  the TPDU codec writes or reads the first octet and calls the parameter codec for addresses, the data
  coding scheme and time stamps, and the user data codec for headers and text, which calls the septet
  packing of the common utilities. The text itself is converted between UTF-8, UCS-2 and the GSM alphabets
  by the text coder. On a CDMA network \<^verbatim>\<open>CdmaSmsSender\<close> and \<^verbatim>\<open>CdmaSmsReceiveHandler\<close> take the place of the GSM classes; a \<^verbatim>\<open>CdmaSmsMessage\<close> is
  encoded as a transport message of parameter records, one of which holds a teleservice message of sub-parameters, over the same
  \<^verbatim>\<open>SmsPduBuffer\<close>. A message to the WAP port goes to \<^verbatim>\<open>SmsWapPushHandler\<close>, which publishes its content; applications
  decode a multimedia message with \<^verbatim>\<open>MmsMsg\<close> and build one with its setters and attachments.

  \<^bold>\<open>Theories and the code they model.\<close>
  \<^item> \<open>Sms_Prelude\<close>: machine words, operations that return a value, fail or fault, and the rules that carry invariants through
    them. A member function that works on mutable state is an operation \<open>('s, 'a) op\<close>; \<open>Ok\<close> is \<^verbatim>\<open>true\<close>, \<open>Fail\<close> is \<^verbatim>\<open>false\<close> with the
    state reached, \<open>Fault\<close> is an access outside an array.
  \<^item> \<open>Sms_Pdu_Buffer\<close>: \<^verbatim>\<open>services/sms/sms_pdu_buffer.cpp\<close>. The record has the members of the class; \<open>wf_pdu\<close> is the
    class invariant. The interfaces to the codecs are the locales \<open>byte_source\<close> and \<open>byte_sink\<close>, interpreted on \<^verbatim>\<open>ReadByte\<close> and
    \<^verbatim>\<open>WriteByte\<close>; \<open>zb\<close> views a buffer in byte mode as a zipper.
  \<^item> \<open>Gsm_Common_Utils\<close>: \<^verbatim>\<open>services/sms/gsm/gsm_sms_common_utils.cpp\<close>, septet packing and BCD digits.
  \<^item> \<open>Text_Coder\<close>: \<^verbatim>\<open>utils/text_coder.cpp\<close>, the alphabets and conversions, with the tables of the source.
  \<^item> \<open>Gsm_Pdu_Types\<close>: the structs of \<^verbatim>\<open>sms_pdu_code_type.h\<close> and \<^verbatim>\<open>gsm_pdu_code_type.h\<close>; unions are datatypes.
  \<^item> \<open>Gsm_Param_Codec\<close>: \<^verbatim>\<open>gsm_sms_param_encode.cpp\<close>, \<^verbatim>\<open>gsm_sms_param_decode.cpp\<close>, \<^verbatim>\<open>gsm_sms_param_codec.cpp\<close>.
    \<open>Gsm_Param_Layout\<close> compares coding schemes, time stamps and service centre addresses with TS 23.038 and TS 23.040.
  \<^item> \<open>Gsm_User_Data\<close>: \<^verbatim>\<open>gsm_user_data_pdu.cpp\<close>, \<^verbatim>\<open>gsm_user_data_encode.cpp\<close>, \<^verbatim>\<open>gsm_user_data_decode.cpp\<close>.
    \<open>Gsm_User_Data_Layout\<close> has the octets of headers and text; the locale \<open>wire_format\<close> is the interface to the
    coding of one header, interpreted on \<^verbatim>\<open>EncodeHeader\<close> and \<^verbatim>\<open>DecodeHeader\<close>.
  \<^item> \<open>Gsm_Tpdu\<close>: \<^verbatim>\<open>gsm_sms_tpdu_encode.cpp\<close>, \<^verbatim>\<open>gsm_sms_tpdu_decode.cpp\<close>, \<^verbatim>\<open>gsm_sms_tpdu_codec.cpp\<close>.
    \<open>Gsm_Tpdu_Layout\<close> has the octets of whole messages; the locales \<open>user_data_wire\<close> and \<open>delivered_data\<close> are the interface of the
    message types to the user data codec, interpreted once per alphabet.
  \<^item> \<open>String_Utils\<close>: \<^verbatim>\<open>utils/string_utils.cpp\<close>, hexadecimal strings and the parts of URLs.
  \<^item> \<open>Sms_Base_Message\<close>: \<^verbatim>\<open>services/sms/sms_base_message.cpp\<close>, the message object, its queries and the splitting of texts; the
    virtual \<^verbatim>\<open>DecodeMessage\<close> is the locale \<open>message_decoder\<close>. \<open>Gsm_Decoded_Data\<close>: what a decoded PDU is known to satisfy.
    \<open>Gsm_Sms_Message\<close>: \<^verbatim>\<open>gsm_sms_message.cpp\<close>; it interprets the locale as \<open>gsm_text\<close>.
  \<^item> \<open>Sms_Sender\<close>: \<^verbatim>\<open>sms_sender.cpp\<close> and \<^verbatim>\<open>sms_send_indexer.cpp\<close>. Indexers are shared pointers, so the state has a heap of them
    (\<open>indexers\<close>) and of the flags their parts share (\<open>cell_flags\<close>); what is sent or reported is the list \<open>outs\<close>.
    \<open>Gsm_Sms_Sender\<close>: \<^verbatim>\<open>gsm_sms_sender.cpp\<close>. \<open>Gsm_Sms_Delivery\<close> composes splitting, encoding and sending.
  \<^item> \<open>Sms_Send_Manager\<close>: \<^verbatim>\<open>sms_send_manager.cpp\<close> and \<^verbatim>\<open>sms_network_policy_manager.cpp\<close>; \<open>sender_ops\<close> is the table of a sender's
    virtual functions.
  \<^item> \<open>Sms_Receive_Reliability\<close>: \<^verbatim>\<open>sms_receive_indexer.cpp\<close>, the access to the table of pages in \<^verbatim>\<open>sms_persist_helper.cpp\<close> and
    \<^verbatim>\<open>sms_receive_reliability_handler.cpp\<close>. \<open>Sms_Receive_Handler\<close>: \<^verbatim>\<open>sms_receive_handler.cpp\<close> and \<^verbatim>\<open>gsm_sms_receive_handler.cpp\<close>;
    \<open>handler_ops\<close> is the table of the virtual functions. \<open>Sms_Reassembly\<close> follows the pages of one message as they arrive,
    \<open>Sms_Receive_Acks\<close> the acknowledgements and the queue (what every operation of a handler keeps is the locale
    \<open>receiver_invariant\<close>, interpreted as \<open>ack_inv\<close> and \<open>queue_inv\<close>), \<open>Sms_Receive_Recovery\<close> the restart.
  \<^item> CDMA: \<open>Sms_Common_Utils\<close> is \<^verbatim>\<open>utils/sms_common_utils.cpp\<close>; \<open>Cdma_Types\<close> has the structs of \<^verbatim>\<open>cdma_sms_common.h\<close>; \<open>Cdma_Sub_Parameter\<close>, \<open>Cdma_User_Data\<close> and
    \<open>Cdma_Voice_Mail\<close> model \<^verbatim>\<open>cdma_sms_sub_parameter.cpp\<close>, \<open>Cdma_Teleservice\<close> \<^verbatim>\<open>cdma_sms_teleservice_message.cpp\<close>, \<open>Cdma_Transport\<close>
    \<^verbatim>\<open>cdma_sms_parameter_record.cpp\<close> and \<^verbatim>\<open>cdma_sms_transport_message.cpp\<close>, \<open>Cdma_Sms_Message\<close>, \<open>Cdma_Sms_Sender\<close> and \<open>Cdma_Receive_Handler\<close> the files of these names.
    Decoding has two passes: the first builds a list of decoders, the second runs them; the model has both. \<open>Cdma_Fields\<close> says what
    octets a sequence of bit fields is; the locales \<open>array_member\<close>, \<open>number_member\<close> and \<open>cdma_param\<close> are the interfaces of an array in a struct and of a
    parameter that is written and read back, interpreted for each parameter in \<open>Cdma_Param_Layout\<close>, \<open>Cdma_Address_Layout\<close> and \<open>Cdma_User_Data_Layout\<close>.
    \<open>Cdma_Items\<close> (locale \<open>struct_member\<close>) and \<open>Cdma_Msg_Layout\<close> put them together to whole messages. \<open>Cdma_Safety\<close> has the invariants of the decoders, \<open>Cdma_Sms_Delivery\<close>
    the way of a text to the air (it interprets \<open>message_decoder\<close> as \<open>cdma_text\<close>), \<open>Cdma_Receive\<close> what becomes of received messages.
  \<^item> MMS: \<open>Mms_Buffer\<close> models the decode and encode buffers, \<open>Mms_Content\<close> strings, addresses, content types and their parameters, \<open>Mms_Header\<close>
    \<^verbatim>\<open>mms_header.cpp\<close> with its tables, \<open>Mms_Body_Part\<close> the parts, their headers and attachments, \<open>Mms_Msg\<close> \<^verbatim>\<open>mms_body.cpp\<close> and \<^verbatim>\<open>mms_msg.cpp\<close>. \<open>Wsp_Values\<close> interprets \<open>byte_source\<close>
    and \<open>byte_sink\<close> on these buffers; its locale \<open>wsp_value\<close> is a value that is encoded and decoded, interpreted for integers, texts, strings and content
    types (\<open>Mms_Content_Layout\<close>). \<open>Mms_Header_Layout\<close>, \<open>Mms_Body_Layout\<close> and \<open>Mms_Msg_Layout\<close> have the octets of a message. \<open>Mms_Api\<close> is about what
    applications build: the locale \<open>header_invariant\<close> is what every setter keeps, interpreted as \<open>typed\<close> and \<open>unread\<close>; \<open>attached\<close> records which attachments were added.
  \<^item> WAP push: \<open>Wap_Buffer\<close> models \<^verbatim>\<open>sms_wap_push_buffer.cpp\<close> and compares it with the MMS buffer, \<open>Wap_Push\<close> \<^verbatim>\<open>sms_wap_push_content_type.cpp\<close> and
    \<^verbatim>\<open>sms_wap_push_handler.cpp\<close>; \<open>Wap_Push_Layout\<close> has the octets of a push.

  \<^bold>\<open>What the lemmas show.\<close> Memory safety: whatever octets arrive, decoding them never leaves an array and ends, for GSM
  (\<open>DecodeSmsPdu_safe\<close>, \<open>CreateMessage_safe\<close>), CDMA (\<open>cdma_decode_safe\<close>), WAP push (\<open>DecodeWapPushPdu_safe\<close>) and MMS (\<open>DecodeMsg_safe\<close>), by the invariant rules of each
  component; any sequence of buffer calls keeps the class invariant. Round trips at every level: bit fields, septets, BCD digits, text, addresses, coding schemes,
  user data with headers, whole submitted messages of both networks and a multimedia message with its parts. Composition: a text that is sent is split
  into segments that fit and together are the text, each decodes at the receiver to what was meant (\<open>text_on_air\<close>, \<open>cdma_text_on_air\<close>), and when each part gets a
  final answer the application hears exactly one result (\<open>text_reported_once\<close>); retries end. Receiving: the pages of a message
  in any order and with repetitions are published exactly once and in order (\<open>message_reassembled\<close>); a decoded message that is not a WAP push is acknowledged
  once (\<open>sms_acknowledged_once\<close>); after a restart complete messages are published (\<open>recovery_publishes\<close>). MMS: attachments that were added are read
  back, and no file outside the directories of applications is read. Layout: what is written and understood is what the
  specifications prescribe, as numbers to base 128 for septets and as octet lists elsewhere. Where
  the code departs from that, a theorem states what it does instead: parts that wait for a retry while success is reported, queued messages that are
  stranded, pages of two senders that are mixed, CDMA messages that are published without a PDU, read reports that cannot be built.

  \<^bold>\<open>Parameters.\<close> \<^verbatim>\<open>iconv\<close> is not part of the repository: it is the argument \<open>ic\<close> of the
  definitions that convert text, and the only assumption about it (\<open>iconv_bounded\<close>) is that it does not write more
  than it was given room for; \<open>wsize\<close> is \<^verbatim>\<open>sizeof(WCHAR)\<close>, 4 or 8 with the target. The break iterator of ICU, the clock, the
  configuration, the radio, IMS, satellite and power services are fields of the environment records \<open>sms_env\<close>, \<open>sender_env\<close> and \<open>receive_env\<close>; files, real paths,
  base64 and the conversion of character sets are fields of \<open>mms_env\<close>. The data share service that owns the table of pages is the record \<open>datashare\<close>; \<open>page_table\<close> says
  that it is a table. Reading a member of the union of teleservice messages other than the one that was written is the parameter \<open>tele_overlay\<close>, and the octets of the
  struct of user data, which one conversion reads by mistake, are \<open>ce_ud_bytes\<close> (\<open>se_ud_bytes\<close>, \<open>re_ud_bytes\<close> in the environments of sender and receive handler);
  \<open>empty_data_null\<close> is whether the data pointer of an empty vector is null. The receive handler and the recovery take the WAP push handler as the argument \<open>wap\<close>, an
  operation on the state of the receiver: \<open>DecodeWapPushPdu\<close> of \<open>Wap_Push\<close> has a state of its own and is not plugged in, so theorems about
  receiving either hold for every \<open>wap\<close>, or exclude WAP pushes, or say what they assume of it. The members that are static
  in \<^verbatim>\<open>SmsSender\<close> are fields of one sender record; the two senders of a slot share them, senders of different slots are not related.

  \<^bold>\<open>Bounds and termination.\<close> Loops are structural recursions or have a measure, with two exceptions that have fuel: the loops
  \<open>cmas_records\<close> over the records of an alert and \<open>find_message_type\<close> over the sub-parameters. Each round consumes at least one octet of a buffer of at most 256,
  so fuel 257 is enough; running out of it is \<open>Fault\<close>, and \<open>cdma_decode_safe\<close> shows that it does not happen. Lengths are those of the source: 256 octets
  of buffer, 160 septets or 140 octets of user data, 7 headers, 21 characters of address, \<^verbatim>\<open>MMS_PDU_MAX_SIZE\<close> octets of a multimedia message.

  \<^bold>\<open>What is not modelled.\<close> Cell broadcast on GSM networks, a path of its own from the radio to the applications (that of CDMA is in \<open>Cdma_Receive_Handler\<close>);
  short codes, which are rules read from a file and matched by the regular expressions of the platform; the manager of messages on the SIM card and of the ranges of broadcast
  channels; the HTTP transport of multimedia messages; bindings to JavaScript and C, the inter-process stubs and proxies,
  permission checks, database helpers, system events and logging, which are glue to services outside the repository.
\<close>

end
